(* ===== verification/Prelude.thy ===== *)
theory Prelude
  imports Main "HOL-Library.Word" "HOL-Library.List_Lexorder" "HOL-Library.Char_ord"
begin

section \<open>Shared vocabulary of the development\<close>

text \<open>
  What every component theory uses: the names of the C++ integer types, the ordered
  \<^verbatim>\<open>std::map\<close> as a strictly sorted association list, \<^verbatim>\<open>std::to_string\<close> on unsigned
  integers, searches that return a position (a C++ pointer into a vector is modelled by its index),
  and two interfaces as locales: \<open>ordered_map\<close>, the contract of a \<^verbatim>\<open>std::map\<close> that
  the registries rely on, and \<open>guarded_machine\<close>, the contract of a component whose operations
  keep an invariant.
\<close>

named_theorems frame_simps \<open>what an operation leaves unchanged\<close>
named_theorems inv_intros \<open>an operation keeps an invariant\<close>

type_synonym u8 = "8 word"
type_synonym u16 = "16 word"
type_synonym u32 = "32 word"
type_synonym u64 = "64 word"

unbundle bit_operations_syntax

subsection \<open>Searching a vector\<close>

fun index_of :: "('a \<Rightarrow> bool) \<Rightarrow> 'a list \<Rightarrow> nat option" where
  "index_of p [] = None"
| "index_of p (x # xs) = (if p x then Some 0 else map_option Suc (index_of p xs))"

lemma index_of_None [simp]: "index_of p xs = None \<longleftrightarrow> (\<forall>x\<in>set xs. \<not> p x)"
  by (induction xs) auto

lemma index_of_SomeD:
  "index_of p xs = Some i \<Longrightarrow> i < length xs \<and> p (xs ! i) \<and> (\<forall>j<i. \<not> p (xs ! j))"
proof (induction xs arbitrary: i)
  case (Cons x xs)
  then show ?case
    by (auto split: if_splits simp: less_Suc_eq_0_disj nth_Cons split: nat.splits)
qed simp

lemmas index_of_lt = index_of_SomeD [THEN conjunct1]
lemmas index_of_sat = index_of_SomeD [THEN conjunct2, THEN conjunct1]

lemma index_of_SomeI:
  "i < length xs \<Longrightarrow> p (xs ! i) \<Longrightarrow> (\<And>j. j < i \<Longrightarrow> \<not> p (xs ! j)) \<Longrightarrow> index_of p xs = Some i"
proof (induction xs arbitrary: i)
  case (Cons x xs)
  show ?case
  proof (cases i)
    case 0
    with Cons.prems show ?thesis by simp
  next
    case (Suc k)
    have "\<not> p x" using Cons.prems(3)[of 0] Suc by simp
    moreover have "index_of p xs = Some k"
    proof (rule Cons.IH)
      show "\<not> p (xs ! j)" if "j < k" for j
        using Cons.prems(3)[of "Suc j"] Suc that by simp
    qed (use Cons.prems Suc in simp_all)
    ultimately show ?thesis using Suc by simp
  qed
qed simp

lemma map_list_update_same: "f q = f (xs ! i) \<Longrightarrow> map f (xs[i := q]) = map f xs"
  by (cases "i < length xs") (auto intro!: nth_equalityI simp: nth_list_update)

subsection \<open>Computations that may throw\<close>

text \<open>
  A C++ function that may throw returns a sum: \<open>Inl\<close> the exception, \<open>Inr\<close> the value.
  \<open>bindE\<close> sequences two such computations, \<open>mapE\<close> runs one for each element of a
  vector and stops at the first exception.
\<close>

definition bindE :: "'e + 'a \<Rightarrow> ('a \<Rightarrow> 'e + 'b) \<Rightarrow> 'e + 'b" where
  "bindE r f = (case r of Inl e \<Rightarrow> Inl e | Inr x \<Rightarrow> f x)"

definition requireE :: "bool \<Rightarrow> 'e \<Rightarrow> 'e + unit" where
  "requireE b e = (if b then Inr () else Inl e)"

fun mapE :: "('a \<Rightarrow> 'e + 'b) \<Rightarrow> 'a list \<Rightarrow> 'e + 'b list" where
  "mapE f [] = Inr []"
| "mapE f (x # xs) = bindE (f x) (\<lambda>y. bindE (mapE f xs) (\<lambda>ys. Inr (y # ys)))"

lemma bindE_simps [simp]: "bindE (Inl e) f = Inl e" "bindE (Inr x) f = f x"
  by (simp_all add: bindE_def)

text \<open>For evaluation: the continuation is only simplified once the value is there.\<close>

lemma bindE_weak_cong: "r = r' \<Longrightarrow> bindE r f = bindE r' f"
  by simp

lemma bindE_eq_Inr [simp]: "bindE r f = Inr y \<longleftrightarrow> (\<exists>x. r = Inr x \<and> f x = Inr y)"
  by (cases r) auto

lemma requireE_eq [simp]: "requireE b e = Inr u \<longleftrightarrow> b" "requireE True e = Inr ()" "requireE False e = Inl e"
  by (auto simp: requireE_def)

lemma mapE_length: "mapE f xs = Inr ys \<Longrightarrow> length ys = length xs"
  by (induction xs arbitrary: ys) auto

lemma mapE_list_all2: "mapE f xs = Inr ys \<longleftrightarrow> list_all2 (\<lambda>x y. f x = Inr y) xs ys"
proof (induction xs arbitrary: ys)
  case (Cons x xs)
  then show ?case by (cases ys) auto
qed auto

subsection \<open>Substrings\<close>

definition starts_with :: "'a list \<Rightarrow> 'a list \<Rightarrow> bool" where
  "starts_with s p \<longleftrightarrow> take (length p) s = p"

text \<open>\<^verbatim>\<open>std::string::find\<close> and \<^verbatim>\<open>rfind\<close>, with \<open>None\<close> for \<^verbatim>\<open>npos\<close>.\<close>

fun find_sub :: "'a list \<Rightarrow> 'a list \<Rightarrow> nat option" where
  "find_sub p [] = (if p = [] then Some 0 else None)"
| "find_sub p (x # xs) = (if starts_with (x # xs) p then Some 0 else map_option Suc (find_sub p xs))"

definition find_from :: "'a list \<Rightarrow> 'a list \<Rightarrow> nat \<Rightarrow> nat option" where
  "find_from s p pos = (if pos \<le> length s then map_option ((+) pos) (find_sub p (drop pos s)) else None)"

definition find_char :: "'a list \<Rightarrow> 'a \<Rightarrow> nat option" where
  "find_char s c = index_of (\<lambda>x. x = c) s"

definition rfind_char :: "'a list \<Rightarrow> 'a \<Rightarrow> nat option" where
  "rfind_char s c = map_option (\<lambda>i. length s - 1 - i) (index_of (\<lambda>x. x = c) (rev s))"

lemma starts_with_append [simp]: "starts_with (p @ s) p"
  by (simp add: starts_with_def)

lemma starts_with_iff: "starts_with s p \<longleftrightarrow> (\<exists>r. s = p @ r)"
  by (metis append_eq_conv_conj starts_with_def append_take_drop_id)

lemma rfind_char_Some:
  "rfind_char s c = Some i \<Longrightarrow> i < length s \<and> s ! i = c \<and> c \<notin> set (drop (Suc i) s)"
proof -
  assume "rfind_char s c = Some i"
  then obtain j where j: "index_of (\<lambda>x. x = c) (rev s) = Some j" and i: "i = length s - 1 - j"
    by (auto simp: rfind_char_def)
  from index_of_SomeD [OF j] have lt: "j < length s" and at: "rev s ! j = c"
    and before: "\<forall>k<j. rev s ! k \<noteq> c" by auto
  have "c \<notin> set (drop (Suc i) s)"
  proof
    assume "c \<in> set (drop (Suc i) s)"
    then obtain k where k: "k < length s - Suc i" "s ! (Suc i + k) = c"
      by (auto simp: in_set_conv_nth)
    have "rev s ! (length s - 1 - (Suc i + k)) = c"
      using k lt i by (subst rev_nth) (auto simp: Suc_diff_Suc)
    moreover have "length s - 1 - (Suc i + k) < j" using k lt i by auto
    ultimately show False using before by blast
  qed
  with lt at i show ?thesis by (auto simp: rev_nth)
qed

lemma rfind_char_append: "c \<notin> set t \<Longrightarrow> rfind_char (s @ c # t) c = Some (length s)"
proof -
  assume "c \<notin> set t"
  then have "index_of (\<lambda>x. x = c) (rev t @ c # rev s) = Some (length t)"
    by (intro index_of_SomeI) (auto simp: nth_append in_set_conv_nth rev_nth)
  then show ?thesis by (simp add: rfind_char_def)
qed

lemma rfind_char_None [simp]: "rfind_char s c = None \<longleftrightarrow> c \<notin> set s"
  by (auto simp: rfind_char_def)

subsection \<open>An ordered map\<close>

text \<open>
  A \<^verbatim>\<open>std::map\<close> iterates in key order; strings compare as \<^verbatim>\<open>std::string\<close> does,
  lexicographically by unsigned byte. The map is the list of its entries in that order.
\<close>

type_synonym ('k, 'v) smap = "('k \<times> 'v) list"

definition smap_wf :: "('k::linorder, 'v) smap \<Rightarrow> bool" where
  "smap_wf m \<longleftrightarrow> sorted_wrt (<) (map fst m)"

definition smap_get :: "('k::linorder, 'v) smap \<Rightarrow> 'k \<Rightarrow> 'v option" where
  "smap_get m k = map_of m k"

definition smap_put :: "'k::linorder \<Rightarrow> 'v \<Rightarrow> ('k, 'v) smap \<Rightarrow> ('k, 'v) smap" where
  "smap_put k v m = takeWhile (\<lambda>e. fst e < k) m @ (k, v) # dropWhile (\<lambda>e. fst e \<le> k) m"

definition smap_entries :: "('k::linorder, 'v) smap \<Rightarrow> ('k \<times> 'v) list" where
  "smap_entries m = m"

lemma smap_put_Nil [simp]: "smap_put k v [] = [(k, v)]"
  by (simp add: smap_put_def)

lemma smap_put_Cons:
  assumes "smap_wf ((a, b) # m)"
  shows "smap_put k v ((a, b) # m) =
    (if a < k then (a, b) # smap_put k v m
     else if a = k then (k, v) # m else (k, v) # (a, b) # m)"
proof -
  have above: "\<forall>e\<in>set m. a < fst e"
    using assms by (auto simp: smap_wf_def)
  then have "dropWhile (\<lambda>e. fst e \<le> a) m = m"
    by (cases m) auto
  then show ?thesis by (auto simp: smap_put_def)
qed

lemma smap_wf_Cons: "smap_wf ((a, b) # m) \<longleftrightarrow> (\<forall>e\<in>set m. a < fst e) \<and> smap_wf m"
  by (auto simp: smap_wf_def)

lemma smap_put_keys: "smap_wf m \<Longrightarrow> fst ` set (smap_put k v m) = insert k (fst ` set m)"
proof (induction m)
  case (Cons e m)
  obtain a b where e: "e = (a, b)" by fastforce
  with Cons show ?case by (auto simp: smap_put_Cons smap_wf_Cons)
qed simp

lemma smap_put_wf: "smap_wf m \<Longrightarrow> smap_wf (smap_put k v m)"
proof (induction m)
  case Nil
  then show ?case by (simp add: smap_wf_def)
next
  case (Cons e m)
  obtain a b where e: "e = (a, b)" by fastforce
  from Cons.prems e have wf: "smap_wf ((a, b) # m)" by simp
  then have above: "\<forall>x\<in>fst ` set m. a < x" by (auto simp: smap_wf_Cons)
  show ?case
  proof (cases "a < k")
    case True
    have "\<forall>x\<in>fst ` set (smap_put k v m). a < x"
      using above True wf by (subst smap_put_keys) (auto simp: smap_wf_Cons)
    with Cons wf True e show ?thesis
      by (auto simp: smap_put_Cons smap_wf_Cons)
  next
    case False
    with wf e show ?thesis by (auto simp: smap_put_Cons smap_wf_Cons)
  qed
qed

lemma smap_get_put: "smap_wf m \<Longrightarrow> smap_get (smap_put k v m) k' = (if k' = k then Some v else smap_get m k')"
proof (induction m)
  case (Cons e m)
  obtain a b where e: "e = (a, b)" by fastforce
  with Cons show ?case
    by (auto simp: smap_get_def smap_put_Cons smap_wf_Cons)
qed (simp add: smap_get_def)

lemma smap_entries_get: "smap_wf m \<Longrightarrow> (k, v) \<in> set (smap_entries m) \<longleftrightarrow> smap_get m k = Some v"
proof (induction m)
  case (Cons e m)
  obtain a b where e: "e = (a, b)" by fastforce
  with Cons show ?case
    by (auto simp: smap_get_def smap_entries_def smap_wf_Cons)
qed (simp add: smap_get_def smap_entries_def)

text \<open>The contract the registries rely on, and what follows from it.\<close>

locale ordered_map =
  fixes empty :: "'m"
    and get :: "'m \<Rightarrow> 'k::linorder \<Rightarrow> 'v option"
    and put :: "'k \<Rightarrow> 'v \<Rightarrow> 'm \<Rightarrow> 'm"
    and entries :: "'m \<Rightarrow> ('k \<times> 'v) list"
    and wf :: "'m \<Rightarrow> bool"
  assumes wf_empty: "wf empty"
    and get_empty: "get empty k = None"
    and wf_put: "wf m \<Longrightarrow> wf (put k v m)"
    and get_put: "wf m \<Longrightarrow> get (put k v m) k' = (if k' = k then Some v else get m k')"
    and entries_sorted: "wf m \<Longrightarrow> sorted_wrt (<) (map fst (entries m))"
    and entries_get: "wf m \<Longrightarrow> (k, v) \<in> set (entries m) \<longleftrightarrow> get m k = Some v"
begin

definition puts :: "('x \<Rightarrow> 'k) \<Rightarrow> ('x \<Rightarrow> 'v) \<Rightarrow> 'x list \<Rightarrow> 'm \<Rightarrow> 'm" where
  "puts key val xs m = fold (\<lambda>x. put (key x) (val x)) xs m"

lemma puts_simps [simp]:
  "puts key val [] m = m"
  "puts key val (x # xs) m = puts key val xs (put (key x) (val x) m)"
  by (simp_all add: puts_def)

lemma wf_puts: "wf m \<Longrightarrow> wf (puts key val xs m)"
  by (induction xs arbitrary: m) (auto intro: wf_put)

text \<open>Storing a list keeps the last value stored under each key.\<close>

lemma get_puts:
  "wf m \<Longrightarrow> get (puts key val xs m) k =
     (case filter (\<lambda>x. key x = k) xs of [] \<Rightarrow> get m k | ys \<Rightarrow> Some (val (last ys)))"
proof (induction xs arbitrary: m)
  case (Cons x xs)
  then have "get (puts key val xs (put (key x) (val x) m)) k =
      (case filter (\<lambda>x. key x = k) xs of [] \<Rightarrow> get (put (key x) (val x) m) k
       | ys \<Rightarrow> Some (val (last ys)))"
    by (intro Cons.IH wf_put)
  with Cons.prems show ?case
    by (auto simp: get_put split: list.splits)
qed simp

lemma get_puts_other: "wf m \<Longrightarrow> k \<notin> key ` set xs \<Longrightarrow> get (puts key val xs m) k = get m k"
  by (induction xs arbitrary: m) (auto simp: get_put wf_put)

lemma get_puts_distinct:
  "wf m \<Longrightarrow> distinct (map key xs) \<Longrightarrow> x \<in> set xs \<Longrightarrow> get (puts key val xs m) (key x) = Some (val x)"
proof (induction xs arbitrary: m)
  case (Cons y ys)
  show ?case
  proof (cases "x = y")
    case True
    with Cons.prems show ?thesis
      by (simp add: get_puts_other wf_put get_put)
  next
    case False
    with Cons.prems show ?thesis by (auto intro: Cons.IH wf_put)
  qed
qed simp

lemma entries_distinct: "wf m \<Longrightarrow> distinct (map fst (entries m))"
  by (drule entries_sorted) (simp add: strict_sorted_iff)

end

interpretation reg: ordered_map "[]" smap_get smap_put smap_entries smap_wf
proof unfold_locales
  show "smap_wf []" by (simp add: smap_wf_def)
  show "smap_get [] k = None" for k :: 'a by (simp add: smap_get_def)
  show "smap_wf m \<Longrightarrow> sorted_wrt (<) (map fst (smap_entries m))" for m :: "('a \<times> 'b) list"
    by (simp add: smap_wf_def smap_entries_def)
qed (simp_all add: smap_put_wf smap_get_put smap_entries_get)

subsection \<open>Components that keep an invariant\<close>

text \<open>
  A component driven by requests: each one takes the state to a next state, or does not return
  (\<open>None\<close>). An invariant every request keeps holds after any sequence of them.
\<close>

fun run_ops :: "('op \<Rightarrow> 's \<Rightarrow> 's option) \<Rightarrow> 'op list \<Rightarrow> 's \<Rightarrow> 's option" where
  "run_ops step [] s = Some s"
| "run_ops step (c # cs) s = (case step c s of None \<Rightarrow> None | Some s' \<Rightarrow> run_ops step cs s')"

lemma run_ops_append:
  "run_ops step (xs @ ys) s = (case run_ops step xs s of None \<Rightarrow> None | Some s' \<Rightarrow> run_ops step ys s')"
  by (induction xs arbitrary: s) (auto split: option.splits)

locale guarded_machine =
  fixes step :: "'op \<Rightarrow> 's \<Rightarrow> 's option"
    and allowed :: "'op \<Rightarrow> bool"
    and inv :: "'s \<Rightarrow> bool"
  assumes step_inv: "inv s \<Longrightarrow> allowed c \<Longrightarrow> step c s = Some s' \<Longrightarrow> inv s'"
begin

lemma run_inv: "inv s \<Longrightarrow> list_all allowed cs \<Longrightarrow> run_ops step cs s = Some s' \<Longrightarrow> inv s'"
proof (induction cs arbitrary: s)
  case (Cons c cs)
  then obtain s1 where "step c s = Some s1" "run_ops step cs s1 = Some s'"
    by (auto split: option.splits)
  with Cons step_inv show ?case by auto
qed simp

lemma run_prefix_inv:
  assumes "inv s" "list_all allowed (xs @ ys)" "run_ops step (xs @ ys) s = Some s'"
  shows "\<exists>s1. run_ops step xs s = Some s1 \<and> inv s1 \<and> run_ops step ys s1 = Some s'"
  using assms run_inv [of s xs] by (auto simp: run_ops_append split: option.splits)

end

subsection \<open>Decimal printing\<close>

definition digit_char :: "nat \<Rightarrow> char" where
  "digit_char d = char_of (48 + d)"

fun to_string_nat :: "nat \<Rightarrow> string" where
  "to_string_nat n =
     (if n < 10 then [digit_char n] else to_string_nat (n div 10) @ [digit_char (n mod 10)])"

declare to_string_nat.simps [simp del]

definition to_string_int :: "int \<Rightarrow> string" where
  "to_string_int i = (if i < 0 then CHR ''-'' # to_string_nat (nat (- i)) else to_string_nat (nat i))"

definition char_digit :: "char \<Rightarrow> nat" where
  "char_digit c = of_char c - 48"

definition is_digit :: "char \<Rightarrow> bool" where
  "is_digit c \<longleftrightarrow> CHR ''0'' \<le> c \<and> c \<le> CHR ''9''"

lemma is_digit_code: "is_digit c \<longleftrightarrow> 48 \<le> (of_char c :: nat) \<and> (of_char c :: nat) \<le> 57"
  by (simp add: is_digit_def less_eq_char_def)

lemma of_digit_char: "d < 10 \<Longrightarrow> (of_char (digit_char d) :: nat) = 48 + d"
  by (simp add: digit_char_def of_char_of take_bit_eq_mod)

lemma char_digit_inverse [simp]: "d < 10 \<Longrightarrow> char_digit (digit_char d) = d"
  by (simp add: char_digit_def of_digit_char)

lemma digit_char_is_digit [simp]: "d < 10 \<Longrightarrow> is_digit (digit_char d)"
  by (simp add: is_digit_code of_digit_char)

lemma to_string_nat_digits: "\<forall>c\<in>set (to_string_nat n). is_digit c"
proof (induction n rule: to_string_nat.induct)
  case (1 n)
  then show ?case by (subst to_string_nat.simps) auto
qed

lemma to_string_nat_nonempty [simp]: "to_string_nat n \<noteq> []"
  by (subst to_string_nat.simps) simp

text \<open>Reading a digit string back, most significant digit first.\<close>

definition read_nat :: "string \<Rightarrow> nat" where
  "read_nat s = foldl (\<lambda>n c. 10 * n + char_digit c) 0 s"

lemma read_to_string_nat [simp]: "read_nat (to_string_nat n) = n"
proof (induction n rule: to_string_nat.induct)
  case (1 n)
  then show ?case
    by (subst to_string_nat.simps) (auto simp: read_nat_def)
qed

lemma to_string_nat_inject [simp]: "to_string_nat m = to_string_nat n \<longleftrightarrow> m = n"
  by (metis read_to_string_nat)

subsection \<open>The last entries of a list\<close>

definition last_n :: "nat \<Rightarrow> 'a list \<Rightarrow> 'a list" where
  "last_n n xs = drop (length xs - n) xs"

lemma length_last_n [simp]: "length (last_n n xs) = min n (length xs)"
  by (simp add: last_n_def)

lemma last_n_append: "last_n n (xs @ ys) = last_n (n - length ys) xs @ last_n n ys"
  by (cases "n \<le> length ys") (auto simp: last_n_def)

lemma last_n_last_n: "m \<le> n \<Longrightarrow> last_n m (last_n n xs) = last_n m xs"
  by (cases "n \<le> length xs") (auto simp: last_n_def)

lemma last_n_map: "last_n n (map f xs) = map f (last_n n xs)"
  by (simp add: last_n_def drop_map)

lemma last_n_Suc_snoc: "last_n n (last_n n xs @ [x]) = last_n n (xs @ [x])"
  by (simp add: last_n_append last_n_last_n)

text \<open>Keeping only the end of every part does not change the end of the whole.\<close>

lemma last_n_concat: "n \<le> m \<Longrightarrow> last_n n (concat (map (last_n m) xss)) = last_n n (concat xss)"
proof (induction xss)
  case (Cons xs xss)
  then have same: "last_n n (concat (map (last_n m) xss)) = last_n n (concat xss)" by simp
  then have "min n (length (concat (map (last_n m) xss))) = min n (length (concat xss))" by (metis length_last_n)
  then have "n - length (concat (map (last_n m) xss)) = n - length (concat xss)" by linarith
  with same Cons.prems show ?case by (simp add: last_n_append last_n_last_n)
qed (simp add: last_n_def)

lemma set_last_n: "set (last_n n xs) \<subseteq> set xs"
  by (simp add: last_n_def set_drop_subset)

lemma last_n_snoc: "0 < n \<Longrightarrow> last_n n (xs @ [x]) = (if length xs < n then last_n n xs else tl (last_n n xs)) @ [x]"
  by (auto simp: last_n_def tl_drop Suc_diff_le drop_Suc)

end
