(* ===== verification/Launch_Config.thy ===== *)
theory Launch_Config
  imports Prelude
begin

section \<open>The launch file (system/launch\_manager/launch\_config.cpp)\<close>

text \<open>
  The launch manager's configuration: the run-time and process specifications of
  \<^verbatim>\<open>launch_config.hpp\<close> and their loading from YAML. The YAML library
  (yaml-cpp) is not part of the repository, so a parsed document is of a type \<open>'y\<close> and
  the library's operations the loader calls are the fields of the record \<open>yaml\<close>, an
  argument of the definitions. Exceptions are values of \<open>exn\<close>.
\<close>

subsection \<open>Data\<close>

datatype RestartPolicy = kNever | kOnFailure | kAlways

record RuntimeSpec =
  rt_robot_id :: string
  rt_namespace_name :: string
  rt_listen_endpoint :: string

definition default_RuntimeSpec :: RuntimeSpec where
  "default_RuntimeSpec =
     \<lparr>rt_robot_id = ''openember'', rt_namespace_name = '''', rt_listen_endpoint = ''tcp/127.0.0.1:7447''\<rparr>"

text \<open>Durations are in milliseconds.\<close>

record ProcessSpec =
  ps_name :: string
  ps_command :: string
  ps_args :: "string list"
  ps_env :: "(string, string) smap"
  ps_working_directory :: string
  ps_restart :: RestartPolicy
  ps_restart_limit :: u32
  ps_startup_timeout :: int
  ps_shutdown_timeout :: int
  ps_heartbeat_timeout :: int

definition default_ProcessSpec :: ProcessSpec where
  "default_ProcessSpec =
     \<lparr>ps_name = '''', ps_command = '''', ps_args = [], ps_env = [], ps_working_directory = '''',
      ps_restart = kNever, ps_restart_limit = 0, ps_startup_timeout = 3000,
      ps_shutdown_timeout = 3000, ps_heartbeat_timeout = 0\<rparr>"

record LaunchConfig =
  lc_runtime :: RuntimeSpec
  lc_processes :: "ProcessSpec list"

datatype exn =
    Runtime_error string
  | Yaml_exception string
  | Nontermination \<comment> \<open>not a C++ exception: the call does not return\<close>

subsection \<open>What the loader uses of the YAML library\<close>

text \<open>
  \<open>y_at n k\<close> is \<^verbatim>\<open>n[k]\<close>: an exception, an undefined node (\<open>None\<close>) or a node.
  \<open>y_items\<close> and \<open>y_pairs\<close> are what iteration yields, \<open>y_string\<close> and \<open>y_uint32\<close> the
  conversions \<^verbatim>\<open>as<T>()\<close>.
\<close>

record 'y yaml =
  y_LoadFile :: "string \<Rightarrow> exn + 'y"
  y_at :: "'y \<Rightarrow> string \<Rightarrow> exn + 'y option"
  y_IsSequence :: "'y \<Rightarrow> bool"
  y_IsMap :: "'y \<Rightarrow> bool"
  y_items :: "'y \<Rightarrow> 'y list"
  y_pairs :: "'y \<Rightarrow> ('y \<times> 'y) list"
  y_string :: "'y \<Rightarrow> exn + string"
  y_uint32 :: "'y \<Rightarrow> exn + u32"

definition lookup_node :: "'y yaml \<Rightarrow> 'y option \<Rightarrow> string \<Rightarrow> exn + 'y option" where
  "lookup_node Y node key = (case node of None \<Rightarrow> Inr None | Some n \<Rightarrow> y_at Y n key)"

definition StringValue :: "'y yaml \<Rightarrow> 'y option \<Rightarrow> string \<Rightarrow> string \<Rightarrow> exn + string" where
  "StringValue Y node key fallback =
     bindE (lookup_node Y node key)
       (\<lambda>v. case v of None \<Rightarrow> Inr fallback | Some n \<Rightarrow> y_string Y n)"

definition UIntValue :: "'y yaml \<Rightarrow> 'y option \<Rightarrow> string \<Rightarrow> u32 \<Rightarrow> exn + u32" where
  "UIntValue Y node key fallback =
     bindE (lookup_node Y node key)
       (\<lambda>v. case v of None \<Rightarrow> Inr fallback | Some n \<Rightarrow> y_uint32 Y n)"

subsection \<open>Placeholder expansion\<close>

text \<open>
  The loop of \<^verbatim>\<open>ReplaceAll\<close>: with an empty \<open>pat\<close> it never ends, so its result is an
  option and \<open>None\<close> is "does not return".
\<close>

partial_function (option) ReplaceAll_loop :: "string \<Rightarrow> string \<Rightarrow> nat \<Rightarrow> string \<Rightarrow> string option" where
  "ReplaceAll_loop pat rep pos value =
     (case find_from value pat pos of
        None \<Rightarrow> Some value
      | Some p \<Rightarrow> ReplaceAll_loop pat rep (p + length rep)
                   (take p value @ rep @ drop (p + length pat) value))"

definition ReplaceAll :: "string \<Rightarrow> string \<Rightarrow> string \<Rightarrow> string option" where
  "ReplaceAll value pat rep = ReplaceAll_loop pat rep 0 value"

definition bin_placeholder :: string where
  "bin_placeholder = ''${openember.bin}''"

definition ExpandValue :: "string \<Rightarrow> string \<Rightarrow> exn + string" where
  "ExpandValue value openember_bin_dir =
     (case ReplaceAll value bin_placeholder openember_bin_dir of
        None \<Rightarrow> Inl Nontermination | Some r \<Rightarrow> Inr r)"

subsection \<open>Parsing\<close>

definition ParseRestartPolicy :: "string \<Rightarrow> exn + RestartPolicy" where
  "ParseRestartPolicy value =
     (if value = ''always'' then Inr kAlways
      else if value = ''on-failure'' \<or> value = ''on_failure'' then Inr kOnFailure
      else if value = ''never'' \<or> value = [] then Inr kNever
      else Inl (Runtime_error (''unsupported restart policy: '' @ value)))"

definition RestartPolicyName :: "RestartPolicy \<Rightarrow> string" where
  "RestartPolicyName policy =
     (case policy of kAlways \<Rightarrow> ''always'' | kOnFailure \<Rightarrow> ''on-failure'' | kNever \<Rightarrow> ''never'')"

definition ParseArgs :: "'y yaml \<Rightarrow> 'y option \<Rightarrow> string \<Rightarrow> exn + string list" where
  "ParseArgs Y node openember_bin_dir =
     bindE (lookup_node Y node ''args'')
       (\<lambda>v. case v of None \<Rightarrow> Inr []
          | Some n \<Rightarrow> mapE (\<lambda>arg. bindE (y_string Y arg) (\<lambda>s. ExpandValue s openember_bin_dir)) (y_items Y n))"

definition ParseEnv :: "'y yaml \<Rightarrow> 'y option \<Rightarrow> string \<Rightarrow> exn + (string, string) smap" where
  "ParseEnv Y node openember_bin_dir =
     bindE (lookup_node Y node ''env'')
       (\<lambda>v. case v of None \<Rightarrow> Inr []
          | Some n \<Rightarrow>
              bindE (requireE (y_IsMap Y n) (Runtime_error ''process env must be a map''))
                (\<lambda>_. bindE (mapE (\<lambda>(k, w). bindE (y_string Y w) (\<lambda>w'.
                               bindE (ExpandValue w' openember_bin_dir) (\<lambda>w''.
                               bindE (y_string Y k) (\<lambda>k'. Inr (k', w''))))) (y_pairs Y n))
                (\<lambda>kvs. Inr (fold (\<lambda>(k, w). smap_put k w) kvs []))))"

definition ParseNode :: "'y yaml \<Rightarrow> string \<Rightarrow> 'y \<Rightarrow> exn + ProcessSpec" where
  "ParseNode Y openember_bin_dir n =
     (let node = Some n; spec = default_ProcessSpec in
      bindE (StringValue Y node ''name'' '''') (\<lambda>name.
      bindE (StringValue Y node ''command'' '''') (\<lambda>command0.
      bindE (ExpandValue command0 openember_bin_dir) (\<lambda>command.
      bindE (ParseArgs Y node openember_bin_dir) (\<lambda>args.
      bindE (ParseEnv Y node openember_bin_dir) (\<lambda>env.
      bindE (StringValue Y node ''working_directory'' '''') (\<lambda>wd0.
      bindE (ExpandValue wd0 openember_bin_dir) (\<lambda>wd.
      bindE (StringValue Y node ''restart'' ''never'') (\<lambda>r0.
      bindE (ParseRestartPolicy r0) (\<lambda>r.
      bindE (UIntValue Y node ''restart_limit'' (ps_restart_limit spec)) (\<lambda>limit.
      bindE (UIntValue Y node ''startup_timeout_ms'' 3000) (\<lambda>st.
      bindE (UIntValue Y node ''shutdown_timeout_ms'' 3000) (\<lambda>sh.
      bindE (UIntValue Y node ''heartbeat_timeout_ms'' 0) (\<lambda>hb.
      bindE (requireE (name \<noteq> []) (Runtime_error ''launch node is missing required field: name'')) (\<lambda>_.
      bindE (requireE (command \<noteq> [])
               (Runtime_error (''launch node '' @ [CHR 0x27] @ name @ [CHR 0x27] @
                               '' is missing required field: command''))) (\<lambda>_.
      Inr (spec\<lparr>ps_name := name, ps_command := command, ps_args := args, ps_env := env,
               ps_working_directory := wd, ps_restart := r, ps_restart_limit := limit,
               ps_startup_timeout := uint st, ps_shutdown_timeout := uint sh,
               ps_heartbeat_timeout := uint hb\<rparr>)))))))))))))))))"

definition ParseRuntime :: "'y yaml \<Rightarrow> 'y option \<Rightarrow> exn + RuntimeSpec" where
  "ParseRuntime Y runtime =
     (let d = default_RuntimeSpec in
      bindE (StringValue Y runtime ''robot_id'' (rt_robot_id d)) (\<lambda>robot.
      bindE (StringValue Y runtime ''namespace'' (rt_namespace_name d)) (\<lambda>ns.
      bindE (lookup_node Y runtime ''link'') (\<lambda>link.
      bindE (case link of None \<Rightarrow> Inr (rt_listen_endpoint d)
             | Some l \<Rightarrow> StringValue Y (Some l) ''listen'' (rt_listen_endpoint d)) (\<lambda>listen.
      Inr \<lparr>rt_robot_id = robot, rt_namespace_name = ns, rt_listen_endpoint = listen\<rparr>)))))"

definition LoadLaunchConfig :: "'y yaml \<Rightarrow> string \<Rightarrow> string \<Rightarrow> exn + LaunchConfig" where
  "LoadLaunchConfig Y path openember_bin_dir =
     bindE (case y_LoadFile Y path of
              Inl (Yaml_exception what) \<Rightarrow>
                Inl (Runtime_error (''failed to load launch file '' @ [CHR 0x27] @ path @ [CHR 0x27] @ '': '' @ what))
            | r \<Rightarrow> r) (\<lambda>root.
     bindE (y_at Y root ''runtime'') (\<lambda>rt.
     bindE (ParseRuntime Y rt) (\<lambda>runtime.
     bindE (y_at Y root ''nodes'') (\<lambda>nodes.
     bindE (case nodes of
              Some ns \<Rightarrow> if y_IsSequence Y ns then Inr (y_items Y ns)
                         else Inl (Runtime_error (''launch file must contain a '' @ [CHR 0x27] @ ''nodes'' @ [CHR 0x27] @ '' sequence''))
            | None \<Rightarrow> Inl (Runtime_error (''launch file must contain a '' @ [CHR 0x27] @ ''nodes'' @ [CHR 0x27] @ '' sequence''))) (\<lambda>items.
     bindE (mapE (ParseNode Y openember_bin_dir) items) (\<lambda>procs.
     Inr \<lparr>lc_runtime = runtime, lc_processes = procs\<rparr>))))))"

subsection \<open>Expansion replaces every occurrence, from the left\<close>

text \<open>The specification of the loop: one pass over the text.\<close>

function subst_all :: "'a list \<Rightarrow> 'a list \<Rightarrow> 'a list \<Rightarrow> 'a list" where
  "subst_all pat rep s =
     (case s of [] \<Rightarrow> []
      | x # xs \<Rightarrow> if pat \<noteq> [] \<and> starts_with s pat then rep @ subst_all pat rep (drop (length pat) s)
                  else x # subst_all pat rep xs)"
  by pat_completeness auto
termination
  by (relation "measure (\<lambda>(pat, rep, s). length s)") auto

declare subst_all.simps [simp del]

lemma subst_all_step:
  assumes "pat \<noteq> []"
  shows "subst_all pat rep s =
    (case find_sub pat s of None \<Rightarrow> s
     | Some i \<Rightarrow> take i s @ rep @ subst_all pat rep (drop (i + length pat) s))"
proof (induction s)
  case Nil
  with assms show ?case by (simp add: subst_all.simps)
next
  case (Cons x xs)
  then show ?case
    using assms by (subst subst_all.simps) (auto split: option.splits)
qed

lemma find_sub_bound: "find_sub pat s = Some i \<Longrightarrow> i + length pat \<le> length s"
proof (induction s arbitrary: i)
  case (Cons x xs)
  then show ?case
    by (auto split: if_splits simp: starts_with_iff) (metis length_Cons length_append le_add1)
qed (auto split: if_splits)

lemma ReplaceAll_loop_subst_all:
  assumes "pat \<noteq> []"
  shows "ReplaceAll_loop pat rep (length pre) (pre @ s) = Some (pre @ subst_all pat rep s)"
proof (induction "length s" arbitrary: pre s rule: less_induct)
  case less
  show ?case
  proof (cases "find_sub pat s")
    case None
    then show ?thesis
      using assms by (subst ReplaceAll_loop.simps) (simp add: find_from_def subst_all_step)
  next
    case (Some i)
    have shorter: "length (drop (i + length pat) s) < length s"
      using find_sub_bound [OF Some] assms by (cases pat) auto
    have "ReplaceAll_loop pat rep (length pre) (pre @ s) =
        ReplaceAll_loop pat rep (length (pre @ take i s @ rep))
          ((pre @ take i s @ rep) @ drop (i + length pat) s)"
      using Some find_sub_bound [OF Some]
      by (subst ReplaceAll_loop.simps) (simp add: find_from_def add.commute add.left_commute)
    also have "\<dots> = Some ((pre @ take i s @ rep) @ subst_all pat rep (drop (i + length pat) s))"
      by (rule less.hyps [OF shorter])
    finally show ?thesis using assms Some by (simp add: subst_all_step)
  qed
qed

lemma ExpandValue_eq: "ExpandValue v dir = Inr (subst_all bin_placeholder dir v)"
  using ReplaceAll_loop_subst_all [of bin_placeholder dir "[]" v]
  by (simp add: ExpandValue_def ReplaceAll_def bin_placeholder_def)

lemma ParseNode_ok:
  assumes "ParseNode Y dir n = Inr spec"
  shows "ps_name spec \<noteq> []" "ps_command spec \<noteq> []"
    "0 \<le> ps_startup_timeout spec" "0 \<le> ps_shutdown_timeout spec" "0 \<le> ps_heartbeat_timeout spec"
  using assms by (auto simp: ParseNode_def Let_def)

lemma uint_u32_bound: "0 \<le> uint (x :: u32) \<and> uint x < 2 ^ 32"
  using uint_bounded [of x] by simp

lemma ParseNode_timeouts:
  assumes "ParseNode Y dir n = Inr spec"
  shows "ps_startup_timeout spec < 2 ^ 32" "ps_shutdown_timeout spec < 2 ^ 32" "ps_heartbeat_timeout spec < 2 ^ 32"
  using assms uint_u32_bound by (auto simp: ParseNode_def Let_def)

subsection \<open>A YAML library\<close>

text \<open>Documents as trees, for concrete runs.\<close>

datatype doc = Scalar string | Seq "doc list" | Table "(string \<times> doc) list"

definition doc_yaml :: "doc \<Rightarrow> doc yaml" where
  "doc_yaml file =
     \<lparr>y_LoadFile = (\<lambda>path. Inr file),
      y_at = (\<lambda>n k. case n of Table kvs \<Rightarrow> Inr (map_of kvs k) | Seq ns \<Rightarrow> Inr None
                | Scalar s \<Rightarrow> Inl (Yaml_exception ''bad subscript'')),
      y_IsSequence = (\<lambda>n. case n of Seq ns \<Rightarrow> True | _ \<Rightarrow> False),
      y_IsMap = (\<lambda>n. case n of Table kvs \<Rightarrow> True | _ \<Rightarrow> False),
      y_items = (\<lambda>n. case n of Seq ns \<Rightarrow> ns | _ \<Rightarrow> []),
      y_pairs = (\<lambda>n. case n of Table kvs \<Rightarrow> map (\<lambda>(k, v). (Scalar k, v)) kvs | _ \<Rightarrow> []),
      y_string = (\<lambda>n. case n of Scalar s \<Rightarrow> Inr s | _ \<Rightarrow> Inl (Yaml_exception ''bad conversion'')),
      y_uint32 = (\<lambda>n. case n of
           Scalar s \<Rightarrow> if s \<noteq> [] \<and> list_all is_digit s then Inr (of_nat (read_nat s)) else Inl (Yaml_exception ''bad conversion'')
         | _ \<Rightarrow> Inl (Yaml_exception ''bad conversion''))\<rparr>"

definition demo_launch_file :: doc where
  "demo_launch_file = Table [(''nodes'', Seq [Table [(''name'', Scalar ''web''),
     (''command'', Scalar ''${openember.bin}/web''), (''restart'', Scalar ''on-failure''),
     (''restart_limit'', Scalar ''3'')]])]"

subsection \<open>Properties\<close>

text \<open>Placeholder expansion returns for every text and every replacement, also one that contains the
  placeholder again, and its result is the text with each occurrence replaced in one pass from the left.\<close>

theorem ExpandValue_total:
  "ExpandValue text bin_dir = Inr (subst_all bin_placeholder bin_dir text)"
  using ReplaceAll_loop_subst_all [of bin_placeholder bin_dir "[]" "text"]
  by (simp add: ExpandValue_def ReplaceAll_def bin_placeholder_def)

text \<open>C7: A launch file that loads gives one process per node of the file, in order, each with a name and a
  command and with timeouts that fit 32 bits.\<close>

theorem LoadLaunchConfig_sound:
  assumes "LoadLaunchConfig Y path bin_dir = Inr c"
  shows "\<exists>root nodes. y_LoadFile Y path = Inr root \<and> y_at Y root ''nodes'' = Inr (Some nodes) \<and> y_IsSequence Y nodes \<and>
    list_all2 (\<lambda>n p. ParseNode Y bin_dir n = Inr p) (y_items Y nodes) (lc_processes c) \<and>
    (\<forall>p\<in>set (lc_processes c). ps_name p \<noteq> [] \<and> ps_command p \<noteq> [] \<and>
       {ps_startup_timeout p, ps_shutdown_timeout p, ps_heartbeat_timeout p} \<subseteq> {0..<2 ^ 32})"
proof -
  from assms obtain root nodes where f: "y_LoadFile Y path = Inr root" "y_at Y root ''nodes'' = Inr (Some nodes)"
    "y_IsSequence Y nodes" "mapE (ParseNode Y bin_dir) (y_items Y nodes) = Inr (lc_processes c)"
    by (auto simp: LoadLaunchConfig_def split: sum.splits exn.splits option.splits if_splits)
  then have all: "list_all2 (\<lambda>n p. ParseNode Y bin_dir n = Inr p) (y_items Y nodes) (lc_processes c)"
    by (simp add: mapE_list_all2)
  have "ps_name p \<noteq> [] \<and> ps_command p \<noteq> [] \<and>
       {ps_startup_timeout p, ps_shutdown_timeout p, ps_heartbeat_timeout p} \<subseteq> {0..<2 ^ 32}"
    if "p \<in> set (lc_processes c)" for p
  proof -
    from all that obtain n where "ParseNode Y bin_dir n = Inr p"
      by (auto simp: list_all2_conv_all_nth in_set_conv_nth)
    from ParseNode_ok [OF this] ParseNode_timeouts [OF this] show ?thesis by simp
  qed
  with f all show ?thesis by blast
qed

lemma demo_launch_file_loads: "\<exists>c. LoadLaunchConfig (doc_yaml demo_launch_file) ''l.yaml'' ''/opt'' = Inr c"
  by (simp add: LoadLaunchConfig_def doc_yaml_def demo_launch_file_def ParseNode_def ParseRuntime_def Let_def
      StringValue_def UIntValue_def lookup_node_def ParseArgs_def ParseEnv_def ParseRestartPolicy_def ExpandValue_eq
      default_RuntimeSpec_def subst_all.simps bin_placeholder_def starts_with_def is_digit_code)

theorem LoadLaunchConfig_sound_witness:
  "\<exists>c. LoadLaunchConfig (doc_yaml demo_launch_file) ''l.yaml'' ''/opt'' = Inr c \<and>
     (\<forall>p\<in>set (lc_processes c). ps_name p \<noteq> [] \<and> ps_command p \<noteq> [])"
  using demo_launch_file_loads LoadLaunchConfig_sound by blast

end
