(* ===== verification/Posix_Host.thy ===== *)
theory Posix_Host
  imports Prelude
begin

section \<open>The operating system under the launch manager\<close>

text \<open>
  The launch manager calls fork, kill, waitpid, two clocks and sleep. They are the fields of
  the record \<open>os\<close>, an argument of every definition that uses them, over a type \<open>'w\<close> of states
  of the world which each call takes and returns. \<open>fork_result\<close> is what fork returns in the
  parent, \<open>wait_result\<close> what \<^verbatim>\<open>waitpid(-1, &status, WNOHANG)\<close> returns, and \<open>wait_status\<close> the
  three ways the macros of \<^verbatim>\<open>sys/wait.h\<close> classify a status.

  \<open>os_ok\<close> states the documented behaviour that the proofs rely on: a forked child has a
  positive pid no unreaped child has, waitpid returns and removes an unreaped child, and nothing
  else changes the set of unreaped children. \<open>os_progress\<close> adds what ending a child needs:
  a killed child ends within a bounded number of sleeps, the monotonic clock does not go back
  and a sleep lasts as long as asked, and waitpid does not report "none ready" while an ended
  child is waiting. The record \<open>sim_host\<close> at the end is an executable host that meets both.
\<close>

datatype wait_status = WExited int | WSignaled int | WOther int

datatype wait_result = Reaped int wait_status | None_ready | Wait_error int

datatype fork_result = Forked int | Fork_failed int

record 'w os =
  os_fork :: "'w \<Rightarrow> fork_result \<times> 'w"
  os_kill :: "int \<Rightarrow> int \<Rightarrow> 'w \<Rightarrow> 'w"
  os_waitpid :: "'w \<Rightarrow> wait_result \<times> 'w"
  os_unix_ns :: "'w \<Rightarrow> u64 \<times> 'w"
  os_steady_ns :: "'w \<Rightarrow> int \<times> 'w"
  os_sleep_ms :: "int \<Rightarrow> 'w \<Rightarrow> 'w"
  os_strerror :: "int \<Rightarrow> string"

abbreviation EINTR :: int where "EINTR \<equiv> 4"
abbreviation ECHILD :: int where "ECHILD \<equiv> 10"
abbreviation EINVAL :: int where "EINVAL \<equiv> 22"
abbreviation ESRCH :: int where "ESRCH \<equiv> 3"
abbreviation SIGTERM :: int where "SIGTERM \<equiv> 15"
abbreviation SIGKILL :: int where "SIGKILL \<equiv> 9"

definition ns_of_ms :: "int \<Rightarrow> int" where
  "ns_of_ms t = t * 1000000"

subsection \<open>Documented behaviour\<close>

definition os_ok :: "'w os \<Rightarrow> ('w \<Rightarrow> int set) \<Rightarrow> bool" where
  "os_ok os kids \<longleftrightarrow>
     (\<forall>w w' p. os_fork os w = (Forked p, w') \<longrightarrow> 0 < p \<and> p \<notin> kids w \<and> kids w' = insert p (kids w)) \<and>
     (\<forall>w w' e. os_fork os w = (Fork_failed e, w') \<longrightarrow> kids w' = kids w) \<and>
     (\<forall>w w' p st. os_waitpid os w = (Reaped p st, w') \<longrightarrow> 0 < p \<and> p \<in> kids w \<and> kids w' = kids w - {p}) \<and>
     (\<forall>w w'. os_waitpid os w = (None_ready, w') \<longrightarrow> kids w' = kids w) \<and>
     (\<forall>w w' e. os_waitpid os w = (Wait_error e, w') \<longrightarrow> kids w' = kids w) \<and>
     (\<forall>w p sig. kids (os_kill os p sig w) = kids w) \<and>
     (\<forall>w. kids (snd (os_unix_ns os w)) = kids w) \<and>
     (\<forall>w. kids (snd (os_steady_ns os w)) = kids w) \<and>
     (\<forall>w t. kids (os_sleep_ms os t w) = kids w)"

lemma os_okD:
  assumes "os_ok os kids"
  shows "os_fork os w = (Forked p, w') \<Longrightarrow> 0 < p \<and> p \<notin> kids w \<and> kids w' = insert p (kids w)"
    and "os_fork os w = (Fork_failed e, w') \<Longrightarrow> kids w' = kids w"
    and "os_waitpid os w = (Reaped p st, w') \<Longrightarrow> 0 < p \<and> p \<in> kids w \<and> kids w' = kids w - {p}"
    and "os_waitpid os w = (None_ready, w') \<Longrightarrow> kids w' = kids w"
    and "os_waitpid os w = (Wait_error e, w') \<Longrightarrow> kids w' = kids w"
    and "kids (os_kill os q sig w) = kids w"
    and "os_unix_ns os w = (t, w') \<Longrightarrow> kids w' = kids w"
    and "os_steady_ns os w = (now, w') \<Longrightarrow> kids w' = kids w"
    and "kids (os_sleep_ms os d w) = kids w"
proof -
  note ok = assms [unfolded os_ok_def]
  show "os_fork os w = (Forked p, w') \<Longrightarrow> 0 < p \<and> p \<notin> kids w \<and> kids w' = insert p (kids w)"
    using ok by simp
  show "os_fork os w = (Fork_failed e, w') \<Longrightarrow> kids w' = kids w" using ok by simp
  show "os_waitpid os w = (Reaped p st, w') \<Longrightarrow> 0 < p \<and> p \<in> kids w \<and> kids w' = kids w - {p}"
    by (rule ok [THEN conjunct2, THEN conjunct2, THEN conjunct1, rule_format])
  show "os_waitpid os w = (None_ready, w') \<Longrightarrow> kids w' = kids w" using ok by simp
  show "os_waitpid os w = (Wait_error e, w') \<Longrightarrow> kids w' = kids w" using ok by simp
  show "kids (os_kill os q sig w) = kids w" using ok by simp
  show "kids (os_sleep_ms os d w) = kids w" using ok by simp
  show "os_unix_ns os w = (t, w') \<Longrightarrow> kids w' = kids w" using ok by (metis snd_conv)
  show "os_steady_ns os w = (now, w') \<Longrightarrow> kids w' = kids w" using ok by (metis snd_conv)
qed

text \<open>
  A host's progress: \<open>now w\<close> the monotonic clock, \<open>killed w p\<close> that SIGKILL was sent to \<open>p\<close>,
  \<open>ttl w p\<close> the sleeps until a killed \<open>p\<close> has ended (at most \<open>B\<close>), \<open>backlog w\<close> a bound on the
  waitpid calls that return a child or EINTR before one returns something else.
\<close>

record 'w progress =
  pg_now :: "'w \<Rightarrow> int"
  pg_killed :: "'w \<Rightarrow> int \<Rightarrow> bool"
  pg_ttl :: "'w \<Rightarrow> int \<Rightarrow> nat"
  pg_backlog :: "'w \<Rightarrow> nat"

definition calm :: "'w progress \<Rightarrow> 'w \<Rightarrow> 'w \<Rightarrow> bool" where
  "calm G w w' \<longleftrightarrow> pg_now G w \<le> pg_now G w' \<and> pg_backlog G w' \<le> pg_backlog G w \<and>
     (\<forall>p. pg_killed G w p \<longrightarrow> pg_killed G w' p \<and> pg_ttl G w' p \<le> pg_ttl G w p)"

definition os_progress :: "'w os \<Rightarrow> ('w \<Rightarrow> int set) \<Rightarrow> 'w progress \<Rightarrow> nat \<Rightarrow> bool" where
  "os_progress os kids G B \<longleftrightarrow>
     (\<forall>w p. pg_killed G w p \<longrightarrow> pg_ttl G w p \<le> B) \<and>
     (\<forall>w. calm G w (snd (os_unix_ns os w))) \<and>
     (\<forall>w t w'. os_steady_ns os w = (t, w') \<longrightarrow> t = pg_now G w \<and> calm G w w') \<and>
     (\<forall>w r w'. os_waitpid os w = (r, w') \<longrightarrow> calm G w w' \<and>
        (case r of Reaped p st \<Rightarrow> pg_backlog G w' < pg_backlog G w
         | None_ready \<Rightarrow> (\<forall>p\<in>kids w. pg_killed G w p \<longrightarrow> 0 < pg_ttl G w p)
         | Wait_error e \<Rightarrow> if e = EINTR then pg_backlog G w' < pg_backlog G w else kids w = {})) \<and>
     (\<forall>w p. pg_now G w \<le> pg_now G (os_kill os p SIGKILL w) \<and>
        pg_killed G (os_kill os p SIGKILL w) p \<and>
        (\<forall>q. pg_killed G w q \<longrightarrow> pg_killed G (os_kill os p SIGKILL w) q \<and>
             pg_ttl G (os_kill os p SIGKILL w) q \<le> pg_ttl G w q)) \<and>
     (\<forall>w t. 0 \<le> t \<longrightarrow> pg_now G w + ns_of_ms t \<le> pg_now G (os_sleep_ms os t w) \<and>
        (\<forall>q. pg_killed G w q \<longrightarrow> pg_killed G (os_sleep_ms os t w) q \<and>
             pg_ttl G (os_sleep_ms os t w) q \<le> pg_ttl G w q - 1))"

lemma calm_refl [simp]: "calm G w w"
  by (simp add: calm_def)

lemma calm_trans: "calm G a b \<Longrightarrow> calm G b c \<Longrightarrow> calm G a c"
  unfolding calm_def by (meson order_trans)

lemma os_progressD:
  assumes "os_progress os kids G B"
  shows "os_unix_ns os w = (u, w') \<Longrightarrow> calm G w w'"
    and "os_steady_ns os w = (t, w') \<Longrightarrow> t = pg_now G w \<and> calm G w w'"
    and "os_waitpid os w = (r, w') \<Longrightarrow> calm G w w'"
    and "os_waitpid os w = (Reaped p st, w') \<Longrightarrow> pg_backlog G w' < pg_backlog G w"
    and "os_waitpid os w = (Wait_error EINTR, w') \<Longrightarrow> pg_backlog G w' < pg_backlog G w"
    and "os_waitpid os w = (None_ready, w') \<Longrightarrow> \<forall>p\<in>kids w. pg_killed G w p \<longrightarrow> 0 < pg_ttl G w p"
    and "os_waitpid os w = (Wait_error e, w') \<Longrightarrow> e \<noteq> EINTR \<Longrightarrow> kids w = {}"
    and "pg_killed G w p \<Longrightarrow> pg_ttl G w p \<le> B"
proof -
  have unix: "\<And>w. calm G w (snd (os_unix_ns os w))"
    and steady: "\<And>w t w'. os_steady_ns os w = (t, w') \<Longrightarrow> t = pg_now G w \<and> calm G w w'"
    and wait: "\<And>w r w'. os_waitpid os w = (r, w') \<Longrightarrow> calm G w w' \<and>
        (case r of Reaped p st \<Rightarrow> pg_backlog G w' < pg_backlog G w
         | None_ready \<Rightarrow> (\<forall>p\<in>kids w. pg_killed G w p \<longrightarrow> 0 < pg_ttl G w p)
         | Wait_error e \<Rightarrow> if e = EINTR then pg_backlog G w' < pg_backlog G w else kids w = {})"
    using assms unfolding os_progress_def by blast+
  show "os_unix_ns os w = (u, w') \<Longrightarrow> calm G w w'" using unix [of w] by simp
  show "os_steady_ns os w = (t, w') \<Longrightarrow> t = pg_now G w \<and> calm G w w'" by (rule steady)
  show "os_waitpid os w = (r, w') \<Longrightarrow> calm G w w'" using wait by blast
  show "os_waitpid os w = (Reaped p st, w') \<Longrightarrow> pg_backlog G w' < pg_backlog G w"
    using wait [of w "Reaped p st" w'] by simp
  show "os_waitpid os w = (Wait_error EINTR, w') \<Longrightarrow> pg_backlog G w' < pg_backlog G w"
    using wait [of w "Wait_error EINTR" w'] by simp
  show "os_waitpid os w = (None_ready, w') \<Longrightarrow> \<forall>p\<in>kids w. pg_killed G w p \<longrightarrow> 0 < pg_ttl G w p"
    using wait [of w None_ready w'] by simp
  show "os_waitpid os w = (Wait_error e, w') \<Longrightarrow> e \<noteq> EINTR \<Longrightarrow> kids w = {}"
    using wait [of w "Wait_error e" w'] by simp
  show "pg_killed G w p \<Longrightarrow> pg_ttl G w p \<le> B"
    using assms unfolding os_progress_def by blast
qed

lemma os_progress_kill:
  assumes "os_progress os kids G B"
  shows "pg_now G w \<le> pg_now G (os_kill os p SIGKILL w)"
    and "pg_killed G (os_kill os p SIGKILL w) p"
    and "pg_killed G w q \<Longrightarrow> pg_killed G (os_kill os p SIGKILL w) q \<and>
         pg_ttl G (os_kill os p SIGKILL w) q \<le> pg_ttl G w q"
  using assms unfolding os_progress_def by blast+

lemma os_progress_sleep:
  assumes "os_progress os kids G B" "0 \<le> t"
  shows "pg_now G w + ns_of_ms t \<le> pg_now G (os_sleep_ms os t w)"
    and "pg_killed G w q \<Longrightarrow> pg_killed G (os_sleep_ms os t w) q \<and>
         pg_ttl G (os_sleep_ms os t w) q \<le> pg_ttl G w q - 1"
  using assms unfolding os_progress_def by blast+

subsection \<open>A host\<close>

text \<open>
  A simulated host: a clock, the unreaped children, and what the next forks do. A child is
  alive, ignoring SIGTERM or not, or ends with a status within some sleeps.
\<close>

datatype child = Alive bool | Dying wait_status nat

record sim =
  sim_clock :: int
  sim_children :: "(int \<times> child) list"
  sim_plan :: "child option list"

definition sim_start :: "child option list \<Rightarrow> sim" where
  "sim_start plan = \<lparr>sim_clock = 0, sim_children = [], sim_plan = plan\<rparr>"

definition sim_kids :: "sim \<Rightarrow> int set" where
  "sim_kids w = {p \<in> fst ` set (sim_children w). 0 < p}"

definition sim_fork :: "sim \<Rightarrow> fork_result \<times> sim" where
  "sim_fork w =
     (let p = 1 + fold max (map fst (sim_children w)) 100 in
      case sim_plan w of
        None # rest \<Rightarrow> (Fork_failed 11, w\<lparr>sim_plan := rest\<rparr>)
      | Some c # rest \<Rightarrow> (Forked p, w\<lparr>sim_plan := rest, sim_children := sim_children w @ [(p, c)]\<rparr>)
      | [] \<Rightarrow> (Forked p, w\<lparr>sim_children := sim_children w @ [(p, Alive False)]\<rparr>))"

definition sim_signal :: "nat \<Rightarrow> int \<Rightarrow> child \<Rightarrow> child" where
  "sim_signal B sig c =
     (case c of Alive stubborn \<Rightarrow> if stubborn \<and> sig \<noteq> SIGKILL then c else Dying (WSignaled sig) B
      | Dying st t \<Rightarrow> Dying st (min t B))"

definition sim_kill :: "nat \<Rightarrow> int \<Rightarrow> int \<Rightarrow> sim \<Rightarrow> sim" where
  "sim_kill B p sig w =
     w\<lparr>sim_children := map (\<lambda>(q, c). (q, if q = p then sim_signal B sig c else c)) (sim_children w)\<rparr>"

definition sim_ended :: "sim \<Rightarrow> int \<Rightarrow> bool" where
  "sim_ended w p \<longleftrightarrow> 0 < p \<and> (case map_of (sim_children w) p of Some (Dying st t) \<Rightarrow> t = 0 | _ \<Rightarrow> False)"

definition sim_status :: "sim \<Rightarrow> int \<Rightarrow> wait_status" where
  "sim_status w p = (case map_of (sim_children w) p of Some (Dying st t) \<Rightarrow> st | _ \<Rightarrow> WOther 0)"

definition sim_waitpid :: "sim \<Rightarrow> wait_result \<times> sim" where
  "sim_waitpid w =
     (case filter (sim_ended w) (map fst (sim_children w)) of
        p # _ \<Rightarrow> (Reaped p (sim_status w p), w\<lparr>sim_children := filter (\<lambda>e. fst e \<noteq> p) (sim_children w)\<rparr>)
      | [] \<Rightarrow> (if list_all (\<lambda>e. fst e \<le> 0) (sim_children w) then Wait_error ECHILD else None_ready, w))"

definition sim_tick :: "child \<Rightarrow> child" where
  "sim_tick c = (case c of Dying st t \<Rightarrow> Dying st (t - 1) | _ \<Rightarrow> c)"

definition sim_sleep :: "int \<Rightarrow> sim \<Rightarrow> sim" where
  "sim_sleep t w = w\<lparr>sim_clock := sim_clock w + ns_of_ms (max 0 t),
     sim_children := map (\<lambda>(q, c). (q, sim_tick c)) (sim_children w)\<rparr>"

definition sim_host :: "nat \<Rightarrow> sim os" where
  "sim_host B = \<lparr>os_fork = sim_fork, os_kill = sim_kill B, os_waitpid = sim_waitpid,
     os_unix_ns = (\<lambda>w. (word_of_int (sim_clock w), w)), os_steady_ns = (\<lambda>w. (sim_clock w, w)),
     os_sleep_ms = sim_sleep, os_strerror = to_string_int\<rparr>"

definition sim_progress :: "nat \<Rightarrow> sim progress" where
  "sim_progress B = \<lparr>pg_now = sim_clock,
     pg_killed = (\<lambda>w p. case map_of (sim_children w) p of
        Some (Alive b) \<Rightarrow> False | Some (Dying st t) \<Rightarrow> t \<le> B | None \<Rightarrow> True),
     pg_ttl = (\<lambda>w p. case map_of (sim_children w) p of Some (Dying st t) \<Rightarrow> t | _ \<Rightarrow> 0),
     pg_backlog = (\<lambda>w. length (sim_children w))\<rparr>"

lemma sim_host_sel [simp]:
  "os_fork (sim_host B) = sim_fork" "os_kill (sim_host B) = sim_kill B"
  "os_waitpid (sim_host B) = sim_waitpid" "os_unix_ns (sim_host B) = (\<lambda>w. (word_of_int (sim_clock w), w))"
  "os_steady_ns (sim_host B) = (\<lambda>w. (sim_clock w, w))" "os_sleep_ms (sim_host B) = sim_sleep"
  by (simp_all add: sim_host_def)

lemma le_fold_max: "b \<le> fold max xs (b::int) \<and> (\<forall>x\<in>set xs. x \<le> fold max xs b)"
proof (induction xs arbitrary: b)
  case (Cons x xs)
  from Cons.IH [of "max x b"] show ?case by auto
qed simp

lemma sim_kids_map:
  "sim_kids (w\<lparr>sim_clock := c, sim_children := map (\<lambda>(q, c). (q, f q c)) (sim_children w)\<rparr>) = sim_kids w"
  "sim_kids (w\<lparr>sim_children := map (\<lambda>(q, c). (q, f q c)) (sim_children w)\<rparr>) = sim_kids w"
  by (force simp: sim_kids_def)+

lemma sim_fork_ok:
  "sim_fork w = (Forked p, w') \<Longrightarrow> 0 < p \<and> p \<notin> sim_kids w \<and> sim_kids w' = insert p (sim_kids w)"
  "sim_fork w = (Fork_failed e, w') \<Longrightarrow> sim_kids w' = sim_kids w"
proof -
  let ?p = "1 + fold max (map fst (sim_children w)) 100"
  have p: "0 < ?p" "?p \<notin> sim_kids w"
    using le_fold_max [of 100 "map fst (sim_children w)"] by (fastforce simp: sim_kids_def)+
  show "sim_fork w = (Forked p, w') \<Longrightarrow> 0 < p \<and> p \<notin> sim_kids w \<and> sim_kids w' = insert p (sim_kids w)"
    using p by (auto simp: sim_fork_def sim_kids_def Let_def split: list.splits option.splits)
  show "sim_fork w = (Fork_failed e, w') \<Longrightarrow> sim_kids w' = sim_kids w"
    by (auto simp: sim_fork_def sim_kids_def Let_def split: list.splits option.splits)
qed

lemma sim_waitpid_cases:
  assumes "sim_waitpid w = (r, w')"
  obtains (reaped) p where "r = Reaped p (sim_status w p)" "p \<in> sim_kids w" "sim_ended w p"
      "w' = w\<lparr>sim_children := filter (\<lambda>e. fst e \<noteq> p) (sim_children w)\<rparr>"
  | (none) "r = None_ready" "w' = w" "\<forall>p\<in>sim_kids w. \<not> sim_ended w p"
  | (no_child) "r = Wait_error ECHILD" "w' = w" "sim_kids w = {}"
proof (cases "filter (sim_ended w) (map fst (sim_children w))")
  case Nil
  then have "\<forall>p\<in>sim_kids w. \<not> sim_ended w p" by (auto simp: sim_kids_def filter_empty_conv)
  moreover have "list_all (\<lambda>e. fst e \<le> 0) (sim_children w) \<longleftrightarrow> sim_kids w = {}"
    by (force simp: list_all_iff sim_kids_def)
  ultimately show ?thesis
    using assms none no_child Nil by (auto simp: sim_waitpid_def split: if_splits)
next
  case (Cons p ps)
  then have "p \<in> set (filter (sim_ended w) (map fst (sim_children w)))" by simp
  then have "p \<in> sim_kids w" "sim_ended w p" by (auto simp: sim_kids_def sim_ended_def)
  with reaped [of p] assms Cons show ?thesis by (auto simp: sim_waitpid_def)
qed

lemma sim_waitpid_kids:
  assumes "sim_waitpid w = (r, w')"
  shows "(case r of Reaped p st \<Rightarrow> 0 < p \<and> p \<in> sim_kids w \<and> sim_kids w' = sim_kids w - {p}
          | _ \<Rightarrow> sim_kids w' = sim_kids w)"
  using assms
proof (cases rule: sim_waitpid_cases)
  case (reaped p)
  then show ?thesis by (auto simp: sim_kids_def)
qed simp_all

theorem sim_host_ok: "os_ok (sim_host B) sim_kids"
  unfolding os_ok_def
  using sim_fork_ok sim_waitpid_kids [where r = "Reaped _ _"] sim_waitpid_kids [where r = None_ready]
    sim_waitpid_kids [where r = "Wait_error _"]
  by (auto simp: sim_kill_def sim_sleep_def sim_kids_map)

lemma map_of_map_snd: "map_of (map (\<lambda>(q, c). (q, f q c)) xs) p = map_option (f p) (map_of xs p)"
  by (induction xs) auto

lemma sim_progress_sel [simp]:
  "pg_now (sim_progress B) = sim_clock" "pg_backlog (sim_progress B) w = length (sim_children w)"
  "pg_killed (sim_progress B) w p = (case map_of (sim_children w) p of
      Some (Alive b) \<Rightarrow> False | Some (Dying st t) \<Rightarrow> t \<le> B | None \<Rightarrow> True)"
  "pg_ttl (sim_progress B) w p = (case map_of (sim_children w) p of Some (Dying st t) \<Rightarrow> t | _ \<Rightarrow> 0)"
  by (simp_all add: sim_progress_def)

lemma sim_waitpid_progress:
  assumes "sim_waitpid w = (r, w')"
  shows "calm (sim_progress B) w w' \<and>
        (case r of Reaped p st \<Rightarrow> length (sim_children w') < length (sim_children w)
         | None_ready \<Rightarrow> (\<forall>p\<in>sim_kids w. pg_killed (sim_progress B) w p \<longrightarrow> 0 < pg_ttl (sim_progress B) w p)
         | Wait_error e \<Rightarrow> e \<noteq> EINTR \<and> sim_kids w = {})"
  using assms
proof (cases rule: sim_waitpid_cases)
  case (reaped p)
  then obtain c where c: "(p, c) \<in> set (sim_children w)" by (auto simp: sim_kids_def)
  then have "filter (\<lambda>e. fst e \<noteq> p) (sim_children w) \<noteq> sim_children w"
    by (force simp: filter_id_conv)
  then have less: "length (filter (\<lambda>e. fst e \<noteq> p) (sim_children w)) < length (sim_children w)"
    by (metis length_filter_less filter_id_conv)
  have other: "map_of (filter (\<lambda>e. fst e \<noteq> p) xs) q = (if q = p then None else map_of xs q)" for q and xs :: "(int \<times> child) list"
    by (induction xs) auto
  from reaped less show ?thesis by (auto simp: calm_def other)
next
  case none
  have "0 < pg_ttl (sim_progress B) w p"
    if p: "p \<in> sim_kids w" and killed: "pg_killed (sim_progress B) w p" for p
  proof -
    from p obtain c where c: "map_of (sim_children w) p = Some c"
      by (auto simp: sim_kids_def weak_map_of_SomeI dest: weak_map_of_SomeI)
    moreover have "0 < p" using p by (simp add: sim_kids_def)
    ultimately show ?thesis
      using killed none(3) p by (cases c) (auto simp: sim_ended_def)
  qed
  with none show ?thesis by simp
next
  case no_child
  then show ?thesis by simp
qed

theorem sim_host_progress: "os_progress (sim_host B) sim_kids (sim_progress B) B"
proof -
  have wait: "calm (sim_progress B) w w' \<and>
        (case r of Reaped p st \<Rightarrow> pg_backlog (sim_progress B) w' < pg_backlog (sim_progress B) w
         | None_ready \<Rightarrow> (\<forall>p\<in>sim_kids w. pg_killed (sim_progress B) w p \<longrightarrow> 0 < pg_ttl (sim_progress B) w p)
         | Wait_error e \<Rightarrow> if e = EINTR then pg_backlog (sim_progress B) w' < pg_backlog (sim_progress B) w else sim_kids w = {})"
    if "sim_waitpid w = (r, w')" for w r w'
    using sim_waitpid_progress [OF that] by (cases r) auto
  have kill: "pg_now (sim_progress B) w \<le> pg_now (sim_progress B) (sim_kill B p SIGKILL w) \<and>
      pg_killed (sim_progress B) (sim_kill B p SIGKILL w) p \<and>
      (\<forall>q. pg_killed (sim_progress B) w q \<longrightarrow> pg_killed (sim_progress B) (sim_kill B p SIGKILL w) q \<and>
           pg_ttl (sim_progress B) (sim_kill B p SIGKILL w) q \<le> pg_ttl (sim_progress B) w q)" for w p
    by (auto simp: sim_kill_def map_of_map_snd sim_signal_def split: option.splits child.splits if_splits)
  have sleep: "0 \<le> t \<Longrightarrow> pg_now (sim_progress B) w + ns_of_ms t \<le> pg_now (sim_progress B) (sim_sleep t w) \<and>
      (\<forall>q. pg_killed (sim_progress B) w q \<longrightarrow> pg_killed (sim_progress B) (sim_sleep t w) q \<and>
           pg_ttl (sim_progress B) (sim_sleep t w) q \<le> pg_ttl (sim_progress B) w q - 1)" for w t
    by (auto simp: sim_sleep_def map_of_map_snd sim_tick_def split: option.splits child.splits if_splits)
  have bound: "pg_killed (sim_progress B) w p \<longrightarrow> pg_ttl (sim_progress B) w p \<le> B" for w p
    by (auto split: option.splits child.splits)
  show ?thesis
    unfolding os_progress_def using wait kill sleep bound by simp
qed

end
