(* ===== verification/Process_Manager.thy ===== *)
theory Process_Manager
  imports Launch_Config Posix_Host
begin

section \<open>The process manager (system/launch\_manager/process\_manager.\{hpp,cpp\})\<close>

text \<open>
  The state of class \<^verbatim>\<open>ProcessManager\<close> is the record \<open>manager\<close>: the vector of managed
  processes, the stopping flag, whether an event callback is installed, and \<open>emitted\<close>, the
  arguments of the callback's calls in order. A pointer or reference into the vector is an
  index. Operations take and return the manager and the state of the operating system.
  Log lines are left out. The child's side of fork is \<open>child_program\<close>: what the new process
  does until it executes the command or exits.
\<close>

subsection \<open>State\<close>

datatype ProcessState = kStarting | kRunning | kStopping | kStopped | kExited | kFailed

record ProcessEvent =
  ev_spec :: ProcessSpec
  ev_pid :: int
  ev_state :: ProcessState
  ev_exit_code :: int
  ev_start_time_unix_ns :: u64
  ev_stop_time_unix_ns :: u64
  ev_message :: string

record ManagedProcess =
  spec :: ProcessSpec
  pid :: int
  state :: ProcessState
  restart_count :: u32
  start_time :: int
  start_time_unix_ns :: u64
  stop_time_unix_ns :: u64
  has_heartbeat :: bool
  intentional_stop :: bool
  last_heartbeat_time :: int
  stop_deadline :: int

record manager =
  processes :: "ManagedProcess list"
  event_callback :: bool
  stopping :: bool
  emitted :: "ProcessEvent list"

definition new_ManagedProcess :: "ProcessSpec \<Rightarrow> ManagedProcess" where
  "new_ManagedProcess s =
     \<lparr>spec = s, pid = -1, state = kStopped, restart_count = 0, start_time = 0,
      start_time_unix_ns = 0, stop_time_unix_ns = 0, has_heartbeat = False,
      intentional_stop = False, last_heartbeat_time = 0, stop_deadline = 0\<rparr>"

definition ProcessManager :: "ProcessSpec list \<Rightarrow> manager" where
  "ProcessManager specs =
     \<lparr>processes = map new_ManagedProcess specs, event_callback = False, stopping = False, emitted = []\<rparr>"

definition SetEventCallback :: "manager \<Rightarrow> manager" where
  "SetEventCallback m = m\<lparr>event_callback := True\<rparr>"

text \<open>A write through the reference with index \<open>i\<close>.\<close>

definition put_process :: "nat \<Rightarrow> ManagedProcess \<Rightarrow> manager \<Rightarrow> manager" where
  "put_process i p m = m\<lparr>processes := (processes m)[i := p]\<rparr>"

subsection \<open>Helpers\<close>

definition ExitedSuccessfully :: "wait_status \<Rightarrow> bool" where
  "ExitedSuccessfully status = (case status of WExited c \<Rightarrow> c = 0 | _ \<Rightarrow> False)"

definition ExitCodeFromStatus :: "wait_status \<Rightarrow> int" where
  "ExitCodeFromStatus status =
     (case status of WExited c \<Rightarrow> c | WSignaled s \<Rightarrow> - s | WOther n \<Rightarrow> n)"

definition StatusText :: "wait_status \<Rightarrow> string" where
  "StatusText status =
     (case status of WExited c \<Rightarrow> ''exit_code='' @ to_string_int c
      | WSignaled s \<Rightarrow> ''signal='' @ to_string_int s
      | WOther n \<Rightarrow> ''status='' @ to_string_int n)"

definition BuildArgv :: "ProcessSpec \<Rightarrow> string list" where
  "BuildArgv s = ps_command s # ps_args s"

definition FindByPid :: "manager \<Rightarrow> int \<Rightarrow> nat option" where
  "FindByPid m p = index_of (\<lambda>process. pid process = p) (processes m)"

definition FindByName :: "manager \<Rightarrow> string \<Rightarrow> nat option" where
  "FindByName m name = index_of (\<lambda>process. ps_name (spec process) = name) (processes m)"

definition MakeEvent :: "ManagedProcess \<Rightarrow> ProcessState \<Rightarrow> int \<Rightarrow> u64 \<Rightarrow> string \<Rightarrow> ProcessEvent" where
  "MakeEvent process st exit_code stop_ns message =
     \<lparr>ev_spec = spec process, ev_pid = pid process, ev_state = st, ev_exit_code = exit_code,
      ev_start_time_unix_ns = start_time_unix_ns process, ev_stop_time_unix_ns = stop_ns,
      ev_message = message\<rparr>"

definition EmitEvent :: "ManagedProcess \<Rightarrow> ProcessState \<Rightarrow> int \<Rightarrow> u64 \<Rightarrow> string \<Rightarrow> manager \<Rightarrow> manager" where
  "EmitEvent process st exit_code stop_ns message m =
     (if \<not> event_callback m then m
      else m\<lparr>emitted := emitted m @ [MakeEvent process st exit_code stop_ns message]\<rparr>)"

subsection \<open>The child's side of fork\<close>

text \<open>
  The calls the child makes, given whether chdir succeeds: the last one is \<open>Execv\<close> or
  \<open>Execvp\<close> with the argument vector, followed by \<open>Exit 127\<close> if it returns.
\<close>

datatype child_call =
    Chdir string
  | Setenv string string
  | Execv string "string list"
  | Execvp string "string list"
  | Exit int

definition child_program :: "bool \<Rightarrow> ProcessSpec \<Rightarrow> child_call list" where
  "child_program chdir_ok s =
     (let cd = (if ps_working_directory s = [] then [] else [Chdir (ps_working_directory s)]) in
      if ps_working_directory s \<noteq> [] \<and> \<not> chdir_ok then cd @ [Exit 127]
      else cd @ map (\<lambda>(k, v). Setenv k v) (smap_entries (ps_env s)) @
           [if find_char (ps_command s) (CHR ''/'') \<noteq> None
            then Execv (ps_command s) (BuildArgv s) else Execvp (ps_command s) (BuildArgv s),
            Exit 127])"

subsection \<open>Starting and stopping one process\<close>

definition mark_starting :: "u64 \<Rightarrow> ManagedProcess \<Rightarrow> ManagedProcess" where
  "mark_starting t process =
     process\<lparr>state := kStarting, start_time_unix_ns := t, stop_time_unix_ns := 0,
             has_heartbeat := False, intentional_stop := False\<rparr>"

definition StartOne :: "'w os \<Rightarrow> nat \<Rightarrow> manager \<times> 'w \<Rightarrow> bool \<times> manager \<times> 'w" where
  "StartOne os i = (\<lambda>(m, w).
     let process = processes m ! i in
     if 0 < pid process then (True, m, w)
     else
       let (t, w) = os_unix_ns os w;
           process = mark_starting t process;
           m = EmitEvent process kStarting 0 0 ''starting'' (put_process i process m)
       in case os_fork os w of
            (Fork_failed errno, w) \<Rightarrow>
              let process = process\<lparr>state := kFailed\<rparr>;
                  (t, w) = os_unix_ns os w
              in (False, EmitEvent process kFailed errno t (os_strerror os errno) (put_process i process m), w)
          | (Forked child, w) \<Rightarrow>
              let (now, w) = os_steady_ns os w;
                  process = process\<lparr>pid := child, state := kRunning, start_time := now\<rparr>
              in (True, EmitEvent process kRunning 0 0 ''running'' (put_process i process m), w))"

definition mark_stopping :: "int \<Rightarrow> int \<Rightarrow> bool \<Rightarrow> ManagedProcess \<Rightarrow> ManagedProcess" where
  "mark_stopping now timeout intentional process =
     process\<lparr>state := kStopping, intentional_stop := intentional,
       stop_deadline := now + ns_of_ms (if 0 < timeout then timeout else ps_shutdown_timeout (spec process))\<rparr>"

definition StopOne :: "'w os \<Rightarrow> nat \<Rightarrow> string \<Rightarrow> int \<Rightarrow> bool \<Rightarrow> manager \<times> 'w \<Rightarrow> manager \<times> 'w" where
  "StopOne os i message timeout intentional = (\<lambda>(m, w).
     let process = processes m ! i in
     if pid process \<le> 0 then (m, w)
     else
       let (now, w) = os_steady_ns os w;
           process = mark_stopping now timeout intentional process;
           m = EmitEvent process kStopping 0 0 message (put_process i process m)
       in (m, os_kill os (pid process) SIGTERM w))"

fun StartAll_from :: "'w os \<Rightarrow> nat list \<Rightarrow> bool \<Rightarrow> manager \<times> 'w \<Rightarrow> bool \<times> manager \<times> 'w" where
  "StartAll_from os [] ok s = (ok, s)"
| "StartAll_from os (i # is) ok s =
     (let (started, s) = StartOne os i s in StartAll_from os is (started \<and> ok) s)"

definition StartAll :: "'w os \<Rightarrow> manager \<times> 'w \<Rightarrow> bool \<times> manager \<times> 'w" where
  "StartAll os s = StartAll_from os [0..<length (processes (fst s))] True s"

text \<open>A request without a name is named after its command.\<close>

definition named_spec :: "ProcessSpec \<Rightarrow> ProcessSpec" where
  "named_spec s = (if ps_name s = [] then s\<lparr>ps_name := ps_command s\<rparr> else s)"

lemma named_spec_fields [simp]:
  "ps_name (named_spec s) = (if ps_name s = [] then ps_command s else ps_name s)"
  "ps_command (named_spec s) = ps_command s" "ps_restart (named_spec s) = ps_restart s"
  "ps_restart_limit (named_spec s) = ps_restart_limit s"
  by (simp_all add: named_spec_def)

definition set_spec :: "ProcessSpec \<Rightarrow> ManagedProcess \<Rightarrow> ManagedProcess" where
  "set_spec s process = process\<lparr>spec := s\<rparr>"

lemma set_spec_fields [simp]:
  "spec (set_spec s p) = s" "pid (set_spec s p) = pid p" "state (set_spec s p) = state p"
  "restart_count (set_spec s p) = restart_count p" "intentional_stop (set_spec s p) = intentional_stop p"
  "start_time_unix_ns (set_spec s p) = start_time_unix_ns p"
  "stop_time_unix_ns (set_spec s p) = stop_time_unix_ns p"
  by (simp_all add: set_spec_def)

definition add_process :: "ProcessSpec \<Rightarrow> manager \<Rightarrow> manager" where
  "add_process s m = m\<lparr>processes := processes m @ [new_ManagedProcess s]\<rparr>"

lemma add_process_frame [simp]:
  "processes (add_process s m) = processes m @ [new_ManagedProcess s]"
  "stopping (add_process s m) = stopping m" "event_callback (add_process s m) = event_callback m"
  "emitted (add_process s m) = emitted m"
  by (simp_all add: add_process_def)

definition StartProcess :: "'w os \<Rightarrow> ProcessSpec \<Rightarrow> manager \<times> 'w \<Rightarrow> ProcessEvent \<times> manager \<times> 'w" where
  "StartProcess os s0 = (\<lambda>(m, w).
     let s = named_spec s0 in
     if ps_name s = [] \<or> ps_command s = [] then
       let invalid = (new_ManagedProcess s)\<lparr>state := kFailed\<rparr>; (t, w) = os_unix_ns os w
       in (MakeEvent invalid kFailed EINVAL t ''process name and command are required'', m, w)
     else case FindByName m (ps_name s) of
       Some i \<Rightarrow>
         let existing = processes m ! i in
         if 0 < pid existing then
           (MakeEvent existing (state existing) 0 (stop_time_unix_ns existing) ''process already running'', m, w)
         else
           let (_, m, w) = StartOne os i (put_process i (set_spec s existing) m, w);
               existing = processes m ! i
           in (MakeEvent existing (state existing) 0 (stop_time_unix_ns existing) ''start requested'', m, w)
     | None \<Rightarrow>
         let m = add_process s m;
             i = length (processes m) - 1;
             (_, m, w) = StartOne os i (m, w);
             process = processes m ! i
         in (MakeEvent process (state process) 0 (stop_time_unix_ns process) ''start requested'', m, w))"

definition find_target :: "manager \<Rightarrow> string \<Rightarrow> int \<Rightarrow> nat option" where
  "find_target m name p =
     (let process = (if name \<noteq> [] then FindByName m name else None)
      in if process = None \<and> 0 < p then FindByPid m p else process)"

definition StopProcess :: "'w os \<Rightarrow> string \<Rightarrow> int \<Rightarrow> int \<Rightarrow> manager \<times> 'w \<Rightarrow> ProcessEvent \<times> manager \<times> 'w" where
  "StopProcess os name p timeout = (\<lambda>(m, w).
     case find_target m name p of
       None \<Rightarrow>
         let missing = (new_ManagedProcess
               (default_ProcessSpec\<lparr>ps_name := (if name = [] then to_string_int p else name)\<rparr>))
               \<lparr>pid := p, state := kFailed\<rparr>;
             (t, w) = os_unix_ns os w
         in (MakeEvent missing kFailed ESRCH t ''process not found'', m, w)
     | Some i \<Rightarrow>
         let process = processes m ! i in
         if pid process \<le> 0 then
           (MakeEvent process kStopped 0 (stop_time_unix_ns process) ''process already stopped'', m, w)
         else
           let (m, w) = StopOne os i ''stop requested'' timeout True (m, w)
           in (MakeEvent (processes m ! i) kStopping 0 0 ''stop requested'', m, w))"

lemma mark_starting_fields [simp]:
  "spec (mark_starting t p) = spec p" "pid (mark_starting t p) = pid p"
  "state (mark_starting t p) = kStarting" "restart_count (mark_starting t p) = restart_count p"
  "start_time (mark_starting t p) = start_time p" "start_time_unix_ns (mark_starting t p) = t"
  "stop_time_unix_ns (mark_starting t p) = 0" "has_heartbeat (mark_starting t p) = False"
  "intentional_stop (mark_starting t p) = False" "stop_deadline (mark_starting t p) = stop_deadline p"
  by (simp_all add: mark_starting_def)

lemma mark_stopping_fields [simp]:
  "spec (mark_stopping now d b p) = spec p" "pid (mark_stopping now d b p) = pid p"
  "state (mark_stopping now d b p) = kStopping" "restart_count (mark_stopping now d b p) = restart_count p"
  "intentional_stop (mark_stopping now d b p) = b" "has_heartbeat (mark_stopping now d b p) = has_heartbeat p"
  "start_time_unix_ns (mark_stopping now d b p) = start_time_unix_ns p"
  "stop_deadline (mark_stopping now d b p) =
     now + ns_of_ms (if 0 < d then d else ps_shutdown_timeout (spec p))"
  by (simp_all add: mark_stopping_def)

subsection \<open>Supervision\<close>

definition ShouldRestart :: "ManagedProcess \<Rightarrow> wait_status \<Rightarrow> bool" where
  "ShouldRestart process status =
     (if ps_restart (spec process) = kNever then False
      else if ps_restart_limit (spec process) \<noteq> 0 \<and>
              restart_count process \<ge> ps_restart_limit (spec process) then False
      else if ps_restart (spec process) = kAlways then True
      else \<not> ExitedSuccessfully status)"

definition exit_state :: "manager \<Rightarrow> ManagedProcess \<Rightarrow> wait_status \<Rightarrow> ProcessState" where
  "exit_state m process status =
     (if stopping m \<or> intentional_stop process then kStopped
      else if ExitedSuccessfully status then kExited else kFailed)"

definition mark_exited :: "ProcessState \<Rightarrow> u64 \<Rightarrow> ManagedProcess \<Rightarrow> ManagedProcess" where
  "mark_exited st t process = process\<lparr>state := st, stop_time_unix_ns := t\<rparr>"

definition mark_reaped :: "ManagedProcess \<Rightarrow> ManagedProcess" where
  "mark_reaped process = process\<lparr>pid := -1, intentional_stop := False\<rparr>"

definition count_restart :: "ManagedProcess \<Rightarrow> ManagedProcess" where
  "count_restart process = process\<lparr>restart_count := restart_count process + 1\<rparr>"

text \<open>The bookkeeping for an exit: the new state, the event (still with the pid), then no pid.\<close>

definition note_exit :: "nat \<Rightarrow> wait_status \<Rightarrow> u64 \<Rightarrow> manager \<Rightarrow> manager" where
  "note_exit i status t m =
     (let process = processes m ! i;
          st = exit_state m process status;
          process = mark_exited st t process;
          m = EmitEvent process st (ExitCodeFromStatus status) t (StatusText status) (put_process i process m)
      in put_process i (mark_reaped process) m)"

definition HandleExit :: "'w os \<Rightarrow> int \<Rightarrow> wait_status \<Rightarrow> manager \<times> 'w \<Rightarrow> manager \<times> 'w" where
  "HandleExit os p status = (\<lambda>(m, w).
     case FindByPid m p of
       None \<Rightarrow> (m, w)
     | Some i \<Rightarrow>
         let (t, w) = os_unix_ns os w;
             intentional = intentional_stop (processes m ! i);
             m = note_exit i status t m;
             process = processes m ! i
         in if \<not> stopping m \<and> \<not> intentional \<and> ShouldRestart process status then
              let (_, m, w) = StartOne os i (put_process i (count_restart process) m, w)
              in (m, w)
            else (m, w))"

lemma mark_exit_fields [simp]:
  "spec (mark_exited st t p) = spec p" "pid (mark_exited st t p) = pid p"
  "state (mark_exited st t p) = st" "restart_count (mark_exited st t p) = restart_count p"
  "intentional_stop (mark_exited st t p) = intentional_stop p" "stop_deadline (mark_exited st t p) = stop_deadline p"
  "start_time_unix_ns (mark_exited st t p) = start_time_unix_ns p" "stop_time_unix_ns (mark_exited st t p) = t"
  "spec (mark_reaped p) = spec p" "pid (mark_reaped p) = -1"
  "state (mark_reaped p) = state p" "restart_count (mark_reaped p) = restart_count p"
  "intentional_stop (mark_reaped p) = False" "stop_deadline (mark_reaped p) = stop_deadline p"
  "start_time_unix_ns (mark_reaped p) = start_time_unix_ns p" "stop_time_unix_ns (mark_reaped p) = stop_time_unix_ns p"
  "spec (count_restart p) = spec p" "pid (count_restart p) = pid p"
  "state (count_restart p) = state p" "restart_count (count_restart p) = restart_count p + 1"
  "intentional_stop (count_restart p) = intentional_stop p" "stop_deadline (count_restart p) = stop_deadline p"
  "start_time_unix_ns (count_restart p) = start_time_unix_ns p"
  by (simp_all add: mark_exited_def mark_reaped_def count_restart_def)

definition heartbeat_action :: "int \<Rightarrow> ManagedProcess \<Rightarrow> string option" where
  "heartbeat_action now process =
     (if pid process \<le> 0 \<or> state process = kStopping then None
      else if 0 < ps_heartbeat_timeout (spec process) \<and> \<not> has_heartbeat process \<and>
              0 < ps_startup_timeout (spec process) \<and>
              now - start_time process > ns_of_ms (ps_startup_timeout (spec process))
      then Some ''startup heartbeat timeout''
      else if has_heartbeat process \<and> 0 < ps_heartbeat_timeout (spec process) \<and>
              now - last_heartbeat_time process > ns_of_ms (ps_heartbeat_timeout (spec process))
      then Some ''heartbeat timeout''
      else None)"

fun CheckHeartbeatTimeouts_from :: "'w os \<Rightarrow> int \<Rightarrow> nat list \<Rightarrow> manager \<times> 'w \<Rightarrow> manager \<times> 'w" where
  "CheckHeartbeatTimeouts_from os now [] s = s"
| "CheckHeartbeatTimeouts_from os now (i # is) s =
     CheckHeartbeatTimeouts_from os now is
       (case heartbeat_action now (processes (fst s) ! i) of
          None \<Rightarrow> s | Some message \<Rightarrow> StopOne os i message 0 False s)"

definition CheckHeartbeatTimeouts :: "'w os \<Rightarrow> manager \<times> 'w \<Rightarrow> manager \<times> 'w" where
  "CheckHeartbeatTimeouts os = (\<lambda>(m, w).
     if stopping m then (m, w)
     else let (now, w) = os_steady_ns os w
          in CheckHeartbeatTimeouts_from os now [0..<length (processes m)] (m, w))"

text \<open>\<^verbatim>\<open>Poll\<close> loops while children are waiting, so it may not return: \<open>None\<close>.\<close>

partial_function (option) Poll :: "'w os \<Rightarrow> manager \<times> 'w \<Rightarrow> (manager \<times> 'w) option" where
  "Poll os s =
     (case os_waitpid os (snd s) of (r, w) \<Rightarrow>
        (case r of
           Reaped p status \<Rightarrow> Poll os (HandleExit os p status (fst s, w))
         | None_ready \<Rightarrow> Some (CheckHeartbeatTimeouts os (fst s, w))
         | Wait_error e \<Rightarrow>
             (if e = EINTR then Poll os (fst s, w)
              else Some (CheckHeartbeatTimeouts os (fst s, w)))))"

declare Poll.simps [code]

definition mark_heartbeat :: "int \<Rightarrow> ManagedProcess \<Rightarrow> ManagedProcess" where
  "mark_heartbeat now process = process\<lparr>has_heartbeat := True, last_heartbeat_time := now\<rparr>"

lemma mark_heartbeat_fields [simp]:
  "spec (mark_heartbeat now p) = spec p" "pid (mark_heartbeat now p) = pid p"
  "state (mark_heartbeat now p) = state p" "restart_count (mark_heartbeat now p) = restart_count p"
  "intentional_stop (mark_heartbeat now p) = intentional_stop p"
  "has_heartbeat (mark_heartbeat now p)" "last_heartbeat_time (mark_heartbeat now p) = now"
  by (simp_all add: mark_heartbeat_def)

definition MarkHeartbeat :: "'w os \<Rightarrow> string \<Rightarrow> manager \<times> 'w \<Rightarrow> bool \<times> manager \<times> 'w" where
  "MarkHeartbeat os process_name = (\<lambda>(m, w).
     case FindByName m process_name of
       None \<Rightarrow> (False, m, w)
     | Some i \<Rightarrow>
         let (now, w) = os_steady_ns os w
         in (True, put_process i (mark_heartbeat now (processes m ! i)) m, w))"

subsection \<open>Shutdown\<close>

text \<open>
  One pass of the shutdown loop over the vector: every process still alive past its deadline
  is killed and its deadline moved by a second. The result says whether any is alive.
\<close>

definition kill_if_due :: "'w os \<Rightarrow> int \<Rightarrow> nat \<Rightarrow> bool \<times> manager \<times> 'w \<Rightarrow> bool \<times> manager \<times> 'w" where
  "kill_if_due os now i = (\<lambda>(any_running, m, w).
     let process = processes m ! i in
     if pid process \<le> 0 then (any_running, m, w)
     else if now \<ge> stop_deadline process then
       (True, put_process i (process\<lparr>stop_deadline := now + ns_of_ms 1000\<rparr>) m,
        os_kill os (pid process) SIGKILL w)
     else (True, m, w))"

definition kill_overdue :: "'w os \<Rightarrow> manager \<times> 'w \<Rightarrow> bool \<times> manager \<times> 'w" where
  "kill_overdue os = (\<lambda>(m, w).
     let (now, w) = os_steady_ns os w
     in fold (kill_if_due os now) [0..<length (processes m)] (False, m, w))"

partial_function (option) StopAll_loop :: "'w os \<Rightarrow> manager \<times> 'w \<Rightarrow> (manager \<times> 'w) option" where
  "StopAll_loop os s =
     (case Poll os s of
        None \<Rightarrow> None
      | Some s1 \<Rightarrow>
          (case kill_overdue os s1 of (any_running, m, w) \<Rightarrow>
             (if any_running then StopAll_loop os (m, os_sleep_ms os 100 w) else Some (m, w))))"

declare StopAll_loop.simps [code]

definition StopAll :: "'w os \<Rightarrow> manager \<times> 'w \<Rightarrow> (manager \<times> 'w) option" where
  "StopAll os = (\<lambda>(m, w).
     StopAll_loop os
       (fold (\<lambda>i. StopOne os i ''stopping'' 0 True) [0..<length (processes m)] (m\<lparr>stopping := True\<rparr>, w)))"

end
