(* ===== verification/Messages.thy ===== *)
theory Messages
  imports Prelude
begin

section \<open>Messages of the system services\<close>

text \<open>
  The message types are protobuf classes generated from files outside the repository. The
  records below hold the fields that the modelled services read or write; a field that is not
  written has its protobuf default (zero, empty, the unspecified constant). A metric's value,
  a double converted from an integer, is that integer.
\<close>

record Header =
  h_source_node :: string
  h_source_instance :: string
  h_robot_id :: string
  h_namespace_name :: string
  h_sequence :: u64
  h_timestamp_unix_ns :: u64
  h_trace_id :: string
  h_request_id :: string

record Status =
  st_code :: int
  st_message :: string

datatype NodeKind = NODE_KIND_UNSPECIFIED | NODE_KIND_SYSTEM | NODE_KIND_SERVICE | NODE_KIND_APPLICATION | NODE_KIND_OTHER nat

datatype EndpointDirection =
    ENDPOINT_DIRECTION_PUBLISHER | ENDPOINT_DIRECTION_SUBSCRIBER | ENDPOINT_DIRECTION_SERVICE_SERVER
  | ENDPOINT_DIRECTION_SERVICE_CLIENT

datatype Reliability = RELIABILITY_RELIABLE
datatype Durability = DURABILITY_VOLATILE

record QosProfile =
  qos_queue_size :: u32
  qos_reliability :: Reliability
  qos_durability :: Durability

record TopicInfo =
  tp_name :: string
  tp_type :: string
  tp_direction :: EndpointDirection
  tp_qos :: QosProfile

record ServiceInfo =
  sv_name :: string
  sv_request_type :: string
  sv_response_type :: string
  sv_direction :: EndpointDirection
  sv_qos :: QosProfile

record NodeInfo =
  ni_header :: Header
  ni_node_name :: string
  ni_instance_id :: string
  ni_process_name :: string
  ni_process_id :: u32
  ni_kind :: NodeKind
  ni_version :: string
  ni_namespace_name :: string
  ni_start_time_unix_ns :: u64
  ni_topics :: "TopicInfo list"
  ni_services :: "ServiceInfo list"
  ni_labels :: "(string \<times> string) list"
  ni_capabilities :: "string list"

definition empty_header :: Header where
  "empty_header = \<lparr>h_source_node = [], h_source_instance = [], h_robot_id = [], h_namespace_name = [],
     h_sequence = 0, h_timestamp_unix_ns = 0, h_trace_id = [], h_request_id = []\<rparr>"

definition default_NodeInfo :: NodeInfo where
  "default_NodeInfo = \<lparr>ni_header = empty_header, ni_node_name = [], ni_instance_id = [], ni_process_name = [],
     ni_process_id = 0, ni_kind = NODE_KIND_UNSPECIFIED, ni_version = [], ni_namespace_name = [],
     ni_start_time_unix_ns = 0, ni_topics = [], ni_services = [], ni_labels = [], ni_capabilities = []\<rparr>"

datatype HealthState =
    HEALTH_STATE_UNSPECIFIED | HEALTH_STATE_OK | HEALTH_STATE_WARNING | HEALTH_STATE_ERROR | HEALTH_STATE_STALE

datatype LifecycleState = LIFECYCLE_STATE_UNSPECIFIED | LIFECYCLE_STATE_ACTIVE | LIFECYCLE_STATE_OTHER nat

record Metric =
  mt_name :: string
  mt_value :: int
  mt_unit :: string

record NodeHeartbeat =
  hb_header :: Header
  hb_node_name :: string
  hb_instance_id :: string
  hb_lifecycle_state :: LifecycleState
  hb_health :: HealthState
  hb_uptime_ms :: u64
  hb_error_count :: u32
  hb_status_message :: string
  hb_metrics :: "Metric list"

text \<open>What a service's \<^verbatim>\<open>FillHeader\<close> writes.\<close>

definition service_header :: "string \<Rightarrow> u64 \<Rightarrow> u64 \<Rightarrow> Header option \<Rightarrow> Header" where
  "service_header module sequence t request_header = empty_header
     \<lparr>h_source_node := module, h_source_instance := module, h_robot_id := ''openember'',
      h_sequence := sequence, h_timestamp_unix_ns := t,
      h_trace_id := (case request_header of None \<Rightarrow> [] | Some h \<Rightarrow> h_trace_id h),
      h_request_id := (case request_header of None \<Rightarrow> [] | Some h \<Rightarrow> h_request_id h)\<rparr>"

lemma service_header_ids [simp]:
  "h_trace_id (service_header module sequence t (Some h)) = h_trace_id h"
  "h_request_id (service_header module sequence t (Some h)) = h_request_id h"
  "h_source_node (service_header module sequence t r) = module"
  "h_sequence (service_header module sequence t r) = sequence"
  by (simp_all add: service_header_def empty_header_def)

definition service_status :: "bool \<Rightarrow> string \<Rightarrow> Status" where
  "service_status ok message = \<lparr>st_code = (if ok then 0 else 1), st_message = message\<rparr>"

definition service_qos :: QosProfile where
  "service_qos = \<lparr>qos_queue_size = 8, qos_reliability = RELIABILITY_RELIABLE, qos_durability = DURABILITY_VOLATILE\<rparr>"

definition AddTopic :: "string \<Rightarrow> string \<Rightarrow> EndpointDirection \<Rightarrow> NodeInfo \<Rightarrow> NodeInfo" where
  "AddTopic name type direction info = info\<lparr>ni_topics := ni_topics info @
     [\<lparr>tp_name = name, tp_type = type, tp_direction = direction, tp_qos = service_qos\<rparr>]\<rparr>"

definition AddService :: "string \<Rightarrow> string \<Rightarrow> string \<Rightarrow> NodeInfo \<Rightarrow> NodeInfo" where
  "AddService name request_type response_type info = info\<lparr>ni_services := ni_services info @
     [\<lparr>sv_name = name, sv_request_type = request_type, sv_response_type = response_type,
       sv_direction = ENDPOINT_DIRECTION_SERVICE_SERVER, sv_qos = service_qos\<rparr>]\<rparr>"

definition AddLabel :: "string \<Rightarrow> string \<Rightarrow> NodeInfo \<Rightarrow> NodeInfo" where
  "AddLabel key v info = info\<lparr>ni_labels := ni_labels info @ [(key, v)]\<rparr>"

definition AddCapability :: "string \<Rightarrow> NodeInfo \<Rightarrow> NodeInfo" where
  "AddCapability c info = info\<lparr>ni_capabilities := ni_capabilities info @ [c]\<rparr>"

text \<open>The node a service announces, before its endpoints.\<close>

definition service_node :: "string \<Rightarrow> u64 \<Rightarrow> u64 \<Rightarrow> u32 \<Rightarrow> u64 \<Rightarrow> NodeInfo" where
  "service_node module sequence start_time_unix_ns p t = default_NodeInfo
     \<lparr>ni_header := service_header module sequence t None, ni_node_name := module, ni_instance_id := module,
      ni_process_name := module, ni_process_id := p, ni_kind := NODE_KIND_SYSTEM, ni_version := ''0.1.0'',
      ni_start_time_unix_ns := start_time_unix_ns\<rparr>"

lemma endpoints_simps [simp]:
  "ni_topics (service_node module sequence st p t) = []" "ni_services (service_node module sequence st p t) = []"
  "ni_topics (AddTopic n ty d info) = ni_topics info @ [\<lparr>tp_name = n, tp_type = ty, tp_direction = d, tp_qos = service_qos\<rparr>]"
  "ni_services (AddTopic n ty d info) = ni_services info"
  "ni_topics (AddService n a b info) = ni_topics info"
  "ni_services (AddService n a b info) = ni_services info @ [\<lparr>sv_name = n, sv_request_type = a, sv_response_type = b,
     sv_direction = ENDPOINT_DIRECTION_SERVICE_SERVER, sv_qos = service_qos\<rparr>]"
  "ni_topics (AddLabel k v info) = ni_topics info" "ni_services (AddLabel k v info) = ni_services info"
  "ni_topics (AddCapability c info) = ni_topics info" "ni_services (AddCapability c info) = ni_services info"
  "ni_node_name (service_node module sequence st p t) = module"
  "ni_node_name (AddTopic n ty d info) = ni_node_name info" "ni_node_name (AddService n a b info) = ni_node_name info"
  "ni_node_name (AddLabel k v info) = ni_node_name info" "ni_node_name (AddCapability c info) = ni_node_name info"
  by (simp_all add: service_node_def default_NodeInfo_def AddTopic_def AddService_def AddLabel_def AddCapability_def)

definition service_heartbeat :: "string \<Rightarrow> string \<Rightarrow> u64 \<Rightarrow> u64 \<Rightarrow> u64 \<Rightarrow> Metric list \<Rightarrow> NodeHeartbeat" where
  "service_heartbeat module message sequence t uptime metrics =
     \<lparr>hb_header = service_header module sequence t None, hb_node_name = module, hb_instance_id = module,
      hb_lifecycle_state = LIFECYCLE_STATE_ACTIVE, hb_health = HEALTH_STATE_OK, hb_uptime_ms = uptime, hb_error_count = 0,
      hb_status_message = message, hb_metrics = metrics\<rparr>"

end
