(* ===== verification/Runtime_Registry.thy ===== *)
theory Runtime_Registry
  imports Process_Manager Messages
begin

section \<open>The runtime registry and the messages of the launch manager (system/launch\_manager/main.cpp)\<close>

text \<open>
  The messages of the launch manager beside those of theory Messages. The registry, class \<^verbatim>\<open>RuntimeRegistry\<close>, is an
  ordered map from node names. A time that the code reads from the system clock is an argument.
\<close>

subsection \<open>Messages\<close>

record NodeQuery =
  nq_header :: Header
  nq_node_name :: string
  nq_namespace_name :: string
  nq_include_endpoints :: bool

record NodeQueryResponse =
  nr_header :: Header
  nr_status :: Status
  nr_nodes :: "NodeInfo list"

datatype ProtoState =
    PROCESS_STATE_UNSPECIFIED | PROCESS_STATE_STARTING | PROCESS_STATE_RUNNING | PROCESS_STATE_STOPPING
  | PROCESS_STATE_STOPPED | PROCESS_STATE_EXITED | PROCESS_STATE_FAILED

record ProcessInfo =
  pi_name :: string
  pi_process_id :: u32
  pi_state :: ProtoState
  pi_exit_code :: int
  pi_start_time_unix_ns :: u64
  pi_stop_time_unix_ns :: u64
  pi_message :: string

definition default_ProcessInfo :: ProcessInfo where
  "default_ProcessInfo = \<lparr>pi_name = [], pi_process_id = 0, pi_state = PROCESS_STATE_UNSPECIFIED, pi_exit_code = 0,
     pi_start_time_unix_ns = 0, pi_stop_time_unix_ns = 0, pi_message = []\<rparr>"

record ProtoProcessSpec =
  pp_name :: string
  pp_executable :: string
  pp_args :: "string list"
  pp_env :: "(string \<times> string) list"
  pp_working_directory :: string
  pp_restart_on_failure :: bool
  pp_restart_limit :: u32

record StartProcessRequest =
  sr_header :: Header
  sr_process :: ProtoProcessSpec

record StopProcessRequest =
  tr_header :: Header
  tr_name :: string
  tr_process_id :: u32
  tr_timeout_ms :: int

text \<open>\<^verbatim>\<open>StartProcessResponse\<close> and \<^verbatim>\<open>StopProcessResponse\<close> have the same fields.\<close>

record ProcessResponse =
  rs_header :: Header
  rs_status :: Status
  rs_process :: ProcessInfo

record ProtoProcessEvent =
  pe_header :: Header
  pe_process :: ProcessInfo

subsection \<open>The registry\<close>

record NodeRecord =
  nrec_info :: "NodeInfo"
  nrec_last_info_unix_ns :: u64
  nrec_last_heartbeat_unix_ns :: u64

type_synonym registry = "(string, NodeRecord) smap"

definition default_NodeRecord :: "NodeRecord" where
  "default_NodeRecord = \<lparr>nrec_info = default_NodeInfo, nrec_last_info_unix_ns = 0, nrec_last_heartbeat_unix_ns = 0\<rparr>"

text \<open>\<^verbatim>\<open>nodes_[name]\<close>: the record, a default one if there is none.\<close>

definition node_record :: "registry \<Rightarrow> string \<Rightarrow> NodeRecord" where
  "node_record nodes name = (case smap_get nodes name of None \<Rightarrow> default_NodeRecord | Some r \<Rightarrow> r)"

definition UpdateNodeInfo :: "u64 \<Rightarrow> NodeInfo \<Rightarrow> registry \<Rightarrow> registry" where
  "UpdateNodeInfo t info nodes =
     (if ni_node_name info = [] then nodes
      else smap_put (ni_node_name info)
             ((node_record nodes (ni_node_name info))\<lparr>nrec_info := info, nrec_last_info_unix_ns := t\<rparr>) nodes)"

definition heartbeat_info :: "NodeHeartbeat \<Rightarrow> NodeInfo \<Rightarrow> NodeInfo" where
  "heartbeat_info heartbeat info =
     (if ni_node_name info = []
      then info\<lparr>ni_node_name := hb_node_name heartbeat, ni_instance_id := hb_instance_id heartbeat,
                ni_kind := NODE_KIND_UNSPECIFIED\<rparr>
      else info)"

definition UpdateHeartbeat :: "u64 \<Rightarrow> NodeHeartbeat \<Rightarrow> registry \<Rightarrow> registry" where
  "UpdateHeartbeat t heartbeat nodes =
     (if hb_node_name heartbeat = [] then nodes
      else let r = node_record nodes (hb_node_name heartbeat) in
        smap_put (hb_node_name heartbeat)
          (r\<lparr>nrec_info := heartbeat_info heartbeat (nrec_info r), nrec_last_heartbeat_unix_ns := t\<rparr>) nodes)"

definition query_match :: "NodeQuery \<Rightarrow> string \<Rightarrow> NodeInfo \<Rightarrow> bool" where
  "query_match query name info \<longleftrightarrow>
     \<not> (nq_node_name query \<noteq> [] \<and> nq_node_name query \<noteq> name) \<and>
     \<not> (nq_namespace_name query \<noteq> [] \<and> nq_namespace_name query \<noteq> ni_namespace_name info)"

definition query_view :: "NodeQuery \<Rightarrow> NodeInfo \<Rightarrow> NodeInfo" where
  "query_view query info = (if nq_include_endpoints query then info else info\<lparr>ni_topics := [], ni_services := []\<rparr>)"

fun Query_from :: "NodeQuery \<Rightarrow> (string \<times> NodeRecord) list \<Rightarrow> NodeInfo list" where
  "Query_from query [] = []"
| "Query_from query ((name, r) # rest) =
     (if \<not> query_match query name (nrec_info r) then Query_from query rest
      else query_view query (nrec_info r) # Query_from query rest)"

definition Query :: "registry \<Rightarrow> NodeQuery \<Rightarrow> NodeInfo list" where
  "Query nodes query = Query_from query (smap_entries nodes)"

subsection \<open>Building messages\<close>

definition ToProtoState :: "ProcessState \<Rightarrow> ProtoState" where
  "ToProtoState st =
     (case st of kStarting \<Rightarrow> PROCESS_STATE_STARTING | kRunning \<Rightarrow> PROCESS_STATE_RUNNING
      | kStopping \<Rightarrow> PROCESS_STATE_STOPPING | kStopped \<Rightarrow> PROCESS_STATE_STOPPED
      | kExited \<Rightarrow> PROCESS_STATE_EXITED | kFailed \<Rightarrow> PROCESS_STATE_FAILED)"

definition FillHeader :: "RuntimeSpec \<Rightarrow> Header option \<Rightarrow> u64 \<Rightarrow> u64 \<Rightarrow> Header" where
  "FillHeader runtime request_header sequence t =
     \<lparr>h_source_node = ''launch_manager'', h_source_instance = ''launch_manager'',
      h_robot_id = rt_robot_id runtime, h_namespace_name = rt_namespace_name runtime,
      h_sequence = sequence, h_timestamp_unix_ns = t,
      h_trace_id = (case request_header of None \<Rightarrow> [] | Some h \<Rightarrow> h_trace_id h),
      h_request_id = (case request_header of None \<Rightarrow> [] | Some h \<Rightarrow> h_request_id h)\<rparr>"

definition FillProcessInfo :: "ProcessEvent \<Rightarrow> ProcessInfo" where
  "FillProcessInfo source =
     \<lparr>pi_name = ps_name (ev_spec source),
      pi_process_id = (if 0 < ev_pid source then word_of_int (ev_pid source) else 0),
      pi_state = ToProtoState (ev_state source), pi_exit_code = ev_exit_code source,
      pi_start_time_unix_ns = ev_start_time_unix_ns source,
      pi_stop_time_unix_ns = ev_stop_time_unix_ns source, pi_message = ev_message source\<rparr>"

definition IsProcessCommandOk :: "ProcessEvent \<Rightarrow> bool" where
  "IsProcessCommandOk event \<longleftrightarrow> ev_state event \<noteq> kFailed"

definition FillStatus :: "bool \<Rightarrow> string \<Rightarrow> Status" where
  "FillStatus ok message = \<lparr>st_code = (if ok then 0 else 1), st_message = message\<rparr>"

definition ToLaunchProcessSpec :: "ProtoProcessSpec \<Rightarrow> ProcessSpec" where
  "ToLaunchProcessSpec source = default_ProcessSpec
     \<lparr>ps_name := pp_name source, ps_command := pp_executable source, ps_args := pp_args source,
      ps_env := fold (\<lambda>(k, v). smap_put k v) (pp_env source) [],
      ps_working_directory := pp_working_directory source,
      ps_restart := (if pp_restart_on_failure source then kOnFailure else kNever),
      ps_restart_limit := pp_restart_limit source\<rparr>"

definition BuildStartProcessResponse :: "RuntimeSpec \<Rightarrow> StartProcessRequest \<Rightarrow> ProcessEvent \<Rightarrow> u64 \<Rightarrow> u64 \<Rightarrow> ProcessResponse" where
  "BuildStartProcessResponse runtime request event sequence t =
     \<lparr>rs_header = FillHeader runtime (Some (sr_header request)) sequence t,
      rs_status = FillStatus (IsProcessCommandOk event) (ev_message event),
      rs_process = FillProcessInfo event\<rparr>"

definition BuildStopProcessResponse :: "RuntimeSpec \<Rightarrow> StopProcessRequest \<Rightarrow> ProcessEvent \<Rightarrow> u64 \<Rightarrow> u64 \<Rightarrow> ProcessResponse" where
  "BuildStopProcessResponse runtime request event sequence t =
     \<lparr>rs_header = FillHeader runtime (Some (tr_header request)) sequence t,
      rs_status = FillStatus (IsProcessCommandOk event) (ev_message event),
      rs_process = FillProcessInfo event\<rparr>"

definition BuildStartTimeoutResponse :: "RuntimeSpec \<Rightarrow> StartProcessRequest \<Rightarrow> u64 \<Rightarrow> u64 \<Rightarrow> ProcessResponse" where
  "BuildStartTimeoutResponse runtime request sequence t =
     \<lparr>rs_header = FillHeader runtime (Some (sr_header request)) sequence t,
      rs_status = FillStatus False ''runtime command timeout'',
      rs_process = default_ProcessInfo\<lparr>pi_name := pp_name (sr_process request), pi_state := PROCESS_STATE_FAILED\<rparr>\<rparr>"

definition BuildStopTimeoutResponse :: "RuntimeSpec \<Rightarrow> StopProcessRequest \<Rightarrow> u64 \<Rightarrow> u64 \<Rightarrow> ProcessResponse" where
  "BuildStopTimeoutResponse runtime request sequence t =
     \<lparr>rs_header = FillHeader runtime (Some (tr_header request)) sequence t,
      rs_status = FillStatus False ''runtime command timeout'',
      rs_process = default_ProcessInfo\<lparr>pi_name := tr_name request, pi_process_id := tr_process_id request,
                     pi_state := PROCESS_STATE_FAILED\<rparr>\<rparr>"

definition BuildNodeQueryResponse ::
    "RuntimeSpec \<Rightarrow> NodeQuery \<Rightarrow> NodeInfo list \<Rightarrow> u64 \<Rightarrow> u64 \<Rightarrow> NodeQueryResponse" where
  "BuildNodeQueryResponse runtime request nodes sequence t =
     \<lparr>nr_header = FillHeader runtime (Some (nq_header request)) sequence t,
      nr_status = FillStatus True ''ok'', nr_nodes = nodes\<rparr>"

definition BuildProcessEvent :: "RuntimeSpec \<Rightarrow> ProcessEvent \<Rightarrow> u64 \<Rightarrow> u64 \<Rightarrow> ProtoProcessEvent" where
  "BuildProcessEvent runtime source sequence t =
     \<lparr>pe_header = FillHeader runtime None sequence t, pe_process = FillProcessInfo source\<rparr>"

subsection \<open>The registry against the messages it received\<close>

text \<open>
  A message about a node, with the time it is handled. \<open>info_of\<close> is the specification: the info
  recorded for a name is the last one announced, or what the first heartbeat tells while none is.
\<close>

datatype node_message = Announce u64 "NodeInfo" | Beat u64 NodeHeartbeat

fun register :: "node_message \<Rightarrow> registry \<Rightarrow> registry" where
  "register (Announce t info) nodes = UpdateNodeInfo t info nodes"
| "register (Beat t heartbeat) nodes = UpdateHeartbeat t heartbeat nodes"

fun message_name :: "node_message \<Rightarrow> string" where
  "message_name (Announce t info) = ni_node_name info"
| "message_name (Beat t heartbeat) = hb_node_name heartbeat"

fun info_after :: "NodeInfo option \<Rightarrow> node_message \<Rightarrow> NodeInfo option" where
  "info_after known (Announce t info) = Some info"
| "info_after known (Beat t heartbeat) =
     (case known of Some info \<Rightarrow> Some info
      | None \<Rightarrow> Some (default_NodeInfo\<lparr>ni_node_name := hb_node_name heartbeat, ni_instance_id := hb_instance_id heartbeat\<rparr>))"

definition info_of :: "node_message list \<Rightarrow> string \<Rightarrow> NodeInfo option" where
  "info_of msgs name = (if name = [] then None
     else foldl info_after None (filter (\<lambda>msg. message_name msg = name) msgs))"

definition registry_ok :: "registry \<Rightarrow> bool" where
  "registry_ok nodes \<longleftrightarrow> smap_wf nodes \<and>
     (\<forall>name r. smap_get nodes name = Some r \<longrightarrow> name \<noteq> [] \<and> ni_node_name (nrec_info r) = name)"

lemma registry_ok_register:
  assumes "registry_ok nodes"
  shows "registry_ok (register msg nodes)"
proof (cases msg)
  case (Announce t info)
  with assms show ?thesis
    by (auto simp: registry_ok_def UpdateNodeInfo_def smap_put_wf smap_get_put)
next
  case (Beat t heartbeat)
  have "ni_node_name (nrec_info (node_record nodes n)) = n \<or> ni_node_name (nrec_info (node_record nodes n)) = []" for n
    using assms by (auto simp: registry_ok_def node_record_def default_NodeRecord_def default_NodeInfo_def split: option.splits)
  with assms Beat show ?thesis
    by (auto simp: registry_ok_def UpdateHeartbeat_def Let_def smap_put_wf smap_get_put heartbeat_info_def)
qed

lemma register_other:
  assumes "registry_ok nodes" "message_name msg \<noteq> name"
  shows "smap_get (register msg nodes) name = smap_get nodes name"
  using assms by (cases msg) (auto simp: registry_ok_def UpdateNodeInfo_def UpdateHeartbeat_def Let_def smap_get_put)

lemma register_same:
  assumes ok: "registry_ok nodes" and name: "message_name msg \<noteq> []"
  shows "map_option nrec_info (smap_get (register msg nodes) (message_name msg)) =
    info_after (map_option nrec_info (smap_get nodes (message_name msg))) msg"
proof (cases msg)
  case (Announce t info)
  with ok name show ?thesis by (simp add: registry_ok_def UpdateNodeInfo_def smap_get_put)
next
  case (Beat t heartbeat)
  let ?n = "hb_node_name heartbeat"
  have "ni_node_name (nrec_info r) \<noteq> []" if "smap_get nodes ?n = Some r" for r
    using ok that by (auto simp: registry_ok_def)
  with ok name Beat show ?thesis
    by (auto simp: registry_ok_def UpdateHeartbeat_def Let_def smap_get_put node_record_def default_NodeRecord_def
        heartbeat_info_def default_NodeInfo_def split: option.splits)
qed

lemma registry_ok_empty: "registry_ok []"
  by (simp add: registry_ok_def smap_wf_def smap_get_def)

lemma register_all:
  "registry_ok (fold register msgs []) \<and> map_option nrec_info (smap_get (fold register msgs []) name) = info_of msgs name"
proof (induction msgs rule: rev_induct)
  case Nil
  then show ?case using registry_ok_empty by (simp add: info_of_def smap_get_def)
next
  case (snoc msg msgs)
  then have ok: "registry_ok (fold register msgs [])" by simp
  then have ok': "registry_ok (register msg (fold register msgs []))" by (rule registry_ok_register)
  show ?case
  proof (cases "message_name msg = name \<and> name \<noteq> []")
    case True
    with register_same [OF ok, of msg] snoc ok' show ?thesis by (auto simp: info_of_def)
  next
    case False
    then have "smap_get (register msg (fold register msgs [])) name = smap_get (fold register msgs []) name"
      using register_other [OF ok, of msg name] ok ok'
      by (cases "name = []") (auto simp: registry_ok_def, (metis not_Some_eq)+)
    with False snoc ok' show ?thesis by (auto simp: info_of_def)
  qed
qed

lemma Query_from_eq:
  "Query_from query es = map (\<lambda>(name, r). query_view query (nrec_info r))
     (filter (\<lambda>(name, r). query_match query name (nrec_info r)) es)"
  by (induction query es rule: Query_from.induct) auto

lemma query_view_name [simp]: "ni_node_name (query_view query info) = ni_node_name info"
  by (simp add: query_view_def)

lemma query_answer:
  assumes ok: "registry_ok nodes"
  shows "info \<in> set (Query nodes query) \<longleftrightarrow>
    (\<exists>name r. smap_get nodes name = Some r \<and> query_match query name (nrec_info r) \<and> info = query_view query (nrec_info r))"
  using ok reg.entries_get [of nodes]
  by (auto simp: Query_def Query_from_eq registry_ok_def)

lemma query_sorted:
  assumes ok: "registry_ok nodes"
  shows "sorted_wrt (<) (map ni_node_name (Query nodes query))"
proof -
  have names: "ni_node_name (nrec_info r) = name" if "(name, r) \<in> set (smap_entries nodes)" for name r
    using ok that reg.entries_get [of nodes name r] by (auto simp: registry_ok_def)
  have "map ni_node_name (Query nodes query) =
      map fst (filter (\<lambda>(name, r). query_match query name (nrec_info r)) (smap_entries nodes))"
    using names by (auto simp: Query_def Query_from_eq intro!: map_cong)
  moreover have "sorted_wrt (<) (map fst (smap_entries nodes))"
    using ok reg.entries_sorted by (auto simp: registry_ok_def)
  ultimately show ?thesis
    using sorted_wrt_filter by (simp add: sorted_wrt_map sorted_wrt_filter)
qed

subsection \<open>Properties\<close>

text \<open>C10: After any sequence of node announcements and heartbeats, the registry's record for a name holds
  the last announcement for that name; while there is none, a placeholder from the first heartbeat;
  and there is no record for a name without messages or for the empty name. A heartbeat never
  overwrites what a node announced.\<close>

theorem registry_records_messages:
  "map_option nrec_info (smap_get (fold register msgs []) name) = info_of msgs name"
  using register_all by blast

text \<open>A node query is answered with exactly the recorded nodes that match the requested name and
  namespace (an empty field matches all), each once and in the order of their names, with their
  endpoints removed unless they are asked for.\<close>

theorem query_exact:
  "let answer = Query (fold register msgs []) query in
   sorted_wrt (<) (map ni_node_name answer) \<and>
   set answer = {info'. \<exists>name info. info_of msgs name = Some info \<and>
     (nq_node_name query = [] \<or> nq_node_name query = name) \<and>
     (nq_namespace_name query = [] \<or> nq_namespace_name query = ni_namespace_name info) \<and>
     info' = (if nq_include_endpoints query then info else info\<lparr>ni_topics := [], ni_services := []\<rparr>)}"
proof -
  let ?nodes = "fold register msgs []"
  have ok: "registry_ok ?nodes" and get: "\<And>name. map_option nrec_info (smap_get ?nodes name) = info_of msgs name"
    using register_all by blast+
  have "(\<exists>r. smap_get ?nodes name = Some r \<and> P (nrec_info r)) \<longleftrightarrow> (\<exists>info. info_of msgs name = Some info \<and> P info)" for name P
    unfolding get [symmetric] by (cases "smap_get ?nodes name") auto
  note ex = this
  show ?thesis
    unfolding Let_def
  proof (intro conjI set_eqI)
    show "sorted_wrt (<) (map ni_node_name (Query ?nodes query))" by (rule query_sorted [OF ok])
    show "info \<in> set (Query ?nodes query) \<longleftrightarrow> info \<in> {info'. \<exists>name info. info_of msgs name = Some info \<and>
     (nq_node_name query = [] \<or> nq_node_name query = name) \<and>
     (nq_namespace_name query = [] \<or> nq_namespace_name query = ni_namespace_name info) \<and>
     info' = (if nq_include_endpoints query then info else info\<lparr>ni_topics := [], ni_services := []\<rparr>)}" for info
      unfolding query_answer [OF ok] mem_Collect_eq query_match_def query_view_def
      using ex [where P = "\<lambda>i. (nq_node_name query = [] \<or> nq_node_name query = n) \<and>
        (nq_namespace_name query = [] \<or> nq_namespace_name query = ni_namespace_name i) \<and>
        info = (if nq_include_endpoints query then i else i\<lparr>ni_topics := [], ni_services := []\<rparr>)" for n]
      by auto
  qed
qed

end
