(* ===== verification/Supervision.thy ===== *)
theory Supervision
  imports Process_Manager
begin

section \<open>Supervision: invariants of the process manager\<close>

text \<open>
  \<open>pm_inv\<close> is the manager's invariant against the set of children the operating system has
  not yet reaped: a process has a positive pid exactly while it is running or stopping, two
  entries never share a live pid, every live pid is an unreaped child, and a stop is marked
  intentional only while it is under way. Every operation keeps it. The second half states what
  each operation leaves unchanged, and the bound on automatic restarts.
\<close>

definition proc_ok :: "ManagedProcess \<Rightarrow> bool" where
  "proc_ok p \<longleftrightarrow>
     (pid p = -1 \<and> state p \<in> {kStopped, kExited, kFailed} \<or> 0 < pid p \<and> state p \<in> {kRunning, kStopping}) \<and>
     (intentional_stop p \<longrightarrow> state p = kStopping)"

definition live :: "ManagedProcess list \<Rightarrow> int set" where
  "live ps = {pid p |p. p \<in> set ps \<and> 0 < pid p}"

definition own_pids :: "ManagedProcess list \<Rightarrow> bool" where
  "own_pids ps \<longleftrightarrow> (\<forall>i<length ps. \<forall>j<length ps. 0 < pid (ps ! i) \<longrightarrow> pid (ps ! i) = pid (ps ! j) \<longrightarrow> i = j)"

definition pm_inv :: "int set \<Rightarrow> manager \<Rightarrow> bool" where
  "pm_inv K m \<longleftrightarrow> (\<forall>p\<in>set (processes m). proc_ok p) \<and> own_pids (processes m) \<and> live (processes m) \<subseteq> K"

lemma live_nth: "i < length ps \<Longrightarrow> 0 < pid (ps ! i) \<Longrightarrow> pid (ps ! i) \<in> live ps"
  by (auto simp: live_def)

lemma in_live_iff: "x \<in> live ps \<longleftrightarrow> (\<exists>i<length ps. pid (ps ! i) = x \<and> 0 < x)"
  by (auto simp: live_def in_set_conv_nth)

lemma live_update:
  "i < length ps \<Longrightarrow> x \<in> live (ps[i := q]) \<longleftrightarrow>
     0 < x \<and> (x = pid q \<or> (\<exists>j<length ps. j \<noteq> i \<and> pid (ps ! j) = x))"
  by (auto simp: in_live_iff nth_list_update)

text \<open>Writing one entry keeps the invariant when the new entry is well formed and its pid is its own.\<close>

lemma pm_inv_update:
  assumes inv: "pm_inv K m" and i: "i < length (processes m)" and ok: "proc_ok q"
    and own: "0 < pid q \<Longrightarrow> pid q = pid (processes m ! i) \<or> pid q \<notin> live (processes m)"
    and K: "0 < pid q \<Longrightarrow> pid q \<in> K'" "K - {pid (processes m ! i)} \<subseteq> K'"
    and ps: "processes m' = (processes m)[i := q]"
  shows "pm_inv K' m'"
proof -
  let ?ps = "processes m"
  from inv have oks: "\<forall>p\<in>set ?ps. proc_ok p" and dist: "own_pids ?ps" and sub: "live ?ps \<subseteq> K"
    by (auto simp: pm_inv_def)
  have others: "pid (?ps ! j) \<noteq> pid q" if "j < length ?ps" "j \<noteq> i" "0 < pid q" for j
    using own [OF that(3)] dist that i live_nth [of j ?ps] by (metis own_pids_def)
  have "\<forall>p\<in>set (?ps[i := q]). proc_ok p"
    using oks ok set_update_subset_insert [of ?ps i q] by blast
  moreover have "own_pids (?ps[i := q])"
    unfolding own_pids_def
  proof (intro allI impI)
    fix a b assume a: "a < length (?ps[i := q])" and b: "b < length (?ps[i := q])"
      and pos: "0 < pid (?ps[i := q] ! a)" and eq: "pid (?ps[i := q] ! a) = pid (?ps[i := q] ! b)"
    show "a = b"
    proof (cases "a = i \<or> b = i")
      case True
      with a b pos eq others i show ?thesis
        by (auto simp: nth_list_update split: if_splits dest: sym)
    next
      case False
      with dist a b pos eq show ?thesis by (auto simp: own_pids_def)
    qed
  qed
  moreover have "live (?ps[i := q]) \<subseteq> K'"
  proof
    fix x assume "x \<in> live (?ps[i := q])"
    then have pos: "0 < x" and cases: "x = pid q \<or> (\<exists>j<length ?ps. j \<noteq> i \<and> pid (?ps ! j) = x)"
      using i by (auto simp: live_update)
    from cases show "x \<in> K'"
    proof
      assume "x = pid q" with K pos show ?thesis by simp
    next
      assume "\<exists>j<length ?ps. j \<noteq> i \<and> pid (?ps ! j) = x"
      then obtain j where j: "j < length ?ps" "j \<noteq> i" "pid (?ps ! j) = x" by blast
      then have "x \<in> K" using sub pos live_nth [of j ?ps] by auto
      moreover have "x \<noteq> pid (?ps ! i)"
        using dist i j pos by (auto simp: own_pids_def)
      ultimately show ?thesis using K(2) by blast
    qed
  qed
  ultimately show ?thesis using ps by (simp add: pm_inv_def)
qed

lemma pm_inv_same_pid:
  assumes "pm_inv K m" "i < length (processes m)" "proc_ok q" "pid q = pid (processes m ! i)"
    "processes m' = (processes m)[i := q]"
  shows "pm_inv K m'"
  using assms live_nth [of i "processes m"]
  by (intro pm_inv_update [OF assms(1-3), where K' = K]) (auto simp: pm_inv_def)

lemma pm_inv_cong: "processes m' = processes m \<Longrightarrow> pm_inv K m' = pm_inv K m"
  by (simp add: pm_inv_def)

lemma pm_inv_nth: "pm_inv K m \<Longrightarrow> i < length (processes m) \<Longrightarrow> proc_ok (processes m ! i)"
  by (simp add: pm_inv_def)

lemma pm_inv_ProcessManager: "pm_inv K (ProcessManager specs)"
  by (auto simp: pm_inv_def ProcessManager_def proc_ok_def own_pids_def live_def new_ManagedProcess_def)

subsection \<open>What the operations leave alone\<close>

lemma EmitEvent_frame [simp]:
  "processes (EmitEvent p st c t msg m) = processes m"
  "stopping (EmitEvent p st c t msg m) = stopping m"
  "event_callback (EmitEvent p st c t msg m) = event_callback m"
  by (simp_all add: EmitEvent_def)

lemma put_process_frame [simp]:
  "processes (put_process i p m) = (processes m)[i := p]"
  "stopping (put_process i p m) = stopping m"
  "event_callback (put_process i p m) = event_callback m"
  "emitted (put_process i p m) = emitted m"
  by (simp_all add: put_process_def)

text \<open>The three outcomes of a start, with the entry that results.\<close>

lemma StartOne_cases:
  assumes "StartOne os i (m, w) = (ok, m', w')" and "i < length (processes m)"
  obtains (running) "0 < pid (processes m ! i)" "ok" "m' = m" "w' = w"
  | (failed) e t t' w1 w2 q where "pid (processes m ! i) \<le> 0" "\<not> ok" "os_unix_ns os w = (t, w1)"
      "os_fork os w1 = (Fork_failed e, w2)" "os_unix_ns os w2 = (t', w')"
      "processes m' = (processes m)[i := q]"
      "q = (mark_starting t (processes m ! i))\<lparr>state := kFailed\<rparr>"
      "stopping m' = stopping m" "event_callback m' = event_callback m"
  | (started) child t now w1 w2 q where "pid (processes m ! i) \<le> 0" "ok" "os_unix_ns os w = (t, w1)"
      "os_fork os w1 = (Forked child, w2)" "os_steady_ns os w2 = (now, w')"
      "processes m' = (processes m)[i := q]"
      "q = (mark_starting t (processes m ! i))\<lparr>pid := child, state := kRunning, start_time := now\<rparr>"
      "stopping m' = stopping m" "event_callback m' = event_callback m"
proof (cases "0 < pid (processes m ! i)")
  case True
  with assms show ?thesis by (intro running) (auto simp: StartOne_def)
next
  case False
  obtain t w1 where t: "os_unix_ns os w = (t, w1)" by fastforce
  obtain r w2 where r: "os_fork os w1 = (r, w2)" by fastforce
  show ?thesis
  proof (cases r)
    case (Fork_failed e)
    obtain t' w3 where t': "os_unix_ns os w2 = (t', w3)" by fastforce
    with False t r Fork_failed assms show ?thesis
      by (intro failed [of t w1 e w2 t']) (auto simp: StartOne_def Let_def)
  next
    case (Forked child)
    obtain now w3 where now: "os_steady_ns os w2 = (now, w3)" by fastforce
    with False t r Forked assms show ?thesis
      by (intro started [of t w1 child w2 now]) (auto simp: StartOne_def Let_def)
  qed
qed

lemma StartOne_frame:
  assumes "StartOne os i (m, w) = (ok, m', w')" and "i < length (processes m)"
  shows "length (processes m') = length (processes m)" "stopping m' = stopping m"
    "event_callback m' = event_callback m" "j \<noteq> i \<Longrightarrow> processes m' ! j = processes m ! j"
    "spec (processes m' ! i) = spec (processes m ! i)"
    "restart_count (processes m' ! i) = restart_count (processes m ! i)"
  using assms by (auto elim!: StartOne_cases)

lemma StopOne_cases:
  assumes "StopOne os i msg timeout intentional (m, w) = (m', w')"
  obtains (idle) "pid (processes m ! i) \<le> 0" "m' = m" "w' = w"
  | (stopping) now w1 q where "0 < pid (processes m ! i)" "os_steady_ns os w = (now, w1)"
      "w' = os_kill os (pid (processes m ! i)) SIGTERM w1"
      "processes m' = (processes m)[i := q]"
      "q = mark_stopping now timeout intentional (processes m ! i)"
      "stopping m' = stopping m" "event_callback m' = event_callback m"
proof (cases "0 < pid (processes m ! i)")
  case False
  with assms show ?thesis by (intro idle) (auto simp: StopOne_def)
next
  case True
  obtain now w1 where "os_steady_ns os w = (now, w1)" by fastforce
  with True assms show ?thesis
    by (intro stopping [of now w1]) (auto simp: StopOne_def Let_def)
qed

lemma StopOne_frame:
  assumes "StopOne os i msg timeout intentional (m, w) = (m', w')"
  shows "length (processes m') = length (processes m)" "stopping m' = stopping m"
    "event_callback m' = event_callback m" "j \<noteq> i \<Longrightarrow> processes m' ! j = processes m ! j"
    "map spec (processes m') = map spec (processes m)"
    "map pid (processes m') = map pid (processes m)"
    "map restart_count (processes m') = map restart_count (processes m)"
  using assms by (auto elim!: StopOne_cases simp: map_list_update_same)

subsection \<open>Every operation keeps the invariant\<close>

lemma StartOne_inv:
  assumes ok: "os_ok os kids" and inv: "pm_inv (kids w) m" and i: "i < length (processes m)"
    and run: "StartOne os i (m, w) = (b, m', w')"
  shows "pm_inv (kids w') m'"
  using run i
proof (cases rule: StartOne_cases)
  case running
  with inv show ?thesis by simp
next
  case (failed e t t' w1 w2 q)
  have "kids w' = kids w"
    using failed os_okD [OF ok] by metis
  moreover have "proc_ok q"
    using pm_inv_nth [OF inv i] failed by (auto simp: proc_ok_def)
  ultimately show ?thesis
    using failed by (auto intro!: pm_inv_same_pid [OF inv i, of q])
next
  case (started child t now w1 w2 q)
  have child: "0 < child" "child \<notin> kids w" "kids w' = insert child (kids w)"
    using started os_okD [OF ok] by metis+
  show ?thesis
  proof (rule pm_inv_update [OF inv i, of q])
    show "proc_ok q" using started child by (simp add: proc_ok_def)
    show "pid q = pid (processes m ! i) \<or> pid q \<notin> live (processes m)"
      using child inv started by (auto simp: pm_inv_def)
  qed (use started child in auto)
qed

lemma StopOne_inv:
  assumes ok: "os_ok os kids" and inv: "pm_inv (kids w) m" and run: "StopOne os i msg d b (m, w) = (m', w')"
    and i: "i < length (processes m)"
  shows "pm_inv (kids w') m'"
  using run
proof (cases rule: StopOne_cases)
  case idle
  with inv show ?thesis by simp
next
  case (stopping now w1 q)
  have "kids w' = kids w"
    using stopping os_okD [OF ok] by metis
  with stopping show ?thesis
    by (auto intro!: pm_inv_same_pid [OF inv i, of q] simp: proc_ok_def)
qed

lemma StartAll_from_inv:
  assumes ok: "os_ok os kids" and "pm_inv (kids w) m" "\<forall>i\<in>set is. i < length (processes m)"
    "StartAll_from os is b (m, w) = (b', m', w')"
  shows "pm_inv (kids w') m' \<and> length (processes m') = length (processes m)"
  using assms
proof (induction "is" arbitrary: m w b)
  case (Cons i "is")
  obtain c m1 w1 where start: "StartOne os i (m, w) = (c, m1, w1)"
    by (metis prod_cases3)
  have "pm_inv (kids w1) m1" "length (processes m1) = length (processes m)"
    using StartOne_inv [OF ok _ _ start] StartOne_frame [OF start] Cons.prems by auto
  with Cons.IH [of w1 m1 "c \<and> b"] Cons.prems start show ?case by simp
qed simp

lemma note_exit_processes [simp]:
  "i < length (processes m) \<Longrightarrow> processes (note_exit i status t m) =
     (processes m)[i := mark_reaped (mark_exited (exit_state m (processes m ! i) status) t (processes m ! i))]"
  "stopping (note_exit i status t m) = stopping m"
  "event_callback (note_exit i status t m) = event_callback m"
  by (simp_all add: note_exit_def Let_def)

lemma proc_ok_reaped [simp]: "proc_ok (mark_reaped (mark_exited (exit_state m p status) t q))"
  by (auto simp: proc_ok_def exit_state_def)

lemma HandleExit_cases:
  assumes run: "HandleExit os p status (m, w) = (m', w')"
  obtains (unmanaged) "FindByPid m p = None" "m' = m" "w' = w"
  | (final) i t where "FindByPid m p = Some i" "i < length (processes m)" "pid (processes m ! i) = p"
      "os_unix_ns os w = (t, w')" "m' = note_exit i status t m"
      "stopping m \<or> intentional_stop (processes m ! i) \<or> \<not> ShouldRestart (processes m ! i) status"
  | (restarted) i t w1 b where "FindByPid m p = Some i" "i < length (processes m)" "pid (processes m ! i) = p"
      "os_unix_ns os w = (t, w1)"
      "StartOne os i (put_process i (count_restart (processes (note_exit i status t m) ! i)) (note_exit i status t m), w1) = (b, m', w')"
      "\<not> stopping m" "\<not> intentional_stop (processes m ! i)" "ShouldRestart (processes m ! i) status"
proof (cases "FindByPid m p")
  case None
  with run show ?thesis by (intro unmanaged) (auto simp: HandleExit_def)
next
  case (Some i)
  then have i: "i < length (processes m)" and pi: "pid (processes m ! i) = p"
    by (auto simp: FindByPid_def dest: index_of_SomeD)
  obtain t w1 where t: "os_unix_ns os w = (t, w1)" by fastforce
  obtain b m4 w4 where s: "StartOne os i (put_process i (count_restart (processes (note_exit i status t m) ! i))
      (note_exit i status t m), w1) = (b, m4, w4)" by (metis prod_cases3)
  have should: "ShouldRestart (processes (note_exit i status t m) ! i) status = ShouldRestart (processes m ! i) status"
    using i by (simp add: ShouldRestart_def)
  show ?thesis
  proof (cases "\<not> stopping m \<and> \<not> intentional_stop (processes m ! i) \<and> ShouldRestart (processes m ! i) status")
    case True
    then have "(m', w') = (m4, w4)"
      using run Some t s should by (simp add: HandleExit_def Let_def)
    with True Some i pi t s show ?thesis by (intro restarted) auto
  next
    case False
    then have "(m', w') = (note_exit i status t m, w1)"
      using run Some t s should by (auto simp: HandleExit_def Let_def)
    with False Some i pi t show ?thesis by (intro final) auto
  qed
qed

lemma HandleExit_inv:
  assumes ok: "os_ok os kids" and inv: "pm_inv (insert p (kids w)) m" and p: "p \<notin> kids w" "0 < p"
    and run: "HandleExit os p status (m, w) = (m', w')"
  shows "pm_inv (kids w') m' \<and> length (processes m') = length (processes m)"
proof -
  have noted: "pm_inv (kids w1) (note_exit i status t m)"
    if "i < length (processes m)" "pid (processes m ! i) = p" "os_unix_ns os w = (t, w1)" for i t w1
  proof (rule pm_inv_update [OF inv that(1)])
    show "insert p (kids w) - {pid (processes m ! i)} \<subseteq> kids w1"
      using that(2) os_okD(7) [OF ok that(3)] by auto
  qed (use that(1) in simp_all)
  from run show ?thesis
  proof (cases rule: HandleExit_cases)
    case unmanaged
    then have "p \<notin> live (processes m)" by (auto simp: FindByPid_def live_def)
    with inv unmanaged show ?thesis by (auto simp: pm_inv_def)
  next
    case (final i t)
    with noted show ?thesis by simp
  next
    case (restarted i t w1 b)
    let ?m2 = "note_exit i status t m"
    have "pm_inv (kids w1) (put_process i (count_restart (processes ?m2 ! i)) ?m2)"
      by (rule pm_inv_same_pid [OF noted [OF restarted(2,3,4)], of i "count_restart (processes ?m2 ! i)"])
         (use restarted(2) in \<open>auto simp: proc_ok_def exit_state_def\<close>)
    then have "pm_inv (kids w') m'"
      by (rule StartOne_inv [OF ok _ _ restarted(5)]) (simp add: restarted(2))
    moreover have "length (processes m') = length (processes m)"
      using StartOne_frame(1) [OF restarted(5)] restarted(2) by simp
    ultimately show ?thesis by blast
  qed
qed

lemma new_ManagedProcess_fields [simp]:
  "spec (new_ManagedProcess s) = s" "pid (new_ManagedProcess s) = -1" "state (new_ManagedProcess s) = kStopped"
  "restart_count (new_ManagedProcess s) = 0" "intentional_stop (new_ManagedProcess s) = False"
  by (simp_all add: new_ManagedProcess_def)

lemma pm_inv_add_process:
  assumes "pm_inv K m"
  shows "pm_inv K (add_process s m)"
proof -
  have "own_pids (processes m @ [new_ManagedProcess s])"
    using assms by (auto simp: pm_inv_def own_pids_def nth_append split: if_splits)
  moreover have "live (processes m @ [new_ManagedProcess s]) = live (processes m)"
    by (auto simp: live_def)
  ultimately show ?thesis using assms by (auto simp: pm_inv_def proc_ok_def)
qed

subsection \<open>Polling\<close>

text \<open>
  The rule for \<open>Poll\<close>: what reaping a child and an interrupted call keep, and what the final
  supervision pass establishes, holds of every state a poll returns.
\<close>

lemma Poll_rule:
  assumes ret: "Poll os s = Some s'" and start: "I s"
    and reap: "\<And>m w p st w'. I (m, w) \<Longrightarrow> os_waitpid os w = (Reaped p st, w') \<Longrightarrow> I (HandleExit os p st (m, w'))"
    and intr: "\<And>m w w'. I (m, w) \<Longrightarrow> os_waitpid os w = (Wait_error EINTR, w') \<Longrightarrow> I (m, w')"
    and final: "\<And>m w r w'. I (m, w) \<Longrightarrow> os_waitpid os w = (r, w') \<Longrightarrow>
       r = None_ready \<or> (\<exists>e. r = Wait_error e \<and> e \<noteq> EINTR) \<Longrightarrow> Q (CheckHeartbeatTimeouts os (m, w'))"
  shows "Q s'"
proof -
  have "fst s = fst s \<longrightarrow> os = os \<longrightarrow> I s \<longrightarrow> Q s'" if "Poll os s = Some s'" for s s'
  proof (rule Poll.raw_induct [where P = "\<lambda>o1 s s'. fst s = fst s \<longrightarrow> o1 = os \<longrightarrow> I s \<longrightarrow> Q s'", OF _ that],
      intro impI)
    fix P o1 s s'
    assume IH: "\<And>o1 s s'. P o1 s = Some s' \<Longrightarrow> fst s = fst s \<longrightarrow> o1 = os \<longrightarrow> I s \<longrightarrow> Q s'"
      and step: "(case os_waitpid o1 (snd s) of (r, w) \<Rightarrow>
        (case r of
           Reaped p status \<Rightarrow> P o1 (HandleExit o1 p status (fst s, w))
         | None_ready \<Rightarrow> Some (CheckHeartbeatTimeouts o1 (fst s, w))
         | Wait_error e \<Rightarrow>
             (if e = EINTR then P o1 (fst s, w)
              else Some (CheckHeartbeatTimeouts o1 (fst s, w))))) = Some s'"
      and o1: "o1 = os" and I: "I s"
    obtain m w where s: "s = (m, w)" by fastforce
    obtain r w1 where r: "os_waitpid os w = (r, w1)" by fastforce
    show "Q s'"
      using step IH [of o1] reap [of m w] intr [of m w] final [of m w] I o1 r s
      by (cases r) (auto split: if_splits)
  qed
  with ret start show ?thesis by blast
qed

text \<open>The branches of a start request, with the state in which \<open>StartOne\<close> runs.\<close>

lemma StartProcess_cases:
  assumes run: "StartProcess os s0 (m, w) = (ev, m', w')"
  obtains (invalid) t where "ps_command s0 = []" "m' = m" "os_unix_ns os w = (t, w')"
      "ev_state ev = kFailed" "ev_exit_code ev = EINVAL"
  | (busy) i where "ps_command s0 \<noteq> []" "FindByName m (ps_name (named_spec s0)) = Some i"
      "0 < pid (processes m ! i)" "m' = m" "w' = w"
      "ev = MakeEvent (processes m ! i) (state (processes m ! i)) 0 (stop_time_unix_ns (processes m ! i)) ''process already running''"
  | (again) i b where "ps_command s0 \<noteq> []" "FindByName m (ps_name (named_spec s0)) = Some i"
      "pid (processes m ! i) \<le> 0"
      "StartOne os i (put_process i (set_spec (named_spec s0) (processes m ! i)) m, w) = (b, m', w')"
      "ev = MakeEvent (processes m' ! i) (state (processes m' ! i)) 0 (stop_time_unix_ns (processes m' ! i)) ''start requested''"
  | (fresh) b where "ps_command s0 \<noteq> []" "FindByName m (ps_name (named_spec s0)) = None"
      "StartOne os (length (processes m)) (add_process (named_spec s0) m, w) = (b, m', w')"
      "ev = MakeEvent (processes m' ! length (processes m)) (state (processes m' ! length (processes m))) 0
              (stop_time_unix_ns (processes m' ! length (processes m))) ''start requested''"
proof (cases "ps_command s0 = []")
  case True
  obtain t w1 where "os_unix_ns os w = (t, w1)" by fastforce
  with True run show ?thesis
    by (intro invalid [of t]) (auto simp: StartProcess_def MakeEvent_def Let_def)
next
  case False
  define s where "s = named_spec s0"
  have valid: "\<not> (ps_name s = [] \<or> ps_command s = [])" using False by (simp add: s_def)
  note run' = run [unfolded StartProcess_def Let_def s_def [symmetric] prod.case if_not_P [OF valid]]
  show ?thesis
  proof (cases "FindByName m (ps_name s)")
    case None
    obtain b m2 w2 where st: "StartOne os (length (processes m)) (add_process s m, w) = (b, m2, w2)"
      by (metis prod_cases3)
    from run' None st have "m2 = m'" "w2 = w'"
      "ev = MakeEvent (processes m' ! length (processes m)) (state (processes m' ! length (processes m))) 0
              (stop_time_unix_ns (processes m' ! length (processes m))) ''start requested''"
      by auto
    with fresh [of b] False None st show ?thesis by (simp add: s_def)
  next
    case (Some i)
    obtain b m2 w2 where st: "StartOne os i (put_process i (set_spec s (processes m ! i)) m, w) = (b, m2, w2)"
      by (metis prod_cases3)
    show ?thesis
    proof (cases "0 < pid (processes m ! i)")
      case True
      with busy [of i] run' Some False show ?thesis by (auto simp: s_def)
    next
      case idle: False
      with run' Some st have "m2 = m'" "w2 = w'"
        "ev = MakeEvent (processes m' ! i) (state (processes m' ! i)) 0 (stop_time_unix_ns (processes m' ! i)) ''start requested''"
        by auto
      with again [of i b] False Some idle st show ?thesis by (simp add: s_def)
    qed
  qed
qed

text \<open>The outcomes of a stop request.\<close>

lemma StopProcess_cases:
  assumes run: "StopProcess os name p timeout (m, w) = (ev, m', w')"
  obtains (missing) t where "find_target m name p = None" "m' = m" "os_unix_ns os w = (t, w')"
      "ev_state ev = kFailed" "ev_exit_code ev = ESRCH" "ev_pid ev = p"
      "ev_message ev = ''process not found''" "ev_stop_time_unix_ns ev = t"
  | (stopped) i where "find_target m name p = Some i" "pid (processes m ! i) \<le> 0" "m' = m" "w' = w"
      "ev = MakeEvent (processes m ! i) kStopped 0 (stop_time_unix_ns (processes m ! i)) ''process already stopped''"
  | (stopping) i where "find_target m name p = Some i" "0 < pid (processes m ! i)"
      "StopOne os i ''stop requested'' timeout True (m, w) = (m', w')"
      "ev = MakeEvent (processes m' ! i) kStopping 0 0 ''stop requested''"
proof (cases "find_target m name p")
  case None
  obtain t w1 where "os_unix_ns os w = (t, w1)" by fastforce
  with None run show ?thesis
    by (intro missing [of t]) (auto simp: StopProcess_def MakeEvent_def Let_def)
next
  case (Some i)
  obtain m2 w2 where st: "StopOne os i ''stop requested'' timeout True (m, w) = (m2, w2)" by fastforce
  show ?thesis
  proof (cases "0 < pid (processes m ! i)")
    case True
    with stopping [of i] Some run st show ?thesis by (auto simp: StopProcess_def Let_def)
  next
    case False
    with stopped [of i] Some run show ?thesis by (auto simp: StopProcess_def Let_def)
  qed
qed

subsection \<open>Commands\<close>

text \<open>What the launch manager's main loop asks of the manager, in the order it asks.\<close>

datatype command =
    Start_all
  | Start ProcessSpec
  | Stop string int int
  | Heartbeat string
  | Poll_once

definition command_step :: "'w os \<Rightarrow> command \<Rightarrow> manager \<times> 'w \<Rightarrow> (manager \<times> 'w) option" where
  "command_step os c s =
     (case c of
        Start_all \<Rightarrow> Some (snd (StartAll os s))
      | Start sp \<Rightarrow> Some (snd (StartProcess os sp s))
      | Stop name p timeout \<Rightarrow> Some (snd (StopProcess os name p timeout s))
      | Heartbeat name \<Rightarrow> Some (snd (MarkHeartbeat os name s))
      | Poll_once \<Rightarrow> Poll os s)"

abbreviation run_commands :: "'w os \<Rightarrow> command list \<Rightarrow> manager \<times> 'w \<Rightarrow> (manager \<times> 'w) option" where
  "run_commands os \<equiv> run_ops (command_step os)"

text \<open>Requests that start nothing, and those that bring no new specification.\<close>

definition no_start :: "command \<Rightarrow> bool" where
  "no_start c = (case c of Start_all \<Rightarrow> False | Start s \<Rightarrow> False | _ \<Rightarrow> True)"

definition no_request :: "command \<Rightarrow> bool" where
  "no_request c = (case c of Start s \<Rightarrow> False | _ \<Rightarrow> True)"

lemma FindByName_SomeD:
  "FindByName m n = Some i \<Longrightarrow> i < length (processes m) \<and> ps_name (spec (processes m ! i)) = n"
  by (auto simp: FindByName_def dest: index_of_SomeD)

lemma find_target_SomeD: "find_target m n p = Some i \<Longrightarrow> i < length (processes m)"
  by (auto simp: find_target_def FindByPid_def FindByName_def dest: index_of_SomeD split: if_splits)

subsection \<open>Invariants of a supervised system\<close>

text \<open>
  What a predicate on the manager and the world has to survive to be an invariant: of polling
  (clock reads, sleeps, an empty wait, a stop, a reaped child, a heartbeat), of starting the configured
  processes, and of start requests. Each locale adds what the next requests do.
\<close>

locale polled =
  fixes os :: "'w os" and I :: "manager \<Rightarrow> 'w \<Rightarrow> bool"
  assumes unix: "I m w \<Longrightarrow> os_unix_ns os w = (u, w') \<Longrightarrow> I m w'"
    and steady: "I m w \<Longrightarrow> os_steady_ns os w = (t, w') \<Longrightarrow> I m w'"
    and sleep: "I m w \<Longrightarrow> I m (os_sleep_ms os d w)"
    and waited: "I m w \<Longrightarrow> os_waitpid os w = (r, w') \<Longrightarrow> (\<And>p st. r \<noteq> Reaped p st) \<Longrightarrow> I m w'"
    and reap: "I m w \<Longrightarrow> os_waitpid os w = (Reaped p st, w1) \<Longrightarrow> HandleExit os p st (m, w1) = (m', w') \<Longrightarrow> I m' w'"
    and stop: "I m w \<Longrightarrow> i < length (processes m) \<Longrightarrow>
      intentional \<or> (\<exists>now. heartbeat_action now (processes m ! i) = Some msg) \<Longrightarrow>
      StopOne os i msg d intentional (m, w) = (m', w') \<Longrightarrow> I m' w'"
    and heartbeat: "I m w \<Longrightarrow> i < length (processes m) \<Longrightarrow> I (put_process i (mark_heartbeat now (processes m ! i)) m) w"
begin

lemma heartbeat_step:
  assumes "I m w" "i < length (processes m)"
    "(case heartbeat_action now (processes m ! i) of None \<Rightarrow> (m, w) | Some msg \<Rightarrow> StopOne os i msg 0 False (m, w)) = (m', w')"
  shows "I m' w' \<and> length (processes m') = length (processes m)"
proof (cases "heartbeat_action now (processes m ! i)")
  case None
  with assms show ?thesis by simp
next
  case (Some msg)
  with assms have run: "StopOne os i msg 0 False (m, w) = (m', w')" by simp
  with stop [OF assms(1,2) _ run] StopOne_frame(1) [OF run] Some show ?thesis by blast
qed

lemma CheckHeartbeatTimeouts_from_keeps:
  "I m w \<Longrightarrow> \<forall>i\<in>set js. i < length (processes m) \<Longrightarrow>
   CheckHeartbeatTimeouts_from os now js (m, w) = (m', w') \<Longrightarrow> I m' w'"
proof (induction js arbitrary: m w)
  case (Cons i js)
  obtain m1 w1 where s1: "(case heartbeat_action now (processes m ! i) of None \<Rightarrow> (m, w)
      | Some msg \<Rightarrow> StopOne os i msg 0 False (m, w)) = (m1, w1)" by fastforce
  have "I m1 w1 \<and> length (processes m1) = length (processes m)"
    using Cons.prems by (intro heartbeat_step [OF _ _ s1]) auto
  with Cons.IH [of m1 w1] Cons.prems s1 show ?case by simp
qed simp

lemma CheckHeartbeatTimeouts_keeps:
  assumes "I m w" "CheckHeartbeatTimeouts os (m, w) = (m', w')"
  shows "I m' w'"
proof (cases "stopping m")
  case True
  with assms show ?thesis by (simp add: CheckHeartbeatTimeouts_def)
next
  case False
  obtain now w1 where now: "os_steady_ns os w = (now, w1)" by fastforce
  from assms(2) False now
  have "CheckHeartbeatTimeouts_from os now [0..<length (processes m)] (m, w1) = (m', w')"
    by (simp add: CheckHeartbeatTimeouts_def)
  from CheckHeartbeatTimeouts_from_keeps [OF steady [OF assms(1) now] _ this] show ?thesis by simp
qed

lemma Poll_keeps:
  assumes ret: "Poll os (m, w) = Some (m', w')" and "I m w"
  shows "I m' w'"
proof -
  have "case_prod I (m', w')"
    using ret
  proof (rule Poll_rule [where I = "case_prod I"])
    fix m w p st w'
    assume inv: "case_prod I (m, w)" and r: "os_waitpid os w = (Reaped p st, w')"
    then show "case_prod I (HandleExit os p st (m, w'))"
      using reap [OF _ r] by (cases "HandleExit os p st (m, w')") auto
  next
    fix m w r w'
    assume inv: "case_prod I (m, w)" and r: "os_waitpid os w = (r, w')"
      "r = None_ready \<or> (\<exists>e. r = Wait_error e \<and> e \<noteq> EINTR)"
    obtain m2 w2 where h: "CheckHeartbeatTimeouts os (m, w') = (m2, w2)" by fastforce
    have "I m w'" using inv waited [OF _ r(1)] r(2) by auto
    from CheckHeartbeatTimeouts_keeps [OF this h] h
    show "case_prod I (CheckHeartbeatTimeouts os (m, w'))" by simp
  next
    fix m w w' assume "case_prod I (m, w)" and r: "os_waitpid os w = (Wait_error EINTR, w')"
    then show "case_prod I (m, w')" using waited [OF _ r] by auto
  qed (use assms in simp)
  then show ?thesis by simp
qed

lemma MarkHeartbeat_keeps:
  assumes "MarkHeartbeat os name (m, w) = (b, m', w')" "I m w"
  shows "I m' w'"
proof (cases "FindByName m name")
  case None
  with assms show ?thesis by (simp add: MarkHeartbeat_def)
next
  case (Some i)
  obtain now w1 where now: "os_steady_ns os w = (now, w1)" by fastforce
  from heartbeat [OF steady [OF assms(2) now]] FindByName_SomeD [OF Some] assms(1) Some now show ?thesis
    by (auto simp: MarkHeartbeat_def)
qed

lemma StopProcess_keeps:
  assumes run: "StopProcess os name p d (m, w) = (ev, m', w')" and inv: "I m w"
  shows "I m' w'"
  using run
proof (cases rule: StopProcess_cases)
  case (missing t)
  with unix [OF inv] show ?thesis by blast
next
  case (stopping i)
  with stop [OF inv find_target_SomeD _ stopping(3)] show ?thesis by blast
qed (use inv in simp_all)

lemma polled_command:
  assumes run: "command_step os c (m, w) = Some (m', w')" and inv: "I m w" and c: "no_start c"
  shows "I m' w'"
proof (cases c)
  case (Stop name p timeout)
  with run StopProcess_keeps inv show ?thesis
    by (cases "StopProcess os name p timeout (m, w)") (auto simp: command_step_def)
next
  case (Heartbeat name)
  with run MarkHeartbeat_keeps inv show ?thesis
    by (cases "MarkHeartbeat os name (m, w)") (auto simp: command_step_def)
next
  case Poll_once
  with run Poll_keeps inv show ?thesis by (simp add: command_step_def)
qed (use c in \<open>simp_all add: no_start_def\<close>)

end

sublocale polled \<subseteq> polling: guarded_machine "command_step os" no_start "case_prod I"
  using polled_command by unfold_locales auto

locale started = polled +
  assumes start: "I m w \<Longrightarrow> i < length (processes m) \<Longrightarrow> StartOne os i (m, w) = (b, m', w') \<Longrightarrow> I m' w'"
begin

lemma StartAll_from_keeps:
  "I m w \<Longrightarrow> \<forall>i\<in>set js. i < length (processes m) \<Longrightarrow> StartAll_from os js b (m, w) = (b', m', w') \<Longrightarrow> I m' w'"
proof (induction js arbitrary: m w b)
  case (Cons i js)
  obtain c m1 w1 where s: "StartOne os i (m, w) = (c, m1, w1)" by (metis prod_cases3)
  have "I m1 w1" "length (processes m1) = length (processes m)"
    using start [OF _ _ s] StartOne_frame [OF s] Cons.prems by auto
  with Cons.IH [of m1 w1 "c \<and> b"] Cons.prems s show ?case by simp
qed simp

lemma StartAll_keeps: "StartAll os (m, w) = (b, m', w') \<Longrightarrow> I m w \<Longrightarrow> I m' w'"
  unfolding StartAll_def using StartAll_from_keeps [of m w "[0..<length (processes m)]"] by simp

lemma started_command:
  assumes run: "command_step os c (m, w) = Some (m', w')" and inv: "I m w" and c: "no_request c"
  shows "I m' w'"
proof (cases "c = Start_all")
  case True
  with run StartAll_keeps inv show ?thesis
    by (cases "StartAll os (m, w)") (auto simp: command_step_def)
next
  case False
  with c have "no_start c" by (cases c) (auto simp: no_start_def no_request_def)
  with polled_command [OF run inv] show ?thesis .
qed

end

sublocale started \<subseteq> starting: guarded_machine "command_step os" no_request "case_prod I"
  using started_command by unfold_locales auto

locale requested = started +
  assumes add: "I m w \<Longrightarrow> FindByName m (ps_name s) = None \<Longrightarrow> I (add_process s m) w"
    and respec: "I m w \<Longrightarrow> FindByName m (ps_name s) = Some i \<Longrightarrow> pid (processes m ! i) \<le> 0 \<Longrightarrow>
      I (put_process i (set_spec s (processes m ! i)) m) w"
begin

lemma StartProcess_keeps:
  assumes run: "StartProcess os s0 (m, w) = (ev, m', w')" and inv: "I m w"
  shows "I m' w'"
  using run
proof (cases rule: StartProcess_cases)
  case (invalid t)
  with unix [OF inv] show ?thesis by blast
next
  case (again i b)
  with start [OF respec [OF inv again(2,3)] _ again(4)] FindByName_SomeD [OF again(2)] show ?thesis by simp
next
  case (fresh b)
  with start [OF add [OF inv fresh(2)] _ fresh(3)] show ?thesis by simp
qed (use inv in simp)

lemma command_keeps:
  assumes run: "command_step os c (m, w) = Some (m', w')" and inv: "I m w"
  shows "I m' w'"
proof (cases "no_request c")
  case True
  with started_command [OF run inv] show ?thesis .
next
  case False
  then obtain sp where "c = Start sp" by (cases c) (auto simp: no_request_def)
  with run StartProcess_keeps inv show ?thesis
    by (cases "StartProcess os sp (m, w)") (auto simp: command_step_def)
qed

end

sublocale requested \<subseteq> run: guarded_machine "command_step os" "\<lambda>c. True" "case_prod I"
  using command_keeps by unfold_locales auto

subsection \<open>The invariant, interpreted\<close>

interpretation pm: requested os "\<lambda>m w. os_ok os kids \<and> pm_inv (kids w) m" for os :: "'w os" and kids
proof unfold_locales
  fix m w p st w1 m' w'
  assume inv: "os_ok os kids \<and> pm_inv (kids w) m" and r: "os_waitpid os w = (Reaped p st, w1)"
    and h: "HandleExit os p st (m, w1) = (m', w')"
  then have k: "insert p (kids w1) = kids w" "p \<notin> kids w1" "0 < p" using os_okD(3) [of os kids, OF _ r] by auto
  with HandleExit_inv [of os kids, OF _ _ k(2,3) h] inv show "os_ok os kids \<and> pm_inv (kids w') m'" by simp
next
  fix m w r w' assume inv: "os_ok os kids \<and> pm_inv (kids w) m" and r: "os_waitpid os w = (r, w')"
    "\<And>p st. r \<noteq> Reaped p st"
  then have "kids w' = kids w" using os_okD(4,5) [of os kids] by (cases r) auto
  with inv show "os_ok os kids \<and> pm_inv (kids w') m" by simp
next
  fix m w i now assume inv: "os_ok os kids \<and> pm_inv (kids w) m" and i: "i < length (processes m)"
  then have "proc_ok (mark_heartbeat now (processes m ! i))"
    using pm_inv_nth [of "kids w" m i] by (simp add: proc_ok_def)
  with inv i show "os_ok os kids \<and> pm_inv (kids w) (put_process i (mark_heartbeat now (processes m ! i)) m)"
    using pm_inv_same_pid [of "kids w" m i "mark_heartbeat now (processes m ! i)"] by simp
next
  fix m w i and s :: ProcessSpec assume inv: "os_ok os kids \<and> pm_inv (kids w) m" and f: "FindByName m (ps_name s) = Some i"
  then have i: "i < length (processes m)" by (auto dest: FindByName_SomeD)
  with inv have "proc_ok (set_spec s (processes m ! i))"
    using pm_inv_nth [of "kids w" m i] by (simp add: proc_ok_def)
  with inv i show "os_ok os kids \<and> pm_inv (kids w) (put_process i (set_spec s (processes m ! i)) m)"
    using pm_inv_same_pid [of "kids w" m i "set_spec s (processes m ! i)"] by simp
qed (use os_okD(7,8,9) StartOne_inv StopOne_inv pm_inv_add_process in \<open>metis+\<close>)

lemma run_commands_inv:
  "os_ok os kids \<Longrightarrow> pm_inv (kids w) m \<Longrightarrow> run_commands os cs (m, w) = Some (m', w') \<Longrightarrow> pm_inv (kids w') m'"
  using pm.run.run_inv [of os kids "(m, w)" cs "(m', w')"] by (simp add: list_all_iff)

end
