(* ===== verification/Lifecycle.thy ===== *)
theory Lifecycle
  imports Supervision
begin

section \<open>What the event stream and the restart policy guarantee\<close>

text \<open>
  The states of a managed process form an automaton, \<open>lifecycle_step\<close>. The events the manager
  emits for a process name are a walk of it that ends in the entry's current state; so whoever
  receives the events (the runtime registry) knows the state of every process. Then the
  restart policy: when an exit restarts a process, that automatic restarts stay within the
  limit, and that a process stopped on request is not restarted by polling.
\<close>

inductive lifecycle_step :: "ProcessState \<Rightarrow> ProcessState \<Rightarrow> bool" where
  start: "s \<in> {kStopped, kExited, kFailed} \<Longrightarrow> lifecycle_step s kStarting"
| running: "lifecycle_step kStarting kRunning"
| fork_failed: "lifecycle_step kStarting kFailed"
| stop: "s \<in> {kRunning, kStopping} \<Longrightarrow> lifecycle_step s kStopping"
| ended: "s \<in> {kRunning, kStopping} \<Longrightarrow> t \<in> {kExited, kFailed} \<Longrightarrow> lifecycle_step s t"
| stopped: "lifecycle_step kStopping kStopped"

inductive_simps lifecycle_step_iff: "lifecycle_step s t"

fun walk :: "ProcessState \<Rightarrow> ProcessState list \<Rightarrow> ProcessState \<Rightarrow> bool" where
  "walk s [] u = (s = u)"
| "walk s (t # ts) u = (lifecycle_step s t \<and> walk t ts u)"

lemma walk_snoc [simp]: "walk s (ts @ [t]) u \<longleftrightarrow> (\<exists>v. walk s ts v \<and> lifecycle_step v t) \<and> t = u"
  by (induction ts arbitrary: s) auto

definition name_of :: "ManagedProcess \<Rightarrow> string" where
  "name_of p = ps_name (spec p)"

definition states_reported :: "string \<Rightarrow> manager \<Rightarrow> ProcessState list" where
  "states_reported name m = map ev_state (filter (\<lambda>e. ps_name (ev_spec e) = name) (emitted m))"

definition traced :: "manager \<Rightarrow> bool" where
  "traced m \<longleftrightarrow> event_callback m \<and> \<not> stopping m \<and> distinct (map name_of (processes m)) \<and>
     (\<forall>i<length (processes m). walk kStopped (states_reported (name_of (processes m ! i)) m) (state (processes m ! i))) \<and>
     (\<forall>e\<in>set (emitted m). ps_name (ev_spec e) \<in> name_of ` set (processes m))"

lemma name_of_fields [simp]:
  "name_of (mark_starting t p) = name_of p" "name_of (mark_stopping now d b p) = name_of p"
  "name_of (mark_exited st u p) = name_of p" "name_of (mark_reaped p) = name_of p"
  "name_of (count_restart p) = name_of p" "name_of (mark_heartbeat now p) = name_of p"
  "name_of (p\<lparr>state := x\<rparr>) = name_of p" "name_of (p\<lparr>pid := c, state := x, start_time := d\<rparr>) = name_of p"
  by (simp_all add: name_of_def)

lemma MakeEvent_fields [simp]:
  "ev_state (MakeEvent p st c t msg) = st" "ev_spec (MakeEvent p st c t msg) = spec p"
  "ev_pid (MakeEvent p st c t msg) = pid p" "ev_exit_code (MakeEvent p st c t msg) = c"
  by (simp_all add: MakeEvent_def)

lemma states_reported_emit:
  "event_callback m \<Longrightarrow> states_reported n (EmitEvent q st c t msg (put_process i q m)) =
     states_reported n m @ (if name_of q = n then [st] else [])"
  by (simp add: states_reported_def EmitEvent_def name_of_def)

lemma traced_update_names:
  assumes "i < length (processes m)" "name_of q = name_of (processes m ! i)"
  shows "map name_of ((processes m)[i := q]) = map name_of (processes m)"
    "name_of ` set ((processes m)[i := q]) = name_of ` set (processes m)"
proof -
  show *: "map name_of ((processes m)[i := q]) = map name_of (processes m)"
    using assms by (simp add: map_list_update_same)
  then show "name_of ` set ((processes m)[i := q]) = name_of ` set (processes m)"
    by (metis set_map)
qed

text \<open>Reporting a lifecycle step of one entry, and a change that reports nothing.\<close>

lemma traced_emit:
  assumes tr: "traced m" and i: "i < length (processes m)" and n: "name_of q = name_of (processes m ! i)"
    and st: "st = state q" and step: "lifecycle_step (state (processes m ! i)) st"
  shows "traced (EmitEvent q st c t msg (put_process i q m))"
  unfolding traced_def
proof (intro conjI allI impI ballI)
  let ?m = "EmitEvent q st c t msg (put_process i q m)"
  from tr have cb: "event_callback m" "\<not> stopping m" and d: "distinct (map name_of (processes m))"
    and w: "\<And>j. j < length (processes m) \<Longrightarrow> walk kStopped (states_reported (name_of (processes m ! j)) m) (state (processes m ! j))"
    and names: "\<And>e. e \<in> set (emitted m) \<Longrightarrow> ps_name (ev_spec e) \<in> name_of ` set (processes m)"
    unfolding traced_def by auto
  show "event_callback ?m" "\<not> stopping ?m" using cb by simp_all
  show "distinct (map name_of (processes ?m))" using d traced_update_names [OF i n] by simp
  show "walk kStopped (states_reported (name_of (processes ?m ! j)) ?m) (state (processes ?m ! j))"
    if "j < length (processes ?m)" for j
  proof (cases "j = i")
    case True
    with w [OF i] step st i n show ?thesis
      by (auto simp: states_reported_emit [OF cb(1)])
  next
    case False
    then have "name_of (processes m ! i) \<noteq> name_of (processes m ! j)"
      using d i that by (simp add: distinct_conv_nth)
    with False w [of j] that n show ?thesis by (simp add: states_reported_emit [OF cb(1)])
  qed
  show "ps_name (ev_spec e) \<in> name_of ` set (processes ?m)" if "e \<in> set (emitted ?m)" for e
  proof -
    have "e = MakeEvent q st c t msg \<or> e \<in> set (emitted m)"
      using that cb by (auto simp: EmitEvent_def)
    moreover have "name_of (processes m ! i) \<in> name_of ` set (processes m)" using i by simp
    ultimately have "ps_name (ev_spec e) \<in> name_of ` set (processes m)"
      using names n by (auto simp: name_of_def)
    then show ?thesis using traced_update_names(2) [OF i n] by simp
  qed
qed

lemma traced_silent:
  assumes tr: "traced m" and i: "i < length (processes m)" and n: "name_of q = name_of (processes m ! i)"
    and st: "state q = state (processes m ! i)"
  shows "traced (put_process i q m)"
proof -
  have "states_reported k (put_process i q m) = states_reported k m" for k
    by (simp add: states_reported_def)
  then show ?thesis
    using tr traced_update_names [OF i n] n st i by (auto simp: traced_def nth_list_update)
qed

lemma traced_add:
  assumes tr: "traced m" and new: "FindByName m (ps_name s) = None"
  shows "traced (add_process s m)"
proof -
  have fresh: "ps_name s \<notin> name_of ` set (processes m)"
    using new by (auto simp: FindByName_def name_of_def)
  have "\<forall>e\<in>set (emitted m). ps_name (ev_spec e) \<noteq> ps_name s"
    using tr fresh unfolding traced_def by metis
  then have none: "states_reported (ps_name s) m = []"
    by (simp add: states_reported_def filter_empty_conv)
  have same: "states_reported k (add_process s m) = states_reported k m" for k
    by (simp add: states_reported_def)
  have name: "name_of (new_ManagedProcess s) = ps_name s" by (simp add: name_of_def)
  show ?thesis
    using tr fresh none unfolding traced_def
    by (auto simp: same name nth_append less_Suc_eq)
qed

lemma StartOne_traced:
  assumes tr: "traced m" and ok: "proc_ok (processes m ! i)" and i: "i < length (processes m)"
    and run: "StartOne os i (m, w) = (b, m', w')"
  shows "traced m'"
proof (cases "0 < pid (processes m ! i)")
  case True
  with run tr show ?thesis by (simp add: StartOne_def)
next
  case False
  obtain t w1 where t: "os_unix_ns os w = (t, w1)" by fastforce
  define p1 where "p1 = mark_starting t (processes m ! i)"
  define m1 where "m1 = EmitEvent p1 kStarting 0 0 ''starting'' (put_process i p1 m)"
  have p1: "name_of p1 = name_of (processes m ! i)" "state p1 = kStarting" by (simp_all add: p1_def)
  have "lifecycle_step (state (processes m ! i)) kStarting"
    using ok False by (auto simp: proc_ok_def lifecycle_step_iff)
  then have tr1: "traced m1"
    unfolding m1_def using tr i p1 by (intro traced_emit) auto
  have at: "processes m1 ! i = p1" "i < length (processes m1)" using i by (simp_all add: m1_def)
  obtain r w2 where r: "os_fork os w1 = (r, w2)" by fastforce
  show ?thesis
  proof (cases r)
    case (Fork_failed e)
    obtain t' w3 where t': "os_unix_ns os w2 = (t', w3)" by fastforce
    have "m' = EmitEvent (p1\<lparr>state := kFailed\<rparr>) kFailed e t' (os_strerror os e) (put_process i (p1\<lparr>state := kFailed\<rparr>) m1)"
      using run False t r Fork_failed t' by (simp add: StartOne_def Let_def p1_def m1_def)
    with tr1 at p1 show ?thesis by (auto intro!: traced_emit simp: lifecycle_step_iff)
  next
    case (Forked child)
    obtain now w3 where now: "os_steady_ns os w2 = (now, w3)" by fastforce
    have "m' = EmitEvent (p1\<lparr>pid := child, state := kRunning, start_time := now\<rparr>) kRunning 0 0 ''running''
        (put_process i (p1\<lparr>pid := child, state := kRunning, start_time := now\<rparr>) m1)"
      using run False t r Forked now by (simp add: StartOne_def Let_def p1_def m1_def)
    with tr1 at p1 show ?thesis by (auto intro!: traced_emit simp: lifecycle_step_iff)
  qed
qed

lemma StopOne_traced:
  assumes tr: "traced m" and ok: "proc_ok (processes m ! i)" and i: "i < length (processes m)"
    and run: "StopOne os i msg d b (m, w) = (m', w')"
  shows "traced m'"
proof (cases "0 < pid (processes m ! i)")
  case False
  with run tr show ?thesis by (simp add: StopOne_def)
next
  case True
  obtain now w1 where now: "os_steady_ns os w = (now, w1)" by fastforce
  define q where "q = mark_stopping now d b (processes m ! i)"
  have q: "name_of q = name_of (processes m ! i)" "state q = kStopping" by (simp_all add: q_def)
  have "lifecycle_step (state (processes m ! i)) kStopping"
    using ok True by (auto simp: proc_ok_def lifecycle_step_iff)
  then have "traced (EmitEvent q kStopping 0 0 msg (put_process i q m))"
    using tr i q by (intro traced_emit) auto
  moreover have "m' = EmitEvent q kStopping 0 0 msg (put_process i q m)"
    using run True now by (simp add: StopOne_def Let_def q_def)
  ultimately show ?thesis by simp
qed

lemma note_exit_traced:
  assumes tr: "traced m" and ok: "proc_ok (processes m ! i)" and i: "i < length (processes m)"
    and alive: "0 < pid (processes m ! i)"
  shows "traced (note_exit i status t m)"
proof -
  let ?st = "exit_state m (processes m ! i) status"
  define q where "q = mark_exited ?st t (processes m ! i)"
  define m1 where "m1 = EmitEvent q ?st (ExitCodeFromStatus status) t (StatusText status) (put_process i q m)"
  have q: "name_of q = name_of (processes m ! i)" "?st = state q" by (simp_all add: q_def)
  have "lifecycle_step (state (processes m ! i)) ?st"
    using ok alive tr by (auto simp: proc_ok_def exit_state_def lifecycle_step_iff traced_def)
  then have "traced m1" unfolding m1_def using tr i q by (intro traced_emit) auto
  moreover have "processes m1 ! i = q" "i < length (processes m1)" using i by (simp_all add: m1_def)
  ultimately have "traced (put_process i (mark_reaped q) m1)"
    by (intro traced_silent) auto
  then show ?thesis by (simp add: note_exit_def Let_def q_def m1_def)
qed

lemma HandleExit_traced:
  assumes tr: "traced m" and ok: "\<forall>q\<in>set (processes m). proc_ok q" and p: "0 < p"
    and run: "HandleExit os p status (m, w) = (m', w')"
  shows "traced m'"
  using run
proof (cases rule: HandleExit_cases)
  case unmanaged
  with tr show ?thesis by simp
next
  case (final i t)
  with note_exit_traced [OF tr _ final(2)] ok p show ?thesis by simp
next
  case (restarted i t w1 b)
  let ?m2 = "note_exit i status t m"
  have "traced ?m2" using note_exit_traced [OF tr _ restarted(2)] restarted(3) ok p restarted(2) by simp
  then have "traced (put_process i (count_restart (processes ?m2 ! i)) ?m2)"
    using restarted(2) by (intro traced_silent) auto
  then show ?thesis
    by (rule StartOne_traced [OF _ _ _ restarted(5)])
      (use restarted(2) in \<open>auto simp: proc_ok_def exit_state_def\<close>)
qed

interpretation trace: requested os "\<lambda>m w. os_ok os kids \<and> pm_inv (kids w) m \<and> traced m" for os :: "'w os" and kids
proof unfold_locales
  fix m w p st w1 m' w'
  assume inv: "os_ok os kids \<and> pm_inv (kids w) m \<and> traced m" and r: "os_waitpid os w = (Reaped p st, w1)"
    and h: "HandleExit os p st (m, w1) = (m', w')"
  then show "os_ok os kids \<and> pm_inv (kids w') m' \<and> traced m'"
    using pm.reap [OF _ r h] HandleExit_traced [OF _ _ _ h] os_okD(3) [of os kids, OF _ r]
    by (auto simp: pm_inv_def)
next
  fix m w i now assume "os_ok os kids \<and> pm_inv (kids w) m \<and> traced m" and "i < length (processes m)"
  then show "os_ok os kids \<and> pm_inv (kids w) (put_process i (mark_heartbeat now (processes m ! i)) m) \<and>
      traced (put_process i (mark_heartbeat now (processes m ! i)) m)"
    using pm.heartbeat [of os kids w m i now] traced_silent [of m i "mark_heartbeat now (processes m ! i)"] by simp
next
  fix m w i and s :: ProcessSpec
  assume inv: "os_ok os kids \<and> pm_inv (kids w) m \<and> traced m" and f: "FindByName m (ps_name s) = Some i"
    and "pid (processes m ! i) \<le> 0"
  then have "os_ok os kids \<and> pm_inv (kids w) (put_process i (set_spec s (processes m ! i)) m)"
    using pm.respec [of os kids w m s i] by simp
  moreover have "traced (put_process i (set_spec s (processes m ! i)) m)"
    using inv FindByName_SomeD [OF f] by (intro traced_silent) (auto simp: name_of_def)
  ultimately show "os_ok os kids \<and> pm_inv (kids w) (put_process i (set_spec s (processes m ! i)) m) \<and>
      traced (put_process i (set_spec s (processes m ! i)) m)" by blast
next
  fix m w i b m' w' assume "os_ok os kids \<and> pm_inv (kids w) m \<and> traced m" "i < length (processes m)"
    "StartOne os i (m, w) = (b, m', w')"
  then show "os_ok os kids \<and> pm_inv (kids w') m' \<and> traced m'"
    using StartOne_inv StartOne_traced pm_inv_nth by metis
next
  fix m w i msg d b m' w' assume "os_ok os kids \<and> pm_inv (kids w) m \<and> traced m" "i < length (processes m)"
    "StopOne os i msg d b (m, w) = (m', w')"
  then show "os_ok os kids \<and> pm_inv (kids w') m' \<and> traced m'"
    using StopOne_inv StopOne_traced pm_inv_nth by metis
next
  fix m w d assume "os_ok os kids \<and> pm_inv (kids w) m \<and> traced m"
  then show "os_ok os kids \<and> pm_inv (kids (os_sleep_ms os d w)) m \<and> traced m"
    using pm.sleep [of os kids w m d] by simp
qed (use pm.unix [of os kids] pm.steady [of os kids] pm.waited [of os kids] pm.add [of os kids] traced_add in \<open>blast+\<close>)

subsection \<open>The restart limit\<close>

definition limit_ok :: "ManagedProcess \<Rightarrow> bool" where
  "limit_ok p \<longleftrightarrow> ps_restart_limit (spec p) \<noteq> 0 \<longrightarrow> restart_count p \<le> ps_restart_limit (spec p)"

definition limits_ok :: "manager \<Rightarrow> bool" where
  "limits_ok m \<longleftrightarrow> (\<forall>p\<in>set (processes m). limit_ok p)"

lemma limits_ok_update:
  "limits_ok m \<Longrightarrow> processes m' = (processes m)[i := q] \<Longrightarrow> limit_ok q \<Longrightarrow> limits_ok m'"
  using set_update_subset_insert [of "processes m" i q] by (auto simp: limits_ok_def)

lemma limits_ok_nth: "limits_ok m \<Longrightarrow> i < length (processes m) \<Longrightarrow> limit_ok (processes m ! i)"
  by (simp add: limits_ok_def)

lemma StartOne_limits:
  assumes "limits_ok m" "i < length (processes m)" "StartOne os i (m, w) = (b, m', w')"
  shows "limits_ok m'"
  using assms(3,2)
proof (cases rule: StartOne_cases)
  case running
  with assms show ?thesis by simp
next
  case (failed e t t' w1 w2 q)
  have "limit_ok q" using limits_ok_nth [OF assms(1,2)] by (simp add: failed(7) limit_ok_def)
  then show ?thesis by (rule limits_ok_update [OF assms(1) failed(6)])
next
  case (started child t now w1 w2 q)
  have "limit_ok q" using limits_ok_nth [OF assms(1,2)] by (simp add: started(7) limit_ok_def)
  then show ?thesis by (rule limits_ok_update [OF assms(1) started(6)])
qed

lemma StopOne_limits:
  assumes "limits_ok m" "i < length (processes m)" "StopOne os i msg d b (m, w) = (m', w')"
  shows "limits_ok m'"
  using assms(3)
proof (cases rule: StopOne_cases)
  case idle
  with assms show ?thesis by simp
next
  case (stopping now w1 q)
  have "limit_ok q" using limits_ok_nth [OF assms(1,2)] by (simp add: stopping(5) limit_ok_def)
  then show ?thesis by (rule limits_ok_update [OF assms(1) stopping(4)])
qed

lemma HandleExit_limits:
  assumes lim: "limits_ok m" and run: "HandleExit os p status (m, w) = (m', w')"
  shows "limits_ok m'"
  using run
proof (cases rule: HandleExit_cases)
  case unmanaged
  with lim show ?thesis by simp
next
  case (final i t)
  let ?q = "mark_reaped (mark_exited (exit_state m (processes m ! i) status) t (processes m ! i))"
  have "limit_ok ?q" using limits_ok_nth [OF lim final(2)] by (simp add: limit_ok_def)
  moreover have "processes m' = (processes m)[i := ?q]" using final by simp
  ultimately show ?thesis by (rule limits_ok_update [OF lim, rotated])
next
  case (restarted i t w1 b)
  let ?m2 = "note_exit i status t m"
  let ?q = "count_restart (processes ?m2 ! i)"
  have "limit_ok ?q"
    using restarted(2,8) by (auto simp: limit_ok_def ShouldRestart_def not_le inc_le split: if_splits)
  moreover have "processes (put_process i ?q ?m2) = (processes m)[i := ?q]" using restarted(2) by simp
  ultimately have "limits_ok (put_process i ?q ?m2)" by (rule limits_ok_update [OF lim, rotated])
  then show ?thesis by (rule StartOne_limits [OF _ _ restarted(5)]) (simp add: restarted(2))
qed

interpretation lim: started os "\<lambda>m w. limits_ok m" for os :: "'w os"
proof unfold_locales
  fix m i now and w :: 'w assume lim: "limits_ok m" and i: "i < length (processes m)"
  have "limit_ok (mark_heartbeat now (processes m ! i))"
    using limits_ok_nth [OF lim i] by (simp add: limit_ok_def)
  then show "limits_ok (put_process i (mark_heartbeat now (processes m ! i)) m)"
    by (rule limits_ok_update [OF lim put_process_frame(1)])
qed (metis StartOne_limits StopOne_limits HandleExit_limits)+

subsection \<open>A stop that was asked for\<close>

text \<open>Entry \<open>i\<close> is being stopped on request, or has stopped, with \<open>n\<close> restarts so far.\<close>

definition put_down :: "nat \<Rightarrow> u32 \<Rightarrow> manager \<Rightarrow> bool" where
  "put_down i n m \<longleftrightarrow> i < length (processes m) \<and> restart_count (processes m ! i) = n \<and> own_pids (processes m) \<and>
     (0 < pid (processes m ! i) \<and> state (processes m ! i) = kStopping \<and> intentional_stop (processes m ! i) \<or>
      pid (processes m ! i) = -1 \<and> state (processes m ! i) = kStopped)"

lemma put_down_other:
  "put_down i n m \<Longrightarrow> processes m' ! i = processes m ! i \<Longrightarrow> length (processes m') = length (processes m) \<Longrightarrow>
   own_pids (processes m') \<Longrightarrow> put_down i n m'"
  by (simp add: put_down_def)

lemma StopOne_put_down:
  assumes down: "put_down i n m" and run: "StopOne os j msg d b (m, w) = (m', w')"
    and why: "b \<or> (\<exists>now. heartbeat_action now (processes m ! j) = Some msg)"
  shows "put_down i n m'"
proof -
  have pids: "own_pids (processes m')"
    using down own_pids_def StopOne_frame(1,6) [OF run] by (metis put_down_def length_map nth_map)
  show ?thesis
  proof (cases "j = i")
    case False
    then show ?thesis
      using StopOne_frame(1,4) [OF run] pids by (intro put_down_other [OF down]) auto
  next
    case True
    with why down have "b \<or> pid (processes m ! i) \<le> 0"
      by (auto simp: put_down_def heartbeat_action_def split: if_splits)
    with down True run pids show ?thesis
      by (auto elim!: StopOne_cases simp: put_down_def)
  qed
qed

lemma HandleExit_put_down:
  assumes pids: "own_pids (processes m')" and down: "put_down i n m" and p: "0 < p"
    and run: "HandleExit os p st (m, w) = (m', w')"
  shows "put_down i n m'"
  using run
proof (cases rule: HandleExit_cases)
  case unmanaged
  with down show ?thesis by simp
next
  case (final j t)
  show ?thesis
  proof (cases "j = i")
    case False
    with final have "processes m' ! i = processes m ! i" "length (processes m') = length (processes m)" by simp_all
    then show ?thesis using pids by (rule put_down_other [OF down])
  next
    case True
    with final down p pids show ?thesis by (auto simp: put_down_def exit_state_def)
  qed
next
  case (restarted j t w1 b)
  have "j \<noteq> i" using restarted(3,7) down p by (auto simp: put_down_def)
  then have "processes m' ! i = processes m ! i" "length (processes m') = length (processes m)"
    using StartOne_frame(1,4) [OF restarted(5)] restarted(2) by simp_all
  then show ?thesis using pids by (rule put_down_other [OF down])
qed

interpretation down: polled os "\<lambda>m w. os_ok os kids \<and> pm_inv (kids w) m \<and> put_down i n m"
  for os :: "'w os" and kids and i n
proof unfold_locales
  fix m w p st w1 m' w'
  assume inv: "os_ok os kids \<and> pm_inv (kids w) m \<and> put_down i n m" and r: "os_waitpid os w = (Reaped p st, w1)"
    and h: "HandleExit os p st (m, w1) = (m', w')"
  then have pm: "pm_inv (kids w') m'" using pm.reap [OF _ r h] by blast
  then have "own_pids (processes m')" by (simp add: pm_inv_def)
  from pm inv HandleExit_put_down [OF this _ _ h] os_okD(3) [of os kids, OF _ r]
  show "os_ok os kids \<and> pm_inv (kids w') m' \<and> put_down i n m'" by blast
next
  fix m w j now assume inv: "os_ok os kids \<and> pm_inv (kids w) m \<and> put_down i n m" and j: "j < length (processes m)"
  then have "pm_inv (kids w) (put_process j (mark_heartbeat now (processes m ! j)) m)"
    using pm.heartbeat [of os kids w m j now] by simp
  with inv j show "os_ok os kids \<and> pm_inv (kids w) (put_process j (mark_heartbeat now (processes m ! j)) m) \<and>
      put_down i n (put_process j (mark_heartbeat now (processes m ! j)) m)"
    by (cases "i = j") (auto simp: put_down_def pm_inv_def)
next
  fix m w j msg d b m' w' assume inv: "os_ok os kids \<and> pm_inv (kids w) m \<and> put_down i n m"
    and j: "j < length (processes m)" and why: "b \<or> (\<exists>now. heartbeat_action now (processes m ! j) = Some msg)"
    and run: "StopOne os j msg d b (m, w) = (m', w')"
  have "pm_inv (kids w') m'" using StopOne_inv [OF _ _ run j, of kids] inv by simp
  moreover have "put_down i n m'" using StopOne_put_down [OF _ run why] inv by simp
  ultimately show "os_ok os kids \<and> pm_inv (kids w') m' \<and> put_down i n m'" using inv by simp
next
  fix m w d assume "os_ok os kids \<and> pm_inv (kids w) m \<and> put_down i n m"
  then show "os_ok os kids \<and> pm_inv (kids (os_sleep_ms os d w)) m \<and> put_down i n m"
    using pm.sleep [of os kids w m d] by simp
qed (use pm.unix [of os kids] pm.steady [of os kids] pm.waited [of os kids] in \<open>blast+\<close>)

subsection \<open>Properties\<close>

definition fresh_manager :: "ProcessSpec list \<Rightarrow> manager" where
  "fresh_manager specs = SetEventCallback (ProcessManager specs)"

lemma fresh_manager_inv: "pm_inv K (fresh_manager specs)"
  using pm_inv_ProcessManager [of K specs] pm_inv_cong [of "fresh_manager specs" "ProcessManager specs" K]
  by (simp add: fresh_manager_def SetEventCallback_def)

lemma fresh_manager_traced:
  assumes "distinct (map ps_name specs)"
  shows "traced (fresh_manager specs)"
proof -
  have "name_of \<circ> new_ManagedProcess = ps_name" by (simp add: fun_eq_iff name_of_def)
  then have "distinct (map name_of (processes (fresh_manager specs)))"
    using assms by (simp add: fresh_manager_def SetEventCallback_def ProcessManager_def)
  then show ?thesis
    by (simp add: traced_def fresh_manager_def SetEventCallback_def ProcessManager_def states_reported_def)
qed

definition demo_spec :: ProcessSpec where
  "demo_spec = default_ProcessSpec\<lparr>ps_name := ''web'', ps_command := ''/bin/web'', ps_restart := kOnFailure,
     ps_restart_limit := 1\<rparr>"

text \<open>A child that crashes at once, then one that stays.\<close>

definition demo_world :: sim where
  "demo_world = sim_start [Some (Dying (WExited 1) 0), Some (Alive False)]"

lemma demo_run: "run_commands (sim_host 1) [Start_all, Poll_once, Poll_once] (fresh_manager [demo_spec], demo_world) \<noteq> None"
  by code_simp

lemma demo_run_stop:
  "run_commands (sim_host 1) [Start_all, Poll_once, Stop ''web'' 0 0, Poll_once] (fresh_manager [demo_spec], demo_world) \<noteq> None"
  by code_simp

text \<open>C1: After any sequence of start, stop, heartbeat and poll requests, an entry has a positive pid
  exactly while its state is running or stopping, no two entries have the same pid, and every such
  pid is a child that has not been reaped: a pid the manager signals is its own.\<close>

theorem supervision_invariant:
  assumes "os_ok os kids" and "run_commands os cs (fresh_manager specs, w) = Some (m', w')"
  shows "(\<forall>p\<in>set (processes m'). (0 < pid p \<longleftrightarrow> state p \<in> {kRunning, kStopping}) \<and>
            (0 < pid p \<longrightarrow> pid p \<in> kids w')) \<and>
    (\<forall>i<length (processes m'). \<forall>j<length (processes m').
       0 < pid (processes m' ! i) \<longrightarrow> pid (processes m' ! i) = pid (processes m' ! j) \<longrightarrow> i = j)"
proof -
  from run_commands_inv [OF assms(1) fresh_manager_inv assms(2)] have "pm_inv (kids w') m'" .
  then show ?thesis
    by (auto simp: pm_inv_def proc_ok_def live_def own_pids_def)
qed

theorem supervision_invariant_witness:
  "\<exists>m' w'. run_commands (sim_host 1) [Start_all, Poll_once, Poll_once] (fresh_manager [demo_spec], demo_world) = Some (m', w') \<and>
    (\<forall>p\<in>set (processes m'). 0 < pid p \<longrightarrow> pid p \<in> sim_kids w')"
  using demo_run supervision_invariant [OF sim_host_ok] by fast



text \<open>What a reaped child does to its entry. The process is restarted exactly when no shutdown is
  under way, the stop was not asked for, the restart policy is not never, the limit is zero or not
  reached, and the policy is always or the exit was not a success. A restart counts one and leaves
  the entry running or, if fork fails, failed. Otherwise the entry has no pid and its state tells how
  it ended. No other entry changes.\<close>

theorem HandleExit_restarts:
  assumes "HandleExit os p status (m, w) = (m', w')" and "FindByPid m p = Some i"
    and "0 < p" and "os_ok os kids"
  shows "let q = processes m ! i; q' = processes m' ! i;
             restart = (\<not> stopping m \<and> \<not> intentional_stop q \<and> ps_restart (spec q) \<noteq> kNever \<and>
               (ps_restart_limit (spec q) = 0 \<or> restart_count q < ps_restart_limit (spec q)) \<and>
               (ps_restart (spec q) = kAlways \<or> status \<noteq> WExited 0)) in
    restart_count q' = restart_count q + (if restart then 1 else 0) \<and>
    (if restart then state q' = kRunning \<and> 0 < pid q' \<or> state q' = kFailed \<and> pid q' = -1
     else pid q' = -1 \<and>
       state q' = (if stopping m \<or> intentional_stop q then kStopped else if status = WExited 0 then kExited else kFailed)) \<and>
    spec q' = spec q \<and> length (processes m') = length (processes m) \<and>
    (\<forall>j<length (processes m). j \<noteq> i \<longrightarrow> processes m' ! j = processes m ! j)"
proof -
  have should: "ShouldRestart q status \<longleftrightarrow> ps_restart (spec q) \<noteq> kNever \<and>
      (ps_restart_limit (spec q) = 0 \<or> restart_count q < ps_restart_limit (spec q)) \<and>
      (ps_restart (spec q) = kAlways \<or> status \<noteq> WExited 0)" for q
    by (auto simp: ShouldRestart_def ExitedSuccessfully_def not_le split: wait_status.splits)
  have exited: "exit_state m q status =
      (if stopping m \<or> intentional_stop q then kStopped else if status = WExited 0 then kExited else kFailed)" for q
    by (auto simp: exit_state_def ExitedSuccessfully_def split: wait_status.splits)
  show ?thesis
    using assms(1)
  proof (cases rule: HandleExit_cases)
    case unmanaged
    with assms(2) show ?thesis by simp
  next
    case (final j t)
    with assms(2) have "j = i" by simp
    with final show ?thesis by (auto simp: should exited Let_def)
  next
    case (restarted j t w1 b)
    with assms(2) have ji: "j = i" by simp
    note fr = StartOne_frame [OF restarted(5)]
    have "state (processes m' ! i) = kRunning \<and> 0 < pid (processes m' ! i) \<or>
        state (processes m' ! i) = kFailed \<and> pid (processes m' ! i) = -1"
      using restarted(5)
      by (rule StartOne_cases) (use restarted(2) ji os_okD(1) [OF assms(4)] in auto)
    with restarted fr ji show ?thesis by (auto simp: should [symmetric] Let_def)
  qed
qed

text \<open>A manager whose only process has crashed and one whose process runs.\<close>

definition demo_managers :: "manager \<times> sim" where
  "demo_managers = snd (StartAll (sim_host 1) (fresh_manager [demo_spec], demo_world))"

lemma demo_managers_facts:
  "FindByPid (fst demo_managers) 101 = Some 0" "\<not> stopping (fst demo_managers)"
  "\<not> intentional_stop (processes (fst demo_managers) ! 0)"
  "ps_restart (spec (processes (fst demo_managers) ! 0)) = kOnFailure"
  "ps_restart_limit (spec (processes (fst demo_managers) ! 0)) = 1"
  "restart_count (processes (fst demo_managers) ! 0) = 0"
  by code_simp+

theorem HandleExit_restarts_witness:
  "\<exists>m' w'. HandleExit (sim_host 1) 101 (WExited 1) demo_managers = (m', w') \<and>
     restart_count (processes m' ! 0) = 1 \<and> state (processes m' ! 0) \<in> {kRunning, kFailed}"
proof -
  obtain m w where mw: "demo_managers = (m, w)" by fastforce
  obtain m' w' where h: "HandleExit (sim_host 1) 101 (WExited 1) (m, w) = (m', w')" by fastforce
  note facts = demo_managers_facts [unfolded mw fst_conv]
  from HandleExit_restarts [OF h facts(1) _ sim_host_ok] facts
  have "restart_count (processes m' ! 0) = 1 \<and> state (processes m' ! 0) \<in> {kRunning, kFailed}"
    by (auto simp: Let_def)
  with h mw show ?thesis by auto
qed


lemma demo_run_limit:
  "case run_commands (sim_host 1) [Start_all, Poll_once, Poll_once] (fresh_manager [demo_spec], demo_world) of
     None \<Rightarrow> False
   | Some (m, w) \<Rightarrow> length (processes m) = 1 \<and> ps_restart_limit (spec (processes m ! 0)) \<noteq> 0"
  by code_simp


text \<open>C5: A process stopped on request stays down. Once StopProcess has answered that it is stopping,
  whatever polls, heartbeats and further stop requests follow, its entry is being stopped or stopped,
  and has not been restarted, whatever its restart policy.\<close>

theorem requested_stop_is_final:
  assumes "os_ok os kids" and "pm_inv (kids w) m"
    and "StopProcess os name p timeout (m, w) = (ev, m1, w1)" and "ev_state ev = kStopping"
    and "find_target m name p = Some i"
    and "list_all no_start cs" and "run_commands os cs (m1, w1) = Some (m', w')"
  shows "state (processes m' ! i) \<in> {kStopping, kStopped} \<and> restart_count (processes m' ! i) = restart_count (processes m ! i)"
proof -
  have inv: "pm_inv (kids w1) m1" using pm.StopProcess_keeps [OF assms(3)] assms(1,2) by blast
  have "put_down i (restart_count (processes m ! i)) m1"
    using assms(3)
  proof (cases rule: StopProcess_cases)
    case (stopping j)
    have i: "i < length (processes m)" by (rule find_target_SomeD [OF assms(5)])
    have "0 < pid (processes m1 ! i) \<and> state (processes m1 ! i) = kStopping \<and> intentional_stop (processes m1 ! i) \<and>
        restart_count (processes m1 ! i) = restart_count (processes m ! i)"
      using stopping(3) by (rule StopOne_cases) (use stopping(1,2) assms(5) i in auto)
    then show ?thesis using inv StopOne_frame(1) [OF stopping(3)] i by (simp add: put_down_def pm_inv_def)
  qed (use assms(4,5) in auto)
  with inv have "put_down i (restart_count (processes m ! i)) m'"
    using down.polling.run_inv [of os kids i "restart_count (processes m ! i)" "(m1, w1)" cs "(m', w')"] assms(1,6,7) by simp
  then show ?thesis by (auto simp: put_down_def)
qed

lemma demo_stop:
  "let (ev, m1, w1) = StopProcess (sim_host 1) ''web'' 0 0 demo_managers in
     ev_state ev = kStopping \<and> run_commands (sim_host 1) [Poll_once, Poll_once] (m1, w1) \<noteq> None"
  "find_target (fst demo_managers) ''web'' 0 = Some 0"
  by code_simp+

theorem requested_stop_is_final_witness:
  "\<exists>ev m1 w1 m' w'. StopProcess (sim_host 1) ''web'' 0 0 demo_managers = (ev, m1, w1) \<and>
     run_commands (sim_host 1) [Poll_once, Poll_once] (m1, w1) = Some (m', w') \<and>
     state (processes m' ! 0) \<in> {kStopping, kStopped}"
proof -
  obtain m w where mw: "demo_managers = (m, w)" by fastforce
  obtain ev m1 w1 where s: "StopProcess (sim_host 1) ''web'' 0 0 (m, w) = (ev, m1, w1)" by (metis prod_cases3)
  with demo_stop(1) mw have ev: "ev_state ev = kStopping" by simp
  obtain m' w' where r: "run_commands (sim_host 1) [Poll_once, Poll_once] (m1, w1) = Some (m', w')"
    using demo_stop(1) s mw by auto
  have inv: "pm_inv (sim_kids w) m"
    using pm.StartAll_keeps [of "sim_host 1" "fresh_manager [demo_spec]" demo_world "fst (StartAll (sim_host 1) (fresh_manager [demo_spec], demo_world))" m w sim_kids]
      mw sim_host_ok fresh_manager_inv by (simp add: demo_managers_def prod_eq_iff)
  from requested_stop_is_final [OF sim_host_ok inv s ev demo_stop(2) [unfolded mw fst_conv] _ r] s r mw show ?thesis
    by (auto simp: no_start_def)
qed

subsection \<open>Heartbeat supervision\<close>

lemma CheckHeartbeatTimeouts_from_nth:
  "CheckHeartbeatTimeouts_from os now js (m, w) = (m', w') \<Longrightarrow> distinct js \<Longrightarrow> \<forall>i\<in>set js. i < length (processes m) \<Longrightarrow>
   length (processes m') = length (processes m) \<and>
   (\<forall>i<length (processes m). processes m' ! i = processes m ! i \<and> (i \<in> set js \<longrightarrow> heartbeat_action now (processes m ! i) = None) \<or>
     i \<in> set js \<and> heartbeat_action now (processes m ! i) \<noteq> None \<and>
     (\<exists>t. processes m' ! i = mark_stopping t 0 False (processes m ! i)))"
proof (induction js arbitrary: m w)
  case (Cons j js)
  obtain m1 w1 where s: "(case heartbeat_action now (processes m ! j) of None \<Rightarrow> (m, w)
      | Some msg \<Rightarrow> StopOne os j msg 0 False (m, w)) = (m1, w1)" by fastforce
  have j: "j < length (processes m)" using Cons.prems by simp
  have len: "length (processes m1) = length (processes m)" and other: "\<And>i. i \<noteq> j \<Longrightarrow> processes m1 ! i = processes m ! i"
    using s StopOne_frame(1,4) by (auto split: option.splits)
  have own: "processes m1 ! j = processes m ! j \<and> heartbeat_action now (processes m ! j) = None \<or>
      heartbeat_action now (processes m ! j) \<noteq> None \<and> (\<exists>t. processes m1 ! j = mark_stopping t 0 False (processes m ! j))"
  proof (cases "heartbeat_action now (processes m ! j)")
    case None with s show ?thesis by simp
  next
    case (Some msg)
    then have alive: "0 < pid (processes m ! j)" by (auto simp: heartbeat_action_def not_le split: if_splits)
    from s Some have run: "StopOne os j msg 0 False (m, w) = (m1, w1)" by simp
    then have "\<exists>t. processes m1 ! j = mark_stopping t 0 False (processes m ! j)"
      by (rule StopOne_cases) (use alive j in auto)
    with Some show ?thesis by simp
  qed
  have ih: "length (processes m') = length (processes m1) \<and>
   (\<forall>i<length (processes m1). processes m' ! i = processes m1 ! i \<and> (i \<in> set js \<longrightarrow> heartbeat_action now (processes m1 ! i) = None) \<or>
     i \<in> set js \<and> heartbeat_action now (processes m1 ! i) \<noteq> None \<and>
     (\<exists>t. processes m' ! i = mark_stopping t 0 False (processes m1 ! i)))"
    using Cons.prems s len by (intro Cons.IH) auto
  show ?case
  proof (intro conjI allI impI)
    show "length (processes m') = length (processes m)" using ih len by simp
    fix i assume i: "i < length (processes m)"
    show "processes m' ! i = processes m ! i \<and> (i \<in> set (j # js) \<longrightarrow> heartbeat_action now (processes m ! i) = None) \<or>
     i \<in> set (j # js) \<and> heartbeat_action now (processes m ! i) \<noteq> None \<and>
     (\<exists>t. processes m' ! i = mark_stopping t 0 False (processes m ! i))"
    proof (cases "i = j")
      case True
      with Cons.prems have "i \<notin> set js" by simp
      with ih i len have "processes m' ! i = processes m1 ! i" by auto
      with own True show ?thesis by auto
    next
      case False
      with ih [THEN conjunct2, rule_format, of i] other [OF False] i len show ?thesis by auto
    qed
  qed
qed simp

text \<open>A supervision pass stops exactly the processes that are late: one that runs, has a heartbeat
  timeout and either sent no heartbeat within its startup timeout or none since its heartbeat timeout.
  It is left stopping, with the stop not marked as asked for, so that it may be restarted; every other
  entry is unchanged. In particular a process without a heartbeat timeout is never stopped.\<close>

theorem heartbeat_check_exact:
  assumes "CheckHeartbeatTimeouts os (m, w) = (m', w')" and "i < length (processes m)"
    and "os_steady_ns os w = (now, w1)" and "\<not> stopping m"
  shows "let p = processes m ! i; p' = processes m' ! i;
      late = (0 < pid p \<and> state p \<noteq> kStopping \<and> 0 < ps_heartbeat_timeout (spec p) \<and>
        (if has_heartbeat p then now - last_heartbeat_time p > ps_heartbeat_timeout (spec p) * 1000000
         else 0 < ps_startup_timeout (spec p) \<and> now - start_time p > ps_startup_timeout (spec p) * 1000000)) in
    (late \<longrightarrow> state p' = kStopping \<and> \<not> intentional_stop p' \<and> pid p' = pid p \<and> spec p' = spec p) \<and>
    (\<not> late \<longrightarrow> p' = p)"
proof -
  have run: "CheckHeartbeatTimeouts_from os now [0..<length (processes m)] (m, w1) = (m', w')"
    using assms by (simp add: CheckHeartbeatTimeouts_def)
  have late: "heartbeat_action now p \<noteq> None \<longleftrightarrow> 0 < pid p \<and> state p \<noteq> kStopping \<and> 0 < ps_heartbeat_timeout (spec p) \<and>
        (if has_heartbeat p then now - last_heartbeat_time p > ps_heartbeat_timeout (spec p) * 1000000
         else 0 < ps_startup_timeout (spec p) \<and> now - start_time p > ps_startup_timeout (spec p) * 1000000)" for p
    by (auto simp: heartbeat_action_def ns_of_ms_def not_le)
  show ?thesis
    using CheckHeartbeatTimeouts_from_nth [OF run] assms(2) unfolding Let_def late [symmetric]
    by fastforce
qed

theorem heartbeat_check_exact_witness:
  "let s = demo_spec\<lparr>ps_heartbeat_timeout := 500, ps_startup_timeout := 1000\<rparr>;
       p = (new_ManagedProcess s)\<lparr>pid := 7, state := kRunning\<rparr>;
       m = (fresh_manager [])\<lparr>processes := [p]\<rparr>;
       w = (sim_start [])\<lparr>sim_clock := 1000000001\<rparr> in
   state (processes (fst (CheckHeartbeatTimeouts (sim_host 1) (m, w))) ! 0) = kStopping"
  unfolding Let_def
  using heartbeat_check_exact [OF surjective_pairing [of "CheckHeartbeatTimeouts (sim_host 1)
      ((fresh_manager [])\<lparr>processes := [(new_ManagedProcess (demo_spec\<lparr>ps_heartbeat_timeout := 500, ps_startup_timeout := 1000\<rparr>))
          \<lparr>pid := 7, state := kRunning\<rparr>]\<rparr>, (sim_start [])\<lparr>sim_clock := 1000000001\<rparr>)"], of 0]
  by (simp add: fresh_manager_def SetEventCallback_def ProcessManager_def new_ManagedProcess_def Let_def)

subsection \<open>What a start request answers\<close>

text \<open>A start request without a command answers EINVAL and changes nothing; one for a process that is
  alive answers its pid and changes nothing; any other one starts a process: the entry of that name, or
  a new last entry, takes the new specification, keeps its restart count, and is running with a
  pid no other entry has or, if fork failed, failed; the answer tells which. Other entries stay.\<close>

theorem StartProcess_answers:
  assumes "os_ok os kids" and "pm_inv (kids w) m" and "StartProcess os s (m, w) = (ev, m', w')"
  shows "let i = (case FindByName m (ps_name (named_spec s)) of Some i \<Rightarrow> i | None \<Rightarrow> length (processes m)) in
    if ps_command s = [] then ev_state ev = kFailed \<and> ev_exit_code ev = EINVAL \<and> m' = m
    else if i < length (processes m) \<and> 0 < pid (processes m ! i)
    then ev_pid ev = pid (processes m ! i) \<and> m' = m \<and> w' = w
    else (if 0 < ev_pid ev then ev_state ev = kRunning else ev_state ev = kFailed) \<and>
      ev_pid ev = pid (processes m' ! i) \<and> ev_state ev = state (processes m' ! i) \<and>
      spec (processes m' ! i) = named_spec s \<and> ev_pid ev \<notin> live (processes m) \<and>
      restart_count (processes m' ! i) = (if i < length (processes m) then restart_count (processes m ! i) else 0) \<and>
      length (processes m') = max (length (processes m)) (Suc i) \<and>
      (\<forall>j<length (processes m). j \<noteq> i \<longrightarrow> processes m' ! j = processes m ! j)"
proof -
  have started: "(if 0 < pid (processes m' ! i) then state (processes m' ! i) = kRunning else state (processes m' ! i) = kFailed) \<and>
      pid (processes m' ! i) \<notin> live (processes m)"
    if run: "StartOne os i (m1, w) = (b, m', w')" and i: "i < length (processes m1)" and "pid (processes m1 ! i) \<le> 0" for i m1 b
    using run i
  proof (cases rule: StartOne_cases)
    case running with that show ?thesis by simp
  next
    case (failed e t t' w1 w2 q)
    with i show ?thesis by (auto simp: live_def)
  next
    case (started child t now w1 w2 q)
    have "0 < child" "child \<notin> kids w" 
      using os_okD(1) [OF assms(1) started(4)] os_okD(7) [OF assms(1) started(3)] by simp_all
    with started i assms(2) show ?thesis by (auto simp: pm_inv_def)
  qed
  show ?thesis
    using assms(3)
  proof (cases rule: StartProcess_cases)
    case (again i b)
    then have i: "i < length (processes m)" by (auto dest: FindByName_SomeD)
    note fr = StartOne_frame [OF again(4)]
    show ?thesis using again started [OF again(4)] i fr by (auto simp: Let_def max_def MakeEvent_def)
  next
    case (fresh b)
    note fr = StartOne_frame [OF fresh(3)]
    show ?thesis using fresh started [OF fresh(3)] fr by (auto simp: Let_def max_def nth_append MakeEvent_def)
  next
    case (busy i)
    then show ?thesis by (auto simp: Let_def dest: FindByName_SomeD)
  qed (auto simp: Let_def)
qed

theorem StartProcess_answers_witness:
  "\<exists>ev m' w'. StartProcess (sim_host 1) demo_spec (fresh_manager [], demo_world) = (ev, m', w') \<and>
     ev_state ev = state (processes m' ! 0) \<and> spec (processes m' ! 0) = demo_spec"
proof -
  obtain ev m' w' where run: "StartProcess (sim_host 1) demo_spec (fresh_manager [], demo_world) = (ev, m', w')"
    by (metis prod_cases3)
  have empty: "processes (fresh_manager []) = []"
    by (simp add: fresh_manager_def SetEventCallback_def ProcessManager_def)
  have name: "named_spec demo_spec = demo_spec" by (simp add: named_spec_def demo_spec_def)
  have none: "FindByName (fresh_manager []) n = None" for n by (simp add: FindByName_def empty)
  have "ps_command demo_spec \<noteq> []" by (simp add: demo_spec_def)
  with StartProcess_answers [OF sim_host_ok fresh_manager_inv run] empty name none run show ?thesis
    by (simp add: Let_def)
qed

end
