(* ===== verification/Shutdown.thy ===== *)
theory Shutdown
  imports Supervision
begin

section \<open>Shutdown\<close>

text \<open>
  What \<open>StopAll\<close> guarantees when it returns, and that it returns. The loop changes an entry
  only by reaping it or by moving its deadline: \<open>undated\<close> is an entry without its deadline.
  Termination is by a rank of each live entry that every round lowers: the sleeps a killed
  child still needs, or, for one not yet killed, one more than any killed child needs plus the
  rounds of 100 ms until its deadline.
\<close>

definition undated :: "ManagedProcess \<Rightarrow> ManagedProcess" where
  "undated p = p\<lparr>stop_deadline := 0\<rparr>"

lemma undated_fields [simp]:
  "pid (undated p) = pid p" "state (undated p) = state p" "spec (undated p) = spec p"
  "restart_count (undated p) = restart_count p" "intentional_stop (undated p) = intentional_stop p"
  "undated (p\<lparr>stop_deadline := d\<rparr>) = undated p"
  by (simp_all add: undated_def)

lemma undated_cong:
  assumes "map undated ps' = map undated ps"
  shows "map pid ps' = map pid ps" "map state ps' = map state ps" "map spec ps' = map spec ps"
    "map restart_count ps' = map restart_count ps" "length ps' = length ps"
    "(\<forall>p\<in>set ps'. proc_ok p) \<longleftrightarrow> (\<forall>p\<in>set ps. proc_ok p)"
proof -
  have *: "map f ps' = map f ps" if "\<And>p. f (undated p) = f p" for f :: "ManagedProcess \<Rightarrow> 'a"
    using arg_cong [OF assms, of "map f"] that by (simp add: comp_def)
  show "map pid ps' = map pid ps" "map state ps' = map state ps" "map spec ps' = map spec ps"
    "map restart_count ps' = map restart_count ps" by (rule *, simp)+
  show "length ps' = length ps" using map_eq_imp_length_eq [OF assms] .
  have "map proc_ok ps' = map proc_ok ps" by (rule *) (simp add: proc_ok_def)
  then have "set (map proc_ok ps') = set (map proc_ok ps)" by (rule arg_cong)
  then show "(\<forall>p\<in>set ps'. proc_ok p) \<longleftrightarrow> (\<forall>p\<in>set ps. proc_ok p)" by (simp add: set_eq_iff image_iff) metis
qed

lemma own_pids_cong: "map pid ps' = map pid ps \<Longrightarrow> own_pids ps' = own_pids ps"
  unfolding own_pids_def by (metis length_map nth_map)

lemma live_cong: "map pid ps' = map pid ps \<Longrightarrow> live ps' = live ps"
proof -
  assume eq: "map pid ps' = map pid ps"
  have "live ps = {x \<in> set (map pid ps). 0 < x}" for ps by (auto simp: live_def)
  with eq show ?thesis by metis
qed

lemma pm_inv_undated:
  assumes und: "map undated (processes m') = map undated (processes m)"
  shows "pm_inv K m' = pm_inv K m"
  unfolding pm_inv_def own_pids_cong [OF undated_cong(1) [OF und]] live_cong [OF undated_cong(1) [OF und]]
    undated_cong(6) [OF und] ..

subsection \<open>The pass that kills\<close>

lemma kill_if_due_cases:
  assumes "kill_if_due os now i (b, m, w) = (b', m', w')"
  obtains (idle) "pid (processes m ! i) \<le> 0" "b' = b" "m' = m" "w' = w"
  | (due) "0 < pid (processes m ! i)" "stop_deadline (processes m ! i) \<le> now" "b'"
      "m' = put_process i ((processes m ! i)\<lparr>stop_deadline := now + ns_of_ms 1000\<rparr>) m"
      "w' = os_kill os (pid (processes m ! i)) SIGKILL w"
  | (waiting) "0 < pid (processes m ! i)" "now < stop_deadline (processes m ! i)" "b'" "m' = m" "w' = w"
  using assms by (auto simp: kill_if_due_def Let_def not_less split: if_splits)

text \<open>What a sequence of passes over distinct entries does, entry by entry.\<close>

definition kill_pass :: "('w \<Rightarrow> int set) \<Rightarrow> int \<Rightarrow> nat list \<Rightarrow> bool \<times> manager \<times> 'w \<Rightarrow> bool \<times> manager \<times> 'w \<Rightarrow> bool" where
  "kill_pass kids now js = (\<lambda>(b, m, w) (b', m', w').
     stopping m' = stopping m \<and> kids w' = kids w \<and>
     map undated (processes m') = map undated (processes m) \<and>
     (b' \<longleftrightarrow> b \<or> (\<exists>j\<in>set js. 0 < pid (processes m ! j))) \<and>
     (\<forall>i<length (processes m).
        i \<notin> set js \<or> pid (processes m ! i) \<le> 0 \<or> now < stop_deadline (processes m ! i) \<longrightarrow>
        processes m' ! i = processes m ! i))"

lemma kill_pass_fold:
  assumes ok: "os_ok os kids"
  shows "distinct js \<Longrightarrow> \<forall>j\<in>set js. j < length (processes m) \<Longrightarrow>
    kill_pass kids now js (b, m, w) (fold (kill_if_due os now) js (b, m, w))"
proof (induction js arbitrary: b m w)
  case Nil
  then show ?case by (simp add: kill_pass_def)
next
  case (Cons j js)
  obtain b1 m1 w1 where s: "kill_if_due os now j (b, m, w) = (b1, m1, w1)" by (metis prod_cases3)
  have und: "map undated (processes m1) = map undated (processes m)" and len: "length (processes m1) = length (processes m)"
    and kids: "kids w1 = kids w" and stop: "stopping m1 = stopping m"
    and b1: "b1 \<longleftrightarrow> b \<or> 0 < pid (processes m ! j)"
    and same: "\<And>i. i \<noteq> j \<or> pid (processes m ! i) \<le> 0 \<or> now < stop_deadline (processes m ! i) \<Longrightarrow>
        processes m1 ! i = processes m ! i"
    using s os_okD(6) [OF ok] by (auto elim!: kill_if_due_cases simp: map_list_update_same)
  obtain b2 m2 w2 where f: "fold (kill_if_due os now) js (b1, m1, w1) = (b2, m2, w2)" by (metis prod_cases3)
  have ih: "kill_pass kids now js (b1, m1, w1) (b2, m2, w2)"
    using Cons.IH [of m1 b1 w1] Cons.prems f len by simp
  have pids: "pid (processes m1 ! i) = pid (processes m ! i)" if "i < length (processes m)" for i
    using undated_cong(1) [OF und] that len by (metis nth_map)
  have ex: "(\<exists>i\<in>set js. 0 < pid (processes m1 ! i)) = (\<exists>i\<in>set js. 0 < pid (processes m ! i))"
    using Cons.prems pids by auto
  have "kill_pass kids now (j # js) (b, m, w) (b2, m2, w2)"
    using ih und kids stop b1 len unfolding kill_pass_def
    by (auto simp: ex same Cons.prems)
  with s f show ?case by simp
qed

lemma kill_overdue_pass:
  assumes ok: "os_ok os kids" and run: "kill_overdue os (m, w) = (b, m', w')"
  shows "stopping m' = stopping m" "kids w' = kids w"
    "map undated (processes m') = map undated (processes m)"
    "b \<longleftrightarrow> (\<exists>p\<in>set (processes m). 0 < pid p)"
proof -
  obtain now w1 where now: "os_steady_ns os w = (now, w1)" by fastforce
  have "kill_pass kids now [0..<length (processes m)] (False, m, w1) (b, m', w')"
    using kill_pass_fold [OF ok, of "[0..<length (processes m)]" m now False w1] run now
    by (simp add: kill_overdue_def)
  note pass = this [unfolded kill_pass_def prod.case]
  show "stopping m' = stopping m" "kids w' = kids w"
    "map undated (processes m') = map undated (processes m)"
    using pass os_okD(8) [OF ok now] by simp_all
  have "b \<longleftrightarrow> (\<exists>j<length (processes m). 0 < pid (processes m ! j))" using pass by auto
  then show "b \<longleftrightarrow> (\<exists>p\<in>set (processes m). 0 < pid p)" by (metis in_set_conv_nth)
qed

subsection \<open>While stopping\<close>

text \<open>
  \<open>stopped_from\<close> relates the state at the start of the shutdown to a later one: no new child,
  no restart, and what is live was live.
\<close>

definition stopped_from :: "('w \<Rightarrow> int set) \<Rightarrow> manager \<times> 'w \<Rightarrow> manager \<times> 'w \<Rightarrow> bool" where
  "stopped_from kids = (\<lambda>(m0, w0) (m, w).
     stopping m \<and> pm_inv (kids w) m \<and> kids w \<subseteq> kids w0 \<and>
     map spec (processes m) = map spec (processes m0) \<and>
     map restart_count (processes m) = map restart_count (processes m0))"

lemma HandleExit_stopping:
  assumes "stopping m" "HandleExit os p status (m, w) = (m', w')"
  shows "stopping m'" "length (processes m') = length (processes m)"
    "map spec (processes m') = map spec (processes m)"
    "map restart_count (processes m') = map restart_count (processes m)"
    "w' = w \<or> (\<exists>t. os_unix_ns os w = (t, w'))"
    "\<forall>i<length (processes m). 0 < pid (processes m' ! i) \<longrightarrow> processes m' ! i = processes m ! i"
  using assms(2) assms(1)
  by (auto elim!: HandleExit_cases simp: map_list_update_same nth_list_update)

lemma HandleExit_stopped_from:
  assumes ok: "os_ok os kids" and sf: "stopped_from kids s0 (m, w)"
    and r: "os_waitpid os w = (Reaped p st, w1)" and h: "HandleExit os p st (m, w1) = (m', w')"
  shows "stopped_from kids s0 (m', w')"
proof -
  obtain m0 w0 where s0: "s0 = (m0, w0)" by fastforce
  from sf have stop: "stopping m" and inv: "pm_inv (kids w) m" and sub: "kids w \<subseteq> kids w0"
    by (auto simp: stopped_from_def s0)
  have k: "insert p (kids w1) = kids w" "p \<notin> kids w1" "0 < p" using os_okD(3) [OF ok r] by auto
  have "pm_inv (kids w') m'" using HandleExit_inv [OF ok _ _ _ h] inv k by simp
  moreover have "kids w' = kids w1"
    using HandleExit_stopping(5) [OF stop h] os_okD(7) [OF ok] by auto
  ultimately show ?thesis
    using sf HandleExit_stopping(1-4) [OF stop h] sub k by (auto simp: stopped_from_def s0)
qed

lemma stopped_from_kids: "stopped_from kids s0 (m, w) \<Longrightarrow> kids w' = kids w \<Longrightarrow> stopped_from kids s0 (m, w')"
  by (auto simp: stopped_from_def split: prod.splits)

lemma Poll_stopped_from:
  assumes ok: "os_ok os kids" and ret: "Poll os s = Some s'" and sf: "stopped_from kids s0 s"
  shows "stopped_from kids s0 s'"
  using ret
proof (rule Poll_rule [where I = "stopped_from kids s0"])
  show "stopped_from kids s0 s" by (rule sf)
next
  fix m w p st w1
  assume "stopped_from kids s0 (m, w)" and r: "os_waitpid os w = (Reaped p st, w1)"
  then show "stopped_from kids s0 (HandleExit os p st (m, w1))"
    using HandleExit_stopped_from [OF ok _ r] by (cases "HandleExit os p st (m, w1)") auto
next
  fix m w w' assume sf: "stopped_from kids s0 (m, w)" and r: "os_waitpid os w = (Wait_error EINTR, w')"
  show "stopped_from kids s0 (m, w')" by (rule stopped_from_kids [OF sf os_okD(5) [OF ok r]])
next
  fix m w r w'
  assume sf: "stopped_from kids s0 (m, w)" and r: "os_waitpid os w = (r, w')"
    "r = None_ready \<or> (\<exists>e. r = Wait_error e \<and> e \<noteq> EINTR)"
  then have "CheckHeartbeatTimeouts os (m, w') = (m, w')"
    by (auto simp: CheckHeartbeatTimeouts_def stopped_from_def)
  moreover have "kids w' = kids w" using r os_okD(4,5) [OF ok] by auto
  ultimately show "stopped_from kids s0 (CheckHeartbeatTimeouts os (m, w'))"
    using stopped_from_kids [OF sf] by simp
qed

lemma kill_overdue_stopped_from:
  assumes ok: "os_ok os kids" and sf: "stopped_from kids s0 (m, w)" and run: "kill_overdue os (m, w) = (b, m', w')"
  shows "stopped_from kids s0 (m', w')"
  using sf kill_overdue_pass [OF ok run] pm_inv_undated [OF kill_overdue_pass(3) [OF ok run]]
    undated_cong(3,4) [OF kill_overdue_pass(3) [OF ok run]]
  by (auto simp: stopped_from_def split: prod.splits)

text \<open>What \<open>StopAll_loop\<close> returns is a state in which nothing is alive.\<close>

lemma StopAll_loop_result:
  assumes ok: "os_ok os kids" and "StopAll_loop os s = Some s'" "stopped_from kids s0 s"
  shows "stopped_from kids s0 s' \<and> (\<forall>p\<in>set (processes (fst s')). pid p \<le> 0)"
proof -
  let ?P = "\<lambda>o1 (s :: manager \<times> 'a) s'. o1 = os \<longrightarrow> stopped_from kids s0 s \<longrightarrow>
      stopped_from kids s0 s' \<and> (\<forall>p\<in>set (processes (fst s')). pid p \<le> 0)"
  have "?P os s s'" if "StopAll_loop os s = Some s'" for s s'
  proof (rule StopAll_loop.raw_induct [where P = ?P, OF _ that], intro impI)
    fix L o1 s s'
    assume IH: "\<And>o1 s s'. L o1 s = Some s' \<Longrightarrow> ?P o1 s s'"
      and step: "(case Poll o1 s of None \<Rightarrow> None
        | Some s1 \<Rightarrow> (case kill_overdue o1 s1 of (any_running, m, w) \<Rightarrow>
             (if any_running then L o1 (m, os_sleep_ms o1 100 w) else Some (m, w)))) = Some s'"
      and o1: "o1 = os" and sf: "stopped_from kids s0 s"
    from step o1 obtain m1 w1 where poll: "Poll os s = Some (m1, w1)" by (auto split: option.splits)
    obtain b m w where pass: "kill_overdue os (m1, w1) = (b, m, w)" by (metis prod_cases3)
    have from1: "stopped_from kids s0 (m, w)"
      using kill_overdue_stopped_from [OF ok Poll_stopped_from [OF ok poll sf] pass] .
    show "stopped_from kids s0 s' \<and> (\<forall>p\<in>set (processes (fst s')). pid p \<le> 0)"
    proof (cases b)
      case True
      with step o1 poll pass have "L os (m, os_sleep_ms os 100 w) = Some s'" by simp
      with IH stopped_from_kids [OF from1 os_okD(9) [OF ok]] show ?thesis by blast
    next
      case False
      with step o1 poll pass have s': "s' = (m, w)" by simp
      have "map pid (processes m) = map pid (processes m1)"
        by (rule undated_cong(1) [OF kill_overdue_pass(3) [OF ok pass]])
      then have "pid ` set (processes m) = pid ` set (processes m1)" by (metis set_map)
      moreover have "\<forall>p\<in>set (processes m1). pid p \<le> 0"
        using kill_overdue_pass(4) [OF ok pass] False by (auto simp: not_less)
      ultimately have "\<forall>p\<in>set (processes m). pid p \<le> 0" by (metis image_iff)
      with s' from1 show ?thesis by simp
    qed
  qed
  with assms show ?thesis by blast
qed

lemma StopOne_fold_stopped_from:
  assumes ok: "os_ok os kids"
  shows "stopped_from kids s0 (m, w) \<Longrightarrow> \<forall>i\<in>set js. i < length (processes m) \<Longrightarrow>
    stopped_from kids s0 (fold (\<lambda>i. StopOne os i msg d b) js (m, w))"
proof (induction js arbitrary: m w)
  case (Cons j js)
  obtain m1 w1 where s: "StopOne os j msg d b (m, w) = (m1, w1)" by fastforce
  have j: "j < length (processes m)" using Cons.prems by simp
  have kids: "kids w1 = kids w"
    using s os_okD(6,8) [OF ok] by (auto elim!: StopOne_cases)
  have "pm_inv (kids w) m" using Cons.prems by (auto simp: stopped_from_def split: prod.splits)
  from StopOne_inv [OF ok this s j] have "stopped_from kids s0 (m1, w1)"
    using Cons.prems StopOne_frame [OF s] kids by (auto simp: stopped_from_def split: prod.splits)
  with Cons.IH Cons.prems StopOne_frame(1) [OF s] s show ?case by simp
qed simp

subsection \<open>The shutdown returns\<close>

lemma calm_D: "calm G w w' \<Longrightarrow> pg_killed G w p \<Longrightarrow> pg_killed G w' p \<and> pg_ttl G w' p \<le> pg_ttl G w p"
  by (simp add: calm_def)

lemma calm_now: "calm G w w' \<Longrightarrow> pg_now G w \<le> pg_now G w'"
  by (simp add: calm_def)

text \<open>
  A poll during the shutdown returns; afterwards no live entry has changed, and a live child
  that was killed before needs at least one more sleep.
\<close>

lemma Poll_stopping_returns:
  assumes ok: "os_ok os kids" and pr: "os_progress os kids G B"
  shows "stopping m \<Longrightarrow> \<exists>m' w'. Poll os (m, w) = Some (m', w') \<and> calm G w w' \<and> stopping m' \<and>
    length (processes m') = length (processes m) \<and>
    (\<forall>p\<in>kids w'. pg_killed G w p \<longrightarrow> 0 < pg_ttl G w p) \<and>
    (\<forall>i<length (processes m). 0 < pid (processes m' ! i) \<longrightarrow> processes m' ! i = processes m ! i)"
proof (induction "pg_backlog G w" arbitrary: m w rule: less_induct)
  case less
  obtain r w1 where r: "os_waitpid os w = (r, w1)" by fastforce
  have calm: "calm G w w1" by (rule os_progressD(3) [OF pr r])
  have idle: "CheckHeartbeatTimeouts os (m, w1) = (m, w1)"
    using less.prems by (simp add: CheckHeartbeatTimeouts_def)
  have next_round: "?case" if step: "Poll os (m, w) = Poll os (m2, w2)" and m2: "stopping m2"
      "length (processes m2) = length (processes m)"
      "\<forall>i<length (processes m). 0 < pid (processes m2 ! i) \<longrightarrow> processes m2 ! i = processes m ! i"
      and w2: "calm G w w2" "pg_backlog G w2 < pg_backlog G w" for m2 w2
  proof -
    obtain m' w' where ih: "Poll os (m2, w2) = Some (m', w')" "calm G w2 w'" "stopping m'"
      "length (processes m') = length (processes m2)"
      "\<forall>p\<in>kids w'. pg_killed G w2 p \<longrightarrow> 0 < pg_ttl G w2 p"
      "\<forall>i<length (processes m2). 0 < pid (processes m' ! i) \<longrightarrow> processes m' ! i = processes m2 ! i"
      using less.hyps [OF w2(2) m2(1)] by blast
    have "\<forall>p\<in>kids w'. pg_killed G w p \<longrightarrow> 0 < pg_ttl G w p"
      using ih(5) calm_D [OF w2(1)] by fastforce
    moreover have "\<forall>i<length (processes m). 0 < pid (processes m' ! i) \<longrightarrow> processes m' ! i = processes m ! i"
      using ih(6) m2 by metis
    ultimately show ?case using step ih m2 calm_trans [OF w2(1) ih(2)] by auto
  qed
  show ?case
  proof (cases r)
    case (Reaped p st)
    obtain m2 w2 where h: "HandleExit os p st (m, w1) = (m2, w2)" by fastforce
    note hs = HandleExit_stopping [OF less.prems h]
    have c2: "calm G w1 w2" using hs(5) os_progressD(1) [OF pr] by auto
    show ?thesis
    proof (rule next_round [of m2 w2])
      show "Poll os (m, w) = Poll os (m2, w2)" using r Reaped h by (subst Poll.simps) simp
      show "pg_backlog G w2 < pg_backlog G w"
        using os_progressD(4) [OF pr] r Reaped c2 by (fastforce simp: calm_def)
      show "calm G w w2" by (rule calm_trans [OF calm c2])
    qed (use hs in simp_all)
  next
    case None_ready
    have "Poll os (m, w) = Some (m, w1)" using r None_ready idle by (subst Poll.simps) simp
    with calm less.prems os_progressD(6) [OF pr] os_okD(4) [OF ok] r None_ready show ?thesis by auto
  next
    case (Wait_error e)
    show ?thesis
    proof (cases "e = EINTR")
      case True
      show ?thesis
      proof (rule next_round [of m w1])
        show "Poll os (m, w) = Poll os (m, w1)" using r Wait_error True by (subst Poll.simps) simp
        show "pg_backlog G w1 < pg_backlog G w" using os_progressD(5) [OF pr] r Wait_error True by blast
      qed (use less.prems calm in simp_all)
    next
      case False
      have "Poll os (m, w) = Some (m, w1)" using r Wait_error False idle by (subst Poll.simps) simp
      moreover have "kids w1 = {}"
        using os_progressD(7) [OF pr] os_okD(5) [OF ok] r Wait_error False by metis
      ultimately show ?thesis using calm less.prems by auto
    qed
  qed
qed

lemma kill_fold_progress:
  assumes ok: "os_ok os kids" and pr: "os_progress os kids G B"
  shows "distinct js \<Longrightarrow> \<forall>j\<in>set js. j < length (processes m) \<Longrightarrow>
    fold (kill_if_due os now) js (b, m, w) = (b', m', w') \<Longrightarrow>
    pg_now G w \<le> pg_now G w' \<and>
    (\<forall>p. pg_killed G w p \<longrightarrow> pg_killed G w' p \<and> pg_ttl G w' p \<le> pg_ttl G w p) \<and>
    (\<forall>j\<in>set js. 0 < pid (processes m ! j) \<longrightarrow> stop_deadline (processes m ! j) \<le> now \<longrightarrow>
       pg_killed G w' (pid (processes m ! j)))"
proof (induction js arbitrary: b m w)
  case (Cons j js)
  obtain b1 m1 w1 where s: "kill_if_due os now j (b, m, w) = (b1, m1, w1)" by (metis prod_cases3)
  have len: "length (processes m1) = length (processes m)"
    and same: "\<And>i. i \<noteq> j \<Longrightarrow> processes m1 ! i = processes m ! i"
    and now1: "pg_now G w \<le> pg_now G w1"
    and mono: "\<And>p. pg_killed G w p \<Longrightarrow> pg_killed G w1 p \<and> pg_ttl G w1 p \<le> pg_ttl G w p"
    and due: "0 < pid (processes m ! j) \<Longrightarrow> stop_deadline (processes m ! j) \<le> now \<Longrightarrow> pg_killed G w1 (pid (processes m ! j))"
    using s os_progress_kill [OF pr] by (auto elim!: kill_if_due_cases)
  have ih: "pg_now G w1 \<le> pg_now G w' \<and>
    (\<forall>p. pg_killed G w1 p \<longrightarrow> pg_killed G w' p \<and> pg_ttl G w' p \<le> pg_ttl G w1 p) \<and>
    (\<forall>j\<in>set js. 0 < pid (processes m1 ! j) \<longrightarrow> stop_deadline (processes m1 ! j) \<le> now \<longrightarrow>
       pg_killed G w' (pid (processes m1 ! j)))"
    using Cons.IH [of m1 b1 w1] Cons.prems s len by simp
  have js: "\<forall>i\<in>set js. i \<noteq> j" using Cons.prems by auto
  show ?case
  proof (intro conjI allI impI ballI)
    show "pg_now G w \<le> pg_now G w'" using now1 ih by simp
    show "pg_killed G w' p" "pg_ttl G w' p \<le> pg_ttl G w p" if "pg_killed G w p" for p
      using ih mono [OF that] by (auto intro: order_trans)
    fix i assume i: "i \<in> set (j # js)" "0 < pid (processes m ! i)" "stop_deadline (processes m ! i) \<le> now"
    show "pg_killed G w' (pid (processes m ! i))"
    proof (cases "i = j")
      case True with due i ih show ?thesis by blast
    next
      case False with i ih same js show ?thesis by auto
    qed
  qed
qed simp

definition rounds :: "int \<Rightarrow> nat" where
  "rounds d = nat ((d + 99999999) div 100000000)"

definition rank :: "'w progress \<Rightarrow> nat \<Rightarrow> 'w \<Rightarrow> ManagedProcess \<Rightarrow> nat" where
  "rank G B w p = (if pg_killed G w (pid p) then pg_ttl G w (pid p)
     else B + 1 + rounds (stop_deadline p - pg_now G w))"

lemma rounds_less: "0 < d \<Longrightarrow> d' \<le> d - 100000000 \<Longrightarrow> rounds d' < rounds d"
proof -
  assume d: "0 < d" and d': "d' \<le> d - 100000000"
  have eq: "(d + 99999999) div 100000000 = (d - 1) div 100000000 + 1"
    using div_add_self2 [of "100000000::int" "d - 1"] by simp
  have "(d' + 99999999) div 100000000 \<le> (d - 1) div 100000000"
    using d' by (intro zdiv_mono1) auto
  moreover have "0 \<le> (d - 1) div 100000000" using d by (intro pos_imp_zdiv_nonneg_iff [THEN iffD2]) auto
  ultimately show ?thesis unfolding rounds_def eq by linarith
qed

text \<open>One round of the loop lowers the rank of every entry that stays alive.\<close>

lemma round_lowers_rank:
  assumes ok: "os_ok os kids" and pr: "os_progress os kids G B" and inv: "stopped_from kids s0 (m, w)"
    and poll: "Poll os (m, w) = Some (m1, w1)" and pass: "kill_overdue os (m1, w1) = (b, m2, w2)"
    and i: "i < length (processes m2)" "0 < pid (processes m2 ! i)"
  shows "i < length (processes m) \<and> 0 < pid (processes m ! i) \<and>
    rank G B (os_sleep_ms os 100 w2) (processes m2 ! i) < rank G B w (processes m ! i)"
proof -
  let ?w3 = "os_sleep_ms os 100 w2"
  have stop: "stopping m" using inv by (auto simp: stopped_from_def split: prod.splits)
  from Poll_stopping_returns [OF ok pr this, of w] poll
  have c1: "calm G w w1" and len1: "length (processes m1) = length (processes m)"
    and need: "\<forall>p\<in>kids w1. pg_killed G w p \<longrightarrow> 0 < pg_ttl G w p"
    and same1: "\<forall>i<length (processes m). 0 < pid (processes m1 ! i) \<longrightarrow> processes m1 ! i = processes m ! i"
    by auto
  obtain now wn where now: "os_steady_ns os w1 = (now, wn)" by fastforce
  have fold: "fold (kill_if_due os now) [0..<length (processes m1)] (False, m1, wn) = (b, m2, w2)"
    using pass now by (simp add: kill_overdue_def)
  have kp: "kill_pass kids now [0..<length (processes m1)] (False, m1, wn) (b, m2, w2)"
    using kill_pass_fold [OF ok, of "[0..<length (processes m1)]" m1 now False wn] fold by simp
  have now': "now = pg_now G w1" "calm G w1 wn" using os_progressD(2) [OF pr now] by auto
  have kf: "pg_now G wn \<le> pg_now G w2"
    "\<And>p. pg_killed G wn p \<Longrightarrow> pg_killed G w2 p \<and> pg_ttl G w2 p \<le> pg_ttl G wn p"
    "\<And>j. j < length (processes m1) \<Longrightarrow> 0 < pid (processes m1 ! j) \<Longrightarrow> stop_deadline (processes m1 ! j) \<le> now \<Longrightarrow>
       pg_killed G w2 (pid (processes m1 ! j))"
    using kill_fold_progress [OF ok pr, of "[0..<length (processes m1)]" m1 now False wn b m2 w2] fold by auto
  have und: "map undated (processes m2) = map undated (processes m1)" using kp by (simp add: kill_pass_def)
  have len2: "length (processes m2) = length (processes m1)" by (rule undated_cong(5) [OF und])
  have pid2: "pid (processes m2 ! i) = pid (processes m1 ! i)"
    using undated_cong(1) [OF und] i len2 by (metis nth_map)
  then have m1i: "processes m1 ! i = processes m ! i" using same1 i len1 len2 by auto
  let ?p = "pid (processes m ! i)"
  have pidi: "pid (processes m2 ! i) = ?p" "i < length (processes m)" "0 < ?p"
    using pid2 m1i i len1 len2 by auto
  have "stopped_from kids s0 (m1, w1)" by (rule Poll_stopped_from [OF ok poll inv])
  then have "live (processes m1) \<subseteq> kids w1" by (auto simp: stopped_from_def pm_inv_def split: prod.splits)
  moreover have "?p \<in> live (processes m1)" using live_nth [of i "processes m1"] pidi m1i len1 by simp
  ultimately have kid: "?p \<in> kids w1" by blast
  have sleep_now: "pg_now G w2 + 100000000 \<le> pg_now G ?w3"
    using os_progress_sleep(1) [OF pr, of 100 w2] by (simp add: ns_of_ms_def)
  have sleep_ttl: "pg_killed G w2 q \<Longrightarrow> pg_killed G ?w3 q \<and> pg_ttl G ?w3 q \<le> pg_ttl G w2 q - 1" for q
    using os_progress_sleep(2) [OF pr, of 100] by simp
  have small: "pg_killed G ?w3 q \<Longrightarrow> pg_ttl G ?w3 q \<le> B" for q by (rule os_progressD(8) [OF pr])
  show ?thesis
  proof (cases "pg_killed G w ?p")
    case True
    have "pg_killed G wn ?p \<and> pg_ttl G wn ?p \<le> pg_ttl G w ?p"
      using calm_D [OF calm_trans [OF c1 now'(2)] True] .
    then have "pg_killed G w2 ?p \<and> pg_ttl G w2 ?p \<le> pg_ttl G w ?p" using kf(2) by force
    then have "pg_killed G ?w3 ?p \<and> pg_ttl G ?w3 ?p \<le> pg_ttl G w ?p - 1" using sleep_ttl by force
    moreover have "0 < pg_ttl G w ?p" using need kid True by blast
    ultimately have "pg_killed G ?w3 ?p" "pg_ttl G ?w3 ?p < pg_ttl G w ?p" by linarith+
    then show ?thesis using True pidi by (simp add: rank_def)
  next
    case alive: False
    show ?thesis
    proof (cases "pg_killed G ?w3 ?p")
      case True
      with small [OF True] alive pidi show ?thesis by (simp add: rank_def)
    next
      case False
      then have "\<not> pg_killed G w2 ?p" using sleep_ttl by blast
      then have future: "now < stop_deadline (processes m ! i)"
        using kf(3) [of i] m1i pidi len1 by force
      have "processes m2 ! i = processes m1 ! i"
        using kp future m1i pidi len1 by (auto simp: kill_pass_def)
      with m1i have same: "processes m2 ! i = processes m ! i" by simp
      have "pg_now G w \<le> now" "now \<le> pg_now G w2"
        using calm_now [OF c1] calm_now [OF now'(2)] kf(1) now' by auto
      with future sleep_now
      have "rounds (stop_deadline (processes m ! i) - pg_now G ?w3) < rounds (stop_deadline (processes m ! i) - pg_now G w)"
        by (intro rounds_less) auto
      with False alive same pidi show ?thesis by (simp add: rank_def)
    qed
  qed
qed

lemma StopAll_loop_returns:
  assumes ok: "os_ok os kids" and pr: "os_progress os kids G B"
  shows "stopped_from kids s0 (m, w) \<Longrightarrow>
    (\<forall>i<length (processes m). 0 < pid (processes m ! i) \<longrightarrow> rank G B w (processes m ! i) < n) \<Longrightarrow>
    \<exists>s'. StopAll_loop os (m, w) = Some s'"
proof (induction n arbitrary: m w)
  case 0
  from 0 have idle: "\<forall>i<length (processes m). \<not> 0 < pid (processes m ! i)" by auto
  have stop: "stopping m" using 0 by (auto simp: stopped_from_def split: prod.splits)
  obtain m1 w1 where poll: "Poll os (m, w) = Some (m1, w1)"
    using Poll_stopping_returns [OF ok pr stop] by blast
  obtain b m2 w2 where pass: "kill_overdue os (m1, w1) = (b, m2, w2)" by (metis prod_cases3)
  have len: "length (processes m2) = length (processes m1)" "map pid (processes m2) = map pid (processes m1)"
    using undated_cong [OF kill_overdue_pass(3) [OF ok pass]] by auto
  have "\<not> b"
  proof
    assume b
    then obtain i where "i < length (processes m1)" "0 < pid (processes m1 ! i)"
      using kill_overdue_pass(4) [OF ok pass] by (auto simp: in_set_conv_nth)
    then have "i < length (processes m2)" "0 < pid (processes m2 ! i)" using len by (auto, metis nth_map)
    from round_lowers_rank [OF ok pr 0(1) poll pass this] idle show False by blast
  qed
  with poll pass show ?case by (subst StopAll_loop.simps) simp
next
  case (Suc n)
  have stop: "stopping m" using Suc.prems by (auto simp: stopped_from_def split: prod.splits)
  obtain m1 w1 where poll: "Poll os (m, w) = Some (m1, w1)"
    using Poll_stopping_returns [OF ok pr stop] by blast
  obtain b m2 w2 where pass: "kill_overdue os (m1, w1) = (b, m2, w2)" by (metis prod_cases3)
  let ?w3 = "os_sleep_ms os 100 w2"
  have "stopped_from kids s0 (m2, ?w3)"
    using stopped_from_kids [OF kill_overdue_stopped_from [OF ok Poll_stopped_from [OF ok poll Suc.prems(1)] pass] os_okD(9) [OF ok]] .
  moreover have "\<forall>i<length (processes m2). 0 < pid (processes m2 ! i) \<longrightarrow> rank G B ?w3 (processes m2 ! i) < n"
    using round_lowers_rank [OF ok pr Suc.prems(1) poll pass] Suc.prems(2) by (meson less_Suc_eq_le order.strict_trans2)
  ultimately have "\<exists>s'. StopAll_loop os (m2, ?w3) = Some s'" by (rule Suc.IH)
  then show ?case using poll pass by (subst StopAll_loop.simps) auto
qed

lemma StopAll_start:
  assumes ok: "os_ok os kids" and inv: "pm_inv (kids w) m"
  obtains m1 w1 where
    "fold (\<lambda>i. StopOne os i ''stopping'' 0 True) [0..<length (processes m)] (m\<lparr>stopping := True\<rparr>, w) = (m1, w1)"
    "stopped_from kids (m, w) (m1, w1)" "StopAll os (m, w) = StopAll_loop os (m1, w1)"
proof -
  obtain m1 w1 where f: "fold (\<lambda>i. StopOne os i ''stopping'' 0 True) [0..<length (processes m)] (m\<lparr>stopping := True\<rparr>, w) = (m1, w1)"
    by fastforce
  have "stopped_from kids (m, w) (m\<lparr>stopping := True\<rparr>, w)"
    using inv by (simp add: stopped_from_def pm_inv_def)
  from StopOne_fold_stopped_from [OF ok this, of "[0..<length (processes m)]" "''stopping''" 0 True] f
  have "stopped_from kids (m, w) (m1, w1)" by simp
  with f that show ?thesis by (auto simp: StopAll_def)
qed

lemma StopAll_result:
  assumes "os_ok os kids" and "pm_inv (kids w) m" and "StopAll os (m, w) = Some (m', w')"
  shows "(\<forall>p\<in>set (processes m'). pid p = -1 \<and> state p \<in> {kStopped, kExited, kFailed}) \<and> stopping m' \<and>
    kids w' \<subseteq> kids w \<and> map restart_count (processes m') = map restart_count (processes m) \<and>
    map spec (processes m') = map spec (processes m)"
proof -
  obtain m1 w1 where s: "stopped_from kids (m, w) (m1, w1)" "StopAll os (m, w) = StopAll_loop os (m1, w1)"
    using StopAll_start [OF assms(1,2)] by blast
  from StopAll_loop_result [OF assms(1) _ s(1)] assms(3) s(2)
  have "stopped_from kids (m, w) (m', w')" "\<forall>p\<in>set (processes m'). pid p \<le> 0" by auto
  then show ?thesis by (force simp: stopped_from_def pm_inv_def proc_ok_def)
qed

subsection \<open>Properties\<close>

text \<open>C3: The shutdown returns, on a host on which a killed child ends within a bounded number of
  sleeps and the clock advances by what was slept: whatever the children do with SIGTERM, StopAll
  polls, kills what is overdue and sleeps only finitely often.\<close>

theorem StopAll_returns:
  assumes "os_ok os kids" and "os_progress os kids G B" and "pm_inv (kids w) m"
  shows "\<exists>m' w'. StopAll os (m, w) = Some (m', w')"
proof -
  obtain m1 w1 where s: "stopped_from kids (m, w) (m1, w1)" "StopAll os (m, w) = StopAll_loop os (m1, w1)"
    using StopAll_start [OF assms(1,3)] by blast
  let ?n = "Suc (\<Sum>i<length (processes m1). rank G B w1 (processes m1 ! i))"
  have "\<forall>i<length (processes m1). rank G B w1 (processes m1 ! i) < ?n"
    by (auto intro!: le_imp_less_Suc member_le_sum)
  with StopAll_loop_returns [OF assms(1,2) s(1), of ?n] s(2) show ?thesis by auto
qed

theorem StopAll_returns_witness:
  "\<exists>m' w'. StopAll (sim_host 3) (ProcessManager [default_ProcessSpec\<lparr>ps_command := ''/bin/web''\<rparr>],
     \<lparr>sim_clock = 0, sim_children = [], sim_plan = [Some (Alive True)]\<rparr>) = Some (m', w')"
  by (rule StopAll_returns [OF sim_host_ok sim_host_progress pm_inv_ProcessManager])

text \<open>C4: When StopAll returns, no managed process is alive and every one is in a final state, no
  child was created after the shutdown began, no process was restarted,.\<close>

theorem StopAll_safe:
  assumes "os_ok os kids" and "pm_inv (kids w) m" and "StopAll os (m, w) = Some (m', w')"
  shows "(\<forall>p\<in>set (processes m'). pid p = -1 \<and> state p \<in> {kStopped, kExited, kFailed}) \<and> stopping m' \<and>
    kids w' \<subseteq> kids w \<and> map restart_count (processes m') = map restart_count (processes m) \<and>
    map spec (processes m') = map spec (processes m)"
  by (rule StopAll_result [OF assms])

definition shutdown_demo :: "manager \<times> sim" where
  "shutdown_demo = (ProcessManager [] \<lparr>processes := [(new_ManagedProcess (default_ProcessSpec\<lparr>ps_command := ''/bin/web''\<rparr>))
     \<lparr>pid := 101, state := kRunning\<rparr>]\<rparr>, (sim_start [])\<lparr>sim_children := [(101, Alive False)]\<rparr>)"

lemma shutdown_demo_facts:
  "StopAll (sim_host 1) shutdown_demo \<noteq> None" "pm_inv (sim_kids (snd shutdown_demo)) (fst shutdown_demo)"
proof -
  show "StopAll (sim_host 1) shutdown_demo \<noteq> None" by code_simp
  show "pm_inv (sim_kids (snd shutdown_demo)) (fst shutdown_demo)"
    by (auto simp: shutdown_demo_def pm_inv_def proc_ok_def own_pids_def live_def sim_kids_def sim_start_def
        ProcessManager_def)
qed

theorem StopAll_safe_witness:
  "\<exists>m' w'. StopAll (sim_host 1) shutdown_demo = Some (m', w') \<and> (\<forall>p\<in>set (processes m'). pid p = -1)"
proof -
  obtain m w where mw: "shutdown_demo = (m, w)" by fastforce
  obtain m' w' where run: "StopAll (sim_host 1) (m, w) = Some (m', w')"
    using shutdown_demo_facts(1) mw by auto
  note inv = shutdown_demo_facts(2) [unfolded mw fst_conv snd_conv]
  from StopAll_safe [OF sim_host_ok inv run] run mw show ?thesis by auto
qed

end
