(* ===== verification/Launch_Manager.thy ===== *)
theory Launch_Manager
  imports Runtime_Registry Lifecycle Shutdown
begin

section \<open>The launch manager's main program (system/launch\_manager/main.cpp)\<close>

text \<open>
  The main loop and the transport's callbacks run in different threads. The callbacks update
  the registry, answer node queries, queue heartbeats, and queue the start and stop requests of
  service calls, which then wait for the loop to execute them and give up after three seconds.
  \<open>launch_step\<close> interleaves them: every section of the loop and every callback is one step. A
  service call is the record \<open>call\<close>: the promise the loop fulfils and the response the call
  returned. Publishing the process events is the manager's event callback (\<open>emitted\<close>).
\<close>

subsection \<open>Command line\<close>

record CliOptions =
  cli_stop :: bool
  cli_help :: bool
  cli_parse_error :: bool
  cli_launch_file :: string
  cli_pid_file :: string

fun ParseCli_loop :: "string list \<Rightarrow> CliOptions \<Rightarrow> CliOptions" where
  "ParseCli_loop [] options = options"
| "ParseCli_loop (arg # rest) options =
     (if arg = ''stop'' then ParseCli_loop rest (options\<lparr>cli_stop := True\<rparr>)
      else if arg = ''--help'' \<or> arg = ''-h'' then ParseCli_loop rest (options\<lparr>cli_help := True\<rparr>)
      else if arg = ''--launch'' \<and> rest \<noteq> [] then ParseCli_loop (tl rest) (options\<lparr>cli_launch_file := hd rest\<rparr>)
      else if arg = ''--pid-file'' \<and> rest \<noteq> [] then ParseCli_loop (tl rest) (options\<lparr>cli_pid_file := hd rest\<rparr>)
      else if arg \<noteq> [] \<and> hd arg \<noteq> CHR ''-'' then ParseCli_loop rest (options\<lparr>cli_launch_file := arg\<rparr>)
      else ParseCli_loop rest (options\<lparr>cli_help := True, cli_parse_error := True\<rparr>))"

text \<open>\<open>default_launch\<close> is what \<^verbatim>\<open>ResolveDefaultLaunchFile\<close> finds, \<open>default_pid\<close> the environment's pid file.\<close>

definition ParseCli :: "string \<Rightarrow> string \<Rightarrow> string list \<Rightarrow> CliOptions" where
  "ParseCli default_launch default_pid argv =
     ParseCli_loop (tl argv)
       \<lparr>cli_stop = False, cli_help = False, cli_parse_error = False, cli_launch_file = default_launch, cli_pid_file = default_pid\<rparr>"

subsection \<open>State\<close>

datatype request = Start_request StartProcessRequest | Stop_request StopProcessRequest

fun request_header :: "request \<Rightarrow> Header" where
  "request_header (Start_request r) = sr_header r"
| "request_header (Stop_request r) = tr_header r"

record call =
  call_request :: request
  call_timeout_response :: ProcessResponse
  call_promise :: "ProcessResponse option"
  call_returned :: "ProcessResponse option"

datatype phase = Start_configured | Take_commands | Run_batch | Take_heartbeats | Mark_batch | Poll_children | Finished

record 'w launch =
  lm_runtime :: RuntimeSpec
  lm_phase :: phase
  lm_manager :: manager
  lm_world :: 'w
  lm_registry :: "registry"
  lm_pending_heartbeats :: "string list"
  lm_heartbeats :: "string list"
  lm_calls :: "call list"
  lm_pending_commands :: "nat list"
  lm_commands :: "nat list"
  lm_service_sequence :: u64
  lm_query_sequence :: u64
  lm_answers :: "NodeQueryResponse list"

definition launch_init :: "LaunchConfig \<Rightarrow> 'w \<Rightarrow> 'w launch" where
  "launch_init config w =
     \<lparr>lm_runtime = lc_runtime config, lm_phase = Start_configured,
      lm_manager = SetEventCallback (ProcessManager (lc_processes config)), lm_world = w, lm_registry = [],
      lm_pending_heartbeats = [], lm_heartbeats = [], lm_calls = [], lm_pending_commands = [], lm_commands = [],
      lm_service_sequence = 0, lm_query_sequence = 0, lm_answers = []\<rparr>"

subsection \<open>Callbacks\<close>

definition on_node_info :: "'w os \<Rightarrow> NodeInfo \<Rightarrow> 'w launch \<Rightarrow> 'w launch" where
  "on_node_info os info s =
     (if ni_node_name info = [] then s
      else let (t, w) = os_unix_ns os (lm_world s)
           in s\<lparr>lm_registry := UpdateNodeInfo t info (lm_registry s), lm_world := w\<rparr>)"

definition on_heartbeat :: "'w os \<Rightarrow> NodeHeartbeat \<Rightarrow> 'w launch \<Rightarrow> 'w launch" where
  "on_heartbeat os heartbeat s =
     (let s = (if hb_node_name heartbeat = [] then s
               else let (t, w) = os_unix_ns os (lm_world s)
                    in s\<lparr>lm_registry := UpdateHeartbeat t heartbeat (lm_registry s), lm_world := w\<rparr>)
      in s\<lparr>lm_pending_heartbeats := lm_pending_heartbeats s @ [hb_node_name heartbeat]\<rparr>)"

definition on_query :: "'w os \<Rightarrow> NodeQuery \<Rightarrow> 'w launch \<Rightarrow> 'w launch" where
  "on_query os request s =
     (let nodes = Query (lm_registry s) request; (t, w) = os_unix_ns os (lm_world s) in
      s\<lparr>lm_world := w, lm_query_sequence := lm_query_sequence s + 1,
        lm_answers := lm_answers s @ [BuildNodeQueryResponse (lm_runtime s) request nodes (lm_query_sequence s) t]\<rparr>)"

definition timeout_response :: "RuntimeSpec \<Rightarrow> request \<Rightarrow> u64 \<Rightarrow> u64 \<Rightarrow> ProcessResponse" where
  "timeout_response runtime request sequence t =
     (case request of Start_request r \<Rightarrow> BuildStartTimeoutResponse runtime r sequence t
      | Stop_request r \<Rightarrow> BuildStopTimeoutResponse runtime r sequence t)"

text \<open>A service call queues its command and waits.\<close>

definition on_request :: "'w os \<Rightarrow> request \<Rightarrow> 'w launch \<Rightarrow> 'w launch" where
  "on_request os request s =
     (let (t, w) = os_unix_ns os (lm_world s);
          c = \<lparr>call_request = request,
               call_timeout_response = timeout_response (lm_runtime s) request (lm_service_sequence s) t,
               call_promise = None, call_returned = None\<rparr> in
      s\<lparr>lm_world := w, lm_service_sequence := lm_service_sequence s + 1, lm_calls := lm_calls s @ [c],
        lm_pending_commands := lm_pending_commands s @ [length (lm_calls s)]\<rparr>)"

definition set_call :: "nat \<Rightarrow> call \<Rightarrow> 'w launch \<Rightarrow> 'w launch" where
  "set_call k c s = s\<lparr>lm_calls := (lm_calls s)[k := c]\<rparr>"

text \<open>The end of the wait: the promise's value, or the timeout response.\<close>

definition return_call :: "call \<Rightarrow> call" where
  "return_call c = c\<lparr>call_returned := Some (case call_promise c of Some r \<Rightarrow> r | None \<Rightarrow> call_timeout_response c)\<rparr>"

definition fulfil_call :: "ProcessResponse \<Rightarrow> call \<Rightarrow> call" where
  "fulfil_call r c = c\<lparr>call_promise := Some r\<rparr>"

subsection \<open>The loop\<close>

definition execute :: "'w os \<Rightarrow> request \<Rightarrow> manager \<times> 'w \<Rightarrow> ProcessEvent \<times> manager \<times> 'w" where
  "execute os request mw =
     (case request of
        Start_request r \<Rightarrow> StartProcess os (ToLaunchProcessSpec (sr_process r)) mw
      | Stop_request r \<Rightarrow> StopProcess os (tr_name r) (sint (tr_process_id r)) (tr_timeout_ms r) mw)"

definition build_response :: "RuntimeSpec \<Rightarrow> request \<Rightarrow> ProcessEvent \<Rightarrow> u64 \<Rightarrow> u64 \<Rightarrow> ProcessResponse" where
  "build_response runtime request event sequence t =
     (case request of Start_request r \<Rightarrow> BuildStartProcessResponse runtime r event sequence t
      | Stop_request r \<Rightarrow> BuildStopProcessResponse runtime r event sequence t)"

definition run_command :: "'w os \<Rightarrow> nat \<Rightarrow> 'w launch \<Rightarrow> 'w launch" where
  "run_command os k s =
     (let c = lm_calls s ! k;
          (event, m, w) = execute os (call_request c) (lm_manager s, lm_world s);
          (t, w) = os_unix_ns os w;
          response = build_response (lm_runtime s) (call_request c) event (lm_service_sequence s) t in
      set_call k (fulfil_call response c)
        (s\<lparr>lm_manager := m, lm_world := w, lm_service_sequence := lm_service_sequence s + 1\<rparr>))"

definition main_step :: "'w os \<Rightarrow> 'w launch \<Rightarrow> 'w launch option" where
  "main_step os s =
     (case lm_phase s of
        Start_configured \<Rightarrow>
          let (_, m, w) = StartAll os (lm_manager s, lm_world s)
          in Some (s\<lparr>lm_manager := m, lm_world := w, lm_phase := Take_commands\<rparr>)
      | Take_commands \<Rightarrow>
          Some (s\<lparr>lm_commands := lm_pending_commands s, lm_pending_commands := [], lm_phase := Run_batch\<rparr>)
      | Run_batch \<Rightarrow>
          (case lm_commands s of [] \<Rightarrow> Some (s\<lparr>lm_phase := Take_heartbeats\<rparr>)
           | k # ks \<Rightarrow> Some ((run_command os k s)\<lparr>lm_commands := ks\<rparr>))
      | Take_heartbeats \<Rightarrow>
          Some (s\<lparr>lm_heartbeats := lm_pending_heartbeats s, lm_pending_heartbeats := [], lm_phase := Mark_batch\<rparr>)
      | Mark_batch \<Rightarrow>
          (case lm_heartbeats s of [] \<Rightarrow> Some (s\<lparr>lm_phase := Poll_children\<rparr>)
           | n # ns \<Rightarrow>
               let (_, m, w) = MarkHeartbeat os n (lm_manager s, lm_world s)
               in Some (s\<lparr>lm_manager := m, lm_world := w, lm_heartbeats := ns\<rparr>))
      | Poll_children \<Rightarrow>
          (case Poll os (lm_manager s, lm_world s) of None \<Rightarrow> None
           | Some (m, w) \<Rightarrow> Some (s\<lparr>lm_manager := m, lm_world := os_sleep_ms os 200 w, lm_phase := Take_commands\<rparr>))
      | Finished \<Rightarrow> None)"

definition main_stop :: "'w os \<Rightarrow> 'w launch \<Rightarrow> 'w launch option" where
  "main_stop os s =
     (case StopAll os (lm_manager s, lm_world s) of None \<Rightarrow> None
      | Some (m, w) \<Rightarrow> Some (s\<lparr>lm_manager := m, lm_world := w, lm_phase := Finished\<rparr>))"

inductive launch_step :: "'w os \<Rightarrow> 'w launch \<Rightarrow> 'w launch \<Rightarrow> bool" for os where
  node_info: "launch_step os s (on_node_info os info s)"
| node_heartbeat: "launch_step os s (on_heartbeat os heartbeat s)"
| node_query: "launch_step os s (on_query os query s)"
| service_call: "launch_step os s (on_request os req s)"
| call_returns: "k < length (lm_calls s) \<Longrightarrow> call_returned (lm_calls s ! k) = None \<Longrightarrow>
    launch_step os s (set_call k (return_call (lm_calls s ! k)) s)"
| main: "main_step os s = Some s' \<Longrightarrow> launch_step os s s'"
| signalled: "lm_phase s = Take_commands \<Longrightarrow> main_stop os s = Some s' \<Longrightarrow> launch_step os s s'"

inductive launch_reachable :: "'w os \<Rightarrow> LaunchConfig \<Rightarrow> 'w \<Rightarrow> 'w launch \<Rightarrow> bool" for os config w where
  init: "launch_reachable os config w (launch_init config w)"
| step: "launch_reachable os config w s \<Longrightarrow> launch_step os s s' \<Longrightarrow> launch_reachable os config w s'"

subsection \<open>The process manager inside the program\<close>

definition clock_read :: "'w os \<Rightarrow> 'w \<Rightarrow> 'w \<Rightarrow> bool" where
  "clock_read os w w' \<longleftrightarrow> w' = w \<or> (\<exists>t. os_unix_ns os w = (t, w'))"

lemma callback_frame:
  "lm_manager (on_node_info os info s) = lm_manager s" "lm_phase (on_node_info os info s) = lm_phase s"
  "clock_read os (lm_world s) (lm_world (on_node_info os info s))"
  "lm_manager (on_heartbeat os hb s) = lm_manager s" "lm_phase (on_heartbeat os hb s) = lm_phase s"
  "clock_read os (lm_world s) (lm_world (on_heartbeat os hb s))"
  "lm_manager (on_query os q s) = lm_manager s" "lm_phase (on_query os q s) = lm_phase s"
  "clock_read os (lm_world s) (lm_world (on_query os q s))"
  "lm_manager (on_request os req s) = lm_manager s" "lm_phase (on_request os req s) = lm_phase s"
  "clock_read os (lm_world s) (lm_world (on_request os req s))"
  by (auto simp: on_node_info_def on_heartbeat_def on_query_def on_request_def clock_read_def Let_def
      split: prod.splits)

lemma set_call_frame [simp]:
  "lm_manager (set_call k c s) = lm_manager s" "lm_phase (set_call k c s) = lm_phase s"
  "lm_world (set_call k c s) = lm_world s" "lm_commands (set_call k c s) = lm_commands s"
  "lm_pending_commands (set_call k c s) = lm_pending_commands s" "lm_calls (set_call k c s) = (lm_calls s)[k := c]"
  "lm_runtime (set_call k c s) = lm_runtime s"
  by (simp_all add: set_call_def)

lemma launch_step_kinds:
  assumes "launch_step os s s'"
  obtains (callback) "lm_manager s' = lm_manager s" "lm_phase s' = lm_phase s" "clock_read os (lm_world s) (lm_world s')"
  | (main) "main_step os s = Some s'"
  | (signalled) "lm_phase s = Take_commands" "main_stop os s = Some s'"
  using assms
proof (cases rule: launch_step.cases)
  case (call_returns k)
  then show ?thesis using callback by (simp add: clock_read_def)
next
  case (node_info info)
  show ?thesis by (rule callback) (simp_all only: node_info callback_frame)
next
  case (node_heartbeat heartbeat)
  show ?thesis by (rule callback) (simp_all only: node_heartbeat callback_frame)
next
  case (node_query query)
  show ?thesis by (rule callback) (simp_all only: node_query callback_frame)
next
  case (service_call req)
  show ?thesis by (rule callback) (simp_all only: service_call callback_frame)
qed (rule main signalled, assumption+)+

context requested
begin

lemma clock_read_keeps: "I m w \<Longrightarrow> clock_read os w w' \<Longrightarrow> I m w'"
  using unix by (auto simp: clock_read_def)

lemma run_command_keeps:
  assumes "I (lm_manager s) (lm_world s)"
  shows "I (lm_manager (run_command os k s)) (lm_world (run_command os k s))"
proof -
  obtain event m w where e: "execute os (call_request (lm_calls s ! k)) (lm_manager s, lm_world s) = (event, m, w)"
    by (metis prod_cases3)
  obtain t w' where t: "os_unix_ns os w = (t, w')" by fastforce
  have "I m w"
    using e assms StartProcess_keeps StopProcess_keeps
    by (cases "call_request (lm_calls s ! k)") (auto simp: execute_def)
  then have "I m w'" using unix t by blast
  with e t show ?thesis by (simp add: run_command_def Let_def)
qed

lemma main_step_keeps:
  assumes "main_step os s = Some s'" "I (lm_manager s) (lm_world s)"
  shows "I (lm_manager s') (lm_world s')"
proof (cases "lm_phase s")
  case Start_configured
  with assms StartAll_keeps show ?thesis
    by (cases "StartAll os (lm_manager s, lm_world s)") (auto simp: main_step_def)
next
  case Run_batch
  with assms run_command_keeps show ?thesis
    by (cases "lm_commands s") (auto simp: main_step_def)
next
  case Mark_batch
  show ?thesis
  proof (cases "lm_heartbeats s")
    case Nil with Mark_batch assms show ?thesis by (auto simp: main_step_def)
  next
    case (Cons n ns)
    with Mark_batch assms MarkHeartbeat_keeps show ?thesis
      by (cases "MarkHeartbeat os n (lm_manager s, lm_world s)") (auto simp: main_step_def)
  qed
next
  case Poll_children
  with assms Poll_keeps sleep show ?thesis
    by (auto simp: main_step_def split: option.splits)
qed (use assms in \<open>auto simp: main_step_def\<close>)

lemma launch_step_keeps:
  assumes "launch_step os s s'" "lm_phase s \<noteq> Finished \<longrightarrow> I (lm_manager s) (lm_world s)"
  shows "lm_phase s' \<noteq> Finished \<longrightarrow> I (lm_manager s') (lm_world s')"
  using assms
proof (cases rule: launch_step_kinds)
  case callback
  with assms(2) clock_read_keeps [of "lm_manager s" "lm_world s" "lm_world s'"] show ?thesis by simp
next
  case main
  then have "lm_phase s \<noteq> Finished" by (auto simp: main_step_def)
  with main main_step_keeps assms(2) show ?thesis by blast
next
  case signalled
  then show ?thesis by (auto simp: main_stop_def split: option.splits)
qed

lemma launch_reachable_keeps:
  assumes "launch_reachable os config w s" "I (SetEventCallback (ProcessManager (lc_processes config))) w"
  shows "lm_phase s \<noteq> Finished \<longrightarrow> I (lm_manager s) (lm_world s)"
  using assms by (induction rule: launch_reachable.induct) (auto simp: launch_init_def dest: launch_step_keeps)

end

lemma launch_finished_clean:
  assumes ok: "os_ok os kids" and "launch_reachable os config w s" "lm_phase s = Finished"
  shows "\<forall>p\<in>set (processes (lm_manager s)). pid p = -1 \<and> state p \<in> {kStopped, kExited, kFailed}"
  using assms(2,3)
proof (induction rule: launch_reachable.induct)
  case init
  then show ?case by (simp add: launch_init_def)
next
  case (step s s')
  have before: "lm_phase s \<noteq> Finished \<longrightarrow> pm_inv (kids (lm_world s)) (lm_manager s)"
    using pm.launch_reachable_keeps [OF step.hyps(1), of kids] ok fresh_manager_inv
    by (simp add: fresh_manager_def)
  from step.hyps(2) show ?case
  proof (cases rule: launch_step_kinds)
    case callback
    with step show ?thesis by simp
  next
    case main
    with step.prems show ?thesis
      by (auto simp: main_step_def run_command_def Let_def split: phase.splits list.splits option.splits prod.splits)
  next
    case signalled
    then obtain m w1 where "StopAll os (lm_manager s, lm_world s) = Some (m, w1)" "lm_manager s' = m"
      by (auto simp: main_stop_def split: option.splits)
    with StopAll_result [OF ok _ this(1)] before signalled show ?thesis by simp
  qed
qed

subsection \<open>The command queue\<close>

definition queue_ok :: "nat \<Rightarrow> 'w launch \<Rightarrow> bool" where
  "queue_ok n s \<longleftrightarrow> n \<le> length (lm_calls s) \<and> lm_commands s @ lm_pending_commands s = [n..<length (lm_calls s)] \<and>
     (\<forall>k<length (lm_calls s). call_promise (lm_calls s ! k) = None \<longleftrightarrow> n \<le> k) \<and>
     (lm_phase s \<noteq> Run_batch \<longrightarrow> lm_commands s = [])"

lemma callback_queue:
  "lm_calls (on_node_info os info s) = lm_calls s" "lm_commands (on_node_info os info s) = lm_commands s"
  "lm_pending_commands (on_node_info os info s) = lm_pending_commands s"
  "lm_calls (on_heartbeat os hb s) = lm_calls s" "lm_commands (on_heartbeat os hb s) = lm_commands s"
  "lm_pending_commands (on_heartbeat os hb s) = lm_pending_commands s"
  "lm_calls (on_query os q s) = lm_calls s" "lm_commands (on_query os q s) = lm_commands s"
  "lm_pending_commands (on_query os q s) = lm_pending_commands s"
  by (simp_all add: on_node_info_def on_heartbeat_def on_query_def Let_def split: prod.splits)

lemma upt_eq_Cons: "k # ks = [a..<b] \<Longrightarrow> k = a \<and> ks = [Suc a..<b] \<and> a < b"
  by (cases "a < b") (auto simp: upt_conv_Cons)

lemma run_command_calls:
  "\<exists>r m w. lm_calls (run_command os k s) = (lm_calls s)[k := fulfil_call r (lm_calls s ! k)] \<and>
     lm_pending_commands (run_command os k s) = lm_pending_commands s \<and> lm_phase (run_command os k s) = lm_phase s \<and>
     lm_runtime (run_command os k s) = lm_runtime s \<and>
     (\<exists>event sequence t. r = build_response (lm_runtime s) (call_request (lm_calls s ! k)) event sequence t)"
  by (auto simp: run_command_def Let_def split: prod.splits)

lemma main_step_queue:
  assumes run: "main_step os s = Some s'" and ok: "queue_ok n s"
  shows "\<exists>n'\<ge>n. queue_ok n' s'"
proof (cases "lm_phase s = Run_batch \<and> lm_commands s \<noteq> []")
  case True
  then obtain k ks where cmd: "lm_commands s = k # ks" by (cases "lm_commands s") auto
  with ok have "k # (ks @ lm_pending_commands s) = [n..<length (lm_calls s)]" by (simp add: queue_ok_def)
  note q = upt_eq_Cons [OF this]
  have s': "s' = (run_command os k s)\<lparr>lm_commands := ks\<rparr>"
    using run True cmd by (simp add: main_step_def)
  have "queue_ok (Suc n) s'"
    using run_command_calls [of os k s] q ok True
    by (auto simp: queue_ok_def s' nth_list_update fulfil_call_def Suc_le_eq le_less split: if_splits)
  then show ?thesis by (meson le_SucI order_refl)
next
  case False
  with run ok have "queue_ok n s'"
    by (auto simp: queue_ok_def main_step_def Let_def split: phase.splits list.splits option.splits prod.splits)
  then show ?thesis by blast
qed

lemma return_call_fields [simp]:
  "call_promise (return_call c) = call_promise c" "call_request (return_call c) = call_request c"
  "call_timeout_response (return_call c) = call_timeout_response c"
  "call_returned (return_call c) = Some (case call_promise c of Some r \<Rightarrow> r | None \<Rightarrow> call_timeout_response c)"
  by (simp_all add: return_call_def)

lemma launch_step_queue:
  assumes "launch_step os s s'" and ok: "queue_ok n s"
  shows "\<exists>n'\<ge>n. queue_ok n' s'"
  using assms(1)
proof (cases rule: launch_step.cases)
  case (service_call req)
  with ok have "queue_ok n s'"
    by (auto simp: queue_ok_def on_request_def Let_def nth_append less_Suc_eq split: prod.splits)
  then show ?thesis by blast
next
  case (call_returns k)
  with ok have "queue_ok n s'" by (auto simp: queue_ok_def nth_list_update)
  then show ?thesis by blast
next
  case main
  from main_step_queue [OF this ok] show ?thesis .
next
  case signalled
  with ok have "queue_ok n s'" by (auto simp: queue_ok_def main_stop_def split: option.splits)
  then show ?thesis by blast
next
  case (node_info info)
  with ok have "queue_ok n s'" by (simp add: queue_ok_def callback_queue callback_frame)
  then show ?thesis by blast
next
  case (node_heartbeat heartbeat)
  with ok have "queue_ok n s'" by (simp add: queue_ok_def callback_queue callback_frame)
  then show ?thesis by blast
next
  case (node_query query)
  with ok have "queue_ok n s'" by (simp add: queue_ok_def callback_queue callback_frame)
  then show ?thesis by blast
qed

subsection \<open>Responses\<close>

definition echoes :: "request \<Rightarrow> ProcessResponse \<Rightarrow> bool" where
  "echoes req r \<longleftrightarrow> h_request_id (rs_header r) = h_request_id (request_header req) \<and>
     h_trace_id (rs_header r) = h_trace_id (request_header req)"

definition call_ok :: "call \<Rightarrow> bool" where
  "call_ok c \<longleftrightarrow> echoes (call_request c) (call_timeout_response c) \<and> st_code (rs_status (call_timeout_response c)) = 1 \<and>
     st_message (rs_status (call_timeout_response c)) = ''runtime command timeout'' \<and>
     (\<forall>r. call_promise c = Some r \<longrightarrow> echoes (call_request c) r) \<and>
     (\<forall>r. call_returned c = Some r \<longrightarrow> r = call_timeout_response c \<or> call_promise c = Some r)"

lemma responses_echo:
  "echoes req (timeout_response runtime req sequence t)" "st_code (rs_status (timeout_response runtime req sequence t)) = 1"
  "st_message (rs_status (timeout_response runtime req sequence t)) = ''runtime command timeout''"
  "echoes req (build_response runtime req event sequence t)"
  by (cases req; simp add: echoes_def timeout_response_def build_response_def FillHeader_def FillStatus_def
      BuildStartTimeoutResponse_def BuildStopTimeoutResponse_def BuildStartProcessResponse_def BuildStopProcessResponse_def)+

lemma fulfil_call_ok: "call_ok c \<Longrightarrow> call_promise c = None \<Longrightarrow> echoes (call_request c) r \<Longrightarrow> call_ok (fulfil_call r c)"
  by (simp add: call_ok_def fulfil_call_def)

lemma return_call_ok: "call_ok c \<Longrightarrow> call_ok (return_call c)"
  by (auto simp: call_ok_def split: option.splits)

lemma calls_update:
  "\<forall>c\<in>set cs. call_ok c \<Longrightarrow> call_ok c' \<Longrightarrow> \<forall>c\<in>set (cs[k := c']). call_ok c"
  using set_update_subset_insert [of cs k c'] by auto

lemma launch_step_calls:
  assumes step: "launch_step os s s'" and ok: "\<forall>c\<in>set (lm_calls s). call_ok c" and q: "queue_ok n s"
  shows "\<forall>c\<in>set (lm_calls s'). call_ok c"
  using step
proof (cases rule: launch_step.cases)
  case (service_call req)
  with ok responses_echo show ?thesis
    by (auto simp: on_request_def Let_def call_ok_def split: prod.splits)
next
  case (call_returns k)
  have "call_ok (return_call (lm_calls s ! k))" using ok call_returns(2) by (intro return_call_ok) simp
  from calls_update [OF ok this] call_returns(1) show ?thesis by simp
next
  case main
  show ?thesis
  proof (cases "lm_phase s = Run_batch \<and> lm_commands s \<noteq> []")
    case True
    then obtain k ks where cmd: "lm_commands s = k # ks" by (cases "lm_commands s") auto
    with q have "k # (ks @ lm_pending_commands s) = [n..<length (lm_calls s)]" by (simp add: queue_ok_def)
    note k = upt_eq_Cons [OF this]
    then have "call_promise (lm_calls s ! k) = None" "call_ok (lm_calls s ! k)" using q ok by (auto simp: queue_ok_def)
    then have "call_ok (fulfil_call (build_response rt (call_request (lm_calls s ! k)) e sq t) (lm_calls s ! k))" for rt e sq t
      using fulfil_call_ok responses_echo(4) by blast
    moreover have "s' = (run_command os k s)\<lparr>lm_commands := ks\<rparr>"
      using main True cmd by (simp add: main_step_def)
    ultimately show ?thesis using run_command_calls [of os k s] calls_update [OF ok] by fastforce
  next
    case False
    with main ok show ?thesis
      by (auto simp: main_step_def Let_def split: phase.splits list.splits option.splits prod.splits)
  qed
next
  case signalled
  with ok show ?thesis by (auto simp: main_stop_def split: option.splits)
qed (simp_all add: ok callback_queue)

lemma launch_reachable_calls:
  assumes "launch_reachable os config w s"
  shows "\<exists>n. queue_ok n s \<and> (\<forall>c\<in>set (lm_calls s). call_ok c)"
  using assms
proof (induction rule: launch_reachable.induct)
  case init
  show ?case by (auto simp: launch_init_def queue_ok_def)
next
  case (step s s')
  then obtain n where n: "queue_ok n s" "\<forall>c\<in>set (lm_calls s). call_ok c" by blast
  from launch_step_queue [OF step.hyps(2) n(1)] launch_step_calls [OF step.hyps(2) n(2,1)] show ?case by blast
qed

subsection \<open>Properties\<close>

text \<open>However the transport's callbacks interleave with the loop, the supervised processes stay
  consistent: while the program runs, live entries have distinct pids that are unreaped children, and
  the published events of each process are a walk of its lifecycle to its current state; once it has
  finished after a signal, no process it manages is alive.\<close>

theorem launch_manager_supervises:
  assumes "os_ok os kids" and "launch_reachable os config w s"
    and "distinct (map ps_name (lc_processes config))"
  shows "if lm_phase s = Finished then \<forall>p\<in>set (processes (lm_manager s)). pid p = -1
    else pm_inv (kids (lm_world s)) (lm_manager s) \<and>
      (\<forall>p\<in>set (processes (lm_manager s)).
         walk kStopped (states_reported (ps_name (spec p)) (lm_manager s)) (state p))"
proof (cases "lm_phase s = Finished")
  case True
  with launch_finished_clean [OF assms(1,2)] show ?thesis by simp
next
  case False
  have "traced (fresh_manager (lc_processes config))" by (rule fresh_manager_traced [OF assms(3)])
  then have "pm_inv (kids (lm_world s)) (lm_manager s) \<and> traced (lm_manager s)"
    using trace.launch_reachable_keeps [OF assms(2), of kids] assms(1) False fresh_manager_inv
    by (simp add: fresh_manager_def)
  with False show ?thesis by (auto simp: traced_def name_of_def in_set_conv_nth)
qed

definition demo_config :: LaunchConfig where
  "demo_config = \<lparr>lc_runtime = default_RuntimeSpec, lc_processes = [demo_spec]\<rparr>"

text \<open>A run: start the configured process, take the commands, stop on a signal.\<close>

lemma demo_launch_reachable:
  "\<exists>s :: sim launch. launch_reachable (sim_host 1) demo_config demo_world s \<and> lm_phase s = Finished \<and>
     length (processes (lm_manager s)) = 1"
proof -
  let ?s0 = "launch_init demo_config demo_world :: sim launch"
  have "\<exists>s1. main_step (sim_host 1) ?s0 = Some s1 \<and> lm_phase s1 = Take_commands \<and>
      (lm_manager s1, lm_world s1) = demo_managers"
    by (auto simp: main_step_def launch_init_def demo_managers_def demo_config_def fresh_manager_def split: prod.splits)
  then obtain s1 where s1: "main_step (sim_host 1) ?s0 = Some s1" "lm_phase s1 = Take_commands"
    "(lm_manager s1, lm_world s1) = demo_managers" by blast
  have "case StopAll (sim_host 1) demo_managers of None \<Rightarrow> False | Some (m, w) \<Rightarrow> length (processes m) = 1" by code_simp
  then obtain m w where m: "StopAll (sim_host 1) (lm_manager s1, lm_world s1) = Some (m, w)" "length (processes m) = 1"
    unfolding s1(3) by (auto split: option.splits)
  let ?s2 = "s1\<lparr>lm_manager := m, lm_world := w, lm_phase := Finished\<rparr>"
  have "main_stop (sim_host 1) s1 = Some ?s2" using m by (simp add: main_stop_def)
  then have "launch_reachable (sim_host 1) demo_config demo_world ?s2"
    using s1 by (intro launch_reachable.step [OF launch_reachable.step [OF launch_reachable.init]]
        launch_step.main launch_step.signalled)
  with m show ?thesis by (intro exI [of _ ?s2]) simp
qed

theorem launch_manager_supervises_witness:
  "\<exists>s :: sim launch. launch_reachable (sim_host 1) demo_config demo_world s \<and> lm_phase s = Finished \<and>
     length (processes (lm_manager s)) = 1 \<and> pid (processes (lm_manager s) ! 0) = -1"
proof -
  obtain s :: "sim launch" where s: "launch_reachable (sim_host 1) demo_config demo_world s"
    "lm_phase s = Finished" "length (processes (lm_manager s)) = 1"
    using demo_launch_reachable by blast
  have "distinct (map ps_name (lc_processes demo_config))" by (simp add: demo_config_def)
  from launch_manager_supervises [OF sim_host_ok s(1) this] s show ?thesis by fastforce
qed

text \<open>C8: The loop executes the requests of the service calls in the order they were made, each at most
  once: at every moment the calls whose promise is fulfilled are the first \<open>n\<close> ones, and the rest are
  waiting, in order, in the batch being executed followed by the queue.\<close>

theorem requests_executed_in_order:
  assumes "launch_reachable os config w s"
  shows "\<exists>n\<le>length (lm_calls s). lm_commands s @ lm_pending_commands s = [n..<length (lm_calls s)] \<and>
    (\<forall>k<length (lm_calls s). call_promise (lm_calls s ! k) \<noteq> None \<longleftrightarrow> k < n)"
proof -
  obtain n where "queue_ok n s" using launch_reachable_calls [OF assms] by blast
  then show ?thesis by (intro exI [of _ n]) (auto simp: queue_ok_def)
qed

definition demo_stop_request :: request where
  "demo_stop_request = Stop_request \<lparr>tr_header = FillHeader default_RuntimeSpec None 0 0, tr_name = ''web'',
     tr_process_id = 0, tr_timeout_ms = 0\<rparr>"

text \<open>A service call that gives up before the loop has executed it.\<close>

definition demo_called :: "sim launch" where
  "demo_called = on_request (sim_host 1) demo_stop_request (launch_init demo_config demo_world)"

definition demo_given_up :: "sim launch" where
  "demo_given_up = set_call 0 (return_call (lm_calls demo_called ! 0)) demo_called"

lemma demo_calls_reachable:
  "launch_reachable (sim_host 1) demo_config demo_world demo_called"
  "launch_reachable (sim_host 1) demo_config demo_world demo_given_up"
  "length (lm_calls demo_called) = 1" "lm_calls demo_given_up = [return_call (lm_calls demo_called ! 0)]"
  "call_promise (lm_calls demo_called ! 0) = None"
proof -
  show 1: "launch_reachable (sim_host 1) demo_config demo_world demo_called"
    unfolding demo_called_def by (intro launch_reachable.step [OF launch_reachable.init] service_call)
  have calls: "length (lm_calls demo_called) = 1" "call_returned (lm_calls demo_called ! 0) = None"
    "call_promise (lm_calls demo_called ! 0) = None"
    by (simp_all add: demo_called_def on_request_def launch_init_def)
  then show "length (lm_calls demo_called) = 1" "call_promise (lm_calls demo_called ! 0) = None" by simp_all
  show "launch_reachable (sim_host 1) demo_config demo_world demo_given_up"
    unfolding demo_given_up_def using calls by (intro launch_reachable.step [OF 1] call_returns) auto
  show "lm_calls demo_given_up = [return_call (lm_calls demo_called ! 0)]"
    using calls(1) by (cases "lm_calls demo_called") (simp_all add: demo_given_up_def)
qed

theorem requests_executed_in_order_witness:
  "lm_commands demo_called @ lm_pending_commands demo_called = [0]"
  using requests_executed_in_order [OF demo_calls_reachable(1)] demo_calls_reachable(3,5)
  by (auto simp: le_Suc_eq)

text \<open>C9: Every service call gets the request and trace id of its request back, and what it gets is either
  the outcome of executing its own request or, after the timeout, a response with an error status: a
  response that reports success is always the outcome of an execution.\<close>

theorem responses_belong_to_calls:
  assumes "launch_reachable os config w s" and "c \<in> set (lm_calls s)" and "call_returned c = Some r"
  shows "h_request_id (rs_header r) = h_request_id (request_header (call_request c)) \<and>
    h_trace_id (rs_header r) = h_trace_id (request_header (call_request c)) \<and>
    (call_promise c = Some r \<or> st_code (rs_status r) = 1 \<and> st_message (rs_status r) = ''runtime command timeout'')"
proof -
  have "call_ok c" using launch_reachable_calls [OF assms(1)] assms(2) by blast
  then show ?thesis using assms(3) by (auto simp: call_ok_def echoes_def)
qed

theorem responses_belong_to_calls_witness:
  "\<exists>r. call_returned (lm_calls demo_given_up ! 0) = Some r \<and> st_code (rs_status r) = 1"
proof -
  let ?c = "return_call (lm_calls demo_called ! 0)"
  have c: "?c \<in> set (lm_calls demo_given_up)" "call_returned ?c = Some (call_timeout_response (lm_calls demo_called ! 0))"
    "call_promise ?c = None"
    using demo_calls_reachable(4,5) by simp_all
  from responses_belong_to_calls [OF demo_calls_reachable(2) c(1,2)] c demo_calls_reachable(4) show ?thesis by auto
qed

end
