(* ===== verification/Text_Input.thy ===== *)
theory Text_Input
  imports Prelude
begin

section \<open>Reading text\<close>

text \<open>
  What the programs use of the standard library to read text: lines, words and numbers of an input stream, and \<^verbatim>\<open>strtol\<close>.
  A stream is the text that is left of it; \<open>None\<close> in its place says that it has failed.
\<close>

text \<open>The lines that \<^verbatim>\<open>std::getline\<close> gives: a line break ends a line, an unfinished last line counts unless it is empty.\<close>

function getlines :: "string \<Rightarrow> string list" where
  "getlines s =
     (if s = [] then []
      else takeWhile (\<lambda>c. c \<noteq> CHR 0x0A) s # getlines (drop 1 (dropWhile (\<lambda>c. c \<noteq> CHR 0x0A) s)))"
  by auto
termination
  by (relation "measure length") (auto simp: neq_Nil_conv intro!: le_imp_less_Suc order_trans [OF diff_le_self length_dropWhile_le])

declare getlines.simps [simp del]

definition is_space :: "char \<Rightarrow> bool" where
  "is_space c \<longleftrightarrow> c = CHR '' '' \<or> 9 \<le> (of_char c :: nat) \<and> (of_char c :: nat) \<le> 13"

text \<open>
  \<^verbatim>\<open>strtol\<close> in base ten: white space, a sign, digits; the result saturates at the ends of \<^verbatim>\<open>long\<close>.
\<close>

definition strtol :: "string \<Rightarrow> int" where
  "strtol s =
     (let t = dropWhile is_space s;
          (negative, u) = (case t of [] \<Rightarrow> (False, t) | c # r \<Rightarrow> if c = CHR ''-'' then (True, r) else if c = CHR ''+'' then (False, r) else (False, t));
          n = int (read_nat (takeWhile is_digit u)) in
      if negative then max (- (2 ^ 63)) (- n) else min (2 ^ 63 - 1) n)"

text \<open>Extraction of a word, and of an unsigned 64-bit number: the value stored and the stream left, which has failed without a digit or on an overflow.\<close>

definition get_token :: "string \<Rightarrow> (string \<times> string) option" where
  "get_token s =
     (let t = dropWhile is_space s in
      if t = [] then None else Some (takeWhile (\<lambda>c. \<not> is_space c) t, dropWhile (\<lambda>c. \<not> is_space c) t))"

definition get_u64 :: "string \<Rightarrow> u64 \<times> string option" where
  "get_u64 s =
     (let t = dropWhile is_space s;
          (negative, u) = (case t of [] \<Rightarrow> (False, t) | c # r \<Rightarrow> if c = CHR ''-'' then (True, r) else if c = CHR ''+'' then (False, r) else (False, t));
          digits = takeWhile is_digit u; n = read_nat digits in
      if digits = [] then (0, None)
      else if 2 ^ 64 \<le> n then (- 1, None)
      else (if negative then - of_nat n else of_nat n, Some (dropWhile is_digit u)))"

text \<open>A chain of extractions into variables that are zero: once the stream has failed, the later ones keep that value.\<close>

fun get_u64s :: "nat \<Rightarrow> string \<Rightarrow> u64 list" where
  "get_u64s 0 s = []"
| "get_u64s (Suc n) s = (case get_u64 s of (v, None) \<Rightarrow> v # replicate n 0 | (v, Some s) \<Rightarrow> v # get_u64s n s)"

subsection \<open>Facts\<close>

lemma get_u64s_numeral [simp]:
  "get_u64s (numeral k) s = (case get_u64 s of (v, None) \<Rightarrow> v # replicate (pred_numeral k) 0 | (v, Some s) \<Rightarrow> v # get_u64s (pred_numeral k) s)"
  by (simp add: numeral_eq_Suc)

definition word_text :: "string \<Rightarrow> bool" where
  "word_text w \<longleftrightarrow> w \<noteq> [] \<and> list_all (\<lambda>c. \<not> is_space c) w"

definition space_text :: "string \<Rightarrow> bool" where
  "space_text w \<longleftrightarrow> w \<noteq> [] \<and> list_all is_space w"

lemma takeWhile_all: "list_all P xs \<Longrightarrow> ys = [] \<or> \<not> P (hd ys) \<Longrightarrow> takeWhile P (xs @ ys) = xs"
  by (induction xs) (cases ys; auto)+

lemma dropWhile_all: "list_all P xs \<Longrightarrow> ys = [] \<or> \<not> P (hd ys) \<Longrightarrow> dropWhile P (xs @ ys) = ys"
  by (induction xs) (cases ys; auto)+

lemma get_token_shorter: "get_token s = Some (w, r) \<Longrightarrow> length r < length s"
proof -
  assume a: "get_token s = Some (w, r)"
  let ?t = "dropWhile is_space s"
  have t: "?t \<noteq> []" "r = dropWhile (\<lambda>c. \<not> is_space c) ?t" using a by (auto simp: get_token_def Let_def split: if_splits)
  have "\<not> is_space (hd ?t)" using t(1) by (rule hd_dropWhile)
  then have "length r < length ?t" using t
    by (cases ?t) (auto intro: le_imp_less_Suc length_dropWhile_le)
  also have "\<dots> \<le> length s" by (rule length_dropWhile_le)
  finally show ?thesis .
qed

lemma get_u64_shorter: "get_u64 s = (v, Some r) \<Longrightarrow> length r \<le> length s"
proof -
  assume a: "get_u64 s = (v, Some r)"
  let ?t = "dropWhile is_space s"
  have "\<exists>u. length u \<le> length ?t \<and> r = dropWhile is_digit u"
    using a by (cases ?t) (auto simp: get_u64_def Let_def split: if_splits prod.splits intro: le_SucI)
  then show ?thesis by (metis length_dropWhile_le order_trans)
qed

text \<open>Words and printed numbers are read back, past the white space before them.\<close>

lemma get_token_word: "list_all is_space gap \<Longrightarrow> word_text w \<Longrightarrow> r = [] \<or> is_space (hd r) \<Longrightarrow> get_token (gap @ w @ r) = Some (w, r)"
proof -
  assume gap: "list_all is_space gap" and w: "word_text w" and r: "r = [] \<or> is_space (hd r)"
  have "dropWhile is_space (gap @ (w @ r)) = w @ r"
    using gap w by (intro dropWhile_all) (cases w; simp add: word_text_def)+
  with w r show ?thesis
    by (simp add: get_token_def Let_def word_text_def takeWhile_all dropWhile_all)
qed

lemma digit_not_sign: "is_digit c \<Longrightarrow> c \<noteq> CHR ''-'' \<and> c \<noteq> CHR ''+'' \<and> \<not> is_space c"
  by (auto simp: is_digit_code is_space_def)

lemma get_u64_number:
  assumes gap: "list_all is_space gap" and n: "n < 2 ^ 64" and r: "r = [] \<or> is_space (hd r)"
  shows "get_u64 (gap @ to_string_nat n @ r) = (of_nat n, Some r)"
proof -
  have digits: "list_all is_digit (to_string_nat n)" using to_string_nat_digits by (simp add: list_all_iff)
  obtain c w where w: "to_string_nat n = c # w" by (cases "to_string_nat n") auto
  with digits have c: "is_digit c" by simp
  have drop: "dropWhile is_space (gap @ (to_string_nat n @ r)) = to_string_nat n @ r"
    using gap w digit_not_sign [OF c] by (intro dropWhile_all) auto
  have "r = [] \<or> \<not> is_digit (hd r)" using r digit_not_sign by auto
  then have "takeWhile is_digit (to_string_nat n @ r) = to_string_nat n" "dropWhile is_digit (to_string_nat n @ r) = r"
    using digits by (simp_all add: takeWhile_all dropWhile_all)
  then have tail: "takeWhile is_digit (c # (w @ r)) = to_string_nat n" "dropWhile is_digit (c # (w @ r)) = r" by (simp_all add: w)
  have "(case to_string_nat n @ r of [] \<Rightarrow> (False, to_string_nat n @ r) | c # r' \<Rightarrow> if c = CHR ''-'' then (True, r') else
      if c = CHR ''+'' then (False, r') else (False, to_string_nat n @ r)) = (False, c # (w @ r))"
    using digit_not_sign [OF c] by (simp add: w)
  then show ?thesis using n by (simp only: get_u64_def drop Let_def prod.case tail read_to_string_nat) simp
qed

end
