(* ===== verification/Text_Parts.thy ===== *)
theory Text_Parts
  imports Text_Input
begin

section \<open>Texts in parts\<close>

text \<open>Texts that are cut at a character and joined again: paths, addresses. The numbers among the parts are read and printed.\<close>

fun split_at :: "char \<Rightarrow> string \<Rightarrow> string list" where
  "split_at c [] = [[]]"
| "split_at c (x # xs) = (if x = c then [] # split_at c xs else case split_at c xs of [] \<Rightarrow> [[x]] | p # ps \<Rightarrow> (x # p) # ps)"

fun join_with :: "string \<Rightarrow> string list \<Rightarrow> string" where
  "join_with sep [] = []"
| "join_with sep [p] = p"
| "join_with sep (p # q # ps) = p @ sep @ join_with sep (q # ps)"

lemma split_at_nonempty [simp]: "split_at c s \<noteq> []"
  by (induction s) (auto split: list.splits)

lemma split_at_part: "c \<notin> set p \<Longrightarrow> split_at c p = [p]"
  by (induction p) auto

lemma split_at_append: "c \<notin> set p \<Longrightarrow> split_at c (p @ c # s) = p # split_at c s"
  by (induction p) (auto split: list.splits)

lemma split_join: "ps \<noteq> [] \<Longrightarrow> \<forall>p\<in>set ps. c \<notin> set p \<Longrightarrow> split_at c (join_with [c] ps) = ps"
  by (induction "[c]" ps rule: join_with.induct) (auto simp: split_at_part split_at_append)

lemma join_split: "join_with [c] (split_at c s) = s"
proof (induction s)
  case (Cons x s)
  obtain p ps where s: "split_at c s = p # ps" by (cases "split_at c s") auto
  show ?case using Cons by (cases ps) (auto simp: s)
qed simp

lemma split_at_parts: "p \<in> set (split_at c s) \<Longrightarrow> c \<notin> set p"
  by (induction s arbitrary: p) (auto split: list.splits if_splits)

text \<open>A number without a leading zero is printed as it was written.\<close>

lemma digit_char_char_digit: "is_digit c \<Longrightarrow> digit_char (char_digit c) = c"
  by (simp add: is_digit_code digit_char_def char_digit_def)

lemma to_string_read_nat: "list_all is_digit p \<Longrightarrow> p \<noteq> [] \<Longrightarrow> length p = 1 \<or> hd p \<noteq> CHR ''0'' \<Longrightarrow>
    to_string_nat (read_nat p) = p \<and> (hd p \<noteq> CHR ''0'' \<longrightarrow> 0 < read_nat p)"
proof (induction p rule: rev_induct)
  case (snoc c q)
  have d: "is_digit c" "char_digit c < 10" using snoc.prems(1) by (auto simp: is_digit_code char_digit_def)
  have r: "read_nat (q @ [c]) = 10 * read_nat q + char_digit c" by (simp add: read_nat_def)
  show ?case
  proof (cases "q = []")
    case True
    have "c = CHR ''0''" if "of_char c = (48 :: nat)"
    proof -
      have "c = char_of (of_char c :: nat)" by simp
      also have "\<dots> = char_of (48 :: nat)" by (simp only: that)
      also have "\<dots> = CHR ''0''" by (simp add: char_of_def bit_iff_odd)
      finally show ?thesis .
    qed
    then have "c \<noteq> CHR ''0'' \<longrightarrow> of_char c \<noteq> (48 :: nat)" by auto
    then have "c \<noteq> CHR ''0'' \<longrightarrow> 0 < char_digit c" using d by (auto simp: is_digit_code char_digit_def)
    then show ?thesis using True d by (simp add: read_nat_def to_string_nat.simps digit_char_char_digit)
  next
    case False
    then have "hd q \<noteq> CHR ''0''" using snoc.prems(3) by (cases q) auto
    with snoc False have q: "to_string_nat (read_nat q) = q" "0 < read_nat q" by auto
    have "(10 * read_nat q + char_digit c) div 10 = read_nat q" "(10 * read_nat q + char_digit c) mod 10 = char_digit c" using d(2) by auto
    then show ?thesis using q d by (subst to_string_nat.simps) (simp add: r digit_char_char_digit)
  qed
qed simp

end
