(* ===== verification/Key_Builder.thy ===== *)
theory Key_Builder
  imports Prelude
begin

section \<open>Keys of the transport (components/transport/src/key\_builder.cpp, core/src/node.cpp)\<close>

text \<open>
  Everything that programs exchange travels under a key, a path that starts with the robot and its namespace. A node resolves
  the name of a topic or a service in its own namespace first.
\<close>

subsection \<open>Names\<close>

abbreviation slash :: char where "slash \<equiv> CHR 0x2F"
abbreviation dot :: char where "dot \<equiv> CHR 0x2E"

text \<open>The two loops that erase a leading and a trailing slash.\<close>

definition strip_front :: "string \<Rightarrow> string" where
  "strip_front out = dropWhile (\<lambda>c. c = slash) out"

definition strip_back :: "string \<Rightarrow> string" where
  "strip_back out = rev (dropWhile (\<lambda>c. c = slash) (rev out))"

definition key_NormalizeName :: "string \<Rightarrow> string" where
  "key_NormalizeName name = map (\<lambda>c. if c = dot then slash else c) (strip_back (strip_front name))"

definition node_NormalizeName :: "string \<Rightarrow> string" where
  "node_NormalizeName name = strip_back (strip_front name)"

definition JoinName :: "string \<Rightarrow> string \<Rightarrow> string" where
  "JoinName ns name =
     (let normalized_ns = node_NormalizeName ns; normalized_name = node_NormalizeName name in
      if normalized_ns = [] then ''/'' @ normalized_name
      else if normalized_name = [] then ''/'' @ normalized_ns
      else ''/'' @ normalized_ns @ ''/'' @ normalized_name)"

subsection \<open>Keys\<close>

record KeyBuilder =
  kb_robot_id :: string
  kb_namespace_name :: string

definition Prefix :: "KeyBuilder \<Rightarrow> string" where
  "Prefix b =
     (let ns = key_NormalizeName (kb_namespace_name b) in
      ''openember/'' @ key_NormalizeName (kb_robot_id b) @ (if ns \<noteq> [] then ''/'' @ ns else []))"

definition TopicKey :: "KeyBuilder \<Rightarrow> string \<Rightarrow> string" where
  "TopicKey b topic_name = Prefix b @ ''/topics/'' @ key_NormalizeName topic_name"

definition ServiceKey :: "KeyBuilder \<Rightarrow> string \<Rightarrow> string" where
  "ServiceKey b service_name = Prefix b @ ''/services/'' @ key_NormalizeName service_name"

definition NodeInfoKey :: "KeyBuilder \<Rightarrow> string \<Rightarrow> string" where
  "NodeInfoKey b node_name = Prefix b @ ''/nodes/'' @ key_NormalizeName node_name @ ''/info''"

definition ParameterKey :: "KeyBuilder \<Rightarrow> string \<Rightarrow> string \<Rightarrow> string" where
  "ParameterKey b node_name parameter_name =
     Prefix b @ ''/nodes/'' @ key_NormalizeName node_name @ ''/params/'' @ key_NormalizeName parameter_name"

definition DiagnosticKey :: "KeyBuilder \<Rightarrow> string \<Rightarrow> string" where
  "DiagnosticKey b node_name = Prefix b @ ''/diagnostics/'' @ key_NormalizeName node_name"

definition LogKey :: "KeyBuilder \<Rightarrow> string \<Rightarrow> string" where
  "LogKey b node_name = Prefix b @ ''/logs/'' @ key_NormalizeName node_name"

subsection \<open>Paths\<close>

text \<open>A string is the path of its segments, joined by slashes.\<close>

fun segments :: "string \<Rightarrow> string list" where
  "segments [] = [[]]"
| "segments (c # s) = (if c = slash then [] # segments s else (c # hd (segments s)) # tl (segments s))"

lemma segments_nonempty [simp]: "segments s \<noteq> []"
  by (induction s) auto

lemma segments_append: "segments (a @ slash # b) = segments a @ segments b"
  by (induction a) (auto simp: hd_append tl_append split: list.splits)

fun join_path :: "string list \<Rightarrow> string" where
  "join_path [] = []"
| "join_path [s] = s"
| "join_path (s # ss) = s @ slash # join_path ss"

lemma join_path_Cons: "ss \<noteq> [] \<Longrightarrow> join_path (s # ss) = s @ slash # join_path ss"
  by (cases ss) auto

lemma join_segments: "join_path (segments s) = s"
proof (induction s)
  case (Cons c s)
  obtain g gs where g: "segments s = g # gs" by (meson list.exhaust segments_nonempty)
  with Cons show ?case by (cases gs) (auto simp: join_path_Cons)
qed simp

lemma segments_inject [simp]: "segments s = segments t \<longleftrightarrow> s = t"
  by (metis join_segments)

lemma segments_single: "slash \<notin> set s \<Longrightarrow> segments s = [s]"
  by (induction s) auto

text \<open>What a name is for: a robot id, a namespace or a node name of one segment cannot be mistaken for something else.\<close>

definition one_segment :: "string \<Rightarrow> bool" where
  "one_segment name \<longleftrightarrow> slash \<notin> set (key_NormalizeName name)"

definition reserved :: "string list" where
  "reserved = [''topics'', ''services'', ''nodes'', ''diagnostics'', ''logs'']"

definition proper :: "KeyBuilder \<Rightarrow> bool" where
  "proper b \<longleftrightarrow> one_segment (kb_robot_id b) \<and> one_segment (kb_namespace_name b) \<and> key_NormalizeName (kb_namespace_name b) \<notin> set reserved"

datatype key_use = Use_topic string | Use_service string | Use_info string | Use_parameter string string | Use_diagnostic string | Use_log string

fun key_of :: "KeyBuilder \<Rightarrow> key_use \<Rightarrow> string" where
  "key_of b (Use_topic t) = TopicKey b t"
| "key_of b (Use_service s) = ServiceKey b s"
| "key_of b (Use_info n) = NodeInfoKey b n"
| "key_of b (Use_parameter n p) = ParameterKey b n p"
| "key_of b (Use_diagnostic n) = DiagnosticKey b n"
| "key_of b (Use_log n) = LogKey b n"

fun plain_use :: "key_use \<Rightarrow> bool" where
  "plain_use (Use_info n) \<longleftrightarrow> one_segment n"
| "plain_use (Use_parameter n p) \<longleftrightarrow> one_segment n"
| "plain_use u \<longleftrightarrow> True"

fun normal_use :: "key_use \<Rightarrow> key_use" where
  "normal_use (Use_topic t) = Use_topic (key_NormalizeName t)"
| "normal_use (Use_service s) = Use_service (key_NormalizeName s)"
| "normal_use (Use_info n) = Use_info (key_NormalizeName n)"
| "normal_use (Use_parameter n p) = Use_parameter (key_NormalizeName n) (key_NormalizeName p)"
| "normal_use (Use_diagnostic n) = Use_diagnostic (key_NormalizeName n)"
| "normal_use (Use_log n) = Use_log (key_NormalizeName n)"

definition domain_path :: "KeyBuilder \<Rightarrow> string list" where
  "domain_path b = (let ns = key_NormalizeName (kb_namespace_name b) in key_NormalizeName (kb_robot_id b) # (if ns = [] then [] else [ns]))"

fun use_path :: "key_use \<Rightarrow> string list" where
  "use_path (Use_topic t) = ''topics'' # segments (key_NormalizeName t)"
| "use_path (Use_service s) = ''services'' # segments (key_NormalizeName s)"
| "use_path (Use_info n) = [''nodes'', key_NormalizeName n, ''info'']"
| "use_path (Use_parameter n p) = [''nodes'', key_NormalizeName n, ''params''] @ segments (key_NormalizeName p)"
| "use_path (Use_diagnostic n) = ''diagnostics'' # segments (key_NormalizeName n)"
| "use_path (Use_log n) = ''logs'' # segments (key_NormalizeName n)"

lemma segments_prefix:
  assumes "proper b"
  shows "segments (Prefix b @ slash # rest) = ''openember'' # domain_path b @ segments rest"
proof -
  have r: "segments (key_NormalizeName (kb_robot_id b)) = [key_NormalizeName (kb_robot_id b)]"
    "segments (key_NormalizeName (kb_namespace_name b)) = [key_NormalizeName (kb_namespace_name b)]"
    using assms by (simp_all add: proper_def one_segment_def segments_single)
  have "Prefix b @ slash # rest = ''openember'' @ slash # (key_NormalizeName (kb_robot_id b) @
      slash # (if key_NormalizeName (kb_namespace_name b) = [] then rest else key_NormalizeName (kb_namespace_name b) @ slash # rest))"
    by (simp add: Prefix_def Let_def)
  then show ?thesis by (simp only: segments_append r) (simp add: segments_append r domain_path_def Let_def)
qed

lemma segments_key_of:
  assumes "proper b" "plain_use u"
  shows "segments (key_of b u) = ''openember'' # domain_path b @ use_path u"
proof -
  have word: "segments (''topics/'' @ s) = ''topics'' # segments s" "segments (''services/'' @ s) = ''services'' # segments s"
    "segments (''nodes/'' @ s) = ''nodes'' # segments s" "segments (''diagnostics/'' @ s) = ''diagnostics'' # segments s"
    "segments (''logs/'' @ s) = ''logs'' # segments s" "segments ''info'' = [''info'']" "segments (''params/'' @ s) = ''params'' # segments s" for s
    by simp_all
  have split: "Prefix b @ CHR 0x2F # s @ t = Prefix b @ slash # (s @ t)" for s t by simp
  show ?thesis
  proof (cases u)
    case (Use_topic t)
    then show ?thesis using segments_prefix [OF assms(1), of "''topics/'' @ key_NormalizeName t"] word(1) by (simp add: TopicKey_def)
  next
    case (Use_service s)
    then show ?thesis using segments_prefix [OF assms(1), of "''services/'' @ key_NormalizeName s"] word(2) by (simp add: ServiceKey_def)
  next
    case (Use_info n)
    then have n: "segments (key_NormalizeName n @ slash # ''info'') = [key_NormalizeName n, ''info'']"
      using assms(2) by (simp only: segments_append) (simp add: one_segment_def segments_single)
    with Use_info show ?thesis
      using segments_prefix [OF assms(1), of "''nodes/'' @ key_NormalizeName n @ slash # ''info''"] word(3) by (simp add: NodeInfoKey_def)
  next
    case (Use_parameter n p)
    then have n: "segments (key_NormalizeName n @ slash # ''params/'' @ key_NormalizeName p) = key_NormalizeName n # ''params'' # segments (key_NormalizeName p)"
      using assms(2) by (simp only: segments_append) (simp add: one_segment_def segments_single)
    with Use_parameter show ?thesis
      using segments_prefix [OF assms(1), of "''nodes/'' @ key_NormalizeName n @ slash # ''params/'' @ key_NormalizeName p"] word(3)
      by (simp add: ParameterKey_def)
  next
    case (Use_diagnostic n)
    then show ?thesis using segments_prefix [OF assms(1), of "''diagnostics/'' @ key_NormalizeName n"] word(4) by (simp add: DiagnosticKey_def)
  next
    case (Use_log n)
    then show ?thesis using segments_prefix [OF assms(1), of "''logs/'' @ key_NormalizeName n"] word(5) by (simp add: LogKey_def)
  qed
qed

lemma use_path_inject: "use_path u = use_path u' \<longleftrightarrow> normal_use u = normal_use u'"
  by (cases u; cases u') auto

lemma use_path_reserved: "hd (use_path u) \<in> set reserved" "use_path u \<noteq> []"
  by (cases u; simp add: reserved_def)+

lemma paths_inject:
  assumes "proper b" "proper b'" "domain_path b @ use_path u = domain_path b' @ use_path u'"
  shows "domain_path b = domain_path b' \<and> use_path u = use_path u'"
proof -
  have ns: "key_NormalizeName (kb_namespace_name b) \<notin> set reserved" "key_NormalizeName (kb_namespace_name b') \<notin> set reserved"
    using assms(1,2) by (simp_all add: proper_def)
  from assms(3) ns use_path_reserved [of u] use_path_reserved [of u'] show ?thesis
    by (cases "use_path u"; cases "use_path u'") (auto simp: domain_path_def Let_def split: if_splits)
qed

lemma domain_path_inject:
  "domain_path b = domain_path b' \<longleftrightarrow>
     key_NormalizeName (kb_robot_id b) = key_NormalizeName (kb_robot_id b') \<and> key_NormalizeName (kb_namespace_name b) = key_NormalizeName (kb_namespace_name b')"
  by (auto simp: domain_path_def Let_def)

lemma key_of_eq:
  assumes "proper b" "proper b'" "plain_use u" "plain_use u'"
  shows "key_of b u = key_of b' u' \<longleftrightarrow> domain_path b = domain_path b' \<and> normal_use u = normal_use u'"
proof -
  have "key_of b u = key_of b' u' \<longleftrightarrow> domain_path b @ use_path u = domain_path b' @ use_path u'"
    using segments_key_of [OF assms(1,3)] segments_key_of [OF assms(2,4)] segments_inject [of "key_of b u" "key_of b' u'"] by simp
  also have "\<dots> \<longleftrightarrow> domain_path b = domain_path b' \<and> use_path u = use_path u'" using paths_inject [OF assms(1,2)] by auto
  finally show ?thesis by (simp add: use_path_inject)
qed


lemma leading_dot_not_normal: "key_NormalizeName (key_NormalizeName ''.a'') \<noteq> key_NormalizeName ''.a''"
  by (simp add: key_NormalizeName_def strip_front_def strip_back_def)

text \<open>Without these conditions keys collide: a topic of one namespace with a service of another, a parameter with a node's information.\<close>

lemma keys_collide:
  "TopicKey \<lparr>kb_robot_id = ''r1'', kb_namespace_name = ''''\<rparr> ''services/x'' = ServiceKey \<lparr>kb_robot_id = ''r1'', kb_namespace_name = ''topics''\<rparr> ''x''"
  "ParameterKey b ''arm'' ''x/info'' = NodeInfoKey b ''arm/params/x''"
  by (simp_all add: TopicKey_def ServiceKey_def ParameterKey_def NodeInfoKey_def Prefix_def key_NormalizeName_def strip_front_def strip_back_def)


end
