(* ===== verification/Framework.thy ===== *)
theory Framework
  imports Key_Builder
begin

section \<open>The runtime of a program (core/, components/transport)\<close>

text \<open>
  A program initialises one global context, which owns a session of the transport, creates nodes on it, and on a node
  publishers, subscribers, services and clients. The backend of the transport is a library outside the repository: whether
  one of its calls succeeds is an argument of the operation that makes it. Contexts are shared by pointers; they live in a list
  and are named by their position.
\<close>

subsection \<open>Errors and results\<close>

datatype transport_ErrorCode = kOk | kInvalidArgument | kNotInitialized | kTimeout | kZenohError | kInternalError

record transport_Error =
  er_code :: transport_ErrorCode
  er_message :: string

definition transport_error :: "transport_ErrorCode \<Rightarrow> string \<Rightarrow> transport_Error" where
  "transport_error code message = \<lparr>er_code = code, er_message = message\<rparr>"

type_synonym bytes = "u8 list"

subsection \<open>Options\<close>

datatype Profile = Profile_kAuto | Profile_kPeer | Profile_kClient | Profile_kRouter

record LinkOptions =
  ln_profile :: Profile
  ln_connect :: string
  ln_listen :: string

definition default_LinkOptions :: LinkOptions where
  "default_LinkOptions = \<lparr>ln_profile = Profile_kAuto, ln_connect = '''', ln_listen = ''''\<rparr>"

definition LocalRouterOptions :: LinkOptions where
  "LocalRouterOptions = default_LinkOptions\<lparr>ln_profile := Profile_kRouter, ln_listen := ''tcp/127.0.0.1:7447''\<rparr>"

definition LocalClientOptions :: LinkOptions where
  "LocalClientOptions = default_LinkOptions\<lparr>ln_profile := Profile_kClient, ln_connect := ''tcp/127.0.0.1:7447''\<rparr>"

record RuntimeOptions =
  ro_robot_id :: string
  ro_namespace_name :: string
  ro_link :: LinkOptions

definition default_RuntimeOptions :: RuntimeOptions where
  "default_RuntimeOptions = \<lparr>ro_robot_id = ''default'', ro_namespace_name = '''', ro_link = default_LinkOptions\<rparr>"

datatype ZenohMode = ZenohMode_kPeer | ZenohMode_kClient | ZenohMode_kRouter

record ContextOptions =
  co_device_id :: string
  co_namespace_name :: string
  co_zenoh_mode :: ZenohMode
  co_zenoh_connect :: string
  co_zenoh_listen :: string

definition ToZenohMode :: "Profile \<Rightarrow> LinkOptions \<Rightarrow> ZenohMode" where
  "ToZenohMode profile options =
     (case profile of Profile_kClient \<Rightarrow> ZenohMode_kClient | Profile_kRouter \<Rightarrow> ZenohMode_kRouter | Profile_kPeer \<Rightarrow> ZenohMode_kPeer
      | Profile_kAuto \<Rightarrow>
          if ln_listen options \<noteq> [] then ZenohMode_kRouter
          else if ln_connect options \<noteq> [] then ZenohMode_kClient
          else ZenohMode_kPeer)"

definition ToRuntimeOptions :: "ContextOptions \<Rightarrow> RuntimeOptions" where
  "ToRuntimeOptions options =
     \<lparr>ro_robot_id = co_device_id options, ro_namespace_name = co_namespace_name options,
      ro_link = \<lparr>ln_profile = (case co_zenoh_mode options of ZenohMode_kClient \<Rightarrow> Profile_kClient | ZenohMode_kRouter \<Rightarrow> Profile_kRouter
                                | ZenohMode_kPeer \<Rightarrow> Profile_kPeer),
                 ln_connect = co_zenoh_connect options, ln_listen = co_zenoh_listen options\<rparr>\<rparr>"

subsection \<open>The session\<close>

record SessionOptions =
  so_mode :: ZenohMode
  so_connect :: string
  so_listen :: string
  so_robot_id :: string
  so_namespace_name :: string

text \<open>What the session writes into the backend's configuration, in order: paths with values in JSON.\<close>

definition ZenohJsonString :: "string \<Rightarrow> string" where
  "ZenohJsonString v = [CHR 0x22] @ v @ [CHR 0x22]"

definition ZenohEndpointArrayJson :: "string \<Rightarrow> string" where
  "ZenohEndpointArrayJson endpoint = [CHR 0x5B, CHR 0x22] @ endpoint @ [CHR 0x22, CHR 0x5D]"

fun ZenohModeString :: "ZenohMode \<Rightarrow> string" where
  "ZenohModeString ZenohMode_kClient = ''client''"
| "ZenohModeString ZenohMode_kRouter = ''router''"
| "ZenohModeString ZenohMode_kPeer = ''peer''"

definition ApplySessionOptions :: "SessionOptions \<Rightarrow> (string \<times> string) list" where
  "ApplySessionOptions options =
     [(''mode'', ZenohJsonString (ZenohModeString (so_mode options)))] @
     (if so_listen options \<noteq> [] then [(''listen/endpoints'', ZenohEndpointArrayJson (so_listen options))] else []) @
     (if so_connect options \<noteq> [] then [(''connect/endpoints'', ZenohEndpointArrayJson (so_connect options))] else []) @
     (if so_listen options \<noteq> [] \<or> so_connect options \<noteq> []
      then [(''scouting/multicast/enabled'', ''false''), (''scouting/gossip/enabled'', ''false'')] else [])"

record session =
  ss_options :: SessionOptions
  ss_opened :: bool

definition Keys :: "session \<Rightarrow> KeyBuilder" where
  "Keys s = \<lparr>kb_robot_id = so_robot_id (ss_options s), kb_namespace_name = so_namespace_name (ss_options s)\<rparr>"

text \<open>\<open>backend\<close> is how the backend takes the configuration: an exception's text or a session.\<close>

definition session_Open :: "((string \<times> string) list \<Rightarrow> string + unit) \<Rightarrow> session \<Rightarrow> (transport_Error + unit) \<times> session" where
  "session_Open backend s =
     (if ss_opened s then (Inr (), s)
      else case backend (ApplySessionOptions (ss_options s)) of
          Inl e \<Rightarrow> (Inl (transport_error kZenohError (''failed to open zenoh session: '' @ e)), s)
        | Inr _ \<Rightarrow> (Inr (), s\<lparr>ss_opened := True\<rparr>))"

definition session_Close :: "session \<Rightarrow> session" where
  "session_Close s = s\<lparr>ss_opened := False\<rparr>"

text \<open>
  What the four \<^verbatim>\<open>Create\<close> functions of the session share: the check, the key, and the declaration, whose outcome is the
  argument \<open>declared\<close>. They differ in the key and in the text of the error; a client declares nothing, so nothing can
  fail there.
\<close>

definition session_declare :: "string \<Rightarrow> string \<Rightarrow> (string \<Rightarrow> string + unit) \<Rightarrow> session \<Rightarrow> transport_Error + string" where
  "session_declare what key declared s =
     (if \<not> ss_opened s then Inl (transport_error kNotInitialized ''session is not open'')
      else case declared key of
          Inl e \<Rightarrow> Inl (transport_error kZenohError (''failed to create '' @ what @ '': '' @ e))
        | Inr _ \<Rightarrow> Inr key)"

definition session_CreatePublisher :: "(string \<Rightarrow> string + unit) \<Rightarrow> string \<Rightarrow> session \<Rightarrow> transport_Error + string" where
  "session_CreatePublisher declared name s = session_declare ''publisher'' (TopicKey (Keys s) name) declared s"

definition session_CreateSubscriber :: "(string \<Rightarrow> string + unit) \<Rightarrow> string \<Rightarrow> session \<Rightarrow> transport_Error + string" where
  "session_CreateSubscriber declared name s = session_declare ''subscriber'' (TopicKey (Keys s) name) declared s"

definition session_CreateServiceServer :: "(string \<Rightarrow> string + unit) \<Rightarrow> string \<Rightarrow> session \<Rightarrow> transport_Error + string" where
  "session_CreateServiceServer declared name s = session_declare ''service server'' (ServiceKey (Keys s) name) declared s"

definition session_CreateServiceClient :: "string \<Rightarrow> session \<Rightarrow> transport_Error + string" where
  "session_CreateServiceClient name s = session_declare ''service client'' (ServiceKey (Keys s) name) (\<lambda>_. Inr ()) s"

subsection \<open>Contexts\<close>

record context_state =
  cx_options :: RuntimeOptions
  cx_session :: session
  cx_ok :: bool

definition new_Context :: "RuntimeOptions \<Rightarrow> context_state" where
  "new_Context options =
     \<lparr>cx_options = options,
      cx_session = \<lparr>ss_options =
        \<lparr>so_mode = ToZenohMode (ln_profile (ro_link options)) (ro_link options), so_connect = ln_connect (ro_link options),
         so_listen = ln_listen (ro_link options), so_robot_id = ro_robot_id options, so_namespace_name = ro_namespace_name options\<rparr>,
        ss_opened = False\<rparr>,
      cx_ok = False\<rparr>"

definition Context_Init :: "((string \<times> string) list \<Rightarrow> string + unit) \<Rightarrow> context_state \<Rightarrow> bool \<times> context_state" where
  "Context_Init backend c =
     (case session_Open backend (cx_session c) of (result, s) \<Rightarrow>
        let ok = (case result of Inl _ \<Rightarrow> False | Inr _ \<Rightarrow> True) in (ok, c\<lparr>cx_session := s, cx_ok := ok\<rparr>))"

definition Context_Shutdown :: "context_state \<Rightarrow> context_state" where
  "Context_Shutdown c = c\<lparr>cx_ok := False, cx_session := session_Close (cx_session c)\<rparr>"

subsection \<open>Nodes\<close>

text \<open>What a node has created: the kind, the resolved name, the key under which the backend knows it and the types.\<close>

datatype endpoint_kind = Is_publisher | Is_subscriber | Is_service | Is_client

record node_endpoint =
  en_kind :: endpoint_kind
  en_name :: string
  en_key :: string
  en_types :: "string list"

record node =
  nd_context :: nat
  nd_name :: string
  nd_namespace_name :: string
  nd_endpoints :: "node_endpoint list"

definition new_Node :: "nat \<Rightarrow> string \<Rightarrow> string \<Rightarrow> node" where
  "new_Node c name namespace_name =
     \<lparr>nd_context = c, nd_name = node_NormalizeName name, nd_namespace_name = node_NormalizeName namespace_name, nd_endpoints = []\<rparr>"

definition ResolveTopicName :: "node \<Rightarrow> string \<Rightarrow> string" where
  "ResolveTopicName n topic_name = JoinName (nd_namespace_name n) topic_name"

definition ResolveServiceName :: "node \<Rightarrow> string \<Rightarrow> string" where
  "ResolveServiceName n service_name = JoinName (nd_namespace_name n) service_name"

text \<open>The four \<^verbatim>\<open>Create\<close> functions of a node, over the session of its context. An error of the session is thrown.\<close>

definition keep_endpoint :: "endpoint_kind \<Rightarrow> string \<Rightarrow> string list \<Rightarrow> transport_Error + string \<Rightarrow> node \<Rightarrow> (string + unit) \<times> node" where
  "keep_endpoint kind name types result n =
     (case result of
        Inl e \<Rightarrow> (Inl (er_message e), n)
      | Inr key \<Rightarrow> (Inr (), n\<lparr>nd_endpoints := nd_endpoints n @ [\<lparr>en_kind = kind, en_name = name, en_key = key, en_types = types\<rparr>]\<rparr>))"

definition CreatePublisher :: "(string \<Rightarrow> string + unit) \<Rightarrow> string \<Rightarrow> string \<Rightarrow> session \<Rightarrow> node \<Rightarrow> (string + unit) \<times> node" where
  "CreatePublisher declared topic_name type s n =
     (let name = ResolveTopicName n topic_name in
      keep_endpoint Is_publisher name [type] (session_CreatePublisher declared name s) n)"

definition CreateSubscriber :: "(string \<Rightarrow> string + unit) \<Rightarrow> string \<Rightarrow> string \<Rightarrow> session \<Rightarrow> node \<Rightarrow> (string + unit) \<times> node" where
  "CreateSubscriber declared topic_name type s n =
     (let name = ResolveTopicName n topic_name in
      keep_endpoint Is_subscriber name [type] (session_CreateSubscriber declared name s) n)"

definition CreateService :: "(string \<Rightarrow> string + unit) \<Rightarrow> string \<Rightarrow> string \<Rightarrow> string \<Rightarrow> session \<Rightarrow> node \<Rightarrow> (string + unit) \<times> node" where
  "CreateService declared service_name request_type response_type s n =
     (let name = ResolveServiceName n service_name in
      keep_endpoint Is_service name [request_type, response_type] (session_CreateServiceServer declared name s) n)"

definition CreateClient :: "string \<Rightarrow> string \<Rightarrow> string \<Rightarrow> session \<Rightarrow> node \<Rightarrow> (string + unit) \<times> node" where
  "CreateClient service_name request_type response_type s n =
     (let name = ResolveServiceName n service_name in
      keep_endpoint Is_client name [request_type, response_type] (session_CreateServiceClient name s) n)"


subsection \<open>The program's runtime\<close>

record runtime =
  rt_contexts :: "context_state list"
  rt_global :: "nat option"
  rt_nodes :: "node list"

definition runtime_start :: runtime where
  "runtime_start = \<lparr>rt_contexts = [], rt_global = None, rt_nodes = []\<rparr>"

definition rt_Ok :: "runtime \<Rightarrow> bool" where
  "rt_Ok rt = (case rt_global rt of None \<Rightarrow> False | Some i \<Rightarrow> cx_ok (rt_contexts rt ! i))"

text \<open>The new context becomes the global one before its session is opened, and stays it when that fails.\<close>

definition InitContextLocked :: "((string \<times> string) list \<Rightarrow> string + unit) \<Rightarrow> context_state \<Rightarrow> runtime \<Rightarrow> (string + unit) \<times> runtime" where
  "InitContextLocked backend c rt =
     (if rt_Ok rt then (Inr (), rt)
      else case Context_Init backend c of (ok, c) \<Rightarrow>
        ((if ok then Inr () else Inl ''failed to initialize OpenEmber context''),
         rt\<lparr>rt_contexts := rt_contexts rt @ [c], rt_global := Some (length (rt_contexts rt))\<rparr>))"

definition rt_Init :: "((string \<times> string) list \<Rightarrow> string + unit) \<Rightarrow> RuntimeOptions \<Rightarrow> runtime \<Rightarrow> (string + unit) \<times> runtime" where
  "rt_Init backend options rt = InitContextLocked backend (new_Context options) rt"

definition rt_Init_context :: "((string \<times> string) list \<Rightarrow> string + unit) \<Rightarrow> ContextOptions \<Rightarrow> runtime \<Rightarrow> (string + unit) \<times> runtime" where
  "rt_Init_context backend options rt = InitContextLocked backend (new_Context (ToRuntimeOptions options)) rt"

definition rt_Init_default :: "((string \<times> string) list \<Rightarrow> string + unit) \<Rightarrow> runtime \<Rightarrow> (string + unit) \<times> runtime" where
  "rt_Init_default backend rt = rt_Init backend default_RuntimeOptions rt"

definition rt_Init_robot :: "((string \<times> string) list \<Rightarrow> string + unit) \<Rightarrow> string \<Rightarrow> runtime \<Rightarrow> (string + unit) \<times> runtime" where
  "rt_Init_robot backend robot_id rt = rt_Init backend (default_RuntimeOptions\<lparr>ro_robot_id := robot_id\<rparr>) rt"

definition InitSystemRouter :: "((string \<times> string) list \<Rightarrow> string + unit) \<Rightarrow> string \<Rightarrow> runtime \<Rightarrow> (string + unit) \<times> runtime" where
  "InitSystemRouter backend robot_id rt = rt_Init backend (default_RuntimeOptions\<lparr>ro_robot_id := robot_id, ro_link := LocalRouterOptions\<rparr>) rt"

definition InitSystemClient :: "((string \<times> string) list \<Rightarrow> string + unit) \<Rightarrow> string \<Rightarrow> runtime \<Rightarrow> (string + unit) \<times> runtime" where
  "InitSystemClient backend robot_id rt = rt_Init backend (default_RuntimeOptions\<lparr>ro_robot_id := robot_id, ro_link := LocalClientOptions\<rparr>) rt"

definition rt_Shutdown :: "runtime \<Rightarrow> runtime" where
  "rt_Shutdown rt =
     (case rt_global rt of None \<Rightarrow> rt
      | Some i \<Rightarrow> rt\<lparr>rt_contexts := (rt_contexts rt)[i := Context_Shutdown (rt_contexts rt ! i)], rt_global := None\<rparr>)"

definition GetGlobalContext :: "runtime \<Rightarrow> string + nat" where
  "GetGlobalContext rt = (case rt_global rt of None \<Rightarrow> Inl ''OpenEmber is not initialized'' | Some i \<Rightarrow> Inr i)"

definition CreateNode :: "string \<Rightarrow> string \<Rightarrow> runtime \<Rightarrow> (string + unit) \<times> runtime" where
  "CreateNode name namespace_name rt =
     (case GetGlobalContext rt of Inl e \<Rightarrow> (Inl e, rt)
      | Inr c \<Rightarrow> (Inr (), rt\<lparr>rt_nodes := rt_nodes rt @ [new_Node c name namespace_name]\<rparr>))"

text \<open>One of the four \<^verbatim>\<open>Create\<close> functions on the \<open>i\<close>-th node.\<close>

definition on_node :: "nat \<Rightarrow> (session \<Rightarrow> node \<Rightarrow> (string + unit) \<times> node) \<Rightarrow> runtime \<Rightarrow> (string + unit) \<times> runtime" where
  "on_node i f rt =
     (case f (cx_session (rt_contexts rt ! nd_context (rt_nodes rt ! i))) (rt_nodes rt ! i) of
        (result, n) \<Rightarrow> (result, rt\<lparr>rt_nodes := (rt_nodes rt)[i := n]\<rparr>))"

datatype runtime_op =
    Op_Init "(string \<times> string) list \<Rightarrow> string + unit" RuntimeOptions
  | Op_Init_context "(string \<times> string) list \<Rightarrow> string + unit" ContextOptions
  | Op_Shutdown
  | Op_CreateNode string string
  | Op_CreatePublisher nat "string \<Rightarrow> string + unit" string string
  | Op_CreateSubscriber nat "string \<Rightarrow> string + unit" string string
  | Op_CreateService nat "string \<Rightarrow> string + unit" string string string
  | Op_CreateClient nat string string string

fun runtime_do :: "runtime_op \<Rightarrow> runtime \<Rightarrow> (string + unit) \<times> runtime" where
  "runtime_do (Op_Init backend options) rt = rt_Init backend options rt"
| "runtime_do (Op_Init_context backend options) rt = rt_Init_context backend options rt"
| "runtime_do Op_Shutdown rt = (Inr (), rt_Shutdown rt)"
| "runtime_do (Op_CreateNode name namespace_name) rt = CreateNode name namespace_name rt"
| "runtime_do (Op_CreatePublisher i declared topic_name type) rt = on_node i (CreatePublisher declared topic_name type) rt"
| "runtime_do (Op_CreateSubscriber i declared topic_name type) rt = on_node i (CreateSubscriber declared topic_name type) rt"
| "runtime_do (Op_CreateService i declared service_name request_type response_type) rt =
     on_node i (CreateService declared service_name request_type response_type) rt"
| "runtime_do (Op_CreateClient i service_name request_type response_type) rt = on_node i (CreateClient service_name request_type response_type) rt"

fun op_node :: "runtime_op \<Rightarrow> nat option" where
  "op_node (Op_CreatePublisher i declared topic_name type) = Some i"
| "op_node (Op_CreateSubscriber i declared topic_name type) = Some i"
| "op_node (Op_CreateService i declared service_name request_type response_type) = Some i"
| "op_node (Op_CreateClient i service_name request_type response_type) = Some i"
| "op_node c = None"

definition runtime_step :: "runtime_op \<Rightarrow> runtime \<Rightarrow> runtime option" where
  "runtime_step c rt =
     (if (case op_node c of None \<Rightarrow> True | Some i \<Rightarrow> i < length (rt_nodes rt)) then Some (snd (runtime_do c rt)) else None)"

subsection \<open>One open session\<close>

definition endpoint_use :: "node_endpoint \<Rightarrow> key_use" where
  "endpoint_use e = (if en_kind e \<in> {Is_publisher, Is_subscriber} then Use_topic (en_name e) else Use_service (en_name e))"

definition context_keys :: "context_state \<Rightarrow> KeyBuilder" where
  "context_keys c = \<lparr>kb_robot_id = ro_robot_id (cx_options c), kb_namespace_name = ro_namespace_name (cx_options c)\<rparr>"

definition node_ok :: "context_state list \<Rightarrow> node \<Rightarrow> bool" where
  "node_ok cs n \<longleftrightarrow> nd_context n < length cs \<and>
     list_all (\<lambda>e. en_key e = key_of (context_keys (cs ! nd_context n)) (endpoint_use e)) (nd_endpoints n)"

definition context_ok :: "nat option \<Rightarrow> nat \<Rightarrow> context_state \<Rightarrow> bool" where
  "context_ok global i c \<longleftrightarrow> ss_opened (cx_session c) = cx_ok c \<and> (cx_ok c \<longrightarrow> global = Some i) \<and> Keys (cx_session c) = context_keys c"

definition runtime_inv :: "runtime \<Rightarrow> bool" where
  "runtime_inv rt \<longleftrightarrow>
     (\<forall>i < length (rt_contexts rt). context_ok (rt_global rt) i (rt_contexts rt ! i)) \<and>
     (\<forall>i. rt_global rt = Some i \<longrightarrow> i < length (rt_contexts rt)) \<and> list_all (node_ok (rt_contexts rt)) (rt_nodes rt)"

lemma inv_context: "runtime_inv rt \<Longrightarrow> i < length (rt_contexts rt) \<Longrightarrow> context_ok (rt_global rt) i (rt_contexts rt ! i)"
  by (simp add: runtime_inv_def)

lemma inv_global: "runtime_inv rt \<Longrightarrow> rt_global rt = Some i \<Longrightarrow> i < length (rt_contexts rt)"
  by (simp add: runtime_inv_def)

lemma inv_node: "runtime_inv rt \<Longrightarrow> i < length (rt_nodes rt) \<Longrightarrow> node_ok (rt_contexts rt) (rt_nodes rt ! i)"
  by (simp add: runtime_inv_def list_all_length)

lemma runtime_start_inv: "runtime_inv runtime_start"
  by (simp add: runtime_inv_def runtime_start_def)

lemma session_Open_frame:
  "session_Open backend s = (r, s') \<Longrightarrow> ss_options s' = ss_options s \<and> (ss_opened s' \<longleftrightarrow> (case r of Inl e \<Rightarrow> ss_opened s | Inr u \<Rightarrow> True)) \<and> (ss_opened s \<longrightarrow> (\<exists>u. r = Inr u))"
  by (auto simp: session_Open_def split: if_splits sum.splits)

lemma Context_Init_new:
  "Context_Init backend (new_Context options) = (ok, c) \<Longrightarrow>
   cx_ok c = ok \<and> ss_opened (cx_session c) = ok \<and> cx_options c = options \<and> Keys (cx_session c) = context_keys c"
  by (auto simp: Context_Init_def new_Context_def Keys_def context_keys_def Let_def split: prod.splits sum.splits dest!: session_Open_frame)

lemma node_ok_append: "node_ok cs n \<Longrightarrow> node_ok (cs @ [c]) n"
  by (auto simp: node_ok_def nth_append)

lemma node_ok_update: "node_ok cs n \<Longrightarrow> i < length cs \<Longrightarrow> cx_options c = cx_options (cs ! i) \<Longrightarrow> node_ok (cs[i := c]) n"
  by (cases "nd_context n = i") (auto simp: node_ok_def context_keys_def)

lemma InitContextLocked_inv:
  assumes "runtime_inv rt"
  shows "runtime_inv (snd (InitContextLocked backend (new_Context options) rt))"
proof (cases "rt_Ok rt")
  case True
  with assms show ?thesis by (simp add: InitContextLocked_def)
next
  case False
  obtain ok c where c: "Context_Init backend (new_Context options) = (ok, c)" by fastforce
  have "context_ok (Some (length (rt_contexts rt))) (length (rt_contexts rt)) c"
    using Context_Init_new [OF c] by (auto simp: context_ok_def)
  moreover have "context_ok (Some (length (rt_contexts rt))) i (rt_contexts rt ! i)" if "i < length (rt_contexts rt)" for i
    using inv_context [OF assms that] False by (auto simp: context_ok_def rt_Ok_def)
  moreover have "list_all (node_ok (rt_contexts rt @ [c])) (rt_nodes rt)"
    using assms by (auto simp: runtime_inv_def list_all_iff intro: node_ok_append)
  moreover have "snd (InitContextLocked backend (new_Context options) rt) =
      rt\<lparr>rt_contexts := rt_contexts rt @ [c], rt_global := Some (length (rt_contexts rt))\<rparr>"
    using False c by (simp add: InitContextLocked_def)
  ultimately show ?thesis by (simp add: runtime_inv_def nth_append less_Suc_eq del: list_all_append)
qed

lemma rt_Shutdown_inv:
  assumes "runtime_inv rt"
  shows "runtime_inv (rt_Shutdown rt)"
proof (cases "rt_global rt")
  case None
  with assms show ?thesis by (simp add: rt_Shutdown_def)
next
  case (Some g)
  define c where "c = Context_Shutdown (rt_contexts rt ! g)"
  have g: "g < length (rt_contexts rt)" using assms Some by (simp add: runtime_inv_def)
  have each: "context_ok (Some g) i (rt_contexts rt ! i)" if "i < length (rt_contexts rt)" for i
    using assms Some that by (simp add: runtime_inv_def)
  have "context_ok None i ((rt_contexts rt)[g := c] ! i)" if i: "i < length (rt_contexts rt)" for i
  proof (cases "i = g")
    case True
    with each [OF g] g show ?thesis by (simp add: context_ok_def c_def Context_Shutdown_def session_Close_def Keys_def context_keys_def)
  next
    case False
    with each [OF i] show ?thesis by (simp add: context_ok_def)
  qed
  moreover have "list_all (node_ok ((rt_contexts rt)[g := c])) (rt_nodes rt)"
    using assms g by (auto simp: runtime_inv_def list_all_iff c_def Context_Shutdown_def intro: node_ok_update)
  ultimately show ?thesis using Some by (simp add: rt_Shutdown_def runtime_inv_def c_def)
qed

lemma CreateNode_inv: "runtime_inv rt \<Longrightarrow> runtime_inv (snd (CreateNode name namespace_name rt))"
  by (auto simp: CreateNode_def GetGlobalContext_def runtime_inv_def new_Node_def node_ok_def split: option.splits)

lemma session_declare_key: "session_declare what key declared s = Inr key' \<Longrightarrow> key' = key"
  by (auto simp: session_declare_def split: if_splits sum.splits)

text \<open>What each \<^verbatim>\<open>Create\<close> function does: nothing, or one endpoint more under the key of its name.\<close>

lemma keep_endpoint_snd:
  "keep_endpoint kind name types result n = (r, n') \<Longrightarrow>
   n' = n \<or> (\<exists>key. result = Inr key \<and> n' = n\<lparr>nd_endpoints := nd_endpoints n @ [\<lparr>en_kind = kind, en_name = name, en_key = key, en_types = types\<rparr>]\<rparr>)"
  by (auto simp: keep_endpoint_def split: sum.splits)

lemmas Create_defs = CreatePublisher_def CreateSubscriber_def CreateService_def CreateClient_def session_CreatePublisher_def
  session_CreateSubscriber_def session_CreateServiceServer_def session_CreateServiceClient_def

definition adds_endpoint :: "(session \<Rightarrow> node \<Rightarrow> (string + unit) \<times> node) \<Rightarrow> bool" where
  "adds_endpoint f \<longleftrightarrow> (\<forall>s n. snd (f s n) = n \<or>
     (\<exists>e. snd (f s n) = n\<lparr>nd_endpoints := nd_endpoints n @ [e]\<rparr> \<and> en_key e = key_of (Keys s) (endpoint_use e)))"

lemma Create_adds_endpoint:
  "adds_endpoint (CreatePublisher declared topic_name type)" "adds_endpoint (CreateSubscriber declared topic_name type)"
  "adds_endpoint (CreateService declared service_name request_type response_type)" "adds_endpoint (CreateClient service_name request_type response_type)"
  by (auto simp: adds_endpoint_def Create_defs Let_def keep_endpoint_def endpoint_use_def split: sum.splits dest!: session_declare_key)

lemma on_node_inv:
  assumes "runtime_inv rt" "i < length (rt_nodes rt)" "adds_endpoint f"
  shows "runtime_inv (snd (on_node i f rt))"
proof -
  let ?n = "rt_nodes rt ! i" let ?c = "rt_contexts rt ! nd_context ?n"
  have n: "node_ok (rt_contexts rt) ?n" using assms(1,2) by (rule inv_node)
  then have "nd_context ?n < length (rt_contexts rt)" by (simp add: node_ok_def)
  then have "Keys (cx_session ?c) = context_keys ?c" using inv_context [OF assms(1)] by (simp add: context_ok_def)
  moreover have "snd (f (cx_session ?c) ?n) = ?n \<or>
      (\<exists>e. snd (f (cx_session ?c) ?n) = ?n\<lparr>nd_endpoints := nd_endpoints ?n @ [e]\<rparr> \<and> en_key e = key_of (Keys (cx_session ?c)) (endpoint_use e))"
    using assms(3) by (simp add: adds_endpoint_def)
  ultimately have "node_ok (rt_contexts rt) (snd (f (cx_session ?c) ?n))" using n by (auto simp: node_ok_def)
  then have "list_all (node_ok (rt_contexts rt)) ((rt_nodes rt)[i := snd (f (cx_session ?c) ?n)])"
    using assms(1) by (auto simp: runtime_inv_def list_all_iff dest!: set_update_subset_insert [THEN subsetD])
  with assms(1) show ?thesis by (simp add: on_node_def runtime_inv_def split_def)
qed


lemma runtime_step_inv:
  assumes "runtime_inv rt" "runtime_step c rt = Some rt'"
  shows "runtime_inv rt'"
proof -
  have rt': "rt' = snd (runtime_do c rt)" using assms(2) by (simp add: runtime_step_def split: if_splits)
  have i: "op_node c = Some i \<Longrightarrow> i < length (rt_nodes rt)" for i using assms(2) by (auto simp: runtime_step_def split: if_splits)
  show ?thesis
  proof (cases "op_node c")
    case None
    then show ?thesis
      using assms(1) by (cases c) (simp_all add: rt' rt_Init_def rt_Init_context_def InitContextLocked_inv rt_Shutdown_inv CreateNode_inv)
  next
    case (Some i)
    then show ?thesis using on_node_inv [OF assms(1) i [OF Some]] Create_adds_endpoint by (cases c) (simp_all add: rt')
  qed
qed

interpretation runtime_machine: guarded_machine runtime_step "\<lambda>c. True" runtime_inv
  by unfold_locales (erule runtime_step_inv)

lemma runtime_reachable: "run_ops runtime_step cs runtime_start = Some rt \<Longrightarrow> runtime_inv rt"
  by (rule runtime_machine.run_inv [OF runtime_start_inv]) (simp_all add: list_all_iff)

lemma created_iff_open:
  "fst (CreatePublisher declared topic_name type s n) = Inr () \<longleftrightarrow> ss_opened s \<and> declared (TopicKey (Keys s) (ResolveTopicName n topic_name)) = Inr ()"
  "fst (CreateClient service_name request_type response_type s n) = Inr () \<longleftrightarrow> ss_opened s"
  by (auto simp: Create_defs Let_def keep_endpoint_def session_declare_def split: sum.splits)

text \<open>C27:
  Whatever a program does with its runtime, at most one session of the transport is open: that of the global context, and
  exactly while \<open>Ok\<close> says so. Every node belongs to a context that exists, everything it has created is
  known to the backend under the key of its resolved name in that context, and it can create more exactly if its context is the
  global one and open and the backend accepts: a node that survives a \<open>Shutdown\<close> stays dead after the next \<open>Init\<close>.
\<close>

theorem only_current_session_open:
  assumes "run_ops runtime_step cs runtime_start = Some rt"
  shows "(i < length (rt_contexts rt) \<longrightarrow> (ss_opened (cx_session (rt_contexts rt ! i)) \<longleftrightarrow> rt_Ok rt \<and> rt_global rt = Some i)) \<and>
    (n < length (rt_nodes rt) \<longrightarrow>
       nd_context (rt_nodes rt ! n) < length (rt_contexts rt) \<and>
       list_all (\<lambda>e. en_key e = key_of (context_keys (rt_contexts rt ! nd_context (rt_nodes rt ! n))) (endpoint_use e)) (nd_endpoints (rt_nodes rt ! n)) \<and>
       (fst (runtime_do (Op_CreatePublisher n (\<lambda>k. Inr ()) t type) rt) = Inr () \<longleftrightarrow> rt_Ok rt \<and> rt_global rt = Some (nd_context (rt_nodes rt ! n))) \<and>
       (fst (runtime_do (Op_CreateClient n t type type') rt) = Inr () \<longleftrightarrow> rt_Ok rt \<and> rt_global rt = Some (nd_context (rt_nodes rt ! n))))"
proof -
  have inv: "runtime_inv rt" using assms by (rule runtime_reachable)
  have open_iff: "ss_opened (cx_session (rt_contexts rt ! i)) \<longleftrightarrow> rt_Ok rt \<and> rt_global rt = Some i" if "i < length (rt_contexts rt)" for i
    using inv_context [OF inv that] by (auto simp: context_ok_def rt_Ok_def split: option.splits)
  have node: "n < length (rt_nodes rt) \<Longrightarrow> node_ok (rt_contexts rt) (rt_nodes rt ! n)" by (rule inv_node [OF inv])
  have "fst (runtime_do (Op_CreatePublisher n (\<lambda>k. Inr ()) t type) rt) = Inr () \<longleftrightarrow> ss_opened (cx_session (rt_contexts rt ! nd_context (rt_nodes rt ! n)))"
    "fst (runtime_do (Op_CreateClient n t type type') rt) = Inr () \<longleftrightarrow> ss_opened (cx_session (rt_contexts rt ! nd_context (rt_nodes rt ! n)))"
    by (simp_all add: on_node_def split_def created_iff_open)
  with open_iff node show ?thesis by (auto simp: node_ok_def)
qed

text \<open>A failed initialisation leaves its context behind as the global one: nodes can be created on it that can never do anything.\<close>

lemma failed_init_leaves_context:
  "map_option (\<lambda>rt. (rt_Ok rt, length (rt_nodes rt)))
     (run_ops runtime_step [Op_Init (\<lambda>c. Inl ''no router'') default_RuntimeOptions, Op_CreateNode ''n'' ''''] runtime_start) = Some (False, 1)"
  by (simp add: runtime_step_def runtime_start_def rt_Init_def InitContextLocked_def rt_Ok_def Context_Init_def session_Open_def new_Context_def
      CreateNode_def GetGlobalContext_def)

theorem only_current_session_open_witness:
  "\<exists>rt. run_ops runtime_step [Op_Init (\<lambda>c. Inr ()) default_RuntimeOptions, Op_CreateNode ''arm'' '''', Op_CreatePublisher 0 (\<lambda>k. Inr ()) ''imu'' ''Imu'',
      Op_Shutdown, Op_Init (\<lambda>c. Inr ()) default_RuntimeOptions] runtime_start = Some rt \<and>
     map en_key (nd_endpoints (rt_nodes rt ! 0)) = [''openember/default/topics/imu''] \<and>
     fst (runtime_do (Op_CreatePublisher 0 (\<lambda>k. Inr ()) ''gnss'' ''Gnss'') rt) \<noteq> Inr ()"
  using only_current_session_open [of "[Op_Init (\<lambda>c. Inr ()) default_RuntimeOptions, Op_CreateNode ''arm'' '''', Op_CreatePublisher 0 (\<lambda>k. Inr ()) ''imu'' ''Imu'',
      Op_Shutdown, Op_Init (\<lambda>c. Inr ()) default_RuntimeOptions]" _ 0 0 "''gnss''" "''Gnss''"]
  by (simp add: runtime_step_def runtime_start_def rt_Init_def InitContextLocked_def rt_Ok_def Context_Init_def session_Open_def new_Context_def
      CreateNode_def GetGlobalContext_def on_node_def rt_Shutdown_def Context_Shutdown_def session_Close_def Create_defs Let_def keep_endpoint_def
      session_declare_def new_Node_def default_RuntimeOptions_def default_LinkOptions_def TopicKey_def Prefix_def Keys_def ResolveTopicName_def
      JoinName_def node_NormalizeName_def key_NormalizeName_def strip_front_def strip_back_def)

end
