(* ===== verification/Launch_Instance.thy ===== *)
theory Launch_Instance
  imports Launch_Manager Text_Parts Framework
begin

section \<open>One instance of the launch manager (system/launch\_manager/main.cpp)\<close>

text \<open>
  The launch manager keeps a pid file, locked as long as it runs, and \<^verbatim>\<open>launch_manager stop\<close> sends a signal to the process the file
  names. The file system has names, files, and the record lock of each file with the process that owns it; a process
  loses its lock when it closes the file or ends. Several processes run the program at a time, so the functions are
  also cut into the system calls between which another process may act.
\<close>

subsection \<open>The default launch file\<close>

text \<open>A path is cut at its slashes; an absolute one begins with an empty part. \<open>getenv\<close> and \<open>exists\<close> are the environment and the files.\<close>

definition EnvOrDefault :: "(string \<Rightarrow> string option) \<Rightarrow> string \<Rightarrow> string \<Rightarrow> string" where
  "EnvOrDefault getenv name fallback = (case getenv name of Some v \<Rightarrow> if v \<noteq> [] then v else fallback | None \<Rightarrow> fallback)"

text \<open>\<^verbatim>\<open>lexically_normal\<close> of a path whose parts are not empty: a part and the \<open>..\<close> after it cancel, and \<open>..\<close> at the root is dropped.\<close>

fun normal_parts :: "bool \<Rightarrow> string list \<Rightarrow> string list \<Rightarrow> string list" where
  "normal_parts absolute kept [] = rev kept"
| "normal_parts absolute kept (p # ps) =
     (if p = ''.'' then normal_parts absolute kept ps
      else if p = ''..'' then
        (case kept of [] \<Rightarrow> normal_parts absolute (if absolute then [] else [p]) ps
         | b # bs \<Rightarrow> if b = ''..'' then normal_parts absolute (p # kept) ps else normal_parts absolute bs ps)
      else normal_parts absolute (p # kept) ps)"

definition lexically_normal :: "string \<Rightarrow> string" where
  "lexically_normal path =
     (let absolute = starts_with path ''/''; parts = normal_parts absolute [] (filter (\<lambda>p. p \<noteq> []) (split_at (CHR ''/'') path)) in
      if path = [] then [] else if absolute then ''/'' @ join_with ''/'' parts else if parts = [] then ''.'' else join_with ''/'' parts)"

definition kDefaultLaunchFile :: string where
  "kDefaultLaunchFile = ''configs/smart_device.launch.yaml''"

definition kDefaultPidFile :: string where
  "kDefaultPidFile = ''/tmp/openember-launch_manager.pid''"

text \<open>The directory of the program's file; nothing when the link cannot be read.\<close>

definition ExecutableDir :: "string option \<Rightarrow> string" where
  "ExecutableDir exe =
     (case exe of None \<Rightarrow> ''.''
      | Some path \<Rightarrow> if path = [] then ''.'' else case rfind_char path (CHR ''/'') of Some 0 \<Rightarrow> ''/'' | Some i \<Rightarrow> take i path | None \<Rightarrow> [])"

definition append_path :: "string \<Rightarrow> string \<Rightarrow> string" where
  "append_path a b = (if a = [] \<or> last a = CHR ''/'' then a @ b else a @ ''/'' @ b)"

definition ResolveDefaultLaunchFile :: "(string \<Rightarrow> string option) \<Rightarrow> (string \<Rightarrow> bool) \<Rightarrow> string \<Rightarrow> string" where
  "ResolveDefaultLaunchFile getenv exists bin_dir =
     (let env_path = EnvOrDefault getenv ''OPENEMBER_LAUNCH_FILE'' [];
          source_tree_candidate = append_path bin_dir (''../../'' @ kDefaultLaunchFile);
          install_candidate = append_path bin_dir (''../share/openember/'' @ kDefaultLaunchFile) in
      if env_path \<noteq> [] then env_path
      else if exists kDefaultLaunchFile then kDefaultLaunchFile
      else if exists source_tree_candidate then lexically_normal source_tree_candidate
      else if exists install_candidate then lexically_normal install_candidate
      else kDefaultLaunchFile)"

subsection \<open>The pid file\<close>

record files =
  fi_names :: "string \<Rightarrow> nat option"
  fi_data :: "nat \<Rightarrow> string"
  fi_locks :: "nat \<Rightarrow> int option"
  fi_next :: nat

definition EMBER_EOK :: int where "EMBER_EOK = 0"
definition EMBER_ENOFILE :: int where "EMBER_ENOFILE = 11"
definition EMBER_ENOPERM :: int where "EMBER_ENOPERM = 12"

text \<open>The pieces of \<^verbatim>\<open>CreateLockFile\<close> and \<^verbatim>\<open>DestroyLockFile\<close>.\<close>

definition open_create :: "string \<Rightarrow> files \<Rightarrow> nat \<times> files" where
  "open_create path fs =
     (case fi_names fs path of Some i \<Rightarrow> (i, fs)
      | None \<Rightarrow> (fi_next fs, fs\<lparr>fi_names := (fi_names fs)(path \<mapsto> fi_next fs), fi_data := (fi_data fs)(fi_next fs := []), fi_next := Suc (fi_next fs)\<rparr>))"

definition set_lock :: "int \<Rightarrow> nat \<Rightarrow> files \<Rightarrow> files option" where
  "set_lock p i fs =
     (case fi_locks fs i of Some q \<Rightarrow> if q = p then Some fs else None | None \<Rightarrow> Some (fs\<lparr>fi_locks := (fi_locks fs)(i \<mapsto> p)\<rparr>))"

definition pid_text :: "int \<Rightarrow> string" where
  "pid_text p = to_string_int p @ [CHR 0x0A]"

definition write_pid :: "int \<Rightarrow> nat \<Rightarrow> files \<Rightarrow> files" where
  "write_pid p i fs = fs\<lparr>fi_data := (fi_data fs)(i := pid_text p)\<rparr>"

definition release :: "int \<Rightarrow> nat \<Rightarrow> files \<Rightarrow> files" where
  "release p i fs = (if fi_locks fs i = Some p then fs\<lparr>fi_locks := (fi_locks fs)(i := None)\<rparr> else fs)"

definition unlink_name :: "string \<Rightarrow> files \<Rightarrow> files" where
  "unlink_name path fs = fs\<lparr>fi_names := (fi_names fs)(path := None)\<rparr>"

text \<open>\<open>can_open\<close> says whether the file may be opened for writing. The lock file's descriptor is that of the file, or nothing.\<close>

definition CreateLockFile :: "bool \<Rightarrow> int \<Rightarrow> string \<Rightarrow> files \<Rightarrow> int \<times> nat option \<times> files" where
  "CreateLockFile can_open p lockfile fs =
     (if \<not> can_open then (- EMBER_ENOFILE, None, fs)
      else case open_create lockfile fs of (i, fs) \<Rightarrow>
        (case set_lock p i fs of None \<Rightarrow> (- EMBER_ENOPERM, None, fs)
         | Some fs \<Rightarrow> (EMBER_EOK, Some i, write_pid p i fs)))"

definition DestroyLockFile :: "int \<Rightarrow> nat option \<Rightarrow> string \<Rightarrow> files \<Rightarrow> files" where
  "DestroyLockFile p lock_fd lockfile fs =
     unlink_name lockfile (case lock_fd of Some i \<Rightarrow> release p i fs | None \<Rightarrow> fs)"

text \<open>\<^verbatim>\<open>atoi\<close> keeps the low 32 bits of the number.\<close>

definition atoi :: "string \<Rightarrow> int" where
  "atoi s = sint (word_of_int (strtol s) :: 32 word)"

definition ReadPidFile :: "string \<Rightarrow> files \<Rightarrow> int" where
  "ReadPidFile lockfile fs =
     (case fi_names fs lockfile of None \<Rightarrow> - 1
      | Some i \<Rightarrow> let buf = take 31 (fi_data fs i) in if buf = [] then - 1 else atoi buf)"

text \<open>\<open>kill_ok\<close> says whether a process exists and may be signalled. The result has the exit code and the process a signal was sent to.\<close>

definition stop_command :: "(int \<Rightarrow> bool) \<Rightarrow> string \<Rightarrow> files \<Rightarrow> int \<times> int option" where
  "stop_command kill_ok pid_file fs =
     (let p = ReadPidFile pid_file fs in
      if p \<le> 0 then (1, None) else if \<not> kill_ok p then (1, None) else (0, Some p))"

subsection \<open>The start of the program\<close>

text \<open>
  The program ends before it supervises anything, with an exit code, or goes on to the supervision of \<open>launch_init\<close>. \<open>backend\<close> opens
  the transport; from \<^verbatim>\<open>CreateNode\<close> to the services its failure ends the program in the same way, here \<open>set_up\<close>.
\<close>

datatype started = Exits int | Supervises LaunchConfig "nat option"

definition InitLinkRouter :: "((string \<times> string) list \<Rightarrow> string + unit) \<Rightarrow> RuntimeSpec \<Rightarrow> runtime \<Rightarrow> (string + unit) \<times> runtime" where
  "InitLinkRouter backend runtime rt =
     rt_Init backend
       \<lparr>ro_robot_id = rt_robot_id runtime, ro_namespace_name = rt_namespace_name runtime,
        ro_link = default_LinkOptions\<lparr>ln_profile := Profile_kRouter, ln_listen := rt_listen_endpoint runtime\<rparr>\<rparr> rt"

definition launch_main ::
  "'y yaml \<Rightarrow> ((string \<times> string) list \<Rightarrow> string + unit) \<Rightarrow> (string + unit) \<Rightarrow> (int \<Rightarrow> bool) \<Rightarrow> bool \<Rightarrow> int \<Rightarrow> string \<Rightarrow> CliOptions \<Rightarrow>
    runtime \<Rightarrow> files \<Rightarrow> started \<times> runtime \<times> files" where
  "launch_main Y backend set_up kill_ok can_open p bin_dir cli rt fs =
     (if cli_help cli then (Exits (if cli_stop cli \<or> cli_parse_error cli then 1 else 0), rt, fs)
      else if cli_stop cli then (Exits (fst (stop_command kill_ok (cli_pid_file cli) fs)), rt, fs)
      else case CreateLockFile can_open p (cli_pid_file cli) fs of (res, lock_fd, fs) \<Rightarrow>
        if res \<noteq> EMBER_EOK then (Exits 1, rt, fs)
        else
          (let failed = (\<lambda>rt. (Exits 1, rt_Shutdown rt, DestroyLockFile p lock_fd (cli_pid_file cli) fs)) in
           case LoadLaunchConfig Y (cli_launch_file cli) bin_dir of Inl _ \<Rightarrow> failed rt
           | Inr config \<Rightarrow>
               (case InitLinkRouter backend (lc_runtime config) rt of
                  (Inl _, rt) \<Rightarrow> failed rt
                | (Inr _, rt) \<Rightarrow> (case set_up of Inl _ \<Rightarrow> failed rt | Inr _ \<Rightarrow> (Supervises config lock_fd, rt, fs)))))"

text \<open>The end of a program that has supervised.\<close>

definition launch_end :: "int \<Rightarrow> string \<Rightarrow> nat option \<Rightarrow> runtime \<Rightarrow> files \<Rightarrow> runtime \<times> files" where
  "launch_end p pid_file lock_fd rt fs = (rt_Shutdown rt, DestroyLockFile p lock_fd pid_file fs)"

subsection \<open>Several instances at a time\<close>

text \<open>
  Where a process is: before it opens the file, after, with the lock, with its number written (supervising), after closing, gone.
  A process may be killed anywhere, and its number used again for another process.
\<close>

datatype pc = Absent | Opened nat | Locked nat | Running nat | Closed

fun pc_inode :: "pc \<Rightarrow> nat option" where
  "pc_inode (Opened i) = Some i" | "pc_inode (Locked i) = Some i" | "pc_inode (Running i) = Some i" | "pc_inode _ = None"

record instances =
  in_files :: files
  in_pcs :: "int \<Rightarrow> pc"

datatype action = Opens | Locks | Writes | Closes | Unlinks | Dies

inductive instance_step :: "string \<Rightarrow> instances \<Rightarrow> int \<Rightarrow> action \<Rightarrow> instances \<Rightarrow> bool" for path where
  opens: "in_pcs s p = Absent \<Longrightarrow> open_create path (in_files s) = (i, fs) \<Longrightarrow>
    instance_step path s p Opens \<lparr>in_files = fs, in_pcs = (in_pcs s)(p := Opened i)\<rparr>"
| locks: "in_pcs s p = Opened i \<Longrightarrow> set_lock p i (in_files s) = Some fs \<Longrightarrow>
    instance_step path s p Locks \<lparr>in_files = fs, in_pcs = (in_pcs s)(p := Locked i)\<rparr>"
| refused: "in_pcs s p = Opened i \<Longrightarrow> set_lock p i (in_files s) = None \<Longrightarrow>
    instance_step path s p Dies (s\<lparr>in_pcs := (in_pcs s)(p := Absent)\<rparr>)"
| writes: "in_pcs s p = Locked i \<Longrightarrow>
    instance_step path s p Writes \<lparr>in_files = write_pid p i (in_files s), in_pcs = (in_pcs s)(p := Running i)\<rparr>"
| closes: "in_pcs s p = Running i \<Longrightarrow>
    instance_step path s p Closes \<lparr>in_files = release p i (in_files s), in_pcs = (in_pcs s)(p := Closed)\<rparr>"
| unlinks: "in_pcs s p = Closed \<Longrightarrow>
    instance_step path s p Unlinks \<lparr>in_files = unlink_name path (in_files s), in_pcs = (in_pcs s)(p := Absent)\<rparr>"
| dies: "in_pcs s p \<noteq> Absent \<Longrightarrow>
    instance_step path s p Dies
      \<lparr>in_files = (case pc_inode (in_pcs s p) of Some i \<Rightarrow> release p i (in_files s) | None \<Rightarrow> in_files s), in_pcs = (in_pcs s)(p := Absent)\<rparr>"

text \<open>Process numbers are positive numbers of 32 bits. A run is \<open>careful\<close> if no process has the file open when another removes its name.\<close>

definition careful :: "instances \<Rightarrow> action \<Rightarrow> bool" where
  "careful s a \<longleftrightarrow> a = Unlinks \<longrightarrow> (\<forall>q. pc_inode (in_pcs s q) = None)"

inductive instance_run :: "bool \<Rightarrow> string \<Rightarrow> instances \<Rightarrow> instances \<Rightarrow> bool" for all_careful path s0 where
  start: "instance_run all_careful path s0 s0"
| more: "instance_run all_careful path s0 s \<Longrightarrow> instance_step path s p a s' \<Longrightarrow> 0 < p \<Longrightarrow> p < 2 ^ 31 \<Longrightarrow> all_careful \<longrightarrow> careful s a \<Longrightarrow>
    instance_run all_careful path s0 s'"

definition no_instances :: "files \<Rightarrow> instances" where
  "no_instances fs = \<lparr>in_files = fs, in_pcs = (\<lambda>_. Absent)\<rparr>"

text \<open>The processes that hold a lock, and those only, own the lock of their file; a running one has written its number there.\<close>

fun pc_lock :: "pc \<Rightarrow> nat option" where
  "pc_lock (Locked i) = Some i" | "pc_lock (Running i) = Some i" | "pc_lock _ = None"

definition instances_inv :: "instances \<Rightarrow> bool" where
  "instances_inv s \<longleftrightarrow>
     (\<forall>p i. fi_locks (in_files s) i = Some p \<longleftrightarrow> pc_lock (in_pcs s p) = Some i) \<and>
     (\<forall>p i. in_pcs s p = Running i \<longrightarrow> fi_data (in_files s) i = pid_text p \<and> 0 < p \<and> p < 2 ^ 31) \<and>
     (\<forall>p i. pc_inode (in_pcs s p) = Some i \<longrightarrow> i < fi_next (in_files s))"

definition named_inv :: "string \<Rightarrow> instances \<Rightarrow> bool" where
  "named_inv path s \<longleftrightarrow> (\<forall>p i. pc_inode (in_pcs s p) = Some i \<longrightarrow> fi_names (in_files s) path = Some i)"

definition files_ok :: "files \<Rightarrow> bool" where
  "files_ok fs \<longleftrightarrow> (\<forall>path i. fi_names fs path = Some i \<longrightarrow> i < fi_next fs)"

lemma pc_lock_inode: "pc_lock c = Some i \<Longrightarrow> pc_inode c = Some i"
  by (cases c) auto

lemma open_create_cases:
  assumes "open_create path fs = (i, fs')" "files_ok fs"
  obtains "fi_names fs path = Some i" "fs' = fs" | "fi_names fs path = None" "i = fi_next fs"
    "fs' = fs\<lparr>fi_names := (fi_names fs)(path \<mapsto> i), fi_data := (fi_data fs)(i := []), fi_next := Suc i\<rparr>"
  using assms by (auto simp: open_create_def split: option.splits)

lemma instance_step_files_ok: "instance_step path s p a s' \<Longrightarrow> files_ok (in_files s) \<Longrightarrow> files_ok (in_files s')"
  by (auto elim!: instance_step.cases simp: files_ok_def open_create_def set_lock_def write_pid_def release_def unlink_name_def less_SucI
      split: option.splits if_splits)

lemma instance_step_inv:
  assumes "instance_step path s p a s'" "instances_inv s" "files_ok (in_files s)" "0 < p" "p < 2 ^ 31"
  shows "instances_inv s'"
proof -
  have below: "i < fi_next (in_files s)" if "pc_inode (in_pcs s p) = Some i" for i
    using assms(2) that by (simp add: instances_inv_def)
  have free: "pc_lock (in_pcs s q) \<noteq> Some i" if "fi_locks (in_files s) i = None" for q i
    using assms(2) that unfolding instances_inv_def by (metis option.distinct(1))
  have only: "q = r" if "pc_lock (in_pcs s q) = Some i" "pc_lock (in_pcs s r) = Some i" for q r i
    using assms(2) that unfolding instances_inv_def by (metis option.inject)
  show ?thesis using assms(1)
proof (cases rule: instance_step.cases)
  case (opens i fs)
  show ?thesis
  proof (rule open_create_cases [OF opens(4) assms(3)])
    assume "fi_names (in_files s) path = Some i" "fs = in_files s"
    then show ?thesis using opens assms by (auto simp: instances_inv_def files_ok_def)
  next
    assume "fi_names (in_files s) path = None" "i = fi_next (in_files s)"
      "fs = in_files s\<lparr>fi_names := (fi_names (in_files s))(path \<mapsto> i), fi_data := (fi_data (in_files s))(i := []), fi_next := Suc i\<rparr>"
    moreover have "in_pcs s q \<noteq> Running (fi_next (in_files s))" for q
    proof
      assume "in_pcs s q = Running (fi_next (in_files s))"
      then have "pc_inode (in_pcs s q) = Some (fi_next (in_files s))" by simp
      then show False using assms(2) unfolding instances_inv_def by blast
    qed
    ultimately show ?thesis using opens assms by (auto simp: instances_inv_def less_SucI)
  qed
next
  case (locks i fs)
  then show ?thesis using assms free below by (auto simp: instances_inv_def set_lock_def split: option.splits if_splits)
next
  case (refused i)
  then show ?thesis using assms by (auto simp: instances_inv_def)
next
  case (writes i)
  have "in_pcs s q \<noteq> Running i" if "q \<noteq> p" for q
    using assms(2) writes that unfolding instances_inv_def by (metis option.inject pc_lock.simps(1,2))
  then show ?thesis using writes assms below by (auto simp: instances_inv_def write_pid_def)
next
  case (closes i)
  then show ?thesis using assms only [of p i] by (auto simp: instances_inv_def release_def)
next
  case unlinks
  then show ?thesis using assms by (auto simp: instances_inv_def unlink_name_def)
next
  case dies
  then show ?thesis using assms only [of p] by (cases "in_pcs s p") (auto simp: instances_inv_def release_def)
qed
qed

lemma instance_step_named:
  assumes "instance_step path s p a s'" "named_inv path s" "careful s a" "files_ok (in_files s)"
  shows "named_inv path s'"
proof -
  have here: "fi_names (in_files s) path = Some i" if "pc_inode (in_pcs s p) = Some i" for i
    using assms(2) that by (simp add: named_inv_def)
  show ?thesis using assms(1)
proof (cases rule: instance_step.cases)
  case (opens i fs)
  show ?thesis
  proof (rule open_create_cases [OF opens(4) assms(4)])
    assume "fi_names (in_files s) path = Some i" "fs = in_files s"
    then show ?thesis using opens assms by (auto simp: named_inv_def)
  next
    assume "fi_names (in_files s) path = None" "i = fi_next (in_files s)"
      "fs = in_files s\<lparr>fi_names := (fi_names (in_files s))(path \<mapsto> i), fi_data := (fi_data (in_files s))(i := []), fi_next := Suc i\<rparr>"
    then show ?thesis using opens assms by (auto simp: named_inv_def)
  qed
next
  case (locks i fs)
  then show ?thesis using assms here by (auto simp: named_inv_def set_lock_def split: option.splits if_splits)
next
  case (refused i)
  then show ?thesis using assms by (auto simp: named_inv_def)
next
  case (writes i)
  then show ?thesis using assms here by (auto simp: named_inv_def write_pid_def)
next
  case (closes i)
  then show ?thesis using assms by (auto simp: named_inv_def release_def)
next
  case unlinks
  then show ?thesis using assms by (auto simp: named_inv_def careful_def)
next
  case dies
  then show ?thesis using assms by (auto simp: named_inv_def release_def split: option.splits)
qed
qed

lemma instance_run_inv:
  assumes "instance_run all_careful path (no_instances fs) s" "files_ok fs" "\<forall>i. fi_locks fs i = None"
  shows "instances_inv s \<and> files_ok (in_files s) \<and> (all_careful \<longrightarrow> named_inv path s)"
  using assms(1)
proof (induction rule: instance_run.induct)
  case start
  then show ?case using assms(2,3) by (simp add: no_instances_def instances_inv_def named_inv_def)
next
  case (more s p a s')
  then show ?case by (blast intro: instance_step_inv instance_step_files_ok instance_step_named)
qed

text \<open>The number is read back: a line feed ends it.\<close>

lemma strtol_pid: "0 \<le> p \<Longrightarrow> p < 2 ^ 31 \<Longrightarrow> strtol (pid_text p) = p"
proof -
  assume p: "0 \<le> p" "p < 2 ^ 31"
  let ?t = "to_string_nat (nat p)"
  have t: "pid_text p = ?t @ [CHR 0x0A]" using p by (simp add: pid_text_def to_string_int_def)
  obtain c w where w: "?t = c # w" by (cases ?t) auto
  have digits: "\<forall>c\<in>set ?t. is_digit c" by (rule to_string_nat_digits)
  then have c: "is_digit c" using w by simp
  have "dropWhile is_space (?t @ [CHR 0x0A]) = ?t @ [CHR 0x0A]" using digit_not_sign [OF c] by (simp add: w)
  moreover have "takeWhile is_digit (?t @ [CHR 0x0A]) = ?t"
    using digits by (simp add: takeWhile_append2 is_digit_code)
  ultimately show ?thesis using digit_not_sign [OF c] p by (simp add: strtol_def t w del: to_string_nat.simps) (simp add: w [symmetric])
qed

lemma atoi_pid: "0 \<le> p \<Longrightarrow> p < 2 ^ 31 \<Longrightarrow> atoi (pid_text p) = p"
  by (simp add: atoi_def strtol_pid sint_sbintrunc' signed_take_bit_int_eq_self)

lemma to_string_nat_length: "n < 10 ^ k \<Longrightarrow> 0 < k \<Longrightarrow> length (to_string_nat n) \<le> k"
proof (induction n arbitrary: k rule: to_string_nat.induct)
  case (1 n)
  show ?case
  proof (cases "n < 10")
    case False
    then obtain j where k: "k = Suc j" "0 < j" using 1(2,3) by (cases k; cases "k - 1") auto
    have "length (to_string_nat (n div 10)) \<le> j" using 1(1) [OF False] 1(2) k by simp
    then show ?thesis using False k by (subst to_string_nat.simps) simp
  qed (use 1 in \<open>subst to_string_nat.simps, simp\<close>)
qed

lemma pid_text_short: "0 \<le> p \<Longrightarrow> p < 2 ^ 31 \<Longrightarrow> length (pid_text p) \<le> 31"
proof -
  assume "0 \<le> p" "p < 2 ^ 31"
  then have "length (to_string_nat (nat p)) \<le> 10" by (intro to_string_nat_length) simp_all
  with \<open>0 \<le> p\<close> show ?thesis by (simp add: pid_text_def to_string_int_def)
qed

lemma written_pid_is_read:
  assumes "fi_names fs path = Some i" "fi_data fs i = pid_text p" "0 < p" "p < 2 ^ 31"
  shows "ReadPidFile path fs = p"
proof -
  have "take 31 (pid_text p) = pid_text p" using assms(3,4) by (intro take_all pid_text_short) simp_all
  moreover have "pid_text p \<noteq> []" by (simp add: pid_text_def)
  ultimately show ?thesis using assms atoi_pid [of p] by (simp add: ReadPidFile_def Let_def)
qed

text \<open>The steps as a function, for runs that are given as a list of actions.\<close>

definition instance_do :: "string \<Rightarrow> int \<times> action \<Rightarrow> instances \<Rightarrow> instances option" where
  "instance_do path pa s =
     (case pa of (p, a) \<Rightarrow>
      let to = (\<lambda>fs c. \<lparr>in_files = fs, in_pcs = (in_pcs s)(p := c)\<rparr>) in
      case (a, in_pcs s p) of
        (Opens, Absent) \<Rightarrow> (case open_create path (in_files s) of (i, fs) \<Rightarrow> Some (to fs (Opened i)))
      | (Locks, Opened i) \<Rightarrow> (case set_lock p i (in_files s) of Some fs \<Rightarrow> Some (to fs (Locked i)) | None \<Rightarrow> None)
      | (Writes, Locked i) \<Rightarrow> Some (to (write_pid p i (in_files s)) (Running i))
      | (Closes, Running i) \<Rightarrow> Some (to (release p i (in_files s)) Closed)
      | (Unlinks, Closed) \<Rightarrow> Some (to (unlink_name path (in_files s)) Absent)
      | (Dies, Running i) \<Rightarrow> Some (to (release p i (in_files s)) Absent)
      | _ \<Rightarrow> None)"

lemma instance_do_step: "instance_do path (p, a) s = Some s' \<Longrightarrow> instance_step path s p a s'"
  using instance_step.dies [of s p path]
  by (auto simp: instance_do_def Let_def split: action.splits pc.splits prod.splits option.splits intro: instance_step.intros(1-6))

lemma run_instances:
  assumes "run_ops (instance_do path) cs s = Some s'" "list_all (\<lambda>(p, a). 0 < p \<and> p < 2 ^ 31 \<and> (all_careful \<longrightarrow> a \<noteq> Unlinks)) cs"
    and "instance_run all_careful path s0 s"
  shows "instance_run all_careful path s0 s'"
  using assms
proof (induction cs arbitrary: s)
  case (Cons c cs)
  obtain p a where c: "c = (p, a)" by (rule prod.exhaust)
  obtain s1 where s1: "instance_do path (p, a) s = Some s1" "run_ops (instance_do path) cs s1 = Some s'"
    using Cons.prems(1) by (auto simp: c split: option.splits)
  have "instance_run all_careful path s0 s1"
    using Cons.prems(2) c by (intro instance_run.more [OF Cons.prems(3) instance_do_step [OF s1(1)]]) (auto simp: careful_def)
  with Cons s1(2) show ?case by simp
qed simp

definition no_files :: files where
  "no_files = \<lparr>fi_names = Map.empty, fi_data = (\<lambda>_. []), fi_locks = (\<lambda>_. None), fi_next = 0\<rparr>"

definition unlocked :: "files \<Rightarrow> bool" where
  "unlocked fs \<longleftrightarrow> files_ok fs \<and> fi_locks fs = (\<lambda>_. None)"

definition start_up :: "int \<Rightarrow> (int \<times> action) list" where
  "start_up p = [(p, Opens), (p, Locks), (p, Writes)]"



end
