(* ===== verification/Parameter_Store.thy ===== *)
theory Parameter_Store
  imports Messages
begin

section \<open>The configuration service (system/config\_service/main.cpp)\<close>

text \<open>
  Class \<^verbatim>\<open>ParameterStore\<close> is an ordered map from names to parameters. \<open>config\<close> is the
  program's state: the store, the sequence counters and the messages published so far.
  A request or a round of the main loop is an operation on it; clock values are arguments.
\<close>

datatype ParameterType = PARAMETER_TYPE_UNSPECIFIED | PARAMETER_TYPE_STRING | PARAMETER_TYPE_OTHER nat

text \<open>A value holds a string or, which is not told apart here, something else.\<close>

record ParameterValue =
  pv_type :: ParameterType
  pv_string_value :: "string option"

record ParameterDefinition =
  pd_name :: string
  pd_type :: ParameterType
  pd_description :: string
  pd_read_only :: bool
  pd_default_value :: ParameterValue

record Parameter =
  pm_definition :: ParameterDefinition
  pm_value :: ParameterValue

definition MakeStringParameter :: "string \<Rightarrow> string \<Rightarrow> string \<Rightarrow> bool \<Rightarrow> Parameter" where
  "MakeStringParameter name description v read_only =
     (let sv = \<lparr>pv_type = PARAMETER_TYPE_STRING, pv_string_value = Some v\<rparr> in
      \<lparr>pm_definition = \<lparr>pd_name = name, pd_type = PARAMETER_TYPE_STRING, pd_description = description,
         pd_read_only = read_only, pd_default_value = sv\<rparr>, pm_value = sv\<rparr>)"

abbreviation param_name :: "Parameter \<Rightarrow> string" where
  "param_name p \<equiv> pd_name (pm_definition p)"

subsection \<open>The store\<close>

type_synonym parameters = "(string, Parameter) smap"

definition Put :: "Parameter \<Rightarrow> parameters \<Rightarrow> parameters" where
  "Put p ps = smap_put (param_name p) p ps"

definition ParameterStore :: parameters where
  "ParameterStore =
     Put (MakeStringParameter ''runtime.robot_id'' ''OpenEmber robot id'' ''openember'' True)
       (Put (MakeStringParameter ''product.mode'' ''Current product mode'' ''demo'' False) [])"

fun Get_named :: "parameters \<Rightarrow> string list \<Rightarrow> Parameter list" where
  "Get_named ps [] = []"
| "Get_named ps (name # names) =
     (case smap_get ps name of None \<Rightarrow> Get_named ps names | Some p \<Rightarrow> p # Get_named ps names)"

definition Get :: "parameters \<Rightarrow> string list \<Rightarrow> Parameter list" where
  "Get ps names = (if names = [] then map snd (smap_entries ps) else Get_named ps names)"

text \<open>The first loop of \<^verbatim>\<open>Set\<close>: the message of the first parameter refused, if any.\<close>

fun Set_refusal :: "parameters \<Rightarrow> Parameter list \<Rightarrow> string option" where
  "Set_refusal ps [] = None"
| "Set_refusal ps (p # rest) =
     (if param_name p = [] then Some ''parameter name is required''
      else case smap_get ps (param_name p) of
          Some existing \<Rightarrow>
            if pd_read_only (pm_definition existing) then Some (''parameter is read-only: '' @ param_name p)
            else Set_refusal ps rest
        | None \<Rightarrow> Set_refusal ps rest)"

fun Set_all :: "Parameter list \<Rightarrow> parameters \<Rightarrow> parameters \<times> Parameter list" where
  "Set_all [] ps = (ps, [])"
| "Set_all (p # rest) ps =
     (let ps = Put p ps; c = the (smap_get ps (param_name p)); (ps, changed) = Set_all rest ps in (ps, c # changed))"

definition Set_parameters :: "Parameter list \<Rightarrow> parameters \<Rightarrow> bool \<times> string \<times> Parameter list \<times> parameters" where
  "Set_parameters params ps =
     (case Set_refusal ps params of
        Some message \<Rightarrow> (False, message, [], ps)
      | None \<Rightarrow> let (ps, changed) = Set_all params ps in (True, ''ok'', changed, ps))"

definition Size :: "parameters \<Rightarrow> nat" where
  "Size ps = length (smap_entries ps)"

subsection \<open>Messages\<close>

record GetParameterRequest =
  gr_header :: Header
  gr_names :: "string list"

record SetParameterRequest =
  sq_header :: Header
  sq_parameters :: "Parameter list"

text \<open>\<^verbatim>\<open>GetParameterResponse\<close> and \<^verbatim>\<open>SetParameterResponse\<close> have the same fields.\<close>

record ParameterResponse =
  pr_header :: Header
  pr_status :: Status
  pr_parameters :: "Parameter list"

record ParameterEvent =
  evt_header :: Header
  evt_node_name :: string
  evt_parameters :: "Parameter list"

definition cfg_FillHeader :: "u64 \<Rightarrow> u64 \<Rightarrow> Header option \<Rightarrow> Header" where
  "cfg_FillHeader sequence t request_header = service_header ''config_service'' sequence t request_header"

definition cfg_BuildNodeInfo :: "u64 \<Rightarrow> u64 \<Rightarrow> u32 \<Rightarrow> u64 \<Rightarrow> NodeInfo" where
  "cfg_BuildNodeInfo sequence start_time_unix_ns p t =
     AddCapability ''parameter_events'' (AddCapability ''parameter_set'' (AddCapability ''parameter_get''
     (AddLabel ''role'' ''system''
     (AddService ''/parameters/set'' ''openember.msgs.parameter.v1.SetParameterRequest'' ''openember.msgs.parameter.v1.SetParameterResponse''
     (AddService ''/parameters/get'' ''openember.msgs.parameter.v1.GetParameterRequest'' ''openember.msgs.parameter.v1.GetParameterResponse''
     (AddTopic ''/parameters/events'' ''openember.msgs.parameter.v1.ParameterEvent'' ENDPOINT_DIRECTION_PUBLISHER
     (AddTopic ''/nodes/config_service/heartbeat'' ''openember.msgs.node.v1.NodeHeartbeat'' ENDPOINT_DIRECTION_PUBLISHER
     (AddTopic ''/nodes/config_service/info'' ''openember.msgs.node.v1.NodeInfo'' ENDPOINT_DIRECTION_PUBLISHER
     (service_node ''config_service'' sequence start_time_unix_ns p t)))))))))"

definition BuildGetResponse :: "GetParameterRequest \<Rightarrow> Parameter list \<Rightarrow> u64 \<Rightarrow> u64 \<Rightarrow> ParameterResponse" where
  "BuildGetResponse request params sequence t =
     \<lparr>pr_header = cfg_FillHeader sequence t (Some (gr_header request)),
      pr_status = service_status True ''ok'', pr_parameters = params\<rparr>"

definition BuildSetResponse ::
    "SetParameterRequest \<Rightarrow> bool \<Rightarrow> string \<Rightarrow> Parameter list \<Rightarrow> u64 \<Rightarrow> u64 \<Rightarrow> ParameterResponse" where
  "BuildSetResponse request ok message params sequence t =
     \<lparr>pr_header = cfg_FillHeader sequence t (Some (sq_header request)),
      pr_status = service_status ok message, pr_parameters = params\<rparr>"

definition BuildParameterEvent :: "Parameter list \<Rightarrow> u64 \<Rightarrow> u64 \<Rightarrow> ParameterEvent" where
  "BuildParameterEvent params sequence t =
     \<lparr>evt_header = cfg_FillHeader sequence t None, evt_node_name = ''config_service'', evt_parameters = params\<rparr>"

subsection \<open>The service\<close>

datatype config_message = Config_node NodeInfo | Config_heartbeat NodeHeartbeat | Config_event ParameterEvent

record config =
  cs_store :: parameters
  cs_service_sequence :: u64
  cs_event_sequence :: u64
  cs_sequence :: u64
  cs_info_sequence :: u64
  cs_published :: "config_message list"

definition config_init :: config where
  "config_init = \<lparr>cs_store = ParameterStore, cs_service_sequence = 0, cs_event_sequence = 0, cs_sequence = 0,
     cs_info_sequence = 0, cs_published = []\<rparr>"

definition cfg_publish :: "config_message \<Rightarrow> config \<Rightarrow> config" where
  "cfg_publish msg s = s\<lparr>cs_published := cs_published s @ [msg]\<rparr>"

definition on_get :: "u64 \<Rightarrow> GetParameterRequest \<Rightarrow> config \<Rightarrow> ParameterResponse \<times> config" where
  "on_get t request s =
     (BuildGetResponse request (Get (cs_store s) (gr_names request)) (cs_service_sequence s) t,
      s\<lparr>cs_service_sequence := cs_service_sequence s + 1\<rparr>)"

definition on_set :: "u64 \<Rightarrow> SetParameterRequest \<Rightarrow> config \<Rightarrow> ParameterResponse \<times> config" where
  "on_set t request s =
     (let (ok, message, changed, store) = Set_parameters (sq_parameters request) (cs_store s);
          s = s\<lparr>cs_store := store\<rparr>;
          s = (if ok \<and> changed \<noteq> []
               then (cfg_publish (Config_event (BuildParameterEvent changed (cs_event_sequence s) t)) s)
                      \<lparr>cs_event_sequence := cs_event_sequence s + 1\<rparr>
               else s) in
      (BuildSetResponse request ok message changed (cs_service_sequence s) t,
       s\<lparr>cs_service_sequence := cs_service_sequence s + 1\<rparr>))"

definition config_round :: "u64 \<Rightarrow> u64 \<Rightarrow> u64 \<Rightarrow> u32 \<Rightarrow> config \<Rightarrow> config" where
  "config_round start_time t uptime p s =
     (let s = (if cs_sequence s mod 10 = 0
               then (cfg_publish (Config_node (cfg_BuildNodeInfo (cs_info_sequence s) start_time p t)) s)
                      \<lparr>cs_info_sequence := cs_info_sequence s + 1\<rparr>
               else s);
          heartbeat = service_heartbeat ''config_service'' ''serving parameters'' (cs_sequence s) t uptime
            [\<lparr>mt_name = ''config_service.parameters'', mt_value = int (Size (cs_store s)), mt_unit = ''count''\<rparr>] in
      (cfg_publish (Config_heartbeat heartbeat) s)\<lparr>cs_sequence := cs_sequence s + 1\<rparr>)"

datatype config_op = Get_request u64 GetParameterRequest | Set_request u64 SetParameterRequest | Round u64 u64 u64 u32

fun config_step :: "config_op \<Rightarrow> config \<Rightarrow> config option" where
  "config_step (Get_request t r) s = Some (snd (on_get t r s))"
| "config_step (Set_request t r) s = Some (snd (on_set t r s))"
| "config_step (Round st t up p) s = Some (config_round st t up p s)"

subsection \<open>Facts about the store\<close>

definition store_ok :: "parameters \<Rightarrow> bool" where
  "store_ok ps \<longleftrightarrow> smap_wf ps \<and> (\<forall>n p. smap_get ps n = Some p \<longrightarrow> n \<noteq> [] \<and> param_name p = n)"

lemma store_ok_Put: "store_ok ps \<Longrightarrow> param_name p \<noteq> [] \<Longrightarrow> store_ok (Put p ps)"
  by (auto simp: store_ok_def Put_def smap_put_wf smap_get_put)

lemma ParameterStore_ok: "store_ok ParameterStore"
  unfolding ParameterStore_def
  by (intro store_ok_Put) (auto simp: store_ok_def smap_wf_def smap_get_def MakeStringParameter_def Let_def)

lemma Set_all_puts:
  "smap_wf ps \<Longrightarrow> Set_all params ps = (reg.puts param_name id params ps, params)"
  by (induction params arbitrary: ps) (simp_all add: Put_def smap_put_wf smap_get_put)

lemma Set_refusal_None:
  "Set_refusal ps params = None \<longleftrightarrow> (\<forall>p\<in>set params. param_name p \<noteq> [] \<and>
     (\<forall>e. smap_get ps (param_name p) = Some e \<longrightarrow> \<not> pd_read_only (pm_definition e)))"
  by (induction params) (auto split: option.splits)

lemma store_ok_puts: "store_ok ps \<Longrightarrow> \<forall>p\<in>set params. param_name p \<noteq> [] \<Longrightarrow> store_ok (reg.puts param_name id params ps)"
  by (induction params arbitrary: ps) (auto simp: store_ok_Put [unfolded Put_def])

lemma Set_parameters_cases:
  assumes "store_ok ps" "Set_parameters params ps = (ok, message, changed, ps')"
  obtains (refused) "\<not> ok" "ps' = ps" "changed = []" "Set_refusal ps params = Some message"
  | (stored) "ok" "ps' = reg.puts param_name id params ps" "changed = params" "message = ''ok''" "Set_refusal ps params = None"
proof (cases "Set_refusal ps params")
  case None
  with assms Set_all_puts [of ps params] show ?thesis
    by (intro stored) (auto simp: Set_parameters_def store_ok_def)
next
  case (Some msg)
  with assms show ?thesis by (intro refused) (auto simp: Set_parameters_def)
qed

lemma Set_parameters_ok:
  assumes "store_ok ps" "Set_parameters params ps = (ok, message, changed, ps')"
  shows "store_ok ps'"
  using assms
proof (cases rule: Set_parameters_cases)
  case stored
  with assms(1) Set_refusal_None [of ps params] show ?thesis by (simp add: store_ok_puts)
qed (use assms in simp)

lemma Set_parameters_read_only:
  assumes "store_ok ps" "Set_parameters params ps = (ok, message, changed, ps')"
    and "smap_get ps n = Some p" "pd_read_only (pm_definition p)"
  shows "smap_get ps' n = Some p"
  using assms(1,2)
proof (cases rule: Set_parameters_cases)
  case stored
  then have "n \<notin> param_name ` set params" using Set_refusal_None [of ps params] assms(3,4) by auto
  with stored assms(1,3) show ?thesis by (simp add: reg.get_puts_other store_ok_def)
qed (use assms in simp)

lemma config_step_store:
  assumes "config_step c s = Some s'"
  obtains (same) "cs_store s' = cs_store s"
  | (set) ok message changed params where "Set_parameters params (cs_store s) = (ok, message, changed, cs_store s')"
proof (cases c)
  case (Set_request t r)
  obtain ok message changed store where set': "Set_parameters (sq_parameters r) (cs_store s) = (ok, message, changed, store)"
    by (metis prod_cases4)
  with assms Set_request have "cs_store s' = store" by (auto simp: on_set_def cfg_publish_def Let_def split: if_splits)
  with set set' show ?thesis by blast
qed (use assms same in \<open>auto simp: on_get_def config_round_def cfg_publish_def Let_def split: if_splits\<close>)

interpretation cfg: guarded_machine config_step "\<lambda>c. True"
  "\<lambda>s. store_ok (cs_store s) \<and> smap_get (cs_store s) n = Some p \<and> pd_read_only (pm_definition p)" for n p
  by unfold_locales (erule config_step_store, auto intro: Set_parameters_ok Set_parameters_read_only)

subsection \<open>Properties\<close>

text \<open>C12: A set request is all or nothing. It is refused exactly when one of its parameters has no name or
  names a read-only parameter, and then nothing changes; otherwise the last value given for each
  name is stored, every other parameter keeps its value, and all parameters of the request are
  reported as changed.\<close>

theorem Set_all_or_nothing:
  assumes "store_ok ps" and "Set_parameters params ps = (ok, message, changed, ps')"
  shows "(ok \<longleftrightarrow> (\<forall>p\<in>set params. param_name p \<noteq> [] \<and>
            (\<forall>e. smap_get ps (param_name p) = Some e \<longrightarrow> \<not> pd_read_only (pm_definition e)))) \<and>
    (if ok then changed = params \<and>
       (\<forall>n. smap_get ps' n = (case filter (\<lambda>p. param_name p = n) params of [] \<Rightarrow> smap_get ps n | qs \<Rightarrow> Some (last qs)))
     else changed = [] \<and> ps' = ps)"
  using assms
proof (cases rule: Set_parameters_cases)
  case refused
  with Set_refusal_None [of ps params] show ?thesis by auto
next
  case stored
  with Set_refusal_None [of ps params] assms(1) show ?thesis
    by (simp add: reg.get_puts store_ok_def cong: list.case_cong)
qed

theorem Set_all_or_nothing_witness:
  "let p = MakeStringParameter ''product.mode'' '''' ''field'' False;
       q = MakeStringParameter ''runtime.robot_id'' '''' ''x'' False in
   snd (snd (snd (Set_parameters [p, q] ParameterStore))) = ParameterStore"
proof -
  let ?p = "MakeStringParameter ''product.mode'' '''' ''field'' False"
  let ?q = "MakeStringParameter ''runtime.robot_id'' '''' ''x'' False"
  obtain ok message changed ps' where set: "Set_parameters [?p, ?q] ParameterStore = (ok, message, changed, ps')"
    by (metis prod_cases4)
  have "fst (Set_parameters [?p, ?q] ParameterStore) = False" by code_simp
  with Set_all_or_nothing [OF ParameterStore_ok set] set show ?thesis by (simp add: Let_def)
qed

text \<open>A read-only parameter never changes: after any sequence of get requests, set requests and rounds of
  the service, the robot id is still the one the service started with.\<close>

theorem robot_id_constant:
  assumes "run_ops config_step ops config_init = Some s"
  shows "smap_get (cs_store s) ''runtime.robot_id'' =
    Some (MakeStringParameter ''runtime.robot_id'' ''OpenEmber robot id'' ''openember'' True)"
proof -
  let ?p = "MakeStringParameter ''runtime.robot_id'' ''OpenEmber robot id'' ''openember'' True"
  have "smap_get (cs_store config_init) ''runtime.robot_id'' = Some ?p"
    "pd_read_only (pm_definition ?p)" by code_simp+
  moreover have "store_ok (cs_store config_init)" using ParameterStore_ok by (simp add: config_init_def)
  ultimately show ?thesis
    using cfg.run_inv [of config_init "''runtime.robot_id''" ?p ops s] assms by (simp add: list_all_iff)
qed

theorem robot_id_constant_witness:
  "case run_ops config_step [Set_request 5 \<lparr>sq_header = empty_header, sq_parameters =
      [MakeStringParameter ''runtime.robot_id'' '''' ''other'' False]\<rparr>, Round 0 7 1 42] config_init of
     None \<Rightarrow> False | Some s \<Rightarrow> smap_get (cs_store s) ''runtime.robot_id'' \<noteq> None"
  using robot_id_constant [of "[Set_request 5 \<lparr>sq_header = empty_header, sq_parameters =
      [MakeStringParameter ''runtime.robot_id'' '''' ''other'' False]\<rparr>, Round 0 7 1 42]"]
  by (auto split: option.splits)

fun events_in :: "config_message list \<Rightarrow> ParameterEvent list" where
  "events_in [] = []"
| "events_in (Config_event ev # msgs) = ev # events_in msgs"
| "events_in (msg # msgs) = events_in msgs"

lemma events_in_append [simp]: "events_in (xs @ ys) = events_in xs @ events_in ys"
  by (induction xs rule: events_in.induct) auto

lemma cfg_events_step:
  assumes "config_step c s = Some s'"
  shows "events_in (cs_published s') = events_in (cs_published s) \<and> cs_event_sequence s' = cs_event_sequence s \<or>
    (\<exists>ev. events_in (cs_published s') = events_in (cs_published s) @ [ev] \<and>
       h_sequence (evt_header ev) = cs_event_sequence s \<and> cs_event_sequence s' = cs_event_sequence s + 1)"
  using assms
  by (cases c) (auto simp: on_get_def on_set_def config_round_def cfg_publish_def BuildParameterEvent_def
      cfg_FillHeader_def Let_def split: prod.splits if_splits)

definition events_numbered :: "config \<Rightarrow> bool" where
  "events_numbered s \<longleftrightarrow>
     map (h_sequence \<circ> evt_header) (events_in (cs_published s)) = map of_nat [0..<length (events_in (cs_published s))] \<and>
     cs_event_sequence s = of_nat (length (events_in (cs_published s)))"

interpretation cfg_events: guarded_machine config_step "\<lambda>c. True" events_numbered
proof unfold_locales
  fix s s' c assume num: "events_numbered s" and step: "config_step c s = Some s'"
  from cfg_events_step [OF step] num show "events_numbered s'"
    by (elim disjE exE conjE) (simp_all add: events_numbered_def)
qed

text \<open>Parameter events are numbered without gaps: the n-th change event published has sequence number n
  (modulo 2^64), whatever requests and rounds come between.\<close>

theorem event_numbers_consecutive:
  assumes "run_ops config_step ops config_init = Some s"
  shows "map (h_sequence \<circ> evt_header) (events_in (cs_published s)) =
    map of_nat [0..<length (events_in (cs_published s))]"
proof -
  have "events_numbered config_init" by (simp add: events_numbered_def config_init_def)
  with cfg_events.run_inv [OF this _ assms] show ?thesis by (simp add: events_numbered_def list_all_iff)
qed

theorem event_numbers_consecutive_witness:
  "case run_ops config_step [Set_request 5 \<lparr>sq_header = empty_header, sq_parameters =
      [MakeStringParameter ''product.mode'' '''' ''field'' False]\<rparr>] config_init of
     None \<Rightarrow> False | Some s \<Rightarrow> map (h_sequence \<circ> evt_header) (events_in (cs_published s)) =
       map of_nat [0..<length (events_in (cs_published s))]"
  using event_numbers_consecutive [of "[Set_request 5 \<lparr>sq_header = empty_header, sq_parameters =
      [MakeStringParameter ''product.mode'' '''' ''field'' False]\<rparr>]"]
  by (auto split: option.splits)

end
