(* ===== verification/Device_Registry.thy ===== *)
theory Device_Registry
  imports Messages
begin

section \<open>The device manager (system/device\_manager/main.cpp)\<close>

text \<open>
  Class \<^verbatim>\<open>DeviceRegistry\<close> maps device ids to what was announced and reported for them.
  \<open>devmgr\<close> is the state of the program, whose main loop also announces its own demo device.
\<close>

datatype DeviceCategory =
    DEVICE_CATEGORY_UNSPECIFIED | DEVICE_CATEGORY_SENSOR | DEVICE_CATEGORY_ACTUATOR | DEVICE_CATEGORY_OTHER nat
datatype DeviceAvailability =
    DEVICE_AVAILABILITY_UNSPECIFIED | DEVICE_AVAILABILITY_ONLINE | DEVICE_AVAILABILITY_OFFLINE
  | DEVICE_AVAILABILITY_ERROR | DEVICE_AVAILABILITY_OTHER nat

record DeviceInfo =
  di_header :: Header
  di_device_id :: string
  di_name :: string
  di_category :: DeviceCategory
  di_driver :: string
  di_path :: string
  di_bus :: string
  di_capabilities :: "string list"
  di_labels :: "(string \<times> string) list"

record DeviceState =
  ds_header :: Header
  ds_device_id :: string
  ds_availability :: DeviceAvailability
  ds_health :: HealthState
  ds_message :: string
  ds_metrics :: "Metric list"
  ds_properties :: "(string \<times> string) list"

record ManagedDevice =
  md_info :: DeviceInfo
  md_state :: DeviceState
  md_has_info :: bool
  md_has_state :: bool

definition default_DeviceInfo :: DeviceInfo where
  "default_DeviceInfo = \<lparr>di_header = empty_header, di_device_id = [], di_name = [], di_category = DEVICE_CATEGORY_UNSPECIFIED,
     di_driver = [], di_path = [], di_bus = [], di_capabilities = [], di_labels = []\<rparr>"

definition default_DeviceState :: DeviceState where
  "default_DeviceState = \<lparr>ds_header = empty_header, ds_device_id = [], ds_availability = DEVICE_AVAILABILITY_UNSPECIFIED,
     ds_health = HEALTH_STATE_UNSPECIFIED, ds_message = [], ds_metrics = [], ds_properties = []\<rparr>"

definition new_ManagedDevice :: ManagedDevice where
  "new_ManagedDevice = \<lparr>md_info = default_DeviceInfo, md_state = default_DeviceState, md_has_info = False, md_has_state = False\<rparr>"

record DeviceQuery =
  dq_header :: Header
  dq_device_id :: string
  dq_category :: DeviceCategory
  dq_include_state :: bool

record DeviceQueryResponse =
  dr_header :: Header
  dr_status :: Status
  dr_devices :: "DeviceInfo list"
  dr_states :: "DeviceState list"

definition dev_FillHeader :: "u64 \<Rightarrow> u64 \<Rightarrow> Header option \<Rightarrow> Header" where
  "dev_FillHeader sequence t request_header = service_header ''device_manager'' sequence t request_header"

definition dev_BuildNodeInfo :: "u64 \<Rightarrow> u64 \<Rightarrow> u32 \<Rightarrow> u64 \<Rightarrow> NodeInfo" where
  "dev_BuildNodeInfo sequence start_time_unix_ns p t =
     AddCapability ''device_topic_aggregation'' (AddCapability ''device_query'' (AddCapability ''device_registry''
     (AddLabel ''role'' ''system''
     (AddService ''/devices/query'' ''openember.msgs.device.v1.DeviceQuery'' ''openember.msgs.device.v1.DeviceQueryResponse''
     (AddTopic ''/devices/*/state'' ''openember.msgs.device.v1.DeviceState'' ENDPOINT_DIRECTION_SUBSCRIBER
     (AddTopic ''/devices/*/info'' ''openember.msgs.device.v1.DeviceInfo'' ENDPOINT_DIRECTION_SUBSCRIBER
     (AddTopic ''/devices/runtime_demo/state'' ''openember.msgs.device.v1.DeviceState'' ENDPOINT_DIRECTION_PUBLISHER
     (AddTopic ''/devices/runtime_demo/info'' ''openember.msgs.device.v1.DeviceInfo'' ENDPOINT_DIRECTION_PUBLISHER
     (AddTopic ''/nodes/device_manager/heartbeat'' ''openember.msgs.node.v1.NodeHeartbeat'' ENDPOINT_DIRECTION_PUBLISHER
     (AddTopic ''/nodes/device_manager/info'' ''openember.msgs.node.v1.NodeInfo'' ENDPOINT_DIRECTION_PUBLISHER
     (service_node ''device_manager'' sequence start_time_unix_ns p t)))))))))))"

definition BuildInitialDevices :: "u64 \<Rightarrow> ManagedDevice list" where
  "BuildInitialDevices t =
     [\<lparr>md_info = default_DeviceInfo\<lparr>di_header := dev_FillHeader 0 t None, di_device_id := ''runtime_demo'',
         di_name := ''Runtime Demo Device'', di_category := DEVICE_CATEGORY_SENSOR, di_driver := ''openember.demo'',
         di_path := ''virtual://runtime_demo'', di_bus := ''virtual'',
         di_capabilities := [''heartbeat_source'', ''demo_sensor''], di_labels := [(''source'', ''static'')]\<rparr>,
       md_state = default_DeviceState\<lparr>ds_header := dev_FillHeader 0 t None, ds_device_id := ''runtime_demo'',
         ds_availability := DEVICE_AVAILABILITY_ONLINE, ds_health := HEALTH_STATE_OK,
         ds_message := ''runtime demo device online''\<rparr>,
       md_has_info = True, md_has_state = True\<rparr>]"

subsection \<open>The registry\<close>

type_synonym devices = "(string, ManagedDevice) smap"

definition device_at :: "devices \<Rightarrow> string \<Rightarrow> ManagedDevice" where
  "device_at devices n = (case smap_get devices n of None \<Rightarrow> new_ManagedDevice | Some d \<Rightarrow> d)"

text \<open>The state recorded for an announced device that has not reported any.\<close>

definition unreported :: "DeviceInfo \<Rightarrow> ManagedDevice \<Rightarrow> ManagedDevice" where
  "unreported info device =
     (if \<not> md_has_state device
      then device\<lparr>md_state := (md_state device)\<lparr>ds_device_id := di_device_id info,
             ds_availability := DEVICE_AVAILABILITY_OFFLINE, ds_health := HEALTH_STATE_STALE,
             ds_message := ''device state not reported yet''\<rparr>, md_has_state := True\<rparr>
      else device)"

definition UpdateInfo :: "DeviceInfo \<Rightarrow> devices \<Rightarrow> devices" where
  "UpdateInfo info devices =
     (if di_device_id info = [] then devices
      else smap_put (di_device_id info)
             (unreported info ((device_at devices (di_device_id info))\<lparr>md_info := info, md_has_info := True\<rparr>)) devices)"

definition UpdateState :: "DeviceState \<Rightarrow> devices \<Rightarrow> devices" where
  "UpdateState st devices =
     (if ds_device_id st = [] then devices
      else smap_put (ds_device_id st)
             ((device_at devices (ds_device_id st))\<lparr>md_state := st, md_has_state := True\<rparr>) devices)"

fun DeviceRegistry_loop :: "ManagedDevice list \<Rightarrow> devices \<Rightarrow> devices" where
  "DeviceRegistry_loop [] devices = devices"
| "DeviceRegistry_loop (device # rest) devices =
     (let devices = (if md_has_info device then UpdateInfo (md_info device) devices else devices);
          devices = (if md_has_state device then UpdateState (md_state device) devices else devices)
      in DeviceRegistry_loop rest devices)"

definition DeviceRegistry :: "ManagedDevice list \<Rightarrow> devices" where
  "DeviceRegistry initial_devices = DeviceRegistry_loop initial_devices []"

definition dev_Size :: "devices \<Rightarrow> nat" where
  "dev_Size devices = length (filter (\<lambda>(_, device). md_has_info device) (smap_entries devices))"

definition device_match :: "DeviceQuery \<Rightarrow> ManagedDevice \<Rightarrow> bool" where
  "device_match request device \<longleftrightarrow>
     md_has_info device \<and>
     \<not> (dq_device_id request \<noteq> [] \<and> dq_device_id request \<noteq> di_device_id (md_info device)) \<and>
     \<not> (dq_category request \<noteq> DEVICE_CATEGORY_UNSPECIFIED \<and> dq_category request \<noteq> di_category (md_info device))"

fun dev_Query_loop :: "DeviceQuery \<Rightarrow> (string \<times> ManagedDevice) list \<Rightarrow> DeviceQueryResponse \<Rightarrow> DeviceQueryResponse" where
  "dev_Query_loop request [] response = response"
| "dev_Query_loop request ((_, device) # rest) response =
     (if \<not> device_match request device then dev_Query_loop request rest response
      else
        let response = response\<lparr>dr_devices := dr_devices response @ [md_info device]\<rparr>;
            response = (if dq_include_state request \<and> md_has_state device
                        then response\<lparr>dr_states := dr_states response @ [md_state device]\<rparr> else response)
        in dev_Query_loop request rest response)"

definition dev_Query :: "devices \<Rightarrow> DeviceQuery \<Rightarrow> u64 \<Rightarrow> u64 \<Rightarrow> DeviceQueryResponse" where
  "dev_Query devices request sequence t =
     dev_Query_loop request (smap_entries devices)
       \<lparr>dr_header = dev_FillHeader sequence t (Some (dq_header request)), dr_status = service_status True ''ok'',
        dr_devices = [], dr_states = []\<rparr>"

subsection \<open>The program\<close>

datatype device_message =
  Dev_node NodeInfo | Dev_heartbeat NodeHeartbeat | Dev_info DeviceInfo | Dev_state DeviceState

record devmgr =
  dm_static_devices :: "ManagedDevice list"
  dm_registry :: devices
  dm_query_sequence :: u64
  dm_sequence :: u64
  dm_info_sequence :: u64
  dm_published :: "device_message list"

definition devmgr_init :: "u64 \<Rightarrow> devmgr" where
  "devmgr_init t = \<lparr>dm_static_devices = BuildInitialDevices t, dm_registry = DeviceRegistry (BuildInitialDevices t),
     dm_query_sequence = 0, dm_sequence = 0, dm_info_sequence = 0, dm_published = []\<rparr>"

definition stamp_info :: "u64 \<Rightarrow> u64 \<Rightarrow> ManagedDevice \<Rightarrow> ManagedDevice" where
  "stamp_info sequence t device = device\<lparr>md_info := (md_info device)\<lparr>di_header := dev_FillHeader sequence t None\<rparr>\<rparr>"

definition stamp_state :: "u64 \<Rightarrow> u64 \<Rightarrow> ManagedDevice \<Rightarrow> ManagedDevice" where
  "stamp_state sequence t device = device\<lparr>md_state := (md_state device)\<lparr>ds_header := dev_FillHeader sequence t None\<rparr>\<rparr>"

text \<open>One round of the loop: every tenth announces the node and the static devices.\<close>

definition announce_devices :: "u64 \<Rightarrow> u64 \<Rightarrow> u32 \<Rightarrow> devmgr \<Rightarrow> devmgr" where
  "announce_devices start_time t p s =
     (if dm_sequence s mod 10 = 0 then
        let devices = map (stamp_info (dm_sequence s) t) (dm_static_devices s) in
        s\<lparr>dm_static_devices := devices,
          dm_registry := fold (\<lambda>d. UpdateInfo (md_info d)) devices (dm_registry s),
          dm_info_sequence := dm_info_sequence s + 1,
          dm_published := dm_published s @
            Dev_node (dev_BuildNodeInfo (dm_info_sequence s) start_time p t) # map (Dev_info \<circ> md_info) devices\<rparr>
      else s)"

definition report_devices :: "u64 \<Rightarrow> u64 \<Rightarrow> devmgr \<Rightarrow> devmgr" where
  "report_devices t uptime s =
     (let heartbeat = service_heartbeat ''device_manager'' ''managing devices'' (dm_sequence s) t uptime
            [\<lparr>mt_name = ''device_manager.devices'', mt_value = int (dev_Size (dm_registry s)), mt_unit = ''count''\<rparr>];
          devices = map (stamp_state (dm_sequence s) t) (dm_static_devices s) in
      s\<lparr>dm_static_devices := devices, dm_registry := fold (\<lambda>d. UpdateState (md_state d)) devices (dm_registry s),
        dm_sequence := dm_sequence s + 1,
        dm_published := dm_published s @ Dev_heartbeat heartbeat # map (Dev_state \<circ> md_state) devices\<rparr>)"

datatype devmgr_op = On_device_info DeviceInfo | On_device_state DeviceState | On_device_query u64 DeviceQuery | Dev_round u64 u64 u64 u32

fun devmgr_step :: "devmgr_op \<Rightarrow> devmgr \<Rightarrow> devmgr option" where
  "devmgr_step (On_device_info info) s = Some (s\<lparr>dm_registry := UpdateInfo info (dm_registry s)\<rparr>)"
| "devmgr_step (On_device_state st) s = Some (s\<lparr>dm_registry := UpdateState st (dm_registry s)\<rparr>)"
| "devmgr_step (On_device_query t request) s = Some (s\<lparr>dm_query_sequence := dm_query_sequence s + 1\<rparr>)"
| "devmgr_step (Dev_round st t up p) s = Some (report_devices t up (announce_devices st t p s))"

subsection \<open>Facts\<close>

definition device_ok :: "string \<Rightarrow> ManagedDevice \<Rightarrow> bool" where
  "device_ok n d \<longleftrightarrow> n \<noteq> [] \<and> (md_has_info d \<longrightarrow> di_device_id (md_info d) = n \<and> md_has_state d) \<and>
     (md_has_state d \<longrightarrow> ds_device_id (md_state d) = n)"

definition devices_ok :: "devices \<Rightarrow> bool" where
  "devices_ok devices \<longleftrightarrow> smap_wf devices \<and> (\<forall>n d. smap_get devices n = Some d \<longrightarrow> device_ok n d)"

lemma devices_ok_put:
  "devices_ok devices \<Longrightarrow> device_ok n d \<Longrightarrow> devices_ok (smap_put n d devices)"
  by (auto simp: devices_ok_def smap_put_wf smap_get_put)

lemma device_at_ok: "devices_ok devices \<Longrightarrow> n \<noteq> [] \<Longrightarrow> device_ok n (device_at devices n)"
  by (auto simp: devices_ok_def device_at_def device_ok_def new_ManagedDevice_def split: option.splits)

lemma UpdateInfo_ok: "devices_ok devices \<Longrightarrow> devices_ok (UpdateInfo info devices)"
  using device_at_ok [of devices "di_device_id info"]
  by (auto simp: UpdateInfo_def unreported_def device_ok_def intro!: devices_ok_put)

lemma UpdateState_ok: "devices_ok devices \<Longrightarrow> devices_ok (UpdateState st devices)"
  using device_at_ok [of devices "ds_device_id st"]
  by (auto simp: UpdateState_def device_ok_def intro!: devices_ok_put)

lemma fold_updates_ok:
  "devices_ok devices \<Longrightarrow> devices_ok (fold (\<lambda>d. UpdateInfo (md_info d)) ds devices)"
  "devices_ok devices \<Longrightarrow> devices_ok (fold (\<lambda>d. UpdateState (md_state d)) ds devices)"
  by (induction ds arbitrary: devices) (simp_all add: UpdateInfo_ok UpdateState_ok)

lemma DeviceRegistry_ok: "devices_ok (DeviceRegistry ds)"
proof -
  have "devices_ok devices \<Longrightarrow> devices_ok (DeviceRegistry_loop ds devices)" for devices
    by (induction ds arbitrary: devices) (simp_all add: Let_def UpdateInfo_ok UpdateState_ok)
  moreover have "devices_ok []" by (simp add: devices_ok_def smap_wf_def smap_get_def)
  ultimately show ?thesis by (simp add: DeviceRegistry_def)
qed

interpretation devs: guarded_machine devmgr_step "\<lambda>c. True" "\<lambda>s. devices_ok (dm_registry s)"
proof unfold_locales
  fix s c s' assume "devices_ok (dm_registry s)" "devmgr_step c s = Some s'"
  then show "devices_ok (dm_registry s')"
    by (cases c) (auto simp: report_devices_def announce_devices_def Let_def UpdateInfo_ok UpdateState_ok fold_updates_ok)
qed

lemma dev_Query_loop_eq:
  "\<forall>(n, d)\<in>set es. md_has_info d \<longrightarrow> md_has_state d \<Longrightarrow>
   dev_Query_loop request es r = r
     \<lparr>dr_devices := dr_devices r @ map (md_info \<circ> snd) (filter (device_match request \<circ> snd) es),
      dr_states := dr_states r @ (if dq_include_state request then map (md_state \<circ> snd) (filter (device_match request \<circ> snd) es) else [])\<rparr>"
proof (induction request es r rule: dev_Query_loop.induct)
  case (2 request n device rest response)
  then show ?case by (auto simp: Let_def device_match_def)
qed simp

lemma dev_Query_eq:
  assumes "devices_ok devices"
  shows "dr_devices (dev_Query devices request sequence t) = map (md_info \<circ> snd) (filter (device_match request \<circ> snd) (smap_entries devices))"
    "dr_states (dev_Query devices request sequence t) =
       (if dq_include_state request then map (md_state \<circ> snd) (filter (device_match request \<circ> snd) (smap_entries devices)) else [])"
proof -
  have "\<forall>(n, d)\<in>set (smap_entries devices). md_has_info d \<longrightarrow> md_has_state d"
    using assms reg.entries_get [of devices] by (auto simp: devices_ok_def device_ok_def)
  from dev_Query_loop_eq [OF this]
  show "dr_devices (dev_Query devices request sequence t) = map (md_info \<circ> snd) (filter (device_match request \<circ> snd) (smap_entries devices))"
    "dr_states (dev_Query devices request sequence t) =
       (if dq_include_state request then map (md_state \<circ> snd) (filter (device_match request \<circ> snd) (smap_entries devices)) else [])"
    by (simp_all add: dev_Query_def)
qed

subsection \<open>Properties\<close>

text \<open>After any sequence of messages, queries and rounds, a device query that asks for states answers one
  state for each device, and the n-th state is that of the n-th device: an announced device always
  has a state, a placeholder that says offline until it reports one.\<close>

theorem device_query_aligned:
  assumes "run_ops devmgr_step ops (devmgr_init t0) = Some s" and "dq_include_state request"
  shows "map ds_device_id (dr_states (dev_Query (dm_registry s) request sequence t)) =
    map di_device_id (dr_devices (dev_Query (dm_registry s) request sequence t))"
proof -
  have "devices_ok (dm_registry (devmgr_init t0))" by (simp add: devmgr_init_def DeviceRegistry_ok)
  with devs.run_inv [OF this _ assms(1)] have ok: "devices_ok (dm_registry s)" by (simp add: list_all_iff)
  have "ds_device_id (md_state d) = di_device_id (md_info d)"
    if "(n, d) \<in> set (smap_entries (dm_registry s))" "device_match request d" for n d
    using ok that reg.entries_get [of "dm_registry s" n d] by (auto simp: devices_ok_def device_ok_def device_match_def)
  then show ?thesis
    using assms(2) unfolding dev_Query_eq [OF ok] by auto
qed

definition demo_info :: DeviceInfo where
  "demo_info = default_DeviceInfo\<lparr>di_device_id := ''imu0'', di_name := ''IMU''\<rparr>"

definition demo_query :: DeviceQuery where
  "demo_query = \<lparr>dq_header = empty_header, dq_device_id = [], dq_category = DEVICE_CATEGORY_UNSPECIFIED, dq_include_state = True\<rparr>"

theorem device_query_aligned_witness:
  "case run_ops devmgr_step [On_device_info demo_info] (devmgr_init 0) of None \<Rightarrow> False
   | Some s \<Rightarrow> map ds_device_id (dr_states (dev_Query (dm_registry s) demo_query 1 2)) =
       map di_device_id (dr_devices (dev_Query (dm_registry s) demo_query 1 2))"
proof -
  obtain s where s: "run_ops devmgr_step [On_device_info demo_info] (devmgr_init 0) = Some s" by simp
  have "dq_include_state demo_query" by (simp add: demo_query_def)
  from device_query_aligned [OF s this] s show ?thesis by simp
qed

text \<open>A device query answers exactly the announced devices that have the requested id and category (an
  empty id or the unspecified category matches all), in the order of their ids and each once.\<close>

theorem device_query_exact:
  assumes "devices_ok devices"
  shows "let answer = dr_devices (dev_Query devices request sequence t) in
    sorted_wrt (<) (map di_device_id answer) \<and>
    set answer = {md_info d |n d. smap_get devices n = Some d \<and> md_has_info d \<and>
      (dq_device_id request = [] \<or> dq_device_id request = n) \<and>
      (dq_category request = DEVICE_CATEGORY_UNSPECIFIED \<or> dq_category request = di_category (md_info d))}"
proof -
  have get: "(n, d) \<in> set (smap_entries devices) \<longleftrightarrow> smap_get devices n = Some d" for n d
    using assms reg.entries_get [of devices n d] by (simp add: devices_ok_def)
  have name: "di_device_id (md_info d) = n" if "smap_get devices n = Some d" "md_has_info d" for n d
    using assms that by (auto simp: devices_ok_def device_ok_def)
  have "sorted_wrt (<) (map fst (filter (device_match request \<circ> snd) (smap_entries devices)))"
    using assms reg.entries_sorted by (auto simp: devices_ok_def sorted_wrt_map intro: sorted_wrt_filter)
  moreover have "map fst (filter (device_match request \<circ> snd) (smap_entries devices)) =
      map di_device_id (dr_devices (dev_Query devices request sequence t))"
    unfolding dev_Query_eq [OF assms] by (auto simp: get name device_match_def)
  moreover have "set (dr_devices (dev_Query devices request sequence t)) =
      {md_info d |n d. smap_get devices n = Some d \<and> md_has_info d \<and>
      (dq_device_id request = [] \<or> dq_device_id request = n) \<and>
      (dq_category request = DEVICE_CATEGORY_UNSPECIFIED \<or> dq_category request = di_category (md_info d))}"
    unfolding dev_Query_eq [OF assms] by (auto simp: get name device_match_def image_iff) (metis name)+
  ultimately show ?thesis by (simp add: Let_def)
qed

theorem device_query_exact_witness:
  "sorted_wrt (<) (map di_device_id (dr_devices (dev_Query (DeviceRegistry (BuildInitialDevices 0)) demo_query 1 2)))"
  using device_query_exact [OF DeviceRegistry_ok, of "BuildInitialDevices 0" demo_query 1 2] by (simp add: Let_def)

end
