(* ===== verification/Health_Registry.thy ===== *)
theory Health_Registry
  imports Messages
begin

section \<open>The health monitor (system/health\_monitor/main.cpp)\<close>

text \<open>
  Class \<^verbatim>\<open>HealthRegistry\<close> keeps the last heartbeat of every node and the last diagnostic under
  every key, with the time of the monotonic clock (in nanoseconds, an argument) at which each
  was seen, and renders them as diagnostics.
\<close>

datatype DiagnosticLevel =
    DIAGNOSTIC_LEVEL_UNSPECIFIED | DIAGNOSTIC_LEVEL_OK | DIAGNOSTIC_LEVEL_WARNING | DIAGNOSTIC_LEVEL_ERROR
  | DIAGNOSTIC_LEVEL_STALE

record DiagnosticStatus =
  dg_header :: Header
  dg_name :: string
  dg_node_name :: string
  dg_hardware_id :: string
  dg_level :: DiagnosticLevel
  dg_message :: string
  dg_values :: "(string \<times> string) list"
  dg_metrics :: "Metric list"

record DiagnosticArray =
  da_header :: Header
  da_status :: "DiagnosticStatus list"

record NodeHealth =
  nh_node_name :: string
  nh_instance_id :: string
  nh_health :: HealthState
  nh_lifecycle_state :: LifecycleState
  nh_status_message :: string
  nh_last_seen :: int

record ExternalDiagnostic =
  xd_status :: DiagnosticStatus
  xd_last_seen :: int

record health =
  hl_nodes :: "(string, NodeHealth) smap"
  hl_external :: "(string, ExternalDiagnostic) smap"

definition hm_module :: string where
  "hm_module = ''health_monitor''"

definition hm_FillHeader :: "u64 \<Rightarrow> u64 \<Rightarrow> Header" where
  "hm_FillHeader sequence t = service_header hm_module sequence t None"

definition hm_BuildNodeInfo :: "u64 \<Rightarrow> u64 \<Rightarrow> u32 \<Rightarrow> u64 \<Rightarrow> NodeInfo" where
  "hm_BuildNodeInfo sequence start_time_unix_ns p t =
     AddCapability ''diagnostics_publisher'' (AddCapability ''diagnostics_aggregation'' (AddCapability ''node_heartbeat_aggregation''
     (AddLabel ''role'' ''system''
     (AddTopic ''/diagnostics/*'' ''openember.msgs.diagnostics.v1.DiagnosticArray'' ENDPOINT_DIRECTION_SUBSCRIBER
     (AddTopic ''/diagnostics/health_monitor'' ''openember.msgs.diagnostics.v1.DiagnosticArray'' ENDPOINT_DIRECTION_PUBLISHER
     (AddTopic ''/nodes/*/heartbeat'' ''openember.msgs.node.v1.NodeHeartbeat'' ENDPOINT_DIRECTION_SUBSCRIBER
     (AddTopic ''/nodes/health_monitor/heartbeat'' ''openember.msgs.node.v1.NodeHeartbeat'' ENDPOINT_DIRECTION_PUBLISHER
     (AddTopic ''/nodes/health_monitor/info'' ''openember.msgs.node.v1.NodeInfo'' ENDPOINT_DIRECTION_PUBLISHER
     (service_node hm_module sequence start_time_unix_ns p t)))))))))"

subsection \<open>Operations\<close>

definition hm_Update :: "int \<Rightarrow> NodeHeartbeat \<Rightarrow> health \<Rightarrow> health" where
  "hm_Update now heartbeat s =
     (if hb_node_name heartbeat = [] then s
      else s\<lparr>hl_nodes := smap_put (hb_node_name heartbeat)
               \<lparr>nh_node_name = hb_node_name heartbeat, nh_instance_id = hb_instance_id heartbeat,
                nh_health = hb_health heartbeat, nh_lifecycle_state = hb_lifecycle_state heartbeat,
                nh_status_message = hb_status_message heartbeat, nh_last_seen = now\<rparr> (hl_nodes s)\<rparr>)"

definition ExternalKey :: "DiagnosticStatus \<Rightarrow> string" where
  "ExternalKey status = dg_node_name status @ ''|'' @ dg_name status @ ''|'' @ dg_hardware_id status"

definition with_source :: "string \<Rightarrow> DiagnosticStatus \<Rightarrow> DiagnosticStatus" where
  "with_source source status = (if dg_node_name status = [] then status\<lparr>dg_node_name := source\<rparr> else status)"

fun UpdateDiagnostics_loop :: "int \<Rightarrow> string \<Rightarrow> DiagnosticStatus list \<Rightarrow> health \<Rightarrow> health" where
  "UpdateDiagnostics_loop now source [] s = s"
| "UpdateDiagnostics_loop now source (status # rest) s =
     (if dg_name status = [] then UpdateDiagnostics_loop now source rest s
      else if dg_node_name status = hm_module then UpdateDiagnostics_loop now source rest s
      else
        let status = with_source source status in
        UpdateDiagnostics_loop now source rest
          (s\<lparr>hl_external := smap_put (ExternalKey status) \<lparr>xd_status = status, xd_last_seen = now\<rparr> (hl_external s)\<rparr>))"

definition UpdateDiagnostics :: "int \<Rightarrow> DiagnosticArray \<Rightarrow> health \<Rightarrow> health" where
  "UpdateDiagnostics now diagnostics s =
     (if h_source_node (da_header diagnostics) = hm_module then s
      else UpdateDiagnostics_loop now (h_source_node (da_header diagnostics)) (da_status diagnostics) s)"

definition ToDiagnosticLevel :: "HealthState \<Rightarrow> DiagnosticLevel" where
  "ToDiagnosticLevel h =
     (case h of HEALTH_STATE_OK \<Rightarrow> DIAGNOSTIC_LEVEL_OK | HEALTH_STATE_WARNING \<Rightarrow> DIAGNOSTIC_LEVEL_WARNING
      | HEALTH_STATE_ERROR \<Rightarrow> DIAGNOSTIC_LEVEL_ERROR | HEALTH_STATE_STALE \<Rightarrow> DIAGNOSTIC_LEVEL_STALE
      | HEALTH_STATE_UNSPECIFIED \<Rightarrow> DIAGNOSTIC_LEVEL_UNSPECIFIED)"

text \<open>\<open>lifecycle_number\<close> gives the enumeration's number of a lifecycle state; the stale time is five seconds.\<close>

abbreviation stale_ns :: int where "stale_ns \<equiv> 5000000000"

text \<open>\<^verbatim>\<open>duration_cast\<close> truncates towards zero.\<close>

definition age_ms :: "int \<Rightarrow> int \<Rightarrow> int" where
  "age_ms now seen = (let d = now - seen in if 0 \<le> d then d div 1000000 else - (- d div 1000000))"

definition node_status :: "(LifecycleState \<Rightarrow> int) \<Rightarrow> int \<Rightarrow> string \<Rightarrow> NodeHealth \<Rightarrow> DiagnosticStatus" where
  "node_status lifecycle_number now name node =
     (let stale = now - nh_last_seen node > stale_ns in
      \<lparr>dg_header = empty_header, dg_name = ''node.'' @ name, dg_node_name = name, dg_hardware_id = ''runtime'',
       dg_level = (if stale then DIAGNOSTIC_LEVEL_STALE else ToDiagnosticLevel (nh_health node)),
       dg_message = (if stale then ''node heartbeat stale'' else nh_status_message node),
       dg_values = [(''instance_id'', nh_instance_id node),
                    (''lifecycle_state'', to_string_int (lifecycle_number (nh_lifecycle_state node)))],
       dg_metrics = [\<lparr>mt_name = ''node.heartbeat.age'', mt_value = age_ms now (nh_last_seen node), mt_unit = ''ms''\<rparr>]\<rparr>)"

definition external_status :: "int \<Rightarrow> ExternalDiagnostic \<Rightarrow> DiagnosticStatus" where
  "external_status now diagnostic =
     (let stale = now - xd_last_seen diagnostic > stale_ns; status = xd_status diagnostic;
          status = (if stale then status\<lparr>dg_level := DIAGNOSTIC_LEVEL_STALE,
                                        dg_message := ''diagnostic stale: '' @ dg_message status\<rparr> else status) in
      status\<lparr>dg_metrics := dg_metrics status @
        [\<lparr>mt_name = ''diagnostic.age'', mt_value = age_ms now (xd_last_seen diagnostic), mt_unit = ''ms''\<rparr>]\<rparr>)"

definition Snapshot :: "(LifecycleState \<Rightarrow> int) \<Rightarrow> int \<Rightarrow> health \<Rightarrow> DiagnosticStatus list" where
  "Snapshot lifecycle_number now s =
     map (\<lambda>(name, node). node_status lifecycle_number now name node) (smap_entries (hl_nodes s)) @
     map (\<lambda>(_, d). external_status now d) (smap_entries (hl_external s))"

subsection \<open>The program\<close>

datatype health_message = Health_node NodeInfo | Health_heartbeat NodeHeartbeat | Health_diagnostics DiagnosticArray

record monitor =
  hm_health :: health
  hm_sequence :: u64
  hm_info_sequence :: u64
  hm_published :: "health_message list"

definition monitor_init :: monitor where
  "monitor_init = \<lparr>hm_health = \<lparr>hl_nodes = [], hl_external = []\<rparr>, hm_sequence = 0, hm_info_sequence = 0, hm_published = []\<rparr>"

text \<open>The messages of one round, in the order they are published.\<close>

definition round_messages :: "(LifecycleState \<Rightarrow> int) \<Rightarrow> u64 \<Rightarrow> u64 \<Rightarrow> int \<Rightarrow> u64 \<Rightarrow> u32 \<Rightarrow> monitor \<Rightarrow> health_message list" where
  "round_messages lifecycle_number start_time t now uptime p s =
     (let diagnostics = Snapshot lifecycle_number now (hm_health s);
          heartbeat = service_heartbeat hm_module ''monitoring node heartbeats'' (hm_sequence s) t uptime
            [\<lparr>mt_name = ''health_monitor.observed_nodes'', mt_value = int (length diagnostics), mt_unit = ''count''\<rparr>] in
      (if hm_sequence s mod 10 = 0 then [Health_node (hm_BuildNodeInfo (hm_info_sequence s) start_time p t)] else []) @
      [Health_heartbeat heartbeat,
       Health_diagnostics \<lparr>da_header = hm_FillHeader (hm_sequence s) t, da_status = diagnostics\<rparr>])"

definition monitor_round :: "(LifecycleState \<Rightarrow> int) \<Rightarrow> u64 \<Rightarrow> u64 \<Rightarrow> int \<Rightarrow> u64 \<Rightarrow> u32 \<Rightarrow> monitor \<Rightarrow> monitor" where
  "monitor_round lifecycle_number start_time t now uptime p s =
     s\<lparr>hm_published := hm_published s @ round_messages lifecycle_number start_time t now uptime p s,
       hm_info_sequence := (if hm_sequence s mod 10 = 0 then hm_info_sequence s + 1 else hm_info_sequence s),
       hm_sequence := hm_sequence s + 1\<rparr>"

datatype monitor_op = On_heartbeat int NodeHeartbeat | On_diagnostics int DiagnosticArray | Health_round u64 u64 int u64 u32

fun monitor_step :: "(LifecycleState \<Rightarrow> int) \<Rightarrow> monitor_op \<Rightarrow> monitor \<Rightarrow> monitor option" where
  "monitor_step L (On_heartbeat now hb) s = Some (s\<lparr>hm_health := hm_Update now hb (hm_health s)\<rparr>)"
| "monitor_step L (On_diagnostics now d) s = Some (s\<lparr>hm_health := UpdateDiagnostics now d (hm_health s)\<rparr>)"
| "monitor_step L (Health_round st t now up p) s = Some (monitor_round L st t now up p s)"

subsection \<open>Facts\<close>

text \<open>What is remembered: nodes under their names, diagnostics under their keys, none of the monitor's own.\<close>

definition health_ok :: "health \<Rightarrow> bool" where
  "health_ok s \<longleftrightarrow> smap_wf (hl_nodes s) \<and> smap_wf (hl_external s) \<and>
     (\<forall>k d. smap_get (hl_external s) k = Some d \<longrightarrow> k = ExternalKey (xd_status d) \<and>
        dg_node_name (xd_status d) \<noteq> hm_module \<and> dg_name (xd_status d) \<noteq> [])"

lemma health_ok_Update: "health_ok s \<Longrightarrow> health_ok (hm_Update now hb s)"
  by (auto simp: health_ok_def hm_Update_def smap_put_wf)

lemma with_source_fields [simp]:
  "dg_name (with_source src st) = dg_name st"
  "dg_node_name (with_source src st) = (if dg_node_name st = [] then src else dg_node_name st)"
  by (simp_all add: with_source_def)

lemma health_ok_loop:
  "source \<noteq> hm_module \<Longrightarrow> health_ok s \<Longrightarrow> health_ok (UpdateDiagnostics_loop now source ds s)"
proof (induction now source ds s rule: UpdateDiagnostics_loop.induct)
  case (2 now source status rest s)
  show ?case
  proof (cases "dg_name status = [] \<or> dg_node_name status = hm_module")
    case True
    with 2 show ?thesis by auto
  next
    case False
    define st where "st = with_source source status"
    have "health_ok (s\<lparr>hl_external := smap_put (ExternalKey st) \<lparr>xd_status = st, xd_last_seen = now\<rparr> (hl_external s)\<rparr>)"
      using 2(4,5) False by (auto simp: health_ok_def smap_put_wf smap_get_put st_def)
    with 2(3) [OF _ _ st_def 2(4)] False show ?thesis by (simp add: st_def [symmetric] Let_def)
  qed
qed simp

lemma health_ok_UpdateDiagnostics: "health_ok s \<Longrightarrow> health_ok (UpdateDiagnostics now d s)"
  by (simp add: UpdateDiagnostics_def health_ok_loop)

interpretation mon: guarded_machine "monitor_step L" "\<lambda>c. True" "\<lambda>s. health_ok (hm_health s)" for L
proof unfold_locales
  fix s c s' assume "health_ok (hm_health s)" "monitor_step L c s = Some s'"
  then show "health_ok (hm_health s')"
    by (cases c) (auto simp: health_ok_Update health_ok_UpdateDiagnostics monitor_round_def)
qed

lemma monitor_init_ok: "health_ok (hm_health monitor_init)"
  by (simp add: health_ok_def monitor_init_def smap_wf_def smap_get_def)

lemma hm_Update_get:
  "smap_wf (hl_nodes s) \<Longrightarrow> hb_node_name hb \<noteq> [] \<Longrightarrow>
   smap_get (hl_nodes (hm_Update now hb s)) n = (if n = hb_node_name hb then
     Some \<lparr>nh_node_name = hb_node_name hb, nh_instance_id = hb_instance_id hb, nh_health = hb_health hb,
       nh_lifecycle_state = hb_lifecycle_state hb, nh_status_message = hb_status_message hb, nh_last_seen = now\<rparr>
     else smap_get (hl_nodes s) n)"
  by (simp add: hm_Update_def smap_get_put)

subsection \<open>Properties\<close>

text \<open>The level reported for a node follows its heartbeats alone: more than five seconds after the last one
  it is stale; until then it is the health of that heartbeat, with the heartbeat's status message.
  A later heartbeat of another node does not change it.\<close>

theorem node_level_follows_heartbeat:
  assumes "health_ok s" and "hb_node_name hb \<noteq> []" and "hb_node_name other \<noteq> hb_node_name hb"
  shows "let s' = hm_Update later other (hm_Update seen hb s); name = hb_node_name hb in
    \<exists>d \<in> set (Snapshot L now s'). dg_name d = ''node.'' @ name \<and> dg_node_name d = name \<and>
      (if now - seen > 5000000000 then dg_level d = DIAGNOSTIC_LEVEL_STALE \<and> dg_message d = ''node heartbeat stale''
       else dg_level d = ToDiagnosticLevel (hb_health hb) \<and> dg_message d = hb_status_message hb)"
proof -
  let ?name = "hb_node_name hb"
  let ?s' = "hm_Update later other (hm_Update seen hb s)"
  let ?node = "\<lparr>nh_node_name = hb_node_name hb, nh_instance_id = hb_instance_id hb, nh_health = hb_health hb,
       nh_lifecycle_state = hb_lifecycle_state hb, nh_status_message = hb_status_message hb, nh_last_seen = seen\<rparr>"
  have ok1: "health_ok (hm_Update seen hb s)" and ok2: "health_ok ?s'"
    using assms(1) by (auto intro: health_ok_Update)
  have "smap_get (hl_nodes (hm_Update seen hb s)) ?name = Some ?node"
    using assms by (simp add: hm_Update_get health_ok_def)
  then have "smap_get (hl_nodes ?s') ?name = Some ?node"
    using assms(3) ok1 hm_Update_get [of "hm_Update seen hb s" other later ?name]
    by (cases "hb_node_name other = []") (auto simp: health_ok_def, simp add: hm_Update_def)
  then have "(?name, ?node) \<in> set (smap_entries (hl_nodes ?s'))"
    using ok2 reg.entries_get [of "hl_nodes ?s'" ?name ?node] by (simp add: health_ok_def)
  then have "node_status L now ?name ?node \<in> set (Snapshot L now ?s')"
    by (force simp: Snapshot_def)
  then show ?thesis
    unfolding Let_def by (rule bexI [rotated]) (auto simp: node_status_def Let_def)
qed

definition demo_heartbeat :: "string \<Rightarrow> NodeHeartbeat" where
  "demo_heartbeat n = service_heartbeat n ''fine'' 0 0 0 []"

theorem node_level_follows_heartbeat_witness:
  "\<exists>d \<in> set (Snapshot (\<lambda>l. 0) 6000000000 (hm_Update 5000000000 (demo_heartbeat ''b'')
     (hm_Update 0 (demo_heartbeat ''a'') (hm_health monitor_init)))).
     dg_name d = ''node.a'' \<and> dg_level d = DIAGNOSTIC_LEVEL_STALE"
  using node_level_follows_heartbeat [OF monitor_init_ok, of "demo_heartbeat ''a''" "demo_heartbeat ''b''" 5000000000 0 "\<lambda>l. 0" 6000000000]
  by (auto simp: demo_heartbeat_def service_heartbeat_def Let_def)

text \<open>The monitor never takes in its own diagnostics: after any sequence of heartbeats, diagnostics and rounds,
  nothing it remembers comes from itself, so that what it publishes does not feed back through the
  topic it subscribes; and what it remembers is kept under the key of its node, name and hardware.\<close>

theorem no_self_diagnostics:
  assumes "run_ops (monitor_step L) ops monitor_init = Some s"
    and "smap_get (hl_external (hm_health s)) k = Some d"
  shows "dg_node_name (xd_status d) \<noteq> ''health_monitor'' \<and> dg_name (xd_status d) \<noteq> [] \<and> k = ExternalKey (xd_status d)"
  using mon.run_inv [OF monitor_init_ok _ assms(1)] assms(2)
  by (auto simp: health_ok_def hm_module_def list_all_iff)

definition demo_diagnostics :: DiagnosticArray where
  "demo_diagnostics = \<lparr>da_header = service_header ''nav'' 0 0 None,
     da_status = [\<lparr>dg_header = empty_header, dg_name = ''gps'', dg_node_name = [], dg_hardware_id = [], dg_level = DIAGNOSTIC_LEVEL_OK,
       dg_message = [], dg_values = [], dg_metrics = []\<rparr>]\<rparr>"

theorem no_self_diagnostics_witness:
  "\<exists>s d. run_ops (monitor_step (\<lambda>l. 0)) [On_diagnostics 3 demo_diagnostics] monitor_init = Some s \<and>
     smap_get (hl_external (hm_health s)) ''nav|gps|'' = Some d \<and> ''nav|gps|'' = ExternalKey (xd_status d)"
proof -
  obtain s where s: "run_ops (monitor_step (\<lambda>l. 0)) [On_diagnostics 3 demo_diagnostics] monitor_init = Some s" by simp
  have "smap_get (hl_external (UpdateDiagnostics 3 demo_diagnostics (hm_health monitor_init))) ''nav|gps|'' \<noteq> None" by code_simp
  with s obtain d where d: "smap_get (hl_external (hm_health s)) ''nav|gps|'' = Some d" by auto
  from no_self_diagnostics [OF s d] s d show ?thesis by blast
qed

end
