(* ===== verification/Float64.thy ===== *)
theory Float64
  imports Complex_Main "HOL-Library.Log_Nat" Prelude
begin

section \<open>The type double\<close>

text \<open>
  A \<^verbatim>\<open>double\<close> is a rational number that the 64-bit binary format represents, an infinity, or
  not a number. The sign of zero is left out: the modelled code neither divides by a zero nor
  looks at its sign. An operation computes exactly and then rounds to the nearest representable
  number, ties to the even one, as IEEE 754 prescribes; a comparison with a NaN is false.
\<close>

datatype float64 = NaN | PosInf | NegInf | Fin rat

subsection \<open>Rounding\<close>

definition pow2 :: "int \<Rightarrow> rat" where
  "pow2 e = (if 0 \<le> e then 2 ^ nat e else 1 / 2 ^ nat (- e))"

text \<open>The exponent of the leading binary digit of a positive rational.\<close>

definition exponent :: "rat \<Rightarrow> int" where
  "exponent x = (case quotient_of x of (p, q) \<Rightarrow>
     let k = bitlen p - bitlen q in if pow2 k \<le> x then k else k - 1)"

definition round_even :: "rat \<Rightarrow> int" where
  "round_even r = (let f = \<lfloor>r\<rfloor>; d = r - of_int f in
     if d < 1 / 2 then f else if 1 / 2 < d then f + 1 else if even f then f else f + 1)"

definition round64 :: "rat \<Rightarrow> float64" where
  "round64 x =
     (if x = 0 then Fin 0
      else
        let e = max (exponent \<bar>x\<bar>) (-1022) - 52;
            r = of_int (round_even (x / pow2 e)) * pow2 e in
        if pow2 1024 \<le> r then PosInf else if r \<le> - pow2 1024 then NegInf else Fin r)"

subsection \<open>Operations\<close>

instantiation float64 :: "{ord, zero, plus, minus, uminus, times}"
begin

definition zero_float64 :: float64 where
  "zero_float64 = Fin 0"

fun less_float64 :: "float64 \<Rightarrow> float64 \<Rightarrow> bool" where
  "less_float64 (Fin x) (Fin y) = (x < y)"
| "less_float64 NegInf (Fin y) = True"
| "less_float64 NegInf PosInf = True"
| "less_float64 (Fin x) PosInf = True"
| "less_float64 _ _ = False"

definition less_eq_float64 :: "float64 \<Rightarrow> float64 \<Rightarrow> bool" where
  "less_eq_float64 a b = (a < b \<or> a = b \<and> a \<noteq> NaN)"

fun uminus_float64 :: "float64 \<Rightarrow> float64" where
  "uminus_float64 (Fin x) = Fin (- x)"
| "uminus_float64 PosInf = NegInf"
| "uminus_float64 NegInf = PosInf"
| "uminus_float64 NaN = NaN"

fun plus_float64 :: "float64 \<Rightarrow> float64 \<Rightarrow> float64" where
  "plus_float64 (Fin x) (Fin y) = round64 (x + y)"
| "plus_float64 PosInf PosInf = PosInf"
| "plus_float64 PosInf (Fin y) = PosInf"
| "plus_float64 (Fin x) PosInf = PosInf"
| "plus_float64 NegInf NegInf = NegInf"
| "plus_float64 NegInf (Fin y) = NegInf"
| "plus_float64 (Fin x) NegInf = NegInf"
| "plus_float64 _ _ = NaN"

definition minus_float64 :: "float64 \<Rightarrow> float64 \<Rightarrow> float64" where
  "minus_float64 a b = a + (- b)"

fun times_float64 :: "float64 \<Rightarrow> float64 \<Rightarrow> float64" where
  "times_float64 (Fin x) (Fin y) = round64 (x * y)"
| "times_float64 NaN b = NaN"
| "times_float64 a NaN = NaN"
| "times_float64 (Fin x) b = (if x = 0 then NaN else if 0 < x then b else - b)"
| "times_float64 a (Fin y) = (if y = 0 then NaN else if 0 < y then a else - a)"
| "times_float64 PosInf b = b"
| "times_float64 NegInf b = - b"

instance ..

end

fun f_div :: "float64 \<Rightarrow> float64 \<Rightarrow> float64" where
  "f_div (Fin x) (Fin y) =
     (if y = 0 then if x = 0 then NaN else if 0 < x then PosInf else NegInf else round64 (x / y))"
| "f_div (Fin x) NaN = NaN"
| "f_div (Fin x) b = Fin 0"
| "f_div NaN b = NaN"
| "f_div a (Fin y) = (if y < 0 then - a else a)"
| "f_div a b = NaN"

text \<open>The conversions from integers, and \<^verbatim>\<open>std::max\<close> and \<^verbatim>\<open>std::min\<close> with their treatment of NaN.\<close>

definition f_of_int :: "int \<Rightarrow> float64" where
  "f_of_int n = round64 (of_int n)"

definition std_max :: "float64 \<Rightarrow> float64 \<Rightarrow> float64" where
  "std_max a b = (if a < b then b else a)"

definition std_min :: "float64 \<Rightarrow> float64 \<Rightarrow> float64" where
  "std_min a b = (if b < a then b else a)"

subsection \<open>Facts\<close>

lemma f_less_irrefl [simp]: "\<not> a < (a :: float64)"
  by (cases a) auto

lemma f_less_NaN [simp]: "\<not> a < NaN" "\<not> NaN < b"
  by (cases a; cases b; simp)+

lemma f_le_NaN [simp]: "\<not> a \<le> NaN" "\<not> NaN \<le> b"
  by (auto simp: less_eq_float64_def)

lemma f_le_Fin [simp]: "Fin x \<le> Fin y \<longleftrightarrow> x \<le> y"
  by (auto simp: less_eq_float64_def)

lemma f_less_trans: "a < b \<Longrightarrow> b < c \<Longrightarrow> a < (c :: float64)"
  by (cases a; cases b; cases c) auto

lemma f_le_refl: "a \<noteq> NaN \<Longrightarrow> a \<le> (a :: float64)"
  by (simp add: less_eq_float64_def)

lemma f_less_imp_le: "a < b \<Longrightarrow> a \<le> (b :: float64)"
  by (simp add: less_eq_float64_def)

lemma f_less_notNaN: "a < b \<Longrightarrow> a \<noteq> NaN \<and> b \<noteq> (NaN :: float64)"
  by auto

lemma f_not_less: "a \<noteq> NaN \<Longrightarrow> b \<noteq> NaN \<Longrightarrow> \<not> a < b \<longleftrightarrow> b \<le> (a :: float64)"
  by (cases a; cases b) (auto simp: less_eq_float64_def)

text \<open>Clamping puts any value, also NaN, between two bounds, also infinite ones, as long as they are in order.\<close>

lemma clamp_within:
  assumes "lo < hi"
  shows "lo \<le> std_max lo (std_min hi x) \<and> std_max lo (std_min hi x) \<le> hi"
  using assms f_less_notNaN [OF assms]
  by (auto simp: std_max_def std_min_def f_le_refl f_less_imp_le)

lemma clamp_symmetric:
  assumes "0 < (l :: float64)"
  shows "- l \<le> std_max (- l) (std_min l x) \<and> std_max (- l) (std_min l x) \<le> l"
proof -
  have "- l < l" using assms by (cases l) (auto simp: zero_float64_def)
  then show ?thesis by (rule clamp_within)
qed

lemma clamp_inside: "lo \<le> x \<Longrightarrow> x \<le> hi \<Longrightarrow> std_max lo (std_min hi x) = (x :: float64)"
  by (cases lo; cases x; cases hi) (auto simp: std_max_def std_min_def less_eq_float64_def)

end
