(* ===== verification/Joint_Controller.thy ===== *)
theory Joint_Controller
  imports Float64
begin

section \<open>The joint controller (components/actuator/src/mock\_joint\_controller.cpp)\<close>

text \<open>
  Class \<^verbatim>\<open>MockJointController\<close>: its state is the record \<open>controller\<close>, with the
  fields of the class; every public method is an operation that returns its result, an \<open>Error\<close>
  or a value, and the new state. The mutex makes each of them atomic, except \<^verbatim>\<open>ReadState\<close>, which
  releases it while it waits and is two operations. The monotonic clock is read in nanoseconds:
  what a method reads is an argument.
\<close>

subsection \<open>Types\<close>

datatype ErrorCode =
    kNone | kInvalidConfig | kOpenFailed | kTimeout | kDisconnected | kIoError | kProtocolError | kInvalidData
  | kNotSupported | kNotRunning | kSafetyViolation | kInternalError

record Error =
  err_code :: ErrorCode
  err_message :: string

definition no_error :: Error where
  "no_error = \<lparr>err_code = kNone, err_message = []\<rparr>"

definition MakeError :: "ErrorCode \<Rightarrow> string \<Rightarrow> Error" where
  "MakeError code message = \<lparr>err_code = code, err_message = message\<rparr>"

definition ErrorCode_ToString :: "ErrorCode \<Rightarrow> string" where
  "ErrorCode_ToString code =
     (case code of kNone \<Rightarrow> ''none'' | kInvalidConfig \<Rightarrow> ''invalid_config'' | kOpenFailed \<Rightarrow> ''open_failed''
      | kTimeout \<Rightarrow> ''timeout'' | kDisconnected \<Rightarrow> ''disconnected'' | kIoError \<Rightarrow> ''io_error''
      | kProtocolError \<Rightarrow> ''protocol_error'' | kInvalidData \<Rightarrow> ''invalid_data''
      | kNotSupported \<Rightarrow> ''not_supported'' | kNotRunning \<Rightarrow> ''not_running''
      | kSafetyViolation \<Rightarrow> ''safety_violation'' | kInternalError \<Rightarrow> ''internal_error'')"

datatype JointControlMode = kUnspecified | kDisabled | kPosition | kVelocity | kEffort | kMit

datatype ActuatorAvailability =
    kAvUnspecified | kOffline | kAvDisabled | kEnabled | kDegraded | kFault | kEmergencyStop

datatype HealthState = kHealthUnspecified | kHealthOk | kHealthWarning | kHealthError | kHealthStale

record JointInfo =
  ji_joint_id :: u32
  ji_joint_name :: string
  ji_min_position :: float64
  ji_max_position :: float64
  ji_max_velocity :: float64
  ji_max_effort :: float64

record JointCommandItem =
  ci_joint_id :: u32
  ci_joint_name :: string
  ci_mode :: JointControlMode
  ci_position_enabled :: bool
  ci_position :: float64
  ci_velocity_enabled :: bool
  ci_velocity :: float64
  ci_effort_enabled :: bool
  ci_effort :: float64
  ci_stiffness_enabled :: bool
  ci_stiffness :: float64
  ci_damping_enabled :: bool
  ci_damping :: float64
  ci_max_effort :: float64

record JointCommand =
  jc_controller_id :: string
  jc_time_monotonic_ns :: u64
  jc_sequence :: u64
  jc_enable :: bool
  jc_disable :: bool
  jc_emergency_stop :: bool
  jc_clear_fault :: bool
  jc_joints :: "JointCommandItem list"

record JointStateItem =
  js_joint_id :: u32
  js_joint_name :: string
  js_mode :: JointControlMode
  js_position :: float64
  js_velocity :: float64
  js_effort :: float64
  js_temperature :: float64
  js_feedback_received :: bool
  js_fault_code :: u32
  js_fault_message :: string

record JointState =
  jt_controller_id :: string
  jt_sample_time_monotonic_ns :: u64
  jt_sequence :: u64
  jt_availability :: ActuatorAvailability
  jt_joints :: "JointStateItem list"
  jt_message :: string

record ActuatorStatus =
  as_availability :: ActuatorAvailability
  as_health :: HealthState
  as_last_error :: Error
  as_message :: string
  as_sequence :: u64
  as_error_count :: u64
  as_timeout_count :: u64
  as_last_command_monotonic_ns :: u64
  as_command_timeout_ms :: u64
  as_enabled :: bool
  as_fault_latched :: bool
  as_emergency_stopped :: bool

datatype ActuatorType = kTypeUnspecified | kJointController

datatype ActuatorBusType = kBusUnspecified | kVirtual | kSerial | kCan | kEtherCat | kPwm | kGpio

record ActuatorInfo =
  ai_actuator_id :: string
  ai_name :: string
  ai_type :: ActuatorType
  ai_vendor :: string
  ai_model :: string
  ai_driver :: string
  ai_bus_type :: ActuatorBusType

record options =
  op_controller_id :: string
  op_state_rate_hz :: float64
  op_command_timeout_ms :: u64
  op_disabled_on_start :: bool
  op_default_temperature :: float64
  op_joints :: "JointInfo list"

record controller =
  k_options :: options
  k_info :: ActuatorInfo
  k_joints :: "JointInfo list"
  k_states :: "JointStateItem list"
  k_running :: bool
  k_enabled :: bool
  k_fault_latched :: bool
  k_emergency_stopped :: bool
  k_has_command :: bool
  k_safe_output_active :: bool
  k_last_command :: JointCommand
  k_last_error :: Error
  k_message :: string
  k_sequence :: u64
  k_state_sequence :: u64
  k_error_count :: u64
  k_timeout_count :: u64
  k_last_command_ns :: u64
  k_next_state :: int
  k_last_step :: int

definition default_JointCommand :: JointCommand where
  "default_JointCommand = \<lparr>jc_controller_id = [], jc_time_monotonic_ns = 0, jc_sequence = 0, jc_enable = False,
     jc_disable = False, jc_emergency_stop = False, jc_clear_fault = False, jc_joints = []\<rparr>"

definition DefaultJoints :: "JointInfo list" where
  "DefaultJoints = map (\<lambda>(i, n). \<lparr>ji_joint_id = i, ji_joint_name = n, ji_min_position = - round64 (314159 / 100000),
       ji_max_position = round64 (314159 / 100000), ji_max_velocity = Fin 10, ji_max_effort = Fin 20\<rparr>)
     [(1, ''joint_1''), (2, ''joint_2''), (3, ''joint_3'')]"

definition init_state :: "options \<Rightarrow> JointInfo \<Rightarrow> JointStateItem" where
  "init_state options joint = \<lparr>js_joint_id = ji_joint_id joint, js_joint_name = ji_joint_name joint, js_mode = kDisabled,
     js_position = 0, js_velocity = 0, js_effort = 0, js_temperature = op_default_temperature options,
     js_feedback_received = True, js_fault_code = 0, js_fault_message = []\<rparr>"

definition controller_info :: "options \<Rightarrow> ActuatorInfo" where
  "controller_info options = \<lparr>ai_actuator_id = op_controller_id options, ai_name = op_controller_id options,
     ai_type = kJointController, ai_vendor = ''OpenEmber'', ai_model = ''Mock JointController'',
     ai_driver = ''mock_joint_controller'', ai_bus_type = kVirtual\<rparr>"

definition MockJointController :: "options \<Rightarrow> int \<Rightarrow> controller" where
  "MockJointController options now =
     (let joints = (if op_joints options = [] then DefaultJoints else op_joints options) in
      \<lparr>k_options = options, k_info = controller_info options, k_joints = joints, k_states = map (init_state options) joints,
       k_running = False, k_enabled = False, k_fault_latched = False, k_emergency_stopped = False,
       k_has_command = False, k_safe_output_active = False, k_last_command = default_JointCommand,
       k_last_error = no_error, k_message = ''created'', k_sequence = 0, k_state_sequence = 0, k_error_count = 0,
       k_timeout_count = 0, k_last_command_ns = 0, k_next_state = 0, k_last_step = now\<rparr>)"

subsection \<open>Helpers\<close>

definition ClampEffort :: "float64 \<Rightarrow> float64 \<Rightarrow> float64 \<Rightarrow> float64" where
  "ClampEffort effort command_limit joint_limit =
     (let limit = (if 0 < command_limit then command_limit else if 0 < joint_limit then joint_limit else 0) in
      if limit \<le> 0 then effort else std_max (- limit) (std_min limit effort))"

definition joint_matches :: "JointCommandItem \<Rightarrow> JointInfo \<Rightarrow> bool" where
  "joint_matches item joint \<longleftrightarrow>
     ci_joint_id item \<noteq> 0 \<and> ci_joint_id item = ji_joint_id joint \<or>
     ci_joint_name item \<noteq> [] \<and> ci_joint_name item = ji_joint_name joint"

definition FindJointIndex :: "controller \<Rightarrow> JointCommandItem \<Rightarrow> nat option" where
  "FindJointIndex s item = index_of (joint_matches item) (k_joints s)"

definition AvailabilityLocked :: "controller \<Rightarrow> ActuatorAvailability" where
  "AvailabilityLocked s =
     (if \<not> k_running s then kOffline
      else if k_emergency_stopped s then kEmergencyStop
      else if k_fault_latched s then kFault
      else if k_safe_output_active s \<and> k_enabled s then kDegraded
      else if k_enabled s then kEnabled else kAvDisabled)"

definition safe_joint :: "JointStateItem \<Rightarrow> JointStateItem" where
  "safe_joint st = st\<lparr>js_mode := kDisabled, js_velocity := 0, js_effort := 0\<rparr>"

definition ApplySafeOutputLocked :: "string \<Rightarrow> controller \<Rightarrow> controller" where
  "ApplySafeOutputLocked message s =
     s\<lparr>k_enabled := False, k_safe_output_active := True, k_message := message,
       k_states := map safe_joint (k_states s)\<rparr>"

definition bump :: "controller \<Rightarrow> controller" where
  "bump s = s\<lparr>k_sequence := k_sequence s + 1\<rparr>"

fun Validate_items :: "controller \<Rightarrow> nat list \<Rightarrow> JointCommandItem list \<Rightarrow> Error + unit" where
  "Validate_items s seen [] = Inr ()"
| "Validate_items s seen (item # rest) =
     (case FindJointIndex s item of
        None \<Rightarrow> Inl (MakeError kInvalidData ''unknown joint in command'')
      | Some index \<Rightarrow>
          if index \<in> set seen then Inl (MakeError kInvalidData ''duplicate joint in command'')
          else if ci_mode item = kUnspecified then Inl (MakeError kInvalidData ''joint control mode is unspecified'')
          else if ci_mode item \<noteq> kDisabled \<and>
                  \<not> (ci_position_enabled item \<or> ci_velocity_enabled item \<or> ci_effort_enabled item \<or>
                     ci_stiffness_enabled item \<or> ci_damping_enabled item)
          then Inl (MakeError kInvalidData ''joint command has no enabled field'')
          else if ci_max_effort item < 0 \<or> ci_stiffness item < 0 \<or> ci_damping item < 0
          then Inl (MakeError kInvalidData ''joint command limit must be >= 0'')
          else Validate_items s (index # seen) rest)"

definition ValidateCommandLocked :: "controller \<Rightarrow> JointCommand \<Rightarrow> Error + unit" where
  "ValidateCommandLocked s command = Validate_items s [] (jc_joints command)"

subsection \<open>Operations\<close>

type_synonym outcome = "(Error + unit) \<times> controller"

definition not_running :: "Error + 'a" where
  "not_running = Inl (MakeError kNotRunning ''mock joint controller is not running'')"

definition Start :: "int \<Rightarrow> int \<Rightarrow> controller \<Rightarrow> outcome" where
  "Start now now' s =
     (let enabled = (\<not> op_disabled_on_start (k_options s)) in
      (Inr (), bump (s\<lparr>k_running := True, k_enabled := enabled, k_fault_latched := False,
         k_emergency_stopped := False, k_safe_output_active := \<not> enabled, k_has_command := False,
         k_message := (if enabled then ''mock joint controller running'' else ''mock joint controller disabled''),
         k_next_state := now, k_last_step := now'\<rparr>)))"

definition Stop :: "controller \<Rightarrow> controller" where
  "Stop s = bump (ApplySafeOutputLocked ''mock joint controller stopped''
     (s\<lparr>k_running := False, k_enabled := False, k_safe_output_active := True\<rparr>))"

definition Enable :: "controller \<Rightarrow> outcome" where
  "Enable s =
     (if \<not> k_running s then (not_running, s)
      else if k_fault_latched s then (Inl (MakeError kSafetyViolation ''mock joint controller fault latched''), s)
      else if k_emergency_stopped s then (Inl (MakeError kSafetyViolation ''mock joint controller emergency stopped''), s)
      else (Inr (), bump (s\<lparr>k_enabled := True, k_safe_output_active := False, k_message := ''mock joint controller enabled''\<rparr>)))"

definition Disable :: "controller \<Rightarrow> outcome" where
  "Disable s =
     (if \<not> k_running s then (not_running, s)
      else (Inr (), bump (ApplySafeOutputLocked ''mock joint controller disabled'' s)))"

definition EmergencyStop :: "controller \<Rightarrow> outcome" where
  "EmergencyStop s =
     (if \<not> k_running s then (not_running, s)
      else (Inr (), bump (ApplySafeOutputLocked ''mock joint controller emergency stopped'' (s\<lparr>k_emergency_stopped := True\<rparr>))))"

definition clear_joint :: "JointStateItem \<Rightarrow> JointStateItem" where
  "clear_joint st = st\<lparr>js_fault_code := 0, js_fault_message := []\<rparr>"

definition clear_faults :: "controller \<Rightarrow> controller" where
  "clear_faults s = s\<lparr>k_fault_latched := False, k_emergency_stopped := False, k_last_error := no_error,
     k_states := map clear_joint (k_states s)\<rparr>"

definition ClearFault :: "controller \<Rightarrow> outcome" where
  "ClearFault s =
     (if \<not> k_running s then (not_running, s)
      else (Inr (), bump (ApplySafeOutputLocked ''mock joint controller fault cleared'' (clear_faults s))))"

definition accept_command :: "u64 \<Rightarrow> JointCommand \<Rightarrow> controller \<Rightarrow> controller" where
  "accept_command now_ns command s =
     s\<lparr>k_last_command := (if jc_controller_id command = [] then command\<lparr>jc_controller_id := op_controller_id (k_options s)\<rparr>
                          else command),
       k_last_command_ns := (if jc_time_monotonic_ns command \<noteq> 0 then jc_time_monotonic_ns command else now_ns),
       k_has_command := True, k_safe_output_active := False,
       k_message := ''mock joint controller command accepted''\<rparr>"

text \<open>The part of \<^verbatim>\<open>SetCommand\<close> after the flags: the joints.\<close>

definition set_joints :: "u64 \<Rightarrow> JointCommand \<Rightarrow> controller \<Rightarrow> outcome" where
  "set_joints now_ns command s =
     (if jc_joints command = [] then
        (Inr (), bump (s\<lparr>k_message := (if k_enabled s then ''mock joint controller enabled''
                                       else ''mock joint controller command accepted'')\<rparr>))
      else if \<not> k_enabled s then (Inl (MakeError kSafetyViolation ''mock joint controller is disabled''), s)
      else if k_fault_latched s \<or> k_emergency_stopped s then
        (Inl (MakeError kSafetyViolation ''mock joint controller is faulted''), s)
      else case ValidateCommandLocked s command of
          Inl e \<Rightarrow> (Inl e, s\<lparr>k_last_error := e, k_error_count := k_error_count s + 1, k_message := err_message e\<rparr>)
        | Inr _ \<Rightarrow> (Inr (), bump (accept_command now_ns command s)))"

definition SetCommand :: "u64 \<Rightarrow> JointCommand \<Rightarrow> controller \<Rightarrow> outcome" where
  "SetCommand now_ns command s =
     (if \<not> k_running s then (not_running, s)
      else if jc_controller_id command \<noteq> [] \<and> jc_controller_id command \<noteq> op_controller_id (k_options s) then
        (Inl (MakeError kInvalidData ''joint command controller_id mismatch''), s)
      else if jc_emergency_stop command then
        (Inr (), bump (ApplySafeOutputLocked ''mock joint controller emergency stopped'' (s\<lparr>k_emergency_stopped := True\<rparr>)))
      else
        let s = (if jc_clear_fault command then clear_faults s else s) in
        if jc_disable command then
          (Inr (), bump (ApplySafeOutputLocked ''mock joint controller disabled by command'' s))
        else if jc_enable command then
          if k_fault_latched s \<or> k_emergency_stopped s then
            (Inl (MakeError kSafetyViolation ''cannot enable mock joint controller while faulted''), s)
          else set_joints now_ns command (s\<lparr>k_enabled := True, k_safe_output_active := False\<rparr>)
        else set_joints now_ns command s)"

text \<open>What one step does to the joint an item addresses; \<open>dt\<close> is in seconds.\<close>

definition step_position :: "float64 \<Rightarrow> JointCommandItem \<Rightarrow> JointInfo \<Rightarrow> float64 \<Rightarrow> float64" where
  "step_position dt item joint position =
     (let p = (if ci_mode item = kVelocity \<and> ci_velocity_enabled item then position + ci_velocity item * dt else position);
          p = (if ci_position_enabled item then ci_position item else p) in
      if ji_min_position joint < ji_max_position joint
      then std_max (ji_min_position joint) (std_min (ji_max_position joint) p) else p)"

definition step_joint :: "float64 \<Rightarrow> float64 \<Rightarrow> JointCommandItem \<Rightarrow> JointInfo \<Rightarrow> JointStateItem \<Rightarrow> JointStateItem" where
  "step_joint temperature dt item joint st =
     (let velocity = (if ci_velocity_enabled item then ci_velocity item
                      else if ci_mode item = kVelocity then 0 else js_velocity st);
          effort = (if ci_effort_enabled item then ClampEffort (ci_effort item) (ci_max_effort item) (ji_max_effort joint)
                    else if ci_mode item = kEffort then 0 else js_effort st) in
      st\<lparr>js_mode := ci_mode item, js_feedback_received := True, js_temperature := temperature,
         js_velocity := (if ci_mode item = kDisabled then 0 else velocity),
         js_position := step_position dt item joint (js_position st),
         js_effort := (if ci_mode item = kDisabled then 0 else effort)\<rparr>)"

fun Step_joints :: "float64 \<Rightarrow> JointCommandItem list \<Rightarrow> controller \<Rightarrow> controller" where
  "Step_joints dt [] s = s"
| "Step_joints dt (item # rest) s =
     Step_joints dt rest
       (case FindJointIndex s item of None \<Rightarrow> s
        | Some i \<Rightarrow> s\<lparr>k_states := (k_states s)[i :=
            step_joint (op_default_temperature (k_options s)) dt item (k_joints s ! i) (k_states s ! i)]\<rparr>)"

definition timed_out :: "u64 \<Rightarrow> controller \<Rightarrow> bool" where
  "timed_out now_ns s \<longleftrightarrow> k_has_command s \<and> 0 < op_command_timeout_ms (k_options s) \<and>
     k_last_command_ns s \<noteq> 0 \<and> k_last_command_ns s + op_command_timeout_ms (k_options s) * 1000000 < now_ns"

definition timeout_message :: string where
  "timeout_message = ''mock joint controller command timeout; safe output active''"

definition Step :: "int \<Rightarrow> u64 \<Rightarrow> controller \<Rightarrow> outcome" where
  "Step now now_ns s =
     (if \<not> k_running s then (not_running, s)
      else
        let dt = f_div (f_of_int (now - k_last_step s)) (Fin 1000000000);
            s = s\<lparr>k_last_step := now\<rparr> in
        if \<not> k_enabled s then
          (Inr (), bump (ApplySafeOutputLocked
             (if k_message s = [] then ''mock joint controller disabled'' else k_message s) s))
        else if timed_out now_ns s then
          (Inr (), bump (ApplySafeOutputLocked timeout_message
             (s\<lparr>k_has_command := False, k_timeout_count := k_timeout_count s + 1,
                k_last_error := MakeError kTimeout timeout_message\<rparr>)))
        else if \<not> k_has_command s then
          (Inr (), bump (s\<lparr>k_message := ''mock joint controller waiting for command''\<rparr>))
        else
          (Inr (), bump ((Step_joints dt (jc_joints (k_last_command s)) s)
             \<lparr>k_message := ''mock joint controller running'', k_safe_output_active := False\<rparr>)))"

text \<open>
  The period of a rate in nanoseconds (\<^verbatim>\<open>Period\<close>). A rate that is not a number gives no defined duration (\<open>None\<close>), and the
  time of the next state is then left as it is.
\<close>

definition rate_period :: "float64 \<Rightarrow> int option" where
  "rate_period rate =
     (case f_div (Fin 1) (std_max rate (round64 (1 / 1000))) of
        Fin x \<Rightarrow> (case Fin x * Fin 1000000000 of Fin ns \<Rightarrow> Some \<lfloor>ns\<rfloor> | _ \<Rightarrow> None)
      | _ \<Rightarrow> None)"

definition Period :: "controller \<Rightarrow> int option" where
  "Period s = rate_period (op_state_rate_hz (k_options s))"

definition take_sample :: "u64 \<Rightarrow> int \<Rightarrow> controller \<Rightarrow> (Error + JointState) \<times> controller" where
  "take_sample now_ns now s =
     (Inr \<lparr>jt_controller_id = op_controller_id (k_options s), jt_sample_time_monotonic_ns = now_ns,
           jt_sequence = k_state_sequence s, jt_availability = AvailabilityLocked s, jt_joints = k_states s,
           jt_message = k_message s\<rparr>,
      s\<lparr>k_state_sequence := k_state_sequence s + 1,
        k_next_state := (case Period s of None \<Rightarrow> k_next_state s | Some d \<Rightarrow> now + d)\<rparr>)"

text \<open>The start of \<^verbatim>\<open>ReadState\<close>: \<open>Inr None\<close> means that it waits, until stopped or the next state is due.\<close>

definition ReadState_begin :: "int \<Rightarrow> u64 \<Rightarrow> int \<Rightarrow> controller \<Rightarrow> (Error + JointState option) \<times> controller" where
  "ReadState_begin now now_ns now' s =
     (if \<not> k_running s then (not_running, s)
      else if now < k_next_state s then (Inr None, s)
      else case take_sample now_ns now' s of (Inl e, s') \<Rightarrow> (Inl e, s') | (Inr st, s') \<Rightarrow> (Inr (Some st), s'))"

definition ReadState_finish :: "int \<Rightarrow> u64 \<Rightarrow> int \<Rightarrow> controller \<Rightarrow> (Error + JointState) \<times> controller" where
  "ReadState_finish now now_ns now' s =
     (if \<not> k_running s then (Inl (MakeError kNotRunning ''mock joint controller stopped''), s)
      else if now < k_next_state s then (Inl (MakeError kTimeout ''mock joint controller read timeout''), s)
      else take_sample now_ns now' s)"

definition fault_joint :: "u32 \<Rightarrow> string \<Rightarrow> JointStateItem \<Rightarrow> JointStateItem" where
  "fault_joint code message st = st\<lparr>js_fault_code := code, js_fault_message := message\<rparr>"

definition InjectFault :: "string \<Rightarrow> u32 \<Rightarrow> controller \<Rightarrow> controller" where
  "InjectFault message code s =
     bump (ApplySafeOutputLocked message
       (s\<lparr>k_fault_latched := True, k_last_error := MakeError kSafetyViolation message,
          k_error_count := k_error_count s + 1, k_states := map (fault_joint code message) (k_states s)\<rparr>))"

definition Status_of :: "controller \<Rightarrow> ActuatorStatus" where
  "Status_of s =
     \<lparr>as_availability = AvailabilityLocked s,
      as_health = (if k_fault_latched s \<or> k_emergency_stopped s then kHealthError
                   else if k_running s then kHealthOk else kHealthStale),
      as_last_error = k_last_error s, as_message = k_message s, as_sequence = k_sequence s,
      as_error_count = k_error_count s, as_timeout_count = k_timeout_count s,
      as_last_command_monotonic_ns = k_last_command_ns s,
      as_command_timeout_ms = op_command_timeout_ms (k_options s), as_enabled = k_enabled s,
      as_fault_latched = k_fault_latched s, as_emergency_stopped = k_emergency_stopped s\<rparr>"

subsection \<open>Sequences of operations\<close>

datatype controller_op =
    Op_Start int int | Op_Stop | Op_Enable | Op_Disable | Op_EmergencyStop | Op_ClearFault
  | Op_SetCommand u64 JointCommand | Op_Step int u64 | Op_Read_begin int u64 int | Op_Read_finish int u64 int
  | Op_InjectFault string u32

fun controller_step :: "controller_op \<Rightarrow> controller \<Rightarrow> controller option" where
  "controller_step (Op_Start now now') s = Some (snd (Start now now' s))"
| "controller_step Op_Stop s = Some (Stop s)"
| "controller_step Op_Enable s = Some (snd (Enable s))"
| "controller_step Op_Disable s = Some (snd (Disable s))"
| "controller_step Op_EmergencyStop s = Some (snd (EmergencyStop s))"
| "controller_step Op_ClearFault s = Some (snd (ClearFault s))"
| "controller_step (Op_SetCommand t c) s = Some (snd (SetCommand t c s))"
| "controller_step (Op_Step now t) s = Some (snd (Step now t s))"
| "controller_step (Op_Read_begin now t now') s = Some (snd (ReadState_begin now t now' s))"
| "controller_step (Op_Read_finish now t now') s = Some (snd (ReadState_finish now t now' s))"
| "controller_step (Op_InjectFault msg c) s = Some (InjectFault msg c s)"

definition joint_off :: "JointStateItem \<Rightarrow> bool" where
  "joint_off st \<longleftrightarrow> js_mode st = kDisabled \<and> js_velocity st = 0 \<and> js_effort st = 0"

definition outputs_off :: "controller \<Rightarrow> bool" where
  "outputs_off s \<longleftrightarrow> (\<forall>st\<in>set (k_states s). joint_off st)"

definition safe_inv :: "controller \<Rightarrow> bool" where
  "safe_inv s \<longleftrightarrow> (\<not> k_running s \<or> k_fault_latched s \<or> k_emergency_stopped s \<longrightarrow> \<not> k_enabled s \<and> outputs_off s)"

lemma joint_off_simps [simp]:
  "joint_off (safe_joint st)" "joint_off (clear_joint st) = joint_off st" "joint_off (fault_joint c m st) = joint_off st"
  "js_position (safe_joint st) = js_position st" "js_position (clear_joint st) = js_position st"
  "js_position (fault_joint c m st) = js_position st"
  by (simp_all add: joint_off_def safe_joint_def clear_joint_def fault_joint_def)

lemma apply_safe_fields [simp]:
  "k_enabled (ApplySafeOutputLocked m s) = False" "k_running (ApplySafeOutputLocked m s) = k_running s"
  "k_fault_latched (ApplySafeOutputLocked m s) = k_fault_latched s"
  "k_emergency_stopped (ApplySafeOutputLocked m s) = k_emergency_stopped s"
  "k_has_command (ApplySafeOutputLocked m s) = k_has_command s" "k_last_command (ApplySafeOutputLocked m s) = k_last_command s"
  "k_states (ApplySafeOutputLocked m s) = map safe_joint (k_states s)" "k_joints (ApplySafeOutputLocked m s) = k_joints s"
  "k_options (ApplySafeOutputLocked m s) = k_options s" "k_last_command_ns (ApplySafeOutputLocked m s) = k_last_command_ns s"
  "k_last_error (ApplySafeOutputLocked m s) = k_last_error s" "k_timeout_count (ApplySafeOutputLocked m s) = k_timeout_count s"
  "k_safe_output_active (ApplySafeOutputLocked m s)" "k_last_step (ApplySafeOutputLocked m s) = k_last_step s"
  by (simp_all add: ApplySafeOutputLocked_def)

lemma bump_fields [simp]:
  "k_enabled (bump s) = k_enabled s" "k_running (bump s) = k_running s" "k_fault_latched (bump s) = k_fault_latched s"
  "k_emergency_stopped (bump s) = k_emergency_stopped s" "k_has_command (bump s) = k_has_command s"
  "k_states (bump s) = k_states s" "k_joints (bump s) = k_joints s" "k_options (bump s) = k_options s"
  "k_last_command (bump s) = k_last_command s" "k_last_command_ns (bump s) = k_last_command_ns s"
  "k_last_error (bump s) = k_last_error s" "k_timeout_count (bump s) = k_timeout_count s"
  "k_safe_output_active (bump s) = k_safe_output_active s" "k_last_step (bump s) = k_last_step s"
  by (simp_all add: bump_def)

lemma clear_faults_fields [simp]:
  "k_enabled (clear_faults s) = k_enabled s" "k_running (clear_faults s) = k_running s"
  "\<not> k_fault_latched (clear_faults s)" "\<not> k_emergency_stopped (clear_faults s)"
  "k_states (clear_faults s) = map clear_joint (k_states s)" "k_joints (clear_faults s) = k_joints s"
  "k_options (clear_faults s) = k_options s" "k_has_command (clear_faults s) = k_has_command s"
  "k_last_command (clear_faults s) = k_last_command s" "k_last_command_ns (clear_faults s) = k_last_command_ns s"
  by (simp_all add: clear_faults_def)

lemma Step_joints_frame:
  "k_joints (Step_joints dt items s) = k_joints s \<and> k_options (Step_joints dt items s) = k_options s \<and>
   k_running (Step_joints dt items s) = k_running s \<and> k_enabled (Step_joints dt items s) = k_enabled s \<and>
   k_fault_latched (Step_joints dt items s) = k_fault_latched s \<and>
   k_emergency_stopped (Step_joints dt items s) = k_emergency_stopped s \<and>
   length (k_states (Step_joints dt items s)) = length (k_states s)"
  by (induction dt items s rule: Step_joints.induct) (auto split: option.splits)

lemma set_joints_frame:
  "k_enabled (snd (set_joints t c s)) = k_enabled s" "k_running (snd (set_joints t c s)) = k_running s"
  "k_fault_latched (snd (set_joints t c s)) = k_fault_latched s"
  "k_emergency_stopped (snd (set_joints t c s)) = k_emergency_stopped s"
  "k_states (snd (set_joints t c s)) = k_states s" "k_joints (snd (set_joints t c s)) = k_joints s"
  "k_options (snd (set_joints t c s)) = k_options s"
  by (simp_all add: set_joints_def accept_command_def split: sum.splits)

lemma read_frame:
  "k_enabled (snd (take_sample t now s)) = k_enabled s" "k_running (snd (take_sample t now s)) = k_running s"
  "k_fault_latched (snd (take_sample t now s)) = k_fault_latched s" "k_joints (snd (take_sample t now s)) = k_joints s"
  "k_emergency_stopped (snd (take_sample t now s)) = k_emergency_stopped s" "k_states (snd (take_sample t now s)) = k_states s"
  by (simp_all add: take_sample_def)

lemma read_begin_state:
  "snd (ReadState_begin now t now' s) = s \<or> snd (ReadState_begin now t now' s) = snd (take_sample t now' s)"
  "snd (ReadState_finish now t now' s) = s \<or> snd (ReadState_finish now t now' s) = snd (take_sample t now' s)"
  by (auto simp: ReadState_begin_def ReadState_finish_def take_sample_def not_running_def)

lemma outputs_off_cong: "k_states s' = k_states s \<Longrightarrow> outputs_off s' = outputs_off s"
  by (simp add: outputs_off_def)

lemma SetCommand_safe:
  assumes inv: "safe_inv s"
  shows "safe_inv (snd (SetCommand t c s))"
proof (cases "\<not> k_running s \<or> jc_controller_id c \<noteq> [] \<and> jc_controller_id c \<noteq> op_controller_id (k_options s)
    \<or> jc_emergency_stop c \<or> jc_disable c")
  case True
  then show ?thesis
    using inv by (auto simp: SetCommand_def safe_inv_def outputs_off_def Let_def)
next
  case False
  define s1 where "s1 = (if jc_clear_fault c then clear_faults s else s)"
  have inv1: "safe_inv s1" "k_running s1"
    using inv False by (auto simp: s1_def safe_inv_def outputs_off_def)
  have "snd (SetCommand t c s) = (if jc_enable c then if k_fault_latched s1 \<or> k_emergency_stopped s1 then s1
      else snd (set_joints t c (s1\<lparr>k_enabled := True, k_safe_output_active := False\<rparr>)) else snd (set_joints t c s1))"
    using False unfolding SetCommand_def s1_def Let_def by (auto simp del: clear_faults_fields(3,4))
  moreover have "safe_inv (snd (set_joints t c s1))"
    using inv1 outputs_off_cong [OF set_joints_frame(5), of t c s1] by (simp add: safe_inv_def set_joints_frame)
  ultimately show ?thesis using inv1 by (simp add: safe_inv_def set_joints_frame)
qed

lemma Step_safe:
  assumes "safe_inv s"
  shows "safe_inv (snd (Step now t s))"
proof (cases "k_running s \<and> k_has_command s \<and> \<not> timed_out t (s\<lparr>k_last_step := now\<rparr>) \<and> k_enabled s")
  case True
  then show ?thesis
    using assms Step_joints_frame [of _ _ "s\<lparr>k_last_step := now\<rparr>"] by (simp add: Step_def safe_inv_def Let_def)
next
  case False
  then show ?thesis using assms by (auto simp: Step_def safe_inv_def outputs_off_def Let_def not_running_def)
qed

lemma Enable_safe: "safe_inv s \<Longrightarrow> safe_inv (snd (Enable s))"
  by (simp add: Enable_def safe_inv_def)

lemma safe_output_safe: "safe_inv (bump (ApplySafeOutputLocked m s))"
  by (simp add: safe_inv_def outputs_off_def)

lemma controller_step_safe:
  assumes "safe_inv s" "controller_step c s = Some s'"
  shows "safe_inv s'"
proof (cases c)
  case (Op_Read_begin now t now')
  with assms read_begin_state(1) [of now t now' s] outputs_off_cong [OF read_frame(6), of t now' s] show ?thesis
    by (auto simp: safe_inv_def read_frame)
next
  case (Op_Read_finish now t now')
  with assms read_begin_state(2) [of now t now' s] outputs_off_cong [OF read_frame(6), of t now' s] show ?thesis
    by (auto simp: safe_inv_def read_frame)
next
  case (Op_SetCommand t cmd)
  with assms SetCommand_safe show ?thesis by auto
next
  case (Op_Step now t)
  with assms Step_safe show ?thesis by auto
next
  case (Op_Start now now')
  with assms show ?thesis by (auto simp: Start_def Let_def safe_inv_def)
next
  case Op_Enable
  with assms Enable_safe show ?thesis by auto
qed (use assms in \<open>auto simp: Stop_def Disable_def EmergencyStop_def ClearFault_def InjectFault_def safe_output_safe\<close>)

interpretation safe: guarded_machine controller_step "\<lambda>c. True" safe_inv
  by unfold_locales (rule controller_step_safe)

lemma MockJointController_safe: "safe_inv (MockJointController options now)"
  by (auto simp: MockJointController_def safe_inv_def outputs_off_def init_state_def joint_off_def Let_def)

subsection \<open>Position limits\<close>

definition in_limits :: "JointInfo \<Rightarrow> JointStateItem \<Rightarrow> bool" where
  "in_limits joint st \<longleftrightarrow>
     (ji_min_position joint < ji_max_position joint \<and> ji_min_position joint \<le> 0 \<and> 0 \<le> ji_max_position joint \<longrightarrow>
     ji_min_position joint \<le> js_position st \<and> js_position st \<le> ji_max_position joint)"

definition limits_inv :: "JointInfo list \<Rightarrow> controller \<Rightarrow> bool" where
  "limits_inv joints s \<longleftrightarrow> k_joints s = joints \<and> list_all2 in_limits joints (k_states s)"

lemma in_limits_simps [simp]:
  "in_limits j (safe_joint st) = in_limits j st" "in_limits j (clear_joint st) = in_limits j st" "in_limits j (fault_joint c m st) = in_limits j st"
  by (simp_all add: in_limits_def)

lemma step_joint_within: "in_limits joint (step_joint temp dt item joint st)"
proof -
  have "js_position (step_joint temp dt item joint st) = step_position dt item joint (js_position st)"
    by (simp add: step_joint_def Let_def)
  then show ?thesis using clamp_within by (auto simp: in_limits_def step_position_def Let_def)
qed

lemma limits_map:
  "(\<And>j st. in_limits j (f st) = in_limits j st) \<Longrightarrow> list_all2 in_limits joints (map f sts) = list_all2 in_limits joints sts"
  by (simp add: list_all2_map2)

lemma Step_joints_limits:
  "list_all2 in_limits (k_joints s) (k_states s) \<Longrightarrow> list_all2 in_limits (k_joints s) (k_states (Step_joints dt items s))"
proof (induction dt items s rule: Step_joints.induct)
  case (2 dt item rest s)
  show ?case
  proof (cases "FindJointIndex s item")
    case None
    with 2 show ?thesis by simp
  next
    case (Some i)
    have "list_all2 in_limits (k_joints s) ((k_states s)[i := step_joint temp dt item (k_joints s ! i) (k_states s ! i)])" for temp
    proof -
      have "in_limits (k_joints s ! j) ((k_states s)[i := step_joint temp dt item (k_joints s ! i) (k_states s ! i)] ! j)"
        if "j < length (k_states s)" for j
        using 2(2) that by (cases "i = j") (simp_all add: list_all2_conv_all_nth step_joint_within)
      then show ?thesis using 2(2) by (simp add: list_all2_conv_all_nth)
    qed
    with 2(1) Some show ?thesis by simp
  qed
qed simp

lemma controller_step_limits:
  assumes inv: "limits_inv joints s" and run: "controller_step c s = Some s'"
  shows "limits_inv joints s'"
proof (cases c)
  case (Op_Read_begin now t now')
  with assms read_begin_state(1) [of now t now' s] show ?thesis by (auto simp: limits_inv_def read_frame)
next
  case (Op_Read_finish now t now')
  with assms read_begin_state(2) [of now t now' s] show ?thesis by (auto simp: limits_inv_def read_frame)
next
  case (Op_SetCommand t cmd)
  with assms show ?thesis by (auto simp: limits_inv_def SetCommand_def set_joints_frame limits_map Let_def not_running_def)
next
  case (Op_Step now t)
  have "limits_inv joints (snd (Step now t s))"
  proof (cases "k_running s \<and> k_has_command s \<and> \<not> timed_out t (s\<lparr>k_last_step := now\<rparr>) \<and> k_enabled s")
    case True
    show ?thesis
      using inv Step_joints_limits [of "s\<lparr>k_last_step := now\<rparr>"] Step_joints_frame [of _ _ "s\<lparr>k_last_step := now\<rparr>"]
      by (auto simp: limits_inv_def Step_def limits_map Let_def not_running_def)
  next
    case False
    then show ?thesis using inv by (auto simp: limits_inv_def Step_def limits_map Let_def not_running_def)
  qed
  with Op_Step run show ?thesis by simp
next
  case (Op_Start now now')
  with assms show ?thesis by (auto simp: Start_def Let_def limits_inv_def)
next
  case Op_Enable
  with assms show ?thesis by (auto simp: Enable_def limits_inv_def split: if_splits)
qed (use assms in \<open>auto simp: limits_inv_def limits_map Stop_def Disable_def EmergencyStop_def ClearFault_def InjectFault_def\<close>)

interpretation lims: guarded_machine controller_step "\<lambda>c. True" "limits_inv joints" for joints
  by unfold_locales (rule controller_step_limits)

lemma MockJointController_limits:
  "limits_inv (k_joints (MockJointController options now)) (MockJointController options now)"
  by (auto simp: MockJointController_def limits_inv_def Let_def list_all2_map2 in_limits_def init_state_def
      intro!: list.rel_refl_strong)

lemma reachable_limits:
  assumes "run_ops controller_step ops (MockJointController options now) = Some s"
  shows "limits_inv (k_joints (MockJointController options now)) s"
  using lims.run_inv [OF MockJointController_limits _ assms] by (simp add: list_all_iff)

lemma reachable_safe:
  assumes "run_ops controller_step ops (MockJointController options now) = Some s"
  shows "safe_inv s"
  using safe.run_inv [OF MockJointController_safe _ assms] by (simp add: list_all_iff)

lemma reachable_sized:
  assumes "run_ops controller_step ops (MockJointController options now) = Some s"
  shows "length (k_states s) = length (k_joints s)"
  using reachable_limits [OF assms] by (auto simp: limits_inv_def dest: list_all2_lengthD)

subsection \<open>What a command does\<close>

lemma FindJointIndex_cong: "k_joints s' = k_joints s \<Longrightarrow> FindJointIndex s' = FindJointIndex s"
  by (simp add: FindJointIndex_def fun_eq_iff)

lemma FindJointIndex_lt: "FindJointIndex s item = Some i \<Longrightarrow> i < length (k_joints s)"
  by (simp add: FindJointIndex_def index_of_lt)

lemma Validate_items_distinct:
  "Validate_items s seen items = Inr () \<Longrightarrow>
   \<exists>is. map (FindJointIndex s) items = map Some is \<and> distinct is \<and> set is \<inter> set seen = {}"
proof (induction s seen items rule: Validate_items.induct)
  case (2 s seen item rest)
  then obtain i where i: "FindJointIndex s item = Some i" "i \<notin> set seen" "Validate_items s (i # seen) rest = Inr ()"
    by (auto split: option.splits if_splits)
  with 2(2) obtain is' where "map (FindJointIndex s) rest = map Some is'" "distinct is'" "set is' \<inter> set (i # seen) = {}"
    using 2(1) [OF i(1)] by (auto split: if_splits)
  with i show ?case by (intro exI [of _ "i # is'"]) auto
qed simp

lemma Step_joints_other:
  "(\<forall>item\<in>set items. FindJointIndex s item \<noteq> Some i) \<Longrightarrow> k_states (Step_joints dt items s) ! i = k_states s ! i"
proof (induction dt items s rule: Step_joints.induct)
  case (2 dt it rest s)
  define s1 where "s1 = (case FindJointIndex s it of None \<Rightarrow> s | Some i \<Rightarrow> s\<lparr>k_states := (k_states s)[i :=
    step_joint (op_default_temperature (k_options s)) dt it (k_joints s ! i) (k_states s ! i)]\<rparr>)"
  have "k_joints s1 = k_joints s" by (simp add: s1_def split: option.split)
  then have "FindJointIndex s1 = FindJointIndex s" by (rule FindJointIndex_cong)
  then have "k_states (Step_joints dt rest s1) ! i = k_states s1 ! i"
    using 2(1) [folded s1_def] 2(2) by simp
  moreover have "k_states s1 ! i = k_states s ! i" using 2(2) by (auto simp: s1_def split: option.split)
  ultimately show ?case by (simp add: s1_def)
qed simp

lemma Step_joints_item:
  assumes "distinct (map (FindJointIndex s) items)" "item \<in> set items" "FindJointIndex s item = Some i"
    and "i < length (k_states s)"
  shows "k_states (Step_joints dt items s) ! i =
         step_joint (op_default_temperature (k_options s)) dt item (k_joints s ! i) (k_states s ! i)"
  using assms
proof (induction dt items s rule: Step_joints.induct)
  case (2 dt it rest s)
  define s1 where "s1 = (case FindJointIndex s it of None \<Rightarrow> s | Some i \<Rightarrow> s\<lparr>k_states := (k_states s)[i :=
    step_joint (op_default_temperature (k_options s)) dt it (k_joints s ! i) (k_states s ! i)]\<rparr>)"
  have s1: "k_joints s1 = k_joints s" "k_options s1 = k_options s" "length (k_states s1) = length (k_states s)"
    by (simp_all add: s1_def split: option.split)
  note find = FindJointIndex_cong [OF s1(1)]
  show ?case
  proof (cases "it = item")
    case True
    then have "\<forall>x\<in>set rest. FindJointIndex s1 x \<noteq> Some i" using 2(2,4) find by force
    then show ?thesis
      using True 2(4,5) Step_joints_other [of rest s1 i dt] by (simp add: s1_def)
  next
    case False
    then have mem: "item \<in> set rest" using 2(3) by simp
    with 2(2,4) have ne: "FindJointIndex s it \<noteq> Some i" by (force simp: image_iff)
    then have "k_states s1 ! i = k_states s ! i" by (auto simp: s1_def split: option.split)
    moreover have "k_states (Step_joints dt rest s1) ! i =
        step_joint (op_default_temperature (k_options s1)) dt item (k_joints s1 ! i) (k_states s1 ! i)"
      using 2(1) [folded s1_def] 2(2,4,5) mem find s1 by simp
    ultimately show ?thesis using s1 by (simp add: s1_def)
  qed
qed simp

lemma SetCommand_accepted:
  assumes "SetCommand t c s = (Inr (), s1)" "jc_joints c \<noteq> []" "\<not> jc_emergency_stop c" "\<not> jc_disable c"
  obtains s0 where "k_joints s0 = k_joints s" "k_options s0 = k_options s" "k_last_step s0 = k_last_step s"
    "k_running s0" "k_enabled s0" "ValidateCommandLocked s0 c = Inr ()" "s1 = bump (accept_command t c s0)"
proof -
  define s1' where "s1' = (if jc_clear_fault c then clear_faults s else s)"
  define s0 where "s0 = (if jc_enable c then s1'\<lparr>k_enabled := True, k_safe_output_active := False\<rparr> else s1')"
  have run: "k_running s" using assms(1) by (auto simp: SetCommand_def not_running_def split: if_splits)
  have "set_joints t c s0 = (Inr (), s1)"
    using assms unfolding SetCommand_def s0_def s1'_def Let_def by (auto simp: not_running_def split: if_splits)
  then have "k_enabled s0" "ValidateCommandLocked s0 c = Inr ()" "s1 = bump (accept_command t c s0)"
    using assms(2) by (auto simp: set_joints_def split: if_splits sum.splits)
  moreover have "k_joints s0 = k_joints s" "k_options s0 = k_options s" "k_last_step s0 = k_last_step s" "k_running s0"
    using run by (simp_all add: s0_def s1'_def clear_faults_def)
  ultimately show ?thesis using that by blast
qed

lemma accept_command_fields [simp]:
  "k_joints (accept_command t c s) = k_joints s" "k_options (accept_command t c s) = k_options s"
  "k_running (accept_command t c s) = k_running s" "k_enabled (accept_command t c s) = k_enabled s"
  "k_has_command (accept_command t c s)" "k_states (accept_command t c s) = k_states s"
  "k_last_step (accept_command t c s) = k_last_step s" "jc_joints (k_last_command (accept_command t c s)) = jc_joints c"
  by (simp_all add: accept_command_def)

lemma Step_runs:
  assumes "k_running s" "k_enabled s" "k_has_command s" "\<not> timed_out t s"
  shows "k_states (snd (Step now t s)) = k_states (Step_joints (f_div (f_of_int (now - k_last_step s)) (Fin 1000000000))
           (jc_joints (k_last_command s)) (s\<lparr>k_last_step := now\<rparr>))"
    and "k_enabled (snd (Step now t s))"
proof -
  have "\<not> timed_out t (s\<lparr>k_last_step := now\<rparr>)" using assms(4) by (simp add: timed_out_def)
  with assms(1-3) show "k_states (snd (Step now t s)) = k_states (Step_joints (f_div (f_of_int (now - k_last_step s))
      (Fin 1000000000)) (jc_joints (k_last_command s)) (s\<lparr>k_last_step := now\<rparr>))" "k_enabled (snd (Step now t s))"
    using Step_joints_frame [of _ _ "s\<lparr>k_last_step := now\<rparr>"] by (simp_all add: Step_def Let_def)
qed

lemma Step_disabled:
  assumes "\<not> k_enabled s"
  shows "\<not> k_enabled (snd (Step now t s)) \<and> k_running (snd (Step now t s)) = k_running s \<and>
    (outputs_off s \<longrightarrow> outputs_off (snd (Step now t s))) \<and>
    map js_position (k_states (snd (Step now t s))) = map js_position (k_states s)"
  using assms by (simp add: Step_def Let_def outputs_off_def comp_def)

lemma Steps_disabled:
  "\<not> k_enabled s \<Longrightarrow> outputs_off s \<Longrightarrow> run_ops controller_step (map (\<lambda>(n, t). Op_Step n t) ticks) s = Some s' \<Longrightarrow>
   \<not> k_enabled s' \<and> outputs_off s' \<and> map js_position (k_states s') = map js_position (k_states s)"
proof (induction ticks arbitrary: s)
  case (Cons nt ticks)
  obtain n t where nt: "nt = (n, t)" by force
  with Cons.prems Step_disabled [of s n t] Cons.IH [of "snd (Step n t s)"] show ?case by auto
qed simp

lemma SetCommand_refused:
  assumes "fst (SetCommand t c s) = Inl e"
  obtains (unchanged) "snd (SetCommand t c s) = s"
  | (cleared) "snd (SetCommand t c s) = clear_faults s"
  | (joints) s0 where "snd (SetCommand t c s) = snd (set_joints t c s0)" "fst (set_joints t c s0) = Inl e"
      "s0 \<in> {s, clear_faults s} \<or>
       jc_enable c \<and> s0 \<in> (\<lambda>s. s\<lparr>k_enabled := True, k_safe_output_active := False\<rparr>) ` {s, clear_faults s}"
proof (cases "\<not> k_running s \<or> jc_controller_id c \<noteq> [] \<and> jc_controller_id c \<noteq> op_controller_id (k_options s)")
  case True
  then show ?thesis using unchanged by (auto simp: SetCommand_def)
next
  case False
  define s1 where "s1 = (if jc_clear_fault c then clear_faults s else s)"
  define f :: "controller \<Rightarrow> controller" where "f = (\<lambda>s. s\<lparr>k_enabled := True, k_safe_output_active := False\<rparr>)"
  have s1: "s1 = s \<or> s1 = clear_faults s" by (simp add: s1_def)
  have e: "\<not> jc_emergency_stop c" "\<not> jc_disable c"
    using assms False by (auto simp: SetCommand_def Let_def split: if_splits)
  have run: "SetCommand t c s = (if jc_enable c \<and> (k_fault_latched s1 \<or> k_emergency_stopped s1)
      then (Inl (MakeError kSafetyViolation ''cannot enable mock joint controller while faulted''), s1)
      else set_joints t c (if jc_enable c then f s1 else s1))"
    using False e unfolding SetCommand_def s1_def [symmetric] Let_def f_def by auto
  show ?thesis
  proof (cases "jc_enable c \<and> (k_fault_latched s1 \<or> k_emergency_stopped s1)")
    case True
    then show ?thesis using run s1 unchanged cleared by auto
  next
    case False
    with run have eq: "SetCommand t c s = set_joints t c (if jc_enable c then f s1 else s1)" by simp
    show ?thesis
      by (rule joints [of "if jc_enable c then f s1 else s1"]) (use eq assms s1 in \<open>auto simp: f_def\<close>)
  qed
qed

subsection \<open>Properties\<close>

definition demo_joint :: JointInfo where
  "demo_joint = \<lparr>ji_joint_id = 1, ji_joint_name = ''joint_1'', ji_min_position = Fin (-3), ji_max_position = Fin 3,
     ji_max_velocity = Fin 10, ji_max_effort = Fin 20\<rparr>"

definition demo_options :: options where
  "demo_options = \<lparr>op_controller_id = ''arm'', op_state_rate_hz = Fin 50, op_command_timeout_ms = 100,
     op_disabled_on_start = True, op_default_temperature = Fin 30, op_joints = [demo_joint]\<rparr>"

definition demo_item :: "float64 \<Rightarrow> JointCommandItem" where
  "demo_item p = \<lparr>ci_joint_id = 1, ci_joint_name = [], ci_mode = kPosition, ci_position_enabled = True, ci_position = p,
     ci_velocity_enabled = False, ci_velocity = 0, ci_effort_enabled = True, ci_effort = Fin 50,
     ci_stiffness_enabled = False, ci_stiffness = 0, ci_damping_enabled = False, ci_damping = 0, ci_max_effort = 0\<rparr>"

definition demo_command :: "float64 \<Rightarrow> JointCommand" where
  "demo_command p = default_JointCommand\<lparr>jc_time_monotonic_ns := 5, jc_enable := True, jc_joints := [demo_item p]\<rparr>"

text \<open>C13: From its creation on, whatever sequence of calls it gets, a controller that reports itself offline,
  emergency stopped or faulted is not enabled, and every joint of it is in the disabled mode with no velocity and
  no effort.\<close>

theorem stopped_controller_outputs_nothing:
  assumes "run_ops controller_step ops (MockJointController options now) = Some s"
    and "AvailabilityLocked s \<in> {kOffline, kEmergencyStop, kFault}"
  shows "\<not> k_enabled s \<and>
    (\<forall>st\<in>set (k_states s). js_mode st = kDisabled \<and> js_velocity st = 0 \<and> js_effort st = 0)"
proof -
  have "\<not> k_running s \<or> k_fault_latched s \<or> k_emergency_stopped s"
    using assms(2) by (auto simp: AvailabilityLocked_def split: if_splits)
  with reachable_safe [OF assms(1)] show ?thesis by (auto simp: safe_inv_def outputs_off_def joint_off_def)
qed

text \<open>C14: Whatever commands arrive, with infinite or NaN values too, the position of every joint whose limits
  are in order and contain the initial position zero stays between those limits.\<close>

theorem positions_within_limits:
  assumes "run_ops controller_step ops (MockJointController options now) = Some s" "i < length (k_states s)"
    and "ji_min_position (k_joints s ! i) < ji_max_position (k_joints s ! i)"
    and "ji_min_position (k_joints s ! i) \<le> 0" "0 \<le> ji_max_position (k_joints s ! i)"
  shows "ji_min_position (k_joints s ! i) \<le> js_position (k_states s ! i) \<and>
         js_position (k_states s ! i) \<le> ji_max_position (k_joints s ! i)"
  using reachable_limits [OF assms(1)] assms(2-5)
  by (auto simp: limits_inv_def list_all2_conv_all_nth in_limits_def)


text \<open>A step after the command timed out turns the output off, reports the timeout and forgets the command, and
  the joints then stay off and in place however often the controller is stepped.\<close>

theorem timed_out_command_stops_joints:
  assumes "k_running s" "k_enabled s" "timed_out t s" "Step now t s = (r, s1)"
    and "run_ops controller_step (map (\<lambda>(n, t). Op_Step n t) ticks) s1 = Some s2"
  shows "r = Inr () \<and> \<not> k_has_command s1 \<and> k_timeout_count s1 = k_timeout_count s + 1 \<and>
    err_code (k_last_error s1) = kTimeout \<and> \<not> k_enabled s2 \<and>
    (\<forall>st\<in>set (k_states s2). js_mode st = kDisabled \<and> js_velocity st = 0 \<and> js_effort st = 0) \<and>
    map js_position (k_states s2) = map js_position (k_states s)"
proof -
  have "timed_out t (s\<lparr>k_last_step := now\<rparr>)" using assms(3) by (simp add: timed_out_def)
  with assms(1,2,4) have s1: "r = Inr ()" "s1 = bump (ApplySafeOutputLocked timeout_message
      (s\<lparr>k_last_step := now, k_has_command := False, k_timeout_count := k_timeout_count s + 1,
         k_last_error := MakeError kTimeout timeout_message\<rparr>))"
    by (auto simp: Step_def Let_def)
  then have "\<not> k_enabled s1" "outputs_off s1" "map js_position (k_states s1) = map js_position (k_states s)"
    by (simp_all add: outputs_off_def comp_def)
  from Steps_disabled [OF this(1,2) assms(5)] this(3) s1 show ?thesis
    by (simp add: outputs_off_def joint_off_def MakeError_def)
qed

text \<open>A refused command leaves the joints, the command being executed and its time as they were; it can still
  have switched the controller on, if it carries the enable flag.\<close>

theorem refused_command_changes_no_joint:
  assumes "fst (SetCommand t c s) = Inl e"
  shows "let s' = snd (SetCommand t c s) in
    map (\<lambda>st. (js_mode st, js_position st, js_velocity st, js_effort st)) (k_states s') =
      map (\<lambda>st. (js_mode st, js_position st, js_velocity st, js_effort st)) (k_states s) \<and>
    k_last_command s' = k_last_command s \<and> k_has_command s' = k_has_command s \<and>
    k_last_command_ns s' = k_last_command_ns s \<and> k_sequence s' = k_sequence s \<and>
    (k_enabled s' \<longrightarrow> k_enabled s \<or> jc_enable c)"
proof -
  show ?thesis
  proof (cases rule: SetCommand_refused [OF assms, case_names unchanged cleared joints])
    case unchanged
    then show ?thesis by simp
  next
    case (joints s0)
    then show ?thesis by (auto simp: set_joints_def clear_faults_def clear_joint_def Let_def split: if_splits sum.splits)
  qed (simp_all add: clear_faults_def clear_joint_def Let_def)
qed

text \<open>An emergency stop does not discard the command that was being executed: once the fault is cleared and the
  controller enabled again, the next step goes on executing it, unless it has timed out meanwhile.\<close>

theorem command_survives_emergency_stop:
  assumes "k_running s" "k_has_command s" "\<not> timed_out t s"
  shows "let s3 = snd (Enable (snd (ClearFault (snd (EmergencyStop s))))) in
    k_enabled s3 \<and> k_has_command s3 \<and> k_last_command s3 = k_last_command s \<and>
    k_states (snd (Step now t s3)) =
      k_states (Step_joints (f_div (f_of_int (now - k_last_step s)) (Fin 1000000000)) (jc_joints (k_last_command s))
        (s3\<lparr>k_last_step := now\<rparr>))"
proof -
  define s3 where "s3 = snd (Enable (snd (ClearFault (snd (EmergencyStop s)))))"
  have s3: "k_running s3" "k_enabled s3" "k_has_command s3" "k_last_command s3 = k_last_command s"
    "k_last_step s3 = k_last_step s" "k_last_command_ns s3 = k_last_command_ns s" "k_options s3 = k_options s"
    using assms(1,2) by (simp_all add: s3_def Enable_def ClearFault_def EmergencyStop_def, simp_all add: clear_faults_def)
  moreover have "\<not> timed_out t s3" using assms s3 by (simp add: timed_out_def)
  ultimately show ?thesis using Step_runs(1) [of s3 t now] by (simp add: Let_def flip: s3_def)
qed

subsection \<open>Witnesses\<close>

definition running_demo :: controller where
  "running_demo = (case run_ops controller_step [Op_Start 0 0, Op_SetCommand 5 (demo_command (Fin 9))]
     (MockJointController demo_options 0) of Some s \<Rightarrow> s | None \<Rightarrow> MockJointController demo_options 0)"

lemma running_demo: "run_ops controller_step [Op_Start 0 0, Op_SetCommand 5 (demo_command (Fin 9))]
    (MockJointController demo_options 0) = Some running_demo"
  by (simp add: running_demo_def)

lemma running_demo_flags:
  "k_running running_demo" "k_enabled running_demo" "k_has_command running_demo"
  "timed_out 100000006 running_demo" "\<not> timed_out 100000005 running_demo"
  by (code_simp)+

theorem stopped_controller_outputs_nothing_witness:
  "\<not> k_enabled (snd (EmergencyStop running_demo)) \<and> list_all joint_off (k_states (snd (EmergencyStop running_demo)))"
proof -
  have run: "run_ops controller_step ([Op_Start 0 0, Op_SetCommand 5 (demo_command (Fin 9))] @ [Op_EmergencyStop])
      (MockJointController demo_options 0) = Some (snd (EmergencyStop running_demo))"
    unfolding run_ops_append running_demo by simp
  have "AvailabilityLocked (snd (EmergencyStop running_demo)) \<in> {kOffline, kEmergencyStop, kFault}"
    using running_demo_flags(1) by (simp add: AvailabilityLocked_def EmergencyStop_def)
  from stopped_controller_outputs_nothing [OF run this] show ?thesis by (simp add: list_all_iff joint_off_def)
qed

theorem positions_within_limits_witness:
  "Fin (-3) \<le> js_position (k_states (snd (Step 0 5 running_demo)) ! 0) \<and>
   js_position (k_states (snd (Step 0 5 running_demo)) ! 0) \<le> Fin 3"
proof -
  have run: "run_ops controller_step ([Op_Start 0 0, Op_SetCommand 5 (demo_command (Fin 9))] @ [Op_Step 0 5])
      (MockJointController demo_options 0) = Some (snd (Step 0 5 running_demo))"
    unfolding run_ops_append running_demo by simp
  have k: "0 < length (k_states (snd (Step 0 5 running_demo)))" "k_joints (snd (Step 0 5 running_demo)) = [demo_joint]"
    by code_simp+
  show ?thesis using positions_within_limits [OF run k(1)] unfolding k(2) by (simp add: demo_joint_def zero_float64_def)
qed

definition started_demo :: controller where
  "started_demo = snd (Start 0 0 (MockJointController demo_options 0))"

lemma started_demo: "run_ops controller_step [Op_Start 0 0] (MockJointController demo_options 0) = Some started_demo"
  by (simp add: started_demo_def)

lemma demo_accepted: "SetCommand 5 (demo_command (Fin 9)) started_demo = (Inr (), running_demo)"
  by code_simp


theorem timed_out_command_stops_joints_witness:
  "case run_ops controller_step [Op_Step 0 7] (snd (Step 0 100000006 running_demo)) of None \<Rightarrow> False
   | Some s2 \<Rightarrow> \<not> k_enabled s2 \<and> map js_position (k_states s2) = map js_position (k_states running_demo)"
proof -
  obtain r s1 where s1: "Step 0 100000006 running_demo = (r, s1)" by force
  have "run_ops controller_step (map (\<lambda>(n, t). Op_Step n t) [(0, 7)]) s1 = Some (snd (Step 0 7 s1))" by simp
  from timed_out_command_stops_joints [OF running_demo_flags(1,2,4) s1 this] s1 show ?thesis by simp
qed

theorem refused_command_changes_no_joint_witness:
  "k_has_command (snd (SetCommand 5 ((demo_command 0)\<lparr>jc_controller_id := ''leg''\<rparr>) running_demo))"
proof -
  have "fst (SetCommand 5 ((demo_command 0)\<lparr>jc_controller_id := ''leg''\<rparr>) running_demo)
      = Inl (MakeError kInvalidData ''joint command controller_id mismatch'')"
    by code_simp
  from refused_command_changes_no_joint [OF this] running_demo_flags(3) show ?thesis by (simp add: Let_def)
qed

theorem command_survives_emergency_stop_witness:
  "k_enabled (snd (Enable (snd (ClearFault (snd (EmergencyStop running_demo))))))"
  using command_survives_emergency_stop [OF running_demo_flags(1,3,5)] by (simp add: Let_def)

end
