(* ===== verification/Hardware_Config.thy ===== *)
theory Hardware_Config
  imports Joint_Controller
begin

section \<open>The hardware service's configuration (services/hardware\_interface/src/hardware\_config.cpp)\<close>

text \<open>
  The endpoint configurations, the built-in default and the loader of the YAML file. As in the
  launch manager, the YAML library is a record of its operations, an argument of the definitions;
  an exception is a value of \<open>hw_exn\<close>, and only the outermost function turns it into an \<open>Error\<close>.
\<close>

subsection \<open>Data\<close>

record EndpointConfig =
  ec_endpoint_id :: string
  ec_type :: string
  ec_enabled :: bool
  ec_mode :: string
  ec_driver :: string
  ec_topic :: string
  ec_command_topic :: string
  ec_state_topic :: string
  ec_frame_id :: string
  ec_publish_rate_hz :: float64
  ec_command_timeout_ms :: u64
  ec_disabled_on_start :: bool
  ec_critical :: bool

record HardwareInterfaceConfig =
  hc_robot_id :: string
  hc_node_name :: string
  hc_instance_id :: string
  hc_endpoints :: "EndpointConfig list"

definition default_HardwareInterfaceConfig :: HardwareInterfaceConfig where
  "default_HardwareInterfaceConfig =
     \<lparr>hc_robot_id = ''openember'', hc_node_name = ''hardware_interface'', hc_instance_id = ''hardware_interface'',
      hc_endpoints = []\<rparr>"

text \<open>Which kinds of endpoint the build contains (the preprocessor symbols \<^verbatim>\<open>OPENEMBER_HARDWARE_ENDPOINT_\<close>).\<close>

record hw_build =
  with_imu :: bool
  with_temperature :: bool
  with_gnss :: bool
  with_joint_controller :: bool

subsection \<open>What the loader uses of the YAML library\<close>

datatype hw_exn = Std_exception string | Yaml_error string

text \<open>
  \<open>n_at n k\<close> is \<^verbatim>\<open>n[k]\<close> with \<open>None\<close> for an undefined node, \<open>n_items\<close> the elements of a sequence,
  the others the conversions \<^verbatim>\<open>as<T>()\<close>. \<open>n_assign old new\<close> is the assignment of the node \<open>new\<close> to a
  variable that holds \<open>old\<close>: versions of the library differ on whether an undefined node may be assigned to.
\<close>

record 'y hw_yaml =
  n_LoadFile :: "string \<Rightarrow> hw_exn + 'y option"
  n_at :: "'y \<Rightarrow> string \<Rightarrow> 'y option"
  n_assign :: "'y option \<Rightarrow> 'y option \<Rightarrow> hw_exn + 'y option"
  n_IsScalar :: "'y \<Rightarrow> bool"
  n_IsMap :: "'y \<Rightarrow> bool"
  n_IsSequence :: "'y \<Rightarrow> bool"
  n_items :: "'y \<Rightarrow> 'y list"
  n_string :: "'y \<Rightarrow> hw_exn + string"
  n_bool :: "'y \<Rightarrow> hw_exn + bool"
  n_double :: "'y \<Rightarrow> hw_exn + float64"
  n_uint64 :: "'y \<Rightarrow> hw_exn + u64"

definition hw_ConfigError :: "string \<Rightarrow> Error + 'a" where
  "hw_ConfigError message = Inl (MakeError kInvalidConfig message)"

definition EndpointPrefix :: "nat \<Rightarrow> string" where
  "EndpointPrefix index = ''endpoints['' @ to_string_nat index @ '']''"

definition RequiredString :: "'y hw_yaml \<Rightarrow> 'y \<Rightarrow> string \<Rightarrow> string \<Rightarrow> hw_exn + string" where
  "RequiredString Y node key prefix =
     (case n_at Y node key of
        None \<Rightarrow> Inl (Std_exception (prefix @ ''.'' @ key @ '' is required''))
      | Some v \<Rightarrow>
          if \<not> n_IsScalar Y v then Inl (Std_exception (prefix @ ''.'' @ key @ '' is required''))
          else bindE (n_string Y v) (\<lambda>txt.
            if txt = [] then Inl (Std_exception (prefix @ ''.'' @ key @ '' must not be empty'')) else Inr txt))"

text \<open>The four functions \<^verbatim>\<open>OptionalString\<close>, \<^verbatim>\<open>OptionalBool\<close>, \<^verbatim>\<open>OptionalDouble\<close> and \<^verbatim>\<open>OptionalUint64\<close> differ
  in the conversion and in the noun of the message.\<close>

definition optional_value ::
  "('y \<Rightarrow> hw_exn + 'a) \<Rightarrow> string \<Rightarrow> 'y hw_yaml \<Rightarrow> 'y \<Rightarrow> string \<Rightarrow> 'a \<Rightarrow> string \<Rightarrow> hw_exn + 'a" where
  "optional_value convert noun Y node key fallback prefix =
     (case n_at Y node key of
        None \<Rightarrow> Inr fallback
      | Some v \<Rightarrow> if \<not> n_IsScalar Y v then Inl (Std_exception (prefix @ ''.'' @ key @ '' must be '' @ noun)) else convert v)"

definition OptionalString :: "'y hw_yaml \<Rightarrow> 'y \<Rightarrow> string \<Rightarrow> string \<Rightarrow> string \<Rightarrow> hw_exn + string" where
  "OptionalString Y = optional_value (n_string Y) ''a scalar'' Y"

definition OptionalBool :: "'y hw_yaml \<Rightarrow> 'y \<Rightarrow> string \<Rightarrow> bool \<Rightarrow> string \<Rightarrow> hw_exn + bool" where
  "OptionalBool Y = optional_value (n_bool Y) ''a boolean'' Y"

definition OptionalDouble :: "'y hw_yaml \<Rightarrow> 'y \<Rightarrow> string \<Rightarrow> float64 \<Rightarrow> string \<Rightarrow> hw_exn + float64" where
  "OptionalDouble Y = optional_value (n_double Y) ''a number'' Y"

definition OptionalUint64 :: "'y hw_yaml \<Rightarrow> 'y \<Rightarrow> string \<Rightarrow> u64 \<Rightarrow> string \<Rightarrow> hw_exn + u64" where
  "OptionalUint64 Y = optional_value (n_uint64 Y) ''an unsigned integer'' Y"

subsection \<open>Defaults\<close>

definition DefaultDriverFor :: "string \<Rightarrow> string \<Rightarrow> string" where
  "DefaultDriverFor type mode =
     (if mode = ''mock'' then
        if type = ''imu'' then ''mock_imu'' else if type = ''temperature'' then ''mock_temperature''
        else if type = ''gnss'' then ''mock_gnss'' else if type = ''joint_controller'' then ''mock_joint_controller''
        else ''mock_'' @ type
      else type)"

definition DefaultRateFor :: "string \<Rightarrow> float64" where
  "DefaultRateFor type =
     (if type = ''imu'' then Fin 100 else if type = ''temperature'' then Fin 2 else if type = ''gnss'' then Fin 1
      else if type = ''joint_controller'' then Fin 100 else Fin 1)"

definition DefaultTopicFor :: "string \<Rightarrow> string \<Rightarrow> string" where
  "DefaultTopicFor type endpoint_id =
     (if type = ''imu'' then ''/sensors/imu/'' @ endpoint_id @ ''/sample''
      else if type = ''temperature'' then ''/sensors/temperature/'' @ endpoint_id @ ''/sample''
      else if type = ''gnss'' then ''/sensors/gnss/'' @ endpoint_id @ ''/fix''
      else if type = ''joint_controller'' then ''/actuators/joints/'' @ endpoint_id @ ''/state''
      else ''/hardware/'' @ type @ ''/'' @ endpoint_id)"

definition DefaultCommandTopicFor :: "string \<Rightarrow> string \<Rightarrow> string" where
  "DefaultCommandTopicFor type endpoint_id =
     (if type = ''joint_controller'' then ''/actuators/joints/'' @ endpoint_id @ ''/command'' else [])"

definition DefaultMockConfig :: "hw_build \<Rightarrow> HardwareInterfaceConfig" where
  "DefaultMockConfig B = default_HardwareInterfaceConfig\<lparr>hc_endpoints :=
     (if with_imu B then
        [\<lparr>ec_endpoint_id = ''imu0'', ec_type = ''imu'', ec_enabled = True, ec_mode = ''mock'', ec_driver = ''mock_imu'',
          ec_topic = ''/sensors/imu/imu0/sample'', ec_command_topic = [], ec_state_topic = ''/sensors/imu/imu0/sample'',
          ec_frame_id = ''imu_link'', ec_publish_rate_hz = Fin 100, ec_command_timeout_ms = 100,
          ec_disabled_on_start = True, ec_critical = False\<rparr>] else []) @
     (if with_temperature B then
        [\<lparr>ec_endpoint_id = ''temp0'', ec_type = ''temperature'', ec_enabled = True, ec_mode = ''mock'', ec_driver = ''mock_temperature'',
          ec_topic = ''/sensors/temperature/temp0/sample'', ec_command_topic = [], ec_state_topic = ''/sensors/temperature/temp0/sample'',
          ec_frame_id = ''temperature_link'', ec_publish_rate_hz = Fin 2, ec_command_timeout_ms = 100,
          ec_disabled_on_start = True, ec_critical = False\<rparr>] else []) @
     (if with_gnss B then
        [\<lparr>ec_endpoint_id = ''gnss0'', ec_type = ''gnss'', ec_enabled = True, ec_mode = ''mock'', ec_driver = ''mock_gnss'',
          ec_topic = ''/sensors/gnss/gnss0/fix'', ec_command_topic = [], ec_state_topic = ''/sensors/gnss/gnss0/fix'',
          ec_frame_id = ''gnss_link'', ec_publish_rate_hz = Fin 1, ec_command_timeout_ms = 100,
          ec_disabled_on_start = True, ec_critical = False\<rparr>] else []) @
     (if with_joint_controller B then
        [\<lparr>ec_endpoint_id = ''joint_controller0'', ec_type = ''joint_controller'', ec_enabled = True, ec_mode = ''mock'',
          ec_driver = ''mock_joint_controller'', ec_topic = ''/actuators/joints/joint_controller0/state'',
          ec_command_topic = ''/actuators/joints/joint_controller0/command'',
          ec_state_topic = ''/actuators/joints/joint_controller0/state'',
          ec_frame_id = ''base_link'', ec_publish_rate_hz = Fin 100, ec_command_timeout_ms = 100,
          ec_disabled_on_start = True, ec_critical = False\<rparr>] else [])\<rparr>"

subsection \<open>Loading\<close>

text \<open>The checks at the end of \<^verbatim>\<open>ParseEndpoint\<close>.\<close>

definition CheckEndpoint :: "string \<Rightarrow> EndpointConfig \<Rightarrow> hw_exn + EndpointConfig" where
  "CheckEndpoint prefix config =
     (if ec_mode config = [] then Inl (Std_exception (prefix @ ''.mode must not be empty''))
      else if ec_driver config = [] then Inl (Std_exception (prefix @ ''.driver must not be empty''))
      else if ec_topic config = [] then Inl (Std_exception (prefix @ ''.topic must not be empty''))
      else bindE
        (if ec_type config = ''joint_controller'' then
           if ec_state_topic config = [] then Inl (Std_exception (prefix @ ''.state_topic must not be empty''))
           else if ec_command_topic config = [] then Inl (Std_exception (prefix @ ''.command_topic must not be empty''))
           else Inr (config\<lparr>ec_topic := ec_state_topic config\<rparr>)
         else Inr config)
        (\<lambda>config. if ec_publish_rate_hz config \<le> 0 then Inl (Std_exception (prefix @ ''.publish_rate_hz must be > 0''))
                  else Inr config))"

definition ParseEndpoint :: "'y hw_yaml \<Rightarrow> 'y \<Rightarrow> nat \<Rightarrow> hw_exn + EndpointConfig" where
  "ParseEndpoint Y node index =
     (let prefix = EndpointPrefix index in
      if \<not> n_IsMap Y node then Inl (Std_exception (prefix @ '' must be a map''))
      else
        bindE (OptionalString Y node ''id'' [] prefix) (\<lambda>id0.
        bindE (OptionalString Y node ''endpoint_id'' id0 prefix) (\<lambda>endpoint_id.
        if endpoint_id = [] then Inl (Std_exception (prefix @ ''.id is required''))
        else
          bindE (RequiredString Y node ''type'' prefix) (\<lambda>type.
          bindE (OptionalBool Y node ''enabled'' True prefix) (\<lambda>enabled.
          bindE (OptionalString Y node ''mode'' ''mock'' prefix) (\<lambda>mode.
          bindE (OptionalString Y node ''driver'' (DefaultDriverFor type mode) prefix) (\<lambda>driver.
          bindE (OptionalString Y node ''topic'' (DefaultTopicFor type endpoint_id) prefix) (\<lambda>topic.
          bindE (OptionalString Y node ''state_topic'' topic prefix) (\<lambda>state_topic.
          bindE (OptionalString Y node ''command_topic'' (DefaultCommandTopicFor type endpoint_id) prefix) (\<lambda>command_topic.
          bindE (OptionalString Y node ''frame_id'' (endpoint_id @ ''_link'') prefix) (\<lambda>frame_id.
          bindE (OptionalDouble Y node ''publish_rate_hz'' (DefaultRateFor type) prefix) (\<lambda>rate.
          bindE (OptionalUint64 Y node ''command_timeout_ms'' 100 prefix) (\<lambda>timeout.
          bindE (OptionalBool Y node ''disabled_on_start'' True prefix) (\<lambda>disabled_on_start.
          bindE (OptionalBool Y node ''critical'' False prefix) (\<lambda>critical.
          CheckEndpoint prefix
            \<lparr>ec_endpoint_id = endpoint_id, ec_type = type, ec_enabled = enabled, ec_mode = mode, ec_driver = driver,
             ec_topic = topic, ec_command_topic = command_topic, ec_state_topic = state_topic, ec_frame_id = frame_id,
             ec_publish_rate_hz = rate, ec_command_timeout_ms = timeout, ec_disabled_on_start = disabled_on_start,
             ec_critical = critical\<rparr>)))))))))))))))"

text \<open>The loop over the endpoints; a duplicate id is an early return, not an exception.\<close>

fun ParseEndpoints :: "'y hw_yaml \<Rightarrow> nat \<Rightarrow> string list \<Rightarrow> 'y list \<Rightarrow> hw_exn + (Error + EndpointConfig list)" where
  "ParseEndpoints Y i ids [] = Inr (Inr [])"
| "ParseEndpoints Y i ids (node # nodes) =
     bindE (ParseEndpoint Y node i) (\<lambda>endpoint.
       if ec_endpoint_id endpoint \<in> set ids
       then Inr (hw_ConfigError (''duplicate endpoint id: '' @ ec_endpoint_id endpoint))
       else bindE (ParseEndpoints Y (i + 1) (ec_endpoint_id endpoint # ids) nodes)
              (\<lambda>r. Inr (bindE r (\<lambda>endpoints. Inr (endpoint # endpoints)))))"

definition parse_app :: "'y hw_yaml \<Rightarrow> 'y option \<Rightarrow> hw_exn + (Error + HardwareInterfaceConfig)" where
  "parse_app Y app_node =
     (let config = default_HardwareInterfaceConfig in
      case app_node of
        None \<Rightarrow> Inr (Inr config)
      | Some app \<Rightarrow>
          if \<not> n_IsMap Y app then Inr (hw_ConfigError ''hardware_interface must be a map'')
          else
            bindE (OptionalString Y app ''robot_id'' (hc_robot_id config) ''hardware_interface'') (\<lambda>robot_id.
            bindE (OptionalString Y app ''node_name'' (hc_node_name config) ''hardware_interface'') (\<lambda>node_name.
            bindE (OptionalString Y app ''instance_id'' (hc_instance_id config) ''hardware_interface'') (\<lambda>instance_id.
            Inr (Inr (config\<lparr>hc_robot_id := robot_id, hc_node_name := node_name, hc_instance_id := instance_id\<rparr>))))))"

definition parse_endpoint_list :: "'y hw_yaml \<Rightarrow> 'y \<Rightarrow> HardwareInterfaceConfig \<Rightarrow> hw_exn + (Error + HardwareInterfaceConfig)" where
  "parse_endpoint_list Y document config =
     (let app_node = n_at Y document ''hardware_interface''; endpoints = n_at Y document ''endpoints'' in
      bindE (case (endpoints, app_node) of (None, Some app) \<Rightarrow> n_assign Y endpoints (n_at Y app ''endpoints'') | _ \<Rightarrow> Inr endpoints)
        (\<lambda>endpoints. case endpoints of
             None \<Rightarrow> Inr (hw_ConfigError ''endpoints must be a sequence'')
           | Some sq \<Rightarrow>
               if \<not> n_IsSequence Y sq then Inr (hw_ConfigError ''endpoints must be a sequence'')
               else bindE (ParseEndpoints Y 0 [] (n_items Y sq))
                      (\<lambda>r. Inr (bindE r (\<lambda>es. Inr (config\<lparr>hc_endpoints := es\<rparr>))))))"

definition load_config :: "'y hw_yaml \<Rightarrow> string \<Rightarrow> hw_exn + (Error + HardwareInterfaceConfig)" where
  "load_config Y path =
     bindE (n_LoadFile Y path) (\<lambda>doc. case doc of
         None \<Rightarrow> Inr (hw_ConfigError ''hardware_interface config root must be a map'')
       | Some document \<Rightarrow>
           if \<not> n_IsMap Y document then Inr (hw_ConfigError ''hardware_interface config root must be a map'')
           else bindE (parse_app Y (n_at Y document ''hardware_interface''))
             (\<lambda>r. case r of Inl e \<Rightarrow> Inr (Inl e) | Inr config \<Rightarrow> parse_endpoint_list Y document config))"

definition LoadConfigFromFile :: "'y hw_yaml \<Rightarrow> string \<Rightarrow> Error + HardwareInterfaceConfig" where
  "LoadConfigFromFile Y path =
     (if path = [] then hw_ConfigError ''config path must not be empty''
      else case load_config Y path of
          Inr r \<Rightarrow> r
        | Inl (Yaml_error what) \<Rightarrow> hw_ConfigError (''failed to parse hardware_interface config: '' @ what)
        | Inl (Std_exception what) \<Rightarrow> hw_ConfigError what)"

subsection \<open>Well-formed configurations\<close>

definition endpoint_ok :: "EndpointConfig \<Rightarrow> bool" where
  "endpoint_ok c \<longleftrightarrow> ec_endpoint_id c \<noteq> [] \<and> ec_type c \<noteq> [] \<and> ec_mode c \<noteq> [] \<and> ec_driver c \<noteq> [] \<and> ec_topic c \<noteq> [] \<and>
     \<not> ec_publish_rate_hz c \<le> 0 \<and>
     (ec_type c = ''joint_controller'' \<longrightarrow> ec_topic c = ec_state_topic c \<and> ec_command_topic c \<noteq> [])"

definition config_ok :: "HardwareInterfaceConfig \<Rightarrow> bool" where
  "config_ok c \<longleftrightarrow> list_all endpoint_ok (hc_endpoints c) \<and> distinct (map ec_endpoint_id (hc_endpoints c))"

lemma RequiredString_nonempty: "RequiredString Y node key prefix = Inr v \<Longrightarrow> v \<noteq> []"
  by (auto simp: RequiredString_def split: option.splits if_splits)

lemma CheckEndpoint_ok:
  assumes "CheckEndpoint prefix c = Inr c'" "ec_endpoint_id c \<noteq> []" "ec_type c \<noteq> []"
  shows "endpoint_ok c'"
  using assms by (auto simp: CheckEndpoint_def endpoint_ok_def split: if_splits)

lemma ParseEndpoint_ok: "ParseEndpoint Y node i = Inr c \<Longrightarrow> endpoint_ok c"
  unfolding ParseEndpoint_def Let_def
  by (split if_splits, simp, simp only: bindE_eq_Inr, elim exE conjE, split if_splits, simp,
      simp only: bindE_eq_Inr, elim exE conjE, rule CheckEndpoint_ok, assumption, simp, simp add: RequiredString_nonempty)

lemma ParseEndpoints_ok:
  "ParseEndpoints Y i ids nodes = Inr (Inr es) \<Longrightarrow>
   list_all endpoint_ok es \<and> distinct (map ec_endpoint_id es) \<and> set ids \<inter> ec_endpoint_id ` set es = {}"
proof (induction Y i ids nodes arbitrary: es rule: ParseEndpoints.induct)
  case (2 Y i ids node nodes)
  from 2(2) obtain e r where e: "ParseEndpoint Y node i = Inr e" "ec_endpoint_id e \<notin> set ids"
    and r: "ParseEndpoints Y (i + 1) (ec_endpoint_id e # ids) nodes = Inr r"
      "bindE r (\<lambda>endpoints. Inr (e # endpoints)) = Inr es"
    by (auto split: if_splits simp: hw_ConfigError_def)
  then obtain es' where es': "r = Inr es'" "es = e # es'" by auto
  from 2(1) [OF e(2) r(1) [unfolded es'(1)]] es' e(2) ParseEndpoint_ok [OF e(1)] show ?case by auto
qed simp

lemma parse_endpoint_list_ok: "parse_endpoint_list Y document config = Inr (Inr c) \<Longrightarrow> config_ok c"
proof -
  assume "parse_endpoint_list Y document config = Inr (Inr c)"
  then obtain nd where nd: "(case nd of None \<Rightarrow> Inr (hw_ConfigError ''endpoints must be a sequence'')
      | Some sq \<Rightarrow> if \<not> n_IsSequence Y sq then Inr (hw_ConfigError ''endpoints must be a sequence'')
         else bindE (ParseEndpoints Y 0 [] (n_items Y sq)) (\<lambda>r. Inr (bindE r (\<lambda>es. Inr (config\<lparr>hc_endpoints := es\<rparr>)))))
      = Inr (Inr c)"
    unfolding parse_endpoint_list_def Let_def bindE_eq_Inr by blast
  then obtain sq where sq: "n_IsSequence Y sq" "bindE (ParseEndpoints Y 0 [] (n_items Y sq))
      (\<lambda>r. Inr (bindE r (\<lambda>es. Inr (config\<lparr>hc_endpoints := es\<rparr>)))) = Inr (Inr c)"
    by (auto simp: hw_ConfigError_def split: option.splits if_splits)
  then show "config_ok c" by (auto simp: config_ok_def dest: ParseEndpoints_ok)
qed

lemma LoadConfigFromFile_ok: "LoadConfigFromFile Y path = Inr c \<Longrightarrow> config_ok c"
proof -
  assume "LoadConfigFromFile Y path = Inr c"
  then have "load_config Y path = Inr (Inr c)"
    by (auto simp: LoadConfigFromFile_def hw_ConfigError_def split: if_splits sum.splits hw_exn.splits)
  then obtain nd where "(case nd of None \<Rightarrow> Inr (hw_ConfigError ''hardware_interface config root must be a map'')
      | Some document \<Rightarrow> if \<not> n_IsMap Y document then Inr (hw_ConfigError ''hardware_interface config root must be a map'')
         else bindE (parse_app Y (n_at Y document ''hardware_interface''))
           (\<lambda>r. case r of Inl e \<Rightarrow> Inr (Inl e) | Inr config \<Rightarrow> parse_endpoint_list Y document config)) = Inr (Inr c)"
    unfolding load_config_def bindE_eq_Inr by blast
  then obtain document r where "(case r of Inl e \<Rightarrow> Inr (Inl e) | Inr config \<Rightarrow> parse_endpoint_list Y document config) = Inr (Inr c)"
    by (auto simp: hw_ConfigError_def split: option.splits if_splits)
  then show "config_ok c" by (auto split: sum.splits dest: parse_endpoint_list_ok)
qed

lemma DefaultMockConfig_ok: "config_ok (DefaultMockConfig B)"
  by (simp add: config_ok_def DefaultMockConfig_def default_HardwareInterfaceConfig_def endpoint_ok_def zero_float64_def)

text \<open>A small document type with the library's documented behaviour.\<close>

datatype ynode = YScalar string | YMap "(string \<times> ynode) list" | YSeq "ynode list"

fun y_lookup :: "ynode \<Rightarrow> string \<Rightarrow> ynode option" where
  "y_lookup (YMap kvs) k = map_of kvs k"
| "y_lookup _ k = None"

fun y_scalar :: "ynode \<Rightarrow> bool" where
  "y_scalar (YScalar _) = True"
| "y_scalar _ = False"

fun y_map :: "ynode \<Rightarrow> bool" where
  "y_map (YMap _) = True"
| "y_map _ = False"

fun y_seq :: "ynode \<Rightarrow> bool" where
  "y_seq (YSeq _) = True"
| "y_seq _ = False"

fun y_elements :: "ynode \<Rightarrow> ynode list" where
  "y_elements (YSeq ns) = ns"
| "y_elements _ = []"

fun y_text :: "ynode \<Rightarrow> hw_exn + string" where
  "y_text (YScalar s) = Inr s"
| "y_text _ = Inl (Yaml_error ''bad conversion'')"

fun y_truth :: "ynode \<Rightarrow> hw_exn + bool" where
  "y_truth (YScalar s) = (if s = ''true'' then Inr True else if s = ''false'' then Inr False else Inl (Yaml_error ''bad conversion''))"
| "y_truth _ = Inl (Yaml_error ''bad conversion'')"

fun y_number :: "ynode \<Rightarrow> hw_exn + nat" where
  "y_number (YScalar s) = (if s \<noteq> [] \<and> list_all is_digit s then Inr (fold (\<lambda>c n. 10 * n + char_digit c) s 0)
                           else Inl (Yaml_error ''bad conversion''))"
| "y_number _ = Inl (Yaml_error ''bad conversion'')"

definition sim_yaml :: "(string \<times> ynode) list \<Rightarrow> ynode hw_yaml" where
  "sim_yaml files =
     \<lparr>n_LoadFile = (\<lambda>path. case map_of files path of None \<Rightarrow> Inl (Yaml_error ''bad file'') | Some n \<Rightarrow> Inr (Some n)),
      n_at = y_lookup, n_assign = (\<lambda>old new. if old = None then Inl (Yaml_error ''invalid node'') else Inr new),
      n_IsScalar = y_scalar, n_IsMap = y_map, n_IsSequence = y_seq, n_items = y_elements, n_string = y_text, n_bool = y_truth,
      n_double = (\<lambda>n. bindE (y_number n) (\<lambda>k. Inr (Fin (of_nat k)))),
      n_uint64 = (\<lambda>n. bindE (y_number n) (\<lambda>k. Inr (of_nat k)))\<rparr>"

lemma sim_yaml_simps [simp]:
  "n_LoadFile (sim_yaml files) path = (case map_of files path of None \<Rightarrow> Inl (Yaml_error ''bad file'') | Some n \<Rightarrow> Inr (Some n))"
  "n_at (sim_yaml files) = y_lookup" "n_IsScalar (sim_yaml files) = y_scalar" "n_IsMap (sim_yaml files) = y_map"
  "n_IsSequence (sim_yaml files) = y_seq" "n_items (sim_yaml files) = y_elements" "n_string (sim_yaml files) = y_text"
  "n_bool (sim_yaml files) = y_truth" "n_double (sim_yaml files) n = bindE (y_number n) (\<lambda>k. Inr (Fin (of_nat k)))"
  "n_uint64 (sim_yaml files) n = bindE (y_number n) (\<lambda>k. Inr (of_nat k))"
  by (simp_all add: sim_yaml_def)

text \<open>C16: A configuration that the loader accepts has non-empty, pairwise different endpoint ids, and every endpoint
  in it has a type, a mode, a driver, a topic and a rate that is not zero or negative; a joint controller also has a
  command topic and publishes on its state topic.\<close>

theorem loaded_config_well_formed:
  assumes "LoadConfigFromFile Y path = Inr c"
  shows "distinct (map ec_endpoint_id (hc_endpoints c)) \<and>
    list_all (\<lambda>e. ec_endpoint_id e \<noteq> [] \<and> ec_type e \<noteq> [] \<and> ec_mode e \<noteq> [] \<and> ec_driver e \<noteq> [] \<and> ec_topic e \<noteq> [] \<and>
      \<not> ec_publish_rate_hz e \<le> 0 \<and>
      (ec_type e = ''joint_controller'' \<longrightarrow> ec_topic e = ec_state_topic e \<and> ec_command_topic e \<noteq> [])) (hc_endpoints c)"
  using LoadConfigFromFile_ok [OF assms] by (simp add: config_ok_def endpoint_ok_def list_all_iff)

definition demo_arm :: ynode where
  "demo_arm = YMap [(''id'', YScalar ''arm''), (''type'', YScalar ''joint_controller''), (''critical'', YScalar ''true'')]"

definition demo_arm_config :: EndpointConfig where
  "demo_arm_config = \<lparr>ec_endpoint_id = ''arm'', ec_type = ''joint_controller'', ec_enabled = True, ec_mode = ''mock'',
     ec_driver = ''mock_joint_controller'', ec_topic = ''/actuators/joints/arm/state'',
     ec_command_topic = ''/actuators/joints/arm/command'', ec_state_topic = ''/actuators/joints/arm/state'',
     ec_frame_id = ''arm_link'', ec_publish_rate_hz = Fin 100, ec_command_timeout_ms = 100, ec_disabled_on_start = True,
     ec_critical = True\<rparr>"

lemma demo_arm: "ParseEndpoint (sim_yaml files) demo_arm i = Inr demo_arm_config"
  by (simp add: ParseEndpoint_def demo_arm_def OptionalString_def OptionalBool_def OptionalDouble_def OptionalUint64_def
      optional_value_def RequiredString_def CheckEndpoint_def DefaultDriverFor_def DefaultRateFor_def DefaultTopicFor_def
      DefaultCommandTopicFor_def zero_float64_def demo_arm_config_def Let_def cong: bindE_weak_cong)

definition demo_doc :: ynode where
  "demo_doc = YMap [(''endpoints'', YSeq [demo_arm])]"

lemma demo_load: "LoadConfigFromFile (sim_yaml [(''hw.yaml'', demo_doc)]) ''hw.yaml'' =
    Inr (default_HardwareInterfaceConfig\<lparr>hc_endpoints := [demo_arm_config]\<rparr>)"
  by (simp add: LoadConfigFromFile_def load_config_def parse_app_def parse_endpoint_list_def demo_arm demo_doc_def
      cong: bindE_weak_cong)

theorem loaded_config_well_formed_witness:
  "distinct (map ec_endpoint_id [demo_arm_config]) \<and> ec_command_topic demo_arm_config \<noteq> []"
  using loaded_config_well_formed [OF demo_load] by (simp add: demo_arm_config_def)

end
