(* ===== verification/Sensors.thy ===== *)
theory Sensors
  imports Joint_Controller
begin

section \<open>The mock sensors (components/sensor)\<close>

text \<open>
  \<^verbatim>\<open>MockImu\<close>, \<^verbatim>\<open>MockTemperature\<close> and \<^verbatim>\<open>MockGnss\<close> share their life cycle: the record \<open>polled\<close> holds
  the fields it uses and every class extends it by its options and information, so the operations on
  \<open>polled\<close> are the methods the classes have in common. A method that waits releases the mutex and is
  two operations, as in the joint controller; the clocks are arguments.
\<close>

subsection \<open>Types\<close>

datatype SensorType = kSensorUnspecified | kImu | kTemperature | kGnss
datatype SensorBusType =
    kSensorBusUnspecified | kSensorBusVirtual | kSensorBusSerial | kI2c | kSpi | kSensorBusCan | kSensorBusGpio | kOneWire
datatype SensorFetchMode = kFetchUnspecified | kPolling | kEvent | kFifo
datatype DeviceAvailability = kDeviceUnspecified | kDeviceOffline | kDeviceOnline | kDeviceDegraded | kDeviceError
datatype GnssFixType = kNoFix | kFix2D | kFix3D | kRtkFloat | kRtkFixed

record SensorInfo =
  si_sensor_id :: string
  si_name :: string
  si_type :: SensorType
  si_vendor :: string
  si_model :: string
  si_driver :: string
  si_frame_id :: string
  si_bus_type :: SensorBusType
  si_fetch_mode :: SensorFetchMode
  si_min_period_ms :: float64

record DeviceStatus =
  dv_availability :: DeviceAvailability
  dv_health :: HealthState
  dv_last_error :: Error
  dv_message :: string
  dv_sequence :: u64
  dv_error_count :: u64

record Vector3 =
  v_x :: float64
  v_y :: float64
  v_z :: float64

record ImuSample =
  is_sensor_id :: string
  is_frame_id :: string
  is_sample_time_monotonic_ns :: u64
  is_sequence :: u64
  is_acceleration :: Vector3
  is_angular_velocity :: Vector3
  is_magnetic_field :: Vector3
  is_temperature :: float64

record TemperatureSample =
  tm_sensor_id :: string
  tm_frame_id :: string
  tm_sample_time_monotonic_ns :: u64
  tm_sequence :: u64
  tm_temperature :: float64

record GnssFix =
  gf_sensor_id :: string
  gf_frame_id :: string
  gf_sample_time_monotonic_ns :: u64
  gf_sequence :: u64
  gf_fix_type :: GnssFixType
  gf_latitude_deg :: float64
  gf_longitude_deg :: float64
  gf_altitude_m :: float64
  gf_velocity_enu :: Vector3
  gf_satellites_used :: u32
  gf_horizontal_accuracy_m :: float64
  gf_vertical_accuracy_m :: float64

subsection \<open>What the mocks have in common\<close>

record polled =
  pl_running :: bool
  pl_sequence :: u64
  pl_next_sample :: int

definition mock_info :: "SensorType \<Rightarrow> string \<Rightarrow> string \<Rightarrow> string \<Rightarrow> string \<Rightarrow> float64 \<Rightarrow> SensorInfo" where
  "mock_info type model driver sensor_id frame_id rate =
     \<lparr>si_sensor_id = sensor_id, si_name = sensor_id, si_type = type, si_vendor = ''OpenEmber'', si_model = model,
      si_driver = driver, si_frame_id = frame_id, si_bus_type = kSensorBusVirtual, si_fetch_mode = kPolling,
      si_min_period_ms = f_div (Fin 1000) (std_max rate (round64 (1 / 1000)))\<rparr>"

definition mock_Status :: "string \<Rightarrow> string \<Rightarrow> 'a polled_scheme \<Rightarrow> DeviceStatus" where
  "mock_Status running_message stopped_message s =
     \<lparr>dv_availability = (if pl_running s then kDeviceOnline else kDeviceOffline),
      dv_health = (if pl_running s then kHealthOk else kHealthStale), dv_last_error = no_error,
      dv_message = (if pl_running s then running_message else stopped_message),
      dv_sequence = pl_sequence s, dv_error_count = 0\<rparr>"

definition mock_Start :: "int \<Rightarrow> 'a polled_scheme \<Rightarrow> 'a polled_scheme" where
  "mock_Start now s = s\<lparr>pl_running := True, pl_next_sample := now\<rparr>"

definition mock_Stop :: "'a polled_scheme \<Rightarrow> 'a polled_scheme" where
  "mock_Stop s = s\<lparr>pl_running := False\<rparr>"

text \<open>The start of a read: an error, a sample that is due (\<open>True\<close>), or waiting for one.\<close>

definition mock_poll :: "string \<Rightarrow> int \<Rightarrow> 'a polled_scheme \<Rightarrow> Error + bool" where
  "mock_poll not_running_message now s =
     (if \<not> pl_running s then Inl (MakeError kNotRunning not_running_message) else Inr (\<not> now < pl_next_sample s))"

definition mock_wake :: "string \<Rightarrow> string \<Rightarrow> int \<Rightarrow> 'a polled_scheme \<Rightarrow> Error + unit" where
  "mock_wake stopped_message late_message now s =
     (if \<not> pl_running s then Inl (MakeError kNotRunning stopped_message)
      else if now < pl_next_sample s then Inl (MakeError kTimeout late_message) else Inr ())"

definition mock_advance :: "float64 \<Rightarrow> int \<Rightarrow> 'a polled_scheme \<Rightarrow> 'a polled_scheme" where
  "mock_advance rate now s = s\<lparr>pl_sequence := pl_sequence s + 1,
     pl_next_sample := (case rate_period rate of None \<Rightarrow> pl_next_sample s | Some d \<Rightarrow> now + d)\<rparr>"

text \<open>A read, from what decides whether there is a sample and what makes one.\<close>

definition read_begin :: "('s \<Rightarrow> Error + bool) \<Rightarrow> ('s \<Rightarrow> 'x \<times> 's) \<Rightarrow> 's \<Rightarrow> (Error + 'x option) \<times> 's" where
  "read_begin poll sample s =
     (case poll s of Inl e \<Rightarrow> (Inl e, s) | Inr due \<Rightarrow>
        if due then case sample s of (x, s') \<Rightarrow> (Inr (Some x), s') else (Inr None, s))"

definition read_finish :: "('s \<Rightarrow> Error + unit) \<Rightarrow> ('s \<Rightarrow> 'x \<times> 's) \<Rightarrow> 's \<Rightarrow> (Error + 'x) \<times> 's" where
  "read_finish wake sample s =
     (case wake s of Inl e \<Rightarrow> (Inl e, s) | Inr _ \<Rightarrow> case sample s of (x, s') \<Rightarrow> (Inr x, s'))"

subsection \<open>MockImu\<close>

record MockImuOptions =
  io_sensor_id :: string
  io_frame_id :: string
  io_rate_hz :: float64
  io_temperature_celsius :: float64

record MockImu = polled +
  im_options :: MockImuOptions
  im_info :: SensorInfo

definition MockImu_init :: "MockImuOptions \<Rightarrow> MockImu" where
  "MockImu_init options = \<lparr>pl_running = False, pl_sequence = 0, pl_next_sample = 0, im_options = options,
     im_info = mock_info kImu ''Mock IMU'' ''mock_imu'' (io_sensor_id options) (io_frame_id options) (io_rate_hz options)\<rparr>"

definition MockImu_Status :: "MockImu \<Rightarrow> DeviceStatus" where
  "MockImu_Status = mock_Status ''mock IMU running'' ''mock IMU stopped''"

definition MockImu_Start :: "int \<Rightarrow> MockImu \<Rightarrow> MockImu" where
  "MockImu_Start = mock_Start"

definition MockImu_Stop :: "MockImu \<Rightarrow> MockImu" where
  "MockImu_Stop = mock_Stop"

definition MockImu_sample :: "u64 \<Rightarrow> int \<Rightarrow> MockImu \<Rightarrow> ImuSample \<times> MockImu" where
  "MockImu_sample now_ns now s =
     (\<lparr>is_sensor_id = io_sensor_id (im_options s), is_frame_id = io_frame_id (im_options s),
       is_sample_time_monotonic_ns = now_ns, is_sequence = pl_sequence s,
       is_acceleration = \<lparr>v_x = 0, v_y = 0, v_z = round64 (980665 / 100000)\<rparr>,
       is_angular_velocity = \<lparr>v_x = 0, v_y = 0, v_z = 0\<rparr>, is_magnetic_field = \<lparr>v_x = 0, v_y = 0, v_z = 0\<rparr>,
       is_temperature = io_temperature_celsius (im_options s)\<rparr>,
      mock_advance (io_rate_hz (im_options s)) now s)"

definition MockImu_ReadSample_begin :: "int \<Rightarrow> u64 \<Rightarrow> int \<Rightarrow> MockImu \<Rightarrow> (Error + ImuSample option) \<times> MockImu" where
  "MockImu_ReadSample_begin now now_ns now' = read_begin (mock_poll ''mock IMU is not running'' now) (MockImu_sample now_ns now')"

definition MockImu_ReadSample_finish :: "int \<Rightarrow> u64 \<Rightarrow> int \<Rightarrow> MockImu \<Rightarrow> (Error + ImuSample) \<times> MockImu" where
  "MockImu_ReadSample_finish now now_ns now' =
     read_finish (mock_wake ''mock IMU stopped'' ''mock IMU read timeout'' now) (MockImu_sample now_ns now')"

subsection \<open>MockTemperature\<close>

record MockTemperatureOptions =
  to_sensor_id :: string
  to_frame_id :: string
  to_rate_hz :: float64
  to_initial_temperature_celsius :: float64

record MockTemperature = polled +
  mt_options :: MockTemperatureOptions
  mt_info :: SensorInfo

definition MockTemperature_init :: "MockTemperatureOptions \<Rightarrow> MockTemperature" where
  "MockTemperature_init options = \<lparr>pl_running = False, pl_sequence = 0, pl_next_sample = 0, mt_options = options,
     mt_info = mock_info kTemperature ''Mock Temperature'' ''mock_temperature'' (to_sensor_id options) (to_frame_id options)
       (to_rate_hz options)\<rparr>"

definition MockTemperature_Status :: "MockTemperature \<Rightarrow> DeviceStatus" where
  "MockTemperature_Status = mock_Status ''mock temperature running'' ''mock temperature stopped''"

definition MockTemperature_Start :: "int \<Rightarrow> MockTemperature \<Rightarrow> MockTemperature" where
  "MockTemperature_Start = mock_Start"

definition MockTemperature_Stop :: "MockTemperature \<Rightarrow> MockTemperature" where
  "MockTemperature_Stop = mock_Stop"

text \<open>\<open>sin_f\<close> is the C library's sine, whose rounding no standard fixes.\<close>

definition MockTemperature_sample ::
  "(float64 \<Rightarrow> float64) \<Rightarrow> u64 \<Rightarrow> int \<Rightarrow> MockTemperature \<Rightarrow> TemperatureSample \<times> MockTemperature" where
  "MockTemperature_sample sin_f now_ns now s =
     (\<lparr>tm_sensor_id = to_sensor_id (mt_options s), tm_frame_id = to_frame_id (mt_options s),
       tm_sample_time_monotonic_ns = now_ns, tm_sequence = pl_sequence s,
       tm_temperature = to_initial_temperature_celsius (mt_options s) +
         round64 (2 / 10) * sin_f (f_of_int (uint (pl_sequence s)) * round64 (1 / 10))\<rparr>,
      mock_advance (to_rate_hz (mt_options s)) now s)"

definition MockTemperature_ReadSample_begin ::
  "(float64 \<Rightarrow> float64) \<Rightarrow> int \<Rightarrow> u64 \<Rightarrow> int \<Rightarrow> MockTemperature \<Rightarrow> (Error + TemperatureSample option) \<times> MockTemperature" where
  "MockTemperature_ReadSample_begin sin_f now now_ns now' =
     read_begin (mock_poll ''mock temperature is not running'' now) (MockTemperature_sample sin_f now_ns now')"

definition MockTemperature_ReadSample_finish ::
  "(float64 \<Rightarrow> float64) \<Rightarrow> int \<Rightarrow> u64 \<Rightarrow> int \<Rightarrow> MockTemperature \<Rightarrow> (Error + TemperatureSample) \<times> MockTemperature" where
  "MockTemperature_ReadSample_finish sin_f now now_ns now' =
     read_finish (mock_wake ''mock temperature stopped'' ''mock temperature read timeout'' now)
       (MockTemperature_sample sin_f now_ns now')"

subsection \<open>MockGnss\<close>

record MockGnssOptions =
  go_sensor_id :: string
  go_frame_id :: string
  go_rate_hz :: float64
  go_latitude_deg :: float64
  go_longitude_deg :: float64
  go_altitude_m :: float64

record MockGnss = polled +
  mg_options :: MockGnssOptions
  mg_info :: SensorInfo

definition MockGnss_init :: "MockGnssOptions \<Rightarrow> MockGnss" where
  "MockGnss_init options = \<lparr>pl_running = False, pl_sequence = 0, pl_next_sample = 0, mg_options = options,
     mg_info = mock_info kGnss ''Mock GNSS'' ''mock_gnss'' (go_sensor_id options) (go_frame_id options) (go_rate_hz options)\<rparr>"

definition MockGnss_Status :: "MockGnss \<Rightarrow> DeviceStatus" where
  "MockGnss_Status = mock_Status ''mock GNSS running'' ''mock GNSS stopped''"

definition MockGnss_Start :: "int \<Rightarrow> MockGnss \<Rightarrow> MockGnss" where
  "MockGnss_Start = mock_Start"

definition MockGnss_Stop :: "MockGnss \<Rightarrow> MockGnss" where
  "MockGnss_Stop = mock_Stop"

definition MockGnss_fix :: "u64 \<Rightarrow> int \<Rightarrow> MockGnss \<Rightarrow> GnssFix \<times> MockGnss" where
  "MockGnss_fix now_ns now s =
     (\<lparr>gf_sensor_id = go_sensor_id (mg_options s), gf_frame_id = go_frame_id (mg_options s),
       gf_sample_time_monotonic_ns = now_ns, gf_sequence = pl_sequence s, gf_fix_type = kFix3D,
       gf_latitude_deg = go_latitude_deg (mg_options s), gf_longitude_deg = go_longitude_deg (mg_options s),
       gf_altitude_m = go_altitude_m (mg_options s), gf_velocity_enu = \<lparr>v_x = 0, v_y = 0, v_z = 0\<rparr>,
       gf_satellites_used = 12, gf_horizontal_accuracy_m = round64 (8 / 10), gf_vertical_accuracy_m = round64 (12 / 10)\<rparr>,
      mock_advance (go_rate_hz (mg_options s)) now s)"

definition MockGnss_ReadFix_begin :: "int \<Rightarrow> u64 \<Rightarrow> int \<Rightarrow> MockGnss \<Rightarrow> (Error + GnssFix option) \<times> MockGnss" where
  "MockGnss_ReadFix_begin now now_ns now' = read_begin (mock_poll ''mock GNSS is not running'' now) (MockGnss_fix now_ns now')"

definition MockGnss_ReadFix_finish :: "int \<Rightarrow> u64 \<Rightarrow> int \<Rightarrow> MockGnss \<Rightarrow> (Error + GnssFix) \<times> MockGnss" where
  "MockGnss_ReadFix_finish now now_ns now' =
     read_finish (mock_wake ''mock GNSS stopped'' ''mock GNSS read timeout'' now) (MockGnss_fix now_ns now')"

subsection \<open>The contract of a polled sensor\<close>

text \<open>
  What a reader relies on: a sensor that was stopped yields nothing, a read that fails or waits changes
  nothing, and the samples carry consecutive numbers.
\<close>

locale polled_sensor =
  fixes running :: "'s \<Rightarrow> bool"
    and next_number :: "'s \<Rightarrow> u64"
    and number :: "'x \<Rightarrow> u64"
    and start :: "int \<Rightarrow> 's \<Rightarrow> 's"
    and stop :: "'s \<Rightarrow> 's"
    and begin_read :: "int \<Rightarrow> u64 \<Rightarrow> int \<Rightarrow> 's \<Rightarrow> (Error + 'x option) \<times> 's"
    and finish_read :: "int \<Rightarrow> u64 \<Rightarrow> int \<Rightarrow> 's \<Rightarrow> (Error + 'x) \<times> 's"
  assumes start_running: "running (start now s)" and start_number: "next_number (start now s) = next_number s"
    and stop_running: "\<not> running (stop s)" and stop_number: "next_number (stop s) = next_number s"
    and begin_stopped: "\<not> running s \<Longrightarrow> \<exists>e. begin_read now now_ns now' s = (Inl e, s) \<and> err_code e = kNotRunning"
    and finish_stopped: "\<not> running s \<Longrightarrow> \<exists>e. finish_read now now_ns now' s = (Inl e, s) \<and> err_code e = kNotRunning"
    and begin_nothing: "begin_read now now_ns now' s = (r, s') \<Longrightarrow> r = Inr None \<or> r = Inl e \<Longrightarrow> s' = s"
    and finish_nothing: "finish_read now now_ns now' s = (Inl e, s') \<Longrightarrow> s' = s"
    and begin_sample: "begin_read now now_ns now' s = (Inr (Some x), s') \<Longrightarrow>
      number x = next_number s \<and> next_number s' = next_number s + 1 \<and> running s' = running s"
    and finish_sample: "finish_read now now_ns now' s = (Inr x, s') \<Longrightarrow>
      number x = next_number s \<and> next_number s' = next_number s + 1 \<and> running s' = running s"

lemmas mock_defs = mock_Start_def mock_Stop_def mock_poll_def mock_wake_def mock_advance_def read_begin_def read_finish_def
  MakeError_def

interpretation imu: polled_sensor pl_running pl_sequence is_sequence MockImu_Start MockImu_Stop
  MockImu_ReadSample_begin MockImu_ReadSample_finish
  by unfold_locales (auto simp: mock_defs MockImu_Start_def MockImu_Stop_def MockImu_ReadSample_begin_def
    MockImu_ReadSample_finish_def MockImu_sample_def split: if_splits sum.splits)

interpretation thermometer: polled_sensor pl_running pl_sequence tm_sequence MockTemperature_Start MockTemperature_Stop
  "MockTemperature_ReadSample_begin sin_f" "MockTemperature_ReadSample_finish sin_f" for sin_f
  by unfold_locales (auto simp: mock_defs MockTemperature_Start_def MockTemperature_Stop_def MockTemperature_ReadSample_begin_def
    MockTemperature_ReadSample_finish_def MockTemperature_sample_def split: if_splits sum.splits)

interpretation gnss: polled_sensor pl_running pl_sequence gf_sequence MockGnss_Start MockGnss_Stop
  MockGnss_ReadFix_begin MockGnss_ReadFix_finish
  by unfold_locales (auto simp: mock_defs MockGnss_Start_def MockGnss_Stop_def MockGnss_ReadFix_begin_def
    MockGnss_ReadFix_finish_def MockGnss_fix_def split: if_splits sum.splits)

end
