(* ===== verification/Hardware_Adapters.thy ===== *)
theory Hardware_Adapters
  imports Sensors Messages
begin

section \<open>Messages of the hardware service (services/hardware\_interface/adapters)\<close>

text \<open>
  The conversions between the types of the drivers and the protobuf messages, which are generated
  from files outside the repository: the records hold the fields the conversions read or write. An
  enumeration of proto3 is open, so that a received value may be none of its constants (\<open>_OTHER\<close>).
\<close>

record MessageHeaderContext =
  mx_source_node :: string
  mx_source_instance :: string
  mx_robot_id :: string
  mx_timestamp_unix_ns :: u64

definition adapter_FillHeader :: "MessageHeaderContext \<Rightarrow> u64 \<Rightarrow> Header" where
  "adapter_FillHeader context sequence = empty_header
     \<lparr>h_source_node := mx_source_node context, h_source_instance := mx_source_instance context,
      h_robot_id := mx_robot_id context, h_sequence := sequence, h_timestamp_unix_ns := mx_timestamp_unix_ns context\<rparr>"

subsection \<open>Actuators\<close>

datatype ProtoJointControlMode =
    JOINT_CONTROL_MODE_UNSPECIFIED | JOINT_CONTROL_MODE_DISABLED | JOINT_CONTROL_MODE_POSITION
  | JOINT_CONTROL_MODE_VELOCITY | JOINT_CONTROL_MODE_EFFORT | JOINT_CONTROL_MODE_MIT | JOINT_CONTROL_MODE_OTHER int

datatype ProtoActuatorAvailability =
    ACTUATOR_AVAILABILITY_UNSPECIFIED | ACTUATOR_AVAILABILITY_OFFLINE | ACTUATOR_AVAILABILITY_DISABLED
  | ACTUATOR_AVAILABILITY_ENABLED | ACTUATOR_AVAILABILITY_DEGRADED | ACTUATOR_AVAILABILITY_FAULT
  | ACTUATOR_AVAILABILITY_EMERGENCY_STOP

record ProtoJointCommandItem =
  pi_joint_id :: u32
  pi_joint_name :: string
  pi_mode :: ProtoJointControlMode
  pi_position_enabled :: bool
  pi_position_rad :: float64
  pi_velocity_enabled :: bool
  pi_velocity_radps :: float64
  pi_effort_enabled :: bool
  pi_effort_nm :: float64
  pi_stiffness_enabled :: bool
  pi_stiffness :: float64
  pi_damping_enabled :: bool
  pi_damping :: float64
  pi_max_effort_nm :: float64

record ProtoJointCommand =
  pc_controller_id :: string
  pc_command_time_monotonic_ns :: u64
  pc_sequence :: u64
  pc_enable :: bool
  pc_disable :: bool
  pc_emergency_stop :: bool
  pc_clear_fault :: bool
  pc_joints :: "ProtoJointCommandItem list"

record ProtoJointStateItem =
  pj_joint_id :: u32
  pj_joint_name :: string
  pj_mode :: ProtoJointControlMode
  pj_position_rad :: float64
  pj_velocity_radps :: float64
  pj_effort_nm :: float64
  pj_temperature_celsius :: float64
  pj_feedback_received :: bool
  pj_fault_code :: u32
  pj_fault_message :: string

record ProtoJointState =
  pt_header :: Header
  pt_controller_id :: string
  pt_sample_time_monotonic_ns :: u64
  pt_sequence :: u64
  pt_availability :: ProtoActuatorAvailability
  pt_message :: string
  pt_joints :: "ProtoJointStateItem list"

record ProtoJointControllerStatus =
  px_header :: Header
  px_controller_id :: string
  px_availability :: ProtoActuatorAvailability
  px_health :: Messages.HealthState
  px_message :: string
  px_last_command_age_ms :: u64
  px_command_timeout_ms :: u64
  px_metrics :: "Metric list"

fun ToDomainMode :: "ProtoJointControlMode \<Rightarrow> JointControlMode" where
  "ToDomainMode JOINT_CONTROL_MODE_DISABLED = kDisabled"
| "ToDomainMode JOINT_CONTROL_MODE_POSITION = kPosition"
| "ToDomainMode JOINT_CONTROL_MODE_VELOCITY = kVelocity"
| "ToDomainMode JOINT_CONTROL_MODE_EFFORT = kEffort"
| "ToDomainMode JOINT_CONTROL_MODE_MIT = kMit"
| "ToDomainMode JOINT_CONTROL_MODE_UNSPECIFIED = kUnspecified"
| "ToDomainMode (JOINT_CONTROL_MODE_OTHER _) = kUnspecified"

fun ToProtoMode :: "JointControlMode \<Rightarrow> ProtoJointControlMode" where
  "ToProtoMode kDisabled = JOINT_CONTROL_MODE_DISABLED"
| "ToProtoMode kPosition = JOINT_CONTROL_MODE_POSITION"
| "ToProtoMode kVelocity = JOINT_CONTROL_MODE_VELOCITY"
| "ToProtoMode kEffort = JOINT_CONTROL_MODE_EFFORT"
| "ToProtoMode kMit = JOINT_CONTROL_MODE_MIT"
| "ToProtoMode kUnspecified = JOINT_CONTROL_MODE_UNSPECIFIED"

fun ToProtoAvailability :: "ActuatorAvailability \<Rightarrow> ProtoActuatorAvailability" where
  "ToProtoAvailability kOffline = ACTUATOR_AVAILABILITY_OFFLINE"
| "ToProtoAvailability kAvDisabled = ACTUATOR_AVAILABILITY_DISABLED"
| "ToProtoAvailability kEnabled = ACTUATOR_AVAILABILITY_ENABLED"
| "ToProtoAvailability kDegraded = ACTUATOR_AVAILABILITY_DEGRADED"
| "ToProtoAvailability kFault = ACTUATOR_AVAILABILITY_FAULT"
| "ToProtoAvailability kEmergencyStop = ACTUATOR_AVAILABILITY_EMERGENCY_STOP"
| "ToProtoAvailability kAvUnspecified = ACTUATOR_AVAILABILITY_UNSPECIFIED"

fun ToProtoHealth :: "Joint_Controller.HealthState \<Rightarrow> Messages.HealthState" where
  "ToProtoHealth kHealthOk = HEALTH_STATE_OK"
| "ToProtoHealth kHealthWarning = HEALTH_STATE_WARNING"
| "ToProtoHealth kHealthError = HEALTH_STATE_ERROR"
| "ToProtoHealth kHealthStale = HEALTH_STATE_STALE"
| "ToProtoHealth kHealthUnspecified = HEALTH_STATE_UNSPECIFIED"

definition ToDomain_item :: "ProtoJointCommandItem \<Rightarrow> JointCommandItem" where
  "ToDomain_item p =
     \<lparr>ci_joint_id = pi_joint_id p, ci_joint_name = pi_joint_name p, ci_mode = ToDomainMode (pi_mode p),
      ci_position_enabled = pi_position_enabled p, ci_position = pi_position_rad p,
      ci_velocity_enabled = pi_velocity_enabled p, ci_velocity = pi_velocity_radps p,
      ci_effort_enabled = pi_effort_enabled p, ci_effort = pi_effort_nm p,
      ci_stiffness_enabled = pi_stiffness_enabled p, ci_stiffness = pi_stiffness p,
      ci_damping_enabled = pi_damping_enabled p, ci_damping = pi_damping p, ci_max_effort = pi_max_effort_nm p\<rparr>"

definition ToDomain :: "ProtoJointCommand \<Rightarrow> JointCommand" where
  "ToDomain msg =
     \<lparr>jc_controller_id = pc_controller_id msg, jc_time_monotonic_ns = pc_command_time_monotonic_ns msg,
      jc_sequence = pc_sequence msg, jc_enable = pc_enable msg, jc_disable = pc_disable msg,
      jc_emergency_stop = pc_emergency_stop msg, jc_clear_fault = pc_clear_fault msg,
      jc_joints = map ToDomain_item (pc_joints msg)\<rparr>"

definition ToProto_joint :: "JointStateItem \<Rightarrow> ProtoJointStateItem" where
  "ToProto_joint item =
     \<lparr>pj_joint_id = js_joint_id item, pj_joint_name = js_joint_name item, pj_mode = ToProtoMode (js_mode item),
      pj_position_rad = js_position item, pj_velocity_radps = js_velocity item, pj_effort_nm = js_effort item,
      pj_temperature_celsius = js_temperature item, pj_feedback_received = js_feedback_received item,
      pj_fault_code = js_fault_code item, pj_fault_message = js_fault_message item\<rparr>"

definition ToProto_JointState :: "JointState \<Rightarrow> MessageHeaderContext \<Rightarrow> ProtoJointState" where
  "ToProto_JointState state context =
     \<lparr>pt_header = adapter_FillHeader context (jt_sequence state), pt_controller_id = jt_controller_id state,
      pt_sample_time_monotonic_ns = jt_sample_time_monotonic_ns state, pt_sequence = jt_sequence state,
      pt_availability = ToProtoAvailability (jt_availability state), pt_message = jt_message state,
      pt_joints = map ToProto_joint (jt_joints state)\<rparr>"

definition ToProto_ActuatorStatus :: "u64 \<Rightarrow> ActuatorStatus \<Rightarrow> string \<Rightarrow> MessageHeaderContext \<Rightarrow> ProtoJointControllerStatus" where
  "ToProto_ActuatorStatus now_ns status controller_id context =
     \<lparr>px_header = adapter_FillHeader context (as_sequence status), px_controller_id = controller_id,
      px_availability = ToProtoAvailability (as_availability status), px_health = ToProtoHealth (as_health status),
      px_message = as_message status,
      px_last_command_age_ms =
        (if as_last_command_monotonic_ns status \<noteq> 0 \<and> as_last_command_monotonic_ns status < now_ns
         then (now_ns - as_last_command_monotonic_ns status) div 1000000 else 0),
      px_command_timeout_ms = as_command_timeout_ms status,
      px_metrics = [\<lparr>mt_name = ''error_count'', mt_value = uint (as_error_count status), mt_unit = ''count''\<rparr>]\<rparr>"

subsection \<open>Sensors\<close>

datatype ProtoGnssFixType =
    GNSS_FIX_TYPE_UNSPECIFIED | GNSS_FIX_TYPE_NO_FIX | GNSS_FIX_TYPE_FIX_2D | GNSS_FIX_TYPE_FIX_3D
  | GNSS_FIX_TYPE_RTK_FLOAT | GNSS_FIX_TYPE_RTK_FIXED

record ProtoVector3 =
  pv_x :: float64
  pv_y :: float64
  pv_z :: float64

record ProtoImuSample =
  pim_header :: Header
  pim_sensor_id :: string
  pim_frame_id :: string
  pim_sample_time_monotonic_ns :: u64
  pim_sequence :: u64
  pim_acceleration_mps2 :: ProtoVector3
  pim_angular_velocity_radps :: ProtoVector3
  pim_magnetic_field_tesla :: ProtoVector3
  pim_temperature_celsius :: float64

record ProtoTemperatureSample =
  ptm_header :: Header
  ptm_sensor_id :: string
  ptm_frame_id :: string
  ptm_sample_time_monotonic_ns :: u64
  ptm_sequence :: u64
  ptm_temperature_celsius :: float64

record ProtoGnssFix =
  pgf_header :: Header
  pgf_sensor_id :: string
  pgf_frame_id :: string
  pgf_sample_time_monotonic_ns :: u64
  pgf_sequence :: u64
  pgf_fix_type :: ProtoGnssFixType
  pgf_latitude_deg :: float64
  pgf_longitude_deg :: float64
  pgf_altitude_m :: float64
  pgf_velocity_enu_mps :: ProtoVector3
  pgf_satellites_used :: u32
  pgf_horizontal_accuracy_m :: float64
  pgf_vertical_accuracy_m :: float64

definition FillVector :: "Vector3 \<Rightarrow> ProtoVector3" where
  "FillVector v = \<lparr>pv_x = v_x v, pv_y = v_y v, pv_z = v_z v\<rparr>"

fun ToProtoFixType :: "GnssFixType \<Rightarrow> ProtoGnssFixType" where
  "ToProtoFixType kNoFix = GNSS_FIX_TYPE_NO_FIX"
| "ToProtoFixType kFix2D = GNSS_FIX_TYPE_FIX_2D"
| "ToProtoFixType kFix3D = GNSS_FIX_TYPE_FIX_3D"
| "ToProtoFixType kRtkFloat = GNSS_FIX_TYPE_RTK_FLOAT"
| "ToProtoFixType kRtkFixed = GNSS_FIX_TYPE_RTK_FIXED"

definition ToProto_ImuSample :: "ImuSample \<Rightarrow> MessageHeaderContext \<Rightarrow> ProtoImuSample" where
  "ToProto_ImuSample sample context =
     \<lparr>pim_header = adapter_FillHeader context (is_sequence sample), pim_sensor_id = is_sensor_id sample,
      pim_frame_id = is_frame_id sample, pim_sample_time_monotonic_ns = is_sample_time_monotonic_ns sample,
      pim_sequence = is_sequence sample, pim_acceleration_mps2 = FillVector (is_acceleration sample),
      pim_angular_velocity_radps = FillVector (is_angular_velocity sample),
      pim_magnetic_field_tesla = FillVector (is_magnetic_field sample), pim_temperature_celsius = is_temperature sample\<rparr>"

definition ToProto_TemperatureSample :: "TemperatureSample \<Rightarrow> MessageHeaderContext \<Rightarrow> ProtoTemperatureSample" where
  "ToProto_TemperatureSample sample context =
     \<lparr>ptm_header = adapter_FillHeader context (tm_sequence sample), ptm_sensor_id = tm_sensor_id sample,
      ptm_frame_id = tm_frame_id sample, ptm_sample_time_monotonic_ns = tm_sample_time_monotonic_ns sample,
      ptm_sequence = tm_sequence sample, ptm_temperature_celsius = tm_temperature sample\<rparr>"

definition ToProto_GnssFix :: "GnssFix \<Rightarrow> MessageHeaderContext \<Rightarrow> ProtoGnssFix" where
  "ToProto_GnssFix gf context =
     \<lparr>pgf_header = adapter_FillHeader context (gf_sequence gf), pgf_sensor_id = gf_sensor_id gf,
      pgf_frame_id = gf_frame_id gf, pgf_sample_time_monotonic_ns = gf_sample_time_monotonic_ns gf,
      pgf_sequence = gf_sequence gf, pgf_fix_type = ToProtoFixType (gf_fix_type gf),
      pgf_latitude_deg = gf_latitude_deg gf, pgf_longitude_deg = gf_longitude_deg gf, pgf_altitude_m = gf_altitude_m gf,
      pgf_velocity_enu_mps = FillVector (gf_velocity_enu gf), pgf_satellites_used = gf_satellites_used gf,
      pgf_horizontal_accuracy_m = gf_horizontal_accuracy_m gf, pgf_vertical_accuracy_m = gf_vertical_accuracy_m gf\<rparr>"

subsection \<open>Nothing is lost\<close>

lemma ToDomain_ToProto_mode [simp]: "ToDomainMode (ToProtoMode m) = m"
  by (cases m) simp_all

lemma ToProtoMode_eq [simp]: "ToProtoMode m = ToProtoMode m' \<longleftrightarrow> m = m'"
  by (metis ToDomain_ToProto_mode)

lemma ToProtoAvailability_eq [simp]: "ToProtoAvailability a = ToProtoAvailability b \<longleftrightarrow> a = b"
  by (cases a; cases b) simp_all

lemma ToProtoFixType_eq [simp]: "ToProtoFixType a = ToProtoFixType b \<longleftrightarrow> a = b"
  by (cases a; cases b) simp_all

lemma ToProto_joint_inj: "inj ToProto_joint"
  by (rule injI) (simp add: ToProto_joint_def)

lemma FillVector_eq [simp]: "FillVector v = FillVector w \<longleftrightarrow> v = w"
  by (auto simp: FillVector_def)

text \<open>The conversions to messages lose nothing: the mode of a joint survives the way to its message and back, and
  two joint states, IMU samples, temperature samples or GNSS fixes with the same message are the same.\<close>

theorem adapters_lose_nothing:
  "ToDomainMode (ToProtoMode m) = m \<and> inj (\<lambda>s. ToProto_JointState s c) \<and> inj (\<lambda>s. ToProto_ImuSample s c) \<and>
   inj (\<lambda>s. ToProto_TemperatureSample s c) \<and> inj (\<lambda>s. ToProto_GnssFix s c)"
  by (auto simp: ToProto_JointState_def ToProto_ImuSample_def ToProto_TemperatureSample_def ToProto_GnssFix_def
      inj_map_eq_map [OF ToProto_joint_inj] intro!: injI)

end
