(* ===== verification/Sensor_Endpoints.thy ===== *)
theory Sensor_Endpoints
  imports Hardware_Config Hardware_Adapters "HOL-Library.Sublist"
begin

section \<open>Sensor endpoints (services/hardware\_interface/endpoints)\<close>

text \<open>
  \<^verbatim>\<open>ImuEndpoint\<close>, \<^verbatim>\<open>TemperatureEndpoint\<close> and \<^verbatim>\<open>GnssEndpoint\<close> are the same class over three
  sensors: what a class supplies is a \<open>driver\<close>, and the methods take it as an argument. An endpoint
  runs a thread; \<open>se_worker\<close> says where it is in \<^verbatim>\<open>Run\<close> and \<open>se_phase\<close> where the thread that calls
  \<^verbatim>\<open>Start\<close> and \<^verbatim>\<open>Stop\<close> is. Everything between two accesses to shared state is one operation, and
  \<open>se_step\<close> gives the effect of each, or \<open>None\<close> where the thread concerned is not at that point.
\<close>

subsection \<open>Types shared by all endpoints\<close>

datatype EndpointState = kCreated | kConfigured | kRunning | kStopping | kStopped | kEndpointError

record EndpointStatus =
  es_state :: EndpointState
  es_endpoint_id :: string
  es_device_id :: string
  es_driver :: string
  es_mode :: string
  es_message :: string
  es_last_error :: string
  es_sequence :: u64
  es_sample_count :: u64
  es_publish_count :: u64
  es_command_count :: u64
  es_error_count :: u64
  es_timeout_count :: u64
  es_last_sample_monotonic_ns :: u64
  es_last_publish_monotonic_ns :: u64
  es_last_command_monotonic_ns :: u64

record EndpointContext =
  ex_source_node :: string
  ex_source_instance :: string
  ex_robot_id :: string

fun EndpointState_ToString :: "EndpointState \<Rightarrow> string" where
  "EndpointState_ToString kCreated = ''created''"
| "EndpointState_ToString kConfigured = ''configured''"
| "EndpointState_ToString kRunning = ''running''"
| "EndpointState_ToString kStopping = ''stopping''"
| "EndpointState_ToString kStopped = ''stopped''"
| "EndpointState_ToString kEndpointError = ''error''"

definition new_status :: "EndpointConfig \<Rightarrow> EndpointStatus" where
  "new_status config =
     \<lparr>es_state = kCreated, es_endpoint_id = ec_endpoint_id config, es_device_id = ec_endpoint_id config,
      es_driver = ec_driver config, es_mode = ec_mode config, es_message = [], es_last_error = [], es_sequence = 0,
      es_sample_count = 0, es_publish_count = 0, es_command_count = 0, es_error_count = 0, es_timeout_count = 0,
      es_last_sample_monotonic_ns = 0, es_last_publish_monotonic_ns = 0, es_last_command_monotonic_ns = 0\<rparr>"

definition RecordError :: "string \<Rightarrow> EndpointStatus \<Rightarrow> EndpointStatus" where
  "RecordError message st = st\<lparr>es_error_count := es_error_count st + 1, es_last_error := message, es_message := message\<rparr>"

definition SetError :: "string \<Rightarrow> EndpointStatus \<Rightarrow> EndpointStatus" where
  "SetError message st = (RecordError message st)\<lparr>es_state := kEndpointError\<rparr>"

definition status_configured :: "EndpointStatus \<Rightarrow> EndpointStatus" where
  "status_configured st = st\<lparr>es_state := kConfigured, es_message := ''configured''\<rparr>"

definition status_running :: "EndpointStatus \<Rightarrow> EndpointStatus" where
  "status_running st = st\<lparr>es_state := kRunning, es_message := ''running''\<rparr>"

definition status_stopped :: "EndpointStatus \<Rightarrow> EndpointStatus" where
  "status_stopped st = (if es_state st \<noteq> kEndpointError then st\<lparr>es_state := kStopped, es_message := ''stopped''\<rparr> else st)"

definition header_context :: "EndpointContext \<Rightarrow> u64 \<Rightarrow> MessageHeaderContext" where
  "header_context context t =
     \<lparr>mx_source_node = ex_source_node context, mx_source_instance = ex_source_instance context,
      mx_robot_id = ex_robot_id context, mx_timestamp_unix_ns = t\<rparr>"

datatype phase = Idle | Starting | Flag_down | Joining

subsection \<open>The class\<close>

record ('s, 'x, 'm) driver =
  drv_start :: "int \<Rightarrow> 's \<Rightarrow> (Error + unit) \<times> 's"
  drv_stop :: "'s \<Rightarrow> 's"
  drv_begin :: "int \<Rightarrow> u64 \<Rightarrow> int \<Rightarrow> 's \<Rightarrow> (Error + 'x option) \<times> 's"
  drv_finish :: "int \<Rightarrow> u64 \<Rightarrow> int \<Rightarrow> 's \<Rightarrow> (Error + 'x) \<times> 's"
  drv_message :: "'x \<Rightarrow> MessageHeaderContext \<Rightarrow> 'm"
  drv_msg_sequence :: "'m \<Rightarrow> u64"
  drv_msg_time :: "'m \<Rightarrow> u64"
  drv_publish_error :: string

datatype 'x worker = No_thread | At_loop | In_loop | Reading | Have_sample 'x | Exited

record ('s, 'x, 'm) sensor_endpoint =
  se_config :: EndpointConfig
  se_context :: EndpointContext
  se_sensor :: 's
  se_running :: bool
  se_worker :: "'x worker"
  se_phase :: phase
  se_status :: EndpointStatus
  se_published :: "'m list"

definition SensorEndpoint :: "(EndpointConfig \<Rightarrow> 's) \<Rightarrow> EndpointConfig \<Rightarrow> EndpointContext \<Rightarrow> ('s, 'x, 'm) sensor_endpoint" where
  "SensorEndpoint new_sensor config context =
     \<lparr>se_config = config, se_context = context, se_sensor = new_sensor config, se_running = False, se_worker = No_thread,
      se_phase = Idle, se_status = new_status config, se_published = []\<rparr>"

definition se_Configure :: "('s, 'x, 'm) sensor_endpoint \<Rightarrow> bool \<times> ('s, 'x, 'm) sensor_endpoint" where
  "se_Configure e = (True, e\<lparr>se_status := status_configured (se_status e)\<rparr>)"

text \<open>\<^verbatim>\<open>Start\<close> up to the creation of the thread, and the rest of it.\<close>

definition se_Start_begin :: "('s, 'x, 'm) driver \<Rightarrow> int \<Rightarrow> ('s, 'x, 'm) sensor_endpoint \<Rightarrow> bool \<times> ('s, 'x, 'm) sensor_endpoint" where
  "se_Start_begin D now e =
     (case drv_start D now (se_sensor e) of
        (Inl err, s) \<Rightarrow> (False, e\<lparr>se_sensor := s, se_status := SetError (err_message err) (se_status e)\<rparr>)
      | (Inr _, s) \<Rightarrow> (True, e\<lparr>se_sensor := s, se_running := True, se_worker := At_loop, se_phase := Starting\<rparr>))"

definition se_Start_finish :: "('s, 'x, 'm) sensor_endpoint \<Rightarrow> ('s, 'x, 'm) sensor_endpoint" where
  "se_Start_finish e = e\<lparr>se_status := status_running (se_status e), se_phase := Idle\<rparr>"

text \<open>The three parts of \<^verbatim>\<open>Stop\<close>: the flag, the sensor, and what follows the join.\<close>

definition se_Stop_flag :: "('s, 'x, 'm) sensor_endpoint \<Rightarrow> ('s, 'x, 'm) sensor_endpoint" where
  "se_Stop_flag e = e\<lparr>se_running := False, se_phase := Flag_down\<rparr>"

definition se_Stop_sensor :: "('s, 'x, 'm) driver \<Rightarrow> ('s, 'x, 'm) sensor_endpoint \<Rightarrow> ('s, 'x, 'm) sensor_endpoint" where
  "se_Stop_sensor D e = e\<lparr>se_sensor := drv_stop D (se_sensor e), se_phase := Joining\<rparr>"

definition se_Stop_finish :: "('s, 'x, 'm) sensor_endpoint \<Rightarrow> ('s, 'x, 'm) sensor_endpoint" where
  "se_Stop_finish e = e\<lparr>se_worker := No_thread, se_status := status_stopped (se_status e), se_phase := Idle\<rparr>"

text \<open>The steps of \<^verbatim>\<open>Run\<close>: the loop's condition, the start of the read, the end of a read that had to
  wait, and the publishing of a sample.\<close>

definition se_failed :: "string \<Rightarrow> ('s, 'x, 'm) sensor_endpoint \<Rightarrow> ('s, 'x, 'm) sensor_endpoint" where
  "se_failed message e = e\<lparr>se_status := RecordError message (se_status e), se_worker := At_loop\<rparr>"

definition se_loop :: "bool \<Rightarrow> ('s, 'x, 'm) sensor_endpoint \<Rightarrow> ('s, 'x, 'm) sensor_endpoint" where
  "se_loop ok e = e\<lparr>se_worker := (if se_running e \<and> ok then In_loop else Exited)\<rparr>"

definition se_begin :: "('s, 'x, 'm) driver \<Rightarrow> int \<Rightarrow> u64 \<Rightarrow> int \<Rightarrow> ('s, 'x, 'm) sensor_endpoint \<Rightarrow> ('s, 'x, 'm) sensor_endpoint" where
  "se_begin D now now_ns now' e =
     (case drv_begin D now now_ns now' (se_sensor e) of
        (Inl err, s) \<Rightarrow> se_failed (err_message err) (e\<lparr>se_sensor := s\<rparr>)
      | (Inr None, s) \<Rightarrow> e\<lparr>se_sensor := s, se_worker := Reading\<rparr>
      | (Inr (Some x), s) \<Rightarrow> e\<lparr>se_sensor := s, se_worker := Have_sample x\<rparr>)"

definition se_read :: "('s, 'x, 'm) driver \<Rightarrow> int \<Rightarrow> u64 \<Rightarrow> int \<Rightarrow> ('s, 'x, 'm) sensor_endpoint \<Rightarrow> ('s, 'x, 'm) sensor_endpoint" where
  "se_read D now now_ns now' e =
     (case drv_finish D now now_ns now' (se_sensor e) of
        (Inl err, s) \<Rightarrow> se_failed (err_message err) (e\<lparr>se_sensor := s\<rparr>)
      | (Inr x, s) \<Rightarrow> e\<lparr>se_sensor := s, se_worker := Have_sample x\<rparr>)"

definition status_sampled :: "u64 \<Rightarrow> u64 \<Rightarrow> u64 \<Rightarrow> EndpointStatus \<Rightarrow> EndpointStatus" where
  "status_sampled sequence sample_time now_ns st = st\<lparr>es_sequence := sequence,
     es_sample_count := es_sample_count st + 1, es_publish_count := es_publish_count st + 1,
     es_last_sample_monotonic_ns := sample_time, es_last_publish_monotonic_ns := now_ns\<rparr>"

definition se_publish :: "('s, 'x, 'm) driver \<Rightarrow> bool \<Rightarrow> u64 \<Rightarrow> u64 \<Rightarrow> 'x \<Rightarrow> ('s, 'x, 'm) sensor_endpoint \<Rightarrow> ('s, 'x, 'm) sensor_endpoint" where
  "se_publish D published t now_ns x e =
     (let msg = drv_message D x (header_context (se_context e) t) in
      if \<not> published then se_failed (drv_publish_error D) e
      else e\<lparr>se_published := se_published e @ [msg], se_worker := At_loop,
             se_status := status_sampled (drv_msg_sequence D msg) (drv_msg_time D msg) now_ns (se_status e)\<rparr>)"

datatype endpoint_op =
    Ep_Configure | Ep_Start_begin int | Ep_Start_finish | Ep_Stop_flag | Ep_Stop_sensor | Ep_Stop_finish
  | Ep_loop bool | Ep_begin int u64 int | Ep_read int u64 int | Ep_publish bool u64 u64

fun se_step :: "('s, 'x, 'm) driver \<Rightarrow> endpoint_op \<Rightarrow> ('s, 'x, 'm) sensor_endpoint \<Rightarrow> ('s, 'x, 'm) sensor_endpoint option" where
  "se_step D Ep_Configure e = (if se_phase e = Idle then Some (snd (se_Configure e)) else None)"
| "se_step D (Ep_Start_begin now) e =
     (if se_phase e = Idle \<and> se_worker e = No_thread then Some (snd (se_Start_begin D now e)) else None)"
| "se_step D Ep_Start_finish e = (if se_phase e = Starting then Some (se_Start_finish e) else None)"
| "se_step D Ep_Stop_flag e = (if se_phase e = Idle then Some (se_Stop_flag e) else None)"
| "se_step D Ep_Stop_sensor e = (if se_phase e = Flag_down then Some (se_Stop_sensor D e) else None)"
| "se_step D Ep_Stop_finish e =
     (if se_phase e = Joining \<and> (se_worker e = No_thread \<or> se_worker e = Exited) then Some (se_Stop_finish e) else None)"
| "se_step D (Ep_loop ok) e = (case se_worker e of At_loop \<Rightarrow> Some (se_loop ok e) | _ \<Rightarrow> None)"
| "se_step D (Ep_begin now now_ns now') e = (case se_worker e of In_loop \<Rightarrow> Some (se_begin D now now_ns now' e) | _ \<Rightarrow> None)"
| "se_step D (Ep_read now now_ns now') e = (case se_worker e of Reading \<Rightarrow> Some (se_read D now now_ns now' e) | _ \<Rightarrow> None)"
| "se_step D (Ep_publish published t now_ns) e =
     (case se_worker e of Have_sample x \<Rightarrow> Some (se_publish D published t now_ns x e) | _ \<Rightarrow> None)"

fun worker_op :: "endpoint_op \<Rightarrow> bool" where
  "worker_op (Ep_loop _) = True"
| "worker_op (Ep_begin _ _ _) = True"
| "worker_op (Ep_read _ _ _) = True"
| "worker_op (Ep_publish _ _ _) = True"
| "worker_op _ = False"

subsection \<open>The three classes\<close>

definition imu_driver :: "(MockImu, ImuSample, ProtoImuSample) driver" where
  "imu_driver = \<lparr>drv_start = (\<lambda>now s. (Inr (), MockImu_Start now s)), drv_stop = MockImu_Stop,
     drv_begin = MockImu_ReadSample_begin, drv_finish = MockImu_ReadSample_finish, drv_message = ToProto_ImuSample,
     drv_msg_sequence = pim_sequence, drv_msg_time = pim_sample_time_monotonic_ns,
     drv_publish_error = ''failed to publish IMU sample''\<rparr>"

definition temperature_driver :: "(float64 \<Rightarrow> float64) \<Rightarrow> (MockTemperature, TemperatureSample, ProtoTemperatureSample) driver" where
  "temperature_driver sin_f = \<lparr>drv_start = (\<lambda>now s. (Inr (), MockTemperature_Start now s)), drv_stop = MockTemperature_Stop,
     drv_begin = MockTemperature_ReadSample_begin sin_f, drv_finish = MockTemperature_ReadSample_finish sin_f,
     drv_message = ToProto_TemperatureSample, drv_msg_sequence = ptm_sequence, drv_msg_time = ptm_sample_time_monotonic_ns,
     drv_publish_error = ''failed to publish temperature sample''\<rparr>"

definition gnss_driver :: "(MockGnss, GnssFix, ProtoGnssFix) driver" where
  "gnss_driver = \<lparr>drv_start = (\<lambda>now s. (Inr (), MockGnss_Start now s)), drv_stop = MockGnss_Stop,
     drv_begin = MockGnss_ReadFix_begin, drv_finish = MockGnss_ReadFix_finish, drv_message = ToProto_GnssFix,
     drv_msg_sequence = pgf_sequence, drv_msg_time = pgf_sample_time_monotonic_ns,
     drv_publish_error = ''failed to publish GNSS fix''\<rparr>"

type_synonym imu_endpoint = "(MockImu, ImuSample, ProtoImuSample) sensor_endpoint"
type_synonym temperature_endpoint = "(MockTemperature, TemperatureSample, ProtoTemperatureSample) sensor_endpoint"
type_synonym gnss_endpoint = "(MockGnss, GnssFix, ProtoGnssFix) sensor_endpoint"

definition ImuEndpoint :: "EndpointConfig \<Rightarrow> EndpointContext \<Rightarrow> imu_endpoint" where
  "ImuEndpoint = SensorEndpoint (\<lambda>config. MockImu_init
     \<lparr>io_sensor_id = ec_endpoint_id config, io_frame_id = ec_frame_id config, io_rate_hz = ec_publish_rate_hz config,
      io_temperature_celsius = Fin 25\<rparr>)"

definition TemperatureEndpoint :: "EndpointConfig \<Rightarrow> EndpointContext \<Rightarrow> temperature_endpoint" where
  "TemperatureEndpoint = SensorEndpoint (\<lambda>config. MockTemperature_init
     \<lparr>to_sensor_id = ec_endpoint_id config, to_frame_id = ec_frame_id config, to_rate_hz = ec_publish_rate_hz config,
      to_initial_temperature_celsius = Fin 25\<rparr>)"

definition GnssEndpoint :: "EndpointConfig \<Rightarrow> EndpointContext \<Rightarrow> gnss_endpoint" where
  "GnssEndpoint = SensorEndpoint (\<lambda>config. MockGnss_init
     \<lparr>go_sensor_id = ec_endpoint_id config, go_frame_id = ec_frame_id config, go_rate_hz = ec_publish_rate_hz config,
      go_latitude_deg = round64 (312304 / 10000), go_longitude_deg = round64 (1214737 / 10000), go_altitude_m = Fin 10\<rparr>)"

definition imu_step :: "endpoint_op \<Rightarrow> imu_endpoint \<Rightarrow> imu_endpoint option" where
  "imu_step = se_step imu_driver"

definition temperature_step :: "(float64 \<Rightarrow> float64) \<Rightarrow> endpoint_op \<Rightarrow> temperature_endpoint \<Rightarrow> temperature_endpoint option" where
  "temperature_step sin_f = se_step (temperature_driver sin_f)"

definition gnss_step :: "endpoint_op \<Rightarrow> gnss_endpoint \<Rightarrow> gnss_endpoint option" where
  "gnss_step = se_step gnss_driver"

subsection \<open>What holds for every polled sensor\<close>

text \<open>The numbers of the samples taken so far, oldest first, and of those published or about to be.\<close>

definition first_numbers :: "nat \<Rightarrow> u64 list" where
  "first_numbers n = map of_nat [0..<n]"

lemma first_numbers_Suc: "first_numbers (Suc n) = first_numbers n @ [of_nat n]"
  by (simp add: first_numbers_def)

fun in_hand :: "('x \<Rightarrow> u64) \<Rightarrow> 'x worker \<Rightarrow> u64 list" where
  "in_hand number (Have_sample x) = [number x]"
| "in_hand number _ = []"

locale sensor_driver =
  polled_sensor running next_number number "\<lambda>now s. snd (drv_start D now s)" "drv_stop D" "drv_begin D" "drv_finish D"
  for running :: "'s \<Rightarrow> bool" and next_number :: "'s \<Rightarrow> u64" and number :: "'x \<Rightarrow> u64" and D :: "('s, 'x, 'm) driver" +
  assumes message_number: "drv_msg_sequence D (drv_message D x c) = number x"
    and start_ok: "fst (drv_start D now s) = Inr ()"
begin

definition endpoint_inv :: "('s, 'x, 'm) sensor_endpoint \<Rightarrow> bool" where
  "endpoint_inv e \<longleftrightarrow> es_sample_count (se_status e) = es_publish_count (se_status e) \<and>
     es_sample_count (se_status e) = of_nat (length (se_published e)) \<and>
     (\<exists>n. next_number (se_sensor e) = of_nat n \<and>
          subseq (map (drv_msg_sequence D) (se_published e) @ in_hand number (se_worker e)) (first_numbers n)) \<and>
     (se_running e \<longrightarrow> running (se_sensor e)) \<and> (se_running e \<longrightarrow> se_worker e \<noteq> No_thread) \<and>
     (se_phase e = Flag_down \<or> se_phase e = Joining \<longrightarrow> \<not> se_running e) \<and> (se_phase e = Joining \<longrightarrow> \<not> running (se_sensor e))"

lemma status_counts [simp]:
  "es_sample_count (RecordError m st) = es_sample_count st" "es_publish_count (RecordError m st) = es_publish_count st"
  "es_sample_count (status_stopped st) = es_sample_count st" "es_publish_count (status_stopped st) = es_publish_count st"
  "es_sample_count (status_running st) = es_sample_count st" "es_publish_count (status_running st) = es_publish_count st"
  "es_sample_count (status_configured st) = es_sample_count st" "es_publish_count (status_configured st) = es_publish_count st"
  by (simp_all add: RecordError_def status_stopped_def status_running_def status_configured_def)

lemma subseq_drop_last: "subseq (xs @ ys) zs \<Longrightarrow> subseq xs zs"
  by (rule subseq_order.order_trans [OF prefix_imp_subseq]) simp_all

lemma subseq_first_numbers: "subseq xs (first_numbers n) \<Longrightarrow> subseq (xs @ [of_nat n]) (first_numbers (Suc n))"
  by (simp add: first_numbers_Suc list_emb_append_mono)

lemma loop_inv: "endpoint_inv e \<Longrightarrow> se_worker e = At_loop \<Longrightarrow> endpoint_inv (se_loop ok e)"
  by (auto simp: se_loop_def endpoint_inv_def)

lemma begin_inv:
  assumes "endpoint_inv e" "se_worker e = In_loop"
  shows "endpoint_inv (se_begin D now now_ns now' e)"
proof -
  obtain r s where rs: "drv_begin D now now_ns now' (se_sensor e) = (r, s)" by force
  from assms obtain n where n: "next_number (se_sensor e) = of_nat n"
    "subseq (map (drv_msg_sequence D) (se_published e)) (first_numbers n)"
    by (auto simp: endpoint_inv_def)
  show ?thesis
  proof (cases r)
    case (Inl err)
    then have "s = se_sensor e" by (intro begin_nothing [OF rs, of err]) simp
    with Inl assms rs show ?thesis by (auto simp: se_begin_def se_failed_def endpoint_inv_def)
  next
    case (Inr o1)
    show ?thesis
    proof (cases o1)
      case None
      with Inr have "s = se_sensor e" by (intro begin_nothing [OF rs]) simp
      with None Inr assms rs show ?thesis by (auto simp: se_begin_def endpoint_inv_def)
    next
      case (Some x)
      with Inr begin_sample [of now now_ns now' "se_sensor e" x s] rs n
      have "number x = of_nat n" "next_number s = of_nat (Suc n)" "running s = running (se_sensor e)" by simp_all
      moreover from this n have "subseq (map (drv_msg_sequence D) (se_published e) @ [number x]) (first_numbers (Suc n))"
        by (simp add: subseq_first_numbers)
      ultimately show ?thesis using assms rs Inr Some unfolding endpoint_inv_def se_begin_def
        by (auto simp del: of_nat_Suc)
    qed
  qed
qed

lemma read_inv:
  assumes "endpoint_inv e" "se_worker e = Reading"
  shows "endpoint_inv (se_read D now now_ns now' e)"
proof -
  obtain r s where rs: "drv_finish D now now_ns now' (se_sensor e) = (r, s)" by force
  from assms obtain n where n: "next_number (se_sensor e) = of_nat n"
    "subseq (map (drv_msg_sequence D) (se_published e)) (first_numbers n)"
    by (auto simp: endpoint_inv_def)
  show ?thesis
  proof (cases r)
    case (Inl err)
    with finish_nothing [of now now_ns now' "se_sensor e" err s] assms rs show ?thesis
      by (auto simp: se_read_def se_failed_def endpoint_inv_def)
  next
    case (Inr x)
    with finish_sample [of now now_ns now' "se_sensor e" x s] rs n
    have "number x = of_nat n" "next_number s = of_nat (Suc n)" "running s = running (se_sensor e)" by simp_all
    moreover from this n have "subseq (map (drv_msg_sequence D) (se_published e) @ [number x]) (first_numbers (Suc n))"
      by (simp add: subseq_first_numbers)
    ultimately show ?thesis using assms rs Inr unfolding endpoint_inv_def se_read_def
      by (auto simp del: of_nat_Suc)
  qed
qed

lemma publish_inv:
  assumes "endpoint_inv e" "se_worker e = Have_sample x"
  shows "endpoint_inv (se_publish D published t now_ns x e)"
  using assms subseq_drop_last [of "map (drv_msg_sequence D) (se_published e)" "[number x]"]
  by (auto simp: endpoint_inv_def se_publish_def se_failed_def status_sampled_def message_number Let_def)

lemma step_inv:
  assumes "endpoint_inv e" "se_step D c e = Some e'"
  shows "endpoint_inv e'"
proof (cases c)
  case (Ep_Start_begin now)
  obtain s where s: "drv_start D now (se_sensor e) = (Inr (), s)" using start_ok by (metis prod.collapse)
  have "running s" "next_number s = next_number (se_sensor e)"
    using start_running [of now "se_sensor e"] start_number [of now "se_sensor e"] s by simp_all
  with Ep_Start_begin assms s show ?thesis by (auto simp: endpoint_inv_def se_Start_begin_def split: if_splits)
next
  case Ep_Stop_sensor
  with assms show ?thesis
    by (auto simp: endpoint_inv_def se_Stop_sensor_def stop_running stop_number split: if_splits)
next
  case Ep_Stop_finish
  with assms show ?thesis by (auto simp: endpoint_inv_def se_Stop_finish_def split: if_splits)
next
  case (Ep_loop ok)
  with assms loop_inv show ?thesis by (auto split: worker.splits)
next
  case (Ep_begin now now_ns now')
  with assms begin_inv show ?thesis by (auto split: worker.splits)
next
  case (Ep_read now now_ns now')
  with assms read_inv show ?thesis by (auto split: worker.splits)
next
  case (Ep_publish p t now_ns)
  with assms publish_inv show ?thesis by (auto split: worker.splits)
qed (use assms in \<open>auto simp: endpoint_inv_def se_Configure_def se_Start_finish_def se_Stop_flag_def split: if_splits\<close>)

text \<open>Once the sensor is stopped the thread is at most two steps from its end.\<close>

definition rank :: "'x worker \<Rightarrow> nat" where
  "rank w = (case w of No_thread \<Rightarrow> 0 | Exited \<Rightarrow> 0 | At_loop \<Rightarrow> 1 | In_loop \<Rightarrow> 2 | Reading \<Rightarrow> 2 | Have_sample x \<Rightarrow> 2)"

lemma joining_step:
  assumes "endpoint_inv e" "se_phase e = Joining" "worker_op c" "se_step D c e = Some e'"
  shows "se_phase e' = Joining \<and> rank (se_worker e') < rank (se_worker e)"
proof (cases c)
  case (Ep_read now now_ns now')
  with assms finish_stopped [of "se_sensor e" now now_ns now'] show ?thesis
    by (auto simp: endpoint_inv_def se_read_def se_failed_def rank_def split: worker.splits)
next
  case (Ep_begin now now_ns now')
  with assms begin_stopped [of "se_sensor e" now now_ns now'] show ?thesis
    by (auto simp: endpoint_inv_def se_begin_def se_failed_def rank_def split: worker.splits)
next
  case (Ep_loop ok)
  with assms show ?thesis by (auto simp: endpoint_inv_def se_loop_def rank_def split: worker.splits)
next
  case (Ep_publish p t now_ns)
  with assms show ?thesis by (cases p) (auto simp: se_publish_def se_failed_def rank_def Let_def split: worker.splits)
qed (use assms in simp_all)

lemma joining_run:
  assumes "endpoint_inv e" "se_phase e = Joining" "list_all worker_op cs" "run_ops (se_step D) cs e = Some e'"
  shows "length cs + rank (se_worker e') \<le> rank (se_worker e)"
  using assms
proof (induction cs arbitrary: e)
  case (Cons c cs)
  then obtain e1 where e1: "se_step D c e = Some e1" "run_ops (se_step D) cs e1 = Some e'" by (auto split: option.splits)
  with Cons joining_step [of e c e1] step_inv [of e c e1] Cons.IH [of e1] show ?case by fastforce
qed simp

lemma joining_progress:
  assumes "se_worker e \<noteq> No_thread" "se_worker e \<noteq> Exited"
  shows "\<exists>c. worker_op c \<and> se_step D c e \<noteq> None"
proof (cases "se_worker e")
  case At_loop
  then show ?thesis by (intro exI [of _ "Ep_loop True"]) simp
next
  case In_loop
  then show ?thesis by (intro exI [of _ "Ep_begin 0 0 0"]) simp
next
  case Reading
  then show ?thesis by (intro exI [of _ "Ep_read 0 0 0"]) simp
next
  case (Have_sample x)
  then show ?thesis by (intro exI [of _ "Ep_publish True 0 0"]) simp
qed (use assms in simp_all)

lemma init_inv: "next_number (new_sensor config) = 0 \<Longrightarrow> endpoint_inv (SensorEndpoint new_sensor config context)"
  by (auto simp: endpoint_inv_def SensorEndpoint_def new_status_def intro: exI [of _ 0])

end

sublocale sensor_driver \<subseteq> machine: guarded_machine "se_step D" "\<lambda>c. True" endpoint_inv
  by unfold_locales (rule step_inv)

context sensor_driver
begin

lemma run_endpoint_inv: "endpoint_inv e \<Longrightarrow> run_ops (se_step D) cs e = Some e' \<Longrightarrow> endpoint_inv e'"
  by (rule machine.run_inv) (simp_all add: list_all_iff)

text \<open>The join ends: no more than two worker steps, and one is possible as long as the thread has not ended.\<close>

lemma join_ends:
  assumes "endpoint_inv e" "se_phase e = Joining" "list_all worker_op cs" "run_ops (se_step D) cs e = Some e'"
  shows "length cs \<le> 2" "se_worker e' = No_thread \<or> se_worker e' = Exited \<or> (\<exists>c. worker_op c \<and> se_step D c e' \<noteq> None)"
proof -
  have "rank (se_worker e) \<le> 2" by (simp add: rank_def split: worker.split)
  with joining_run [OF assms] show "length cs \<le> 2" by simp
  show "se_worker e' = No_thread \<or> se_worker e' = Exited \<or> (\<exists>c. worker_op c \<and> se_step D c e' \<noteq> None)"
    using joining_progress [of e'] by blast
qed

end

interpretation imu_ep: sensor_driver pl_running pl_sequence is_sequence imu_driver
  using imu.polled_sensor_axioms
  by (simp add: sensor_driver_def sensor_driver_axioms_def imu_driver_def ToProto_ImuSample_def)

interpretation temperature_ep: sensor_driver pl_running pl_sequence tm_sequence "temperature_driver sin_f" for sin_f
  using thermometer.polled_sensor_axioms [of sin_f]
  by (simp add: sensor_driver_def sensor_driver_axioms_def temperature_driver_def ToProto_TemperatureSample_def)

interpretation gnss_ep: sensor_driver pl_running pl_sequence gf_sequence gnss_driver
  using gnss.polled_sensor_axioms
  by (simp add: sensor_driver_def sensor_driver_axioms_def gnss_driver_def ToProto_GnssFix_def)

subsection \<open>Properties\<close>

text \<open>
  \<open>samples_in_order\<close>: after any run of an endpoint, the counters agree with what was published, and the published
  numbers are some of 0, 1, 2, \<open>\<dots>\<close> in this order (modulo the width of a counter). \<open>join_returns\<close>: whenever
  \<^verbatim>\<open>Stop\<close> waits for the thread, the thread makes at most two more steps and can make one as long as it has not ended.
\<close>

definition samples_in_order ::
  "('m \<Rightarrow> u64) \<Rightarrow> (endpoint_op \<Rightarrow> ('s, 'x, 'm) sensor_endpoint \<Rightarrow> ('s, 'x, 'm) sensor_endpoint option) \<Rightarrow> ('s, 'x, 'm) sensor_endpoint \<Rightarrow> bool" where
  "samples_in_order number step e0 \<longleftrightarrow> (\<forall>cs e. run_ops step cs e0 = Some e \<longrightarrow>
     es_sample_count (se_status e) = of_nat (length (se_published e)) \<and>
     es_publish_count (se_status e) = of_nat (length (se_published e)) \<and>
     (\<exists>n. subseq (map number (se_published e)) (first_numbers n)))"

definition join_returns ::
  "(endpoint_op \<Rightarrow> ('s, 'x, 'm) sensor_endpoint \<Rightarrow> ('s, 'x, 'm) sensor_endpoint option) \<Rightarrow> ('s, 'x, 'm) sensor_endpoint \<Rightarrow> bool" where
  "join_returns step e0 \<longleftrightarrow> (\<forall>cs e ws e'. run_ops step cs e0 = Some e \<and> se_phase e = Joining \<and>
     list_all worker_op ws \<and> run_ops step ws e = Some e' \<longrightarrow>
     length ws \<le> 2 \<and> (se_worker e' = No_thread \<or> se_worker e' = Exited \<or> (\<exists>c. worker_op c \<and> step c e' \<noteq> None)))"

context sensor_driver
begin

lemma in_order:
  assumes "next_number (new_sensor config) = 0"
  shows "samples_in_order (drv_msg_sequence D) (se_step D) (SensorEndpoint new_sensor config context)"
proof -
  have "es_sample_count (se_status e) = of_nat (length (se_published e)) \<and>
      es_publish_count (se_status e) = of_nat (length (se_published e)) \<and>
      (\<exists>n. subseq (map (drv_msg_sequence D) (se_published e)) (first_numbers n))"
    if "run_ops (se_step D) cs (SensorEndpoint new_sensor config context) = Some e" for cs e
    using run_endpoint_inv [OF init_inv [of new_sensor config, OF assms] that] subseq_drop_last
    unfolding endpoint_inv_def by metis
  then show ?thesis unfolding samples_in_order_def by blast
qed

lemma returns:
  assumes "next_number (new_sensor config) = 0"
  shows "join_returns (se_step D) (SensorEndpoint new_sensor config context)"
  unfolding join_returns_def using run_endpoint_inv [OF init_inv [of new_sensor config, OF assms]] join_ends by blast

end


text \<open>Stopping a sensor endpoint returns: whatever its thread is doing when the sensor is stopped, waiting for a
  sample included, the thread makes at most two more steps, and it is never stuck before its end.\<close>

theorem sensor_endpoints_stop_returns:
  "join_returns imu_step (ImuEndpoint config cx) \<and>
   join_returns (temperature_step sin_f) (TemperatureEndpoint config cx) \<and>
   join_returns gnss_step (GnssEndpoint config cx)"
  unfolding imu_step_def ImuEndpoint_def temperature_step_def TemperatureEndpoint_def gnss_step_def GnssEndpoint_def
  by (intro conjI imu_ep.returns temperature_ep.returns gnss_ep.returns)
    (simp_all add: MockImu_init_def MockTemperature_init_def MockGnss_init_def)

end
