(* ===== verification/Joint_Endpoint.thy ===== *)
theory Joint_Endpoint
  imports Sensor_Endpoints
begin

section \<open>The joint controller's endpoint (services/hardware\_interface/endpoints/joint\_controller\_endpoint.cpp)\<close>

text \<open>
  \<^verbatim>\<open>JointControllerEndpoint\<close> runs a controller: its thread steps it and publishes its state, and its
  subscriber hands it the commands that arrive. As for the sensor endpoints, an operation is what
  happens between two accesses to shared state; \<open>je_commands\<close> holds the commands whose result the
  subscriber has not recorded yet.
\<close>

subsection \<open>State\<close>

definition BuildOptions :: "EndpointConfig \<Rightarrow> options" where
  "BuildOptions config =
     \<lparr>op_controller_id = ec_endpoint_id config, op_state_rate_hz = ec_publish_rate_hz config,
      op_command_timeout_ms = ec_command_timeout_ms config, op_disabled_on_start = ec_disabled_on_start config,
      op_default_temperature = Fin 30, op_joints = []\<rparr>"

text \<open>The conversion of a double to an \<^verbatim>\<open>int\<close> truncates; outside its range it is undefined (\<open>None\<close>).\<close>

definition to_int32 :: "float64 \<Rightarrow> int option" where
  "to_int32 x = (case x of Fin r \<Rightarrow>
     let n = (if 0 \<le> r then \<lfloor>r\<rfloor> else \<lceil>r\<rceil>) in if - (2 ^ 31) \<le> n \<and> n < 2 ^ 31 then Some n else None
   | _ \<Rightarrow> None)"

definition ReadTimeoutForRate :: "float64 \<Rightarrow> int option" where
  "ReadTimeoutForRate rate =
     map_option (\<lambda>period_ms. max (period_ms * 2) 10) (to_int32 (f_div (Fin 1000) (std_max rate (round64 (1 / 1000)))))"

datatype joint_worker =
    J_no_thread | J_at_loop | J_in_loop | J_stepped | J_reading | J_sleeping | J_have JointState
  | J_published JointState bool | J_update JointState bool ActuatorStatus | J_exited

datatype joint_phase = J_idle | J_started | J_starting | J_flag_down | J_disabled | J_joining

record joint_endpoint =
  je_config :: EndpointConfig
  je_context :: EndpointContext
  je_controller :: controller
  je_subscribed :: bool
  je_running :: bool
  je_worker :: joint_worker
  je_phase :: joint_phase
  je_status :: EndpointStatus
  je_published :: "ProtoJointState list"
  je_commands :: "(u64 \<times> (Error + unit)) list"

definition JointControllerEndpoint :: "int \<Rightarrow> EndpointConfig \<Rightarrow> EndpointContext \<Rightarrow> joint_endpoint" where
  "JointControllerEndpoint now config context =
     \<lparr>je_config = config, je_context = context, je_controller = MockJointController (BuildOptions config) now,
      je_subscribed = False, je_running = False, je_worker = J_no_thread, je_phase = J_idle, je_status = new_status config,
      je_published = [], je_commands = []\<rparr>"

subsection \<open>The calling thread\<close>

definition je_Configure :: "joint_endpoint \<Rightarrow> bool \<times> joint_endpoint" where
  "je_Configure e =
     (if ec_command_topic (je_config e) = [] \<or> ec_state_topic (je_config e) = [] then
        (False, e\<lparr>je_status := SetError ''joint controller endpoint requires command_topic and state_topic'' (je_status e)\<rparr>)
      else (True, e\<lparr>je_status := status_configured (je_status e)\<rparr>))"

definition je_Start_controller :: "int \<Rightarrow> int \<Rightarrow> joint_endpoint \<Rightarrow> bool \<times> joint_endpoint" where
  "je_Start_controller now now' e =
     (case Start now now' (je_controller e) of
        (Inl err, c) \<Rightarrow> (False, e\<lparr>je_controller := c, je_status := SetError (err_message err) (je_status e)\<rparr>)
      | (Inr _, c) \<Rightarrow> (True, e\<lparr>je_controller := c, je_phase := J_started\<rparr>))"

definition je_Start_subscribe :: "joint_endpoint \<Rightarrow> joint_endpoint" where
  "je_Start_subscribe e = e\<lparr>je_subscribed := True\<rparr>"

definition je_Start_thread :: "joint_endpoint \<Rightarrow> joint_endpoint" where
  "je_Start_thread e = e\<lparr>je_running := True, je_worker := J_at_loop, je_phase := J_starting\<rparr>"

definition je_Start_finish :: "joint_endpoint \<Rightarrow> joint_endpoint" where
  "je_Start_finish e = e\<lparr>je_status := status_running (je_status e), je_phase := J_idle\<rparr>"

definition je_Stop_flag :: "joint_endpoint \<Rightarrow> joint_endpoint" where
  "je_Stop_flag e = e\<lparr>je_running := False, je_phase := J_flag_down\<rparr>"

definition je_Stop_disable :: "joint_endpoint \<Rightarrow> joint_endpoint" where
  "je_Stop_disable e = e\<lparr>je_controller := snd (Disable (je_controller e)), je_phase := J_disabled\<rparr>"

definition je_Stop_controller :: "joint_endpoint \<Rightarrow> joint_endpoint" where
  "je_Stop_controller e = e\<lparr>je_controller := Stop (je_controller e), je_phase := J_joining\<rparr>"

definition je_Stop_finish :: "joint_endpoint \<Rightarrow> joint_endpoint" where
  "je_Stop_finish e = e\<lparr>je_worker := J_no_thread, je_status := status_stopped (je_status e), je_phase := J_idle\<rparr>"

subsection \<open>The thread\<close>

definition RecordTimeout :: "string \<Rightarrow> EndpointStatus \<Rightarrow> EndpointStatus" where
  "RecordTimeout message st = st\<lparr>es_timeout_count := es_timeout_count st + 1, es_last_error := message, es_message := message\<rparr>"

definition je_loop :: "bool \<Rightarrow> joint_endpoint \<Rightarrow> joint_endpoint" where
  "je_loop ok e = e\<lparr>je_worker := (if je_running e \<and> ok then J_in_loop else J_exited)\<rparr>"

definition je_Step :: "int \<Rightarrow> u64 \<Rightarrow> joint_endpoint \<Rightarrow> joint_endpoint" where
  "je_Step now now_ns e =
     (case Step now now_ns (je_controller e) of
        (Inl err, c) \<Rightarrow> e\<lparr>je_controller := c, je_status := RecordError (err_message err) (je_status e), je_worker := J_sleeping\<rparr>
      | (Inr _, c) \<Rightarrow> e\<lparr>je_controller := c, je_worker := J_stepped\<rparr>)"

definition je_wake :: "joint_endpoint \<Rightarrow> joint_endpoint" where
  "je_wake e = e\<lparr>je_worker := J_at_loop\<rparr>"

definition je_read_failed :: "Error \<Rightarrow> joint_endpoint \<Rightarrow> joint_endpoint" where
  "je_read_failed err e = e\<lparr>je_worker := J_at_loop, je_status :=
     (if err_code err = kTimeout then RecordTimeout (err_message err) (je_status e)
      else RecordError (err_message err) (je_status e))\<rparr>"

definition je_begin :: "int \<Rightarrow> u64 \<Rightarrow> int \<Rightarrow> joint_endpoint \<Rightarrow> joint_endpoint" where
  "je_begin now now_ns now' e =
     (case ReadState_begin now now_ns now' (je_controller e) of
        (Inl err, c) \<Rightarrow> je_read_failed err (e\<lparr>je_controller := c\<rparr>)
      | (Inr None, c) \<Rightarrow> e\<lparr>je_controller := c, je_worker := J_reading\<rparr>
      | (Inr (Some st), c) \<Rightarrow> e\<lparr>je_controller := c, je_worker := J_have st\<rparr>)"

definition je_read :: "int \<Rightarrow> u64 \<Rightarrow> int \<Rightarrow> joint_endpoint \<Rightarrow> joint_endpoint" where
  "je_read now now_ns now' e =
     (case ReadState_finish now now_ns now' (je_controller e) of
        (Inl err, c) \<Rightarrow> je_read_failed err (e\<lparr>je_controller := c\<rparr>)
      | (Inr st, c) \<Rightarrow> e\<lparr>je_controller := c, je_worker := J_have st\<rparr>)"

definition je_publish :: "bool \<Rightarrow> u64 \<Rightarrow> JointState \<Rightarrow> joint_endpoint \<Rightarrow> joint_endpoint" where
  "je_publish published t st e =
     (let msg = ToProto_JointState st (header_context (je_context e) t) in
      if published then e\<lparr>je_published := je_published e @ [msg], je_worker := J_published st True\<rparr>
      else e\<lparr>je_status := RecordError ''failed to publish joint state'' (je_status e), je_worker := J_published st False\<rparr>)"

definition je_controller_status :: "JointState \<Rightarrow> bool \<Rightarrow> joint_endpoint \<Rightarrow> joint_endpoint" where
  "je_controller_status st published e = e\<lparr>je_worker := J_update st published (Status_of (je_controller e))\<rparr>"

definition UpdateStatusFromController :: "JointState \<Rightarrow> bool \<Rightarrow> ActuatorStatus \<Rightarrow> u64 \<Rightarrow> EndpointStatus \<Rightarrow> EndpointStatus" where
  "UpdateStatusFromController state published controller_status now_ns st = st
     \<lparr>es_sequence := jt_sequence state, es_sample_count := es_sample_count st + 1,
      es_publish_count := (if published then es_publish_count st + 1 else es_publish_count st),
      es_error_count := max (es_error_count st) (as_error_count controller_status),
      es_timeout_count := max (es_timeout_count st) (as_timeout_count controller_status),
      es_last_sample_monotonic_ns := jt_sample_time_monotonic_ns state, es_last_publish_monotonic_ns := now_ns,
      es_last_command_monotonic_ns := as_last_command_monotonic_ns controller_status,
      es_message := jt_message state,
      es_last_error := (if err_message (as_last_error controller_status) \<noteq> [] then err_message (as_last_error controller_status)
                        else es_last_error st)\<rparr>"

definition je_update :: "u64 \<Rightarrow> JointState \<Rightarrow> bool \<Rightarrow> ActuatorStatus \<Rightarrow> joint_endpoint \<Rightarrow> joint_endpoint" where
  "je_update now_ns st published cs e =
     e\<lparr>je_status := UpdateStatusFromController st published cs now_ns (je_status e), je_worker := J_at_loop\<rparr>"

subsection \<open>The subscriber\<close>

text \<open>\<^verbatim>\<open>HandleCommand\<close> up to the controller's answer, and the recording of the answer; \<open>t\<close> is the clock.\<close>

definition HandleCommand_begin :: "ProtoJointCommand \<Rightarrow> u64 \<Rightarrow> joint_endpoint \<Rightarrow> joint_endpoint" where
  "HandleCommand_begin msg t e =
     (let command = ToDomain msg;
          command = (if jc_time_monotonic_ns command = 0 then command\<lparr>jc_time_monotonic_ns := t\<rparr> else command);
          (result, c) = SetCommand t command (je_controller e) in
      e\<lparr>je_controller := c, je_commands := je_commands e @ [(jc_time_monotonic_ns command, result)]\<rparr>)"

definition record_command :: "u64 \<Rightarrow> Error + unit \<Rightarrow> EndpointStatus \<Rightarrow> EndpointStatus" where
  "record_command command_time result st =
     (let st = st\<lparr>es_last_command_monotonic_ns := command_time, es_command_count := es_command_count st + 1\<rparr> in
      case result of
        Inr _ \<Rightarrow> st\<lparr>es_message := ''command accepted''\<rparr>
      | Inl err \<Rightarrow> st\<lparr>es_error_count := es_error_count st + 1, es_last_error := err_message err, es_message := err_message err\<rparr>)"

definition HandleCommand_finish :: "nat \<Rightarrow> joint_endpoint \<Rightarrow> joint_endpoint" where
  "HandleCommand_finish i e = e\<lparr>je_status := record_command (fst (je_commands e ! i)) (snd (je_commands e ! i)) (je_status e),
     je_commands := take i (je_commands e) @ drop (Suc i) (je_commands e)\<rparr>"

subsection \<open>Interleavings\<close>

datatype joint_op =
    Je_Configure | Je_Start_controller int int | Je_Start_subscribe | Je_Start_thread | Je_Start_finish
  | Je_Stop_flag | Je_Stop_disable | Je_Stop_controller | Je_Stop_finish
  | Je_loop bool | Je_Step int u64 | Je_wake | Je_begin int u64 int | Je_read int u64 int | Je_publish bool u64
  | Je_controller_status | Je_update u64
  | Je_command ProtoJointCommand u64 | Je_command_done nat

fun joint_step :: "joint_op \<Rightarrow> joint_endpoint \<Rightarrow> joint_endpoint option" where
  "joint_step Je_Configure e = (if je_phase e = J_idle then Some (snd (je_Configure e)) else None)"
| "joint_step (Je_Start_controller now now') e =
     (if je_phase e = J_idle \<and> je_worker e = J_no_thread then Some (snd (je_Start_controller now now' e)) else None)"
| "joint_step Je_Start_subscribe e = (if je_phase e = J_started then Some (je_Start_subscribe e) else None)"
| "joint_step Je_Start_thread e = (if je_phase e = J_started \<and> je_subscribed e then Some (je_Start_thread e) else None)"
| "joint_step Je_Start_finish e = (if je_phase e = J_starting then Some (je_Start_finish e) else None)"
| "joint_step Je_Stop_flag e = (if je_phase e = J_idle then Some (je_Stop_flag e) else None)"
| "joint_step Je_Stop_disable e = (if je_phase e = J_flag_down then Some (je_Stop_disable e) else None)"
| "joint_step Je_Stop_controller e = (if je_phase e = J_disabled then Some (je_Stop_controller e) else None)"
| "joint_step Je_Stop_finish e =
     (if je_phase e = J_joining \<and> (je_worker e = J_no_thread \<or> je_worker e = J_exited) then Some (je_Stop_finish e) else None)"
| "joint_step (Je_loop ok) e = (case je_worker e of J_at_loop \<Rightarrow> Some (je_loop ok e) | _ \<Rightarrow> None)"
| "joint_step (Je_Step now now_ns) e = (case je_worker e of J_in_loop \<Rightarrow> Some (je_Step now now_ns e) | _ \<Rightarrow> None)"
| "joint_step Je_wake e = (case je_worker e of J_sleeping \<Rightarrow> Some (je_wake e) | _ \<Rightarrow> None)"
| "joint_step (Je_begin now now_ns now') e = (case je_worker e of J_stepped \<Rightarrow> Some (je_begin now now_ns now' e) | _ \<Rightarrow> None)"
| "joint_step (Je_read now now_ns now') e = (case je_worker e of J_reading \<Rightarrow> Some (je_read now now_ns now' e) | _ \<Rightarrow> None)"
| "joint_step (Je_publish published t) e = (case je_worker e of J_have st \<Rightarrow> Some (je_publish published t st e) | _ \<Rightarrow> None)"
| "joint_step Je_controller_status e =
     (case je_worker e of J_published st published \<Rightarrow> Some (je_controller_status st published e) | _ \<Rightarrow> None)"
| "joint_step (Je_update now_ns) e = (case je_worker e of J_update st published cs \<Rightarrow> Some (je_update now_ns st published cs e) | _ \<Rightarrow> None)"
| "joint_step (Je_command msg t) e = (if je_subscribed e then Some (HandleCommand_begin msg t e) else None)"
| "joint_step (Je_command_done i) e = (if i < length (je_commands e) then Some (HandleCommand_finish i e) else None)"

fun starting_op :: "joint_op \<Rightarrow> bool" where
  "starting_op (Je_Start_controller _ _) = True"
| "starting_op _ = False"

subsection \<open>A controller that is not enabled is off\<close>

definition off_inv :: "controller \<Rightarrow> bool" where
  "off_inv c \<longleftrightarrow> (k_enabled c \<or> outputs_off c) \<and>
     (k_enabled c \<longrightarrow> k_running c \<and> \<not> k_fault_latched c \<and> \<not> k_emergency_stopped c \<and> \<not> k_safe_output_active c)"

lemma off_safe_output: "off_inv (bump (ApplySafeOutputLocked m s))"
  by (simp add: off_inv_def outputs_off_def)

lemma off_Start: "outputs_off s \<Longrightarrow> off_inv (snd (Start now now' s))"
  by (simp add: off_inv_def outputs_off_def Start_def Let_def)

lemma off_Stop: "off_inv (Stop s)"
  by (simp add: Stop_def off_safe_output)

lemma off_Disable: "off_inv s \<Longrightarrow> off_inv (snd (Disable s))"
  by (simp add: Disable_def off_safe_output)

lemma set_joints_safe_output:
  "k_safe_output_active (snd (set_joints t c s)) \<Longrightarrow> k_safe_output_active s"
  by (auto simp: set_joints_def accept_command_def split: if_splits sum.splits)

lemma off_set_joints: "off_inv s \<Longrightarrow> off_inv (snd (set_joints t c s))"
  using outputs_off_cong [OF set_joints_frame(5), of t c s] set_joints_safe_output [of t c s]
  by (auto simp: off_inv_def set_joints_frame)

lemma off_clear_faults: "off_inv s \<Longrightarrow> off_inv (clear_faults s)"
  by (auto simp: off_inv_def outputs_off_def, simp_all add: clear_faults_def)

lemma off_SetCommand:
  assumes "off_inv s"
  shows "off_inv (snd (SetCommand t c s))"
proof (cases "\<not> k_running s \<or> jc_controller_id c \<noteq> [] \<and> jc_controller_id c \<noteq> op_controller_id (k_options s)
    \<or> jc_emergency_stop c \<or> jc_disable c")
  case True
  then show ?thesis using assms by (auto simp: SetCommand_def off_safe_output Let_def)
next
  case False
  define s1 where "s1 = (if jc_clear_fault c then clear_faults s else s)"
  have s1: "off_inv s1" "k_running s1" using assms False by (auto simp: s1_def off_clear_faults)
  have en: "off_inv (s1\<lparr>k_enabled := True, k_safe_output_active := False\<rparr>)"
    if "\<not> k_fault_latched s1" "\<not> k_emergency_stopped s1"
    using that s1(2) by (simp add: off_inv_def)
  have "off_inv (if jc_enable c then if k_fault_latched s1 \<or> k_emergency_stopped s1 then s1
      else snd (set_joints t c (s1\<lparr>k_enabled := True, k_safe_output_active := False\<rparr>)) else snd (set_joints t c s1))"
    using s1(1) en off_set_joints by simp
  moreover have "snd (SetCommand t c s) = (if jc_enable c then if k_fault_latched s1 \<or> k_emergency_stopped s1 then s1
      else snd (set_joints t c (s1\<lparr>k_enabled := True, k_safe_output_active := False\<rparr>)) else snd (set_joints t c s1))"
    using False unfolding SetCommand_def s1_def Let_def by (auto simp del: clear_faults_fields(3,4))
  ultimately show ?thesis by simp
qed

lemma SetCommand_running: "k_running (snd (SetCommand t c s)) = k_running s"
  by (simp add: SetCommand_def set_joints_frame Let_def not_running_def)

lemma Step_running: "k_running (snd (Step now t s)) = k_running s"
proof (cases "k_running s \<and> k_has_command s \<and> \<not> timed_out t (s\<lparr>k_last_step := now\<rparr>) \<and> k_enabled s")
  case True
  then show ?thesis using Step_joints_frame [of _ _ "s\<lparr>k_last_step := now\<rparr>"] by (simp add: Step_def Let_def)
next
  case False
  then show ?thesis by (auto simp: Step_def Let_def not_running_def)
qed

lemma off_Step:
  assumes "off_inv s"
  shows "off_inv (snd (Step now t s))"
proof (cases "k_running s \<and> k_has_command s \<and> \<not> timed_out t (s\<lparr>k_last_step := now\<rparr>) \<and> k_enabled s")
  case True
  then show ?thesis
    using assms Step_joints_frame [of _ _ "s\<lparr>k_last_step := now\<rparr>"] by (simp add: Step_def off_inv_def Let_def)
next
  case False
  then show ?thesis using assms
    by (auto simp: Step_def Let_def not_running_def off_safe_output, simp_all add: off_inv_def outputs_off_def)
qed

lemma take_sample_fields:
  "k_safe_output_active (snd (take_sample t now s)) = k_safe_output_active s"
  by (simp add: take_sample_def)

lemma off_take_sample: "off_inv s \<Longrightarrow> off_inv (snd (take_sample t now s))"
  using outputs_off_cong [OF read_frame(6), of t now s] by (simp add: off_inv_def read_frame take_sample_fields)

definition state_safe :: "JointState \<Rightarrow> bool" where
  "state_safe st \<longleftrightarrow> jt_availability st = kEnabled \<or> list_all joint_off (jt_joints st)"

lemma sample_safe: "off_inv s \<Longrightarrow> fst (take_sample t now s) = Inr st \<Longrightarrow> state_safe st"
  by (auto simp: take_sample_def state_safe_def off_inv_def AvailabilityLocked_def outputs_off_def list_all_iff)

lemma ReadState_begin_off:
  assumes "off_inv s" "ReadState_begin now t now' s = (r, s')"
  shows "off_inv s' \<and> k_running s' = k_running s \<and> (case r of Inr (Some st) \<Rightarrow> state_safe st | _ \<Rightarrow> True)"
  using assms off_take_sample [OF assms(1), of t now'] sample_safe [OF assms(1), of t now'] read_frame(2) [of t now' s]
  by (auto simp: ReadState_begin_def not_running_def split: if_splits sum.splits prod.splits)

lemma ReadState_finish_off:
  assumes "off_inv s" "ReadState_finish now t now' s = (r, s')"
  shows "off_inv s' \<and> k_running s' = k_running s \<and> (case r of Inr st \<Rightarrow> state_safe st | _ \<Rightarrow> True)"
  using assms off_take_sample [OF assms(1), of t now'] sample_safe [OF assms(1), of t now'] read_frame(2) [of t now' s]
  by (auto simp: ReadState_finish_def split: if_splits sum.splits prod.splits)

subsection \<open>The endpoint's invariant\<close>

definition message_safe :: "ProtoJointState \<Rightarrow> bool" where
  "message_safe m \<longleftrightarrow> pt_availability m = ACTUATOR_AVAILABILITY_ENABLED \<or>
     list_all (\<lambda>j. pj_mode j = JOINT_CONTROL_MODE_DISABLED \<and> pj_velocity_radps j = 0 \<and> pj_effort_nm j = 0) (pt_joints m)"

definition joint_inv :: "joint_endpoint \<Rightarrow> bool" where
  "joint_inv e \<longleftrightarrow> off_inv (je_controller e) \<and>
     (je_worker e = J_no_thread \<and> je_phase e \<noteq> J_started \<longrightarrow> \<not> k_running (je_controller e)) \<and>
     (je_phase e = J_joining \<longrightarrow> \<not> k_running (je_controller e)) \<and>
     (je_phase e = J_joining \<or> je_phase e = J_flag_down \<or> je_phase e = J_disabled \<longrightarrow> \<not> je_running e) \<and>
     (je_running e \<longrightarrow> je_worker e \<noteq> J_no_thread) \<and>
     list_all message_safe (je_published e) \<and>
     (case je_worker e of J_have st \<Rightarrow> state_safe st | _ \<Rightarrow> True)"

lemma message_safe_ToProto: "state_safe st \<Longrightarrow> message_safe (ToProto_JointState st cx)"
  by (auto simp: state_safe_def message_safe_def ToProto_JointState_def ToProto_joint_def list_all_iff joint_off_def)

lemma joint_init_inv: "joint_inv (JointControllerEndpoint now config cx)"
  by (auto simp: joint_inv_def JointControllerEndpoint_def MockJointController_def off_inv_def outputs_off_def
      init_state_def joint_off_def Let_def)

lemma Start_controller_inv:
  assumes "joint_inv e" "je_phase e = J_idle" "je_worker e = J_no_thread"
  shows "joint_inv (snd (je_Start_controller now now' e))"
proof -
  have "outputs_off (je_controller e)" using assms by (auto simp: joint_inv_def off_inv_def)
  with off_Start assms show ?thesis by (auto simp: je_Start_controller_def joint_inv_def Start_def Let_def)
qed

lemma je_Step_inv:
  assumes "joint_inv e" "je_worker e = J_in_loop"
  shows "joint_inv (je_Step now now_ns e)"
proof -
  obtain r c where rc: "Step now now_ns (je_controller e) = (r, c)" by force
  with off_Step [of "je_controller e" now now_ns] Step_running [of now now_ns "je_controller e"] assms
  have "off_inv c" "k_running c = k_running (je_controller e)" by (simp_all add: joint_inv_def)
  with rc assms show ?thesis by (cases r) (auto simp: je_Step_def joint_inv_def)
qed

lemma je_begin_inv:
  assumes "joint_inv e" "je_worker e = J_stepped"
  shows "joint_inv (je_begin now now_ns now' e)"
proof -
  obtain r c where rc: "ReadState_begin now now_ns now' (je_controller e) = (r, c)" by force
  with ReadState_begin_off [OF _ rc] assms
  have "off_inv c" "k_running c = k_running (je_controller e)" "case r of Inr (Some st) \<Rightarrow> state_safe st | _ \<Rightarrow> True"
    by (auto simp: joint_inv_def)
  with rc assms show ?thesis by (cases r) (auto simp: je_begin_def je_read_failed_def joint_inv_def split: option.splits)
qed

lemma je_read_inv:
  assumes "joint_inv e" "je_worker e = J_reading"
  shows "joint_inv (je_read now now_ns now' e)"
proof -
  obtain r c where rc: "ReadState_finish now now_ns now' (je_controller e) = (r, c)" by force
  with ReadState_finish_off [OF _ rc] assms
  have "off_inv c" "k_running c = k_running (je_controller e)" "case r of Inr st \<Rightarrow> state_safe st | _ \<Rightarrow> True"
    by (auto simp: joint_inv_def)
  with rc assms show ?thesis by (cases r) (auto simp: je_read_def je_read_failed_def joint_inv_def)
qed

lemma HandleCommand_controller:
  "je_controller (HandleCommand_begin msg t e) = snd (SetCommand t
     (if pc_command_time_monotonic_ns msg = 0 then (ToDomain msg)\<lparr>jc_time_monotonic_ns := t\<rparr> else ToDomain msg) (je_controller e))"
  by (simp add: HandleCommand_begin_def Let_def ToDomain_def split: prod.split)

lemma HandleCommand_frame:
  "je_worker (HandleCommand_begin msg t e) = je_worker e" "je_phase (HandleCommand_begin msg t e) = je_phase e"
  "je_running (HandleCommand_begin msg t e) = je_running e" "je_published (HandleCommand_begin msg t e) = je_published e"
  by (simp_all add: HandleCommand_begin_def Let_def split: prod.split)

lemma HandleCommand_inv: "joint_inv e \<Longrightarrow> joint_inv (HandleCommand_begin msg t e)"
  unfolding joint_inv_def HandleCommand_controller HandleCommand_frame SetCommand_running
  using off_SetCommand by blast

lemma je_publish_inv:
  assumes "joint_inv e" "je_worker e = J_have st"
  shows "joint_inv (je_publish p t st e)"
proof -
  have "message_safe (ToProto_JointState st cx)" for cx using assms message_safe_ToProto by (simp add: joint_inv_def)
  with assms show ?thesis by (cases p) (simp_all add: joint_inv_def je_publish_def Let_def)
qed

lemma Disable_running: "k_running (snd (Disable s)) = k_running s"
  by (simp add: Disable_def)

lemma joint_step_inv:
  assumes inv: "joint_inv e" and run: "joint_step op e = Some e'"
  shows "joint_inv e'"
proof (cases op)
  case (Je_Start_controller now now')
  with assms Start_controller_inv show ?thesis by (auto split: if_splits)
next
  case Je_Stop_disable
  with assms off_Disable [of "je_controller e"] show ?thesis
    by (auto simp: joint_inv_def je_Stop_disable_def Disable_running split: if_splits)
next
  case Je_Stop_controller
  with assms off_Stop [of "je_controller e"] show ?thesis
    by (auto simp: joint_inv_def je_Stop_controller_def Stop_def split: if_splits)
next
  case (Je_Step now now_ns)
  with assms je_Step_inv show ?thesis by (auto split: joint_worker.splits)
next
  case (Je_begin now now_ns now')
  with assms je_begin_inv show ?thesis by (auto split: joint_worker.splits)
next
  case (Je_read now now_ns now')
  with assms je_read_inv show ?thesis by (auto split: joint_worker.splits)
next
  case (Je_publish p t)
  with assms je_publish_inv show ?thesis by (auto split: joint_worker.splits)
next
  case (Je_command msg t)
  with run have "e' = HandleCommand_begin msg t e" by (simp split: if_splits)
  with inv show ?thesis by (simp add: HandleCommand_inv)
next
  case (Je_command_done i)
  with run have "e' = HandleCommand_finish i e" by (simp split: if_splits)
  with inv show ?thesis by (simp add: joint_inv_def HandleCommand_finish_def)
next
  case Je_Configure
  with assms show ?thesis by (auto simp: joint_inv_def je_Configure_def split: if_splits)
next
  case (Je_loop ok)
  with run have "je_worker e = J_at_loop" "e' = je_loop ok e" by (simp_all split: joint_worker.splits)
  with inv show ?thesis by (auto simp: joint_inv_def je_loop_def)
next
  case Je_controller_status
  with run obtain st p where "je_worker e = J_published st p" "e' = je_controller_status st p e"
    by (simp split: joint_worker.splits)
  with inv show ?thesis by (simp add: joint_inv_def je_controller_status_def)
next
  case (Je_update t)
  with run obtain st p cs where "je_worker e = J_update st p cs" "e' = je_update t st p cs e"
    by (simp split: joint_worker.splits)
  with inv show ?thesis by (simp add: joint_inv_def je_update_def)
next
  case Je_wake
  with run have "je_worker e = J_sleeping" "e' = je_wake e" by (simp_all split: joint_worker.splits)
  with inv show ?thesis by (simp add: joint_inv_def je_wake_def)
qed (use assms in \<open>auto simp: joint_inv_def je_Start_subscribe_def je_Start_thread_def je_Start_finish_def
    je_Stop_flag_def je_Stop_finish_def split: if_splits\<close>)

interpretation joint_ep: guarded_machine joint_step "\<lambda>c. True" joint_inv
  by unfold_locales (rule joint_step_inv)

lemma joint_reachable:
  "run_ops joint_step cs (JointControllerEndpoint now config cx) = Some e \<Longrightarrow> joint_inv e"
  using joint_ep.run_inv [OF joint_init_inv] by (simp add: list_all_iff)

subsection \<open>An endpoint that is not started\<close>

definition unstarted :: "joint_endpoint \<Rightarrow> bool" where
  "unstarted e \<longleftrightarrow> je_worker e = J_no_thread \<and> je_phase e \<noteq> J_started \<and> je_phase e \<noteq> J_starting"

lemma unstarted_step:
  assumes "unstarted e" "\<not> starting_op op" "joint_step op e = Some e'"
  shows "unstarted e' \<and> je_published e' = je_published e"
proof (cases op)
  case (Je_command msg t)
  with assms have "e' = HandleCommand_begin msg t e" by (simp split: if_splits)
  with assms(1) show ?thesis by (simp add: unstarted_def HandleCommand_frame)
qed (use assms in \<open>auto simp: unstarted_def je_Configure_def je_Stop_flag_def je_Stop_disable_def je_Stop_controller_def
    je_Stop_finish_def HandleCommand_finish_def split: if_splits\<close>)

lemma unstarted_run:
  "unstarted e \<Longrightarrow> list_all (\<lambda>op. \<not> starting_op op) ops \<Longrightarrow> run_ops joint_step ops e = Some e' \<Longrightarrow>
   unstarted e' \<and> je_published e' = je_published e"
proof (induction ops arbitrary: e)
  case (Cons op ops)
  then obtain e1 where e1: "joint_step op e = Some e1" "run_ops joint_step ops e1 = Some e'"
    by (auto split: option.splits)
  with Cons.prems unstarted_step [of e op e1] Cons.IH [of e1] show ?case by auto
qed simp

subsection \<open>The join\<close>

definition joint_rank :: "joint_worker \<Rightarrow> nat" where
  "joint_rank w = (case w of J_no_thread \<Rightarrow> 0 | J_exited \<Rightarrow> 0 | J_at_loop \<Rightarrow> 1 | J_sleeping \<Rightarrow> 2 | J_stepped \<Rightarrow> 2
     | J_reading \<Rightarrow> 2 | J_update _ _ _ \<Rightarrow> 2 | J_in_loop \<Rightarrow> 3 | J_published _ _ \<Rightarrow> 3 | J_have _ \<Rightarrow> 4)"

fun joint_worker_op :: "joint_op \<Rightarrow> bool" where
  "joint_worker_op (Je_loop _) = True"
| "joint_worker_op (Je_Step _ _) = True"
| "joint_worker_op Je_wake = True"
| "joint_worker_op (Je_begin _ _ _) = True"
| "joint_worker_op (Je_read _ _ _) = True"
| "joint_worker_op (Je_publish _ _) = True"
| "joint_worker_op Je_controller_status = True"
| "joint_worker_op (Je_update _) = True"
| "joint_worker_op _ = False"

fun subscriber_op :: "joint_op \<Rightarrow> bool" where
  "subscriber_op (Je_command _ _) = True"
| "subscriber_op (Je_command_done _) = True"
| "subscriber_op _ = False"

lemma joint_joining_step:
  assumes inv: "joint_inv e" and ph: "je_phase e = J_joining" and w: "joint_worker_op op" and run: "joint_step op e = Some e'"
  shows "je_phase e' = J_joining \<and> joint_rank (je_worker e') < joint_rank (je_worker e)"
proof -
  have nr: "\<not> k_running (je_controller e)" "\<not> je_running e" using inv ph by (auto simp: joint_inv_def)
  show ?thesis
  proof (cases op)
    case (Je_Step now now_ns)
    with run have "je_worker e = J_in_loop" "e' = je_Step now now_ns e" by (simp_all split: joint_worker.splits)
    with nr ph show ?thesis by (simp add: je_Step_def Step_def not_running_def joint_rank_def)
  next
    case (Je_begin now now_ns now')
    with run have "je_worker e = J_stepped" "e' = je_begin now now_ns now' e" by (simp_all split: joint_worker.splits)
    with nr ph show ?thesis by (simp add: je_begin_def ReadState_begin_def not_running_def je_read_failed_def joint_rank_def)
  next
    case (Je_read now now_ns now')
    with run have "je_worker e = J_reading" "e' = je_read now now_ns now' e" by (simp_all split: joint_worker.splits)
    with nr ph show ?thesis by (simp add: je_read_def ReadState_finish_def je_read_failed_def joint_rank_def)
  next
    case (Je_publish p t)
    with run obtain st where "je_worker e = J_have st" "e' = je_publish p t st e" by (simp split: joint_worker.splits)
    with ph show ?thesis by (cases p) (simp_all add: je_publish_def joint_rank_def Let_def)
  next
    case (Je_loop ok)
    with run have "je_worker e = J_at_loop" "e' = je_loop ok e" by (simp_all split: joint_worker.splits)
    with nr ph show ?thesis by (simp add: je_loop_def joint_rank_def)
  next
    case Je_wake
    with run have "je_worker e = J_sleeping" "e' = je_wake e" by (simp_all split: joint_worker.splits)
    with ph show ?thesis by (simp add: je_wake_def joint_rank_def)
  next
    case Je_controller_status
    with run obtain st p where "je_worker e = J_published st p" "e' = je_controller_status st p e"
      by (simp split: joint_worker.splits)
    with ph show ?thesis by (simp add: je_controller_status_def joint_rank_def)
  next
    case (Je_update t)
    with run obtain st p cs where "je_worker e = J_update st p cs" "e' = je_update t st p cs e"
      by (simp split: joint_worker.splits)
    with ph show ?thesis by (simp add: je_update_def joint_rank_def)
  qed (use w in simp_all)
qed

lemma subscriber_step:
  assumes "subscriber_op op" "joint_step op e = Some e'"
  shows "je_phase e' = je_phase e \<and> je_worker e' = je_worker e"
proof (cases op)
  case (Je_command msg t)
  with assms have "e' = HandleCommand_begin msg t e" by (simp split: if_splits)
  then show ?thesis by (simp add: HandleCommand_frame)
next
  case (Je_command_done i)
  with assms have "e' = HandleCommand_finish i e" by (simp split: if_splits)
  then show ?thesis by (simp add: HandleCommand_finish_def)
qed (use assms in simp_all)

lemma joint_joining_run:
  assumes "joint_inv e" "je_phase e = J_joining" "list_all (\<lambda>op. joint_worker_op op \<or> subscriber_op op) ops"
    and "run_ops joint_step ops e = Some e'"
  shows "length (filter joint_worker_op ops) + joint_rank (je_worker e') \<le> joint_rank (je_worker e)"
  using assms
proof (induction ops arbitrary: e)
  case (Cons op ops)
  then obtain e1 where e1: "joint_step op e = Some e1" "run_ops joint_step ops e1 = Some e'"
    by (auto split: option.splits)
  have "joint_inv e1" using joint_step_inv e1(1) Cons.prems(1) by blast
  with Cons.prems e1 Cons.IH [of e1] joint_joining_step [of e op e1] subscriber_step [of op e e1] show ?case
    by (cases "joint_worker_op op") auto
qed simp

lemma joint_progress:
  assumes "je_worker e \<noteq> J_no_thread" "je_worker e \<noteq> J_exited"
  shows "\<exists>op. joint_worker_op op \<and> joint_step op e \<noteq> None"
proof (cases "je_worker e")
  case J_at_loop
  then show ?thesis by (intro exI [of _ "Je_loop True"]) simp
next
  case J_in_loop
  then show ?thesis by (intro exI [of _ "Je_Step 0 0"]) simp
next
  case J_stepped
  then show ?thesis by (intro exI [of _ "Je_begin 0 0 0"]) simp
next
  case J_reading
  then show ?thesis by (intro exI [of _ "Je_read 0 0 0"]) simp
next
  case J_sleeping
  then show ?thesis by (intro exI [of _ "Je_wake"]) simp
next
  case (J_have st)
  then show ?thesis by (intro exI [of _ "Je_publish True 0"]) simp
next
  case (J_published st p)
  then show ?thesis by (intro exI [of _ "Je_controller_status"]) simp
next
  case (J_update st p cs)
  then show ?thesis by (intro exI [of _ "Je_update 0"]) simp
qed (use assms in simp_all)

subsection \<open>Properties\<close>

text \<open>C18: Whatever commands arrive and however the endpoint's threads interleave, every joint state it publishes either
  reports an enabled controller or joints that are all in the disabled mode, without velocity and effort.\<close>

theorem published_joint_states_safe:
  assumes "run_ops joint_step ops (JointControllerEndpoint now config cx) = Some e" "m \<in> set (je_published e)"
    and "pt_availability m \<noteq> ACTUATOR_AVAILABILITY_ENABLED" "j \<in> set (pt_joints m)"
  shows "pj_mode j = JOINT_CONTROL_MODE_DISABLED \<and> pj_velocity_radps j = 0 \<and> pj_effort_nm j = 0"
  using joint_reachable [OF assms(1)] assms(2-4) by (auto simp: joint_inv_def message_safe_def list_all_iff)

text \<open>A joint endpoint that was stopped, or never started, publishes nothing and keeps its joints off, whatever
  commands its subscriber still receives, until it is started again.\<close>

theorem stopped_joint_endpoint_stays_off:
  assumes "run_ops joint_step ops (JointControllerEndpoint now config cx) = Some e"
    and "je_worker e = J_no_thread" "je_phase e = J_idle"
    and "list_all (\<lambda>op. \<not> starting_op op) ops'" "run_ops joint_step ops' e = Some e'"
  shows "je_published e' = je_published e \<and> \<not> k_running (je_controller e') \<and> \<not> k_enabled (je_controller e') \<and>
    (\<forall>st\<in>set (k_states (je_controller e')). js_mode st = kDisabled \<and> js_velocity st = 0 \<and> js_effort st = 0)"
proof -
  have un: "unstarted e' \<and> je_published e' = je_published e"
    using unstarted_run [of e ops' e'] assms(2-5) by (simp add: unstarted_def)
  have "joint_inv e'"
    using joint_ep.run_inv [of e ops' e'] joint_reachable [OF assms(1)] assms(5) by (simp add: list_all_iff)
  with un show ?thesis by (auto simp: joint_inv_def unstarted_def off_inv_def outputs_off_def joint_off_def)
qed

text \<open>Stopping a joint endpoint returns: once its controller is stopped, its thread makes at most four more steps
  however many commands arrive meanwhile, and it is never stuck before its end.\<close>

theorem joint_endpoint_stop_returns:
  assumes "run_ops joint_step ops (JointControllerEndpoint now config cx) = Some e" "je_phase e = J_joining"
    and "list_all (\<lambda>op. joint_worker_op op \<or> subscriber_op op) ops'" "run_ops joint_step ops' e = Some e'"
  shows "length (filter joint_worker_op ops') \<le> 4 \<and>
    (je_worker e' \<in> {J_no_thread, J_exited} \<or> (\<exists>op. joint_worker_op op \<and> joint_step op e' \<noteq> None))"
proof -
  have "joint_rank (je_worker e) \<le> 4" by (simp add: joint_rank_def split: joint_worker.split)
  with joint_joining_run [OF joint_reachable [OF assms(1)] assms(2-4)] joint_progress [of e'] show ?thesis by auto
qed

subsection \<open>Witnesses\<close>

definition demo_context :: EndpointContext where
  "demo_context = \<lparr>ex_source_node = ''hw'', ex_source_instance = ''hw'', ex_robot_id = ''r1''\<rparr>"

definition demo_start :: "joint_op list" where
  "demo_start = [Je_Configure, Je_Start_controller 0 0, Je_Start_subscribe, Je_Start_thread, Je_Start_finish]"

definition demo_cycle :: "joint_op list" where
  "demo_cycle = [Je_loop True, Je_Step 0 0, Je_begin 0 0 0, Je_publish True 0]"

definition demo_stop :: "joint_op list" where
  "demo_stop = [Je_Stop_flag, Je_Stop_disable, Je_Stop_controller]"

lemmas endpoint_eval = JointControllerEndpoint_def je_Configure_def je_Start_controller_def je_Start_subscribe_def
  je_Start_thread_def je_Start_finish_def je_loop_def je_Step_def je_begin_def je_publish_def je_Stop_flag_def
  je_Stop_disable_def je_Stop_controller_def je_Stop_finish_def Start_def Step_def ReadState_begin_def take_sample_def
  Disable_def Stop_def MockJointController_def BuildOptions_def demo_arm_config_def bump_def ApplySafeOutputLocked_def
  AvailabilityLocked_def ToProto_JointState_def Let_def

lemma demo_published:
  "\<exists>e. run_ops joint_step (demo_start @ demo_cycle) (JointControllerEndpoint 0 demo_arm_config demo_context) = Some e \<and>
     (\<exists>m\<in>set (je_published e). pt_availability m = ACTUATOR_AVAILABILITY_DISABLED \<and> (\<exists>j. j \<in> set (pt_joints m)))"
  by (simp add: demo_start_def demo_cycle_def endpoint_eval init_state_def DefaultJoints_def, blast)

theorem published_joint_states_safe_witness:
  "\<exists>e m j. run_ops joint_step (demo_start @ demo_cycle) (JointControllerEndpoint 0 demo_arm_config demo_context) = Some e \<and>
     m \<in> set (je_published e) \<and> j \<in> set (pt_joints m) \<and> pj_effort_nm j = 0"
proof -
  obtain e m j where e: "run_ops joint_step (demo_start @ demo_cycle) (JointControllerEndpoint 0 demo_arm_config demo_context) = Some e"
    "m \<in> set (je_published e)" "pt_availability m = ACTUATOR_AVAILABILITY_DISABLED" "j \<in> set (pt_joints m)"
    using demo_published by blast
  from published_joint_states_safe [OF e(1,2) _ e(4)] e show ?thesis by auto
qed

definition demo_proto_command :: ProtoJointCommand where
  "demo_proto_command = \<lparr>pc_controller_id = [], pc_command_time_monotonic_ns = 0, pc_sequence = 0, pc_enable = True,
     pc_disable = False, pc_emergency_stop = False, pc_clear_fault = False, pc_joints = []\<rparr>"

lemma demo_stopped:
  "\<exists>e. run_ops joint_step (demo_start @ demo_stop @ [Je_loop True, Je_Stop_finish])
       (JointControllerEndpoint 0 demo_arm_config demo_context) = Some e \<and>
     je_worker e = J_no_thread \<and> je_phase e = J_idle \<and> je_subscribed e"
  by (simp add: demo_start_def demo_stop_def endpoint_eval)

theorem stopped_joint_endpoint_stays_off_witness:
  "\<exists>e e'. run_ops joint_step (demo_start @ demo_stop @ [Je_loop True, Je_Stop_finish])
       (JointControllerEndpoint 0 demo_arm_config demo_context) = Some e \<and>
     run_ops joint_step [Je_command demo_proto_command 7] e = Some e' \<and> \<not> k_enabled (je_controller e')"
proof -
  obtain e where e: "run_ops joint_step (demo_start @ demo_stop @ [Je_loop True, Je_Stop_finish])
      (JointControllerEndpoint 0 demo_arm_config demo_context) = Some e" "je_worker e = J_no_thread" "je_phase e = J_idle"
    "je_subscribed e"
    using demo_stopped by blast
  then have "run_ops joint_step [Je_command demo_proto_command 7] e = Some (HandleCommand_begin demo_proto_command 7 e)" by simp
  from stopped_joint_endpoint_stays_off [OF e(1-3) _ this] e(1) this show ?thesis by auto
qed

lemma demo_joining:
  "\<exists>e. run_ops joint_step (demo_start @ [Je_loop True] @ demo_stop)
       (JointControllerEndpoint 0 demo_arm_config demo_context) = Some e \<and> je_phase e = J_joining \<and> je_worker e = J_in_loop"
  by (simp add: demo_start_def demo_stop_def endpoint_eval)

theorem joint_endpoint_stop_returns_witness:
  "\<exists>e. run_ops joint_step (demo_start @ [Je_loop True] @ demo_stop)
       (JointControllerEndpoint 0 demo_arm_config demo_context) = Some e \<and> (\<exists>op. joint_worker_op op \<and> joint_step op e \<noteq> None)"
proof -
  obtain e where e: "run_ops joint_step (demo_start @ [Je_loop True] @ demo_stop)
      (JointControllerEndpoint 0 demo_arm_config demo_context) = Some e" "je_phase e = J_joining" "je_worker e = J_in_loop"
    using demo_joining by blast
  from joint_endpoint_stop_returns [OF e(1,2), of "[]" e] e show ?thesis by simp
qed

end
