(* ===== verification/Hardware_App.thy ===== *)
theory Hardware_App
  imports Joint_Endpoint Device_Registry Health_Registry
begin

section \<open>The hardware service (services/hardware\_interface/src/hardware\_interface\_app.cpp)\<close>

text \<open>
  \<^verbatim>\<open>HardwareInterfaceApp\<close> owns the endpoints: it builds and starts them from the configuration, reports
  on them every second and stops them. Its pointers to \<^verbatim>\<open>HardwareEndpoint\<close> are values of \<open>endpoint\<close>, and a
  virtual call is a case distinction. The endpoints share no state, so a whole \<^verbatim>\<open>Start\<close> or \<^verbatim>\<open>Stop\<close>
  of one is a single operation here; their inner interleavings are in the theories of the endpoints.
\<close>

subsection \<open>Endpoints\<close>

datatype endpoint =
    Imu_endpoint imu_endpoint | Temperature_endpoint temperature_endpoint | Gnss_endpoint gnss_endpoint
  | Joint_endpoint joint_endpoint

fun ep_config :: "endpoint \<Rightarrow> EndpointConfig" where
  "ep_config (Imu_endpoint e) = se_config e"
| "ep_config (Temperature_endpoint e) = se_config e"
| "ep_config (Gnss_endpoint e) = se_config e"
| "ep_config (Joint_endpoint e) = je_config e"

definition ep_Id :: "endpoint \<Rightarrow> string" where
  "ep_Id e = ec_endpoint_id (ep_config e)"

fun ep_Status :: "endpoint \<Rightarrow> EndpointStatus" where
  "ep_Status (Imu_endpoint e) = se_status e"
| "ep_Status (Temperature_endpoint e) = se_status e"
| "ep_Status (Gnss_endpoint e) = se_status e"
| "ep_Status (Joint_endpoint e) = je_status e"

fun ep_Configure :: "endpoint \<Rightarrow> bool \<times> endpoint" where
  "ep_Configure (Imu_endpoint e) = map_prod id Imu_endpoint (se_Configure e)"
| "ep_Configure (Temperature_endpoint e) = map_prod id Temperature_endpoint (se_Configure e)"
| "ep_Configure (Gnss_endpoint e) = map_prod id Gnss_endpoint (se_Configure e)"
| "ep_Configure (Joint_endpoint e) = map_prod id Joint_endpoint (je_Configure e)"

definition se_Start :: "('s, 'x, 'm) driver \<Rightarrow> int \<Rightarrow> ('s, 'x, 'm) sensor_endpoint \<Rightarrow> bool \<times> ('s, 'x, 'm) sensor_endpoint" where
  "se_Start D now e = (case se_Start_begin D now e of (ok, e) \<Rightarrow> if ok then (True, se_Start_finish e) else (False, e))"

definition je_Start :: "int \<Rightarrow> joint_endpoint \<Rightarrow> bool \<times> joint_endpoint" where
  "je_Start now e = (case je_Start_controller now now e of
     (ok, e) \<Rightarrow> if ok then (True, je_Start_finish (je_Start_thread (je_Start_subscribe e))) else (False, e))"

fun ep_Start :: "(float64 \<Rightarrow> float64) \<Rightarrow> int \<Rightarrow> endpoint \<Rightarrow> bool \<times> endpoint" where
  "ep_Start F now (Imu_endpoint e) = map_prod id Imu_endpoint (se_Start imu_driver now e)"
| "ep_Start F now (Temperature_endpoint e) = map_prod id Temperature_endpoint (se_Start (temperature_driver F) now e)"
| "ep_Start F now (Gnss_endpoint e) = map_prod id Gnss_endpoint (se_Start gnss_driver now e)"
| "ep_Start F now (Joint_endpoint e) = map_prod id Joint_endpoint (je_Start now e)"

text \<open>
  What the environment does while \<^verbatim>\<open>Stop\<close> joins the thread: the clocks and the outcome of a publication.
  The thread takes one step after the other; two suffice for a sensor, four for a joint controller
  (\<open>join_ends\<close>, \<open>joint_joining_run\<close>).
\<close>

record drain =
  dn_now :: int
  dn_ns :: u64
  dn_published :: bool

definition se_worker_step :: "('s, 'x, 'm) driver \<Rightarrow> drain \<Rightarrow> ('s, 'x, 'm) sensor_endpoint \<Rightarrow> ('s, 'x, 'm) sensor_endpoint" where
  "se_worker_step D dn e =
     (case se_worker e of
        At_loop \<Rightarrow> se_loop True e
      | In_loop \<Rightarrow> se_begin D (dn_now dn) (dn_ns dn) (dn_now dn) e
      | Reading \<Rightarrow> se_read D (dn_now dn) (dn_ns dn) (dn_now dn) e
      | Have_sample x \<Rightarrow> se_publish D (dn_published dn) (dn_ns dn) (dn_ns dn) x e
      | _ \<Rightarrow> e)"

definition se_Stop :: "('s, 'x, 'm) driver \<Rightarrow> drain \<Rightarrow> ('s, 'x, 'm) sensor_endpoint \<Rightarrow> ('s, 'x, 'm) sensor_endpoint" where
  "se_Stop D dn e = se_Stop_finish ((se_worker_step D dn ^^ 2) (se_Stop_sensor D (se_Stop_flag e)))"

definition je_worker_step :: "drain \<Rightarrow> joint_endpoint \<Rightarrow> joint_endpoint" where
  "je_worker_step dn e =
     (case je_worker e of
        J_at_loop \<Rightarrow> je_loop True e
      | J_in_loop \<Rightarrow> je_Step (dn_now dn) (dn_ns dn) e
      | J_stepped \<Rightarrow> je_begin (dn_now dn) (dn_ns dn) (dn_now dn) e
      | J_reading \<Rightarrow> je_read (dn_now dn) (dn_ns dn) (dn_now dn) e
      | J_sleeping \<Rightarrow> je_wake e
      | J_have st \<Rightarrow> je_publish (dn_published dn) (dn_ns dn) st e
      | J_published st p \<Rightarrow> je_controller_status st p e
      | J_update st p cs \<Rightarrow> je_update (dn_ns dn) st p cs e
      | _ \<Rightarrow> e)"

definition je_Stop :: "drain \<Rightarrow> joint_endpoint \<Rightarrow> joint_endpoint" where
  "je_Stop dn e = je_Stop_finish ((je_worker_step dn ^^ 4) (je_Stop_controller (je_Stop_disable (je_Stop_flag e))))"

fun ep_Stop :: "(float64 \<Rightarrow> float64) \<Rightarrow> drain \<Rightarrow> endpoint \<Rightarrow> endpoint" where
  "ep_Stop F dn (Imu_endpoint e) = Imu_endpoint (se_Stop imu_driver dn e)"
| "ep_Stop F dn (Temperature_endpoint e) = Temperature_endpoint (se_Stop (temperature_driver F) dn e)"
| "ep_Stop F dn (Gnss_endpoint e) = Gnss_endpoint (se_Stop gnss_driver dn e)"
| "ep_Stop F dn (Joint_endpoint e) = Joint_endpoint (je_Stop dn e)"

subsection \<open>The application\<close>

record app_options =
  ao_robot_id :: string
  ao_node_name :: string
  ao_instance_id :: string

record app =
  ap_config :: HardwareInterfaceConfig
  ap_options :: app_options
  ap_endpoints :: "endpoint list"
  ap_devices :: "string list"
  ap_start_time :: int
  ap_start_time_unix_ns :: u64
  ap_started :: bool
  ap_sequence :: u64
  ap_info_sequence :: u64

definition HardwareInterfaceApp :: "HardwareInterfaceConfig \<Rightarrow> app_options \<Rightarrow> int \<Rightarrow> u64 \<Rightarrow> app" where
  "HardwareInterfaceApp config options now unix_ns =
     \<lparr>ap_config = config, ap_options = options, ap_endpoints = [], ap_devices = [], ap_start_time = now,
      ap_start_time_unix_ns = unix_ns, ap_started = False, ap_sequence = 0, ap_info_sequence = 0\<rparr>"

definition FindEndpointConfig :: "app \<Rightarrow> string \<Rightarrow> EndpointConfig option" where
  "FindEndpointConfig s endpoint_id = List.find (\<lambda>c. ec_endpoint_id c = endpoint_id) (hc_endpoints (ap_config s))"

subsection \<open>Start and stop\<close>

definition make_endpoint :: "hw_build \<Rightarrow> int \<Rightarrow> EndpointContext \<Rightarrow> EndpointConfig \<Rightarrow> endpoint option" where
  "make_endpoint B now cx c =
     (if ec_type c = ''imu'' then if with_imu B then Some (Imu_endpoint (ImuEndpoint c cx)) else None
      else if ec_type c = ''temperature'' then
        if with_temperature B then Some (Temperature_endpoint (TemperatureEndpoint c cx)) else None
      else if ec_type c = ''gnss'' then if with_gnss B then Some (Gnss_endpoint (GnssEndpoint c cx)) else None
      else if ec_type c = ''joint_controller'' then
        if with_joint_controller B then Some (Joint_endpoint (JointControllerEndpoint now c cx)) else None
      else None)"

fun BuildEndpoints_loop :: "hw_build \<Rightarrow> int \<Rightarrow> EndpointContext \<Rightarrow> EndpointConfig list \<Rightarrow> endpoint list \<Rightarrow> bool \<times> endpoint list" where
  "BuildEndpoints_loop B now cx [] es = (True, es)"
| "BuildEndpoints_loop B now cx (c # cs) es =
     (if \<not> ec_enabled c then BuildEndpoints_loop B now cx cs es
      else case make_endpoint B now cx c of
          Some e \<Rightarrow> BuildEndpoints_loop B now cx cs (es @ [e])
        | None \<Rightarrow> if ec_critical c then (False, es) else BuildEndpoints_loop B now cx cs es)"

definition BuildEndpoints :: "hw_build \<Rightarrow> int \<Rightarrow> app \<Rightarrow> bool \<times> app" where
  "BuildEndpoints B now s =
     (let cx = \<lparr>ex_source_node = ao_node_name (ap_options s), ex_source_instance = ao_instance_id (ap_options s),
                ex_robot_id = ao_robot_id (ap_options s)\<rparr>;
          (ok, es) = BuildEndpoints_loop B now cx (hc_endpoints (ap_config s)) (ap_endpoints s);
          s = s\<lparr>ap_endpoints := es\<rparr> in
      if \<not> ok then (False, s)
      else if list_ex ec_enabled (hc_endpoints (ap_config s)) \<and> es = [] then (False, s) else (True, s))"

text \<open>The loop over the endpoints in \<^verbatim>\<open>Start\<close>: a critical endpoint that fails ends it.\<close>

fun start_endpoints :: "(float64 \<Rightarrow> float64) \<Rightarrow> int \<Rightarrow> (string \<Rightarrow> EndpointConfig option) \<Rightarrow> endpoint list \<Rightarrow> bool \<times> endpoint list" where
  "start_endpoints F now find_config [] = (True, [])"
| "start_endpoints F now find_config (e # es) =
     (let critical = (case find_config (ep_Id e) of None \<Rightarrow> False | Some c \<Rightarrow> ec_critical c) in
      case ep_Configure e of (configured, e1) \<Rightarrow>
        let (ok, e2) = (if configured then ep_Start F now e1 else (False, e1)) in
        if \<not> ok \<and> critical then (False, e2 # es)
        else case start_endpoints F now find_config es of (r, es') \<Rightarrow> (r, e2 # es'))"

definition app_Start :: "hw_build \<Rightarrow> (float64 \<Rightarrow> float64) \<Rightarrow> int \<Rightarrow> app \<Rightarrow> bool \<times> app" where
  "app_Start B F now s =
     (case BuildEndpoints B now s of (built, s) \<Rightarrow>
        let s = s\<lparr>ap_started := True\<rparr> in
        if \<not> built then (False, s)
        else case start_endpoints F now (FindEndpointConfig s) (ap_endpoints s) of (ok, es) \<Rightarrow>
          let s = s\<lparr>ap_endpoints := es\<rparr> in
          if \<not> ok then (False, s)
          else (True, s\<lparr>ap_devices := filter (\<lambda>i. FindEndpointConfig s i \<noteq> None) (map ep_Id es)\<rparr>))"

definition app_Stop :: "(float64 \<Rightarrow> float64) \<Rightarrow> (string \<Rightarrow> drain) \<Rightarrow> app \<Rightarrow> app" where
  "app_Stop F dn s = s\<lparr>ap_endpoints := map (\<lambda>e. ep_Stop F (dn (ep_Id e)) e) (ap_endpoints s)\<rparr>"

subsection \<open>Reports\<close>

definition app_FillHeader :: "app_options \<Rightarrow> u64 \<Rightarrow> u64 \<Rightarrow> Header" where
  "app_FillHeader options sequence t = empty_header
     \<lparr>h_source_node := ao_node_name options, h_source_instance := ao_instance_id options,
      h_robot_id := ao_robot_id options, h_sequence := sequence, h_timestamp_unix_ns := t\<rparr>"

definition app_DiagnosticLevel :: "EndpointStatus \<Rightarrow> DiagnosticLevel" where
  "app_DiagnosticLevel st =
     (if es_state st = kEndpointError then DIAGNOSTIC_LEVEL_ERROR
      else if es_error_count st > 0 \<or> es_timeout_count st > 0 then DIAGNOSTIC_LEVEL_WARNING
      else if es_state st = kRunning then DIAGNOSTIC_LEVEL_OK else DIAGNOSTIC_LEVEL_STALE)"

definition count_metric :: "string \<Rightarrow> u64 \<Rightarrow> Metric" where
  "count_metric name n = \<lparr>mt_name = name, mt_value = uint n, mt_unit = ''count''\<rparr>"

definition DeviceInfoTopic :: "string \<Rightarrow> string" where
  "DeviceInfoTopic endpoint_id = ''/devices/'' @ endpoint_id @ ''/info''"

definition DeviceStateTopic :: "string \<Rightarrow> string" where
  "DeviceStateTopic endpoint_id = ''/devices/'' @ endpoint_id @ ''/state''"

definition MessageTypeNameForEndpoint :: "string \<Rightarrow> string" where
  "MessageTypeNameForEndpoint type =
     (if type = ''imu'' then ''openember.msgs.sensor.v1.ImuSample''
      else if type = ''temperature'' then ''openember.msgs.sensor.v1.TemperatureSample''
      else if type = ''gnss'' then ''openember.msgs.sensor.v1.GnssFix''
      else if type = ''joint_controller'' then ''openember.msgs.actuator.v1.JointState''
      else ''openember.msgs.sensor.v1.SensorStatus'')"

definition CommandTypeNameForEndpoint :: "string \<Rightarrow> string" where
  "CommandTypeNameForEndpoint type = (if type = ''joint_controller'' then ''openember.msgs.actuator.v1.JointCommand'' else [])"

definition ToDeviceCategory :: "EndpointConfig \<Rightarrow> DeviceCategory" where
  "ToDeviceCategory c =
     (if ec_type c = ''imu'' \<or> ec_type c = ''temperature'' \<or> ec_type c = ''gnss'' then DEVICE_CATEGORY_SENSOR
      else if ec_type c = ''joint_controller'' then DEVICE_CATEGORY_ACTUATOR else DEVICE_CATEGORY_UNSPECIFIED)"

fun ToDeviceAvailability :: "EndpointState \<Rightarrow> Device_Registry.DeviceAvailability" where
  "ToDeviceAvailability kCreated = DEVICE_AVAILABILITY_OFFLINE"
| "ToDeviceAvailability kConfigured = DEVICE_AVAILABILITY_OFFLINE"
| "ToDeviceAvailability kRunning = DEVICE_AVAILABILITY_ONLINE"
| "ToDeviceAvailability kStopping = DEVICE_AVAILABILITY_OFFLINE"
| "ToDeviceAvailability kStopped = DEVICE_AVAILABILITY_OFFLINE"
| "ToDeviceAvailability kEndpointError = DEVICE_AVAILABILITY_ERROR"

definition ToHealthState :: "EndpointStatus \<Rightarrow> Messages.HealthState" where
  "ToHealthState st =
     (if es_state st = kEndpointError then HEALTH_STATE_ERROR
      else if es_error_count st > 0 then HEALTH_STATE_WARNING
      else if es_state st = kRunning then HEALTH_STATE_OK else HEALTH_STATE_STALE)"

definition endpoint_topics :: "EndpointConfig \<Rightarrow> NodeInfo \<Rightarrow> NodeInfo" where
  "endpoint_topics c info =
     AddTopic (DeviceStateTopic (ec_endpoint_id c)) ''openember.msgs.device.v1.DeviceState'' ENDPOINT_DIRECTION_PUBLISHER
     (AddTopic (DeviceInfoTopic (ec_endpoint_id c)) ''openember.msgs.device.v1.DeviceInfo'' ENDPOINT_DIRECTION_PUBLISHER
     ((if ec_command_topic c \<noteq> [] then AddTopic (ec_command_topic c) (CommandTypeNameForEndpoint (ec_type c)) ENDPOINT_DIRECTION_SUBSCRIBER
       else id)
     (AddTopic (ec_topic c) (MessageTypeNameForEndpoint (ec_type c)) ENDPOINT_DIRECTION_PUBLISHER info)))"

fun all_endpoint_topics :: "app \<Rightarrow> endpoint list \<Rightarrow> NodeInfo \<Rightarrow> NodeInfo" where
  "all_endpoint_topics s [] info = info"
| "all_endpoint_topics s (e # es) info = all_endpoint_topics s es
     (case FindEndpointConfig s (es_endpoint_id (ep_Status e)) of None \<Rightarrow> info | Some c \<Rightarrow> endpoint_topics c info)"

definition app_BuildNodeInfo :: "u32 \<Rightarrow> u64 \<Rightarrow> u64 \<Rightarrow> app \<Rightarrow> NodeInfo" where
  "app_BuildNodeInfo process_id t sequence s =
     AddCapability ''mock_hardware_endpoints'' (AddCapability ''hardware_interface'' (AddLabel ''role'' ''service''
     (all_endpoint_topics s (ap_endpoints s)
     (AddTopic ''/diagnostics/hardware_interface'' ''openember.msgs.diagnostics.v1.DiagnosticArray'' ENDPOINT_DIRECTION_PUBLISHER
     (AddTopic ''/nodes/hardware_interface/heartbeat'' ''openember.msgs.node.v1.NodeHeartbeat'' ENDPOINT_DIRECTION_PUBLISHER
     (AddTopic ''/nodes/hardware_interface/info'' ''openember.msgs.node.v1.NodeInfo'' ENDPOINT_DIRECTION_PUBLISHER
     (default_NodeInfo\<lparr>ni_header := app_FillHeader (ap_options s) sequence t, ni_node_name := ao_node_name (ap_options s),
        ni_instance_id := ao_instance_id (ap_options s), ni_process_name := ''openember_hardware_interface'',
        ni_process_id := process_id, ni_kind := NODE_KIND_SERVICE, ni_version := ''0.1.0'',
        ni_start_time_unix_ns := ap_start_time_unix_ns s\<rparr>)))))))"

definition total_errors :: "endpoint list \<Rightarrow> u64" where
  "total_errors es = sum_list (map (\<lambda>e. es_error_count (ep_Status e)) es)"

definition app_BuildHeartbeat :: "u64 \<Rightarrow> int \<Rightarrow> u64 \<Rightarrow> app \<Rightarrow> NodeHeartbeat" where
  "app_BuildHeartbeat t now sequence s =
     (let sts = map ep_Status (ap_endpoints s);
          any_error = list_ex (\<lambda>st. es_state st = kEndpointError) sts;
          any_warning = list_ex (\<lambda>st. es_error_count st > 0 \<or> es_timeout_count st > 0) sts in
      \<lparr>hb_header = app_FillHeader (ap_options s) sequence t, hb_node_name = ao_node_name (ap_options s),
       hb_instance_id = ao_instance_id (ap_options s), hb_lifecycle_state = LIFECYCLE_STATE_ACTIVE,
       hb_health = (if any_error then HEALTH_STATE_ERROR else if any_warning then HEALTH_STATE_WARNING else HEALTH_STATE_OK),
       hb_uptime_ms = of_int ((now - ap_start_time s) div 1000000), hb_error_count = ucast (total_errors (ap_endpoints s)),
       hb_status_message = ''hardware interface running'',
       hb_metrics = [\<lparr>mt_name = ''hardware_interface.endpoints'', mt_value = int (length (ap_endpoints s)), mt_unit = ''count''\<rparr>,
                     count_metric ''hardware_interface.errors'' (total_errors (ap_endpoints s))]\<rparr>)"

definition status_metrics :: "EndpointStatus \<Rightarrow> Metric list" where
  "status_metrics st = [count_metric ''sample_count'' (es_sample_count st), count_metric ''publish_count'' (es_publish_count st),
     count_metric ''error_count'' (es_error_count st), count_metric ''command_count'' (es_command_count st),
     count_metric ''timeout_count'' (es_timeout_count st)]"

definition endpoint_diagnostic :: "app_options \<Rightarrow> u64 \<Rightarrow> EndpointStatus \<Rightarrow> DiagnosticStatus" where
  "endpoint_diagnostic options t st =
     \<lparr>dg_header = app_FillHeader options (es_sequence st) t, dg_name = ''hardware_interface.'' @ es_endpoint_id st,
      dg_node_name = ao_node_name options, dg_hardware_id = es_device_id st, dg_level = app_DiagnosticLevel st,
      dg_message = es_message st,
      dg_values = [(''state'', EndpointState_ToString (es_state st)), (''driver'', es_driver st), (''mode'', es_mode st)],
      dg_metrics = status_metrics st\<rparr>"

definition BuildDiagnostics :: "u64 \<Rightarrow> u64 \<Rightarrow> app \<Rightarrow> DiagnosticArray" where
  "BuildDiagnostics t sequence s =
     \<lparr>da_header = app_FillHeader (ap_options s) sequence t,
      da_status = map (\<lambda>e. endpoint_diagnostic (ap_options s) t (ep_Status e)) (ap_endpoints s)\<rparr>"

definition BuildDeviceInfo :: "app_options \<Rightarrow> EndpointConfig \<Rightarrow> EndpointStatus \<Rightarrow> u64 \<Rightarrow> u64 \<Rightarrow> DeviceInfo" where
  "BuildDeviceInfo options c st t sequence =
     \<lparr>di_header = app_FillHeader options sequence t, di_device_id = ec_endpoint_id c, di_name = ec_endpoint_id c,
      di_category = ToDeviceCategory c, di_driver = ec_driver c, di_path = ec_mode c @ ''://'' @ ec_endpoint_id c,
      di_bus = ec_mode c, di_capabilities = [''hardware_endpoint'', ec_type c],
      di_labels = [(''endpoint_type'', ec_type c), (''endpoint_state'', EndpointState_ToString (es_state st)), (''mode'', ec_mode c)]\<rparr>"

definition BuildDeviceState :: "app_options \<Rightarrow> EndpointConfig \<Rightarrow> EndpointStatus \<Rightarrow> u64 \<Rightarrow> u64 \<Rightarrow> DeviceState" where
  "BuildDeviceState options c st t sequence =
     \<lparr>ds_header = app_FillHeader options sequence t, ds_device_id = ec_endpoint_id c,
      ds_availability = ToDeviceAvailability (es_state st), ds_health = ToHealthState st, ds_message = es_message st,
      ds_metrics = status_metrics st,
      ds_properties = [(''endpoint_type'', ec_type c), (''endpoint_state'', EndpointState_ToString (es_state st))] @
        (if es_last_error st \<noteq> [] then [(''last_error'', es_last_error st)] else [])\<rparr>"

datatype app_message =
    Msg_node_info NodeInfo | Msg_heartbeat NodeHeartbeat | Msg_diagnostics DiagnosticArray
  | Msg_device_info string DeviceInfo | Msg_device_state string DeviceState

definition device_messages :: "u64 \<Rightarrow> app \<Rightarrow> endpoint \<Rightarrow> app_message list" where
  "device_messages t s e =
     (case FindEndpointConfig s (ep_Id e) of
        None \<Rightarrow> []
      | Some c \<Rightarrow>
          if ep_Id e \<in> set (ap_devices s) then
            [Msg_device_info (DeviceInfoTopic (ep_Id e)) (BuildDeviceInfo (ap_options s) c (ep_Status e) t (ap_sequence s)),
             Msg_device_state (DeviceStateTopic (ep_Id e)) (BuildDeviceState (ap_options s) c (ep_Status e) t (ap_sequence s))]
          else [])"

text \<open>One round of \<^verbatim>\<open>Spin\<close> and what it hands to its publishers.\<close>

definition spin_round :: "u32 \<Rightarrow> u64 \<Rightarrow> int \<Rightarrow> app \<Rightarrow> app_message list \<times> app" where
  "spin_round process_id t now s =
     (let announce = ap_sequence s mod 10 = 0 in
      ((if announce then [Msg_node_info (app_BuildNodeInfo process_id t (ap_info_sequence s) s)] else []) @
       [Msg_heartbeat (app_BuildHeartbeat t now (ap_sequence s) s), Msg_diagnostics (BuildDiagnostics t (ap_sequence s) s)] @
       concat (map (device_messages t s) (ap_endpoints s)),
       s\<lparr>ap_sequence := ap_sequence s + 1,
         ap_info_sequence := (if announce then ap_info_sequence s + 1 else ap_info_sequence s)\<rparr>))"

subsection \<open>The program's entry (services/hardware\_interface/main.cpp)\<close>

record hw_CliOptions =
  cl_config_path :: string
  cl_show_help :: bool

fun hw_ParseArgs :: "string list \<Rightarrow> hw_CliOptions \<Rightarrow> bool \<times> hw_CliOptions" where
  "hw_ParseArgs [] options = (True, options)"
| "hw_ParseArgs (arg # args) options =
     (if arg = ''-h'' \<or> arg = ''--help'' then (True, options\<lparr>cl_show_help := True\<rparr>)
      else if arg = ''--config'' then
        (case args of [] \<Rightarrow> (False, options) | path # args' \<Rightarrow> hw_ParseArgs args' (options\<lparr>cl_config_path := path\<rparr>))
      else (False, options))"

text \<open>\<^verbatim>\<open>main\<close> up to the main loop: the exit code (\<open>Inl\<close>) or the running application.\<close>

definition hw_main :: "'y hw_yaml \<Rightarrow> hw_build \<Rightarrow> (float64 \<Rightarrow> float64) \<Rightarrow> (string \<Rightarrow> drain) \<Rightarrow> int \<Rightarrow> u64 \<Rightarrow> string list \<Rightarrow> (int \<times> app option) + app" where
  "hw_main Y B F dn now unix_ns args =
     (case hw_ParseArgs args \<lparr>cl_config_path = [], cl_show_help = False\<rparr> of (parsed, cli) \<Rightarrow>
        if \<not> parsed then Inl (2, None)
        else if cl_show_help cli then Inl (0, None)
        else case (if cl_config_path cli \<noteq> [] then LoadConfigFromFile Y (cl_config_path cli) else Inr (DefaultMockConfig B)) of
            Inl _ \<Rightarrow> Inl (2, None)
          | Inr config \<Rightarrow>
              (case app_Start B F now (HardwareInterfaceApp config
                   \<lparr>ao_robot_id = hc_robot_id config, ao_node_name = hc_node_name config, ao_instance_id = hc_instance_id config\<rparr>
                   now unix_ns) of
                 (started, s) \<Rightarrow> if started then Inr s else Inl (1, Some (app_Stop F dn s))))"

subsection \<open>Runs of the program\<close>

text \<open>The steps of the endpoints' own threads, and of the subscriber of a joint endpoint.\<close>

fun ep_step :: "(float64 \<Rightarrow> float64) \<Rightarrow> endpoint_op + joint_op \<Rightarrow> endpoint \<Rightarrow> endpoint option" where
  "ep_step F (Inl c) (Imu_endpoint e) = (if worker_op c then map_option Imu_endpoint (imu_step c e) else None)"
| "ep_step F (Inl c) (Temperature_endpoint e) = (if worker_op c then map_option Temperature_endpoint (temperature_step F c e) else None)"
| "ep_step F (Inl c) (Gnss_endpoint e) = (if worker_op c then map_option Gnss_endpoint (gnss_step c e) else None)"
| "ep_step F (Inr c) (Joint_endpoint e) = (if joint_worker_op c \<or> subscriber_op c then map_option Joint_endpoint (joint_step c e) else None)"
| "ep_step F _ _ = None"

datatype app_op =
    App_Start int | App_Stop "string \<Rightarrow> drain" | App_round u32 u64 int | App_endpoint nat "endpoint_op + joint_op"

fun app_step :: "hw_build \<Rightarrow> (float64 \<Rightarrow> float64) \<Rightarrow> app_op \<Rightarrow> app \<Rightarrow> app option" where
  "app_step B F (App_Start now) s = (if ap_started s then None else Some (snd (app_Start B F now s)))"
| "app_step B F (App_Stop dn) s = Some (app_Stop F dn s)"
| "app_step B F (App_round p t now) s = Some (snd (spin_round p t now s))"
| "app_step B F (App_endpoint i c) s =
     (if i < length (ap_endpoints s)
      then map_option (\<lambda>e. s\<lparr>ap_endpoints := (ap_endpoints s)[i := e]\<rparr>) (ep_step F c (ap_endpoints s ! i)) else None)"

subsection \<open>Stopping an endpoint\<close>

context sensor_driver
begin

lemma worker_step_run:
  assumes "se_worker e \<noteq> No_thread" "se_worker e \<noteq> Exited"
  shows "\<exists>c. worker_op c \<and> se_step D c e = Some (se_worker_step D dn e)"
proof (cases "se_worker e")
  case At_loop
  then show ?thesis by (intro exI [of _ "Ep_loop True"]) (simp add: se_worker_step_def)
next
  case In_loop
  then show ?thesis by (intro exI [of _ "Ep_begin (dn_now dn) (dn_ns dn) (dn_now dn)"]) (simp add: se_worker_step_def)
next
  case Reading
  then show ?thesis by (intro exI [of _ "Ep_read (dn_now dn) (dn_ns dn) (dn_now dn)"]) (simp add: se_worker_step_def)
next
  case (Have_sample x)
  then show ?thesis by (intro exI [of _ "Ep_publish (dn_published dn) (dn_ns dn) (dn_ns dn)"]) (simp add: se_worker_step_def)
qed (use assms in simp_all)

lemma rank_0: "rank w = 0 \<longleftrightarrow> w = No_thread \<or> w = Exited"
  by (simp add: rank_def split: worker.split)

lemma drained:
  "endpoint_inv e \<Longrightarrow> se_phase e = Joining \<Longrightarrow> rank (se_worker e) \<le> n \<Longrightarrow>
   \<exists>cs. run_ops (se_step D) cs e = Some ((se_worker_step D dn ^^ n) e) \<and> se_phase ((se_worker_step D dn ^^ n) e) = Joining \<and>
     rank (se_worker ((se_worker_step D dn ^^ n) e)) = 0"
proof (induction n arbitrary: e)
  case 0
  then show ?case by (intro exI [of _ "[]"]) simp
next
  case (Suc n)
  show ?case
  proof (cases "rank (se_worker e) = 0")
    case True
    then have "se_worker_step D dn e = e" by (auto simp: rank_0 se_worker_step_def)
    with Suc.IH [OF Suc.prems(1,2)] True show ?thesis by (simp add: funpow_swap1)
  next
    case False
    then obtain c where c: "worker_op c" "se_step D c e = Some (se_worker_step D dn e)"
      using worker_step_run [of e dn] by (auto simp: rank_0)
    note next_ = joining_step [OF Suc.prems(1,2) c] step_inv [OF Suc.prems(1) c(2)]
    with Suc.prems(3) Suc.IH [of "se_worker_step D dn e"] obtain cs where
      "run_ops (se_step D) cs (se_worker_step D dn e) = Some ((se_worker_step D dn ^^ n) (se_worker_step D dn e))"
      "se_phase ((se_worker_step D dn ^^ n) (se_worker_step D dn e)) = Joining"
      "rank (se_worker ((se_worker_step D dn ^^ n) (se_worker_step D dn e))) = 0"
      by (meson less_Suc_eq_le less_le_trans)
    with c(2) show ?thesis by (intro exI [of _ "c # cs"]) (simp add: funpow_swap1)
  qed
qed

text \<open>The sequential \<^verbatim>\<open>Stop\<close> is one of the runs of the endpoint, and this is where it ends.\<close>

lemma Stop_run:
  assumes "endpoint_inv e" "se_phase e = Idle"
  shows "\<exists>cs. run_ops (se_step D) cs e = Some (se_Stop D dn e)"
    and "endpoint_inv (se_Stop D dn e)" "se_phase (se_Stop D dn e) = Idle" "se_worker (se_Stop D dn e) = No_thread"
    and "\<not> running (se_sensor (se_Stop D dn e))" "\<not> se_running (se_Stop D dn e)"
    and "es_state (se_status (se_Stop D dn e)) \<in> {kStopped, kEndpointError}"
proof -
  define e2 where "e2 = se_Stop_sensor D (se_Stop_flag e)"
  define e3 where "e3 = (se_worker_step D dn ^^ 2) e2"
  have pre: "run_ops (se_step D) [Ep_Stop_flag, Ep_Stop_sensor] e = Some e2"
    using assms(2) by (simp add: e2_def se_Stop_flag_def)
  have e2: "endpoint_inv e2" "se_phase e2 = Joining" using run_endpoint_inv [OF assms(1) pre] by (simp_all add: e2_def se_Stop_sensor_def)
  have "rank (se_worker e2) \<le> 2" by (simp add: rank_def split: worker.split)
  with drained [OF e2, of 2 dn] obtain cs where cs: "run_ops (se_step D) cs e2 = Some e3" "se_phase e3 = Joining" "rank (se_worker e3) = 0"
    unfolding e3_def by blast
  have fin: "se_Stop D dn e = se_Stop_finish e3" by (simp add: se_Stop_def e3_def e2_def)
  have "run_ops (se_step D) ([Ep_Stop_flag, Ep_Stop_sensor] @ cs @ [Ep_Stop_finish]) e = Some (se_Stop D dn e)"
    unfolding run_ops_append pre using cs by (simp add: fin rank_0 [THEN iffD1] run_ops_append)
  then show "\<exists>cs. run_ops (se_step D) cs e = Some (se_Stop D dn e)" by blast
  show "endpoint_inv (se_Stop D dn e)" using run_endpoint_inv [OF assms(1) \<open>run_ops (se_step D) (_ @ _) e = _\<close>] .
  have "\<not> running (se_sensor e3) \<and> \<not> se_running e3"
    using run_endpoint_inv [OF e2(1) cs(1)] cs(2) by (auto simp: endpoint_inv_def)
  then show "\<not> running (se_sensor (se_Stop D dn e))" "\<not> se_running (se_Stop D dn e)"
    by (simp_all add: fin se_Stop_finish_def)
  show "se_phase (se_Stop D dn e) = Idle" "se_worker (se_Stop D dn e) = No_thread"
    by (simp_all add: fin se_Stop_finish_def)
  show "es_state (se_status (se_Stop D dn e)) \<in> {kStopped, kEndpointError}"
    by (simp add: fin se_Stop_finish_def status_stopped_def)
qed

lemma Start_keeps:
  assumes "endpoint_inv e" "se_phase e = Idle" "se_worker e = No_thread"
  shows "endpoint_inv (snd (se_Start D now e)) \<and> se_phase (snd (se_Start D now e)) = Idle \<and> fst (se_Start D now e) \<and>
    es_state (se_status (snd (se_Start D now e))) = kRunning"
proof -
  obtain s where s: "drv_start D now (se_sensor e) = (Inr (), s)" using start_ok by (metis prod.collapse)
  then have eq: "se_Start D now e = (True, se_Start_finish (snd (se_Start_begin D now e)))"
    by (simp add: se_Start_def se_Start_begin_def)
  have "run_ops (se_step D) [Ep_Start_begin now, Ep_Start_finish] e = Some (snd (se_Start D now e))"
    using assms(2,3) s by (simp add: eq se_Start_begin_def)
  from run_endpoint_inv [OF assms(1) this] show ?thesis
    by (simp add: eq se_Start_finish_def status_running_def)
qed

end

lemma joint_rank_0: "joint_rank w = 0 \<longleftrightarrow> w = J_no_thread \<or> w = J_exited"
  by (simp add: joint_rank_def split: joint_worker.split)

lemma je_worker_step_run:
  assumes "je_worker e \<noteq> J_no_thread" "je_worker e \<noteq> J_exited"
  shows "\<exists>c. joint_worker_op c \<and> joint_step c e = Some (je_worker_step dn e)"
proof (cases "je_worker e")
  case J_at_loop
  then show ?thesis by (intro exI [of _ "Je_loop True"]) (simp add: je_worker_step_def)
next
  case J_in_loop
  then show ?thesis by (intro exI [of _ "Je_Step (dn_now dn) (dn_ns dn)"]) (simp add: je_worker_step_def)
next
  case J_stepped
  then show ?thesis by (intro exI [of _ "Je_begin (dn_now dn) (dn_ns dn) (dn_now dn)"]) (simp add: je_worker_step_def)
next
  case J_reading
  then show ?thesis by (intro exI [of _ "Je_read (dn_now dn) (dn_ns dn) (dn_now dn)"]) (simp add: je_worker_step_def)
next
  case J_sleeping
  then show ?thesis by (intro exI [of _ "Je_wake"]) (simp add: je_worker_step_def)
next
  case (J_have st)
  then show ?thesis by (intro exI [of _ "Je_publish (dn_published dn) (dn_ns dn)"]) (simp add: je_worker_step_def)
next
  case (J_published st p)
  then show ?thesis by (intro exI [of _ "Je_controller_status"]) (simp add: je_worker_step_def)
next
  case (J_update st p cs)
  then show ?thesis by (intro exI [of _ "Je_update (dn_ns dn)"]) (simp add: je_worker_step_def)
qed (use assms in simp_all)

lemma joint_drained:
  "joint_inv e \<Longrightarrow> je_phase e = J_joining \<Longrightarrow> joint_rank (je_worker e) \<le> n \<Longrightarrow>
   \<exists>cs. run_ops joint_step cs e = Some ((je_worker_step dn ^^ n) e) \<and> je_phase ((je_worker_step dn ^^ n) e) = J_joining \<and>
     joint_rank (je_worker ((je_worker_step dn ^^ n) e)) = 0"
proof (induction n arbitrary: e)
  case 0
  then show ?case by (intro exI [of _ "[]"]) simp
next
  case (Suc n)
  show ?case
  proof (cases "joint_rank (je_worker e) = 0")
    case True
    then have "je_worker_step dn e = e" by (auto simp: joint_rank_0 je_worker_step_def)
    with Suc.IH [OF Suc.prems(1,2)] True show ?thesis by (simp add: funpow_swap1)
  next
    case False
    then obtain c where c: "joint_worker_op c" "joint_step c e = Some (je_worker_step dn e)"
      using je_worker_step_run [of e dn] by (auto simp: joint_rank_0)
    note next_ = joint_joining_step [OF Suc.prems(1,2) c] joint_step_inv [OF Suc.prems(1) c(2)]
    with Suc.prems(3) Suc.IH [of "je_worker_step dn e"] obtain cs where
      "run_ops joint_step cs (je_worker_step dn e) = Some ((je_worker_step dn ^^ n) (je_worker_step dn e))"
      "je_phase ((je_worker_step dn ^^ n) (je_worker_step dn e)) = J_joining"
      "joint_rank (je_worker ((je_worker_step dn ^^ n) (je_worker_step dn e))) = 0"
      by (meson less_Suc_eq_le less_le_trans)
    with c(2) show ?thesis by (intro exI [of _ "c # cs"]) (simp add: funpow_swap1)
  qed
qed

lemma run_joint_inv: "joint_inv e \<Longrightarrow> run_ops joint_step cs e = Some e' \<Longrightarrow> joint_inv e'"
  using joint_ep.run_inv [of e cs e'] by (simp add: list_all_iff)

lemma je_Stop_run:
  assumes "joint_inv e" "je_phase e = J_idle"
  shows "\<exists>cs. run_ops joint_step cs e = Some (je_Stop dn e)"
    and "joint_inv (je_Stop dn e)" "je_phase (je_Stop dn e) = J_idle" "je_worker (je_Stop dn e) = J_no_thread"
    and "es_state (je_status (je_Stop dn e)) \<in> {kStopped, kEndpointError}"
proof -
  define e2 where "e2 = je_Stop_controller (je_Stop_disable (je_Stop_flag e))"
  define e3 where "e3 = (je_worker_step dn ^^ 4) e2"
  have pre: "run_ops joint_step [Je_Stop_flag, Je_Stop_disable, Je_Stop_controller] e = Some e2"
    using assms(2) by (simp add: e2_def je_Stop_flag_def je_Stop_disable_def)
  have e2: "joint_inv e2" "je_phase e2 = J_joining" using run_joint_inv [OF assms(1) pre] by (simp_all add: e2_def je_Stop_controller_def)
  have "joint_rank (je_worker e2) \<le> 4" by (simp add: joint_rank_def split: joint_worker.split)
  with joint_drained [OF e2, of 4 dn] obtain cs where
    cs: "run_ops joint_step cs e2 = Some e3" "je_phase e3 = J_joining" "joint_rank (je_worker e3) = 0"
    unfolding e3_def by blast
  have fin: "je_Stop dn e = je_Stop_finish e3" by (simp add: je_Stop_def e3_def e2_def)
  have run: "run_ops joint_step ([Je_Stop_flag, Je_Stop_disable, Je_Stop_controller] @ cs @ [Je_Stop_finish]) e = Some (je_Stop dn e)"
    unfolding run_ops_append pre using cs by (simp add: fin joint_rank_0 [THEN iffD1] run_ops_append)
  then show "\<exists>cs. run_ops joint_step cs e = Some (je_Stop dn e)" by blast
  show "joint_inv (je_Stop dn e)" by (rule run_joint_inv [OF assms(1) run])
  show "je_phase (je_Stop dn e) = J_idle" "je_worker (je_Stop dn e) = J_no_thread"
    by (simp_all add: fin je_Stop_finish_def)
  show "es_state (je_status (je_Stop dn e)) \<in> {kStopped, kEndpointError}"
    by (simp add: fin je_Stop_finish_def status_stopped_def)
qed

lemma je_Start_keeps:
  assumes "joint_inv e" "je_phase e = J_idle" "je_worker e = J_no_thread"
  shows "joint_inv (snd (je_Start now e)) \<and> je_phase (snd (je_Start now e)) = J_idle \<and> fst (je_Start now e) \<and>
    es_state (je_status (snd (je_Start now e))) = kRunning"
proof -
  have eq: "je_Start now e =
      (True, je_Start_finish (je_Start_thread (je_Start_subscribe (snd (je_Start_controller now now e)))))"
    by (simp add: je_Start_def je_Start_controller_def Start_def Let_def)
  have "run_ops joint_step [Je_Start_controller now now, Je_Start_subscribe, Je_Start_thread, Je_Start_finish] e
      = Some (snd (je_Start now e))"
    using assms(2,3) by (simp add: eq je_Start_controller_def je_Start_subscribe_def je_Start_thread_def Start_def Let_def)
  from run_joint_inv [OF assms(1) this] show ?thesis
    by (simp add: eq je_Start_finish_def status_running_def)
qed

subsection \<open>The interface of an endpoint\<close>

text \<open>
  What the application relies on, whichever endpoint it has: \<open>inv\<close> holds from the construction on,
  a fresh endpoint that was configured can be started, and a stopped one is off.
\<close>

fun ep_inv :: "(float64 \<Rightarrow> float64) \<Rightarrow> endpoint \<Rightarrow> bool" where
  "ep_inv F (Imu_endpoint e) = (imu_ep.endpoint_inv e \<and> se_phase e = Idle)"
| "ep_inv F (Temperature_endpoint e) = (temperature_ep.endpoint_inv F e \<and> se_phase e = Idle)"
| "ep_inv F (Gnss_endpoint e) = (gnss_ep.endpoint_inv e \<and> se_phase e = Idle)"
| "ep_inv F (Joint_endpoint e) = (joint_inv e \<and> je_phase e = J_idle)"

fun ep_fresh :: "endpoint \<Rightarrow> bool" where
  "ep_fresh (Imu_endpoint e) = (se_worker e = No_thread)"
| "ep_fresh (Temperature_endpoint e) = (se_worker e = No_thread)"
| "ep_fresh (Gnss_endpoint e) = (se_worker e = No_thread)"
| "ep_fresh (Joint_endpoint e) = (je_worker e = J_no_thread)"

text \<open>No thread, and the driver is not running; a joint controller is also not enabled and its joints are off.\<close>

fun ep_off :: "endpoint \<Rightarrow> bool" where
  "ep_off (Imu_endpoint e) = (se_worker e = No_thread \<and> \<not> pl_running (se_sensor e))"
| "ep_off (Temperature_endpoint e) = (se_worker e = No_thread \<and> \<not> pl_running (se_sensor e))"
| "ep_off (Gnss_endpoint e) = (se_worker e = No_thread \<and> \<not> pl_running (se_sensor e))"
| "ep_off (Joint_endpoint e) = (je_worker e = J_no_thread \<and> \<not> k_running (je_controller e) \<and>
     \<not> k_enabled (je_controller e) \<and> outputs_off (je_controller e))"

lemma ep_Stop_off:
  assumes "ep_inv F e"
  shows "ep_inv F (ep_Stop F dn e) \<and> ep_off (ep_Stop F dn e) \<and>
    es_state (ep_Status (ep_Stop F dn e)) \<in> {kStopped, kEndpointError}"
proof (cases e)
  case (Imu_endpoint x)
  with assms imu_ep.Stop_run [of x dn] show ?thesis by simp
next
  case (Temperature_endpoint x)
  with assms temperature_ep.Stop_run [of F x dn] show ?thesis by simp
next
  case (Gnss_endpoint x)
  with assms gnss_ep.Stop_run [of x dn] show ?thesis by simp
next
  case (Joint_endpoint x)
  with assms je_Stop_run [of x dn] have "joint_inv (je_Stop dn x)" "je_worker (je_Stop dn x) = J_no_thread"
    "je_phase (je_Stop dn x) = J_idle" "es_state (je_status (je_Stop dn x)) \<in> {kStopped, kEndpointError}" by simp_all
  with Joint_endpoint show ?thesis by (auto simp: joint_inv_def off_inv_def)
qed

lemma ep_Configure_keeps:
  "ep_inv F e \<Longrightarrow> ep_inv F (snd (ep_Configure e)) \<and> (ep_fresh e \<longrightarrow> ep_fresh (snd (ep_Configure e)))"
  by (cases e) (auto simp: se_Configure_def je_Configure_def joint_inv_def imu_ep.endpoint_inv_def
      temperature_ep.endpoint_inv_def gnss_ep.endpoint_inv_def)

lemma ep_Start_keeps:
  assumes "ep_inv F e" "ep_fresh e"
  shows "ep_inv F (snd (ep_Start F now e)) \<and> fst (ep_Start F now e) \<and> es_state (ep_Status (snd (ep_Start F now e))) = kRunning"
  using assms imu_ep.Start_keeps temperature_ep.Start_keeps [of F] gnss_ep.Start_keeps je_Start_keeps
  by (cases e) auto

locale endpoint_contract =
  fixes inv fresh off :: "'e \<Rightarrow> bool"
    and configure :: "'e \<Rightarrow> bool \<times> 'e"
    and start :: "int \<Rightarrow> 'e \<Rightarrow> bool \<times> 'e"
    and stop :: "'d \<Rightarrow> 'e \<Rightarrow> 'e"
    and status :: "'e \<Rightarrow> EndpointStatus"
  assumes configure_inv: "inv e \<Longrightarrow> inv (snd (configure e))"
    and configure_fresh: "inv e \<Longrightarrow> fresh e \<Longrightarrow> fresh (snd (configure e))"
    and start_inv: "inv e \<Longrightarrow> fresh e \<Longrightarrow> inv (snd (start now e))"
    and start_status: "inv e \<Longrightarrow> fresh e \<Longrightarrow> fst (start now e) \<and> es_state (status (snd (start now e))) = kRunning"
    and stop_inv: "inv e \<Longrightarrow> inv (stop dn e)"
    and stop_off: "inv e \<Longrightarrow> off (stop dn e) \<and> es_state (status (stop dn e)) \<in> {kStopped, kEndpointError}"
begin

text \<open>What one iteration of the loop in \<^verbatim>\<open>Start\<close> does with an endpoint.\<close>

definition bring_up :: "int \<Rightarrow> 'e \<Rightarrow> bool \<times> 'e" where
  "bring_up now e = (case configure e of (ok, e1) \<Rightarrow> if ok then start now e1 else (False, e1))"

lemma bring_up_inv: "inv e \<Longrightarrow> fresh e \<Longrightarrow> inv (snd (bring_up now e))"
  using configure_inv configure_fresh start_inv by (simp add: bring_up_def split: prod.split) (metis snd_conv)

lemma bring_up_running: "inv e \<Longrightarrow> fresh e \<Longrightarrow> fst (bring_up now e) \<Longrightarrow> es_state (status (snd (bring_up now e))) = kRunning"
  using configure_inv configure_fresh start_status by (simp add: bring_up_def split: prod.splits if_splits) (metis snd_conv)

lemma all_stopped:
  assumes "list_all inv es"
  shows "list_all (\<lambda>e. inv e \<and> off e \<and> es_state (status e) \<in> {kStopped, kEndpointError}) (map (\<lambda>e. stop (dn e) e) es)"
  using assms stop_inv stop_off by (auto simp: list_all_iff)

end

interpretation ep: endpoint_contract "ep_inv F" ep_fresh ep_off ep_Configure "ep_Start F" "ep_Stop F" ep_Status for F
  by unfold_locales (use ep_Configure_keeps ep_Start_keeps ep_Stop_off in blast)+

lemma ep_config_keeps [simp]:
  "ep_config (snd (ep_Configure e)) = ep_config e" "ep_config (snd (ep_Start F now e)) = ep_config e"
  by (cases e; simp add: se_Configure_def je_Configure_def se_Start_def je_Start_def se_Start_begin_def se_Start_finish_def
      je_Start_controller_def je_Start_subscribe_def je_Start_thread_def je_Start_finish_def split: prod.splits sum.splits)+

lemma make_endpoint_fresh:
  assumes "make_endpoint B now cx c = Some e"
  shows "ep_inv F e \<and> ep_fresh e \<and> ep_config e = c"
proof -
  have "imu_ep.endpoint_inv (ImuEndpoint c cx)" "temperature_ep.endpoint_inv F (TemperatureEndpoint c cx)"
    "gnss_ep.endpoint_inv (GnssEndpoint c cx)" "joint_inv (JointControllerEndpoint now c cx)"
    unfolding ImuEndpoint_def TemperatureEndpoint_def GnssEndpoint_def
    by (rule imu_ep.init_inv temperature_ep.init_inv gnss_ep.init_inv joint_init_inv,
        simp add: MockImu_init_def MockTemperature_init_def MockGnss_init_def)+ (rule joint_init_inv)
  with assms show ?thesis
    by (auto simp: make_endpoint_def ImuEndpoint_def TemperatureEndpoint_def GnssEndpoint_def SensorEndpoint_def
        JointControllerEndpoint_def split: if_splits)
qed

subsection \<open>The application's invariant\<close>

definition app_inv :: "(float64 \<Rightarrow> float64) \<Rightarrow> app \<Rightarrow> bool" where
  "app_inv F s \<longleftrightarrow> list_all (ep_inv F) (ap_endpoints s) \<and> (\<not> ap_started s \<longrightarrow> ap_endpoints s = [])"

lemma BuildEndpoints_loop_fresh:
  "list_all (\<lambda>e. ep_inv F e \<and> ep_fresh e) es \<Longrightarrow> list_all (\<lambda>e. ep_inv F e \<and> ep_fresh e) (snd (BuildEndpoints_loop B now cx cs es))"
proof (induction B now cx cs es rule: BuildEndpoints_loop.induct)
  case (2 B now cx c cs es)
  show ?case
  proof (cases "make_endpoint B now cx c")
    case None
    with 2 show ?thesis by simp
  next
    case (Some e)
    with make_endpoint_fresh [OF Some, of F] 2 show ?thesis by simp
  qed
qed simp

lemma start_endpoints_Cons:
  "start_endpoints F now find_config (e # es) =
     (case ep.bring_up F now e of (ok, e2) \<Rightarrow>
        if \<not> ok \<and> (case find_config (ep_Id e) of None \<Rightarrow> False | Some c \<Rightarrow> ec_critical c) then (False, e2 # es)
        else case start_endpoints F now find_config es of (r, es') \<Rightarrow> (r, e2 # es'))"
  by (simp add: ep.bring_up_def Let_def split: prod.split)

lemma start_endpoints_inv:
  "list_all (\<lambda>e. ep_inv F e \<and> ep_fresh e) es \<Longrightarrow> list_all (ep_inv F) (snd (start_endpoints F now find_config es))"
proof (induction es)
  case (Cons e es)
  obtain ok e2 where e2: "ep.bring_up F now e = (ok, e2)" by force
  obtain r es' where es': "start_endpoints F now find_config es = (r, es')" by force
  have "ep_inv F e2" using ep.bring_up_inv [of F e now] Cons.prems e2 by simp
  moreover have "list_all (ep_inv F) es" using Cons.prems by (auto simp: list_all_iff)
  ultimately show ?case using Cons es' unfolding start_endpoints_Cons e2 by simp
qed simp

lemma BuildEndpoints_fresh:
  assumes "ap_endpoints s = []"
  shows "list_all (\<lambda>e. ep_inv F e \<and> ep_fresh e) (ap_endpoints (snd (BuildEndpoints B now s)))"
  using BuildEndpoints_loop_fresh [of F "[]" B now] assms by (simp add: BuildEndpoints_def Let_def split: prod.split) (metis snd_conv)

lemma app_Start_inv:
  assumes "app_inv F s" "\<not> ap_started s"
  shows "app_inv F (snd (app_Start B F now s))"
proof -
  obtain built s1 where s1: "BuildEndpoints B now s = (built, s1)" by force
  have fresh: "list_all (\<lambda>e. ep_inv F e \<and> ep_fresh e) (ap_endpoints s1)"
    using BuildEndpoints_fresh [of s F B now] s1 assms by (simp add: app_inv_def)
  define s2 where "s2 = s1\<lparr>ap_started := True\<rparr>"
  have "list_all (ep_inv F) (ap_endpoints s1)" using fresh by (auto simp: list_all_iff)
  moreover have "list_all (ep_inv F) (snd (start_endpoints F now (FindEndpointConfig s2) (ap_endpoints s1)))"
    by (rule start_endpoints_inv [OF fresh])
  ultimately show ?thesis
    by (auto simp: app_Start_def s1 app_inv_def Let_def s2_def split: prod.splits)
qed

lemma worker_phase:
  assumes "worker_op c" "se_step D c e = Some e'"
  shows "se_phase e' = se_phase e"
  using assms by (cases c) (auto simp: se_loop_def se_begin_def se_read_def se_publish_def se_failed_def Let_def
      split: worker.splits prod.splits sum.splits option.splits if_splits)

lemma joint_worker_phase:
  assumes "joint_worker_op c" "joint_step c e = Some e'"
  shows "je_phase e' = je_phase e"
  using assms by (cases c) (auto simp: je_loop_def je_Step_def je_wake_def je_begin_def je_read_def je_read_failed_def
      je_publish_def je_controller_status_def je_update_def Let_def
      split: joint_worker.splits prod.splits sum.splits option.splits if_splits)

lemma ep_step_inv:
  assumes "ep_inv F e" "ep_step F c e = Some e'"
  shows "ep_inv F e'"
proof (cases e)
  case (Imu_endpoint x)
  with assms(2) obtain op y where "worker_op op" "se_step imu_driver op x = Some y" "e' = Imu_endpoint y"
    by (cases c) (auto simp: imu_step_def split: if_splits)
  with assms Imu_endpoint worker_phase [of op imu_driver x y] imu_ep.step_inv show ?thesis by auto
next
  case (Temperature_endpoint x)
  with assms(2) obtain op y where "worker_op op" "se_step (temperature_driver F) op x = Some y" "e' = Temperature_endpoint y"
    by (cases c) (auto simp: temperature_step_def split: if_splits)
  with assms Temperature_endpoint worker_phase [of op "temperature_driver F" x y] temperature_ep.step_inv show ?thesis by auto
next
  case (Gnss_endpoint x)
  with assms(2) obtain op y where "worker_op op" "se_step gnss_driver op x = Some y" "e' = Gnss_endpoint y"
    by (cases c) (auto simp: gnss_step_def split: if_splits)
  with assms Gnss_endpoint worker_phase [of op gnss_driver x y] gnss_ep.step_inv show ?thesis by auto
next
  case (Joint_endpoint x)
  with assms(2) obtain op y where op: "joint_worker_op op \<or> subscriber_op op" "joint_step op x = Some y" "e' = Joint_endpoint y"
    by (cases c) (auto split: if_splits)
  then have "je_phase y = je_phase x" using joint_worker_phase subscriber_step by blast
  with op assms Joint_endpoint joint_step_inv show ?thesis by auto
qed

lemma app_step_inv:
  assumes inv: "app_inv F s" and run: "app_step B F c s = Some s'"
  shows "app_inv F s'"
proof (cases c)
  case (App_Start now)
  with assms app_Start_inv show ?thesis by (auto split: if_splits)
next
  case (App_Stop dn)
  with run have s': "s' = app_Stop F dn s" by simp
  from inv have "list_all (ep_inv F) (ap_endpoints s)" by (simp add: app_inv_def)
  from ep.all_stopped [OF this, of "\<lambda>e. dn (ep_Id e)"] inv show ?thesis
    by (auto simp: app_inv_def s' app_Stop_def list_all_iff)
next
  case (App_round p t now)
  with assms show ?thesis by (auto simp: app_inv_def spin_round_def Let_def)
next
  case (App_endpoint i op)
  with run obtain e where e: "i < length (ap_endpoints s)" "ep_step F op (ap_endpoints s ! i) = Some e"
    "s' = s\<lparr>ap_endpoints := (ap_endpoints s)[i := e]\<rparr>"
    by (auto split: if_splits)
  have "ep_inv F e" using inv e by (auto simp: app_inv_def list_all_length intro: ep_step_inv)
  with inv e show ?thesis by (auto simp: app_inv_def list_all_iff dest!: set_update_subset_insert [THEN subsetD])
qed

interpretation hw_app: guarded_machine "app_step B F" "\<lambda>c. True" "app_inv F" for B F
  by unfold_locales (rule app_step_inv)

lemma app_reachable:
  assumes "run_ops (app_step B F) ops (HardwareInterfaceApp config options now t) = Some s"
  shows "app_inv F s"
proof -
  have "app_inv F (HardwareInterfaceApp config options now t)" by (simp add: app_inv_def HardwareInterfaceApp_def)
  from hw_app.run_inv [OF this _ assms] show ?thesis by (simp add: list_all_iff)
qed

subsection \<open>Starting\<close>

lemma BuildEndpoints_loop_mono: "set es \<subseteq> set (snd (BuildEndpoints_loop B now cx cs es))"
  by (induction B now cx cs es rule: BuildEndpoints_loop.induct) (auto split: option.splits)

lemma BuildEndpoints_loop_critical:
  "fst (BuildEndpoints_loop B now cx cs es) \<Longrightarrow> c \<in> set cs \<Longrightarrow> ec_enabled c \<Longrightarrow> ec_critical c \<Longrightarrow>
   \<exists>e\<in>set (snd (BuildEndpoints_loop B now cx cs es)). ep_config e = c"
proof (induction B now cx cs es rule: BuildEndpoints_loop.induct)
  case (2 B now cx d cs es)
  show ?case
  proof (cases "c = d")
    case True
    with 2(4,6,7) obtain e where e: "make_endpoint B now cx d = Some e" by (auto split: option.splits)
    have "e \<in> set (snd (BuildEndpoints_loop B now cx cs (es @ [e])))"
      using BuildEndpoints_loop_mono [of "es @ [e]"] by force
    with make_endpoint_fresh [OF e] e True 2(6) show ?thesis by auto
  next
    case False
    with 2 show ?thesis by (auto split: option.splits if_splits)
  qed
qed simp

lemma start_endpoints_configs: "map ep_config (snd (start_endpoints F now find_config es)) = map ep_config es"
  by (induction es) (auto simp: Let_def split: prod.splits if_splits, (metis ep_config_keeps snd_conv)+)

lemma start_endpoints_running:
  assumes "fst (start_endpoints F now find_config es)" "list_all (\<lambda>e. ep_inv F e \<and> ep_fresh e) es"
    and "e \<in> set es" "find_config (ep_Id e) = Some c" "ec_critical c"
  shows "\<exists>e'\<in>set (snd (start_endpoints F now find_config es)). ep_config e' = ep_config e \<and> es_state (ep_Status e') = kRunning"
  using assms
proof (induction es)
  case (Cons d es)
  obtain ok e2 where e2: "ep.bring_up F now d = (ok, e2)" by force
  obtain r es' where es': "start_endpoints F now find_config es = (r, es')" by force
  have keep: "ep_config e2 = ep_config d"
    using e2 by (auto simp: ep.bring_up_def split: prod.splits if_splits) (metis ep_config_keeps snd_conv)+
  show ?case
  proof (cases "e = d")
    case True
    with Cons.prems(1,4,5) have ok unfolding start_endpoints_Cons e2 by (auto split: if_splits)
    with Cons.prems(2) ep.bring_up_running [of F d now] e2 have "es_state (ep_Status e2) = kRunning" by simp
    moreover have "e2 \<in> set (snd (start_endpoints F now find_config (d # es)))"
      unfolding start_endpoints_Cons e2 es' by simp
    ultimately show ?thesis using keep True by blast
  next
    case False
    with Cons es' show ?thesis unfolding start_endpoints_Cons e2 by (auto split: if_splits)
  qed
qed simp

lemma find_config:
  assumes "distinct (map ec_endpoint_id cs)" "c \<in> set cs"
  shows "List.find (\<lambda>d. ec_endpoint_id d = ec_endpoint_id c) cs = Some c"
  using assms by (induction cs) (auto simp: image_iff)

subsection \<open>Properties\<close>

text \<open>C19: However the program ran, with commands arriving and its threads running in any order, stopping it leaves every
  endpoint without a thread, with its driver stopped, its joints off and its state stopped or in error.\<close>

theorem stopped_app_is_off:
  assumes "run_ops (app_step B F) ops (HardwareInterfaceApp config options now t) = Some s" "e \<in> set (ap_endpoints (app_Stop F dn s))"
  shows "ep_off e \<and> es_state (ep_Status e) \<in> {kStopped, kEndpointError}"
proof -
  have "list_all (ep_inv F) (ap_endpoints s)" using app_reachable [OF assms(1)] by (simp add: app_inv_def)
  from ep.all_stopped [OF this, of "\<lambda>e. dn (ep_Id e)"] assms(2) show ?thesis by (auto simp: app_Stop_def list_all_iff)
qed

text \<open>When the program says that it started, every endpoint that is enabled and critical in its configuration is
  there, running, and announced as a device.\<close>

theorem started_app_runs_critical_endpoints:
  assumes "distinct (map ec_endpoint_id (hc_endpoints config))"
    and "app_Start B F now (HardwareInterfaceApp config options now0 t) = (True, s)"
    and "c \<in> set (hc_endpoints config)" "ec_enabled c" "ec_critical c"
  shows "\<exists>e\<in>set (ap_endpoints s). ep_config e = c \<and> es_state (ep_Status e) = kRunning \<and> ep_Id e \<in> set (ap_devices s)"
proof -
  define s0 where "s0 = HardwareInterfaceApp config options now0 t"
  obtain built s1 where s1: "BuildEndpoints B now s0 = (built, s1)" by force
  define s2 where "s2 = s1\<lparr>ap_started := True\<rparr>"
  obtain ok es where es: "start_endpoints F now (FindEndpointConfig s2) (ap_endpoints s1) = (ok, es)" by force
  have conf: "ap_config s1 = config" "ap_config s2 = config"
    using s1 by (auto simp: BuildEndpoints_def s0_def s2_def HardwareInterfaceApp_def Let_def split: prod.splits if_splits)
  have find: "FindEndpointConfig s2 (ec_endpoint_id c) = Some c"
    using find_config [OF assms(1,3)] by (simp add: FindEndpointConfig_def conf)
  from assms(2) s1 es have b: "built" "ok" "ap_endpoints s = es"
    and dev: "ap_devices s = filter (\<lambda>i. FindEndpointConfig (s2\<lparr>ap_endpoints := es\<rparr>) i \<noteq> None) (map ep_Id es)"
    by (auto simp: app_Start_def s0_def s2_def Let_def split: if_splits prod.splits)
  have fresh: "list_all (\<lambda>e. ep_inv F e \<and> ep_fresh e) (ap_endpoints s1)"
    using BuildEndpoints_fresh [of s0 F B now] s1 by (simp add: s0_def HardwareInterfaceApp_def)
  obtain e where e: "e \<in> set (ap_endpoints s1)" "ep_config e = c"
  proof -
    define cx where "cx = \<lparr>ex_source_node = ao_node_name options, ex_source_instance = ao_instance_id options,
      ex_robot_id = ao_robot_id options\<rparr>"
    have "fst (BuildEndpoints_loop B now cx (hc_endpoints config) [])"
      "ap_endpoints s1 = snd (BuildEndpoints_loop B now cx (hc_endpoints config) [])"
      using s1 b(1) by (auto simp: BuildEndpoints_def s0_def HardwareInterfaceApp_def Let_def cx_def split: prod.splits if_splits)
    with BuildEndpoints_loop_critical [of B now cx "hc_endpoints config" "[]" c] assms(3-5) that show ?thesis by auto
  qed
  have "FindEndpointConfig s2 (ep_Id e) = Some c" using find e(2) by (simp add: ep_Id_def)
  with start_endpoints_running [of F now "FindEndpointConfig s2" "ap_endpoints s1" e c] fresh e assms(5) es b(2)
  obtain e' where e': "e' \<in> set es" "ep_config e' = c" "es_state (ep_Status e') = kRunning" by auto
  moreover have "FindEndpointConfig (s2\<lparr>ap_endpoints := es\<rparr>) (ep_Id e') = Some c"
    using find e'(2) by (simp add: ep_Id_def FindEndpointConfig_def)
  ultimately show ?thesis unfolding b(3) dev by auto
qed

text \<open>The heartbeat and the diagnostics of a round tell the same: the heartbeat reports an error exactly when some
  endpoint's diagnostic is an error, and a warning exactly when none is but some diagnostic is a warning.\<close>

theorem heartbeat_agrees_with_diagnostics:
  "let health = hb_health (app_BuildHeartbeat t now sequence s);
       levels = map dg_level (da_status (BuildDiagnostics t' sequence' s)) in
   (health = HEALTH_STATE_ERROR) = (DIAGNOSTIC_LEVEL_ERROR \<in> set levels) \<and>
   (health = HEALTH_STATE_WARNING) = (DIAGNOSTIC_LEVEL_ERROR \<notin> set levels \<and> DIAGNOSTIC_LEVEL_WARNING \<in> set levels)"
  by (auto simp: app_BuildHeartbeat_def BuildDiagnostics_def endpoint_diagnostic_def app_DiagnosticLevel_def Let_def
      list_ex_iff image_iff split: if_splits)

subsection \<open>Witnesses\<close>

definition demo_hw_config :: HardwareInterfaceConfig where
  "demo_hw_config = default_HardwareInterfaceConfig\<lparr>hc_endpoints := [demo_arm_config]\<rparr>"

definition demo_build :: hw_build where
  "demo_build = \<lparr>with_imu = True, with_temperature = True, with_gnss = True, with_joint_controller = True\<rparr>"

definition demo_app :: app where
  "demo_app = HardwareInterfaceApp demo_hw_config \<lparr>ao_robot_id = ''r1'', ao_node_name = ''hw'', ao_instance_id = ''hw''\<rparr> 0 0"

lemma demo_app_starts: "\<exists>s. app_Start demo_build id 0 demo_app = (True, s) \<and> ap_endpoints s \<noteq> []"
  by (simp add: app_Start_def demo_app_def demo_hw_config_def demo_build_def HardwareInterfaceApp_def BuildEndpoints_def
      make_endpoint_def demo_arm_config_def FindEndpointConfig_def ep_Id_def je_Start_def je_Configure_def
      JointControllerEndpoint_def je_Start_controller_def je_Start_subscribe_def je_Start_thread_def je_Start_finish_def
      Start_def Let_def)

theorem started_app_runs_critical_endpoints_witness:
  "\<exists>s e. app_Start demo_build id 0 demo_app = (True, s) \<and> e \<in> set (ap_endpoints s) \<and> ep_config e = demo_arm_config \<and>
     es_state (ep_Status e) = kRunning"
proof -
  obtain s where s: "app_Start demo_build id 0 demo_app = (True, s)" using demo_app_starts by blast
  have "distinct (map ec_endpoint_id (hc_endpoints demo_hw_config))" "demo_arm_config \<in> set (hc_endpoints demo_hw_config)"
    "ec_enabled demo_arm_config" "ec_critical demo_arm_config"
    by (simp_all add: demo_hw_config_def demo_arm_config_def)
  from started_app_runs_critical_endpoints [OF this(1) s [unfolded demo_app_def] this(2-4)] s show ?thesis by blast
qed

theorem stopped_app_is_off_witness:
  "\<exists>s e. run_ops (app_step demo_build id) [App_Start 0] demo_app = Some s \<and>
     e \<in> set (ap_endpoints (app_Stop id (\<lambda>i. \<lparr>dn_now = 0, dn_ns = 0, dn_published = True\<rparr>) s)) \<and> ep_off e"
proof -
  obtain s where s: "app_Start demo_build id 0 demo_app = (True, s)" "ap_endpoints s \<noteq> []" using demo_app_starts by blast
  then have run: "run_ops (app_step demo_build id) [App_Start 0] demo_app = Some s"
    by (simp add: demo_app_def HardwareInterfaceApp_def)
  define s' where "s' = app_Stop id (\<lambda>i. \<lparr>dn_now = 0, dn_ns = 0, dn_published = True\<rparr>) s"
  have "hd (ap_endpoints s') \<in> set (ap_endpoints s')" 
    by (rule hd_in_set) (use s(2) in \<open>simp add: s'_def app_Stop_def\<close>)
  with stopped_app_is_off [OF run [unfolded demo_app_def]] run show ?thesis unfolding s'_def by blast
qed

end
