(* ===== verification/Sbus_Reader.thy ===== *)
theory Sbus_Reader
  imports Prelude
begin

section \<open>The SBUS receiver (platform/lpio/src/SBUSReader.cpp)\<close>

text \<open>
  A radio receiver sends frames of 25 bytes: a start byte, sixteen channels of eleven bits each packed into 22 bytes,
  a byte of flags and an end byte. \<open>decodeFrame\<close> unpacks a frame; \<open>recvFrame\<close> finds frames in the bytes that the
  serial port delivers in pieces, until its deadline. The serial port and the clock are what \<open>recvFrame\<close> observes:
  a list of the clock's times and what a read at that time returned.
\<close>

subsection \<open>Types\<close>

datatype device_error = Device_timeout string | Device_not_open string | Device_errc string string | Device_errno int string

record SbusChannelInfo =
  sc_index :: u8
  sc_name :: string
  sc_label :: string
  sc_minValue :: u16
  sc_maxValue :: u16
  sc_centerValue :: u16

record SbusSwitchInfo =
  sw_index :: u8
  sw_name :: string
  sw_label :: string
  sw_offValue :: u8
  sw_onValue :: u8

record SbusFrame =
  sf_channels :: "u16 list"
  sf_switches :: "u8 list"
  sf_frameLost :: bool
  sf_failsafe :: bool
  sf_raw :: "u8 list"

datatype parity = Parity_none | Parity_even | Parity_odd

record SerialPortConfig =
  sp_baudRate :: u32
  sp_dataBits :: u8
  sp_stopBits :: u8
  sp_parity :: parity
  sp_nonBlocking :: bool

record SbusConfig =
  sb_baudRate :: u32
  sb_nonBlocking :: bool

definition makeSbusLineConfig :: "SbusConfig \<Rightarrow> SerialPortConfig" where
  "makeSbusLineConfig cfg =
     \<lparr>sp_baudRate = sb_baudRate cfg, sp_dataBits = 8, sp_stopBits = 2, sp_parity = Parity_even, sp_nonBlocking = sb_nonBlocking cfg\<rparr>"

abbreviation "kSbusPwmMin \<equiv> (172 :: u16)"
abbreviation "kSbusPwmMax \<equiv> (1811 :: u16)"
abbreviation "kSbusPwmCenter \<equiv> (992 :: u16)"
abbreviation "kSbusChannelCount \<equiv> (16 :: nat)"
abbreviation "kSbusFrameBytes \<equiv> (25 :: nat)"

definition stick :: "u8 \<Rightarrow> string \<Rightarrow> string \<Rightarrow> SbusChannelInfo" where
  "stick i name label = \<lparr>sc_index = i, sc_name = name, sc_label = label, sc_minValue = kSbusPwmMin, sc_maxValue = kSbusPwmMax,
     sc_centerValue = kSbusPwmCenter\<rparr>"

definition defaultChannelMap :: "SbusChannelInfo list" where
  "defaultChannelMap =
     [stick 0 ''CH1'' ''Roll'', stick 1 ''CH2'' ''Pitch'', (stick 2 ''CH3'' ''Throttle'')\<lparr>sc_centerValue := kSbusPwmMin\<rparr>, stick 3 ''CH4'' ''Yaw'',
      stick 4 ''CH5'' ''AUX1'', stick 5 ''CH6'' ''AUX2'', stick 6 ''CH7'' ''AUX3'', stick 7 ''CH8'' ''AUX4'', stick 8 ''CH9'' ''AUX5'',
      stick 9 ''CH10'' ''AUX6'', stick 10 ''CH11'' ''AUX7'', stick 11 ''CH12'' ''AUX8'', stick 12 ''CH13'' ''AUX9'', stick 13 ''CH14'' ''AUX10'',
      stick 14 ''CH15'' ''AUX11'', stick 15 ''CH16'' ''AUX12'']"

definition defaultSwitchMap :: "SbusSwitchInfo list" where
  "defaultSwitchMap =
     [\<lparr>sw_index = 0, sw_name = ''SW1'', sw_label = ''Digital switch 1'', sw_offValue = 0, sw_onValue = 1\<rparr>,
      \<lparr>sw_index = 1, sw_name = ''SW2'', sw_label = ''Digital switch 2'', sw_offValue = 0, sw_onValue = 1\<rparr>]"

record SBUSReader =
  sr_open :: bool
  sr_path :: string
  sr_config :: SbusConfig
  sr_channels :: "SbusChannelInfo list"
  sr_switches :: "SbusSwitchInfo list"

definition useDefaultChannelMap :: "SBUSReader \<Rightarrow> SBUSReader" where
  "useDefaultChannelMap r = r\<lparr>sr_channels := defaultChannelMap, sr_switches := defaultSwitchMap\<rparr>"

definition new_SBUSReader :: "string \<Rightarrow> SbusConfig \<Rightarrow> SBUSReader" where
  "new_SBUSReader path config = useDefaultChannelMap
     \<lparr>sr_open = False, sr_path = path, sr_config = config, sr_channels = [], sr_switches = []\<rparr>"

definition registerChannels :: "SbusChannelInfo list \<Rightarrow> SBUSReader \<Rightarrow> device_error + SBUSReader" where
  "registerChannels channels r =
     (if length channels \<noteq> kSbusChannelCount then Inl (Device_errc ''invalid_argument'' ''SBUSReader: expected 16 channel descriptors'')
      else Inr (r\<lparr>sr_channels := channels\<rparr>))"

definition registerSwitches :: "SbusSwitchInfo list \<Rightarrow> SBUSReader \<Rightarrow> device_error + SBUSReader" where
  "registerSwitches switches r =
     (if length switches \<noteq> 2 then Inl (Device_errc ''invalid_argument'' ''SBUSReader: expected 2 switch descriptors'')
      else Inr (r\<lparr>sr_switches := switches\<rparr>))"

text \<open>The receiver is read with \<open>recvFrame\<close> only.\<close>

definition sbus_read :: "device_error + nat" where
  "sbus_read = Inl (Device_errc ''operation_not_supported'' ''use recvFrame()'')"

definition sbus_write :: "device_error + nat" where
  "sbus_write = Inl (Device_errc ''operation_not_supported'' ''SBUSReader is receive-only'')"

subsection \<open>Decoding\<close>

text \<open>
  The code shifts in \<^verbatim>\<open>int\<close> and converts to 16 bits: a byte shifted left by at most 8 fits them. A channel is
  taken from two bytes, also where its eleven bits spread over three.
\<close>

definition decode_channel :: "u8 list \<Rightarrow> nat \<Rightarrow> u16" where
  "decode_channel raw i =
     (let bitIndex = i * 11; byteIndex = 1 + bitIndex div 8; bitOffset = bitIndex mod 8;
          v = drop_bit bitOffset (ucast (raw ! byteIndex)) OR push_bit (8 - bitOffset) (ucast (raw ! (byteIndex + 1))) in
      v AND 0x07FF)"

definition decodeFrame :: "u8 list \<Rightarrow> SbusFrame" where
  "decodeFrame raw =
     (let flags = raw ! 23 in
      \<lparr>sf_channels = map (decode_channel raw) [0..<kSbusChannelCount],
       sf_switches = [if flags AND 0x10 \<noteq> 0 then 1 else 0, if flags AND 0x20 \<noteq> 0 then 1 else 0],
       sf_frameLost = (flags AND 0x04 \<noteq> 0), sf_failsafe = (flags AND 0x08 \<noteq> 0), sf_raw = raw\<rparr>)"

subsection \<open>Receiving\<close>

text \<open>
  The port delivers the bytes of \<open>stream\<close> in order. Each observation is the time at which the loop looks at the
  clock and what became of the read that follows: an error, or how many bytes were there. The result is what
  \<open>recvFrame\<close> returns and the bytes still in the port; \<open>None\<close> says that the observations ended before
  it did. The state is the frame so far: empty in the outer loop, whose read asks for one byte, and at least the
  start byte in the inner one, whose read asks for what is missing. A read returns no byte when there is none, which
  \<open>readByte\<close> turns into the timeout that the outer loop catches.
\<close>

type_synonym observation = "int \<times> (device_error + nat)"

definition port_read :: "nat \<Rightarrow> device_error + nat \<Rightarrow> u8 list \<Rightarrow> (device_error + u8 list) \<times> u8 list" where
  "port_read n r stream =
     (case r of Inl e \<Rightarrow> (Inl e, stream) | Inr c \<Rightarrow> (Inr (take (min n c) stream), drop (min n c) stream))"

definition readByte :: "device_error + nat \<Rightarrow> u8 list \<Rightarrow> (device_error + u8) \<times> u8 list" where
  "readByte r stream = (case port_read 1 r stream of (got, stream') \<Rightarrow>
     (bindE got (\<lambda>bs. case bs of [] \<Rightarrow> Inl (Device_timeout ''SBUSReader readByte'') | b # _ \<Rightarrow> Inr b), stream'))"

fun recv_loop :: "int \<Rightarrow> u8 list \<Rightarrow> u8 list \<Rightarrow> observation list \<Rightarrow> ((device_error + SbusFrame) \<times> u8 list) option" where
  "recv_loop deadline raw stream [] = None"
| "recv_loop deadline raw stream ((now, r) # obs) =
     (if raw = [] then
        if \<not> now < deadline then Some (Inl (Device_timeout ''SBUSReader recvFrame''), stream)
        else case readByte r stream of (got, stream') \<Rightarrow> (case got of
            Inl (Device_timeout s) \<Rightarrow> recv_loop deadline [] stream' obs
          | Inl e \<Rightarrow> Some (Inl e, stream')
          | Inr b \<Rightarrow> if b \<noteq> 0x0F then recv_loop deadline [] stream' obs else recv_loop deadline [b] stream' obs)
      else
        if now \<ge> deadline then Some (Inl (Device_timeout ''SBUSReader recvFrame''), stream)
        else case port_read (kSbusFrameBytes - length raw) r stream of (got, stream') \<Rightarrow> (case got of
            Inl (Device_timeout s) \<Rightarrow> recv_loop deadline raw stream' obs
          | Inl e \<Rightarrow> Some (Inl e, stream')
          | Inr bs \<Rightarrow>
              let raw' = raw @ bs in
              if length raw' < kSbusFrameBytes then recv_loop deadline raw' stream' obs
              else if raw' ! (kSbusFrameBytes - 1) \<noteq> 0x00 then recv_loop deadline [] stream' obs
              else Some (Inr (decodeFrame raw'), stream')))"

definition recvFrame :: "SBUSReader \<Rightarrow> int \<Rightarrow> int \<Rightarrow> u8 list \<Rightarrow> observation list \<Rightarrow> ((device_error + SbusFrame) \<times> u8 list) option" where
  "recvFrame reader start timeout stream obs =
     (if \<not> sr_open reader then Some (Inl (Device_not_open (sr_path reader)), stream) else recv_loop (start + timeout) [] stream obs)"

subsection \<open>What a frame decodes to\<close>

lemma mask_11: "(0x07FF :: u16) = mask 11"
  by (simp add: mask_eq_exp_minus_1)

lemma byte_bit_range: "bit (b :: u8) n \<Longrightarrow> n < 8"
  using bit_imp_le_length by fastforce

text \<open>The bits of a decoded channel are those of the packed stream, up to the end of the second byte.\<close>

lemma bit_decode_channel:
  "bit (decode_channel raw i) k \<longleftrightarrow>
     k < 11 \<and> i * 11 mod 8 + k < 16 \<and> bit (raw ! (1 + (i * 11 + k) div 8)) ((i * 11 + k) mod 8)"
proof -
  define q where "q = i * 11 div 8"
  define off where "off = i * 11 mod 8"
  have pos: "i * 11 = 8 * q + off" and off: "off < 8" by (simp_all add: q_def off_def)
  have bits: "bit (decode_channel raw i) k \<longleftrightarrow>
      k < 11 \<and> (bit (raw ! (1 + q)) (off + k) \<or> 8 - off \<le> k \<and> bit (raw ! (2 + q)) (k - (8 - off)))"
    by (auto simp: decode_channel_def Let_def mask_11 bit_simps q_def [symmetric] off_def [symmetric] ac_simps
        dest: byte_bit_range)
  consider "off + k < 8" | "8 \<le> off + k" "off + k < 16" | "16 \<le> off + k" by linarith
  then show ?thesis
  proof cases
    case 1
    have e: "i * 11 + k = 8 * q + (off + k)" using pos by linarith
    have "(i * 11 + k) div 8 = q" "(i * 11 + k) mod 8 = off + k" unfolding e using 1 by simp_all
    moreover have "\<not> 8 - off \<le> k" using 1 by linarith
    ultimately show ?thesis using 1 bits by (simp add: off_def [symmetric])
  next
    case 2
    obtain m where m: "off + k = 8 + m" using 2 le_iff_add by blast
    then have e: "i * 11 + k = 8 * Suc q + m" using pos by (simp add: add.assoc)
    have r: "m < 8" using 2 m by linarith
    have "(i * 11 + k) div 8 = Suc q" "(i * 11 + k) mod 8 = m" unfolding e using r by (simp_all del: mult_Suc_right)
    moreover have "k - (8 - off) = m" "8 - off \<le> k" using m off by linarith+
    moreover have "\<not> bit (raw ! (1 + q)) (off + k)" using 2 byte_bit_range by fastforce
    ultimately show ?thesis using 2 bits by (simp add: off_def [symmetric])
  next
    case 3
    then have "\<not> bit (raw ! (1 + q)) (off + k)" "\<not> bit (raw ! (2 + q)) (k - (8 - off))"
      using byte_bit_range off by fastforce+
    with 3 bits show ?thesis by (simp add: off_def)
  qed
qed

text \<open>The sender's side, from the description of the format: eleven bits of each channel, least significant first.\<close>

definition payload_bit :: "u16 list \<Rightarrow> nat \<Rightarrow> bool" where
  "payload_bit chs n = bit (chs ! (n div 11)) (n mod 11)"

definition payload_byte :: "u16 list \<Rightarrow> nat \<Rightarrow> u8" where
  "payload_byte chs j = horner_sum of_bool 2 (map (\<lambda>k. payload_bit chs (8 * j + k)) [0..<8])"

definition sbus_encode :: "u16 list \<Rightarrow> u8 \<Rightarrow> u8 list" where
  "sbus_encode chs flags = 0x0F # map (payload_byte chs) [0..<22] @ [flags, 0x00]"

lemma bit_payload_byte: "k < 8 \<Longrightarrow> bit (payload_byte chs j) k \<longleftrightarrow> payload_bit chs (8 * j + k)"
  by (simp add: payload_byte_def bit_horner_sum_bit_word_iff del: upt_Suc upt_rec_numeral)

lemma sbus_encode_length: "length (sbus_encode chs flags) = 25"
  by (simp add: sbus_encode_def)

lemma sbus_encode_nth: "j < 22 \<Longrightarrow> sbus_encode chs flags ! Suc j = payload_byte chs j"
  by (simp add: sbus_encode_def nth_append)

lemma decode_encode_channel:
  assumes "i < 16"
  shows "decode_channel (sbus_encode chs flags) i = take_bit (min 11 (16 - i * 11 mod 8)) (chs ! i)"
proof (rule bit_eqI)
  fix k
  show "bit (decode_channel (sbus_encode chs flags) i) k \<longleftrightarrow> bit (take_bit (min 11 (16 - i * 11 mod 8)) (chs ! i)) k"
  proof (cases "k < 11 \<and> i * 11 mod 8 + k < 16")
    case True
    then have "(i * 11 + k) div 8 < 22" using assms by linarith
    moreover have "(i * 11 + k) div 11 = i" "(i * 11 + k) mod 11 = k" using True by simp_all
    ultimately show ?thesis
      using True by (auto simp: bit_decode_channel sbus_encode_nth bit_payload_byte payload_bit_def bit_take_bit_iff)
  next
    case False
    then show ?thesis by (auto simp: bit_decode_channel bit_take_bit_iff)
  qed
qed


subsection \<open>Which frame is received\<close>

text \<open>A frame: 25 bytes between a start byte and an end byte.\<close>

definition framed :: "u8 list \<Rightarrow> bool" where
  "framed raw \<longleftrightarrow> length raw = kSbusFrameBytes \<and> hd raw = 0x0F \<and> raw ! 24 = 0x00"

definition partial_frame :: "u8 list \<Rightarrow> bool" where
  "partial_frame raw \<longleftrightarrow> raw \<noteq> [] \<longrightarrow> hd raw = 0x0F \<and> length raw < kSbusFrameBytes"

lemma port_read_Inr:
  "port_read n r stream = (Inr bs, stream') \<Longrightarrow> stream = bs @ stream' \<and> length bs \<le> n"
  by (auto simp: port_read_def split: sum.splits)

lemma port_read_Inl: "port_read n r stream = (Inl e, stream') \<Longrightarrow> stream' = stream"
  by (auto simp: port_read_def split: sum.splits)

lemma readByte_Inr: "readByte r stream = (Inr b, stream') \<Longrightarrow> stream = b # stream'"
  by (cases stream) (auto simp: readByte_def port_read_def min_def take_Cons' drop_Cons' split: sum.splits list.splits if_splits)

lemma readByte_Inl: "readByte r stream = (Inl e, stream') \<Longrightarrow> stream' = stream"
  by (auto simp: readByte_def port_read_def split: sum.splits list.splits)

text \<open>What is received is a frame that stands in the stream, and everything up to its end is consumed.\<close>

lemma recv_loop_sound:
  "recv_loop deadline raw stream obs = Some (Inr f, stream') \<Longrightarrow> partial_frame raw \<Longrightarrow>
   \<exists>skipped frame. raw @ stream = skipped @ frame @ stream' \<and> framed frame \<and> f = decodeFrame frame"
proof (induction deadline raw stream obs rule: recv_loop.induct)
  case (2 deadline raw stream now r obs)
  show ?case
  proof (cases "raw = []")
    case outer: True
    obtain got s where g: "readByte r stream = (got, s)" by fastforce
    show ?thesis
    proof (cases got)
      case (Inl e)
      with 2 outer g readByte_Inl [of r stream e s] show ?thesis
        by (auto simp: partial_frame_def split: if_splits device_error.splits)
    next
      case (Inr b)
      then have st: "stream = b # s" using g readByte_Inr by simp
      show ?thesis
      proof (cases "b = 0x0F")
        case True
        with 2 outer g Inr st show ?thesis by (auto simp: partial_frame_def split: if_splits)
      next
        case False
        then have "\<exists>skipped frame. s = skipped @ frame @ stream' \<and> framed frame \<and> f = decodeFrame frame"
          using 2 outer g Inr by (auto simp: partial_frame_def split: if_splits)
        then obtain skipped frame where "s = skipped @ frame @ stream'" "framed frame" "f = decodeFrame frame" by blast
        then show ?thesis using st outer by (intro exI [of _ "b # skipped"] exI [of _ frame]) simp
      qed
    qed
  next
    case inner: False
    obtain got s where g: "port_read (kSbusFrameBytes - length raw) r stream = (got, s)" by fastforce
    show ?thesis
    proof (cases got)
      case (Inl e)
      with g port_read_Inl have "s = stream" by fastforce
      with 2 inner g Inl show ?thesis by (auto split: if_splits device_error.splits)
    next
      case (Inr bs)
      then have st: "stream = bs @ s" and len: "length (raw @ bs) \<le> 25"
        using g port_read_Inr [of _ r stream bs s] "2.prems"(2) inner by (fastforce simp: partial_frame_def)+
      consider "length (raw @ bs) < 25" | "length (raw @ bs) = 25" "(raw @ bs) ! 24 \<noteq> 0" | "length (raw @ bs) = 25" "(raw @ bs) ! 24 = 0"
        using len by linarith
      then show ?thesis
      proof cases
        case 1
        with 2 inner g Inr st show ?thesis by (auto simp: Let_def partial_frame_def split: if_splits)
      next
        case 2
        then have "\<exists>skipped frame. s = skipped @ frame @ stream' \<and> framed frame \<and> f = decodeFrame frame"
          using "2.IH" "2.prems" inner g Inr by (auto simp: Let_def partial_frame_def split: if_splits)
        then obtain skipped frame where "s = skipped @ frame @ stream'" "framed frame" "f = decodeFrame frame" by blast
        then show ?thesis using st by (intro exI [of _ "raw @ bs @ skipped"] exI [of _ frame]) simp
      next
        case 3
        then show ?thesis using "2.prems" inner g Inr st
          by (intro exI [of _ "[]"] exI [of _ "raw @ bs"]) (auto simp: Let_def framed_def partial_frame_def split: if_splits)
      qed
    qed
  qed
qed simp


text \<open>
  A frame is received whatever the sizes of the pieces in which the port delivers it. \<open>punctual\<close> observations are before the
  deadline and see at most timeouts of the port; \<open>deliveries\<close> counts those that find bytes.
\<close>

definition punctual :: "int \<Rightarrow> observation \<Rightarrow> bool" where
  "punctual deadline ob \<longleftrightarrow> fst ob < deadline \<and> (case snd ob of Inl (Device_timeout s) \<Rightarrow> True | Inl e \<Rightarrow> False | Inr c \<Rightarrow> True)"

definition delivers :: "observation \<Rightarrow> bool" where
  "delivers ob \<longleftrightarrow> (case snd ob of Inl e \<Rightarrow> False | Inr c \<Rightarrow> 0 < c)"

definition deliveries :: "observation list \<Rightarrow> nat" where
  "deliveries obs = length (filter delivers obs)"

lemma deliveries_simps [simp]:
  "deliveries [] = 0" "deliveries (ob # obs) = (if delivers ob then Suc (deliveries obs) else deliveries obs)"
  by (simp_all add: deliveries_def)

lemma port_read_cases:
  assumes "punctual deadline (now, r)"
  obtains (quiet) m where "port_read n r stream = (Inl (Device_timeout m), stream)" "\<not> delivers (now, r)"
    | (bytes) c where "port_read n r stream = (Inr (take (min n c) stream), drop (min n c) stream)" "delivers (now, r) \<longleftrightarrow> 0 < c"
  using assms by (cases r) (auto simp: punctual_def delivers_def port_read_def split: device_error.splits)

lemma recv_inner_finds:
  "raw @ stream = frame @ rest \<Longrightarrow> raw \<noteq> [] \<Longrightarrow> length raw < 25 \<Longrightarrow> framed frame \<Longrightarrow> list_all (punctual deadline) obs \<Longrightarrow>
   25 \<le> length raw + deliveries obs \<Longrightarrow> recv_loop deadline raw stream obs = Some (Inr (decodeFrame frame), rest)"
proof (induction obs arbitrary: raw stream)
  case (Cons ob obs)
  obtain now r where ob: "ob = (now, r)" by fastforce
  with Cons.prems have punct: "punctual deadline (now, r)" and early: "now < deadline" by (auto simp: punctual_def)
  from punct show ?case
  proof (cases rule: port_read_cases [where n = "25 - length raw" and stream = stream])
    case (quiet m)
    with Cons ob early show ?thesis by auto
  next
    case (bytes c)
    define bs where "bs = take (min (25 - length raw) c) stream"
    define s where "s = drop (min (25 - length raw) c) stream"
    have stream: "stream = bs @ s" by (simp add: bs_def s_def)
    have read: "port_read (25 - length raw) r stream = (Inr bs, s)" using bytes by (simp add: bs_def s_def)
    have whole: "(raw @ bs) @ s = frame @ rest" using Cons.prems(1) stream by simp
    have enough: "25 - length raw \<le> length stream"
      using Cons.prems(1,4) by (metis append_eq_append_conv_if framed_def le_diff_conv length_append le_add1 add.commute)
    then have len: "length bs = min (25 - length raw) c" by (simp add: bs_def)
    show ?thesis
    proof (cases "length (raw @ bs) < 25")
      case True
      then have "recv_loop deadline (raw @ bs) s obs = Some (Inr (decodeFrame frame), rest)"
        using Cons.prems ob bytes(2) len by (intro Cons.IH [OF whole]) (auto simp: min_def split: if_splits)
      with True ob early Cons.prems(2) read show ?thesis by (simp add: Let_def)
    next
      case False
      then have "length (raw @ bs) = length frame" using len Cons.prems(3,4) by (auto simp: framed_def min_def split: if_splits)
      then have "raw @ bs = frame" "s = rest" using whole append_eq_append_conv by blast+
      with False ob early Cons.prems(2,4) read show ?thesis by (simp add: Let_def framed_def)
    qed
  qed
qed simp

lemma recv_outer_finds:
  "0x0F \<notin> set noise \<Longrightarrow> framed frame \<Longrightarrow> list_all (punctual deadline) obs \<Longrightarrow> length noise + 25 \<le> deliveries obs \<Longrightarrow>
   recv_loop deadline [] (noise @ frame @ rest) obs = Some (Inr (decodeFrame frame), rest)"
proof (induction obs arbitrary: noise)
  case (Cons ob obs)
  obtain now r where ob: "ob = (now, r)" by fastforce
  with Cons.prems have punct: "punctual deadline (now, r)" and early: "now < deadline" by (auto simp: punctual_def)
  let ?stream = "noise @ frame @ rest"
  have quietly: ?case if "readByte r ?stream = (Inl (Device_timeout m), ?stream)" "\<not> delivers ob" for m
    using that Cons ob early by simp
  from punct show ?case
  proof (cases rule: port_read_cases [where n = 1 and stream = ?stream])
    case (quiet m)
    then have "readByte r ?stream = (Inl (Device_timeout m), ?stream)" by (simp add: readByte_def)
    with quietly quiet ob show ?thesis by blast
  next
    case (bytes c)
    show ?thesis
    proof (cases "c = 0")
      case True
      with bytes have "readByte r ?stream = (Inl (Device_timeout ''SBUSReader readByte''), ?stream)"
        by (simp add: readByte_def)
      with quietly True bytes(2) ob show ?thesis by blast
    next
      case False
      have byte: "readByte r (b # bs) = (Inr b, bs)" if "?stream = b # bs" for b bs
        using bytes False that by (simp add: readByte_def min_def)
      show ?thesis
      proof (cases noise)
        case Nil
        from Cons.prems(2) obtain tail where frame: "frame = 0x0F # tail" by (cases frame) (auto simp: framed_def)
        then have "recv_loop deadline [0x0F] (tail @ rest) obs = Some (Inr (decodeFrame frame), rest)"
          using Cons.prems ob Nil by (intro recv_inner_finds) (auto split: if_splits)
        with byte [of "0x0F" "tail @ rest"] Nil frame ob early show ?thesis by simp
      next
        case (Cons b noise')
        then have "recv_loop deadline [] (noise' @ frame @ rest) obs = Some (Inr (decodeFrame frame), rest)"
          using Cons.prems ob by (intro Cons.IH) (auto split: if_splits)
        with byte [of b "noise' @ frame @ rest"] Cons Cons.prems(1) ob early show ?thesis by simp
      qed
    qed
  qed
qed simp

lemma recv_loop_returns:
  "list_ex (\<lambda>ob. deadline \<le> fst ob) obs \<Longrightarrow> recv_loop deadline raw stream obs \<noteq> None"
proof (induction deadline raw stream obs rule: recv_loop.induct)
  case (2 deadline raw stream now r obs)
  then show ?case
    by (auto simp: Let_def split: prod.splits sum.splits device_error.splits)
qed simp


subsection \<open>Receiving what was sent\<close>

lemma encoded_framed: "framed (sbus_encode chs flags)"
  by (simp add: framed_def sbus_encode_length) (simp add: sbus_encode_def nth_append)

lemma channels_whole:
  assumes "i < 16" "i \<notin> {2, 5, 10, 13 :: nat}"
  shows "min 11 (16 - i * 11 mod 8) = 11"
proof -
  have "list_all (\<lambda>i. i \<in> {2, 5, 10, 13} \<or> min 11 (16 - i * 11 mod 8) = 11) [0..<16]" by code_simp
  with assms show ?thesis by (auto simp: list_all_iff simp del: upt_Suc upt_rec_numeral)
qed

text \<open>C20: After any noise without a start byte, \<open>recvFrame\<close> receives the next frame in whatever pieces it arrives,
  consumes it exactly and decodes it. Of the channels that were sent, it recovers all but the third, the sixth, the
  eleventh and the fourteenth exactly; of the third and the eleventh it loses the eleventh bit, and of the other two the
  tenth and the eleventh. A full throttle of 1811 on the third channel is received as 787.\<close>

theorem sent_channels_received:
  assumes "sr_open reader" "list_all (punctual (start + timeout)) obs" "length noise + 25 \<le> deliveries obs"
    and "0x0F \<notin> set noise" "length chs = 16" "i < 16" "chs ! i < 2048"
  shows "\<exists>f. recvFrame reader start timeout (noise @ sbus_encode chs flags @ rest) obs = Some (Inr f, rest) \<and>
    sf_channels f ! i = take_bit (if i \<in> {2, 10} then 10 else if i \<in> {5, 13} then 9 else 11) (chs ! i) \<and>
    (i \<notin> {2, 5, 10, 13} \<longrightarrow> sf_channels f ! i = chs ! i)"
proof -
  let ?frame = "sbus_encode chs flags"
  have recv: "recvFrame reader start timeout (noise @ ?frame @ rest) obs = Some (Inr (decodeFrame ?frame), rest)"
    using assms recv_outer_finds encoded_framed by (simp add: recvFrame_def)
  have channel: "sf_channels (decodeFrame ?frame) ! i = take_bit (min 11 (16 - i * 11 mod 8)) (chs ! i)"
    using decode_encode_channel [OF assms(6)] assms(6) by (simp add: decodeFrame_def Let_def del: upt_Suc upt_rec_numeral)
  have bits: "min 11 (16 - i * 11 mod 8) = (if i \<in> {2, 10} then 10 else if i \<in> {5, 13} then 9 else 11)"
    using channels_whole [OF assms(6)] by auto
  have "take_bit 11 (chs ! i) = chs ! i"
    using assms(7) by (simp add: word_uint_eq_iff unsigned_take_bit_eq take_bit_int_eq_self_iff word_less_def)
  with recv channel bits show ?thesis by auto
qed

text \<open>What \<open>recvFrame\<close> returns stands in the stream between a start byte and an end byte, everything up to its end is
  consumed and nothing after it; and \<open>recvFrame\<close> returns as soon as it sees the clock at its deadline.\<close>

theorem received_frames_sound:
  "(recvFrame reader start timeout stream obs = Some (Inr f, stream') \<longrightarrow>
     (\<exists>skipped frame. stream = skipped @ frame @ stream' \<and> length frame = 25 \<and> hd frame = 0x0F \<and> frame ! 24 = 0 \<and> f = decodeFrame frame)) \<and>
   (list_ex (\<lambda>ob. start + timeout \<le> fst ob) obs \<longrightarrow> recvFrame reader start timeout stream obs \<noteq> None)"
proof (intro conjI impI)
  assume "recvFrame reader start timeout stream obs = Some (Inr f, stream')"
  then have "recv_loop (start + timeout) [] stream obs = Some (Inr f, stream')" by (simp add: recvFrame_def split: if_splits)
  from recv_loop_sound [OF this]
  show "\<exists>skipped frame. stream = skipped @ frame @ stream' \<and> length frame = 25 \<and> hd frame = 0x0F \<and> frame ! 24 = 0 \<and> f = decodeFrame frame"
    by (auto simp: partial_frame_def framed_def)
next
  assume "list_ex (\<lambda>ob. start + timeout \<le> fst ob) obs"
  then show "recvFrame reader start timeout stream obs \<noteq> None"
    using recv_loop_returns by (simp add: recvFrame_def)
qed


definition demo_receiver :: SBUSReader where
  "demo_receiver = (new_SBUSReader ''/dev/ttyS1'' \<lparr>sb_baudRate = 100000, sb_nonBlocking = True\<rparr>)\<lparr>sr_open := True\<rparr>"

definition demo_sticks :: "u16 list" where
  "demo_sticks = [992, 992, 1811, 992, 172, 172, 172, 172, 172, 172, 172, 172, 172, 172, 172, 172]"

theorem sent_channels_received_witness:
  "\<exists>f. recvFrame demo_receiver 0 500 ([0x33] @ sbus_encode demo_sticks 0 @ []) (replicate 26 (7, Inr 3)) = Some (Inr f, []) \<and>
     sf_channels f ! 2 = 787 \<and> sf_channels f ! 2 \<noteq> demo_sticks ! 2"
proof -
  have bits: "take_bit 10 (1811 :: u16) = 787" by code_simp
  have obs: "list_all (punctual (0 + 500)) (replicate 26 (7, Inr 3))" "deliveries (replicate 26 (7, Inr 3)) = 26"
    by (simp_all add: list_all_iff punctual_def deliveries_def delivers_def)
  show ?thesis
    using sent_channels_received [of demo_receiver 0 500 "replicate 26 (7, Inr 3)" "[0x33]" demo_sticks 2 0 "[]"] obs bits
    by (simp add: demo_receiver_def demo_sticks_def) auto
qed

theorem received_frames_sound_witness:
  "recvFrame demo_receiver 0 500 [0x0F] [(7, Inr 1), (600, Inr 1)] \<noteq> None"
  using received_frames_sound [of demo_receiver 0 500 "[0x0F]" "[(7, Inr 1), (600, Inr 1)]"]
  by simp

end
