(* ===== verification/Float_Bounds.thy ===== *)
theory Float_Bounds
  imports Float64
begin

section \<open>Rounding keeps to bounds\<close>

text \<open>
  An operation on floating-point numbers rounds its exact result, and rounding never crosses a number that is
  representable. The lemmas say so for bounds that are multiples of a power of two, integers among them.
\<close>

lemma round_even_le: "r \<le> of_int n \<Longrightarrow> round_even r \<le> n"
proof -
  assume r: "r \<le> of_int n"
  then have f: "\<lfloor>r\<rfloor> \<le> n" by (simp add: floor_le_iff le_less_trans)
  show ?thesis
  proof (cases "\<lfloor>r\<rfloor> = n")
    case True
    with r have "r = of_int \<lfloor>r\<rfloor>" by linarith
    then show ?thesis using f by (simp add: round_even_def Let_def)
  next
    case False
    with f show ?thesis by (simp add: round_even_def Let_def)
  qed
qed

lemma round_even_ge: "of_int n \<le> r \<Longrightarrow> n \<le> round_even r"
proof -
  assume "of_int n \<le> r"
  then have "n \<le> \<lfloor>r\<rfloor>" by (simp add: le_floor_iff)
  then show ?thesis by (simp add: round_even_def Let_def)
qed

lemma pow2_powi: "pow2 e = power_int 2 e"
  by (simp add: pow2_def power_int_def inverse_eq_divide power_one_over)

lemma pow2_pos [simp]: "0 < pow2 e"
  by (simp add: pow2_powi)

lemma exponent_le:
  assumes "0 < x"
  shows "pow2 (exponent x) \<le> x"
proof -
  obtain p q where pq: "quotient_of x = (p, q)" by fastforce
  have q: "0 < q" using quotient_of_denom_pos [OF pq] .
  have x: "x = of_int p / of_int q" using quotient_of_div [OF pq] .
  then have p: "0 < p" using assms q by (simp add: zero_less_divide_iff)
  define k where "k = bitlen p - bitlen q"
  have up: "p < 2 ^ nat (bitlen p)" "q < 2 ^ nat (bitlen q)" using bitlen_bounds p q by blast+
  have "0 < bitlen p" using up p by (cases "0 < bitlen p") auto
  have "0 < bitlen q" using up q by (cases "0 < bitlen q") auto
  have "(2 :: int) ^ nat (bitlen p - 1) \<le> p" using bitlen_bounds p by blast
  then have "of_int (2 ^ nat (bitlen p - 1)) \<le> (of_int p :: rat)" "(of_int q :: rat) \<le> of_int (2 ^ nat (bitlen q))"
    using up by (simp_all only: of_int_le_iff less_imp_le)
  then have b: "power_int 2 (bitlen p - 1) \<le> (of_int p :: rat)" "(of_int q :: rat) \<le> power_int 2 (bitlen q)"
    using \<open>0 < bitlen p\<close> \<open>0 < bitlen q\<close> by (simp_all add: power_int_def)
  have "pow2 (k - 1) = power_int 2 (bitlen p - 1) / power_int 2 (bitlen q)"
  proof -
    have "k - 1 = (bitlen p - 1) - bitlen q" by (simp add: k_def)
    then show ?thesis by (simp add: pow2_powi power_int_diff)
  qed
  also have "\<dots> \<le> of_int p / of_int q" using b q by (intro frac_le) (use p in auto)
  finally have "pow2 (k - 1) \<le> x" using x by simp
  then show ?thesis by (simp add: exponent_def pq Let_def k_def)
qed

text \<open>Rounding to multiples of a power of two keeps to bounds that are multiples of a larger one.\<close>

lemma round_multiple_bounds:
  assumes "of_int a * pow2 (- k) \<le> x" "x \<le> of_int b * pow2 (- k)" "e \<le> - k"
  shows "of_int a * pow2 (- k) \<le> of_int (round_even (x / pow2 e)) * pow2 e"
    "of_int (round_even (x / pow2 e)) * pow2 e \<le> of_int b * pow2 (- k)"
proof -
  define n where "n = nat (- k - e)"
  have "pow2 (- k) = pow2 e * 2 ^ n"
  proof -
    have "pow2 (- k) = pow2 (e + int n)" using assms(3) by (simp add: n_def)
    then show ?thesis by (simp add: pow2_powi power_int_add)
  qed
  then have scale: "of_int c * pow2 (- k) = of_int (c * 2 ^ n) * pow2 e" for c by simp
  have "of_int (a * 2 ^ n) \<le> x / pow2 e" "x / pow2 e \<le> of_int (b * 2 ^ n)"
    using assms(1,2) unfolding scale by (simp_all only: pos_le_divide_eq pos_divide_le_eq pow2_pos)
  then have "a * 2 ^ n \<le> round_even (x / pow2 e)" "round_even (x / pow2 e) \<le> b * 2 ^ n"
    using round_even_ge round_even_le by blast+
  then have "(of_int (a * 2 ^ n) :: rat) \<le> of_int (round_even (x / pow2 e))" "(of_int (round_even (x / pow2 e)) :: rat) \<le> of_int (b * 2 ^ n)"
    by (simp_all only: of_int_le_iff)
  then show "of_int a * pow2 (- k) \<le> of_int (round_even (x / pow2 e)) * pow2 e"
    "of_int (round_even (x / pow2 e)) * pow2 e \<le> of_int b * pow2 (- k)"
    unfolding scale by (simp_all only: mult_right_mono less_imp_le [OF pow2_pos])
qed

lemma exponent_bound: "x \<noteq> 0 \<Longrightarrow> \<bar>x\<bar> \<le> pow2 k \<Longrightarrow> exponent \<bar>x\<bar> \<le> k"
  using exponent_le [of "\<bar>x\<bar>"] power_int_strict_increasing [of k "exponent \<bar>x\<bar>" "2 :: rat"] by (force simp: pow2_powi)

lemma pow2_mono: "a \<le> b \<Longrightarrow> pow2 a \<le> pow2 b"
  by (simp add: pow2_powi power_int_increasing)

text \<open>\<open>round64\<close> on numbers of at most \<open>2 ^ (52 - k)\<close>, with bounds that are multiples of \<open>2 ^ - k\<close>.\<close>

lemma round64_bounds:
  assumes "of_int a * pow2 (- k) \<le> x" "x \<le> of_int b * pow2 (- k)" "\<bar>x\<bar> \<le> pow2 (52 - k)" "- 970 \<le> k" "k \<le> 1000"
  shows "\<exists>y. round64 x = Fin y \<and> of_int a * pow2 (- k) \<le> y \<and> y \<le> of_int b * pow2 (- k)"
proof (cases "x = 0")
  case True
  with assms(1,2) show ?thesis by (simp add: round64_def)
next
  case False
  define e where "e = max (exponent \<bar>x\<bar>) (-1022) - 52"
  define y where "y = of_int (round_even (x / pow2 e)) * pow2 e"
  have e: "e \<le> - k" using exponent_bound [OF False assms(3)] assms(5) by (simp add: e_def)
  have y: "of_int a * pow2 (- k) \<le> y" "y \<le> of_int b * pow2 (- k)"
    using round_multiple_bounds [OF assms(1,2) e] by (simp_all add: y_def)
  have "pow2 (52 - k) = of_int (2 ^ 52) * pow2 (- k)"
    by (simp add: pow2_powi power_int_diff power_int_minus divide_inverse)
  then have "of_int (- (2 ^ 52)) * pow2 (- k) \<le> x" "x \<le> of_int (2 ^ 52) * pow2 (- k)" using assms(3) by (auto simp: abs_le_iff)
  from round_multiple_bounds [OF this e] have "- pow2 (52 - k) \<le> y" "y \<le> pow2 (52 - k)"
    using \<open>pow2 (52 - k) = of_int (2 ^ 52) * pow2 (- k)\<close> by (simp_all add: y_def)
  moreover have "pow2 (52 - k) < pow2 1024"
    using assms(4) power_int_strict_increasing [of "52 - k" 1024 "2 :: rat"] by (simp add: pow2_powi)
  ultimately have "round64 x = Fin y" using False by (simp add: round64_def Let_def e_def y_def)
  with y show ?thesis by blast
qed

lemma round64_int_bounds:
  assumes "of_int a \<le> x" "x \<le> of_int b" "\<bar>a\<bar> \<le> 2 ^ 52" "\<bar>b\<bar> \<le> 2 ^ 52"
  shows "\<exists>y. round64 x = Fin y \<and> of_int a \<le> y \<and> y \<le> of_int b"
proof -
  have "(of_int \<bar>a\<bar> :: rat) \<le> of_int (2 ^ 52)" "(of_int \<bar>b\<bar> :: rat) \<le> of_int (2 ^ 52)"
    using assms(3,4) by (simp_all only: of_int_le_iff)
  then have "\<bar>x\<bar> \<le> pow2 (52 - 0)" using assms(1,2) by (simp add: pow2_def)
  with round64_bounds [of a 0 x b] assms(1,2) show ?thesis by (simp add: pow2_def)
qed

lemma round64_int [simp]: "\<bar>a\<bar> \<le> 2 ^ 52 \<Longrightarrow> round64 (of_int a) = Fin (of_int a)"
  using round64_int_bounds [of a "of_int a" a] by auto

end
