(* ===== verification/Sbus_Scaling.thy ===== *)
theory Sbus_Scaling
  imports Sbus_Reader Float_Bounds
begin

section \<open>Scaling of SBUS channels (platform/lpio/src/SBUSReader.cpp)\<close>

text \<open>
  The conversions of a raw channel value to a position between -1 and 1, a percentage and a pulse width. They compute
  in single precision on operands of at most 16 bits, so no operation overflows and the type \<^verbatim>\<open>float\<close>
  is modelled by the rational it denotes: \<open>float_round\<close> rounds the exact result of an operation.
\<close>

subsection \<open>Single precision\<close>

definition float_round :: "rat \<Rightarrow> rat" where
  "float_round x =
     (if x = 0 then 0 else let e = max (exponent \<bar>x\<bar>) (-126) - 23 in of_int (round_even (x / pow2 e)) * pow2 e)"

definition rawToNormalized :: "u16 \<Rightarrow> SbusChannelInfo \<Rightarrow> rat" where
  "rawToNormalized raw info =
     (if raw \<le> sc_centerValue info then
        let denom = float_round (of_int (uint (sc_centerValue info) - uint (sc_minValue info))) in
        if denom \<le> 0 then 0
        else float_round (- 1 + float_round (float_round (of_int (uint raw - uint (sc_minValue info))) / denom))
      else
        let denom = float_round (of_int (uint (sc_maxValue info) - uint (sc_centerValue info))) in
        if denom \<le> 0 then 0
        else float_round (float_round (of_int (uint raw - uint (sc_centerValue info))) / denom))"

definition rawToPercent :: "u16 \<Rightarrow> SbusChannelInfo \<Rightarrow> rat" where
  "rawToPercent raw info =
     (let range = float_round (of_int (uint (sc_maxValue info) - uint (sc_minValue info))) in
      if range \<le> 0 then 0
      else float_round (float_round (100 * float_round (of_int (uint raw - uint (sc_minValue info)))) / range))"

definition rawToMicroseconds :: "u16 \<Rightarrow> SbusChannelInfo \<Rightarrow> rat" where
  "rawToMicroseconds raw info =
     (let range = float_round (of_int (uint (sc_maxValue info) - uint (sc_minValue info))) in
      if range \<le> 0 then 1500
      else float_round (1000 + float_round (float_round (float_round (of_int (uint raw - uint (sc_minValue info))) * 1000) / range)))"

subsection \<open>Rounding keeps to integer bounds\<close>

lemma float_round_int_bounds:
  assumes "of_int a \<le> x" "x \<le> of_int b" "\<bar>a\<bar> \<le> 2 ^ 23" "\<bar>b\<bar> \<le> 2 ^ 23"
  shows "of_int a \<le> float_round x \<and> float_round x \<le> of_int b"
proof (cases "x = 0")
  case True
  with assms show ?thesis by (simp add: float_round_def)
next
  case False
  define e where "e = max (exponent \<bar>x\<bar>) (-126) - 23"
  have "(of_int \<bar>a\<bar> :: rat) \<le> of_int (2 ^ 23)" "(of_int \<bar>b\<bar> :: rat) \<le> of_int (2 ^ 23)"
    using assms(3,4) by (simp_all only: of_int_le_iff)
  then have "\<bar>x\<bar> \<le> pow2 23" using assms(1,2) by (simp add: pow2_def)
  then have e: "e \<le> - 0" using exponent_bound [OF False] by (simp add: e_def)
  have one: "pow2 (- 0) = 1" by (simp add: pow2_def)
  have "of_int a * pow2 (- 0) \<le> x" "x \<le> of_int b * pow2 (- 0)" using assms(1,2) one by simp_all
  from round_multiple_bounds [OF this e] False one show ?thesis by (simp add: float_round_def Let_def e_def)
qed

lemma float_round_int [simp]: "\<bar>a\<bar> \<le> 2 ^ 23 \<Longrightarrow> float_round (of_int a) = of_int a"
  using float_round_int_bounds [of a "of_int a" a] by simp


subsection \<open>The ranges of the scaled values\<close>

lemma float_quotient_bounds:
  assumes "0 \<le> d" "d \<le> n" "0 < n" "n \<le> 65535"
  shows "0 \<le> float_round (of_int d / of_int n) \<and> float_round (of_int d / of_int n) \<le> 1"
proof -
  have "(0 :: rat) \<le> of_int d / of_int n" "of_int d / of_int n \<le> (1 :: rat)" using assms by simp_all
  then show ?thesis using float_round_int_bounds [of 0 "of_int d / of_int n" 1] by simp
qed

text \<open>A raw value within the range of its channel scales to a position between -1 and 1, negative at most below the
  centre, to between 0 and 100 percent, and to a pulse of 1000 to 2000 microseconds, rounding included.\<close>

theorem scaled_values_in_range:
  assumes "sc_minValue info \<le> sc_centerValue info" "sc_centerValue info \<le> sc_maxValue info" "sc_maxValue info < 2048"
    and "sc_minValue info \<le> raw" "raw \<le> sc_maxValue info"
  shows "\<bar>rawToNormalized raw info\<bar> \<le> 1 \<and> (sc_centerValue info < raw \<longrightarrow> 0 \<le> rawToNormalized raw info) \<and>
    0 \<le> rawToPercent raw info \<and> rawToPercent raw info \<le> 100 \<and>
    1000 \<le> rawToMicroseconds raw info \<and> rawToMicroseconds raw info \<le> 2000"
proof -
  define lo ce hi r where "lo = uint (sc_minValue info)" and "ce = uint (sc_centerValue info)"
    and "hi = uint (sc_maxValue info)" and "r = uint raw"
  have o: "0 \<le> lo" "lo \<le> ce" "ce \<le> hi" "hi < 2048" "lo \<le> r" "r \<le> hi"
    using assms by (simp_all add: lo_def ce_def hi_def r_def word_le_def word_less_def)
  have small: "float_round (of_int a - of_int b) = of_int a - of_int b" if "a \<in> {lo, ce, hi, r}" "b \<in> {lo, ce, hi, r}" for a b
    using that o float_round_int [of "a - b"] by auto
  have b: "\<bar>(r - lo) * 1000\<bar> \<le> 2 ^ 23" "\<bar>100 * (r - lo)\<bar> \<le> 2 ^ 23" using o by (simp_all add: abs_le_iff)
  have times: "float_round (of_int r * 1000 - of_int lo * 1000) = 1000 * of_int r - 1000 * of_int lo"
    "float_round (100 * of_int r - 100 * of_int lo) = 100 * of_int r - 100 * of_int lo"
    using float_round_int [OF b(1)] float_round_int [OF b(2)] by (simp_all add: algebra_simps)
  note raw = lo_def [symmetric] ce_def [symmetric] hi_def [symmetric] r_def [symmetric] small times
  have norm: "\<bar>rawToNormalized raw info\<bar> \<le> 1 \<and> (ce < r \<longrightarrow> 0 \<le> rawToNormalized raw info)"
  proof (cases "r \<le> ce")
    case True
    then have n: "rawToNormalized raw info = (if ce \<le> lo then 0 else float_round (- 1 + float_round ((of_int r - of_int lo) / (of_int ce - of_int lo))))"
      by (simp add: rawToNormalized_def Let_def word_le_def raw)
    show ?thesis
    proof (cases "ce \<le> lo")
      case False
      then have "0 \<le> float_round ((of_int r - of_int lo) / (of_int ce - of_int lo)) \<and> float_round ((of_int r - of_int lo) / (of_int ce - of_int lo)) \<le> 1"
        using o True float_quotient_bounds [of "r - lo" "ce - lo"] by simp
      with float_round_int_bounds [of "-1" "- 1 + float_round ((of_int r - of_int lo) / (of_int ce - of_int lo))" 0] n True
      show ?thesis by (simp add: abs_le_iff)
    qed (use n True in simp)
  next
    case False
    then have n: "rawToNormalized raw info = float_round ((of_int r - of_int ce) / (of_int hi - of_int ce))"
      using o by (simp add: rawToNormalized_def Let_def word_le_def raw)
    have "0 \<le> float_round ((of_int r - of_int ce) / (of_int hi - of_int ce)) \<and> float_round ((of_int r - of_int ce) / (of_int hi - of_int ce)) \<le> 1"
      using o False float_quotient_bounds [of "r - ce" "hi - ce"] by simp
    with n show ?thesis by (simp add: abs_le_iff)
  qed
  have scaled: "0 \<le> float_round (of_int c * (of_int r - of_int lo) / (of_int hi - of_int lo)) \<and>
      float_round (of_int c * (of_int r - of_int lo) / (of_int hi - of_int lo)) \<le> of_int c"
    if "lo < hi" "0 \<le> c" "c \<le> 1000" for c
  proof -
    have "c * (r - lo) \<le> c * (hi - lo)" using that o by (intro mult_left_mono) auto
    then have "of_int (c * (r - lo)) \<le> (of_int (c * (hi - lo)) :: rat)" by (simp only: of_int_le_iff)
    then have le: "of_int c * (of_int r - of_int lo) / (of_int hi - of_int lo) \<le> (of_int c :: rat)"
      using that by (simp add: pos_divide_le_eq)
    have "(0 :: rat) \<le> of_int c * (of_int r - of_int lo) / (of_int hi - of_int lo)"
      using that o by simp
    with le float_round_int_bounds [of 0 "of_int c * (of_int r - of_int lo) / (of_int hi - of_int lo)" c] that show ?thesis by simp
  qed
  have percent: "0 \<le> rawToPercent raw info \<and> rawToPercent raw info \<le> 100"
    using scaled [of 100] o by (auto simp: rawToPercent_def Let_def raw)
  have "1000 \<le> float_round (1000 + q) \<and> float_round (1000 + q) \<le> 2000" if "0 \<le> q" "q \<le> 1000" for q
    using float_round_int_bounds [of 1000 "1000 + q" 2000] that by simp
  then have "1000 \<le> rawToMicroseconds raw info \<and> rawToMicroseconds raw info \<le> 2000"
    using scaled [of 1000] o by (auto simp: rawToMicroseconds_def Let_def raw)
  with norm percent show ?thesis by (simp add: ce_def r_def word_less_def)
qed

theorem scaled_values_in_range_witness:
  "\<bar>rawToNormalized 1000 (stick 0 ''CH1'' ''Roll'')\<bar> \<le> 1 \<and> rawToMicroseconds 1000 (stick 0 ''CH1'' ''Roll'') \<le> 2000"
  using scaled_values_in_range [of "stick 0 ''CH1'' ''Roll''" 1000] by (simp add: stick_def abs_le_iff)

end
