(* ===== verification/Modbus_Tcp.thy ===== *)
theory Modbus_Tcp
  imports Prelude
begin

section \<open>Modbus over TCP (apps/agri\_station\_demo/agri\_modbus\_tcp.hpp)\<close>

text \<open>
  The register bank, the server's handling of a request and the client's two requests. A socket is the pair of functions
  \<open>net\<close> on an abstract world: \<open>nt_recv n\<close> returns at least one and at most \<open>n\<close> bytes or, when the call fails
  or the peer has closed, none; \<open>nt_send\<close> returns how many bytes it took, none when it fails.
\<close>

subsection \<open>Numbers in a frame\<close>

definition Be16 :: "u8 list \<Rightarrow> u16" where
  "Be16 p = push_bit 8 (ucast (p ! 0)) OR ucast (p ! 1)"

definition PutBe16 :: "u16 \<Rightarrow> u8 list" where
  "PutBe16 v = [ucast (drop_bit 8 v AND 0xFF), ucast (v AND 0xFF)]"

subsection \<open>The register bank\<close>

type_synonym bank = "u16 list"

definition ReadHolding :: "u16 \<Rightarrow> u16 \<Rightarrow> bank \<Rightarrow> u16 list option" where
  "ReadHolding start quantity regs =
     (if quantity = 0 \<or> length regs < unat start + unat quantity then None
      else Some (take (unat quantity) (drop (unat start) regs)))"

definition WriteSingle :: "u16 \<Rightarrow> u16 \<Rightarrow> bank \<Rightarrow> bank option" where
  "WriteSingle address v regs = (if length regs \<le> unat address then None else Some (regs[unat address := v]))"

definition bank_Set :: "u16 \<Rightarrow> u16 \<Rightarrow> bank \<Rightarrow> bank" where
  "bank_Set address v regs = (if unat address < length regs then regs[unat address := v] else regs)"

definition bank_Get :: "u16 \<Rightarrow> bank \<Rightarrow> u16" where
  "bank_Get address regs = (if unat address < length regs then regs ! unat address else 0)"

subsection \<open>The server\<close>

abbreviation "kFcReadHolding \<equiv> (0x03 :: u8)"
abbreviation "kFcWriteSingle \<equiv> (0x06 :: u8)"
abbreviation "kExIllegalFunction \<equiv> (0x01 :: u8)"
abbreviation "kExIllegalDataAddress \<equiv> (0x02 :: u8)"
abbreviation "kExIllegalDataValue \<equiv> (0x03 :: u8)"

definition HandlePdu :: "bank \<Rightarrow> u8 list \<Rightarrow> u8 list option \<times> bank" where
  "HandlePdu regs pdu =
     (if length pdu < 1 then (None, regs)
      else let fc = pdu ! 0 in
        if fc = kFcReadHolding then
          if length pdu < 5 then (None, regs)
          else let start = Be16 (drop 1 pdu); qty = Be16 (drop 3 pdu) in
            if qty < 1 \<or> 125 < qty then (Some [fc OR 0x80, kExIllegalDataValue], regs)
            else (case ReadHolding start qty regs of
                None \<Rightarrow> (Some [fc OR 0x80, kExIllegalDataAddress], regs)
              | Some values \<Rightarrow> (Some (fc # of_nat (length values * 2) # concat (map PutBe16 values)), regs))
        else if fc = kFcWriteSingle then
          if length pdu < 5 then (None, regs)
          else let addr = Be16 (drop 1 pdu); v = Be16 (drop 3 pdu) in
            (case WriteSingle addr v regs of
                None \<Rightarrow> (Some [fc OR 0x80, kExIllegalDataAddress], regs)
              | Some regs' \<Rightarrow> (Some (take 5 pdu), regs'))
        else (Some [fc OR 0x80, kExIllegalFunction], regs))"

record 'w net =
  nt_recv :: "nat \<Rightarrow> 'w \<Rightarrow> u8 list \<times> 'w"
  nt_send :: "u8 list \<Rightarrow> 'w \<Rightarrow> nat \<times> 'w"

function ReadFull_from :: "'w net \<Rightarrow> nat \<Rightarrow> u8 list \<Rightarrow> 'w \<Rightarrow> u8 list option \<times> 'w" where
  "ReadFull_from N n got w =
     (if n \<le> length got then (Some got, w)
      else case nt_recv N (n - length got) w of (r, w') \<Rightarrow>
        if r = [] then (None, w') else ReadFull_from N n (got @ r) w')"
  by pat_completeness auto
termination by (relation "measure (\<lambda>(N, n, got, w). n - length got)") (auto simp: neq_Nil_conv)

declare ReadFull_from.simps [simp del]

definition ReadFull :: "'w net \<Rightarrow> nat \<Rightarrow> 'w \<Rightarrow> u8 list option \<times> 'w" where
  "ReadFull N n w = ReadFull_from N n [] w"

function WriteFull :: "'w net \<Rightarrow> u8 list \<Rightarrow> 'w \<Rightarrow> bool \<times> 'w" where
  "WriteFull N buf w =
     (if buf = [] then (True, w)
      else case nt_send N buf w of (sent, w') \<Rightarrow> if sent = 0 then (False, w') else WriteFull N (drop sent buf) w')"
  by pat_completeness auto
termination by (relation "measure (\<lambda>(N, buf, w). length buf)") auto

declare WriteFull.simps [simp del]

text \<open>One request of a connection; \<open>False\<close> ends the connection.\<close>

definition mbap_length :: "u8 list \<Rightarrow> u16" where
  "mbap_length mbap = Be16 (drop 4 mbap)"

definition response_frame :: "u8 list \<Rightarrow> u8 list \<Rightarrow> u8 list" where
  "response_frame mbap resp_pdu = take 4 mbap @ PutBe16 (of_nat (1 + length resp_pdu)) @ [mbap ! 6] @ resp_pdu"

definition ServeOneRequest :: "'w net \<Rightarrow> bank \<Rightarrow> 'w \<Rightarrow> bool \<times> bank \<times> 'w" where
  "ServeOneRequest N regs w =
     (case ReadFull N 7 w of
        (None, w) \<Rightarrow> (False, regs, w)
      | (Some mbap, w) \<Rightarrow>
          if Be16 (drop 2 mbap) \<noteq> 0 \<or> mbap_length mbap < 2 \<or> 260 < mbap_length mbap then (False, regs, w)
          else (case ReadFull N (unat (mbap_length mbap) - 1) w of
              (None, w) \<Rightarrow> (False, regs, w)
            | (Some pdu, w) \<Rightarrow> (case HandlePdu regs pdu of
                (None, regs) \<Rightarrow> (False, regs, w)
              | (Some resp_pdu, regs) \<Rightarrow> (case WriteFull N (response_frame mbap resp_pdu) w of (ok, w) \<Rightarrow> (ok, regs, w)))))"

subsection \<open>The client\<close>

record TcpClient =
  tc_fd :: "int"
  tc_timeout_ms :: int
  tc_next_tid :: u16

definition new_TcpClient :: TcpClient where
  "new_TcpClient = \<lparr>tc_fd = -1, tc_timeout_ms = 500, tc_next_tid = 1\<rparr>"

definition tc_connected :: "TcpClient \<Rightarrow> bool" where
  "tc_connected c \<longleftrightarrow> 0 \<le> tc_fd c"

definition tc_Close :: "TcpClient \<Rightarrow> TcpClient" where
  "tc_Close c = c\<lparr>tc_fd := -1\<rparr>"

definition request_frame :: "u16 \<Rightarrow> u8 \<Rightarrow> u8 \<Rightarrow> u16 \<Rightarrow> u16 \<Rightarrow> u8 list" where
  "request_frame tid unit fc a b = PutBe16 tid @ PutBe16 0 @ PutBe16 6 @ [unit, fc] @ PutBe16 a @ PutBe16 b"

text \<open>The part the two requests share: send the request, read the header of the answer, check it, read the rest.\<close>

definition tc_exchange :: "'w net \<Rightarrow> u8 \<Rightarrow> u8 list \<Rightarrow> bool \<Rightarrow> TcpClient \<Rightarrow> 'w \<Rightarrow> u8 list option \<times> TcpClient \<times> 'w" where
  "tc_exchange N unit req check_max c w =
     (case WriteFull N req w of (sent, w) \<Rightarrow>
        if \<not> sent then (None, tc_Close c, w)
        else case ReadFull N 7 w of
            (None, w) \<Rightarrow> (None, tc_Close c, w)
          | (Some mbap, w) \<Rightarrow>
              if mbap_length mbap < 2 \<or> (check_max \<and> 260 < mbap_length mbap) \<or> mbap ! 6 \<noteq> unit then (None, tc_Close c, w)
              else (case ReadFull N (unat (mbap_length mbap) - 1) w of
                  (None, w) \<Rightarrow> (None, tc_Close c, w)
                | (Some pdu, w) \<Rightarrow> (Some pdu, c, w)))"

definition ReadHoldingRegisters :: "'w net \<Rightarrow> u8 \<Rightarrow> u16 \<Rightarrow> u16 \<Rightarrow> TcpClient \<Rightarrow> 'w \<Rightarrow> u16 list option \<times> TcpClient \<times> 'w" where
  "ReadHoldingRegisters N unit start quantity c w =
     (if \<not> tc_connected c \<or> quantity = 0 \<or> 125 < quantity then (None, c, w)
      else case tc_exchange N unit (request_frame (tc_next_tid c) unit kFcReadHolding start quantity) True
             (c\<lparr>tc_next_tid := tc_next_tid c + 1\<rparr>) w of
          (None, c, w) \<Rightarrow> (None, c, w)
        | (Some pdu, c, w) \<Rightarrow>
            if length pdu < 2 \<or> pdu ! 0 AND 0x80 \<noteq> 0 \<or> pdu ! 0 \<noteq> kFcReadHolding then (None, c, w)
            else if unat (pdu ! 1) \<noteq> unat quantity * 2 \<or> length pdu < 2 + unat (pdu ! 1) then (None, c, w)
            else (Some (map (\<lambda>i. Be16 (drop (2 + i * 2) pdu)) [0..<unat quantity]), c, w))"

definition WriteSingleRegister :: "'w net \<Rightarrow> u8 \<Rightarrow> u16 \<Rightarrow> u16 \<Rightarrow> TcpClient \<Rightarrow> 'w \<Rightarrow> bool \<times> TcpClient \<times> 'w" where
  "WriteSingleRegister N unit address v c w =
     (if \<not> tc_connected c then (False, c, w)
      else case tc_exchange N unit (request_frame (tc_next_tid c) unit kFcWriteSingle address v) False
             (c\<lparr>tc_next_tid := tc_next_tid c + 1\<rparr>) w of
          (None, c, w) \<Rightarrow> (False, c, w)
        | (Some pdu, c, w) \<Rightarrow> (5 \<le> length pdu \<and> pdu ! 0 = kFcWriteSingle, c, w))"


subsection \<open>Facts on frames\<close>

lemma byte_masks: "(0xFF :: u16) = mask 8"
  by (simp add: mask_eq_exp_minus_1)

lemma PutBe16_length [simp]: "length (PutBe16 v) = 2"
  by (simp add: PutBe16_def)

lemma word_eq_bytes: "push_bit 8 (ucast (ucast (drop_bit 8 v AND 0xFF) :: u8)) OR ucast (ucast (v AND 0xFF) :: u8) = (v :: u16)"
proof (rule bit_eqI)
  fix n
  show "bit (push_bit 8 (ucast (ucast (drop_bit 8 v AND 0xFF) :: u8)) OR ucast (ucast (v AND 0xFF) :: u8) :: u16) n \<longleftrightarrow> bit v n"
    using bit_imp_le_length [of v n] by (auto simp: byte_masks bit_simps)
qed

lemma Be16_PutBe16 [simp]: "Be16 (PutBe16 v @ rest) = v" "Be16 (PutBe16 v) = v"
  by (simp_all add: Be16_def PutBe16_def word_eq_bytes)

lemma Be16_concat:
  "i < length vs \<Longrightarrow> Be16 (drop (i * 2) (concat (map PutBe16 vs))) = vs ! i"
proof (induction vs arbitrary: i)
  case (Cons v vs)
  then show ?case by (cases i) simp_all
qed simp

lemma concat_PutBe16_length: "length (concat (map PutBe16 vs)) = 2 * length vs"
  by (induction vs) simp_all

lemma response_frame_parts:
  assumes "length mbap = 7" "length resp < 65535"
  shows "length (response_frame mbap resp) = 7 + length resp" "drop 7 (response_frame mbap resp) = resp"
    "mbap_length (take 7 (response_frame mbap resp)) = of_nat (1 + length resp)" "response_frame mbap resp ! 6 = mbap ! 6"
  using assms by (simp_all add: response_frame_def mbap_length_def nth_append)

lemma request_frame_parts:
  "length (request_frame tid unit fc a b) = 12" "Be16 (drop 2 (take 7 (request_frame tid unit fc a b))) = 0"
  "mbap_length (take 7 (request_frame tid unit fc a b)) = 6" "take 7 (request_frame tid unit fc a b) ! 6 = unit"
  "drop 7 (request_frame tid unit fc a b) = fc # PutBe16 a @ PutBe16 b"
  by (simp_all add: request_frame_def mbap_length_def nth_append)

subsection \<open>What the server does with a request\<close>

text \<open>The server answers every request of at least one byte with a known function code and five bytes, and every
  request with another code. The answer carries the function code, or that code with its top bit set and an exception
  code. The bank changes only by a write in range, in exactly the register the request names, and keeps its size.\<close>

theorem server_answers_requests:
  "(fst (HandlePdu regs pdu) = None \<longleftrightarrow> pdu = [] \<or> pdu ! 0 \<in> {3, 6} \<and> length pdu < 5) \<and>
   (\<forall>resp. fst (HandlePdu regs pdu) = Some resp \<longrightarrow>
      (\<exists>ex. resp = [pdu ! 0 OR 0x80, ex] \<and> ex \<in> {1, 2, 3}) \<or>
      pdu ! 0 = 3 \<and> resp = 3 # of_nat (2 * unat (Be16 (drop 3 pdu))) #
        concat (map PutBe16 (take (unat (Be16 (drop 3 pdu))) (drop (unat (Be16 (drop 1 pdu))) regs))) \<or>
      pdu ! 0 = 6 \<and> resp = take 5 pdu) \<and>
   (snd (HandlePdu regs pdu) = (if 5 \<le> length pdu \<and> pdu ! 0 = 6 then regs[unat (Be16 (drop 1 pdu)) := Be16 (drop 3 pdu)] else regs)) \<and>
   length (snd (HandlePdu regs pdu)) = length regs"
proof -
  consider "pdu = []" | "pdu \<noteq> []" "pdu ! 0 = 3" | "pdu \<noteq> []" "pdu ! 0 = 6" | "pdu \<noteq> []" "pdu ! 0 \<noteq> 3" "pdu ! 0 \<noteq> 6" by blast
  then show ?thesis
  proof cases
    case 2
    then show ?thesis
      by (cases "length pdu < 5") (auto simp: HandlePdu_def Let_def ReadHolding_def mult.commute not_less Suc_le_eq split: if_splits)
  next
    case 3
    then show ?thesis
      by (cases "length pdu < 5") (auto simp: HandlePdu_def Let_def WriteSingle_def not_less Suc_le_eq list_update_beyond split: if_splits)
  qed (auto simp: HandlePdu_def Suc_le_eq)
qed

subsection \<open>Sockets that deliver\<close>

text \<open>
  What both ends rely on of a connection that is up: a receive returns the next bytes of the inbox, a send appends the next
  bytes to the outbox, and neither does anything else. Then the loops of \<open>ReadFull\<close> and \<open>WriteFull\<close> hide the pieces.
\<close>

locale byte_channel =
  fixes N :: "'w net" and ok after :: "'w \<Rightarrow> bool" and inbox :: "'w \<Rightarrow> u8 list" and outbox :: "'w \<Rightarrow> u8 list"
    and unread :: "'w \<Rightarrow> 'x" and unsent :: "'w \<Rightarrow> 'y"
  assumes recv: "ok w \<Longrightarrow> inbox w \<noteq> [] \<Longrightarrow> 0 < n \<Longrightarrow> nt_recv N n w = (r, w') \<Longrightarrow>
      r \<noteq> [] \<and> length r \<le> n \<and> inbox w = r @ inbox w' \<and> unread w' = unread w \<and> ok w' \<and> after w'"
    and send: "buf \<noteq> [] \<Longrightarrow> nt_send N buf w = (k, w') \<Longrightarrow>
      0 < k \<and> outbox w' = outbox w @ take k buf \<and> unsent w' = unsent w"
begin

lemma ReadFull_from_delivers:
  "ok w \<Longrightarrow> length got \<le> n \<Longrightarrow> n \<le> length got + length (inbox w) \<Longrightarrow>
   \<exists>w'. ReadFull_from N n got w = (Some (got @ take (n - length got) (inbox w)), w') \<and>
     inbox w' = drop (n - length got) (inbox w) \<and> unread w' = unread w \<and> ok w' \<and> (length got < n \<longrightarrow> after w')"
proof (induction "n - length got" arbitrary: got w rule: less_induct)
  case less
  show ?case
  proof (cases "n \<le> length got")
    case True
    then show ?thesis using less.prems by (intro exI [of _ w]) (subst ReadFull_from.simps, simp)
  next
    case False
    obtain r w1 where r: "nt_recv N (n - length got) w = (r, w1)" by fastforce
    have "inbox w \<noteq> []" using False less.prems(3) by auto
    with recv [OF less.prems(1) _ _ r] False
    have r1: "r \<noteq> []" "length r \<le> n - length got" "inbox w = r @ inbox w1" "unread w1 = unread w" "ok w1" "after w1" by auto
    have smaller: "n - length (got @ r) < n - length got" using False r1(1) by (cases r) auto
    have l: "length (got @ r) \<le> n" using r1(2) False by simp
    have l': "n \<le> length (got @ r) + length (inbox w1)" using less.prems(3) r1(3) by simp
    obtain w' where "ReadFull_from N n (got @ r) w1 = (Some ((got @ r) @ take (n - length (got @ r)) (inbox w1)), w')"
        "inbox w' = drop (n - length (got @ r)) (inbox w1)" "unread w' = unread w1" "ok w'" "length (got @ r) < n \<longrightarrow> after w'"
      using less.hyps [OF smaller r1(5) l l'] by blast
    moreover have "ReadFull_from N n got w = ReadFull_from N n (got @ r) w1"
      using False r r1(1) by (subst ReadFull_from.simps) simp
    moreover have "after w'"
    proof (cases "length (got @ r) < n")
      case False
      then have "(Some (got @ r), w1) = (Some ((got @ r) @ take (n - length (got @ r)) (inbox w1)), w')"
        using calculation(1) by (subst (asm) ReadFull_from.simps) simp
      with r1(6) show ?thesis by simp
    qed (use calculation in blast)
    ultimately show ?thesis using r1 by (intro exI [of _ w']) (simp add: diff_diff_add)
  qed
qed

lemma ReadFull_delivers:
  "ok w \<Longrightarrow> n \<le> length (inbox w) \<Longrightarrow>
   \<exists>w'. ReadFull N n w = (Some (take n (inbox w)), w') \<and> inbox w' = drop n (inbox w) \<and> unread w' = unread w \<and> ok w' \<and> (0 < n \<longrightarrow> after w')"
  using ReadFull_from_delivers [of w "[]" n] by (simp add: ReadFull_def)

lemma WriteFull_delivers:
  "\<exists>w'. WriteFull N buf w = (True, w') \<and> outbox w' = outbox w @ buf \<and> unsent w' = unsent w"
proof (induction "length buf" arbitrary: buf w rule: less_induct)
  case less
  show ?case
  proof (cases "buf = []")
    case True
    then show ?thesis by (intro exI [of _ w]) (subst WriteFull.simps, simp)
  next
    case False
    obtain k w1 where k: "nt_send N buf w = (k, w1)" by fastforce
    from send [OF False k] have s: "0 < k" "outbox w1 = outbox w @ take k buf" "unsent w1 = unsent w" by auto
    have smaller: "length (drop k buf) < length buf" using False s(1) by simp
    obtain w' where "WriteFull N (drop k buf) w1 = (True, w')" "outbox w' = outbox w1 @ drop k buf" "unsent w' = unsent w1"
      using less.hyps [OF smaller] by blast
    moreover have "WriteFull N buf w = WriteFull N (drop k buf) w1" using False k s(1) by (subst WriteFull.simps) simp
    ultimately show ?thesis using s by (intro exI [of _ w']) simp
  qed
qed

end

subsection \<open>A connection between the client and the server\<close>

text \<open>
  Both ends over one connection, whose bytes travel in order and arrive in pieces of the sizes \<open>lk_pieces\<close>. The server's
  thread runs when the client waits for an answer: it serves a request, and ends the connection where
  \<open>ServeOneRequest\<close> says so.
\<close>

record link =
  lk_regs :: bank
  lk_up :: bool
  lk_to_server :: "u8 list"
  lk_to_client :: "u8 list"
  lk_pieces :: "nat list"

definition piece :: "nat \<Rightarrow> link \<Rightarrow> nat" where
  "piece n s = (case lk_pieces s of [] \<Rightarrow> n | c # cs \<Rightarrow> min n (Suc c))"

definition server_net :: "link net" where
  "server_net =
     \<lparr>nt_recv = \<lambda>n s. (take (piece n s) (lk_to_server s),
        s\<lparr>lk_to_server := drop (piece n s) (lk_to_server s), lk_pieces := tl (lk_pieces s)\<rparr>),
      nt_send = \<lambda>buf s. (piece (length buf) s,
        s\<lparr>lk_to_client := lk_to_client s @ take (piece (length buf) s) buf, lk_pieces := tl (lk_pieces s)\<rparr>)\<rparr>"

definition serve :: "link \<Rightarrow> link" where
  "serve s =
     (if lk_up s \<and> lk_to_server s \<noteq> [] then
        case ServeOneRequest server_net (lk_regs s) s of (ok, regs, s') \<Rightarrow> s'\<lparr>lk_regs := regs, lk_up := ok\<rparr>
      else s)"

definition settle :: "link \<Rightarrow> link" where
  "settle s = (if lk_to_client s = [] then serve s else s)"

definition client_net :: "link net" where
  "client_net =
     \<lparr>nt_recv = \<lambda>n s. let s' = settle s in (take (piece n s') (lk_to_client s'),
        s'\<lparr>lk_to_client := drop (piece n s') (lk_to_client s'), lk_pieces := tl (lk_pieces s')\<rparr>),
      nt_send = \<lambda>buf s. (piece (length buf) s,
        s\<lparr>lk_to_server := lk_to_server s @ take (piece (length buf) s) buf, lk_pieces := tl (lk_pieces s)\<rparr>)\<rparr>"

lemma piece_bounds: "piece n s \<le> n" "0 < n \<Longrightarrow> 0 < piece n s"
  by (simp_all add: piece_def split: list.split)

interpretation server_end: byte_channel server_net "\<lambda>s. True" "\<lambda>s. True" lk_to_server lk_to_client
  "\<lambda>s. (lk_regs s, lk_up s, lk_to_client s)" "\<lambda>s. (lk_regs s, lk_up s, lk_to_server s)"
proof
  fix w :: link and n r w'
  assume "lk_to_server w \<noteq> []" "0 < n" "nt_recv server_net n w = (r, w')"
  then show "r \<noteq> [] \<and> length r \<le> n \<and> lk_to_server w = r @ lk_to_server w' \<and>
      (lk_regs w', lk_up w', lk_to_client w') = (lk_regs w, lk_up w, lk_to_client w) \<and> True \<and> True"
    using piece_bounds [of n w] by (auto simp: server_net_def)
next
  fix buf w k w'
  assume "buf \<noteq> []" "nt_send server_net buf w = (k, w')"
  then show "0 < k \<and> lk_to_client w' = lk_to_client w @ take k buf \<and> (lk_regs w', lk_up w', lk_to_server w') = (lk_regs w, lk_up w, lk_to_server w)"
    using piece_bounds [of "length buf" w] by (auto simp: server_net_def)
qed

text \<open>The client's inbox is what is there once the server has answered.\<close>

lemma settle_settled: "lk_to_server s = [] \<Longrightarrow> settle s = s"
  by (simp add: settle_def serve_def)

interpretation client_end: byte_channel client_net "\<lambda>s. lk_to_server (settle s) = []" "\<lambda>s. settle s = s" "\<lambda>s. lk_to_client (settle s)" lk_to_server
  "\<lambda>s. (lk_regs (settle s), lk_up (settle s))" "\<lambda>s. (lk_regs s, lk_up s, lk_to_client s)"
proof
  fix w :: link and n r w'
  assume a: "lk_to_server (settle w) = []" "lk_to_client (settle w) \<noteq> []" "0 < n" "nt_recv client_net n w = (r, w')"
  then have w': "w' = (settle w)\<lparr>lk_to_client := drop (piece n (settle w)) (lk_to_client (settle w)), lk_pieces := tl (lk_pieces (settle w))\<rparr>"
    "r = take (piece n (settle w)) (lk_to_client (settle w))"
    by (simp_all add: client_net_def Let_def)
  then have "settle w' = w'" using a(1) by (intro settle_settled) simp
  then show "r \<noteq> [] \<and> length r \<le> n \<and> lk_to_client (settle w) = r @ lk_to_client (settle w') \<and>
      (lk_regs (settle w'), lk_up (settle w')) = (lk_regs (settle w), lk_up (settle w)) \<and> lk_to_server (settle w') = [] \<and> settle w' = w'"
    using a piece_bounds [of n "settle w"] w' by auto
next
  fix buf w k w'
  assume "buf \<noteq> []" "nt_send client_net buf w = (k, w')"
  then show "0 < k \<and> lk_to_server w' = lk_to_server w @ take k buf \<and> (lk_regs w', lk_up w', lk_to_client w') = (lk_regs w, lk_up w, lk_to_client w)"
    using piece_bounds [of "length buf" w] by (auto simp: client_net_def)
qed


subsection \<open>Requests over the connection\<close>

definition idle :: "link \<Rightarrow> bool" where
  "idle s \<longleftrightarrow> lk_up s \<and> lk_to_server s = [] \<and> lk_to_client s = []"

lemma serve_answers:
  assumes "lk_up s" "lk_to_client s = []" "lk_to_server s = request_frame tid unit fc a b"
    and pdu: "HandlePdu (lk_regs s) (fc # PutBe16 a @ PutBe16 b) = (Some resp, regs')"
  shows "\<exists>mbap. length mbap = 7 \<and> mbap ! 6 = unit \<and> lk_to_client (serve s) = response_frame mbap resp \<and> lk_to_server (serve s) = [] \<and>
    lk_regs (serve s) = regs' \<and> lk_up (serve s)"
proof -
  let ?req = "request_frame tid unit fc a b"
  obtain s1 where r1: "ReadFull server_net 7 s = (Some (take 7 ?req), s1)" "lk_to_server s1 = drop 7 ?req"
      "(lk_regs s1, lk_up s1, lk_to_client s1) = (lk_regs s, lk_up s, lk_to_client s)"
    using server_end.ReadFull_delivers [of 7 s] assms(3) by (auto simp: request_frame_parts)
  obtain s2 where r2: "ReadFull server_net 5 s1 = (Some (drop 7 ?req), s2)" "lk_to_server s2 = []"
      "(lk_regs s2, lk_up s2, lk_to_client s2) = (lk_regs s1, lk_up s1, lk_to_client s1)"
    using server_end.ReadFull_delivers [of 5 s1] r1(2) by (auto simp: request_frame_parts)
  obtain s3 where r3: "WriteFull server_net (response_frame (take 7 ?req) resp) s2 = (True, s3)"
      "lk_to_client s3 = lk_to_client s2 @ response_frame (take 7 ?req) resp"
      "(lk_regs s3, lk_up s3, lk_to_server s3) = (lk_regs s2, lk_up s2, lk_to_server s2)"
    using server_end.WriteFull_delivers [of "response_frame (take 7 ?req) resp" s2] by blast
  have "ServeOneRequest server_net (lk_regs s) s = (True, regs', s3)"
    using r1 r2 r3 pdu by (simp add: ServeOneRequest_def request_frame_parts)
  moreover have "?req \<noteq> []" by (metis request_frame_parts(1) list.size(3) zero_neq_numeral)
  ultimately have "serve s = s3\<lparr>lk_regs := regs', lk_up := True\<rparr>" using assms(1,3) by (simp add: serve_def)
  then show ?thesis
    using r1 r2 r3 assms(2) by (intro exI [of _ "take 7 ?req"]) (simp add: request_frame_parts)
qed

lemma exchange_answers:
  assumes "idle s" and pdu: "HandlePdu (lk_regs s) (fc # PutBe16 a @ PutBe16 b) = (Some resp, regs')"
    and resp: "1 \<le> length resp" "length resp \<le> 259"
  shows "\<exists>s'. tc_exchange client_net unit (request_frame tid unit fc a b) check_max c s = (Some resp, c, s') \<and> idle s' \<and> lk_regs s' = regs'"
proof -
  let ?req = "request_frame tid unit fc a b"
  obtain s1 where w1: "WriteFull client_net ?req s = (True, s1)" "lk_to_server s1 = ?req"
      "(lk_regs s1, lk_up s1, lk_to_client s1) = (lk_regs s, lk_up s, lk_to_client s)"
    using client_end.WriteFull_delivers [of ?req s] assms(1) by (auto simp: idle_def)
  then obtain mbap where m: "length mbap = 7" "mbap ! 6 = unit" "lk_to_client (serve s1) = response_frame mbap resp"
      "lk_to_server (serve s1) = []" "lk_regs (serve s1) = regs'" "lk_up (serve s1)"
    using serve_answers [of s1 tid unit fc a b resp regs'] assms(1) pdu by (auto simp: idle_def)
  have settled: "settle s1 = serve s1" using w1(3) assms(1) by (simp add: settle_def idle_def)
  have frame: "length (response_frame mbap resp) = 7 + length resp" "drop 7 (response_frame mbap resp) = resp"
    "mbap_length (take 7 (response_frame mbap resp)) = of_nat (1 + length resp)" "response_frame mbap resp ! 6 = unit"
    using response_frame_parts [of mbap resp] m resp by simp_all
  obtain s2 where r2: "ReadFull client_net 7 s1 = (Some (take 7 (response_frame mbap resp)), s2)" "lk_to_client (settle s2) = resp"
      "lk_regs (settle s2) = regs'" "lk_up (settle s2)" "lk_to_server (settle s2) = []"
    using client_end.ReadFull_delivers [of s1 7] m settled frame by auto
  obtain s3 where r3: "ReadFull client_net (length resp) s2 = (Some resp, s3)" "lk_to_client (settle s3) = []"
      "lk_regs (settle s3) = regs'" "lk_up (settle s3)" "lk_to_server (settle s3) = []" "settle s3 = s3"
    using client_end.ReadFull_delivers [of s2 "length resp"] r2 resp by auto
  have nonempty: "resp \<noteq> []" using resp(1) by (cases resp) simp_all
  have len: "unat (of_nat (1 + length resp) :: u16) = 1 + length resp"
    using resp by (simp add: unat_of_nat del: of_nat_Suc of_nat_add)
  have bounds: "\<not> (of_nat (1 + length resp) :: u16) < 2" "\<not> 260 < (of_nat (1 + length resp) :: u16)"
    using len resp nonempty by (simp_all add: word_less_nat_alt del: of_nat_Suc of_nat_add)
  have "tc_exchange client_net unit ?req check_max c s = (Some resp, c, s3)"
    using w1(1) r2(1) r3(1) len bounds frame by (simp add: tc_exchange_def del: of_nat_Suc of_nat_add)
  with r3 show ?thesis by (intro exI [of _ s3]) (simp add: idle_def)
qed

lemma answer_bits: "3 AND 0x80 = (0 :: u8)" "6 AND 0x80 = (0 :: u8)" "(3 OR 0x80) AND 0x80 \<noteq> (0 :: u8)" "(6 OR 0x80 :: u8) \<noteq> 6"
  by simp_all

text \<open>A read in range returns the registers, one out of range fails; a write in range changes its register.\<close>

lemma read_registers:
  assumes "idle s" "tc_connected c" "1 \<le> unat quantity" "unat quantity \<le> 125"
  shows "\<exists>c' s'. ReadHoldingRegisters client_net unit start quantity c s =
      (if unat start + unat quantity \<le> length (lk_regs s) then Some (take (unat quantity) (drop (unat start) (lk_regs s))) else None, c', s') \<and>
    idle s' \<and> tc_connected c' \<and> lk_regs s' = lk_regs s"
proof -
  define c1 where "c1 = c\<lparr>tc_next_tid := tc_next_tid c + 1\<rparr>"
  have c1: "tc_connected c1" using assms(2) by (simp add: c1_def tc_connected_def)
  have qty: "\<not> (quantity = 0 \<or> 125 < quantity)" "\<not> (quantity < 1 \<or> 125 < quantity)"
    using assms(3,4) by (auto simp: word_less_nat_alt)
  let ?pdu = "3 # PutBe16 start @ PutBe16 quantity"
  have parts: "Be16 (drop 1 ?pdu) = start" "Be16 (drop 3 ?pdu) = quantity" "?pdu ! 0 = 3" "length ?pdu = 5" by simp_all
  show ?thesis
  proof (cases "unat start + unat quantity \<le> length (lk_regs s)")
    case True
    define vs where "vs = take (unat quantity) (drop (unat start) (lk_regs s))"
    have vs: "length vs = unat quantity" using True by (simp add: vs_def)
    let ?resp = "3 # of_nat (length vs * 2) # concat (map PutBe16 vs)"
    have "ReadHolding start quantity (lk_regs s) = Some vs"
      using True qty by (auto simp: ReadHolding_def vs_def)
    then have "HandlePdu (lk_regs s) ?pdu = (Some ?resp, lk_regs s)"
      using parts qty by (simp add: HandlePdu_def Let_def)
    moreover have len: "length ?resp = 2 + 2 * unat quantity" by (simp add: concat_PutBe16_length vs)
    ultimately obtain s' where e: "tc_exchange client_net unit (request_frame (tc_next_tid c) unit 3 start quantity) True c1 s = (Some ?resp, c1, s')"
        "idle s'" "lk_regs s' = lk_regs s"
      using exchange_answers [OF assms(1), of 3 start quantity ?resp "lk_regs s" unit "tc_next_tid c" True c1] assms(4) by auto
    have count: "unat (of_nat (length vs * 2) :: u8) = unat quantity * 2"
      using assms(4) vs by (simp add: unat_of_nat del: of_nat_mult)
    have "map (\<lambda>i. Be16 (drop (2 + i * 2) ?resp)) [0..<unat quantity] = vs"
      by (rule nth_equalityI) (auto simp: vs Be16_concat)
    then have "ReadHoldingRegisters client_net unit start quantity c s = (Some vs, c1, s')"
      using assms(2) qty e(1) count len answer_bits(1) unfolding ReadHoldingRegisters_def c1_def by simp
    with True e c1 show ?thesis by (auto simp: vs_def)
  next
    case False
    then have "HandlePdu (lk_regs s) ?pdu = (Some [3 OR 0x80, 2], lk_regs s)"
      using parts qty by (simp add: HandlePdu_def Let_def ReadHolding_def)
    then obtain s' where e: "tc_exchange client_net unit (request_frame (tc_next_tid c) unit 3 start quantity) True c1 s = (Some [3 OR 0x80, 2], c1, s')"
        "idle s'" "lk_regs s' = lk_regs s"
      using exchange_answers [OF assms(1), of 3 start quantity "[3 OR 0x80, 2]" "lk_regs s" unit "tc_next_tid c" True c1] by auto
    then have "ReadHoldingRegisters client_net unit start quantity c s = (None, c1, s')"
      using assms(2) qty answer_bits(3) unfolding ReadHoldingRegisters_def c1_def by simp
    with False e c1 show ?thesis by auto
  qed
qed

lemma write_register:
  assumes "idle s" "tc_connected c"
  shows "\<exists>c' s'. WriteSingleRegister client_net unit address v c s = (unat address < length (lk_regs s), c', s') \<and>
    idle s' \<and> tc_connected c' \<and> lk_regs s' = (lk_regs s)[unat address := v]"
proof -
  define c1 where "c1 = c\<lparr>tc_next_tid := tc_next_tid c + 1\<rparr>"
  have c1: "tc_connected c1" using assms(2) by (simp add: c1_def tc_connected_def)
  let ?pdu = "6 # PutBe16 address @ PutBe16 v"
  have parts: "Be16 (drop 1 ?pdu) = address" "Be16 (drop 3 ?pdu) = v" "?pdu ! 0 = 6" "length ?pdu = 5" by simp_all
  define resp where "resp = (if unat address < length (lk_regs s) then take 5 ?pdu else [6 OR 0x80, 2])"
  have "HandlePdu (lk_regs s) ?pdu = (Some resp, (lk_regs s)[unat address := v])"
    using parts by (simp add: HandlePdu_def Let_def WriteSingle_def resp_def list_update_beyond)
  then obtain s' where e: "tc_exchange client_net unit (request_frame (tc_next_tid c) unit 6 address v) False c1 s = (Some resp, c1, s')"
      "idle s'" "lk_regs s' = (lk_regs s)[unat address := v]"
    using exchange_answers [OF assms(1), of 6 address v resp "(lk_regs s)[unat address := v]" unit "tc_next_tid c" False c1]
    by (auto simp: resp_def split: if_splits)
  then have "WriteSingleRegister client_net unit address v c s = (unat address < length (lk_regs s), c1, s')"
    using assms(2) answer_bits(4) unfolding WriteSingleRegister_def c1_def by (simp add: resp_def)
  with e c1 show ?thesis by blast
qed


text \<open>C21: Over a connection that is up, in whatever pieces its bytes travel: a write succeeds exactly when the address is in the
  bank and then changes that register and no other; a read of 1 to 125 registers returns exactly the
  registers of the bank, what the write left in them included, and fails exactly when it reaches past the end. Both leave the
  connection up and empty.\<close>

theorem client_and_server_agree:
  assumes "idle s" "tc_connected c" "1 \<le> unat quantity" "unat quantity \<le> 125"
  shows "\<exists>c1 s1 c2 s2. WriteSingleRegister client_net unit address v c s = (unat address < length (lk_regs s), c1, s1) \<and>
    ReadHoldingRegisters client_net unit start quantity c1 s1 =
      (if unat start + unat quantity \<le> length (lk_regs s)
       then Some (take (unat quantity) (drop (unat start) ((lk_regs s)[unat address := v]))) else None, c2, s2) \<and>
    lk_regs s2 = (lk_regs s)[unat address := v] \<and> idle s2 \<and> tc_connected c2"
proof -
  obtain c1 s1 where w: "WriteSingleRegister client_net unit address v c s = (unat address < length (lk_regs s), c1, s1)"
      "idle s1" "tc_connected c1" "lk_regs s1 = (lk_regs s)[unat address := v]"
    using write_register [OF assms(1,2)] by blast
  obtain c2 s2 where "ReadHoldingRegisters client_net unit start quantity c1 s1 =
      (if unat start + unat quantity \<le> length (lk_regs s1) then Some (take (unat quantity) (drop (unat start) (lk_regs s1))) else None, c2, s2)"
      "idle s2" "tc_connected c2" "lk_regs s2 = lk_regs s1"
    using read_registers [OF w(2,3) assms(3,4)] by blast
  with w show ?thesis by (intro exI [of _ c1] exI [of _ s1] exI [of _ c2] exI [of _ s2]) simp
qed

definition demo_link :: link where
  "demo_link = \<lparr>lk_regs = [7, 7, 7, 7, 7, 7], lk_up = True, lk_to_server = [], lk_to_client = [], lk_pieces = [0, 4, 1, 0]\<rparr>"

definition demo_client :: TcpClient where
  "demo_client = new_TcpClient\<lparr>tc_fd := 3\<rparr>"

theorem client_and_server_agree_witness:
  "\<exists>c1 s1 c2 s2. WriteSingleRegister client_net 1 4 42 demo_client demo_link = (True, c1, s1) \<and>
    ReadHoldingRegisters client_net 1 3 2 c1 s1 = (Some [7, 42], c2, s2)"
  using client_and_server_agree [of demo_link demo_client 2 1 4 42 3]
  by (simp add: demo_link_def demo_client_def new_TcpClient_def idle_def tc_connected_def) blast

theorem server_answers_requests_witness:
  "fst (HandlePdu [7, 8, 9] [6, 0, 1, 0, 42]) = Some [6, 0, 1, 0, 42] \<and> snd (HandlePdu [7, 8, 9] [6, 0, 1, 0, 42]) = [7, 42, 9]"
  using server_answers_requests [of "[7, 8, 9]" "[6, 0, 1, 0, 42]"] by (simp add: Be16_def HandlePdu_def WriteSingle_def)

end
