(* ===== verification/Checksums.thy ===== *)
theory Checksums
  imports Prelude
begin

section \<open>Checksums (components/algorithm/src/checksum.cpp)\<close>

text \<open>
  The six checksums of the algorithm component, each with its loop over the bytes and over the bits of a byte. The four
  cyclic ones are shift registers: the locale \<open>crc_register\<close> says what makes such a register detect any change of one byte.
\<close>

definition xor_checksum :: "u8 list \<Rightarrow> u8" where
  "xor_checksum bytes = fold (\<lambda>b c. c XOR b) bytes 0"

definition sum8 :: "u8 list \<Rightarrow> u8" where
  "sum8 bytes = fold (\<lambda>b c. c + b) bytes 0"

definition crc8_bit :: "u8 \<Rightarrow> u8 \<Rightarrow> u8" where
  "crc8_bit polynomial crc = (if crc AND 0x80 \<noteq> 0 then push_bit 1 crc XOR polynomial else push_bit 1 crc)"

definition crc8 :: "u8 \<Rightarrow> u8 \<Rightarrow> u8 list \<Rightarrow> u8" where
  "crc8 polynomial initial bytes = fold (\<lambda>b crc. (crc8_bit polynomial ^^ 8) (crc XOR b)) bytes initial"

definition crc16_modbus_bit :: "u16 \<Rightarrow> u16" where
  "crc16_modbus_bit crc = (if crc AND 0x0001 \<noteq> 0 then drop_bit 1 crc XOR 0xA001 else drop_bit 1 crc)"

definition crc16_modbus :: "u16 \<Rightarrow> u8 list \<Rightarrow> u16" where
  "crc16_modbus initial bytes = fold (\<lambda>b crc. (crc16_modbus_bit ^^ 8) (crc XOR ucast b)) bytes initial"

definition crc16_ccitt_bit :: "u16 \<Rightarrow> u16" where
  "crc16_ccitt_bit crc = (if crc AND 0x8000 \<noteq> 0 then push_bit 1 crc XOR 0x1021 else push_bit 1 crc)"

definition crc16_ccitt_false :: "u16 \<Rightarrow> u8 list \<Rightarrow> u16" where
  "crc16_ccitt_false initial bytes = fold (\<lambda>b crc. (crc16_ccitt_bit ^^ 8) (crc XOR push_bit 8 (ucast b))) bytes initial"

definition crc32_bit :: "u32 \<Rightarrow> u32" where
  "crc32_bit crc = (if crc AND 1 \<noteq> 0 then drop_bit 1 crc XOR 0xEDB88320 else drop_bit 1 crc)"

definition crc32 :: "u32 \<Rightarrow> u8 list \<Rightarrow> u32" where
  "crc32 initial bytes = NOT (fold (\<lambda>b crc. (crc32_bit ^^ 8) (crc XOR ucast b)) bytes initial)"

text \<open>The uplink protocol's copy (apps/agri\_station\_demo/agri\_afp\_uplink.hpp).\<close>

fun Crc16Modbus_bits :: "nat \<Rightarrow> u16 \<Rightarrow> u16" where
  "Crc16Modbus_bits 0 crc = crc"
| "Crc16Modbus_bits (Suc b) crc =
     Crc16Modbus_bits b (if crc AND 1 \<noteq> 0 then drop_bit 1 crc XOR 0xA001 else drop_bit 1 crc)"

fun Crc16Modbus_from :: "u16 \<Rightarrow> u8 list \<Rightarrow> u16" where
  "Crc16Modbus_from crc [] = crc"
| "Crc16Modbus_from crc (b # bytes) = Crc16Modbus_from (Crc16Modbus_bits 8 (crc XOR ucast b)) bytes"

definition Crc16Modbus :: "u8 list \<Rightarrow> u16" where
  "Crc16Modbus bytes = Crc16Modbus_from 0xFFFF bytes"

subsection \<open>Registers that lose nothing\<close>

text \<open>
  A register whose bit step and whose loading of a byte are injective never maps two states to one, so two messages that
  differ in one byte leave it in different states.
\<close>

locale crc_register =
  fixes step :: "'w :: len word \<Rightarrow> 'w word" and load :: "u8 \<Rightarrow> 'w word"
  assumes step_inj: "inj step" and load_inj: "inj load"
begin

lemma steps_inj: "inj (step ^^ n)"
proof (induction n)
  case (Suc n)
  from inj_compose [OF step_inj Suc.IH] show ?case by (simp add: comp_def)
qed simp

lemma xor_cancel: "x XOR a = y XOR a \<longleftrightarrow> x = (y :: 'w word)"
proof
  assume "x XOR a = y XOR a"
  then have "(x XOR a) XOR a = (y XOR a) XOR a" by simp
  then show "x = y" by (simp only: xor.assoc xor_self_eq xor.right_neutral)
qed simp

lemma load_differs: "b \<noteq> b' \<Longrightarrow> (step ^^ n) (crc XOR load b) \<noteq> (step ^^ n) (crc XOR load b')"
  using steps_inj load_inj xor_cancel by (metis injD xor.commute)

lemma rest_differs: "crc \<noteq> crc' \<Longrightarrow>
  fold (\<lambda>b crc. (step ^^ n) (crc XOR load b)) bytes crc \<noteq> fold (\<lambda>b crc. (step ^^ n) (crc XOR load b)) bytes crc'"
proof (induction bytes arbitrary: crc crc')
  case (Cons b bytes)
  have "(step ^^ n) (crc XOR load b) \<noteq> (step ^^ n) (crc' XOR load b)"
    using Cons.prems steps_inj xor_cancel by (metis injD)
  with Cons.IH show ?case by simp
qed simp

lemma byte_detected: "b \<noteq> b' \<Longrightarrow>
  fold (\<lambda>b crc. (step ^^ n) (crc XOR load b)) (xs @ b # ys) crc \<noteq> fold (\<lambda>b crc. (step ^^ n) (crc XOR load b)) (xs @ b' # ys) crc"
  by (simp add: rest_differs load_differs)

end

text \<open>A right shift keeps its lost bit in the top bit of the polynomial, a left shift in the lowest.\<close>

lemma and_one_bit: "x AND 1 \<noteq> 0 \<longleftrightarrow> bit (x :: 'w :: len word) 0"
  by (simp add: and_one_eq bit_0 odd_iff_mod_2_eq_one)

lemma right_register_inj:
  assumes "bit (poly :: 'w :: len word) (LENGTH('w) - 1)"
  shows "inj (\<lambda>x. if x AND 1 \<noteq> 0 then drop_bit 1 x XOR poly else drop_bit 1 x)"
proof (rule injI)
  fix x y :: "'w word"
  let ?f = "\<lambda>x :: 'w word. if x AND 1 \<noteq> 0 then drop_bit 1 x XOR poly else drop_bit 1 x"
  assume eq: "?f x = ?f y"
  have f: "bit (?f z) n \<longleftrightarrow> (bit z (Suc n) \<noteq> (bit z 0 \<and> bit poly n))" for z n
    by (simp add: and_one_bit bit_simps)
  have top: "\<not> bit z (Suc (LENGTH('w) - 1))" for z :: "'w word"
    using bit_imp_le_length [of z "Suc (LENGTH('w) - 1)"] by auto
  have low: "bit x 0 = bit y 0" using f [of x "LENGTH('w) - 1"] f [of y "LENGTH('w) - 1"] eq top assms by auto
  show "x = y"
  proof (rule bit_eqI)
    fix n
    show "bit x n = bit y n" using f [of x "n - 1"] f [of y "n - 1"] eq low by (cases n) auto
  qed
qed

lemma left_register_inj:
  assumes "bit (poly :: 'w :: len word) 0" and m: "\<And>x. (x AND m \<noteq> 0) = bit (x :: 'w word) (LENGTH('w) - 1)"
  shows "inj (\<lambda>x. if x AND m \<noteq> 0 then push_bit 1 x XOR poly else push_bit 1 x)"
proof (rule injI)
  fix x y :: "'w word"
  let ?f = "\<lambda>x :: 'w word. if x AND m \<noteq> 0 then push_bit 1 x XOR poly else push_bit 1 x"
  assume eq: "?f x = ?f y"
  have push: "bit (push_bit 1 z) n \<longleftrightarrow> 0 < n \<and> bit z (n - 1)" if "n < LENGTH('w)" for z :: "'w word" and n
    using that bit_push_bit_iff [of 1 z n] by (simp only: Suc_le_eq One_nat_def possible_bit_word simp_thms)
  have f: "bit (?f z) n \<longleftrightarrow> ((0 < n \<and> bit z (n - 1)) \<noteq> (bit z (LENGTH('w) - 1) \<and> bit poly n))" if "n < LENGTH('w)" for z n
    by (cases "bit z (LENGTH('w) - 1)") (simp_all only: m if_True if_False bit_xor_iff push [OF that] simp_thms)
  have high: "bit x (LENGTH('w) - 1) = bit y (LENGTH('w) - 1)" using f [of 0 x] f [of 0 y] eq assms(1) by auto
  show "x = y"
  proof (rule bit_eqI)
    fix n
    assume "possible_bit TYPE('w word) n"
    then have n: "n < LENGTH('w)" by simp
    show "bit x n = bit y n"
    proof (cases "Suc n = LENGTH('w)")
      case True
      then have "n = LENGTH('w) - 1" by simp
      with high show ?thesis by simp
    next
      case False
      with n f [of "Suc n" x] f [of "Suc n" y] eq high show ?thesis by auto
    qed
  qed
qed

lemma ucast_inj: "inj (ucast :: u8 \<Rightarrow> u16)" "inj (ucast :: u8 \<Rightarrow> u32)"
proof -
  have eq: "a = b" if "\<And>n. n < 8 \<Longrightarrow> bit a n = bit b n" for a b :: u8
    using that by (intro bit_word_eqI) simp
  have "bit (ucast c :: u16) n = bit c n" "bit (ucast c :: u32) n = bit c n" if "n < 8" for c :: u8 and n
    using that by (simp_all add: bit_simps)
  then show "inj (ucast :: u8 \<Rightarrow> u16)" "inj (ucast :: u8 \<Rightarrow> u32)"
    by (auto intro!: injI eq) metis+
qed

interpretation modbus_register: crc_register crc16_modbus_bit ucast
proof
  show "inj crc16_modbus_bit"
    unfolding crc16_modbus_bit_def by (rule right_register_inj) simp
qed (rule ucast_inj)

lemma high_bits: "(x AND 0x80 \<noteq> 0) = bit (x :: u8) 7" "(y AND 0x8000 \<noteq> 0) = bit (y :: u16) 15"
  using bit_iff_and_push_bit_not_eq_0 [of x 7] bit_iff_and_push_bit_not_eq_0 [of y 15] by simp_all

lemma push_ucast_inj: "inj (\<lambda>b :: u8. push_bit 8 (ucast b :: u16))"
proof (rule injI)
  fix a b :: u8
  assume eq: "push_bit 8 (ucast a :: u16) = push_bit 8 (ucast b :: u16)"
  show "a = b"
  proof (rule bit_word_eqI)
    fix n
    assume n: "n < LENGTH(8)"
    have "bit (push_bit 8 (ucast c :: u16)) (n + 8) = bit c n" for c :: u8
      using n bit_push_bit_iff [of 8 "ucast c :: u16" "n + 8"] by (simp add: bit_simps)
    with eq show "bit a n = bit b n" by metis
  qed
qed

interpretation ccitt_register: crc_register crc16_ccitt_bit "\<lambda>b. push_bit 8 (ucast b)"
proof
  show "inj crc16_ccitt_bit"
    unfolding crc16_ccitt_bit_def by (rule left_register_inj) (simp_all add: high_bits)
qed (rule push_ucast_inj)

interpretation crc32_register: crc_register crc32_bit ucast
proof
  show "inj crc32_bit"
    unfolding crc32_bit_def by (rule right_register_inj) simp
qed (rule ucast_inj)


lemma crc8_register: "bit polynomial 0 \<Longrightarrow> crc_register (crc8_bit polynomial) (\<lambda>b. b)"
proof
  assume "bit polynomial 0"
  then show "inj (crc8_bit polynomial)"
    unfolding crc8_bit_def by (rule left_register_inj) (simp add: high_bits)
qed (simp add: inj_def)

text \<open>The exclusive or of all bytes is the register that does not shift.\<close>

interpretation xor_register: crc_register "\<lambda>c :: u8. c" "\<lambda>b. b"
  by unfold_locales (simp_all add: inj_def)

subsection \<open>Detection of corrupted bytes\<close>

lemma xor_checksum_differs: "b \<noteq> b' \<Longrightarrow> xor_checksum (xs @ b # ys) \<noteq> xor_checksum (xs @ b' # ys)"
  unfolding xor_checksum_def using xor_register.byte_detected [of b b' 0] by simp

lemma sum8_from: "fold (\<lambda>b c. c + b) xs c = c + fold (\<lambda>b c. c + b) xs (0 :: u8)"
proof (induction xs arbitrary: c)
  case (Cons x xs)
  from Cons [of "c + x"] Cons [of x] show ?case by simp
qed simp

lemma sum8_differs:
  assumes "b \<noteq> b'"
  shows "sum8 (xs @ b # ys) \<noteq> sum8 (xs @ b' # ys)"
proof -
  have "sum8 (xs @ c # ys) = c + (fold (\<lambda>b c. c + b) xs 0 + fold (\<lambda>b c. c + b) ys 0)" for c
    using sum8_from [of ys "fold (\<lambda>b c. c + b) xs 0 + c"] by (simp add: sum8_def)
  then show ?thesis using assms by simp
qed



lemma Crc16Modbus_bits_steps: "Crc16Modbus_bits n crc = (crc16_modbus_bit ^^ n) crc"
  by (induction n arbitrary: crc) (simp_all add: crc16_modbus_bit_def funpow_swap1 del: funpow.simps(2) add: funpow_Suc_right)

lemma Crc16Modbus_eq: "Crc16Modbus bytes = crc16_modbus 0xFFFF bytes"
proof -
  have "Crc16Modbus_from crc bytes = crc16_modbus crc bytes" for crc
    unfolding crc16_modbus_def by (induction bytes arbitrary: crc) (simp_all add: Crc16Modbus_bits_steps del: Crc16Modbus_bits.simps)
  then show ?thesis by (simp add: Crc16Modbus_def)
qed

end
