(* ===== verification/Agri_Registers.thy ===== *)
theory Agri_Registers
  imports Float_Bounds Modbus_Tcp Checksums
begin

section \<open>The register map of the field bus (apps/agri\_station\_demo/agri\_afp\_regs.hpp, agri\_afp\_uplink.hpp)\<close>

text \<open>
  Addresses, scalings and packings of the register map, and the byte fields of the wireless uplink. A conversion of a
  floating-point number to an integer that cannot hold it is undefined in C++: \<open>None\<close>.
\<close>

abbreviation "kProtoMagic \<equiv> (0xAE01 :: u16)"
abbreviation "kProtoVersion \<equiv> (0x0100 :: u16)"

definition ProtoMajor :: "u16 \<Rightarrow> u16" where
  "ProtoMajor version = drop_bit 8 version"

definition ProtoMinor :: "u16 \<Rightarrow> u16" where
  "ProtoMinor version = version AND 0xFF"

datatype DeviceClass = kUnknownClass | kIoCard | kWirelessNode | kGatewayVirtualSlave

fun DeviceClass_code :: "DeviceClass \<Rightarrow> u16" where
  "DeviceClass_code kUnknownClass = 0" | "DeviceClass_code kIoCard = 1" | "DeviceClass_code kWirelessNode = 2"
| "DeviceClass_code kGatewayVirtualSlave = 3"

abbreviation "kCapClimateBasic \<equiv> (0x07 :: u16)"
abbreviation "kCapSoilBasic \<equiv> (0x18 :: u16)"
abbreviation "kCapDemoDefault \<equiv> (0x1F :: u16)"
abbreviation "kQualityGood \<equiv> (0x01 :: u16)"
abbreviation "kQualityCommLost \<equiv> (0x20 :: u16)"

abbreviation "kRegProtoMagic \<equiv> (0 :: nat)"
abbreviation "kRegProtoVersion \<equiv> (1 :: nat)"
abbreviation "kRegDeviceClass \<equiv> (2 :: nat)"
abbreviation "kRegChannelCount \<equiv> (3 :: nat)"
abbreviation "kRegCapsBits \<equiv> (4 :: nat)"
abbreviation "kRegStatusBits \<equiv> (5 :: nat)"
abbreviation "kRegUptimeSLo \<equiv> (6 :: nat)"
abbreviation "kRegUptimeSHi \<equiv> (7 :: nat)"
abbreviation "kRegHeartbeat \<equiv> (8 :: u16)"
abbreviation "kRegSamplePeriodMs \<equiv> (9 :: nat)"
abbreviation "kRegLastError \<equiv> (10 :: nat)"
abbreviation "kDeviceInfoBase \<equiv> (0 :: u16)"
abbreviation "kDeviceInfoCount \<equiv> (16 :: u16)"

abbreviation "kChannelBase \<equiv> (0x0100 :: u16)"
abbreviation "kChannelStride \<equiv> (0x0010 :: u16)"
abbreviation "kChannelMax \<equiv> (32 :: u16)"
abbreviation "kChannelDemoDefault \<equiv> (10 :: u16)"

definition ChannelBase :: "u16 \<Rightarrow> u16" where
  "ChannelBase channel = kChannelBase + channel * kChannelStride"

definition ChannelReg :: "u16 \<Rightarrow> u16 \<Rightarrow> u16" where
  "ChannelReg channel offset = ChannelBase channel + offset"

definition ChannelBlockCount :: "u16 \<Rightarrow> u16" where
  "ChannelBlockCount channel_count = channel_count * kChannelStride"

subsection \<open>Scaling\<close>

definition f_trunc :: "float64 \<Rightarrow> int option" where
  "f_trunc a = (case a of Fin x \<Rightarrow> Some (if 0 \<le> x then \<lfloor>x\<rfloor> else \<lceil>x\<rceil>) | _ \<Rightarrow> None)"

definition f_to_int16 :: "float64 \<Rightarrow> u16 option" where
  "f_to_int16 a = (case f_trunc a of None \<Rightarrow> None | Some n \<Rightarrow> if - 32768 \<le> n \<and> n \<le> 32767 then Some (of_int n) else None)"

definition f_to_uint16 :: "float64 \<Rightarrow> u16 option" where
  "f_to_uint16 a = (case f_trunc a of None \<Rightarrow> None | Some n \<Rightarrow> if 0 \<le> n \<and> n \<le> 65535 then Some (of_int n) else None)"

text \<open>An \<^verbatim>\<open>int16_t\<close> is kept as the 16-bit word the register holds.\<close>

definition EncodeTempC10 :: "float64 \<Rightarrow> u16 option" where
  "EncodeTempC10 celsius = f_to_int16 (celsius * Fin 10)"

definition DecodeTempC :: "u16 \<Rightarrow> float64" where
  "DecodeTempC c10 = f_div (f_of_int (sint c10)) (Fin 10)"

definition EncodeHumidityPct10 :: "float64 \<Rightarrow> u16 option" where
  "EncodeHumidityPct10 pct = f_to_uint16 (pct * Fin 10)"

definition DecodeHumidityPct :: "u16 \<Rightarrow> float64" where
  "DecodeHumidityPct pct10 = f_div (f_of_int (uint pct10)) (Fin 10)"

definition EncodeSoilMoisturePct10 :: "float64 \<Rightarrow> u16 option" where
  "EncodeSoilMoisturePct10 pct = f_to_uint16 (pct * Fin 10)"

definition DecodeSoilMoisturePct :: "u16 \<Rightarrow> float64" where
  "DecodeSoilMoisturePct pct10 = f_div (f_of_int (uint pct10)) (Fin 10)"

definition EncodeSoilTempC10 :: "float64 \<Rightarrow> u16 option" where
  "EncodeSoilTempC10 celsius = EncodeTempC10 celsius"

definition DecodeSoilTempC :: "u16 \<Rightarrow> float64" where
  "DecodeSoilTempC c10 = DecodeTempC c10"

subsection \<open>Packing\<close>

definition PackUptimeS :: "u32 \<Rightarrow> u16 \<times> u16" where
  "PackUptimeS seconds = (ucast (seconds AND 0xFFFF), ucast (drop_bit 16 seconds AND 0xFFFF))"

definition UnpackUptimeS :: "u16 \<Rightarrow> u16 \<Rightarrow> u32" where
  "UnpackUptimeS lo hi = push_bit 16 (ucast hi) OR ucast lo"

definition PackSeq :: "u32 \<Rightarrow> u16 \<times> u16" where
  "PackSeq seq = PackUptimeS seq"

definition UnpackSeq :: "u16 \<Rightarrow> u16 \<Rightarrow> u32" where
  "UnpackSeq lo hi = UnpackUptimeS lo hi"

definition MakeSensorId :: "string \<Rightarrow> u16 \<Rightarrow> u16 \<Rightarrow> string \<Rightarrow> string" where
  "MakeSensorId bus_id unit_id channel quantity =
     bus_id @ ''/u'' @ to_string_nat (unat unit_id) @ ''/ch'' @ to_string_nat (unat channel) @ ''/'' @ quantity"

definition WriteLe16 :: "u16 \<Rightarrow> u8 list" where
  "WriteLe16 v = [ucast (v AND 0xFF), ucast (drop_bit 8 v AND 0xFF)]"

definition ReadLe16 :: "u8 list \<Rightarrow> u16" where
  "ReadLe16 p = ucast (p ! 0) OR push_bit 8 (ucast (p ! 1))"

definition WriteLe32 :: "u32 \<Rightarrow> u8 list" where
  "WriteLe32 v = WriteLe16 (ucast (v AND 0xFFFF)) @ WriteLe16 (ucast (drop_bit 16 v AND 0xFFFF))"

definition ReadLe32 :: "u8 list \<Rightarrow> u32" where
  "ReadLe32 p = UnpackUptimeS (ReadLe16 p) (ReadLe16 (drop 2 p))"

subsection \<open>Round trips\<close>

lemma half_mask: "(0xFFFF :: u32) = mask 16"
  by (simp add: mask_eq_exp_minus_1)

lemma Unpack_Pack: "UnpackUptimeS (ucast (s AND 0xFFFF)) (ucast (drop_bit 16 s AND 0xFFFF)) = s"
proof (rule bit_eqI)
  fix n
  show "bit (UnpackUptimeS (ucast (s AND 0xFFFF)) (ucast (drop_bit 16 s AND 0xFFFF))) n \<longleftrightarrow> bit s n"
    using bit_imp_le_length [of s n] by (auto simp: UnpackUptimeS_def half_mask bit_simps)
qed

lemma UnpackSeq_PackSeq [simp]: "UnpackSeq (fst (PackSeq s)) (snd (PackSeq s)) = s"
  by (simp add: UnpackSeq_def PackSeq_def PackUptimeS_def Unpack_Pack)

lemma ReadLe16_WriteLe16 [simp]: "ReadLe16 (WriteLe16 v @ rest) = v"
  using word_eq_bytes [of v] by (simp add: ReadLe16_def WriteLe16_def or.commute)

lemma WriteLe16_length [simp]: "length (WriteLe16 v) = 2"
  by (simp add: WriteLe16_def)

lemma ReadLe32_WriteLe32 [simp]: "ReadLe32 (WriteLe32 v @ rest) = v"
  by (simp add: ReadLe32_def WriteLe32_def Unpack_Pack)

end
