(* ===== verification/Agri_Card.thy ===== *)
theory Agri_Card
  imports Agri_Registers
begin

section \<open>The acquisition card (apps/agri\_station\_demo/agri\_io\_card\_mock.cpp)\<close>

text \<open>
  The mock card fills the register bank it serves: the device information block, and for each channel a sample computed from
  the time. The sine of the C library is the parameter \<open>sine\<close>. Two threads use the bank, each operation under its lock: the
  sampler and the server.
\<close>

definition BankSize :: "u16 \<Rightarrow> nat" where
  "BankSize channels = unat (ChannelBase channels)"

definition WriteDeviceInfo :: "u16 \<Rightarrow> u32 \<Rightarrow> bank \<Rightarrow> bank" where
  "WriteDeviceInfo channels uptime_s regs =
     (let regs = regs[kRegProtoMagic := kProtoMagic, kRegProtoVersion := kProtoVersion, kRegDeviceClass := DeviceClass_code kIoCard,
                      kRegChannelCount := channels, kRegCapsBits := kCapDemoDefault, kRegStatusBits := 0];
          (lo, hi) = PackUptimeS uptime_s;
          regs = regs[kRegUptimeSLo := lo, kRegUptimeSHi := hi];
          regs = (if regs ! kRegSamplePeriodMs = 0 then regs[kRegSamplePeriodMs := 500] else regs) in
      regs[kRegLastError := 0])"

text \<open>The literals of the code that are not representable are rounded.\<close>

definition phase_of :: "u16 \<Rightarrow> float64 \<Rightarrow> float64" where
  "phase_of channel elapsed = elapsed + f_of_int (uint channel) * round64 (7 / 10)"

definition sample_temp :: "(float64 \<Rightarrow> float64) \<Rightarrow> u16 \<Rightarrow> float64 \<Rightarrow> float64" where
  "sample_temp sine channel elapsed =
     Fin 22 + f_of_int (uint channel) * round64 (3 / 10) + Fin 2 * sine (f_div (phase_of channel elapsed) (Fin 30))"

definition sample_humidity :: "(float64 \<Rightarrow> float64) \<Rightarrow> u16 \<Rightarrow> float64 \<Rightarrow> float64" where
  "sample_humidity sine channel elapsed =
     Fin 50 + f_of_int (uint channel) + Fin 8 * sine (f_div (phase_of channel elapsed) (Fin 40))"

definition sample_lux :: "(float64 \<Rightarrow> float64) \<Rightarrow> u16 \<Rightarrow> float64 \<Rightarrow> float64" where
  "sample_lux sine channel elapsed =
     Fin 8000 + f_of_int (uint channel) * Fin 200 + Fin 3000 * sine (f_div (phase_of channel elapsed) (Fin 20))"

definition sample_moisture :: "(float64 \<Rightarrow> float64) \<Rightarrow> u16 \<Rightarrow> float64 \<Rightarrow> float64" where
  "sample_moisture sine channel elapsed =
     (if channel = 0 then Fin 35 + Fin 25 * sine (f_div elapsed (Fin 45))
      else Fin 40 + f_of_int (uint channel) + Fin 10 * sine (f_div (phase_of channel elapsed) (Fin 50)))"

definition sample_soil_temp :: "(float64 \<Rightarrow> float64) \<Rightarrow> u16 \<Rightarrow> float64 \<Rightarrow> float64" where
  "sample_soil_temp sine channel elapsed =
     Fin 18 + Fin (1 / 2) * f_of_int (uint channel) + sine (f_div (phase_of channel elapsed) (Fin 60))"

definition WriteChannelSample :: "(float64 \<Rightarrow> float64) \<Rightarrow> u16 \<Rightarrow> float64 \<Rightarrow> u32 \<Rightarrow> bank \<Rightarrow> bank option" where
  "WriteChannelSample sine channel elapsed seq regs =
     (case EncodeTempC10 (sample_temp sine channel elapsed) of None \<Rightarrow> None | Some temp \<Rightarrow>
      case EncodeHumidityPct10 (sample_humidity sine channel elapsed) of None \<Rightarrow> None | Some humidity \<Rightarrow>
      case f_to_uint16 (std_min (Fin 65535) (std_max (Fin 0) (sample_lux sine channel elapsed))) of None \<Rightarrow> None | Some lux \<Rightarrow>
      case EncodeSoilMoisturePct10 (sample_moisture sine channel elapsed) of None \<Rightarrow> None | Some moisture \<Rightarrow>
      case EncodeSoilTempC10 (sample_soil_temp sine channel elapsed) of None \<Rightarrow> None | Some soil_t \<Rightarrow>
      let base = unat (ChannelBase channel); (slo, shi) = PackSeq seq in
      Some (regs[base + 0 := temp, base + 1 := humidity, base + 2 := lux, base + 3 := moisture, base + 4 := soil_t,
                 base + 5 := 0, base + 6 := kQualityGood, base + 7 := slo, base + 8 := shi, base + 9 := 0]))"

fun WriteSamples :: "(float64 \<Rightarrow> float64) \<Rightarrow> u16 list \<Rightarrow> float64 \<Rightarrow> u32 \<Rightarrow> bank \<Rightarrow> bank option" where
  "WriteSamples sine [] elapsed seq regs = Some regs"
| "WriteSamples sine (ch # chs) elapsed seq regs =
     (case WriteChannelSample sine ch elapsed seq regs of None \<Rightarrow> None | Some regs \<Rightarrow> WriteSamples sine chs elapsed seq regs)"

definition sampler_round :: "(float64 \<Rightarrow> float64) \<Rightarrow> u16 \<Rightarrow> float64 \<Rightarrow> u32 \<Rightarrow> u32 \<Rightarrow> bank \<Rightarrow> bank option" where
  "sampler_round sine channels elapsed uptime_s seq regs =
     WriteSamples sine (map of_nat [0..<unat channels]) elapsed seq (WriteDeviceInfo channels uptime_s regs)"

definition card_start :: "(float64 \<Rightarrow> float64) \<Rightarrow> u16 \<Rightarrow> bank option" where
  "card_start sine channels = sampler_round sine channels (Fin 0) 0 0 (replicate (BankSize channels) 0)"

subsection \<open>Bounds of computed values\<close>

definition between :: "int \<Rightarrow> int \<Rightarrow> float64 \<Rightarrow> bool" where
  "between a b x \<longleftrightarrow> (\<exists>q. x = Fin q \<and> of_int a \<le> q \<and> q \<le> of_int b)"

lemma between_Fin: "of_int a \<le> q \<Longrightarrow> q \<le> of_int b \<Longrightarrow> between a b (Fin q)"
  by (simp add: between_def)

lemma between_round64:
  "of_int a \<le> q \<Longrightarrow> q \<le> of_int b \<Longrightarrow> \<bar>a\<bar> \<le> 2 ^ 52 \<Longrightarrow> \<bar>b\<bar> \<le> 2 ^ 52 \<Longrightarrow> between a b (round64 q)"
  using round64_int_bounds [of a q b] by (auto simp: between_def)

lemma between_of_int: "a \<le> n \<Longrightarrow> n \<le> b \<Longrightarrow> \<bar>a\<bar> \<le> 2 ^ 52 \<Longrightarrow> \<bar>b\<bar> \<le> 2 ^ 52 \<Longrightarrow> between a b (f_of_int n)"
  unfolding f_of_int_def by (intro between_round64) simp_all

lemma between_plus:
  assumes "between a b x" "between c d y" "\<bar>a + c\<bar> \<le> 2 ^ 52" "\<bar>b + d\<bar> \<le> 2 ^ 52"
  shows "between (a + c) (b + d) (x + y)"
proof -
  obtain p q where "x = Fin p" "y = Fin q" "of_int a \<le> p" "p \<le> of_int b" "of_int c \<le> q" "q \<le> of_int d"
    using assms(1,2) by (auto simp: between_def)
  then show ?thesis using assms(3,4) by (auto intro!: between_round64 add_mono)
qed

lemma between_scale:
  assumes "between a b x" "0 \<le> k" "\<bar>k * a\<bar> \<le> 2 ^ 52" "\<bar>k * b\<bar> \<le> 2 ^ 52"
  shows "between (k * a) (k * b) (Fin (of_int k) * x)" "between (k * a) (k * b) (x * Fin (of_int k))"
proof -
  obtain p where "x = Fin p" "of_int a \<le> p" "p \<le> of_int b" using assms(1) by (auto simp: between_def)
  moreover have "between (k * a) (k * b) (round64 (of_int k * p))"
    using calculation assms by (intro between_round64) (simp_all add: mult_left_mono)
  ultimately show "between (k * a) (k * b) (Fin (of_int k) * x)" "between (k * a) (k * b) (x * Fin (of_int k))"
    by (simp_all add: mult.commute)
qed

lemma between_fraction:
  assumes "between 0 m x" "between 0 1 y" "m \<le> 2 ^ 52"
  shows "between 0 m (x * y)" "between 0 m (y * x)"
proof -
  obtain p q where pq: "x = Fin p" "y = Fin q" "0 \<le> p" "p \<le> of_int m" "0 \<le> q" "q \<le> 1"
    using assms(1,2) by (auto simp: between_def)
  have "p * q \<le> p * 1" using pq by (intro mult_left_mono)
  then have "between 0 m (round64 (p * q))" using pq assms(3) by (intro between_round64) simp_all
  with pq show "between 0 m (x * y)" "between 0 m (y * x)" by (simp_all add: mult.commute)
qed

lemma f_to_uint16_between:
  assumes "between a b x" "0 \<le> a" "b \<le> 65535"
  shows "\<exists>w. f_to_uint16 x = Some w \<and> a \<le> uint w \<and> uint w \<le> b"
proof -
  obtain q where q: "x = Fin q" "of_int a \<le> q" "q \<le> of_int b" using assms(1) by (auto simp: between_def)
  have "a \<le> \<lfloor>q\<rfloor>" "\<lfloor>q\<rfloor> \<le> b" using q by (simp_all add: le_floor_iff floor_le_iff le_less_trans)
  moreover have "0 \<le> q" using q assms(2) by (meson of_int_0_le_iff order_trans)
  ultimately show ?thesis using q assms(2,3)
    by (intro exI [of _ "of_int \<lfloor>q\<rfloor>"]) (simp add: f_to_uint16_def f_trunc_def uint_word_of_int)
qed

lemma f_to_int16_between:
  assumes "between a b x" "0 \<le> a" "b \<le> 32767"
  shows "\<exists>w. f_to_int16 x = Some w \<and> a \<le> sint w \<and> sint w \<le> b"
proof -
  obtain q where q: "x = Fin q" "of_int a \<le> q" "q \<le> of_int b" using assms(1) by (auto simp: between_def)
  define n where "n = \<lfloor>q\<rfloor>"
  have n: "a \<le> n" "n \<le> b" using q by (simp_all add: n_def le_floor_iff floor_le_iff le_less_trans)
  have "0 \<le> q" using q assms(2) by (meson of_int_0_le_iff order_trans)
  then have "f_to_int16 x = Some (of_int n)" using q n assms(2,3) by (simp add: f_to_int16_def f_trunc_def flip: n_def)
  moreover have "sint (of_int n :: u16) = n"
    using n assms(2,3) by (simp add: signed_of_int signed_take_bit_int_eq_self_iff)
  ultimately show ?thesis using n by auto
qed


subsection \<open>What the card serves\<close>

text \<open>The sine is assumed to return a number between -1 and 1 for every argument.\<close>

definition sine_ok :: "(float64 \<Rightarrow> float64) \<Rightarrow> bool" where
  "sine_ok sine \<longleftrightarrow> (\<forall>x. between (-1) 1 (sine x))"

lemma channel_between:
  assumes "channel < (32 :: u16)"
  shows "between 0 31 (f_of_int (uint channel))"
proof -
  have "uint channel < 32" using assms by (simp add: word_less_def)
  then have "uint channel \<le> 31" by simp
  then show ?thesis by (intro between_of_int) simp_all
qed

lemma samples_between:
  assumes "sine_ok sine" "channel < 32"
  shows "between 20 55 (sample_temp sine channel elapsed)" "between 42 89 (sample_humidity sine channel elapsed)"
    "between 5000 17200 (sample_lux sine channel elapsed)" "between 10 81 (sample_moisture sine channel elapsed)"
    "between 17 50 (sample_soil_temp sine channel elapsed)"
proof -
  have s: "between (-1) 1 (sine x)" for x using assms(1) by (simp add: sine_ok_def)
  note c = channel_between [OF assms(2)]
  have scaled: "between (- k) k (Fin (of_int k) * sine x)" if "0 \<le> k" "k \<le> 3000" for k x
    using between_scale(1) [OF s, of k] that by simp
  have third: "between 0 31 (f_of_int (uint channel) * round64 (3 / 10))"
    by (intro between_fraction(1) [OF c] between_round64) simp_all
  have half: "between 0 31 (Fin (1 / 2) * f_of_int (uint channel))"
    by (intro between_fraction(2) [OF c] between_Fin) simp_all
  have const: "between k k (Fin (of_int k))" for k by (simp add: between_def)
  show "between 20 55 (sample_temp sine channel elapsed)"
    using between_plus [OF between_plus [OF const [of 22] third] scaled [of 2]] by (simp add: sample_temp_def)
  show "between 42 89 (sample_humidity sine channel elapsed)"
    using between_plus [OF between_plus [OF const [of 50] c] scaled [of 8]] by (simp add: sample_humidity_def)
  show "between 5000 17200 (sample_lux sine channel elapsed)"
    using between_plus [OF between_plus [OF const [of 8000] between_scale(2) [OF c, of 200]] scaled [of 3000]]
    by (simp add: sample_lux_def)
  show "between 17 50 (sample_soil_temp sine channel elapsed)"
    using between_plus [OF between_plus [OF const [of 18] half] s] by (simp add: sample_soil_temp_def)
  have "between 10 60 (Fin 35 + Fin 25 * sine x)" for x
    using between_plus [OF const [of 35] scaled [of 25]] by simp
  moreover have "between 30 81 (Fin 40 + f_of_int (uint channel) + Fin 10 * sine x)" for x
    using between_plus [OF between_plus [OF const [of 40] c] scaled [of 10]] by simp
  ultimately show "between 10 81 (sample_moisture sine channel elapsed)"
    by (fastforce simp: sample_moisture_def between_def)
qed

lemma clamp_between:
  assumes "between 5000 17200 x"
  shows "std_min (Fin 65535) (std_max (Fin 0) x) = x"
proof -
  obtain q where "x = Fin q" "5000 \<le> q" "q \<le> 17200" using assms by (auto simp: between_def)
  then show ?thesis by (simp add: std_min_def std_max_def)
qed

lemma sample_written:
  assumes "sine_ok sine" "channel < 32"
  shows "\<exists>temp humidity lux moisture soil_t. WriteChannelSample sine channel elapsed seq regs = Some
      (let base = unat (ChannelBase channel) in
       regs[base + 0 := temp, base + 1 := humidity, base + 2 := lux, base + 3 := moisture, base + 4 := soil_t, base + 5 := 0,
            base + 6 := kQualityGood, base + 7 := fst (PackSeq seq), base + 8 := snd (PackSeq seq), base + 9 := 0]) \<and>
    200 \<le> sint temp \<and> sint temp \<le> 550 \<and> 420 \<le> uint humidity \<and> uint humidity \<le> 890 \<and> 5000 \<le> uint lux \<and> uint lux \<le> 17200 \<and>
    100 \<le> uint moisture \<and> uint moisture \<le> 810 \<and> 170 \<le> sint soil_t \<and> sint soil_t \<le> 500"
proof -
  note b = samples_between [OF assms, of elapsed]
  have ten: "between (10 * a) (10 * c) (x * Fin 10)" if "between a c x" "\<bar>a\<bar> \<le> 1000" "\<bar>c\<bar> \<le> 1000" for a c x
    using between_scale(2) [OF that(1), of 10] that by simp
  obtain temp where t: "EncodeTempC10 (sample_temp sine channel elapsed) = Some temp" "200 \<le> sint temp" "sint temp \<le> 550"
    using f_to_int16_between [OF ten [OF b(1)]] by (auto simp: EncodeTempC10_def)
  obtain humidity where h: "EncodeHumidityPct10 (sample_humidity sine channel elapsed) = Some humidity" "420 \<le> uint humidity" "uint humidity \<le> 890"
    using f_to_uint16_between [OF ten [OF b(2)]] by (auto simp: EncodeHumidityPct10_def)
  obtain lux where l: "f_to_uint16 (std_min (Fin 65535) (std_max (Fin 0) (sample_lux sine channel elapsed))) = Some lux" "5000 \<le> uint lux" "uint lux \<le> 17200"
    using f_to_uint16_between [OF b(3)] clamp_between [OF b(3)] by auto
  obtain moisture where m: "EncodeSoilMoisturePct10 (sample_moisture sine channel elapsed) = Some moisture" "100 \<le> uint moisture" "uint moisture \<le> 810"
    using f_to_uint16_between [OF ten [OF b(4)]] by (auto simp: EncodeSoilMoisturePct10_def)
  obtain soil_t where s: "EncodeSoilTempC10 (sample_soil_temp sine channel elapsed) = Some soil_t" "170 \<le> sint soil_t" "sint soil_t \<le> 500"
    using f_to_int16_between [OF ten [OF b(5)]] by (auto simp: EncodeSoilTempC10_def EncodeTempC10_def)
  show ?thesis
    using t h l m s
    by (intro exI [of _ temp] exI [of _ humidity] exI [of _ lux] exI [of _ moisture] exI [of _ soil_t])
      (simp add: WriteChannelSample_def Let_def split_beta)
qed

definition sample_in_range :: "u32 \<Rightarrow> bank \<Rightarrow> u16 \<Rightarrow> bool" where
  "sample_in_range seq regs channel \<longleftrightarrow>
     (let base = unat (ChannelBase channel) in
      200 \<le> sint (regs ! base) \<and> sint (regs ! base) \<le> 550 \<and> 420 \<le> uint (regs ! (base + 1)) \<and> uint (regs ! (base + 1)) \<le> 890 \<and>
      5000 \<le> uint (regs ! (base + 2)) \<and> uint (regs ! (base + 2)) \<le> 17200 \<and>
      100 \<le> uint (regs ! (base + 3)) \<and> uint (regs ! (base + 3)) \<le> 810 \<and>
      170 \<le> sint (regs ! (base + 4)) \<and> sint (regs ! (base + 4)) \<le> 500 \<and>
      regs ! (base + 6) = kQualityGood \<and> UnpackSeq (regs ! (base + 7)) (regs ! (base + 8)) = seq)"

lemma ChannelBase_unat: "unat channel \<le> 32 \<Longrightarrow> unat (ChannelBase channel) = 256 + 16 * unat channel"
  by (simp add: ChannelBase_def unat_word_ariths)

lemma one_sample:
  assumes "sine_ok sine" "channel < 32" "unat (ChannelBase channel) + 10 \<le> length regs"
  shows "\<exists>regs'. WriteChannelSample sine channel elapsed seq regs = Some regs' \<and> length regs' = length regs \<and>
    sample_in_range seq regs' channel \<and>
    (\<forall>j. j < unat (ChannelBase channel) \<or> unat (ChannelBase channel) + 10 \<le> j \<longrightarrow> regs' ! j = regs ! j)"
proof -
  obtain temp humidity lux moisture soil_t where w: "WriteChannelSample sine channel elapsed seq regs = Some
      (let base = unat (ChannelBase channel) in
       regs[base + 0 := temp, base + 1 := humidity, base + 2 := lux, base + 3 := moisture, base + 4 := soil_t, base + 5 := 0,
            base + 6 := kQualityGood, base + 7 := fst (PackSeq seq), base + 8 := snd (PackSeq seq), base + 9 := 0])"
    and r: "200 \<le> sint temp" "sint temp \<le> 550" "420 \<le> uint humidity" "uint humidity \<le> 890" "5000 \<le> uint lux" "uint lux \<le> 17200"
      "100 \<le> uint moisture" "uint moisture \<le> 810" "170 \<le> sint soil_t" "sint soil_t \<le> 500"
    using sample_written [OF assms(1,2), of elapsed seq regs] by blast
  define base where "base = unat (ChannelBase channel)"
  define regs' where "regs' = regs[base + 0 := temp, base + 1 := humidity, base + 2 := lux, base + 3 := moisture, base + 4 := soil_t,
    base + 5 := 0, base + 6 := kQualityGood, base + 7 := fst (PackSeq seq), base + 8 := snd (PackSeq seq), base + 9 := 0]"
  have len: "base + 10 \<le> length regs" using assms(3) by (simp add: base_def)
  have "sample_in_range seq regs' channel"
    using r len by (simp add: sample_in_range_def Let_def regs'_def nth_list_update flip: base_def)
  moreover have "\<forall>j. j < base \<or> base + 10 \<le> j \<longrightarrow> regs' ! j = regs ! j" by (auto simp: regs'_def)
  moreover have "WriteChannelSample sine channel elapsed seq regs = Some regs'" using w by (simp add: regs'_def base_def Let_def)
  moreover have "length regs' = length regs" by (simp add: regs'_def)
  ultimately show ?thesis by (auto simp: base_def)
qed

lemma sample_in_range_frame:
  assumes "\<forall>j. unat (ChannelBase channel) \<le> j \<and> j < unat (ChannelBase channel) + 10 \<longrightarrow> regs' ! j = regs ! j" "sample_in_range seq regs channel"
  shows "sample_in_range seq regs' channel"
  using assms by (simp add: sample_in_range_def Let_def)

lemma blocks_apart:
  assumes "a < 32" "c < (32 :: u16)" "a \<noteq> c" "unat (ChannelBase a) \<le> j" "j < unat (ChannelBase a) + 10"
  shows "j < unat (ChannelBase c) \<or> unat (ChannelBase c) + 10 \<le> j"
proof -
  have small: "unat a < 32" "unat c < 32" using assms(1,2) by (simp_all add: word_less_nat_alt)
  moreover have "unat a \<noteq> unat c" using assms(3) by (simp add: word_unat_eq_iff)
  ultimately show ?thesis using assms(4,5) ChannelBase_unat [of a] ChannelBase_unat [of c] by arith
qed

lemma WriteSamples_in_range:
  "sine_ok sine \<Longrightarrow> distinct chs \<Longrightarrow> \<forall>ch\<in>set chs. ch < 32 \<and> unat (ChannelBase ch) + 10 \<le> length regs \<Longrightarrow>
   \<exists>regs'. WriteSamples sine chs elapsed seq regs = Some regs' \<and> length regs' = length regs \<and>
     (\<forall>ch\<in>set chs. sample_in_range seq regs' ch) \<and>
     (\<forall>j. (\<forall>ch\<in>set chs. j < unat (ChannelBase ch) \<or> unat (ChannelBase ch) + 10 \<le> j) \<longrightarrow> regs' ! j = regs ! j)"
proof (induction chs arbitrary: regs)
  case (Cons ch chs)
  obtain r where r: "WriteChannelSample sine ch elapsed seq regs = Some r" "length r = length regs" "sample_in_range seq r ch"
      "\<And>j. j < unat (ChannelBase ch) \<or> unat (ChannelBase ch) + 10 \<le> j \<Longrightarrow> r ! j = regs ! j"
    using one_sample [OF Cons.prems(1), of ch regs elapsed seq] Cons.prems(3) by auto
  obtain regs' where r': "WriteSamples sine chs elapsed seq r = Some regs'" "length regs' = length r"
      "\<forall>c\<in>set chs. sample_in_range seq regs' c"
      "\<And>j. (\<And>c. c \<in> set chs \<Longrightarrow> j < unat (ChannelBase c) \<or> unat (ChannelBase c) + 10 \<le> j) \<Longrightarrow> regs' ! j = r ! j"
    using Cons.IH [of r] Cons.prems r(2) by auto
  have "sample_in_range seq regs' ch"
  proof (rule sample_in_range_frame [OF _ r(3)], intro allI impI)
    fix j
    assume "unat (ChannelBase ch) \<le> j \<and> j < unat (ChannelBase ch) + 10"
    then show "regs' ! j = r ! j" using Cons.prems(2,3) by (intro r'(4) blocks_apart [of ch]) auto
  qed
  with r r' show ?case by auto
qed simp

text \<open>Whatever the bank held, a round of the sampler completes without an undefined conversion: it announces the card, leaves the
  master's heartbeat as it was, and gives every channel a good sample with the round's number and a temperature of 20 to 55 degrees,
  a humidity of 42 to 89 percent, 5000 to 17200 lux, a soil moisture of 10 to 81 percent and a soil temperature of 17 to 50
  degrees in its registers.\<close>

theorem sampler_round_in_range:
  assumes "sine_ok sine" "1 \<le> channels" "channels \<le> 32" "length regs = BankSize channels"
  shows "\<exists>regs'. sampler_round sine channels elapsed uptime_s seq regs = Some regs' \<and> length regs' = BankSize channels \<and>
    regs' ! 0 = kProtoMagic \<and> regs' ! 3 = channels \<and> UnpackUptimeS (regs' ! 6) (regs' ! 7) = uptime_s \<and> regs' ! 8 = regs ! 8 \<and>
    (\<forall>ch < channels. sample_in_range seq regs' ch)"
proof -
  have n: "unat channels \<le> 32" using assms(3) by (simp add: word_le_nat_alt)
  have size: "BankSize channels = 256 + 16 * unat channels" using ChannelBase_unat [OF n] by (simp add: BankSize_def)
  let ?chs = "map of_nat [0..<unat channels] :: u16 list"
  have unat: "unat (of_nat k :: u16) = k" if "k < unat channels" for k
    using that n by (simp add: unat_of_nat)
  have small: "of_nat k < (32 :: u16)" if "k < unat channels" for k
    using unat [OF that] that n by (simp add: word_less_nat_alt)
  have base: "unat (ChannelBase (of_nat k)) = 256 + 16 * k" if "k < unat channels" for k
    using ChannelBase_unat [of "of_nat k"] unat [OF that] that n by simp
  have d: "distinct ?chs" using unat by (auto simp: distinct_map intro!: inj_onI) metis
  have l: "length (WriteDeviceInfo channels uptime_s regs) = length regs"
    by (simp add: WriteDeviceInfo_def Let_def split: prod.split)
  have fits: "\<forall>ch\<in>set ?chs. ch < 32 \<and> unat (ChannelBase ch) + 10 \<le> length (WriteDeviceInfo channels uptime_s regs)"
    using small base size assms(4) l by auto
  obtain regs' where r: "sampler_round sine channels elapsed uptime_s seq regs = Some regs'" "length regs' = length regs"
      "\<And>k. k < unat channels \<Longrightarrow> sample_in_range seq regs' (of_nat k)"
      "\<And>j. j < 256 \<Longrightarrow> regs' ! j = WriteDeviceInfo channels uptime_s regs ! j"
    using WriteSamples_in_range [OF assms(1) d fits, of elapsed seq] base l by (auto simp: sampler_round_def)
  have info: "WriteDeviceInfo channels uptime_s regs ! 0 = kProtoMagic" "WriteDeviceInfo channels uptime_s regs ! 3 = channels"
    "WriteDeviceInfo channels uptime_s regs ! 8 = regs ! 8"
    "UnpackUptimeS (WriteDeviceInfo channels uptime_s regs ! 6) (WriteDeviceInfo channels uptime_s regs ! 7) = uptime_s"
    using size assms(4) by (simp_all add: WriteDeviceInfo_def PackUptimeS_def Let_def Unpack_Pack nth_list_update)
  have "sample_in_range seq regs' ch" if "ch < channels" for ch
    using r(3) [of "unat ch"] that by (simp add: word_less_nat_alt)
  with r info assms(4) show ?thesis by simp
qed

theorem sampler_round_in_range_witness:
  "\<exists>regs'. sampler_round (\<lambda>x. Fin 1) 1 (Fin 12) 7 3 (replicate 272 5) = Some regs' \<and> regs' ! 8 = 5 \<and> sample_in_range 3 regs' 0"
proof -
  have "sine_ok (\<lambda>x. Fin 1)" by (simp add: sine_ok_def between_def)
  moreover have "length (replicate 272 (5 :: u16)) = BankSize 1" by (simp add: BankSize_def ChannelBase_def)
  ultimately show ?thesis
    using sampler_round_in_range [of "\<lambda>x. Fin 1" 1 "replicate 272 5" "Fin 12" 7 3] by force
qed

end
