(* ===== verification/Agri_Master.thy ===== *)
theory Agri_Master
  imports Agri_Card Hardware_Adapters
begin

section \<open>The field bus master (apps/agri\_station\_demo/agri\_field\_master.cpp, agri\_common.hpp)\<close>

text \<open>
  The master polls the card over Modbus and publishes the samples of one channel. \<open>master_round\<close> is one iteration of its main
  loop, over any socket; what a round observes of its surroundings (whether a connection can be made, the clocks of
  the messages) are arguments.
\<close>

subsection \<open>Messages\<close>

record ProtoScalarSample =
  psc_header :: Header
  psc_sensor_id :: string
  psc_frame_id :: string
  psc_sample_time_monotonic_ns :: u64
  psc_sequence :: u64
  psc_quantity :: string
  psc_value :: float64
  psc_unit :: string

text \<open>The times at which a message is built: the unix and the monotonic clock.\<close>

type_synonym stamp = "u64 \<times> u64"

definition agri_FillHeader :: "string \<Rightarrow> u64 \<Rightarrow> stamp \<Rightarrow> Header" where
  "agri_FillHeader node_name sequence t = empty_header
     \<lparr>h_source_node := node_name, h_source_instance := ''agri-station-demo'', h_robot_id := ''openember'', h_sequence := sequence,
      h_timestamp_unix_ns := fst t\<rparr>"

definition MakeTemperature :: "string \<Rightarrow> string \<Rightarrow> u64 \<Rightarrow> float64 \<Rightarrow> stamp \<Rightarrow> ProtoTemperatureSample" where
  "MakeTemperature node_name sensor_id sequence celsius t =
     \<lparr>ptm_header = agri_FillHeader node_name sequence t, ptm_sensor_id = sensor_id, ptm_frame_id = ''agri_station'',
      ptm_sample_time_monotonic_ns = snd t, ptm_sequence = sequence, ptm_temperature_celsius = celsius\<rparr>"

definition MakeScalar :: "string \<Rightarrow> string \<Rightarrow> u64 \<Rightarrow> string \<Rightarrow> float64 \<Rightarrow> string \<Rightarrow> stamp \<Rightarrow> ProtoScalarSample" where
  "MakeScalar node_name sensor_id sequence quantity v unit t =
     \<lparr>psc_header = agri_FillHeader node_name sequence t, psc_sensor_id = sensor_id, psc_frame_id = ''agri_station'',
      psc_sample_time_monotonic_ns = snd t, psc_sequence = sequence, psc_quantity = quantity, psc_value = v, psc_unit = unit\<rparr>"

datatype agri_message = On_temperature ProtoTemperatureSample | On_humidity ProtoScalarSample | On_light ProtoScalarSample | On_soil ProtoScalarSample
  | On_status ProtoScalarSample | On_alert ProtoScalarSample

subsection \<open>Decoding\<close>

record ChannelSample =
  ch_temp_c :: float64
  ch_humidity :: float64
  ch_lux :: float64
  ch_soil :: float64
  ch_soil_temp :: float64
  ch_quality :: u16
  ch_seq :: u32
  ch_ok :: bool

definition no_sample :: ChannelSample where
  "no_sample = \<lparr>ch_temp_c = Fin 0, ch_humidity = Fin 0, ch_lux = Fin 0, ch_soil = Fin 0, ch_soil_temp = Fin 0, ch_quality = 0,
     ch_seq = 0, ch_ok = False\<rparr>"

definition DecodeChannel :: "u16 list \<Rightarrow> ChannelSample" where
  "DecodeChannel block =
     (if length block < 16 then no_sample
      else \<lparr>ch_temp_c = DecodeTempC (block ! 0), ch_humidity = DecodeHumidityPct (block ! 1), ch_lux = f_of_int (uint (block ! 2)),
            ch_soil = DecodeSoilMoisturePct (block ! 3), ch_soil_temp = DecodeSoilTempC (block ! 4), ch_quality = block ! 6,
            ch_seq = UnpackSeq (block ! 7) (block ! 8),
            ch_ok = (block ! 6 AND kQualityGood \<noteq> 0 \<and> block ! 6 AND kQualityCommLost = 0)\<rparr>)"

subsection \<open>The main loop\<close>

record MasterOptions =
  mo_bus_id :: string
  mo_unit :: u8
  mo_channels :: u16
  mo_timeout_ms :: int
  mo_ui_channel :: u16

record master =
  ms_client :: TcpClient
  ms_fail_streak :: int
  ms_sequence :: u64
  ms_heartbeat :: u16

definition master_start :: master where
  "master_start = \<lparr>ms_client = new_TcpClient, ms_fail_streak = 0, ms_sequence = 0, ms_heartbeat = 1\<rparr>"

definition kMaxRegsPerRead :: u16 where
  "kMaxRegsPerRead = 120"

text \<open>The reads of the channel blocks, at most \<open>kMaxRegsPerRead\<close> registers each.\<close>

function read_channels :: "'w net \<Rightarrow> u8 \<Rightarrow> u16 \<Rightarrow> u16 \<Rightarrow> u16 list \<Rightarrow> TcpClient \<Rightarrow> 'w \<Rightarrow> u16 list option \<times> TcpClient \<times> 'w" where
  "read_channels N unit addr remaining channels c w =
     (if remaining = 0 then (Some channels, c, w)
      else let qty = (if kMaxRegsPerRead < remaining then kMaxRegsPerRead else remaining) in
        case ReadHoldingRegisters N unit addr qty c w of
          (None, c, w) \<Rightarrow> (None, c, w)
        | (Some chunk, c, w) \<Rightarrow> read_channels N unit (addr + qty) (remaining - qty) (channels @ chunk) c w)"
  by pat_completeness auto
termination
proof (relation "measure (\<lambda>(N, unit, addr, remaining, channels, c, w). unat remaining)", goal_cases)
  case (2 N unit addr remaining channels c w qty)
  then show ?case
    by (auto simp: kMaxRegsPerRead_def unat_sub word_less_nat_alt word_le_nat_alt unat_gt_0 split: if_splits)
qed simp

declare read_channels.simps [simp del]

definition master_failed :: "master \<Rightarrow> TcpClient \<Rightarrow> master" where
  "master_failed m c =
     (let streak = ms_fail_streak m + 1 in
      m\<lparr>ms_fail_streak := streak, ms_client := (if streak \<ge> 3 then tc_Close c else c)\<rparr>)"

definition ui_messages :: "MasterOptions \<Rightarrow> u64 \<Rightarrow> ChannelSample \<Rightarrow> (nat \<Rightarrow> stamp) \<Rightarrow> agri_message list" where
  "ui_messages opt sequence ui clock =
     (let sid = MakeSensorId (mo_bus_id opt) (ucast (mo_unit opt)) (mo_ui_channel opt); node = ''agri_field_master'' in
      [On_temperature (MakeTemperature node (sid ''air_temperature'') sequence (ch_temp_c ui) (clock 0)),
       On_humidity (MakeScalar node (sid ''air_humidity'') sequence ''relative_humidity'' (ch_humidity ui) ''%'' (clock 1)),
       On_light (MakeScalar node (sid ''illuminance'') sequence ''illuminance'' (ch_lux ui) ''lux'' (clock 2)),
       On_soil (MakeScalar node (sid ''soil_moisture'') sequence ''soil_moisture'' (ch_soil ui) ''%'' (clock 3))])"

text \<open>\<open>connection\<close> is what a connection attempt gives: a descriptor, or nothing when it fails.\<close>

definition master_round :: "'w net \<Rightarrow> MasterOptions \<Rightarrow> int option \<Rightarrow> (nat \<Rightarrow> stamp) \<Rightarrow> master \<Rightarrow> 'w \<Rightarrow> agri_message list \<times> master \<times> 'w" where
  "master_round N opt connection clock m w =
     (if \<not> tc_connected (ms_client m) \<and> connection = None then ([], m\<lparr>ms_client := tc_Close (ms_client m)\<rparr>, w)
      else
        let m = (if tc_connected (ms_client m) then m
                 else m\<lparr>ms_client := (ms_client m)\<lparr>tc_fd := the connection, tc_timeout_ms := mo_timeout_ms opt\<rparr>, ms_fail_streak := 0\<rparr>) in
        case ReadHoldingRegisters N (mo_unit opt) kDeviceInfoBase kDeviceInfoCount (ms_client m) w of
          (None, c, w) \<Rightarrow> ([], master_failed m c, w)
        | (Some info, c, w) \<Rightarrow>
            (case read_channels N (mo_unit opt) kChannelBase (ChannelBlockCount (mo_channels opt)) [] c w of
               (None, c, w) \<Rightarrow> ([], master_failed m c, w)
             | (Some channels, c, w) \<Rightarrow>
                 (case (if length info \<ge> 16 then WriteSingleRegister N (mo_unit opt) kRegHeartbeat (ms_heartbeat m) c w else (False, c, w)) of
                    (written, c, w) \<Rightarrow>
                      let samples = map (\<lambda>ch. DecodeChannel (take 16 (drop (ch * 16) channels))) [0..<unat (mo_channels opt)];
                          ui = samples ! unat (mo_ui_channel opt) in
                      ((if ch_ok ui then ui_messages opt (ms_sequence m) ui clock else []),
                       m\<lparr>ms_client := c, ms_fail_streak := 0, ms_sequence := ms_sequence m + 1,
                          ms_heartbeat := (if length info \<ge> 16 then ms_heartbeat m + 1 else ms_heartbeat m)\<rparr>, w))))"


subsection \<open>What a round publishes\<close>

lemma read_channels_delivers:
  "idle s \<Longrightarrow> tc_connected c \<Longrightarrow> unat addr + unat remaining \<le> length (lk_regs s) \<Longrightarrow> unat addr + unat remaining < 65536 \<Longrightarrow>
   \<exists>c' s'. read_channels client_net unit addr remaining acc c s =
      (Some (acc @ take (unat remaining) (drop (unat addr) (lk_regs s))), c', s') \<and>
    idle s' \<and> tc_connected c' \<and> lk_regs s' = lk_regs s"
proof (induction "unat remaining" arbitrary: addr remaining acc c s rule: less_induct)
  case less
  show ?case
  proof (cases "remaining = 0")
    case True
    then show ?thesis using less.prems by (subst read_channels.simps) auto
  next
    case False
    define qty where "qty = (if kMaxRegsPerRead < remaining then kMaxRegsPerRead else remaining)"
    have qty: "1 \<le> unat qty" "unat qty \<le> 125" "unat qty \<le> unat remaining"
      using False by (auto simp: qty_def kMaxRegsPerRead_def word_less_nat_alt unat_gt_0 Suc_le_eq)
    have rest: "unat (remaining - qty) = unat remaining - unat qty" using qty(3) by (simp add: unat_sub word_le_nat_alt)
    have moved: "unat (addr + qty) = unat addr + unat qty" using less.prems(4) qty(3) by (simp add: unat_word_ariths)
    have fits: "unat addr + unat qty \<le> length (lk_regs s)" using less.prems(3) qty(3) by linarith
    obtain c1 s1 where r: "ReadHoldingRegisters client_net unit addr qty c s = (Some (take (unat qty) (drop (unat addr) (lk_regs s))), c1, s1)"
        "idle s1" "tc_connected c1" "lk_regs s1 = lk_regs s"
      using read_registers [OF less.prems(1,2) qty(1,2), of unit addr] fits by auto
    have smaller: "unat (remaining - qty) < unat remaining" using rest qty(1,3) by linarith
    have p: "unat (addr + qty) + unat (remaining - qty) \<le> length (lk_regs s1)" "unat (addr + qty) + unat (remaining - qty) < 65536"
      using rest moved qty(3) less.prems(3,4) r(4) by simp_all
    have joined: "take (unat qty) (drop (unat addr) (lk_regs s)) @ take (unat remaining - unat qty) (drop (unat addr + unat qty) (lk_regs s)) =
        take (unat remaining) (drop (unat addr) (lk_regs s))"
      using take_add [of "unat qty" "unat remaining - unat qty" "drop (unat addr) (lk_regs s)"] qty(3) by (simp add: add.commute)
    let ?acc = "acc @ take (unat qty) (drop (unat addr) (lk_regs s))"
    obtain c' s' where "read_channels client_net unit (addr + qty) (remaining - qty) ?acc c1 s1 =
          (Some (?acc @ take (unat (remaining - qty)) (drop (unat (addr + qty)) (lk_regs s1))), c', s')"
        "idle s'" "tc_connected c'" "lk_regs s' = lk_regs s1"
      using less.hyps [OF smaller r(2,3) p, of ?acc] by blast
    moreover have "read_channels client_net unit addr remaining acc c s = read_channels client_net unit (addr + qty) (remaining - qty) ?acc c1 s1"
      using False r(1) by (subst read_channels.simps) (simp only: Let_def qty_def [symmetric] if_False option.case prod.case)
    ultimately show ?thesis using joined rest moved r(4) by (intro exI [of _ c'] exI [of _ s']) simp
  qed
qed

text \<open>C23: Over a connection that is up, a round reads the card completely, though in several requests, and publishes the
  registers of the displayed channel, decoded, exactly if their quality is good and not lost. It writes its heartbeat to the
  card and nothing else, counts the round, and stays connected.\<close>

theorem master_publishes_registers:
  assumes "idle s" "tc_connected (ms_client m)" "mo_channels opt \<le> 32" "mo_ui_channel opt < mo_channels opt"
    and "256 + 16 * unat (mo_channels opt) \<le> length (lk_regs s)"
  shows "\<exists>m' s'. master_round client_net opt connection clock m s =
      (let block = take 16 (drop (256 + 16 * unat (mo_ui_channel opt)) (lk_regs s)) in
       if block ! 6 AND kQualityGood \<noteq> 0 \<and> block ! 6 AND kQualityCommLost = 0
       then ui_messages opt (ms_sequence m) (DecodeChannel block) clock else [], m', s') \<and>
    idle s' \<and> lk_regs s' = (lk_regs s)[8 := ms_heartbeat m] \<and> tc_connected (ms_client m') \<and> ms_fail_streak m' = 0 \<and>
    ms_sequence m' = ms_sequence m + 1 \<and> ms_heartbeat m' = ms_heartbeat m + 1"
proof -
  let ?n = "unat (mo_channels opt)" and ?ui = "unat (mo_ui_channel opt)"
  define block where "block = take 16 (drop (256 + 16 * ?ui) (lk_regs s))"
  have n: "?n \<le> 32" "?ui < ?n" using assms(3,4) by (simp_all add: word_le_nat_alt word_less_nat_alt)
  have count: "unat (ChannelBlockCount (mo_channels opt)) = 16 * ?n"
    using n by (simp add: ChannelBlockCount_def unat_word_ariths)
  obtain c1 s1 where info: "ReadHoldingRegisters client_net (mo_unit opt) 0 16 (ms_client m) s = (Some (take 16 (lk_regs s)), c1, s1)"
      "idle s1" "tc_connected c1" "lk_regs s1 = lk_regs s"
    using read_registers [OF assms(1,2), of 16 "mo_unit opt" 0] assms(5) by auto
  obtain c2 s2 where chans: "read_channels client_net (mo_unit opt) kChannelBase (ChannelBlockCount (mo_channels opt)) [] c1 s1 =
        (Some (take (16 * ?n) (drop 256 (lk_regs s))), c2, s2)" "idle s2" "tc_connected c2" "lk_regs s2 = lk_regs s"
    using read_channels_delivers [OF info(2,3), of kChannelBase "ChannelBlockCount (mo_channels opt)" "mo_unit opt" "[]"]
      info(4) assms(5) n count by auto
  obtain c3 s3 where beat: "WriteSingleRegister client_net (mo_unit opt) kRegHeartbeat (ms_heartbeat m) c2 s2 = (True, c3, s3)"
      "idle s3" "tc_connected c3" "lk_regs s3 = (lk_regs s)[8 := ms_heartbeat m]"
    using write_register [OF chans(2,3), of "mo_unit opt" kRegHeartbeat "ms_heartbeat m"] chans(4) assms(5) by auto
  have "16 * ?ui + 16 \<le> 16 * ?n" using n(2) by simp
  then have "take 16 (drop (?ui * 16) (take (16 * ?n) (drop 256 (lk_regs s)))) = block"
    by (simp add: block_def drop_take min_def ac_simps)
  then have ui: "map (\<lambda>ch. DecodeChannel (take 16 (drop (ch * 16) (take (16 * ?n) (drop 256 (lk_regs s)))))) [0..<?n] ! ?ui = DecodeChannel block"
    using n(2) by simp
  have "length block = 16" using assms(5) n(2) by (simp add: block_def)
  then have ok: "ch_ok (DecodeChannel block) \<longleftrightarrow> block ! 6 AND kQualityGood \<noteq> 0 \<and> block ! 6 AND kQualityCommLost = 0"
    by (simp add: DecodeChannel_def)
  have "length (take 16 (lk_regs s)) = 16" using assms(5) by simp
  with assms(2) info chans beat ui ok show ?thesis
    unfolding block_def [symmetric] Let_def by (simp add: master_round_def Let_def)
qed

text \<open>Whatever the socket does, a connected master has seen fewer failures in a row than the limit.\<close>

lemma tc_Close_disconnected [simp]: "\<not> tc_connected (tc_Close c)"
  by (simp add: tc_connected_def tc_Close_def)

lemma master_streak_bounded:
  assumes "tc_connected (ms_client m) \<longrightarrow> 0 \<le> ms_fail_streak m \<and> ms_fail_streak m < 3"
    and "master_round N opt connection clock m w = (out, m', w')"
  shows "tc_connected (ms_client m') \<longrightarrow> 0 \<le> ms_fail_streak m' \<and> ms_fail_streak m' < 3"
  using assms by (auto simp: master_round_def master_failed_def Let_def split: if_splits prod.splits option.splits)

definition demo_station_link :: link where
  "demo_station_link = demo_link\<lparr>lk_regs := replicate 272 1\<rparr>"

definition demo_master_options :: MasterOptions where
  "demo_master_options = \<lparr>mo_bus_id = ''io0'', mo_unit = 1, mo_channels = 1, mo_timeout_ms = 500, mo_ui_channel = 0\<rparr>"

theorem master_publishes_registers_witness:
  "\<exists>m' s'. master_round client_net demo_master_options None (\<lambda>k. (0, 0)) (master_start\<lparr>ms_client := demo_client\<rparr>) demo_station_link =
      (ui_messages demo_master_options 0 (DecodeChannel (replicate 16 1)) (\<lambda>k. (0, 0)), m', s') \<and> ms_sequence m' = 1"
  using master_publishes_registers [of demo_station_link "master_start\<lparr>ms_client := demo_client\<rparr>" demo_master_options None "\<lambda>k. (0, 0)"]
  by (simp add: demo_station_link_def demo_link_def demo_master_options_def demo_client_def new_TcpClient_def master_start_def idle_def
      tc_connected_def Let_def) blast

end
