(* ===== verification/Agri_Station.thy ===== *)
theory Agri_Station
  imports Agri_Master
begin

section \<open>The station program (apps/agri\_station\_demo/agri\_station\_app.cpp, agri\_station\_model.hpp)\<close>

text \<open>
  The station keeps the last reading of each quantity, and every second judges them and publishes its state. The subscriber's
  callbacks and the tick take the same lock, so that a run is any sequence of both. Times are those of the steady clock
  in nanoseconds.
\<close>

record SensorReading =
  sr_value :: float64
  sr_has_value :: bool
  sr_last_rx :: int

definition no_reading :: SensorReading where
  "no_reading = \<lparr>sr_value = Fin 0, sr_has_value = False, sr_last_rx = - (2 ^ 63)\<rparr>"

definition Fresh :: "SensorReading \<Rightarrow> int \<Rightarrow> bool" where
  "Fresh reading now =
     (if \<not> sr_has_value reading then False
      else f_div (f_of_int (now - sr_last_rx reading)) (Fin 1000000000) \<le> Fin (5 / 2))"

record StationSnapshot =
  sn_state :: string
  sn_state_code :: float64
  sn_climate_ok :: bool
  sn_soil_ok :: bool
  sn_soil_dry :: bool
  sn_temperature :: SensorReading
  sn_humidity :: SensorReading
  sn_light :: SensorReading
  sn_soil :: SensorReading

definition EvaluateStation :: "SensorReading \<Rightarrow> SensorReading \<Rightarrow> SensorReading \<Rightarrow> SensorReading \<Rightarrow> int \<Rightarrow> StationSnapshot" where
  "EvaluateStation temperature humidity light soil now =
     (let climate_ok = (Fresh temperature now \<and> Fresh humidity now \<and> Fresh light now);
          soil_ok = Fresh soil now;
          soil_dry = (soil_ok \<and> sr_value soil < Fin 25);
          (state, code) =
            (if \<not> climate_ok \<and> \<not> soil_ok then (''fault'', Fin 0)
             else if \<not> climate_ok \<or> \<not> soil_ok then (''degraded'', Fin 1)
             else if soil_dry then (''alert'', Fin 3)
             else (''running'', Fin 2)) in
      \<lparr>sn_state = state, sn_state_code = code, sn_climate_ok = climate_ok, sn_soil_ok = soil_ok, sn_soil_dry = soil_dry,
       sn_temperature = temperature, sn_humidity = humidity, sn_light = light, sn_soil = soil\<rparr>)"

text \<open>The heartbeat's metrics are floating-point numbers here.\<close>

record StationHeartbeat = NodeHeartbeat +
  sh_metrics :: "(string \<times> float64 \<times> string) list"

record StationRuntime =
  st_air_temp :: SensorReading
  st_air_humidity :: SensorReading
  st_light :: SensorReading
  st_soil :: SensorReading
  st_start :: int
  st_sequence :: u64
  st_out :: "(agri_message + StationHeartbeat) list"

definition station_start :: "int \<Rightarrow> StationRuntime" where
  "station_start now = \<lparr>st_air_temp = no_reading, st_air_humidity = no_reading, st_light = no_reading, st_soil = no_reading,
     st_start = now, st_sequence = 0, st_out = []\<rparr>"

definition station_heartbeat :: "StationRuntime \<Rightarrow> StationSnapshot \<Rightarrow> int \<Rightarrow> stamp \<Rightarrow> StationHeartbeat" where
  "station_heartbeat rt snap now t =
     \<lparr>hb_header = agri_FillHeader ''agri_station_app'' (st_sequence rt) t, hb_node_name = ''agri_station_app'',
      hb_instance_id = ''agri-station-demo'', hb_lifecycle_state = LIFECYCLE_STATE_ACTIVE,
      hb_health = (if sn_state snap = ''fault'' then HEALTH_STATE_ERROR
                   else if sn_state snap = ''degraded'' \<or> sn_state snap = ''alert'' then HEALTH_STATE_WARNING else HEALTH_STATE_OK),
      hb_uptime_ms = of_int ((now - st_start rt) div 1000000), hb_error_count = 0,
      hb_status_message = ''station_state='' @ sn_state snap, hb_metrics = [],
      sh_metrics = [(''agri.station_state'', sn_state_code snap, ''enum'')] @
        (if sn_soil_ok snap then [(''agri.soil_moisture'', sr_value (sn_soil snap), ''%'')] else []) @
        (if Fresh (sn_temperature snap) now then [(''agri.air_temperature'', sr_value (sn_temperature snap), ''C'')] else [])\<rparr>"

definition TickOnce :: "int \<Rightarrow> (nat \<Rightarrow> stamp) \<Rightarrow> StationRuntime \<Rightarrow> StationRuntime" where
  "TickOnce now clock rt =
     (let snap = EvaluateStation (st_air_temp rt) (st_air_humidity rt) (st_light rt) (st_soil rt) now; node = ''agri_station_app'' in
      rt\<lparr>st_out := st_out rt @
           [Inl (On_status (MakeScalar node ''station'' (st_sequence rt) ''station_state'' (sn_state_code snap) ''enum'' (clock 0)))] @
           (if sn_soil_dry snap
            then [Inl (On_alert (MakeScalar node ''station'' (st_sequence rt) ''soil_too_dry'' (sr_value (sn_soil snap)) ''%'' (clock 1)))] else []) @
           [Inr (station_heartbeat rt snap now (clock 2))],
         st_sequence := st_sequence rt + 1\<rparr>)"

text \<open>The callbacks of the four subscriptions, and the tick of the main loop.\<close>

datatype station_op = Rx_temperature float64 int | Rx_humidity float64 int | Rx_light float64 int | Rx_soil float64 int
  | Tick int "nat \<Rightarrow> stamp"

definition received :: "float64 \<Rightarrow> int \<Rightarrow> SensorReading" where
  "received v now = \<lparr>sr_value = v, sr_has_value = True, sr_last_rx = now\<rparr>"

fun station_step :: "station_op \<Rightarrow> StationRuntime \<Rightarrow> StationRuntime option" where
  "station_step (Rx_temperature v now) rt = Some (rt\<lparr>st_air_temp := received v now\<rparr>)"
| "station_step (Rx_humidity v now) rt = Some (rt\<lparr>st_air_humidity := received v now\<rparr>)"
| "station_step (Rx_light v now) rt = Some (rt\<lparr>st_light := received v now\<rparr>)"
| "station_step (Rx_soil v now) rt = Some (rt\<lparr>st_soil := received v now\<rparr>)"
| "station_step (Tick now clock) rt = Some (TickOnce now clock rt)"

subsection \<open>Freshness\<close>

text \<open>The division to seconds rounds, but not across two and a half seconds.\<close>

lemma small_age:
  assumes "0 \<le> d" "d < 2 ^ 52"
  shows "f_div (f_of_int d) (Fin 1000000000) \<le> Fin (5 / 2) \<longleftrightarrow> d \<le> 2500000000"
proof -
  have d: "f_of_int d = Fin (of_int d)" using assms round64_int [of d] by (simp add: f_of_int_def)
  define x where "x = (of_int d :: rat) / 1000000000"
  have e: "f_div (f_of_int d) (Fin 1000000000) = round64 x" by (simp add: d x_def)
  have top: "(of_int d :: rat) < of_int (2 ^ 52)" using assms(2) by (simp only: of_int_less_iff)
  have x: "0 \<le> x" "x \<le> 2 ^ 52" using assms(1) top by (simp_all add: x_def)
  show ?thesis
  proof (cases "d \<le> 2500000000")
    case True
    then have "(of_int d :: rat) \<le> of_int 2500000000" by (simp only: of_int_le_iff)
    then have "x \<le> 5 / 2" by (simp add: x_def)
    with x round64_bounds [of 0 1 x 5] obtain y where "round64 x = Fin y" "y \<le> 5 / 2" by (auto simp: pow2_def)
    with e True show ?thesis by simp
  next
    case False
    then have "(of_int 2500000001 :: rat) \<le> of_int d" by (simp only: of_int_le_iff)
    then have low: "2500000001 / 1000000000 \<le> x" by (simp add: x_def)
    show ?thesis
    proof (cases "x \<le> 2 ^ 12")
      case True
      with low round64_bounds [of "5 * 2 ^ 39 + 1" 40 x "2 ^ 52"] x obtain y where "round64 x = Fin y" "5 / 2 < y"
        by (auto simp: pow2_def)
      with e False show ?thesis by simp
    next
      case large: False
      then have "(of_int 4096 :: rat) \<le> x" by simp
      with x round64_int_bounds [of 4096 x "2 ^ 52"] obtain y where "round64 x = Fin y" "4096 \<le> y" by auto
      with e False show ?thesis by simp
    qed
  qed
qed


subsection \<open>What the station reports\<close>

fun temperature_of :: "station_op \<Rightarrow> (float64 \<times> int) option" where
  "temperature_of (Rx_temperature v t) = Some (v, t)" | "temperature_of _ = None"

fun humidity_of :: "station_op \<Rightarrow> (float64 \<times> int) option" where
  "humidity_of (Rx_humidity v t) = Some (v, t)" | "humidity_of _ = None"

fun light_of :: "station_op \<Rightarrow> (float64 \<times> int) option" where
  "light_of (Rx_light v t) = Some (v, t)" | "light_of _ = None"

fun soil_of :: "station_op \<Rightarrow> (float64 \<times> int) option" where
  "soil_of (Rx_soil v t) = Some (v, t)" | "soil_of _ = None"

fun last_of :: "(station_op \<Rightarrow> (float64 \<times> int) option) \<Rightarrow> station_op list \<Rightarrow> (float64 \<times> int) option" where
  "last_of sel [] = None"
| "last_of sel (c # cs) = (case last_of sel cs of None \<Rightarrow> sel c | Some r \<Rightarrow> Some r)"

text \<open>The value of the last message of a quantity, if it is at most two and a half seconds old.\<close>

definition recent :: "(station_op \<Rightarrow> (float64 \<times> int) option) \<Rightarrow> int \<Rightarrow> station_op list \<Rightarrow> float64 option" where
  "recent sel now ops = (case last_of sel ops of None \<Rightarrow> None | Some (v, t) \<Rightarrow> if now - t \<le> 2500000000 then Some v else None)"

fun op_time :: "station_op \<Rightarrow> int" where
  "op_time (Rx_temperature v t) = t" | "op_time (Rx_humidity v t) = t" | "op_time (Rx_light v t) = t" | "op_time (Rx_soil v t) = t"
| "op_time (Tick now clock) = now"

definition reading_of :: "(float64 \<times> int) option \<Rightarrow> SensorReading" where
  "reading_of r = (case r of None \<Rightarrow> no_reading | Some (v, t) \<Rightarrow> received v t)"

lemma last_of_snoc: "last_of sel (cs @ [c]) = (case sel c of None \<Rightarrow> last_of sel cs | Some r \<Rightarrow> Some r)"
  by (induction cs) (auto split: option.splits)

lemma station_readings:
  "\<exists>rt. run_ops station_step ops (station_start t0) = Some rt \<and>
     st_air_temp rt = reading_of (last_of temperature_of ops) \<and> st_air_humidity rt = reading_of (last_of humidity_of ops) \<and>
     st_light rt = reading_of (last_of light_of ops) \<and> st_soil rt = reading_of (last_of soil_of ops)"
proof (induction ops rule: rev_induct)
  case Nil
  then show ?case by (simp add: station_start_def reading_of_def)
next
  case (snoc c ops)
  then obtain rt where rt: "run_ops station_step ops (station_start t0) = Some rt"
     "st_air_temp rt = reading_of (last_of temperature_of ops)" "st_air_humidity rt = reading_of (last_of humidity_of ops)"
     "st_light rt = reading_of (last_of light_of ops)" "st_soil rt = reading_of (last_of soil_of ops)" by blast
  then show ?case
    by (cases c) (simp_all add: run_ops_append last_of_snoc reading_of_def TickOnce_def Let_def)
qed

lemma last_of_op: "last_of sel ops = Some r \<Longrightarrow> \<exists>c\<in>set ops. sel c = Some r"
  by (induction ops) (auto split: option.splits)

lemma Fresh_recent:
  assumes "list_all (\<lambda>c. op_time c \<le> now \<and> now - op_time c < 2 ^ 52) ops"
    and sel: "\<And>c v t. sel c = Some (v, t) \<Longrightarrow> op_time c = t"
  shows "Fresh (reading_of (last_of sel ops)) now \<longleftrightarrow> recent sel now ops \<noteq> None"
    and "recent sel now ops = Some v \<Longrightarrow> sr_value (reading_of (last_of sel ops)) = v"
proof -
  have age: "0 \<le> now - t \<and> now - t < 2 ^ 52" if "last_of sel ops = Some (v, t)" for v t
    using last_of_op [OF that] assms(1) sel by (fastforce simp: list_all_iff)
  show "Fresh (reading_of (last_of sel ops)) now \<longleftrightarrow> recent sel now ops \<noteq> None"
  proof (cases "last_of sel ops")
    case None
    then show ?thesis by (simp add: recent_def reading_of_def Fresh_def no_reading_def)
  next
    case (Some r)
    obtain v t where r: "r = (v, t)" by fastforce
    with Some age [of v t] small_age [of "now - t"] show ?thesis
      by (simp add: recent_def reading_of_def Fresh_def received_def)
  qed
  show "recent sel now ops = Some v \<Longrightarrow> sr_value (reading_of (last_of sel ops)) = v"
    by (auto simp: recent_def reading_of_def received_def split: option.splits if_splits)
qed

lemma EvaluateStation_exact:
  assumes "snap = EvaluateStation te hu li so now" "climate \<longleftrightarrow> Fresh te now \<and> Fresh hu now \<and> Fresh li now" "dry \<longleftrightarrow> Fresh so now \<and> sr_value so < Fin 25"
  shows "sn_state_code snap = Fin (if \<not> climate \<and> \<not> Fresh so now then 0 else if \<not> climate \<or> \<not> Fresh so now then 1 else if dry then 3 else 2)"
    "sn_soil_dry snap = dry" "sn_soil snap = so"
    "sn_state snap = (if \<not> climate \<and> \<not> Fresh so now then ''fault'' else if \<not> climate \<or> \<not> Fresh so now then ''degraded''
      else if dry then ''alert'' else ''running'')"
  by (simp_all add: assms EvaluateStation_def Let_def)

text \<open>After any messages, in any order and with any ticks between them, a tick judges the station by the last message of each
  quantity, if that is at most two and a half seconds old: a fault without climate and soil, degraded without one of them,
  an alert when both are there and the soil is drier than 25 percent, running otherwise. The heartbeat is an
  error, a warning or fine accordingly, and the alert message is sent exactly when a recent soil value is below 25.\<close>

theorem station_reports_state:
  assumes "list_all (\<lambda>c. op_time c \<le> now \<and> now - op_time c < 2 ^ 52) ops"
  shows "\<exists>rt rt' hb. run_ops station_step ops (station_start t0) = Some rt \<and>
    run_ops station_step (ops @ [Tick now clock]) (station_start t0) = Some rt' \<and>
    (let climate = (recent temperature_of now ops \<noteq> None \<and> recent humidity_of now ops \<noteq> None \<and> recent light_of now ops \<noteq> None);
         soil = recent soil_of now ops; dry = (case soil of None \<Rightarrow> False | Some v \<Rightarrow> v < Fin 25);
         code = (if \<not> climate \<and> soil = None then 0 else if \<not> climate \<or> soil = None then 1 else if dry then 3 else 2) in
     st_out rt' = st_out rt @ Inl (On_status (MakeScalar ''agri_station_app'' ''station'' (st_sequence rt) ''station_state'' (Fin code) ''enum'' (clock 0))) #
       (if dry then [Inl (On_alert (MakeScalar ''agri_station_app'' ''station'' (st_sequence rt) ''soil_too_dry'' (the soil) ''%'' (clock 1)))] else []) @ [Inr hb] \<and>
     hb_health hb = (if code = 0 then HEALTH_STATE_ERROR else if code = 2 then HEALTH_STATE_OK else HEALTH_STATE_WARNING))"
proof -
  obtain rt where rt: "run_ops station_step ops (station_start t0) = Some rt"
     "st_air_temp rt = reading_of (last_of temperature_of ops)" "st_air_humidity rt = reading_of (last_of humidity_of ops)"
     "st_light rt = reading_of (last_of light_of ops)" "st_soil rt = reading_of (last_of soil_of ops)"
    using station_readings by blast
  have sel: "temperature_of c = Some (v, t) \<Longrightarrow> op_time c = t" "humidity_of c = Some (v, t) \<Longrightarrow> op_time c = t"
    "light_of c = Some (v, t) \<Longrightarrow> op_time c = t" "soil_of c = Some (v, t) \<Longrightarrow> op_time c = t" for c v t
    by (cases c; simp)+
  have fresh: "Fresh (st_air_temp rt) now \<longleftrightarrow> recent temperature_of now ops \<noteq> None" "Fresh (st_air_humidity rt) now \<longleftrightarrow> recent humidity_of now ops \<noteq> None"
    "Fresh (st_light rt) now \<longleftrightarrow> recent light_of now ops \<noteq> None" "Fresh (st_soil rt) now \<longleftrightarrow> recent soil_of now ops \<noteq> None"
    unfolding rt(2-5) using Fresh_recent(1) [OF assms] sel by blast+
  have soil: "sr_value (st_soil rt) = v" if "recent soil_of now ops = Some v" for v
    unfolding rt(5) using Fresh_recent(2) [OF assms _ that] sel(4) by blast
  have run: "run_ops station_step (ops @ [Tick now clock]) (station_start t0) = Some (TickOnce now clock rt)"
    using rt(1) by (simp add: run_ops_append)
  define snap where "snap = EvaluateStation (st_air_temp rt) (st_air_humidity rt) (st_light rt) (st_soil rt) now"
  define climate where "climate \<longleftrightarrow> recent temperature_of now ops \<noteq> None \<and> recent humidity_of now ops \<noteq> None \<and> recent light_of now ops \<noteq> None"
  define dry where "dry \<longleftrightarrow> (case recent soil_of now ops of None \<Rightarrow> False | Some v \<Rightarrow> v < Fin 25)"
  have c: "climate \<longleftrightarrow> Fresh (st_air_temp rt) now \<and> Fresh (st_air_humidity rt) now \<and> Fresh (st_light rt) now"
    unfolding fresh climate_def ..
  have d: "dry \<longleftrightarrow> Fresh (st_soil rt) now \<and> sr_value (st_soil rt) < Fin 25"
    unfolding fresh dry_def by (cases "recent soil_of now ops") (simp_all add: soil)
  have the_soil: "dry \<Longrightarrow> sr_value (st_soil rt) = the (recent soil_of now ops)"
    unfolding dry_def by (cases "recent soil_of now ops") (simp_all add: soil)
  note e = EvaluateStation_exact [OF snap_def c d, unfolded fresh(4)]
  show ?thesis
    using rt(1) run e the_soil unfolding Let_def climate_def [symmetric] dry_def [symmetric]
    by (intro exI [of _ rt] exI [of _ "TickOnce now clock rt"] exI [of _ "station_heartbeat rt snap now (clock 2)"])
      (simp add: TickOnce_def Let_def station_heartbeat_def flip: snap_def)
qed

definition demo_readings :: "station_op list" where
  "demo_readings = [Rx_temperature (Fin 21) 0, Rx_humidity (Fin 50) 0, Rx_light (Fin 900) 0, Rx_soil (Fin 20) 0]"

theorem station_reports_state_witness:
  "\<exists>rt' hb. run_ops station_step (demo_readings @ [Tick 2000000000 (\<lambda>k. (0, 0))]) (station_start 0) = Some rt' \<and>
     last (st_out rt') = Inr hb \<and> hb_health hb = HEALTH_STATE_WARNING"
proof -
  have "list_all (\<lambda>c. op_time c \<le> 2000000000 \<and> 2000000000 - op_time c < 2 ^ 52) demo_readings" by (simp add: demo_readings_def)
  moreover have "recent temperature_of 2000000000 demo_readings = Some (Fin 21)" "recent humidity_of 2000000000 demo_readings = Some (Fin 50)"
    "recent light_of 2000000000 demo_readings = Some (Fin 900)" "recent soil_of 2000000000 demo_readings = Some (Fin 20)"
    by (simp_all add: demo_readings_def recent_def)
  ultimately obtain rt rt' hb where "run_ops station_step (demo_readings @ [Tick 2000000000 (\<lambda>k. (0, 0))]) (station_start 0) = Some rt'"
      "\<exists>xs. st_out rt' = xs @ [Inr hb]" "hb_health hb = HEALTH_STATE_WARNING"
    using station_reports_state [of 2000000000 demo_readings 0 "\<lambda>k. (0, 0)"] by (auto simp: Let_def)
  then show ?thesis by auto
qed

end
