(* ===== verification/Thread_Pool.thy ===== *)
theory Thread_Pool
  imports Prelude "HOL-Library.Multiset"
begin

section \<open>The thread pool (components/thread\_pool)\<close>

text \<open>
  A fixed number of workers take tasks from a priority queue. Every critical section of the class is one step, so a run is any
  interleaving of the workers' and the callers' critical sections. Running a task is what lies between the two critical
  sections of a worker; whether it throws makes no difference to the pool. A wait on a condition variable is a step that is not
  enabled until its condition holds, except in \<open>wait_idle\<close>, whose callers are woken at one place only.
\<close>

subsection \<open>Tasks and their order\<close>

record 'f task =
  tk_priority :: int
  tk_seq :: u64
  tk_fn :: 'f

text \<open>\<^verbatim>\<open>Task::operator<\<close>: the queue's top is a task that is less than no other.\<close>

definition task_less :: "'f task \<Rightarrow> 'f task \<Rightarrow> bool" where
  "task_less a b \<longleftrightarrow>
     (if tk_priority a \<noteq> tk_priority b then tk_priority a < tk_priority b else tk_seq a > tk_seq b)"

text \<open>The interface of \<^verbatim>\<open>std::priority_queue\<close> that the pool relies on.\<close>

locale task_queue =
  fixes empty :: 'q and push :: "'f task \<Rightarrow> 'q \<Rightarrow> 'q" and top :: "'q \<Rightarrow> 'f task" and pop :: "'q \<Rightarrow> 'q" and tasks :: "'q \<Rightarrow> 'f task multiset"
  assumes tasks_empty: "tasks empty = {#}"
    and tasks_push: "tasks (push t q) = add_mset t (tasks q)"
    and top_in: "tasks q \<noteq> {#} \<Longrightarrow> top q \<in># tasks q"
    and tasks_pop: "tasks q \<noteq> {#} \<Longrightarrow> tasks (pop q) = tasks q - {#top q#}"
    and top_least: "t \<in># tasks q \<Longrightarrow> \<not> task_less (top q) t"
begin

lemma pop_push_balance: "tasks q \<noteq> {#} \<Longrightarrow> add_mset (top q) (tasks (pop q)) = tasks q"
  by (simp add: tasks_pop top_in)

end

text \<open>As a list: the top is found by a scan.\<close>

fun queue_top :: "'f task list \<Rightarrow> 'f task" where
  "queue_top [t] = t"
| "queue_top (t # ts) = (let m = queue_top ts in if task_less t m then m else t)"

definition queue_pop :: "'f task list \<Rightarrow> 'f task list" where
  "queue_pop q = remove1 (queue_top q) q"

lemma task_less_trans: "task_less a b \<Longrightarrow> task_less b c \<Longrightarrow> task_less a c"
  by (auto simp: task_less_def split: if_splits)

lemma task_less_total: "\<not> task_less a b \<Longrightarrow> \<not> task_less b c \<Longrightarrow> \<not> task_less a c"
  by (auto simp: task_less_def split: if_splits)

lemma queue_top_in: "q \<noteq> [] \<Longrightarrow> queue_top q \<in> set q"
  by (induction q rule: queue_top.induct) (auto simp: Let_def)

lemma queue_top_least: "t \<in> set q \<Longrightarrow> \<not> task_less (queue_top q) t"
proof (induction q rule: queue_top.induct)
  case (1 t)
  then show ?case by (simp add: task_less_def)
next
  case (2 a b ts)
  have irrefl: "\<not> task_less a a" by (simp add: task_less_def)
  show ?case
  proof (cases "task_less a (queue_top (b # ts))")
    case True
    have "\<not> task_less (queue_top (b # ts)) a" using True irrefl task_less_trans by blast
    with 2 True show ?thesis by (auto simp: Let_def)
  next
    case False
    with 2 irrefl task_less_total show ?thesis by (auto simp: Let_def)
  qed
qed simp

interpretation queue: task_queue "[]" "(#)" queue_top queue_pop mset
  by unfold_locales (auto simp: queue_pop_def queue_top_in queue_top_least)

subsection \<open>The pool\<close>

datatype 'f pool_worker = Loop_head | Running "'f task" | Returned

text \<open>
  \<open>tp_accepted\<close>, \<open>tp_started\<close>, \<open>tp_finished\<close> and \<open>tp_dropped\<close> record what became of the tasks; the code does not keep
  them. \<open>tp_joined\<close> says that the thread that shut the pool down has joined the workers.
\<close>

record 'f pool =
  tp_workers :: "'f pool_worker list"
  tp_queue :: "'f task list"
  tp_stopping :: bool
  tp_accept :: bool
  tp_busy :: nat
  tp_next_seq :: u64
  tp_waiting :: nat
  tp_joined :: bool
  tp_accepted :: "'f task list"
  tp_started :: "'f task list"
  tp_finished :: "'f task list"
  tp_dropped :: "'f task list"

definition ThreadPool :: "nat \<Rightarrow> string + 'f pool" where
  "ThreadPool worker_count =
     (if worker_count = 0 then Inl ''ThreadPool: worker_count must be > 0''
      else Inr \<lparr>tp_workers = replicate worker_count Loop_head, tp_queue = [], tp_stopping = False, tp_accept = True, tp_busy = 0,
             tp_next_seq = 0, tp_waiting = 0, tp_joined = False, tp_accepted = [], tp_started = [], tp_finished = [], tp_dropped = []\<rparr>)"

definition is_running :: "'f pool \<Rightarrow> bool" where
  "is_running p \<longleftrightarrow> tp_accept p \<and> \<not> tp_stopping p"

text \<open>\<open>post\<close> throws for an empty task and for a pool that is shut down; \<open>submit\<close> posts a packaged task.\<close>

definition post :: "'f option \<Rightarrow> int \<Rightarrow> 'f pool \<Rightarrow> (string + unit) \<times> 'f pool" where
  "post fn priority p =
     (case fn of None \<Rightarrow> (Inl ''ThreadPool::post: empty task'', p)
      | Some f \<Rightarrow>
          if \<not> tp_accept p \<or> tp_stopping p then (Inl ''ThreadPool::post: pool is shutting down'', p)
          else let t = \<lparr>tk_priority = priority, tk_seq = tp_next_seq p, tk_fn = f\<rparr> in
            (Inr (), p\<lparr>tp_queue := t # tp_queue p, tp_next_seq := tp_next_seq p + 1, tp_accepted := tp_accepted p @ [t]\<rparr>))"

definition shutdown_begin :: "bool \<Rightarrow> 'f pool \<Rightarrow> 'f pool" where
  "shutdown_begin drain p =
     (if tp_stopping p then p
      else if drain then p\<lparr>tp_accept := False, tp_stopping := True\<rparr>
      else p\<lparr>tp_accept := False, tp_stopping := True, tp_queue := [], tp_dropped := tp_queue p\<rparr>)"

definition shutdown_join :: "'f pool \<Rightarrow> 'f pool option" where
  "shutdown_join p = (if tp_stopping p \<and> list_all (\<lambda>w. w = Returned) (tp_workers p) then Some (p\<lparr>tp_joined := True\<rparr>) else None)"

text \<open>A caller whose predicate does not hold blocks; when it is woken it evaluates the predicate again, which is the same step.\<close>

definition wait_idle :: "'f pool \<Rightarrow> 'f pool" where
  "wait_idle p = (if tp_queue p = [] \<and> tp_busy p = 0 then p else p\<lparr>tp_waiting := tp_waiting p + 1\<rparr>)"

text \<open>The first critical section of a worker's loop, which waits for a task or the end, and the second.\<close>

definition worker_take :: "nat \<Rightarrow> 'f pool \<Rightarrow> 'f pool option" where
  "worker_take i p =
     (if i < length (tp_workers p) \<and> tp_workers p ! i = Loop_head \<and> (tp_stopping p \<or> tp_queue p \<noteq> []) then
        if tp_stopping p \<and> tp_queue p = [] then Some (p\<lparr>tp_workers := (tp_workers p)[i := Returned]\<rparr>)
        else let t = queue_top (tp_queue p) in
          Some (p\<lparr>tp_workers := (tp_workers p)[i := Running t], tp_queue := queue_pop (tp_queue p), tp_busy := tp_busy p + 1,
                  tp_started := tp_started p @ [t]\<rparr>)
      else None)"

definition worker_done :: "nat \<Rightarrow> 'f pool \<Rightarrow> 'f pool option" where
  "worker_done i p =
     (if i < length (tp_workers p) then
        case tp_workers p ! i of
          Running t \<Rightarrow> Some (p\<lparr>tp_workers := (tp_workers p)[i := Loop_head], tp_busy := tp_busy p - 1, tp_finished := tp_finished p @ [t],
                          tp_waiting := if tp_queue p = [] \<and> tp_busy p - 1 = 0 then 0 else tp_waiting p\<rparr>)
        | _ \<Rightarrow> None
      else None)"

datatype 'f pool_op = Post "'f option" int | Shutdown bool | Join | Wait_idle | Take nat | Done nat

fun pool_step :: "'f pool_op \<Rightarrow> 'f pool \<Rightarrow> 'f pool option" where
  "pool_step (Post fn priority) p = Some (snd (post fn priority p))"
| "pool_step (Shutdown drain) p = Some (shutdown_begin drain p)"
| "pool_step Join p = shutdown_join p"
| "pool_step Wait_idle p = Some (wait_idle p)"
| "pool_step (Take i) p = worker_take i p"
| "pool_step (Done i) p = worker_done i p"


subsection \<open>Invariant\<close>

fun running_task :: "'f pool_worker \<Rightarrow> 'f task multiset" where
  "running_task (Running t) = {#t#}" | "running_task w = {#}"

definition running_tasks :: "'f pool_worker list \<Rightarrow> 'f task multiset" where
  "running_tasks ws = sum_list (map running_task ws)"

lemma running_tasks_update:
  "i < length ws \<Longrightarrow> running_tasks (ws[i := w]) + running_task (ws ! i) = running_tasks ws + running_task w"
proof (induction ws arbitrary: i)
  case (Cons v ws)
  show ?case
  proof (cases i)
    case (Suc j)
    with Cons.prems Cons.IH [of j] show ?thesis by (simp add: running_tasks_def ac_simps)
  qed (simp add: running_tasks_def ac_simps)
qed simp

lemma running_tasks_none: "list_all (\<lambda>w. w = Returned) ws \<Longrightarrow> running_tasks ws = {#}"
  by (induction ws) (simp_all add: running_tasks_def)

lemma running_tasks_start: "running_tasks (replicate n Loop_head) = {#}"
  by (induction n) (simp_all add: running_tasks_def)

definition pool_inv :: "'f pool \<Rightarrow> bool" where
  "pool_inv p \<longleftrightarrow>
     mset (tp_accepted p) = mset (tp_queue p) + mset (tp_started p) + mset (tp_dropped p) \<and>
     mset (tp_started p) = mset (tp_finished p) + running_tasks (tp_workers p) \<and>
     tp_busy p = size (running_tasks (tp_workers p)) \<and>
     map tk_seq (tp_accepted p) = map of_nat [0..<length (tp_accepted p)] \<and> tp_next_seq p = of_nat (length (tp_accepted p)) \<and>
     (Returned \<in> set (tp_workers p) \<longrightarrow> tp_stopping p \<and> tp_queue p = []) \<and> (tp_accept p \<longrightarrow> \<not> tp_stopping p) \<and>
     (tp_dropped p \<noteq> [] \<longrightarrow> tp_stopping p) \<and>
     (tp_waiting p > 0 \<and> tp_queue p = [] \<and> tp_busy p = 0 \<longrightarrow> tp_dropped p \<noteq> []) \<and>
     (tp_joined p \<longrightarrow> tp_stopping p \<and> list_all (\<lambda>w. w = Returned) (tp_workers p)) \<and> tp_workers p \<noteq> []"

lemma pool_start_inv: "ThreadPool n = Inr p \<Longrightarrow> pool_inv p"
  by (auto simp: ThreadPool_def pool_inv_def running_tasks_start split: if_splits)

lemma post_inv: "pool_inv p \<Longrightarrow> pool_inv (snd (post fn priority p))"
  by (auto simp: post_def pool_inv_def Let_def split: option.splits)

lemma shutdown_inv: "pool_inv p \<Longrightarrow> pool_inv (shutdown_begin drain p)"
  by (auto simp: shutdown_begin_def pool_inv_def ac_simps)

lemma take_inv:
  assumes "pool_inv p" "worker_take i p = Some p'"
  shows "pool_inv p'"
proof -
  have i: "i < length (tp_workers p)" "tp_workers p ! i = Loop_head" using assms(2) by (auto simp: worker_take_def split: if_splits)
  have update: "running_tasks ((tp_workers p)[i := w]) = running_tasks (tp_workers p) + running_task w" for w
    using running_tasks_update [OF i(1), of w] i(2) by simp
  show ?thesis
  proof (cases "tp_queue p = []")
    case True
    then have p': "tp_stopping p" "p' = p\<lparr>tp_workers := (tp_workers p)[i := Returned]\<rparr>" using assms(2) by (auto simp: worker_take_def split: if_splits)
    have "tp_joined p \<longrightarrow> list_all (\<lambda>w. w = Returned) ((tp_workers p)[i := Returned])"
      using assms(1) i by (auto simp: pool_inv_def list_all_length nth_list_update)
    with True p' assms(1) update [of Returned] show ?thesis by (auto simp: pool_inv_def dest!: set_update_subset_insert [THEN subsetD])
  next
    case False
    then have p': "p' = p\<lparr>tp_workers := (tp_workers p)[i := Running (queue_top (tp_queue p))], tp_queue := queue_pop (tp_queue p), tp_busy := tp_busy p + 1,
        tp_started := tp_started p @ [queue_top (tp_queue p)]\<rparr>"
      using assms(2) by (auto simp: worker_take_def Let_def split: if_splits)
    have "Returned \<notin> set (tp_workers p)" using assms(1) False by (auto simp: pool_inv_def)
    moreover have "Returned \<notin> set ((tp_workers p)[i := Running (queue_top (tp_queue p))])"
      using calculation by (auto dest!: set_update_subset_insert [THEN subsetD])
    moreover have "\<not> tp_joined p" using assms(1) i by (auto simp: pool_inv_def list_all_length)
    ultimately show ?thesis
      using p' assms(1) update [of "Running (queue_top (tp_queue p))"] queue.pop_push_balance [of "tp_queue p"] False
      by (auto simp: pool_inv_def ac_simps)
  qed
qed

lemma done_inv:
  assumes "pool_inv p" "worker_done i p = Some p'"
  shows "pool_inv p'"
proof -
  obtain t where i: "i < length (tp_workers p)" "tp_workers p ! i = Running t"
    and p': "p' = p\<lparr>tp_workers := (tp_workers p)[i := Loop_head], tp_busy := tp_busy p - 1, tp_finished := tp_finished p @ [t],
      tp_waiting := if tp_queue p = [] \<and> tp_busy p - 1 = 0 then 0 else tp_waiting p\<rparr>"
    using assms(2) by (auto simp: worker_done_def split: if_splits pool_worker.splits)
  have update: "running_tasks (tp_workers p) = add_mset t (running_tasks ((tp_workers p)[i := Loop_head]))"
    using running_tasks_update [OF i(1), of Loop_head] i(2) by simp
  have "Returned \<in> set ((tp_workers p)[i := Loop_head]) \<Longrightarrow> Returned \<in> set (tp_workers p)"
    by (auto dest!: set_update_subset_insert [THEN subsetD])
  moreover have "\<not> tp_joined p" using assms(1) i by (auto simp: pool_inv_def list_all_length)
  ultimately show ?thesis using p' assms(1) update by (auto simp: pool_inv_def)
qed

lemma join_inv: "pool_inv p \<Longrightarrow> shutdown_join p = Some p' \<Longrightarrow> pool_inv p'"
  by (auto simp: shutdown_join_def pool_inv_def split: if_splits)

lemma wait_inv: "pool_inv p \<Longrightarrow> pool_inv (wait_idle p)"
  by (auto simp: wait_idle_def pool_inv_def)

lemma pool_step_inv:
  assumes "pool_inv p" "pool_step c p = Some p'"
  shows "pool_inv p'"
proof (cases c)
  case (Take i)
  with assms show ?thesis by (simp add: take_inv [OF assms(1)])
next
  case (Done i)
  with assms show ?thesis by (simp add: done_inv [OF assms(1)])
next
  case Join
  with assms show ?thesis by (simp add: join_inv [OF assms(1)])
qed (use assms post_inv shutdown_inv wait_inv in fastforce)+

interpretation pool: guarded_machine pool_step "\<lambda>c. True" pool_inv
  by unfold_locales (erule pool_step_inv)

lemma pool_reachable_inv: "ThreadPool n = Inr p0 \<Longrightarrow> run_ops pool_step cs p0 = Some p \<Longrightarrow> pool_inv p"
  by (rule pool.run_inv) (auto simp: list_all_iff dest: pool_start_inv)

subsection \<open>What becomes of a task\<close>

lemma dropped_step:
  assumes "pool_step c p = Some p'" "c \<noteq> Shutdown False"
  shows "tp_dropped p' = tp_dropped p"
  using assms
  by (cases c) (auto simp: post_def Let_def shutdown_begin_def shutdown_join_def wait_idle_def worker_take_def worker_done_def
      split: if_splits option.splits pool_worker.splits)

lemma dropped_run: "run_ops pool_step cs p = Some p' \<Longrightarrow> Shutdown False \<notin> set cs \<Longrightarrow> tp_dropped p' = tp_dropped p"
proof (induction cs arbitrary: p)
  case (Cons c cs)
  then show ?case using dropped_step [of c p] by (auto split: option.splits)
qed simp

lemma distinct_seqs:
  assumes "map tk_seq ts = map of_nat [0..<length ts]" "length ts < 2 ^ 64"
  shows "distinct ts"
proof -
  have "inj_on (of_nat :: nat \<Rightarrow> u64) {0..<length ts}"
    using assms(2) by (auto intro!: inj_onI dest!: arg_cong [of _ _ unat] simp: unat_of_nat)
  then have "distinct (map (of_nat :: nat \<Rightarrow> u64) [0..<length ts])" by (simp add: distinct_map)
  then show ?thesis using assms(1) by (metis distinct_map)
qed

lemma started_distinct: "pool_inv p \<Longrightarrow> length (tp_accepted p) < 2 ^ 64 \<Longrightarrow> distinct (tp_started p)"
proof -
  assume inv: "pool_inv p" and "length (tp_accepted p) < 2 ^ 64"
  then have "distinct (tp_accepted p)" by (intro distinct_seqs) (auto simp: pool_inv_def)
  moreover have "mset (tp_accepted p) = mset (tp_started p @ tp_queue p @ tp_dropped p)" using inv by (simp add: pool_inv_def)
  ultimately show "distinct (tp_started p)" by (metis distinct_append mset_eq_imp_distinct_iff)
qed

text \<open>C24:
  After any interleaving of critical sections of a pool's workers and callers, every task that was accepted is in exactly one
  place: it waits in the queue, has been started, or was dropped by a shutdown without draining; a started one is finished or
  runs on a worker, and the busy counter is the number of those. Below \<open>2 ^ 64\<close> tasks none is started twice. Once the
  workers are joined every accepted task that was not dropped has been finished, and unless a shutdown drops tasks none is
  dropped and no thread is blocked in \<open>wait_idle\<close> on an idle pool.
\<close>

theorem tasks_are_accounted_for:
  assumes "ThreadPool n = Inr p0" "run_ops pool_step cs p0 = Some p"
  shows "mset (tp_accepted p) = mset (tp_queue p) + mset (tp_started p) + mset (tp_dropped p) \<and>
     mset (tp_started p) = mset (tp_finished p) + running_tasks (tp_workers p) \<and>
     tp_busy p = size (running_tasks (tp_workers p)) \<and>
     (length (tp_accepted p) < 2 ^ 64 \<longrightarrow> distinct (tp_started p)) \<and>
     (tp_joined p \<longrightarrow> mset (tp_accepted p) = mset (tp_finished p) + mset (tp_dropped p)) \<and>
     (Shutdown False \<notin> set cs \<longrightarrow> tp_dropped p = [] \<and> (tp_queue p = [] \<and> tp_busy p = 0 \<longrightarrow> tp_waiting p = 0))"
proof -
  have inv: "pool_inv p" using assms by (rule pool_reachable_inv)
  have start: "tp_dropped p0 = []" using assms(1) by (auto simp: ThreadPool_def split: if_splits)
  have joined: "tp_joined p \<longrightarrow> tp_queue p = [] \<and> running_tasks (tp_workers p) = {#}"
    using inv running_tasks_none [of "tp_workers p"] by (cases "tp_workers p") (auto simp: pool_inv_def)
  have "Shutdown False \<notin> set cs \<longrightarrow> tp_dropped p = []" using dropped_run [OF assms(2)] start by simp
  with inv joined started_distinct [OF inv] show ?thesis by (auto simp: pool_inv_def)
qed

text \<open>
  A shutdown without draining wakes the workers only: a thread that waits while a task is queued and not yet taken stays
  blocked although the pool becomes idle.
\<close>

lemma shutdown_forgets_waiter:
  "map_option (\<lambda>p. (tp_queue p, tp_busy p, tp_waiting p, tp_joined p))
     (run_ops pool_step [Post (Some ''f'') 0, Wait_idle, Shutdown False, Take 0, Join] (projr (ThreadPool 1))) = Some ([], 0, 1, True)"
  by (simp add: ThreadPool_def post_def Let_def wait_idle_def shutdown_begin_def worker_take_def shutdown_join_def)

theorem tasks_are_accounted_for_witness:
  "\<exists>p. run_ops pool_step [Post (Some ''f'') 0, Post (Some ''g'') 5, Take 0, Shutdown True, Done 0, Take 0, Done 0, Take 0, Join] (projr (ThreadPool 1)) = Some p \<and>
     map tk_fn (tp_started p) = [''g'', ''f''] \<and> distinct (tp_started p)"
  using tasks_are_accounted_for [of 1 "projr (ThreadPool 1)"
      "[Post (Some ''f'') 0, Post (Some ''g'') 5, Take 0, Shutdown True, Done 0, Take 0, Done 0, Take 0, Join]"]
  by (simp add: ThreadPool_def post_def Let_def shutdown_begin_def worker_take_def worker_done_def shutdown_join_def queue_pop_def task_less_def)

subsection \<open>The end of a pool\<close>

fun worker_turn :: "'f pool_op \<Rightarrow> bool" where
  "worker_turn (Take i) \<longleftrightarrow> True" | "worker_turn (Done i) \<longleftrightarrow> True" | "worker_turn c \<longleftrightarrow> False"

fun steps_left :: "'f pool_worker \<Rightarrow> nat" where
  "steps_left Loop_head = 1" | "steps_left (Running t) = 2" | "steps_left Returned = 0"

definition pool_steps_left :: "'f pool \<Rightarrow> nat" where
  "pool_steps_left p = 2 * length (tp_queue p) + sum_list (map steps_left (tp_workers p))"

lemma steps_left_update:
  "i < length ws \<Longrightarrow> sum_list (map steps_left (ws[i := w])) + steps_left (ws ! i) = sum_list (map steps_left ws) + steps_left w"
proof (induction ws arbitrary: i)
  case (Cons v ws)
  show ?case
  proof (cases i)
    case (Suc j)
    with Cons.prems Cons.IH [of j] show ?thesis by simp
  qed simp
qed simp

lemma take_steps_left:
  assumes "worker_take i p = Some p'"
  shows "Suc (pool_steps_left p') = pool_steps_left p \<and> tp_stopping p' = tp_stopping p"
proof -
  have i: "i < length (tp_workers p)" "tp_workers p ! i = Loop_head" using assms by (auto simp: worker_take_def split: if_splits)
  have r: "Suc (sum_list (map steps_left ((tp_workers p)[i := Returned]))) = sum_list (map steps_left (tp_workers p))"
    using steps_left_update [OF i(1), of Returned] i(2) by simp
  have t: "sum_list (map steps_left ((tp_workers p)[i := Running t])) = Suc (sum_list (map steps_left (tp_workers p)))" for t
    using steps_left_update [OF i(1), of "Running t"] i(2) by simp
  have q: "tp_queue p \<noteq> [] \<Longrightarrow> Suc (length (queue_pop (tp_queue p))) = length (tp_queue p)"
    using queue_top_in [of "tp_queue p"] by (simp add: queue_pop_def length_remove1)
  show ?thesis using assms r t q by (auto simp: worker_take_def pool_steps_left_def Let_def split: if_splits)
qed

lemma done_steps_left:
  assumes "worker_done i p = Some p'"
  shows "Suc (pool_steps_left p') = pool_steps_left p \<and> tp_stopping p' = tp_stopping p"
proof -
  obtain t where i: "i < length (tp_workers p)" "tp_workers p ! i = Running t"
    using assms by (auto simp: worker_done_def split: if_splits pool_worker.splits)
  have "Suc (sum_list (map steps_left ((tp_workers p)[i := Loop_head]))) = sum_list (map steps_left (tp_workers p))"
    using steps_left_update [OF i(1), of Loop_head] i(2) by simp
  then show ?thesis using assms i by (auto simp: worker_done_def pool_steps_left_def)
qed

lemma other_steps_left:
  "\<not> worker_turn c \<Longrightarrow> tp_stopping p \<Longrightarrow> pool_step c p = Some p' \<Longrightarrow> pool_steps_left p' = pool_steps_left p \<and> tp_stopping p'"
  by (cases c) (auto simp: post_def shutdown_begin_def shutdown_join_def wait_idle_def pool_steps_left_def split: if_splits option.splits)

lemma steps_bounded:
  "tp_stopping p \<Longrightarrow> run_ops pool_step cs p = Some p' \<Longrightarrow> length (filter worker_turn cs) + pool_steps_left p' = pool_steps_left p"
proof (induction cs arbitrary: p)
  case (Cons c cs)
  obtain p1 where p1: "pool_step c p = Some p1" "run_ops pool_step cs p1 = Some p'" using Cons.prems(2) by (auto split: option.splits)
  have "(if worker_turn c then Suc (pool_steps_left p1) = pool_steps_left p else pool_steps_left p1 = pool_steps_left p) \<and> tp_stopping p1"
    using p1(1) Cons.prems(1) other_steps_left [of c p p1] take_steps_left [of _ p p1] done_steps_left [of _ p p1] by (cases c) auto
  with Cons.IH [OF _ p1(2)] show ?case by (auto split: if_splits)
qed simp

lemma steps_left_bound: "pool_steps_left p \<le> 2 * (length (tp_queue p) + length (tp_workers p))"
proof -
  have "sum_list (map steps_left ws) \<le> 2 * length ws" for ws :: "'a pool_worker list"
  proof (induction ws)
    case (Cons w ws)
    then show ?case by (cases w) auto
  qed simp
  from this [of "tp_workers p"] show ?thesis by (simp add: pool_steps_left_def)
qed

lemma stuck_means_joinable:
  assumes "tp_stopping p" "\<And>c. worker_turn c \<Longrightarrow> pool_step c p = None"
  shows "\<exists>p'. pool_step Join p = Some p'"
proof -
  have "tp_workers p ! i = Returned" if "i < length (tp_workers p)" for i
    using assms(1) assms(2) [of "Take i"] assms(2) [of "Done i"] that
    by (cases "tp_workers p ! i") (auto simp: worker_take_def worker_done_def Let_def split: if_splits)
  then show ?thesis using assms(1) by (simp add: shutdown_join_def list_all_length)
qed



text \<open>The task a worker takes is the most urgent one: no queued task has a higher priority, or the same priority and a lower sequence number.\<close>

lemma taken_task_is_most_urgent:
  assumes "pool_step (Take i) p = Some p'" "tp_queue p \<noteq> []" "u \<in> set (tp_queue p)"
  shows "\<exists>t. tp_started p' = tp_started p @ [t] \<and>
     (tk_priority u < tk_priority t \<or> tk_priority u = tk_priority t \<and> tk_seq t \<le> tk_seq u)"
  using assms queue_top_least [OF assms(3)]
  by (auto simp: worker_take_def Let_def task_less_def not_less split: if_splits)

end
