(* ===== verification/Messaging.thy ===== *)
theory Messaging
  imports Framework
begin

section \<open>Publishing and calling (core/include/openember, components/transport/src)\<close>

text \<open>
  A typed publisher, subscriber, service or client wraps one of the transport's byte-level ones: messages are turned into bytes
  and back by the traits of their type. The backend is the pair of the functions \<open>put\<close> and \<open>get\<close>; what a call of it does to the
  world, the callbacks of other programs included, is its result. An \<open>Inl\<close> of a string is an exception with this text.
\<close>

subsection \<open>Traits of message types\<close>

record 'm traits =
  tr_TypeName :: string
  tr_Serialize :: "'m \<Rightarrow> string + bytes"
  tr_Deserialize :: "bytes \<Rightarrow> string + 'm"

definition to_bytes :: "string \<Rightarrow> bytes" where
  "to_bytes s = map (\<lambda>c. of_nat (of_char c)) s"

definition of_bytes :: "bytes \<Rightarrow> string" where
  "of_bytes b = map (\<lambda>x. char_of (unat x)) b"

definition string_traits :: "string traits" where
  "string_traits = \<lparr>tr_TypeName = ''std_msgs/String'', tr_Serialize = \<lambda>s. Inr (to_bytes s), tr_Deserialize = \<lambda>b. Inr (of_bytes b)\<rparr>"

definition bytes_traits :: "bytes traits" where
  "bytes_traits = \<lparr>tr_TypeName = ''openember/ByteBuffer'', tr_Serialize = Inr, tr_Deserialize = Inr\<rparr>"

text \<open>For a generated message class: its name, its serializer and its parser.\<close>

definition proto_traits :: "string \<Rightarrow> ('m \<Rightarrow> bytes option) \<Rightarrow> (bytes \<Rightarrow> 'm option) \<Rightarrow> 'm traits" where
  "proto_traits type_name serialize parse =
     \<lparr>tr_TypeName = type_name,
      tr_Serialize = (\<lambda>m. case serialize m of None \<Rightarrow> Inl (''failed to serialize protobuf message: '' @ type_name) | Some b \<Rightarrow> Inr b),
      tr_Deserialize = (\<lambda>b. if 2 ^ 31 - 1 < length b then Inl (''protobuf payload is too large: '' @ type_name)
                            else case parse b of None \<Rightarrow> Inl (''failed to parse protobuf message: '' @ type_name) | Some m \<Rightarrow> Inr m)\<rparr>"

subsection \<open>Publishing\<close>

text \<open>A handle that was never created holds nothing.\<close>

definition raw_Publish :: "(string \<Rightarrow> bytes \<Rightarrow> 'w \<Rightarrow> (string + unit) \<times> 'w) \<Rightarrow> string option \<Rightarrow> bytes \<Rightarrow> 'w \<Rightarrow> (transport_Error + unit) \<times> 'w" where
  "raw_Publish put impl payload w =
     (case impl of None \<Rightarrow> (Inl (transport_error kNotInitialized ''publisher not initialized''), w)
      | Some key \<Rightarrow> (case put key payload w of
            (Inl e, w) \<Rightarrow> (Inl (transport_error kZenohError (''zenoh publish failed: '' @ e)), w)
          | (Inr _, w) \<Rightarrow> (Inr (), w)))"

definition PublishRaw :: "(string \<Rightarrow> bytes \<Rightarrow> 'w \<Rightarrow> (string + unit) \<times> 'w) \<Rightarrow> node_endpoint \<Rightarrow> bytes \<Rightarrow> 'w \<Rightarrow> bool \<times> 'w" where
  "PublishRaw put e payload w =
     (case raw_Publish put (Some (en_key e)) payload w of (result, w) \<Rightarrow> ((case result of Inl _ \<Rightarrow> False | Inr _ \<Rightarrow> True), w))"

definition publisher_Publish ::
  "(string \<Rightarrow> bytes \<Rightarrow> 'w \<Rightarrow> (string + unit) \<times> 'w) \<Rightarrow> 'm traits \<Rightarrow> node_endpoint option \<Rightarrow> 'm \<Rightarrow> 'w \<Rightarrow> (string + bool) \<times> 'w" where
  "publisher_Publish put tr base msg w =
     (case base of None \<Rightarrow> (Inr False, w)
      | Some e \<Rightarrow> (case tr_Serialize tr msg of
            Inl x \<Rightarrow> (Inl x, w)
          | Inr payload \<Rightarrow> (case PublishRaw put e payload w of (ok, w) \<Rightarrow> (Inr ok, w))))"

subsection \<open>Receiving\<close>

record transport_Message =
  tm_key :: string
  tm_payload :: bytes
  tm_receive_time :: int

text \<open>The callback that \<open>CreateSubscriber\<close> hands to the transport: an exception of the parser or of the user's callback is only logged.\<close>

definition subscriber_callback :: "'m traits \<Rightarrow> ('m \<Rightarrow> 'w \<Rightarrow> (string + unit) \<times> 'w) \<Rightarrow> transport_Message \<Rightarrow> 'w \<Rightarrow> 'w" where
  "subscriber_callback tr callback raw_msg w =
     (case tr_Deserialize tr (tm_payload raw_msg) of Inl _ \<Rightarrow> w | Inr msg \<Rightarrow> snd (callback msg w))"

text \<open>What the transport does with a sample of the backend.\<close>

definition on_sample :: "(transport_Message \<Rightarrow> 'w \<Rightarrow> 'w) \<Rightarrow> string \<Rightarrow> bytes \<Rightarrow> int \<Rightarrow> 'w \<Rightarrow> 'w" where
  "on_sample callback key payload now w = callback \<lparr>tm_key = key, tm_payload = payload, tm_receive_time = now\<rparr> w"

subsection \<open>Answering\<close>

definition service_callback ::
  "'q traits \<Rightarrow> 'r traits \<Rightarrow> ('q \<Rightarrow> 'w \<Rightarrow> (string + 'r) \<times> 'w) \<Rightarrow> transport_Message \<Rightarrow> 'w \<Rightarrow> (transport_Error + bytes) \<times> 'w" where
  "service_callback tq tr callback raw_request w =
     (case tr_Deserialize tq (tm_payload raw_request) of
        Inl x \<Rightarrow> (Inl (transport_error kInternalError x), w)
      | Inr request \<Rightarrow> (case callback request w of
            (Inl x, w) \<Rightarrow> (Inl (transport_error kInternalError x), w)
          | (Inr response, w) \<Rightarrow> ((case tr_Serialize tr response of Inl x \<Rightarrow> Inl (transport_error kInternalError x) | Inr b \<Rightarrow> Inr b), w)))"

text \<open>A query's reply: the bytes of the response, or, as the payload of an ordinary reply, the text of the error.\<close>

definition reply_to_query ::
  "(transport_Message \<Rightarrow> 'w \<Rightarrow> (transport_Error + bytes) \<times> 'w) \<Rightarrow> string \<Rightarrow> bytes option \<Rightarrow> int \<Rightarrow> 'w \<Rightarrow> bytes \<times> 'w" where
  "reply_to_query callback query_key payload now w =
     (case callback \<lparr>tm_key = query_key, tm_payload = (case payload of None \<Rightarrow> [] | Some b \<Rightarrow> b), tm_receive_time = now\<rparr> w of
        (response, w) \<Rightarrow> ((case response of Inl err \<Rightarrow> to_bytes (er_message err) | Inr b \<Rightarrow> b), w))"

subsection \<open>Calling\<close>

datatype reply = Reply_ok bytes | Reply_error

text \<open>\<open>get\<close> gives the first reply that arrives before the timeout, if any. A timeout that is not positive is not passed on.\<close>

type_synonym 'w getter = "string \<Rightarrow> bytes \<Rightarrow> nat option \<Rightarrow> 'w \<Rightarrow> (string + reply option) \<times> 'w"

definition raw_Call :: "'w getter \<Rightarrow> string option \<Rightarrow> bytes \<Rightarrow> int \<Rightarrow> 'w \<Rightarrow> (transport_Error + bytes) \<times> 'w" where
  "raw_Call get impl request timeout w =
     (case impl of None \<Rightarrow> (Inl (transport_error kNotInitialized ''service client not initialized''), w)
      | Some key \<Rightarrow> (case get key request (if 0 < timeout then Some (nat timeout) else None) w of
            (Inl x, w) \<Rightarrow> (Inl (transport_error kZenohError (''service call failed: '' @ x)), w)
          | (Inr None, w) \<Rightarrow> (Inl (transport_error kTimeout ''service call timeout''), w)
          | (Inr (Some Reply_error), w) \<Rightarrow> (Inl (transport_error kZenohError ''zenoh reply error''), w)
          | (Inr (Some (Reply_ok b)), w) \<Rightarrow> (Inr b, w)))"

definition client_CallRaw :: "'w getter \<Rightarrow> node_endpoint \<Rightarrow> bytes \<Rightarrow> int \<Rightarrow> 'w \<Rightarrow> (transport_Error + bytes) \<times> 'w" where
  "client_CallRaw get e request timeout w = raw_Call get (Some (en_key e)) request timeout w"

definition client_Call :: "'w getter \<Rightarrow> 'q traits \<Rightarrow> 'r traits \<Rightarrow> node_endpoint option \<Rightarrow> 'q \<Rightarrow> int \<Rightarrow> 'w \<Rightarrow> (string + 'r option) \<times> 'w" where
  "client_Call get tq tr base request timeout w =
     (case base of None \<Rightarrow> (Inr None, w)
      | Some e \<Rightarrow> (case tr_Serialize tq request of
            Inl x \<Rightarrow> (Inl x, w)
          | Inr payload \<Rightarrow> (case client_CallRaw get e payload timeout w of
                (Inl _, w) \<Rightarrow> (Inr None, w)
              | (Inr b, w) \<Rightarrow> ((case tr_Deserialize tr b of Inl x \<Rightarrow> Inl x | Inr m \<Rightarrow> Inr (Some m)), w))))"

subsection \<open>What the backend promises\<close>

text \<open>Traits lose nothing: what was serialized is read back.\<close>

definition lossless :: "'m traits \<Rightarrow> bool" where
  "lossless tr \<longleftrightarrow> (\<forall>m b. tr_Serialize tr m = Inr b \<longrightarrow> tr_Deserialize tr b = Inr m)"

text \<open>Samples reach the subscribers declared under their key; a query under a key is answered by the service declared there.\<close>

definition delivers_samples :: "(string \<Rightarrow> bytes \<Rightarrow> 'w \<Rightarrow> (string + unit) \<times> 'w) \<Rightarrow> (string \<times> (transport_Message \<Rightarrow> 'w \<Rightarrow> 'w)) list \<Rightarrow> int \<Rightarrow> bool" where
  "delivers_samples put subscribers now \<longleftrightarrow>
     (\<forall>key b w. put key b w = (Inr (), fold (\<lambda>(k, callback) w. if k = key then on_sample callback key b now w else w) subscribers w))"

definition answers :: "'w getter \<Rightarrow> string \<Rightarrow> (transport_Message \<Rightarrow> 'w \<Rightarrow> (transport_Error + bytes) \<times> 'w) \<Rightarrow> int \<Rightarrow> bool" where
  "answers get key callback now \<longleftrightarrow>
     (\<forall>b t w. get key b t w = (case reply_to_query callback key (Some b) now w of (r, w) \<Rightarrow> (Inr (Some (Reply_ok r)), w)))"

lemma char_byte: "char_of (unat (of_nat (of_char c) :: u8)) = c"
proof -
  have "(of_char c :: nat) < 256" by (metis char_of_eq_iff of_char_mod_256 mod_less_divisor zero_less_numeral)
  then show ?thesis by (simp add: unat_of_nat)
qed

lemma of_bytes_to_bytes [simp]: "of_bytes (to_bytes s) = s"
  by (induction s) (simp_all add: of_bytes_def to_bytes_def char_byte del: unat_of_nat)

lemma lossless_string: "lossless string_traits"
  by (auto simp: lossless_def string_traits_def)

lemma lossless_bytes: "lossless bytes_traits"
  by (auto simp: lossless_def bytes_traits_def)

lemma lossless_proto:
  "(\<And>m b. serialize m = Some b \<Longrightarrow> parse b = Some m \<and> length b < 2 ^ 31) \<Longrightarrow> lossless (proto_traits type_name serialize parse)"
  by (fastforce simp: lossless_def proto_traits_def split: option.splits if_splits)

lemma received_as_sent:
  "lossless tr \<Longrightarrow> tr_Serialize tr m = Inr b \<Longrightarrow> on_sample (subscriber_callback tr callback) key b now w = snd (callback m w)"
  by (simp add: lossless_def on_sample_def subscriber_callback_def)

lemma topic_keys_meet: "TopicKey kb t = TopicKey kb t' \<longleftrightarrow> key_NormalizeName t = key_NormalizeName t'"
  by (simp add: TopicKey_def)


text \<open>C29:
  A call over a backend that answers queries. If the service's handler returns a response, the caller gets this response. If
  the handler throws, the caller's response is whatever the text of the exception parses to: when the response is a string the
  caller gets the text as the successful response, for another type a response that happens to parse or an exception of its
  own. Only a call that no service answers in time gives no response.
\<close>

theorem call_returns_response:
  assumes "lossless tq" "lossless tr" "tr_Serialize tq q = Inr b" "en_key c = en_key s"
    and "answers get (en_key s) (service_callback tq tr handler) now"
  shows "(handler q w = (Inr r, w') \<and> tr_Serialize tr r = Inr rb \<longrightarrow> client_Call get tq tr (Some c) q timeout w = (Inr (Some r), w')) \<and>
    (handler q w = (Inl x, w') \<longrightarrow>
       client_Call get tq tr (Some c) q timeout w = ((case tr_Deserialize tr (to_bytes x) of Inl y \<Rightarrow> Inl y | Inr m \<Rightarrow> Inr (Some m)), w')) \<and>
    (get k b (if 0 < timeout then Some (nat timeout) else None) w = (Inr None, w') \<longrightarrow>
       client_Call get tq tr (Some (c\<lparr>en_key := k\<rparr>)) q timeout w = (Inr None, w'))"
  using assms by (auto simp: client_Call_def client_CallRaw_def raw_Call_def answers_def reply_to_query_def service_callback_def lossless_def transport_error_def)

lemma error_text_is_response:
  assumes "answers get (en_key s) (service_callback string_traits string_traits handler) now" "en_key c = en_key s" "handler q w = (Inl x, w')"
  shows "client_Call get string_traits string_traits (Some c) q timeout w = (Inr (Some x), w')"
  using assms by (simp add: client_Call_def client_CallRaw_def raw_Call_def answers_def reply_to_query_def service_callback_def string_traits_def transport_error_def)

definition demo_endpoint :: "endpoint_kind \<Rightarrow> string \<Rightarrow> node_endpoint" where
  "demo_endpoint kind name = \<lparr>en_kind = kind, en_name = name,
     en_key = key_of \<lparr>kb_robot_id = ''r1'', kb_namespace_name = ''''\<rparr> (endpoint_use \<lparr>en_kind = kind, en_name = name, en_key = [], en_types = []\<rparr>), en_types = []\<rparr>"

definition demo_subscribers :: "(node_endpoint \<times> (string \<Rightarrow> string list \<Rightarrow> (string + unit) \<times> string list)) list" where
  "demo_subscribers = [(demo_endpoint Is_subscriber ''/imu/raw/'', \<lambda>m w. (Inr (), w @ [m])), (demo_endpoint Is_subscriber ''/gnss'', \<lambda>m w. (Inr (), []))]"

definition demo_put :: "string \<Rightarrow> bytes \<Rightarrow> string list \<Rightarrow> (string + unit) \<times> string list" where
  "demo_put key b w = (Inr (), fold (\<lambda>(k, callback) w. if k = key then on_sample callback key b 0 w else w)
     (map (\<lambda>(e, callback). (en_key e, subscriber_callback string_traits callback)) demo_subscribers) w)"


definition demo_handler :: "string \<Rightarrow> nat \<Rightarrow> (string + string) \<times> nat" where
  "demo_handler q w = (if q = [] then Inl ''empty request'' else Inr (rev q), Suc w)"

definition demo_get :: "nat getter" where
  "demo_get key b t w = (case reply_to_query (service_callback string_traits string_traits demo_handler) key (Some b) 0 w of (r, w) \<Rightarrow> (Inr (Some (Reply_ok r)), w))"

theorem call_returns_response_witness:
  "client_Call demo_get string_traits string_traits (Some (demo_endpoint Is_client ''rev'')) ''ab'' 100 0 = (Inr (Some ''ba''), 1) \<and>
   client_Call demo_get string_traits string_traits (Some (demo_endpoint Is_client ''rev'')) '''' 100 0 = (Inr (Some ''empty request''), 1)"
proof -
  have "answers demo_get (en_key (demo_endpoint Is_service ''rev'')) (service_callback string_traits string_traits demo_handler) 0"
    by (simp add: answers_def demo_get_def)
  moreover have "en_key (demo_endpoint Is_client ''rev'') = en_key (demo_endpoint Is_service ''rev'')"
    by (simp add: demo_endpoint_def endpoint_use_def)
  ultimately show ?thesis
    using call_returns_response [of string_traits string_traits "''ab''" "to_bytes ''ab''" "demo_endpoint Is_client ''rev''" "demo_endpoint Is_service ''rev''"
        demo_get demo_handler 0 0 "''ba''" 1 "to_bytes ''ba''" 100]
      call_returns_response [of string_traits string_traits "''''" "to_bytes ''''" "demo_endpoint Is_client ''rev''" "demo_endpoint Is_service ''rev''"
        demo_get demo_handler 0 0 _ 1 _ 100 "''empty request''"] lossless_string
    by (simp add: demo_handler_def string_traits_def)
qed

end
