(* ===== verification/Json_Text.thy ===== *)
theory Json_Text
  imports Prelude
begin

section \<open>Text for the web interface\<close>

text \<open>
  The logger service, the web console and the log sink write JSON by concatenating strings around \<open>json_escape\<close>, which
  the three define with the same text (services/logger/logger.cpp, services/web\_console/main.cpp,
  components/logging/src/logger.cpp). The reader of this theory is JSON's definition of a string, against which it is judged.
\<close>

subsection \<open>Escaping\<close>

abbreviation quote :: char where "quote \<equiv> CHR 0x22"
abbreviation backslash :: char where "backslash \<equiv> CHR 0x5C"

definition hex_digit :: "nat \<Rightarrow> char" where
  "hex_digit d = (if d < 10 then char_of (48 + d) else char_of (87 + d))"

definition escape_char :: "char \<Rightarrow> string" where
  "escape_char ch =
     (if ch = backslash then [backslash, backslash]
      else if ch = quote then [backslash, quote]
      else if ch = CHR 0x0A then [backslash, CHR ''n'']
      else if ch = CHR 0x0D then [backslash, CHR ''r'']
      else if ch = CHR 0x09 then [backslash, CHR ''t'']
      else if (of_char ch :: nat) < 0x20
           then [backslash, CHR ''u'', CHR ''0'', CHR ''0'', hex_digit (of_char ch div 16), hex_digit (of_char ch mod 16)]
      else [ch])"

definition json_escape :: "string \<Rightarrow> string" where
  "json_escape v = concat (map escape_char v)"

subsection \<open>Reading a string\<close>

definition hex_value :: "char \<Rightarrow> nat option" where
  "hex_value c =
     (let n = of_char c in
      if 48 \<le> n \<and> n \<le> 57 then Some (n - 48) else if 97 \<le> n \<and> n \<le> 102 then Some (n - 87) else if 65 \<le> n \<and> n \<le> 70 then Some (n - 55) else None)"

definition simple_escape :: "char \<Rightarrow> char option" where
  "simple_escape e =
     (if e = quote then Some quote else if e = backslash then Some backslash else if e = CHR ''/'' then Some (CHR ''/'')
      else if e = CHR ''b'' then Some (CHR 0x08) else if e = CHR ''f'' then Some (CHR 0x0C) else if e = CHR ''n'' then Some (CHR 0x0A)
      else if e = CHR ''r'' then Some (CHR 0x0D) else if e = CHR ''t'' then Some (CHR 0x09) else None)"

text \<open>
  The content of a string literal and what follows its closing quote. Control characters may not stand for themselves; of the
  escapes by number only the ASCII characters are read, which are one byte.
\<close>

fun read_json :: "string \<Rightarrow> (string \<times> string) option" where
  "read_json [] = None"
| "read_json [c] = (if c = quote then Some ([], []) else None)"
| "read_json (c # e # s) =
     (if c = quote then Some ([], e # s)
      else if c \<noteq> backslash then
        (if (of_char c :: nat) < 0x20 then None else map_option (\<lambda>(v, r). (c # v, r)) (read_json (e # s)))
      else if e \<noteq> CHR ''u'' then
        (case simple_escape e of None \<Rightarrow> None | Some x \<Rightarrow> map_option (\<lambda>(v, r). (x # v, r)) (read_json s))
      else (case s of
          z # y # h # l # s' \<Rightarrow> (case (hex_value h, hex_value l) of
              (Some a, Some b) \<Rightarrow>
                if z = CHR ''0'' \<and> y = CHR ''0'' \<and> a < 8 then map_option (\<lambda>(v, r). (char_of (16 * a + b) # v, r)) (read_json s') else None
            | _ \<Rightarrow> None)
        | _ \<Rightarrow> None))"

lemma hex_value_hex_digit: "d < 16 \<Longrightarrow> hex_value (hex_digit d) = Some d"
  by (auto simp: hex_value_def hex_digit_def Let_def of_char_of take_bit_eq_mod)

lemma read_escape_char: "t \<noteq> [] \<Longrightarrow> read_json (escape_char c @ t) = map_option (\<lambda>(v, r). (c # v, r)) (read_json t)"
proof -
  assume t: "t \<noteq> []"
  have hex: "16 * (of_char c div 16) + of_char c mod 16 = (of_char c :: nat)" by simp
  have low: "(of_char c :: nat) < 32 \<Longrightarrow> of_char c div 16 < (8 :: nat)" by simp
  obtain e s where "t = e # s" using t by (cases t) auto
  then show ?thesis
    by (auto simp: escape_char_def simple_escape_def hex_value_hex_digit hex low split: option.splits)
qed

text \<open>An escaped text read up to a closing quote is the text itself, whatever bytes it holds.\<close>

lemma read_json_escape: "read_json (json_escape s @ quote # rest) = Some (s, rest)"
proof (induction s)
  case Nil
  then show ?case by (cases rest) (simp_all add: json_escape_def)
next
  case (Cons c s)
  have "read_json (json_escape (c # s) @ quote # rest) = read_json (escape_char c @ json_escape s @ quote # rest)"
    by (simp add: json_escape_def)
  with Cons read_escape_char [of "json_escape s @ quote # rest" c] show ?case by simp
qed

subsection \<open>Reading a document of this shape\<close>

definition expect :: "string \<Rightarrow> string \<Rightarrow> string option" where
  "expect w s = (if starts_with s w then Some (drop (length w) s) else None)"

lemma expect_append [simp]: "expect w (w @ s) = Some s"
  by (simp add: expect_def)

definition read_number :: "string \<Rightarrow> nat \<times> string" where
  "read_number s = (read_nat (takeWhile is_digit s), dropWhile is_digit s)"

lemma read_number_to_string [simp]: "\<not> is_digit c \<Longrightarrow> read_number (to_string_nat n @ c # s) = (n, c # s)"
  using to_string_nat_digits [of n] by (simp add: read_number_def takeWhile_append2 dropWhile_append2)

end
