(* ===== verification/Log_Service.thy ===== *)
theory Log_Service
  imports Json_Text Text_Input
begin

section \<open>Collecting and serving logs (services/logger, services/web\_console, components/logging)\<close>

text \<open>
  The logger service reads the log files of a directory on each request and returns the last lines that match. The web
  console keeps the lines it receives in a ring. The log sink publishes lines under a rate limit. The file system, the query
  parameters and the clock are arguments.
\<close>

subsection \<open>Matching a line\<close>

text \<open>\<^verbatim>\<open>std::tolower\<close> in the C locale.\<close>

definition lower_char :: "char \<Rightarrow> char" where
  "lower_char c = (let n = of_char c :: nat in if 65 \<le> n \<and> n \<le> 90 then char_of (n + 32) else c)"

definition to_lower :: "string \<Rightarrow> string" where
  "to_lower s = map lower_char s"

definition match_line :: "string \<Rightarrow> string \<Rightarrow> string \<Rightarrow> bool" where
  "match_line line level tag =
     (if level \<noteq> [] \<and> find_sub ([CHR 0x5B] @ to_lower level @ [CHR 0x5D]) (to_lower line) = None then False
      else if tag \<noteq> [] \<and> find_sub (to_lower tag) (to_lower line) = None then False
      else True)"

subsection \<open>Reading the files\<close>

text \<open>An entry of the directory: its name, whether it is a regular file, and its content if it can be opened.\<close>

record dir_entry =
  de_name :: string
  de_regular :: bool
  de_content :: "string option"

text \<open>\<^verbatim>\<open>path::extension\<close> of a file name: from its last dot, unless that is its first character.\<close>

definition extension :: "string \<Rightarrow> string" where
  "extension name = (case rfind_char name (CHR ''.'') of None \<Rightarrow> [] | Some i \<Rightarrow> if i = 0 then [] else drop i name)"

text \<open>The tail of a file: a line is appended, and the first one dropped when there are too many.\<close>

definition tail_push :: "nat \<Rightarrow> string list \<Rightarrow> string \<Rightarrow> string list" where
  "tail_push budget tail line = (let tail = tail @ [line] in if budget < length tail then tl tail else tail)"

definition file_tail :: "nat \<Rightarrow> string \<Rightarrow> string \<Rightarrow> string \<Rightarrow> string list" where
  "file_tail budget level tag content =
     fold (\<lambda>line tail. if \<not> match_line line level tag then tail else tail_push budget tail line) (getlines content) []"

text \<open>\<open>dir\<close> is the list of the directory's entries in the order the file system gives them, or nothing when there is no such directory.\<close>

definition log_files :: "dir_entry list \<Rightarrow> dir_entry list" where
  "log_files dir = sort_key de_name (filter (\<lambda>e. de_regular e \<and> extension (de_name e) = ''.log'') dir)"

definition collect_logs :: "dir_entry list option \<Rightarrow> nat \<Rightarrow> string \<Rightarrow> string \<Rightarrow> (string \<times> string) list" where
  "collect_logs dir limit level tag =
     (case dir of None \<Rightarrow> []
      | Some es \<Rightarrow>
          let tail_budget = max (limit * 3) 300;
              all = concat (map (\<lambda>e. case de_content e of None \<Rightarrow> []
                                     | Some content \<Rightarrow> map (\<lambda>ln. (de_name e, ln)) (file_tail tail_budget level tag content)) (log_files es)) in
          if limit < length all then drop (length all - limit) all else all)"

subsection \<open>Answering a request\<close>

definition item_json :: "string \<times> string \<Rightarrow> string" where
  "item_json item =
     [CHR 0x7B, quote] @ ''source'' @ [quote] @ '':'' @ [quote] @ json_escape (fst item) @ [quote] @ '','' @
     [quote] @ ''line'' @ [quote] @ '':'' @ [quote] @ json_escape (snd item) @ [quote] @ [CHR 0x7D]"

fun items_json :: "(string \<times> string) list \<Rightarrow> string" where
  "items_json [] = []"
| "items_json [item] = item_json item"
| "items_json (item # items) = item_json item @ '','' @ items_json items"

definition counted_items_json :: "(string \<times> string) list \<Rightarrow> string" where
  "counted_items_json items =
     [quote] @ ''count'' @ [quote] @ '':'' @ to_string_nat (length items) @ '','' @ [quote] @ ''items'' @ [quote] @ '':'' @ [CHR 0x5B] @
     items_json items @ [CHR 0x5D, CHR 0x7D]"

definition logs_json :: "string \<Rightarrow> dir_entry list option \<Rightarrow> nat \<Rightarrow> string \<Rightarrow> string \<Rightarrow> string" where
  "logs_json log_dir dir limit level tag =
     [CHR 0x7B, quote] @ ''dir'' @ [quote] @ '':'' @ [quote] @ json_escape log_dir @ [quote] @ '','' @
     counted_items_json (collect_logs dir limit level tag)"

text \<open>The limit of a request of the logger, and the whole answer of \<^verbatim>\<open>/api/logs\<close> from the query's parameters.\<close>

definition request_limit :: "string \<Rightarrow> nat" where
  "request_limit b_limit = (if b_limit \<noteq> [] \<and> 0 < strtol b_limit \<and> strtol b_limit < 5000 then nat (strtol b_limit) else 200)"

definition api_logs :: "string \<Rightarrow> dir_entry list option \<Rightarrow> string \<Rightarrow> string \<Rightarrow> string \<Rightarrow> string" where
  "api_logs log_dir dir b_limit b_level b_tag = logs_json log_dir dir (request_limit b_limit) b_level b_tag"

subsection \<open>The console's ring\<close>

definition s_log_ring_max :: nat where "s_log_ring_max = 2000"

definition on_log_topic_payload :: "string \<Rightarrow> string list \<Rightarrow> string list" where
  "on_log_topic_payload payload ring =
     (if payload = [] then ring
      else let ring = ring @ [payload] in drop (length ring - s_log_ring_max) ring)"

definition logs_ring_json :: "string list \<Rightarrow> nat \<Rightarrow> string" where
  "logs_ring_json ring limit =
     (let limit = (if limit = 0 then 200 else limit); limit = (if 5000 < limit then 5000 else limit);
          n = length ring; start = (if limit < n then n - limit else 0) in
      [CHR 0x7B] @ counted_items_json (map (\<lambda>line. (''topic'', line)) (drop start ring)))"

definition ring_limit :: "string \<Rightarrow> nat" where
  "ring_limit b_limit = (if b_limit \<noteq> [] \<and> 0 < strtol b_limit then nat (strtol b_limit) else 200)"

subsection \<open>What is collected\<close>

definition matching_lines :: "dir_entry list option \<Rightarrow> string \<Rightarrow> string \<Rightarrow> (string \<times> string) list" where
  "matching_lines dir level tag =
     (case dir of None \<Rightarrow> []
      | Some es \<Rightarrow> concat (map (\<lambda>e. case de_content e of None \<Rightarrow> []
          | Some content \<Rightarrow> map (\<lambda>ln. (de_name e, ln)) (filter (\<lambda>ln. match_line ln level tag) (getlines content))) (log_files es)))"

lemma tail_push_short: "length tail \<le> budget \<Longrightarrow> tail_push budget tail line = last_n budget (tail @ [line])"
proof (cases "length tail < budget")
  case True
  then show ?thesis by (simp add: tail_push_def Let_def last_n_def)
next
  case False
  moreover assume "length tail \<le> budget"
  ultimately have "budget = length tail" by simp
  then show ?thesis by (cases tail) (simp_all add: tail_push_def Let_def last_n_def)
qed

lemma tail_push_last_n: "tail_push budget (last_n budget xs) line = last_n budget (xs @ [line])"
  by (simp add: tail_push_short last_n_Suc_snoc)

lemma file_tail_last_n: "file_tail budget level tag content = last_n budget (filter (\<lambda>ln. match_line ln level tag) (getlines content))"
proof -
  have "fold (\<lambda>line tail. if \<not> match_line line level tag then tail else tail_push budget tail line) lines (last_n budget xs) =
      last_n budget (xs @ filter (\<lambda>ln. match_line ln level tag) lines)" for lines xs
    by (induction lines arbitrary: xs) (auto simp: tail_push_last_n)
  from this [of "getlines content" "[]"] show ?thesis by (simp add: file_tail_def last_n_def)
qed

lemma collect_logs_last_n: "collect_logs dir limit level tag = last_n limit (matching_lines dir level tag)"
proof (cases dir)
  case None
  then show ?thesis by (simp add: collect_logs_def matching_lines_def last_n_def)
next
  case (Some es)
  let ?budget = "max (limit * 3) 300"
  let ?lines = "\<lambda>e. case de_content e of None \<Rightarrow> []
      | Some content \<Rightarrow> map (\<lambda>ln. (de_name e, ln)) (filter (\<lambda>ln. match_line ln level tag) (getlines content))"
  have tails: "(case de_content e of None \<Rightarrow> [] | Some content \<Rightarrow> map (\<lambda>ln. (de_name e, ln)) (file_tail ?budget level tag content)) =
      last_n ?budget (?lines e)" for e
    by (auto simp: file_tail_last_n last_n_map split: option.splits) (simp add: last_n_def)
  have "collect_logs dir limit level tag = last_n limit (concat (map (last_n ?budget) (map ?lines (log_files es))))"
    by (simp add: collect_logs_def Some Let_def tails comp_def last_n_def)
  also have "\<dots> = last_n limit (concat (map ?lines (log_files es)))" by (rule last_n_concat) simp
  finally show ?thesis by (simp add: Some matching_lines_def)
qed

subsection \<open>What a client reads\<close>

definition read_item :: "string \<Rightarrow> ((string \<times> string) \<times> string) option" where
  "read_item s =
     (case expect ([CHR 0x7B, quote] @ ''source'' @ [quote] @ '':'' @ [quote]) s of None \<Rightarrow> None | Some s \<Rightarrow>
      case read_json s of None \<Rightarrow> None | Some (source, s) \<Rightarrow>
      case expect ('','' @ [quote] @ ''line'' @ [quote] @ '':'' @ [quote]) s of None \<Rightarrow> None | Some s \<Rightarrow>
      case read_json s of None \<Rightarrow> None | Some (line, s) \<Rightarrow>
      map_option (\<lambda>s. ((source, line), s)) (expect [CHR 0x7D] s))"

fun read_items :: "nat \<Rightarrow> string \<Rightarrow> ((string \<times> string) list \<times> string) option" where
  "read_items 0 s = Some ([], s)"
| "read_items (Suc n) s =
     (case read_item s of None \<Rightarrow> None | Some (item, s) \<Rightarrow>
        if n = 0 then Some ([item], s)
        else (case expect '','' s of None \<Rightarrow> None | Some s \<Rightarrow> map_option (\<lambda>(items, s). (item # items, s)) (read_items n s)))"

definition read_counted_items :: "string \<Rightarrow> (string \<times> string) list option" where
  "read_counted_items s =
     (case expect ([quote] @ ''count'' @ [quote] @ '':'') s of None \<Rightarrow> None | Some s \<Rightarrow>
      case read_number s of (n, s) \<Rightarrow>
      case expect ('','' @ [quote] @ ''items'' @ [quote] @ '':'' @ [CHR 0x5B]) s of None \<Rightarrow> None | Some s \<Rightarrow>
      case read_items n s of None \<Rightarrow> None | Some (items, s) \<Rightarrow>
      (if s = [CHR 0x5D, CHR 0x7D] then Some items else None))"

definition read_logs :: "string \<Rightarrow> (string \<times> (string \<times> string) list) option" where
  "read_logs s =
     (case expect ([CHR 0x7B, quote] @ ''dir'' @ [quote] @ '':'' @ [quote]) s of None \<Rightarrow> None | Some s \<Rightarrow>
      case read_json s of None \<Rightarrow> None | Some (dir, s) \<Rightarrow>
      case expect '','' s of None \<Rightarrow> None | Some s \<Rightarrow> map_option (Pair dir) (read_counted_items s))"

definition read_ring :: "string \<Rightarrow> (string \<times> string) list option" where
  "read_ring s = (case expect [CHR 0x7B] s of None \<Rightarrow> None | Some s \<Rightarrow> read_counted_items s)"

lemma expect_append_assoc: "expect w (w @ s) = Some s" by (rule expect_append)

lemma read_item_json [simp]: "read_item (item_json item @ rest) = Some (item, rest)"
proof -
  have "item_json item @ rest = ([CHR 0x7B, quote] @ ''source'' @ [quote] @ '':'' @ [quote]) @ (json_escape (fst item) @ quote #
      (('','' @ [quote] @ ''line'' @ [quote] @ '':'' @ [quote]) @ (json_escape (snd item) @ quote # ([CHR 0x7D] @ rest))))"
    by (simp add: item_json_def)
  then show ?thesis by (simp only: read_item_def expect_append option.case read_json_escape prod.case option.map prod.collapse)
qed

lemma read_items_json: "read_items (length items) (items_json items @ CHR 0x5D # rest) = Some (items, CHR 0x5D # rest)"
proof (induction items rule: items_json.induct)
  case (3 item i items)
  have "items_json (item # i # items) @ CHR 0x5D # rest = item_json item @ ('','' @ (items_json (i # items) @ CHR 0x5D # rest))"
    by simp
  with 3 show ?case by (simp only: length_Cons read_items.simps read_item_json expect_append option.case prod.case) simp
qed simp_all

lemma read_counted_items_json: "read_counted_items (counted_items_json items) = Some items"
proof -
  have split: "counted_items_json items = ([quote] @ ''count'' @ [quote] @ '':'') @ (to_string_nat (length items) @
      (('','' @ [quote] @ ''items'' @ [quote] @ '':'' @ [CHR 0x5B]) @ (items_json items @ CHR 0x5D # [CHR 0x7D])))"
    by (simp add: counted_items_json_def)
  have number: "read_number (to_string_nat n @ (('','' @ w) @ t)) = (n, ('','' @ w) @ t)" for n w t
    using read_number_to_string [of "CHR '',''" n "w @ t"] by (simp add: is_digit_code)
  show ?thesis
    unfolding read_counted_items_def split
    by (simp only: expect_append option.case number prod.case read_items_json if_True refl)
qed

text \<open>A JSON reader gets from the answer of \<open>/api/logs\<close> the directory and exactly the last matching lines of its log files,
  file by file in the order of their names, as many as the request asks for when that is from 1 to 4999 and at most 200 otherwise; each
  line is read back byte for byte, whatever it contains. That the service keeps only a part of each file in memory cannot be noticed.
\<close>

theorem served_logs_read_back:
  "read_logs (api_logs log_dir dir b_limit level tag) = Some (log_dir, last_n (request_limit b_limit) (matching_lines dir level tag)) \<and>
   request_limit b_limit = (let n = strtol b_limit in if b_limit \<noteq> [] \<and> 1 \<le> n \<and> n \<le> 4999 then nat n else 200)"
proof -
  have "api_logs log_dir dir b_limit level tag = ([CHR 0x7B, quote] @ ''dir'' @ [quote] @ '':'' @ [quote]) @ (json_escape log_dir @ quote #
      ('','' @ counted_items_json (collect_logs dir (request_limit b_limit) level tag)))"
    by (simp add: api_logs_def logs_json_def)
  then have "read_logs (api_logs log_dir dir b_limit level tag) = Some (log_dir, collect_logs dir (request_limit b_limit) level tag)"
    by (simp only: read_logs_def expect_append option.case read_json_escape prod.case read_counted_items_json option.map)
  then show ?thesis by (auto simp: collect_logs_last_n request_limit_def Let_def)
qed

lemma ring_last_n: "on_log_topic_payload payload (last_n s_log_ring_max xs) = last_n s_log_ring_max (if payload = [] then xs else xs @ [payload])"
  using last_n_Suc_snoc [of s_log_ring_max xs payload] by (auto simp: on_log_topic_payload_def Let_def last_n_def)

text \<open>Whatever payloads the console has received, a JSON reader gets from its \<open>/api/logs\<close> the last of the non-empty ones, in order
  and byte for byte: as many as asked for, 200 when the request does not say, and never more than the 2000 the console keeps.
\<close>

theorem console_logs_read_back:
  "read_ring (logs_ring_json (fold on_log_topic_payload payloads []) (ring_limit b_limit)) =
   Some (map (\<lambda>line. (''topic'', line)) (last_n (min (ring_limit b_limit) 2000) (filter (\<lambda>p. p \<noteq> []) payloads)))"
proof -
  have "fold on_log_topic_payload payloads (last_n s_log_ring_max xs) = last_n s_log_ring_max (xs @ filter (\<lambda>p. p \<noteq> []) payloads)" for xs
    by (induction payloads arbitrary: xs) (auto simp: ring_last_n)
  from this [of "[]"] have ring: "fold on_log_topic_payload payloads [] = last_n 2000 (filter (\<lambda>p. p \<noteq> []) payloads)"
    by (simp add: last_n_def s_log_ring_max_def)
  have pos: "ring_limit b_limit \<noteq> 0" by (auto simp: ring_limit_def)
  let ?ring = "last_n 2000 (filter (\<lambda>p. p \<noteq> []) payloads)" let ?l = "if 5000 < ring_limit b_limit then 5000 else ring_limit b_limit"
  have short: "length ?ring \<le> 2000" by simp
  have "drop (if ?l < length ?ring then length ?ring - ?l else 0) ?ring = last_n (min (ring_limit b_limit) 2000) ?ring"
    using short by (auto simp: last_n_def [of _ ?ring] min_def simp del: length_last_n)
  also have "\<dots> = last_n (min (ring_limit b_limit) 2000) (filter (\<lambda>p. p \<noteq> []) payloads)" by (rule last_n_last_n) simp
  finally show ?thesis
    using pos by (simp add: ring logs_ring_json_def Let_def read_ring_def read_counted_items_json del: length_last_n append.simps) 
qed

end
