(* ===== verification/Log_Sink.thy ===== *)
theory Log_Sink
  imports Log_Service
begin

section \<open>The log sink of the transport (components/logging/src/logger.cpp)\<close>

text \<open>
  A program's log lines are also published on a topic, no more than a number of lines per second. The sink opens its own
  session when it first needs it and tries again at most every two seconds. \<open>sink_it\<close> is called under the sink's lock; the clock,
  the process id and whether the transport accepts are its arguments. Times are those of the steady clock in nanoseconds.
\<close>

subsection \<open>Levels and lines\<close>

datatype spd_level = spd_trace | spd_debug | spd_info | spd_warn | spd_err | spd_critical | spd_off

fun level_rank :: "spd_level \<Rightarrow> nat" where
  "level_rank spd_trace = 0" | "level_rank spd_debug = 1" | "level_rank spd_info = 2" | "level_rank spd_warn = 3" | "level_rank spd_err = 4"
| "level_rank spd_critical = 5" | "level_rank spd_off = 6"

text \<open>The names under which the log library writes the levels.\<close>

fun level_string :: "spd_level \<Rightarrow> string" where
  "level_string spd_trace = ''trace''" | "level_string spd_debug = ''debug''" | "level_string spd_info = ''info''" | "level_string spd_warn = ''warning''"
| "level_string spd_err = ''error''" | "level_string spd_critical = ''critical''" | "level_string spd_off = ''off''"

definition parse_level :: "string \<Rightarrow> spd_level \<Rightarrow> spd_level" where
  "parse_level s def =
     (if s = ''trace'' then spd_trace
      else if s = ''debug'' then spd_debug
      else if s = ''info'' then spd_info
      else if s = ''warn'' \<or> s = ''warning'' then spd_warn
      else if s = ''error'' \<or> s = ''err'' then spd_err
      else if s = ''critical'' then spd_critical
      else if s = ''off'' then spd_off
      else def)"

definition log_payload :: "int \<Rightarrow> spd_level \<Rightarrow> int \<Rightarrow> string \<Rightarrow> string \<Rightarrow> string" where
  "log_payload ts_ms lvl pid proc msg =
     [CHR 0x7B] @ [quote] @ ''ts_ms'' @ [quote] @ '':'' @ to_string_int ts_ms @ '','' @
     [quote] @ ''lvl'' @ [quote] @ '':'' @ [quote] @ level_string lvl @ [quote] @ '','' @
     [quote] @ ''pid'' @ [quote] @ '':'' @ to_string_int pid @ '','' @
     [quote] @ ''proc'' @ [quote] @ '':'' @ [quote] @ json_escape proc @ [quote] @ '','' @
     [quote] @ ''msg'' @ [quote] @ '':'' @ [quote] @ json_escape msg @ [quote] @ [CHR 0x7D]"

subsection \<open>The sink\<close>

record topic_sink =
  ts_threshold :: spd_level
  ts_rate_limit_lps :: int
  ts_publisher :: bool
  ts_last_open_attempt :: int
  ts_proc :: string
  ts_rl_window_start :: int
  ts_rl_count :: int

definition TopicSink :: "spd_level \<Rightarrow> int \<Rightarrow> topic_sink" where
  "TopicSink threshold rate_limit_lps =
     \<lparr>ts_threshold = threshold, ts_rate_limit_lps = rate_limit_lps, ts_publisher = False, ts_last_open_attempt = 0, ts_proc = ''openember'',
      ts_rl_window_start = 0, ts_rl_count = 0\<rparr>"

definition set_process_name :: "string \<Rightarrow> topic_sink \<Rightarrow> topic_sink" where
  "set_process_name n s = s\<lparr>ts_proc := n\<rparr>"

text \<open>\<open>opens\<close> says whether opening the session and creating the publisher would succeed now.\<close>

definition ensure_publisher :: "int \<Rightarrow> bool \<Rightarrow> topic_sink \<Rightarrow> bool \<times> topic_sink" where
  "ensure_publisher now opens s =
     (if ts_publisher s then (True, s)
      else if ts_last_open_attempt s \<noteq> 0 \<and> now - ts_last_open_attempt s < 2000000000 then (False, s)
      else (opens, s\<lparr>ts_last_open_attempt := now, ts_publisher := opens\<rparr>))"

definition rate_limited :: "int \<Rightarrow> topic_sink \<Rightarrow> bool \<times> topic_sink" where
  "rate_limited now s =
     (if 0 < ts_rate_limit_lps s then
        let s = (if now - ts_rl_window_start s \<ge> 1000000000 then s\<lparr>ts_rl_window_start := now, ts_rl_count := 0\<rparr> else s) in
        if ts_rl_count s \<ge> ts_rate_limit_lps s then (True, s) else (False, s\<lparr>ts_rl_count := ts_rl_count s + 1\<rparr>)
      else (False, s))"

record log_call =
  lc_level :: spd_level
  lc_msg :: string
  lc_now :: int
  lc_ts_ms :: int
  lc_pid :: int
  lc_opens :: bool

definition sink_it :: "log_call \<Rightarrow> topic_sink \<Rightarrow> string option \<times> topic_sink" where
  "sink_it c s =
     (if level_rank (lc_level c) < level_rank (ts_threshold s) then (None, s)
      else case rate_limited (lc_now c) s of (limited, s) \<Rightarrow>
        if limited then (None, s)
        else case ensure_publisher (lc_now c) (lc_opens c) s of (ready, s) \<Rightarrow>
          if \<not> ready then (None, s)
          else (Some (log_payload (lc_ts_ms c) (lc_level c) (lc_pid c) (ts_proc s) (lc_msg c)), s))"

text \<open>A run of the sink: the calls that were published, with their payloads.\<close>

fun sink_run :: "log_call list \<Rightarrow> topic_sink \<Rightarrow> (log_call \<times> string) list" where
  "sink_run [] s = []"
| "sink_run (c # cs) s = (case sink_it c s of (published, s) \<Rightarrow> (case published of None \<Rightarrow> [] | Some p \<Rightarrow> [(c, p)]) @ sink_run cs s)"

subsection \<open>The rate limit\<close>

text \<open>
  \<open>rs\<close> holds the times at which the limiter let a line pass, the last one first: those of the window come first, and all from
  before the window that preceded it are at least a second older than the window's start.
\<close>

definition limiter_inv :: "int \<Rightarrow> int list \<Rightarrow> topic_sink \<Rightarrow> bool" where
  "limiter_inv now rs s \<longleftrightarrow>
     0 \<le> ts_rl_count s \<and> ts_rl_count s \<le> ts_rate_limit_lps s \<and> ts_rl_window_start s \<le> now \<and>
     list_all (\<lambda>t. t \<le> now) rs \<and>
     list_all (\<lambda>t. t \<le> ts_rl_window_start s) (drop (nat (ts_rl_count s)) rs) \<and>
     list_all (\<lambda>t. t \<le> ts_rl_window_start s - 1000000000) (drop (nat (ts_rl_count s + ts_rate_limit_lps s)) rs)"

definition in_second :: "int \<Rightarrow> int \<Rightarrow> bool" where
  "in_second a t \<longleftrightarrow> a \<le> t \<and> t < a + 1000000000"

lemma filter_bound: "list_all (\<lambda>x. \<not> P x) (drop k xs) \<Longrightarrow> length (filter P xs) \<le> k"
proof -
  assume "list_all (\<lambda>x. \<not> P x) (drop k xs)"
  then have "filter P (drop k xs) = []" by (simp add: list_all_iff)
  then have "filter P xs = filter P (take k xs)" by (metis append_Nil2 append_take_drop_id filter_append)
  then show ?thesis by (metis length_filter_le length_take min.bounded_iff order_trans)
qed

lemma rate_limited_frame:
  "rate_limited now s = (limited, s') \<Longrightarrow> ts_rate_limit_lps s' = ts_rate_limit_lps s \<and> ts_threshold s' = ts_threshold s \<and> ts_proc s' = ts_proc s"
  by (auto simp: rate_limited_def Let_def split: if_splits)

lemma list_all_mono: "list_all P xs \<Longrightarrow> (\<And>x. P x \<Longrightarrow> Q x) \<Longrightarrow> list_all Q xs"
  by (auto simp: list_all_iff)

text \<open>A line that passes adds its time, and there are at most twice the limit in any second.\<close>

lemma limiter_pass:
  assumes inv: "limiter_inv before rs s" and time: "before \<le> now" "0 < now" and limit: "0 < ts_rate_limit_lps s"
    and pass: "rate_limited now s = (False, s')" and few: "\<And>a. int (length (filter (in_second a) rs)) \<le> 2 * ts_rate_limit_lps s"
  shows "limiter_inv now (now # rs) s' \<and> int (length (filter (in_second a) (now # rs))) \<le> 2 * ts_rate_limit_lps s"
proof -
  define w where "w = ts_rl_window_start s"
  define c where "c = nat (ts_rl_count s)"
  define l where "l = nat (ts_rate_limit_lps s)"
  have old: "ts_rl_count s = int c" "ts_rate_limit_lps s = int l" "c \<le> l" "w \<le> before" "list_all (\<lambda>t. t \<le> before) rs"
    "list_all (\<lambda>t. t \<le> w) (drop c rs)" "list_all (\<lambda>t. t \<le> w - 1000000000) (drop (c + l) rs)"
    using inv limit by (auto simp: limiter_inv_def c_def l_def w_def nat_add_distrib)
  have now_all: "list_all (\<lambda>t. t \<le> now) rs" using old(5) time(1) by (auto intro: list_all_mono)
  show ?thesis
  proof (cases "now - w \<ge> 1000000000")
    case True
    then have s': "s' = s\<lparr>ts_rl_window_start := now, ts_rl_count := 1\<rparr>"
      using pass limit by (auto simp: rate_limited_def Let_def w_def split: if_splits)
    have "list_all (\<lambda>t. t \<le> now - 1000000000) (drop c rs)" using old(6) True by (auto intro: list_all_mono)
    then have far: "list_all (\<lambda>t. t \<le> now - 1000000000) (drop l rs)" using old(3) by (metis add_diff_inverse_nat drop_drop list_all_append append_take_drop_id not_le add.commute)
    have "int (length (filter (in_second a) (now # rs))) \<le> 2 * int l"
    proof (cases "in_second a now")
      case False
      then show ?thesis using few [of a] old(2) by simp
    next
      case here: True
      then have "list_all (\<lambda>t. \<not> in_second a t) (drop l rs)" using far by (auto simp: list_all_iff in_second_def)
      then have "length (filter (in_second a) rs) \<le> l" by (rule filter_bound)
      with here limit old(2) show ?thesis by simp
    qed
    with far now_all limit old(2) s' show ?thesis by (simp add: limiter_inv_def nat_add_distrib)
  next
    case False
    then have s': "s' = s\<lparr>ts_rl_count := int c + 1\<rparr>" and room: "c < l"
      using pass limit old(1,2) by (auto simp: rate_limited_def Let_def w_def split: if_splits)
    have "int (length (filter (in_second a) (now # rs))) \<le> 2 * int l"
    proof (cases "in_second a now")
      case out: False
      then show ?thesis using few [of a] old(2) by simp
    next
      case here: True
      have "list_all (\<lambda>t. \<not> in_second a t) (drop (c + l) rs)"
        using old(4,7) here time(1) by (auto simp: list_all_iff in_second_def)
      then have "length (filter (in_second a) rs) \<le> c + l" by (rule filter_bound)
      with here room show ?thesis by simp
    qed
    with old now_all s' room time show ?thesis by (simp add: limiter_inv_def w_def nat_add_distrib Suc_nat_eq_nat_zadd1)
  qed
qed

lemma limiter_later: "limiter_inv before rs s \<Longrightarrow> before \<le> now \<Longrightarrow> limiter_inv now rs s"
  by (auto simp: limiter_inv_def intro: list_all_mono)

lemma limiter_block:
  "rate_limited now s = (True, s') \<Longrightarrow> s' = s"
  by (auto simp: rate_limited_def Let_def split: if_splits)

lemma ensure_publisher_frame: "ensure_publisher now opens s = (ready, s') \<Longrightarrow>
   limiter_inv t rs s' = limiter_inv t rs s \<and> ts_rate_limit_lps s' = ts_rate_limit_lps s \<and> ts_proc s' = ts_proc s \<and> ts_threshold s' = ts_threshold s"
  by (auto simp: ensure_publisher_def limiter_inv_def split: if_splits)

text \<open>One call: it is published only if it passed the limiter.\<close>

lemma sink_it_cases:
  assumes "sink_it c s = (published, s')"
  obtains (below) "published = None" "s' = s" "level_rank (lc_level c) < level_rank (ts_threshold s)"
  | (blocked) "published = None" "s' = s" "rate_limited (lc_now c) s = (True, s)"
  | (passed) s1 where "\<not> level_rank (lc_level c) < level_rank (ts_threshold s)" "rate_limited (lc_now c) s = (False, s1)"
      "ensure_publisher (lc_now c) (lc_opens c) s1 = (published \<noteq> None, s')"
      "published = None \<or> published = Some (log_payload (lc_ts_ms c) (lc_level c) (lc_pid c) (ts_proc s) (lc_msg c))"
proof (cases "level_rank (lc_level c) < level_rank (ts_threshold s)")
  case True
  with assms below show ?thesis by (simp add: sink_it_def)
next
  case False
  obtain limited s1 where r: "rate_limited (lc_now c) s = (limited, s1)" by fastforce
  obtain ready s2 where e: "ensure_publisher (lc_now c) (lc_opens c) s1 = (ready, s2)" by fastforce
  show ?thesis
  proof (cases limited)
    case True
    with assms False r limiter_block [of "lc_now c" s s1] blocked show ?thesis by (simp add: sink_it_def)
  next
    case passed_limit: False
    have "ts_proc s2 = ts_proc s" using rate_limited_frame [OF r] ensure_publisher_frame [OF e] by simp
    with assms False r e passed_limit passed [of s1] show ?thesis by (auto simp: sink_it_def split: if_splits)
  qed
qed

lemma sink_run_bounded:
  assumes "limiter_inv before rs s" "0 < ts_rate_limit_lps s" "sorted (before # map lc_now cs)" "0 \<le> before"
    and "\<And>a. int (length (filter (in_second a) rs)) \<le> 2 * ts_rate_limit_lps s" "list_all (\<lambda>c. 0 < lc_now c) cs"
  shows "\<exists>ts. int (length (filter (in_second a) (rev ts @ rs))) \<le> 2 * ts_rate_limit_lps s \<and>
    length (filter (in_second a) (map (\<lambda>x. lc_now (fst x)) (sink_run cs s))) \<le> length (filter (in_second a) ts)"
  using assms
proof (induction cs arbitrary: before rs s)
  case Nil
  then show ?case by (intro exI [of _ "[]"]) simp
next
  case (Cons c cs)
  obtain published s' where step: "sink_it c s = (published, s')" by fastforce
  have times: "before \<le> lc_now c" "sorted (lc_now c # map lc_now cs)" "0 < lc_now c" "list_all (\<lambda>c. 0 < lc_now c) cs" using Cons.prems(3,6) by auto
  from step show ?case
  proof (cases rule: sink_it_cases)
    case below
    with step Cons.IH [of "lc_now c" rs s] Cons.prems times limiter_later [OF Cons.prems(1) times(1)] show ?thesis by simp
  next
    case blocked
    with step Cons.IH [of "lc_now c" rs s] Cons.prems times limiter_later [OF Cons.prems(1) times(1)] show ?thesis by simp
  next
    case (passed s1)
    have lim: "ts_rate_limit_lps s' = ts_rate_limit_lps s" using rate_limited_frame [OF passed(2)] ensure_publisher_frame [OF passed(3)] by simp
    have inv: "limiter_inv (lc_now c) (lc_now c # rs) s'"
      using limiter_pass [OF Cons.prems(1) times(1,3) Cons.prems(2) passed(2) Cons.prems(5)] ensure_publisher_frame [OF passed(3)] by simp
    have few: "int (length (filter (in_second a) (lc_now c # rs))) \<le> 2 * ts_rate_limit_lps s'" for a
      using limiter_pass [OF Cons.prems(1) times(1,3) Cons.prems(2) passed(2) Cons.prems(5)] lim by simp
    have pos: "0 < ts_rate_limit_lps s'" "0 \<le> lc_now c" using Cons.prems(2) lim times(3) by simp_all
    obtain ts where ts: "int (length (filter (in_second a) (rev ts @ lc_now c # rs))) \<le> 2 * ts_rate_limit_lps s'"
        "length (filter (in_second a) (map (\<lambda>x. lc_now (fst x)) (sink_run cs s'))) \<le> length (filter (in_second a) ts)"
      using Cons.IH [OF inv pos(1) times(2) pos(2) few times(4)] by blast
    have "length (filter (in_second a) (map (\<lambda>x. lc_now (fst x)) (sink_run (c # cs) s))) \<le> length (filter (in_second a) (lc_now c # ts))"
      using ts(2) step by (auto split: option.splits)
    moreover have "rev ts @ lc_now c # rs = rev (lc_now c # ts) @ rs" by simp
    ultimately show ?thesis using ts(1) lim by metis
  qed
qed

lemma published_payloads:
  "list_all (\<lambda>(c, p). level_rank (ts_threshold s) \<le> level_rank (lc_level c) \<and> p = log_payload (lc_ts_ms c) (lc_level c) (lc_pid c) (ts_proc s) (lc_msg c)) (sink_run cs s)"
proof (induction cs arbitrary: s)
  case (Cons c cs)
  obtain published s' where step: "sink_it c s = (published, s')" by fastforce
  from step have frame: "ts_threshold s' = ts_threshold s \<and> ts_proc s' = ts_proc s"
    by (cases rule: sink_it_cases) (auto dest!: rate_limited_frame ensure_publisher_frame)
  from step have "published \<noteq> None \<longrightarrow> level_rank (ts_threshold s) \<le> level_rank (lc_level c) \<and>
      published = Some (log_payload (lc_ts_ms c) (lc_level c) (lc_pid c) (ts_proc s) (lc_msg c))"
    by (cases rule: sink_it_cases) auto
  with Cons [of s'] step frame show ?case by (auto split: option.splits)
qed simp

text \<open>Under a positive rate limit the sink publishes, however its program logs and however often the transport fails, at most twice
  the limit in any second (the windows are aligned to the first line of each), only lines at or above the threshold, and each with
  the process, the level and the text of its line, which a JSON reader gets back byte for byte.
\<close>

theorem log_topic_rate_limited:
  assumes "0 < limit" "sorted (map lc_now cs)" "list_all (\<lambda>c. 0 < lc_now c) cs"
  shows "int (length (filter (in_second a) (map (\<lambda>x. lc_now (fst x)) (sink_run cs (set_process_name proc (TopicSink threshold limit)))))) \<le> 2 * limit \<and>
    list_all (\<lambda>(c, p). level_rank threshold \<le> level_rank (lc_level c) \<and> p = log_payload (lc_ts_ms c) (lc_level c) (lc_pid c) proc (lc_msg c))
      (sink_run cs (set_process_name proc (TopicSink threshold limit))) \<and>
    read_json (json_escape msg @ quote # rest) = Some (msg, rest)"
proof -
  let ?s = "set_process_name proc (TopicSink threshold limit)"
  have start: "limiter_inv 0 [] ?s" "ts_rate_limit_lps ?s = limit" "ts_threshold ?s = threshold" "ts_proc ?s = proc"
    using assms(1) by (simp_all add: limiter_inv_def set_process_name_def TopicSink_def)
  have "sorted (0 # map lc_now cs)" using assms(2,3) by (auto simp: list_all_iff intro: less_imp_le)
  then obtain ts where "int (length (filter (in_second a) (rev ts @ []))) \<le> 2 * limit"
      "length (filter (in_second a) (map (\<lambda>x. lc_now (fst x)) (sink_run cs ?s))) \<le> length (filter (in_second a) ts)"
    using sink_run_bounded [OF start(1), of cs a] assms start(2) by auto
  then have "int (length (filter (in_second a) (map (\<lambda>x. lc_now (fst x)) (sink_run cs ?s)))) \<le> 2 * limit"
    by (simp add: rev_filter [symmetric])
  with published_payloads [of ?s cs] start(3,4) read_json_escape show ?thesis by simp
qed

definition demo_call :: "int \<Rightarrow> log_call" where
  "demo_call now = \<lparr>lc_level = spd_warn, lc_msg = ''low battery'', lc_now = now, lc_ts_ms = 0, lc_pid = 7, lc_opens = True\<rparr>"

theorem log_topic_rate_limited_witness:
  "length (filter (in_second 1500000000) (map (\<lambda>x. lc_now (fst x)) (sink_run (map demo_call [1000000000, 1900000000, 1950000000, 2000000000, 2100000000, 2200000000])
      (set_process_name ''arm'' (TopicSink spd_info 2))))) = 3 \<and> (3 :: int) \<le> 2 * 2"
  using log_topic_rate_limited [of 2 "map demo_call [1000000000, 1900000000, 1950000000, 2000000000, 2100000000, 2200000000]" 1500000000 "''arm''" spd_info]
  by (simp add: demo_call_def set_process_name_def TopicSink_def sink_it_def rate_limited_def ensure_publisher_def in_second_def Let_def)

end
