(* ===== verification/Host_Monitor.thy ===== *)
theory Host_Monitor
  imports Text_Input Float_Bounds Messages
begin

section \<open>The host monitor (services/host\_monitor)\<close>

text \<open>
  The monitor samples the machine once a second and publishes what it found. The texts of /proc/meminfo, /proc/stat and
  /proc/mounts are arguments (\<open>None\<close> when a file cannot be opened), and so are \<^verbatim>\<open>statvfs\<close> and the numbers read from
  /proc/uptime and /proc/loadavg.
\<close>

subsection \<open>Samples (host\_sampler.hpp)\<close>

record CpuSample =
  cs_usage_ratio :: float64
  cs_online_cpus :: u32
  cs_core_usage_ratio :: "float64 list"

record MemorySample =
  ms_total_bytes :: u64
  ms_available_bytes :: u64
  ms_used_bytes :: u64
  ms_swap_total_bytes :: u64
  ms_swap_used_bytes :: u64

record DiskSample =
  ds_mount_point :: string
  ds_filesystem :: string
  ds_total_bytes :: u64
  ds_used_bytes :: u64
  ds_available_bytes :: u64

record HostSample =
  hs_uptime_sec :: float64
  hs_load1 :: float64
  hs_load5 :: float64
  hs_load15 :: float64
  hs_cpu :: CpuSample
  hs_memory :: MemorySample
  hs_disks :: "DiskSample list"

definition no_cpu :: CpuSample where
  "no_cpu = \<lparr>cs_usage_ratio = Fin 0, cs_online_cpus = 0, cs_core_usage_ratio = []\<rparr>"

definition no_memory :: MemorySample where
  "no_memory = \<lparr>ms_total_bytes = 0, ms_available_bytes = 0, ms_used_bytes = 0, ms_swap_total_bytes = 0, ms_swap_used_bytes = 0\<rparr>"

record RawCpu =
  rc_idle :: u64
  rc_total :: u64

subsection \<open>Memory\<close>

record mem_counters =
  mem_total_kb :: u64
  mem_available_kb :: u64
  mem_free_kb :: u64
  mem_buffers_kb :: u64
  mem_cached_kb :: u64
  mem_swap_total_kb :: u64
  mem_swap_free_kb :: u64

definition no_counters :: mem_counters where
  "no_counters = \<lparr>mem_total_kb = 0, mem_available_kb = 0, mem_free_kb = 0, mem_buffers_kb = 0, mem_cached_kb = 0,
     mem_swap_total_kb = 0, mem_swap_free_kb = 0\<rparr>"

definition mem_entry :: "string \<Rightarrow> u64 \<Rightarrow> mem_counters \<Rightarrow> mem_counters" where
  "mem_entry key v c =
     (if key = ''MemTotal:'' then c\<lparr>mem_total_kb := v\<rparr>
      else if key = ''MemAvailable:'' then c\<lparr>mem_available_kb := v\<rparr>
      else if key = ''MemFree:'' then c\<lparr>mem_free_kb := v\<rparr>
      else if key = ''Buffers:'' then c\<lparr>mem_buffers_kb := v\<rparr>
      else if key = ''Cached:'' then c\<lparr>mem_cached_kb := v\<rparr>
      else if key = ''SwapTotal:'' then c\<lparr>mem_swap_total_kb := v\<rparr>
      else if key = ''SwapFree:'' then c\<lparr>mem_swap_free_kb := v\<rparr>
      else c)"

function mem_loop :: "string \<Rightarrow> mem_counters \<Rightarrow> mem_counters" where
  "mem_loop s c =
     (case get_token s of None \<Rightarrow> c
      | Some (key, s1) \<Rightarrow>
         (case get_u64 s1 of (v, None) \<Rightarrow> c
          | (v, Some s2) \<Rightarrow>
             (case get_token s2 of None \<Rightarrow> c | Some (unit_name, s3) \<Rightarrow> mem_loop s3 (mem_entry key v c))))"
  by pat_completeness auto
termination
  by (relation "measure (\<lambda>(s, c). length s)") (auto dest!: get_token_shorter get_u64_shorter [OF sym])

declare mem_loop.simps [simp del]

definition ReadMemInfo :: "string option \<Rightarrow> bool \<times> MemorySample" where
  "ReadMemInfo file =
     (case file of None \<Rightarrow> (False, no_memory)
      | Some s \<Rightarrow>
          let c = mem_loop s no_counters;
              available_kb = (if mem_available_kb c = 0 then mem_free_kb c + mem_buffers_kb c + mem_cached_kb c else mem_available_kb c);
              total = mem_total_kb c * 1024; available = available_kb * 1024 in
          (0 < total,
           \<lparr>ms_total_bytes = total, ms_available_bytes = available,
            ms_used_bytes = (if available \<le> total then total - available else 0),
            ms_swap_total_bytes = mem_swap_total_kb c * 1024,
            ms_swap_used_bytes = (if mem_swap_free_kb c \<le> mem_swap_total_kb c then (mem_swap_total_kb c - mem_swap_free_kb c) * 1024 else 0)\<rparr>))"

subsection \<open>Processors\<close>

definition ParseCpuCounters :: "string \<Rightarrow> RawCpu option" where
  "ParseCpuCounters line =
     (case get_token line of None \<Rightarrow> None
      | Some (label, s) \<Rightarrow>
          if \<not> starts_with label ''cpu'' then None
          else
            let vs = get_u64s 8 s; user = vs ! 0; nice = vs ! 1; system = vs ! 2; idle = vs ! 3; iowait = vs ! 4; irq = vs ! 5;
                softirq = vs ! 6; steal = vs ! 7; idle_all = idle + iowait; non_idle = user + nice + system + irq + softirq + steal;
                total = idle_all + non_idle in
            if 0 < total then Some \<lparr>rc_idle = idle_all, rc_total = total\<rparr> else None)"

definition UsageRatio :: "RawCpu \<Rightarrow> RawCpu \<Rightarrow> float64" where
  "UsageRatio prev cur =
     (if rc_total cur \<le> rc_total prev then Fin 0
      else
        let total_d = f_of_int (uint (rc_total cur - rc_total prev)); idle_d = f_of_int (uint (rc_idle cur - rc_idle prev));
            usage = f_div (total_d - idle_d) total_d;
            usage = (if usage < Fin 0 then Fin 0 else usage) in
        if Fin 1 < usage then Fin 1 else usage)"

fun stat_loop :: "string list \<Rightarrow> RawCpu list \<Rightarrow> RawCpu list" where
  "stat_loop [] current = current"
| "stat_loop (line # lines) current =
     (if \<not> starts_with line ''cpu'' then if current \<noteq> [] then current else stat_loop lines current
      else case ParseCpuCounters line of None \<Rightarrow> stat_loop lines current
        | Some counters \<Rightarrow> stat_loop lines (current @ [counters]))"

subsection \<open>Disks\<close>

definition kSkip :: "string list" where
  "kSkip = [''proc'', ''sysfs'', ''devtmpfs'', ''devpts'', ''tmpfs'', ''cgroup'', ''cgroup2'', ''pstore'', ''bpf'', ''debugfs'',
     ''tracefs'', ''securityfs'', ''hugetlbfs'', ''mqueue'', ''fusectl'', ''configfs'', ''rpc_pipefs'', ''binfmt_misc'', ''autofs'', ''overlay'']"

definition IsInterestingFs :: "string \<Rightarrow> bool" where
  "IsInterestingFs fs \<longleftrightarrow> fs \<notin> set kSkip"

definition known_mounts :: "string list" where
  "known_mounts = [''/'', ''/home'', ''/var'', ''/data'', ''/tmp'']"

record statvfs =
  f_frsize :: u64
  f_blocks :: u64
  f_bavail :: u64

definition disk_of :: "string \<Rightarrow> string \<Rightarrow> statvfs \<Rightarrow> DiskSample" where
  "disk_of mount fs st =
     (let total = f_frsize st * f_blocks st; available = f_frsize st * f_bavail st in
      \<lparr>ds_mount_point = mount, ds_filesystem = fs, ds_total_bytes = total,
       ds_used_bytes = (if available \<le> total then total - available else 0), ds_available_bytes = available\<rparr>)"

definition skip_line :: "string \<Rightarrow> string" where
  "skip_line s = drop 1 (dropWhile (\<lambda>c. c \<noteq> CHR 0x0A) s)"

lemma skip_line_shorter: "length (skip_line s) \<le> length s"
  using length_dropWhile_le [of "\<lambda>c. c \<noteq> CHR 0x0A" s] by (simp add: skip_line_def del: length_dropWhile_le)

function mounts_loop :: "(string \<Rightarrow> statvfs option) \<Rightarrow> string \<Rightarrow> string set \<Rightarrow> DiskSample list \<Rightarrow> DiskSample list" where
  "mounts_loop vfs s seen disks =
     (case get_token s of None \<Rightarrow> disks
      | Some (device, s1) \<Rightarrow>
         (case get_token s1 of None \<Rightarrow> disks
          | Some (mount, s2) \<Rightarrow>
             (case get_token s2 of None \<Rightarrow> disks
              | Some (fs, s3) \<Rightarrow>
                  let s = skip_line s3 in
                  if \<not> IsInterestingFs fs then mounts_loop vfs s seen disks
                  else if mount \<notin> set known_mounts then mounts_loop vfs s seen disks
                  else if mount \<in> seen then mounts_loop vfs s seen disks
                  else (case vfs mount of None \<Rightarrow> mounts_loop vfs s (insert mount seen) disks
                        | Some st \<Rightarrow> mounts_loop vfs s (insert mount seen) (disks @ [disk_of mount fs st])))))"
  by pat_completeness auto
termination
proof (relation "measure (\<lambda>(vfs, s, seen, disks). length s)", goal_cases)
qed (auto dest!: get_token_shorter intro!: le_less_trans [OF skip_line_shorter])

declare mounts_loop.simps [simp del]

definition SampleDisks :: "(string \<Rightarrow> statvfs option) \<Rightarrow> string option \<Rightarrow> DiskSample list" where
  "SampleDisks vfs mounts = (case mounts of None \<Rightarrow> [] | Some s \<Rightarrow> mounts_loop vfs s {} [])"

subsection \<open>The sampler\<close>

record HostSampler =
  have_prev_cpu :: bool
  prev_total :: RawCpu
  prev_cores :: "RawCpu list"

definition new_HostSampler :: HostSampler where
  "new_HostSampler = \<lparr>have_prev_cpu = False, prev_total = \<lparr>rc_idle = 0, rc_total = 0\<rparr>, prev_cores = []\<rparr>"

record proc_files =
  pf_uptime :: float64
  pf_load1 :: float64
  pf_load5 :: float64
  pf_load15 :: float64
  pf_meminfo :: "string option"
  pf_mounts :: "string option"
  pf_statvfs :: "string \<Rightarrow> statvfs option"
  pf_stat :: "string option"

definition remember_cpu :: "RawCpu list \<Rightarrow> HostSampler \<Rightarrow> HostSampler" where
  "remember_cpu current h = h\<lparr>prev_total := hd current, prev_cores := tl current\<rparr>"

definition sample_cpu :: "string option \<Rightarrow> HostSampler \<Rightarrow> CpuSample \<times> HostSampler" where
  "sample_cpu stat h =
     (case stat of None \<Rightarrow> (no_cpu, h)
      | Some s \<Rightarrow>
          let current = stat_loop (getlines s) [] in
          if current = [] then (no_cpu, h)
          else
            let cpu = no_cpu\<lparr>cs_online_cpus := (if 1 < length current then of_nat (length current - 1) else 1)\<rparr> in
            if \<not> have_prev_cpu h \<or> length (prev_cores h) + 1 \<noteq> length current then
              (cpu, (remember_cpu current h)\<lparr>have_prev_cpu := True\<rparr>)
            else
              (cpu\<lparr>cs_usage_ratio := UsageRatio (prev_total h) (hd current),
                   cs_core_usage_ratio := map2 UsageRatio (prev_cores h) (tl current)\<rparr>, remember_cpu current h))"

definition HostSampler_Sample :: "proc_files \<Rightarrow> HostSampler \<Rightarrow> HostSample \<times> HostSampler" where
  "HostSampler_Sample p h =
     (case sample_cpu (pf_stat p) h of (cpu, h) \<Rightarrow>
      (\<lparr>hs_uptime_sec = pf_uptime p, hs_load1 = pf_load1 p, hs_load5 = pf_load5 p, hs_load15 = pf_load15 p,
        hs_cpu = cpu, hs_memory = snd (ReadMemInfo (pf_meminfo p)), hs_disks = SampleDisks (pf_statvfs p) (pf_mounts p)\<rparr>, h))"

subsection \<open>The program (main.cpp)\<close>

text \<open>The metrics are floating-point numbers here; an observation of a round has the texts, the steady clock, the Unix time of each stamp and the process id.\<close>

record HostResourceSnapshot =
  hr_header :: Header
  hr_uptime_sec :: float64
  hr_load1 :: float64
  hr_load5 :: float64
  hr_load15 :: float64
  hr_cpu :: CpuSample
  hr_memory :: MemorySample
  hr_disks :: "DiskSample list"
  hr_metrics :: "(string \<times> float64 \<times> string) list"

record HostHeartbeat = NodeHeartbeat +
  hh_metrics :: "(string \<times> float64 \<times> string) list"

definition AddMetric :: "string \<Rightarrow> float64 \<Rightarrow> string \<Rightarrow> HostResourceSnapshot \<Rightarrow> HostResourceSnapshot" where
  "AddMetric name v unit_name snap = snap\<lparr>hr_metrics := hr_metrics snap @ [(name, v, unit_name)]\<rparr>"

definition ToProto :: "HostSample \<Rightarrow> u64 \<Rightarrow> u64 \<Rightarrow> HostResourceSnapshot" where
  "ToProto sample sequence t =
     (let snap = \<lparr>hr_header = service_header ''host_monitor'' sequence t None, hr_uptime_sec = hs_uptime_sec sample, hr_load1 = hs_load1 sample,
            hr_load5 = hs_load5 sample, hr_load15 = hs_load15 sample, hr_cpu = hs_cpu sample, hr_memory = hs_memory sample,
            hr_disks = hs_disks sample, hr_metrics = []\<rparr>;
          snap = AddMetric ''cpu.usage_percent'' (cs_usage_ratio (hs_cpu sample) * Fin 100) ''percent'' snap;
          snap = (if 0 < ms_total_bytes (hs_memory sample) then
                    AddMetric ''memory.usage_percent''
                      (f_div (Fin 100 * f_of_int (uint (ms_used_bytes (hs_memory sample)))) (f_of_int (uint (ms_total_bytes (hs_memory sample)))))
                      ''percent'' snap
                  else snap) in
      AddMetric ''load.1'' (hs_load1 sample) ''load'' snap)"

definition host_BuildNodeInfo :: "u64 \<Rightarrow> u64 \<Rightarrow> u32 \<Rightarrow> u64 \<Rightarrow> NodeInfo" where
  "host_BuildNodeInfo sequence start_time p t =
     AddCapability ''host_resources''
      (AddLabel ''role'' ''host_monitor''
        (AddTopic ''/host/resources'' ''openember.msgs.host.v1.HostResourceSnapshot'' ENDPOINT_DIRECTION_PUBLISHER
          (AddTopic ''/nodes/host_monitor/heartbeat'' ''openember.msgs.node.v1.NodeHeartbeat'' ENDPOINT_DIRECTION_PUBLISHER
            (AddTopic ''/nodes/host_monitor/info'' ''openember.msgs.node.v1.NodeInfo'' ENDPOINT_DIRECTION_PUBLISHER
              ((service_node ''host_monitor'' sequence start_time p t)\<lparr>ni_kind := NODE_KIND_SERVICE\<rparr>)))))"

definition host_heartbeat :: "u64 \<Rightarrow> int \<Rightarrow> float64 \<Rightarrow> u64 \<Rightarrow> HostHeartbeat" where
  "host_heartbeat sequence uptime usage t =
     \<lparr>hb_header = service_header ''host_monitor'' sequence t None, hb_node_name = ''host_monitor'', hb_instance_id = ''host_monitor'',
      hb_lifecycle_state = LIFECYCLE_STATE_ACTIVE, hb_health = HEALTH_STATE_OK, hb_uptime_ms = of_int (uptime div 1000000), hb_error_count = 0,
      hb_status_message = ''host resources ok'', hb_metrics = [], hh_metrics = [(''cpu.usage_ratio'', usage, ''ratio'')]\<rparr>"

datatype host_message = Host_resources HostResourceSnapshot | Host_heartbeat HostHeartbeat | Host_node NodeInfo

record host_monitor =
  hmon_sampler :: HostSampler
  hmon_start :: int
  hmon_start_unix_ns :: u64
  hmon_sequence :: u64
  hmon_info_sequence :: u64
  hmon_out :: "host_message list"

record host_obs =
  ho_files :: proc_files
  ho_now :: int
  ho_unix :: u64
  ho_pid :: u32

text \<open>The start primes the counters of the sampler.\<close>

definition host_start :: "host_obs \<Rightarrow> host_monitor" where
  "host_start o0 =
     \<lparr>hmon_sampler = snd (HostSampler_Sample (ho_files o0) new_HostSampler), hmon_start = ho_now o0, hmon_start_unix_ns = ho_unix o0,
      hmon_sequence = 0, hmon_info_sequence = 0, hmon_out = []\<rparr>"

definition host_round :: "host_obs \<Rightarrow> host_monitor \<Rightarrow> host_monitor" where
  "host_round ob s =
     (case HostSampler_Sample (ho_files ob) (hmon_sampler s) of (sample, sampler) \<Rightarrow>
      let announce = (hmon_sequence s mod 10 = 0) in
      s\<lparr>hmon_sampler := sampler,
        hmon_out := hmon_out s @ [Host_resources (ToProto sample (hmon_sequence s) (ho_unix ob)),
            Host_heartbeat (host_heartbeat (hmon_sequence s) (ho_now ob - hmon_start s) (cs_usage_ratio (hs_cpu sample)) (ho_unix ob))] @
          (if announce then [Host_node (host_BuildNodeInfo (hmon_info_sequence s) (hmon_start_unix_ns s) (ho_pid ob) (ho_unix ob))] else []),
        hmon_info_sequence := (if announce then hmon_info_sequence s + 1 else hmon_info_sequence s),
        hmon_sequence := hmon_sequence s + 1\<rparr>)"

subsection \<open>Reading /proc/meminfo\<close>

text \<open>A line of the file: a key, white space, a number and a unit.\<close>

record mem_line =
  ml_key :: string
  ml_gap :: string
  ml_value :: nat
  ml_unit :: string

definition mem_line_text :: "mem_line \<Rightarrow> string" where
  "mem_line_text l = ml_key l @ ml_gap l @ to_string_nat (ml_value l) @ '' '' @ ml_unit l @ [CHR 0x0A]"

definition mem_line_ok :: "mem_line \<Rightarrow> bool" where
  "mem_line_ok l \<longleftrightarrow> word_text (ml_key l) \<and> space_text (ml_gap l) \<and> ml_value l < 2 ^ 50 \<and> word_text (ml_unit l)"

definition mem_text :: "mem_line list \<Rightarrow> string" where
  "mem_text ls = concat (map mem_line_text ls)"

text \<open>The file ends with lines without a unit (the huge pages) and what follows them.\<close>

definition unitless_text :: "mem_line \<Rightarrow> string" where
  "unitless_text l = ml_key l @ ml_gap l @ to_string_nat (ml_value l) @ [CHR 0x0A]"

definition seven_keys :: "string list" where
  "seven_keys = [''MemTotal:'', ''MemAvailable:'', ''MemFree:'', ''Buffers:'', ''Cached:'', ''SwapTotal:'', ''SwapFree:'']"

text \<open>The last value of a key, in kibibytes, or zero.\<close>

definition kb :: "mem_line list \<Rightarrow> string \<Rightarrow> nat" where
  "kb ls key = (case filter (\<lambda>l. ml_key l = key) (rev ls) of [] \<Rightarrow> 0 | l # _ \<Rightarrow> ml_value l)"

lemma space_text_hd: "space_text w \<Longrightarrow> is_space (hd (w @ r)) \<and> list_all is_space w"
  by (cases w) (auto simp: space_text_def)

lemma blank_is_space [simp]: "is_space CHR '' ''" "is_space CHR 0x0A"
  by (simp_all add: is_space_def)

lemma mem_loop_line:
  assumes "mem_line_ok l" "list_all is_space gap"
  shows "mem_loop (gap @ mem_line_text l @ r) c = mem_loop (CHR 0x0A # r) (mem_entry (ml_key l) (of_nat (ml_value l)) c)"
proof -
  have l: "word_text (ml_key l)" "list_all is_space (ml_gap l)" "is_space (hd (ml_gap l @ x))" "ml_value l < 2 ^ 64" "word_text (ml_unit l)" for x
    using assms(1) space_text_hd [of "ml_gap l"] by (auto simp: mem_line_ok_def)
  have key: "get_token (gap @ ml_key l @ (ml_gap l @ to_string_nat (ml_value l) @ '' '' @ ml_unit l @ CHR 0x0A # r)) =
      Some (ml_key l, ml_gap l @ to_string_nat (ml_value l) @ '' '' @ ml_unit l @ CHR 0x0A # r)"
    by (rule get_token_word) (use l assms(2) in auto)
  have num: "get_u64 (ml_gap l @ to_string_nat (ml_value l) @ ('' '' @ ml_unit l @ CHR 0x0A # r)) =
      (of_nat (ml_value l), Some ('' '' @ ml_unit l @ CHR 0x0A # r))"
    by (rule get_u64_number) (use l in auto)
  have un: "get_token ('' '' @ ml_unit l @ (CHR 0x0A # r)) = Some (ml_unit l, CHR 0x0A # r)"
    by (rule get_token_word) (use l in auto)
  have "gap @ mem_line_text l @ r = gap @ ml_key l @ (ml_gap l @ to_string_nat (ml_value l) @ '' '' @ ml_unit l @ CHR 0x0A # r)"
    by (simp add: mem_line_text_def)
  then show ?thesis
    by (subst mem_loop.simps) (simp only: key num un option.case prod.case)
qed

lemma mem_loop_gap: "list_all is_space gap \<Longrightarrow> mem_loop (gap @ s) c = mem_loop s c"
proof -
  assume "list_all is_space gap"
  then have "dropWhile is_space (gap @ s) = dropWhile is_space s" by (induction gap) auto
  then show ?thesis by (subst (1 2) mem_loop.simps) (simp only: get_token_def)
qed

lemma mem_loop_text:
  "list_all mem_line_ok ls \<Longrightarrow>
   mem_loop (mem_text ls @ r) c = mem_loop r (fold (\<lambda>l. mem_entry (ml_key l) (of_nat (ml_value l))) ls c)"
proof (induction ls arbitrary: c)
  case (Cons l ls)
  have "mem_loop (mem_line_text l @ mem_text ls @ r) c = mem_loop (mem_text ls @ r) (mem_entry (ml_key l) (of_nat (ml_value l)) c)"
    using mem_loop_line [of l "[]" "mem_text ls @ r" c] mem_loop_gap [of "[CHR 0x0A]" "mem_text ls @ r"] Cons.prems by simp
  with Cons show ?case by (simp add: mem_text_def)
qed (simp add: mem_text_def)

text \<open>Two lines without a unit end the reading: the second key is taken for a unit.\<close>

lemma mem_loop_unitless:
  assumes "mem_line_ok a" "mem_line_ok b" "ml_key a \<notin> set seven_keys" "r = [] \<or> \<not> is_digit (hd r) \<and> \<not> is_space (hd r) \<and> hd r \<notin> {CHR ''+'', CHR ''-''}"
  shows "mem_loop (unitless_text a @ unitless_text b @ r) c = c"
proof -
  have a: "word_text (ml_key a)" "list_all is_space (ml_gap a)" "is_space (hd (ml_gap a @ x))" "ml_value a < 2 ^ 64" for x
    using assms(1) space_text_hd [of "ml_gap a"] by (auto simp: mem_line_ok_def)
  have b: "word_text (ml_key b)" "list_all is_space (ml_gap b)" "is_space (hd (ml_gap b @ x))" for x
    using assms(2) space_text_hd [of "ml_gap b"] by (auto simp: mem_line_ok_def)
  let ?b = "ml_gap b @ to_string_nat (ml_value b) @ CHR 0x0A # r"
  have key: "get_token ([] @ ml_key a @ (ml_gap a @ to_string_nat (ml_value a) @ [CHR 0x0A] @ ml_key b @ ?b)) =
      Some (ml_key a, ml_gap a @ to_string_nat (ml_value a) @ [CHR 0x0A] @ ml_key b @ ?b)"
    by (rule get_token_word) (use a in auto)
  have num: "get_u64 (ml_gap a @ to_string_nat (ml_value a) @ ([CHR 0x0A] @ ml_key b @ ?b)) = (of_nat (ml_value a), Some ([CHR 0x0A] @ ml_key b @ ?b))"
    by (rule get_u64_number) (use a in auto)
  have un: "get_token ([CHR 0x0A] @ ml_key b @ ?b) = Some (ml_key b, ?b)"
    by (rule get_token_word) (use b in auto)
  have "word_text (to_string_nat (ml_value b))"
    using to_string_nat_digits digit_not_sign by (auto simp: word_text_def list_all_iff)
  then have val: "get_token (ml_gap b @ to_string_nat (ml_value b) @ (CHR 0x0A # r)) = Some (to_string_nat (ml_value b), CHR 0x0A # r)"
    by (intro get_token_word) (use b in auto)
  have stop: "get_u64 (CHR 0x0A # r) = (0, None)"
    using assms(4) by (cases r) (auto simp: get_u64_def Let_def)
  have other: "mem_entry (ml_key a) v c = c" for v
    using assms(3) by (auto simp: mem_entry_def seven_keys_def)
  have whole: "unitless_text a @ unitless_text b @ r = [] @ ml_key a @ (ml_gap a @ to_string_nat (ml_value a) @ [CHR 0x0A] @ ml_key b @ ?b)"
    by (simp add: unitless_text_def)
  have last: "mem_loop ?b c = c" for c
    by (subst mem_loop.simps) (simp only: val stop option.case prod.case)
  show ?thesis unfolding whole
    by (subst mem_loop.simps) (simp only: key num un option.case prod.case other last)
qed

lemma kb_snoc: "kb (ls @ [l]) key = (if ml_key l = key then ml_value l else kb ls key)"
  by (simp add: kb_def)

lemma kb_bound: "list_all mem_line_ok ls \<Longrightarrow> kb ls key < 2 ^ 50"
  by (induction ls rule: rev_induct) (auto simp: kb_snoc mem_line_ok_def, simp add: kb_def)

lemma mem_fold_kb:
  "fold (\<lambda>l. mem_entry (ml_key l) (of_nat (ml_value l))) ls no_counters =
   \<lparr>mem_total_kb = of_nat (kb ls ''MemTotal:''), mem_available_kb = of_nat (kb ls ''MemAvailable:''), mem_free_kb = of_nat (kb ls ''MemFree:''),
    mem_buffers_kb = of_nat (kb ls ''Buffers:''), mem_cached_kb = of_nat (kb ls ''Cached:''), mem_swap_total_kb = of_nat (kb ls ''SwapTotal:''),
    mem_swap_free_kb = of_nat (kb ls ''SwapFree:'')\<rparr>"
proof (induction ls rule: rev_induct)
  case (snoc l ls)
  then show ?case by (simp add: kb_snoc mem_entry_def)
qed (simp add: kb_def no_counters_def)

lemma unat_of_nat_u64 [simp]: "n < 2 ^ 64 \<Longrightarrow> unat (of_nat n :: u64) = n"
  by (simp add: unat_of_nat take_bit_nat_eq_self_iff)

text \<open>Numbers of kibibytes below \<open>2 ^ 52\<close> do not wrap.\<close>

lemma kib_times: "n < 2 ^ 52 \<Longrightarrow> unat ((of_nat n :: u64) * 1024) = 1024 * n"
proof -
  assume "n < 2 ^ 52"
  moreover have "(of_nat n :: u64) * 1024 = of_nat (1024 * n)" by simp
  ultimately show ?thesis by (simp only:) (rule unat_of_nat_u64, simp)
qed

lemma kib_minus:
  assumes "m < 2 ^ 52" "n < 2 ^ 52"
  shows "unat (if (of_nat m :: u64) * 1024 \<le> of_nat n * 1024 then (of_nat n :: u64) * 1024 - of_nat m * 1024 else 0) = 1024 * (n - m)"
    and "unat (if (of_nat m :: u64) \<le> of_nat n then ((of_nat n :: u64) - of_nat m) * 1024 else 0) = 1024 * (n - m)"
proof -
  have small: "m < 2 ^ 64" "n < 2 ^ 64" using assms by simp_all
  have le: "(of_nat m :: u64) * 1024 \<le> of_nat n * 1024 \<longleftrightarrow> m \<le> n" "(of_nat m :: u64) \<le> of_nat n \<longleftrightarrow> m \<le> n"
    by (simp_all only: word_le_nat_alt kib_times [OF assms(1)] kib_times [OF assms(2)] unat_of_nat_u64 [OF small(1)] unat_of_nat_u64 [OF small(2)]) simp
  have diff: "(of_nat n :: u64) * 1024 - of_nat m * 1024 = of_nat (n - m) * 1024" "((of_nat n :: u64) - of_nat m) * 1024 = of_nat (n - m) * 1024"
    if "m \<le> n" using that by (simp_all add: of_nat_diff left_diff_distrib)
  have result: "unat ((of_nat (n - m) :: u64) * 1024) = 1024 * (n - m)" using assms by (intro kib_times) simp
  show "unat (if (of_nat m :: u64) * 1024 \<le> of_nat n * 1024 then (of_nat n :: u64) * 1024 - of_nat m * 1024 else 0) = 1024 * (n - m)"
    "unat (if (of_nat m :: u64) \<le> of_nat n then ((of_nat n :: u64) - of_nat m) * 1024 else 0) = 1024 * (n - m)"
    by (cases "m \<le> n"; simp only: le diff result if_True if_False unat_0; simp)+
qed

text \<open>The memory sample taken from a /proc/meminfo whose lines have units holds 1024 times the value of each last line for a key, with
  the free, buffered and cached memory standing in for an available memory that is missing or zero, and uses computed without
  underflow; lines after the first ones without a unit, such as those of the huge pages, are not read at all.
\<close>

theorem meminfo_read_back:
  assumes lines: "list_all mem_line_ok (a # b # ls)" and key: "ml_key a \<notin> set seven_keys"
    and remains: "remains = [] \<or> \<not> is_digit (hd remains) \<and> \<not> is_space (hd remains) \<and> hd remains \<notin> {CHR ''+'', CHR ''-''}"
    and m: "ReadMemInfo (Some (mem_text ls @ unitless_text a @ unitless_text b @ remains)) = (ok, m)"
    and available: "available = (if kb ls ''MemAvailable:'' = 0 then kb ls ''MemFree:'' + kb ls ''Buffers:'' + kb ls ''Cached:'' else kb ls ''MemAvailable:'')"
  shows "unat (ms_total_bytes m) = 1024 * kb ls ''MemTotal:'' \<and> unat (ms_available_bytes m) = 1024 * available \<and>
    unat (ms_used_bytes m) = 1024 * (kb ls ''MemTotal:'' - available) \<and> unat (ms_swap_total_bytes m) = 1024 * kb ls ''SwapTotal:'' \<and>
    unat (ms_swap_used_bytes m) = 1024 * (kb ls ''SwapTotal:'' - kb ls ''SwapFree:'') \<and> ok = (0 < kb ls ''MemTotal:'')"
proof -
  have ok: "list_all mem_line_ok ls" "mem_line_ok a" "mem_line_ok b" using lines by simp_all
  have bound: "kb ls k < 2 ^ 50" for k by (rule kb_bound [OF ok(1)])
  have small: "kb ls k < 2 ^ 52" "kb ls k < 2 ^ 64" for k using bound [of k] by simp_all
  have av: "available < 2 ^ 52" using available bound [of "''MemAvailable:''"] bound [of "''MemFree:''"] bound [of "''Buffers:''"] bound [of "''Cached:''"]
    by (simp split: if_splits)
  have zero: "(of_nat (kb ls k) :: u64) = 0 \<longleftrightarrow> kb ls k = 0" for k
    by (simp only: unat_of_nat_u64 [OF small(2)] flip: unat_0_iff)
  have loop: "mem_loop (mem_text ls @ unitless_text a @ unitless_text b @ remains) no_counters =
      \<lparr>mem_total_kb = of_nat (kb ls ''MemTotal:''), mem_available_kb = of_nat (kb ls ''MemAvailable:''), mem_free_kb = of_nat (kb ls ''MemFree:''),
       mem_buffers_kb = of_nat (kb ls ''Buffers:''), mem_cached_kb = of_nat (kb ls ''Cached:''), mem_swap_total_kb = of_nat (kb ls ''SwapTotal:''),
       mem_swap_free_kb = of_nat (kb ls ''SwapFree:'')\<rparr>"
    by (simp only: mem_loop_text [OF ok(1)] mem_loop_unitless [OF ok(2,3) key remains] mem_fold_kb)
  have avail: "(if (of_nat (kb ls ''MemAvailable:'') :: u64) = 0
      then of_nat (kb ls ''MemFree:'') + of_nat (kb ls ''Buffers:'') + of_nat (kb ls ''Cached:'') else of_nat (kb ls ''MemAvailable:'')) = of_nat available"
    by (simp add: zero available)
  have result: "ok = (0 < (of_nat (kb ls ''MemTotal:'') :: u64) * 1024)" "m = \<lparr>ms_total_bytes = of_nat (kb ls ''MemTotal:'') * 1024, ms_available_bytes = of_nat available * 1024,
      ms_used_bytes = (if (of_nat available :: u64) * 1024 \<le> of_nat (kb ls ''MemTotal:'') * 1024 then of_nat (kb ls ''MemTotal:'') * 1024 - of_nat available * 1024 else 0),
      ms_swap_total_bytes = of_nat (kb ls ''SwapTotal:'') * 1024,
      ms_swap_used_bytes = (if (of_nat (kb ls ''SwapFree:'') :: u64) \<le> of_nat (kb ls ''SwapTotal:'') then (of_nat (kb ls ''SwapTotal:'') - of_nat (kb ls ''SwapFree:'')) * 1024 else 0)\<rparr>"
    using m by (simp_all only: ReadMemInfo_def option.case loop mem_counters.select_convs Let_def avail prod.inject)
  have "ok = (0 < kb ls ''MemTotal:'')"
    using kib_times [OF small(1), of "''MemTotal:''"] by (simp only: result(1) word_less_nat_alt unat_0) simp
  then show ?thesis
    by (simp only: result(2) MemorySample.select_convs kib_times [OF small(1)] kib_times [OF av] kib_minus [OF av small(1)] kib_minus(2) [OF small(1) small(1)] simp_thms)
qed

definition demo_meminfo :: "mem_line list" where
  "demo_meminfo = [\<lparr>ml_key = ''MemTotal:'', ml_gap = ''  '', ml_value = 8000, ml_unit = ''kB''\<rparr>, \<lparr>ml_key = ''MemFree:'', ml_gap = '' '', ml_value = 1000, ml_unit = ''kB''\<rparr>,
     \<lparr>ml_key = ''Cached:'', ml_gap = '' '', ml_value = 2000, ml_unit = ''kB''\<rparr>]"

definition demo_huge :: "string \<Rightarrow> mem_line" where
  "demo_huge key = \<lparr>ml_key = key, ml_gap = '' '', ml_value = 0, ml_unit = ''kB''\<rparr>"

theorem meminfo_read_back_witness:
  "unat (ms_used_bytes (snd (ReadMemInfo (Some (mem_text demo_meminfo @ unitless_text (demo_huge ''HugePages_Total:'') @
     unitless_text (demo_huge ''HugePages_Free:'') @ ''DirectMap4k: 7 kB''))))) = 5120000"
proof -
  have ok: "list_all mem_line_ok (demo_huge ''HugePages_Total:'' # demo_huge ''HugePages_Free:'' # demo_meminfo)"
    by (simp add: mem_line_ok_def demo_huge_def demo_meminfo_def word_text_def space_text_def is_space_def)
  have kbs: "kb demo_meminfo ''MemTotal:'' = 8000" "kb demo_meminfo ''MemAvailable:'' = 0" "kb demo_meminfo ''MemFree:'' = 1000"
      "kb demo_meminfo ''Buffers:'' = 0" "kb demo_meminfo ''Cached:'' = 2000"
    by (simp_all add: kb_def demo_meminfo_def)
  obtain r m where m: "ReadMemInfo (Some (mem_text demo_meminfo @ unitless_text (demo_huge ''HugePages_Total:'') @
      unitless_text (demo_huge ''HugePages_Free:'') @ ''DirectMap4k: 7 kB'')) = (r, m)"
    by (rule prod.exhaust)
  have "unat (ms_used_bytes m) = 1024 * (kb demo_meminfo ''MemTotal:'' - 3000)"
    using meminfo_read_back [OF ok _ _ m, of 3000] by (simp add: kbs demo_huge_def seven_keys_def is_digit_code is_space_def)
  then show ?thesis by (simp add: m kbs)
qed

subsection \<open>Disks\<close>

text \<open>A line of /proc/mounts: the device, where it is mounted, the file system, and the rest.\<close>

type_synonym mount_line = "string \<times> string \<times> string \<times> string"

definition mount_line_text :: "mount_line \<Rightarrow> string" where
  "mount_line_text l = (case l of (dev, mount, fs, rest) \<Rightarrow> dev @ '' '' @ mount @ '' '' @ fs @ '' '' @ rest @ [CHR 0x0A])"

fun mount_line_ok :: "mount_line \<Rightarrow> bool" where
  "mount_line_ok (dev, mount, fs, rest) \<longleftrightarrow> word_text dev \<and> word_text mount \<and> word_text fs \<and> CHR 0x0A \<notin> set rest"

definition mounts_text :: "mount_line list \<Rightarrow> string" where
  "mounts_text ls = concat (map mount_line_text ls)"

definition line_mount :: "mount_line \<Rightarrow> string" where "line_mount l = fst (snd l)"
definition line_fs :: "mount_line \<Rightarrow> string" where "line_fs l = fst (snd (snd l))"

definition relevant :: "mount_line \<Rightarrow> bool" where
  "relevant l \<longleftrightarrow> IsInterestingFs (line_fs l) \<and> line_mount l \<in> set known_mounts"

text \<open>The first relevant lines of their mount points, apart from those in \<open>seen\<close>.\<close>

fun first_lines :: "string set \<Rightarrow> mount_line list \<Rightarrow> mount_line list" where
  "first_lines seen [] = []"
| "first_lines seen (l # ls) =
     (if relevant l \<and> line_mount l \<notin> seen then l # first_lines (insert (line_mount l) seen) ls else first_lines seen ls)"

definition line_disk :: "(string \<Rightarrow> statvfs option) \<Rightarrow> mount_line \<Rightarrow> DiskSample list" where
  "line_disk vfs l = (case vfs (line_mount l) of None \<Rightarrow> [] | Some st \<Rightarrow> [disk_of (line_mount l) (line_fs l) st])"

lemma skip_line_text: "CHR 0x0A \<notin> set rest \<Longrightarrow> skip_line ('' '' @ rest @ CHR 0x0A # r) = r"
proof -
  assume "CHR 0x0A \<notin> set rest"
  then have "list_all (\<lambda>c. c \<noteq> CHR 0x0A) ('' '' @ rest)" by (auto simp: list_all_iff)
  from dropWhile_all [OF this, of "CHR 0x0A # r"] show ?thesis by (simp add: skip_line_def)
qed

lemma mounts_loop_line:
  assumes "mount_line_ok l"
  shows "mounts_loop vfs (mount_line_text l @ r) seen disks =
    (if relevant l \<and> line_mount l \<notin> seen then mounts_loop vfs r (insert (line_mount l) seen) (disks @ line_disk vfs l) else mounts_loop vfs r seen disks)"
proof -
  obtain dev mount fs rest where l: "l = (dev, mount, fs, rest)" by (cases l)
  have ok: "word_text dev" "word_text mount" "word_text fs" "CHR 0x0A \<notin> set rest" using assms by (simp_all add: l)
  let ?s3 = "'' '' @ rest @ CHR 0x0A # r"
  have dev: "get_token ([] @ dev @ ('' '' @ mount @ '' '' @ fs @ ?s3)) = Some (dev, '' '' @ mount @ '' '' @ fs @ ?s3)"
    by (rule get_token_word) (use ok in auto)
  have mount: "get_token ('' '' @ mount @ ('' '' @ fs @ ?s3)) = Some (mount, '' '' @ fs @ ?s3)"
    by (rule get_token_word) (use ok in auto)
  have fs: "get_token ('' '' @ fs @ ?s3) = Some (fs, ?s3)"
    by (rule get_token_word) (use ok in auto)
  have whole: "mount_line_text l @ r = [] @ dev @ ('' '' @ mount @ '' '' @ fs @ ?s3)" by (simp add: mount_line_text_def l)
  show ?thesis
    unfolding whole by (subst mounts_loop.simps)
      (simp add: dev [simplified] mount [simplified] fs [simplified] skip_line_text [OF ok(4), simplified] Let_def relevant_def line_mount_def line_fs_def line_disk_def l
        split: option.split)
qed

lemma mounts_loop_text:
  "list_all mount_line_ok ls \<Longrightarrow> mounts_loop vfs (mounts_text ls) seen disks = disks @ concat (map (line_disk vfs) (first_lines seen ls))"
proof (induction ls arbitrary: seen disks)
  case Nil
  then show ?case by (simp add: mounts_text_def) (subst mounts_loop.simps, simp add: get_token_def)
next
  case (Cons l ls)
  then show ?case using mounts_loop_line [of l vfs "mounts_text ls" seen disks] by (simp add: mounts_text_def)
qed

lemma first_lines_iff:
  "l \<in> set (first_lines seen ls) \<longleftrightarrow>
   (\<exists>before after. ls = before @ l # after \<and> relevant l \<and> line_mount l \<notin> seen \<and> (\<forall>k\<in>set before. \<not> (relevant k \<and> line_mount k = line_mount l)))"
proof (induction ls arbitrary: seen)
  case (Cons k ls)
  have step: "(\<exists>before after. k # ls = before @ l # after \<and> P before) \<longleftrightarrow> k = l \<and> P [] \<or> (\<exists>before after. ls = before @ l # after \<and> P (k # before))" for P
    by (auto simp: Cons_eq_append_conv)
  show ?case
    by (subst step) (auto simp: Cons.IH)
qed simp

lemma first_lines_distinct: "distinct (map line_mount (first_lines seen ls)) \<and> (\<forall>l\<in>set (first_lines seen ls). line_mount l \<notin> seen)"
proof (induction ls arbitrary: seen)
  case (Cons l ls)
  show ?case using Cons.IH [of seen] Cons.IH [of "insert (line_mount l) seen"] by (auto simp del: split_paired_All)
qed simp

lemma line_disk_iff: "d \<in> set (line_disk vfs l) \<longleftrightarrow> (\<exists>st. vfs (line_mount l) = Some st \<and> d = disk_of (line_mount l) (line_fs l) st)"
  by (cases "vfs (line_mount l)") (simp_all add: line_disk_def)

lemma first_lines_ex:
  "(\<exists>l\<in>set (first_lines {} ls). P l) \<longleftrightarrow>
   (\<exists>before l after. ls = before @ l # after \<and> IsInterestingFs (line_fs l) \<and> line_mount l \<in> set known_mounts \<and>
      (\<forall>k\<in>set before. \<not> (IsInterestingFs (line_fs k) \<and> line_mount k = line_mount l)) \<and> P l)"
proof -
  have "relevant l \<and> line_mount l \<notin> {} \<and> (\<forall>k\<in>set before. \<not> (relevant k \<and> line_mount k = line_mount l)) \<longleftrightarrow>
      IsInterestingFs (line_fs l) \<and> line_mount l \<in> set known_mounts \<and> (\<forall>k\<in>set before. \<not> (IsInterestingFs (line_fs k) \<and> line_mount k = line_mount l))"
    for l before by (auto simp: relevant_def simp del: split_paired_All)
  then show ?thesis by (simp only: Bex_def first_lines_iff) blast
qed

lemma line_disks_sublist: "map ds_mount_point (concat (map (line_disk vfs) ls)) = filter (\<lambda>m. vfs m \<noteq> None) (map line_mount ls)"
  by (induction ls) (auto simp: line_disk_def disk_of_def Let_def split: option.splits)

text \<open>The disks of a sample are those of the five known mount points, each at most once and with the file system of its first
  line in /proc/mounts that is not of a skipped kind; a mount point is missing exactly if there is no such line or \<^verbatim>\<open>statvfs\<close>
  fails on it. What is used and what is available never exceed the total.
\<close>

theorem sampled_disks_exact:
  assumes "list_all mount_line_ok ls"
  shows "(d \<in> set (SampleDisks vfs (Some (mounts_text ls)))) =
      (\<exists>before l after. ls = before @ l # after \<and> IsInterestingFs (line_fs l) \<and> line_mount l \<in> set known_mounts \<and>
         (\<forall>k\<in>set before. \<not> (IsInterestingFs (line_fs k) \<and> line_mount k = line_mount l)) \<and>
         (\<exists>st. vfs (line_mount l) = Some st \<and> d = disk_of (line_mount l) (line_fs l) st)) \<and>
    distinct (map ds_mount_point (SampleDisks vfs (Some (mounts_text ls)))) \<and>
    unat (ds_used_bytes (disk_of m fs st)) \<le> unat (ds_total_bytes (disk_of m fs st)) \<and>
    (ds_available_bytes (disk_of m fs st) \<le> ds_total_bytes (disk_of m fs st) \<longrightarrow>
       unat (ds_used_bytes (disk_of m fs st)) + unat (ds_available_bytes (disk_of m fs st)) = unat (ds_total_bytes (disk_of m fs st)))"
proof -
  have disks: "SampleDisks vfs (Some (mounts_text ls)) = concat (map (line_disk vfs) (first_lines {} ls))"
    using mounts_loop_text [OF assms] by (simp add: SampleDisks_def)
  have "d \<in> set (concat (map (line_disk vfs) ks)) \<longleftrightarrow> (\<exists>l\<in>set ks. \<exists>st. vfs (line_mount l) = Some st \<and> d = disk_of (line_mount l) (line_fs l) st)" for ks
    by (simp add: line_disk_iff)
  then have char: "d \<in> set (SampleDisks vfs (Some (mounts_text ls))) \<longleftrightarrow>
      (\<exists>before l after. ls = before @ l # after \<and> IsInterestingFs (line_fs l) \<and> line_mount l \<in> set known_mounts \<and>
         (\<forall>k\<in>set before. \<not> (IsInterestingFs (line_fs k) \<and> line_mount k = line_mount l)) \<and>
         (\<exists>st. vfs (line_mount l) = Some st \<and> d = disk_of (line_mount l) (line_fs l) st))"
    by (simp only: disks first_lines_ex)
  have "distinct (map ds_mount_point (SampleDisks vfs (Some (mounts_text ls))))"
    using first_lines_distinct [of "{}" ls] by (simp only: disks line_disks_sublist distinct_filter)
  moreover have "unat (t - a) \<le> unat t \<and> unat (t - a) + unat a = unat t" if "a \<le> t" for a t :: u64
    using that by (simp add: unat_sub word_le_nat_alt)
  ultimately show ?thesis
    by (simp only: char) (simp add: disk_of_def Let_def)
qed

definition demo_vfs :: "string \<Rightarrow> statvfs option" where
  "demo_vfs m = (if m = ''/'' then Some \<lparr>f_frsize = 4096, f_blocks = 100, f_bavail = 25\<rparr> else None)"

theorem sampled_disks_exact_witness:
  "map ds_used_bytes (SampleDisks demo_vfs (Some (mounts_text [(''proc'', ''/proc'', ''proc'', ''rw''), (''none'', ''/'', ''overlay'', ''rw''), (''sda1'', ''/'', ''ext4'', ''rw''),
     (''sda2'', ''/home'', ''ext4'', ''rw'')]))) = [307200] \<and>
   \<lparr>ds_mount_point = ''/'', ds_filesystem = ''ext4'', ds_total_bytes = 409600, ds_used_bytes = 307200, ds_available_bytes = 102400\<rparr> \<in>
   set (SampleDisks demo_vfs (Some (mounts_text [(''sda1'', ''/'', ''ext4'', ''rw'')])))"
proof -
  have "list_all mount_line_ok [(''sda1'', ''/'', ''ext4'', ''rw'')]" by code_simp
  note exact = sampled_disks_exact [OF this, of _ demo_vfs, THEN conjunct1]
  have "\<lparr>ds_mount_point = ''/'', ds_filesystem = ''ext4'', ds_total_bytes = 409600, ds_used_bytes = 307200, ds_available_bytes = 102400\<rparr> \<in>
      set (SampleDisks demo_vfs (Some (mounts_text [(''sda1'', ''/'', ''ext4'', ''rw'')])))"
    unfolding exact
    by (rule exI [of _ "[]"], rule exI [of _ "(''sda1'', ''/'', ''ext4'', ''rw'')"], rule exI [of _ "[]"])
      (simp add: line_fs_def line_mount_def IsInterestingFs_def kSkip_def known_mounts_def demo_vfs_def disk_of_def Let_def)
  moreover have "map ds_used_bytes (SampleDisks demo_vfs (Some (mounts_text [(''proc'', ''/proc'', ''proc'', ''rw''), (''none'', ''/'', ''overlay'', ''rw''),
      (''sda1'', ''/'', ''ext4'', ''rw''), (''sda2'', ''/home'', ''ext4'', ''rw'')]))) = [307200]"
    by code_simp
  ultimately show ?thesis by simp
qed

subsection \<open>Processor usage\<close>

definition cpu_reading :: "string option \<Rightarrow> RawCpu list" where
  "cpu_reading stat = (case stat of None \<Rightarrow> [] | Some s \<Rightarrow> stat_loop (getlines s) [])"

text \<open>What a sample should say between two readings, the aggregate first in each.\<close>

definition cpu_between :: "RawCpu list \<Rightarrow> RawCpu list \<Rightarrow> CpuSample" where
  "cpu_between before now =
     (if now = [] then no_cpu
      else \<lparr>cs_usage_ratio = (if length before = length now then UsageRatio (hd before) (hd now) else Fin 0),
            cs_online_cpus = (if 1 < length now then of_nat (length now - 1) else 1),
            cs_core_usage_ratio = (if length before = length now then map2 UsageRatio (tl before) (tl now) else [])\<rparr>)"

definition last_reading :: "proc_files list \<Rightarrow> RawCpu list" where
  "last_reading ps = foldl (\<lambda>before p. if cpu_reading (pf_stat p) = [] then before else cpu_reading (pf_stat p)) [] ps"

fun sample_run :: "proc_files list \<Rightarrow> HostSampler \<Rightarrow> HostSample list" where
  "sample_run [] h = []"
| "sample_run (p # ps) h = (case HostSampler_Sample p h of (sample, h) \<Rightarrow> sample # sample_run ps h)"

definition sampler_holds :: "RawCpu list \<Rightarrow> HostSampler \<Rightarrow> bool" where
  "sampler_holds before h \<longleftrightarrow> have_prev_cpu h = (before \<noteq> []) \<and> (before \<noteq> [] \<longrightarrow> prev_total h = hd before \<and> prev_cores h = tl before)"

lemma sample_cpu_step:
  assumes "sampler_holds before h"
  shows "fst (sample_cpu stat h) = cpu_between before (cpu_reading stat) \<and>
    sampler_holds (if cpu_reading stat = [] then before else cpu_reading stat) (snd (sample_cpu stat h))"
proof (cases "cpu_reading stat")
  case Nil
  then show ?thesis using assms by (auto simp: sample_cpu_def cpu_reading_def cpu_between_def Let_def split: option.splits)
next
  case (Cons c cs)
  then obtain s where s: "stat = Some s" "stat_loop (getlines s) [] = c # cs" by (cases stat) (auto simp: cpu_reading_def)
  show ?thesis
  proof (cases before)
    case Nil
    then show ?thesis using assms by (simp add: sample_cpu_def s cpu_reading_def cpu_between_def sampler_holds_def Let_def remember_cpu_def no_cpu_def)
  next
    case (Cons b bs)
    then show ?thesis using assms
      by (simp add: sample_cpu_def s cpu_reading_def cpu_between_def sampler_holds_def Let_def remember_cpu_def no_cpu_def)
  qed
qed

lemma sample_run_cpu:
  "sampler_holds before h \<Longrightarrow> i < length ps \<Longrightarrow>
   hs_cpu (sample_run ps h ! i) =
   cpu_between (foldl (\<lambda>before p. if cpu_reading (pf_stat p) = [] then before else cpu_reading (pf_stat p)) before (take i ps)) (cpu_reading (pf_stat (ps ! i)))"
proof (induction ps arbitrary: i h before)
  case (Cons p ps)
  obtain cpu h' where c: "sample_cpu (pf_stat p) h = (cpu, h')" by (rule prod.exhaust)
  from sample_cpu_step [OF Cons.prems(1), of "pf_stat p"] c have first: "cpu = cpu_between before (cpu_reading (pf_stat p))"
    and later: "sampler_holds (if cpu_reading (pf_stat p) = [] then before else cpu_reading (pf_stat p)) h'" by simp_all
  show ?case
  proof (cases i)
    case 0
    then show ?thesis by (simp add: HostSampler_Sample_def c first)
  next
    case (Suc j)
    then show ?thesis using Cons.IH [OF later, of j] Cons.prems(2) by (simp add: HostSampler_Sample_def c)
  qed
qed simp

subsection \<open>Ratios\<close>

lemma round64_not_NaN: "round64 x \<noteq> NaN"
  by (simp add: round64_def Let_def)

lemma f_of_u64:
  assumes "0 < n" "n < 2 ^ 64"
  shows "\<exists>y. f_of_int n = Fin y \<and> 0 < y \<and> of_int (n div 4096 * 4096) \<le> y \<and> y \<le> 2 ^ 64"
proof -
  have p: "pow2 (- (- 12)) = (4096 :: rat)" "pow2 (52 - (- 12)) = (18446744073709551616 :: rat)" by (simp_all add: pow2_def)
  have "n div 4096 * 4096 \<le> n" "n \<le> 2 ^ 52 * 4096" "\<bar>n\<bar> \<le> 18446744073709551616" using assms by simp_all
  then have "of_int (n div 4096) * pow2 (- (- 12)) \<le> (of_int n :: rat)" "(of_int n :: rat) \<le> of_int (2 ^ 52) * pow2 (- (- 12))"
    "\<bar>of_int n :: rat\<bar> \<le> pow2 (52 - (- 12))"
    unfolding p by (simp_all only: of_int_le_iff flip: of_int_mult of_int_abs of_int_numeral [where 'a = rat])
  from round64_bounds [OF this] have "\<exists>y. round64 (of_int n) = Fin y \<and> of_int (n div 4096) * 4096 \<le> y \<and> y \<le> of_int (2 ^ 52) * (4096 :: rat)"
    unfolding p by simp
  then obtain y where y: "round64 (of_int n) = Fin y" "of_int (n div 4096) * 4096 \<le> y" "y \<le> of_int (2 ^ 52) * (4096 :: rat)" by blast
  have "0 < y"
  proof (cases "n \<le> 2 ^ 52")
    case True
    then show ?thesis using assms round64_int [of n] y(1) by simp
  next
    case False
    then have "1 \<le> n div 4096" using zdiv_mono1 [of 4096 n 4096] by simp
    then have "(1 :: rat) \<le> of_int (n div 4096)" by simp
    with y(2) show ?thesis by linarith
  qed
  with y show ?thesis by (simp add: f_of_int_def)
qed

lemma f_sub_ints: "\<bar>a - b\<bar> \<le> 2 ^ 52 \<Longrightarrow> Fin (of_int a) - Fin (of_int b) = Fin (of_int (a - b))"
  using round64_int [of "a - b"] by (simp add: minus_float64_def)

lemma UsageRatio_bounds: "Fin 0 \<le> UsageRatio prev cur \<and> UsageRatio prev cur \<le> Fin 1"
proof (cases "rc_total cur \<le> rc_total prev")
  case True
  then show ?thesis by (simp add: UsageRatio_def)
next
  case False
  let ?t = "uint (rc_total cur - rc_total prev)" let ?i = "uint (rc_idle cur - rc_idle prev)"
  have "rc_total cur - rc_total prev \<noteq> 0" using False by auto
  then have "0 < ?t" "?t < 2 ^ 64" using uint_ge_0 [of "rc_total cur - rc_total prev"] uint_lt2p [of "rc_total cur - rc_total prev"]
    by (auto simp: less_le uint_0_iff)
  from f_of_u64 [OF this] obtain t where t: "f_of_int ?t = Fin t" "0 < t" by auto
  have "\<exists>i. f_of_int ?i = Fin i"
    using f_of_u64 [of ?i] uint_lt2p [of "rc_idle cur - rc_idle prev"] uint_ge_0 [of "rc_idle cur - rc_idle prev"]
    by (cases "?i = 0") (auto simp: f_of_int_def round64_def)
  then obtain i where i: "f_of_int ?i = Fin i" ..
  have "f_div (Fin t - Fin i) (Fin t) \<noteq> NaN"
    using t(2) round64_not_NaN by (cases "round64 (t + - i)") (auto simp: minus_float64_def)
  then obtain u where u: "f_div (Fin t - Fin i) (Fin t) = u" "u \<noteq> NaN" by blast
  show ?thesis using False u(2)
    by (cases u) (auto simp: UsageRatio_def Let_def t i u(1) less_eq_float64_def)
qed

text \<open>What the ratio is as long as the counters grow by less than \<open>2 ^ 52\<close>, and when the idle counter has gone back.\<close>

lemma uint_minus_u64: "(a :: u64) \<le> b \<Longrightarrow> uint (b - a) = uint b - uint a"
  by (simp add: uint_sub_if' word_le_def)

lemma uint_minus_back: "(b :: u64) < a \<Longrightarrow> uint (b - a) = 2 ^ 64 - (uint a - uint b)"
  using uint_sub_if' [of b a] by (simp add: word_less_def)

lemma UsageRatio_exact:
  assumes grow: "rc_total prev < rc_total cur" "rc_idle prev \<le> rc_idle cur"
    and small: "uint (rc_total cur) - uint (rc_total prev) \<le> 2 ^ 52" "uint (rc_idle cur) - uint (rc_idle prev) \<le> uint (rc_total cur) - uint (rc_total prev)"
  shows "UsageRatio prev cur = round64 (1 - of_int (uint (rc_idle cur) - uint (rc_idle prev)) / of_int (uint (rc_total cur) - uint (rc_total prev)))"
proof -
  define t where "t = uint (rc_total cur) - uint (rc_total prev)"
  define i where "i = uint (rc_idle cur) - uint (rc_idle prev)"
  have t: "uint (rc_total cur - rc_total prev) = t" using grow(1) by (simp add: t_def uint_minus_u64)
  have i: "uint (rc_idle cur - rc_idle prev) = i" using grow(2) by (simp add: i_def uint_minus_u64)
  have range: "0 < t" "t \<le> 2 ^ 52" "0 \<le> i" "i \<le> t" using grow small by (auto simp: t_def i_def word_less_def word_le_def)
  then have ft: "f_of_int t = Fin (of_int t)" "f_of_int i = Fin (of_int i)" by (simp_all add: f_of_int_def)
  have "Fin (of_int t) - Fin (of_int i) = Fin (of_int (t - i))" using range by (intro f_sub_ints) simp
  then have div: "f_div (Fin (of_int t) - Fin (of_int i)) (Fin (of_int t)) = round64 (of_int (t - i) / of_int t)" using range(1) by simp
  have ratio: "(of_int (t - i) / of_int t :: rat) = 1 - of_int i / of_int t" using range(1) by (simp add: diff_divide_distrib)
  have "0 \<le> (of_int (t - i) / of_int t :: rat)" "(of_int (t - i) / of_int t :: rat) \<le> 1" using range by (simp_all add: field_simps)
  with round64_int_bounds [of 0 "of_int (t - i) / of_int t" 1] obtain y where y: "round64 (of_int (t - i) / of_int t) = Fin y" "0 \<le> y" "y \<le> 1" by auto
  have "UsageRatio prev cur = (let usage = (if Fin y < Fin 0 then Fin 0 else Fin y) in if Fin 1 < usage then Fin 1 else usage)"
    unfolding UsageRatio_def t i using grow(1) by (simp only: ft div y(1) Let_def not_le [symmetric] if_False)
  also have "\<dots> = round64 (of_int (t - i) / of_int t)" using y by (simp add: Let_def)
  finally show ?thesis unfolding ratio by (simp only: t_def i_def)
qed

lemma UsageRatio_idle_back:
  assumes "rc_idle cur < rc_idle prev" "uint (rc_idle prev) - uint (rc_idle cur) \<le> 2 ^ 52" "uint (rc_total cur) - uint (rc_total prev) \<le> 2 ^ 52"
  shows "UsageRatio prev cur = Fin 0"
proof (cases "rc_total cur \<le> rc_total prev")
  case True
  then show ?thesis by (simp add: UsageRatio_def)
next
  case False
  define t where "t = uint (rc_total cur) - uint (rc_total prev)"
  define i where "i = 2 ^ 64 - (uint (rc_idle prev) - uint (rc_idle cur))"
  have t: "uint (rc_total cur - rc_total prev) = t" using False by (simp add: t_def uint_minus_u64)
  have i: "uint (rc_idle cur - rc_idle prev) = i" using assms(1) by (simp add: i_def uint_minus_back)
  have range: "0 < t" "t \<le> 2 ^ 52" "2 ^ 63 \<le> i" "i < 2 ^ 64" using False assms by (auto simp: t_def i_def word_less_def word_le_def)
  then have ft: "f_of_int t = Fin (of_int t)" by (simp add: f_of_int_def)
  obtain y where y: "f_of_int i = Fin y" "of_int (i div 4096 * 4096) \<le> y" "y \<le> 2 ^ 64" using f_of_u64 [of i] range by auto
  have "(2 ^ 63 :: int) \<le> i div 4096 * 4096" using zdiv_mono1 [OF range(3), of 4096] by simp
  then have big: "(2 ^ 63 :: rat) \<le> y" using y(2) by (metis of_int_le_iff of_int_numeral of_int_power order_trans)
  have "(of_int t :: rat) \<le> 2 ^ 52" using range(2) by (metis of_int_le_iff of_int_numeral of_int_power)
  moreover have "(0 :: rat) < of_int t" using range(1) by simp
  ultimately have neg: "of_int t + - y \<le> - 1" "- (2 ^ 64) \<le> of_int t + - y" using big y(3) by simp_all
  have p: "pow2 (- (- 12)) = (4096 :: rat)" "pow2 (52 - (- 12)) = (18446744073709551616 :: rat)" by (simp_all add: pow2_def)
  have below: "\<exists>z. round64 x = Fin z \<and> - (2 ^ 64) \<le> z \<and> z \<le> 0" if "x \<le> 0" "- (2 ^ 64) \<le> x" for x
    using round64_bounds [of "- (2 ^ 52)" "- 12" x 0] that unfolding p by simp
  from below [OF _ neg(2)] neg(1) obtain z where z: "Fin (of_int t) - Fin y = Fin z" "z \<le> 0" "- (2 ^ 64) \<le> z"
    by (auto simp: minus_float64_def)
  have "(1 :: rat) \<le> of_int t" using range(1) by simp
  then have "z / of_int t \<le> 0" "z \<le> z / of_int t" using z(2) mult_left_mono_neg [of 1 "of_int t" z]
    by (simp_all add: divide_nonpos_pos pos_le_divide_eq)
  with below [of "z / of_int t"] z(3) obtain w where w: "round64 (z / of_int t) = Fin w" "w \<le> 0" by auto
  have "f_div (Fin (of_int t) - Fin y) (Fin (of_int t)) = Fin w" using range(1) by (simp add: z(1) w(1))
  with w(2) False show ?thesis by (auto simp: UsageRatio_def Let_def t i ft y(1))
qed

subsection \<open>The program's rounds\<close>

fun host_rounds :: "host_obs list \<Rightarrow> host_monitor \<Rightarrow> host_monitor" where
  "host_rounds [] s = s"
| "host_rounds (ob # obs) s = host_rounds obs (host_round ob s)"

definition host_snapshots :: "host_monitor \<Rightarrow> HostResourceSnapshot list" where
  "host_snapshots s = concat (map (\<lambda>m. case m of Host_resources r \<Rightarrow> [r] | _ \<Rightarrow> []) (hmon_out s))"

lemma ToProto_fields:
  "hr_cpu (ToProto sample q t) = hs_cpu sample" "hr_memory (ToProto sample q t) = hs_memory sample" "hr_disks (ToProto sample q t) = hs_disks sample"
  "hr_header (ToProto sample q t) = service_header ''host_monitor'' q t None"
  by (simp_all add: ToProto_def AddMetric_def Let_def)

text \<open>The monitor publishes one snapshot per round: the samples of its observations, numbered from zero.\<close>

lemma host_rounds_publish:
  "map hr_cpu (host_snapshots (host_rounds obs s)) = map hr_cpu (host_snapshots s) @ map hs_cpu (sample_run (map ho_files obs) (hmon_sampler s)) \<and>
   map (h_sequence \<circ> hr_header) (host_snapshots (host_rounds obs s)) =
     map (h_sequence \<circ> hr_header) (host_snapshots s) @ map (\<lambda>i. hmon_sequence s + of_nat i) [0..<length obs]"
proof (induction obs arbitrary: s)
  case (Cons ob obs)
  obtain sample sampler where r: "HostSampler_Sample (ho_files ob) (hmon_sampler s) = (sample, sampler)" by (rule prod.exhaust)
  have out: "host_snapshots (host_round ob s) = host_snapshots s @ [ToProto sample (hmon_sequence s) (ho_unix ob)]"
    "hmon_sampler (host_round ob s) = sampler" "hmon_sequence (host_round ob s) = hmon_sequence s + 1"
    by (auto simp: host_round_def r Let_def host_snapshots_def)
  have "map (\<lambda>i. hmon_sequence s + of_nat i) [0..<Suc n] = hmon_sequence s # map (\<lambda>i. hmon_sequence s + 1 + of_nat i) [0..<n]" for n
    by (simp add: upt_conv_Cons map_Suc_upt [symmetric] comp_def algebra_simps del: upt_Suc)
  then show ?case using Cons.IH [of "host_round ob s"] by (simp add: out ToProto_fields r del: upt_Suc)
qed simp

lemma length_sample_run: "length (sample_run ps h) = length ps"
  by (induction ps arbitrary: h) (auto split: prod.splits)

lemma sample_run_snd: "sample_run (p # ps) h = fst (HostSampler_Sample p h) # sample_run ps (snd (HostSampler_Sample p h))"
  by (simp split: prod.splits)

text \<open>The \<open>i\<close>th snapshot the monitor publishes has number \<open>i\<close> and describes the processors by its own reading of /proc/stat and the last
  one before it that had any, the priming one included: all ratios are zero when there is none or the number of processors
  has changed, and otherwise there is one for each. Ratios lie between 0 and 1. While counters grow by at most \<open>2 ^ 52\<close> a ratio
  is the rounded share of time that was not idle; but when the idle counter has gone back (as Linux documents of the time
  waiting for input) it is 0, however busy the processor was.
\<close>

theorem cpu_usage_of_last_readings:
  assumes "i < length obs"
  shows "hr_cpu (host_snapshots (host_rounds obs (host_start o0)) ! i) =
      cpu_between (last_reading (map ho_files (o0 # take i obs))) (cpu_reading (pf_stat (ho_files (obs ! i)))) \<and>
    h_sequence (hr_header (host_snapshots (host_rounds obs (host_start o0)) ! i)) = of_nat i \<and>
    Fin 0 \<le> UsageRatio prev cur \<and> UsageRatio prev cur \<le> Fin 1 \<and>
    (rc_total prev < rc_total cur \<and> rc_idle prev \<le> rc_idle cur \<and> uint (rc_total cur) - uint (rc_total prev) \<le> 2 ^ 52 \<and>
       uint (rc_idle cur) - uint (rc_idle prev) \<le> uint (rc_total cur) - uint (rc_total prev) \<longrightarrow>
       UsageRatio prev cur = round64 (1 - of_int (uint (rc_idle cur) - uint (rc_idle prev)) / of_int (uint (rc_total cur) - uint (rc_total prev)))) \<and>
    (rc_idle cur < rc_idle prev \<and> uint (rc_idle prev) - uint (rc_idle cur) \<le> 2 ^ 52 \<and> uint (rc_total cur) - uint (rc_total prev) \<le> 2 ^ 52 \<longrightarrow>
       UsageRatio prev cur = Fin 0)"
proof -
  let ?s = "host_start o0" let ?ps = "map ho_files (o0 # obs)"
  have start: "host_snapshots ?s = []" "hmon_sampler ?s = snd (HostSampler_Sample (ho_files o0) new_HostSampler)" "hmon_sequence ?s = 0"
    by (simp_all add: host_start_def host_snapshots_def)
  have pub: "map hr_cpu (host_snapshots (host_rounds obs ?s)) = map hs_cpu (tl (sample_run ?ps new_HostSampler))"
    "map (h_sequence \<circ> hr_header) (host_snapshots (host_rounds obs ?s)) = map of_nat [0..<length obs]"
    using host_rounds_publish [of obs ?s] by (simp_all add: start sample_run_snd del: sample_run.simps)
  have len: "length (host_snapshots (host_rounds obs ?s)) = length obs" using arg_cong [OF pub(2), of length] by simp
  have "hr_cpu (host_snapshots (host_rounds obs ?s) ! i) = hs_cpu (tl (sample_run ?ps new_HostSampler) ! i)"
    using arg_cong [OF pub(1), of "\<lambda>xs. xs ! i"] assms len length_sample_run [of ?ps] by (simp del: sample_run.simps list.map)
  also have "\<dots> = hs_cpu (sample_run ?ps new_HostSampler ! Suc i)"
    using assms length_sample_run [of ?ps] by (simp add: nth_tl del: sample_run.simps list.map)
  also have "\<dots> = cpu_between (last_reading (take (Suc i) ?ps)) (cpu_reading (pf_stat (?ps ! Suc i)))"
    unfolding last_reading_def using assms by (intro sample_run_cpu) (simp_all add: sampler_holds_def new_HostSampler_def)
  finally have cpu: "hr_cpu (host_snapshots (host_rounds obs ?s) ! i) =
      cpu_between (last_reading (map ho_files (o0 # take i obs))) (cpu_reading (pf_stat (ho_files (obs ! i))))"
    using assms by (simp add: take_map)
  have "h_sequence (hr_header (host_snapshots (host_rounds obs ?s) ! i)) = of_nat i"
    using arg_cong [OF pub(2), of "\<lambda>xs. xs ! i"] assms len by simp
  with cpu show ?thesis
    using UsageRatio_bounds [of prev cur] UsageRatio_exact [of prev cur] UsageRatio_idle_back [of cur prev] by auto
qed

definition demo_obs :: "string \<Rightarrow> host_obs" where
  "demo_obs stat = \<lparr>ho_files = \<lparr>pf_uptime = Fin 1, pf_load1 = Fin 0, pf_load5 = Fin 0, pf_load15 = Fin 0, pf_meminfo = None, pf_mounts = None,
     pf_statvfs = demo_vfs, pf_stat = Some stat\<rparr>, ho_now = 0, ho_unix = 0, ho_pid = 1\<rparr>"

theorem cpu_usage_of_last_readings_witness:
  "cs_usage_ratio (hr_cpu (host_snapshots (host_rounds [demo_obs ''cpu 40 0 10 30''] (host_start (demo_obs ''cpu 10 0 10 20''))) ! 0)) = Fin (3 / 4)"
proof -
  have readings: "cpu_reading (Some ''cpu 10 0 10 20'') = [\<lparr>rc_idle = 20, rc_total = 40\<rparr>]"
    "cpu_reading (Some ''cpu 40 0 10 30'') = [\<lparr>rc_idle = 30, rc_total = 80\<rparr>]"
    by (simp_all add: cpu_reading_def getlines.simps starts_with_def ParseCpuCounters_def get_token_def get_u64_def is_space_def is_digit_code
        read_nat_def char_digit_def Let_def)
  have "round64 (3 / 4) = Fin (3 / 4)" by code_simp
  then show ?thesis
    using cpu_usage_of_last_readings [of 0 "[demo_obs ''cpu 40 0 10 30'']" "demo_obs ''cpu 10 0 10 20''"
        "\<lparr>rc_idle = 20, rc_total = 40\<rparr>" "\<lparr>rc_idle = 30, rc_total = 80\<rparr>"]
    by (simp add: last_reading_def demo_obs_def readings cpu_between_def del: host_rounds.simps)
qed

end
