(* ===== verification/Filters.thy ===== *)
theory Filters
  imports Float64 "HOL-Library.Multiset"
begin

section \<open>Filters (components/algorithm: detail/math.hpp, filter.hpp)\<close>

text \<open>
  The templates compute on numbers and on fixed-size arrays of numbers. What they use of their type is the record \<open>arith\<close>: the
  functions of the namespace \<^verbatim>\<open>detail\<close>, with the type \<open>'s\<close> in the place of double. The class types that use the operators of
  their type directly are polymorphic in the operators' classes. A double is a \<open>float64\<close>; exact laws are stated for exact numbers.
\<close>

instantiation float64 :: "{one, inverse, abs}"
begin

definition one_float64 :: float64 where "one_float64 = Fin 1"
definition inverse_float64 :: "float64 \<Rightarrow> float64" where "inverse_float64 a = f_div (Fin 1) a"
definition divide_float64 :: "float64 \<Rightarrow> float64 \<Rightarrow> float64" where "divide_float64 a b = f_div a b"
definition abs_float64 :: "float64 \<Rightarrow> float64" where "abs_float64 a = (if a < Fin 0 then - a else a)"

instance ..

end

subsection \<open>Arithmetic of numbers and arrays\<close>

record ('a, 's) arith =
  ar_zero :: 'a
  ar_add :: "'a \<Rightarrow> 'a \<Rightarrow> 'a"
  ar_sub :: "'a \<Rightarrow> 'a \<Rightarrow> 'a"
  ar_scale :: "'a \<Rightarrow> 's \<Rightarrow> 'a"
  ar_magnitude :: "'a \<Rightarrow> 's"
  ar_count :: "nat \<Rightarrow> 's"

definition double_arith :: "(float64, float64) arith" where
  "double_arith = \<lparr>ar_zero = Fin 0, ar_add = (+), ar_sub = (-), ar_scale = (*), ar_magnitude = abs, ar_count = (\<lambda>n. f_of_int (int n))\<rparr>"

text \<open>An array: all operations go element by element; the magnitude is the root of the sum of squares.\<close>

definition array_arith :: "('s::{zero, plus, times} \<Rightarrow> 's) \<Rightarrow> ('a \<Rightarrow> 's) \<Rightarrow> nat \<Rightarrow> ('a, 's) arith \<Rightarrow> ('a list, 's) arith" where
  "array_arith sqroot to_double n a =
     \<lparr>ar_zero = replicate n (ar_zero a), ar_add = map2 (ar_add a), ar_sub = map2 (ar_sub a), ar_scale = (\<lambda>v c. map (\<lambda>x. ar_scale a x c) v),
      ar_magnitude = (\<lambda>v. sqroot (foldl (\<lambda>s x. s + to_double x * to_double x) 0 v)), ar_count = ar_count a\<rparr>"

text \<open>Exact numbers: those of a field, and counters that wrap.\<close>

definition field_arith :: "('a::linordered_field, 'a) arith" where
  "field_arith = \<lparr>ar_zero = 0, ar_add = (+), ar_sub = (-), ar_scale = (*), ar_magnitude = abs, ar_count = of_nat\<rparr>"

lemma arith_simps [simp]:
  "ar_zero field_arith = 0" "ar_add field_arith = (+)" "ar_sub field_arith = (-)" "ar_scale field_arith = (*)" "ar_magnitude field_arith = abs"
  "ar_count field_arith = of_nat"
  "ar_zero double_arith = Fin 0" "ar_add double_arith = (+)" "ar_sub double_arith = (-)" "ar_scale double_arith = (*)"
  "ar_magnitude double_arith = abs" "ar_count double_arith n = f_of_int (int n)"
  "ar_zero (array_arith sqroot to_double k a) = replicate k (ar_zero a)" "ar_add (array_arith sqroot to_double k a) = map2 (ar_add a)"
  "ar_sub (array_arith sqroot to_double k a) = map2 (ar_sub a)" "ar_scale (array_arith sqroot to_double k a) v c = map (\<lambda>x. ar_scale a x c) v"
  "ar_count (array_arith sqroot to_double k a) = ar_count a"
  by (simp_all add: field_arith_def double_arith_def array_arith_def)

definition divide_arith :: "('a, 's::{one, inverse}) arith \<Rightarrow> 'a \<Rightarrow> nat \<Rightarrow> 'a" where
  "divide_arith a v n = ar_scale a v (1 / ar_count a n)"

definition clamp_value :: "'a::ord \<Rightarrow> 'a \<Rightarrow> 'a \<Rightarrow> 'a" where
  "clamp_value v low high = (if v < low then low else if high < v then high else v)"

definition clamp_delta :: "'a::{ord, uminus} \<Rightarrow> 'a \<Rightarrow> 'a" where
  "clamp_delta delta limit = clamp_value delta (- limit) limit"

definition approximately_zero :: "('a, 's::ord) arith \<Rightarrow> 'a \<Rightarrow> 's \<Rightarrow> bool" where
  "approximately_zero a v epsilon \<longleftrightarrow> ar_magnitude a v \<le> epsilon"

subsection \<open>Moving average and sliding window\<close>

text \<open>The two classes have the same fields and update them in the same way.\<close>

record 'a window =
  wn_values :: "'a list"
  wn_sum :: 'a
  wn_count :: nat
  wn_next :: nat

definition new_window :: "('a, 's) arith \<Rightarrow> nat \<Rightarrow> 'a window" where
  "new_window a w = \<lparr>wn_values = replicate w (ar_zero a), wn_sum = ar_zero a, wn_count = 0, wn_next = 0\<rparr>"

definition push :: "('a, 's) arith \<Rightarrow> nat \<Rightarrow> 'a \<Rightarrow> 'a window \<Rightarrow> 'a window" where
  "push a w x s =
     (let s = (if wn_count s < w then
                 s\<lparr>wn_values := (wn_values s)[wn_count s := x], wn_count := wn_count s + 1, wn_sum := ar_add a (wn_sum s) x\<rparr>
               else
                 let sum = ar_sub a (wn_sum s) (wn_values s ! wn_next s) in
                 s\<lparr>wn_values := (wn_values s)[wn_next s := x], wn_sum := ar_add a sum x\<rparr>) in
      s\<lparr>wn_next := (wn_next s + 1) mod w\<rparr>)"

definition mean :: "('a, 's::{one, inverse}) arith \<Rightarrow> 'a window \<Rightarrow> 'a" where
  "mean a s = (if wn_count s = 0 then ar_zero a else divide_arith a (wn_sum s) (wn_count s))"

definition full :: "nat \<Rightarrow> 'a window \<Rightarrow> bool" where
  "full w s \<longleftrightarrow> wn_count s = w"

definition reset_window :: "('a, 's) arith \<Rightarrow> nat \<Rightarrow> 'a window \<Rightarrow> 'a window" where
  "reset_window a w s = s\<lparr>wn_values := replicate w (ar_zero a), wn_sum := ar_zero a, wn_count := 0, wn_next := 0\<rparr>"

definition MovingAverage_update :: "('a, 's::{one, inverse}) arith \<Rightarrow> nat \<Rightarrow> 'a \<Rightarrow> 'a window \<Rightarrow> 'a \<times> 'a window" where
  "MovingAverage_update a w x s = (let s = push a w x s in (mean a s, s))"

subsection \<open>Median filter\<close>

record 'a median =
  mf_values :: "'a list"
  mf_count :: nat
  mf_next :: nat

definition MedianFilter :: "nat \<Rightarrow> 'a \<Rightarrow> 'a median" where
  "MedianFilter w z = \<lparr>mf_values = replicate w z, mf_count = 0, mf_next = 0\<rparr>"

definition MedianFilter_update :: "nat \<Rightarrow> 'a::linorder \<Rightarrow> 'a median \<Rightarrow> 'a \<times> 'a median" where
  "MedianFilter_update w x s =
     (let s = s\<lparr>mf_values := (mf_values s)[mf_next s := x], mf_next := (mf_next s + 1) mod w\<rparr>;
          s = (if mf_count s < w then s\<lparr>mf_count := mf_count s + 1\<rparr> else s);
          sorted = sort (take (mf_count s) (mf_values s)) in
      (sorted ! ((mf_count s - 1) div 2), s))"

definition MedianFilter_reset :: "nat \<Rightarrow> 'a \<Rightarrow> 'a median \<Rightarrow> 'a median" where
  "MedianFilter_reset w z s = s\<lparr>mf_values := replicate w z, mf_count := 0, mf_next := 0\<rparr>"

subsection \<open>Exponential moving average and low-pass filter\<close>

record ('a, 's) ema =
  em_alpha :: 's
  em_value :: 'a
  em_initialized :: bool

definition ExponentialMovingAverage :: "('a, 's::{zero, one, ord}) arith \<Rightarrow> 's \<Rightarrow> ('a, 's) ema" where
  "ExponentialMovingAverage a alpha = \<lparr>em_alpha = clamp_value alpha 0 1, em_value = ar_zero a, em_initialized = False\<rparr>"

definition ema_update :: "('a, 's::{one, minus}) arith \<Rightarrow> 'a \<Rightarrow> ('a, 's) ema \<Rightarrow> 'a \<times> ('a, 's) ema" where
  "ema_update a x s =
     (if \<not> em_initialized s then (x, s\<lparr>em_value := x, em_initialized := True\<rparr>)
      else let v = ar_add a (ar_scale a x (em_alpha s)) (ar_scale a (em_value s) (1 - em_alpha s)) in (v, s\<lparr>em_value := v\<rparr>))"

definition ema_reset :: "('a, 's) arith \<Rightarrow> ('a, 's) ema \<Rightarrow> ('a, 's) ema" where
  "ema_reset a s = s\<lparr>em_value := ar_zero a, em_initialized := False\<rparr>"

definition kPi :: rat where "kPi = 884279719003555 / 281474976710656"

definition compute_alpha :: "float64 \<Rightarrow> float64 \<Rightarrow> float64" where
  "compute_alpha cutoff_hz sample_period_s =
     (if cutoff_hz \<le> Fin 0 \<or> sample_period_s \<le> Fin 0 then Fin 1
      else let rc = Fin 1 / (Fin 2 * Fin kPi * cutoff_hz) in sample_period_s / (rc + sample_period_s))"

definition LowPassFilter :: "('a, float64) arith \<Rightarrow> float64 \<Rightarrow> float64 \<Rightarrow> ('a, float64) ema" where
  "LowPassFilter a cutoff_hz sample_period_s = ExponentialMovingAverage a (compute_alpha cutoff_hz sample_period_s)"

subsection \<open>Outlier rejection and hysteresis\<close>

record ('a, 's) outlier =
  or_max_delta :: 's
  or_value :: 'a
  or_initialized :: bool

definition OutlierRejector :: "'s \<Rightarrow> 'a \<Rightarrow> ('a, 's) outlier" where
  "OutlierRejector max_delta initial = \<lparr>or_max_delta = max_delta, or_value = initial, or_initialized = False\<rparr>"

definition outlier_update :: "('a, 's::ord) arith \<Rightarrow> 'a \<Rightarrow> ('a, 's) outlier \<Rightarrow> 'a \<times> ('a, 's) outlier" where
  "outlier_update a x s =
     (if \<not> or_initialized s then (x, s\<lparr>or_value := x, or_initialized := True\<rparr>)
      else let delta = ar_sub a x (or_value s); s = (if ar_magnitude a delta \<le> or_max_delta s then s\<lparr>or_value := x\<rparr> else s) in (or_value s, s))"

definition outlier_reset :: "('a, 's) outlier \<Rightarrow> ('a, 's) outlier" where
  "outlier_reset s = s\<lparr>or_initialized := False\<rparr>"

record 's hysteresis =
  hy_low :: 's
  hy_high :: 's
  hy_state :: bool

definition Hysteresis :: "'s \<Rightarrow> 's \<Rightarrow> 's hysteresis" where
  "Hysteresis low_threshold high_threshold = \<lparr>hy_low = low_threshold, hy_high = high_threshold, hy_state = False\<rparr>"

definition hysteresis_update :: "'s::ord \<Rightarrow> 's hysteresis \<Rightarrow> bool \<times> 's hysteresis" where
  "hysteresis_update v s =
     (let st = (if hy_state s then hy_low s < v else hy_high s \<le> v) in (st, s\<lparr>hy_state := st\<rparr>))"

definition hysteresis_reset :: "bool \<Rightarrow> 's hysteresis \<Rightarrow> 's hysteresis" where
  "hysteresis_reset st s = s\<lparr>hy_state := st\<rparr>"

subsection \<open>A ring of the last samples\<close>

text \<open>The array holds each of the last \<open>w\<close> samples at its number modulo \<open>w\<close>.\<close>

definition ring_holds :: "nat \<Rightarrow> 'a list \<Rightarrow> 'a list \<Rightarrow> bool" where
  "ring_holds w xs vs \<longleftrightarrow> length vs = w \<and> (\<forall>i<length xs. length xs \<le> i + w \<longrightarrow> vs ! (i mod w) = xs ! i)"

lemma ring_holds_snoc:
  assumes "0 < w" "ring_holds w xs vs"
  shows "ring_holds w (xs @ [x]) (vs[length xs mod w := x])"
proof -
  have other: "i mod w \<noteq> length xs mod w" if "i < length xs" "length xs < i + w" for i
  proof
    assume "i mod w = length xs mod w"
    then have "w dvd length xs - i" using that by (metis mod_eq_dvd_iff_nat less_imp_le_nat)
    moreover have "0 < length xs - i" "length xs - i < w" using that by linarith+
    ultimately show False using nat_dvd_not_less by blast
  qed
  have "vs[length xs mod w := x] ! (i mod w) = (xs @ [x]) ! i" if i: "i < Suc (length xs)" "Suc (length xs) \<le> i + w" for i
  proof (cases "i = length xs")
    case True
    then show ?thesis using assms by (simp add: ring_holds_def)
  next
    case False
    then have "i < length xs" "length xs < i + w" using i by simp_all
    then show ?thesis using other [of i] assms(2) by (simp add: ring_holds_def nth_append)
  qed
  with assms(2) show ?thesis by (simp add: ring_holds_def)
qed

text \<open>The filled part of the array is a permutation of the last samples.\<close>

lemma ring_mset:
  assumes "0 < w" "ring_holds w xs vs"
  shows "mset (take (min (length xs) w) vs) = mset (last_n w xs)"
proof (cases "length xs \<le> w")
  case True
  have "take (length xs) vs = xs"
    using assms True by (intro nth_equalityI) (auto simp: ring_holds_def dest!: spec)
  with True show ?thesis by (simp add: last_n_def min_def)
next
  case False
  define n where "n = length xs - w"
  have len: "length xs = n + w" "length vs = w" using False assms(2) by (simp_all add: n_def ring_holds_def)
  have "rotate (n mod w) vs = drop n xs"
  proof (intro nth_equalityI)
    show "length (rotate (n mod w) vs) = length (drop n xs)" using len by simp
    fix i assume "i < length (rotate (n mod w) vs)"
    then have i: "i < w" using len by simp
    then have "rotate (n mod w) vs ! i = vs ! ((n + i) mod w)" using len by (simp add: nth_rotate mod_add_left_eq)
    also have "\<dots> = xs ! (n + i)" using assms(2) i len by (simp add: ring_holds_def)
    finally show "rotate (n mod w) vs ! i = drop n xs ! i" using len by simp
  qed
  moreover have "mset (rotate (n mod w) vs) = mset vs"
    by (subst rotate_drop_take, subst mset_append, subst union_commute) (simp flip: mset_append)
  ultimately have "mset vs = mset (drop n xs)" by simp
  moreover have "last_n w xs = drop n xs" by (simp add: last_n_def n_def)
  moreover have "take (min (length xs) w) vs = vs" using len by simp
  ultimately show ?thesis by simp
qed

text \<open>What a window keeps whatever its arithmetic.\<close>

definition window_ring :: "nat \<Rightarrow> 'a list \<Rightarrow> 'a window \<Rightarrow> bool" where
  "window_ring w xs s \<longleftrightarrow> ring_holds w xs (wn_values s) \<and> wn_count s = min (length xs) w \<and> wn_next s = length xs mod w"

lemma window_ring_new: "window_ring w [] (new_window a w)"
  by (simp add: window_ring_def new_window_def ring_holds_def)

lemma window_ring_push:
  assumes "0 < w" "window_ring w xs s"
  shows "window_ring w (xs @ [x]) (push a w x s)"
proof -
  have nxt: "(length xs mod w + 1) mod w = Suc (length xs) mod w" by (simp add: mod_Suc_eq)
  then show ?thesis
    using ring_holds_snoc [OF assms(1), of xs "wn_values s" x] assms
    by (cases "length xs < w") (simp_all add: window_ring_def push_def Let_def)
qed

text \<open>A full window takes its oldest sample out of the sum.\<close>

lemma window_oldest:
  assumes "0 < w" "window_ring w xs s" "w \<le> length xs"
  shows "wn_values s ! wn_next s = xs ! (length xs - w)" "last_n w xs = xs ! (length xs - w) # tl (last_n w xs)"
    "wn_sum (push a w x s) = ar_add a (ar_sub a (wn_sum s) (xs ! (length xs - w))) x"
proof -
  show oldest: "wn_values s ! wn_next s = xs ! (length xs - w)"
    using assms by (auto simp: window_ring_def ring_holds_def le_mod_geq dest!: spec [of _ "length xs - w"])
  show "last_n w xs = xs ! (length xs - w) # tl (last_n w xs)"
    using assms by (simp add: last_n_def Cons_nth_drop_Suc [symmetric])
  show "wn_sum (push a w x s) = ar_add a (ar_sub a (wn_sum s) (xs ! (length xs - w))) x"
    using assms oldest by (simp add: push_def Let_def window_ring_def)
qed

subsection \<open>Sums over a window\<close>

text \<open>The laws of exact addition: a summand can be taken out again.\<close>

locale exact_arith =
  fixes a :: "('a, 's) arith" and C :: "'a set"
  assumes zero_in: "ar_zero a \<in> C" and add_in: "x \<in> C \<Longrightarrow> y \<in> C \<Longrightarrow> ar_add a x y \<in> C"
    and add_comm: "x \<in> C \<Longrightarrow> y \<in> C \<Longrightarrow> ar_add a x y = ar_add a y x"
    and add_assoc: "x \<in> C \<Longrightarrow> y \<in> C \<Longrightarrow> z \<in> C \<Longrightarrow> ar_add a (ar_add a x y) z = ar_add a x (ar_add a y z)"
    and add_zero: "x \<in> C \<Longrightarrow> ar_add a (ar_zero a) x = x"
    and sub_add: "x \<in> C \<Longrightarrow> y \<in> C \<Longrightarrow> ar_sub a (ar_add a x y) x = y"
begin

definition total :: "'a list \<Rightarrow> 'a" where
  "total xs = foldr (ar_add a) xs (ar_zero a)"

lemma total_simps [simp]: "total [] = ar_zero a" "total (x # xs) = ar_add a x (total xs)"
  by (simp_all add: total_def)

lemma total_in: "set xs \<subseteq> C \<Longrightarrow> total xs \<in> C"
  by (induction xs) (auto simp: zero_in add_in)

lemma total_snoc: "set xs \<subseteq> C \<Longrightarrow> x \<in> C \<Longrightarrow> total (xs @ [x]) = ar_add a (total xs) x"
  by (induction xs) (simp_all add: add_zero add_comm [of x "ar_zero a"] zero_in add_assoc total_in)

definition window_inv :: "nat \<Rightarrow> 'a list \<Rightarrow> 'a window \<Rightarrow> bool" where
  "window_inv w xs s \<longleftrightarrow> window_ring w xs s \<and> wn_sum s = total (last_n w xs)"

lemma window_inv_new: "window_inv w [] (new_window a w)"
  by (simp add: window_inv_def window_ring_new) (simp add: new_window_def last_n_def)

lemma window_inv_push:
  assumes "0 < w" "set xs \<subseteq> C" "x \<in> C" "window_inv w xs s"
  shows "window_inv w (xs @ [x]) (push a w x s)"
proof -
  have inv: "window_ring w xs s" "wn_sum s = total (last_n w xs)" using assms(4) by (simp_all add: window_inv_def)
  have in_C: "set (last_n w xs) \<subseteq> C" using set_last_n assms(2) by (rule order_trans)
  have "wn_sum (push a w x s) = total (last_n w (xs @ [x]))"
  proof (cases "length xs < w")
    case True
    then show ?thesis using inv assms(1,3) in_C by (simp add: window_ring_def push_def Let_def last_n_snoc total_snoc)
  next
    case False
    let ?y = "xs ! (length xs - w)" let ?ys = "tl (last_n w xs)"
    note old = window_oldest [OF assms(1) inv(1), unfolded not_less [symmetric], OF False]
    have parts: "?y \<in> C" "set ?ys \<subseteq> C" using in_C by (subst (asm) old(2), simp)+
    have "wn_sum (push a w x s) = ar_add a (ar_sub a (total (?y # ?ys)) ?y) x" by (simp only: old(3) inv(2) flip: old(2))
    also have "\<dots> = total (?ys @ [x])" using parts assms(3) by (simp add: sub_add total_in total_snoc)
    also have "?ys @ [x] = last_n w (xs @ [x])" using False assms(1) by (simp add: last_n_snoc)
    finally show ?thesis .
  qed
  with window_ring_push [OF assms(1) inv(1)] show ?thesis by (simp add: window_inv_def)
qed

lemma window_inv_fold:
  "0 < w \<Longrightarrow> set ys \<subseteq> C \<Longrightarrow> set xs \<subseteq> C \<Longrightarrow> window_inv w ys s \<Longrightarrow> window_inv w (ys @ xs) (fold (push a w) xs s)"
proof (induction xs arbitrary: ys s)
  case (Cons x xs)
  then show ?case using window_inv_push [of w ys x s] Cons.IH [of "ys @ [x]" "push a w x s"] by simp
qed simp

lemma window_inv_run: "0 < w \<Longrightarrow> set xs \<subseteq> C \<Longrightarrow> window_inv w xs (fold (push a w) xs (new_window a w))"
  using window_inv_fold [OF _ _ _ window_inv_new, of w xs] by simp

end

interpretation field_sums: exact_arith "field_arith :: ('a::linordered_field, 'a) arith" UNIV
  by unfold_locales simp_all

interpretation array_sums: exact_arith "array_arith sqroot to_double n field_arith" "{v. length v = n}"
  for sqroot :: "'a::linordered_field \<Rightarrow> 'a" and to_double :: "'a \<Rightarrow> 'a" and n :: nat
  by unfold_locales (auto intro!: nth_equalityI)

lemma field_total: "field_sums.total xs = sum_list xs"
  by (induction xs) simp_all

lemma array_total_nth:
  "list_all (\<lambda>v. length v = n) vs \<Longrightarrow> i < n \<Longrightarrow> length (array_sums.total sqroot to_double n vs) = n \<and>
   array_sums.total sqroot to_double n vs ! i = sum_list (map (\<lambda>v. v ! i) vs)"
  by (induction vs) simp_all

text \<open>In doubles an infinity never leaves the sum.\<close>

lemma infinite_closed:
  "a \<in> {PosInf, NaN} \<Longrightarrow> a + b \<in> {PosInf, NaN}" "a \<in> {PosInf, NaN} \<Longrightarrow> a - b \<in> {PosInf, NaN}" "b + PosInf \<in> {PosInf, NaN}"
  by (cases a; cases b; simp add: minus_float64_def)+

lemma infinite_sum:
  assumes "wn_sum s \<in> {PosInf, NaN} \<or> x = PosInf"
  shows "wn_sum (push double_arith w x s) \<in> {PosInf, NaN}"
proof -
  have "wn_sum (push double_arith w x s) = (if wn_count s < w then wn_sum s else wn_sum s - wn_values s ! wn_next s) + x"
    by (simp add: push_def Let_def)
  moreover have "\<dots> \<in> {PosInf, NaN}"
  proof (cases "x = PosInf")
    case True
    then show ?thesis by (simp only: infinite_closed(3))
  next
    case False
    with assms have "wn_sum s \<in> {PosInf, NaN}" by blast
    then show ?thesis by (intro infinite_closed(1)) (simp only: infinite_closed(2) split: if_split, simp)
  qed
  ultimately show ?thesis by simp
qed

lemma infinite_sums: "wn_sum s \<in> {PosInf, NaN} \<Longrightarrow> wn_sum (fold (push double_arith w) xs s) \<in> {PosInf, NaN}"
proof (induction xs arbitrary: s)
  case (Cons x xs)
  from Cons.IH [OF infinite_sum [OF disjI1 [OF Cons.prems]]] show ?case by simp
qed simp

lemma NaN_sums: "wn_sum s = NaN \<Longrightarrow> wn_sum (fold (push double_arith w) xs s) = NaN"
proof (induction xs arbitrary: s)
  case (Cons x xs)
  then have "wn_sum (push double_arith w x s) = NaN" by (simp add: push_def Let_def minus_float64_def)
  with Cons.IH show ?case by simp
qed simp

lemma window_ring_run: "0 < w \<Longrightarrow> window_ring w xs (fold (push a w) xs (new_window a w))"
  by (induction xs rule: rev_induct) (simp_all add: window_ring_new window_ring_push)

lemma infinity_poisons:
  assumes "0 < w" "w \<le> length es"
  shows "wn_sum (fold (push double_arith w) (ds @ PosInf # es) (new_window double_arith w)) = NaN"
proof -
  let ?run = "\<lambda>xs. fold (push double_arith w) xs (new_window double_arith w)"
  obtain before y after where es: "es = before @ y # after" "length before = w - 1"
    using that [OF id_take_nth_drop [of "w - 1" es]] assms by simp
  have "wn_sum (?run (ds @ [PosInf])) \<in> {PosInf, NaN}" using infinite_sum [of "?run ds" PosInf w] by simp
  then have sum: "wn_sum (?run (ds @ PosInf # before)) \<in> {PosInf, NaN}"
    using infinite_sums [of "?run (ds @ [PosInf])" w before] by simp
  let ?xs = "ds @ PosInf # before"
  have len: "length ?xs = length ds + w" using es(2) assms(1) by simp
  have "wn_sum (push double_arith w y (?run ?xs)) = ar_add double_arith (ar_sub double_arith (wn_sum (?run ?xs)) (?xs ! (length ?xs - w))) y"
    by (rule window_oldest(3) [OF assms(1) window_ring_run [OF assms(1), of ?xs double_arith]]) (use len in simp)
  also have "\<dots> = NaN" using sum len by (auto simp: minus_float64_def)
  finally have "wn_sum (?run (?xs @ [y])) = NaN" by simp
  from NaN_sums [OF this, of w after] show ?thesis by (simp add: es(1))
qed

text \<open>C30:
  With exact numbers the moving average after any samples is the mean of the last \<open>w\<close> of them, or of all while there are fewer,
  and that of arrays is the mean of each element; the running sum never drifts. With doubles, however, one infinite sample makes
  every average NaN from the moment it has left the window.
\<close>

theorem moving_average_is_mean_of_window:
  assumes "0 < w"
  shows "fst (MovingAverage_update field_arith w x (fold (push field_arith w) xs (new_window field_arith w))) =
      sum_list (last_n w (xs @ [x])) / of_nat (min (length xs + 1) w) \<and>
    (list_all (\<lambda>v. length v = n) (vs @ [v]) \<and> i < n \<longrightarrow>
      fst (MovingAverage_update (array_arith sqroot to_double n field_arith) w v
        (fold (push (array_arith sqroot to_double n field_arith) w) vs (new_window (array_arith sqroot to_double n field_arith) w))) ! i =
      sum_list (map (\<lambda>v. v ! i) (last_n w (vs @ [v]))) / of_nat (min (length vs + 1) w)) \<and>
    (w \<le> length es \<longrightarrow>
      fst (MovingAverage_update double_arith w z (fold (push double_arith w) (ds @ PosInf # es) (new_window double_arith w))) = NaN)"
proof (intro conjI impI)
  have "field_sums.window_inv w (xs @ [x]) (fold (push field_arith w) (xs @ [x]) (new_window field_arith w))"
    by (rule field_sums.window_inv_run [OF assms]) simp
  then show "fst (MovingAverage_update field_arith w x (fold (push field_arith w) xs (new_window field_arith w))) =
      sum_list (last_n w (xs @ [x])) / of_nat (min (length xs + 1) w)"
    using assms by (simp add: field_sums.window_inv_def window_ring_def MovingAverage_update_def Let_def mean_def field_total divide_arith_def)
next
  let ?a = "array_arith sqroot to_double n field_arith"
  assume v: "list_all (\<lambda>v. length v = n) (vs @ [v]) \<and> i < n"
  then have "array_sums.window_inv sqroot to_double n w (vs @ [v]) (fold (push ?a w) (vs @ [v]) (new_window ?a w))"
    by (intro array_sums.window_inv_run [OF assms]) (auto simp: list_all_iff)
  moreover have "list_all (\<lambda>v. length v = n) (last_n w (vs @ [v]))" using v set_last_n [of w "vs @ [v]"] by (auto simp: list_all_iff)
  ultimately show "fst (MovingAverage_update ?a w v (fold (push ?a w) vs (new_window ?a w))) ! i =
      sum_list (map (\<lambda>v. v ! i) (last_n w (vs @ [v]))) / of_nat (min (length vs + 1) w)"
    using assms array_total_nth [of n "last_n w (vs @ [v])" i sqroot to_double] v
    by (simp add: array_sums.window_inv_def window_ring_def MovingAverage_update_def Let_def mean_def divide_arith_def)
next
  assume "w \<le> length es"
  then have "wn_sum (fold (push double_arith w) (ds @ PosInf # (es @ [z])) (new_window double_arith w)) = NaN"
    by (intro infinity_poisons assms) simp
  moreover have "wn_count (fold (push double_arith w) (ds @ PosInf # (es @ [z])) (new_window double_arith w)) \<noteq> 0"
    using window_ring_run [OF assms, of "ds @ PosInf # (es @ [z])" double_arith] assms by (simp add: window_ring_def)
  ultimately show "fst (MovingAverage_update double_arith w z (fold (push double_arith w) (ds @ PosInf # es) (new_window double_arith w))) = NaN"
    by (simp add: MovingAverage_update_def Let_def mean_def divide_arith_def)
qed

theorem moving_average_is_mean_of_window_witness:
  "fst (MovingAverage_update field_arith 2 (6 :: rat) (fold (push field_arith 2) [1, 2, 4] (new_window field_arith 2))) = 5 \<and>
   fst (MovingAverage_update double_arith 2 (Fin 1) (fold (push double_arith 2) ([Fin 1] @ PosInf # [Fin 2, Fin 3]) (new_window double_arith 2))) = NaN"
  using moving_average_is_mean_of_window [of 2 "6 :: rat" "[1, 2, 4]" 0 "[]" "[]" 0 "\<lambda>x. x" "\<lambda>x. x" "[Fin 2, Fin 3]" "Fin 1" "[Fin 1]"]
  by (simp add: last_n_def del: fold_simps fold_append)

subsection \<open>The median\<close>

definition median_inv :: "nat \<Rightarrow> 'a list \<Rightarrow> 'a median \<Rightarrow> bool" where
  "median_inv w xs s \<longleftrightarrow> ring_holds w xs (mf_values s) \<and> mf_count s = min (length xs) w \<and> mf_next s = length xs mod w"

lemma median_inv_new: "median_inv w [] (MedianFilter w z)"
  by (simp add: median_inv_def MedianFilter_def ring_holds_def)

lemma median_step:
  assumes "0 < w" "median_inv w xs s"
  shows "median_inv w (xs @ [x]) (snd (MedianFilter_update w x s)) \<and>
    fst (MedianFilter_update w x s) = sort (last_n w (xs @ [x])) ! ((min (length xs + 1) w - 1) div 2)"
proof -
  have inv: "ring_holds w xs (mf_values s)" "mf_count s = min (length xs) w" "mf_next s = length xs mod w"
    using assms(2) by (simp_all add: median_inv_def)
  have ring: "ring_holds w (xs @ [x]) ((mf_values s)[length xs mod w := x])" using assms(1) inv(1) by (rule ring_holds_snoc)
  have nxt: "(length xs mod w + 1) mod w = Suc (length xs) mod w" by (simp add: mod_Suc_eq)
  have count: "(if mf_count s < w then mf_count s + 1 else mf_count s) = min (Suc (length xs)) w" using inv(2) by auto
  have "sort (take (min (Suc (length xs)) w) ((mf_values s)[length xs mod w := x])) = sort (last_n w (xs @ [x]))"
    using ring_mset [OF assms(1) ring] by (intro properties_for_sort) (simp_all)
  then show ?thesis using ring nxt inv count
    by (cases "mf_count s < w") (simp_all add: MedianFilter_update_def Let_def median_inv_def)
qed

lemma median_run: "0 < w \<Longrightarrow> median_inv w xs (fold (\<lambda>x s. snd (MedianFilter_update w x s)) xs (MedianFilter w z))"
  by (induction xs rule: rev_induct) (simp_all add: median_inv_new median_step)

lemma filter_outside_take: "list_all (\<lambda>y. \<not> P y) (take k xs) \<Longrightarrow> k \<le> length xs \<Longrightarrow> length (filter P xs) + k \<le> length xs"
proof -
  assume a: "list_all (\<lambda>y. \<not> P y) (take k xs)" "k \<le> length xs"
  then have "filter P (take k xs) = []" by (simp add: list_all_iff)
  then have "filter P xs = filter P (drop k xs)" by (metis append_Nil append_take_drop_id filter_append)
  then show ?thesis using a(2) length_filter_le [of P "drop k xs"] by simp
qed

lemma filter_outside_drop: "list_all (\<lambda>y. \<not> P y) (drop k xs) \<Longrightarrow> length (filter P xs) \<le> k"
proof -
  assume "list_all (\<lambda>y. \<not> P y) (drop k xs)"
  then have "filter P (drop k xs) = []" by (simp add: list_all_iff)
  then have "filter P xs = filter P (take k xs)" by (metis append_Nil2 append_take_drop_id filter_append)
  then show ?thesis by (metis length_filter_le length_take min.bounded_iff order_trans)
qed

text \<open>The middle of a sorted list lies in every interval that has more than half of its elements.\<close>

lemma middle_in_majority:
  fixes ys :: "'a::linorder list"
  assumes sorted: "sorted ys" and most: "length ys < 2 * length (filter (\<lambda>y. lo \<le> y \<and> y \<le> hi) ys)"
  shows "lo \<le> ys ! ((length ys - 1) div 2) \<and> ys ! ((length ys - 1) div 2) \<le> hi"
proof (rule ccontr)
  let ?k = "(length ys - 1) div 2" let ?P = "\<lambda>y. lo \<le> y \<and> y \<le> hi"
  have len: "0 < length ys" using most by (cases ys) auto
  then have k: "?k < length ys" by linarith
  assume "\<not> ?thesis"
  then consider "ys ! ?k < lo" | "hi < ys ! ?k" by fastforce
  then show False
  proof cases
    case 1
    have "\<not> lo \<le> ys ! i" if "i \<le> ?k" for i using sorted_nth_mono [OF sorted that k] 1 by (simp add: not_le le_less_trans)
    then have "list_all (\<lambda>y. \<not> ?P y) (take (Suc ?k) ys)" by (simp add: list_all_length less_Suc_eq_le)
    from filter_outside_take [OF this] k most show False by linarith
  next
    case 2
    have "\<not> ys ! i \<le> hi" if "?k \<le> i" "i < length ys" for i using sorted_nth_mono [OF sorted that] 2 by (simp add: not_le less_le_trans)
    then have "list_all (\<lambda>y. \<not> ?P y) (drop ?k ys)" using k by (simp add: list_all_length)
    from filter_outside_drop [OF this] most show False by linarith
  qed
qed

text \<open>The median filter returns the lower median of the last \<open>w\<close> samples, or of all while there are fewer; outliers do not matter as
  long as they are a minority of these: the result lies in every interval that has more than half of them.
\<close>

theorem median_ignores_outliers:
  fixes x :: "'a::linorder"
  assumes "0 < w"
  shows "fst (MedianFilter_update w x (fold (\<lambda>x s. snd (MedianFilter_update w x s)) xs (MedianFilter w z))) =
      sort (last_n w (xs @ [x])) ! ((min (length xs + 1) w - 1) div 2) \<and>
    (min (length xs + 1) w < 2 * length (filter (\<lambda>y. lo \<le> y \<and> y \<le> hi) (last_n w (xs @ [x]))) \<longrightarrow>
      lo \<le> fst (MedianFilter_update w x (fold (\<lambda>x s. snd (MedianFilter_update w x s)) xs (MedianFilter w z))) \<and>
      fst (MedianFilter_update w x (fold (\<lambda>x s. snd (MedianFilter_update w x s)) xs (MedianFilter w z))) \<le> hi)"
proof -
  let ?l = "last_n w (xs @ [x])"
  have med: "fst (MedianFilter_update w x (fold (\<lambda>x s. snd (MedianFilter_update w x s)) xs (MedianFilter w z))) = sort ?l ! ((length ?l - 1) div 2)"
    using median_step [OF assms median_run [OF assms, of xs z]] by (simp add: min.commute)
  have "length (filter P (sort ?l)) = length (filter P ?l)" for P by (metis mset_filter mset_sort size_mset)
  with middle_in_majority [of "sort ?l" lo hi] show ?thesis by (simp add: med min.commute)
qed

theorem median_ignores_outliers_witness:
  "fst (MedianFilter_update 3 (1000 :: int) (fold (\<lambda>x s. snd (MedianFilter_update 3 x s)) [7, 5, 6] (MedianFilter 3 0))) \<le> 6"
  using median_ignores_outliers [of 3 "1000 :: int" "[7, 5, 6]" 0 5 6] by (simp add: last_n_def del: fold_simps)

subsection \<open>The other filters\<close>

text \<open>An exponential average of exact numbers stays among its samples.\<close>

lemma clamp_value_range: "low \<le> high \<Longrightarrow> low \<le> clamp_value v low high \<and> clamp_value v low high \<le> (high :: 'a::linorder)"
  by (auto simp: clamp_value_def)

lemma ema_between:
  fixes s :: "('a::linordered_field, 'a) ema"
  assumes "list_all (\<lambda>x. lo \<le> x \<and> x \<le> hi) xs" "0 \<le> em_alpha s" "em_alpha s \<le> 1" "em_initialized s \<Longrightarrow> lo \<le> em_value s \<and> em_value s \<le> hi"
  shows "em_initialized (fold (\<lambda>x s. snd (ema_update field_arith x s)) xs s) \<Longrightarrow>
    lo \<le> em_value (fold (\<lambda>x s. snd (ema_update field_arith x s)) xs s) \<and> em_value (fold (\<lambda>x s. snd (ema_update field_arith x s)) xs s) \<le> hi"
  using assms
proof (induction xs arbitrary: s)
  case (Cons x xs)
  have x: "lo \<le> x" "x \<le> hi" using Cons.prems(2) by simp_all
  have "lo \<le> em_value (snd (ema_update field_arith x s)) \<and> em_value (snd (ema_update field_arith x s)) \<le> hi"
  proof (cases "em_initialized s")
    case True
    have mix: "a * (p * c) + a * ((1 - p) * c) = a * c" for a p c :: 'a by (simp add: algebra_simps)
    have "lo * em_alpha s + lo * (1 - em_alpha s) \<le> x * em_alpha s + em_value s * (1 - em_alpha s)"
      "x * em_alpha s + em_value s * (1 - em_alpha s) \<le> hi * em_alpha s + hi * (1 - em_alpha s)"
      using x Cons.prems(3,4) Cons.prems(5) [OF True] by (intro add_mono mult_right_mono; simp)+
    then show ?thesis using True by (simp add: ema_update_def Let_def algebra_simps)
  qed (simp add: ema_update_def x)
  moreover have "em_alpha (snd (ema_update field_arith x s)) = em_alpha s" by (simp add: ema_update_def Let_def)
  ultimately show ?case using Cons.IH [of "snd (ema_update field_arith x s)"] Cons.prems by simp
qed simp

text \<open>The hysteresis is on exactly if a value has reached the upper threshold and none since has fallen to the lower one.\<close>

lemma hysteresis_latches:
  assumes order: "\<And>v. high \<le> v \<Longrightarrow> low < v"
  shows "hy_state (fold (\<lambda>v s. snd (hysteresis_update v s)) vs (Hysteresis low high)) \<longleftrightarrow>
   (\<exists>i<length vs. high \<le> vs ! i \<and> (\<forall>j<length vs. i < j \<longrightarrow> low < vs ! j))"
proof (induction vs rule: rev_induct)
  case (snoc v vs)
  have thresholds: "hy_low (fold (\<lambda>v s. snd (hysteresis_update v s)) us (Hysteresis low high)) = low"
    "hy_high (fold (\<lambda>v s. snd (hysteresis_update v s)) us (Hysteresis low high)) = high" for us
    by (induction us rule: rev_induct) (simp_all add: Hysteresis_def hysteresis_update_def Let_def)
  have "(\<exists>i<length (vs @ [v]). high \<le> (vs @ [v]) ! i \<and> (\<forall>j<length (vs @ [v]). i < j \<longrightarrow> low < (vs @ [v]) ! j)) \<longleftrightarrow>
      high \<le> v \<or> low < v \<and> (\<exists>i<length vs. high \<le> vs ! i \<and> (\<forall>j<length vs. i < j \<longrightarrow> low < vs ! j))"
    by (simp add: Ex_less_Suc All_less_Suc nth_append cong: conj_cong) blast
  moreover have "hy_state (snd (hysteresis_update v s)) = (high \<le> v \<or> low < v \<and> hy_state s)" if "hy_low s = low" "hy_high s = high" for s
    using that order by (auto simp: hysteresis_update_def Let_def)
  ultimately show ?case by (simp only: fold_append fold_simps comp_apply id_apply thresholds snoc)
qed (simp add: Hysteresis_def)

text \<open>Once the signal has jumped by more than the limit, the rejector keeps its old value for as long as the signal stays away.\<close>

lemma outlier_stuck:
  fixes s :: "('a::linordered_field, 'a) outlier"
  assumes "or_initialized s" "list_all (\<lambda>x. or_max_delta s < \<bar>x - or_value s\<bar>) xs"
  shows "fold (\<lambda>x s. snd (outlier_update field_arith x s)) xs s = s"
  using assms by (induction xs) (simp_all add: outlier_update_def Let_def not_le)

end
