(* ===== verification/Control.thy ===== *)
theory Control
  imports Filters
begin

section \<open>Control, signals and statistics (components/algorithm: control.hpp, signal.hpp, statistics.hpp)\<close>

text \<open>
  These templates use the operators of a floating-point type, so that the definitions are polymorphic in the operators: over
  \<open>float64\<close> they are what the program computes, over an ordered field what it means to compute.
\<close>

definition cpp_min :: "'a::ord \<Rightarrow> 'a \<Rightarrow> 'a" where "cpp_min a b = (if b < a then b else a)"
definition cpp_max :: "'a::ord \<Rightarrow> 'a \<Rightarrow> 'a" where "cpp_max a b = (if a < b then b else a)"

text \<open>The operator \<^verbatim>\<open>!=\<close>, by which NaN differs from itself.\<close>

definition differs :: "'a::ord \<Rightarrow> 'a \<Rightarrow> bool" where
  "differs a b \<longleftrightarrow> a < b \<or> b < a \<or> \<not> a \<le> a \<or> \<not> b \<le> b"

lemma differs_linorder [simp]: "differs (a::'a::linorder) b \<longleftrightarrow> a \<noteq> b"
  by (auto simp: differs_def)

subsection \<open>Limits\<close>

definition clamp :: "'a::ord \<Rightarrow> 'a \<Rightarrow> 'a \<Rightarrow> 'a" where
  "clamp v low high = clamp_value v low high"

record 'a saturation =
  sat_low :: 'a
  sat_high :: 'a

definition saturation_update :: "'a::ord \<Rightarrow> 'a saturation \<Rightarrow> 'a" where
  "saturation_update v s = clamp v (sat_low s) (sat_high s)"

definition deadband_update :: "'a::{ord, zero, abs} \<Rightarrow> 'a \<Rightarrow> 'a" where
  "deadband_update threshold v = (if \<bar>v\<bar> \<le> threshold then 0 else v)"

record 'a slew =
  sl_rising_rate :: 'a
  sl_falling_rate :: 'a
  sl_value :: 'a
  sl_initialized :: bool

definition SlewRateLimiter :: "'a::zero \<Rightarrow> 'a \<Rightarrow> 'a slew" where
  "SlewRateLimiter rising_rate falling_rate =
     \<lparr>sl_rising_rate = rising_rate, sl_falling_rate = falling_rate, sl_value = 0, sl_initialized = False\<rparr>"

definition slew_update :: "'a::{ord, zero, plus, minus, uminus, times} \<Rightarrow> 'a \<Rightarrow> 'a slew \<Rightarrow> 'a \<times> 'a slew" where
  "slew_update target dt_s s =
     (if \<not> sl_initialized s then (target, s\<lparr>sl_value := target, sl_initialized := True\<rparr>)
      else
        let delta = target - sl_value s; up = sl_rising_rate s * dt_s; down = sl_falling_rate s * dt_s;
            limited = (if 0 \<le> delta then cpp_min delta up else cpp_max delta (- down)); v = sl_value s + limited in
        (v, s\<lparr>sl_value := v\<rparr>))"

definition slew_reset :: "'a \<Rightarrow> 'a slew \<Rightarrow> 'a slew" where
  "slew_reset v s = s\<lparr>sl_value := v, sl_initialized := True\<rparr>"

subsection \<open>PID controller\<close>

record 'a Gains =
  gain_kp :: 'a
  gain_ki :: 'a
  gain_kd :: 'a

record 'a pid =
  pid_gains :: "'a Gains"
  pid_output_min :: 'a
  pid_output_max :: 'a
  pid_integral :: 'a
  pid_previous_error :: 'a
  pid_has_previous :: bool

definition PID :: "'a::zero Gains \<Rightarrow> 'a \<Rightarrow> 'a \<Rightarrow> 'a pid" where
  "PID gains output_min output_max =
     \<lparr>pid_gains = gains, pid_output_min = output_min, pid_output_max = output_max, pid_integral = 0, pid_previous_error = 0, pid_has_previous = False\<rparr>"

definition pid_update :: "'a::{ord, zero, plus, minus, times, inverse} \<Rightarrow> 'a \<Rightarrow> 'a \<Rightarrow> 'a pid \<Rightarrow> 'a \<times> 'a pid" where
  "pid_update setpoint measurement dt_s s =
     (let error = setpoint - measurement; kp = gain_kp (pid_gains s); ki = gain_ki (pid_gains s); kd = gain_kd (pid_gains s) in
      if dt_s \<le> 0 then (clamp (kp * error + ki * pid_integral s) (pid_output_min s) (pid_output_max s), s)
      else
        let integral = pid_integral s + error * dt_s;
            derivative = (if pid_has_previous s then (error - pid_previous_error s) / dt_s else 0);
            output = kp * error + ki * integral + kd * derivative;
            saturated = clamp output (pid_output_min s) (pid_output_max s) in
        (saturated,
         s\<lparr>pid_integral := (if differs output saturated \<and> differs ki 0 then (saturated - kp * error - kd * derivative) / ki else integral),
           pid_previous_error := error, pid_has_previous := True\<rparr>))"

definition pid_reset :: "'a::zero pid \<Rightarrow> 'a pid" where
  "pid_reset s = s\<lparr>pid_integral := 0, pid_previous_error := 0, pid_has_previous := False\<rparr>"

subsection \<open>Signals\<close>

definition map_range :: "'a::{plus, minus, times, inverse} \<Rightarrow> 'a \<Rightarrow> 'a \<Rightarrow> 'a \<Rightarrow> 'a \<Rightarrow> 'a" where
  "map_range v in_min in_max out_min out_max = (v - in_min) * (out_max - out_min) / (in_max - in_min) + out_min"

definition normalize_value :: "'a::{zero, one, plus, minus, times, inverse} \<Rightarrow> 'a \<Rightarrow> 'a \<Rightarrow> 'a" where
  "normalize_value v min_value max_value = map_range v min_value max_value 0 1"

definition rescale :: "'a::{zero, one, plus, minus, times, inverse} \<Rightarrow> 'a \<Rightarrow> 'a \<Rightarrow> 'a" where
  "rescale normalized min_value max_value = map_range normalized 0 1 min_value max_value"

definition threshold :: "'a::ord \<Rightarrow> 'a \<Rightarrow> bool" where
  "threshold v threshold_value \<longleftrightarrow> threshold_value \<le> v"

text \<open>The state of an edge detector is the previous value; both methods replace it.\<close>

definition rising :: "bool \<Rightarrow> bool \<Rightarrow> bool \<times> bool" where
  "rising v previous = (v \<and> \<not> previous, v)"

definition falling :: "bool \<Rightarrow> bool \<Rightarrow> bool \<times> bool" where
  "falling v previous = (\<not> v \<and> previous, v)"

subsection \<open>Statistics\<close>

record 'a min_max =
  mm_min :: 'a
  mm_max :: 'a
  mm_initialized :: bool

definition new_MinMax :: "'a::zero min_max" where
  "new_MinMax = \<lparr>mm_min = 0, mm_max = 0, mm_initialized = False\<rparr>"

definition min_max_update :: "'a::ord \<Rightarrow> 'a min_max \<Rightarrow> 'a min_max" where
  "min_max_update x s =
     (if \<not> mm_initialized s then s\<lparr>mm_min := x, mm_max := x, mm_initialized := True\<rparr>
      else
        let s = (if x < mm_min s then s\<lparr>mm_min := x\<rparr> else s) in
        if mm_max s < x then s\<lparr>mm_max := x\<rparr> else s)"

text \<open>\<open>to_double\<close> converts the count.\<close>

record 'a mean_variance =
  mv_count :: nat
  mv_mean :: 'a
  mv_m2 :: 'a

definition new_MeanVariance :: "'a::zero mean_variance" where
  "new_MeanVariance = \<lparr>mv_count = 0, mv_mean = 0, mv_m2 = 0\<rparr>"

definition mean_variance_update :: "(nat \<Rightarrow> 'a) \<Rightarrow> 'a::{plus, minus, times, inverse} \<Rightarrow> 'a mean_variance \<Rightarrow> 'a mean_variance" where
  "mean_variance_update to_double x s =
     (let n = mv_count s + 1; delta = x - mv_mean s; mean = mv_mean s + delta / to_double n; delta2 = x - mean in
      s\<lparr>mv_count := n, mv_mean := mean, mv_m2 := mv_m2 s + delta * delta2\<rparr>)"

definition variance :: "(nat \<Rightarrow> 'a) \<Rightarrow> 'a::{zero, inverse} mean_variance \<Rightarrow> 'a" where
  "variance to_double s = (if 1 < mv_count s then mv_m2 s / to_double (mv_count s - 1) else 0)"

definition rate :: "(nat \<Rightarrow> 'a) \<Rightarrow> nat \<Rightarrow> 'a::{ord, zero, inverse} \<Rightarrow> 'a" where
  "rate to_double n elapsed_s = (if 0 < elapsed_s then to_double n / elapsed_s else 0)"

record 'a frequency =
  fe_last_timestamp_s :: 'a
  fe_frequency_hz :: 'a
  fe_initialized :: bool

definition new_FrequencyEstimator :: "'a::zero frequency" where
  "new_FrequencyEstimator = \<lparr>fe_last_timestamp_s = 0, fe_frequency_hz = 0, fe_initialized = False\<rparr>"

definition frequency_update :: "'a::{ord, zero, one, minus, inverse} \<Rightarrow> 'a frequency \<Rightarrow> 'a \<times> 'a frequency" where
  "frequency_update timestamp_s s =
     (if \<not> fe_initialized s then (0, s\<lparr>fe_last_timestamp_s := timestamp_s, fe_initialized := True\<rparr>)
      else
        let dt = timestamp_s - fe_last_timestamp_s s; f = (if 0 < dt then 1 / dt else 0) in
        (f, s\<lparr>fe_last_timestamp_s := timestamp_s, fe_frequency_hz := f\<rparr>))"

subsection \<open>The controller's output\<close>

type_synonym 'a pid_input = "'a \<times> 'a \<times> 'a"

fun pid_run :: "'a::{ord, zero, plus, minus, times, inverse} pid_input list \<Rightarrow> 'a pid \<Rightarrow> 'a list" where
  "pid_run [] s = []"
| "pid_run ((setpoint, measurement, dt_s) # is) s =
     (case pid_update setpoint measurement dt_s s of (output, s) \<Rightarrow> output # pid_run is s)"

lemma clamp_float: "lo \<le> hi \<Longrightarrow> clamp v lo hi = NaN \<or> lo \<le> clamp v lo hi \<and> clamp v lo hi \<le> (hi :: float64)"
  by (cases v; cases lo; cases hi) (auto simp: clamp_def clamp_value_def less_eq_float64_def)

lemma pid_update_limits: "pid_output_min (snd (pid_update r m dt s)) = pid_output_min s" "pid_output_max (snd (pid_update r m dt s)) = pid_output_max s"
  "pid_gains (snd (pid_update r m dt s)) = pid_gains s"
  by (simp_all add: pid_update_def Let_def)

lemma pid_output_clamped: "\<exists>v. fst (pid_update r m dt s) = clamp v (pid_output_min s) (pid_output_max s)"
  by (auto simp: pid_update_def Let_def)

lemma pid_run_limited:
  "pid_output_min s \<le> pid_output_max s \<Longrightarrow>
   list_all (\<lambda>v. v = NaN \<or> pid_output_min s \<le> v \<and> v \<le> (pid_output_max s :: float64)) (pid_run is s)"
proof (induction "is" arbitrary: s)
  case (Cons i "is")
  obtain r m dt where i: "i = (r, m, dt)" by (cases i)
  obtain v where "fst (pid_update r m dt s) = clamp v (pid_output_min s) (pid_output_max s)" using pid_output_clamped by blast
  with clamp_float [OF Cons.prems, of v] Cons.IH [of "snd (pid_update r m dt s)"] Cons.prems show ?case
    by (simp add: i pid_update_limits case_prod_beta)
qed simp

text \<open>NaN passes the limits and stays in the integral.\<close>

lemma float_NaN [simp]: "NaN + a = NaN" "a + NaN = NaN" "NaN * a = NaN" "a * NaN = NaN" "NaN - a = NaN" "a - NaN = NaN" "NaN / a = NaN"
  by (cases a; simp add: minus_float64_def divide_float64_def)+

lemma clamp_NaN [simp]: "clamp NaN lo hi = NaN"
  by (simp add: clamp_def clamp_value_def)

lemma pid_NaN_sticks: "pid_integral s = NaN \<Longrightarrow> list_all (\<lambda>v. v = NaN) (pid_run is s)"
proof (induction "is" arbitrary: s)
  case (Cons i "is")
  obtain r m dt where i: "i = (r, m, dt)" by (cases i)
  have "fst (pid_update r m dt s) = NaN" "pid_integral (snd (pid_update r m dt s)) = NaN"
    using Cons.prems by (simp_all add: pid_update_def Let_def)
  with Cons.IH [of "snd (pid_update r m dt s)"] show ?case by (simp add: i case_prod_beta)
qed simp

text \<open>Whatever is fed to the controller, each of its outputs lies between its limits or is NaN; after a measurement that is NaN, in a
  step that takes time, all are NaN until it is reset. With exact numbers a saturated step leaves the integral where the unlimited
  output equals the limit (if there is an integral gain), and an unsaturated one adds the error over the step.
\<close>

theorem pid_output_limited:
  assumes "lo \<le> hi"
  shows "list_all (\<lambda>v. v = NaN \<or> lo \<le> v \<and> v \<le> hi) (pid_run is (PID gains lo hi)) \<and>
    (0 < dt \<longrightarrow> list_all (\<lambda>v. v = NaN) (pid_run ((r, NaN, dt) # is) (s :: float64 pid))) \<and>
    (0 < d \<and> pid_update r' m' d p = (v, p') \<longrightarrow>
      (let error = r' - m'; derivative = (if pid_has_previous p then (error - pid_previous_error p) / d else 0);
           demand = (\<lambda>i. gain_kp (pid_gains p) * error + gain_ki (pid_gains p) * i + gain_kd (pid_gains p) * derivative) in
       if demand (pid_integral p + error * d) = v \<or> gain_ki (pid_gains p) = 0 then pid_integral p' = pid_integral p + error * d
       else demand (pid_integral p') = (v :: 'a::linordered_field)))"
proof (intro conjI impI)
  show "list_all (\<lambda>v. v = NaN \<or> lo \<le> v \<and> v \<le> hi) (pid_run is (PID gains lo hi))"
    using pid_run_limited [of "PID gains lo hi" "is"] assms by (simp add: PID_def)
next
  assume dt: "0 < dt"
  then have "\<not> dt \<le> 0" by (cases dt) (auto simp: less_eq_float64_def zero_float64_def)
  then have step: "fst (pid_update r NaN dt s) = NaN" "pid_integral (snd (pid_update r NaN dt s)) = NaN"
    by (simp_all add: pid_update_def Let_def)
  show "list_all (\<lambda>v. v = NaN) (pid_run ((r, NaN, dt) # is) s)"
    using pid_NaN_sticks [OF step(2), of "is"] step(1) by (simp add: case_prod_beta)
next
  assume a: "0 < d \<and> pid_update r' m' d p = (v, p')"
  then show "(let error = r' - m'; derivative = (if pid_has_previous p then (error - pid_previous_error p) / d else 0);
           demand = (\<lambda>i. gain_kp (pid_gains p) * error + gain_ki (pid_gains p) * i + gain_kd (pid_gains p) * derivative) in
       if demand (pid_integral p + error * d) = v \<or> gain_ki (pid_gains p) = 0 then pid_integral p' = pid_integral p + error * d
       else demand (pid_integral p') = v)"
    by (auto simp: pid_update_def Let_def not_le [symmetric])
qed

definition demo_gains :: "'a::{zero, one, plus} Gains" where
  "demo_gains = \<lparr>gain_kp = 1, gain_ki = 1, gain_kd = 0\<rparr>"

theorem pid_output_limited_witness:
  "list_all (\<lambda>v. v = NaN \<or> Fin (- 1) \<le> v \<and> v \<le> Fin 1) (pid_run [(Fin 0, Fin 5, Fin 1)] (PID demo_gains (Fin (- 1)) (Fin 1))) \<and>
   pid_run [(Fin 0, NaN, Fin 1), (Fin 0, Fin 5, Fin 1)] (PID demo_gains (Fin (- 1)) (Fin 1)) = [NaN, NaN] \<and>
   pid_integral (snd (pid_update 5 0 1 (PID demo_gains (- 1) (1 :: rat)))) = - 4"
proof -
  have "0 < Fin 1" by (simp add: zero_float64_def)
  have "pid_update 5 0 1 (PID demo_gains (- 1) (1 :: rat)) = (1, snd (pid_update 5 0 1 (PID demo_gains (- 1) (1 :: rat))))"
    by (simp add: pid_update_def PID_def demo_gains_def Let_def clamp_def clamp_value_def)
  from pid_output_limited [of "Fin (- 1)" "Fin 1" "[(Fin 0, Fin 5, Fin 1)]" demo_gains "Fin 1" "Fin 0" "PID demo_gains (Fin (- 1)) (Fin 1)"
      1 5 0 "PID demo_gains (- 1) (1 :: rat)" 1 "snd (pid_update 5 0 1 (PID demo_gains (- 1) (1 :: rat)))"] this \<open>0 < Fin 1\<close>
  show ?thesis by (simp add: case_prod_beta Let_def) (simp add: PID_def demo_gains_def)
qed

subsection \<open>Rates of change\<close>

text \<open>With exact numbers and one rate the limiter approaches a constant target by at most that rate, and reaches it.\<close>

lemma slew_step:
  fixes s :: "'a::linordered_field slew"
  assumes "sl_initialized s" "0 \<le> sl_rising_rate s * dt" "0 \<le> sl_falling_rate s * dt"
  shows "sl_value s \<le> target \<Longrightarrow> fst (slew_update target dt s) = min target (sl_value s + sl_rising_rate s * dt)"
    "target \<le> sl_value s \<Longrightarrow> fst (slew_update target dt s) = max target (sl_value s - sl_falling_rate s * dt)"
  using assms by (auto simp: slew_update_def Let_def cpp_min_def cpp_max_def min_def max_def)

lemma slew_reaches:
  fixes s :: "'a::linordered_field slew"
  assumes "sl_initialized s" "0 \<le> sl_rising_rate s * dt" "sl_value s \<le> target"
  shows "sl_value (((\<lambda>s. snd (slew_update target dt s)) ^^ n) s) = min target (sl_value s + of_nat n * (sl_rising_rate s * dt))"
proof (induction n)
  case (Suc n)
  let ?t = "((\<lambda>s. snd (slew_update target dt s)) ^^ n) s"
  have same: "sl_initialized ?t \<and> sl_rising_rate ?t = sl_rising_rate s" using assms(1) by (induction n) (auto simp: slew_update_def Let_def)
  have "sl_value ?t \<le> target" by (simp add: Suc)
  then have "sl_value (snd (slew_update target dt ?t)) = min target (sl_value ?t + sl_rising_rate s * dt)"
    using same assms(2) by (auto simp: slew_update_def Let_def cpp_min_def min_def)
  then show ?case using assms(2) by (auto simp: Suc min_def algebra_simps)
qed (use assms in simp)

text \<open>A value normalised to the unit interval and rescaled is itself again.\<close>

lemma normalize_rescale: "a \<noteq> b \<Longrightarrow> rescale (normalize_value v a b) a b = (v :: 'a::linordered_field)"
  by (simp add: rescale_def normalize_value_def map_range_def)

text \<open>Asking one detector for both edges hides those asked for last.\<close>

lemma edges_hidden: "\<not> fst (falling v (snd (rising v previous)))" "\<not> fst (rising v (snd (falling v previous)))"
  by (simp_all add: rising_def falling_def)

subsection \<open>Mean, variance and extremes\<close>

lemma Welford_sums:
  fixes xs :: "'a::linordered_field list"
  defines "s \<equiv> fold (mean_variance_update of_nat) xs new_MeanVariance"
  shows "mv_count s = length xs \<and> mv_mean s * of_nat (length xs) = sum_list xs \<and>
    mv_m2 s * of_nat (length xs) = of_nat (length xs) * sum_list (map (\<lambda>x. x * x) xs) - sum_list xs * sum_list xs"
  unfolding s_def
proof (induction xs rule: rev_induct)
  case (snoc x xs)
  let ?s = "fold (mean_variance_update of_nat) xs new_MeanVariance"
  define n where "n = (of_nat (length xs) :: 'a)"
  define m where "m = mv_mean ?s"
  define q where "q = sum_list (map (\<lambda>x. x * x) xs)"
  have n: "0 \<le> n" "n + 1 \<noteq> 0" by (simp_all add: n_def add_nonneg_eq_0_iff)
  have sums: "mv_count ?s = length xs" "sum_list xs = m * n" "mv_m2 ?s * n = n * q - m * n * (m * n)"
    using snoc by (simp_all add: n_def m_def q_def)
  have "mv_m2 ?s * n = (q - m * m * n) * n" using sums(3) by (simp add: algebra_simps)
  then have m2: "n \<noteq> 0 \<Longrightarrow> mv_m2 ?s = q - m * m * n" by simp
  define m' where "m' = m + (x - m) / (n + 1)"
  have m': "m' * (n + 1) = m * n + x" using n(2) by (simp add: m'_def field_simps)
  have step: "mean_variance_update of_nat x ?s =
      ?s\<lparr>mv_count := Suc (length xs), mv_mean := m', mv_m2 := mv_m2 ?s + (x - m) * (x - m')\<rparr>"
    by (simp add: mean_variance_update_def Let_def sums(1) m'_def m_def n_def add.commute)
  have "(mv_m2 ?s + (x - m) * (x - m')) * (n + 1) = (n + 1) * (q + x * x) - (m * n + x) * (m * n + x)"
  proof (cases "n = 0")
    case True
    then have "xs = []" by (simp add: n_def)
    then show ?thesis using True m' by (simp add: q_def new_MeanVariance_def m_def)
  next
    case False
    have "(mv_m2 ?s + (x - m) * (x - m')) * (n + 1) = (q - m * m * n) * (n + 1) + (x - m) * (x * (n + 1) - m' * (n + 1))"
      by (simp add: m2 [OF False] algebra_simps)
    also have "\<dots> = (n + 1) * (q + x * x) - (m * n + x) * (m * n + x)" by (simp only: m') (simp add: algebra_simps)
    finally show ?thesis .
  qed
  then show ?case using m' by (simp add: step sums(2) n_def [symmetric] q_def add.commute)
qed (simp add: new_MeanVariance_def)

lemma squares_about: "sum_list (map (\<lambda>x. (x - m) * (x - m)) xs) = sum_list (map (\<lambda>x. x * x) xs) - 2 * m * sum_list xs + of_nat (length xs) * (m * m)"
  for m :: "'a::linordered_field"
  by (induction xs) (simp_all add: algebra_simps)

lemma min_max_step:
  "mm_initialized s \<Longrightarrow> mm_initialized (min_max_update x s) \<and> mm_min (min_max_update x s) = min x (mm_min s) \<and>
   mm_max (min_max_update x s) = max x (mm_max s)" for x :: "'a::linorder"
  by (auto simp: min_max_update_def Let_def min_def max_def)

lemma min_max_fold:
  fixes xs :: "'a::{linorder, zero} list"
  shows "xs \<noteq> [] \<Longrightarrow> mm_initialized (fold min_max_update xs new_MinMax) \<and>
    mm_min (fold min_max_update xs new_MinMax) = Min (set xs) \<and> mm_max (fold min_max_update xs new_MinMax) = Max (set xs)"
proof (induction xs rule: rev_induct)
  case (snoc x xs)
  show ?case
  proof (cases "xs = []")
    case False
    then show ?thesis using snoc.IH min_max_step [of "fold min_max_update xs new_MinMax" x] by simp
  qed (simp add: min_max_update_def new_MinMax_def)
qed simp

text \<open>Over doubles an extreme that is NaN is kept for ever.\<close>

lemma min_max_NaN: "mm_initialized s \<Longrightarrow> mm_min s = NaN \<Longrightarrow> mm_max s = NaN \<Longrightarrow> fold min_max_update xs s = s"
  by (induction xs) (simp_all add: min_max_update_def Let_def)

text \<open>With exact numbers the one-pass update gives the mean of all samples and, from two of them on, the variance by its two-pass
  definition; the extremes are the least and greatest sample. With doubles a first sample that is NaN stays both extremes for ever.
\<close>

theorem statistics_exact:
  fixes xs :: "'a::linordered_field list"
  assumes "xs \<noteq> []"
  shows "mv_mean (fold (mean_variance_update of_nat) xs new_MeanVariance) = sum_list xs / of_nat (length xs) \<and>
    (2 \<le> length xs \<longrightarrow> variance of_nat (fold (mean_variance_update of_nat) xs new_MeanVariance) =
      sum_list (map (\<lambda>x. (x - sum_list xs / of_nat (length xs)) * (x - sum_list xs / of_nat (length xs))) xs) / of_nat (length xs - 1)) \<and>
    mm_min (fold min_max_update xs new_MinMax) = Min (set xs) \<and> mm_max (fold min_max_update xs new_MinMax) = Max (set xs) \<and>
    mm_min (fold min_max_update (NaN # ds) new_MinMax) = NaN \<and> mm_max (fold min_max_update (NaN # ds) new_MinMax) = NaN"
proof -
  let ?s = "fold (mean_variance_update of_nat) xs new_MeanVariance" let ?n = "of_nat (length xs) :: 'a"
  have n: "?n \<noteq> 0" using assms by simp
  note w = Welford_sums [of xs]
  have mean: "mv_mean ?s = sum_list xs / ?n" using w n by (simp add: eq_divide_eq)
  have "mv_m2 ?s = sum_list (map (\<lambda>x. x * x) xs) - sum_list xs * sum_list xs / ?n" using w n by (simp add: field_simps)
  also have "\<dots> = sum_list (map (\<lambda>x. (x - sum_list xs / ?n) * (x - sum_list xs / ?n)) xs)" unfolding squares_about using n by (simp add: field_simps)
  finally have m2: "mv_m2 ?s = sum_list (map (\<lambda>x. (x - sum_list xs / ?n) * (x - sum_list xs / ?n)) xs)" .
  have nan: "min_max_update NaN new_MinMax = \<lparr>mm_min = NaN, mm_max = NaN, mm_initialized = True\<rparr>" by (simp add: min_max_update_def new_MinMax_def)
  show ?thesis using mean m2 w min_max_fold [OF assms] min_max_NaN [of "\<lparr>mm_min = NaN, mm_max = NaN, mm_initialized = True\<rparr>" ds]
    by (simp add: variance_def nan)
qed

theorem statistics_exact_witness:
  "variance of_nat (fold (mean_variance_update of_nat) [1, 2, 6] new_MeanVariance) = (7 :: rat)"
  using statistics_exact [of "[1, 2, 6 :: rat]" "[]"] by simp

end
