(* ===== verification/Osal_Io.thy ===== *)
theory Osal_Io
  imports Prelude
begin

section \<open>System calls and byte streams (platform/osal: types.hpp, fifo.cpp, pipe.cpp)\<close>

text \<open>
  The layer over the operating system is a sequence of system calls each, whose outcome the kernel decides. The \<open>kernel\<close> has the open
  descriptors and the outcomes of the calls to come; when these are used up a call fails, so that every finite course of
  events is a list of outcomes. A new descriptor is the least unused one, as POSIX requires. Pointer arguments are taken to be valid.
\<close>

type_synonym Result = int

definition kOk :: Result where "kOk = 0"
definition kErrInvalidArg :: Result where "kErrInvalidArg = - 1"
definition kErrNoMem :: Result where "kErrNoMem = - 2"
definition kErrBusy :: Result where "kErrBusy = - 3"
definition kErrAgain :: Result where "kErrAgain = - 4"
definition kErrInternal :: Result where "kErrInternal = - 5"
definition kErrUnsupported :: Result where "kErrUnsupported = - 6"
definition kErrDeadlock :: Result where "kErrDeadlock = - 7"
definition kErrTimeout :: Result where "kErrTimeout = - 8"

lemmas result_codes = kOk_def kErrInvalidArg_def kErrNoMem_def kErrBusy_def kErrAgain_def kErrInternal_def kErrUnsupported_def
  kErrDeadlock_def kErrTimeout_def

datatype errno = EAGAIN | EINTR | EINPROGRESS | ENOENT | EBUSY | ETIMEDOUT | EDEADLK | ENOMEM | EEXIST | EINVAL | ENOSYS | ENOTSUP | EACCES | EIO

definition from_errno :: "errno \<Rightarrow> Result" where
  "from_errno err =
     (case err of EAGAIN \<Rightarrow> kErrAgain | EBUSY \<Rightarrow> kErrBusy | ETIMEDOUT \<Rightarrow> kErrTimeout | EDEADLK \<Rightarrow> kErrDeadlock | ENOMEM \<Rightarrow> kErrNoMem
      | _ \<Rightarrow> kErrInternal)"

subsection \<open>The kernel\<close>

text \<open>
  An outcome is a number or an error. Of a descriptor the kernel knows what has been written to it, in pieces, and the bytes that are
  there to be read.
\<close>

datatype outcome = Ret nat | Err errno

record kernel =
  k_open :: "int list"
  k_outcomes :: "outcome list"
  k_written :: "(int \<times> u8 list) list"
  k_incoming :: "int \<Rightarrow> u8 list"
  k_unlinked :: "string list"

definition sys_call :: "kernel \<Rightarrow> (errno + nat) \<times> kernel" where
  "sys_call k =
     (case k_outcomes k of [] \<Rightarrow> (Inl EIO, k)
      | a # as \<Rightarrow> ((case a of Ret n \<Rightarrow> Inr n | Err e \<Rightarrow> Inl e), k\<lparr>k_outcomes := as\<rparr>))"

definition fresh_fd :: "int list \<Rightarrow> int" where
  "fresh_fd fds = int (hd (filter (\<lambda>n. int n \<notin> set fds) [0..<Suc (length fds)]))"

text \<open>A call that opens a descriptor.\<close>

definition sys_open :: "kernel \<Rightarrow> (errno + int) \<times> kernel" where
  "sys_open k =
     (case sys_call k of (Inl e, k) \<Rightarrow> (Inl e, k)
      | (Inr _, k) \<Rightarrow> let fd = fresh_fd (k_open k) in (Inr fd, k\<lparr>k_open := fd # k_open k\<rparr>))"

definition sys_close :: "int \<Rightarrow> kernel \<Rightarrow> kernel" where
  "sys_close fd k = k\<lparr>k_open := removeAll fd (k_open k)\<rparr>"

definition sys_unlink :: "string \<Rightarrow> kernel \<Rightarrow> kernel" where
  "sys_unlink path k = k\<lparr>k_unlinked := k_unlinked k @ [path]\<rparr>"

definition sys_write :: "int \<Rightarrow> u8 list \<Rightarrow> kernel \<Rightarrow> (errno + nat) \<times> kernel" where
  "sys_write fd bs k =
     (case sys_call k of (Inl e, k) \<Rightarrow> (Inl e, k)
      | (Inr n, k) \<Rightarrow> let n = min n (length bs) in (Inr n, k\<lparr>k_written := k_written k @ [(fd, take n bs)]\<rparr>))"

definition sys_read :: "int \<Rightarrow> nat \<Rightarrow> kernel \<Rightarrow> (errno + u8 list) \<times> kernel" where
  "sys_read fd len k =
     (case sys_call k of (Inl e, k) \<Rightarrow> (Inl e, k)
      | (Inr n, k) \<Rightarrow>
          let m = min n len in (Inr (take m (k_incoming k fd)), k\<lparr>k_incoming := (k_incoming k)(fd := drop m (k_incoming k fd))\<rparr>))"

lemma sys_call_shorter:
  "sys_call k = (Inr n, k') \<Longrightarrow> length (k_outcomes k') < length (k_outcomes k)" "length (k_outcomes (snd (sys_call k))) \<le> length (k_outcomes k)"
  by (auto simp: sys_call_def split: list.splits)

lemma sys_write_shorter: "length (k_outcomes (snd (sys_write fd bs k))) \<le> length (k_outcomes k)"
  using sys_call_shorter(2) [of k] by (auto simp: sys_write_def Let_def split: prod.splits sum.splits)

lemma sys_read_shorter: "length (k_outcomes (snd (sys_read fd len k))) \<le> length (k_outcomes k)"
  using sys_call_shorter(2) [of k] by (auto simp: sys_read_def Let_def split: prod.splits sum.splits)

definition set_nonblocking :: "kernel \<Rightarrow> Result \<times> kernel" where
  "set_nonblocking k =
     (case sys_call k of (Inl _, k) \<Rightarrow> (kErrInternal, k)
      | (Inr flags, k) \<Rightarrow> (case sys_call k of (Inl _, k) \<Rightarrow> (kErrInternal, k) | (Inr _, k) \<Rightarrow> (kOk, k)))"

subsection \<open>Transfer loops\<close>

text \<open>
  The loop by which FIFOs, pipes and stream sockets write: wait until the descriptor is ready, write what is left, go on after a
  partial write. \<open>zero\<close> is what is returned when the wait times out. The result has the number of bytes sent.
\<close>

function write_loop :: "Result \<Rightarrow> int \<Rightarrow> int \<Rightarrow> u8 list \<Rightarrow> nat \<Rightarrow> kernel \<Rightarrow> Result \<times> nat \<times> kernel" where
  "write_loop zero timeout_ms fd buf sent k =
     (if sent < length buf then
        (case sys_call k of
           (Inl e, k1) \<Rightarrow> (if e = EINTR then kErrAgain else kErrInternal, sent, k1)
         | (Inr rc, k1) \<Rightarrow>
             if rc = 0 then (zero, sent, k1)
             else
               let r = sys_write fd (drop sent buf) k1 in
               (case fst r of
                  Inr n \<Rightarrow> if 0 < n then write_loop zero timeout_ms fd buf (sent + n) (snd r) else (kErrInternal, sent, snd r)
                | Inl e \<Rightarrow>
                    if e = EAGAIN then if timeout_ms = 0 then (kErrTimeout, sent, snd r) else write_loop zero timeout_ms fd buf sent (snd r)
                    else if e = EINTR then write_loop zero timeout_ms fd buf sent (snd r)
                    else (kErrInternal, sent, snd r)))
      else (kOk, sent, k))"
  by pat_completeness auto
termination
  by (relation "measure (\<lambda>(zero, timeout_ms, fd, buf, sent, k). length (k_outcomes k))")
    (auto dest!: sys_call_shorter(1) [OF sym] intro: le_less_trans [OF sys_write_shorter])

declare write_loop.simps [simp del]

function read_loop :: "int \<Rightarrow> int \<Rightarrow> nat \<Rightarrow> u8 list \<Rightarrow> kernel \<Rightarrow> Result \<times> u8 list \<times> kernel" where
  "read_loop timeout_ms fd len got k =
     (if length got < len then
        (case sys_call k of
           (Inl e, k1) \<Rightarrow> (if e = EINTR then kErrAgain else kErrInternal, got, k1)
         | (Inr rc, k1) \<Rightarrow>
             if rc = 0 then (kErrTimeout, got, k1)
             else
               let r = sys_read fd (len - length got) k1 in
               (case fst r of
                  Inr bs \<Rightarrow> if bs \<noteq> [] then read_loop timeout_ms fd len (got @ bs) (snd r) else (kErrInternal, got, snd r)
                | Inl e \<Rightarrow>
                    if e = EAGAIN then if timeout_ms = 0 then (kErrTimeout, got, snd r) else read_loop timeout_ms fd len got (snd r)
                    else if e = EINTR then read_loop timeout_ms fd len got (snd r)
                    else (kErrInternal, got, snd r)))
      else (kOk, got, k))"
  by pat_completeness auto
termination
  by (relation "measure (\<lambda>(timeout_ms, fd, len, got, k). length (k_outcomes k))")
    (auto dest!: sys_call_shorter(1) [OF sym] intro: le_less_trans [OF sys_read_shorter])

declare read_loop.simps [simp del]

subsection \<open>Pipes and FIFOs\<close>

text \<open>The count a caller gets: all of it on success and none otherwise.\<close>

record Pipe =
  pi_read :: int
  pi_write :: int
  pi_inited :: bool

definition new_Pipe :: Pipe where
  "new_Pipe = \<lparr>pi_read = - 1, pi_write = - 1, pi_inited = False\<rparr>"

definition Pipe_create :: "Pipe \<Rightarrow> kernel \<Rightarrow> Result \<times> Pipe \<times> kernel" where
  "Pipe_create p k =
     (case sys_call k of (Inl _, k) \<Rightarrow> (kErrInternal, p, k)
      | (Inr _, k) \<Rightarrow>
          let r = fresh_fd (k_open k); w = fresh_fd (r # k_open k); k = k\<lparr>k_open := w # r # k_open k\<rparr> in
          (case set_nonblocking k of (res, k) \<Rightarrow>
             if res \<noteq> kOk then (kErrInternal, p, sys_close w (sys_close r k))
             else (case set_nonblocking k of (res, k) \<Rightarrow>
                if res \<noteq> kOk then (kErrInternal, p, sys_close w (sys_close r k))
                else (kOk, p\<lparr>pi_read := r, pi_write := w, pi_inited := True\<rparr>, k))))"

definition close_if :: "int \<Rightarrow> kernel \<Rightarrow> kernel" where
  "close_if fd k = (if 0 \<le> fd then sys_close fd k else k)"

definition Pipe_close :: "Pipe \<Rightarrow> kernel \<Rightarrow> Result \<times> Pipe \<times> kernel" where
  "Pipe_close p k = (kOk, new_Pipe, close_if (pi_write p) (close_if (pi_read p) k))"

definition counted :: "Result \<Rightarrow> nat \<Rightarrow> nat" where
  "counted res n = (if res = kOk then n else 0)"

definition Pipe_write :: "u8 list \<Rightarrow> int \<Rightarrow> Pipe \<Rightarrow> kernel \<Rightarrow> Result \<times> nat \<times> kernel" where
  "Pipe_write buf timeout_ms p k =
     (if \<not> pi_inited p then (kErrInvalidArg, 0, k)
      else case write_loop kErrTimeout timeout_ms (pi_write p) buf 0 k of (res, n, k) \<Rightarrow> (res, counted res n, k))"

definition Pipe_read :: "nat \<Rightarrow> int \<Rightarrow> Pipe \<Rightarrow> kernel \<Rightarrow> Result \<times> u8 list \<times> nat \<times> kernel" where
  "Pipe_read len timeout_ms p k =
     (if \<not> pi_inited p then (kErrInvalidArg, [], 0, k)
      else case read_loop timeout_ms (pi_read p) len [] k of (res, got, k) \<Rightarrow> (res, got, counted res (length got), k))"

record Fifo =
  ff_fd :: int
  ff_inited :: bool
  ff_reads :: bool
  ff_writes :: bool
  ff_path :: string

definition new_Fifo :: Fifo where
  "new_Fifo = \<lparr>ff_fd = - 1, ff_inited = False, ff_reads = False, ff_writes = False, ff_path = []\<rparr>"

text \<open>The bytes a C function sees of a string.\<close>

definition c_str :: "string \<Rightarrow> string" where
  "c_str s = takeWhile (\<lambda>c. c \<noteq> CHR 0x00) s"

text \<open>Opening replaces the state without closing what it held; the path is made a FIFO if there is nothing.\<close>

definition Fifo_open :: "string \<Rightarrow> bool \<Rightarrow> bool \<Rightarrow> Fifo \<Rightarrow> kernel \<Rightarrow> Result \<times> Fifo \<times> kernel" where
  "Fifo_open path reads writes f k =
     (if path = [] \<or> \<not> reads \<and> \<not> writes then (kErrInvalidArg, f, k)
      else
        let f = new_Fifo\<lparr>ff_reads := reads, ff_writes := writes, ff_path := take 255 (c_str path)\<rparr> in
        (case sys_call k of (stat, k) \<Rightarrow>
         case (case stat of Inr _ \<Rightarrow> (True, k)
               | Inl e \<Rightarrow> if e = ENOENT then (case sys_call k of (Inr _, k) \<Rightarrow> (True, k) | (Inl _, k) \<Rightarrow> (False, k)) else (False, k)) of (there, k) \<Rightarrow>
           if \<not> there then (kErrInternal, f, k)
           else (case sys_open k of (Inl _, k) \<Rightarrow> (kErrInternal, f, k)
              | (Inr fd, k) \<Rightarrow>
                  (case set_nonblocking k of (res, k) \<Rightarrow>
                     if res \<noteq> kOk then (kErrInternal, f, sys_close fd k) else (kOk, f\<lparr>ff_fd := fd, ff_inited := True\<rparr>, k)))))"

definition Fifo_close :: "Fifo \<Rightarrow> kernel \<Rightarrow> Result \<times> Fifo \<times> kernel" where
  "Fifo_close f k = (kOk, new_Fifo, close_if (ff_fd f) k)"

definition Fifo_unlink :: "string \<Rightarrow> kernel \<Rightarrow> Result \<times> kernel" where
  "Fifo_unlink path k =
     (if path = [] then (kErrInvalidArg, k)
      else case sys_call k of (Inr _, k) \<Rightarrow> (kOk, sys_unlink path k) | (Inl e, k) \<Rightarrow> (if e = ENOENT then kOk else kErrInternal, k))"

definition Fifo_write :: "u8 list \<Rightarrow> int \<Rightarrow> Fifo \<Rightarrow> kernel \<Rightarrow> Result \<times> nat \<times> kernel" where
  "Fifo_write buf timeout_ms f k =
     (if \<not> ff_inited f \<or> ff_fd f < 0 then (kErrInvalidArg, 0, k)
      else if \<not> ff_writes f then (kErrUnsupported, 0, k)
      else case write_loop kErrTimeout timeout_ms (ff_fd f) buf 0 k of (res, n, k) \<Rightarrow> (res, counted res n, k))"

definition Fifo_read :: "nat \<Rightarrow> int \<Rightarrow> Fifo \<Rightarrow> kernel \<Rightarrow> Result \<times> u8 list \<times> nat \<times> kernel" where
  "Fifo_read len timeout_ms f k =
     (if \<not> ff_inited f \<or> ff_fd f < 0 then (kErrInvalidArg, [], 0, k)
      else if \<not> ff_reads f then (kErrUnsupported, [], 0, k)
      else case read_loop timeout_ms (ff_fd f) len [] k of (res, got, k) \<Rightarrow> (res, got, counted res (length got), k))"

subsection \<open>What is transferred\<close>

lemma sys_call_frame: "sys_call k = (r, k') \<Longrightarrow> k_open k' = k_open k \<and> k_written k' = k_written k \<and> k_incoming k' = k_incoming k \<and> k_unlinked k' = k_unlinked k"
  by (auto simp: sys_call_def split: list.splits)

lemma fresh_fd: "fresh_fd fds \<notin> set fds \<and> 0 \<le> fresh_fd fds"
proof -
  let ?free = "filter (\<lambda>n. int n \<notin> set fds) [0..<Suc (length fds)]"
  have "?free \<noteq> []"
  proof
    assume "?free = []"
    then have "int ` {0..<Suc (length fds)} \<subseteq> set fds" 
      by (auto simp: filter_empty_conv simp del: upt_Suc)
    then have "card (int ` {0..<Suc (length fds)}) \<le> card (set fds)" by (intro card_mono) simp_all
    also have "\<dots> \<le> length fds" by (rule card_length)
    finally show False by (simp add: card_image)
  qed
  then have "hd ?free \<in> set ?free" by (rule hd_in_set)
  then show ?thesis by (simp add: fresh_fd_def del: upt_Suc)
qed

lemma sys_open_cases:
  assumes "sys_open k = (r, k')"
  obtains e where "r = Inl e" "k_open k' = k_open k" | fd where "r = Inr fd" "k_open k' = fd # k_open k" "fd \<notin> set (k_open k)" "0 \<le> fd"
  using assms fresh_fd [of "k_open k"] by (auto simp: sys_open_def Let_def dest!: sys_call_frame split: prod.splits sum.splits)

lemma sys_write_ok:
  "fst (sys_write fd bs k) = Inr n \<Longrightarrow> n \<le> length bs \<and> k_written (snd (sys_write fd bs k)) = k_written k @ [(fd, take n bs)] \<and>
     k_open (snd (sys_write fd bs k)) = k_open k"
  "fst (sys_write fd bs k) = Inl e \<Longrightarrow> k_written (snd (sys_write fd bs k)) = k_written k \<and> k_open (snd (sys_write fd bs k)) = k_open k"
  by (auto simp: sys_write_def Let_def dest!: sys_call_frame split: prod.splits sum.splits)

lemma sys_read_ok:
  "fst (sys_read fd len k) = Inr bs \<Longrightarrow> \<exists>m\<le>len. bs = take m (k_incoming k fd) \<and> k_incoming (snd (sys_read fd len k)) fd = drop m (k_incoming k fd) \<and>
     k_open (snd (sys_read fd len k)) = k_open k"
  "fst (sys_read fd len k) = Inl e \<Longrightarrow> k_incoming (snd (sys_read fd len k)) = k_incoming k \<and> k_open (snd (sys_read fd len k)) = k_open k"
  by (auto simp: sys_read_def Let_def dest!: sys_call_frame split: prod.splits sum.splits intro!: exI [of _ "min _ _"])

text \<open>The pieces written are those of a beginning of the buffer, in order; success means that they are all of it.\<close>

lemma write_loop_prefix:
  assumes "write_loop zero timeout_ms fd buf sent k = (res, n, k')" "sent \<le> length buf" "zero \<noteq> kOk"
  shows "sent \<le> n \<and> n \<le> length buf \<and> (res = kOk \<longleftrightarrow> n = length buf) \<and> k_open k' = k_open k \<and>
    (\<exists>ws. k_written k' = k_written k @ map (Pair fd) ws \<and> concat ws = take (n - sent) (drop sent buf))"
  using assms
proof (induction zero timeout_ms fd buf sent k rule: write_loop.induct)
  case (1 zero timeout_ms fd buf sent k)
  show ?case
  proof (cases "sent < length buf")
    case False
    then have "res = kOk" "n = sent" "k' = k" using "1.prems"(1) by (simp_all add: write_loop.simps [of zero timeout_ms fd buf sent k])
    with False "1.prems"(2) show ?thesis by (auto intro: exI [of _ "[]"])
  next
    case True
    obtain p k1 where p: "sys_call k = (p, k1)" by (rule prod.exhaust)
    note frame = sys_call_frame [OF p]
    have stop: ?thesis if "(res, n, k') = (r, sent, k2)" "r \<noteq> kOk" "k_open k2 = k_open k" "k_written k2 = k_written k" for r k2
      using that True by (auto intro: exI [of _ "[]"])
    show ?thesis
    proof (cases p)
      case (Inl e)
      then show ?thesis using "1.prems" True p frame
        by (intro stop [of "if e = EINTR then kErrAgain else kErrInternal" k1]) (auto simp: write_loop.simps [of _ _ _ buf sent] result_codes split: if_splits)
    next
      case (Inr rc)
      show ?thesis
      proof (cases "rc = 0")
        case True
        then show ?thesis using "1.prems" \<open>sent < length buf\<close> p Inr frame by (intro stop [of zero k1]) (auto simp: write_loop.simps [of _ _ _ buf sent])
      next
        case rc: False
        let ?r = "sys_write fd (drop sent buf) k1"
        have run: "(res, n, k') = (case fst ?r of
              Inr n \<Rightarrow> if 0 < n then write_loop zero timeout_ms fd buf (sent + n) (snd ?r) else (kErrInternal, sent, snd ?r)
            | Inl e \<Rightarrow> if e = EAGAIN then if timeout_ms = 0 then (kErrTimeout, sent, snd ?r) else write_loop zero timeout_ms fd buf sent (snd ?r)
                else if e = EINTR then write_loop zero timeout_ms fd buf sent (snd ?r) else (kErrInternal, sent, snd ?r))"
          using "1.prems"(1) True p Inr rc by (simp add: write_loop.simps [of _ _ _ buf sent] Let_def)
        show ?thesis
        proof (cases "fst ?r")
          case wrote: (Inr m)
          note ok = sys_write_ok(1) [OF wrote]
          show ?thesis
          proof (cases "0 < m")
            case False
            then show ?thesis using run wrote ok frame
              by (auto simp: result_codes True intro!: exI [of _ "[[]]"] split: if_splits)
                 (use True in linarith)+
          next
            case m: True
            have "write_loop zero timeout_ms fd buf (sent + m) (snd ?r) = (res, n, k')" using run wrote m by simp
            moreover have "sent + m \<le> length buf" using ok True by auto
            ultimately obtain ws where
              later: "sent + m \<le> n" "n \<le> length buf" "res = kOk \<longleftrightarrow> n = length buf" "k_open k' = k_open (snd ?r)"
              "k_written k' = k_written (snd ?r) @ map (Pair fd) ws" "concat ws = take (n - (sent + m)) (drop (sent + m) buf)"
              using "1.IH"(3) [OF True p [symmetric] Inr rc refl wrote m _ _ "1.prems"(3)] by blast
            have "take m (drop sent buf) @ take (n - (sent + m)) (drop (sent + m) buf) = take (n - sent) (drop sent buf)"
              using later(1) take_add [of m "n - (sent + m)" "drop sent buf"] by (simp add: add.commute)
            then show ?thesis using later ok frame by (auto intro!: exI [of _ "take m (drop sent buf) # ws"])
          qed
        next
          case failed: (Inl e)
          note ok = sys_write_ok(2) [OF failed]
          show ?thesis
            using run failed ok frame stop [of kErrTimeout "snd ?r"] stop [of kErrInternal "snd ?r"] "1.prems"(2,3)
              "1.IH"(1) [OF True p [symmetric] Inr rc refl failed] "1.IH"(2) [OF True p [symmetric] Inr rc refl failed]
            by (auto simp: result_codes split: if_splits)
        qed
      qed
    qed
  qed
qed

text \<open>What is read is a beginning of the bytes that were there, which it takes away; success means that there are enough of them.\<close>

lemma read_loop_prefix:
  assumes "read_loop timeout_ms fd len got k = (res, got', k')" "length got \<le> len"
  shows "length got' \<le> len \<and> (res = kOk \<longleftrightarrow> length got' = len) \<and> k_open k' = k_open k \<and>
    (\<exists>m. got' = got @ take m (k_incoming k fd) \<and> k_incoming k' fd = drop m (k_incoming k fd))"
  using assms
proof (induction timeout_ms fd len got k rule: read_loop.induct)
  case (1 timeout_ms fd len got k)
  show ?case
  proof (cases "length got < len")
    case False
    then have "res = kOk" "got' = got" "k' = k" using "1.prems"(1) by (simp_all add: read_loop.simps [of timeout_ms fd len got k])
    with False "1.prems"(2) show ?thesis by (auto intro: exI [of _ 0])
  next
    case True
    obtain p k1 where p: "sys_call k = (p, k1)" by (rule prod.exhaust)
    note frame = sys_call_frame [OF p]
    have stop: ?thesis if "(res, got', k') = (r, got, k2)" "r \<noteq> kOk" "k_open k2 = k_open k" "k_incoming k2 fd = k_incoming k fd" for r k2
      using that True by (auto intro: exI [of _ 0])
    show ?thesis
    proof (cases p)
      case (Inl e)
      then show ?thesis using "1.prems" True p frame
        by (intro stop [of "if e = EINTR then kErrAgain else kErrInternal" k1]) (auto simp: read_loop.simps [of _ _ len got k] result_codes split: if_splits)
    next
      case (Inr rc)
      show ?thesis
      proof (cases "rc = 0")
        case True
        then show ?thesis using "1.prems" \<open>length got < len\<close> p Inr frame
          by (intro stop [of kErrTimeout k1]) (auto simp: read_loop.simps [of _ _ len got k] result_codes)
      next
        case rc: False
        let ?r = "sys_read fd (len - length got) k1"
        have run: "(res, got', k') = (case fst ?r of
              Inr bs \<Rightarrow> if bs \<noteq> [] then read_loop timeout_ms fd len (got @ bs) (snd ?r) else (kErrInternal, got, snd ?r)
            | Inl e \<Rightarrow> if e = EAGAIN then if timeout_ms = 0 then (kErrTimeout, got, snd ?r) else read_loop timeout_ms fd len got (snd ?r)
                else if e = EINTR then read_loop timeout_ms fd len got (snd ?r) else (kErrInternal, got, snd ?r))"
          using "1.prems"(1) True p Inr rc by (simp add: read_loop.simps [of _ _ len got k] Let_def)
        show ?thesis
        proof (cases "fst ?r")
          case read: (Inr bs)
          obtain m where ok: "m \<le> len - length got" "bs = take m (k_incoming k1 fd)" "k_incoming (snd ?r) fd = drop m (k_incoming k1 fd)"
            "k_open (snd ?r) = k_open k1" using sys_read_ok(1) [OF read] by blast
          show ?thesis
          proof (cases "bs = []")
            case True
            then show ?thesis using run read ok frame by (intro stop [of kErrInternal "snd ?r"]) (auto simp: result_codes)
          next
            case bs: False
            have "read_loop timeout_ms fd len (got @ bs) (snd ?r) = (res, got', k')" using run read bs by simp
            moreover have "length (got @ bs) \<le> len" using ok(1,2) True by simp
            ultimately obtain m' where
              later: "length got' \<le> len" "res = kOk \<longleftrightarrow> length got' = len" "k_open k' = k_open (snd ?r)"
              "got' = (got @ bs) @ take m' (k_incoming (snd ?r) fd)" "k_incoming k' fd = drop m' (k_incoming (snd ?r) fd)"
              using "1.IH"(3) [OF True p [symmetric] Inr rc refl read bs] by blast
            moreover have "got' = got @ take (m + m') (k_incoming k1 fd)" using later(4) ok(2,3) by (simp add: take_add)
            moreover have "k_incoming k' fd = drop (m + m') (k_incoming k1 fd)" using later(5) ok(3) by (simp add: add.commute)
            ultimately show ?thesis using later(1,2,3) ok(4) frame by (intro conjI exI [of _ "m + m'"]) simp_all
          qed
        next
          case failed: (Inl e)
          note ok = sys_read_ok(2) [OF failed]
          show ?thesis
            using run failed ok frame stop [of kErrTimeout "snd ?r"] stop [of kErrInternal "snd ?r"] "1.prems"(2)
              "1.IH"(1) [OF True p [symmetric] Inr rc refl failed] "1.IH"(2) [OF True p [symmetric] Inr rc refl failed]
            by (auto simp: result_codes split: if_splits)
        qed
      qed
    qed
  qed
qed

text \<open>What has gone through a pipe: the bytes written to a descriptor.\<close>

definition stream_of :: "int \<Rightarrow> kernel \<Rightarrow> u8 list" where
  "stream_of fd k = concat (map snd (filter (\<lambda>w. fst w = fd) (k_written k)))"

lemma stream_of_append: "k_written k' = k_written k @ map (Pair fd) ws \<Longrightarrow> stream_of fd k' = stream_of fd k @ concat ws"
  by (simp add: stream_of_def filter_map comp_def)

text \<open>C31:
  Writing to a pipe puts a beginning of the buffer on the stream, whatever the system calls return in between, and all of it
  exactly if the result is \<open>kOk\<close>; reading takes a beginning of what is there and returns \<open>kOk\<close> exactly if it has as much as asked for.
  But the count reported is zero whenever the result is not \<open>kOk\<close>, even if bytes have been written or taken off the stream.
\<close>

theorem pipe_transfers_prefixes:
  assumes "pi_inited p"
    and w: "Pipe_write buf timeout_ms p k = (wres, written, k')" and r: "Pipe_read len timeout_ms p k = (rres, got, count, k'')"
  shows "(\<exists>n\<le>length buf. stream_of (pi_write p) k' = stream_of (pi_write p) k @ take n buf \<and> (wres = kOk \<longleftrightarrow> n = length buf) \<and>
      written = (if wres = kOk then length buf else 0)) \<and>
    (\<exists>m. got = take m (k_incoming k (pi_read p)) \<and> k_incoming k'' (pi_read p) = drop m (k_incoming k (pi_read p)) \<and>
      length got \<le> len \<and> (rres = kOk \<longleftrightarrow> length got = len) \<and> count = (if rres = kOk then len else 0))"
proof
  obtain n where n: "write_loop kErrTimeout timeout_ms (pi_write p) buf 0 k = (wres, n, k')" "written = counted wres n"
    using assms(1) w by (auto simp: Pipe_write_def split: prod.splits)
  have "kErrTimeout \<noteq> kOk" by (simp add: result_codes)
  from write_loop_prefix [OF n(1) _ this] obtain ws where
    "n \<le> length buf" "wres = kOk \<longleftrightarrow> n = length buf" "k_written k' = k_written k @ map (Pair (pi_write p)) ws" "concat ws = take n buf" by auto
  then show "\<exists>n\<le>length buf. stream_of (pi_write p) k' = stream_of (pi_write p) k @ take n buf \<and> (wres = kOk \<longleftrightarrow> n = length buf) \<and>
      written = (if wres = kOk then length buf else 0)"
    using n(2) by (auto simp: stream_of_append counted_def)
next
  have g: "read_loop timeout_ms (pi_read p) len [] k = (rres, got, k'')" "count = counted rres (length got)"
    using assms(1) r by (auto simp: Pipe_read_def split: prod.splits)
  from read_loop_prefix [OF g(1)] g(2) show "\<exists>m. got = take m (k_incoming k (pi_read p)) \<and> k_incoming k'' (pi_read p) = drop m (k_incoming k (pi_read p)) \<and>
      length got \<le> len \<and> (rres = kOk \<longleftrightarrow> length got = len) \<and> count = (if rres = kOk then len else 0)"
    by (auto simp: counted_def)
qed

definition demo_kernel :: "outcome list \<Rightarrow> kernel" where
  "demo_kernel outcomes = \<lparr>k_open = [0, 1, 2], k_outcomes = outcomes, k_written = [], k_incoming = (\<lambda>fd. if fd = 3 then [7, 8] else []), k_unlinked = []\<rparr>"

definition demo_pipe :: Pipe where
  "demo_pipe = \<lparr>pi_read = 3, pi_write = 4, pi_inited = True\<rparr>"

theorem pipe_transfers_prefixes_witness:
  "\<exists>k'. Pipe_write [1, 2, 3] 10 demo_pipe (demo_kernel [Ret 1, Ret 2, Ret 0]) = (kErrTimeout, 0, k') \<and> stream_of 4 k' = [1, 2]"
proof -
  obtain k' where w: "Pipe_write [1, 2, 3] 10 demo_pipe (demo_kernel [Ret 1, Ret 2, Ret 0]) = (kErrTimeout, 0, k')"
    and bytes: "stream_of 4 k' = [1, 2]"
    by (simp add: Pipe_write_def demo_pipe_def demo_kernel_def write_loop.simps sys_call_def sys_write_def counted_def result_codes stream_of_def)
  obtain rres got n k'' where r: "Pipe_read 0 10 demo_pipe (demo_kernel [Ret 1, Ret 2, Ret 0]) = (rres, got, n, k'')" by (metis prod.exhaust)
  from pipe_transfers_prefixes [OF _ w r] w bytes show ?thesis by auto
qed

end
