(* ===== verification/Osal_Sockets.thy ===== *)
theory Osal_Sockets
  imports Osal_Io
begin

section \<open>Sockets (platform/osal: socket\_ops.cpp, socket.cpp)\<close>

text \<open>
  The functions of the namespace \<^verbatim>\<open>detail\<close>, each preceded by what its method of the class \<^verbatim>\<open>Socket\<close> does. Name resolution is an
  argument: the address families it offers for a host (none for the wildcard) and a port, or nothing when it fails.
\<close>

subsection \<open>State\<close>

record SocketImpl =
  so_fd :: int
  so_inited :: bool
  so_is_server :: bool
  so_is_dgram :: bool
  so_family :: nat
  so_path :: string
  so_backlog :: u32

definition AF_UNSPEC :: nat where "AF_UNSPEC = 0"
definition AF_UNIX :: nat where "AF_UNIX = 1"
definition AF_INET :: nat where "AF_INET = 2"
definition AF_INET6 :: nat where "AF_INET6 = 10"

text \<open>All bytes zero, as \<^verbatim>\<open>memset\<close> leaves it: the descriptor is 0. A new socket has the descriptor -1.\<close>

definition zero_SocketImpl :: SocketImpl where
  "zero_SocketImpl = \<lparr>so_fd = 0, so_inited = False, so_is_server = False, so_is_dgram = False, so_family = AF_UNSPEC, so_path = [], so_backlog = 0\<rparr>"

definition new_Socket :: SocketImpl where
  "new_Socket = zero_SocketImpl\<lparr>so_fd := - 1\<rparr>"

type_synonym resolver = "string option \<Rightarrow> u16 \<Rightarrow> nat list option"

subsection \<open>Opening\<close>

text \<open>A call that must succeed; otherwise the descriptor is closed.\<close>

definition must :: "int \<Rightarrow> kernel \<Rightarrow> bool \<times> kernel" where
  "must fd k = (case sys_call k of (Inl _, k) \<Rightarrow> (False, sys_close fd k) | (Inr _, k) \<Rightarrow> (True, k))"

definition must_nonblocking :: "int \<Rightarrow> kernel \<Rightarrow> bool \<times> kernel" where
  "must_nonblocking fd k = (case set_nonblocking k of (r, k) \<Rightarrow> if r \<noteq> kOk then (False, sys_close fd k) else (True, k))"

definition open_unix_server :: "string \<Rightarrow> u32 \<Rightarrow> kernel \<Rightarrow> Result \<times> SocketImpl \<times> kernel" where
  "open_unix_server path backlog k =
     (let p = new_Socket\<lparr>so_is_server := True, so_family := AF_UNIX, so_backlog := backlog\<rparr>; sun_path = take 107 (c_str path) in
      case sys_open k of (Inl _, k) \<Rightarrow> (kErrInternal, p, k)
      | (Inr fd, k) \<Rightarrow>
          (case must_nonblocking fd k of (ok, k) \<Rightarrow>
             if \<not> ok then (kErrInternal, p, k)
             else if sun_path = [] then (kErrInvalidArg, p, sys_close fd k)
             else (case must fd (sys_unlink sun_path k) of (bound, k) \<Rightarrow>
                if \<not> bound then (kErrInternal, p, k)
                else (case must fd k of (listening, k) \<Rightarrow>
                   if \<not> listening then (kErrInternal, p, k)
                   else (kOk, p\<lparr>so_fd := fd, so_inited := True, so_path := sun_path\<rparr>, k)))))"

lemma sys_call_shorter_error: "sys_call k = (Inl e, k') \<Longrightarrow> e \<noteq> EIO \<Longrightarrow> length (k_outcomes k') < length (k_outcomes k)"
  by (auto simp: sys_call_def split: list.splits outcome.splits)

text \<open>After a connection in progress the loop waits and connects again.\<close>

function unix_connect :: "int \<Rightarrow> kernel \<Rightarrow> bool \<times> kernel" where
  "unix_connect fd k =
     (case sys_call k of
        (Inr _, k1) \<Rightarrow> (True, k1)
      | (Inl e, k1) \<Rightarrow>
          if e = EINPROGRESS then
            (case sys_call k1 of
               (Inl e2, k2) \<Rightarrow> if e2 \<noteq> EINTR then (False, sys_close fd k2) else unix_connect fd k2
             | (Inr _, k2) \<Rightarrow> unix_connect fd k2)
          else (False, sys_close fd k1))"
  by pat_completeness auto
termination
  by (relation "measure (\<lambda>(fd, k). length (k_outcomes k))")
    (auto dest!: sys_call_shorter_error [OF sym] sys_call_shorter(1) [OF sym] intro: less_trans)

declare unix_connect.simps [simp del]

definition open_unix_client :: "string \<Rightarrow> kernel \<Rightarrow> Result \<times> SocketImpl \<times> kernel" where
  "open_unix_client path k =
     (let p = new_Socket\<lparr>so_family := AF_UNIX\<rparr>; sun_path = take 107 (c_str path) in
      case sys_open k of (Inl _, k) \<Rightarrow> (kErrInternal, p, k)
      | (Inr fd, k) \<Rightarrow>
          (case must_nonblocking fd k of (ok, k) \<Rightarrow>
             if \<not> ok then (kErrInternal, p, k)
             else if sun_path = [] then (kErrInvalidArg, p, sys_close fd k)
             else (case unix_connect fd k of (connected, k) \<Rightarrow>
                if \<not> connected then (kErrInternal, p, k) else (kOk, p\<lparr>so_fd := fd, so_inited := True\<rparr>, k))))"

text \<open>The addresses are tried in turn; a server listens on the first that it can bind.\<close>

fun bind_loop :: "bool \<Rightarrow> nat list \<Rightarrow> kernel \<Rightarrow> (int \<times> nat) option \<times> kernel" where
  "bind_loop listens [] k = (None, k)"
| "bind_loop listens (family # families) k =
     (case sys_open k of (Inl _, k) \<Rightarrow> bind_loop listens families k
      | (Inr fd, k) \<Rightarrow>
          (case must_nonblocking fd k of (ok, k) \<Rightarrow>
             if \<not> ok then bind_loop listens families k
             else (case must fd k of (bound, k) \<Rightarrow>
                if \<not> bound then bind_loop listens families k
                else if \<not> listens then (Some (fd, family), k)
                else (case must fd k of (listening, k) \<Rightarrow>
                   if \<not> listening then bind_loop listens families k else (Some (fd, family), k)))))"

definition opened :: "SocketImpl \<Rightarrow> (int \<times> nat) option \<times> kernel \<Rightarrow> Result \<times> SocketImpl \<times> kernel" where
  "opened p r =
     (case fst r of None \<Rightarrow> (kErrInternal, p, snd r)
      | Some (fd, family) \<Rightarrow> (kOk, p\<lparr>so_fd := fd, so_inited := True, so_family := family\<rparr>, snd r))"

definition host_arg :: "string \<Rightarrow> string option" where
  "host_arg host = (if c_str host = [] then None else Some (c_str host))"

definition open_tcp_server :: "resolver \<Rightarrow> string \<Rightarrow> u16 \<Rightarrow> u32 \<Rightarrow> kernel \<Rightarrow> Result \<times> SocketImpl \<times> kernel" where
  "open_tcp_server gai bind_host port backlog k =
     (let p = new_Socket\<lparr>so_is_server := True, so_backlog := backlog\<rparr> in
      case gai (host_arg bind_host) port of None \<Rightarrow> (kErrInvalidArg, p, k) | Some res \<Rightarrow> opened p (bind_loop True res k))"

definition open_udp :: "resolver \<Rightarrow> string \<Rightarrow> u16 \<Rightarrow> kernel \<Rightarrow> Result \<times> SocketImpl \<times> kernel" where
  "open_udp gai bind_host port k =
     (let p = new_Socket\<lparr>so_is_dgram := True\<rparr> in
      case gai (host_arg bind_host) port of None \<Rightarrow> (kErrInvalidArg, p, k) | Some res \<Rightarrow> opened p (bind_loop False res k))"

text \<open>Connecting with a time limit; an interrupted wait goes on to ask for the error of the connection.\<close>

function tcp_connect :: "int \<Rightarrow> kernel \<Rightarrow> bool \<times> kernel" where
  "tcp_connect fd k =
     (case sys_call k of
        (Inr _, k1) \<Rightarrow> (True, k1)
      | (Inl e, k1) \<Rightarrow>
          if e = EINPROGRESS then
            (case sys_call k1 of (rc, k2) \<Rightarrow>
               if rc = Inr 0 then (False, sys_close fd k2)
               else if (\<exists>e2. rc = Inl e2) \<and> rc \<noteq> Inl EINTR then (False, sys_close fd k2)
               else (case sys_call k2 of
                  (Inl _, k3) \<Rightarrow> (False, sys_close fd k3)
                | (Inr err, k3) \<Rightarrow> if err \<noteq> 0 then (False, sys_close fd k3) else (True, k3)))
          else if e = EINTR then tcp_connect fd k1
          else (False, sys_close fd k1))"
  by pat_completeness auto
termination
  by (relation "measure (\<lambda>(fd, k). length (k_outcomes k))") (auto dest!: sys_call_shorter_error [OF sym])

declare tcp_connect.simps [simp del]

fun connect_addresses :: "nat list \<Rightarrow> kernel \<Rightarrow> (int \<times> nat) option \<times> kernel" where
  "connect_addresses [] k = (None, k)"
| "connect_addresses (family # families) k =
     (case sys_open k of (Inl _, k) \<Rightarrow> connect_addresses families k
      | (Inr fd, k) \<Rightarrow>
          (case must_nonblocking fd k of (ok, k) \<Rightarrow>
             if \<not> ok then connect_addresses families k
             else (case tcp_connect fd k of (connected, k) \<Rightarrow>
                if connected then (Some (fd, family), k) else connect_addresses families k)))"

definition open_tcp_client :: "resolver \<Rightarrow> string \<Rightarrow> u16 \<Rightarrow> kernel \<Rightarrow> Result \<times> SocketImpl \<times> kernel" where
  "open_tcp_client gai host port k =
     (case gai (Some (c_str host)) port of None \<Rightarrow> (kErrInvalidArg, new_Socket, k) | Some res \<Rightarrow> opened new_Socket (connect_addresses res k))"

fun udp_connect_loop :: "nat list \<Rightarrow> kernel \<Rightarrow> nat option \<times> kernel" where
  "udp_connect_loop [] k = (None, k)"
| "udp_connect_loop (family # families) k = (case sys_call k of (Inr _, k) \<Rightarrow> (Some family, k) | (Inl _, k) \<Rightarrow> udp_connect_loop families k)"

definition udp_connect :: "resolver \<Rightarrow> string \<Rightarrow> u16 \<Rightarrow> SocketImpl \<Rightarrow> kernel \<Rightarrow> Result \<times> SocketImpl \<times> kernel" where
  "udp_connect gai host port p k =
     (if \<not> so_inited p \<or> so_fd p < 0 \<or> \<not> so_is_dgram p then (kErrInvalidArg, p, k)
      else case gai (Some (c_str host)) port of None \<Rightarrow> (kErrInvalidArg, p, k)
        | Some res \<Rightarrow> (case udp_connect_loop res k of (None, k) \<Rightarrow> (kErrInternal, p, k) | (Some family, k) \<Rightarrow> (kOk, p\<lparr>so_family := family\<rparr>, k)))"

text \<open>\<open>sockname\<close> is the local address of a descriptor: its family and port.\<close>

definition get_local_port :: "(int \<Rightarrow> (nat \<times> u16) option) \<Rightarrow> SocketImpl \<Rightarrow> Result \<times> u16 option" where
  "get_local_port sockname p =
     (if \<not> so_inited p \<or> so_fd p < 0 then (kErrInvalidArg, None)
      else case sockname (so_fd p) of None \<Rightarrow> (kErrInternal, None)
        | Some (family, port) \<Rightarrow> if family = AF_INET \<or> family = AF_INET6 then (kOk, Some port) else (kErrUnsupported, None))"

subsection \<open>Closing and accepting\<close>

definition socket_close :: "SocketImpl \<Rightarrow> kernel \<Rightarrow> Result \<times> SocketImpl \<times> kernel" where
  "socket_close p k =
     (let k = close_if (so_fd p) k in
      (kOk, zero_SocketImpl, if so_is_server p \<and> so_path p \<noteq> [] then sys_unlink (so_path p) k else k))"

function accept_loop :: "kernel \<Rightarrow> Result \<times> SocketImpl \<times> kernel" where
  "accept_loop k =
     (case sys_open k of
        (Inr newfd, k1) \<Rightarrow>
          (case must_nonblocking newfd k1 of (ok, k2) \<Rightarrow>
             if \<not> ok then (kErrInternal, new_Socket, k2) else (kOk, new_Socket\<lparr>so_fd := newfd, so_inited := True\<rparr>, k2))
      | (Inl e, k1) \<Rightarrow>
          if e = EAGAIN then (kErrTimeout, new_Socket, k1) else if e = EINTR then accept_loop k1 else (kErrInternal, new_Socket, k1))"
  by pat_completeness auto
termination
  by (relation "measure (\<lambda>k. length (k_outcomes k))")
    (auto simp: sys_open_def Let_def split: prod.splits sum.splits dest!: sys_call_shorter_error)

declare accept_loop.simps [simp del]

text \<open>The client's socket is blanked first, whatever it held.\<close>

definition socket_accept :: "SocketImpl \<Rightarrow> kernel \<Rightarrow> Result \<times> SocketImpl \<times> kernel" where
  "socket_accept server k =
     (if \<not> so_inited server \<or> so_fd server < 0 then (kErrInvalidArg, new_Socket, k)
      else if so_is_dgram server then (kErrUnsupported, new_Socket, k)
      else case sys_call k of
          (Inl e, k) \<Rightarrow> (if e = EINTR then kErrAgain else kErrInternal, new_Socket, k)
        | (Inr rc, k) \<Rightarrow> if rc = 0 then (kErrTimeout, new_Socket, k) else accept_loop k)"

subsection \<open>Sending and receiving\<close>

text \<open>The wait before a datagram is sent or received.\<close>

definition dgram_wait :: "kernel \<Rightarrow> Result \<times> kernel" where
  "dgram_wait k =
     (case sys_call k of (Inr rc, k) \<Rightarrow> (if rc = 0 then kErrTimeout else kOk, k)
      | (Inl e, k) \<Rightarrow> (if e = EINTR then kErrAgain else kErrInternal, k))"

definition socket_send :: "u8 list \<Rightarrow> int \<Rightarrow> SocketImpl \<Rightarrow> kernel \<Rightarrow> Result \<times> nat \<times> kernel" where
  "socket_send buf timeout_ms p k =
     (if \<not> so_inited p \<or> so_fd p < 0 then (kErrInvalidArg, 0, k)
      else if so_is_dgram p then
        (case dgram_wait k of (rc, k) \<Rightarrow>
           if rc \<noteq> kOk then (rc, 0, k)
           else (case sys_write (so_fd p) buf k of
              (Inl e, k) \<Rightarrow> (if e = EAGAIN then kErrTimeout else kErrInternal, 0, k)
            | (Inr n, k) \<Rightarrow> (if n = length buf then kOk else kErrInternal, n, k)))
      else
        (case write_loop (if 0 \<le> timeout_ms then kErrTimeout else kErrInternal) timeout_ms (so_fd p) buf 0 k of
           (res, n, k) \<Rightarrow> (res, counted res n, k)))"

text \<open>A datagram socket reads the one at the head of its queue, cut to the buffer: \<open>dgram\<close> is what the call would return.\<close>

definition socket_recv :: "u8 list \<Rightarrow> nat \<Rightarrow> int \<Rightarrow> SocketImpl \<Rightarrow> kernel \<Rightarrow> Result \<times> u8 list \<times> nat \<times> kernel" where
  "socket_recv dgram len timeout_ms p k =
     (if \<not> so_inited p \<or> so_fd p < 0 then (kErrInvalidArg, [], 0, k)
      else if so_is_dgram p then
        (case dgram_wait k of (rc, k) \<Rightarrow>
           if rc \<noteq> kOk then (rc, [], 0, k)
           else (case sys_call k of
              (Inl e, k) \<Rightarrow> (if e = EAGAIN then kErrTimeout else kErrInternal, [], 0, k)
            | (Inr _, k) \<Rightarrow> let got = take len dgram in if got = [] then (kErrInternal, [], 0, k) else (kOk, got, length got, k)))
      else
        (case read_loop timeout_ms (so_fd p) len [] k of (res, got, k) \<Rightarrow> (res, got, counted res (length got), k)))"

record SockAddr =
  sa_storage :: "u8 list"
  sa_len :: nat

definition sockaddr_from_sa :: "u8 list \<Rightarrow> SockAddr \<Rightarrow> Result \<times> SockAddr" where
  "sockaddr_from_sa sa out = (if 128 < length sa then (kErrNoMem, out) else (kOk, \<lparr>sa_storage = sa, sa_len = length sa\<rparr>))"

definition socket_sendto :: "u8 list \<Rightarrow> SockAddr \<Rightarrow> SocketImpl \<Rightarrow> kernel \<Rightarrow> Result \<times> nat \<times> kernel" where
  "socket_sendto buf dest p k =
     (if sa_len dest = 0 then (kErrInvalidArg, 0, k)
      else if \<not> so_inited p \<or> so_fd p < 0 \<or> \<not> so_is_dgram p then (kErrUnsupported, 0, k)
      else
        (case dgram_wait k of (rc, k) \<Rightarrow>
           if rc \<noteq> kOk then (rc, 0, k)
           else (case sys_write (so_fd p) buf k of
              (Inl e, k) \<Rightarrow> (if e = EINTR then kErrAgain else if e = EAGAIN then kErrTimeout else kErrInternal, 0, k)
            | (Inr n, k) \<Rightarrow> (if n = length buf then kOk else kErrInternal, n, k))))"

text \<open>\<open>sender\<close> and \<open>dgram\<close> are the address and the bytes at the head of the queue.\<close>

definition socket_recvfrom :: "u8 list \<Rightarrow> u8 list \<Rightarrow> nat \<Rightarrow> SockAddr \<Rightarrow> SocketImpl \<Rightarrow> kernel \<Rightarrow> Result \<times> u8 list \<times> SockAddr \<times> kernel" where
  "socket_recvfrom sender dgram len out_from p k =
     (if \<not> so_inited p \<or> so_fd p < 0 \<or> \<not> so_is_dgram p then (kErrUnsupported, [], out_from, k)
      else
        (case dgram_wait k of (rc, k) \<Rightarrow>
           if rc \<noteq> kOk then (rc, [], out_from, k)
           else (case sys_call k of
              (Inl e, k) \<Rightarrow> (if e = EINTR then kErrAgain else if e = EAGAIN then kErrTimeout else kErrInternal, [], out_from, k)
            | (Inr _, k) \<Rightarrow> (kOk, take len dgram, snd (sockaddr_from_sa sender out_from), k))))"

subsection \<open>Descriptors\<close>

text \<open>A step that fails closes the descriptor it was given and no other.\<close>

definition closes_on_failure :: "int \<Rightarrow> kernel \<Rightarrow> bool \<times> kernel \<Rightarrow> bool" where
  "closes_on_failure fd k r \<longleftrightarrow> k_open (snd r) = (if fst r then k_open k else removeAll fd (k_open k))"

lemma closes_on_failureD: "closes_on_failure fd k r \<Longrightarrow> r = (ok, k') \<Longrightarrow> k_open k' = (if ok then k_open k else removeAll fd (k_open k))"
  by (auto simp: closes_on_failure_def)

lemma must_closes: "closes_on_failure fd k (must fd k)"
  by (auto simp: closes_on_failure_def must_def sys_close_def dest!: sys_call_frame split: prod.splits sum.splits)

lemma must_nonblocking_closes: "closes_on_failure fd k (must_nonblocking fd k)"
  by (auto simp: closes_on_failure_def must_nonblocking_def set_nonblocking_def sys_close_def result_codes dest!: sys_call_frame split: prod.splits sum.splits)

lemma closes_on_failure_table: "closes_on_failure fd k1 r \<Longrightarrow> k_open k1 = k_open k \<Longrightarrow> closes_on_failure fd k r"
  unfolding closes_on_failure_def by (simp only:)

lemma closes_on_failure_kept [simp]:
  "closes_on_failure fd k (True, k') \<longleftrightarrow> k_open k' = k_open k"
  "closes_on_failure fd k (False, k') \<longleftrightarrow> k_open k' = removeAll fd (k_open k)"
  by (simp_all add: closes_on_failure_def)

lemma sys_close_open [simp]: "k_open (sys_close fd k) = removeAll fd (k_open k)"
  by (simp add: sys_close_def)

lemma unix_connect_closes: "closes_on_failure fd k (unix_connect fd k)"
proof (induction fd k rule: unix_connect.induct)
  case (1 fd k)
  obtain a k1 where c: "sys_call k = (a, k1)" by (rule prod.exhaust)
  obtain b k2 where c2: "sys_call k1 = (b, k2)" by (rule prod.exhaust)
  have same: "k_open k1 = k_open k" "k_open k2 = k_open k" using sys_call_frame [OF c] sys_call_frame [OF c2] by simp_all
  show ?case
  proof (cases "\<exists>x. a = Inl EINPROGRESS \<and> (b = Inl EINTR \<or> b = Inr x)")
    case True
    then have "unix_connect fd k = unix_connect fd k2" by (subst unix_connect.simps) (auto simp: c c2)
    moreover have "closes_on_failure fd k2 (unix_connect fd k2)"
      using True "1.IH" by (auto simp: c c2)
    ultimately show ?thesis using same(2) by (metis closes_on_failure_table)
  next
    case False
    then show ?thesis by (subst unix_connect.simps) (auto simp: c c2 same split: sum.split)
  qed
qed

lemma tcp_connect_closes: "closes_on_failure fd k (tcp_connect fd k)"
proof (induction fd k rule: tcp_connect.induct)
  case (1 fd k)
  obtain a k1 where c: "sys_call k = (a, k1)" by (rule prod.exhaust)
  obtain b k2 where c2: "sys_call k1 = (b, k2)" by (rule prod.exhaust)
  have same: "k_open k1 = k_open k" "k_open k2 = k_open k" using sys_call_frame [OF c] sys_call_frame [OF c2] by simp_all
  obtain d k3 where c3: "sys_call k2 = (d, k3)" by (rule prod.exhaust)
  have same3: "k_open k3 = k_open k" using sys_call_frame [OF c3] same by simp
  show ?case
  proof (cases "a = Inl EINTR")
    case True
    then have "tcp_connect fd k = tcp_connect fd k1" by (subst tcp_connect.simps) (simp add: c)
    moreover have "closes_on_failure fd k1 (tcp_connect fd k1)" using True "1.IH" by (auto simp: c)
    ultimately show ?thesis using same(1) by (metis closes_on_failure_table)
  next
    case False
    then show ?thesis by (subst tcp_connect.simps) (auto simp: c c2 c3 same same3 split: sum.split)
  qed
qed

text \<open>What every way of opening a socket does to the table of open descriptors.\<close>

definition opened_cleanly :: "kernel \<Rightarrow> Result \<times> SocketImpl \<times> kernel \<Rightarrow> bool" where
  "opened_cleanly k r \<longleftrightarrow>
     (case r of (res, s, k') \<Rightarrow>
        if res = kOk then so_inited s \<and> 0 \<le> so_fd s \<and> so_fd s \<notin> set (k_open k) \<and> k_open k' = so_fd s # k_open k
        else \<not> so_inited s \<and> so_fd s = - 1 \<and> k_open k' = k_open k)"

definition descriptor_found :: "kernel \<Rightarrow> (int \<times> nat) option \<times> kernel \<Rightarrow> bool" where
  "descriptor_found k r \<longleftrightarrow>
     (case fst r of None \<Rightarrow> k_open (snd r) = k_open k
      | Some (fd, family) \<Rightarrow> 0 \<le> fd \<and> fd \<notin> set (k_open k) \<and> k_open (snd r) = fd # k_open k)"

text \<open>Only the tables matter.\<close>

lemma descriptor_found_table: "descriptor_found k1 r \<Longrightarrow> k_open k1 = k_open k \<Longrightarrow> descriptor_found k r"
  unfolding descriptor_found_def by (simp only:)

lemma opened_cleanly_table: "opened_cleanly k1 r \<Longrightarrow> k_open k1 = k_open k \<Longrightarrow> opened_cleanly k r"
  unfolding opened_cleanly_def by (simp only:)

text \<open>One address: whatever is done with a new descriptor, closing it on failure leads back to the table before.\<close>

lemma removeAll_fresh: "fd \<notin> set fds \<Longrightarrow> removeAll fd (fd # fds) = fds"
  by simp

lemma bind_loop_found: "descriptor_found k (bind_loop listens families k)"
proof (induction families arbitrary: k)
  case (Cons family families)
  obtain r k1 where o: "sys_open k = (r, k1)" by (rule prod.exhaust)
  show ?case
  proof (rule sys_open_cases [OF o])
    fix e assume e: "r = Inl e" "k_open k1 = k_open k"
    show ?thesis using descriptor_found_table [OF Cons.IH e(2)] by (simp add: o e(1))
  next
    fix fd assume fd: "r = Inr fd" "k_open k1 = fd # k_open k" "fd \<notin> set (k_open k)" "0 \<le> fd"
    have again: "descriptor_found k (bind_loop listens families k')" if "k_open k' = k_open k" for k'
      by (rule descriptor_found_table [OF Cons.IH that])
    obtain ok k2 where nb: "must_nonblocking fd k1 = (ok, k2)" by (rule prod.exhaust)
    obtain bound k3 where b: "must fd k2 = (bound, k3)" by (rule prod.exhaust)
    obtain listening k4 where l: "must fd k3 = (listening, k4)" by (rule prod.exhaust)
    note tables = closes_on_failureD [OF must_nonblocking_closes nb] closes_on_failureD [OF must_closes b] closes_on_failureD [OF must_closes l]
    show ?thesis
      using fd tables again [of k2] again [of k3] again [of k4]
      by (cases ok; cases bound; cases listening; cases listens) (simp_all add: o nb b l descriptor_found_def)
  qed
qed (simp add: descriptor_found_def)

lemma connect_addresses_found: "descriptor_found k (connect_addresses families k)"
proof (induction families arbitrary: k)
  case (Cons family families)
  obtain r k1 where o: "sys_open k = (r, k1)" by (rule prod.exhaust)
  show ?case
  proof (rule sys_open_cases [OF o])
    fix e assume e: "r = Inl e" "k_open k1 = k_open k"
    show ?thesis using descriptor_found_table [OF Cons.IH e(2)] by (simp add: o e(1))
  next
    fix fd assume fd: "r = Inr fd" "k_open k1 = fd # k_open k" "fd \<notin> set (k_open k)" "0 \<le> fd"
    have again: "descriptor_found k (connect_addresses families k')" if "k_open k' = k_open k" for k'
      by (rule descriptor_found_table [OF Cons.IH that])
    obtain ok k2 where nb: "must_nonblocking fd k1 = (ok, k2)" by (rule prod.exhaust)
    obtain connected k3 where c: "tcp_connect fd k2 = (connected, k3)" by (rule prod.exhaust)
    note tables = closes_on_failureD [OF must_nonblocking_closes nb] closes_on_failureD [OF tcp_connect_closes c]
    show ?thesis
      using fd tables again [of k2] again [of k3]
      by (cases ok; cases connected) (simp_all add: o nb c descriptor_found_def)
  qed
qed (simp add: descriptor_found_def)

lemma opened_opens: "descriptor_found k r \<Longrightarrow> \<not> so_inited p \<Longrightarrow> so_fd p = - 1 \<Longrightarrow> opened_cleanly k (opened p r)"
  by (auto simp: descriptor_found_def opened_cleanly_def opened_def result_codes split: option.splits)

lemma new_Socket_closed [simp]: "\<not> so_inited new_Socket" "so_fd new_Socket = - 1"
  by (simp_all add: new_Socket_def zero_SocketImpl_def)

lemma failed_open [simp]:
  "\<not> so_inited p \<Longrightarrow> so_fd p = - 1 \<Longrightarrow> k_open k' = k_open k \<Longrightarrow> res \<noteq> kOk \<Longrightarrow> opened_cleanly k (res, p, k')"
  by (simp add: opened_cleanly_def)

lemma codes_differ [simp]: "kErrInternal \<noteq> kOk" "kErrInvalidArg \<noteq> kOk" "kErrTimeout \<noteq> kOk" "kErrAgain \<noteq> kOk" "kErrUnsupported \<noteq> kOk"
  by (simp_all add: result_codes)

lemma open_unix_server_opens: "opened_cleanly k (open_unix_server path backlog k)"
proof -
  obtain r k1 where o: "sys_open k = (r, k1)" by (rule prod.exhaust)
  show ?thesis
  proof (rule sys_open_cases [OF o])
    fix e assume "r = Inl e" "k_open k1 = k_open k"
    then show ?thesis by (simp add: open_unix_server_def o Let_def)
  next
    fix fd assume fd: "r = Inr fd" "k_open k1 = fd # k_open k" "fd \<notin> set (k_open k)" "0 \<le> fd"
    obtain ok k2 where nb: "must_nonblocking fd k1 = (ok, k2)" by (rule prod.exhaust)
    obtain bound k3 where b: "must fd (sys_unlink (take 107 (c_str path)) k2) = (bound, k3)" by (rule prod.exhaust)
    obtain listening k4 where l: "must fd k3 = (listening, k4)" by (rule prod.exhaust)
    have "k_open (sys_unlink x k2) = k_open k2" for x by (simp add: sys_unlink_def)
    note tables = this closes_on_failureD [OF must_nonblocking_closes nb] closes_on_failureD [OF must_closes b] closes_on_failureD [OF must_closes l]
    show ?thesis
      using fd tables
      by (cases ok; cases bound; cases listening) (simp_all add: open_unix_server_def o nb b l Let_def sys_close_def, simp_all add: opened_cleanly_def)
  qed
qed

lemma open_unix_client_opens: "opened_cleanly k (open_unix_client path k)"
proof -
  obtain r k1 where o: "sys_open k = (r, k1)" by (rule prod.exhaust)
  show ?thesis
  proof (rule sys_open_cases [OF o])
    fix e assume "r = Inl e" "k_open k1 = k_open k"
    then show ?thesis by (simp add: open_unix_client_def o Let_def)
  next
    fix fd assume fd: "r = Inr fd" "k_open k1 = fd # k_open k" "fd \<notin> set (k_open k)" "0 \<le> fd"
    obtain ok k2 where nb: "must_nonblocking fd k1 = (ok, k2)" by (rule prod.exhaust)
    obtain connected k3 where c: "unix_connect fd k2 = (connected, k3)" by (rule prod.exhaust)
    note tables = closes_on_failureD [OF must_nonblocking_closes nb] closes_on_failureD [OF unix_connect_closes c]
    show ?thesis
      using fd tables
      by (cases ok; cases connected) (simp_all add: open_unix_client_def o nb c Let_def sys_close_def, simp_all add: opened_cleanly_def)
  qed
qed

lemma accept_loop_opens: "opened_cleanly k (accept_loop k)"
proof (induction k rule: accept_loop.induct)
  case (1 k)
  obtain r k1 where o: "sys_open k = (r, k1)" by (rule prod.exhaust)
  show ?case
  proof (rule sys_open_cases [OF o])
    fix e assume e: "r = Inl e" "k_open k1 = k_open k"
    show ?thesis
    proof (cases "e = EINTR")
      case True
      have "opened_cleanly k1 (accept_loop k1)" by (rule "1.IH" [OF o [symmetric] e(1)]) (simp_all add: True)
      then have "opened_cleanly k (accept_loop k1)" using e(2) by (rule opened_cleanly_table)
      moreover have "accept_loop k = accept_loop k1" by (subst accept_loop.simps) (simp add: o e(1) True)
      ultimately show ?thesis by simp
    qed (subst accept_loop.simps, simp add: o e)
  next
    fix fd assume fd: "r = Inr fd" "k_open k1 = fd # k_open k" "fd \<notin> set (k_open k)" "0 \<le> fd"
    obtain ok k2 where nb: "must_nonblocking fd k1 = (ok, k2)" by (rule prod.exhaust)
    note table = closes_on_failureD [OF must_nonblocking_closes nb]
    have "opened_cleanly k (if ok then (kOk, new_Socket\<lparr>so_fd := fd, so_inited := True\<rparr>, k2) else (kErrInternal, new_Socket, k2))"
      using fd table by (simp add: opened_cleanly_def)
    moreover have "accept_loop k = (if ok then (kOk, new_Socket\<lparr>so_fd := fd, so_inited := True\<rparr>, k2) else (kErrInternal, new_Socket, k2))"
      by (subst accept_loop.simps) (simp add: o nb fd(1))
    ultimately show ?thesis by simp
  qed
qed

lemma open_tcp_server_opens: "opened_cleanly k (open_tcp_server gai host port backlog k)"
  by (auto simp: open_tcp_server_def Let_def opened_opens bind_loop_found split: option.split)

lemma open_udp_opens: "opened_cleanly k (open_udp gai host port k)"
  by (auto simp: open_udp_def Let_def opened_opens bind_loop_found split: option.split)

lemma open_tcp_client_opens: "opened_cleanly k (open_tcp_client gai host port k)"
  by (auto simp: open_tcp_client_def opened_opens connect_addresses_found split: option.split)

lemma socket_accept_opens: "opened_cleanly k (socket_accept server k)"
proof -
  have "opened_cleanly k (accept_loop k1)" if "k_open k1 = k_open k" for k1
    by (rule opened_cleanly_table [OF accept_loop_opens that])
  then show ?thesis by (auto simp: socket_accept_def split: prod.splits sum.splits dest!: sys_call_frame)
qed

text \<open>Whatever the system calls and the name resolution answer, opening a socket in any of the six ways either succeeds with exactly
  one new descriptor, which the socket holds, or leaves the table of open descriptors as it was and the socket without one.
\<close>

theorem failed_open_leaks_nothing:
  "opened_cleanly k (open_unix_server path backlog k) \<and> opened_cleanly k (open_unix_client path k) \<and>
   opened_cleanly k (open_tcp_server gai host port backlog k) \<and> opened_cleanly k (open_tcp_client gai host port k) \<and>
   opened_cleanly k (open_udp gai host port k) \<and> opened_cleanly k (socket_accept server k)"
  by (intro conjI open_unix_server_opens open_unix_client_opens open_tcp_server_opens open_tcp_client_opens open_udp_opens socket_accept_opens)

text \<open>Closing an open socket releases its descriptor. But it leaves the socket with descriptor 0, so that closing it again, as the
  destructor does after an explicit close, closes the standard input of the program; the next descriptor opened then takes its place.
\<close>

theorem second_close_closes_stdin:
  assumes "opened_cleanly k (kOk, s, k1)" "socket_close s k1 = (r2, s2, k2)" "socket_close s2 k2 = (r3, s3, k3)"
  shows "k_open k2 = k_open k \<and> r2 = kOk \<and> \<not> so_inited s2 \<and>
    k_open k3 = removeAll 0 (k_open k) \<and> fresh_fd (k_open k3) = 0"
proof -
  have s: "so_fd s \<notin> set (k_open k)" "0 \<le> so_fd s" "k_open k1 = so_fd s # k_open k" using assms(1) by (simp_all add: opened_cleanly_def)
  have first: "k_open k2 = k_open k" "r2 = kOk" "s2 = zero_SocketImpl"
    using assms(2) s by (auto simp: socket_close_def Let_def close_if_def sys_close_def sys_unlink_def)
  have "k_open k3 = removeAll 0 (k_open k)"
    using assms(3) first by (auto simp: socket_close_def Let_def close_if_def sys_close_def sys_unlink_def zero_SocketImpl_def)
  moreover have "fresh_fd fds = 0" if "0 \<notin> set fds" for fds
    using that by (simp add: fresh_fd_def upt_conv_Cons del: upt_Suc)
  ultimately show ?thesis using first by (simp add: zero_SocketImpl_def)
qed

theorem second_close_closes_stdin_witness:
  "\<exists>s k1 s2 k2 s3 k3. open_unix_server ''/tmp/s'' 16 (demo_kernel (replicate 5 (Ret 0))) = (kOk, s, k1) \<and>
     socket_close s k1 = (kOk, s2, k2) \<and> k_open k2 = [0, 1, 2] \<and> socket_close s2 k2 = (kOk, s3, k3) \<and> k_open k3 = [1, 2]"
proof -
  obtain s k1 where o: "open_unix_server ''/tmp/s'' 16 (demo_kernel (replicate 5 (Ret 0))) = (kOk, s, k1)"
    by (simp add: open_unix_server_def sys_open_def must_def must_nonblocking_def set_nonblocking_def sys_call_def demo_kernel_def
      numeral_eq_Suc c_str_def sys_unlink_def Let_def)
  obtain r2 s2 k2 where c2: "socket_close s k1 = (r2, s2, k2)" by (metis prod.exhaust)
  obtain r3 s3 k3 where c3: "socket_close s2 k2 = (r3, s3, k3)" by (metis prod.exhaust)
  have "opened_cleanly (demo_kernel (replicate 5 (Ret 0))) (kOk, s, k1)" using open_unix_server_opens o by metis
  from second_close_closes_stdin [OF this c2 c3] have tables: "k_open k2 = [0, 1, 2]" "k_open k3 = [1, 2]" "r2 = kOk" by (simp_all add: demo_kernel_def)
  have "r3 = kOk" using c3 by (simp add: socket_close_def Let_def)
  with tables o c2 c3 show ?thesis by auto
qed

end
