(* ===== verification/Network_Uri.thy ===== *)
theory Network_Uri
  imports Osal_Sockets
begin

section \<open>Endpoints by name (components/network/socket\_uri.cpp)\<close>

text \<open>
  A socket is opened by a text that names it: \<^verbatim>\<open>unix://path\<close>, \<^verbatim>\<open>tcp://host:port\<close> or \<^verbatim>\<open>udp://host:port\<close>, with brackets around a
  host that has colons.
\<close>

subsection \<open>Parsing\<close>

datatype Scheme = Scheme_Unix | Scheme_Tcp | Scheme_Udp | Scheme_Unknown

record Endpoint =
  ep_scheme :: Scheme
  ep_host :: string
  ep_port :: u16
  ep_path :: string

definition new_Endpoint :: Endpoint where
  "new_Endpoint = \<lparr>ep_scheme = Scheme_Unknown, ep_host = [], ep_port = 0, ep_path = []\<rparr>"

fun parse_port :: "nat \<Rightarrow> string \<Rightarrow> nat option" where
  "parse_port port [] = Some port"
| "parse_port port (c # cs) =
     (if \<not> is_digit c then None
      else let port = port * 10 + char_digit c in if 65535 < port then None else parse_port port cs)"

text \<open>Host and port of what follows the scheme.\<close>

definition split_host_port :: "string \<Rightarrow> (string \<times> string) option" where
  "split_host_port rest =
     (if rest \<noteq> [] \<and> hd rest = CHR ''['' then
        (case find_char rest (CHR '']'') of None \<Rightarrow> None
         | Some rb \<Rightarrow> if length rest < rb + 2 \<or> rest ! (rb + 1) \<noteq> CHR '':'' then None else Some (take (rb - 1) (drop 1 rest), drop (rb + 2) rest))
      else (case rfind_char rest (CHR '':'') of None \<Rightarrow> None | Some pos \<Rightarrow> Some (take pos rest, drop (pos + 1) rest)))"

definition parse_host_port :: "string \<Rightarrow> Endpoint \<Rightarrow> Result \<times> Endpoint" where
  "parse_host_port rest ep =
     (case split_host_port rest of None \<Rightarrow> (kErrInvalidArg, ep)
      | Some (host, port) \<Rightarrow>
          if host = [] \<or> port = [] then (kErrInvalidArg, ep)
          else case parse_port 0 port of None \<Rightarrow> (kErrInvalidArg, ep)
            | Some n \<Rightarrow> (kOk, ep\<lparr>ep_host := host, ep_port := of_nat n\<rparr>))"

definition parse_endpoint :: "string \<Rightarrow> Result \<times> Endpoint" where
  "parse_endpoint uri =
     (if uri = [] then (kErrInvalidArg, new_Endpoint)
      else if starts_with uri ''unix://'' then
        let path = drop 7 uri in (if path = [] then kErrInvalidArg else kOk, new_Endpoint\<lparr>ep_scheme := Scheme_Unix, ep_path := path\<rparr>)
      else if starts_with uri ''tcp://'' then parse_host_port (drop 6 uri) (new_Endpoint\<lparr>ep_scheme := Scheme_Tcp\<rparr>)
      else if starts_with uri ''udp://'' then parse_host_port (drop 6 uri) (new_Endpoint\<lparr>ep_scheme := Scheme_Udp\<rparr>)
      else (kErrUnsupported, new_Endpoint))"

subsection \<open>The class \<^verbatim>\<open>Socket\<close>\<close>

text \<open>A text that does not parse leaves the socket alone. A connected datagram socket is first bound to any port.\<close>

definition Socket_listen :: "resolver \<Rightarrow> string \<Rightarrow> u32 \<Rightarrow> SocketImpl \<Rightarrow> kernel \<Rightarrow> Result \<times> SocketImpl \<times> kernel" where
  "Socket_listen gai uri backlog s k =
     (case parse_endpoint uri of (r, ep) \<Rightarrow>
        if r \<noteq> kOk then (r, s, k)
        else case ep_scheme ep of
            Scheme_Unix \<Rightarrow> open_unix_server (ep_path ep) backlog k
          | Scheme_Tcp \<Rightarrow> open_tcp_server gai (ep_host ep) (ep_port ep) backlog k
          | Scheme_Udp \<Rightarrow> open_udp gai (if ep_host ep = [] then ''0.0.0.0'' else ep_host ep) (ep_port ep) k
          | Scheme_Unknown \<Rightarrow> (kErrUnsupported, s, k))"

definition Socket_connect :: "resolver \<Rightarrow> string \<Rightarrow> SocketImpl \<Rightarrow> kernel \<Rightarrow> Result \<times> SocketImpl \<times> kernel" where
  "Socket_connect gai uri s k =
     (case parse_endpoint uri of (r, ep) \<Rightarrow>
        if r \<noteq> kOk then (r, s, k)
        else case ep_scheme ep of
            Scheme_Unix \<Rightarrow> open_unix_client (ep_path ep) k
          | Scheme_Tcp \<Rightarrow> open_tcp_client gai (ep_host ep) (ep_port ep) k
          | Scheme_Udp \<Rightarrow>
              (case open_udp gai ''0.0.0.0'' 0 k of (rr, s, k) \<Rightarrow>
                 if rr \<noteq> kOk then (rr, s, k) else udp_connect gai (ep_host ep) (ep_port ep) s k)
          | Scheme_Unknown \<Rightarrow> (kErrUnsupported, s, k))"

subsection \<open>Printing and parsing\<close>

definition host_text :: "string \<Rightarrow> string" where
  "host_text host = (if (CHR '':'' \<in> set host \<or> hd host = CHR ''['') \<and> CHR '']'' \<notin> set host then ''['' @ host @ '']'' else host)"

definition endpoint_uri :: "Endpoint \<Rightarrow> string" where
  "endpoint_uri ep =
     (case ep_scheme ep of
        Scheme_Unix \<Rightarrow> ''unix://'' @ ep_path ep
      | Scheme_Tcp \<Rightarrow> ''tcp://'' @ host_text (ep_host ep) @ '':'' @ to_string_nat (unat (ep_port ep))
      | Scheme_Udp \<Rightarrow> ''udp://'' @ host_text (ep_host ep) @ '':'' @ to_string_nat (unat (ep_port ep))
      | Scheme_Unknown \<Rightarrow> [])"

text \<open>What an endpoint that has been parsed looks like.\<close>

definition parsed_endpoint :: "Endpoint \<Rightarrow> bool" where
  "parsed_endpoint ep \<longleftrightarrow>
     (case ep_scheme ep of
        Scheme_Unix \<Rightarrow> ep_path ep \<noteq> [] \<and> ep_host ep = [] \<and> ep_port ep = 0
      | Scheme_Unknown \<Rightarrow> False
      | _ \<Rightarrow> ep_path ep = [] \<and> ep_host ep \<noteq> [] \<and> (hd (ep_host ep) = CHR ''['' \<longrightarrow> CHR '']'' \<notin> set (ep_host ep)))"

lemma find_char_append: "c \<notin> set xs \<Longrightarrow> find_char (xs @ c # ys) c = Some (length xs)"
  unfolding find_char_def by (rule index_of_SomeI) (auto simp: nth_append in_set_conv_nth)

lemma digits_grow: "port \<le> foldl (\<lambda>n c. 10 * n + char_digit c) port cs"
proof (induction cs arbitrary: port)
  case (Cons c cs)
  have "port \<le> 10 * port + char_digit c" by simp
  also have "\<dots> \<le> foldl (\<lambda>n c. 10 * n + char_digit c) (10 * port + char_digit c) cs" by (rule Cons.IH)
  finally show ?case by simp
qed simp

lemma parse_port_eq:
  assumes "port \<le> 65535"
  shows "parse_port port cs =
    (let n = foldl (\<lambda>n c. 10 * n + char_digit c) port cs in if list_all is_digit cs \<and> n \<le> 65535 then Some n else None)"
  using assms
proof (induction cs arbitrary: port)
  case (Cons c cs)
  show ?case
  proof (cases "10 * port + char_digit c \<le> 65535")
    case True
    with Cons.IH [OF True] show ?thesis by (simp add: Let_def mult.commute)
  next
    case False
    with digits_grow [of "10 * port + char_digit c" cs] show ?thesis by (simp add: Let_def mult.commute)
  qed
qed simp

lemma parse_printed_port: "n \<le> 65535 \<Longrightarrow> parse_port 0 (to_string_nat n) = Some n"
  using to_string_nat_digits [of n] read_to_string_nat [of n] by (simp add: parse_port_eq read_nat_def list_all_iff)

lemma split_printed:
  assumes "host \<noteq> []" "hd host = CHR ''['' \<longrightarrow> CHR '']'' \<notin> set host" "CHR '':'' \<notin> set port"
  shows "split_host_port (host_text host @ '':'' @ port) = Some (host, port)"
proof (cases "(CHR '':'' \<in> set host \<or> hd host = CHR ''['') \<and> CHR '']'' \<notin> set host")
  case True
  have "find_char ((CHR ''['' # host) @ CHR '']'' # CHR '':'' # port) (CHR '']'') = Some (length (CHR ''['' # host))"
    using True by (intro find_char_append) auto
  with True show ?thesis by (simp add: host_text_def split_host_port_def nth_append)
next
  case False
  then have "hd host \<noteq> CHR ''[''" using assms(2) by blast
  moreover have "rfind_char (host @ CHR '':'' # port) (CHR '':'') = Some (length host)" by (rule rfind_char_append [OF assms(3)])
  ultimately show ?thesis using False assms(1) by (auto simp: host_text_def split_host_port_def)
qed

lemma parse_host_port_printed:
  assumes "host \<noteq> []" "hd host = CHR ''['' \<longrightarrow> CHR '']'' \<notin> set host"
  shows "parse_host_port (host_text host @ '':'' @ to_string_nat (unat port)) ep = (kOk, ep\<lparr>ep_host := host, ep_port := port\<rparr>)"
proof -
  have "CHR '':'' \<notin> set (to_string_nat (unat port))"
    using to_string_nat_digits [of "unat port"] by (auto simp: is_digit_code)
  from split_printed [OF assms this]
  have "split_host_port (host_text host @ '':'' @ to_string_nat (unat port)) = Some (host, to_string_nat (unat port))" .
  moreover have "unat port < 2 ^ LENGTH(16)" by (rule unsigned_less)
  then have "parse_port 0 (to_string_nat (unat port)) = Some (unat port)" by (intro parse_printed_port) simp
  ultimately show ?thesis using assms(1) by (simp add: parse_host_port_def)
qed

text \<open>A host that has been split off and begins with a bracket came in brackets.\<close>

lemma split_host: "split_host_port rest = Some (host, port) \<Longrightarrow> host \<noteq> [] \<Longrightarrow> hd host = CHR ''['' \<Longrightarrow> CHR '']'' \<notin> set host"
proof -
  assume s: "split_host_port rest = Some (host, port)" and h: "host \<noteq> []" "hd host = CHR ''[''"
  show ?thesis
  proof (cases "rest \<noteq> [] \<and> hd rest = CHR ''[''")
    case True
    then obtain rb where rb: "find_char rest (CHR '']'') = Some rb" "host = take (rb - 1) (drop 1 rest)"
      using s by (auto simp: split_host_port_def split: option.splits if_splits)
    from index_of_SomeD [OF rb(1) [unfolded find_char_def]] have first: "\<forall>k<rb. rest ! k \<noteq> CHR '']''" "rb < length rest" by auto
    show ?thesis
    proof
      assume "CHR '']'' \<in> set host"
      then obtain k where "k < rb - 1" "k < length rest - 1" "rest ! (1 + k) = CHR '']''" by (auto simp: rb(2) in_set_conv_nth)
      with first(1) show False by auto
    qed
  next
    case False
    then obtain pos where "host = take pos rest" using s by (auto simp: split_host_port_def split: option.splits if_splits)
    with h False show ?thesis by (cases rest; cases pos) auto
  qed
qed

lemma parse_host_port_ok:
  assumes "parse_host_port rest ep = (kOk, ep')"
  shows "\<exists>host port. ep' = ep\<lparr>ep_host := host, ep_port := port\<rparr> \<and> host \<noteq> [] \<and> (hd host = CHR ''['' \<longrightarrow> CHR '']'' \<notin> set host)"
  using assms split_host by (fastforce simp: parse_host_port_def result_codes split: option.splits if_splits)

lemma endpoint_parsed_ok: "parse_endpoint uri = (kOk, ep) \<Longrightarrow> parsed_endpoint ep"
  by (auto simp: parse_endpoint_def parsed_endpoint_def new_Endpoint_def Let_def result_codes dest!: parse_host_port_ok [unfolded result_codes] split: if_splits)

text \<open>Every endpoint that parsing a text can give, and no other, is what its printed form parses to again, with the host in brackets
  where it has colons; the port of a text is accepted exactly if it is a number up to 65535.
\<close>

theorem endpoint_round_trip:
  "(parsed_endpoint ep \<longrightarrow> parse_endpoint (endpoint_uri ep) = (kOk, ep)) \<and>
   (parse_endpoint uri = (kOk, ep) \<longrightarrow> parsed_endpoint ep) \<and>
   (parse_port 0 cs = Some n \<longleftrightarrow> list_all is_digit cs \<and> read_nat cs = n \<and> n \<le> 65535)"
proof (intro conjI impI)
  assume ok: "parsed_endpoint ep"
  show "parse_endpoint (endpoint_uri ep) = (kOk, ep)"
  proof (cases "ep_scheme ep")
    case Scheme_Unix
    with ok show ?thesis by (cases ep) (simp add: parsed_endpoint_def endpoint_uri_def parse_endpoint_def starts_with_def new_Endpoint_def Let_def)
  next
    case Scheme_Tcp
    with ok parse_host_port_printed [of "ep_host ep" "ep_port ep" "new_Endpoint\<lparr>ep_scheme := Scheme_Tcp\<rparr>"] show ?thesis
      by (cases ep) (simp add: parsed_endpoint_def endpoint_uri_def parse_endpoint_def starts_with_def new_Endpoint_def)
  next
    case Scheme_Udp
    with ok parse_host_port_printed [of "ep_host ep" "ep_port ep" "new_Endpoint\<lparr>ep_scheme := Scheme_Udp\<rparr>"] show ?thesis
      by (cases ep) (simp add: parsed_endpoint_def endpoint_uri_def parse_endpoint_def starts_with_def new_Endpoint_def)
  next
    case Scheme_Unknown
    with ok show ?thesis by (simp add: parsed_endpoint_def)
  qed
qed (auto simp: parse_port_eq read_nat_def Let_def endpoint_parsed_ok)

theorem endpoint_round_trip_witness:
  "\<exists>ep. parse_endpoint ''tcp://[::1]:1234'' = (kOk, ep) \<and> ep_host ep = ''::1'' \<and> ep_port ep = 1234 \<and> parsed_endpoint ep \<and>
     parse_endpoint (endpoint_uri ep) = (kOk, ep)"
proof -
  obtain ep where ep: "parse_endpoint ''tcp://[::1]:1234'' = (kOk, ep)" "ep_host ep = ''::1''" "ep_port ep = 1234"
    by (simp add: parse_endpoint_def starts_with_def parse_host_port_def split_host_port_def find_char_def is_digit_def char_digit_def
      new_Endpoint_def Let_def)
  with endpoint_round_trip [of ep "''tcp://[::1]:1234''" "[]" 0] show ?thesis by blast
qed

subsection \<open>What is left open\<close>

lemma udp_connect_loop_open: "k_open (snd (udp_connect_loop families k)) = k_open k"
  by (induction families arbitrary: k) (auto dest!: sys_call_frame split: prod.splits sum.splits)

lemma udp_connect_socket:
  assumes "udp_connect gai host port s k = (res, s', k')"
  shows "so_fd s' = so_fd s \<and> so_inited s' = so_inited s \<and> k_open k' = k_open k"
proof -
  have "k_open k'' = k_open k" if "udp_connect_loop families k = (r, k'')" for families r k''
    using udp_connect_loop_open [of families k] that by simp
  with assms show ?thesis by (auto simp: udp_connect_def split: if_splits option.splits prod.splits)
qed

text \<open>A text that does not name an endpoint changes nothing. Otherwise listening and connecting succeed with one new descriptor, which
  the socket holds, or leave the open descriptors as they were; but a datagram socket whose connection fails stays open: the
  call reports an error and the socket holds a new descriptor that is ready for use.
\<close>

theorem failed_connect_keeps_datagram_socket:
  assumes "Socket_connect gai uri s k = (res, s', k')" "Socket_listen gai uri backlog s k = (res2, s2, k2)" "parse_endpoint uri = (r, ep)"
  shows "(r \<noteq> kOk \<longrightarrow> (res, s', k') = (r, s, k) \<and> (res2, s2, k2) = (r, s, k)) \<and>
    (r = kOk \<longrightarrow> opened_cleanly k (res2, s2, k2) \<and>
       (opened_cleanly k (res, s', k') \<or>
        ep_scheme ep = Scheme_Udp \<and> res \<noteq> kOk \<and> so_inited s' \<and> so_fd s' \<notin> set (k_open k) \<and> k_open k' = so_fd s' # k_open k))"
proof (intro conjI impI)
  assume r: "r = kOk"
  then have known: "ep_scheme ep \<noteq> Scheme_Unknown" using assms(3) endpoint_parsed_ok [of uri ep] by (auto simp: parsed_endpoint_def)
  show "opened_cleanly k (res2, s2, k2)"
    using assms(2,3) r known open_unix_server_opens [of k "ep_path ep" backlog] open_tcp_server_opens [of k gai "ep_host ep" "ep_port ep" backlog]
      open_udp_opens [of k gai _ "ep_port ep"]
    by (cases "ep_scheme ep") (simp_all add: Socket_listen_def, metis)
  show "opened_cleanly k (res, s', k') \<or>
      ep_scheme ep = Scheme_Udp \<and> res \<noteq> kOk \<and> so_inited s' \<and> so_fd s' \<notin> set (k_open k) \<and> k_open k' = so_fd s' # k_open k"
  proof (cases "ep_scheme ep")
    case Scheme_Udp
    obtain r1 s1 k1 where o: "open_udp gai ''0.0.0.0'' 0 k = (r1, s1, k1)" by (metis prod_cases3)
    have clean: "opened_cleanly k (r1, s1, k1)" using open_udp_opens [of k gai "''0.0.0.0''" 0] o by simp
    show ?thesis
    proof (cases "r1 = kOk")
      case True
      then have u: "udp_connect gai (ep_host ep) (ep_port ep) s1 k1 = (res, s', k')"
        using assms(1,3) r Scheme_Udp o by (simp add: Socket_connect_def)
      from udp_connect_socket [OF u] clean True Scheme_Udp show ?thesis by (auto simp: opened_cleanly_def)
    next
      case False
      with assms(1,3) r Scheme_Udp o clean show ?thesis by (simp add: Socket_connect_def)
    qed
  qed (use assms(1,3) r known open_unix_client_opens [of k "ep_path ep"] open_tcp_client_opens [of k gai "ep_host ep" "ep_port ep"] in
      \<open>simp_all add: Socket_connect_def\<close>)
qed (use assms in \<open>simp_all add: Socket_connect_def Socket_listen_def\<close>)

theorem failed_connect_keeps_datagram_socket_witness:
  "\<exists>s' k'. Socket_connect (\<lambda>host port. if host = Some ''0.0.0.0'' then Some [AF_INET] else None) ''udp://nowhere:9'' new_Socket
       (demo_kernel (replicate 4 (Ret 0))) = (kErrInvalidArg, s', k') \<and>
     so_inited s' \<and> k_open k' = so_fd s' # [0, 1, 2]"
proof -
  let ?gai = "\<lambda>host port. if host = Some ''0.0.0.0'' then Some [AF_INET] else (None :: nat list option)"
  let ?k = "demo_kernel (replicate 4 (Ret 0))"
  have p: "parse_endpoint ''udp://nowhere:9'' = (kOk, \<lparr>ep_scheme = Scheme_Udp, ep_host = ''nowhere'', ep_port = 9, ep_path = []\<rparr>)"
    by (simp add: parse_endpoint_def starts_with_def parse_host_port_def split_host_port_def rfind_char_def is_digit_def char_digit_def new_Endpoint_def)
  obtain s' k' where c: "Socket_connect ?gai ''udp://nowhere:9'' new_Socket ?k = (kErrInvalidArg, s', k')" "so_inited s'"
    by (simp add: Socket_connect_def p open_udp_def host_arg_def c_str_def bind_loop.simps sys_open_def must_def must_nonblocking_def set_nonblocking_def
      sys_call_def demo_kernel_def numeral_eq_Suc Let_def opened_def udp_connect_def new_Socket_def zero_SocketImpl_def fresh_fd_def result_codes)
  obtain r2 s2 k2 where l: "Socket_listen ?gai ''udp://nowhere:9'' 16 new_Socket ?k = (r2, s2, k2)" by (metis prod_cases3)
  have "\<not> opened_cleanly ?k (kErrInvalidArg, s', k')" using c(2) by (simp add: opened_cleanly_def)
  with failed_connect_keeps_datagram_socket [OF c(1) l p] have "k_open k' = so_fd s' # k_open ?k" by blast
  with c show ?thesis by (auto simp: demo_kernel_def)
qed

end
