(* ===== verification/Osal_Sync.thy ===== *)
theory Osal_Sync
  imports Osal_Io "HOL-Library.Signed_Division"
begin

section \<open>Time limits, events and other objects to wait on (platform/osal: deadline.hpp, event.cpp, cond.cpp, sem.cpp, mutex.cpp, thread.cpp, time.cpp)\<close>

text \<open>
  Clocks are in nanoseconds, as pairs of seconds and nanoseconds where the code has them so. An event is used by several threads: every
  operation is a step, and a wait on its condition variable is cut where the thread sleeps. POSIX lets a sleeping thread wake up at any
  time; a timed wait measures its end on the clock of the condition variable, which is the real-time clock unless told otherwise.
\<close>

subsection \<open>Deadlines\<close>

record timespec =
  tv_sec :: int
  tv_nsec :: int

definition ns_of :: "timespec \<Rightarrow> int" where
  "ns_of ts = tv_sec ts * 1000000000 + tv_nsec ts"

definition timespec_of :: "int \<Rightarrow> timespec" where
  "timespec_of ns = \<lparr>tv_sec = ns div 1000000000, tv_nsec = ns mod 1000000000\<rparr>"

text \<open>One function per clock in the code; \<open>now\<close> is what the clock says, or nothing if it cannot be read. Division truncates.\<close>

definition deadline_from_timeout_ms :: "timespec option \<Rightarrow> int \<Rightarrow> Result \<times> timespec" where
  "deadline_from_timeout_ms clock timeout_ms =
     (case clock of None \<Rightarrow> (kErrInternal, \<lparr>tv_sec = 0, tv_nsec = 0\<rparr>)
      | Some now \<Rightarrow>
          let nsec = tv_nsec now + (timeout_ms smod 1000) * 1000000 in
          (kOk, \<lparr>tv_sec = tv_sec now + timeout_ms sdiv 1000 + nsec sdiv 1000000000, tv_nsec = nsec smod 1000000000\<rparr>))"

definition valid_timespec :: "timespec \<Rightarrow> bool" where
  "valid_timespec ts \<longleftrightarrow> 0 \<le> tv_nsec ts \<and> tv_nsec ts < 1000000000"

lemma nonneg_sdiv_smod: "0 \<le> a \<Longrightarrow> 0 < (b :: int) \<Longrightarrow> a sdiv b = a div b \<and> a smod b = a mod b"
  by (simp add: signed_divide_int_def signed_modulo_int_def sgn_if minus_div_mult_eq_mod)

lemma deadline_ns:
  assumes "valid_timespec now" "0 \<le> timeout_ms"
  shows "\<exists>d. deadline_from_timeout_ms (Some now) timeout_ms = (kOk, d) \<and> valid_timespec d \<and> ns_of d = ns_of now + timeout_ms * 1000000"
proof -
  let ?nsec = "tv_nsec now + (timeout_ms mod 1000) * 1000000"
  have n: "0 \<le> ?nsec" using assms by (simp add: valid_timespec_def)
  have "tv_sec now + timeout_ms div 1000 + ?nsec div 1000000000 = tv_sec now + timeout_ms div 1000 + ?nsec div 1000000000" ..
  moreover have "(?nsec div 1000000000) * 1000000000 + ?nsec mod 1000000000 = ?nsec" by simp
  moreover have "timeout_ms div 1000 * 1000000000 + (timeout_ms mod 1000) * 1000000 = timeout_ms * 1000000"
    using div_mult_mod_eq [of timeout_ms 1000] by linarith
  ultimately show ?thesis
    using nonneg_sdiv_smod [OF assms(2), of 1000] nonneg_sdiv_smod [OF n, of 1000000000]
    by (simp add: deadline_from_timeout_ms_def Let_def valid_timespec_def ns_of_def algebra_simps)
qed

subsection \<open>Events\<close>

text \<open>Where a thread is: elsewhere, asleep in a wait with its deadline, woken but not yet running again, back with a result.\<close>

datatype waiter = Elsewhere | Asleep "timespec option" | Woken "timespec option" | Back Result

text \<open>\<open>ev_sets\<close> and \<open>ev_oks\<close> count the calls of \<open>set\<close> and the waits that returned \<open>kOk\<close>; the code does not keep them.\<close>

record event =
  ev_inited :: bool
  ev_signaled :: bool
  ev_threads :: "waiter list"
  ev_monotonic :: int
  ev_realtime :: int
  ev_sets :: nat
  ev_oks :: nat

definition new_Event :: "bool \<Rightarrow> nat \<Rightarrow> int \<Rightarrow> int \<Rightarrow> event" where
  "new_Event initialised threads monotonic realtime =
     \<lparr>ev_inited = initialised, ev_signaled = False, ev_threads = replicate threads Elsewhere, ev_monotonic = monotonic, ev_realtime = realtime,
      ev_sets = 0, ev_oks = 0\<rparr>"

definition put_thread :: "nat \<Rightarrow> waiter \<Rightarrow> event \<Rightarrow> event" where
  "put_thread t w e = e\<lparr>ev_threads := (ev_threads e)[t := w]\<rparr>"

definition is_asleep :: "waiter \<Rightarrow> bool" where
  "is_asleep w = (case w of Asleep _ \<Rightarrow> True | _ \<Rightarrow> False)"

definition wake :: "nat \<Rightarrow> event \<Rightarrow> event" where
  "wake t e = (case ev_threads e ! t of Asleep d \<Rightarrow> put_thread t (Woken d) e | _ \<Rightarrow> e)"

text \<open>\<open>pthread_cond_signal\<close> wakes one of the sleeping threads, if there are any: \<open>choice\<close> says which.\<close>

definition cond_signal :: "nat \<Rightarrow> event \<Rightarrow> event" where
  "cond_signal choice e =
     (case filter (\<lambda>t. is_asleep (ev_threads e ! t)) [0..<length (ev_threads e)] of [] \<Rightarrow> e
      | ts \<Rightarrow> wake (ts ! (choice mod length ts)) e)"

definition Event_set :: "nat \<Rightarrow> event \<Rightarrow> Result \<times> event" where
  "Event_set choice e =
     (if \<not> ev_inited e then (kErrInvalidArg, e)
      else (kOk, cond_signal choice (e\<lparr>ev_signaled := True, ev_sets := Suc (ev_sets e)\<rparr>)))"

definition Event_reset :: "event \<Rightarrow> Result \<times> event" where
  "Event_reset e = (if \<not> ev_inited e then (kErrInvalidArg, e) else (kOk, e\<lparr>ev_signaled := False\<rparr>))"

text \<open>
  The loop of a wait, from its condition to the next sleep or the return. A timed wait whose deadline has passed on the clock of the
  condition variable does not sleep.
\<close>

definition wait_loop :: "nat \<Rightarrow> timespec option \<Rightarrow> event \<Rightarrow> event" where
  "wait_loop t deadline e =
     (if ev_signaled e then put_thread t (Back kOk) (e\<lparr>ev_signaled := False, ev_oks := Suc (ev_oks e)\<rparr>)
      else case deadline of
          None \<Rightarrow> put_thread t (Asleep None) e
        | Some d \<Rightarrow> if ns_of d \<le> ev_realtime e then put_thread t (Back kErrTimeout) e else put_thread t (Asleep (Some d)) e)"

definition Event_wait_timeout_ms :: "nat \<Rightarrow> int \<Rightarrow> event \<Rightarrow> event" where
  "Event_wait_timeout_ms t timeout_ms e =
     (if \<not> ev_inited e then put_thread t (Back kErrInvalidArg) e
      else if timeout_ms < 0 then wait_loop t None e
      else case deadline_from_timeout_ms (Some (timespec_of (ev_monotonic e))) timeout_ms of (dr, d) \<Rightarrow>
        if dr \<noteq> kOk then put_thread t (Back dr) e else wait_loop t (Some d) e)"

definition Event_wait :: "nat \<Rightarrow> event \<Rightarrow> event" where
  "Event_wait t e = Event_wait_timeout_ms t (- 1) e"

datatype event_op = Set nat | Reset | Wait nat int | Resume nat | Expire nat | Wake_up nat | Tick nat

definition event_do :: "event_op \<Rightarrow> event \<Rightarrow> event option" where
  "event_do c e =
     (case c of
        Set choice \<Rightarrow> Some (snd (Event_set choice e))
      | Reset \<Rightarrow> Some (snd (Event_reset e))
      | Wait t timeout_ms \<Rightarrow>
          (if t < length (ev_threads e) then
             (case ev_threads e ! t of Asleep _ \<Rightarrow> None | Woken _ \<Rightarrow> None | _ \<Rightarrow> Some (Event_wait_timeout_ms t timeout_ms e))
           else None)
      | Resume t \<Rightarrow> if t < length (ev_threads e) then (case ev_threads e ! t of Woken d \<Rightarrow> Some (wait_loop t d e) | _ \<Rightarrow> None) else None
      | Expire t \<Rightarrow>
          if t < length (ev_threads e) then
            (case ev_threads e ! t of Asleep (Some d) \<Rightarrow> if ns_of d \<le> ev_realtime e then Some (put_thread t (Back kErrTimeout) e) else None | _ \<Rightarrow> None)
          else None
      | Wake_up t \<Rightarrow> if t < length (ev_threads e) \<and> is_asleep (ev_threads e ! t) then Some (wake t e) else None
      | Tick ns \<Rightarrow> Some (e\<lparr>ev_monotonic := ev_monotonic e + int ns, ev_realtime := ev_realtime e + int ns\<rparr>))"

text \<open>Every successful wait has a set of its own, and a set event with a sleeping thread has a woken one.\<close>

definition no_lost_wakeup :: "event \<Rightarrow> bool" where
  "no_lost_wakeup e \<longleftrightarrow>
     (ev_signaled e \<and> (\<exists>t<length (ev_threads e). is_asleep (ev_threads e ! t)) \<longrightarrow> (\<exists>t<length (ev_threads e). \<exists>d. ev_threads e ! t = Woken d))"

definition event_inv :: "event \<Rightarrow> bool" where
  "event_inv e \<longleftrightarrow> ev_oks e + of_bool (ev_signaled e) \<le> ev_sets e \<and> no_lost_wakeup e"

lemma put_thread_simps [simp]:
  "ev_signaled (put_thread t w e) = ev_signaled e" "ev_oks (put_thread t w e) = ev_oks e" "ev_sets (put_thread t w e) = ev_sets e"
  "ev_threads (put_thread t w e) = (ev_threads e)[t := w]" "ev_realtime (put_thread t w e) = ev_realtime e" "ev_inited (put_thread t w e) = ev_inited e"
  "ev_monotonic (put_thread t w e) = ev_monotonic e"
  by (simp_all add: put_thread_def)

lemma wake_simps [simp]:
  "ev_signaled (wake t e) = ev_signaled e" "ev_oks (wake t e) = ev_oks e" "ev_sets (wake t e) = ev_sets e"
  by (simp_all add: wake_def split: waiter.split)

lemma wake_wakes: "t < length (ev_threads e) \<Longrightarrow> is_asleep (ev_threads e ! t) \<Longrightarrow>
    t < length (ev_threads (wake t e)) \<and> (\<exists>d. ev_threads (wake t e) ! t = Woken d)"
  by (auto simp: wake_def is_asleep_def split: waiter.splits)

lemma cond_signal_inv:
  assumes "ev_oks e + of_bool (ev_signaled e) \<le> ev_sets e"
  shows "event_inv (cond_signal choice e)"
proof -
  let ?ts = "filter (\<lambda>t. is_asleep (ev_threads e ! t)) [0..<length (ev_threads e)]"
  show ?thesis
  proof (cases ?ts)
    case Nil
    then have "\<not> is_asleep (ev_threads e ! t)" if "t < length (ev_threads e)" for t using that by (auto simp: filter_empty_conv)
    with Nil assms show ?thesis by (auto simp: cond_signal_def event_inv_def no_lost_wakeup_def)
  next
    case (Cons a as)
    let ?t = "?ts ! (choice mod length ?ts)"
    have "?t \<in> set ?ts" using Cons by (intro nth_mem) simp
    then have "?t < length (ev_threads e)" "is_asleep (ev_threads e ! ?t)" by auto
    from wake_wakes [OF this] have "no_lost_wakeup (wake ?t e)" unfolding no_lost_wakeup_def by blast
    moreover have "cond_signal choice e = wake ?t e" by (simp add: cond_signal_def Cons)
    ultimately show ?thesis using assms by (simp add: event_inv_def)
  qed
qed

lemma not_signaled_inv: "\<not> ev_signaled e \<Longrightarrow> ev_oks e \<le> ev_sets e \<Longrightarrow> event_inv e"
  by (simp add: event_inv_def no_lost_wakeup_def)

lemma wait_loop_inv: "event_inv e \<Longrightarrow> event_inv (wait_loop t d e)"
  by (cases "ev_signaled e") (auto simp: wait_loop_def event_inv_def no_lost_wakeup_def split: option.splits)

text \<open>A thread that comes back without having been woken takes no wake-up with it.\<close>

lemma back_inv:
  assumes "event_inv e" "t < length (ev_threads e)" "\<nexists>d. ev_threads e ! t = Woken d"
  shows "event_inv (put_thread t (Back r) e)"
proof -
  have "\<exists>v<length (ev_threads e). \<exists>d. (ev_threads e)[t := Back r] ! v = Woken d"
    if u: "ev_signaled e" "u < length (ev_threads e)" "is_asleep ((ev_threads e)[t := Back r] ! u)" for u
  proof -
    have "u \<noteq> t" using u assms(2) by (auto simp: is_asleep_def)
    with u have "is_asleep (ev_threads e ! u)" by simp
    then obtain v d where v: "v < length (ev_threads e)" "ev_threads e ! v = Woken d"
      using assms(1) u unfolding event_inv_def no_lost_wakeup_def by blast
    then have "v \<noteq> t" using assms(3) by auto
    with v show ?thesis by auto
  qed
  then have "no_lost_wakeup (put_thread t (Back r) e)" unfolding no_lost_wakeup_def put_thread_simps length_list_update by blast
  then show ?thesis using assms(1) by (simp add: event_inv_def)
qed

lemma event_do_inv:
  assumes "event_inv e" "event_do c e = Some e'"
  shows "event_inv e'"
proof (cases c)
  case (Set choice)
  have "event_inv (cond_signal choice (e\<lparr>ev_signaled := True, ev_sets := Suc (ev_sets e)\<rparr>))"
    using assms(1) by (intro cond_signal_inv) (auto simp: event_inv_def)
  with Set assms show ?thesis by (auto simp: event_do_def Event_set_def split: if_splits)
next
  case Reset
  then have "e' = e \<or> e' = e\<lparr>ev_signaled := False\<rparr>" using assms(2) by (auto simp: event_do_def Event_reset_def split: if_splits)
  with assms(1) show ?thesis by (auto simp: event_inv_def no_lost_wakeup_def)
next
  case (Wait t timeout_ms)
  then have t: "t < length (ev_threads e)" "\<not> is_asleep (ev_threads e ! t)" "\<nexists>d. ev_threads e ! t = Woken d"
    and e': "e' = Event_wait_timeout_ms t timeout_ms e"
    using assms(2) by (auto simp: event_do_def is_asleep_def split: if_splits waiter.splits)
  from back_inv [OF assms(1) t(1,3)] assms(1) show ?thesis by (auto simp: e' Event_wait_timeout_ms_def wait_loop_inv split: prod.split)
next
  case (Resume t)
  then show ?thesis using assms by (auto simp: event_do_def wait_loop_inv split: if_splits waiter.splits)
next
  case (Expire t)
  then have "t < length (ev_threads e)" "\<nexists>d. ev_threads e ! t = Woken d" "e' = put_thread t (Back kErrTimeout) e"
    using assms(2) by (auto simp: event_do_def split: if_splits waiter.splits option.splits)
  with back_inv [OF assms(1)] show ?thesis by simp
next
  case (Wake_up t)
  then have "t < length (ev_threads e)" "is_asleep (ev_threads e ! t)" and e': "e' = wake t e"
    using assms(2) by (auto simp: event_do_def split: if_splits)
  from wake_wakes [OF this(1,2)] have "no_lost_wakeup (wake t e)" unfolding no_lost_wakeup_def by blast
  with assms(1) e' show ?thesis by (simp add: event_inv_def)
next
  case (Tick ns)
  then show ?thesis using assms by (auto simp: event_do_def event_inv_def no_lost_wakeup_def)
qed

interpretation event: guarded_machine event_do "\<lambda>c. True" event_inv
  by unfold_locales (rule event_do_inv)

lemma event_do_frame:
  assumes "event_do c e = Some e'"
  shows "ev_inited e' = ev_inited e \<and> ev_realtime e' - ev_monotonic e' = ev_realtime e - ev_monotonic e \<and> ev_monotonic e \<le> ev_monotonic e'"
  using assms
  by (auto simp: event_do_def Event_set_def Event_reset_def Event_wait_timeout_ms_def wait_loop_def cond_signal_def wake_def put_thread_def Let_def
      split: event_op.splits if_splits waiter.splits option.splits list.splits prod.splits)

lemma run_inited: "run_ops event_do cs e = Some e' \<Longrightarrow> ev_inited e \<Longrightarrow> ev_inited e'"
  by (induction cs arbitrary: e) (auto split: option.splits dest: event_do_frame)

text \<open>C32:
  In every run of threads that set, reset and wait on an event, with sleepers that may wake up for no reason: each wait that returns
  \<open>kOk\<close> has a call of \<open>set\<close> of its own, and no wake-up is lost: if the event is set and a thread sleeps, some thread has been woken,
  and a woken thread of a set event returns \<open>kOk\<close> and resets it. But the end of a timed wait is computed on the monotonic clock and
  measured on the real-time clock: where that one is ahead, a timed wait on an event that is not set returns \<open>kErrTimeout\<close> at once.
\<close>

theorem event_wakes_one_waiter:
  assumes "run_ops event_do cs (new_Event True n monotonic realtime) = Some e"
  shows "ev_oks e + of_bool (ev_signaled e) \<le> ev_sets e \<and>
    (ev_signaled e \<and> t < length (ev_threads e) \<and> is_asleep (ev_threads e ! t) \<longrightarrow>
       (\<exists>u<length (ev_threads e). \<exists>d e'. ev_threads e ! u = Woken d \<and> event_do (Resume u) e = Some e' \<and> ev_threads e' ! u = Back kOk \<and> \<not> ev_signaled e')) \<and>
    (\<not> ev_signaled e \<and> u < length (ev_threads e) \<and> 0 \<le> timeout_ms \<and> ev_monotonic e + timeout_ms * 1000000 \<le> ev_realtime e \<longrightarrow>
       ev_threads (Event_wait_timeout_ms u timeout_ms e) ! u = Back kErrTimeout)"
proof (intro conjI impI)
  have inv: "event_inv e"
    by (rule event.run_inv [OF _ _ assms]) (simp_all add: new_Event_def not_signaled_inv list_all_iff)
  then show "ev_oks e + of_bool (ev_signaled e) \<le> ev_sets e" by (simp add: event_inv_def)
  assume "ev_signaled e \<and> t < length (ev_threads e) \<and> is_asleep (ev_threads e ! t)"
  with inv obtain u d where u: "u < length (ev_threads e)" "ev_threads e ! u = Woken d" "ev_signaled e"
    by (auto simp: event_inv_def no_lost_wakeup_def)
  then show "\<exists>u<length (ev_threads e). \<exists>d e'. ev_threads e ! u = Woken d \<and> event_do (Resume u) e = Some e' \<and> ev_threads e' ! u = Back kOk \<and> \<not> ev_signaled e'"
    by (intro exI [of _ u]) (simp add: event_do_def wait_loop_def)
next
  assume late: "\<not> ev_signaled e \<and> u < length (ev_threads e) \<and> 0 \<le> timeout_ms \<and> ev_monotonic e + timeout_ms * 1000000 \<le> ev_realtime e"
  have "ev_inited e" using assms by (rule run_inited) (simp add: new_Event_def)
  have now: "valid_timespec (timespec_of (ev_monotonic e))" "ns_of (timespec_of (ev_monotonic e)) = ev_monotonic e"
    by (simp_all add: valid_timespec_def timespec_of_def ns_of_def)
  from deadline_ns [OF now(1)] late obtain d where "deadline_from_timeout_ms (Some (timespec_of (ev_monotonic e))) timeout_ms = (kOk, d)"
    "ns_of d = ns_of (timespec_of (ev_monotonic e)) + timeout_ms * 1000000" by blast
  with late now(2) \<open>ev_inited e\<close> show "ev_threads (Event_wait_timeout_ms u timeout_ms e) ! u = Back kErrTimeout"
    by (simp add: Event_wait_timeout_ms_def wait_loop_def)
qed

theorem event_wakes_one_waiter_witness:
  "\<exists>e e'. run_ops event_do [Wait 0 (- 1), Wait 1 (- 1), Set 0] (new_Event True 2 5000000000 1700000000000000000) = Some e \<and>
     ev_threads e = [Woken None, Asleep None] \<and> ev_signaled e \<and>
     event_do (Resume 0) e = Some e' \<and> ev_threads e' = [Back kOk, Asleep None] \<and>
     ev_threads (Event_wait_timeout_ms 0 60000 e') ! 0 = Back kErrTimeout"
proof -
  obtain e where e: "run_ops event_do [Wait 0 (- 1), Wait 1 (- 1), Set 0] (new_Event True 2 5000000000 1700000000000000000) = Some e"
    "ev_threads e = [Woken None, Asleep None]" "ev_signaled e" "ev_monotonic e = 5000000000" "ev_realtime e = 1700000000000000000"
    by (simp add: event_do_def new_Event_def Event_wait_timeout_ms_def wait_loop_def Event_set_def cond_signal_def wake_def is_asleep_def
      put_thread_def numeral_2_eq_2)
  obtain e' where e': "event_do (Resume 0) e = Some e'" "ev_threads e' = [Back kOk, Asleep None]" "\<not> ev_signaled e'"
      "ev_monotonic e' = 5000000000" "ev_realtime e' = 1700000000000000000"
    using e by (simp add: event_do_def wait_loop_def)
  have run: "run_ops event_do ([Wait 0 (- 1), Wait 1 (- 1), Set 0] @ [Resume 0]) (new_Event True 2 5000000000 1700000000000000000) = Some e'"
    unfolding run_ops_append e(1) by (simp add: e'(1))
  have "ev_threads (Event_wait_timeout_ms 0 60000 e') ! 0 = Back kErrTimeout"
    using event_wakes_one_waiter [OF run, of 0 0 60000] e' by simp
  with e e' show ?thesis by blast
qed

subsection \<open>Condition variables, semaphores, mutexes\<close>

text \<open>
  One call of the thread library each; its outcome is an error number, or nothing. The timed wait of a condition variable gives an
  invalid time for a negative limit, as the truncating division leaves negative nanoseconds, and one that has passed on the
  real-time clock ends at once.
\<close>

type_synonym rc = "errno option"

definition pthread_result :: "rc \<Rightarrow> Result" where
  "pthread_result rc = (case rc of None \<Rightarrow> kOk | Some e \<Rightarrow> from_errno e)"

definition ok_or_internal :: "rc \<Rightarrow> Result" where
  "ok_or_internal rc = (case rc of None \<Rightarrow> kOk | Some _ \<Rightarrow> kErrInternal)"

text \<open>\<open>mutex\<close> says whether the mutex could be set up, which is when it has a handle.\<close>

definition Cond_wait :: "bool \<Rightarrow> bool \<Rightarrow> rc \<Rightarrow> Result" where
  "Cond_wait initialised mutex rc = (if \<not> initialised \<or> \<not> mutex then kErrInvalidArg else pthread_result rc)"

definition timedwait_rc :: "int \<Rightarrow> timespec \<Rightarrow> rc \<Rightarrow> rc" where
  "timedwait_rc realtime d rc =
     (if \<not> valid_timespec d then Some EINVAL else if ns_of d \<le> realtime then Some ETIMEDOUT else rc)"

definition Cond_wait_timeout_ms :: "bool \<Rightarrow> bool \<Rightarrow> timespec option \<Rightarrow> int \<Rightarrow> rc \<Rightarrow> int \<Rightarrow> Result" where
  "Cond_wait_timeout_ms initialised mutex monotonic realtime rc timeout_ms =
     (if \<not> initialised \<or> \<not> mutex then kErrInvalidArg
      else case deadline_from_timeout_ms monotonic timeout_ms of (deadline, d) \<Rightarrow>
        if deadline \<noteq> kOk then deadline
        else case timedwait_rc realtime d rc of None \<Rightarrow> kOk | Some e \<Rightarrow> if e = ETIMEDOUT then kErrTimeout else from_errno e)"

definition Cond_notify :: "bool \<Rightarrow> rc \<Rightarrow> Result" where
  "Cond_notify initialised rc = (if \<not> initialised then kErrInvalidArg else ok_or_internal rc)"

definition Mutex_lock :: "bool \<Rightarrow> rc \<Rightarrow> Result" where
  "Mutex_lock initialised rc = (if \<not> initialised then kErrInvalidArg else pthread_result rc)"

definition Mutex_unlock :: "bool \<Rightarrow> rc \<Rightarrow> Result" where
  "Mutex_unlock initialised rc = (if \<not> initialised then kErrInvalidArg else ok_or_internal rc)"

text \<open>A semaphore's waits are called again when a signal interrupts them. \<open>rcs\<close> are the outcomes of these calls, of which there is a last.\<close>

fun uninterrupted :: "rc list \<Rightarrow> rc" where
  "uninterrupted [] = Some EIO"
| "uninterrupted (rc # rcs) = (if rc = Some EINTR then uninterrupted rcs else rc)"

definition Semaphore_post :: "bool \<Rightarrow> rc \<Rightarrow> Result" where
  "Semaphore_post initialised rc = (if \<not> initialised then kErrInvalidArg else ok_or_internal rc)"

definition Semaphore_wait :: "bool \<Rightarrow> rc list \<Rightarrow> Result" where
  "Semaphore_wait initialised rcs = (if \<not> initialised then kErrInvalidArg else ok_or_internal (uninterrupted rcs))"

definition Semaphore_try_wait :: "bool \<Rightarrow> rc \<Rightarrow> Result" where
  "Semaphore_try_wait initialised rc =
     (if \<not> initialised then kErrInvalidArg
      else case rc of None \<Rightarrow> kOk | Some e \<Rightarrow> if e = EAGAIN \<or> e = EINTR then kErrAgain else kErrInternal)"

definition Semaphore_wait_timeout_ms :: "bool \<Rightarrow> timespec option \<Rightarrow> int \<Rightarrow> rc list \<Rightarrow> Result" where
  "Semaphore_wait_timeout_ms initialised realtime timeout_ms rcs =
     (if \<not> initialised then kErrInvalidArg
      else if timeout_ms < 0 then Semaphore_wait initialised rcs
      else if timeout_ms = 0 then Semaphore_try_wait initialised (case rcs of [] \<Rightarrow> Some EIO | rc # _ \<Rightarrow> rc)
      else case deadline_from_timeout_ms realtime timeout_ms of (dr, d) \<Rightarrow>
        if dr \<noteq> kOk then dr
        else case uninterrupted rcs of None \<Rightarrow> kOk | Some e \<Rightarrow> if e = ETIMEDOUT then kErrTimeout else kErrInternal)"

text \<open>A condition variable waits with a negative limit for an invalid time, most of the time; a semaphore waits without one.\<close>

lemma Cond_negative_limit:
  assumes "valid_timespec now" "tv_nsec now < 1000000" "timeout_ms = - 1"
  shows "Cond_wait_timeout_ms True True (Some now) realtime rc timeout_ms = kErrInternal"
proof -
  have m: "(1 :: int) smod 1000 = 1" "(1 :: int) sdiv 1000 = 0" by (simp_all add: signed_modulo_int_def signed_divide_int_def)
  have neg: "tv_nsec now - 1000000 < 0" "- 1000000000 < tv_nsec now - 1000000" using assms(1,2) by (simp_all add: valid_timespec_def)
  have "(tv_nsec now - 1000000) smod 1000000000 = tv_nsec now - 1000000"
  proof -
    have "\<bar>tv_nsec now - 1000000\<bar> div 1000000000 = 0" using neg by simp
    then show ?thesis using neg(1) by (simp add: signed_modulo_int_def signed_divide_int_def)
  qed
  then have "\<exists>d. deadline_from_timeout_ms (Some now) timeout_ms = (kOk, d) \<and> \<not> valid_timespec d"
    using neg by (simp add: deadline_from_timeout_ms_def Let_def assms(3) m valid_timespec_def)
  then show ?thesis by (auto simp: Cond_wait_timeout_ms_def timedwait_rc_def from_errno_def)
qed

subsection \<open>Threads\<close>

text \<open>A thread object is empty or has a started thread; a joined one is empty again.\<close>

datatype thread_object = No_thread | Started

definition Thread_start :: "bool \<Rightarrow> rc \<Rightarrow> thread_object \<Rightarrow> Result \<times> thread_object" where
  "Thread_start has_fn rc t =
     (if \<not> has_fn then (kErrInvalidArg, t)
      else if t = Started then (kErrBusy, t)
      else case rc of None \<Rightarrow> (kOk, Started) | Some e \<Rightarrow> (from_errno e, No_thread))"

definition Thread_join :: "rc \<Rightarrow> thread_object \<Rightarrow> Result \<times> thread_object" where
  "Thread_join rc t =
     (if t = No_thread then (kErrInvalidArg, t) else case rc of None \<Rightarrow> (kOk, No_thread) | Some e \<Rightarrow> (from_errno e, t))"

subsection \<open>Sleeping\<close>

text \<open>\<open>nanosleep\<close> sleeps all of the time, or is interrupted with some of it left, or fails. The result has the time slept.\<close>

datatype nap = Slept | Interrupted nat | Failed_nap

fun sleep_loop :: "nap list \<Rightarrow> nat \<Rightarrow> Result \<times> nat" where
  "sleep_loop [] ns = (kErrInternal, 0)"
| "sleep_loop (nap # naps) ns =
     (case nap of Slept \<Rightarrow> (kOk, ns)
      | Interrupted left \<Rightarrow> (case sleep_loop naps (min left ns) of (r, slept) \<Rightarrow> (r, ns - min left ns + slept))
      | Failed_nap \<Rightarrow> (kErrInternal, 0))"

definition sleep_ms :: "nap list \<Rightarrow> u32 \<Rightarrow> Result \<times> nat" where
  "sleep_ms naps ms = sleep_loop naps (unat (ms div 1000) * 1000000000 + unat ((ms mod 1000) * 1000000))"

definition sleep_ns :: "nap list \<Rightarrow> u64 \<Rightarrow> Result \<times> nat" where
  "sleep_ns naps ns = sleep_loop naps (unat (ns div 1000000000) * 1000000000 + unat (ns mod 1000000000))"

definition clock_monotonic_ns :: "timespec option \<Rightarrow> Result \<times> u64 option" where
  "clock_monotonic_ns clock =
     (case clock of None \<Rightarrow> (kErrInternal, None) | Some ts \<Rightarrow> (kOk, Some (of_int (tv_sec ts) * 1000000000 + of_int (tv_nsec ts))))"

lemma sleep_loop_all: "sleep_loop naps ns = (kOk, slept) \<Longrightarrow> slept = ns"
proof (induction naps arbitrary: ns slept)
  case (Cons nap naps)
  show ?case
  proof (cases nap)
    case (Interrupted left)
    obtain r s where rec: "sleep_loop naps (min left ns) = (r, s)" by (rule prod.exhaust)
    with Cons.prems Interrupted have "r = kOk" "slept = ns - min left ns + s" by simp_all
    with Cons.IH [of "min left ns" s] rec show ?thesis by simp
  qed (use Cons.prems in \<open>auto simp: result_codes\<close>)
qed (simp add: result_codes)

text \<open>However often it is interrupted, a sleep that returns \<open>kOk\<close> lasted as long as asked for.\<close>

lemma sleep_ms_exact: "sleep_ms naps ms = (kOk, slept) \<Longrightarrow> slept = unat ms * 1000000"
proof -
  assume s: "sleep_ms naps ms = (kOk, slept)"
  have "unat (ms mod 1000) < 1000" by (simp add: unat_mod)
  then have "unat ((ms mod 1000) * 1000000) = unat (ms mod 1000) * 1000000" by (subst unat_mult_lem [THEN iffD1]) simp_all
  then have "slept = unat ms div 1000 * 1000000000 + unat ms mod 1000 * 1000000"
    using sleep_loop_all [OF s [unfolded sleep_ms_def]] by (simp add: unat_div unat_mod)
  also have "\<dots> = (unat ms div 1000 * 1000 + unat ms mod 1000) * 1000000" by (simp only: add_mult_distrib)
  finally show ?thesis by simp
qed

end
