(* ===== verification/Osal_Ipc.thy ===== *)
theory Osal_Ipc
  imports Osal_Sync
begin

section \<open>Message queues, shared memory and signals (platform/osal: mq.cpp, shm.cpp, signals.cpp)\<close>

text \<open>
  Objects over the kernel of \<open>Osal_Io\<close>. A message queue's descriptor and the file of a shared memory are descriptors of it. Opening an
  object replaces its state whatever it held before.
\<close>

subsection \<open>Message queues\<close>

record MessageQueue =
  mq_fd :: int
  mq_inited :: bool
  mq_msg_size :: nat

definition new_MessageQueue :: MessageQueue where
  "new_MessageQueue = \<lparr>mq_fd = - 1, mq_inited = False, mq_msg_size = 0\<rparr>"

definition MessageQueue_unlink :: "string \<Rightarrow> kernel \<Rightarrow> Result \<times> kernel" where
  "MessageQueue_unlink name k =
     (if name = [] then (kErrInvalidArg, k)
      else case sys_call k of (Inr _, k) \<Rightarrow> (kOk, sys_unlink (c_str name) k) | (Inl e, k) \<Rightarrow> (if e = ENOENT then kOk else kErrInternal, k))"

definition MessageQueue_create :: "string \<Rightarrow> u32 \<Rightarrow> u32 \<Rightarrow> MessageQueue \<Rightarrow> kernel \<Rightarrow> Result \<times> MessageQueue \<times> kernel" where
  "MessageQueue_create name max_msgs msg_size q k =
     (if name = [] \<or> max_msgs = 0 \<or> msg_size = 0 then (kErrInvalidArg, q, k)
      else
        let q = new_MessageQueue\<lparr>mq_msg_size := unat msg_size\<rparr> in
        case sys_open k of
          (Inl e, k) \<Rightarrow>
            (if e \<in> {ENOSYS, ENOTSUP, ENOENT, EACCES} then kErrUnsupported else if e = EEXIST then kErrBusy else kErrInternal, q, k)
        | (Inr fd, k) \<Rightarrow> (kOk, q\<lparr>mq_fd := fd, mq_inited := True\<rparr>, k))"

definition MessageQueue_open :: "string \<Rightarrow> MessageQueue \<Rightarrow> kernel \<Rightarrow> Result \<times> MessageQueue \<times> kernel" where
  "MessageQueue_open name q k =
     (if name = [] then (kErrInvalidArg, q, k)
      else case sys_open k of
          (Inl e, k) \<Rightarrow> (if e \<in> {ENOSYS, ENOTSUP, ENOENT} then kErrUnsupported else kErrInternal, new_MessageQueue, k)
        | (Inr fd, k) \<Rightarrow> (kOk, new_MessageQueue\<lparr>mq_fd := fd, mq_inited := True\<rparr>, k))"

definition MessageQueue_close :: "MessageQueue \<Rightarrow> kernel \<Rightarrow> Result \<times> MessageQueue \<times> kernel" where
  "MessageQueue_close q k =
     (if \<not> mq_inited q then (kOk, q, k)
      else case sys_call k of (Inr _, k) \<Rightarrow> (kOk, new_MessageQueue, sys_close (mq_fd q) k) | (Inl _, k) \<Rightarrow> (kErrInternal, new_MessageQueue, k))"

text \<open>Without a limit a call waits; with one it ends at the deadline of the real-time clock.\<close>

definition mq_timed_error :: "errno \<Rightarrow> Result" where
  "mq_timed_error e = (if e = ETIMEDOUT then kErrTimeout else if e = EAGAIN then kErrAgain else kErrInternal)"

definition MessageQueue_send :: "timespec option \<Rightarrow> u8 list \<Rightarrow> int \<Rightarrow> MessageQueue \<Rightarrow> kernel \<Rightarrow> Result \<times> kernel" where
  "MessageQueue_send realtime buf timeout_ms q k =
     (if \<not> mq_inited q \<or> mq_fd q = - 1 then (kErrInvalidArg, k)
      else if timeout_ms < 0 then
        (case sys_write (mq_fd q) buf k of (Inl e, k) \<Rightarrow> (if e = EAGAIN then kErrAgain else kErrInternal, k) | (Inr _, k) \<Rightarrow> (kOk, k))
      else case deadline_from_timeout_ms realtime timeout_ms of (dr, _) \<Rightarrow>
        if dr \<noteq> kOk then (dr, k)
        else (case sys_write (mq_fd q) buf k of (Inl e, k) \<Rightarrow> (mq_timed_error e, k) | (Inr _, k) \<Rightarrow> (kOk, k)))"

text \<open>\<open>msg\<close> is the message at the head of the queue.\<close>

definition MessageQueue_recv :: "timespec option \<Rightarrow> u8 list \<Rightarrow> nat \<Rightarrow> int \<Rightarrow> MessageQueue \<Rightarrow> kernel \<Rightarrow> Result \<times> u8 list \<times> kernel" where
  "MessageQueue_recv realtime msg cap timeout_ms q k =
     (if \<not> mq_inited q \<or> mq_fd q = - 1 \<or> cap = 0 then (kErrInvalidArg, [], k)
      else if timeout_ms < 0 then
        (case sys_call k of (Inl _, k) \<Rightarrow> (kErrInternal, [], k) | (Inr _, k) \<Rightarrow> (kOk, msg, k))
      else case deadline_from_timeout_ms realtime timeout_ms of (dr, _) \<Rightarrow>
        if dr \<noteq> kOk then (dr, [], k)
        else (case sys_call k of (Inl e, k) \<Rightarrow> (mq_timed_error e, [], k) | (Inr _, k) \<Rightarrow> (kOk, msg, k)))"

subsection \<open>Shared memory\<close>

text \<open>An address is a number, null is zero; \<open>mapped\<close> is where the kernel would map the file.\<close>

record SharedMemory =
  sh_fd :: int
  sh_size :: nat
  sh_addr :: nat
  sh_inited :: bool

definition new_SharedMemory :: SharedMemory where
  "new_SharedMemory = \<lparr>sh_fd = - 1, sh_size = 0, sh_addr = 0, sh_inited = False\<rparr>"

definition SharedMemory_unlink :: "string \<Rightarrow> kernel \<Rightarrow> Result \<times> kernel" where
  "SharedMemory_unlink name k = MessageQueue_unlink name k"

definition drop_new :: "string \<Rightarrow> int \<Rightarrow> kernel \<Rightarrow> kernel" where
  "drop_new name fd k = sys_unlink (c_str name) (sys_close fd k)"

text \<open>\<open>fstat\<close> gives the size of the file.\<close>

definition SharedMemory_create :: "nat \<Rightarrow> string \<Rightarrow> nat \<Rightarrow> SharedMemory \<Rightarrow> kernel \<Rightarrow> Result \<times> SharedMemory \<times> kernel" where
  "SharedMemory_create mapped name bytes m k =
     (if name = [] \<or> bytes = 0 then (kErrInvalidArg, m, k)
      else case sys_open k of (Inl e, k) \<Rightarrow> (if e = EEXIST then kErrBusy else kErrInternal, new_SharedMemory, k)
      | (Inr fd, k) \<Rightarrow>
          (case sys_call k of (Inl _, k) \<Rightarrow> (kErrInternal, new_SharedMemory, drop_new name fd k)
           | (Inr _, k) \<Rightarrow>
               (case sys_call k of (Inl _, k) \<Rightarrow> (kErrInternal, new_SharedMemory, drop_new name fd k)
                | (Inr st_size, k) \<Rightarrow>
                    (case sys_call k of (Inl _, k) \<Rightarrow> (kErrInternal, new_SharedMemory, drop_new name fd k)
                     | (Inr _, k) \<Rightarrow> (kOk, \<lparr>sh_fd = fd, sh_size = st_size, sh_addr = mapped, sh_inited = True\<rparr>, k)))))"

definition SharedMemory_open :: "nat \<Rightarrow> string \<Rightarrow> SharedMemory \<Rightarrow> kernel \<Rightarrow> Result \<times> SharedMemory \<times> kernel" where
  "SharedMemory_open mapped name m k =
     (if name = [] then (kErrInvalidArg, m, k)
      else case sys_open k of (Inl _, k) \<Rightarrow> (kErrUnsupported, new_SharedMemory, k)
      | (Inr fd, k) \<Rightarrow>
          (case sys_call k of (Inl _, k) \<Rightarrow> (kErrInternal, new_SharedMemory, sys_close fd k)
           | (Inr st_size, k) \<Rightarrow>
               if st_size = 0 then (kErrInternal, new_SharedMemory, sys_close fd k)
               else (case sys_call k of (Inl _, k) \<Rightarrow> (kErrInternal, new_SharedMemory, sys_close fd k)
                     | (Inr _, k) \<Rightarrow> (kOk, \<lparr>sh_fd = fd, sh_size = st_size, sh_addr = mapped, sh_inited = True\<rparr>, k))))"

definition SharedMemory_close :: "SharedMemory \<Rightarrow> kernel \<Rightarrow> Result \<times> SharedMemory \<times> kernel" where
  "SharedMemory_close m k = (kOk, new_SharedMemory, close_if (sh_fd m) k)"

definition get_ptr :: "SharedMemory \<Rightarrow> Result \<times> (nat \<times> nat) option" where
  "get_ptr m =
     (if \<not> sh_inited m \<or> sh_addr m = 0 \<or> sh_size m = 0 then (kErrInvalidArg, None) else (kOk, Some (sh_addr m, sh_size m)))"

subsection \<open>Signals\<close>

text \<open>The signals that are blocked in the thread are a set beside the kernel.\<close>

record SignalWaiter =
  sg_fd :: int
  sg_inited :: bool
  sg_oldmask :: "int set"
  sg_has_oldmask :: bool

definition new_SignalWaiter :: SignalWaiter where
  "new_SignalWaiter = \<lparr>sg_fd = - 1, sg_inited = False, sg_oldmask = {}, sg_has_oldmask = False\<rparr>"

definition SignalWaiter_open :: "int list \<Rightarrow> SignalWaiter \<Rightarrow> int set \<Rightarrow> kernel \<Rightarrow> Result \<times> SignalWaiter \<times> int set \<times> kernel" where
  "SignalWaiter_open signums w blocked k =
     (if signums = [] then (kErrInvalidArg, w, blocked, k)
      else if list_ex (\<lambda>n. n \<le> 0) signums then (kErrInvalidArg, new_SignalWaiter, blocked, k)
      else case sys_call k of (Inl _, k) \<Rightarrow> (kErrInternal, new_SignalWaiter, blocked, k)
      | (Inr _, k) \<Rightarrow>
          let w = new_SignalWaiter\<lparr>sg_oldmask := blocked, sg_has_oldmask := True\<rparr> in
          (case sys_open k of (Inl _, k) \<Rightarrow> (kErrInternal, w, blocked, k)
           | (Inr fd, k) \<Rightarrow> (kOk, w\<lparr>sg_fd := fd, sg_inited := True\<rparr>, blocked \<union> set signums, k)))"

text \<open>\<open>pending\<close> is what the descriptor would give: the number of a signal and its sender.\<close>

definition SignalWaiter_wait :: "int \<times> int \<Rightarrow> SignalWaiter \<Rightarrow> kernel \<Rightarrow> Result \<times> (int \<times> int) option \<times> kernel" where
  "SignalWaiter_wait pending w k =
     (if \<not> sg_inited w \<or> sg_fd w < 0 then (kErrInvalidArg, None, k)
      else case sys_call k of (Inl e, k) \<Rightarrow> (if e = EINTR then kErrAgain else kErrInternal, None, k)
      | (Inr rc, k) \<Rightarrow>
          if rc = 0 then (kErrTimeout, None, k)
          else (case sys_call k of (Inl e, k) \<Rightarrow> (if e = EAGAIN then kErrTimeout else kErrInternal, None, k)
                | (Inr n, k) \<Rightarrow> if n \<noteq> 128 then (kErrInternal, None, k) else (kOk, Some pending, k)))"

definition SignalWaiter_close :: "SignalWaiter \<Rightarrow> int set \<Rightarrow> kernel \<Rightarrow> Result \<times> SignalWaiter \<times> int set \<times> kernel" where
  "SignalWaiter_close w blocked k =
     (kOk, new_SignalWaiter, if sg_has_oldmask w then sg_oldmask w else blocked, close_if (sg_fd w) k)"

subsection \<open>What opening and closing leaves behind\<close>

text \<open>An opening either gives one new descriptor, which closing the object closes again, or leaves all as it was.\<close>

definition opens_one :: "kernel \<Rightarrow> Result \<Rightarrow> int \<Rightarrow> kernel \<Rightarrow> bool" where
  "opens_one k res fd k' \<longleftrightarrow> (if res = kOk then 0 \<le> fd \<and> fd \<notin> set (k_open k) \<and> k_open k' = fd # k_open k else k_open k' = k_open k)"

lemma SharedMemory_create_opens:
  assumes "SharedMemory_create mapped name bytes m k = (res, m', k')"
  shows "opens_one k res (sh_fd m') k' \<and> (res \<noteq> kOk \<and> k_unlinked k' \<noteq> k_unlinked k \<longrightarrow> k_unlinked k' = k_unlinked k @ [c_str name])"
proof (cases "name = [] \<or> bytes = 0")
  case True
  with assms show ?thesis by (auto simp: SharedMemory_create_def opens_one_def result_codes)
next
  case False
  obtain r k1 where o: "sys_open k = (r, k1)" by (rule prod.exhaust)
  have u: "k_unlinked k1 = k_unlinked k"
    using o by (auto simp: sys_open_def Let_def dest!: sys_call_frame split: prod.splits sum.splits)
  show ?thesis
  proof (rule sys_open_cases [OF o])
    fix e assume "r = Inl e" "k_open k1 = k_open k"
    with assms False o u show ?thesis by (auto simp: SharedMemory_create_def opens_one_def result_codes split: if_splits)
  next
    fix fd assume "r = Inr fd" "k_open k1 = fd # k_open k" "fd \<notin> set (k_open k)" "0 \<le> fd"
    with assms False o u show ?thesis
      by (auto simp: SharedMemory_create_def opens_one_def drop_new_def sys_close_def sys_unlink_def result_codes
          dest!: sys_call_frame split: prod.splits sum.splits)
  qed
qed

lemma SignalWaiter_open_opens:
  assumes "SignalWaiter_open signums w blocked k = (kOk, w', blocked', k')"
  shows "opens_one k kOk (sg_fd w') k' \<and> sg_has_oldmask w' \<and> sg_oldmask w' = blocked \<and> blocked' = blocked \<union> set signums"
proof -
  obtain rc k0 where c: "sys_call k = (rc, k0)" by (rule prod.exhaust)
  obtain r k1 where o: "sys_open k0 = (r, k1)" by (rule prod.exhaust)
  have same: "k_open k0 = k_open k" using sys_call_frame [OF c] by simp
  obtain n where n: "rc = Inr n" "\<not> list_ex (\<lambda>n. n \<le> 0) signums" "signums \<noteq> []"
    using assms c by (cases rc) (auto simp: SignalWaiter_open_def result_codes split: if_splits)
  show ?thesis
  proof (rule sys_open_cases [OF o])
    fix e assume "r = Inl e" "k_open k1 = k_open k0"
    with assms c o n show ?thesis by (simp add: SignalWaiter_open_def result_codes Let_def)
  next
    fix fd assume "r = Inr fd" "k_open k1 = fd # k_open k0" "fd \<notin> set (k_open k0)" "0 \<le> fd"
    with assms c o n same show ?thesis by (auto simp: SignalWaiter_open_def opens_one_def Let_def)
  qed
qed

text \<open>Waiting for signals blocks them, and closing the object closes its descriptor and blocks what was blocked before. But opening the
  object again without closing it takes the mask of the first opening for the original: the first descriptor stays
  open and its signals stay blocked after closing.
\<close>

theorem reopened_waiter_keeps_signals_blocked:
  assumes "SignalWaiter_open signums w blocked k = (kOk, w1, blocked1, k1)"
    and "SignalWaiter_open signums2 w1 blocked1 k1 = (kOk, w2, blocked2, k2)"
  shows "(\<exists>k'. SignalWaiter_close w1 blocked1 k1 = (kOk, new_SignalWaiter, blocked, k') \<and> k_open k' = k_open k) \<and>
    (\<exists>k'. SignalWaiter_close w2 blocked2 k2 = (kOk, new_SignalWaiter, blocked \<union> set signums, k') \<and> k_open k' = sg_fd w1 # k_open k)"
  using SignalWaiter_open_opens [OF assms(1)] SignalWaiter_open_opens [OF assms(2)]
  by (simp add: SignalWaiter_close_def opens_one_def close_if_def sys_close_def)

theorem reopened_waiter_keeps_signals_blocked_witness:
  "\<exists>w1 b1 k1 w2 b2 k2 w3 k3.
     SignalWaiter_open [15] new_SignalWaiter {} (demo_kernel (replicate 4 (Ret 0))) = (kOk, w1, b1, k1) \<and>
     SignalWaiter_open [2] w1 b1 k1 = (kOk, w2, b2, k2) \<and> SignalWaiter_close w2 b2 k2 = (kOk, w3, {15}, k3) \<and> k_open k3 = [3, 0, 1, 2]"
proof -
  obtain w1 b1 k1 w2 b2 k2 where o: "SignalWaiter_open [15] new_SignalWaiter {} (demo_kernel (replicate 4 (Ret 0))) = (kOk, w1, b1, k1)"
    "SignalWaiter_open [2] w1 b1 k1 = (kOk, w2, b2, k2)" "sg_fd w1 = 3"
    by (simp add: SignalWaiter_open_def sys_open_def sys_call_def demo_kernel_def numeral_eq_Suc Let_def new_SignalWaiter_def fresh_fd_def)
  from reopened_waiter_keeps_signals_blocked [OF o(1,2)] o show ?thesis by (auto simp: demo_kernel_def)
qed

end
