(* ===== verification/Net_Device.thy ===== *)
theory Net_Device
  imports Text_Parts Json_Text Osal_Io
begin

unbundle bit_operations_syntax

section \<open>Network interfaces (components/netdev)\<close>

text \<open>
  An interface is read and set by a socket and one call on it each, which may fail: \<open>nt_outcomes\<close> says which will succeed. The kernel
  keeps the interfaces, \<open>/etc/resolv.conf\<close>, the routes that are added, and a default network mask for each address, which setting the address
  sets as well. What \<open>/proc/net/route\<close> says is an argument. The text forms of addresses are those of the C library.
\<close>

subsection \<open>Addresses\<close>

text \<open>The four bytes of an address, in network order.\<close>

definition octet_text :: "string \<Rightarrow> bool" where
  "octet_text p \<longleftrightarrow> p \<noteq> [] \<and> list_all is_digit p \<and> read_nat p \<le> 255 \<and> (length p = 1 \<or> hd p \<noteq> CHR ''0'')"

definition inet_pton :: "string \<Rightarrow> u8 list option" where
  "inet_pton s =
     (let ps = split_at (CHR ''.'') (c_str s) in
      if length ps = 4 \<and> list_all octet_text ps then Some (map (\<lambda>p. of_nat (read_nat p)) ps) else None)"

definition inet_ntop :: "u8 list \<Rightarrow> string" where
  "inet_ntop bs = join_with ''.'' (map (\<lambda>b. to_string_nat (unat b)) bs)"

definition hex_byte :: "u8 \<Rightarrow> string" where
  "hex_byte b = [hex_digit (unat b div 16), hex_digit (unat b mod 16)]"

definition format_mac :: "u8 list \<Rightarrow> string" where
  "format_mac bs = join_with '':'' (map hex_byte bs)"

text \<open>
  What \<^verbatim>\<open>sscanf\<close> reads for a hexadecimal number: white space, a sign, the prefix, digits; the value is an unsigned long, at most the largest.
\<close>

definition is_hex :: "char \<Rightarrow> bool" where
  "is_hex c \<longleftrightarrow> hex_value c \<noteq> None"

definition read_hex :: "string \<Rightarrow> nat" where
  "read_hex s = foldl (\<lambda>n c. 16 * n + the (hex_value c)) 0 s"

definition scan_hex :: "string \<Rightarrow> (u64 \<times> string) option" where
  "scan_hex s =
     (let t = dropWhile is_space s;
          (negative, u) = (case t of [] \<Rightarrow> (False, t) | c # r \<Rightarrow> if c = CHR ''-'' then (True, r) else if c = CHR ''+'' then (False, r) else (False, t));
          v = (if starts_with u ''0x'' \<or> starts_with u ''0X'' then drop 2 u else u);
          digits = takeWhile is_hex v; n = read_hex digits in
      if digits = [] then None
      else Some (if 2 ^ 64 \<le> n then - 1 else if negative then - of_nat n else of_nat n, dropWhile is_hex v))"

text \<open>Six numbers with colons between them; of each the low byte counts. What follows the sixth does not matter.\<close>

fun scan_mac :: "nat \<Rightarrow> string \<Rightarrow> u8 list option" where
  "scan_mac 0 s = Some []"
| "scan_mac (Suc n) s =
     (case scan_hex s of None \<Rightarrow> None
      | Some (v, r) \<Rightarrow>
          if n = 0 then Some [ucast v]
          else (case r of c # r' \<Rightarrow> if c = CHR '':'' then map_option ((#) (ucast v)) (scan_mac n r') else None | [] \<Rightarrow> None))"

subsection \<open>The kernel's side\<close>

record net_if =
  if_mac :: "u8 list"
  if_ip :: "u8 list"
  if_mask :: "u8 list"
  if_carrier :: bool
  if_up :: bool

record net_state =
  nt_outcomes :: "bool list"
  nt_ifs :: "string \<Rightarrow> net_if option"
  nt_default_mask :: "u8 list \<Rightarrow> u8 list"
  nt_routes :: "(string \<times> u8 list) list"
  nt_resolv :: "string option"

definition net_call :: "net_state \<Rightarrow> bool \<times> net_state" where
  "net_call n = (case nt_outcomes n of [] \<Rightarrow> (False, n) | b # bs \<Rightarrow> (b, n\<lparr>nt_outcomes := bs\<rparr>))"

text \<open>The name the kernel sees: 15 characters at most.\<close>

definition copy_ifname :: "string \<Rightarrow> string" where
  "copy_ifname name = c_str (take 15 name)"

definition ioctl_get :: "(net_if \<Rightarrow> 'a) \<Rightarrow> string \<Rightarrow> net_state \<Rightarrow> 'a option \<times> net_state" where
  "ioctl_get f name n =
     (case net_call n of (ok, n) \<Rightarrow> (if ok then map_option f (nt_ifs n (copy_ifname name)) else None, n))"

definition ioctl_set :: "(net_if \<Rightarrow> net_if) \<Rightarrow> string \<Rightarrow> net_state \<Rightarrow> bool \<times> net_state" where
  "ioctl_set f name n =
     (case net_call n of (ok, n) \<Rightarrow>
        case nt_ifs n (copy_ifname name) of
          None \<Rightarrow> (False, n)
        | Some i \<Rightarrow> if ok then (True, n\<lparr>nt_ifs := (nt_ifs n)(copy_ifname name \<mapsto> f i)\<rparr>) else (False, n))"

definition with_socket :: "'a \<Rightarrow> (net_state \<Rightarrow> 'a \<times> net_state) \<Rightarrow> net_state \<Rightarrow> 'a \<times> net_state" where
  "with_socket failed f n = (case net_call n of (ok, n) \<Rightarrow> if ok then f n else (failed, n))"

subsection \<open>The class\<close>

definition mac :: "string \<Rightarrow> net_state \<Rightarrow> string option \<times> net_state" where
  "mac name = with_socket None (ioctl_get (\<lambda>i. format_mac (if_mac i)) name)"

definition set_mac :: "bool \<Rightarrow> string \<Rightarrow> string \<Rightarrow> net_state \<Rightarrow> bool \<times> net_state" where
  "set_mac root name m n =
     (if \<not> root then (False, n)
      else with_socket False (\<lambda>n. case scan_mac 6 (c_str m) of None \<Rightarrow> (False, n) | Some bs \<Rightarrow> ioctl_set (\<lambda>i. i\<lparr>if_mac := bs\<rparr>) name n) n)"

definition ip :: "string \<Rightarrow> net_state \<Rightarrow> string option \<times> net_state" where
  "ip name = with_socket None (ioctl_get (\<lambda>i. inet_ntop (if_ip i)) name)"

definition set_ip :: "string \<Rightarrow> string \<Rightarrow> net_state \<Rightarrow> bool \<times> net_state" where
  "set_ip name a =
     with_socket False (\<lambda>n. case inet_pton a of None \<Rightarrow> (False, n)
       | Some bs \<Rightarrow> ioctl_set (\<lambda>i. i\<lparr>if_ip := bs, if_mask := nt_default_mask n bs\<rparr>) name n)"

definition netmask :: "string \<Rightarrow> net_state \<Rightarrow> string option \<times> net_state" where
  "netmask name = with_socket None (ioctl_get (\<lambda>i. inet_ntop (if_mask i)) name)"

definition set_netmask :: "string \<Rightarrow> string \<Rightarrow> net_state \<Rightarrow> bool \<times> net_state" where
  "set_netmask name a =
     with_socket False (\<lambda>n. case inet_pton a of None \<Rightarrow> (False, n) | Some bs \<Rightarrow> ioctl_set (\<lambda>i. i\<lparr>if_mask := bs\<rparr>) name n)"

text \<open>Lines as \<^verbatim>\<open>fgets\<close> reads them into 256 bytes: a longer line comes in pieces.\<close>

function fgets_lines :: "string \<Rightarrow> string list" where
  "fgets_lines s =
     (if s = [] then []
      else let piece = take 255 (takeWhile (\<lambda>c. c \<noteq> CHR 0x0A) s @ take 1 (dropWhile (\<lambda>c. c \<noteq> CHR 0x0A) s)) in
        piece # fgets_lines (drop (length piece) s))"
  by auto
termination
  by (relation "measure length") (auto simp: neq_Nil_conv Let_def split: if_splits)

declare fgets_lines.simps [simp del]

text \<open>\<open>%15s %lx %lx %X\<close>.\<close>

definition scan_route :: "string \<Rightarrow> (string \<times> u64 \<times> u64 \<times> u64) option" where
  "scan_route line =
     (case get_token line of None \<Rightarrow> None
      | Some (w, r) \<Rightarrow>
          (case scan_hex (drop 15 w @ r) of None \<Rightarrow> None
           | Some (dest, r) \<Rightarrow>
               (case scan_hex r of None \<Rightarrow> None
                | Some (gw, r) \<Rightarrow> (case scan_hex r of None \<Rightarrow> None | Some (flags, r) \<Rightarrow> Some (take 15 w, dest, gw, flags)))))"

text \<open>The words of the file are those of a little-endian machine.\<close>

definition address_bytes :: "u64 \<Rightarrow> u8 list" where
  "address_bytes v = map (\<lambda>i. ucast (drop_bit (8 * i) v)) [0, 1, 2, 3]"

fun gateway_lines :: "string \<Rightarrow> string list \<Rightarrow> string option" where
  "gateway_lines name [] = None"
| "gateway_lines name (line # lines) =
     (case scan_route line of None \<Rightarrow> gateway_lines name lines
      | Some (iface, dest, gw, flags) \<Rightarrow>
          if name \<noteq> iface then gateway_lines name lines
          else if flags AND 3 \<noteq> 3 \<or> dest \<noteq> 0 then gateway_lines name lines
          else Some (inet_ntop (address_bytes gw)))"

definition gateway :: "string option \<Rightarrow> string \<Rightarrow> string option" where
  "gateway route_file name = (case route_file of None \<Rightarrow> None | Some text \<Rightarrow> (case fgets_lines text of [] \<Rightarrow> None | _ # lines \<Rightarrow> gateway_lines name lines))"

definition set_gateway :: "string \<Rightarrow> string \<Rightarrow> net_state \<Rightarrow> bool \<times> net_state" where
  "set_gateway name a =
     with_socket False (\<lambda>n. case inet_pton a of None \<Rightarrow> (False, n)
       | Some bs \<Rightarrow> (case net_call n of (ok, n) \<Rightarrow> if ok then (True, n\<lparr>nt_routes := nt_routes n @ [(c_str name, bs)]\<rparr>) else (False, n)))"

fun dns_lines :: "string list \<Rightarrow> string option" where
  "dns_lines [] = None"
| "dns_lines (line # lines) =
     (case get_token line of None \<Rightarrow> dns_lines lines
      | Some (key, r) \<Rightarrow> (case get_token r of None \<Rightarrow> dns_lines lines | Some (v, _) \<Rightarrow> if key = ''nameserver'' then Some v else dns_lines lines))"

definition dns :: "net_state \<Rightarrow> string option" where
  "dns n = (case nt_resolv n of None \<Rightarrow> None | Some text \<Rightarrow> dns_lines (getlines text))"

definition set_dns :: "string \<Rightarrow> net_state \<Rightarrow> bool \<times> net_state" where
  "set_dns a n =
     (case net_call n of (ok, n) \<Rightarrow> if ok then (True, n\<lparr>nt_resolv := Some (''nameserver '' @ c_str a @ [CHR 0x0A])\<rparr>) else (False, n))"

record Attributes =
  at_ip :: string
  at_netmask :: string
  at_gateway :: string
  at_dns :: string

definition kNoneIp :: string where "kNoneIp = ''0.0.0.0''"

definition value_or :: "'a option \<Rightarrow> 'a \<Rightarrow> 'a" where
  "value_or v d = (case v of Some x \<Rightarrow> x | None \<Rightarrow> d)"

definition attributes :: "string option \<Rightarrow> string \<Rightarrow> net_state \<Rightarrow> Attributes \<times> net_state" where
  "attributes route_file name n =
     (let (i, n) = ip name n; (m, n) = netmask name n in
      (\<lparr>at_ip = value_or i kNoneIp, at_netmask = value_or m kNoneIp, at_gateway = value_or (gateway route_file name) kNoneIp,
        at_dns = value_or (dns n) kNoneIp\<rparr>, n))"

text \<open>Every setting is tried.\<close>

definition set_attributes :: "string \<Rightarrow> Attributes \<Rightarrow> net_state \<Rightarrow> bool \<times> net_state" where
  "set_attributes name a n =
     (let (ok1, n) = set_ip name (at_ip a) n; (ok2, n) = set_netmask name (at_netmask a) n;
          (ok3, n) = set_gateway name (at_gateway a) n; (ok4, n) = set_dns (at_dns a) n in
      (ok4 \<and> ok3 \<and> ok2 \<and> ok1, n))"

datatype LinkStatus = Up | Down

definition link_status :: "string \<Rightarrow> net_state \<Rightarrow> LinkStatus option \<times> net_state" where
  "link_status name = with_socket None (ioctl_get (\<lambda>i. if if_carrier i then Up else Down) name)"

definition set_link_status :: "string \<Rightarrow> LinkStatus \<Rightarrow> net_state \<Rightarrow> bool \<times> net_state" where
  "set_link_status name status =
     with_socket False (\<lambda>n. case ioctl_get if_up name n of (flags, n) \<Rightarrow>
       (case flags of None \<Rightarrow> (False, n) | Some _ \<Rightarrow> ioctl_set (\<lambda>i. i\<lparr>if_up := (status = Up)\<rparr>) name n))"

subsection \<open>Addresses in text\<close>

lemma octet_printed: "octet_text p \<Longrightarrow> to_string_nat (unat (of_nat (read_nat p) :: u8)) = p"
  using to_string_read_nat [of p] by (simp add: octet_text_def unat_of_nat)

lemma inet_text: "inet_pton s = Some bs \<Longrightarrow> inet_ntop bs = c_str s"
proof -
  assume a: "inet_pton s = Some bs"
  let ?ps = "split_at (CHR ''.'') (c_str s)"
  have bs: "bs = map (\<lambda>p. of_nat (read_nat p)) ?ps" "list_all octet_text ?ps" using a by (auto simp: inet_pton_def Let_def split: if_splits)
  have "map (\<lambda>b. to_string_nat (unat b)) bs = ?ps"
    unfolding bs(1) map_map using bs(2) by (intro map_idI) (simp add: octet_printed list_all_iff)
  then show ?thesis by (simp add: inet_ntop_def join_split)
qed

lemma is_hex_hex_digit: "d < 16 \<Longrightarrow> is_hex (hex_digit d)"
  by (simp add: is_hex_def hex_value_hex_digit)

lemma is_hex_code: "is_hex c \<longleftrightarrow> 48 \<le> (of_char c :: nat) \<and> (of_char c :: nat) \<le> 57 \<or> 97 \<le> (of_char c :: nat) \<and> (of_char c :: nat) \<le> 102 \<or> 65 \<le> (of_char c :: nat) \<and> (of_char c :: nat) \<le> 70"
  by (auto simp: is_hex_def hex_value_def Let_def)

lemma hex_char: "is_hex c \<Longrightarrow> \<not> is_space c \<and> c \<noteq> CHR ''-'' \<and> c \<noteq> CHR ''+'' \<and> c \<noteq> CHR ''x'' \<and> c \<noteq> CHR ''X''"
  by (auto simp: is_hex_code is_space_def)

text \<open>A hexadecimal number is read up to what follows it.\<close>

lemma scan_hex_digits:
  assumes gap: "list_all is_space gap" and ds: "list_all is_hex ds" "ds \<noteq> []" "read_hex ds < 2 ^ 64" and r: "r = [] \<or> \<not> is_hex (hd r)"
    and short: "length ds = 1 \<longrightarrow> r = [] \<or> hd r \<noteq> CHR ''x'' \<and> hd r \<noteq> CHR ''X''"
  shows "scan_hex (gap @ ds @ r) = Some (of_nat (read_hex ds), r)"
proof -
  obtain c cs where c: "ds = c # cs" using ds(2) by (cases ds) auto
  then have hc: "\<not> is_space c" "c \<noteq> CHR ''-''" "c \<noteq> CHR ''+''" using ds(1) hex_char [of c] by simp_all
  have drop: "dropWhile is_space (gap @ (ds @ r)) = ds @ r" using gap hc(1) by (intro dropWhile_all) (simp_all add: c)
  have "\<not> starts_with (ds @ r) ''0x'' \<and> \<not> starts_with (ds @ r) ''0X''"
  proof (cases cs)
    case Nil
    then show ?thesis using short by (cases r) (auto simp: c starts_with_def)
  next
    case (Cons d ds')
    then have "d \<noteq> CHR ''x'' \<and> d \<noteq> CHR ''X''" using ds(1) hex_char [of d] by (simp add: c)
    then show ?thesis by (simp add: c Cons starts_with_def)
  qed
  then show ?thesis
    using hc drop ds r takeWhile_all [OF ds(1) r] dropWhile_all [OF ds(1) r] by (simp add: scan_hex_def Let_def c)
qed

lemma hex_byte_digits: "list_all is_hex (hex_byte b)" "read_hex (hex_byte b) = unat b" "hex_byte b \<noteq> []" "length (hex_byte b) = 2"
proof -
  have "unat b < 2 ^ LENGTH(8)" by (rule unsigned_less)
  then have "unat b < 256" by simp
  then have "unat b div 16 < 16" by simp
  then show "list_all is_hex (hex_byte b)" "read_hex (hex_byte b) = unat b" "hex_byte b \<noteq> []" "length (hex_byte b) = 2"
    by (simp_all add: hex_byte_def is_hex_hex_digit read_hex_def hex_value_hex_digit)
qed

lemma scan_hex_byte: "r = [] \<or> \<not> is_hex (hd r) \<Longrightarrow> scan_hex (hex_byte b @ r) = Some (ucast b, r)"
proof -
  assume r: "r = [] \<or> \<not> is_hex (hd r)"
  have "unat b < 2 ^ LENGTH(8)" by (rule unsigned_less)
  then have "unat b < 256" by simp
  with scan_hex_digits [of "[]" "hex_byte b" r] r show ?thesis by (simp add: hex_byte_digits)
qed

lemma byte_of_number: "ucast (ucast (b :: u8) :: u64) = b"
  by transfer (simp add: take_bit_take_bit)

lemma scan_format_mac: "bs \<noteq> [] \<Longrightarrow> length bs = n \<Longrightarrow> scan_mac n (format_mac bs) = Some bs"
proof (induction n arbitrary: bs)
  case (Suc n)
  obtain b bs' where b: "bs = b # bs'" using Suc.prems(2) by (cases bs) auto
  show ?case
  proof (cases bs')
    case Nil
    with Suc.prems b scan_hex_byte [of "[]" b] show ?thesis by (simp add: format_mac_def byte_of_number)
  next
    case (Cons d ds)
    have "\<not> is_hex (CHR '':'')" by (simp add: is_hex_code)
    then have "scan_hex (format_mac bs) = Some (ucast b, CHR '':'' # format_mac bs')"
      using scan_hex_byte [of "CHR '':'' # format_mac bs'" b] by (simp add: format_mac_def b Cons)
    with Suc Cons b show ?thesis by (simp add: byte_of_number)
  qed
qed simp

lemma join_chars: "set (join_with sep ps) \<subseteq> set sep \<union> \<Union> (set ` set ps)"
  by (induction sep ps rule: join_with.induct) auto

lemma format_mac_c_str: "c_str (format_mac bs) = format_mac bs"
proof -
  have "CHR 0x00 \<notin> set (hex_byte b)" for b using hex_byte_digits(1) [of b] by (auto simp: list_all_iff is_hex_code)
  then have "CHR 0x00 \<notin> set (format_mac bs)" using join_chars [of "'':''" "map hex_byte bs"] by (auto simp: format_mac_def)
  then show ?thesis by (auto simp: c_str_def takeWhile_eq_all_conv)
qed

subsection \<open>Settings are read back\<close>

text \<open>What a call leaves of an interface, as the next reader sees it.\<close>

lemma with_socket_True: "with_socket v f n = (r, n') \<Longrightarrow> r \<noteq> v \<Longrightarrow> \<exists>n0. net_call n = (True, n0) \<and> f n0 = (r, n')"
  by (auto simp: with_socket_def split: prod.splits if_splits)

lemma net_call_frame: "net_call n = (b, n') \<Longrightarrow> nt_ifs n' = nt_ifs n \<and> nt_resolv n' = nt_resolv n"
  by (auto simp: net_call_def split: list.splits)

lemma ioctl_set_True:
  "ioctl_set f name n = (True, n') \<Longrightarrow> \<exists>i. nt_ifs n (copy_ifname name) = Some i \<and> nt_ifs n' (copy_ifname name) = Some (f i) \<and> nt_resolv n' = nt_resolv n"
  by (auto simp: ioctl_set_def dest!: net_call_frame split: prod.splits option.splits if_splits)

lemma ioctl_get_Some:
  assumes "nt_outcomes n = True # True # bs" "nt_ifs n (copy_ifname name) = Some i"
  shows "with_socket None (ioctl_get f name) n = (Some (f i), n\<lparr>nt_outcomes := bs\<rparr>)"
  using assms by (simp add: with_socket_def ioctl_get_def net_call_def)

lemma set_ip_True:
  assumes "set_ip name a n = (True, n')"
  shows "\<exists>i. nt_ifs n' (copy_ifname name) = Some i \<and> inet_ntop (if_ip i) = c_str a"
proof -
  obtain n0 where s: "(case inet_pton a of None \<Rightarrow> (False, n0)
       | Some bs \<Rightarrow> ioctl_set (\<lambda>i. i\<lparr>if_ip := bs, if_mask := nt_default_mask n0 bs\<rparr>) name n0) = (True, n')"
    using with_socket_True [OF assms [unfolded set_ip_def]] by auto
  then obtain bs where b: "inet_pton a = Some bs" by (cases "inet_pton a") auto
  with s ioctl_set_True [of "\<lambda>i. i\<lparr>if_ip := bs, if_mask := nt_default_mask n0 bs\<rparr>" name n0 n'] inet_text [OF b] show ?thesis by auto
qed

lemma set_netmask_True:
  assumes "set_netmask name a n = (True, n')" "nt_ifs n (copy_ifname name) = Some i"
  shows "\<exists>j. nt_ifs n' (copy_ifname name) = Some j \<and> if_ip j = if_ip i \<and> inet_ntop (if_mask j) = c_str a"
proof -
  obtain n0 where n0: "net_call n = (True, n0)" and s: "(case inet_pton a of None \<Rightarrow> (False, n0) | Some bs \<Rightarrow> ioctl_set (\<lambda>i. i\<lparr>if_mask := bs\<rparr>) name n0) = (True, n')"
    using with_socket_True [OF assms(1) [unfolded set_netmask_def]] by auto
  then obtain bs where b: "inet_pton a = Some bs" by (cases "inet_pton a") auto
  have "nt_ifs n0 (copy_ifname name) = Some i" using net_call_frame [OF n0] assms(2) by simp
  with s b ioctl_set_True [of "\<lambda>i. i\<lparr>if_mask := bs\<rparr>" name n0 n'] inet_text [OF b] show ?thesis by auto
qed

lemma set_gateway_frame: "set_gateway name a n = (ok, n') \<Longrightarrow> nt_ifs n' = nt_ifs n"
  by (auto simp: set_gateway_def with_socket_def dest!: net_call_frame split: prod.splits option.splits if_splits)

lemma getlines_line: "CHR 0x0A \<notin> set l \<Longrightarrow> getlines (l @ CHR 0x0A # s) = l # getlines s"
proof -
  assume "CHR 0x0A \<notin> set l"
  then have l: "list_all (\<lambda>c. c \<noteq> CHR 0x0A) l" by (auto simp: list_all_iff)
  show ?thesis
    using takeWhile_all [OF l, of "CHR 0x0A # s"] dropWhile_all [OF l, of "CHR 0x0A # s"] by (subst getlines.simps) simp
qed

lemma dns_written:
  assumes "set_dns a n = (True, n')" "word_text (c_str a)"
  shows "nt_ifs n' = nt_ifs n \<and> dns n' = Some (c_str a)"
proof -
  obtain b n0 where c: "net_call n = (b, n0)" by (rule prod.exhaust)
  with assms(1) have "n' = n0\<lparr>nt_resolv := Some (''nameserver '' @ c_str a @ [CHR 0x0A])\<rparr>" by (simp add: set_dns_def split: if_splits)
  with net_call_frame [OF c] have n': "nt_ifs n' = nt_ifs n" "nt_resolv n' = Some (''nameserver '' @ c_str a @ [CHR 0x0A])" by simp_all
  have "is_space (CHR 0x0A)" by (simp add: is_space_def)
  then have "CHR 0x0A \<notin> set (c_str a)" using assms(2) unfolding word_text_def list_all_iff by blast
  then have "CHR 0x0A \<notin> set (''nameserver '' @ c_str a)" by simp
  then have line: "getlines (''nameserver '' @ c_str a @ [CHR 0x0A]) = [''nameserver '' @ c_str a]"
    using getlines_line [of "''nameserver '' @ c_str a" "[]"] by (simp add: getlines.simps [of "[]"] del: append.simps)
  have key: "get_token ([] @ ''nameserver'' @ CHR '' '' # c_str a) = Some (''nameserver'', CHR '' '' # c_str a)"
    by (rule get_token_word) (simp_all add: word_text_def is_space_def)
  have val: "get_token ('' '' @ c_str a @ []) = Some (c_str a, [])"
    by (rule get_token_word) (simp_all add: assms(2) is_space_def)
  show ?thesis using n' line key val by (simp add: dns_def)
qed

text \<open>Settings that have been accepted are read back as they were written: address, network mask and name server of
  \<open>set_attributes\<close>, though setting the address resets the mask in the kernel, and a hardware address in its usual form. This holds for
  all calls that succeed, whatever the interface was set to before.
\<close>

theorem settings_are_read_back:
  assumes "set_attributes name a n = (True, n1)" "nt_outcomes n1 = True # True # True # True # rest" "word_text (c_str (at_dns a))"
    and "set_mac True name (format_mac bs) n1 = (True, n2)" "length bs = 6" "nt_outcomes n2 = True # True # rest2"
  shows "fst (attributes routes name n1) =
      \<lparr>at_ip = c_str (at_ip a), at_netmask = c_str (at_netmask a), at_gateway = value_or (gateway routes name) kNoneIp, at_dns = c_str (at_dns a)\<rparr> \<and>
    fst (mac name n2) = Some (format_mac bs)"
proof
  obtain n3 n4 n5 where steps: "set_ip name (at_ip a) n = (True, n3)" "set_netmask name (at_netmask a) n3 = (True, n4)"
      "set_gateway name (at_gateway a) n4 = (True, n5)" "set_dns (at_dns a) n5 = (True, n1)"
    using assms(1) by (auto simp: set_attributes_def split: prod.splits)
  obtain i where "nt_ifs n3 (copy_ifname name) = Some i" "inet_ntop (if_ip i) = c_str (at_ip a)" using set_ip_True [OF steps(1)] by blast
  moreover from set_netmask_True [OF steps(2) this(1)] obtain j where
    "nt_ifs n4 (copy_ifname name) = Some j" "if_ip j = if_ip i" "inet_ntop (if_mask j) = c_str (at_netmask a)" by blast
  moreover have "nt_ifs n1 = nt_ifs n4" "dns n1 = Some (c_str (at_dns a))"
    using set_gateway_frame [OF steps(3)] dns_written [OF steps(4) assms(3)] by simp_all
  ultimately have j: "nt_ifs n1 (copy_ifname name) = Some j" "inet_ntop (if_ip j) = c_str (at_ip a)" "inet_ntop (if_mask j) = c_str (at_netmask a)"
    "dns n1 = Some (c_str (at_dns a))" by simp_all
  have "ip name n1 = (Some (inet_ntop (if_ip j)), n1\<lparr>nt_outcomes := True # True # rest\<rparr>)"
    unfolding ip_def by (rule ioctl_get_Some [OF assms(2) j(1)])
  moreover have "netmask name (n1\<lparr>nt_outcomes := True # True # rest\<rparr>) = (Some (inet_ntop (if_mask j)), n1\<lparr>nt_outcomes := rest\<rparr>)"
    unfolding netmask_def using ioctl_get_Some [of "n1\<lparr>nt_outcomes := True # True # rest\<rparr>" rest name j] j(1) by simp
  ultimately show "fst (attributes routes name n1) =
      \<lparr>at_ip = c_str (at_ip a), at_netmask = c_str (at_netmask a), at_gateway = value_or (gateway routes name) kNoneIp, at_dns = c_str (at_dns a)\<rparr>"
    using j by (simp add: attributes_def value_or_def dns_def)
next
  have "scan_mac 6 (c_str (format_mac bs)) = Some bs" using assms(5) by (subst format_mac_c_str, intro scan_format_mac) auto
  then obtain n0 where "ioctl_set (\<lambda>i. i\<lparr>if_mac := bs\<rparr>) name n0 = (True, n2)"
    using with_socket_True [of False _ n1 True n2] assms(4) by (fastforce simp: set_mac_def)
  from ioctl_set_True [OF this] obtain i where "nt_ifs n2 (copy_ifname name) = Some i" "if_mac i = bs" by auto
  then show "fst (mac name n2) = Some (format_mac bs)"
    unfolding mac_def using ioctl_get_Some [OF assms(6), of name i "\<lambda>i. format_mac (if_mac i)"] by simp
qed

theorem settings_are_read_back_witness:
  "\<exists>n n1 n2. set_attributes ''eth0'' \<lparr>at_ip = ''192.168.1.7'', at_netmask = ''255.255.255.128'', at_gateway = ''192.168.1.1'', at_dns = ''9.9.9.9''\<rparr> n = (True, n1) \<and>
     set_mac True ''eth0'' (format_mac [2, 0, 0, 0xAB, 0xCD, 1]) n1 = (True, n2) \<and>
     fst (attributes None ''eth0'' n1) =
       \<lparr>at_ip = ''192.168.1.7'', at_netmask = ''255.255.255.128'', at_gateway = ''0.0.0.0'', at_dns = ''9.9.9.9''\<rparr>"
proof -
  let ?a = "\<lparr>at_ip = ''192.168.1.7'', at_netmask = ''255.255.255.128'', at_gateway = ''192.168.1.1'', at_dns = ''9.9.9.9''\<rparr>"
  let ?i = "\<lparr>if_mac = [0, 0, 0, 0, 0, 0], if_ip = [10, 0, 0, 1], if_mask = [255, 0, 0, 0], if_carrier = True, if_up = True\<rparr>"
  let ?n = "\<lparr>nt_outcomes = replicate 15 True, nt_ifs = [''eth0'' \<mapsto> ?i], nt_default_mask = (\<lambda>_. [255, 255, 255, 0]), nt_routes = [], nt_resolv = None\<rparr>"
  have texts: "inet_pton ''192.168.1.7'' = Some [192, 168, 1, 7]" "inet_pton ''255.255.255.128'' = Some [255, 255, 255, 128]"
    "inet_pton ''192.168.1.1'' = Some [192, 168, 1, 1]"
    by (simp_all add: inet_pton_def c_str_def octet_text_def is_digit_code read_nat_def char_digit_def Let_def)
  have scan: "scan_mac 6 (c_str (format_mac [2, 0, 0, 0xAB, 0xCD, 1])) = Some [2, 0, 0, 0xAB, 0xCD, 1]"
    by (subst format_mac_c_str, intro scan_format_mac) auto
  have name: "copy_ifname ''eth0'' = ''eth0''" by (simp add: copy_ifname_def c_str_def)
  obtain n1 where s: "set_attributes ''eth0'' ?a ?n = (True, n1)" "nt_outcomes n1 = replicate 8 True" "\<exists>i. nt_ifs n1 ''eth0'' = Some i"
    by (simp add: set_attributes_def set_ip_def set_netmask_def set_gateway_def set_dns_def with_socket_def net_call_def ioctl_set_def texts name
      numeral_eq_Suc)
  have two: "nt_outcomes n1 = True # True # replicate 6 True" unfolding s(2) by (simp add: numeral_eq_Suc)
  obtain n2 where m: "set_mac True ''eth0'' (format_mac [2, 0, 0, 0xAB, 0xCD, 1]) n1 = (True, n2)" "nt_outcomes n2 = replicate 6 True"
    using two s(3) by (auto simp: set_mac_def scan with_socket_def net_call_def ioctl_set_def name)
  have four: "nt_outcomes n1 = True # True # True # True # replicate 4 True" "nt_outcomes n2 = True # True # replicate 4 True"
    unfolding s(2) m(2) by (simp_all add: numeral_eq_Suc)
  have word: "word_text (c_str (at_dns ?a))" by (simp add: word_text_def c_str_def is_space_def)
  have strings: "c_str ''192.168.1.7'' = ''192.168.1.7''" "c_str ''255.255.255.128'' = ''255.255.255.128''" "c_str ''9.9.9.9'' = ''9.9.9.9''"
    by (simp_all add: c_str_def)
  from settings_are_read_back [OF s(1) four(1) word m(1) _ four(2), of None] s m show ?thesis
    by (intro exI [of _ ?n] exI [of _ n1] exI [of _ n2]) (simp add: gateway_def value_or_def kNoneIp_def strings)
qed

subsection \<open>The gateway\<close>

text \<open>A line of \<open>/proc/net/route\<close>: name, destination, gateway and flags in hexadecimal, and more after them.\<close>

record route =
  ro_iface :: string
  ro_dest :: u32
  ro_gw :: u32
  ro_flags :: u16
  ro_more :: string

definition hex_upper :: "nat \<Rightarrow> char" where
  "hex_upper d = (if d < 10 then char_of (48 + d) else char_of (55 + d))"

fun hex_text :: "nat \<Rightarrow> nat \<Rightarrow> string" where
  "hex_text 0 n = []"
| "hex_text (Suc k) n = hex_text k (n div 16) @ [hex_upper (n mod 16)]"

abbreviation tab :: char where "tab \<equiv> CHR 0x09"

definition route_line :: "route \<Rightarrow> string" where
  "route_line r =
     ro_iface r @ tab # hex_text 8 (unat (ro_dest r)) @ tab # hex_text 8 (unat (ro_gw r)) @ tab # hex_text 4 (unat (ro_flags r)) @ tab # ro_more r @ [CHR 0x0A]"

definition route_ok :: "route \<Rightarrow> bool" where
  "route_ok r \<longleftrightarrow> word_text (ro_iface r) \<and> length (ro_iface r) \<le> 15 \<and> CHR 0x0A \<notin> set (ro_more r) \<and> length (ro_more r) \<le> 200"

definition default_route :: "string \<Rightarrow> route \<Rightarrow> bool" where
  "default_route name r \<longleftrightarrow> ro_iface r = name \<and> ro_dest r = 0 \<and> bit (ro_flags r) 0 \<and> bit (ro_flags r) 1"

lemma hex_value_upper: "d < 16 \<Longrightarrow> hex_value (hex_upper d) = Some d"
  by (auto simp: hex_value_def hex_upper_def Let_def of_char_of take_bit_eq_mod)

lemma hex_text_digits: "list_all is_hex (hex_text k n)" "length (hex_text k n) = k"
  by (induction k arbitrary: n) (simp_all add: is_hex_def hex_value_upper)

lemma read_hex_text: "n < 16 ^ k \<Longrightarrow> read_hex (hex_text k n) = n"
proof (induction k arbitrary: n)
  case (Suc k)
  then have "n div 16 < 16 ^ k" by (simp add: less_mult_imp_div_less)
  with Suc.IH show ?case by (simp add: read_hex_def hex_value_upper)
qed (simp add: read_hex_def)

lemma tab_space: "is_space tab" "\<not> is_hex tab"
  by (simp_all add: is_space_def is_hex_code)

lemma scan_hex_text:
  assumes "1 < k" "n < 16 ^ k" "n < 2 ^ 64"
  shows "scan_hex (tab # hex_text k n @ tab # r) = Some (of_nat n, tab # r)"
proof -
  have "hex_text k n \<noteq> []" using hex_text_digits(2) [of k n] assms(1) by auto
  with scan_hex_digits [of "[tab]" "hex_text k n" "tab # r"] assms show ?thesis
    by (simp add: hex_text_digits read_hex_text tab_space)
qed

lemma scan_printed_route:
  assumes "route_ok r"
  shows "scan_route (route_line r) = Some (ro_iface r, of_nat (unat (ro_dest r)), of_nat (unat (ro_gw r)), of_nat (unat (ro_flags r)))"
proof -
  have w: "word_text (ro_iface r)" "length (ro_iface r) \<le> 15" using assms by (simp_all add: route_ok_def)
  have "unat (ro_dest r) < 2 ^ LENGTH(32)" "unat (ro_gw r) < 2 ^ LENGTH(32)" "unat (ro_flags r) < 2 ^ LENGTH(16)" by (rule unsigned_less)+
  then have n: "unat (ro_dest r) < 16 ^ 8" "unat (ro_gw r) < 16 ^ 8" "unat (ro_flags r) < 16 ^ 4"
    "unat (ro_dest r) < 2 ^ 64" "unat (ro_gw r) < 2 ^ 64" "unat (ro_flags r) < 2 ^ 64" by simp_all
  have "get_token ([] @ ro_iface r @ tab # t) = Some (ro_iface r, tab # t)" for t
    by (rule get_token_word) (simp_all add: w tab_space)
  then show ?thesis
    using w n by (simp add: scan_route_def route_line_def scan_hex_text del: hex_text.simps)
qed

lemma fgets_line:
  assumes "CHR 0x0A \<notin> set l" "length l < 255"
  shows "fgets_lines (l @ CHR 0x0A # s) = (l @ [CHR 0x0A]) # fgets_lines s"
proof -
  have l: "list_all (\<lambda>c. c \<noteq> CHR 0x0A) l" using assms(1) by (auto simp: list_all_iff)
  show ?thesis
    using takeWhile_all [OF l, of "CHR 0x0A # s"] dropWhile_all [OF l, of "CHR 0x0A # s"] assms(2)
    by (subst fgets_lines.simps) (simp add: Let_def)
qed

lemma fgets_routes: "list_all route_ok rs \<Longrightarrow> fgets_lines (concat (map route_line rs)) = map route_line rs"
proof (induction rs)
  case (Cons r rs)
  let ?l = "ro_iface r @ tab # hex_text 8 (unat (ro_dest r)) @ tab # hex_text 8 (unat (ro_gw r)) @ tab # hex_text 4 (unat (ro_flags r)) @ tab # ro_more r"
  have ok: "route_ok r" using Cons.prems by simp
  have "is_space (CHR 0x0A)" "\<not> is_hex (CHR 0x0A)" by (simp_all add: is_space_def is_hex_code)
  then have "CHR 0x0A \<notin> set (ro_iface r)" "CHR 0x0A \<notin> set (hex_text k n)" for k n
    using ok hex_text_digits(1) [of k n] unfolding route_ok_def word_text_def list_all_iff by blast+
  then have "CHR 0x0A \<notin> set ?l" using ok by (simp add: route_ok_def del: hex_text.simps)
  moreover have "length ?l < 255" using ok by (simp add: route_ok_def hex_text_digits del: hex_text.simps)
  ultimately have "fgets_lines (?l @ CHR 0x0A # concat (map route_line rs)) = (?l @ [CHR 0x0A]) # fgets_lines (concat (map route_line rs))"
    by (rule fgets_line)
  moreover have "concat (map route_line (r # rs)) = ?l @ CHR 0x0A # concat (map route_line rs)" by (simp add: route_line_def del: hex_text.simps)
  moreover have "map route_line (r # rs) = (?l @ [CHR 0x0A]) # map route_line rs" by (simp add: route_line_def del: hex_text.simps)
  moreover have "list_all route_ok rs" using Cons.prems by simp
  ultimately show ?case using Cons.IH by metis
qed (simp add: fgets_lines.simps)

lemma both_bits: "(ucast (f :: u16) :: u64) AND 3 = 3 \<longleftrightarrow> bit f 0 \<and> bit f (Suc 0)"
proof -
  have three: "(3 :: u64) = mask 2" by (simp add: mask_eq_exp_minus_1)
  have "(ucast f :: u64) AND mask 2 = mask 2 \<longleftrightarrow> (\<forall>n<64. n < 2 \<longrightarrow> bit f n)"
    by (auto simp: bit_eq_iff [of "ucast f AND mask 2 :: u64" "mask 2"] bit_simps bit_mask_iff)
  also have "\<dots> \<longleftrightarrow> bit f 0 \<and> bit f (Suc 0)"
  proof
    assume bits: "\<forall>n<64. n < 2 \<longrightarrow> bit f n"
    show "bit f 0 \<and> bit f (Suc 0)" using bits [rule_format, of 0] bits [rule_format, of "Suc 0"] by simp
  qed (auto simp: less_2_cases_iff)
  finally show ?thesis unfolding three .
qed

lemma wide_zero: "(ucast (d :: u32) :: u64) = 0 \<longleftrightarrow> d = 0"
  by transfer (simp add: take_bit_take_bit)

text \<open>From a route file of any length, the gateway is that of the first line for this interface that is a default route through a
  gateway that is up, in dotted form; there is none exactly if there is no such line.
\<close>

theorem gateway_is_first_default_route:
  assumes "CHR 0x0A \<notin> set header" "length header < 255" "list_all route_ok rs"
  shows "gateway (Some (header @ CHR 0x0A # concat (map route_line rs))) name =
    map_option (\<lambda>r. inet_ntop (address_bytes (ucast (ro_gw r)))) (find (default_route name) rs)"
proof -
  have "gateway_lines name (map route_line rs) = map_option (\<lambda>r. inet_ntop (address_bytes (ucast (ro_gw r)))) (find (default_route name) rs)"
    using assms(3)
  proof (induction rs)
    case (Cons r rs)
    then show ?case
      by (auto simp: scan_printed_route both_bits wide_zero default_route_def)
  qed simp
  with assms show ?thesis by (simp add: gateway_def fgets_line fgets_routes)
qed

end
