(* ===== verification/Float_Exact.thy ===== *)
theory Float_Exact
  imports Float_Bounds
begin

section \<open>Doubles that are exact\<close>

text \<open>
  Rounding a number that is a double changes nothing, and the result of rounding is a double. The value of a decimal literal
  follows from the power of two below it.
\<close>

lemma pow2_nonzero [simp]: "pow2 e \<noteq> 0"
  by (simp add: pow2_powi)

lemma abs_pow2 [simp]: "\<bar>pow2 e\<bar> = pow2 e"
  by (simp add: less_imp_le)

lemma pow2_shift53: "of_int (2 ^ 53) * pow2 e = pow2 (e + 53)"
  by (simp add: pow2_powi power_int_add)

lemma exponent_gt:
  assumes "0 < x"
  shows "x < pow2 (exponent x + 1)"
proof -
  obtain p q where pq: "quotient_of x = (p, q)" by fastforce
  have q: "0 < q" using quotient_of_denom_pos [OF pq] .
  have x: "x = of_int p / of_int q" using quotient_of_div [OF pq] .
  then have p: "0 < p" using assms q by (simp add: zero_less_divide_iff)
  have up: "p < 2 ^ nat (bitlen p)" "q < 2 ^ nat (bitlen q)" "(2 :: int) ^ nat (bitlen q - 1) \<le> q" using bitlen_bounds p q by blast+
  have pos: "0 < bitlen p" "0 < bitlen q" using up p q by (cases "0 < bitlen p"; cases "0 < bitlen q"; auto)+
  have "(of_int p :: rat) < of_int (2 ^ nat (bitlen p))" "(of_int (2 ^ nat (bitlen q - 1)) :: rat) \<le> of_int q"
    using up by (simp_all only: of_int_less_iff of_int_le_iff)
  then have b: "(of_int p :: rat) < power_int 2 (bitlen p)" "power_int 2 (bitlen q - 1) \<le> (of_int q :: rat)"
    using pos by (simp_all add: power_int_def)
  have "x < power_int 2 (bitlen p) / power_int 2 (bitlen q - 1)"
    unfolding x using b p q by (intro frac_less) simp_all
  also have "\<dots> = pow2 (bitlen p - bitlen q + 1)"
    by (simp add: pow2_powi power_int_diff power_int_add)
  finally have "x < pow2 (bitlen p - bitlen q + 1)" .
  then show ?thesis by (auto simp: exponent_def pq Let_def)
qed

lemma exponent_eq: "pow2 k \<le> x \<Longrightarrow> x < pow2 (k + 1) \<Longrightarrow> exponent x = k"
proof -
  assume x: "pow2 k \<le> x" "x < pow2 (k + 1)"
  have pos: "0 < x" using x(1) pow2_pos [of k] by linarith
  have "pow2 (exponent x) < pow2 (k + 1)" using exponent_le [OF pos] x(2) by linarith
  moreover have "pow2 k < pow2 (exponent x + 1)" using exponent_gt [OF pos] x(1) by linarith
  ultimately have "\<not> k + 1 \<le> exponent x" "\<not> exponent x + 1 \<le> k" using pow2_mono by (meson not_le)+
  then show ?thesis by simp
qed

lemma round_even_int [simp]: "round_even (of_int n) = n"
  by (intro antisym round_even_le round_even_ge) simp_all

lemma round_even_nearest: "\<bar>r - of_int n\<bar> < 1 / 2 \<Longrightarrow> round_even r = n"
proof -
  assume near: "\<bar>r - of_int n\<bar> < 1 / 2"
  show ?thesis
  proof (cases "of_int n \<le> r")
    case True
    then have "\<lfloor>r\<rfloor> = n" using near by (intro floor_unique) linarith+
    then show ?thesis using near by (auto simp: round_even_def Let_def)
  next
    case False
    have low: "of_int n - 1 / 2 < r" using near by linarith
    have "\<lfloor>r\<rfloor> = n - 1" using low False by (intro floor_unique) simp_all
    moreover have "1 / 2 < r - of_int (n - 1)" using low by simp
    ultimately show ?thesis by (simp add: round_even_def Let_def)
  qed
qed

text \<open>Rounding is symmetric.\<close>

lemma round_even_uminus: "round_even (- r) = - round_even r"
proof (cases "r = of_int \<lfloor>r\<rfloor>")
  case True
  then show ?thesis by (metis of_int_minus round_even_int)
next
  case False
  define f where "f = \<lfloor>r\<rfloor>"
  have "of_int f \<noteq> r" using False unfolding f_def by metis
  moreover have "of_int f \<le> r" "r < of_int f + 1" unfolding f_def by linarith+
  ultimately have r: "of_int f < r" "r < of_int f + 1" by linarith+
  then have m: "\<lfloor>- r\<rfloor> = - f - 1" by (intro floor_unique) simp_all
  have "- r - of_int (- f - 1) = 1 - (r - of_int f)" by simp
  then show ?thesis by (simp only: round_even_def Let_def m f_def [symmetric]) auto
qed

lemma round64_uminus: "round64 (- x) = - round64 x"
proof -
  define e where "e = max (exponent \<bar>x\<bar>) (- 1022) - 52"
  define r where "r = of_int (round_even (x / pow2 e)) * pow2 e"
  have "\<not> (pow2 1024 \<le> r \<and> r \<le> - pow2 1024)" using pow2_pos [of 1024] by linarith
  then show ?thesis by (auto simp: round64_def Let_def round_even_uminus e_def [symmetric] r_def [symmetric])
qed

lemma round64_nonpos:
  assumes "x \<le> 0"
  shows "round64 x \<noteq> PosInf \<and> round64 x \<noteq> NaN \<and> \<not> Fin 0 < round64 x"
proof -
  define e where "e = max (exponent \<bar>x\<bar>) (- 1022) - 52"
  define r where "r = of_int (round_even (x / pow2 e)) * pow2 e"
  have "x / pow2 e \<le> of_int 0" using assms less_imp_le [OF pow2_pos [of e]] by (simp add: divide_le_0_iff)
  then have "round_even (x / pow2 e) \<le> 0" by (rule round_even_le)
  then have "r \<le> 0" unfolding r_def using less_imp_le [OF pow2_pos [of e]] by (simp add: mult_le_0_iff)
  moreover have "0 < pow2 1024" by simp
  ultimately have "\<not> pow2 1024 \<le> r" "r \<le> 0" by linarith+
  then show ?thesis by (auto simp: round64_def Let_def e_def [symmetric] r_def [symmetric])
qed

lemma round64_multiple:
  assumes n: "\<bar>n\<bar> < 2 ^ 53" and e: "- 1074 \<le> e" and small: "\<bar>of_int n * pow2 e\<bar> < pow2 1024"
  shows "round64 (of_int n * pow2 e) = Fin (of_int n * pow2 e)"
proof (cases "n = 0")
  case True
  then show ?thesis by (simp add: round64_def)
next
  case False
  let ?x = "of_int n * pow2 e"
  have pos: "0 < \<bar>?x\<bar>" using False pow2_pos [of e] by simp
  have "(of_int \<bar>n\<bar> :: rat) < of_int (2 ^ 53)" using n by (simp only: of_int_less_iff)
  then have "\<bar>?x\<bar> < of_int (2 ^ 53) * pow2 e" using pow2_pos [of e] by (simp add: abs_mult)
  also have "\<dots> = pow2 (e + 53)" by (rule pow2_shift53)
  finally have "pow2 (exponent \<bar>?x\<bar>) < pow2 (e + 53)" using exponent_le [OF pos] by linarith
  then have "\<not> e + 53 \<le> exponent \<bar>?x\<bar>" using pow2_mono by (meson not_le)
  then have le: "max (exponent \<bar>?x\<bar>) (- 1022) - 52 \<le> e" using e by simp
  define f where "f = max (exponent \<bar>?x\<bar>) (- 1022) - 52"
  define d where "d = nat (e - f)"
  have "pow2 e = of_int (2 ^ d) * pow2 f"
  proof -
    have "e = f + int d" using le by (simp add: d_def f_def)
    then show ?thesis by (simp add: pow2_powi power_int_add)
  qed
  then have x: "?x = of_int (n * 2 ^ d) * pow2 f" by simp
  have "?x / pow2 f = of_int (n * 2 ^ d)" unfolding x using pow2_pos [of f] by simp
  then have "round_even (?x / pow2 f) = n * 2 ^ d" by (simp only: round_even_int)
  then have r: "of_int (round_even (?x / pow2 f)) * pow2 f = ?x" unfolding x by (simp only:)
  have "?x \<noteq> 0" using pos by auto
  then show ?thesis using r small by (simp add: round64_def Let_def f_def [symmetric] abs_less_iff)
qed

lemma round64_idem:
  assumes "round64 r = Fin y"
  shows "round64 y = Fin y"
proof (cases "r = 0")
  case True
  with assms show ?thesis by (simp add: round64_def)
next
  case False
  define e where "e = max (exponent \<bar>r\<bar>) (-1022) - 52"
  define n where "n = round_even (r / pow2 e)"
  have y: "y = of_int n * pow2 e" "y < pow2 1024" "- pow2 1024 < y"
    using assms False by (auto simp: round64_def Let_def e_def [symmetric] n_def [symmetric] split: if_splits)
  have "\<bar>r\<bar> < pow2 (exponent \<bar>r\<bar> + 1)" using exponent_gt [of "\<bar>r\<bar>"] False by simp
  also have "\<dots> \<le> pow2 (e + 53)" by (rule pow2_mono) (simp add: e_def)
  also have "\<dots> = of_int (2 ^ 53) * pow2 e" by (rule pow2_shift53 [symmetric])
  finally have "r / pow2 e \<le> of_int (2 ^ 53)" "of_int (- (2 ^ 53)) \<le> r / pow2 e"
    by (simp_all add: pos_divide_le_eq pos_le_divide_eq abs_less_iff)
  then have n: "n \<le> 2 ^ 53" "- (2 ^ 53) \<le> n" unfolding n_def using round_even_le round_even_ge by blast+
  have e: "- 1074 \<le> e" by (simp add: e_def)
  show ?thesis
  proof (cases "\<bar>n\<bar> < 2 ^ 53")
    case True
    then show ?thesis using round64_multiple [OF True e] y by (simp add: abs_less_iff)
  next
    case False
    with n have "n = 2 ^ 53 \<or> n = - (2 ^ 53)" by auto
    then obtain m where m: "n = 2 * m" "\<bar>m\<bar> < 2 ^ 53" by (auto intro: that [of "2 ^ 52"] that [of "- (2 ^ 52)"])
    have "y = of_int m * pow2 (e + 1)" unfolding y(1) m(1) by (simp add: pow2_powi power_int_add)
    with round64_multiple [OF m(2), of "e + 1"] e y show ?thesis by (simp add: abs_less_iff)
  qed
qed

text \<open>Evaluation, given the power of two below the number.\<close>

lemma round64_eval:
  assumes "pow2 k \<le> \<bar>x\<bar>" "\<bar>x\<bar> < pow2 (k + 1)" "- 1022 \<le> k" "k < 1000"
  shows "round64 x = Fin (of_int (round_even (x / pow2 (k - 52))) * pow2 (k - 52))"
proof -
  have "0 < \<bar>x\<bar>" using less_le_trans [OF pow2_pos assms(1)] .
  then have x: "x \<noteq> 0" by simp
  have e: "max (exponent \<bar>x\<bar>) (- 1022) - 52 = k - 52" using exponent_eq [OF assms(1,2)] assms(3) by simp
  have two: "pow2 (k + 1) = of_int (2 ^ 53) * pow2 (k - 52)"
    using pow2_shift53 [of "k - 52"] by (simp add: add.commute)
  have "x \<le> of_int (2 ^ 53) * pow2 (k - 52)" "of_int (- (2 ^ 53)) * pow2 (k - 52) \<le> x" using assms(2) two by (auto simp: abs_less_iff)
  then have "x / pow2 (k - 52) \<le> of_int (2 ^ 53)" "of_int (- (2 ^ 53)) \<le> x / pow2 (k - 52)"
    by (simp_all only: pos_divide_le_eq pos_le_divide_eq pow2_pos)
  then have "round_even (x / pow2 (k - 52)) \<le> 2 ^ 53" "- (2 ^ 53) \<le> round_even (x / pow2 (k - 52))"
    using round_even_le round_even_ge by blast+
  then have "(of_int (round_even (x / pow2 (k - 52))) :: rat) \<le> of_int (2 ^ 53)" "(of_int (- (2 ^ 53)) :: rat) \<le> of_int (round_even (x / pow2 (k - 52)))"
    by (simp_all only: of_int_le_iff)
  then have "of_int (round_even (x / pow2 (k - 52))) * pow2 (k - 52) \<le> pow2 (k + 1)" "- pow2 (k + 1) \<le> of_int (round_even (x / pow2 (k - 52))) * pow2 (k - 52)"
    unfolding two using mult_right_mono [OF _ less_imp_le [OF pow2_pos [of "k - 52"]]] by fastforce+
  moreover have "pow2 (k + 1) < pow2 1024" using assms(4) power_int_strict_increasing [of "k + 1" 1024 "2 :: rat"] by (simp add: pow2_powi)
  ultimately show ?thesis using x by (simp add: round64_def Let_def e)
qed

definition is_double :: "float64 \<Rightarrow> bool" where
  "is_double a = (case a of Fin x \<Rightarrow> round64 x = Fin x | _ \<Rightarrow> True)"

lemma is_double_round [simp]: "is_double (round64 x)"
  by (auto simp: is_double_def round64_idem split: float64.split)

lemma is_double_other [simp]: "is_double NaN" "is_double PosInf" "is_double NegInf" "is_double (Fin 0)"
  by (simp_all add: is_double_def round64_def)

lemma is_double_plus [simp]: "is_double (a + b)"
  by (cases a; cases b) simp_all

lemma plus_zero: "is_double a \<Longrightarrow> a + Fin 0 = a"
  by (cases a) (simp_all add: is_double_def)

end
