(* ===== verification/Drive_Demos.thy ===== *)
theory Drive_Demos
  imports Float_Exact Framework "HOL-Library.Signed_Division"
begin

section \<open>The rover and the turtle (apps/rover\_demo, apps/turtle\_demo)\<close>

text \<open>
  Two simulated vehicles that are driven by messages: the programs rover\_sim and turtle\_sim with their teleoperation. Their common part
  has the same text in both. The cosine and the sine of the C library are arguments. The loops that bring an angle into its range
  need not end, so they are partial functions; a program in such a loop hangs. Times are in nanoseconds.
\<close>

subsection \<open>The link\<close>

datatype LinkMode = LinkMode_kAuto | LinkMode_kRouter | LinkMode_kClient

record LinkCliOptions =
  lc_mode :: LinkMode
  lc_connect :: string
  lc_listen :: string

definition default_LinkCliOptions :: LinkCliOptions where
  "default_LinkCliOptions = \<lparr>lc_mode = LinkMode_kAuto, lc_connect = ''tcp/127.0.0.1:7447'', lc_listen = ''tcp/127.0.0.1:7447''\<rparr>"

text \<open>The arguments after the program's name. An option without its value is ignored.\<close>

fun link_arguments :: "string list \<Rightarrow> LinkCliOptions \<Rightarrow> LinkCliOptions" where
  "link_arguments [] options = options"
| "link_arguments [arg] options =
     (if arg = ''--router'' then options\<lparr>lc_mode := LinkMode_kRouter\<rparr>
      else if arg = ''--client'' then options\<lparr>lc_mode := LinkMode_kClient\<rparr>
      else options)"
| "link_arguments (arg # v # args) options =
     (if arg = ''--router'' then link_arguments (v # args) (options\<lparr>lc_mode := LinkMode_kRouter\<rparr>)
      else if arg = ''--client'' then link_arguments (v # args) (options\<lparr>lc_mode := LinkMode_kClient\<rparr>)
      else if arg = ''--connect'' then link_arguments args (options\<lparr>lc_connect := v\<rparr>)
      else if arg = ''--listen'' then link_arguments args (options\<lparr>lc_listen := v\<rparr>)
      else link_arguments (v # args) options)"

definition ParseLinkOptions :: "string list \<Rightarrow> LinkCliOptions" where
  "ParseLinkOptions args = link_arguments args default_LinkCliOptions"

definition kRobotId :: string where "kRobotId = ''openember''"

definition InitRouter :: "((string \<times> string) list \<Rightarrow> string + unit) \<Rightarrow> LinkCliOptions \<Rightarrow> runtime \<Rightarrow> (string + unit) \<times> runtime" where
  "InitRouter backend cli rt =
     rt_Init backend (default_RuntimeOptions\<lparr>ro_robot_id := kRobotId,
       ro_link := default_LinkOptions\<lparr>ln_profile := Profile_kRouter, ln_listen := lc_listen cli\<rparr>\<rparr>) rt"

definition InitClient :: "((string \<times> string) list \<Rightarrow> string + unit) \<Rightarrow> LinkCliOptions \<Rightarrow> runtime \<Rightarrow> (string + unit) \<times> runtime" where
  "InitClient backend cli rt =
     rt_Init backend (default_RuntimeOptions\<lparr>ro_robot_id := kRobotId,
       ro_link := default_LinkOptions\<lparr>ln_profile := Profile_kClient, ln_connect := lc_connect cli\<rparr>\<rparr>) rt"

text \<open>The mode the program runs in, or the exception that ends it.\<close>

definition InitLink :: "((string \<times> string) list \<Rightarrow> string + unit) \<Rightarrow> LinkCliOptions \<Rightarrow> runtime \<Rightarrow> (string + string) \<times> runtime" where
  "InitLink backend cli rt =
     (let router = (case InitRouter backend cli rt of (r, rt) \<Rightarrow> ((case r of Inl e \<Rightarrow> Inl e | Inr u \<Rightarrow> Inr ''router''), rt));
          client = (\<lambda>rt. case InitClient backend cli rt of (r, rt) \<Rightarrow> ((case r of Inl e \<Rightarrow> Inl e | Inr u \<Rightarrow> Inr ''client''), rt)) in
      case lc_mode cli of
        LinkMode_kRouter \<Rightarrow> router
      | LinkMode_kClient \<Rightarrow> client rt
      | LinkMode_kAuto \<Rightarrow> (case router of (Inr m, rt) \<Rightarrow> (Inr m, rt) | (Inl e, rt) \<Rightarrow> client (rt_Shutdown rt)))"

subsection \<open>Angles and limits\<close>

definition kPi_angle :: float64 where "kPi_angle = round64 (314159265358979323846 / 10 ^ 20)"
definition two_pi :: float64 where "two_pi = Fin 2 * kPi_angle"

partial_function (option) sub_turns :: "float64 \<Rightarrow> float64 option" where
  "sub_turns theta = (if kPi_angle < theta then sub_turns (theta - two_pi) else Some theta)"

partial_function (option) add_turns :: "float64 \<Rightarrow> float64 option" where
  "add_turns theta = (if theta < - kPi_angle then add_turns (theta + two_pi) else Some theta)"

definition NormalizeAngle :: "float64 \<Rightarrow> float64 option" where
  "NormalizeAngle theta = (case sub_turns theta of None \<Rightarrow> None | Some t \<Rightarrow> add_turns t)"

definition Clamp :: "float64 \<Rightarrow> float64 \<Rightarrow> float64 \<Rightarrow> float64" where
  "Clamp v lo hi = (if v < lo then lo else if hi < v then hi else v)"

subsection \<open>The vehicles\<close>

text \<open>\<open>dr_last\<close> is the time of the last command; the poses handed to the publisher have their sequence number.\<close>

record drive =
  dr_linear :: float64
  dr_angular :: float64
  dr_last :: "int option"
  dr_estop :: bool
  dr_x :: float64
  dr_y :: float64
  dr_theta :: float64
  dr_sequence :: u64
  dr_poses :: "(u64 \<times> float64 \<times> float64 \<times> float64) list"

definition new_drive :: drive where
  "new_drive =
     \<lparr>dr_linear = 0, dr_angular = 0, dr_last = None, dr_estop = False, dr_x = 0, dr_y = 0, dr_theta = 0, dr_sequence = 0, dr_poses = []\<rparr>"

definition kDtSec :: float64 where "kDtSec = round64 (5 / 100)"
definition kCommandTimeoutSec :: float64 where "kCommandTimeoutSec = round64 (5 / 10)"

text \<open>The age of a command, a duration in nanoseconds, is converted to seconds.\<close>

definition seconds :: "int \<Rightarrow> float64" where
  "seconds ns = f_div (f_of_int ns) (Fin 1000000000)"

definition on_twist :: "int \<Rightarrow> float64 \<Rightarrow> float64 \<Rightarrow> drive \<Rightarrow> drive" where
  "on_twist now lin ang s = s\<lparr>dr_linear := lin, dr_angular := ang, dr_last := Some now\<rparr>"

definition on_estop :: "bool \<Rightarrow> drive \<Rightarrow> drive" where
  "on_estop engaged s = s\<lparr>dr_estop := engaged\<rparr>"

text \<open>The command of a round.\<close>

definition fresh_command :: "int \<Rightarrow> drive \<Rightarrow> float64 \<times> float64" where
  "fresh_command now s =
     (case dr_last s of None \<Rightarrow> (0, 0)
      | Some last_rx \<Rightarrow> if seconds (now - last_rx) \<le> kCommandTimeoutSec then (dr_linear s, dr_angular s) else (0, 0))"

definition integrate ::
  "(float64 \<Rightarrow> float64) \<Rightarrow> (float64 \<Rightarrow> float64) \<Rightarrow> float64 \<Rightarrow> float64 \<times> float64 \<Rightarrow> drive \<Rightarrow> drive option" where
  "integrate cos_f sin_f extent command s =
     (case command of (lin, ang) \<Rightarrow>
      let x = dr_x s + lin * cos_f (dr_theta s) * kDtSec; y = dr_y s + lin * sin_f (dr_theta s) * kDtSec in
      case NormalizeAngle (dr_theta s + ang * kDtSec) of None \<Rightarrow> None
      | Some theta \<Rightarrow>
          let x = Clamp x (- extent) extent; y = Clamp y (- extent) extent in
          Some (s\<lparr>dr_x := x, dr_y := y, dr_theta := theta, dr_poses := dr_poses s @ [(dr_sequence s, x, y, theta)],
                  dr_sequence := dr_sequence s + 1\<rparr>))"

definition rover_tick :: "(float64 \<Rightarrow> float64) \<Rightarrow> (float64 \<Rightarrow> float64) \<Rightarrow> int \<Rightarrow> drive \<Rightarrow> drive option" where
  "rover_tick cos_f sin_f now s = integrate cos_f sin_f (Fin 20) (if dr_estop s then (0, 0) else fresh_command now s) s"

definition turtle_tick :: "(float64 \<Rightarrow> float64) \<Rightarrow> (float64 \<Rightarrow> float64) \<Rightarrow> int \<Rightarrow> drive \<Rightarrow> drive option" where
  "turtle_tick cos_f sin_f now s = integrate cos_f sin_f (Fin 10) (fresh_command now s) s"

datatype drive_op = Twist int float64 float64 | Estop bool | Tick int

definition rover_do :: "(float64 \<Rightarrow> float64) \<Rightarrow> (float64 \<Rightarrow> float64) \<Rightarrow> drive_op \<Rightarrow> drive \<Rightarrow> drive option" where
  "rover_do cos_f sin_f c s =
     (case c of Twist now lin ang \<Rightarrow> Some (on_twist now lin ang s)
      | Estop engaged \<Rightarrow> Some (on_estop engaged s)
      | Tick now \<Rightarrow> rover_tick cos_f sin_f now s)"

text \<open>The turtle has no emergency stop and does not listen for one.\<close>

definition turtle_do :: "(float64 \<Rightarrow> float64) \<Rightarrow> (float64 \<Rightarrow> float64) \<Rightarrow> drive_op \<Rightarrow> drive \<Rightarrow> drive option" where
  "turtle_do cos_f sin_f c s =
     (case c of Twist now lin ang \<Rightarrow> Some (on_twist now lin ang s)
      | Estop engaged \<Rightarrow> Some s
      | Tick now \<Rightarrow> turtle_tick cos_f sin_f now s)"

subsection \<open>Teleoperation of the rover\<close>

record teleop =
  tp_linear_x :: float64
  tp_angular_z :: float64
  tp_estop :: bool

definition new_teleop :: teleop where
  "new_teleop = \<lparr>tp_linear_x = 0, tp_angular_z = 0, tp_estop = False\<rparr>"

definition kLinearSpeed :: float64 where "kLinearSpeed = round64 (8 / 10)"
definition kAngularSpeed :: float64 where "kAngularSpeed = round64 (7 / 10)"

definition stop_if_engaged :: "teleop \<Rightarrow> teleop" where
  "stop_if_engaged t = (if tp_estop t then t\<lparr>tp_linear_x := 0, tp_angular_z := 0\<rparr> else t)"

text \<open>A key, or none; \<open>None\<close> for the keys that end the program.\<close>

definition teleop_key :: "char option \<Rightarrow> teleop \<Rightarrow> teleop option" where
  "teleop_key key t =
     (case key of None \<Rightarrow> Some (stop_if_engaged t)
      | Some k \<Rightarrow>
          if k = CHR ''q'' \<or> k = CHR ''Q'' then None
          else Some (stop_if_engaged
            (if k = CHR ''e'' \<or> k = CHR ''E'' then t\<lparr>tp_estop := \<not> tp_estop t\<rparr>
             else if k = CHR ''w'' \<or> k = CHR ''W'' then t\<lparr>tp_linear_x := kLinearSpeed\<rparr>
             else if k = CHR ''s'' \<or> k = CHR ''S'' then t\<lparr>tp_linear_x := - kLinearSpeed\<rparr>
             else if k = CHR ''a'' \<or> k = CHR ''A'' then t\<lparr>tp_angular_z := kAngularSpeed\<rparr>
             else if k = CHR ''d'' \<or> k = CHR ''D'' then t\<lparr>tp_angular_z := - kAngularSpeed\<rparr>
             else if k = CHR '' '' then t\<lparr>tp_linear_x := 0, tp_angular_z := 0\<rparr>
             else t)))"

text \<open>The two messages of a round, in their order, and those at the end.\<close>

definition teleop_messages :: "int \<Rightarrow> teleop \<Rightarrow> drive_op list" where
  "teleop_messages now t = [Estop (tp_estop t), Twist now (tp_linear_x t) (tp_angular_z t)]"

definition teleop_goodbye :: "int \<Rightarrow> drive_op list" where
  "teleop_goodbye now = [Estop False, Twist now 0 0]"

text \<open>Teleoperation of the turtle has other speeds and no emergency stop.\<close>

definition turtle_speed :: float64 where "turtle_speed = Fin 1"

definition turtle_key :: "char option \<Rightarrow> teleop \<Rightarrow> teleop option" where
  "turtle_key key t =
     (case key of None \<Rightarrow> Some t
      | Some k \<Rightarrow>
          if k = CHR ''q'' \<or> k = CHR ''Q'' then None
          else Some
            (if k = CHR ''w'' \<or> k = CHR ''W'' then t\<lparr>tp_linear_x := turtle_speed\<rparr>
             else if k = CHR ''s'' \<or> k = CHR ''S'' then t\<lparr>tp_linear_x := - turtle_speed\<rparr>
             else if k = CHR ''a'' \<or> k = CHR ''A'' then t\<lparr>tp_angular_z := turtle_speed\<rparr>
             else if k = CHR ''d'' \<or> k = CHR ''D'' then t\<lparr>tp_angular_z := - turtle_speed\<rparr>
             else if k = CHR '' '' then t\<lparr>tp_linear_x := 0, tp_angular_z := 0\<rparr>
             else t))"

text \<open>Without a keyboard: the command after some seconds. The remainder of two finite numbers is exact.\<close>

definition f_fmod :: "float64 \<Rightarrow> float64 \<Rightarrow> float64" where
  "f_fmod a b =
     (case a of Fin x \<Rightarrow>
        (case b of Fin y \<Rightarrow> if y = 0 then NaN else Fin (x - y * of_int (if 0 \<le> x / y then \<lfloor>x / y\<rfloor> else \<lceil>x / y\<rceil>))
         | NaN \<Rightarrow> NaN | _ \<Rightarrow> a)
      | _ \<Rightarrow> NaN)"

definition rover_demo_command :: "float64 \<Rightarrow> teleop" where
  "rover_demo_command elapsed =
     (if Fin 8 \<le> f_fmod elapsed (Fin 10) then \<lparr>tp_linear_x = 0, tp_angular_z = 0, tp_estop = True\<rparr>
      else \<lparr>tp_linear_x = round64 (6 / 10), tp_angular_z = round64 (35 / 100), tp_estop = False\<rparr>)"

definition turtle_demo_command :: "(float64 \<Rightarrow> float64) \<Rightarrow> float64 \<Rightarrow> teleop \<Rightarrow> teleop" where
  "turtle_demo_command sin_f elapsed t =
     t\<lparr>tp_linear_x := round64 (8 / 10), tp_angular_z := round64 (6 / 10) + round64 (2 / 10) * sin_f elapsed\<rparr>"

subsection \<open>The turtle's map\<close>

text \<open>Conversions to integers are undefined outside their range (\<open>None\<close>); \<open>lround\<close> rounds halves away from zero.\<close>

definition f_lround :: "float64 \<Rightarrow> int option" where
  "f_lround a = (case a of
       Fin x \<Rightarrow>
         let n = (if 0 \<le> x then \<lfloor>x + 1 / 2\<rfloor> else - \<lfloor>- x + 1 / 2\<rfloor>) in
         if - (2 ^ 63) \<le> n \<and> n < 2 ^ 63 then Some n else None
     | _ \<Rightarrow> None)"

definition f_floor :: "float64 \<Rightarrow> int option" where
  "f_floor a = (case a of Fin x \<Rightarrow> Some \<lfloor>x\<rfloor> | _ \<Rightarrow> None)"

definition HeadingGlyph :: "float64 \<Rightarrow> char option" where
  "HeadingGlyph theta =
     (case NormalizeAngle theta of None \<Rightarrow> None
      | Some t \<Rightarrow>
          let sector = f_fmod (t + two_pi) two_pi in
          case f_floor (f_div sector (f_div kPi_angle (Fin 4)) + round64 (1 / 2)) of None \<Rightarrow> None
          | Some n \<Rightarrow>
              if n < - (2 ^ 31) \<or> 2 ^ 31 \<le> n then None
              else let idx = n smod 8 in
                if idx < 0 then None else Some ([CHR ''>'', CHR ''/'', CHR ''^'', CHR 0x5C, CHR ''<'', CHR ''/'', CHR ''v'', CHR 0x5C] ! nat idx))"

definition kMapWidth :: int where "kMapWidth = 41"
definition kMapHeight :: int where "kMapHeight = 21"

definition clamp_index :: "int \<Rightarrow> int \<Rightarrow> int" where
  "clamp_index n hi = (if n < 0 then 0 else if hi < n then hi else n)"

text \<open>The cell of a position: column and row.\<close>

definition map_cell :: "float64 \<Rightarrow> float64 \<Rightarrow> (int \<times> int) option" where
  "map_cell x y =
     (let extent = Fin 10; span = Fin 2 * extent in
      case f_lround (f_div (x + extent) span * f_of_int (kMapWidth - 1)) of None \<Rightarrow> None
      | Some col \<Rightarrow>
          case f_lround (f_div (extent - y) span * f_of_int (kMapHeight - 1)) of None \<Rightarrow> None
          | Some row \<Rightarrow> Some (clamp_index (signed_take_bit 31 col) (kMapWidth - 1), clamp_index (signed_take_bit 31 row) (kMapHeight - 1)))"

definition map_border :: string where
  "map_border = ''+'' @ replicate (nat kMapWidth) CHR ''-'' @ ''+''"

definition map_char :: "char \<Rightarrow> int \<Rightarrow> int \<Rightarrow> int \<Rightarrow> int \<Rightarrow> char" where
  "map_char turtle col row r c =
     (if r = row \<and> c = col then turtle
      else if r = kMapHeight div 2 \<and> c = kMapWidth div 2 then CHR ''+''
      else CHR '' '')"

text \<open>The lines of the map, without the pose below it.\<close>

definition PrintAsciiMap :: "float64 \<Rightarrow> float64 \<Rightarrow> float64 \<Rightarrow> string list option" where
  "PrintAsciiMap x y theta =
     (case map_cell x y of None \<Rightarrow> None
      | Some (col, row) \<Rightarrow>
          case HeadingGlyph theta of None \<Rightarrow> None
          | Some turtle \<Rightarrow>
              Some ([[], map_border] @
                map (\<lambda>r. ''|'' @ map (map_char turtle col row r) [0..kMapWidth - 1] @ ''|'') [0..kMapHeight - 1] @ [map_border]))"

subsection \<open>Angles end up in their range\<close>

definition pi_rat :: rat where "pi_rat = 884279719003555 / 2 ^ 48"

lemma kPi_angle_eq: "kPi_angle = Fin pi_rat"
proof -
  let ?x = "314159265358979323846 / 10 ^ 20 :: rat"
  have "round_even (?x / pow2 (1 - 52)) = 7074237752028440" by (rule round_even_nearest) (simp add: pow2_def)
  then have "round64 ?x = Fin (of_int 7074237752028440 * pow2 (1 - 52))"
    by (subst round64_eval [of 1]) (simp_all add: pow2_def)
  then show ?thesis by (simp add: kPi_angle_def pow2_def pi_rat_def)
qed

lemma two_pi_eq: "two_pi = Fin (2 * pi_rat)"
  using round64_multiple [of 884279719003555 "- 47"] by (simp add: two_pi_def kPi_angle_eq pow2_def pi_rat_def)

lemma pi_bounds: "3141 / 1000 < pi_rat" "pi_rat < 3142 / 1000"
  by (simp_all add: pi_rat_def)

lemma pi_multiple: "of_int 884279719003555 * pow2 (- 48) = pi_rat" "of_int (- 884279719003555) * pow2 (- 48) = - pi_rat"
  by (simp_all add: pi_rat_def pow2_def)

text \<open>One turn: the angle changes by six at least, and not past the other end of the range.\<close>

lemma one_turn:
  assumes "pi_rat < x" "x \<le> 2 ^ 49"
  shows "\<exists>y. round64 (x - 2 * pi_rat) = Fin y \<and> y \<le> x - 6 \<and> - pi_rat \<le> y"
proof -
  define z where "z = x - 2 * pi_rat"
  have z: "\<bar>z\<bar> \<le> pow2 (52 - 3)" using assms pi_bounds by (auto simp: pow2_def abs_le_iff z_def)
  have eight: "pow2 (- 3) = 1 / 8" by (simp add: pow2_def)
  have "of_int \<lfloor>8 * z\<rfloor> * pow2 (- 3) \<le> z" "z \<le> of_int \<lceil>8 * z\<rceil> * pow2 (- 3)" unfolding eight by linarith+
  from round64_bounds [OF this z] obtain y where y: "round64 z = Fin y" "of_int \<lfloor>8 * z\<rfloor> / 8 \<le> y" "y \<le> of_int \<lceil>8 * z\<rceil> / 8"
    by (auto simp: eight)
  have up: "y \<le> x - 6"
  proof -
    have "of_int \<lceil>8 * z\<rceil> \<le> 8 * z + 1" by linarith
    then have "y \<le> z + 1 / 8" using y(3) by linarith
    then show ?thesis using pi_bounds unfolding z_def by linarith
  qed
  have low: "- pi_rat \<le> y"
  proof (cases "x \<le> 16")
    case True
    have "\<bar>z\<bar> \<le> pow2 (52 - 48)" using assms(1) True pi_bounds by (auto simp: pow2_def abs_le_iff z_def)
    moreover have "of_int (- 884279719003555) * pow2 (- 48) \<le> z" unfolding pi_multiple using assms(1) by (simp add: z_def)
    moreover have "z \<le> of_int (2 ^ 52) * pow2 (- 48)" using True pi_bounds by (simp add: pow2_def z_def)
    ultimately obtain y' where "round64 z = Fin y'" "of_int (- 884279719003555) * pow2 (- 48) \<le> y'"
      using round64_bounds [of "- 884279719003555" 48 z "2 ^ 52"] by auto
    then show ?thesis using y(1) by (simp only: pi_multiple float64.inject)
  next
    case False
    have "8 * z - 1 \<le> of_int \<lfloor>8 * z\<rfloor>" by linarith
    then have "z - 1 / 8 \<le> y" using y(2) by linarith
    then show ?thesis using False pi_bounds unfolding z_def by linarith
  qed
  show ?thesis using y(1) up low unfolding z_def by blast
qed

lemma sub_turns_range:
  assumes "x \<le> 2 ^ 49" "- (2 ^ 49) \<le> x"
  shows "\<exists>y. sub_turns (Fin x) = Some (Fin y) \<and> y \<le> pi_rat \<and> (y = x \<or> - pi_rat \<le> y)"
  using assms
proof (induction "nat \<lceil>x + 2 ^ 49\<rceil>" arbitrary: x rule: less_induct)
  case less
  show ?case
  proof (cases "pi_rat < x")
    case False
    then show ?thesis by (auto simp: sub_turns.simps [of "Fin x"] kPi_angle_eq)
  next
    case True
    from one_turn [OF True less.prems(1)] obtain z where z: "round64 (x - 2 * pi_rat) = Fin z" "z \<le> x - 6" "- pi_rat \<le> z" by blast
    have b: "z \<le> 2 ^ 49" "- (2 ^ 49) \<le> z" using z less.prems pi_bounds by auto
    have "0 \<le> z + 2 ^ 49" using b by simp
    moreover have "z + 2 ^ 49 \<le> (x + 2 ^ 49) - 6" using z by simp
    ultimately have "nat \<lceil>z + 2 ^ 49\<rceil> < nat \<lceil>x + 2 ^ 49\<rceil>" by linarith
    from less.hyps [OF this b] obtain y where "sub_turns (Fin z) = Some (Fin y)" "y \<le> pi_rat" "y = z \<or> - pi_rat \<le> y" by blast
    then show ?thesis using True z by (auto simp: sub_turns.simps [of "Fin x"] kPi_angle_eq two_pi_eq minus_float64_def)
  qed
qed

lemma add_turns_range:
  assumes "x \<le> pi_rat" "- (2 ^ 49) \<le> x"
  shows "\<exists>y. add_turns (Fin x) = Some (Fin y) \<and> y \<le> pi_rat \<and> - pi_rat \<le> y"
  using assms
proof (induction "nat \<lceil>4 - x\<rceil>" arbitrary: x rule: less_induct)
  case less
  show ?case
  proof (cases "x < - pi_rat")
    case False
    then show ?thesis using less.prems by (auto simp: add_turns.simps [of "Fin x"] kPi_angle_eq)
  next
    case True
    with less.prems have "pi_rat < - x" "- x \<le> 2 ^ 49" by auto
    from one_turn [OF this] obtain z where z: "round64 (- x - 2 * pi_rat) = Fin z" "z \<le> - x - 6" "- pi_rat \<le> z" by blast
    have "round64 (x + 2 * pi_rat) = Fin (- z)" using round64_uminus [of "- x - 2 * pi_rat"] z(1) by (simp add: algebra_simps)
    moreover have b: "- z \<le> pi_rat" "- (2 ^ 49) \<le> - z" using z less.prems pi_bounds by auto
    moreover have "nat \<lceil>4 - (- z)\<rceil> < nat \<lceil>4 - x\<rceil>"
    proof -
      have "4 - (- z) \<le> (4 - x) - 6" "0 \<le> 4 - (- z)" using z pi_bounds by linarith+
      then show ?thesis by linarith
    qed
    ultimately show ?thesis using less.hyps [of "- z"] True
      by (auto simp: add_turns.simps [of "Fin x"] kPi_angle_eq two_pi_eq)
  qed
qed

lemma angle_lemma:
  assumes "\<bar>x\<bar> \<le> 2 ^ 49"
  shows "\<exists>y. NormalizeAngle (Fin x) = Some (Fin y) \<and> \<bar>y\<bar> \<le> pi_rat"
proof -
  have x: "x \<le> 2 ^ 49" "- (2 ^ 49) \<le> x" using assms by (simp_all add: abs_le_iff)
  from sub_turns_range [OF x] obtain t where t: "sub_turns (Fin x) = Some (Fin t)" "t \<le> pi_rat" "t = x \<or> - pi_rat \<le> t" by blast
  have "- (2 ^ 49) \<le> t" using t(3) x(2) pi_bounds by auto
  from add_turns_range [OF t(2) this] obtain y where "add_turns (Fin t) = Some (Fin y)" "y \<le> pi_rat" "- pi_rat \<le> y" by blast
  then show ?thesis using t(1) by (simp add: NormalizeAngle_def abs_le_iff)
qed

theorem angle_is_normalised:
  assumes "\<bar>x\<bar> \<le> 2 ^ 49"
  shows "\<exists>y. NormalizeAngle (Fin x) = Some (Fin y) \<and> \<bar>y\<bar> \<le> pi_rat"
  by (rule angle_lemma [OF assms])

lemma normalised_angle: "\<bar>x\<bar> \<le> pi_rat \<Longrightarrow> NormalizeAngle (Fin x) = Some (Fin x)"
  by (auto simp: NormalizeAngle_def sub_turns.simps add_turns.simps kPi_angle_eq abs_le_iff)

text \<open>An angle that one turn leaves as it is keeps the program in the loop.\<close>

lemma sub_turns_stuck:
  assumes "sub_turns a = Some r"
  shows "\<not> (kPi_angle < a \<and> a - two_pi = a)"
proof (rule sub_turns.raw_induct [where P = "\<lambda>a r. \<not> (kPi_angle < a \<and> a - two_pi = a)", OF _ assms])
  fix f :: "float64 \<Rightarrow> float64 option" and a r :: float64
  assume "\<And>a r. f a = Some r \<Longrightarrow> \<not> (kPi_angle < a \<and> a - two_pi = a)" "(if kPi_angle < a then f (a - two_pi) else Some a) = Some r"
  then show "\<not> (kPi_angle < a \<and> a - two_pi = a)" by (metis (full_types))
qed

lemma add_turns_stuck:
  assumes "add_turns a = Some r"
  shows "\<not> (a < - kPi_angle \<and> a + two_pi = a)"
proof (rule add_turns.raw_induct [where P = "\<lambda>a r. \<not> (a < - kPi_angle \<and> a + two_pi = a)", OF _ assms])
  fix f :: "float64 \<Rightarrow> float64 option" and a r :: float64
  assume "\<And>a r. f a = Some r \<Longrightarrow> \<not> (a < - kPi_angle \<and> a + two_pi = a)" "(if a < - kPi_angle then f (a + two_pi) else Some a) = Some r"
  then show "\<not> (a < - kPi_angle \<and> a + two_pi = a)" by (metis (full_types))
qed

lemma two_60_stuck: "round64 (2 ^ 60 - 2 * pi_rat) = Fin (2 ^ 60)"
proof -
  have p: "pow2 59 = 2 ^ 59" "pow2 60 = 2 ^ 60" "pow2 7 = 128" by (simp_all add: pow2_def)
  have "round_even ((2 ^ 60 - 2 * pi_rat) / pow2 (59 - 52)) = 2 ^ 53"
    by (rule round_even_nearest) (use pi_bounds in \<open>simp add: p abs_less_iff field_simps\<close>)
  moreover have "pow2 59 \<le> \<bar>2 ^ 60 - 2 * pi_rat\<bar>" "\<bar>2 ^ 60 - 2 * pi_rat\<bar> < pow2 (59 + 1)" using pi_bounds by (simp_all add: p)
  ultimately show ?thesis using round64_eval [of 59 "2 ^ 60 - 2 * pi_rat"] by (simp add: p)
qed

theorem huge_angles_hang:
  shows "NormalizeAngle PosInf = None" and "NormalizeAngle NegInf = None" and "NormalizeAngle (Fin (2 ^ 60)) = None"
proof -
  have "sub_turns PosInf = None" using sub_turns_stuck [of PosInf]
    by (cases "sub_turns PosInf") (simp_all add: kPi_angle_eq two_pi_eq minus_float64_def)
  then show "NormalizeAngle PosInf = None" by (simp add: NormalizeAngle_def)
  have "add_turns NegInf = None" using add_turns_stuck [of NegInf]
    by (cases "add_turns NegInf") (simp_all add: kPi_angle_eq two_pi_eq)
  then show "NormalizeAngle NegInf = None" by (simp add: NormalizeAngle_def sub_turns.simps kPi_angle_eq)
  have "sub_turns (Fin (2 ^ 60)) = None" using sub_turns_stuck [of "Fin (2 ^ 60)"] pi_bounds
    by (cases "sub_turns (Fin (2 ^ 60))") (simp_all add: kPi_angle_eq two_pi_eq minus_float64_def two_60_stuck [simplified])
  then show "NormalizeAngle (Fin (2 ^ 60)) = None" by (simp add: NormalizeAngle_def)
qed

text \<open>Whatever the angle, a result is in the range or not a number.\<close>

definition in_range :: "rat \<Rightarrow> float64 \<Rightarrow> bool" where
  "in_range b a = (case a of NaN \<Rightarrow> True | Fin x \<Rightarrow> \<bar>x\<bar> \<le> b | _ \<Rightarrow> False)"

lemma sub_turns_le: "sub_turns a = Some r \<Longrightarrow> \<not> kPi_angle < r"
proof (erule sub_turns.raw_induct [where P = "\<lambda>a r. \<not> kPi_angle < r", rotated])
  fix f :: "float64 \<Rightarrow> float64 option" and a r :: float64
  assume "\<And>a r. f a = Some r \<Longrightarrow> \<not> kPi_angle < r" "(if kPi_angle < a then f (a - two_pi) else Some a) = Some r"
  then show "\<not> kPi_angle < r" by (auto split: if_splits)
qed

lemma add_turns_ge: "add_turns a = Some r \<Longrightarrow> \<not> r < - kPi_angle"
proof (erule add_turns.raw_induct [where P = "\<lambda>a r. \<not> r < - kPi_angle", rotated])
  fix f :: "float64 \<Rightarrow> float64 option" and a r :: float64
  assume "\<And>a r. f a = Some r \<Longrightarrow> \<not> r < - kPi_angle" "(if a < - kPi_angle then f (a + two_pi) else Some a) = Some r"
  then show "\<not> r < - kPi_angle" by (auto split: if_splits)
qed

lemma turn_back:
  assumes "x < - pi_rat"
  shows "\<not> Fin pi_rat < round64 (x + 2 * pi_rat)"
proof (cases "x \<le> - 16")
  case True
  then have neg: "x + 2 * pi_rat < 0" using pi_bounds by simp
  from round64_nonpos [OF less_imp_le [OF this]] show ?thesis using pi_bounds by (cases "round64 (x + 2 * pi_rat)") auto
next
  case False
  have "\<bar>x + 2 * pi_rat\<bar> \<le> pow2 (52 - 48)" using assms False pi_bounds by (simp add: pow2_def abs_le_iff)
  moreover have "of_int (- (2 ^ 52)) * pow2 (- 48) \<le> x + 2 * pi_rat" using False pi_bounds by (simp add: pow2_def)
  moreover have "x + 2 * pi_rat \<le> of_int 884279719003555 * pow2 (- 48)" unfolding pi_multiple using assms by simp
  ultimately obtain y where "round64 (x + 2 * pi_rat) = Fin y" "y \<le> of_int 884279719003555 * pow2 (- 48)"
    using round64_bounds [of "- (2 ^ 52)" 48 "x + 2 * pi_rat" 884279719003555] by auto
  then show ?thesis unfolding pi_multiple by simp
qed

lemma add_turns_le: "add_turns a = Some r \<Longrightarrow> \<not> kPi_angle < a \<Longrightarrow> \<not> kPi_angle < r"
proof (erule add_turns.raw_induct [where P = "\<lambda>a r. \<not> kPi_angle < a \<longrightarrow> \<not> kPi_angle < r", rotated, THEN mp])
  fix f :: "float64 \<Rightarrow> float64 option" and a r :: float64
  assume IH: "\<And>a r. f a = Some r \<Longrightarrow> \<not> kPi_angle < a \<longrightarrow> \<not> kPi_angle < r" and r: "(if a < - kPi_angle then f (a + two_pi) else Some a) = Some r"
  have "\<not> kPi_angle < a + two_pi" if "a < - kPi_angle"
    using that by (cases a) (auto simp: kPi_angle_eq two_pi_eq turn_back)
  then show "\<not> kPi_angle < a \<longrightarrow> \<not> kPi_angle < r" using IH r by (auto split: if_splits)
qed

lemma normalised_range: "NormalizeAngle a = Some r \<Longrightarrow> in_range pi_rat r"
  using sub_turns_le add_turns_ge add_turns_le
  by (cases r) (force simp: NormalizeAngle_def in_range_def kPi_angle_eq abs_le_iff not_less split: option.splits)+

lemma sub_turns_double: "sub_turns a = Some r \<Longrightarrow> is_double a \<Longrightarrow> is_double r"
proof (erule sub_turns.raw_induct [where P = "\<lambda>a r. is_double a \<longrightarrow> is_double r", rotated, THEN mp])
  fix f :: "float64 \<Rightarrow> float64 option" and a r :: float64
  assume "\<And>a r. f a = Some r \<Longrightarrow> is_double a \<longrightarrow> is_double r" "(if kPi_angle < a then f (a - two_pi) else Some a) = Some r"
  then show "is_double a \<longrightarrow> is_double r" by (auto simp: minus_float64_def split: if_splits)
qed

lemma add_turns_double: "add_turns a = Some r \<Longrightarrow> is_double a \<Longrightarrow> is_double r"
proof (erule add_turns.raw_induct [where P = "\<lambda>a r. is_double a \<longrightarrow> is_double r", rotated, THEN mp])
  fix f :: "float64 \<Rightarrow> float64 option" and a r :: float64
  assume "\<And>a r. f a = Some r \<Longrightarrow> is_double a \<longrightarrow> is_double r" "(if a < - kPi_angle then f (a + two_pi) else Some a) = Some r"
  then show "is_double a \<longrightarrow> is_double r" by (auto split: if_splits)
qed

lemma normalised_double: "NormalizeAngle a = Some r \<Longrightarrow> is_double a \<Longrightarrow> is_double r"
  by (auto simp: NormalizeAngle_def dest: sub_turns_double add_turns_double split: option.splits)

subsection \<open>The vehicles stay in their world\<close>

definition world_ok :: "rat \<Rightarrow> drive \<Rightarrow> bool" where
  "world_ok b s = (in_range b (dr_x s) \<and> in_range b (dr_y s) \<and> in_range pi_rat (dr_theta s)
     \<and> is_double (dr_x s) \<and> is_double (dr_y s) \<and> is_double (dr_theta s)
     \<and> list_all (\<lambda>(n, x, y, theta). in_range b x \<and> in_range b y \<and> in_range pi_rat theta) (dr_poses s)
     \<and> dr_sequence s = of_nat (length (dr_poses s)) \<and> map fst (dr_poses s) = map of_nat [0..<length (dr_poses s)])"

lemma Clamp_range: "0 \<le> b \<Longrightarrow> in_range b (Clamp v (- Fin b) (Fin b))"
  by (cases v) (auto simp: Clamp_def in_range_def abs_le_iff)

lemma Clamp_double: "is_double v \<Longrightarrow> is_double (Fin b) \<Longrightarrow> is_double (Fin (- b)) \<Longrightarrow> is_double (Clamp v (- Fin b) (Fin b))"
  by (auto simp: Clamp_def)

lemma Clamp_inside: "in_range b v \<Longrightarrow> Clamp v (- Fin b) (Fin b) = v"
  by (cases v) (auto simp: Clamp_def in_range_def abs_le_iff)

lemma integrate_ok:
  assumes b: "0 \<le> b" "is_double (Fin b)" "is_double (Fin (- b))"
    and s: "world_ok b s" and s': "integrate cos_f sin_f (Fin b) v s = Some s'"
  shows "world_ok b s'"
proof -
  obtain lin ang where v: "v = (lin, ang)" by fastforce
  from s' obtain theta where t: "NormalizeAngle (dr_theta s + ang * kDtSec) = Some theta"
    unfolding integrate_def v by (auto simp: Let_def split: option.splits)
  let ?x = "Clamp (dr_x s + lin * cos_f (dr_theta s) * kDtSec) (- Fin b) (Fin b)"
  let ?y = "Clamp (dr_y s + lin * sin_f (dr_theta s) * kDtSec) (- Fin b) (Fin b)"
  have "s' = s\<lparr>dr_x := ?x, dr_y := ?y, dr_theta := theta, dr_poses := dr_poses s @ [(dr_sequence s, ?x, ?y, theta)],
    dr_sequence := dr_sequence s + 1\<rparr>"
    using s' t unfolding integrate_def v by (simp add: Let_def)
  then show ?thesis using s normalised_range [OF t] normalised_double [OF t] Clamp_range [OF b(1)] Clamp_double [OF _ b(2,3)]
    by (simp add: world_ok_def del: uminus_float64.simps)
qed

lemma world_bounds [simp]: "is_double (Fin 20)" "is_double (Fin (- 20))" "is_double (Fin 10)" "is_double (Fin (- 10))"
  using round64_int [of 20] round64_int [of "- 20"] round64_int [of 10] round64_int [of "- 10"] by (simp_all add: is_double_def)

interpretation rover: guarded_machine "rover_do cos_f sin_f" "\<lambda>c. True" "world_ok 20" for cos_f sin_f
proof
  fix s s' :: drive and c :: drive_op
  assume s: "world_ok 20 s" and step: "rover_do cos_f sin_f c s = Some s'"
  show "world_ok 20 s'"
  proof (cases c)
    case (Tick now)
    with step have "integrate cos_f sin_f (Fin 20) (if dr_estop s then (0, 0) else fresh_command now s) s = Some s'"
      by (simp add: rover_do_def rover_tick_def)
    from integrate_ok [OF _ _ _ s this] show ?thesis by simp
  qed (use s step in \<open>auto simp: rover_do_def on_twist_def on_estop_def world_ok_def\<close>)
qed

interpretation turtle: guarded_machine "turtle_do cos_f sin_f" "\<lambda>c. True" "world_ok 10" for cos_f sin_f
proof
  fix s s' :: drive and c :: drive_op
  assume s: "world_ok 10 s" and step: "turtle_do cos_f sin_f c s = Some s'"
  show "world_ok 10 s'"
  proof (cases c)
    case (Tick now)
    with step have "integrate cos_f sin_f (Fin 10) (fresh_command now s) s = Some s'" by (simp add: turtle_do_def turtle_tick_def)
    from integrate_ok [OF _ _ _ s this] show ?thesis by simp
  qed (use s step in \<open>auto simp: turtle_do_def on_twist_def world_ok_def\<close>)
qed

lemma new_drive_ok: "0 \<le> b \<Longrightarrow> world_ok b new_drive"
  by (simp add: world_ok_def new_drive_def in_range_def zero_float64_def pi_rat_def)

theorem rover_stays_in_world:
  assumes "run_ops (rover_do cos_f sin_f) cs new_drive = Some s" "(n, x, y, theta) \<in> set (dr_poses s)"
  shows "in_range 20 x \<and> in_range 20 y \<and> in_range pi_rat theta"
proof -
  have "world_ok 20 s" using rover.run_inv [OF new_drive_ok _ assms(1)] by (simp add: list_all_iff)
  then show ?thesis using assms(2) by (auto simp: world_ok_def list_all_iff)
qed

theorem turtle_stays_in_world:
  assumes "run_ops (turtle_do cos_f sin_f) cs new_drive = Some s" "(n, x, y, theta) \<in> set (dr_poses s)"
  shows "in_range 10 x \<and> in_range 10 y \<and> in_range pi_rat theta"
proof -
  have "world_ok 10 s" using turtle.run_inv [OF new_drive_ok _ assms(1)] by (simp add: list_all_iff)
  then show ?thesis using assms(2) by (auto simp: world_ok_def list_all_iff)
qed

subsection \<open>The age of a command\<close>

lemma kCommandTimeoutSec_eq: "kCommandTimeoutSec = Fin (1 / 2)"
  using round64_multiple [of 1 "- 1"] by (simp add: kCommandTimeoutSec_def pow2_def)

lemma command_expires:
  assumes "\<bar>ns\<bar> \<le> 2 ^ 50"
  shows "seconds ns \<le> kCommandTimeoutSec \<longleftrightarrow> ns \<le> 500000000"
proof -
  let ?r = "of_int ns / 1000000000 :: rat"
  have "\<bar>ns\<bar> \<le> 2 ^ 52" using assms by simp
  then have s: "seconds ns = round64 ?r" by (simp add: seconds_def f_of_int_def)
  have "(of_int \<bar>ns\<bar> :: rat) \<le> of_int (2 ^ 50)" using assms by (simp only: of_int_le_iff)
  then have n: "of_int ns \<le> (2 ^ 50 :: rat)" "- (2 ^ 50 :: rat) \<le> of_int ns" by (simp_all add: abs_le_iff)
  have p: "pow2 (- 31) = 1 / 2 ^ 31" "pow2 (52 - 31) = 2 ^ 21" by (simp_all add: pow2_def)
  have small: "\<bar>?r\<bar> \<le> pow2 (52 - 31)" unfolding p using n by (simp add: abs_le_iff)
  show ?thesis
  proof (cases "ns \<le> 500000000")
    case True
    then have "(of_int ns :: rat) \<le> of_int 500000000" by (simp only: of_int_le_iff)
    then have "?r \<le> of_int (2 ^ 30) * pow2 (- 31)" unfolding p by simp
    moreover have "of_int (- (2 ^ 52)) * pow2 (- 31) \<le> ?r" unfolding p using n by simp
    ultimately obtain y where "round64 ?r = Fin y" "y \<le> of_int (2 ^ 30) * pow2 (- 31)"
      using round64_bounds [of "- (2 ^ 52)" 31 ?r "2 ^ 30"] small by auto
    then show ?thesis using True by (simp add: s kCommandTimeoutSec_eq p)
  next
    case False
    then have "(of_int 500000001 :: rat) \<le> of_int ns" by (simp only: of_int_le_iff)
    then have "of_int (2 ^ 30 + 1) * pow2 (- 31) \<le> ?r" unfolding p by simp
    moreover have "?r \<le> of_int (2 ^ 52) * pow2 (- 31)" unfolding p using n by simp
    ultimately obtain y where "round64 ?r = Fin y" "of_int (2 ^ 30 + 1) * pow2 (- 31) \<le> y"
      using round64_bounds [of "2 ^ 30 + 1" 31 ?r "2 ^ 52"] small by auto
    then show ?thesis using False by (simp add: s kCommandTimeoutSec_eq p)
  qed
qed

subsection \<open>The rover stops\<close>

lemma zero_times [simp]: "(0 :: float64) * Fin x = Fin 0"
  by (simp add: zero_float64_def round64_def)

lemma kDtSec_fin: obtains k where "kDtSec = Fin k" "0 \<le> k" "k \<le> 1"
  using round64_int_bounds [of 0 "5 / 100" 1] by (auto simp: kDtSec_def)

lemma integrate_zero:
  assumes s: "world_ok b s" and fin: "dr_x s = Fin x" "dr_y s = Fin y" "dr_theta s = Fin t"
    and trig: "cos_f (Fin t) = Fin c" "sin_f (Fin t) = Fin d"
  shows "integrate cos_f sin_f (Fin b) (0, 0) s =
    Some (s\<lparr>dr_poses := dr_poses s @ [(dr_sequence s, Fin x, Fin y, Fin t)], dr_sequence := dr_sequence s + 1\<rparr>)"
proof -
  obtain k where k: "kDtSec = Fin k" by (rule kDtSec_fin)
  have xy: "Fin x + Fin 0 = Fin x" "Fin y + Fin 0 = Fin y" using s fin plus_zero by (metis world_ok_def)+
  have kd: "(0 :: float64) * kDtSec = Fin 0" "Fin 0 * kDtSec = Fin 0" by (simp_all add: k round64_def)
  have in_b: "Clamp (Fin x) (- Fin b) (Fin b) = Fin x" "Clamp (Fin y) (- Fin b) (Fin b) = Fin y"
    using s fin Clamp_inside unfolding world_ok_def by metis+
  have "is_double (Fin t)" "\<bar>t\<bar> \<le> pi_rat" using s fin by (auto simp: world_ok_def in_range_def)
  then have t: "NormalizeAngle (Fin t + Fin 0) = Some (Fin t)" using plus_zero normalised_angle by metis
  show ?thesis using xy kd in_b t fin trig
    by (simp add: integrate_def Let_def del: plus_float64.simps uminus_float64.simps)
qed

definition stopped_at :: "int \<Rightarrow> drive \<Rightarrow> bool" where
  "stopped_at now s =
     (dr_estop s \<or> (case dr_last s of None \<Rightarrow> True | Some t \<Rightarrow> 500000000 < now - t \<and> now - t \<le> 2 ^ 50))"

text \<open>After any messages and rounds, a rover whose emergency stop is engaged, or that has had no command for more than half a second (up
  to 13 days), publishes the pose it has: the next round returns, moves nothing and leaves the pose within the world. The only facts used on
  the cosine and the sine are that they are finite here.
\<close>

theorem stopped_rover_holds_its_pose:
  assumes run: "run_ops (rover_do cos_f sin_f) cs new_drive = Some s"
    and fin: "dr_x s = Fin x" "dr_y s = Fin y" "dr_theta s = Fin t"
    and trig: "cos_f (Fin t) = Fin c" "sin_f (Fin t) = Fin d"
    and stopped: "stopped_at now s"
  shows "rover_tick cos_f sin_f now s =
    Some (s\<lparr>dr_poses := dr_poses s @ [(dr_sequence s, Fin x, Fin y, Fin t)], dr_sequence := dr_sequence s + 1\<rparr>)"
proof -
  have s: "world_ok 20 s" using rover.run_inv [OF new_drive_ok _ run] by (simp add: list_all_iff)
  have "(if dr_estop s then (0, 0) else fresh_command now s) = (0, 0)"
    using stopped by (auto simp: stopped_at_def fresh_command_def command_expires split: option.splits)
  then show ?thesis unfolding rover_tick_def by (simp add: integrate_zero [where x = x and y = y and t = t and c = c and d = d and cos_f = cos_f and sin_f = sin_f, OF s fin trig])
qed

lemma stopped_rover_holds_its_pose_witness:
  "rover_tick (\<lambda>a. Fin 1) (\<lambda>a. Fin 0) 7 (new_drive\<lparr>dr_estop := True\<rparr>) =
    Some (new_drive\<lparr>dr_estop := True, dr_poses := [(0, Fin 0, Fin 0, Fin 0)], dr_sequence := 1\<rparr>)"
  using stopped_rover_holds_its_pose [of "\<lambda>a. Fin 1" "\<lambda>a. Fin 0" "[Estop True]" "new_drive\<lparr>dr_estop := True\<rparr>" 0 0 0 1 0 7]
  by (simp add: rover_do_def on_estop_def new_drive_def zero_float64_def stopped_at_def)

subsection \<open>Commands of bounded size keep the vehicles running\<close>

definition bounded :: "int \<Rightarrow> float64 \<Rightarrow> bool" where
  "bounded n a = (case a of Fin x \<Rightarrow> \<bar>x\<bar> \<le> of_int n | _ \<Rightarrow> False)"

lemma bounded_mono: "bounded n a \<Longrightarrow> n \<le> m \<Longrightarrow> bounded m a"
proof -
  assume a: "bounded n a" and "n \<le> m"
  then have "(of_int n :: rat) \<le> of_int m" by (simp only: of_int_le_iff)
  with a show ?thesis by (auto simp: bounded_def split: float64.splits)
qed

lemma bounded_round: "\<bar>x\<bar> \<le> of_int n \<Longrightarrow> n \<le> 2 ^ 52 \<Longrightarrow> bounded n (round64 x)"
proof -
  assume x: "\<bar>x\<bar> \<le> of_int n" and n: "n \<le> 2 ^ 52"
  have "(of_int 0 :: rat) \<le> of_int n" using order_trans [OF abs_ge_zero [of x] x] by (simp only: of_int_0)
  then have "0 \<le> n" by (simp only: of_int_le_iff)
  with n have b: "\<bar>- n\<bar> \<le> 2 ^ 52" "\<bar>n\<bar> \<le> 2 ^ 52" by simp_all
  have "of_int (- n) \<le> x" "x \<le> of_int n" using x by (simp_all add: abs_le_iff)
  from round64_int_bounds [OF this b] show ?thesis by (auto simp: bounded_def abs_le_iff)
qed

lemma bounded_plus:
  assumes "bounded n a" "bounded m b" "n + m \<le> 2 ^ 52"
  shows "bounded (n + m) (a + b)"
proof -
  obtain x y where xy: "a = Fin x" "b = Fin y" "\<bar>x\<bar> \<le> of_int n" "\<bar>y\<bar> \<le> of_int m"
    using assms by (auto simp: bounded_def split: float64.splits)
  then have "\<bar>x + y\<bar> \<le> of_int (n + m)" unfolding of_int_add using abs_triangle_ineq [of x y] by linarith
  then show ?thesis using bounded_round [OF _ assms(3)] xy by simp
qed

lemma bounded_product:
  assumes "bounded n a" "bounded m b" "n * m \<le> 2 ^ 52"
  shows "bounded (n * m) (a * b)"
proof -
  obtain x y where xy: "a = Fin x" "b = Fin y" "\<bar>x\<bar> \<le> of_int n" "\<bar>y\<bar> \<le> of_int m"
    using assms by (auto simp: bounded_def split: float64.splits)
  have "0 \<le> (of_int n :: rat)" using order_trans [OF abs_ge_zero [of x] xy(3)] .
  then have "\<bar>x\<bar> * \<bar>y\<bar> \<le> of_int n * of_int m" using xy by (intro mult_mono) simp_all
  then have "\<bar>x * y\<bar> \<le> of_int (n * m)" by (simp add: abs_mult)
  then show ?thesis using bounded_round [OF _ assms(3)] xy by simp
qed

lemma bounded_times: "bounded n a \<Longrightarrow> bounded 1 b \<Longrightarrow> n \<le> 2 ^ 52 \<Longrightarrow> bounded n (a * b)"
  using bounded_product [of n a 1 b] by simp

lemma bounded_div:
  assumes "bounded n a" "1 \<le> y" "n \<le> 2 ^ 52"
  shows "bounded n (f_div a (Fin y))"
proof -
  obtain x where x: "a = Fin x" "\<bar>x\<bar> \<le> of_int n" using assms by (auto simp: bounded_def split: float64.splits)
  have "\<bar>x / y\<bar> \<le> \<bar>x\<bar>" using assms(2) mult_left_mono [OF assms(2), of "\<bar>x\<bar>"] by (simp add: abs_divide divide_le_eq)
  then have "\<bar>x / y\<bar> \<le> of_int n" using x(2) by (rule order_trans)
  then show ?thesis using bounded_round [OF _ assms(3)] x assms(2) by simp
qed

lemma bounded_uminus [simp]: "bounded n (- a) = bounded n a"
  by (cases a) (simp_all add: bounded_def)

lemma bounded_Fin: "\<bar>x\<bar> \<le> of_int n \<Longrightarrow> bounded n (Fin x)"
  by (simp add: bounded_def)

lemma boundedE:
  assumes "bounded n a"
  obtains x where "a = Fin x" "\<bar>x\<bar> \<le> of_int n"
  using assms by (auto simp: bounded_def split: float64.splits)

definition bounded_op :: "drive_op \<Rightarrow> bool" where
  "bounded_op c = (case c of Twist now lin ang \<Rightarrow> bounded (2 ^ 40) lin \<and> bounded (2 ^ 40) ang | _ \<Rightarrow> True)"

definition running :: "drive \<Rightarrow> bool" where
  "running s = (bounded (2 ^ 40) (dr_linear s) \<and> bounded (2 ^ 40) (dr_angular s)
     \<and> bounded 20 (dr_x s) \<and> bounded 20 (dr_y s) \<and> bounded 4 (dr_theta s))"

definition trig_like :: "(float64 \<Rightarrow> float64) \<Rightarrow> bool" where
  "trig_like f = (\<forall>x. bounded 1 (f (Fin x)))"

lemma Clamp_bounded: "bounded n v \<Longrightarrow> 0 \<le> b \<Longrightarrow> b \<le> 20 \<Longrightarrow> bounded 20 (Clamp v (- Fin b) (Fin b))"
  by (cases v) (auto simp: Clamp_def bounded_def abs_le_iff)

lemma integrate_runs:
  assumes s: "running s" and trig: "trig_like cos_f" "trig_like sin_f"
    and v: "bounded (2 ^ 40) lin" "bounded (2 ^ 40) ang" and b: "0 \<le> b" "b \<le> 20"
  shows "\<exists>s'. integrate cos_f sin_f (Fin b) (lin, ang) s = Some s' \<and> running s'"
proof -
  obtain t where t: "dr_theta s = Fin t" using s by (auto simp: running_def bounded_def split: float64.splits)
  obtain k where k: "kDtSec = Fin k" "0 \<le> k" "k \<le> 1" by (rule kDtSec_fin)
  then have dt: "bounded 1 kDtSec" unfolding k(1) bounded_def by simp
  have cs: "bounded 1 (cos_f (dr_theta s))" "bounded 1 (sin_f (dr_theta s))" using trig by (simp_all add: t trig_like_def)
  have small: "(2 :: int) ^ 40 \<le> 2 ^ 52" "20 + 2 ^ 40 \<le> (2 :: int) ^ 52" "4 + 2 ^ 40 \<le> (2 :: int) ^ 52" by simp_all
  have p: "bounded 20 (dr_x s)" "bounded 20 (dr_y s)" "bounded 4 (dr_theta s)" using s unfolding running_def by blast+
  have d: "bounded (2 ^ 40) (lin * cos_f (dr_theta s) * kDtSec)" "bounded (2 ^ 40) (lin * sin_f (dr_theta s) * kDtSec)"
    "bounded (2 ^ 40) (ang * kDtSec)" by (intro bounded_times v cs dt small)+
  note xy = bounded_plus [OF p(1) d(1) small(2)] bounded_plus [OF p(2) d(2) small(2)]
  have "bounded (4 + 2 ^ 40) (dr_theta s + ang * kDtSec)" by (rule bounded_plus [OF p(3) d(3) small(3)])
  then obtain a where a: "dr_theta s + ang * kDtSec = Fin a" "\<bar>a\<bar> \<le> 2 ^ 49"
    by (auto simp: bounded_def split: float64.splits)
  from angle_lemma [OF a(2)] obtain r where r: "NormalizeAngle (Fin a) = Some (Fin r)" "\<bar>r\<bar> \<le> pi_rat" by blast
  then have "bounded 4 (Fin r)" using pi_bounds by (simp add: bounded_def)
  then show ?thesis using a r s Clamp_bounded [OF xy(1) b] Clamp_bounded [OF xy(2) b]
    by (simp add: integrate_def Let_def running_def del: uminus_float64.simps)
qed

lemma bounded_zero [simp]: "0 \<le> n \<Longrightarrow> bounded n 0"
  by (simp add: bounded_def zero_float64_def)

lemma fresh_command_bounded:
  assumes "running s"
  obtains lin ang where "fresh_command now s = (lin, ang)" "bounded (2 ^ 40) lin" "bounded (2 ^ 40) ang"
  using assms by (cases "fresh_command now s") (auto simp: fresh_command_def running_def split: option.splits if_splits)

lemma rover_step_runs:
  assumes "running s" "bounded_op c" "trig_like cos_f" "trig_like sin_f"
  shows "\<exists>s'. rover_do cos_f sin_f c s = Some s' \<and> running s'"
proof (cases c)
  case (Tick now)
  obtain lin ang where "(if dr_estop s then (0, 0) else fresh_command now s) = (lin, ang)" "bounded (2 ^ 40) lin" "bounded (2 ^ 40) ang"
    by (rule fresh_command_bounded [OF assms(1), of now]) (cases "dr_estop s"; simp)
  with integrate_runs [OF assms(1,3,4), of lin ang 20] show ?thesis by (simp add: Tick rover_do_def rover_tick_def)
qed (use assms in \<open>simp_all add: rover_do_def on_twist_def on_estop_def bounded_op_def running_def\<close>)

text \<open>Commands of at most \<open>2^40\<close> keep the simulation running: every round returns, the loops on the angle included, whatever messages
  come in whatever order, and the pose is finite and in the world. (An infinite angular velocity, or one of \<open>2^65\<close>, makes a round hang,
  by \<open>huge_angles_hang\<close>.)
\<close>

theorem rover_keeps_running:
  assumes "list_all bounded_op cs" "trig_like cos_f" "trig_like sin_f"
  shows "\<exists>s. run_ops (rover_do cos_f sin_f) cs new_drive = Some s \<and> bounded 20 (dr_x s) \<and> bounded 20 (dr_y s) \<and> bounded 4 (dr_theta s)"
proof -
  have "\<exists>s'. run_ops (rover_do cos_f sin_f) cs s = Some s' \<and> running s'" if "running s" for s
    using that assms(1)
  proof (induction cs arbitrary: s)
    case (Cons c cs)
    then obtain s1 where s1: "rover_do cos_f sin_f c s = Some s1" "running s1" using rover_step_runs [OF _ _ assms(2,3), of s c] by auto
    from Cons.IH [OF s1(2)] Cons.prems s1 show ?case by simp
  qed simp
  moreover have "running new_drive" by (simp add: running_def new_drive_def bounded_def zero_float64_def)
  ultimately show ?thesis by (auto simp: running_def)
qed

lemma rover_keeps_running_witness:
  "\<exists>s. run_ops (rover_do (\<lambda>a. Fin 1) (\<lambda>a. Fin 0)) [Twist 0 (Fin 1) (Fin 0), Tick 1] new_drive = Some s \<and> bounded 20 (dr_x s)"
  using rover_keeps_running [of "[Twist 0 (Fin 1) (Fin 0), Tick 1]" "\<lambda>a. Fin 1" "\<lambda>a. Fin 0"]
  by (auto simp: bounded_op_def trig_like_def bounded_def)

lemma angle_is_normalised_witness: "\<exists>y. NormalizeAngle (Fin 1000) = Some (Fin y) \<and> \<bar>y\<bar> \<le> pi_rat"
  using angle_is_normalised [of 1000] by simp

text \<open>A command that is not a number leaves a position that no later command repairs.\<close>

lemma NaN_plus [simp]: "NaN + a = NaN"
  by (cases a) simp_all

lemma Clamp_NaN [simp]: "Clamp NaN lo hi = NaN"
  by (simp add: Clamp_def)

lemma lost_position_stays_lost:
  assumes "dr_x s = NaN" "integrate cos_f sin_f (Fin b) v s = Some s'"
  shows "dr_x s' = NaN"
proof -
  obtain lin ang where "v = (lin, ang)" by fastforce
  with assms show ?thesis
    by (cases "NormalizeAngle (dr_theta s + ang * kDtSec)") (auto simp: integrate_def Let_def)
qed

subsection \<open>Teleoperation\<close>

lemma teleop_key_result: "teleop_key key t = Some t' \<Longrightarrow> \<exists>u. t' = stop_if_engaged u"
  unfolding teleop_key_def by (cases key; simp; metis option.inject option.distinct(1))

lemma engaged_teleop_sends_stop:
  "teleop_key key t = Some t' \<Longrightarrow> tp_estop t' \<Longrightarrow> teleop_messages now t' = [Estop True, Twist now 0 0]"
  by (auto simp: teleop_messages_def stop_if_engaged_def split: if_splits dest!: teleop_key_result)

lemma engaged_teleop_stops_rover:
  "teleop_key key t = Some t' \<Longrightarrow> tp_estop t' \<Longrightarrow> run_ops (rover_do cos_f sin_f) (teleop_messages now t') s = Some s' \<Longrightarrow> stopped_at later s'"
  by (auto simp: engaged_teleop_sends_stop rover_do_def on_estop_def on_twist_def stopped_at_def)

text \<open>Leaving the teleoperation releases an emergency stop that is engaged.\<close>

lemma goodbye_releases_stop: "run_ops (rover_do cos_f sin_f) (teleop_goodbye now) s = Some s' \<Longrightarrow> \<not> dr_estop s'"
  by (auto simp: teleop_goodbye_def rover_do_def on_estop_def on_twist_def)

subsection \<open>The map\<close>

lemma clamp_index_range: "0 \<le> hi \<Longrightarrow> 0 \<le> clamp_index n hi \<and> clamp_index n hi \<le> hi"
  by (simp add: clamp_index_def)

lemma lround_some: "\<bar>x\<bar> \<le> 2 ^ 52 \<Longrightarrow> \<exists>n. f_lround (Fin x) = Some n"
proof -
  assume x: "\<bar>x\<bar> \<le> 2 ^ 52"
  have "x + 1 / 2 < of_int (2 ^ 63)" "- x + 1 / 2 < of_int (2 ^ 63)" "of_int (- (2 ^ 63)) \<le> x + 1 / 2" "of_int (- (2 ^ 63)) \<le> - x + 1 / 2"
    using x by (simp_all add: abs_le_iff)
  then have b: "\<lfloor>x + 1 / 2\<rfloor> < 2 ^ 63" "\<lfloor>- x + 1 / 2\<rfloor> < 2 ^ 63" "- (2 ^ 63) \<le> \<lfloor>x + 1 / 2\<rfloor>" "- (2 ^ 63) \<le> \<lfloor>- x + 1 / 2\<rfloor>"
    by (simp_all only: floor_less_iff le_floor_iff)
  show ?thesis
  proof (cases "0 \<le> x")
    case True
    then show ?thesis using b unfolding f_lround_def Let_def by simp
  next
    case False
    then have "0 \<le> \<lfloor>- x + 1 / 2\<rfloor>" by simp
    then have "- (2 ^ 63) \<le> - \<lfloor>- x + 1 / 2\<rfloor> \<and> - \<lfloor>- x + 1 / 2\<rfloor> < 2 ^ 63" using b(2) by linarith
    then show ?thesis using False unfolding f_lround_def Let_def by simp
  qed
qed

lemma map_cell_inside:
  assumes "bounded 20 x" "bounded 20 y"
  obtains col row where "map_cell x y = Some (col, row)" "0 \<le> col" "col < kMapWidth" "0 \<le> row" "row < kMapHeight"
proof -
  have small: "20 + 10 \<le> (2 :: int) ^ 52" "(30 :: int) \<le> 2 ^ 52" "30 * 40 \<le> (2 :: int) ^ 52" by simp_all
  have ten: "bounded 10 (Fin 10)" "bounded 20 (- y)" "bounded 40 (Fin 40)" "bounded 40 (Fin 20)" using assms(2) by (simp_all add: bounded_Fin)
  have "bounded (20 + 10) (x + Fin 10)" by (rule bounded_plus [OF assms(1) ten(1) small(1)])
  then have "bounded 30 (f_div (x + Fin 10) (Fin 20))" by (intro bounded_div) (simp_all add: small)
  then have c: "bounded (30 * 40) (f_div (x + Fin 10) (Fin 20) * Fin 40)" by (rule bounded_product [OF _ ten(3) small(3)])
  have "bounded (10 + 20) (Fin 10 - y)" unfolding minus_float64_def by (rule bounded_plus [OF ten(1,2)]) simp
  then have "bounded 30 (f_div (Fin 10 - y) (Fin 20))" by (intro bounded_div) (simp_all add: small)
  then have r: "bounded (30 * 40) (f_div (Fin 10 - y) (Fin 20) * Fin 20)" by (rule bounded_product [OF _ ten(4) small(3)])
  obtain p where p: "f_div (x + Fin 10) (Fin 20) * Fin 40 = Fin p" "\<bar>p\<bar> \<le> of_int (30 * 40)" by (rule boundedE [OF c])
  obtain q where q: "f_div (Fin 10 - y) (Fin 20) * Fin 20 = Fin q" "\<bar>q\<bar> \<le> of_int (30 * 40)" by (rule boundedE [OF r])
  from p(2) q(2) have "\<bar>p\<bar> \<le> 2 ^ 52" "\<bar>q\<bar> \<le> 2 ^ 52" by simp_all
  from this [THEN lround_some] obtain m n where mn: "f_lround (Fin p) = Some m" "f_lround (Fin q) = Some n" by blast
  have k: "f_of_int (kMapWidth - 1) = Fin 40" "f_of_int (kMapHeight - 1) = Fin 20" "Fin 2 * Fin 10 = Fin 20"
    using round64_int [of 40] round64_int [of 20] by (simp_all add: f_of_int_def kMapWidth_def kMapHeight_def)
  have "map_cell x y = Some (clamp_index (signed_take_bit 31 m) (kMapWidth - 1), clamp_index (signed_take_bit 31 n) (kMapHeight - 1))"
    unfolding map_cell_def Let_def k p(1) q(1) mn option.case ..
  then show ?thesis
    by (rule that) (use clamp_index_range in \<open>simp_all add: kMapWidth_def kMapHeight_def clamp_index_def\<close>)
qed

lemma fmod_range:
  assumes "0 < b"
  obtains r where "f_fmod (Fin a) (Fin b) = Fin r" "\<bar>r\<bar> \<le> b" "0 \<le> a \<longrightarrow> 0 \<le> r"
proof -
  let ?k = "if 0 \<le> a / b then \<lfloor>a / b\<rfloor> else \<lceil>a / b\<rceil>"
  have "\<bar>a / b - of_int ?k\<bar> \<le> 1" by (simp add: abs_le_iff) linarith
  then have "b * \<bar>a / b - of_int ?k\<bar> \<le> b * 1" using assms by (intro mult_left_mono) simp_all
  moreover have "b * \<bar>a / b - of_int ?k\<bar> = \<bar>a - b * of_int ?k\<bar>" using assms by (simp add: abs_mult_pos' right_diff_distrib)
  moreover have "0 \<le> a \<longrightarrow> 0 \<le> a - b * of_int ?k"
  proof
    assume "0 \<le> a"
    then have "0 \<le> a / b" using assms by simp
    then have "b * of_int ?k \<le> b * (a / b)" using assms by (intro mult_left_mono) simp_all
    then show "0 \<le> a - b * of_int ?k" using assms by simp
  qed
  ultimately show ?thesis using assms by (intro that [of "a - b * of_int ?k"]) (simp_all add: f_fmod_def)
qed

lemma smod_eight: "0 \<le> (a :: int) \<Longrightarrow> a smod 8 = a mod 8"
  by (simp add: signed_modulo_int_def signed_divide_int_def sgn_if minus_div_mult_eq_mod)

lemma HeadingGlyph_some:
  assumes "\<bar>x\<bar> \<le> 2 ^ 49"
  obtains g where "HeadingGlyph (Fin x) = Some g" "g \<in> {CHR ''>'', CHR ''/'', CHR ''^'', CHR 0x5C, CHR ''<'', CHR ''v''}"
proof -
  from angle_lemma [OF assms] obtain t where t: "NormalizeAngle (Fin x) = Some (Fin t)" "\<bar>t\<bar> \<le> pi_rat" by blast
  have "of_int 0 \<le> t + 2 * pi_rat" "t + 2 * pi_rat \<le> of_int 10" using t(2) pi_bounds by (simp_all add: abs_le_iff)
  from round64_int_bounds [OF this] obtain z where z: "Fin t + two_pi = Fin z" "0 \<le> z" by (auto simp: two_pi_eq)
  have pos: "0 < 2 * pi_rat" "0 < pi_rat / 4" using pi_bounds by simp_all
  obtain r where r: "f_fmod (Fin z) two_pi = Fin r" "0 \<le> r" "r \<le> 2 * pi_rat"
    using fmod_range [OF pos(1), of z] z(2) by (auto simp: two_pi_eq abs_le_iff)
  have q: "f_div kPi_angle (Fin 4) = Fin (pi_rat / 4)"
    using round64_multiple [of 884279719003555 "- 50"] by (simp add: kPi_angle_eq pow2_def pi_rat_def)
  have "of_int 0 \<le> r / (pi_rat / 4)" "r / (pi_rat / 4) \<le> of_int 8" using r pos by (simp_all add: divide_le_eq)
  from round64_int_bounds [OF this] obtain p where p: "f_div (Fin r) (Fin (pi_rat / 4)) = Fin p" "0 \<le> p" "p \<le> 8" using pos by auto
  have half: "round64 (1 / 2) = Fin (1 / 2)" using round64_multiple [of 1 "- 1"] by (simp add: pow2_def)
  have "of_int 0 \<le> p + 1 / 2" "p + 1 / 2 \<le> of_int 9" using p by simp_all
  from round64_int_bounds [OF this] obtain u where u: "Fin p + round64 (1 / 2) = Fin u" "0 \<le> u" "u \<le> 9" by (auto simp: half)
  then have f: "0 \<le> \<lfloor>u\<rfloor>" "\<lfloor>u\<rfloor> \<le> 9" by (simp_all add: floor_le_iff)
  define idx where "idx = nat (\<lfloor>u\<rfloor> smod 8)"
  have m: "\<lfloor>u\<rfloor> smod 8 = \<lfloor>u\<rfloor> mod 8" by (rule smod_eight [OF f(1)])
  have "HeadingGlyph (Fin x) = Some ([CHR ''>'', CHR ''/'', CHR ''^'', CHR 0x5C, CHR ''<'', CHR ''/'', CHR ''v'', CHR 0x5C] ! idx)"
    using f m by (simp add: HeadingGlyph_def t(1) z(1) r(1) q p(1) u(1) f_floor_def Let_def idx_def
      del: plus_float64.simps f_div.simps)
  moreover have "idx < 8" unfolding idx_def m by (simp add: nat_less_iff)
  then have "idx \<in> {0, 1, 2, 3, 4, 5, 6, 7}" by auto
  then have "[CHR ''>'', CHR ''/'', CHR ''^'', CHR 0x5C, CHR ''<'', CHR ''/'', CHR ''v'', CHR 0x5C] ! idx
    \<in> {CHR ''>'', CHR ''/'', CHR ''^'', CHR 0x5C, CHR ''<'', CHR ''v''}" by auto
  ultimately show ?thesis by (rule that)
qed

theorem map_shows_turtle:
  assumes "bounded 20 x" "bounded 20 y" "\<bar>t\<bar> \<le> 2 ^ 49"
  shows "\<exists>ls col row g. PrintAsciiMap x y (Fin t) = Some ls \<and> length ls = 24 \<and> map_cell x y = Some (int col, int row)
    \<and> col < 41 \<and> row < 21 \<and> HeadingGlyph (Fin t) = Some g \<and> ls ! (row + 2) ! (col + 1) = g
    \<and> (\<forall>l \<in> set (tl ls). length l = 43)"
proof -
  obtain col row where c: "map_cell x y = Some (col, row)" "0 \<le> col" "col < kMapWidth" "0 \<le> row" "row < kMapHeight"
    by (rule map_cell_inside [OF assms(1,2)])
  obtain g where g: "HeadingGlyph (Fin t) = Some g" using HeadingGlyph_some [OF assms(3)] by blast
  let ?line = "\<lambda>r. ''|'' @ map (map_char g col row r) [0..kMapWidth - 1] @ ''|''"
  let ?ls = "[[], map_border] @ map ?line [0..kMapHeight - 1] @ [map_border]"
  have ls: "PrintAsciiMap x y (Fin t) = Some ?ls" by (simp add: PrintAsciiMap_def c(1) g)
  have len: "length ?ls = 24" by (simp add: kMapHeight_def)
  have n: "nat row < 21" "nat col < 41" using c by (simp_all add: kMapHeight_def kMapWidth_def)
  have "?ls ! (nat row + 2) = ?line row" using c n by (simp add: nth_append kMapHeight_def)
  then have "?ls ! (nat row + 2) ! (nat col + 1) = g" using c n by (simp add: nth_append kMapWidth_def map_char_def)
  moreover have "\<forall>l \<in> set (tl ?ls). length l = 43" by (simp add: map_border_def kMapWidth_def)
  moreover have "map_cell x y = Some (int (nat col), int (nat row))" using c by simp
  ultimately show ?thesis using ls len n g by blast
qed

lemma map_shows_turtle_witness: "\<exists>ls. PrintAsciiMap (Fin 3) (Fin (- 2)) (Fin 1) = Some ls \<and> length ls = 24"
  using map_shows_turtle [of "Fin 3" "Fin (- 2)" 1] by (auto simp: bounded_def)

subsection \<open>The fallback of the link\<close>

lemma rt_Init_idle:
  assumes "rt_global rt = None"
  shows "rt_Init backend options rt =
    (let (ok, c) = Context_Init backend (new_Context options) in
      ((if ok then Inr () else Inl ''failed to initialize OpenEmber context''),
       rt\<lparr>rt_contexts := rt_contexts rt @ [c], rt_global := Some (length (rt_contexts rt))\<rparr>))"
  using assms by (simp add: rt_Init_def InitContextLocked_def rt_Ok_def)

lemma Context_Init_ok: "Context_Init backend c = (ok, c') \<Longrightarrow> cx_ok c' = ok"
  by (auto simp: Context_Init_def Let_def split: prod.splits)

lemma rt_Init_Ok: "rt_global rt = None \<Longrightarrow> rt_Init backend options rt = (r, rt') \<Longrightarrow> rt_Ok rt' \<longleftrightarrow> r = Inr ()"
  by (auto simp: rt_Init_idle rt_Ok_def dest: Context_Init_ok split: prod.splits if_splits)

theorem link_runs_or_reports:
  assumes "rt_global rt = None" "InitLink backend cli rt = (r, rt')"
  shows "(case r of Inl e \<Rightarrow> \<not> rt_Ok rt' \<and> (lc_mode cli = LinkMode_kAuto \<longrightarrow> isl (fst (InitRouter backend cli rt)))
          | Inr m \<Rightarrow> rt_Ok rt' \<and> m \<in> {''router'', ''client''}
              \<and> (lc_mode cli = LinkMode_kRouter \<longrightarrow> m = ''router'') \<and> (lc_mode cli = LinkMode_kClient \<longrightarrow> m = ''client''))"
proof -
  have idle: "rt_global (rt_Shutdown rt1) = None" for rt1 by (simp add: rt_Shutdown_def split: option.split)
  obtain a rt1 where a: "InitRouter backend cli rt = (a, rt1)" by fastforce
  then have r1: "rt_Ok rt1 \<longleftrightarrow> a = Inr ()" unfolding InitRouter_def by (rule rt_Init_Ok [OF assms(1)])
  obtain b rt2 where b: "InitClient backend cli rt = (b, rt2)" by fastforce
  then have r2: "rt_Ok rt2 \<longleftrightarrow> b = Inr ()" unfolding InitClient_def by (rule rt_Init_Ok [OF assms(1)])
  obtain d rt3 where d: "InitClient backend cli (rt_Shutdown rt1) = (d, rt3)" by fastforce
  then have r3: "rt_Ok rt3 \<longleftrightarrow> d = Inr ()" unfolding InitClient_def by (rule rt_Init_Ok [OF idle])
  show ?thesis
    using assms(2) a b d r1 r2 r3 by (cases "lc_mode cli"; cases a; cases b; cases d; force simp: InitLink_def)
qed

end
