(* ===== verification/Lpio_Device.thy ===== *)
theory Lpio_Device
  imports Sbus_Reader Osal_Io
begin

section \<open>Devices of platform/lpio: what they have in common (DeviceBase.hpp)\<close>

text \<open>
  A device is opened, used and closed; it owns descriptors while it is open. The kernel is that of \<open>Osal_Io\<close>: every system call may
  succeed or fail. Errors are exceptions with the number of the failed call, or with a condition of the library.
  The locale \<open>lpio_device\<close> is the contract of the base class, as far as descriptors go.
\<close>

subsection \<open>Errors and states\<close>

fun errno_number :: "errno \<Rightarrow> int" where
  "errno_number EAGAIN = 11" | "errno_number EINTR = 4" | "errno_number EINPROGRESS = 115" | "errno_number ENOENT = 2"
| "errno_number EBUSY = 16" | "errno_number ETIMEDOUT = 110" | "errno_number EDEADLK = 35" | "errno_number ENOMEM = 12"
| "errno_number EEXIST = 17" | "errno_number EINVAL = 22" | "errno_number ENOSYS = 38" | "errno_number ENOTSUP = 95"
| "errno_number EACCES = 13" | "errno_number EIO = 5"

definition throwErrno :: "errno \<Rightarrow> string \<Rightarrow> device_error + 'a" where
  "throwErrno e context_text = Inl (Device_errno (errno_number e) context_text)"

datatype DeviceState_lpio = Dev_Closed | Dev_Open | Dev_Error

definition requireOpen :: "DeviceState_lpio \<Rightarrow> string \<Rightarrow> device_error + unit" where
  "requireOpen st path = (if st = Dev_Open then Inr () else Inl (Device_not_open path))"

text \<open>A descriptor that is replaced, or given up with \<open>- 1\<close>, is closed.\<close>

definition reset_fd :: "int \<Rightarrow> int \<Rightarrow> kernel \<Rightarrow> int \<times> kernel" where
  "reset_fd fd new k = (new, close_if fd k)"

subsection \<open>Interrupted calls are repeated\<close>

lemma call_error_shorter: "sys_call k = (Inl e, k') \<Longrightarrow> e \<noteq> EIO \<Longrightarrow> length (k_outcomes k') < length (k_outcomes k)"
  by (auto simp: sys_call_def split: list.splits outcome.splits)

lemma read_error_shorter: "sys_read fd len k = (Inl e, k') \<Longrightarrow> e \<noteq> EIO \<Longrightarrow> length (k_outcomes k') < length (k_outcomes k)"
  by (auto simp: sys_read_def Let_def split: prod.splits sum.splits dest: call_error_shorter)

lemma write_error_shorter: "sys_write fd bs k = (Inl e, k') \<Longrightarrow> e \<noteq> EIO \<Longrightarrow> length (k_outcomes k') < length (k_outcomes k)"
  by (auto simp: sys_write_def Let_def split: prod.splits sum.splits dest: call_error_shorter)

function read_retry :: "int \<Rightarrow> nat \<Rightarrow> kernel \<Rightarrow> (errno + u8 list) \<times> kernel" where
  "read_retry fd len k =
     (case sys_read fd len k of
        (Inl e, k1) \<Rightarrow> if e = EINTR then read_retry fd len k1 else (Inl e, k1)
      | (Inr bs, k1) \<Rightarrow> (Inr bs, k1))"
  by pat_completeness auto
termination
  by (relation "measure (\<lambda>(fd, len, k). length (k_outcomes k))") (auto dest: read_error_shorter [OF sym])

declare read_retry.simps [simp del]

function write_retry :: "int \<Rightarrow> u8 list \<Rightarrow> kernel \<Rightarrow> (errno + nat) \<times> kernel" where
  "write_retry fd bs k =
     (case sys_write fd bs k of
        (Inl e, k1) \<Rightarrow> if e = EINTR then write_retry fd bs k1 else (Inl e, k1)
      | (Inr n, k1) \<Rightarrow> (Inr n, k1))"
  by pat_completeness auto
termination
  by (relation "measure (\<lambda>(fd, bs, k). length (k_outcomes k))") (auto dest: write_error_shorter [OF sym])

declare write_retry.simps [simp del]

lemma sys_read_open: "k_open (snd (sys_read fd len k)) = k_open k"
  by (auto simp: sys_read_def Let_def dest: sys_call_frame split: prod.splits sum.splits)

lemma sys_write_open: "k_open (snd (sys_write fd bs k)) = k_open k"
  by (auto simp: sys_write_def Let_def dest: sys_call_frame split: prod.splits sum.splits)

lemma read_retry_open: "k_open (snd (read_retry fd len k)) = k_open k"
proof (induction fd len k rule: read_retry.induct)
  case (1 fd len k)
  obtain r k1 where r: "sys_read fd len k = (r, k1)" by fastforce
  then have "k_open k1 = k_open k" using sys_read_open [of fd len k] by simp
  with 1 r show ?case by (subst read_retry.simps) (auto split: sum.splits)
qed

lemma write_retry_open: "k_open (snd (write_retry fd bs k)) = k_open k"
proof (induction fd bs k rule: write_retry.induct)
  case (1 fd bs k)
  obtain r k1 where r: "sys_write fd bs k = (r, k1)" by fastforce
  then have "k_open k1 = k_open k" using sys_write_open [of fd bs k] by simp
  with 1 r show ?case by (subst write_retry.simps) (auto split: sum.splits)
qed

text \<open>What is read is the next of what has come in; what is written is a prefix.\<close>

lemma read_retry_reads:
  "read_retry fd len k = (Inr bs, k') \<Longrightarrow> length bs \<le> len \<and> k_incoming k fd = bs @ k_incoming k' fd"
proof (induction fd len k rule: read_retry.induct)
  case (1 fd len k)
  obtain r k1 where r: "sys_read fd len k = (r, k1)" by fastforce
  show ?case
  proof (cases r)
    case (Inl e)
    with r have "k_incoming k1 = k_incoming k" using sys_read_ok(2) [of fd len k e] by simp
    with 1 r Inl show ?thesis by (auto simp: read_retry.simps [of fd len k] split: if_splits)
  next
    case (Inr cs)
    with r 1(2) have cs: "cs = bs" "k1 = k'" by (simp_all add: read_retry.simps [of fd len k])
    from sys_read_ok(1) [of fd len k cs] r Inr obtain m where "m \<le> len" "cs = take m (k_incoming k fd)" "k_incoming k1 fd = drop m (k_incoming k fd)"
      by auto
    with cs show ?thesis using append_take_drop_id [of m "k_incoming k fd"] by auto
  qed
qed

lemma read_retry_error: "read_retry fd len k = (Inl e, k') \<Longrightarrow> k_incoming k' = k_incoming k"
proof (induction fd len k rule: read_retry.induct)
  case (1 fd len k)
  obtain r k1 where r: "sys_read fd len k = (r, k1)" by fastforce
  show ?case
  proof (cases r)
    case (Inl d)
    with r have "k_incoming k1 = k_incoming k" using sys_read_ok(2) [of fd len k d] by simp
    with 1 r Inl show ?thesis by (auto simp: read_retry.simps [of fd len k] split: if_splits)
  next
    case (Inr cs)
    with r 1(2) show ?thesis by (simp add: read_retry.simps [of fd len k])
  qed
qed

subsection \<open>Reading and writing all of a buffer\<close>

text \<open>
  The loops of the base class over the virtual \<open>read\<close> and \<open>write\<close>. \<open>now\<close> has the times at which the clock is read; where a buffer
  is not filled and the deadline is never reached the loop does not end.
\<close>

partial_function (option) readExact ::
  "(nat \<Rightarrow> 's \<Rightarrow> (device_error + u8 list) \<times> 's) \<Rightarrow> nat \<Rightarrow> int \<Rightarrow> (nat \<Rightarrow> int) \<Rightarrow> nat \<Rightarrow> u8 list \<Rightarrow> 's \<Rightarrow> ((device_error + u8 list) \<times> 's) option" where
  "readExact rd len deadline now i got s =
     (if length got < len then
        if deadline \<le> now i then Some (Inl (Device_timeout ''readExact''), s)
        else (case rd (len - length got) s of
            (Inl e, s) \<Rightarrow> Some (Inl e, s)
          | (Inr bs, s) \<Rightarrow> readExact rd len deadline now (Suc i) (got @ bs) s)
      else Some (Inr got, s))"

partial_function (option) writeAll ::
  "(u8 list \<Rightarrow> 's \<Rightarrow> (device_error + nat) \<times> 's) \<Rightarrow> u8 list \<Rightarrow> int \<Rightarrow> (nat \<Rightarrow> int) \<Rightarrow> nat \<Rightarrow> nat \<Rightarrow> 's \<Rightarrow> ((device_error + nat) \<times> 's) option" where
  "writeAll wr buf deadline now i sent s =
     (if sent < length buf then
        if deadline \<le> now i then Some (Inl (Device_timeout ''writeAll''), s)
        else (case wr (drop sent buf) s of
            (Inl e, s) \<Rightarrow> Some (Inl e, s)
          | (Inr n, s) \<Rightarrow> writeAll wr buf deadline now (Suc i) (sent + n) s)
      else Some (Inr sent, s))"

lemma readExact_returns:
  assumes "deadline \<le> now j" "i \<le> j"
  shows "\<exists>r. readExact rd len deadline now i got s = Some r"
  using assms(2)
proof (induction "j - i" arbitrary: i got s)
  case 0
  with assms(1) show ?case by (simp add: readExact.simps)
next
  case (Suc n)
  obtain r s1 where r: "rd (len - length got) s = (r, s1)" by fastforce
  have "n = j - Suc i" "Suc i \<le> j" using Suc by auto
  from Suc.hyps(1) [OF this] show ?case by (subst readExact.simps) (auto simp: r split: sum.split)
qed

lemma writeAll_returns:
  assumes "deadline \<le> now j" "i \<le> j"
  shows "\<exists>r. writeAll wr buf deadline now i sent s = Some r"
  using assms(2)
proof (induction "j - i" arbitrary: i sent s)
  case 0
  with assms(1) show ?case by (simp add: writeAll.simps)
next
  case (Suc n)
  obtain r s1 where r: "wr (drop sent buf) s = (r, s1)" by fastforce
  have "n = j - Suc i" "Suc i \<le> j" using Suc by auto
  from Suc.hyps(1) [OF this] show ?case by (subst writeAll.simps) (auto simp: r split: sum.split)
qed

subsection \<open>The contract of a device\<close>

text \<open>
  \<open>held\<close> are the descriptors a device owns, \<open>fds\<close> those that are open in the program. An operation, opening and failing included,
  leaves the other descriptors of the program alone; only an open device holds any.
\<close>

fun dev_run :: "('op \<Rightarrow> 'd \<Rightarrow> 'w \<Rightarrow> 'd \<times> 'w) \<Rightarrow> 'op list \<Rightarrow> 'd \<Rightarrow> 'w \<Rightarrow> 'd \<times> 'w" where
  "dev_run step [] d w = (d, w)"
| "dev_run step (c # cs) d w = (case step c d w of (d, w) \<Rightarrow> dev_run step cs d w)"

locale lpio_device =
  fixes step :: "'op \<Rightarrow> 'd \<Rightarrow> 'w \<Rightarrow> 'd \<times> 'w"
    and dopen :: "'d \<Rightarrow> 'w \<Rightarrow> (device_error + unit) \<times> 'd \<times> 'w"
    and dclose :: "'d \<Rightarrow> 'w \<Rightarrow> 'd \<times> 'w"
    and dstate :: "'d \<Rightarrow> DeviceState_lpio"
    and held :: "'d \<Rightarrow> int list"
    and fds :: "'w \<Rightarrow> int list"
    and inv :: "'d \<Rightarrow> 'w \<Rightarrow> bool"
  assumes inv_held: "inv d w \<Longrightarrow> set (held d) \<subseteq> set (fds w)"
    and inv_closed: "inv d w \<Longrightarrow> dstate d \<noteq> Dev_Open \<Longrightarrow> held d = []"
    and step_inv: "inv d w \<Longrightarrow> step c d w = (d', w') \<Longrightarrow> inv d' w'"
    and step_others: "inv d w \<Longrightarrow> step c d w = (d', w') \<Longrightarrow> set (fds w') - set (held d') = set (fds w) - set (held d)"
    and open_opens: "inv d w \<Longrightarrow> dopen d w = (Inr (), d', w') \<Longrightarrow> dstate d' = Dev_Open"
    and open_fails: "inv d w \<Longrightarrow> dstate d \<noteq> Dev_Open \<Longrightarrow> dopen d w = (Inl e, d', w') \<Longrightarrow> dstate d' \<noteq> Dev_Open"
    and open_inv: "inv d w \<Longrightarrow> dopen d w = (r, d', w') \<Longrightarrow> inv d' w'"
    and open_others: "inv d w \<Longrightarrow> dopen d w = (r, d', w') \<Longrightarrow> set (fds w') - set (held d') = set (fds w) - set (held d)"
    and close_closes: "dclose d w = (d', w') \<Longrightarrow> dstate d' = Dev_Closed"
    and close_inv: "inv d w \<Longrightarrow> dclose d w = (d', w') \<Longrightarrow> inv d' w'"
    and close_others: "inv d w \<Longrightarrow> dclose d w = (d', w') \<Longrightarrow> set (fds w') - set (held d') = set (fds w) - set (held d)"
begin

lemma close_releases: "inv d w \<Longrightarrow> dclose d w = (d', w') \<Longrightarrow> set (fds w') = set (fds w) - set (held d)"
proof -
  assume d: "inv d w" and c: "dclose d w = (d', w')"
  have "held d' = []" by (rule inv_closed [OF close_inv [OF d c]]) (simp add: close_closes [OF c])
  then show ?thesis using close_others [OF d c] by simp
qed

lemma failed_open_restores:
  assumes "inv d w" "dstate d \<noteq> Dev_Open" "dopen d w = (Inl e, d', w')"
  shows "set (fds w') = set (fds w)"
proof -
  have "held d = []" "held d' = []" using assms open_inv [OF assms(1,3)] open_fails [OF assms] inv_closed by blast+
  then show ?thesis using open_others [OF assms(1,3)] by simp
qed

lemma dev_run_inv: "inv d w \<Longrightarrow> dev_run step cs d w = (d', w') \<Longrightarrow> inv d' w' \<and> set (fds w') - set (held d') = set (fds w) - set (held d)"
proof (induction cs arbitrary: d w)
  case (Cons c cs)
  obtain d1 w1 where s: "step c d w = (d1, w1)" by fastforce
  with Cons.prems have "dev_run step cs d1 w1 = (d', w')" by simp
  from Cons.IH [OF step_inv [OF Cons.prems(1) s] this] step_others [OF Cons.prems(1) s] show ?case by simp
qed simp

lemma session_leaks_nothing:
  assumes d: "inv d w" "dstate d \<noteq> Dev_Open" and cs: "dev_run step cs d w = (d1, w1)" and c: "dclose d1 w1 = (d', w')"
  shows "dstate d' = Dev_Closed \<and> held d' = [] \<and> set (fds w') = set (fds w)"
proof -
  have u: "inv d1 w1" "set (fds w1) - set (held d1) = set (fds w) - set (held d)" using dev_run_inv [OF d(1) cs] by auto
  have "dstate d' = Dev_Closed" by (rule close_closes [OF c])
  moreover have "held d' = []" by (rule inv_closed [OF close_inv [OF u(1) c]]) (simp add: calculation)
  ultimately show ?thesis using close_releases [OF u(1) c] u(2) inv_closed [OF d] by simp
qed

end

subsection \<open>Devices with one descriptor\<close>

text \<open>
  Most devices are one descriptor: opening an open device changes nothing, and the other operations (\<open>io\<close>) change neither the device nor
  the descriptors. Such a device keeps the contract.
\<close>

datatype 'op dev_op = Op_open | Op_close | Op_io 'op

fun dev_step ::
  "('d \<Rightarrow> 'w \<Rightarrow> (device_error + unit) \<times> 'd \<times> 'w) \<Rightarrow> ('d \<Rightarrow> 'w \<Rightarrow> 'd \<times> 'w) \<Rightarrow> ('op \<Rightarrow> 'd \<Rightarrow> 'w \<Rightarrow> 'w) \<Rightarrow> 'op dev_op \<Rightarrow> 'd \<Rightarrow> 'w \<Rightarrow> 'd \<times> 'w" where
  "dev_step dopen dclose io Op_open d w = snd (dopen d w)"
| "dev_step dopen dclose io Op_close d w = dclose d w"
| "dev_step dopen dclose io (Op_io c) d w = (d, io c d w)"

definition fd_held :: "('d \<Rightarrow> int) \<Rightarrow> 'd \<Rightarrow> int list" where
  "fd_held dfd d = (if 0 \<le> dfd d then [dfd d] else [])"

definition fd_inv :: "('d \<Rightarrow> DeviceState_lpio) \<Rightarrow> ('d \<Rightarrow> int) \<Rightarrow> ('w \<Rightarrow> int list) \<Rightarrow> 'd \<Rightarrow> 'w \<Rightarrow> bool" where
  "fd_inv dstate dfd fds d w = (if dstate d = Dev_Open then 0 \<le> dfd d \<and> dfd d \<in> set (fds w) else dfd d = - 1)"

definition opens_single :: "('d \<Rightarrow> DeviceState_lpio) \<Rightarrow> ('d \<Rightarrow> int) \<Rightarrow> ('w \<Rightarrow> int list) \<Rightarrow> 'w \<Rightarrow> (device_error + unit) \<times> 'd \<times> 'w \<Rightarrow> bool" where
  "opens_single dstate dfd fds w result = (case result of (r, d', w') \<Rightarrow>
     case r of
       Inl e \<Rightarrow> dstate d' \<noteq> Dev_Open \<and> dfd d' = - 1 \<and> set (fds w') = set (fds w)
     | Inr u \<Rightarrow> dstate d' = Dev_Open \<and> 0 \<le> dfd d' \<and> dfd d' \<notin> set (fds w) \<and> set (fds w') = insert (dfd d') (set (fds w)))"

locale single_fd_device =
  fixes io :: "'op \<Rightarrow> 'd \<Rightarrow> 'w \<Rightarrow> 'w"
    and dopen :: "'d \<Rightarrow> 'w \<Rightarrow> (device_error + unit) \<times> 'd \<times> 'w"
    and dclose :: "'d \<Rightarrow> 'w \<Rightarrow> 'd \<times> 'w"
    and dstate :: "'d \<Rightarrow> DeviceState_lpio"
    and dfd :: "'d \<Rightarrow> int"
    and fds :: "'w \<Rightarrow> int list"
  assumes open_again: "dstate d = Dev_Open \<Longrightarrow> dopen d w = (Inr (), d, w)"
    and open_result: "dstate d \<noteq> Dev_Open \<Longrightarrow> dfd d = - 1 \<Longrightarrow> opens_single dstate dfd fds w (dopen d w)"
    and close_result: "dclose d w = (d', w') \<Longrightarrow> dstate d' = Dev_Closed \<and> dfd d' = - 1 \<and> set (fds w') = set (fds w) - set (fd_held dfd d)"
    and io_keeps: "set (fds (io c d w)) = set (fds w)"
begin

lemma open_serves:
  assumes d: "fd_inv dstate dfd fds d w" and o: "dopen d w = (r, d', w')"
  shows "fd_inv dstate dfd fds d' w' \<and> set (fds w') - set (fd_held dfd d') = set (fds w) - set (fd_held dfd d)
    \<and> (r = Inr () \<longrightarrow> dstate d' = Dev_Open) \<and> (dstate d \<noteq> Dev_Open \<and> isl r \<longrightarrow> dstate d' \<noteq> Dev_Open)"
proof (cases "dstate d = Dev_Open")
  case True
  with open_again [OF True] o d show ?thesis by auto
next
  case False
  with d have fd: "dfd d = - 1" by (simp add: fd_inv_def)
  from open_result [OF False fd, of w] o have "opens_single dstate dfd fds w (r, d', w')" by simp
  then show ?thesis using fd by (cases r) (auto simp: opens_single_def fd_inv_def fd_held_def)
qed

lemma close_serves:
  assumes d: "fd_inv dstate dfd fds d w" and c: "dclose d w = (d', w')"
  shows "fd_inv dstate dfd fds d' w' \<and> set (fds w') - set (fd_held dfd d') = set (fds w) - set (fd_held dfd d)"
  using close_result [OF c] by (simp add: fd_inv_def fd_held_def)

lemma step_serves:
  assumes d: "fd_inv dstate dfd fds d w" and s: "dev_step dopen dclose io c d w = (d', w')"
  shows "fd_inv dstate dfd fds d' w' \<and> set (fds w') - set (fd_held dfd d') = set (fds w) - set (fd_held dfd d)"
proof (cases c)
  case Op_open
  then have "dopen d w = (fst (dopen d w), d', w')" using s by (metis dev_step.simps(1) prod.collapse)
  from open_serves [OF d this] show ?thesis by blast
next
  case Op_close
  with s have "dclose d w = (d', w')" by simp
  from close_serves [OF d this] show ?thesis .
next
  case (Op_io c)
  with s have "d' = d" "set (fds w') = set (fds w)" using io_keeps by auto
  then show ?thesis using d by (simp add: fd_inv_def)
qed

end

sublocale single_fd_device \<subseteq> dev: lpio_device "dev_step dopen dclose io" dopen dclose dstate "fd_held dfd" fds "fd_inv dstate dfd fds"
proof
  fix d d' w w' c r e
  show "dclose d w = (d', w') \<Longrightarrow> dstate d' = Dev_Closed" using close_result by blast
  assume d: "fd_inv dstate dfd fds d w"
  then show "set (fd_held dfd d) \<subseteq> set (fds w)" by (auto simp: fd_inv_def fd_held_def split: if_splits)
  show "dstate d \<noteq> Dev_Open \<Longrightarrow> fd_held dfd d = []" using d by (simp add: fd_inv_def fd_held_def)
  show "dev_step dopen dclose io c d w = (d', w') \<Longrightarrow> fd_inv dstate dfd fds d' w'"
    and "dev_step dopen dclose io c d w = (d', w') \<Longrightarrow> set (fds w') - set (fd_held dfd d') = set (fds w) - set (fd_held dfd d)"
    using step_serves [OF d] by blast+
  show "dopen d w = (Inr (), d', w') \<Longrightarrow> dstate d' = Dev_Open"
    and "dstate d \<noteq> Dev_Open \<Longrightarrow> dopen d w = (Inl e, d', w') \<Longrightarrow> dstate d' \<noteq> Dev_Open"
    and "dopen d w = (r, d', w') \<Longrightarrow> fd_inv dstate dfd fds d' w'"
    and "dopen d w = (r, d', w') \<Longrightarrow> set (fds w') - set (fd_held dfd d') = set (fds w) - set (fd_held dfd d)"
    using open_serves [OF d] by (fastforce simp: isl_def)+
  show "dclose d w = (d', w') \<Longrightarrow> fd_inv dstate dfd fds d' w'"
    and "dclose d w = (d', w') \<Longrightarrow> set (fds w') - set (fd_held dfd d') = set (fds w) - set (fd_held dfd d)"
    using close_serves [OF d] by blast+
qed

lemma close_if_open [simp]: "k_open (close_if fd k) = (if 0 \<le> fd then removeAll fd (k_open k) else k_open k)"
  by (simp add: close_if_def sys_close_def)

lemma close_held: "set (k_open (close_if (dfd d) k)) = set (k_open k) - set (fd_held dfd d)"
  by (simp add: fd_held_def)

end
