(* ===== verification/Lpio_Serial.thy ===== *)
theory Lpio_Serial
  imports Lpio_Device
begin

section \<open>Serial ports (platform/lpio/src/SerialPort.cpp, RS485.cpp)\<close>

text \<open>
  A serial port with its line settings, and the half-duplex variant that drives a transceiver. The terminal keeps the settings last
  accepted; the bits are those of the kernel's interface.
\<close>

subsection \<open>Line settings\<close>

record termios2 =
  c_iflag :: u32
  c_oflag :: u32
  c_cflag :: u32
  c_lflag :: u32
  c_ispeed :: u32
  c_ospeed :: u32

definition CS7 :: u32 where "CS7 = 0x20"
definition CS8 :: u32 where "CS8 = 0x30"
definition CSTOPB :: u32 where "CSTOPB = 0x40"
definition PARENB :: u32 where "PARENB = 0x100"
definition PARODD :: u32 where "PARODD = 0x200"
definition CBAUD :: u32 where "CBAUD = 0x100f"
definition BOTHER :: u32 where "BOTHER = 0x1000"

definition input_flags :: u32 where
  "input_flags = 0x1 OR 0x2 OR 0x8 OR 0x20 OR 0x40 OR 0x80 OR 0x100 OR 0x400 OR 0x1000 OR 0x800"

definition local_flags :: u32 where
  "local_flags = 0x8 OR 0x40 OR 0x2 OR 0x1 OR 0x8000"

definition baudToFlag :: "u32 \<Rightarrow> u32 option" where
  "baudToFlag baud =
     (if baud = 9600 then Some 0xd else if baud = 19200 then Some 0xe else if baud = 38400 then Some 0xf
      else if baud = 57600 then Some 0x1001 else if baud = 115200 then Some 0x1002 else if baud = 230400 then Some 0x1003
      else if baud = 460800 then Some 0x1004 else if baud = 921600 then Some 0x1007 else None)"

definition applyFrameFormat :: "SerialPortConfig \<Rightarrow> termios2 \<Rightarrow> termios2" where
  "applyFrameFormat cfg tio =
     (let c = c_cflag tio OR (0x800 OR 0x80);
          c = c AND NOT (0x30 OR PARENB OR PARODD OR CSTOPB);
          c = (if sp_dataBits cfg = 7 then c OR CS7 else c OR CS8);
          c = (if sp_stopBits cfg = 2 then c OR CSTOPB else c);
          c = (case sp_parity cfg of Parity_none \<Rightarrow> c | Parity_even \<Rightarrow> (c OR PARENB) AND NOT PARODD | Parity_odd \<Rightarrow> c OR (PARENB OR PARODD)) in
      tio\<lparr>c_iflag := c_iflag tio AND NOT input_flags, c_oflag := c_oflag tio AND NOT 1, c_lflag := c_lflag tio AND NOT local_flags,
          c_cflag := c\<rparr>)"

record serial_rs485 =
  rf_flags :: u32
  rf_delay_rts_before_send :: u32
  rf_delay_rts_after_send :: u32

record tty_world =
  tw_kernel :: kernel
  tw_tio :: termios2
  tw_rs485 :: serial_rs485

text \<open>One call without further effect on descriptors.\<close>

definition tty_call :: "tty_world \<Rightarrow> errno option \<times> tty_world" where
  "tty_call w = (case sys_call (tw_kernel w) of (Inl e, k) \<Rightarrow> (Some e, w\<lparr>tw_kernel := k\<rparr>) | (Inr n, k) \<Rightarrow> (None, w\<lparr>tw_kernel := k\<rparr>))"

definition speed_bits :: "u32 \<Rightarrow> u32" where
  "speed_bits baud = (case baudToFlag baud of Some speed \<Rightarrow> speed | None \<Rightarrow> BOTHER)"

definition applyLineSettings :: "SerialPortConfig \<Rightarrow> tty_world \<Rightarrow> (device_error + unit) \<times> tty_world" where
  "applyLineSettings cfg w =
     (if sp_baudRate cfg = 0 then (Inl (Device_errc ''invalid_argument'' ''baud rate must be non-zero''), w)
      else case tty_call w of
          (Some e, w) \<Rightarrow> (throwErrno e ''TCGETS2'', w)
        | (None, w) \<Rightarrow>
            let tio = applyFrameFormat cfg (tw_tio w);
                tio = tio\<lparr>c_cflag := (c_cflag tio AND NOT CBAUD) OR speed_bits (sp_baudRate cfg),
                  c_ispeed := sp_baudRate cfg, c_ospeed := sp_baudRate cfg\<rparr> in
            (case tty_call w of (Some e, w) \<Rightarrow> (throwErrno e ''TCSETS2'', w) | (None, w) \<Rightarrow> (Inr (), w\<lparr>tw_tio := tio\<rparr>)))"

subsection \<open>The port\<close>

definition default_SerialPortConfig :: SerialPortConfig where
  "default_SerialPortConfig = \<lparr>sp_baudRate = 115200, sp_dataBits = 8, sp_stopBits = 1, sp_parity = Parity_none, sp_nonBlocking = False\<rparr>"

record SerialPort =
  se_path :: string
  se_config :: SerialPortConfig
  se_state :: DeviceState_lpio
  se_fd :: int

definition new_SerialPort :: "string \<Rightarrow> SerialPortConfig \<Rightarrow> SerialPort" where
  "new_SerialPort path config = \<lparr>se_path = path, se_config = config, se_state = Dev_Closed, se_fd = - 1\<rparr>"

definition SerialPort_open :: "SerialPort \<Rightarrow> tty_world \<Rightarrow> (device_error + unit) \<times> SerialPort \<times> tty_world" where
  "SerialPort_open p w =
     (if se_state p = Dev_Open then (Inr (), p, w)
      else if se_path p = [] then (Inl (Device_errc ''invalid_argument'' ''serial path is empty''), p, w)
      else case sys_open (tw_kernel w) of
          (Inl e, k) \<Rightarrow> (throwErrno e (se_path p), p, w\<lparr>tw_kernel := k\<rparr>)
        | (Inr fd, k) \<Rightarrow>
            (case applyLineSettings (se_config p) (w\<lparr>tw_kernel := k\<rparr>) of
               (Inl e, w) \<Rightarrow> (Inl e, p, w\<lparr>tw_kernel := close_if fd (tw_kernel w)\<rparr>)
             | (Inr _, w) \<Rightarrow>
                 let w = (if sp_nonBlocking (se_config p) then w
                          else case tty_call w of (Some e, w) \<Rightarrow> w | (None, w) \<Rightarrow> snd (tty_call w));
                     (fd, k) = reset_fd (se_fd p) fd (tw_kernel w) in
                 (Inr (), p\<lparr>se_fd := fd, se_state := Dev_Open\<rparr>, w\<lparr>tw_kernel := k\<rparr>)))"

definition SerialPort_close :: "SerialPort \<Rightarrow> tty_world \<Rightarrow> SerialPort \<times> tty_world" where
  "SerialPort_close p w =
     (case reset_fd (se_fd p) (- 1) (tw_kernel w) of (fd, k) \<Rightarrow> (p\<lparr>se_fd := fd, se_state := Dev_Closed\<rparr>, w\<lparr>tw_kernel := k\<rparr>))"

definition SerialPort_read :: "nat \<Rightarrow> SerialPort \<Rightarrow> tty_world \<Rightarrow> (device_error + u8 list) \<times> tty_world" where
  "SerialPort_read len p w =
     (case requireOpen (se_state p) (se_path p) of Inl e \<Rightarrow> (Inl e, w)
      | Inr _ \<Rightarrow>
          if len = 0 then (Inr [], w)
          else (case read_retry (se_fd p) len (tw_kernel w) of
              (Inl e, k) \<Rightarrow> (if e = EAGAIN then Inr [] else throwErrno e ''serial read'', w\<lparr>tw_kernel := k\<rparr>)
            | (Inr bs, k) \<Rightarrow> (Inr bs, w\<lparr>tw_kernel := k\<rparr>)))"

definition SerialPort_write :: "u8 list \<Rightarrow> SerialPort \<Rightarrow> tty_world \<Rightarrow> (device_error + nat) \<times> tty_world" where
  "SerialPort_write bs p w =
     (case requireOpen (se_state p) (se_path p) of Inl e \<Rightarrow> (Inl e, w)
      | Inr _ \<Rightarrow>
          if bs = [] then (Inr 0, w)
          else (case write_retry (se_fd p) bs (tw_kernel w) of
              (Inl e, k) \<Rightarrow> (throwErrno e ''serial write'', w\<lparr>tw_kernel := k\<rparr>)
            | (Inr n, k) \<Rightarrow> (Inr n, w\<lparr>tw_kernel := k\<rparr>)))"

definition SerialPort_flush :: "SerialPort \<Rightarrow> tty_world \<Rightarrow> (device_error + unit) \<times> tty_world" where
  "SerialPort_flush p w =
     (case requireOpen (se_state p) (se_path p) of Inl e \<Rightarrow> (Inl e, w)
      | Inr _ \<Rightarrow> (case tty_call w of (Some e, w) \<Rightarrow> (throwErrno e ''TCFLSH'', w) | (None, w) \<Rightarrow> (Inr (), w)))"

text \<open>
  A moved-from port keeps nothing of its descriptor; what its path is then, is not specified. Moving into a port closes it first.
\<close>

definition moved_SerialPort :: "string \<Rightarrow> SerialPort \<Rightarrow> SerialPort" where
  "moved_SerialPort rest p = p\<lparr>se_path := rest, se_state := Dev_Closed, se_fd := - 1\<rparr>"

definition SerialPort_move_assign :: "string \<Rightarrow> SerialPort \<Rightarrow> SerialPort \<Rightarrow> tty_world \<Rightarrow> SerialPort \<times> SerialPort \<times> tty_world" where
  "SerialPort_move_assign rest p other w = (case SerialPort_close p w of (_, w) \<Rightarrow> (other, moved_SerialPort rest other, w))"

text \<open>The builder: a path with a configuration.\<close>

type_synonym SerialBuilder = "string \<times> SerialPortConfig"

definition serial_on :: "string \<Rightarrow> SerialBuilder" where "serial_on path = (path, default_SerialPortConfig)"
definition serial_baudRate :: "u32 \<Rightarrow> SerialBuilder \<Rightarrow> SerialBuilder" where "serial_baudRate rate = map_prod id (sp_baudRate_update (\<lambda>_. rate))"
definition serial_dataBits :: "u8 \<Rightarrow> SerialBuilder \<Rightarrow> SerialBuilder" where "serial_dataBits bits = map_prod id (sp_dataBits_update (\<lambda>_. bits))"
definition serial_stopBits :: "u8 \<Rightarrow> SerialBuilder \<Rightarrow> SerialBuilder" where "serial_stopBits bits = map_prod id (sp_stopBits_update (\<lambda>_. bits))"
definition serial_parity :: "parity \<Rightarrow> SerialBuilder \<Rightarrow> SerialBuilder" where "serial_parity p = map_prod id (sp_parity_update (\<lambda>_. p))"
definition serial_nonBlocking :: "bool \<Rightarrow> SerialBuilder \<Rightarrow> SerialBuilder" where "serial_nonBlocking enable = map_prod id (sp_nonBlocking_update (\<lambda>_. enable))"
definition serial_build :: "SerialBuilder \<Rightarrow> SerialPort" where "serial_build b = (case b of (path, cfg) \<Rightarrow> new_SerialPort path cfg)"
definition serial_build_open :: "SerialBuilder \<Rightarrow> tty_world \<Rightarrow> (device_error + unit) \<times> SerialPort \<times> tty_world" where
  "serial_build_open b = SerialPort_open (serial_build b)"

datatype serial_op = Se_read nat | Se_write "u8 list" | Se_flush

fun serial_io :: "serial_op \<Rightarrow> SerialPort \<Rightarrow> tty_world \<Rightarrow> tty_world" where
  "serial_io (Se_read len) p w = snd (SerialPort_read len p w)"
| "serial_io (Se_write bs) p w = snd (SerialPort_write bs p w)"
| "serial_io Se_flush p w = snd (SerialPort_flush p w)"

subsection \<open>RS485\<close>

datatype RS485Mode = RS485_Disabled | RS485_Enabled

record RS485Config =
  rc_mode :: RS485Mode
  rc_rtsOnSend :: bool
  rc_rtsAfterSend :: bool
  rc_delayRtsBeforeSendUs :: u32
  rc_delayRtsAfterSendUs :: u32

definition default_RS485Config :: RS485Config where
  "default_RS485Config =
     \<lparr>rc_mode = RS485_Enabled, rc_rtsOnSend = False, rc_rtsAfterSend = False, rc_delayRtsBeforeSendUs = 0, rc_delayRtsAfterSendUs = 0\<rparr>"

record RS485 =
  rs_port :: SerialPort
  rs_config :: RS485Config

text \<open>The kernel takes the delays in milliseconds.\<close>

definition rs485_settings :: "RS485Config \<Rightarrow> serial_rs485" where
  "rs485_settings cfg =
     \<lparr>rf_flags = 1 OR (if rc_rtsOnSend cfg then 2 else 0) OR (if rc_rtsAfterSend cfg then 4 else 0),
      rf_delay_rts_before_send = rc_delayRtsBeforeSendUs cfg, rf_delay_rts_after_send = rc_delayRtsAfterSendUs cfg\<rparr>"

definition applyRs485Settings :: "RS485 \<Rightarrow> tty_world \<Rightarrow> (device_error + unit) \<times> tty_world" where
  "applyRs485Settings r w =
     (if rc_mode (rs_config r) = RS485_Disabled then (Inr (), w)
      else case requireOpen (se_state (rs_port r)) (se_path (rs_port r)) of Inl e \<Rightarrow> (Inl e, w)
        | Inr _ \<Rightarrow> (case tty_call w of (Some e, w) \<Rightarrow> (throwErrno e ''TIOCSRS485'', w)
                  | (None, w) \<Rightarrow> (Inr (), w\<lparr>tw_rs485 := rs485_settings (rs_config r)\<rparr>)))"

definition RS485_open :: "RS485 \<Rightarrow> tty_world \<Rightarrow> (device_error + unit) \<times> RS485 \<times> tty_world" where
  "RS485_open r w =
     (let wasOpen = (se_state (rs_port r) = Dev_Open) in
      case SerialPort_open (rs_port r) w of
        (Inl e, p, w) \<Rightarrow> (Inl e, r\<lparr>rs_port := p\<rparr>, w)
      | (Inr _, p, w) \<Rightarrow>
          let r = r\<lparr>rs_port := p\<rparr> in
          (case applyRs485Settings r w of
             (Inl e, w) \<Rightarrow>
               if wasOpen then (Inl e, r, w)
               else (case SerialPort_close p w of (p, w) \<Rightarrow> (Inl e, r\<lparr>rs_port := p\<rparr>, w))
           | (Inr _, w) \<Rightarrow> (Inr (), r, w)))"

definition RS485_close :: "RS485 \<Rightarrow> tty_world \<Rightarrow> RS485 \<times> tty_world" where
  "RS485_close r w = (case SerialPort_close (rs_port r) w of (p, w) \<Rightarrow> (r\<lparr>rs_port := p\<rparr>, w))"

type_synonym RS485Builder = "string \<times> SerialPortConfig \<times> RS485Config"

definition rs485_on :: "string \<Rightarrow> RS485Builder" where "rs485_on path = (path, default_SerialPortConfig, default_RS485Config)"
definition rs485_serial :: "(SerialBuilder \<Rightarrow> SerialBuilder) \<Rightarrow> RS485Builder \<Rightarrow> RS485Builder" where
  "rs485_serial setter b = (case b of (path, cfg, rcfg) \<Rightarrow> case setter (path, cfg) of (path, cfg) \<Rightarrow> (path, cfg, rcfg))"
definition rs485_rs485 :: "RS485Config \<Rightarrow> RS485Builder \<Rightarrow> RS485Builder" where
  "rs485_rs485 c b = (case b of (path, cfg, _) \<Rightarrow> (path, cfg, c))"
definition rs485_build :: "RS485Builder \<Rightarrow> RS485" where
  "rs485_build b = (case b of (path, cfg, rcfg) \<Rightarrow> \<lparr>rs_port = new_SerialPort path cfg, rs_config = rcfg\<rparr>)"

text \<open>Reading, writing and flushing are those of the serial port.\<close>

definition rs485_io :: "serial_op \<Rightarrow> RS485 \<Rightarrow> tty_world \<Rightarrow> tty_world" where
  "rs485_io c r w = serial_io c (rs_port r) w"

subsection \<open>A port owns at most one descriptor\<close>

abbreviation tty_fds :: "tty_world \<Rightarrow> int list" where "tty_fds w \<equiv> k_open (tw_kernel w)"

lemma tty_call_frame: "tty_call w = (r, w') \<Longrightarrow> tty_fds w' = tty_fds w \<and> tw_tio w' = tw_tio w \<and> tw_rs485 w' = tw_rs485 w"
  by (auto simp: tty_call_def dest: sys_call_frame split: prod.splits sum.splits)

lemma tty_call_fds [simp]: "tty_fds (snd (tty_call w)) = tty_fds w"
  using tty_call_frame [of w] by (metis prod.collapse)

lemma applyLineSettings_fds: "applyLineSettings cfg w = (r, w') \<Longrightarrow> tty_fds w' = tty_fds w"
  by (auto simp: applyLineSettings_def Let_def throwErrno_def dest!: tty_call_frame split: if_splits prod.splits option.splits)

lemma SerialPort_read_fds [simp]: "tty_fds (snd (SerialPort_read len p w)) = tty_fds w"
  using read_retry_open [of "se_fd p" len "tw_kernel w"] by (auto simp: SerialPort_read_def split: sum.splits prod.splits)

lemma SerialPort_write_fds [simp]: "tty_fds (snd (SerialPort_write bs p w)) = tty_fds w"
  using write_retry_open [of "se_fd p" bs "tw_kernel w"] by (auto simp: SerialPort_write_def split: sum.splits prod.splits)

lemma SerialPort_flush_fds [simp]: "tty_fds (snd (SerialPort_flush p w)) = tty_fds w"
  by (auto simp: SerialPort_flush_def dest: tty_call_frame split: sum.splits prod.splits option.splits)

lemma SerialPort_open_result:
  assumes "se_state p \<noteq> Dev_Open" "se_fd p = - 1"
  shows "opens_single se_state se_fd tty_fds w (SerialPort_open p w)"
proof (cases "se_path p = []")
  case True
  with assms show ?thesis by (simp add: SerialPort_open_def opens_single_def)
next
  case False
  obtain a k where o: "sys_open (tw_kernel w) = (a, k)" by fastforce
  show ?thesis
  proof (rule sys_open_cases [OF o])
    fix e assume "a = Inl e" "k_open k = tty_fds w"
    with assms o False show ?thesis by (simp add: SerialPort_open_def throwErrno_def opens_single_def)
  next
    fix fd assume fd: "a = Inr fd" "k_open k = fd # tty_fds w" "fd \<notin> set (tty_fds w)" "0 \<le> fd"
    obtain b w1 where l: "applyLineSettings (se_config p) (w\<lparr>tw_kernel := k\<rparr>) = (b, w1)" by fastforce
    have w1: "tty_fds w1 = fd # tty_fds w" using applyLineSettings_fds [OF l] fd by simp
    show ?thesis
    proof (cases b)
      case (Inl e)
      with assms o False fd l w1 show ?thesis by (simp add: SerialPort_open_def opens_single_def)
    next
      case (Inr u)
      define w2 where "w2 = (if sp_nonBlocking (se_config p) then w1
        else case tty_call w1 of (Some e, w) \<Rightarrow> w | (None, w) \<Rightarrow> snd (tty_call w))"
      then have "tty_fds w2 = tty_fds w1" by (auto dest: tty_call_frame split: prod.splits option.splits)
      with assms o False fd l w1 Inr show ?thesis
        by (simp add: SerialPort_open_def Let_def reset_fd_def opens_single_def flip: w2_def)
    qed
  qed
qed

interpretation serial: single_fd_device serial_io SerialPort_open SerialPort_close se_state se_fd tty_fds
proof
  fix p p' :: SerialPort and w w' :: tty_world and c :: serial_op
  show "se_state p = Dev_Open \<Longrightarrow> SerialPort_open p w = (Inr (), p, w)" by (simp add: SerialPort_open_def)
  show "se_state p \<noteq> Dev_Open \<Longrightarrow> se_fd p = - 1 \<Longrightarrow> opens_single se_state se_fd tty_fds w (SerialPort_open p w)"
    by (rule SerialPort_open_result)
  show "SerialPort_close p w = (p', w') \<Longrightarrow> se_state p' = Dev_Closed \<and> se_fd p' = - 1 \<and> set (tty_fds w') = set (tty_fds w) - set (fd_held se_fd p)"
    by (simp add: SerialPort_close_def reset_fd_def flip: close_held del: close_if_open) (elim conjE; hypsubst; simp del: close_if_open)
  show "set (tty_fds (serial_io c p w)) = set (tty_fds w)" by (cases c) simp_all
qed

definition rs485_fd :: "RS485 \<Rightarrow> int" where "rs485_fd r = se_fd (rs_port r)"
definition rs485_state :: "RS485 \<Rightarrow> DeviceState_lpio" where "rs485_state r = se_state (rs_port r)"

lemma rs485_as_serial:
  "fd_held rs485_fd r = fd_held se_fd (rs_port r)" "fd_inv rs485_state rs485_fd tty_fds r w = fd_inv se_state se_fd tty_fds (rs_port r) w"
  by (simp_all add: rs485_fd_def rs485_state_def fd_held_def fd_inv_def)

lemma applyRs485Settings_fds: "applyRs485Settings r w = (a, w') \<Longrightarrow> tty_fds w' = tty_fds w"
  by (auto simp: applyRs485Settings_def throwErrno_def dest!: tty_call_frame split: if_splits sum.splits prod.splits option.splits)

lemma RS485_open_serves:
  assumes "fd_inv rs485_state rs485_fd tty_fds r w" "RS485_open r w = (a, r', w')"
  shows "fd_inv rs485_state rs485_fd tty_fds r' w' \<and> set (tty_fds w') - set (fd_held rs485_fd r') = set (tty_fds w) - set (fd_held rs485_fd r)"
proof -
  obtain b p w1 where o: "SerialPort_open (rs_port r) w = (b, p, w1)" by (metis prod_cases3)
  have s: "fd_inv se_state se_fd tty_fds (rs_port r) w" using assms(1) by (simp add: rs485_as_serial)
  note p1 = serial.dev.open_inv [OF s o] serial.dev.open_others [OF s o]
  show ?thesis
  proof (cases b)
    case (Inl e)
    have "r' = r\<lparr>rs_port := p\<rparr>" "w' = w1" using assms(2) by (simp_all add: RS485_open_def Let_def o Inl)
    then show ?thesis using p1 unfolding rs485_as_serial by simp
  next
    case (Inr u)
    obtain d w2 where d: "applyRs485Settings (r\<lparr>rs_port := p\<rparr>) w1 = (d, w2)" by fastforce
    have w2: "tty_fds w2 = tty_fds w1" by (rule applyRs485Settings_fds [OF d])
    then have p2: "fd_inv se_state se_fd tty_fds p w2" using p1(1) by (simp add: fd_inv_def)
    obtain p3 w3 where c: "SerialPort_close p w2 = (p3, w3)" by fastforce
    note p3 = serial.dev.close_inv [OF p2 c] serial.dev.close_others [OF p2 c]
    have "(r', w') = (r\<lparr>rs_port := p\<rparr>, w2) \<or> (r', w') = (r\<lparr>rs_port := p3\<rparr>, w3)"
      using assms(2) o d c Inr by (cases d) (simp_all add: RS485_open_def Let_def split: if_splits)
    then show ?thesis
    proof
      assume "(r', w') = (r\<lparr>rs_port := p\<rparr>, w2)"
      then show ?thesis using p1(2) p2 w2 by (simp add: rs485_as_serial)
    next
      assume "(r', w') = (r\<lparr>rs_port := p3\<rparr>, w3)"
      then show ?thesis using p1(2) p3 w2 by (simp add: rs485_as_serial)
    qed
  qed
qed

lemma RS485_open_state:
  assumes "fd_inv rs485_state rs485_fd tty_fds r w"
  shows "RS485_open r w = (Inr (), r', w') \<Longrightarrow> rs485_state r' = Dev_Open"
    and "rs485_state r \<noteq> Dev_Open \<Longrightarrow> RS485_open r w = (Inl e, r', w') \<Longrightarrow> rs485_state r' \<noteq> Dev_Open"
proof -
  have i: "fd_inv se_state se_fd tty_fds (rs_port r) w" using assms by (simp add: rs485_as_serial)
  obtain b p w1 where o: "SerialPort_open (rs_port r) w = (b, p, w1)" by (metis prod_cases3)
  obtain d w2 where d: "applyRs485Settings (r\<lparr>rs_port := p\<rparr>) w1 = (d, w2)" by fastforce
  obtain p3 w3 where c: "SerialPort_close p w2 = (p3, w3)" by fastforce
  have p3: "se_state p3 = Dev_Closed" by (rule serial.dev.close_closes [OF c])
  have f: "se_state (rs_port r) \<noteq> Dev_Open \<Longrightarrow> b = Inl e \<Longrightarrow> se_state p \<noteq> Dev_Open" for e using serial.dev.open_fails [OF i] o by blast
  have s: "b = Inr () \<Longrightarrow> se_state p = Dev_Open" using serial.dev.open_opens [OF i] o by blast
  show "RS485_open r w = (Inr (), r', w') \<Longrightarrow> rs485_state r' = Dev_Open"
    using o d c s by (cases b; cases d) (auto simp: RS485_open_def Let_def rs485_state_def split: if_splits)
  show "rs485_state r \<noteq> Dev_Open \<Longrightarrow> RS485_open r w = (Inl e, r', w') \<Longrightarrow> rs485_state r' \<noteq> Dev_Open"
    using o d c f p3 by (cases b; cases d) (auto simp: RS485_open_def Let_def rs485_state_def split: if_splits)
qed

lemma RS485_closeD: "RS485_close r w = (r', w') \<Longrightarrow> SerialPort_close (rs_port r) w = (rs_port r', w')"
  by (auto simp: RS485_close_def split: prod.splits)

lemma RS485_close_serves:
  assumes "fd_inv rs485_state rs485_fd tty_fds r w" "RS485_close r w = (r', w')"
  shows "fd_inv rs485_state rs485_fd tty_fds r' w' \<and> set (tty_fds w') - set (fd_held rs485_fd r') = set (tty_fds w) - set (fd_held rs485_fd r)"
  using serial.dev.close_inv [OF _ RS485_closeD [OF assms(2)]] serial.dev.close_others [OF _ RS485_closeD [OF assms(2)]] assms(1)
  by (simp add: rs485_as_serial)

text \<open>Opening again applies the settings again, so a transceiver is a device without being one that opens once.\<close>

interpretation rs485: lpio_device "dev_step RS485_open RS485_close rs485_io" RS485_open RS485_close rs485_state "fd_held rs485_fd" tty_fds
  "fd_inv rs485_state rs485_fd tty_fds"
proof
  fix r r' :: RS485 and w w' :: tty_world and c :: "serial_op dev_op" and a e
  show "RS485_close r w = (r', w') \<Longrightarrow> rs485_state r' = Dev_Closed"
    by (auto simp: rs485_state_def dest!: RS485_closeD dest: serial.dev.close_closes)
  assume r: "fd_inv rs485_state rs485_fd tty_fds r w"
  show "set (fd_held rs485_fd r) \<subseteq> set (tty_fds w)" using r serial.dev.inv_held by (simp add: rs485_as_serial)
  show "rs485_state r \<noteq> Dev_Open \<Longrightarrow> fd_held rs485_fd r = []" using r by (simp add: fd_inv_def fd_held_def)
  show "RS485_open r w = (Inr (), r', w') \<Longrightarrow> rs485_state r' = Dev_Open"
    and "rs485_state r \<noteq> Dev_Open \<Longrightarrow> RS485_open r w = (Inl e, r', w') \<Longrightarrow> rs485_state r' \<noteq> Dev_Open"
    using RS485_open_state [OF r] by blast+
  show "RS485_open r w = (a, r', w') \<Longrightarrow> fd_inv rs485_state rs485_fd tty_fds r' w'"
    and "RS485_open r w = (a, r', w') \<Longrightarrow> set (tty_fds w') - set (fd_held rs485_fd r') = set (tty_fds w) - set (fd_held rs485_fd r)"
    using RS485_open_serves [OF r] by blast+
  show "RS485_close r w = (r', w') \<Longrightarrow> fd_inv rs485_state rs485_fd tty_fds r' w'"
    and "RS485_close r w = (r', w') \<Longrightarrow> set (tty_fds w') - set (fd_held rs485_fd r') = set (tty_fds w) - set (fd_held rs485_fd r)"
    using RS485_close_serves [OF r] by blast+
  assume s: "dev_step RS485_open RS485_close rs485_io c r w = (r', w')"
  have "fd_inv rs485_state rs485_fd tty_fds r' w' \<and> set (tty_fds w') - set (fd_held rs485_fd r') = set (tty_fds w) - set (fd_held rs485_fd r)"
  proof (cases c)
    case Op_open
    then have "RS485_open r w = (fst (RS485_open r w), r', w')" using s by (metis prod.collapse dev_step.simps(1))
    from RS485_open_serves [OF r this] show ?thesis .
  next
    case Op_close
    with s have "RS485_close r w = (r', w')" by simp
    from RS485_close_serves [OF r this] show ?thesis .
  next
    case (Op_io d)
    with s have "r' = r" "w' = serial_io d (rs_port r) w" by (auto simp: rs485_io_def)
    with r serial.io_keeps [of d "rs_port r" w] show ?thesis by (simp add: fd_inv_def)
  qed
  then show "fd_inv rs485_state rs485_fd tty_fds r' w'" and "set (tty_fds w') - set (fd_held rs485_fd r') = set (tty_fds w) - set (fd_held rs485_fd r)"
    by blast+
qed

subsection \<open>What an opened port is set to\<close>

definition frame_mask :: u32 where "frame_mask = 0x370"

definition line_format :: "SerialPortConfig \<Rightarrow> u32" where
  "line_format cfg =
     (if sp_dataBits cfg = 7 then CS7 else CS8) OR (if sp_stopBits cfg = 2 then CSTOPB else 0)
     OR (case sp_parity cfg of Parity_none \<Rightarrow> 0 | Parity_even \<Rightarrow> PARENB | Parity_odd \<Rightarrow> PARENB OR PARODD)"

lemma word_masks: "(x OR y) AND m = (x AND m) OR (y AND m)" "(x AND NOT a) AND m = x AND (m AND NOT a)" for x y m a :: u32
  by (rule bit_word_eqI, auto simp: bit_simps)+

lemma frame_bits: "c_cflag (applyFrameFormat cfg tio) AND frame_mask = line_format cfg"
  by (cases "sp_parity cfg")
    (simp_all add: applyFrameFormat_def Let_def line_format_def word_masks and.assoc frame_mask_def CS7_def CS8_def CSTOPB_def PARENB_def PARODD_def)

lemma speed_in_mask: "speed_bits b AND CBAUD = speed_bits b" "speed_bits b AND frame_mask = 0"
  by (auto simp: speed_bits_def baudToFlag_def CBAUD_def BOTHER_def frame_mask_def)

lemma cleared: "(x AND NOT m) AND m = 0" for x m :: u32
  by (rule bit_word_eqI) (auto simp: bit_simps)

lemma mask_disjoint: "frame_mask AND NOT CBAUD = frame_mask" "CBAUD AND NOT CBAUD = 0"
  by (simp_all add: frame_mask_def CBAUD_def)

definition line_is_set :: "SerialPortConfig \<Rightarrow> termios2 \<Rightarrow> bool" where
  "line_is_set cfg tio =
     (c_cflag tio AND frame_mask = line_format cfg \<and> c_cflag tio AND CBAUD = speed_bits (sp_baudRate cfg)
      \<and> c_ispeed tio = sp_baudRate cfg \<and> c_ospeed tio = sp_baudRate cfg
      \<and> c_iflag tio AND input_flags = 0 \<and> c_oflag tio AND 1 = 0 \<and> c_lflag tio AND local_flags = 0)"

lemma applyLineSettings_sets: "applyLineSettings cfg w = (Inr u, w') \<Longrightarrow> line_is_set cfg (tw_tio w')"
proof -
  assume a: "applyLineSettings cfg w = (Inr u, w')"
  let ?f = "applyFrameFormat cfg (tw_tio w)"
  have "tw_tio w' = ?f\<lparr>c_cflag := (c_cflag ?f AND NOT CBAUD) OR speed_bits (sp_baudRate cfg),
      c_ispeed := sp_baudRate cfg, c_ospeed := sp_baudRate cfg\<rparr>"
    using a by (auto simp: applyLineSettings_def Let_def throwErrno_def dest!: tty_call_frame split: if_splits prod.splits option.splits)
  moreover have "c_iflag ?f AND input_flags = 0" "c_oflag ?f AND 1 = 0" "c_lflag ?f AND local_flags = 0"
    using cleared [of "c_oflag (tw_tio w)" 1] by (simp_all add: applyFrameFormat_def Let_def cleared)
  ultimately show ?thesis using frame_bits [of cfg "tw_tio w"] by (simp add: line_is_set_def word_masks mask_disjoint speed_in_mask)
qed

theorem opened_port_is_set:
  assumes "SerialPort_open p w = (Inr u, p', w')" "se_state p \<noteq> Dev_Open"
  shows "line_is_set (se_config p) (tw_tio w')"
proof -
  obtain a k where o: "sys_open (tw_kernel w) = (a, k)" by fastforce
  then obtain fd where fd: "a = Inr fd" using assms by (cases a) (auto simp: SerialPort_open_def throwErrno_def split: if_splits)
  obtain b w1 where l: "applyLineSettings (se_config p) (w\<lparr>tw_kernel := k\<rparr>) = (b, w1)" by fastforce
  then obtain v where v: "b = Inr v" using assms o fd by (cases b) (auto simp: SerialPort_open_def split: if_splits)
  have "tw_tio w' = tw_tio w1" using assms o fd l v
    by (auto simp: SerialPort_open_def Let_def reset_fd_def dest!: tty_call_frame split: if_splits prod.splits option.splits)
      (metis snd_conv tty_call_frame prod.collapse)+
  with applyLineSettings_sets l v show ?thesis by simp
qed

text \<open>Five and six data bits are set as eight.\<close>

lemma short_characters_become_long: "bits \<noteq> 7 \<Longrightarrow> line_format (cfg\<lparr>sp_dataBits := bits\<rparr>) = line_format (cfg\<lparr>sp_dataBits := 8\<rparr>)"
  by (simp add: line_format_def)

subsection \<open>Filling a buffer from a port\<close>

lemma SerialPort_read_reads:
  "SerialPort_read len p w = (Inr bs, w') \<Longrightarrow> length bs \<le> len \<and> k_incoming (tw_kernel w) (se_fd p) = bs @ k_incoming (tw_kernel w') (se_fd p)"
  by (auto simp: SerialPort_read_def throwErrno_def dest: read_retry_reads read_retry_error split: sum.splits prod.splits if_splits)

lemma readExact_reads:
  assumes "deadline \<le> now j" "i \<le> j" "length got \<le> len"
  shows "\<exists>r w'. readExact (\<lambda>n. SerialPort_read n p) len deadline now i got w = Some (r, w')
    \<and> (case r of Inl e \<Rightarrow> True
       | Inr out \<Rightarrow> length out = len \<and> (\<exists>bs. out = got @ bs \<and> k_incoming (tw_kernel w) (se_fd p) = bs @ k_incoming (tw_kernel w') (se_fd p)))"
  using assms(2,3)
proof (induction "j - i" arbitrary: i got w)
  case 0
  with assms(1) show ?case by (auto simp: readExact.simps)
next
  case (Suc n)
  obtain a w1 where a: "SerialPort_read (len - length got) p w = (a, w1)" by fastforce
  show ?case
  proof (cases "length got < len \<and> now i < deadline \<and> \<not> isl a")
    case False
    with Suc.prems show ?thesis by (subst readExact.simps) (auto simp: a not_less isl_def split: sum.splits)
  next
    case True
    then obtain cs where cs: "a = Inr cs" by (cases a) auto
    have c: "length cs \<le> len - length got" "k_incoming (tw_kernel w) (se_fd p) = cs @ k_incoming (tw_kernel w1) (se_fd p)"
      using SerialPort_read_reads [of "len - length got" p w cs w1] a cs by auto
    have le: "n = j - Suc i" "Suc i \<le> j" "length (got @ cs) \<le> len" using Suc c(1) True by auto
    have eq: "readExact (\<lambda>n. SerialPort_read n p) len deadline now i got w
        = readExact (\<lambda>n. SerialPort_read n p) len deadline now (Suc i) (got @ cs) w1"
      using True cs by (subst readExact.simps) (simp add: a)
    from Suc.hyps(1) [OF le] c(2) show ?thesis unfolding eq by (fastforce split: sum.splits)
  qed
qed

theorem port_fills_buffer:
  assumes "deadline \<le> now j"
  shows "\<exists>r w'. readExact (\<lambda>n. SerialPort_read n p) len deadline now 0 [] w = Some (r, w')
    \<and> (case r of Inl e \<Rightarrow> True | Inr out \<Rightarrow> length out = len \<and> k_incoming (tw_kernel w) (se_fd p) = out @ k_incoming (tw_kernel w') (se_fd p))"
  using readExact_reads [where now = now and i = 0 and got = "[]" and len = len and p = p and w = w, OF assms]
  unfolding append_Nil by (simp only: list.size le0 simp_thms ex_simps)

text \<open>A port that cannot be set is closed again, and after it is closed nothing of it remains, whatever was done with it.\<close>

theorem serial_ports_leak_nothing:
  assumes "dev_run (dev_step SerialPort_open SerialPort_close serial_io) cs (new_SerialPort path cfg) w = (p, w1)"
    "SerialPort_close p w1 = (p', w')"
  shows "se_state p' = Dev_Closed \<and> set (tty_fds w') = set (tty_fds w)"
  using serial.dev.session_leaks_nothing [OF _ _ assms] by (simp add: fd_inv_def new_SerialPort_def)

theorem transceivers_leak_nothing:
  assumes "dev_run (dev_step RS485_open RS485_close rs485_io) cs \<lparr>rs_port = new_SerialPort path cfg, rs_config = rcfg\<rparr> w = (r, w1)"
    "RS485_close r w1 = (r', w')"
  shows "rs485_state r' = Dev_Closed \<and> set (tty_fds w') = set (tty_fds w)"
  using rs485.session_leaks_nothing [OF _ _ assms] by (simp add: fd_inv_def new_SerialPort_def rs485_state_def rs485_fd_def)

end
