(* ===== verification/Lpio_Buses.thy ===== *)
theory Lpio_Buses
  imports Lpio_Device
begin

section \<open>CAN, I2C and SPI (platform/lpio/src/CANBus.cpp, I2CBus.cpp, SPIBus.cpp)\<close>

text \<open>
  Three buses behind file descriptors. What the other side of an I2C or SPI bus answers is an argument. A \<open>memcpy\<close> beyond an array is undefined
  behaviour: the result is \<open>None\<close> then. Where the code reports \<open>errno\<close> after a short transfer, which sets none, the number is an argument.
\<close>

subsection \<open>CAN\<close>

record CANFrame =
  cf_canId :: u32
  cf_dataLen :: u8
  cf_isExtended :: bool
  cf_isFd :: bool
  cf_data :: "u8 list"

definition default_CANFrame :: CANFrame where
  "default_CANFrame = \<lparr>cf_canId = 0, cf_dataLen = 0, cf_isExtended = False, cf_isFd = False, cf_data = replicate 64 0\<rparr>"

record CANBus =
  ca_ifname :: string
  ca_enableCanFd :: bool
  ca_state :: DeviceState_lpio
  ca_fd :: int
  ca_canFdEnabled :: bool

definition new_CANBus :: "string \<Rightarrow> bool \<Rightarrow> CANBus" where
  "new_CANBus ifname enableCanFd = \<lparr>ca_ifname = ifname, ca_enableCanFd = enableCanFd, ca_state = Dev_Closed, ca_fd = - 1, ca_canFdEnabled = False\<rparr>"

definition can_builder_canFd :: "bool \<Rightarrow> string \<times> bool \<Rightarrow> string \<times> bool" where
  "can_builder_canFd enable b = (fst b, enable)"

definition can_build :: "string \<times> bool \<Rightarrow> CANBus" where
  "can_build b = new_CANBus (fst b) (snd b)"

definition CANBus_open :: "(string \<Rightarrow> nat) \<Rightarrow> CANBus \<Rightarrow> kernel \<Rightarrow> (device_error + unit) \<times> CANBus \<times> kernel" where
  "CANBus_open ifindex c k =
     (if ca_state c = Dev_Open then (Inr (), c, k)
      else if ca_ifname c = [] then (Inl (Device_errc ''invalid_argument'' ''CAN interface name is empty''), c, k)
      else case sys_open k of
          (Inl e, k) \<Rightarrow> (throwErrno e ''socket(PF_CAN)'', c, k)
        | (Inr fd, k) \<Rightarrow>
            if ifindex (ca_ifname c) = 0 then (Inl (Device_errc ''invalid_argument'' (ca_ifname c)), c, close_if fd k)
            else (case sys_call k of
                (Inl e, k) \<Rightarrow> (throwErrno e ''bind CAN'', c, close_if fd k)
              | (Inr _, k) \<Rightarrow>
                  (case (if ca_enableCanFd c then sys_call k else (Inr 0, k)) of
                     (Inl e, k) \<Rightarrow> (Inl (Device_errc ''not_supported'' ''CAN FD''), c, close_if fd k)
                   | (Inr _, k) \<Rightarrow>
                       let (new, k) = reset_fd (ca_fd c) fd k in
                       (Inr (), c\<lparr>ca_canFdEnabled := ca_canFdEnabled c \<or> ca_enableCanFd c, ca_fd := new, ca_state := Dev_Open\<rparr>, k))))"

definition CANBus_close :: "CANBus \<Rightarrow> kernel \<Rightarrow> CANBus \<times> kernel" where
  "CANBus_close c k =
     (case reset_fd (ca_fd c) (- 1) k of (fd, k) \<Rightarrow> (c\<lparr>ca_fd := fd, ca_canFdEnabled := False, ca_state := Dev_Closed\<rparr>, k))"

definition can_read :: "device_error + nat" where
  "can_read = Inl (Device_errc ''operation_not_supported'' ''use recvFrame()'')"

definition can_write :: "device_error + nat" where
  "can_write = Inl (Device_errc ''operation_not_supported'' ''use sendFrame()'')"

definition CAN_EFF_FLAG :: u32 where "CAN_EFF_FLAG = 0x80000000"
definition CAN_EFF_MASK :: u32 where "CAN_EFF_MASK = 0x1FFFFFFF"

definition le32 :: "u32 \<Rightarrow> u8 list" where
  "le32 w = [ucast w, ucast (drop_bit 8 w), ucast (drop_bit 16 w), ucast (drop_bit 24 w)]"

definition from_le32 :: "u8 list \<Rightarrow> u32" where
  "from_le32 bs = ucast (bs ! 0) OR push_bit 8 (ucast (bs ! 1)) OR push_bit 16 (ucast (bs ! 2)) OR push_bit 24 (ucast (bs ! 3))"

text \<open>The frames of the kernel's interface: number, length, three bytes, data.\<close>

definition wire_frame :: "nat \<Rightarrow> u32 \<Rightarrow> u8 \<Rightarrow> u8 list \<Rightarrow> u8 list" where
  "wire_frame room canId len data_bytes = le32 canId @ [len, 0, 0, 0] @ data_bytes @ replicate (room - length data_bytes) 0"

definition sendFrame :: "int \<Rightarrow> CANFrame \<Rightarrow> CANBus \<Rightarrow> kernel \<Rightarrow> ((device_error + unit) \<times> kernel) option" where
  "sendFrame stale f c k =
     (case requireOpen (ca_state c) (ca_ifname c) of Inl e \<Rightarrow> Some (Inl e, k)
      | Inr _ \<Rightarrow>
          let canId = (if cf_isExtended f then cf_canId f OR CAN_EFF_FLAG else cf_canId f); len = unat (cf_dataLen f) in
          if cf_isFd f then
            if \<not> ca_canFdEnabled c then Some (Inl (Device_errc ''not_supported'' ''CAN FD not enabled''), k)
            else if 64 < len then None
            else (case sys_write (ca_fd c) (wire_frame 64 canId (cf_dataLen f) (take len (cf_data f))) k of
                (Inl e, k) \<Rightarrow> Some (throwErrno e ''CAN FD write'', k)
              | (Inr n, k) \<Rightarrow> Some (if n = 72 then Inr () else Inl (Device_errno stale ''CAN FD write''), k))
          else if 8 < len then Some (Inl (Device_errc ''invalid_argument'' ''classic CAN data len''), k)
          else (case sys_write (ca_fd c) (wire_frame 8 canId (cf_dataLen f) (take len (cf_data f))) k of
              (Inl e, k) \<Rightarrow> Some (throwErrno e ''CAN write'', k)
            | (Inr n, k) \<Rightarrow> Some (if n = 16 then Inr () else Inl (Device_errno stale ''CAN write''), k)))"

definition received_frame :: "bool \<Rightarrow> u8 list \<Rightarrow> CANFrame" where
  "received_frame isFd bs =
     (let canId = from_le32 (take 4 bs); len = bs ! 4 in
      \<lparr>cf_canId = canId AND CAN_EFF_MASK, cf_dataLen = len, cf_isExtended = (canId AND CAN_EFF_FLAG \<noteq> 0), cf_isFd = isFd,
       cf_data = take (unat len) (drop 8 bs) @ replicate (64 - unat len) 0\<rparr>)"

definition can_recvFrame :: "int \<Rightarrow> CANBus \<Rightarrow> kernel \<Rightarrow> ((device_error + CANFrame) \<times> kernel) option" where
  "can_recvFrame stale c k =
     (case requireOpen (ca_state c) (ca_ifname c) of Inl e \<Rightarrow> Some (Inl e, k)
      | Inr _ \<Rightarrow>
          (case sys_call k of
             (Inl e, k) \<Rightarrow> Some (throwErrno e ''CAN poll'', k)
           | (Inr rc, k) \<Rightarrow>
               if rc = 0 then Some (Inl (Device_timeout (ca_ifname c)), k)
               else (case sys_read (ca_fd c) 72 k of
                   (Inl e, k) \<Rightarrow> Some (throwErrno e ''CAN read'', k)
                 | (Inr bs, k) \<Rightarrow>
                     if length bs = 72 then if 64 < unat (bs ! 4) then None else Some (Inr (received_frame True bs), k)
                     else if length bs = 16 then if 8 < unat (bs ! 4) then None else Some (Inr (received_frame False bs), k)
                     else Some (Inl (Device_errno stale ''CAN read''), k))))"

subsection \<open>I2C\<close>

record I2CBus =
  ib_busNum :: u32
  ib_addr7bit :: u8
  ib_devPath :: string
  ib_state :: DeviceState_lpio
  ib_fd :: int

definition i2c_path :: "u32 \<Rightarrow> string" where
  "i2c_path busNum = ''/dev/i2c-'' @ to_string_nat (unat busNum)"

definition refreshDevPath :: "I2CBus \<Rightarrow> I2CBus" where
  "refreshDevPath b = b\<lparr>ib_devPath := i2c_path (ib_busNum b)\<rparr>"

definition new_I2CBus :: "u32 \<Rightarrow> u8 \<Rightarrow> I2CBus" where
  "new_I2CBus busNum addr7bit = refreshDevPath \<lparr>ib_busNum = busNum, ib_addr7bit = addr7bit, ib_devPath = [], ib_state = Dev_Closed, ib_fd = - 1\<rparr>"

definition I2CBus_open :: "I2CBus \<Rightarrow> kernel \<Rightarrow> (device_error + unit) \<times> I2CBus \<times> kernel" where
  "I2CBus_open b k =
     (if ib_state b = Dev_Open then (Inr (), b, k)
      else let b = refreshDevPath b in
        case sys_open k of
          (Inl e, k) \<Rightarrow> (throwErrno e (ib_devPath b), b, k)
        | (Inr fd, k) \<Rightarrow>
            (case sys_call k of
               (Inl e, k) \<Rightarrow> (throwErrno e ''I2C_SLAVE'', b, close_if fd k)
             | (Inr _, k) \<Rightarrow> let (new, k) = reset_fd (ib_fd b) fd k in (Inr (), b\<lparr>ib_fd := new, ib_state := Dev_Open\<rparr>, k)))"

definition I2CBus_close :: "I2CBus \<Rightarrow> kernel \<Rightarrow> I2CBus \<times> kernel" where
  "I2CBus_close b k = (case reset_fd (ib_fd b) (- 1) k of (fd, k) \<Rightarrow> (b\<lparr>ib_fd := fd, ib_state := Dev_Closed\<rparr>, k))"

definition i2c_read :: "nat \<Rightarrow> I2CBus \<Rightarrow> kernel \<Rightarrow> (device_error + u8 list) \<times> kernel" where
  "i2c_read len b k =
     (case requireOpen (ib_state b) (ib_devPath b) of Inl e \<Rightarrow> (Inl e, k)
      | Inr _ \<Rightarrow>
          if len = 0 then (Inr [], k)
          else (case read_retry (ib_fd b) len k of (Inl e, k) \<Rightarrow> (throwErrno e ''i2c read'', k) | (Inr bs, k) \<Rightarrow> (Inr bs, k)))"

definition i2c_write :: "u8 list \<Rightarrow> I2CBus \<Rightarrow> kernel \<Rightarrow> (device_error + nat) \<times> kernel" where
  "i2c_write bs b k =
     (case requireOpen (ib_state b) (ib_devPath b) of Inl e \<Rightarrow> (Inl e, k)
      | Inr _ \<Rightarrow>
          if bs = [] then (Inr 0, k)
          else (case write_retry (ib_fd b) bs k of (Inl e, k) \<Rightarrow> (throwErrno e ''i2c write'', k) | (Inr n, k) \<Rightarrow> (Inr n, k)))"

datatype i2c_msg = I2c_write_msg u16 "u8 list" | I2c_read_msg u16 nat

text \<open>
  The two messages of a combined transfer; their lengths have 16 bits. \<open>answer\<close> is what the addressed device answers to the bytes
  written to it.
\<close>

definition i2c_messages :: "u8 list \<Rightarrow> nat \<Rightarrow> I2CBus \<Rightarrow> i2c_msg list" where
  "i2c_messages wbuf rlen b =
     [I2c_write_msg (ucast (ib_addr7bit b)) (take (unat (of_nat (length wbuf) :: u16)) wbuf),
      I2c_read_msg (ucast (ib_addr7bit b)) (unat (of_nat rlen :: u16))]"

text \<open>The result: the count, the bytes that were put into the buffer, and the transfer on the bus.\<close>

definition writeRead ::
  "(u8 list \<Rightarrow> nat \<Rightarrow> u8 list) \<Rightarrow> u8 list \<Rightarrow> nat \<Rightarrow> I2CBus \<Rightarrow> kernel \<Rightarrow> (device_error + nat) \<times> u8 list \<times> i2c_msg list \<times> kernel" where
  "writeRead answer wbuf rlen b k =
     (case requireOpen (ib_state b) (ib_devPath b) of Inl e \<Rightarrow> (Inl e, [], [], k)
      | Inr _ \<Rightarrow>
          if wbuf = [] then
            (case i2c_read rlen b k of (Inl e, k) \<Rightarrow> (Inl e, [], [], k) | (Inr bs, k) \<Rightarrow> (Inr (length bs), bs, [], k))
          else if rlen = 0 then (case i2c_write wbuf b k of (r, k) \<Rightarrow> (r, [], [], k))
          else
            let sent = take (unat (of_nat (length wbuf) :: u16)) wbuf; n = unat (of_nat rlen :: u16) in
            (case sys_call k of
               (Inl e, k) \<Rightarrow> (throwErrno e ''I2C_RDWR'', [], [], k)
             | (Inr _, k) \<Rightarrow> (Inr rlen, take n (answer sent n), i2c_messages wbuf rlen b, k)))"

subsection \<open>SPI\<close>

record SPIBusConfig =
  sc_speedHz :: u32
  sc_mode :: u8
  sc_bitsPerWord :: u8
  sc_delayUsecs :: u16

definition default_SPIBusConfig :: SPIBusConfig where
  "default_SPIBusConfig = \<lparr>sc_speedHz = 1000000, sc_mode = 0, sc_bitsPerWord = 8, sc_delayUsecs = 0\<rparr>"

record SPIBus =
  si_devPath :: string
  si_config :: SPIBusConfig
  si_state :: DeviceState_lpio
  si_fd :: int

definition new_SPIBus :: "string \<Rightarrow> SPIBusConfig \<Rightarrow> SPIBus" where
  "new_SPIBus devPath config = \<lparr>si_devPath = devPath, si_config = config, si_state = Dev_Closed, si_fd = - 1\<rparr>"

text \<open>The controller: its kernel, the settings it has taken and the bytes that went out.\<close>

record spi_world =
  pw_kernel :: kernel
  pw_mode :: u8
  pw_bits :: u8
  pw_speed :: u32
  pw_sent :: "u8 list list"

definition spi_call :: "spi_world \<Rightarrow> errno option \<times> spi_world" where
  "spi_call w = (case sys_call (pw_kernel w) of (Inl e, k) \<Rightarrow> (Some e, w\<lparr>pw_kernel := k\<rparr>) | (Inr n, k) \<Rightarrow> (None, w\<lparr>pw_kernel := k\<rparr>))"

definition applySpiSettings :: "SPIBusConfig \<Rightarrow> spi_world \<Rightarrow> (device_error + unit) \<times> spi_world" where
  "applySpiSettings cfg w =
     (case spi_call w of (Some e, w) \<Rightarrow> (throwErrno e ''SPI_IOC_WR_MODE'', w)
      | (None, w) \<Rightarrow>
          let w = w\<lparr>pw_mode := sc_mode cfg\<rparr> in
          (case spi_call w of (Some e, w) \<Rightarrow> (throwErrno e ''SPI_IOC_WR_BITS_PER_WORD'', w)
           | (None, w) \<Rightarrow>
               let w = w\<lparr>pw_bits := sc_bitsPerWord cfg\<rparr> in
               (case spi_call w of (Some e, w) \<Rightarrow> (throwErrno e ''SPI_IOC_WR_MAX_SPEED_HZ'', w)
                | (None, w) \<Rightarrow> (Inr (), w\<lparr>pw_speed := sc_speedHz cfg\<rparr>))))"

text \<open>The descriptor is stored before the settings are applied.\<close>

definition SPIBus_open :: "SPIBus \<Rightarrow> spi_world \<Rightarrow> (device_error + unit) \<times> SPIBus \<times> spi_world" where
  "SPIBus_open b w =
     (if si_state b = Dev_Open then (Inr (), b, w)
      else if si_devPath b = [] then (Inl (Device_errc ''invalid_argument'' ''spi path is empty''), b, w)
      else case sys_open (pw_kernel w) of
          (Inl e, k) \<Rightarrow> (throwErrno e (si_devPath b), b, w\<lparr>pw_kernel := k\<rparr>)
        | (Inr fd, k) \<Rightarrow>
            let (new, k) = reset_fd (si_fd b) fd k; b = b\<lparr>si_fd := new\<rparr> in
            (case applySpiSettings (si_config b) (w\<lparr>pw_kernel := k\<rparr>) of
               (Inl e, w) \<Rightarrow>
                 let (new, k) = reset_fd (si_fd b) (- 1) (pw_kernel w) in (Inl e, b\<lparr>si_fd := new\<rparr>, w\<lparr>pw_kernel := k\<rparr>)
             | (Inr _, w) \<Rightarrow> (Inr (), b\<lparr>si_state := Dev_Open\<rparr>, w)))"

definition SPIBus_close :: "SPIBus \<Rightarrow> spi_world \<Rightarrow> SPIBus \<times> spi_world" where
  "SPIBus_close b w =
     (case reset_fd (si_fd b) (- 1) (pw_kernel w) of (fd, k) \<Rightarrow> (b\<lparr>si_fd := fd, si_state := Dev_Closed\<rparr>, w\<lparr>pw_kernel := k\<rparr>))"

text \<open>A transfer shifts bytes out and in at once; its length has 32 bits. The result is the count and the bytes received.\<close>

definition spi_transfer :: "(u8 list \<Rightarrow> u8 list) \<Rightarrow> u8 list \<Rightarrow> SPIBus \<Rightarrow> spi_world \<Rightarrow> (device_error + nat) \<times> u8 list \<times> spi_world" where
  "spi_transfer answer tx b w =
     (case requireOpen (si_state b) (si_devPath b) of Inl e \<Rightarrow> (Inl e, [], w)
      | Inr _ \<Rightarrow>
          if tx = [] then (Inr 0, [], w)
          else
            let out = take (unat (of_nat (length tx) :: u32)) tx in
            (case spi_call w of
               (Some e, w) \<Rightarrow> (throwErrno e ''SPI_IOC_MESSAGE'', [], w)
             | (None, w) \<Rightarrow> (Inr (length tx), take (length out) (answer out), w\<lparr>pw_sent := pw_sent w @ [out]\<rparr>)))"

definition spi_read :: "(u8 list \<Rightarrow> u8 list) \<Rightarrow> nat \<Rightarrow> SPIBus \<Rightarrow> spi_world \<Rightarrow> (device_error + nat) \<times> u8 list \<times> spi_world" where
  "spi_read answer len b w = spi_transfer answer (replicate len 0) b w"

definition spi_write :: "(u8 list \<Rightarrow> u8 list) \<Rightarrow> u8 list \<Rightarrow> SPIBus \<Rightarrow> spi_world \<Rightarrow> (device_error + nat) \<times> spi_world" where
  "spi_write answer bs b w = (case spi_transfer answer bs b w of (r, _, w) \<Rightarrow> (r, w))"

subsection \<open>The buses are devices with one descriptor\<close>

datatype can_op = Can_send int CANFrame | Can_recv int

definition after :: "'w \<Rightarrow> ('a \<times> 'w) option \<Rightarrow> 'w" where
  "after w r = (case r of None \<Rightarrow> w | Some (_, w') \<Rightarrow> w')"

fun can_io :: "can_op \<Rightarrow> CANBus \<Rightarrow> kernel \<Rightarrow> kernel" where
  "can_io (Can_send stale f) c k = after k (sendFrame stale f c k)"
| "can_io (Can_recv stale) c k = after k (can_recvFrame stale c k)"

lemma CANBus_open_result:
  assumes "ca_state c \<noteq> Dev_Open" "ca_fd c = - 1"
  shows "opens_single ca_state ca_fd k_open k (CANBus_open ifindex c k)"
proof (cases "ca_ifname c = []")
  case True
  with assms show ?thesis by (simp add: CANBus_open_def opens_single_def)
next
  case False
  obtain a k1 where o: "sys_open k = (a, k1)" by fastforce
  show ?thesis
  proof (rule sys_open_cases [OF o])
    fix e assume "a = Inl e" "k_open k1 = k_open k"
    with assms o False show ?thesis by (simp add: CANBus_open_def throwErrno_def opens_single_def)
  next
    fix fd assume fd: "a = Inr fd" "k_open k1 = fd # k_open k" "fd \<notin> set (k_open k)" "0 \<le> fd"
    obtain b k2 where b: "sys_call k1 = (b, k2)" by fastforce
    obtain d k3 where d: "(if ca_enableCanFd c then sys_call k2 else (Inr 0, k2)) = (d, k3)" by fastforce
    have k2: "k_open k2 = fd # k_open k" using sys_call_frame [OF b] fd by simp
    have k3: "k_open k3 = fd # k_open k" using d k2 by (auto dest: sys_call_frame split: if_splits)
    show ?thesis using assms o False fd b d k2 k3
      by (cases b; cases d) (simp_all add: CANBus_open_def throwErrno_def opens_single_def Let_def reset_fd_def close_if_def [of "- 1"])
  qed
qed

lemma sendFrame_fds: "k_open (after k (sendFrame stale f c k)) = k_open k"
proof -
  have w: "k_open k' = k_open k" if "sys_write fd bs k = (r, k')" for fd bs r k' using sys_write_open [of fd bs k] that by simp
  show ?thesis by (auto simp: sendFrame_def after_def Let_def dest: w split: sum.splits prod.splits option.splits if_splits)
qed

lemma recvFrame_fds: "k_open (after k (can_recvFrame stale c k)) = k_open k"
proof -
  have r: "k_open k2 = k_open k1" if "sys_read fd n k1 = (r, k2)" for fd n r k1 k2 using sys_read_open [of fd n k1] that by simp
  show ?thesis
    by (auto simp: can_recvFrame_def after_def throwErrno_def dest!: r sys_call_frame split: sum.splits prod.splits option.splits if_splits)
qed

interpretation can: single_fd_device can_io "CANBus_open ifindex" CANBus_close ca_state ca_fd k_open for ifindex
proof
  fix c c' :: CANBus and k k' :: kernel and p :: can_op
  show "ca_state c = Dev_Open \<Longrightarrow> CANBus_open ifindex c k = (Inr (), c, k)" by (simp add: CANBus_open_def)
  show "ca_state c \<noteq> Dev_Open \<Longrightarrow> ca_fd c = - 1 \<Longrightarrow> opens_single ca_state ca_fd k_open k (CANBus_open ifindex c k)"
    by (rule CANBus_open_result)
  show "CANBus_close c k = (c', k') \<Longrightarrow> ca_state c' = Dev_Closed \<and> ca_fd c' = - 1 \<and> set (k_open k') = set (k_open k) - set (fd_held ca_fd c)"
    using close_held [of ca_fd c k] by (auto simp: CANBus_close_def reset_fd_def simp del: close_if_open)
  show "set (k_open (can_io p c k)) = set (k_open k)" by (cases p) (simp_all add: sendFrame_fds recvFrame_fds)
qed

datatype i2c_op = I2c_read nat | I2c_write "u8 list" | I2c_writeRead "u8 list" nat

fun i2c_io :: "i2c_op \<Rightarrow> I2CBus \<Rightarrow> kernel \<Rightarrow> kernel" where
  "i2c_io (I2c_read len) b k = snd (i2c_read len b k)"
| "i2c_io (I2c_write bs) b k = snd (i2c_write bs b k)"
| "i2c_io (I2c_writeRead bs n) b k = snd (snd (snd (writeRead (\<lambda>_ _. []) bs n b k)))"

lemma I2CBus_open_result:
  assumes "ib_state b \<noteq> Dev_Open" "ib_fd b = - 1"
  shows "opens_single ib_state ib_fd k_open k (I2CBus_open b k)"
proof -
  have r: "ib_state (refreshDevPath b) = ib_state b" "ib_fd (refreshDevPath b) = ib_fd b" by (simp_all add: refreshDevPath_def)
  obtain a k1 where o: "sys_open k = (a, k1)" by fastforce
  show ?thesis
  proof (rule sys_open_cases [OF o])
    fix e assume "a = Inl e" "k_open k1 = k_open k"
    with assms o r show ?thesis by (simp add: I2CBus_open_def throwErrno_def opens_single_def Let_def)
  next
    fix fd assume fd: "a = Inr fd" "k_open k1 = fd # k_open k" "fd \<notin> set (k_open k)" "0 \<le> fd"
    obtain d k2 where d: "sys_call k1 = (d, k2)" by fastforce
    have k2: "k_open k2 = fd # k_open k" using sys_call_frame [OF d] fd by simp
    show ?thesis using assms o r fd d k2
      by (cases d) (simp_all add: I2CBus_open_def throwErrno_def opens_single_def Let_def reset_fd_def close_if_def [of "- 1"])
  qed
qed

lemma i2c_read_fds: "i2c_read len b k = (r, k') \<Longrightarrow> k_open k' = k_open k"
  using read_retry_open [of "ib_fd b" len k] by (auto simp: i2c_read_def throwErrno_def split: sum.splits prod.splits if_splits)

lemma i2c_write_fds: "i2c_write bs b k = (r, k') \<Longrightarrow> k_open k' = k_open k"
  using write_retry_open [of "ib_fd b" bs k] by (auto simp: i2c_write_def throwErrno_def split: sum.splits prod.splits if_splits)

lemma writeRead_fds: "writeRead answer bs n b k = (r, got, msgs, k') \<Longrightarrow> k_open k' = k_open k"
  by (auto simp: writeRead_def throwErrno_def Let_def dest: i2c_read_fds i2c_write_fds sys_call_frame split: sum.splits prod.splits if_splits)

interpretation i2c: single_fd_device i2c_io I2CBus_open I2CBus_close ib_state ib_fd k_open
proof
  fix b b' :: I2CBus and k k' :: kernel and p :: i2c_op
  show "ib_state b = Dev_Open \<Longrightarrow> I2CBus_open b k = (Inr (), b, k)" by (simp add: I2CBus_open_def)
  show "ib_state b \<noteq> Dev_Open \<Longrightarrow> ib_fd b = - 1 \<Longrightarrow> opens_single ib_state ib_fd k_open k (I2CBus_open b k)"
    by (rule I2CBus_open_result)
  show "I2CBus_close b k = (b', k') \<Longrightarrow> ib_state b' = Dev_Closed \<and> ib_fd b' = - 1 \<and> set (k_open k') = set (k_open k) - set (fd_held ib_fd b)"
    using close_held [of ib_fd b k] by (auto simp: I2CBus_close_def reset_fd_def simp del: close_if_open)
  have "k_open (i2c_io p b k) = k_open k"
    by (cases p) (simp_all, (metis i2c_read_fds i2c_write_fds writeRead_fds prod.collapse)+)
  then show "set (k_open (i2c_io p b k)) = set (k_open k)" by simp
qed

datatype spi_op = Spi_transfer "u8 list" | Spi_read nat | Spi_write "u8 list"

fun spi_io :: "(u8 list \<Rightarrow> u8 list) \<Rightarrow> spi_op \<Rightarrow> SPIBus \<Rightarrow> spi_world \<Rightarrow> spi_world" where
  "spi_io answer (Spi_transfer tx) b w = snd (snd (spi_transfer answer tx b w))"
| "spi_io answer (Spi_read n) b w = snd (snd (spi_read answer n b w))"
| "spi_io answer (Spi_write bs) b w = snd (spi_write answer bs b w)"

abbreviation spi_fds :: "spi_world \<Rightarrow> int list" where "spi_fds w \<equiv> k_open (pw_kernel w)"

lemma spi_call_fds: "spi_call w = (r, w') \<Longrightarrow> spi_fds w' = spi_fds w"
  by (auto simp: spi_call_def dest: sys_call_frame split: prod.splits sum.splits)

lemma applySpiSettings_fds: "applySpiSettings cfg w = (r, w') \<Longrightarrow> spi_fds w' = spi_fds w"
  by (auto simp: applySpiSettings_def throwErrno_def Let_def dest!: spi_call_fds split: prod.splits option.splits)

lemma spi_transfer_fds: "spi_transfer answer tx b w = (r, got, w') \<Longrightarrow> spi_fds w' = spi_fds w"
  by (auto simp: spi_transfer_def throwErrno_def Let_def dest!: spi_call_fds split: prod.splits sum.splits option.splits if_splits)

lemma SPIBus_open_result:
  assumes "si_state b \<noteq> Dev_Open" "si_fd b = - 1"
  shows "opens_single si_state si_fd spi_fds w (SPIBus_open b w)"
proof (cases "si_devPath b = []")
  case True
  with assms show ?thesis by (simp add: SPIBus_open_def opens_single_def)
next
  case False
  obtain a k1 where o: "sys_open (pw_kernel w) = (a, k1)" by fastforce
  show ?thesis
  proof (rule sys_open_cases [OF o])
    fix e assume "a = Inl e" "k_open k1 = spi_fds w"
    with assms o False show ?thesis by (simp add: SPIBus_open_def throwErrno_def opens_single_def)
  next
    fix fd assume fd: "a = Inr fd" "k_open k1 = fd # spi_fds w" "fd \<notin> set (spi_fds w)" "0 \<le> fd"
    obtain d w1 where d: "applySpiSettings (si_config b) (w\<lparr>pw_kernel := k1\<rparr>) = (d, w1)" by fastforce
    have w1: "spi_fds w1 = fd # spi_fds w" using applySpiSettings_fds [OF d] fd by simp
    show ?thesis using assms o False fd d w1
      by (cases d) (simp_all add: SPIBus_open_def opens_single_def Let_def reset_fd_def close_if_def [of "- 1"])
  qed
qed

interpretation spi: single_fd_device "spi_io answer" SPIBus_open SPIBus_close si_state si_fd spi_fds for answer
proof
  fix b b' :: SPIBus and w w' :: spi_world and p :: spi_op
  show "si_state b = Dev_Open \<Longrightarrow> SPIBus_open b w = (Inr (), b, w)" by (simp add: SPIBus_open_def)
  show "si_state b \<noteq> Dev_Open \<Longrightarrow> si_fd b = - 1 \<Longrightarrow> opens_single si_state si_fd spi_fds w (SPIBus_open b w)"
    by (rule SPIBus_open_result)
  show "SPIBus_close b w = (b', w') \<Longrightarrow> si_state b' = Dev_Closed \<and> si_fd b' = - 1 \<and> set (spi_fds w') = set (spi_fds w) - set (fd_held si_fd b)"
    by (simp add: SPIBus_close_def reset_fd_def flip: close_held del: close_if_open) (elim conjE; hypsubst; simp del: close_if_open)
  have t: "spi_fds (snd (snd (spi_transfer answer tx b w))) = spi_fds w" for tx
    using spi_transfer_fds [of answer tx b w] by (metis prod.collapse)
  show "set (spi_fds (spi_io answer p b w)) = set (spi_fds w)"
    by (cases p) (simp_all add: spi_read_def spi_write_def case_prod_beta t)
qed

text \<open>However they are used, and whatever fails, after they are closed no descriptor of theirs is open.\<close>

theorem buses_leak_nothing:
  shows "dev_run (dev_step (CANBus_open ifindex) CANBus_close can_io) cs (new_CANBus ifname fd_frames) k = (c, k1) \<Longrightarrow> CANBus_close c k1 = (c', k2) \<Longrightarrow>
      set (k_open k2) = set (k_open k)"
    and "dev_run (dev_step I2CBus_open I2CBus_close i2c_io) is (new_I2CBus busNum addr) k = (b, k1) \<Longrightarrow> I2CBus_close b k1 = (b', k2) \<Longrightarrow>
      set (k_open k2) = set (k_open k)"
    and "dev_run (dev_step SPIBus_open SPIBus_close (spi_io answer)) ss (new_SPIBus path cfg) w = (s, w1) \<Longrightarrow> SPIBus_close s w1 = (s', w2) \<Longrightarrow>
      set (spi_fds w2) = set (spi_fds w)"
  using can.dev.session_leaks_nothing [of "new_CANBus ifname fd_frames"] i2c.dev.session_leaks_nothing [of "new_I2CBus busNum addr"]
    spi.dev.session_leaks_nothing [of "new_SPIBus path cfg"]
  by (simp_all add: fd_inv_def new_CANBus_def new_I2CBus_def new_SPIBus_def refreshDevPath_def)

subsection \<open>Frames arrive as they were sent\<close>

lemma from_le32_le32: "from_le32 (le32 w) = w"
proof (rule bit_word_eqI)
  fix n assume "n < LENGTH(32)"
  then consider "n < 8" | "8 \<le> n" "n < 16" | "16 \<le> n" "n < 24" | "24 \<le> n" "n < 32" by fastforce
  then show "bit (from_le32 (le32 w)) n = bit w n"
    by cases (simp_all add: from_le32_def le32_def bit_simps, arith+)
qed

definition proper_frame :: "CANFrame \<Rightarrow> bool" where
  "proper_frame f =
     (length (cf_data f) = 64 \<and> cf_canId f AND CAN_EFF_MASK = cf_canId f \<and> unat (cf_dataLen f) \<le> (if cf_isFd f then 64 else 8)
      \<and> drop (unat (cf_dataLen f)) (cf_data f) = replicate (64 - unat (cf_dataLen f)) 0)"

definition frame_bytes :: "CANFrame \<Rightarrow> u8 list" where
  "frame_bytes f = wire_frame (if cf_isFd f then 64 else 8) (if cf_isExtended f then cf_canId f OR CAN_EFF_FLAG else cf_canId f) (cf_dataLen f)
     (take (unat (cf_dataLen f)) (cf_data f))"

lemma canId_masks:
  assumes "x AND CAN_EFF_MASK = x"
  shows "(x OR CAN_EFF_FLAG) AND CAN_EFF_MASK = x" "(x OR CAN_EFF_FLAG) AND CAN_EFF_FLAG = CAN_EFF_FLAG" "x AND CAN_EFF_FLAG = 0"
proof -
  have d: "CAN_EFF_FLAG AND CAN_EFF_MASK = 0" "CAN_EFF_MASK AND CAN_EFF_FLAG = 0" "CAN_EFF_FLAG AND CAN_EFF_FLAG = CAN_EFF_FLAG"
    by (simp_all add: CAN_EFF_FLAG_def CAN_EFF_MASK_def)
  have dist: "(a OR b) AND c = (a AND c) OR (b AND c)" for a b c :: u32 by (rule bit_word_eqI) (auto simp: bit_simps)
  show "(x OR CAN_EFF_FLAG) AND CAN_EFF_MASK = x" by (simp add: dist assms d)
  have z: "x AND CAN_EFF_FLAG = x AND (CAN_EFF_MASK AND CAN_EFF_FLAG)" using assms by (metis and.assoc)
  then show "x AND CAN_EFF_FLAG = 0" by (simp add: d)
  with d show "(x OR CAN_EFF_FLAG) AND CAN_EFF_FLAG = CAN_EFF_FLAG" by (simp add: dist)
qed

lemma frame_bytes_parts:
  assumes "proper_frame f"
  shows "length (frame_bytes f) = (if cf_isFd f then 72 else 16)" "frame_bytes f ! 4 = cf_dataLen f" "received_frame (cf_isFd f) (frame_bytes f) = f"
proof -
  let ?n = "unat (cf_dataLen f)"
  let ?id = "if cf_isExtended f then cf_canId f OR CAN_EFF_FLAG else cf_canId f"
  have n: "?n \<le> (if cf_isFd f then 64 else 8)" "length (cf_data f) = 64" using assms by (simp_all add: proper_frame_def)
  then have n64: "?n \<le> 64" by (simp split: if_splits)
  have len: "length (take ?n (cf_data f)) = ?n" using n n64 by simp
  have le: "length (le32 ?id) = 4" by (simp add: le32_def)
  show "length (frame_bytes f) = (if cf_isFd f then 72 else 16)" using n n64 by (simp add: frame_bytes_def wire_frame_def le32_def)
  show four: "frame_bytes f ! 4 = cf_dataLen f" by (simp add: frame_bytes_def wire_frame_def le32_def)
  have "take 4 (frame_bytes f) = le32 ?id" using le by (simp add: frame_bytes_def wire_frame_def)
  then have id: "from_le32 (take 4 (frame_bytes f)) = ?id" by (simp only: from_le32_le32)
  have d8: "drop 8 (frame_bytes f) = take ?n (cf_data f) @ replicate ((if cf_isFd f then 64 else 8) - ?n) 0"
    using len by (simp add: frame_bytes_def wire_frame_def le32_def)
  have data: "take ?n (drop 8 (frame_bytes f)) @ replicate (64 - ?n) 0 = cf_data f"
  proof -
    have "take ?n (drop 8 (frame_bytes f)) = take ?n (cf_data f)" unfolding d8 using len by simp
    moreover have "replicate (64 - ?n) 0 = drop ?n (cf_data f)" using assms by (simp add: proper_frame_def)
    ultimately show ?thesis by simp
  qed
  have m: "cf_canId f AND CAN_EFF_MASK = cf_canId f" using assms by (simp add: proper_frame_def)
  have "CAN_EFF_FLAG \<noteq> 0" by (simp add: CAN_EFF_FLAG_def)
  then have "?id AND CAN_EFF_MASK = cf_canId f" "(?id AND CAN_EFF_FLAG \<noteq> 0) = cf_isExtended f" using canId_masks [OF m] m by simp_all
  then show "received_frame (cf_isFd f) (frame_bytes f) = f" unfolding received_frame_def Let_def id four data by simp
qed

text \<open>C33:
  A frame that is well-formed (a number of 29 bits, at most 8 bytes, or 64 in the long format) is written to the bus in one piece, in
  the layout of the kernel, and a receiver that is given these bytes returns the same frame: number, format, length and data.
\<close>

theorem can_frames_round_trip:
  assumes f: "proper_frame f" and c: "ca_state c = Dev_Open" "cf_isFd f \<longrightarrow> ca_canFdEnabled c" and d: "ca_state d = Dev_Open"
    and k: "k_outcomes k = Ret n # os" "72 \<le> n" and j: "k_outcomes j = Ret 1 # Ret m # ps" "72 \<le> m" "k_incoming j (ca_fd d) = frame_bytes f"
  shows "\<exists>k' j'. sendFrame e f c k = Some (Inr (), k') \<and> k_written k' = k_written k @ [(ca_fd c, frame_bytes f)]
    \<and> can_recvFrame e' d j = Some (Inr f, j')"
proof -
  note parts = frame_bytes_parts [OF f]
  have n: "unat (cf_dataLen f) \<le> (if cf_isFd f then 64 else 8)" using f by (simp add: proper_frame_def)
  have w: "sys_write (ca_fd c) (frame_bytes f) k =
      (Inr (length (frame_bytes f)), k\<lparr>k_outcomes := os, k_written := k_written k @ [(ca_fd c, frame_bytes f)]\<rparr>)"
    using k parts(1) by (simp add: sys_write_def sys_call_def Let_def min_def)
  have s: "sendFrame e f c k = Some (Inr (), k\<lparr>k_outcomes := os, k_written := k_written k @ [(ca_fd c, frame_bytes f)]\<rparr>)"
    using w c n parts(1) by (simp add: sendFrame_def requireOpen_def frame_bytes_def Let_def split: if_splits)
  have r: "sys_read (ca_fd d) 72 (j\<lparr>k_outcomes := Ret m # ps\<rparr>) =
      (Inr (frame_bytes f), j\<lparr>k_outcomes := ps, k_incoming := (k_incoming j)(ca_fd d := [])\<rparr>)"
    using j parts(1) by (simp add: sys_read_def sys_call_def Let_def)
  have "can_recvFrame e' d j = Some (Inr f, j\<lparr>k_outcomes := ps, k_incoming := (k_incoming j)(ca_fd d := [])\<rparr>)"
    using r d j(1) n parts by (cases "cf_isFd f") (simp_all add: can_recvFrame_def requireOpen_def sys_call_def)
  with s show ?thesis by auto
qed

lemma can_frames_round_trip_witness:
  "\<exists>f c k j k' j'. cf_dataLen f = 2 \<and> cf_isExtended f \<and> sendFrame 0 f c k = Some (Inr (), k') \<and> can_recvFrame 0 c j = Some (Inr f, j')"
proof -
  let ?f = "\<lparr>cf_canId = 5, cf_dataLen = 2, cf_isExtended = True, cf_isFd = False, cf_data = [1, 2] @ replicate 62 0\<rparr>"
  let ?c = "(new_CANBus ''can0'' False)\<lparr>ca_state := Dev_Open, ca_fd := 3\<rparr>"
  let ?k = "\<lparr>k_open = [3], k_outcomes = [Ret 72], k_written = [], k_incoming = \<lambda>_. [], k_unlinked = []\<rparr>"
  let ?j = "\<lparr>k_open = [3], k_outcomes = [Ret 1, Ret 72], k_written = [], k_incoming = \<lambda>_. frame_bytes ?f, k_unlinked = []\<rparr>"
  have "proper_frame ?f" by (simp add: proper_frame_def CAN_EFF_MASK_def)
  from can_frames_round_trip [OF this, of ?c ?c ?k 72 "[]" ?j 72 "[]" 0 0]
  have "\<exists>k' j'. sendFrame 0 ?f ?c ?k = Some (Inr (), k') \<and> can_recvFrame 0 ?c ?j = Some (Inr ?f, j')" by auto
  then obtain k' j' where "sendFrame 0 ?f ?c ?k = Some (Inr (), k')" "can_recvFrame 0 ?c ?j = Some (Inr ?f, j')" by blast
  moreover have "cf_dataLen ?f = 2" "cf_isExtended ?f" by simp_all
  ultimately show ?thesis by blast
qed

text \<open>
  The length of a long frame is not checked when it is sent: more than 64 bytes are copied over the end of the frame. Of a number with
  more than 29 bits the upper ones are flags: a remote frame, say, arrives as a data frame of the same number.
\<close>

theorem long_frames_overflow:
  assumes "ca_state c = Dev_Open" "ca_canFdEnabled c" "cf_isFd f" "64 < cf_dataLen f"
  shows "sendFrame e f c k = None"
proof -
  have "64 < unat (cf_dataLen f)" using assms(4) by (simp add: word_less_nat_alt)
  then show ?thesis using assms(1-3) by (simp add: sendFrame_def requireOpen_def)
qed

lemma flags_are_lost: "cf_canId (received_frame fd bs) AND CAN_EFF_MASK = cf_canId (received_frame fd bs)"
  by (simp add: received_frame_def Let_def and.assoc)

subsection \<open>Combined transfers\<close>

theorem writeRead_exchanges:
  assumes "ib_state b = Dev_Open" "k_outcomes k = Ret n # os" "wbuf \<noteq> []" "length wbuf < 65536" "0 < rlen" "rlen < 65536"
    "\<And>sent m. length (answer sent m) = m"
  shows "writeRead answer wbuf rlen b k =
    (Inr rlen, answer wbuf rlen, [I2c_write_msg (ucast (ib_addr7bit b)) wbuf, I2c_read_msg (ucast (ib_addr7bit b)) rlen], k\<lparr>k_outcomes := os\<rparr>)"
proof -
  have "unat (of_nat (length wbuf) :: u16) = length wbuf" "unat (of_nat rlen :: u16) = rlen" using assms by (simp_all add: unat_of_nat)
  then show ?thesis using assms by (simp add: writeRead_def i2c_messages_def requireOpen_def sys_call_def Let_def)
qed

text \<open>Lengths are cut to 16 bits: a read of 65536 bytes reads none and reports them all.\<close>

theorem long_reads_read_nothing:
  assumes "ib_state b = Dev_Open" "k_outcomes k = Ret n # os" "wbuf \<noteq> []"
  shows "fst (writeRead answer wbuf 65536 b k) = Inr 65536 \<and> fst (snd (writeRead answer wbuf 65536 b k)) = []"
  using assms by (simp add: writeRead_def requireOpen_def sys_call_def Let_def)

end
