(* ===== verification/Lpio_Gpio.thy ===== *)
theory Lpio_Gpio
  imports Lpio_Device
begin

section \<open>GPIO lines (platform/lpio/src/GPIO.cpp)\<close>

text \<open>
  A device is one line of a chip: it owns a descriptor of the chip and one of the line. As the kernel documents it, a line that some
  descriptor holds cannot be requested again (\<open>EBUSY\<close>); an output keeps the value last set. Which lines are held, with which flags,
  and the value of each line are part of the world.
\<close>

datatype GPIODirection = Dir_Input | Dir_Output
datatype GPIOValue = Gpio_Low | Gpio_High
datatype GPIOEdge = Edge_None | Edge_Rising | Edge_Falling | Edge_Both
datatype GPIOBias = Bias_Disabled | Bias_PullUp | Bias_PullDown | Bias_AsIs
datatype GPIODrive = Drive_PushPull | Drive_OpenDrain | Drive_OpenSource

record GPIOConfig =
  gc_line :: u32
  gc_direction :: GPIODirection
  gc_initValue :: GPIOValue
  gc_bias :: GPIOBias
  gc_drive :: GPIODrive
  gc_activeLow :: bool
  gc_consumer :: string

definition default_GPIOConfig :: GPIOConfig where
  "default_GPIOConfig = \<lparr>gc_line = 0, gc_direction = Dir_Input, gc_initValue = Gpio_Low, gc_bias = Bias_Disabled, gc_drive = Drive_PushPull,
     gc_activeLow = False, gc_consumer = ''lpio''\<rparr>"

definition toHandleFlags :: "GPIOConfig \<Rightarrow> u32" where
  "toHandleFlags cfg =
     (case gc_direction cfg of Dir_Input \<Rightarrow> 1 | Dir_Output \<Rightarrow> 2)
     OR (case gc_drive cfg of Drive_OpenDrain \<Rightarrow> 8 | Drive_OpenSource \<Rightarrow> 16 | Drive_PushPull \<Rightarrow> 0)
     OR (if gc_activeLow cfg then 4 else 0)"

record GPIO =
  gp_chipPath :: string
  gp_config :: GPIOConfig
  gp_state :: DeviceState_lpio
  gp_chipFd :: int
  gp_lineFd :: int

definition new_GPIO :: "string \<Rightarrow> GPIOConfig \<Rightarrow> GPIO" where
  "new_GPIO chipPath config = \<lparr>gp_chipPath = chipPath, gp_config = config, gp_state = Dev_Closed, gp_chipFd = - 1, gp_lineFd = - 1\<rparr>"

record gpio_world =
  gw_kernel :: kernel
  gw_lines :: "(int \<times> u32 \<times> u32) list"
  gw_level :: "u32 \<Rightarrow> GPIOValue"

abbreviation gpio_fds :: "gpio_world \<Rightarrow> int list" where "gpio_fds w \<equiv> k_open (gw_kernel w)"

definition gpio_call :: "gpio_world \<Rightarrow> (errno + nat) \<times> gpio_world" where
  "gpio_call w = (case sys_call (gw_kernel w) of (r, k) \<Rightarrow> (r, w\<lparr>gw_kernel := k\<rparr>))"

text \<open>Closing a descriptor gives up the line it holds.\<close>

definition gpio_reset :: "int \<Rightarrow> gpio_world \<Rightarrow> gpio_world" where
  "gpio_reset fd w = (if 0 \<le> fd then w\<lparr>gw_kernel := sys_close fd (gw_kernel w), gw_lines := filter (\<lambda>l. fst l \<noteq> fd) (gw_lines w)\<rparr> else w)"

definition line_held :: "u32 \<Rightarrow> gpio_world \<Rightarrow> bool" where
  "line_held line w = list_ex (\<lambda>(fd, l, flags). l = line) (gw_lines w)"

definition request_line :: "u32 \<Rightarrow> u32 \<Rightarrow> gpio_world \<Rightarrow> (errno + int) \<times> gpio_world" where
  "request_line line flags w =
     (if line_held line w then (Inl EBUSY, w)
      else case sys_open (gw_kernel w) of
          (Inl e, k) \<Rightarrow> (Inl e, w\<lparr>gw_kernel := k\<rparr>)
        | (Inr fd, k) \<Rightarrow> (Inr fd, w\<lparr>gw_kernel := k, gw_lines := (fd, line, flags) # gw_lines w\<rparr>))"

definition dash :: string where "dash = [CHR 0x20, CHR 0xE2, CHR 0x80, CHR 0x94, CHR 0x20]"

definition requestLine :: "GPIOConfig \<Rightarrow> string \<Rightarrow> gpio_world \<Rightarrow> (device_error + int) \<times> gpio_world" where
  "requestLine config chipPath w =
     (case request_line (gc_line config) (toHandleFlags config) w of
        (Inl e, w) \<Rightarrow> (throwErrno e (''GPIO::requestLine'' @ dash @ chipPath), w)
      | (Inr fd, w) \<Rightarrow>
          (Inr fd, if gc_direction config = Dir_Output then w\<lparr>gw_level := (gw_level w)(gc_line config := gc_initValue config)\<rparr> else w))"

definition GPIO_open :: "GPIO \<Rightarrow> gpio_world \<Rightarrow> (device_error + unit) \<times> GPIO \<times> gpio_world" where
  "GPIO_open g w =
     (if gp_state g = Dev_Open then (Inr (), g, w)
      else case sys_open (gw_kernel w) of
          (Inl e, k) \<Rightarrow> (throwErrno e (''GPIO::open'' @ dash @ ''chip: '' @ gp_chipPath g), g, w\<lparr>gw_kernel := k\<rparr>)
        | (Inr chip, k) \<Rightarrow>
            (case requestLine (gp_config g) (gp_chipPath g) (w\<lparr>gw_kernel := k\<rparr>) of
               (Inl e, w) \<Rightarrow> (Inl e, g, gpio_reset chip w)
             | (Inr line, w) \<Rightarrow>
                 (Inr (), g\<lparr>gp_lineFd := line, gp_chipFd := chip, gp_state := Dev_Open\<rparr>, gpio_reset (gp_chipFd g) (gpio_reset (gp_lineFd g) w))))"

definition releaseLine :: "GPIO \<Rightarrow> gpio_world \<Rightarrow> GPIO \<times> gpio_world" where
  "releaseLine g w = (g\<lparr>gp_lineFd := - 1\<rparr>, gpio_reset (gp_lineFd g) w)"

definition GPIO_close :: "GPIO \<Rightarrow> gpio_world \<Rightarrow> GPIO \<times> gpio_world" where
  "GPIO_close g w =
     (case releaseLine g w of (g, w) \<Rightarrow> (g\<lparr>gp_chipFd := - 1, gp_state := Dev_Closed\<rparr>, gpio_reset (gp_chipFd g) w))"

definition gpio_read :: "device_error + nat" where
  "gpio_read = Inl (Device_errc ''operation_not_supported'' ''GPIO does not support byte-stream read(); use get()'')"

definition gpio_write :: "device_error + nat" where
  "gpio_write = Inl (Device_errc ''operation_not_supported'' ''GPIO does not support byte-stream write(); use set()'')"

definition gpio_get :: "GPIO \<Rightarrow> gpio_world \<Rightarrow> (device_error + GPIOValue) \<times> gpio_world" where
  "gpio_get g w =
     (case requireOpen (gp_state g) (gp_chipPath g) of Inl e \<Rightarrow> (Inl e, w)
      | Inr _ \<Rightarrow>
          (case gpio_call w of
             (Inl e, w) \<Rightarrow> (throwErrno e (''GPIO::get'' @ dash @ gp_chipPath g), w)
           | (Inr _, w) \<Rightarrow> (Inr (gw_level w (gc_line (gp_config g))), w)))"

definition gpio_set :: "GPIOValue \<Rightarrow> GPIO \<Rightarrow> gpio_world \<Rightarrow> (device_error + unit) \<times> gpio_world" where
  "gpio_set v g w =
     (case requireOpen (gp_state g) (gp_chipPath g) of Inl e \<Rightarrow> (Inl e, w)
      | Inr _ \<Rightarrow>
          if gc_direction (gp_config g) \<noteq> Dir_Output then
            (Inl (Device_errc ''invalid_argument'' (''GPIO::set called on Input pin: '' @ gp_chipPath g)), w)
          else (case gpio_call w of
              (Inl e, w) \<Rightarrow> (throwErrno e (''GPIO::set'' @ dash @ gp_chipPath g), w)
            | (Inr _, w) \<Rightarrow> (Inr (), w\<lparr>gw_level := (gw_level w)(gc_line (gp_config g) := v)\<rparr>)))"

definition gpio_toggle :: "GPIO \<Rightarrow> gpio_world \<Rightarrow> (device_error + unit) \<times> gpio_world" where
  "gpio_toggle g w =
     (case gpio_get g w of (Inl e, w) \<Rightarrow> (Inl e, w)
      | (Inr v, w) \<Rightarrow> gpio_set (if v = Gpio_High then Gpio_Low else Gpio_High) g w)"

text \<open>The line is given up before it is requested in the other direction; if that fails the device is closed.\<close>

definition setDirection :: "GPIODirection \<Rightarrow> GPIOValue \<Rightarrow> GPIO \<Rightarrow> gpio_world \<Rightarrow> (device_error + unit) \<times> GPIO \<times> gpio_world" where
  "setDirection dir initValue g w =
     (let next_config = (gp_config g)\<lparr>gc_direction := dir, gc_initValue := initValue\<rparr> in
      if gp_state g = Dev_Open then
        (case releaseLine g w of (g, w) \<Rightarrow>
           (case requestLine next_config (gp_chipPath g) w of
              (Inl e, w) \<Rightarrow> (case GPIO_close g w of (g, w) \<Rightarrow> (Inl e, g, w))
            | (Inr line, w) \<Rightarrow> (Inr (), g\<lparr>gp_lineFd := line, gp_config := next_config\<rparr>, w)))
      else (Inr (), g\<lparr>gp_config := next_config\<rparr>, w))"

text \<open>Waiting for an edge requests the line once more, for events. The event is its number, 1 for a rising edge.\<close>

definition waitForEdge :: "GPIOEdge \<Rightarrow> GPIO \<Rightarrow> gpio_world \<Rightarrow> (device_error + GPIOValue option) \<times> gpio_world" where
  "waitForEdge edge g w =
     (case requireOpen (gp_state g) (gp_chipPath g) of Inl e \<Rightarrow> (Inl e, w)
      | Inr _ \<Rightarrow>
          if gc_direction (gp_config g) \<noteq> Dir_Input then
            (Inl (Device_errc ''invalid_argument'' (''GPIO::waitForEdge called on Output pin: '' @ gp_chipPath g)), w)
          else if edge = Edge_None then (Inl (Device_errc ''invalid_argument'' ''GPIO::waitForEdge GPIOEdge::None''), w)
          else (case request_line (gc_line (gp_config g)) (toHandleFlags (gp_config g)) w of
              (Inl e, w) \<Rightarrow> (throwErrno e (''GPIO::waitForEdge'' @ dash @ gp_chipPath g), w)
            | (Inr event, w) \<Rightarrow>
                (case gpio_call w of
                   (Inl e, w) \<Rightarrow> (throwErrno e (''GPIO::waitForEdge poll'' @ dash @ gp_chipPath g), gpio_reset event w)
                 | (Inr ret, w) \<Rightarrow>
                     if ret = 0 then (Inr None, gpio_reset event w)
                     else (case gpio_call w of
                         (Inl e, w) \<Rightarrow> (throwErrno e (''GPIO::waitForEdge read'' @ dash @ gp_chipPath g), gpio_reset event w)
                       | (Inr event_id, w) \<Rightarrow> (Inr (Some (if event_id = 1 then Gpio_High else Gpio_Low)), gpio_reset event w)))))"

definition moved_GPIO :: "string \<Rightarrow> GPIO \<Rightarrow> GPIO" where
  "moved_GPIO rest g = g\<lparr>gp_chipPath := rest, gp_state := Dev_Closed, gp_chipFd := - 1, gp_lineFd := - 1\<rparr>"

definition GPIO_move_assign :: "string \<Rightarrow> GPIO \<Rightarrow> GPIO \<Rightarrow> gpio_world \<Rightarrow> GPIO \<times> GPIO \<times> gpio_world" where
  "GPIO_move_assign rest g other w = (case GPIO_close g w of (_, w) \<Rightarrow> (other, moved_GPIO rest other, w))"

type_synonym GPIOBuilder = "string \<times> GPIOConfig"

definition gpio_on :: "string \<Rightarrow> GPIOBuilder" where "gpio_on chipPath = (chipPath, default_GPIOConfig)"
definition gpio_line :: "u32 \<Rightarrow> GPIOBuilder \<Rightarrow> GPIOBuilder" where "gpio_line l = map_prod id (gc_line_update (\<lambda>_. l))"
definition gpio_direction :: "GPIODirection \<Rightarrow> GPIOBuilder \<Rightarrow> GPIOBuilder" where "gpio_direction d = map_prod id (gc_direction_update (\<lambda>_. d))"
definition gpio_initValue :: "GPIOValue \<Rightarrow> GPIOBuilder \<Rightarrow> GPIOBuilder" where "gpio_initValue v = map_prod id (gc_initValue_update (\<lambda>_. v))"
definition gpio_bias :: "GPIOBias \<Rightarrow> GPIOBuilder \<Rightarrow> GPIOBuilder" where "gpio_bias b = map_prod id (gc_bias_update (\<lambda>_. b))"
definition gpio_drive :: "GPIODrive \<Rightarrow> GPIOBuilder \<Rightarrow> GPIOBuilder" where "gpio_drive d = map_prod id (gc_drive_update (\<lambda>_. d))"
definition gpio_activeLow :: "bool \<Rightarrow> GPIOBuilder \<Rightarrow> GPIOBuilder" where "gpio_activeLow b = map_prod id (gc_activeLow_update (\<lambda>_. b))"
definition gpio_consumer :: "string \<Rightarrow> GPIOBuilder \<Rightarrow> GPIOBuilder" where "gpio_consumer n = map_prod id (gc_consumer_update (\<lambda>_. n))"
definition gpio_build :: "GPIOBuilder \<Rightarrow> GPIO" where "gpio_build b = new_GPIO (fst b) (snd b)"

datatype gpio_op =
  Gp_open | Gp_close | Gp_get | Gp_set GPIOValue | Gp_toggle | Gp_setDirection GPIODirection GPIOValue | Gp_waitForEdge GPIOEdge

fun gpio_do :: "gpio_op \<Rightarrow> GPIO \<Rightarrow> gpio_world \<Rightarrow> GPIO \<times> gpio_world" where
  "gpio_do Gp_open g w = snd (GPIO_open g w)"
| "gpio_do Gp_close g w = GPIO_close g w"
| "gpio_do Gp_get g w = (g, snd (gpio_get g w))"
| "gpio_do (Gp_set v) g w = (g, snd (gpio_set v g w))"
| "gpio_do Gp_toggle g w = (g, snd (gpio_toggle g w))"
| "gpio_do (Gp_setDirection d v) g w = snd (setDirection d v g w)"
| "gpio_do (Gp_waitForEdge e) g w = (g, snd (waitForEdge e g w))"

subsection \<open>Chip and line are held together\<close>

definition lines_open :: "gpio_world \<Rightarrow> bool" where
  "lines_open w = list_all (\<lambda>l. fst l \<in> set (gpio_fds w)) (gw_lines w)"

definition gpio_held :: "GPIO \<Rightarrow> int list" where
  "gpio_held g = filter (\<lambda>fd. 0 \<le> fd) [gp_lineFd g, gp_chipFd g]"

definition gpio_inv :: "GPIO \<Rightarrow> gpio_world \<Rightarrow> bool" where
  "gpio_inv g w =
     (lines_open w \<and>
      (if gp_state g = Dev_Open then
         0 \<le> gp_chipFd g \<and> 0 \<le> gp_lineFd g \<and> gp_chipFd g \<noteq> gp_lineFd g \<and> gp_chipFd g \<in> set (gpio_fds w) \<and> gp_lineFd g \<in> set (gpio_fds w)
         \<and> (gp_lineFd g, gc_line (gp_config g), toHandleFlags (gp_config g)) \<in> set (gw_lines w)
       else gp_chipFd g = - 1 \<and> gp_lineFd g = - 1))"

text \<open>The operations on values leave descriptors and lines alone.\<close>

definition same_lines :: "gpio_world \<Rightarrow> gpio_world \<Rightarrow> bool" where
  "same_lines w w' = (set (gpio_fds w') = set (gpio_fds w) \<and> gw_lines w' = gw_lines w)"

lemma gpio_call_frame: "gpio_call w = (r, w') \<Longrightarrow> gpio_fds w' = gpio_fds w \<and> gw_lines w' = gw_lines w \<and> gw_level w' = gw_level w"
  by (auto simp: gpio_call_def dest: sys_call_frame split: prod.splits)

lemma gpio_get_same: "gpio_get g w = (r, w') \<Longrightarrow> same_lines w w' \<and> gw_level w' = gw_level w"
  by (auto simp: gpio_get_def same_lines_def throwErrno_def dest!: gpio_call_frame split: sum.splits prod.splits)

lemma gpio_set_same: "gpio_set v g w = (r, w') \<Longrightarrow> same_lines w w'"
  by (auto simp: gpio_set_def same_lines_def throwErrno_def dest!: gpio_call_frame split: sum.splits prod.splits if_splits)

lemma gpio_toggle_same: "gpio_toggle g w = (r, w') \<Longrightarrow> same_lines w w'"
  by (auto simp: gpio_toggle_def same_lines_def dest!: gpio_get_same [unfolded same_lines_def] gpio_set_same [unfolded same_lines_def]
      split: sum.splits prod.splits)

lemma request_cases:
  assumes "request_line line flags w = (r, w')" "lines_open w"
  obtains e where "r = Inl e" "gpio_fds w' = gpio_fds w" "gw_lines w' = gw_lines w" "gw_level w' = gw_level w"
  | fd where "r = Inr fd" "gpio_fds w' = fd # gpio_fds w" "gw_lines w' = (fd, line, flags) # gw_lines w" "gw_level w' = gw_level w"
      "0 \<le> fd" "fd \<notin> set (gpio_fds w)" "fd \<notin> fst ` set (gw_lines w)" "\<not> line_held line w"
proof (cases "line_held line w")
  case True
  with assms that(1) show ?thesis by (auto simp: request_line_def)
next
  case False
  obtain a k where o: "sys_open (gw_kernel w) = (a, k)" by fastforce
  show ?thesis
  proof (rule sys_open_cases [OF o])
    fix e assume "a = Inl e" "k_open k = gpio_fds w"
    with assms False o that(1) show ?thesis by (auto simp: request_line_def)
  next
    fix fd assume fd: "a = Inr fd" "k_open k = fd # gpio_fds w" "fd \<notin> set (gpio_fds w)" "0 \<le> fd"
    have "fd \<notin> fst ` set (gw_lines w)" using assms(2) fd(3) by (auto simp: lines_open_def list_all_iff)
    with assms False o fd show ?thesis by (intro that(2)) (auto simp: request_line_def)
  qed
qed

lemma gpio_reset_fds: "set (gpio_fds (gpio_reset fd w)) = set (gpio_fds w) - (if 0 \<le> fd then {fd} else {})"
  by (simp add: gpio_reset_def sys_close_def)

lemma gpio_reset_lines: "set (gw_lines (gpio_reset fd w)) = {l \<in> set (gw_lines w). 0 \<le> fd \<longrightarrow> fst l \<noteq> fd}"
  by (auto simp: gpio_reset_def)

lemma gpio_reset_level [simp]: "gw_level (gpio_reset fd w) = gw_level w"
  by (simp add: gpio_reset_def)

lemma gpio_reset_none [simp]: "gpio_reset (- 1) w = w"
  by (simp add: gpio_reset_def)

lemma lines_open_iff: "lines_open w \<longleftrightarrow> (\<forall>l\<in>set (gw_lines w). fst l \<in> set (gpio_fds w))"
  by (simp add: lines_open_def list_all_iff)

lemma lines_open_reset: "lines_open w \<Longrightarrow> lines_open (gpio_reset fd w)"
  by (auto simp: lines_open_iff gpio_reset_fds gpio_reset_lines)

lemma same_lines_inv: "same_lines w w' \<Longrightarrow> gpio_inv g w = gpio_inv g w'"
  by (simp add: gpio_inv_def lines_open_iff same_lines_def)

lemma requestLine_cases:
  assumes "requestLine cfg path w = (r, w')" "lines_open w"
  obtains e where "r = Inl e" "gpio_fds w' = gpio_fds w" "gw_lines w' = gw_lines w"
  | fd where "r = Inr fd" "gpio_fds w' = fd # gpio_fds w" "gw_lines w' = (fd, gc_line cfg, toHandleFlags cfg) # gw_lines w"
      "0 \<le> fd" "fd \<notin> set (gpio_fds w)" "\<not> line_held (gc_line cfg) w"
      "gw_level w' = (if gc_direction cfg = Dir_Output then (gw_level w)(gc_line cfg := gc_initValue cfg) else gw_level w)"
proof -
  obtain a w1 where a: "request_line (gc_line cfg) (toHandleFlags cfg) w = (a, w1)" by fastforce
  show ?thesis
    by (rule request_cases [OF a assms(2)])
      (use a assms(1) that in \<open>auto simp: requestLine_def throwErrno_def\<close>)
qed

lemma waitForEdge_same:
  assumes "waitForEdge edge g w = (r, w')" "lines_open w"
  shows "same_lines w w'"
proof -
  obtain a w1 where a: "request_line (gc_line (gp_config g)) (toHandleFlags (gp_config g)) w = (a, w1)" by fastforce
  show ?thesis
  proof (rule request_cases [OF a assms(2)])
    fix e assume "a = Inl e" "gpio_fds w1 = gpio_fds w" "gw_lines w1 = gw_lines w"
    with a assms(1) show ?thesis by (auto simp: waitForEdge_def throwErrno_def same_lines_def split: sum.splits if_splits)
  next
    fix fd assume fd: "a = Inr fd" "gpio_fds w1 = fd # gpio_fds w" "gw_lines w1 = (fd, gc_line (gp_config g), toHandleFlags (gp_config g)) # gw_lines w"
      "0 \<le> fd" "fd \<notin> set (gpio_fds w)" "fd \<notin> fst ` set (gw_lines w)"
    have reset: "same_lines w (gpio_reset fd w2)" if "gpio_fds w2 = gpio_fds w1" "gw_lines w2 = gw_lines w1" for w2
    proof -
      have "filter (\<lambda>l. fst l \<noteq> fd) (gw_lines w) = gw_lines w" using fd(6) by (intro filter_True) force
      then show ?thesis using fd that by (simp add: same_lines_def gpio_reset_def sys_close_def)
    qed
    obtain b w2 where b: "gpio_call w1 = (b, w2)" by fastforce
    obtain c w3 where c: "gpio_call w2 = (c, w3)" by fastforce
    have f: "gpio_fds w2 = gpio_fds w1 \<and> gw_lines w2 = gw_lines w1" "gpio_fds w3 = gpio_fds w1 \<and> gw_lines w3 = gw_lines w1"
      using gpio_call_frame [OF b] gpio_call_frame [OF c] by simp_all
    have "w' = w \<or> w' = gpio_reset fd w2 \<or> w' = gpio_reset fd w3"
      using assms(1) a fd(1) b c by (auto simp: waitForEdge_def throwErrno_def split: sum.splits if_splits)
    then show ?thesis using f reset by (auto simp: same_lines_def)
  qed
qed

lemma line_held_mem: "(fd, line, flags) \<in> set (gw_lines w) \<Longrightarrow> line_held line w"
  by (auto simp: line_held_def list_ex_iff)

subsection \<open>The contract of a device\<close>

definition gpio_serves :: "GPIO \<Rightarrow> gpio_world \<Rightarrow> GPIO \<Rightarrow> gpio_world \<Rightarrow> bool" where
  "gpio_serves g w g' w' = (gpio_inv g' w' \<and> set (gpio_fds w') - set (gpio_held g') = set (gpio_fds w) - set (gpio_held g))"

lemma gpio_serves_same: "gpio_inv g w \<Longrightarrow> same_lines w w' \<Longrightarrow> gpio_serves g w g w'"
  using same_lines_inv [of w w' g] by (simp add: gpio_serves_def same_lines_def)

lemma gpio_held_open: "gpio_inv g w \<Longrightarrow> gp_state g = Dev_Open \<Longrightarrow> set (gpio_held g) = {gp_lineFd g, gp_chipFd g}"
  and gpio_held_closed: "gpio_inv g w \<Longrightarrow> gp_state g \<noteq> Dev_Open \<Longrightarrow> gpio_held g = []"
  by (auto simp: gpio_inv_def gpio_held_def)

lemma GPIO_close_serves:
  assumes g: "gpio_inv g w" and c: "GPIO_close g w = (g', w')"
  shows "gpio_serves g w g' w'"
proof -
  have w': "w' = gpio_reset (gp_chipFd g) (gpio_reset (gp_lineFd g) w)" "gp_state g' = Dev_Closed" "gp_chipFd g' = - 1" "gp_lineFd g' = - 1"
    using c by (auto simp: GPIO_close_def releaseLine_def)
  have "lines_open w'" using g lines_open_reset by (simp add: w' gpio_inv_def)
  then show ?thesis using w' g by (auto simp: gpio_serves_def gpio_inv_def gpio_held_def gpio_reset_fds)
qed

lemma GPIO_open_serves:
  assumes g: "gpio_inv g w" and o: "GPIO_open g w = (r, g', w')"
  shows "gpio_serves g w g' w' \<and> (r = Inr () \<longrightarrow> gp_state g' = Dev_Open) \<and> (gp_state g \<noteq> Dev_Open \<and> isl r \<longrightarrow> g' = g)"
proof (cases "gp_state g = Dev_Open")
  case True
  with o g show ?thesis by (auto simp: GPIO_open_def gpio_serves_def)
next
  case False
  then have c: "gp_chipFd g = - 1" "gp_lineFd g = - 1" "lines_open w" "gpio_held g = []"
    using g gpio_held_closed [OF g] by (simp_all add: gpio_inv_def)
  obtain a k where s: "sys_open (gw_kernel w) = (a, k)" by fastforce
  show ?thesis
  proof (rule sys_open_cases [OF s])
    fix e assume a: "a = Inl e" "k_open k = gpio_fds w"
    have "g' = g" "isl r" "w' = w\<lparr>gw_kernel := k\<rparr>" using o s a False by (auto simp: GPIO_open_def throwErrno_def)
    then show ?thesis using g a by (auto simp: gpio_serves_def gpio_inv_def lines_open_iff)
  next
    fix chip assume a: "a = Inr chip" "k_open k = chip # gpio_fds w" "chip \<notin> set (gpio_fds w)" "0 \<le> chip"
    define w0 where "w0 = w\<lparr>gw_kernel := k\<rparr>"
    have w0: "lines_open w0" "gpio_fds w0 = chip # gpio_fds w" "gw_lines w0 = gw_lines w" using c(3) a by (simp_all add: lines_open_iff w0_def)
    obtain b w1 where b: "requestLine (gp_config g) (gp_chipPath g) w0 = (b, w1)" by fastforce
    show ?thesis
    proof (rule requestLine_cases [OF b w0(1)])
      fix e assume e: "b = Inl e" "gpio_fds w1 = gpio_fds w0" "gw_lines w1 = gw_lines w0"
      have "g' = g" "isl r" "w' = gpio_reset chip w1" using o s a(1) b e(1) False by (auto simp: GPIO_open_def w0_def)
      moreover have "lines_open (gpio_reset chip w1)" using lines_open_reset w0 e by (simp add: lines_open_iff)
      ultimately show ?thesis using g False a w0 e c by (auto simp: gpio_serves_def gpio_inv_def gpio_reset_fds)
    next
      fix fd assume f: "b = Inr fd" "gpio_fds w1 = fd # gpio_fds w0" "gw_lines w1 = (fd, gc_line (gp_config g), toHandleFlags (gp_config g)) # gw_lines w0"
        "0 \<le> fd" "fd \<notin> set (gpio_fds w0)"
      have r: "r = Inr ()" "g' = g\<lparr>gp_lineFd := fd, gp_chipFd := chip, gp_state := Dev_Open\<rparr>" "w' = w1"
        using o s a(1) b f(1) False c by (simp_all add: GPIO_open_def w0_def)
      have "lines_open w1" using w0 f by (auto simp: lines_open_iff)
      then show ?thesis using r a w0 f c(4) by (auto simp: gpio_serves_def gpio_inv_def gpio_held_def)
    qed
  qed
qed

lemma setDirection_serves:
  assumes g: "gpio_inv g w" and d: "setDirection dir v g w = (r, g', w')"
  shows "gpio_serves g w g' w' \<and> (isl r \<longrightarrow> gp_state g' = Dev_Closed \<and> gp_config g' = gp_config g)"
proof (cases "gp_state g = Dev_Open")
  case False
  with d have "r = Inr ()" "w' = w" "g' = g\<lparr>gp_config := (gp_config g)\<lparr>gc_direction := dir, gc_initValue := v\<rparr>\<rparr>"
    by (simp_all add: setDirection_def Let_def)
  with g False show ?thesis by (simp add: gpio_serves_def gpio_inv_def gpio_held_def)
next
  case True
  let ?cfg = "(gp_config g)\<lparr>gc_direction := dir, gc_initValue := v\<rparr>"
  define w1 where "w1 = gpio_reset (gp_lineFd g) w"
  have i: "lines_open w" "0 \<le> gp_chipFd g" "0 \<le> gp_lineFd g" "gp_chipFd g \<noteq> gp_lineFd g" "gp_chipFd g \<in> set (gpio_fds w)" "gp_lineFd g \<in> set (gpio_fds w)"
    using g True by (simp_all add: gpio_inv_def)
  have w1: "lines_open w1" "set (gpio_fds w1) = set (gpio_fds w) - {gp_lineFd g}"
    using lines_open_reset [OF i(1)] i(3) by (simp_all add: w1_def gpio_reset_fds)
  obtain b w2 where b: "requestLine ?cfg (gp_chipPath g) w1 = (b, w2)" by fastforce
  show ?thesis
  proof (rule requestLine_cases [OF b w1(1)])
    fix e assume e: "b = Inl e" "gpio_fds w2 = gpio_fds w1" "gw_lines w2 = gw_lines w1"
    have r: "isl r" "w' = gpio_reset (gp_chipFd g) w2" "g' = g\<lparr>gp_lineFd := - 1, gp_chipFd := - 1, gp_state := Dev_Closed\<rparr>"
      using d True b e(1) by (auto simp: setDirection_def Let_def releaseLine_def GPIO_close_def w1_def)
    have "lines_open w'" using lines_open_reset w1(1) e by (simp add: r lines_open_iff)
    then show ?thesis using r i w1 e gpio_held_open [OF g True] by (auto simp: gpio_serves_def gpio_inv_def gpio_held_def gpio_reset_fds)
  next
    fix fd assume f: "b = Inr fd" "gpio_fds w2 = fd # gpio_fds w1" "gw_lines w2 = (fd, gc_line ?cfg, toHandleFlags ?cfg) # gw_lines w1"
      "0 \<le> fd" "fd \<notin> set (gpio_fds w1)"
    have r: "r = Inr ()" "w' = w2" "g' = g\<lparr>gp_lineFd := fd, gp_config := ?cfg\<rparr>"
      using d True b f(1) by (auto simp: setDirection_def Let_def releaseLine_def w1_def)
    have "lines_open w2" using w1(1) f by (auto simp: lines_open_iff)
    moreover have "gp_chipFd g \<noteq> fd" using i w1(2) f(5) by auto
    ultimately show ?thesis using r i True w1 f gpio_held_open [OF g True] by (auto simp: gpio_serves_def gpio_inv_def gpio_held_def)
  qed
qed

lemma gpio_step_serves: "gpio_inv g w \<Longrightarrow> gpio_do c g w = (g', w') \<Longrightarrow> gpio_serves g w g' w'"
proof (cases c)
  case Gp_open
  assume "gpio_inv g w" "gpio_do c g w = (g', w')"
  with Gp_open GPIO_open_serves [of g w "fst (GPIO_open g w)" g' w'] show ?thesis by (metis gpio_do.simps(1) prod.collapse)
next
  case (Gp_setDirection d v)
  assume "gpio_inv g w" "gpio_do c g w = (g', w')"
  with Gp_setDirection setDirection_serves [of g w d v "fst (setDirection d v g w)" g' w'] show ?thesis by (metis gpio_do.simps(6) prod.collapse)
next
  case (Gp_waitForEdge e)
  assume g: "gpio_inv g w" and "gpio_do c g w = (g', w')"
  with Gp_waitForEdge have "g' = g" "waitForEdge e g w = (fst (waitForEdge e g w), w')" by auto
  with waitForEdge_same [OF this(2)] g gpio_serves_same show ?thesis by (simp add: gpio_inv_def)
qed (use GPIO_close_serves gpio_serves_same gpio_get_same gpio_set_same gpio_toggle_same in \<open>auto, metis prod.collapse, (metis prod.collapse)+\<close>)

interpretation gpio: lpio_device gpio_do GPIO_open GPIO_close gp_state gpio_held gpio_fds gpio_inv
proof
  fix g g' :: GPIO and w w' :: gpio_world and c r e
  show "GPIO_close g w = (g', w') \<Longrightarrow> gp_state g' = Dev_Closed" by (auto simp: GPIO_close_def releaseLine_def)
  assume g: "gpio_inv g w"
  show "set (gpio_held g) \<subseteq> set (gpio_fds w)" using g by (auto simp: gpio_inv_def gpio_held_def split: if_splits)
  show "gp_state g \<noteq> Dev_Open \<Longrightarrow> gpio_held g = []" by (rule gpio_held_closed [OF g])
  show "gpio_do c g w = (g', w') \<Longrightarrow> gpio_inv g' w'"
    and "gpio_do c g w = (g', w') \<Longrightarrow> set (gpio_fds w') - set (gpio_held g') = set (gpio_fds w) - set (gpio_held g)"
    using gpio_step_serves [OF g] unfolding gpio_serves_def by blast+
  show "GPIO_open g w = (Inr (), g', w') \<Longrightarrow> gp_state g' = Dev_Open"
    and "gp_state g \<noteq> Dev_Open \<Longrightarrow> GPIO_open g w = (Inl e, g', w') \<Longrightarrow> gp_state g' \<noteq> Dev_Open"
    using GPIO_open_serves [OF g] by (fastforce simp: isl_def)+
  show "GPIO_open g w = (r, g', w') \<Longrightarrow> gpio_inv g' w'"
    and "GPIO_open g w = (r, g', w') \<Longrightarrow> set (gpio_fds w') - set (gpio_held g') = set (gpio_fds w) - set (gpio_held g)"
    using GPIO_open_serves [OF g] unfolding gpio_serves_def by blast+
  show "GPIO_close g w = (g', w') \<Longrightarrow> gpio_inv g' w'"
    and "GPIO_close g w = (g', w') \<Longrightarrow> set (gpio_fds w') - set (gpio_held g') = set (gpio_fds w) - set (gpio_held g)"
    using GPIO_close_serves [OF g] unfolding gpio_serves_def by blast+
qed

lemma gpio_run_inv: "lines_open w \<Longrightarrow> dev_run gpio_do cs (new_GPIO path cfg) w = (g, w1) \<Longrightarrow> gpio_inv g w1"
  using gpio.dev_run_inv [of "new_GPIO path cfg" w cs g w1] by (simp add: gpio_inv_def new_GPIO_def)

theorem gpio_lines_leak_nothing:
  assumes "lines_open w" "dev_run gpio_do cs (new_GPIO path cfg) w = (g, w1)" "GPIO_close g w1 = (g', w')"
  shows "gp_state g' = Dev_Closed \<and> set (gpio_fds w') = set (gpio_fds w)"
  using gpio.session_leaks_nothing [OF _ _ assms(2,3)] assms(1) by (simp add: gpio_inv_def new_GPIO_def)

text \<open>  Whatever was done with a device before, an open input cannot wait for an edge: the device holds its line, and requesting it once more
  for events fails with \<open>EBUSY\<close>, for every edge and every course of events.
\<close>

theorem gpio_wait_is_always_busy:
  assumes "lines_open w0" "dev_run gpio_do cs (new_GPIO path cfg) w0 = (g, w)"
    and "gp_state g = Dev_Open" "gc_direction (gp_config g) = Dir_Input" "edge \<noteq> Edge_None"
  shows "waitForEdge edge g w = (Inl (Device_errno 16 (''GPIO::waitForEdge'' @ dash @ gp_chipPath g)), w)"
proof -
  have "gpio_inv g w" by (rule gpio_run_inv [OF assms(1,2)])
  then have "line_held (gc_line (gp_config g)) w" using assms(3) line_held_mem by (auto simp: gpio_inv_def)
  then show ?thesis using assms(3-5) by (simp add: waitForEdge_def requireOpen_def request_line_def throwErrno_def)
qed

definition idle_gpio_world :: "outcome list \<Rightarrow> gpio_world" where
  "idle_gpio_world os = \<lparr>gw_kernel = \<lparr>k_open = [], k_outcomes = os, k_written = [], k_incoming = \<lambda>_. [], k_unlinked = []\<rparr>, gw_lines = [], gw_level = \<lambda>_. Gpio_Low\<rparr>"

lemma gpio_wait_is_always_busy_witness:
  "\<exists>g w. dev_run gpio_do [Gp_open] (new_GPIO ''/dev/gpiochip0'' default_GPIOConfig) (idle_gpio_world [Ret 0, Ret 0, Ret 1, Ret 1]) = (g, w)
    \<and> gp_state g = Dev_Open \<and> fst (waitForEdge Edge_Rising g w) = Inl (Device_errno 16 (''GPIO::waitForEdge'' @ dash @ ''/dev/gpiochip0''))"
proof -
  obtain g w where r: "dev_run gpio_do [Gp_open] (new_GPIO ''/dev/gpiochip0'' default_GPIOConfig) (idle_gpio_world [Ret 0, Ret 0, Ret 1, Ret 1]) = (g, w)"
    by fastforce
  then have g: "gp_state g = Dev_Open" "gc_direction (gp_config g) = Dir_Input" "gp_chipPath g = ''/dev/gpiochip0''"
    by (auto simp: GPIO_open_def new_GPIO_def default_GPIOConfig_def idle_gpio_world_def sys_open_def sys_call_def fresh_fd_def requestLine_def
        request_line_def line_held_def Let_def)
  have "waitForEdge Edge_Rising g w = (Inl (Device_errno 16 (''GPIO::waitForEdge'' @ dash @ gp_chipPath g)), w)"
    by (rule gpio_wait_is_always_busy [OF _ r g(1,2)]) (simp_all add: lines_open_def idle_gpio_world_def)
  with r g show ?thesis by auto
qed

subsection \<open>Values\<close>

lemma output_keeps_value: "gpio_set v g w = (Inr u, w1) \<Longrightarrow> gpio_get g w1 = (Inr x, w2) \<Longrightarrow> x = v"
  by (auto simp: gpio_set_def gpio_get_def throwErrno_def dest!: gpio_call_frame split: sum.splits prod.splits if_splits)

lemma toggle_changes_value:
  assumes "gpio_toggle g w = (Inr u, w')"
  shows "gw_level w' (gc_line (gp_config g)) \<noteq> gw_level w (gc_line (gp_config g))"
proof -
  obtain a w1 where a: "gpio_get g w = (a, w1)" by fastforce
  with assms obtain v where v: "a = Inr v" by (cases a) (auto simp: gpio_toggle_def)
  have "v = gw_level w (gc_line (gp_config g))" using a v
    by (auto simp: gpio_get_def throwErrno_def dest!: gpio_call_frame split: sum.splits prod.splits)
  moreover have "gw_level w' (gc_line (gp_config g)) = (if v = Gpio_High then Gpio_Low else Gpio_High)"
    using assms a v by (auto simp: gpio_toggle_def gpio_set_def throwErrno_def split: sum.splits prod.splits if_splits)
  ultimately show ?thesis by (cases v) auto
qed

text \<open>A device that has become an output drives its initial value; a change of direction that fails closes it and keeps its configuration.\<close>

theorem direction_is_changed:
  assumes "gpio_inv g w" "gp_state g = Dev_Open" "setDirection dir v g w = (r, g', w')"
  shows "case r of Inl e \<Rightarrow> gp_state g' = Dev_Closed \<and> gp_config g' = gp_config g
    | Inr u \<Rightarrow> gp_state g' = Dev_Open \<and> gc_direction (gp_config g') = dir \<and> (dir = Dir_Output \<longrightarrow> gw_level w' (gc_line (gp_config g)) = v)"
proof (cases r)
  case (Inl e)
  with setDirection_serves [OF assms(1,3)] show ?thesis by simp
next
  case (Inr u)
  let ?cfg = "(gp_config g)\<lparr>gc_direction := dir, gc_initValue := v\<rparr>"
  have o: "lines_open (gpio_reset (gp_lineFd g) w)" using assms(1) lines_open_reset by (simp add: gpio_inv_def)
  obtain b w2 where b: "requestLine ?cfg (gp_chipPath g) (gpio_reset (gp_lineFd g) w) = (b, w2)" by fastforce
  then obtain fd where fd: "b = Inr fd" using assms(2,3) Inr by (cases b) (auto simp: setDirection_def Let_def releaseLine_def GPIO_close_def)
  then have g': "g' = g\<lparr>gp_lineFd := fd, gp_config := ?cfg\<rparr>" "w' = w2" using assms(2,3) b by (auto simp: setDirection_def Let_def releaseLine_def)
  show ?thesis
    by (rule requestLine_cases [OF b o]) (use fd g' Inr assms(2) in auto)
qed

end
