(* ===== verification/Lpio_Sysfs.thy ===== *)
theory Lpio_Sysfs
  imports Lpio_Device Text_Input Sbus_Scaling
begin

section \<open>Devices behind files: PWM and 1-Wire (platform/lpio/src/PWM.cpp, OneWire.cpp)\<close>

subsection \<open>PWM\<close>

text \<open>
  A channel is controlled by writing numbers into files. A write goes into the buffer of a stream, which is flushed when the stream is
  destroyed: the code sees whether the file could be opened, not whether the kernel took the value. An outcome says both; \<open>sy_writes\<close>
  is what was written and whether it was taken. When the outcomes are used up a file cannot be opened.
\<close>

record sysfs =
  sy_outcomes :: "(bool \<times> bool) list"
  sy_writes :: "(string \<times> string \<times> bool) list"

definition writeFile :: "string \<Rightarrow> string \<Rightarrow> sysfs \<Rightarrow> (device_error + unit) \<times> sysfs" where
  "writeFile path v s =
     (case sy_outcomes s of [] \<Rightarrow> (Inl (Device_errc ''io_error'' path), s)
      | (opened, taken) # os \<Rightarrow>
          let s = s\<lparr>sy_outcomes := os\<rparr> in
          if opened then (Inr (), s\<lparr>sy_writes := sy_writes s @ [(path, v, taken)]\<rparr>) else (Inl (Device_errc ''io_error'' path), s))"

record PWMConfig =
  pc_chipPath :: string
  pc_channel :: u32
  pc_periodNs :: u64
  pc_dutyCycleNs :: u64
  pc_enabled :: bool

record PWM =
  pu_config :: PWMConfig
  pu_channelPath :: string
  pu_state :: DeviceState_lpio
  pu_exported :: bool

definition new_PWM :: "PWMConfig \<Rightarrow> PWM" where
  "new_PWM config = \<lparr>pu_config = config, pu_channelPath = [], pu_state = Dev_Closed, pu_exported = False\<rparr>"

definition pwm_on :: "string \<Rightarrow> PWMConfig" where
  "pwm_on chipPath = \<lparr>pc_chipPath = chipPath, pc_channel = 0, pc_periodNs = 1000000, pc_dutyCycleNs = 0, pc_enabled = False\<rparr>"

definition writeSysfs :: "string \<Rightarrow> string \<Rightarrow> PWM \<Rightarrow> sysfs \<Rightarrow> (device_error + unit) \<times> sysfs" where
  "writeSysfs attr v p s = writeFile (pu_channelPath p @ ''/'' @ attr) v s"

definition exportChannel :: "PWM \<Rightarrow> sysfs \<Rightarrow> (device_error + unit) \<times> PWM \<times> sysfs" where
  "exportChannel p s =
     (if pu_exported p then (Inr (), p, s)
      else let n = to_string_nat (unat (pc_channel (pu_config p))) in
        case writeFile (pc_chipPath (pu_config p) @ ''/export'') n s of
          (Inl e, s) \<Rightarrow> (Inl e, p, s)
        | (Inr _, s) \<Rightarrow> (Inr (), p\<lparr>pu_channelPath := pc_chipPath (pu_config p) @ ''/pwm'' @ n, pu_exported := True\<rparr>, s))"

definition unexportChannel :: "PWM \<Rightarrow> sysfs \<Rightarrow> PWM \<times> sysfs" where
  "unexportChannel p s =
     (if \<not> pu_exported p then (p, s)
      else (p\<lparr>pu_exported := False, pu_channelPath := []\<rparr>,
            snd (writeFile (pc_chipPath (pu_config p) @ ''/unexport'') (to_string_nat (unat (pc_channel (pu_config p)))) s)))"

definition pwm_ready :: "PWM \<Rightarrow> bool" where
  "pwm_ready p = (pu_exported p \<or> pu_state p = Dev_Open)"

definition pwm_setting :: "string \<Rightarrow> string \<Rightarrow> (PWMConfig \<Rightarrow> PWMConfig) \<Rightarrow> PWM \<Rightarrow> sysfs \<Rightarrow> (device_error + unit) \<times> PWM \<times> sysfs" where
  "pwm_setting attr v f p s =
     (if \<not> pwm_ready p then (Inl (Device_not_open (pc_chipPath (pu_config p))), p, s)
      else case writeSysfs attr v p s of
          (Inl e, s) \<Rightarrow> (Inl e, p, s)
        | (Inr _, s) \<Rightarrow> (Inr (), p\<lparr>pu_config := f (pu_config p)\<rparr>, s))"

definition setPeriodNs :: "u64 \<Rightarrow> PWM \<Rightarrow> sysfs \<Rightarrow> (device_error + unit) \<times> PWM \<times> sysfs" where
  "setPeriodNs ns = pwm_setting ''period'' (to_string_nat (unat ns)) (pc_periodNs_update (\<lambda>_. ns))"

definition setDutyCycleNs :: "u64 \<Rightarrow> PWM \<Rightarrow> sysfs \<Rightarrow> (device_error + unit) \<times> PWM \<times> sysfs" where
  "setDutyCycleNs ns = pwm_setting ''duty_cycle'' (to_string_nat (unat ns)) (pc_dutyCycleNs_update (\<lambda>_. ns))"

definition setEnabled :: "bool \<Rightarrow> PWM \<Rightarrow> sysfs \<Rightarrow> (device_error + unit) \<times> PWM \<times> sysfs" where
  "setEnabled on = pwm_setting ''enable'' (if on then ''1'' else ''0'') (pc_enabled_update (\<lambda>_. on))"

definition PWM_close :: "PWM \<Rightarrow> sysfs \<Rightarrow> PWM \<times> sysfs" where
  "PWM_close p s =
     (let (p, s) = (if pu_state p = Dev_Open \<and> pu_exported p then snd (setEnabled False p s) else (p, s));
          (p, s) = unexportChannel p s in
      (p\<lparr>pu_state := Dev_Closed\<rparr>, s))"

definition PWM_open :: "PWM \<Rightarrow> sysfs \<Rightarrow> (device_error + unit) \<times> PWM \<times> sysfs" where
  "PWM_open p s =
     (if pu_state p = Dev_Open then (Inr (), p, s)
      else if pc_chipPath (pu_config p) = [] then (Inl (Device_errc ''invalid_argument'' ''PWM chip path is empty''), p, s)
      else
        let failed = (\<lambda>e p s. case PWM_close p s of (p, s) \<Rightarrow> (Inl e, p, s)) in
        case exportChannel p s of
          (Inl e, p, s) \<Rightarrow> failed e p s
        | (Inr _, p, s) \<Rightarrow>
            (case setPeriodNs (pc_periodNs (pu_config p)) p s of
               (Inl e, p, s) \<Rightarrow> failed e p s
             | (Inr _, p, s) \<Rightarrow>
                 (case setDutyCycleNs (pc_dutyCycleNs (pu_config p)) p s of
                    (Inl e, p, s) \<Rightarrow> failed e p s
                  | (Inr _, p, s) \<Rightarrow>
                      (case setEnabled (pc_enabled (pu_config p)) p s of
                         (Inl e, p, s) \<Rightarrow> failed e p s
                       | (Inr _, p, s) \<Rightarrow> (Inr (), p\<lparr>pu_state := Dev_Open\<rparr>, s)))))"

definition pwm_read :: "device_error + nat" where
  "pwm_read = Inl (Device_errc ''operation_not_supported'' ''PWM sysfs write-only control'')"

definition pwm_write :: "device_error + nat" where
  "pwm_write = Inl (Device_errc ''operation_not_supported'' ''use setPeriodNs/setDutyCycleNs'')"

subsection \<open>1-Wire\<close>

lemma read_shorter: "sys_read fd len k = (Inr bs, k') \<Longrightarrow> length (k_outcomes k') < length (k_outcomes k)"
  by (auto simp: sys_read_def Let_def split: prod.splits sum.splits dest: sys_call_shorter(1))

function read_all :: "int \<Rightarrow> u8 list \<Rightarrow> kernel \<Rightarrow> (errno + u8 list) \<times> kernel" where
  "read_all fd out k =
     (case sys_read fd 256 k of
        (Inl e, k1) \<Rightarrow> if e = EINTR then read_all fd out k1 else (Inl e, k1)
      | (Inr bs, k1) \<Rightarrow> if bs = [] then (Inr out, k1) else read_all fd (out @ bs) k1)"
  by pat_completeness auto
termination
  by (relation "measure (\<lambda>(fd, out, k). length (k_outcomes k))") (auto dest: read_error_shorter [OF sym] read_shorter [OF sym])

declare read_all.simps [simp del]

definition text_of_bytes :: "u8 list \<Rightarrow> string" where
  "text_of_bytes bs = map (\<lambda>b. char_of (unat b)) bs"

definition readFile :: "string \<Rightarrow> kernel \<Rightarrow> (device_error + string) \<times> kernel" where
  "readFile path k =
     (case sys_open k of
        (Inl e, k) \<Rightarrow> (throwErrno e path, k)
      | (Inr fd, k) \<Rightarrow>
          (case read_all fd [] k of
             (Inl e, k) \<Rightarrow> (throwErrno e path, close_if fd k)
           | (Inr bs, k) \<Rightarrow> (Inr (text_of_bytes bs), close_if fd k)))"

record OneWire =
  ow_slavePath :: string
  ow_state :: DeviceState_lpio

definition new_OneWire :: "string \<Rightarrow> OneWire" where
  "new_OneWire slavePath = \<lparr>ow_slavePath = slavePath, ow_state = Dev_Closed\<rparr>"

definition OneWire_open :: "OneWire \<Rightarrow> kernel \<Rightarrow> (device_error + unit) \<times> OneWire \<times> kernel" where
  "OneWire_open d k =
     (if ow_state d = Dev_Open then (Inr (), d, k)
      else if ow_slavePath d = [] then (Inl (Device_errc ''invalid_argument'' ''1-wire slave path is empty''), d, k)
      else case readFile (ow_slavePath d @ ''/w1_slave'') k of
          (Inl e, k) \<Rightarrow> (Inl e, d, k)
        | (Inr _, k) \<Rightarrow> (Inr (), d\<lparr>ow_state := Dev_Open\<rparr>, k))"

definition OneWire_close :: "OneWire \<Rightarrow> OneWire" where
  "OneWire_close d = d\<lparr>ow_state := Dev_Closed\<rparr>"

definition readRaw :: "OneWire \<Rightarrow> kernel \<Rightarrow> (device_error + string) \<times> kernel" where
  "readRaw d k =
     (case requireOpen (ow_state d) (ow_slavePath d) of Inl e \<Rightarrow> (Inl e, k) | Inr _ \<Rightarrow> readFile (ow_slavePath d @ ''/w1_slave'') k)"

definition onewire_read :: "nat \<Rightarrow> OneWire \<Rightarrow> kernel \<Rightarrow> (device_error + string) \<times> kernel" where
  "onewire_read len d k = (case readRaw d k of (Inl e, k) \<Rightarrow> (Inl e, k) | (Inr raw, k) \<Rightarrow> (Inr (take len raw), k))"

definition onewire_write :: "device_error + nat" where
  "onewire_write = Inl (Device_errc ''operation_not_supported'' ''1-wire sysfs is read-only'')"

record OneWireTemp =
  ot_crcOk :: bool
  ot_temperatureMilliC :: int
  ot_temperatureC :: rat

text \<open>\<open>strtol\<close> converts nothing if no digit follows the white space and the sign; the number is cut to 32 bits.\<close>

definition has_number :: "string \<Rightarrow> bool" where
  "has_number s =
     (let t = dropWhile is_space s; u = (case t of [] \<Rightarrow> t | c # r \<Rightarrow> if c = CHR ''-'' \<or> c = CHR ''+'' then r else t) in
      takeWhile is_digit u \<noteq> [])"

definition parse_temperature :: "string \<Rightarrow> device_error + OneWireTemp" where
  "parse_temperature raw =
     (let t = c_str raw;
          crcOk = (case find_sub ''YES'' t of None \<Rightarrow> False
                   | Some y \<Rightarrow> (case find_sub ''NO'' t of None \<Rightarrow> True | Some n \<Rightarrow> y < n)) in
      case find_sub ''t='' t of
        None \<Rightarrow> Inl (Device_errc ''protocol_error'' ''1-wire temperature parse'')
      | Some i \<Rightarrow>
          let u = drop (i + 2) t in
          if \<not> has_number u then Inl (Device_errc ''protocol_error'' ''1-wire temperature value'')
          else Inr \<lparr>ot_crcOk = crcOk, ot_temperatureMilliC = signed_take_bit 31 (strtol u),
                 ot_temperatureC = float_round (float_round (of_int (strtol u)) / 1000)\<rparr>)"

definition readTemperature :: "OneWire \<Rightarrow> kernel \<Rightarrow> (device_error + OneWireTemp) \<times> kernel" where
  "readTemperature d k =
     (case requireOpen (ow_state d) (ow_slavePath d) of Inl e \<Rightarrow> (Inl e, k)
      | Inr _ \<Rightarrow> (case readRaw d k of (Inl e, k) \<Rightarrow> (Inl e, k) | (Inr raw, k) \<Rightarrow> (parse_temperature raw, k)))"

subsection \<open>A channel is switched off before it is given up\<close>

definition pwm_inv :: "PWM \<Rightarrow> bool" where
  "pwm_inv p = (pu_state p = Dev_Open \<longrightarrow> pu_exported p)"

lemma writeFile_opened: "sy_outcomes s = (True, t) # os \<Longrightarrow> writeFile path v s = (Inr (), s\<lparr>sy_outcomes := os, sy_writes := sy_writes s @ [(path, v, t)]\<rparr>)"
  by (simp add: writeFile_def Let_def)

lemma pwm_setting_opened:
  assumes "pwm_ready p" "sy_outcomes s = (True, t) # os"
  shows "pwm_setting attr v f p s = (Inr (), p\<lparr>pu_config := f (pu_config p)\<rparr>,
    s\<lparr>sy_outcomes := os, sy_writes := sy_writes s @ [(pu_channelPath p @ ''/'' @ attr, v, t)]\<rparr>)"
  using assms by (simp add: pwm_setting_def writeSysfs_def writeFile_opened)

text \<open>A value that the kernel refuses is reported as set, and kept in the configuration.\<close>

theorem refused_duty_cycle_is_reported_as_set:
  assumes "pu_exported p" "sy_outcomes s = (True, False) # os"
  shows "\<exists>p' s'. setDutyCycleNs ns p s = (Inr (), p', s') \<and> pc_dutyCycleNs (pu_config p') = ns \<and>
    sy_writes s' = sy_writes s @ [(pu_channelPath p @ ''/duty_cycle'', to_string_nat (unat ns), False)]"
  using pwm_setting_opened [OF _ assms(2)] assms(1) by (simp add: setDutyCycleNs_def pwm_ready_def)

definition pwm_dir :: "PWMConfig \<Rightarrow> string" where
  "pwm_dir c = pc_chipPath c @ ''/pwm'' @ to_string_nat (unat (pc_channel c))"

lemma PWM_open_writes:
  assumes p: "pu_state p \<noteq> Dev_Open" "\<not> pu_exported p" "pc_chipPath (pu_config p) \<noteq> []"
    and s: "sy_outcomes s = (True, t1) # (True, t2) # (True, t3) # (True, t4) # os"
  shows "PWM_open p s = (Inr (), p\<lparr>pu_channelPath := pwm_dir (pu_config p), pu_exported := True, pu_state := Dev_Open\<rparr>,
    s\<lparr>sy_outcomes := os, sy_writes := sy_writes s @
      [(pc_chipPath (pu_config p) @ ''/export'', to_string_nat (unat (pc_channel (pu_config p))), t1),
       (pwm_dir (pu_config p) @ ''/period'', to_string_nat (unat (pc_periodNs (pu_config p))), t2),
       (pwm_dir (pu_config p) @ ''/duty_cycle'', to_string_nat (unat (pc_dutyCycleNs (pu_config p))), t3),
       (pwm_dir (pu_config p) @ ''/enable'', if pc_enabled (pu_config p) then ''1'' else ''0'', t4)]\<rparr>)"
  using p s by (simp add: PWM_open_def exportChannel_def writeFile_opened setPeriodNs_def setDutyCycleNs_def setEnabled_def
      pwm_setting_opened pwm_ready_def Let_def pwm_dir_def)

lemma PWM_close_writes:
  assumes p: "pu_state p = Dev_Open" "pu_exported p" and s: "sy_outcomes s = (True, t1) # (True, t2) # os"
  shows "PWM_close p s =
    (p\<lparr>pu_config := (pu_config p)\<lparr>pc_enabled := False\<rparr>, pu_exported := False, pu_channelPath := [], pu_state := Dev_Closed\<rparr>,
     s\<lparr>sy_outcomes := os, sy_writes := sy_writes s @ [(pu_channelPath p @ ''/enable'', ''0'', t1),
       (pc_chipPath (pu_config p) @ ''/unexport'', to_string_nat (unat (pc_channel (pu_config p))), t2)]\<rparr>)"
  using p s by (simp add: PWM_close_def setEnabled_def pwm_setting_opened pwm_ready_def unexportChannel_def writeFile_opened Let_def)

text \<open>
  The whole of a session: the channel is exported and set, then switched off and given up. Closing stores \<open>enabled = False\<close> in the
  configuration, so a channel that is opened again stays off, though it was configured to be on.
\<close>

theorem pwm_session_writes:
  assumes "pc_chipPath cfg \<noteq> []" "sy_outcomes s = map (Pair True) ts" "length ts = 10" "sy_writes s = []"
  shows "\<exists>p1 s1 p2 s2 p3 s3. PWM_open (new_PWM cfg) s = (Inr (), p1, s1) \<and> PWM_close p1 s1 = (p2, s2) \<and> PWM_open p2 s2 = (Inr (), p3, s3)
    \<and> map (\<lambda>(path, v, t). (path, v)) (sy_writes s2) =
        [(pc_chipPath cfg @ ''/export'', to_string_nat (unat (pc_channel cfg))), (pwm_dir cfg @ ''/period'', to_string_nat (unat (pc_periodNs cfg))),
         (pwm_dir cfg @ ''/duty_cycle'', to_string_nat (unat (pc_dutyCycleNs cfg))), (pwm_dir cfg @ ''/enable'', if pc_enabled cfg then ''1'' else ''0''),
         (pwm_dir cfg @ ''/enable'', ''0''), (pc_chipPath cfg @ ''/unexport'', to_string_nat (unat (pc_channel cfg)))]
    \<and> \<not> pu_exported p2 \<and> pu_state p2 = Dev_Closed \<and> pc_enabled (pu_config p3) = False
    \<and> (\<exists>t. last (sy_writes s3) = (pwm_dir cfg @ ''/enable'', ''0'', t))"
proof -
  obtain a b c d e f g h i j where ts: "ts = [a, b, c, d, e, f, g, h, i, j]"
    using assms(3) by (auto simp: numeral_eq_Suc length_Suc_conv)
  let ?p = "new_PWM cfg"
  have n: "pu_state ?p \<noteq> Dev_Open" "\<not> pu_exported ?p" "pc_chipPath (pu_config ?p) \<noteq> []" "pu_config ?p = cfg"
    using assms(1) by (simp_all add: new_PWM_def)
  have o: "sy_outcomes s = (True, a) # (True, b) # (True, c) # (True, d) # map (Pair True) [e, f, g, h, i, j]" by (simp add: assms(2) ts)
  obtain p1 s1 where r1: "PWM_open ?p s = (Inr (), p1, s1)" using PWM_open_writes [OF n(1-3) o] by blast
  note d1 = PWM_open_writes [OF n(1-3) o, unfolded r1, simplified]
  have c1: "pu_state p1 = Dev_Open" "pu_exported p1" "pu_config p1 = cfg" "pu_channelPath p1 = pwm_dir cfg" using d1 n(4) by simp_all
  have o1: "sy_outcomes s1 = (True, e) # (True, f) # map (Pair True) [g, h, i, j]" using d1 by simp
  obtain p2 s2 where r2: "PWM_close p1 s1 = (p2, s2)" by fastforce
  note d2 = PWM_close_writes [OF c1(1,2) o1, unfolded r2, simplified]
  have c2: "pu_state p2 \<noteq> Dev_Open" "\<not> pu_exported p2" "pc_chipPath (pu_config p2) \<noteq> []" "pu_config p2 = cfg\<lparr>pc_enabled := False\<rparr>"
    "pu_state p2 = Dev_Closed" using d2 c1(3) assms(1) by simp_all
  have o2: "sy_outcomes s2 = (True, g) # (True, h) # (True, i) # (True, j) # []" using d2 by simp
  obtain p3 s3 where r3: "PWM_open p2 s2 = (Inr (), p3, s3)" using PWM_open_writes [OF c2(1-3) o2] by blast
  note d3 = PWM_open_writes [OF c2(1-3) o2, unfolded r3, simplified]
  have dir: "pwm_dir (cfg\<lparr>pc_enabled := False\<rparr>) = pwm_dir cfg" by (simp add: pwm_dir_def)
  have "pc_enabled (pu_config p3) = False" using d3 c2(4) by simp
  moreover have "last (sy_writes s3) = (pwm_dir cfg @ ''/enable'', ''0'', j)" using d3 c2(4) dir by simp
  moreover have "map (\<lambda>(path, v, t). (path, v)) (sy_writes s2) =
        [(pc_chipPath cfg @ ''/export'', to_string_nat (unat (pc_channel cfg))), (pwm_dir cfg @ ''/period'', to_string_nat (unat (pc_periodNs cfg))),
         (pwm_dir cfg @ ''/duty_cycle'', to_string_nat (unat (pc_dutyCycleNs cfg))), (pwm_dir cfg @ ''/enable'', if pc_enabled cfg then ''1'' else ''0''),
         (pwm_dir cfg @ ''/enable'', ''0''), (pc_chipPath cfg @ ''/unexport'', to_string_nat (unat (pc_channel cfg)))]"
    using d1 d2 c1 n(4) assms(4) by simp
  ultimately show ?thesis using r1 r2 r3 c2(2,5) by (intro exI conjI) assumption+
qed

text \<open>An attempt to open that fails gives the channel up.\<close>

lemma PWM_close_closed: "PWM_close p s = (p', s') \<Longrightarrow> pu_state p' = Dev_Closed \<and> \<not> pu_exported p'"
  by (auto simp: PWM_close_def unexportChannel_def Let_def split: prod.splits if_splits)

theorem failed_pwm_open_unexports:
  assumes "PWM_open p s = (Inl e, p', s')" "pu_state p = Dev_Closed" "\<not> pu_exported p"
  shows "pu_state p' = Dev_Closed \<and> \<not> pu_exported p'"
  using assms by (auto simp: PWM_open_def Let_def dest: PWM_close_closed split: if_splits prod.splits sum.splits)

subsection \<open>Files are closed, temperatures are read back\<close>

lemma read_all_open: "k_open (snd (read_all fd out k)) = k_open k"
proof (induction fd out k rule: read_all.induct)
  case (1 fd out k)
  obtain r k1 where r: "sys_read fd 256 k = (r, k1)" by fastforce
  then have "k_open k1 = k_open k" using sys_read_open [of fd 256 k] by simp
  with 1 r show ?case by (subst read_all.simps) (auto split: sum.splits)
qed

lemma readFile_open: "k_open (snd (readFile path k)) = k_open k"
proof -
  obtain a k1 where o: "sys_open k = (a, k1)" by fastforce
  show ?thesis
  proof (rule sys_open_cases [OF o])
    fix e assume "a = Inl e" "k_open k1 = k_open k"
    then show ?thesis by (simp add: readFile_def o throwErrno_def)
  next
    fix fd assume fd: "a = Inr fd" "k_open k1 = fd # k_open k" "fd \<notin> set (k_open k)" "0 \<le> fd"
    obtain b k2 where b: "read_all fd [] k1 = (b, k2)" by fastforce
    have "k_open k2 = fd # k_open k" using read_all_open [of fd "[]" k1] b fd by simp
    then show ?thesis using fd by (cases b) (simp_all add: readFile_def o b throwErrno_def)
  qed
qed

theorem onewire_leaks_nothing:
  "k_open (snd (snd (OneWire_open d k))) = k_open k \<and> k_open (snd (readTemperature d k)) = k_open k \<and> k_open (snd (onewire_read n d k)) = k_open k"
proof -
  have r: "k_open (snd (readRaw d k)) = k_open k" by (simp add: readRaw_def readFile_open split: sum.split)
  have "k_open (snd (snd (OneWire_open d k))) = k_open k"
    using readFile_open [of "ow_slavePath d @ ''/w1_slave''" k] by (auto simp: OneWire_open_def split: prod.splits sum.splits)
  moreover have "k_open (snd (readTemperature d k)) = k_open k"
    using r by (auto simp: readTemperature_def split: prod.splits sum.splits)
  moreover have "k_open (snd (onewire_read n d k)) = k_open k"
    using r by (auto simp: onewire_read_def split: prod.splits sum.splits)
  ultimately show ?thesis by blast
qed

lemma find_sub_first: "x \<notin> set pre \<Longrightarrow> find_sub (x # p) (pre @ s) = map_option ((+) (length pre)) (find_sub (x # p) s)"
proof (induction pre)
  case Nil
  then show ?case by (simp add: option.map_ident)
next
  case (Cons y pre)
  then have "\<not> starts_with (y # pre @ s) (x # p)" by (auto simp: starts_with_def)
  with Cons show ?case by (simp add: option.map_comp comp_def)
qed

lemma find_sub_none: "x \<notin> set s \<Longrightarrow> find_sub (x # p) s = None"
  by (induction s) (auto simp: starts_with_def)

lemma find_sub_here: "find_sub (x # p) (x # p @ s) = Some 0"
  using starts_with_append [of "x # p" s] by simp

lemma strtol_line:
  assumes "\<bar>n\<bar> < 2 ^ 63"
  shows "strtol (to_string_int n @ CHR 0x0A # r) = n" "has_number (to_string_int n @ CHR 0x0A # r)"
proof -
  let ?t = "to_string_nat (nat \<bar>n\<bar>)"
  obtain c w where w: "?t = c # w" by (cases ?t) auto
  have digits: "\<forall>c\<in>set ?t. is_digit c" by (rule to_string_nat_digits)
  then have c: "is_digit c" using w by simp
  have tw: "takeWhile is_digit (?t @ CHR 0x0A # r) = ?t" using digits by (simp add: takeWhile_append2 is_digit_code)
  have sp: "\<not> is_space (CHR ''-'')" by (simp add: is_space_def)
  have dw: "dropWhile is_space (?t @ CHR 0x0A # r) = ?t @ CHR 0x0A # r" using digit_not_sign [OF c] by (simp add: w)
  have "strtol (to_string_int n @ CHR 0x0A # r) = n \<and> has_number (to_string_int n @ CHR 0x0A # r)"
  proof (cases "n < 0")
    case True
    then have s: "to_string_int n = CHR ''-'' # ?t" by (simp add: to_string_int_def)
    have "read_nat ?t = nat (- n)" using True by simp
    with w have rn: "read_nat (c # w) = nat (- n)" by simp
    show ?thesis using True assms sp tw w rn by (simp add: s strtol_def has_number_def Let_def)
  next
    case False
    then have s: "to_string_int n = ?t" by (simp add: to_string_int_def)
    have "read_nat ?t = nat n" "to_string_nat (nat n) = ?t" using False by simp_all
    with w have rn: "read_nat (c # w) = nat n" "to_string_nat (nat n) = c # w" by simp_all
    have "takeWhile is_digit (w @ CHR 0x0A # r) = w" using tw c w by simp
    then show ?thesis using False assms c digit_not_sign [OF c] rn by (simp add: s w strtol_def has_number_def Let_def)
  qed
  then show "strtol (to_string_int n @ CHR 0x0A # r) = n" "has_number (to_string_int n @ CHR 0x0A # r)" by blast+
qed

text \<open>The two lines of the kernel's driver: nine bytes with the verdict on their checksum, and again with the temperature.\<close>

definition w1_text :: "string \<Rightarrow> bool \<Rightarrow> string \<Rightarrow> int \<Rightarrow> string" where
  "w1_text head ok bytes n = head @ (if ok then ''YES'' else ''NO'') @ CHR 0x0A # bytes @ ''t='' @ to_string_int n @ [CHR 0x0A]"

theorem temperature_reads_back:
  assumes "set head \<inter> {CHR ''Y'', CHR ''N'', CHR ''t'', CHR 0x00} = {}" "set bytes \<inter> {CHR ''Y'', CHR ''N'', CHR ''t'', CHR 0x00} = {}"
    and "- (2 ^ 31) \<le> n" "n < 2 ^ 31"
  shows "\<exists>x. parse_temperature (w1_text head ok bytes n) = Inr x \<and> ot_crcOk x = ok \<and> ot_temperatureMilliC x = n"
proof -
  let ?num = "to_string_int n @ [CHR 0x0A]"
  let ?tail = "CHR 0x0A # bytes @ ''t='' @ ?num"
  have num: "set ?num \<inter> {CHR ''Y'', CHR ''N'', CHR 0x00} = {}"
  proof -
    have "\<forall>c\<in>set (to_string_nat m). c \<noteq> CHR ''Y'' \<and> c \<noteq> CHR ''N'' \<and> c \<noteq> CHR 0x00" for m
      using to_string_nat_digits [of m] by (auto simp: is_digit_code)
    then show ?thesis by (auto simp: to_string_int_def)
  qed
  have z: "CHR 0x00 \<notin> set (w1_text head ok bytes n)" using assms(1,2) num by (auto simp: w1_text_def)
  then have t: "c_str (w1_text head ok bytes n) = w1_text head ok bytes n" unfolding c_str_def by (intro takeWhile_eq_all_conv [THEN iffD2]) auto
  let ?verdict = "if ok then ''YES'' else ''NO''"
  have yn: "CHR ''Y'' \<notin> set ?tail" "CHR ''N'' \<notin> set ?tail" "CHR ''Y'' \<notin> set head" "CHR ''N'' \<notin> set head" using assms(1,2) num by auto
  have y: "find_sub ''YES'' (w1_text head ok bytes n) = (if ok then Some (length head) else None)"
  proof (cases ok)
    case True
    then show ?thesis using find_sub_first [OF yn(3), of "''ES''" "''YES'' @ ?tail"] find_sub_here [of "CHR ''Y''" "''ES''" ?tail] by (simp add: w1_text_def)
  next
    case False
    then show ?thesis using find_sub_none [of "CHR ''Y''" "head @ ''NO'' @ ?tail"] yn by (simp add: w1_text_def)
  qed
  have no: "find_sub ''NO'' (w1_text head ok bytes n) = (if ok then None else Some (length head))"
  proof (cases ok)
    case True
    then show ?thesis using find_sub_none [of "CHR ''N''" "head @ ''YES'' @ ?tail"] yn by (simp add: w1_text_def)
  next
    case False
    then show ?thesis using find_sub_first [OF yn(4), of "''O''" "''NO'' @ ?tail"] find_sub_here [of "CHR ''N''" "''O''" ?tail] by (simp add: w1_text_def)
  qed
  define pre where "pre = head @ ?verdict @ CHR 0x0A # bytes"
  have pre: "CHR ''t'' \<notin> set pre" "w1_text head ok bytes n = pre @ ''t='' @ ?num" using assms(1,2) by (auto simp: pre_def w1_text_def)
  have i: "find_sub ''t='' (w1_text head ok bytes n) = Some (length pre)"
    unfolding pre(2) using find_sub_first [OF pre(1), of "''=''" "''t='' @ ?num"] find_sub_here [of "CHR ''t''" "''=''" ?num] by simp
  have d: "drop (length pre + 2) (w1_text head ok bytes n) = ?num" unfolding pre(2) by simp
  have small: "\<bar>n\<bar> < 2 ^ 63" using assms(3,4) by simp
  have sb: "signed_take_bit 31 n = n" using assms(3,4) by (simp add: signed_take_bit_int_eq_self)
  have "parse_temperature (w1_text head ok bytes n) = Inr \<lparr>ot_crcOk = ok, ot_temperatureMilliC = n, ot_temperatureC = float_round (float_round (of_int n) / 1000)\<rparr>"
    unfolding parse_temperature_def t Let_def y no i option.case d using strtol_line [OF small, of "[]"] sb by simp
  then show ?thesis by auto
qed

end
