(* ===== verification/Lpio_Devices.thy ===== *)
theory Lpio_Devices
  imports Lpio_Serial Lpio_Buses Lpio_Gpio Lpio_Sysfs
begin

section \<open>All devices of platform/lpio\<close>

text \<open>The world after a device was used in some way and then closed; closing is also what the destructor does.\<close>

definition dev_session :: "('op \<Rightarrow> 'd \<Rightarrow> 'w \<Rightarrow> 'd \<times> 'w) \<Rightarrow> ('d \<Rightarrow> 'w \<Rightarrow> 'd \<times> 'w) \<Rightarrow> 'op list \<Rightarrow> 'd \<Rightarrow> 'w \<Rightarrow> 'w" where
  "dev_session step dclose cs d w = (case dev_run step cs d w of (d, w) \<Rightarrow> snd (dclose d w))"

lemma dev_sessionI:
  assumes "\<And>d1 w1 d' w'. dev_run step cs d w = (d1, w1) \<Longrightarrow> dclose d1 w1 = (d', w') \<Longrightarrow> P w'"
  shows "P (dev_session step dclose cs d w)"
proof -
  obtain d1 w1 where r: "dev_run step cs d w = (d1, w1)" by fastforce
  obtain d' w' where c: "dclose d1 w1 = (d', w')" by fastforce
  from assms [OF r c] r c show ?thesis by (simp add: dev_session_def)
qed

lemma serial_session: "set (tty_fds (dev_session (dev_step SerialPort_open SerialPort_close serial_io) SerialPort_close cs (new_SerialPort path cfg) t)) = set (tty_fds t)"
  by (rule dev_sessionI) (rule serial_ports_leak_nothing [THEN conjunct2])

lemma rs485_session:
  "set (tty_fds (dev_session (dev_step RS485_open RS485_close rs485_io) RS485_close cs \<lparr>rs_port = new_SerialPort path cfg, rs_config = rcfg\<rparr> t)) = set (tty_fds t)"
  by (rule dev_sessionI) (rule transceivers_leak_nothing [THEN conjunct2])

lemma can_session: "set (k_open (dev_session (dev_step (CANBus_open ifindex) CANBus_close can_io) CANBus_close cs (new_CANBus ifname fd_frames) k)) = set (k_open k)"
  by (rule dev_sessionI) (rule buses_leak_nothing(1))

lemma i2c_session: "set (k_open (dev_session (dev_step I2CBus_open I2CBus_close i2c_io) I2CBus_close cs (new_I2CBus busNum addr) k)) = set (k_open k)"
  by (rule dev_sessionI) (rule buses_leak_nothing(2))

lemma spi_session: "set (spi_fds (dev_session (dev_step SPIBus_open SPIBus_close (spi_io answer)) SPIBus_close cs (new_SPIBus path cfg) w)) = set (spi_fds w)"
  by (rule dev_sessionI) (rule buses_leak_nothing(3))

lemma gpio_session: "lines_open v \<Longrightarrow> set (gpio_fds (dev_session gpio_do GPIO_close cs (new_GPIO path cfg) v)) = set (gpio_fds v)"
  by (rule dev_sessionI) (rule gpio_lines_leak_nothing [THEN conjunct2])

text \<open>C34:
  Serial ports, RS485 transceivers, CAN, I2C and SPI buses and GPIO lines: from a device that is closed, after any operations in any
  order, opened several times or never, with every system call succeeding or failing, closing it leaves exactly the descriptors open that
  the program had before.
\<close>

theorem devices_leak_nothing:
  assumes "lines_open v"
  shows "set (tty_fds (dev_session (dev_step SerialPort_open SerialPort_close serial_io) SerialPort_close cs1 (new_SerialPort path cfg) t)) = set (tty_fds t)
    \<and> set (tty_fds (dev_session (dev_step RS485_open RS485_close rs485_io) RS485_close cs2 \<lparr>rs_port = new_SerialPort path cfg, rs_config = rcfg\<rparr> t)) = set (tty_fds t)
    \<and> set (k_open (dev_session (dev_step (CANBus_open ifindex) CANBus_close can_io) CANBus_close cs3 (new_CANBus ifname fd_frames) k)) = set (k_open k)
    \<and> set (k_open (dev_session (dev_step I2CBus_open I2CBus_close i2c_io) I2CBus_close cs4 (new_I2CBus busNum addr) k)) = set (k_open k)
    \<and> set (spi_fds (dev_session (dev_step SPIBus_open SPIBus_close (spi_io answer)) SPIBus_close cs5 (new_SPIBus spi_path scfg) w)) = set (spi_fds w)
    \<and> set (gpio_fds (dev_session gpio_do GPIO_close cs6 (new_GPIO chip gcfg) v)) = set (gpio_fds v)"
  by (intro conjI serial_session rs485_session can_session i2c_session spi_session gpio_session assms)

lemma devices_leak_nothing_witness:
  "set (gpio_fds (dev_session gpio_do GPIO_close [Gp_open, Gp_setDirection Dir_Output Gpio_High] (new_GPIO ''/dev/gpiochip0'' default_GPIOConfig)
     (idle_gpio_world [Ret 0, Ret 0, Err EIO]))) = {}"
proof -
  have "lines_open (idle_gpio_world [Ret 0, Ret 0, Err EIO])" by (simp add: lines_open_def idle_gpio_world_def)
  from devices_leak_nothing [OF this] show ?thesis by (simp add: idle_gpio_world_def)
qed

end
