(* ===== verification/Lpio_Moves.thy ===== *)
theory Lpio_Moves
  imports Lpio_Serial Lpio_Buses Lpio_Gpio Lpio_Sysfs
begin

section \<open>Building and moving devices (platform/lpio)\<close>

text \<open>
  Builders collect a configuration. Moving a device hands over its descriptors and leaves a closed device behind, whose path is not
  specified (\<open>rest\<close>); a device that is assigned to is closed first.
\<close>

subsection \<open>Builders\<close>

definition can_on :: "string \<Rightarrow> string \<times> bool" where "can_on ifname = (ifname, False)"
definition can_build_open :: "(string \<Rightarrow> nat) \<Rightarrow> string \<times> bool \<Rightarrow> kernel \<Rightarrow> (device_error + unit) \<times> CANBus \<times> kernel" where
  "can_build_open ifindex b = CANBus_open ifindex (can_build b)"

type_synonym I2CBuilder = "u32 \<times> u8"

definition i2c_create :: I2CBuilder where "i2c_create = (0, 0)"
definition i2c_bus :: "u32 \<Rightarrow> I2CBuilder \<Rightarrow> I2CBuilder" where "i2c_bus n = map_prod (\<lambda>_. n) id"
definition i2c_address :: "u8 \<Rightarrow> I2CBuilder \<Rightarrow> I2CBuilder" where "i2c_address a = map_prod id (\<lambda>_. a)"
definition i2c_build :: "I2CBuilder \<Rightarrow> I2CBus" where "i2c_build b = new_I2CBus (fst b) (snd b)"
definition i2c_build_open :: "I2CBuilder \<Rightarrow> kernel \<Rightarrow> (device_error + unit) \<times> I2CBus \<times> kernel" where
  "i2c_build_open b = I2CBus_open (i2c_build b)"

type_synonym SPIBuilder = "string \<times> SPIBusConfig"

definition spi_on :: "string \<Rightarrow> SPIBuilder" where "spi_on devPath = (devPath, default_SPIBusConfig)"
definition spi_speedHz :: "u32 \<Rightarrow> SPIBuilder \<Rightarrow> SPIBuilder" where "spi_speedHz hz = map_prod id (sc_speedHz_update (\<lambda>_. hz))"
definition spi_mode :: "u8 \<Rightarrow> SPIBuilder \<Rightarrow> SPIBuilder" where "spi_mode m = map_prod id (sc_mode_update (\<lambda>_. m))"
definition spi_bitsPerWord :: "u8 \<Rightarrow> SPIBuilder \<Rightarrow> SPIBuilder" where "spi_bitsPerWord bits = map_prod id (sc_bitsPerWord_update (\<lambda>_. bits))"
definition spi_delayUsecs :: "u16 \<Rightarrow> SPIBuilder \<Rightarrow> SPIBuilder" where "spi_delayUsecs us = map_prod id (sc_delayUsecs_update (\<lambda>_. us))"
definition spi_build :: "SPIBuilder \<Rightarrow> SPIBus" where "spi_build b = new_SPIBus (fst b) (snd b)"
definition spi_build_open :: "SPIBuilder \<Rightarrow> spi_world \<Rightarrow> (device_error + unit) \<times> SPIBus \<times> spi_world" where
  "spi_build_open b = SPIBus_open (spi_build b)"

definition pwm_channel :: "u32 \<Rightarrow> PWMConfig \<Rightarrow> PWMConfig" where "pwm_channel ch = pc_channel_update (\<lambda>_. ch)"
definition pwm_periodNs :: "u64 \<Rightarrow> PWMConfig \<Rightarrow> PWMConfig" where "pwm_periodNs ns = pc_periodNs_update (\<lambda>_. ns)"
definition pwm_dutyCycleNs :: "u64 \<Rightarrow> PWMConfig \<Rightarrow> PWMConfig" where "pwm_dutyCycleNs ns = pc_dutyCycleNs_update (\<lambda>_. ns)"
definition pwm_enabled :: "bool \<Rightarrow> PWMConfig \<Rightarrow> PWMConfig" where "pwm_enabled on = pc_enabled_update (\<lambda>_. on)"
definition pwm_build_open :: "PWMConfig \<Rightarrow> sysfs \<Rightarrow> (device_error + unit) \<times> PWM \<times> sysfs" where
  "pwm_build_open b = PWM_open (new_PWM b)"

definition onewire_build_open :: "string \<Rightarrow> kernel \<Rightarrow> (device_error + unit) \<times> OneWire \<times> kernel" where
  "onewire_build_open slavePath = OneWire_open (new_OneWire slavePath)"

definition rs485_build_open :: "RS485Builder \<Rightarrow> tty_world \<Rightarrow> (device_error + unit) \<times> RS485 \<times> tty_world" where
  "rs485_build_open b = RS485_open (rs485_build b)"

definition gpio_build_open :: "GPIOBuilder \<Rightarrow> gpio_world \<Rightarrow> (device_error + unit) \<times> GPIO \<times> gpio_world" where
  "gpio_build_open b = GPIO_open (gpio_build b)"

subsection \<open>Moves\<close>

definition moved_CANBus :: "string \<Rightarrow> CANBus \<Rightarrow> CANBus" where
  "moved_CANBus rest c = c\<lparr>ca_ifname := rest, ca_state := Dev_Closed, ca_fd := - 1, ca_canFdEnabled := False\<rparr>"

definition CANBus_move_assign :: "string \<Rightarrow> CANBus \<Rightarrow> CANBus \<Rightarrow> kernel \<Rightarrow> CANBus \<times> CANBus \<times> kernel" where
  "CANBus_move_assign rest c other k = (case CANBus_close c k of (_, k) \<Rightarrow> (other, moved_CANBus rest other, k))"

definition moved_I2CBus :: "string \<Rightarrow> I2CBus \<Rightarrow> I2CBus" where
  "moved_I2CBus rest b = b\<lparr>ib_devPath := rest, ib_state := Dev_Closed, ib_fd := - 1\<rparr>"

definition I2CBus_move_assign :: "string \<Rightarrow> I2CBus \<Rightarrow> I2CBus \<Rightarrow> kernel \<Rightarrow> I2CBus \<times> I2CBus \<times> kernel" where
  "I2CBus_move_assign rest b other k = (case I2CBus_close b k of (_, k) \<Rightarrow> (other, moved_I2CBus rest other, k))"

definition moved_SPIBus :: "string \<Rightarrow> SPIBus \<Rightarrow> SPIBus" where
  "moved_SPIBus rest b = b\<lparr>si_devPath := rest, si_state := Dev_Closed, si_fd := - 1\<rparr>"

definition SPIBus_move_assign :: "string \<Rightarrow> SPIBus \<Rightarrow> SPIBus \<Rightarrow> spi_world \<Rightarrow> SPIBus \<times> SPIBus \<times> spi_world" where
  "SPIBus_move_assign rest b other w = (case SPIBus_close b w of (_, w) \<Rightarrow> (other, moved_SPIBus rest other, w))"

definition moved_RS485 :: "string \<Rightarrow> RS485 \<Rightarrow> RS485" where
  "moved_RS485 rest r = r\<lparr>rs_port := moved_SerialPort rest (rs_port r)\<rparr>"

definition RS485_move_assign :: "string \<Rightarrow> RS485 \<Rightarrow> RS485 \<Rightarrow> tty_world \<Rightarrow> RS485 \<times> RS485 \<times> tty_world" where
  "RS485_move_assign rest r other w =
     (case SerialPort_move_assign rest (rs_port r) (rs_port other) w of
        (p, old, w) \<Rightarrow> (r\<lparr>rs_port := p, rs_config := rs_config other\<rparr>, other\<lparr>rs_port := old\<rparr>, w))"

definition moved_PWM :: "string \<Rightarrow> string \<Rightarrow> PWM \<Rightarrow> PWM" where
  "moved_PWM rest rest' p = p\<lparr>pu_config := (pu_config p)\<lparr>pc_chipPath := rest\<rparr>, pu_channelPath := rest', pu_state := Dev_Closed, pu_exported := False\<rparr>"

definition PWM_move_assign :: "string \<Rightarrow> string \<Rightarrow> PWM \<Rightarrow> PWM \<Rightarrow> sysfs \<Rightarrow> PWM \<times> PWM \<times> sysfs" where
  "PWM_move_assign rest rest' p other s = (case PWM_close p s of (_, s) \<Rightarrow> (other, moved_PWM rest rest' other, s))"

definition OneWire_move_assign :: "string \<Rightarrow> OneWire \<Rightarrow> OneWire \<Rightarrow> OneWire \<times> OneWire" where
  "OneWire_move_assign rest d other = (other, other\<lparr>ow_slavePath := rest, ow_state := Dev_Closed\<rparr>)"

subsection \<open>A move hands over the descriptor\<close>

text \<open>Two devices of one program own different descriptors (\<open>fds_apart\<close>); an assignment closes exactly those of its target.\<close>

definition fds_apart :: "('d \<Rightarrow> int) \<Rightarrow> 'd \<Rightarrow> 'd \<Rightarrow> bool" where
  "fds_apart dfd d e = (dfd d = dfd e \<longrightarrow> dfd d < 0)"

locale movable_device = single_fd_device +
  fixes moved :: "string \<Rightarrow> 'b \<Rightarrow> 'b"
  assumes moved_closed: "dstate (moved rest d) = Dev_Closed"
    and moved_owns_nothing: "dfd (moved rest d) = - 1"
begin

lemma move_hands_over:
  assumes d: "fd_inv dstate dfd fds d w" and e: "fd_inv dstate dfd fds e w" and a: "fds_apart dfd d e" and c: "dclose d w = (d', w')"
  shows "fd_inv dstate dfd fds e w' \<and> fd_inv dstate dfd fds (moved rest e) w' \<and> fds_apart dfd e (moved rest e)
    \<and> set (fds w') = set (fds w) - set (fd_held dfd d)"
proof -
  have s: "set (fds w') = set (fds w) - set (fd_held dfd d)" using close_result [OF c] by blast
  have "dfd e \<notin> set (fd_held dfd d)" if "0 \<le> dfd e" using a that by (auto simp: fds_apart_def fd_held_def)
  then have "fd_inv dstate dfd fds e w'" using e s by (auto simp: fd_inv_def split: if_splits)
  then show ?thesis using s by (simp add: fd_inv_def fds_apart_def moved_closed moved_owns_nothing)
qed

end

interpretation can_mv: movable_device can_io "CANBus_open ifindex" CANBus_close ca_state ca_fd k_open moved_CANBus for ifindex
  by (intro movable_device.intro can.single_fd_device_axioms) (unfold_locales, simp_all add: moved_CANBus_def)

interpretation i2c_mv: movable_device i2c_io I2CBus_open I2CBus_close ib_state ib_fd k_open moved_I2CBus
  by (intro movable_device.intro i2c.single_fd_device_axioms) (unfold_locales, simp_all add: moved_I2CBus_def)

interpretation spi_mv: movable_device "spi_io answer" SPIBus_open SPIBus_close si_state si_fd spi_fds moved_SPIBus for answer
  by (intro movable_device.intro spi.single_fd_device_axioms) (unfold_locales, simp_all add: moved_SPIBus_def)

interpretation serial_mv: movable_device serial_io SerialPort_open SerialPort_close se_state se_fd tty_fds moved_SerialPort
  by (intro movable_device.intro serial.single_fd_device_axioms) (unfold_locales, simp_all add: moved_SerialPort_def)

theorem assigned_buses_are_handed_over:
  shows "fd_inv ca_state ca_fd k_open c k \<Longrightarrow> fd_inv ca_state ca_fd k_open c2 k \<Longrightarrow> fds_apart ca_fd c c2 \<Longrightarrow> CANBus_move_assign rest c c2 k = (c', m, k') \<Longrightarrow>
      fd_inv ca_state ca_fd k_open c' k' \<and> fd_inv ca_state ca_fd k_open m k' \<and> fds_apart ca_fd c' m \<and> set (k_open k') = set (k_open k) - set (fd_held ca_fd c)"
    and "fd_inv ib_state ib_fd k_open b k \<Longrightarrow> fd_inv ib_state ib_fd k_open b2 k \<Longrightarrow> fds_apart ib_fd b b2 \<Longrightarrow> I2CBus_move_assign rest b b2 k = (b', n, k') \<Longrightarrow>
      fd_inv ib_state ib_fd k_open b' k' \<and> fd_inv ib_state ib_fd k_open n k' \<and> fds_apart ib_fd b' n \<and> set (k_open k') = set (k_open k) - set (fd_held ib_fd b)"
    and "fd_inv si_state si_fd spi_fds s w \<Longrightarrow> fd_inv si_state si_fd spi_fds s2 w \<Longrightarrow> fds_apart si_fd s s2 \<Longrightarrow> SPIBus_move_assign rest s s2 w = (s', q, w') \<Longrightarrow>
      fd_inv si_state si_fd spi_fds s' w' \<and> fd_inv si_state si_fd spi_fds q w' \<and> fds_apart si_fd s' q \<and> set (spi_fds w') = set (spi_fds w) - set (fd_held si_fd s)"
    and "fd_inv se_state se_fd tty_fds p t \<Longrightarrow> fd_inv se_state se_fd tty_fds p2 t \<Longrightarrow> fds_apart se_fd p p2 \<Longrightarrow> SerialPort_move_assign rest p p2 t = (p', r, t') \<Longrightarrow>
      fd_inv se_state se_fd tty_fds p' t' \<and> fd_inv se_state se_fd tty_fds r t' \<and> fds_apart se_fd p' r \<and> set (tty_fds t') = set (tty_fds t) - set (fd_held se_fd p)"
  using can_mv.move_hands_over [of c k c2] i2c_mv.move_hands_over [of b k b2] spi_mv.move_hands_over [of s w s2] serial_mv.move_hands_over [of p t p2]
  by (auto simp: CANBus_move_assign_def I2CBus_move_assign_def SPIBus_move_assign_def SerialPort_move_assign_def split: prod.splits)

theorem assigned_pwm_is_switched_off:
  assumes "pu_state p = Dev_Open" "pu_exported p" "sy_outcomes s = (True, t1) # (True, t2) # os" "PWM_move_assign rest rest' p other s = (p', m, s')"
  shows "p' = other \<and> pu_state m = Dev_Closed \<and> \<not> pu_exported m \<and> sy_writes s' = sy_writes s @
    [(pu_channelPath p @ ''/enable'', ''0'', t1), (pc_chipPath (pu_config p) @ ''/unexport'', to_string_nat (unat (pc_channel (pu_config p))), t2)]"
  using assms(4) PWM_close_writes [OF assms(1-3)] by (auto simp: PWM_move_assign_def moved_PWM_def)

end
