(* ===== verification/List_Head.thy ===== *)
theory List_Head
  imports Prelude "HOL-Library.Monad_Syntax"
begin

section \<open>Intrusive lists (core/inc/list.h)\<close>

text \<open>
  Circular doubly linked lists whose nodes lie inside the elements. The heap maps the address of a node to its two pointers; reading or
  writing through the null pointer is undefined behaviour, and the result is \<open>None\<close> then.
\<close>

type_synonym addr = u64

record list_heap =
  lh_next :: "addr \<Rightarrow> addr"
  lh_prev :: "addr \<Rightarrow> addr"

definition get_next :: "list_heap \<Rightarrow> addr \<Rightarrow> addr option" where
  "get_next h p = (if p = 0 then None else Some (lh_next h p))"

definition get_prev :: "list_heap \<Rightarrow> addr \<Rightarrow> addr option" where
  "get_prev h p = (if p = 0 then None else Some (lh_prev h p))"

definition set_next :: "addr \<Rightarrow> addr \<Rightarrow> list_heap \<Rightarrow> list_heap option" where
  "set_next p v h = (if p = 0 then None else Some (h\<lparr>lh_next := (lh_next h)(p := v)\<rparr>))"

definition set_prev :: "addr \<Rightarrow> addr \<Rightarrow> list_heap \<Rightarrow> list_heap option" where
  "set_prev p v h = (if p = 0 then None else Some (h\<lparr>lh_prev := (lh_prev h)(p := v)\<rparr>))"

lemmas heap_defs = get_next_def get_prev_def set_next_def set_prev_def

subsection \<open>The operations\<close>

definition INIT_LIST_HEAD :: "addr \<Rightarrow> list_heap \<Rightarrow> list_heap option" where
  "INIT_LIST_HEAD l h = do { h \<leftarrow> set_next l l h; set_prev l l h }"

definition list_add_between :: "addr \<Rightarrow> addr \<Rightarrow> addr \<Rightarrow> list_heap \<Rightarrow> list_heap option" where
  "list_add_between node prev next h = do {
     h \<leftarrow> set_prev next node h;
     h \<leftarrow> set_next node next h;
     h \<leftarrow> set_prev node prev h;
     set_next prev node h }"

definition list_add :: "addr \<Rightarrow> addr \<Rightarrow> list_heap \<Rightarrow> list_heap option" where
  "list_add node head h = do { first \<leftarrow> get_next h head; list_add_between node head first h }"

definition list_add_tail :: "addr \<Rightarrow> addr \<Rightarrow> list_heap \<Rightarrow> list_heap option" where
  "list_add_tail node head h = do { final \<leftarrow> get_prev h head; list_add_between node final head h }"

definition list_empty :: "addr \<Rightarrow> list_heap \<Rightarrow> bool option" where
  "list_empty head h = do { first \<leftarrow> get_next h head; Some (first = head) }"

definition list_del_between :: "addr \<Rightarrow> addr \<Rightarrow> list_heap \<Rightarrow> list_heap option" where
  "list_del_between prev next h = do { h \<leftarrow> set_prev next prev h; set_next prev next h }"

definition list_del :: "addr \<Rightarrow> list_heap \<Rightarrow> list_heap option" where
  "list_del entry h = do {
     p \<leftarrow> get_prev h entry;
     n \<leftarrow> get_next h entry;
     h \<leftarrow> list_del_between p n h;
     h \<leftarrow> set_next entry 0 h;
     set_prev entry 0 h }"

text \<open>The element around a node, from the offset of the node in it.\<close>

definition list_entry :: "addr \<Rightarrow> addr \<Rightarrow> addr" where "list_entry ptr offset = ptr - offset"
definition list_first_entry :: "addr \<Rightarrow> addr \<Rightarrow> list_heap \<Rightarrow> addr option" where
  "list_first_entry ptr offset h = do { n \<leftarrow> get_next h ptr; Some (list_entry n offset) }"

text \<open>
  The loops. The body gets the current position, the heap, which it may change, and whatever else it works on. A loop over links that do
  not lead back to the head does not end.
\<close>

type_synonym 's list_body = "addr \<Rightarrow> list_heap \<times> 's \<Rightarrow> (list_heap \<times> 's) option"

partial_function (option) for_each_from :: "'s list_body \<Rightarrow> addr \<Rightarrow> addr \<Rightarrow> list_heap \<times> 's \<Rightarrow> (list_heap \<times> 's) option" where
  "for_each_from body head pos w =
     (if pos = head then Some w
      else do { w \<leftarrow> body pos w; n \<leftarrow> get_next (fst w) pos; for_each_from body head n w })"

definition list_for_each :: "'s list_body \<Rightarrow> addr \<Rightarrow> list_heap \<times> 's \<Rightarrow> (list_heap \<times> 's) option" where
  "list_for_each body head w = do { pos \<leftarrow> get_next (fst w) head; for_each_from body head pos w }"

partial_function (option) for_each_safe_from :: "'s list_body \<Rightarrow> addr \<Rightarrow> addr \<Rightarrow> addr \<Rightarrow> list_heap \<times> 's \<Rightarrow> (list_heap \<times> 's) option" where
  "for_each_safe_from body head pos n w =
     (if pos = head then Some w
      else do { w \<leftarrow> body pos w; m \<leftarrow> get_next (fst w) n; for_each_safe_from body head n m w })"

definition list_for_each_safe :: "'s list_body \<Rightarrow> addr \<Rightarrow> list_heap \<times> 's \<Rightarrow> (list_heap \<times> 's) option" where
  "list_for_each_safe body head w =
     do { pos \<leftarrow> get_next (fst w) head; n \<leftarrow> get_next (fst w) pos; for_each_safe_from body head pos n w }"

text \<open>The loops over elements compare the address of the node in the element with the head.\<close>

partial_function (option) for_each_entry_from :: "'s list_body \<Rightarrow> addr \<Rightarrow> addr \<Rightarrow> addr \<Rightarrow> list_heap \<times> 's \<Rightarrow> (list_heap \<times> 's) option" where
  "for_each_entry_from body offset head pos w =
     (if pos + offset = head then Some w
      else do { w \<leftarrow> body pos w; n \<leftarrow> get_next (fst w) (pos + offset); for_each_entry_from body offset head (list_entry n offset) w })"

definition list_for_each_entry :: "'s list_body \<Rightarrow> addr \<Rightarrow> addr \<Rightarrow> list_heap \<times> 's \<Rightarrow> (list_heap \<times> 's) option" where
  "list_for_each_entry body offset head w =
     do { n \<leftarrow> get_next (fst w) head; for_each_entry_from body offset head (list_entry n offset) w }"

partial_function (option) for_each_entry_safe_from :: "'s list_body \<Rightarrow> addr \<Rightarrow> addr \<Rightarrow> addr \<Rightarrow> addr \<Rightarrow> list_heap \<times> 's \<Rightarrow> (list_heap \<times> 's) option" where
  "for_each_entry_safe_from body offset head pos n w =
     (if pos + offset = head then Some w
      else do { w \<leftarrow> body pos w; m \<leftarrow> get_next (fst w) (n + offset); for_each_entry_safe_from body offset head n (list_entry m offset) w })"

definition list_for_each_entry_safe :: "'s list_body \<Rightarrow> addr \<Rightarrow> addr \<Rightarrow> list_heap \<times> 's \<Rightarrow> (list_heap \<times> 's) option" where
  "list_for_each_entry_safe body offset head w = do {
     p \<leftarrow> get_next (fst w) head;
     n \<leftarrow> get_next (fst w) (list_entry p offset + offset);
     for_each_entry_safe_from body offset head (list_entry p offset) (list_entry n offset) w }"

subsection \<open>What a heap represents\<close>

fun seg :: "list_heap \<Rightarrow> addr \<Rightarrow> addr list \<Rightarrow> addr \<Rightarrow> bool" where
  "seg h p [] q = (lh_next h p = q \<and> lh_prev h q = p)"
| "seg h p (x # xs) q = (lh_next h p = x \<and> lh_prev h x = p \<and> seg h x xs q)"

definition list_rep :: "list_heap \<Rightarrow> addr \<Rightarrow> addr list \<Rightarrow> bool" where
  "list_rep h head xs = (distinct (head # xs) \<and> 0 \<notin> set (head # xs) \<and> seg h head xs head)"

lemma seg_append: "seg h p (xs @ y # ys) q = (seg h p xs y \<and> seg h y ys q)"
  by (induction xs arbitrary: p) auto

lemma seg_frame:
  assumes "\<And>x. x \<in> insert p (set xs) \<Longrightarrow> lh_next h' x = lh_next h x" "\<And>x. x \<in> insert q (set xs) \<Longrightarrow> lh_prev h' x = lh_prev h x"
  shows "seg h' p xs q = seg h p xs q"
  using assms by (induction xs arbitrary: p) auto

lemma seg_first: "seg h p xs q \<Longrightarrow> lh_next h p = (case xs of [] \<Rightarrow> q | x # _ \<Rightarrow> x)"
  by (cases xs) auto

lemma seg_last: "seg h p xs q \<Longrightarrow> lh_prev h q = (if xs = [] then p else last xs)"
  by (induction xs arbitrary: p) auto

lemma list_rep_frame:
  assumes "list_rep h head xs" "\<And>x. x \<in> set (head # xs) \<Longrightarrow> lh_next h' x = lh_next h x \<and> lh_prev h' x = lh_prev h x"
  shows "list_rep h' head xs"
  using assms seg_frame [of head xs h' h head] by (simp add: list_rep_def)

text \<open>Inserting between two neighbours, removing between two neighbours.\<close>

lemma add_between:
  assumes r: "list_rep h head (xs @ ys)" and n: "node \<notin> set (head # xs @ ys)" "node \<noteq> 0"
  defines "p \<equiv> (if xs = [] then head else last xs)" and "q \<equiv> (case ys of [] \<Rightarrow> head | y # _ \<Rightarrow> y)"
  shows "\<exists>h'. list_add_between node p q h = Some h' \<and> list_rep h' head (xs @ node # ys)
    \<and> (\<forall>x. x \<notin> set (head # xs @ node # ys) \<longrightarrow> lh_next h' x = lh_next h x \<and> lh_prev h' x = lh_prev h x)"
proof -
  have d: "distinct (head # xs @ ys)" "0 \<notin> set (head # xs @ ys)" and s: "seg h head (xs @ ys) head" using r by (simp_all add: list_rep_def)
  have p: "p \<in> set (head # xs)" and q: "q \<in> set (head # ys)" by (auto simp: p_def q_def split: list.splits)
  then have nz: "p \<noteq> 0" "q \<noteq> 0" "p \<noteq> node" "q \<noteq> node" using d(2) n by auto
  define h' where "h' = h\<lparr>lh_prev := (lh_prev h)(q := node, node := p), lh_next := (lh_next h)(node := q, p := node)\<rparr>"
  have a: "list_add_between node p q h = Some h'"
    using nz n(2) by (simp add: list_add_between_def heap_defs h'_def)
  have left: "seg h' head xs node"
  proof (cases xs rule: rev_cases)
    case Nil
    then show ?thesis using nz by (simp add: h'_def p_def)
  next
    case (snoc us u)
    then have pu: "p = u" by (simp add: p_def)
    have su: "seg h head us u" using s snoc seg_append [of h head us u ys head] by simp
    have "seg h' head us u = seg h head us u"
      by (rule seg_frame) (use d n snoc pu q in \<open>auto simp: h'_def\<close>)
    then show ?thesis using su snoc pu nz seg_append [of h' head us u "[]" node] by (simp add: h'_def)
  qed
  have right: "seg h' node ys head"
  proof (cases ys)
    case Nil
    then show ?thesis using nz by (simp add: h'_def q_def)
  next
    case (Cons v vs)
    then have qv: "q = v" by (simp add: q_def)
    have sv: "seg h v vs head" using s Cons seg_append [of h head xs v vs head] by simp
    have "seg h' v vs head = seg h v vs head"
      by (rule seg_frame) (use d n Cons qv p in \<open>auto simp: h'_def\<close>)
    then show ?thesis using sv Cons qv nz by (simp add: h'_def)
  qed
  have "list_rep h' head (xs @ node # ys)"
    using left right d n by (auto simp: list_rep_def seg_append)
  moreover have "lh_next h' x = lh_next h x \<and> lh_prev h' x = lh_prev h x" if "x \<notin> set (head # xs @ node # ys)" for x
    using that p q by (auto simp: h'_def)
  ultimately show ?thesis using a by blast
qed

lemma seg_retarget:
  assumes s: "seg h p xs q" and d: "distinct (p # xs)"
    and n: "\<And>x. x \<in> set (p # xs) \<Longrightarrow> x \<noteq> last (p # xs) \<Longrightarrow> lh_next h' x = lh_next h x" and v: "\<And>x. x \<in> set xs \<Longrightarrow> lh_prev h' x = lh_prev h x"
    and e: "lh_next h' (last (p # xs)) = r" "lh_prev h' r = last (p # xs)"
  shows "seg h' p xs r"
proof (cases xs rule: rev_cases)
  case Nil
  with e show ?thesis by simp
next
  case (snoc us u)
  have su: "seg h p us u" using s snoc seg_append [of h p us u "[]" q] by simp
  have "seg h' p us u = seg h p us u" by (rule seg_frame) (use n v d snoc in auto)
  with su e snoc show ?thesis by (simp add: seg_append)
qed

lemma del_between:
  assumes r: "list_rep h head (xs @ e # ys)"
  shows "\<exists>h'. list_del e h = Some h' \<and> list_rep h' head (xs @ ys) \<and> lh_next h' e = 0 \<and> lh_prev h' e = 0
    \<and> (\<forall>x. x \<notin> set (head # xs @ e # ys) \<longrightarrow> lh_next h' x = lh_next h x \<and> lh_prev h' x = lh_prev h x)"
proof -
  let ?p = "last (head # xs)" and ?q = "hd (ys @ [head])"
  have d: "distinct (head # xs @ e # ys)" "0 \<notin> set (head # xs @ e # ys)" and s: "seg h head xs e" "seg h e ys head"
    using r by (simp_all add: list_rep_def seg_append)
  have p: "?p \<in> set (head # xs)" and q: "?q \<in> set (head # ys)" by (auto simp: hd_append)
  then have nz: "?p \<noteq> 0" "?q \<noteq> 0" "?p \<noteq> e" "?q \<noteq> e" "e \<noteq> 0" using d by auto
  have links: "lh_prev h e = ?p" "lh_next h e = ?q" using seg_last [OF s(1)] seg_first [OF s(2)] by (auto split: list.splits)
  define h' where "h' = h\<lparr>lh_prev := (lh_prev h)(?q := ?p, e := 0), lh_next := (lh_next h)(?p := ?q, e := 0)\<rparr>"
  have a: "list_del e h = Some h'"
    using nz links by (simp add: list_del_def list_del_between_def heap_defs h'_def)
  have left: "seg h' head xs ?q"
    by (rule seg_retarget [OF s(1)]) (use d nz q in \<open>auto simp: h'_def split: if_splits\<close>)
  have "seg h' head (xs @ ys) head"
  proof (cases ys)
    case Nil
    with left show ?thesis by simp
  next
    case (Cons v vs)
    have sv: "seg h v vs head" using s(2) Cons by simp
    have "?p \<notin> set (v # vs)" using p d(1) Cons by (auto simp del: last.simps)
    then have "seg h' v vs head = seg h v vs head" by (intro seg_frame) (use d Cons in \<open>auto simp: h'_def simp del: last.simps\<close>)
    with left sv Cons show ?thesis by (simp add: seg_append)
  qed
  then have "list_rep h' head (xs @ ys)" using d by (auto simp: list_rep_def)
  moreover have "lh_next h' x = lh_next h x \<and> lh_prev h' x = lh_prev h x" if "x \<notin> set (head # xs @ e # ys)" for x
    using that p q by (auto simp: h'_def)
  moreover have "lh_next h' e = 0" "lh_prev h' e = 0" using nz by (simp_all add: h'_def)
  ultimately show ?thesis using a by blast
qed

lemma init_rep:
  assumes "l \<noteq> 0"
  shows "\<exists>h'. INIT_LIST_HEAD l h = Some h' \<and> list_rep h' l [] \<and> (\<forall>x. x \<noteq> l \<longrightarrow> lh_next h' x = lh_next h x \<and> lh_prev h' x = lh_prev h x)"
  using assms by (simp add: INIT_LIST_HEAD_def heap_defs list_rep_def)

lemma rep_links:
  assumes "list_rep h head xs"
  shows "get_next h head = Some (case xs of [] \<Rightarrow> head | x # _ \<Rightarrow> x)" "get_prev h head = Some (if xs = [] then head else last xs)"
  using assms seg_first [of h head xs head] seg_last [of h head xs head] by (auto simp: list_rep_def heap_defs)

lemma list_add_rep:
  assumes "list_rep h head xs" "node \<notin> set (head # xs)" "node \<noteq> 0"
  shows "\<exists>h'. list_add node head h = Some h' \<and> list_rep h' head (node # xs)
    \<and> (\<forall>x. x \<notin> set (head # node # xs) \<longrightarrow> lh_next h' x = lh_next h x \<and> lh_prev h' x = lh_prev h x)"
  using add_between [of h head "[]" xs node] assms rep_links(1) [OF assms(1)] by (simp add: list_add_def)

lemma list_add_tail_rep:
  assumes "list_rep h head xs" "node \<notin> set (head # xs)" "node \<noteq> 0"
  shows "\<exists>h'. list_add_tail node head h = Some h' \<and> list_rep h' head (xs @ [node])
    \<and> (\<forall>x. x \<notin> set (head # xs @ [node]) \<longrightarrow> lh_next h' x = lh_next h x \<and> lh_prev h' x = lh_prev h x)"
  using add_between [of h head xs "[]" node] assms rep_links(2) [OF assms(1)] by (simp add: list_add_tail_def)

lemma list_empty_rep: "list_rep h head xs \<Longrightarrow> list_empty head h = Some (xs = [])"
  using rep_links(1) [of h head xs] by (auto simp: list_empty_def list_rep_def split: list.splits)

lemma list_first_entry_rep: "list_rep h head (x # xs) \<Longrightarrow> list_first_entry head offset h = Some (x - offset)"
  using rep_links(1) [of h head "x # xs"] by (simp add: list_first_entry_def list_entry_def)

lemma deleted_entry_crashes: "lh_prev h e = 0 \<Longrightarrow> lh_next h e = 0 \<Longrightarrow> list_del e h = None"
  by (simp add: list_del_def list_del_between_def heap_defs)

subsection \<open>Several lists at once\<close>

text \<open>
  The abstract state: the heads that have been initialised, each with the nodes of its list. A node is in one list at most, and a node
  that is added is not in use.
\<close>

type_synonym lists = "(addr \<times> addr list) list"

definition all_nodes :: "lists \<Rightarrow> addr list" where
  "all_nodes A = concat (map (\<lambda>(head, xs). head # xs) A)"

definition lists_rep :: "list_heap \<Rightarrow> lists \<Rightarrow> bool" where
  "lists_rep h A = (distinct (all_nodes A) \<and> list_all (\<lambda>(head, xs). list_rep h head xs) A)"

datatype list_op = L_init addr | L_add addr addr | L_add_tail addr addr | L_del addr

fun list_do :: "list_op \<Rightarrow> list_heap \<Rightarrow> list_heap option" where
  "list_do (L_init l) h = INIT_LIST_HEAD l h"
| "list_do (L_add node head) h = list_add node head h"
| "list_do (L_add_tail node head) h = list_add_tail node head h"
| "list_do (L_del node) h = list_del node h"

fun abs_do :: "list_op \<Rightarrow> lists \<Rightarrow> lists" where
  "abs_do (L_init l) A = (l, []) # A"
| "abs_do (L_add node head) A = map (\<lambda>(k, xs). (k, if k = head then node # xs else xs)) A"
| "abs_do (L_add_tail node head) A = map (\<lambda>(k, xs). (k, if k = head then xs @ [node] else xs)) A"
| "abs_do (L_del node) A = map (\<lambda>(k, xs). (k, removeAll node xs)) A"

definition fresh_node :: "addr \<Rightarrow> lists \<Rightarrow> bool" where
  "fresh_node x A = (x \<noteq> 0 \<and> x \<notin> set (all_nodes A))"

fun proper_op :: "list_op \<Rightarrow> lists \<Rightarrow> bool" where
  "proper_op (L_init l) A = fresh_node l A"
| "proper_op (L_add node head) A = (fresh_node node A \<and> head \<in> set (map fst A))"
| "proper_op (L_add_tail node head) A = (fresh_node node A \<and> head \<in> set (map fst A))"
| "proper_op (L_del node) A = list_ex (\<lambda>(head, xs). node \<in> set xs) A"

fun list_run :: "list_op list \<Rightarrow> list_heap \<Rightarrow> list_heap option" where
  "list_run [] h = Some h"
| "list_run (c # cs) h = do { h \<leftarrow> list_do c h; list_run cs h }"

fun proper_run :: "list_op list \<Rightarrow> lists \<Rightarrow> bool" where
  "proper_run [] A = True"
| "proper_run (c # cs) A = (proper_op c A \<and> proper_run cs (abs_do c A))"

lemma all_nodes_simps [simp]:
  "all_nodes [] = []" "all_nodes ((head, xs) # A) = head # xs @ all_nodes A" "all_nodes (A @ B) = all_nodes A @ all_nodes B"
  by (simp_all add: all_nodes_def)

lemma heads_are_nodes: "(head, xs) \<in> set A \<Longrightarrow> set (head # xs) \<subseteq> set (all_nodes A)"
  by (force simp: all_nodes_def)

lemma other_lists:
  assumes "\<And>x. x \<in> set (all_nodes A) \<Longrightarrow> lh_next h' x = lh_next h x \<and> lh_prev h' x = lh_prev h x"
    and "list_all (\<lambda>(head, xs). list_rep h head xs) A"
  shows "list_all (\<lambda>(head, xs). list_rep h' head xs) A"
proof (clarsimp simp: list_all_iff)
  fix head xs assume m: "(head, xs) \<in> set A"
  then have "list_rep h head xs" using assms(2) by (auto simp: list_all_iff)
  then show "list_rep h' head xs" by (rule list_rep_frame) (use assms(1) heads_are_nodes [OF m] in blast)
qed

lemma map_others:
  assumes "head \<notin> set (map fst A)"
  shows "map (\<lambda>(k, xs). (k, if k = head then f xs else xs)) A = A"
  using assms by (induction A) auto

lemma removeAll_others: "node \<notin> set (all_nodes A) \<Longrightarrow> map (\<lambda>(k, xs). (k, removeAll node xs)) A = A"
  by (induction A) (auto simp: all_nodes_def)

lemma fst_nodes: "set (map fst A) \<subseteq> set (all_nodes A)"
  by (induction A) auto

text \<open>One list of several changes.\<close>

lemma lists_rep_update:
  assumes r: "lists_rep h (A @ (head, xs) # B)" and x: "list_rep h' head ys" and n: "set ys \<subseteq> set xs \<union> N" "N \<inter> set (all_nodes (A @ (head, xs) # B)) = {}"
    and f: "\<forall>x. x \<notin> set (head # xs) \<union> N \<longrightarrow> lh_next h' x = lh_next h x \<and> lh_prev h' x = lh_prev h x"
  shows "lists_rep h' (A @ (head, ys) # B)"
proof -
  have d: "distinct (all_nodes (A @ (head, xs) # B))" and l: "list_all (\<lambda>(head, xs). list_rep h head xs) (A @ B)" using r by (simp_all add: lists_rep_def)
  have "list_all (\<lambda>(head, xs). list_rep h' head xs) (A @ B)"
    by (rule other_lists [OF _ l]) (use d n(2) f in auto)
  moreover have "distinct (all_nodes (A @ (head, ys) # B))" using d n x by (auto simp: list_rep_def)
  ultimately show ?thesis using x by (simp add: lists_rep_def)
qed

lemma head_split:
  assumes "lists_rep h A" "head \<in> set (map fst A)"
  obtains B xs C where "A = B @ (head, xs) # C" "list_rep h head xs" "head \<notin> set (map fst B)" "head \<notin> set (map fst C)"
proof -
  obtain xs where "(head, xs) \<in> set A" using assms(2) by auto
  then obtain B C where A: "A = B @ (head, xs) # C" by (meson split_list)
  have "list_rep h head xs" using assms(1) A by (simp add: lists_rep_def)
  moreover have "head \<notin> set (map fst B)" "head \<notin> set (map fst C)"
    using assms(1) A fst_nodes [of B] fst_nodes [of C] by (auto simp: lists_rep_def)
  ultimately show ?thesis using A that by blast
qed

lemma step_refines:
  assumes r: "lists_rep h A" and p: "proper_op c A"
  shows "\<exists>h'. list_do c h = Some h' \<and> lists_rep h' (abs_do c A)"
proof (cases c)
  case (L_init l)
  with p have l: "l \<noteq> 0" "l \<notin> set (all_nodes A)" by (simp_all add: fresh_node_def)
  obtain h' where h': "INIT_LIST_HEAD l h = Some h'" "list_rep h' l []" "\<forall>x. x \<noteq> l \<longrightarrow> lh_next h' x = lh_next h x \<and> lh_prev h' x = lh_prev h x"
    using init_rep [OF l(1)] by blast
  have "list_all (\<lambda>(head, xs). list_rep h' head xs) A"
    by (rule other_lists [of A h' h]) (use h'(3) l(2) r in \<open>auto simp: lists_rep_def\<close>)
  then show ?thesis using L_init h' l r by (simp add: lists_rep_def)
next
  case (L_add node head)
  with p have n: "node \<noteq> 0" "node \<notin> set (all_nodes A)" "head \<in> set (map fst A)" by (simp_all add: fresh_node_def)
  from head_split [OF r n(3)] obtain B xs C where A: "A = B @ (head, xs) # C" "list_rep h head xs" "head \<notin> set (map fst B)" "head \<notin> set (map fst C)" .
  have "node \<notin> set (head # xs)" using n(2) A(1) by simp
  from list_add_rep [OF A(2) this n(1)] obtain h' where h': "list_add node head h = Some h'" "list_rep h' head (node # xs)"
    "\<forall>x. x \<notin> set (head # xs) \<union> {node} \<longrightarrow> lh_next h' x = lh_next h x \<and> lh_prev h' x = lh_prev h x" by auto
  have "lists_rep h' (B @ (head, node # xs) # C)"
    by (rule lists_rep_update [OF _ h'(2) _ _ h'(3), of B C]) (use r A n(2) in auto)
  moreover have "abs_do c A = B @ (head, node # xs) # C"
    using map_others [OF A(3), of "(#) node"] map_others [OF A(4), of "(#) node"] by (simp add: L_add A(1))
  ultimately show ?thesis using h'(1) L_add by simp
next
  case (L_add_tail node head)
  with p have n: "node \<noteq> 0" "node \<notin> set (all_nodes A)" "head \<in> set (map fst A)" by (simp_all add: fresh_node_def)
  from head_split [OF r n(3)] obtain B xs C where A: "A = B @ (head, xs) # C" "list_rep h head xs" "head \<notin> set (map fst B)" "head \<notin> set (map fst C)" .
  have "node \<notin> set (head # xs)" using n(2) A(1) by simp
  from list_add_tail_rep [OF A(2) this n(1)] obtain h' where h': "list_add_tail node head h = Some h'" "list_rep h' head (xs @ [node])"
    "\<forall>x. x \<notin> set (head # xs) \<union> {node} \<longrightarrow> lh_next h' x = lh_next h x \<and> lh_prev h' x = lh_prev h x" by auto
  have "lists_rep h' (B @ (head, xs @ [node]) # C)"
    by (rule lists_rep_update [OF _ h'(2) _ _ h'(3), of B C]) (use r A n(2) in auto)
  moreover have "abs_do c A = B @ (head, xs @ [node]) # C"
    using map_others [OF A(3), of "\<lambda>xs. xs @ [node]"] map_others [OF A(4), of "\<lambda>xs. xs @ [node]"] by (simp add: L_add_tail A(1))
  ultimately show ?thesis using h'(1) L_add_tail by simp
next
  case (L_del node)
  with p obtain head xs where "(head, xs) \<in> set A" "node \<in> set xs" by (auto simp: list_ex_iff)
  then obtain B C us vs where A: "A = B @ (head, us @ node # vs) # C" by (metis split_list)
  then have x: "list_rep h head (us @ node # vs)" using r by (simp add: lists_rep_def)
  then obtain h' where h': "list_del node h = Some h'" "list_rep h' head (us @ vs)"
    "\<forall>x. x \<notin> set (head # us @ node # vs) \<union> {} \<longrightarrow> lh_next h' x = lh_next h x \<and> lh_prev h' x = lh_prev h x"
    using del_between [OF x] by auto
  have "lists_rep h' (B @ (head, us @ vs) # C)"
    by (rule lists_rep_update [OF _ h'(2) _ _ h'(3), of B C]) (use r A in auto)
  moreover have "node \<notin> set (all_nodes B)" "node \<notin> set (all_nodes C)" "removeAll node us = us" "removeAll node vs = vs"
    using r A by (auto simp: lists_rep_def)
  then have "abs_do c A = B @ (head, us @ vs) # C" by (simp add: L_del A removeAll_others)
  ultimately show ?thesis using h'(1) L_del by simp
qed

lemma run_refines:
  "lists_rep h A \<Longrightarrow> proper_run cs A \<Longrightarrow> \<exists>h'. list_run cs h = Some h' \<and> lists_rep h' (fold abs_do cs A)"
proof (induction cs arbitrary: h A)
  case (Cons c cs)
  then obtain h1 where h1: "list_do c h = Some h1" "lists_rep h1 (abs_do c A)" using step_refines by fastforce
  with Cons.IH [OF h1(2)] Cons.prems(2) show ?case by simp
qed simp

subsection \<open>Traversal\<close>

lemma seg_get_next: "seg h p (x # xs) q \<Longrightarrow> x \<noteq> 0 \<Longrightarrow> get_next h x = Some (hd (xs @ [q]))"
  using seg_first [of h x xs q] by (auto simp: heap_defs split: list.splits)

lemma rep_next: "list_rep h head (ds @ x # xs) \<Longrightarrow> get_next h x = Some (hd (xs @ [head]))"
  using seg_get_next [of h _ x xs head] seg_first [of h x xs head] by (auto simp: list_rep_def seg_append heap_defs split: list.splits)

lemma rep_first: "list_rep h head xs \<Longrightarrow> get_next h head = Some (hd (xs @ [head]))"
  using rep_links(1) [of h head xs] by (simp split: list.splits)

text \<open>
  The loops over nodes and over elements have the same shape: \<open>node\<close> is the address that is compared, \<open>entry\<close> the position of a node.
\<close>

locale node_positions =
  fixes node entry :: "addr \<Rightarrow> addr"
  assumes node_entry [simp]: "node (entry n) = n"

locale each_loop = node_positions +
  fixes loop :: "'s list_body \<Rightarrow> addr \<Rightarrow> addr \<Rightarrow> list_heap \<times> 's \<Rightarrow> (list_heap \<times> 's) option"
  assumes loop_eq: "loop body head pos w =
    (if node pos = head then Some w else do { w \<leftarrow> body pos w; n \<leftarrow> get_next (fst w) (node pos); loop body head (entry n) w })"
begin

lemma visits_rest:
  assumes "list_rep h head (ds @ xs)"
  shows "loop (\<lambda>p (h, s). Some (h, f p s)) head (entry (hd (xs @ [head]))) (h, s) = Some (h, fold f (map entry xs) s)"
  using assms
proof (induction xs arbitrary: ds s)
  case Nil
  show ?case by (subst loop_eq) simp
next
  case (Cons x xs)
  have "x \<noteq> head" using Cons.prems by (auto simp: list_rep_def)
  with Cons.IH [of "ds @ [x]" "f (entry x) s"] Cons.prems rep_next [OF Cons.prems] show ?case by (subst loop_eq) simp
qed

lemma visits_all:
  assumes "list_rep h head xs"
  shows "do { n \<leftarrow> get_next h head; loop (\<lambda>p (h, s). Some (h, f p s)) head (entry n) (h, s) } = Some (h, fold f (map entry xs) s)"
  using rep_first [OF assms] visits_rest [of h head "[]" xs] assms by simp

end

interpretation nodes: each_loop id id for_each_from
  by unfold_locales (simp, subst for_each_from.simps, simp)

interpretation entries: each_loop "\<lambda>p. p + offset" "\<lambda>n. list_entry n offset" "\<lambda>body head pos w. for_each_entry_from body offset head pos w" for offset
  by unfold_locales (simp add: list_entry_def, subst for_each_entry_from.simps, simp)

text \<open>The loops that fetch the next position before the body runs allow the body to remove the current node.\<close>

definition remove_if :: "(addr \<Rightarrow> addr) \<Rightarrow> (addr \<Rightarrow> bool) \<Rightarrow> (addr \<Rightarrow> 's \<Rightarrow> 's) \<Rightarrow> 's list_body" where
  "remove_if node P f p w = (case w of (h, s) \<Rightarrow> if P p then do { h \<leftarrow> list_del (node p) h; Some (h, f p s) } else Some (h, f p s))"

locale safe_loop = node_positions +
  fixes loop :: "'s list_body \<Rightarrow> addr \<Rightarrow> addr \<Rightarrow> addr \<Rightarrow> list_heap \<times> 's \<Rightarrow> (list_heap \<times> 's) option"
  assumes loop_eq: "loop body head pos n w =
    (if node pos = head then Some w else do { w \<leftarrow> body pos w; m \<leftarrow> get_next (fst w) (node n); loop body head n (entry m) w })"
begin

lemma removes_rest:
  assumes "list_rep h head (ds @ xs)" "xs \<noteq> [] \<Longrightarrow> n = entry (hd (tl xs @ [head]))"
  shows "\<exists>h'. loop (remove_if node P f) head (entry (hd (xs @ [head]))) n (h, s) = Some (h', fold f (map entry xs) s)
    \<and> list_rep h' head (ds @ filter (\<lambda>x. \<not> P (entry x)) xs)"
  using assms
proof (induction xs arbitrary: h ds n s)
  case Nil
  then show ?case by (subst loop_eq) simp
next
  case (Cons x xs)
  have x: "x \<noteq> head" "n = entry (hd (xs @ [head]))" using Cons.prems by (auto simp: list_rep_def)
  define es where "es = (if P (entry x) then ds else ds @ [x])"
  obtain h1 where h1: "remove_if node P f (entry x) (h, s) = Some (h1, f (entry x) s)" "list_rep h1 head (es @ xs)"
    using del_between [OF Cons.prems(1)] Cons.prems(1) by (cases "P (entry x)") (auto simp: remove_if_def es_def)
  have nz: "hd (xs @ [head]) \<noteq> 0" using h1(2) by (cases xs) (auto simp: list_rep_def)
  then obtain m where m: "get_next h1 (hd (xs @ [head])) = Some m" by (simp add: heap_defs)
  have "xs \<noteq> [] \<Longrightarrow> m = hd (tl xs @ [head])" using rep_next [of h1 head es "hd xs" "tl xs"] h1(2) m by (cases xs) auto
  then have "xs \<noteq> [] \<Longrightarrow> entry m = entry (hd (tl xs @ [head]))" by simp
  from Cons.IH [OF h1(2) this, of "f (entry x) s"] h1(1) m x show ?case
    by (subst loop_eq) (auto simp: es_def split: if_splits)
qed

lemma removes_all:
  assumes "list_rep h head xs"
  shows "\<exists>h'. do { p \<leftarrow> get_next h head; n \<leftarrow> get_next h (node (entry p)); loop (remove_if node P f) head (entry p) (entry n) (h, s) } = Some (h', fold f (map entry xs) s)
    \<and> list_rep h' head (filter (\<lambda>x. \<not> P (entry x)) xs)"
proof -
  let ?p = "hd (xs @ [head])"
  have "?p \<noteq> 0" using assms by (cases xs) (auto simp: list_rep_def)
  then obtain n where n: "get_next h ?p = Some n" by (simp add: heap_defs)
  have "xs \<noteq> [] \<Longrightarrow> entry n = entry (hd (tl xs @ [head]))" using rep_next [of h head "[]" "hd xs" "tl xs"] assms n by (cases xs) auto
  from removes_rest [of h head "[]" xs "entry n" P f s, OF _ this] assms n rep_first [OF assms] show ?thesis by simp
qed

end

interpretation safe_nodes: safe_loop id id for_each_safe_from
  by unfold_locales (simp, subst for_each_safe_from.simps, simp)

interpretation safe_entries: safe_loop "\<lambda>p. p + offset" "\<lambda>n. list_entry n offset" "\<lambda>body head pos n w. for_each_entry_safe_from body offset head pos n w" for offset
  by unfold_locales (simp add: list_entry_def, subst for_each_entry_safe_from.simps, simp)

lemma list_for_each_rep: "list_rep h head xs \<Longrightarrow> list_for_each (\<lambda>p (h, s). Some (h, f p s)) head (h, s) = Some (h, fold f xs s)"
  using nodes.visits_all [of h head xs f s] by (simp add: list_for_each_def)

lemma list_for_each_entry_rep:
  "list_rep h head xs \<Longrightarrow>
   list_for_each_entry (\<lambda>p (h, s). Some (h, f p s)) offset head (h, s) = Some (h, fold f (map (\<lambda>x. list_entry x offset) xs) s)"
  using entries.visits_all [where offset = offset and h = h and head = head and xs = xs and f = f and s = s] by (simp add: list_for_each_entry_def)

lemma list_for_each_safe_rep:
  "list_rep h head xs \<Longrightarrow> \<exists>h'. list_for_each_safe (remove_if id P f) head (h, s) = Some (h', fold f xs s) \<and> list_rep h' head (filter (\<lambda>x. \<not> P x) xs)"
  using safe_nodes.removes_all [of h head xs P f s] by (simp add: list_for_each_safe_def)

lemma list_for_each_entry_safe_rep:
  "list_rep h head xs \<Longrightarrow> \<exists>h'. list_for_each_entry_safe (remove_if (\<lambda>p. p + offset) P f) offset head (h, s) = Some (h', fold f (map (\<lambda>x. list_entry x offset) xs) s)
    \<and> list_rep h' head (filter (\<lambda>x. \<not> P (list_entry x offset)) xs)"
  using safe_entries.removes_all [where offset = offset and h = h and head = head and xs = xs and P = P and f = f and s = s] by (simp add: list_for_each_entry_safe_def)

text \<open>In the other loops removing the current node sends the loop to the null pointer.\<close>

theorem removing_while_traversing_crashes:
  assumes "list_rep h head (ds @ x # xs)" "P x" "P 0"
  shows "for_each_from (remove_if id P f) head x (h, s) = None"
proof -
  obtain h' where h': "list_del x h = Some h'" "lh_next h' x = 0" using del_between [OF assms(1)] by blast
  have x: "x \<noteq> head" "x \<noteq> 0" "head \<noteq> 0" using assms(1) by (auto simp: list_rep_def)
  have "for_each_from (remove_if id P f) head 0 (h', f x s) = None"
    using x assms(3) by (subst for_each_from.simps) (simp add: remove_if_def list_del_def heap_defs)
  then show ?thesis using x h' assms(2) by (subst for_each_from.simps) (simp add: remove_if_def heap_defs)
qed

text \<open>C35:
  Whatever lists are set up and whatever nodes are put into them and taken out again, at either end or in the middle, the links in the
  heap represent exactly the abstract lists, disjoint and without null: the test for emptiness, the loops over nodes and over
  elements, forward and with removal on the way, see exactly these elements in order, and end. A node that is in no list can be added
  again.
\<close>

theorem lists_are_lists:
  assumes "lists_rep h A" "proper_run cs A"
  shows "\<exists>h'. list_run cs h = Some h' \<and> lists_rep h' (fold abs_do cs A) \<and>
    list_all (\<lambda>(head, xs).
        list_empty head h' = Some (xs = [])
      \<and> list_for_each (\<lambda>p (h, s). Some (h, s @ [p])) head (h', []) = Some (h', xs)
      \<and> list_for_each_entry (\<lambda>p (h, s). Some (h, s @ [p])) offset head (h', []) = Some (h', map (\<lambda>x. x - offset) xs)
      \<and> (\<exists>h2. list_for_each_entry_safe (remove_if (\<lambda>p. p + offset) P (\<lambda>p s. s @ [p])) offset head (h', []) = Some (h2, map (\<lambda>x. x - offset) xs)
           \<and> list_rep h2 head (filter (\<lambda>x. \<not> P (x - offset)) xs)))
      (fold abs_do cs A)"
proof -
  obtain h' where h': "list_run cs h = Some h'" "lists_rep h' (fold abs_do cs A)" using run_refines [OF assms] by blast
  have f: "fold (\<lambda>p s. s @ [p]) ys zs = zs @ ys" for ys zs :: "addr list" by (induction ys arbitrary: zs) auto
  have l: "list_rep h' head xs" if "(head, xs) \<in> set (fold abs_do cs A)" for head xs
    using h'(2) that by (auto simp: lists_rep_def list_all_iff)
  show ?thesis
    using h' list_empty_rep [OF l] list_for_each_rep [OF l, where f = "\<lambda>p s. s @ [p]" and s = "[]"]
      list_for_each_entry_rep [OF l, where offset = offset and f = "\<lambda>p s. s @ [p]" and s = "[]"]
      list_for_each_entry_safe_rep [OF l, where offset = offset and P = P and f = "\<lambda>p s. s @ [p]" and s = "[]"]
    by (intro exI [of _ h']) (auto simp: list_all_iff f list_entry_def)
qed

lemma lists_are_lists_witness:
  "\<exists>h'. list_run [L_init 16, L_add 32 16, L_add_tail 48 16, L_init 64, L_del 32, L_add 32 64] \<lparr>lh_next = \<lambda>_. 0, lh_prev = \<lambda>_. 0\<rparr> = Some h'
    \<and> lists_rep h' [(64, [32]), (16, [48])]
    \<and> list_for_each (\<lambda>p (h, s). Some (h, s @ [p])) 16 (h', []) = Some (h', [48])"
  using lists_are_lists [of "\<lparr>lh_next = \<lambda>_. 0, lh_prev = \<lambda>_. 0\<rparr>" "[]" "[L_init 16, L_add 32 16, L_add_tail 48 16, L_init 64, L_del 32, L_add 32 64]" 8 "\<lambda>_. True"]
  by (simp add: lists_rep_def fresh_node_def) blast

end
