(* ===== verification/Log_Setup.thy ===== *)
theory Log_Setup
  imports Log_Sink Osal_Io
begin

section \<open>Loggers (components/logging/src/logger.cpp, log\_c.h)\<close>

text \<open>
  A program has one default logger, which writes to the sinks its configuration enables. The log library is third-party; what the code
  relies on of it: constructing a sink may throw, registering a logger throws if its name is taken, a logger gives each line at or above its
  level to all of its sinks and flushes them at the flush level. Patterns are kept and applied by the library.
\<close>

subsection \<open>Configuration\<close>

datatype Level = Log_Debug | Log_Info | Log_Warn | Log_Error

record LoggerConfig =
  lg_name :: string
  lg_log_level :: string
  lg_flush_level :: string
  lg_pattern :: string
  lg_enable_stdout :: bool
  lg_enable_file :: bool
  lg_enable_syslog :: bool
  lg_enable_topic :: bool
  lg_file_dir :: string
  lg_max_file_size_mb :: u64
  lg_max_file_count :: u64
  lg_topic_name :: string
  lg_topic_level :: string
  lg_topic_rate_limit :: int

definition default_LoggerConfig :: LoggerConfig where
  "default_LoggerConfig = \<lparr>lg_name = ''openember'', lg_log_level = ''info'', lg_flush_level = ''info'',
     lg_pattern = ''[%Y-%m-%d %H:%M:%S.%e] [%^%l%$] %v'',
     lg_enable_stdout = True, lg_enable_file = True, lg_enable_syslog = False, lg_enable_topic = True, lg_file_dir = ''/var/log/openember'',
     lg_max_file_size_mb = 10, lg_max_file_count = 5, lg_topic_name = ''/openember/log'', lg_topic_level = ''info'', lg_topic_rate_limit = 0\<rparr>"

text \<open>The macros of the build, each defined or not.\<close>

record log_build =
  bo_level :: "string option"
  bo_flush_level :: "string option"
  bo_pattern :: "string option"
  bo_stdout :: "int option"
  bo_file :: "int option"
  bo_syslog :: "int option"
  bo_topic :: "int option"
  bo_file_dir :: "string option"
  bo_max_mb :: "u64 option"
  bo_max_files :: "u64 option"
  bo_topic_name :: "string option"
  bo_topic_level :: "string option"
  bo_rate_limit :: "int option"

definition or_default :: "'a option \<Rightarrow> 'a \<Rightarrow> 'a" where "or_default m d = (case m of None \<Rightarrow> d | Some v \<Rightarrow> v)"

definition from_build_defaults :: "log_build \<Rightarrow> string \<Rightarrow> LoggerConfig" where
  "from_build_defaults b process_name =
     (let d = default_LoggerConfig; enabled = (\<lambda>m. map_option (\<lambda>i. i \<noteq> 0) m) in
      \<lparr>lg_name = (if process_name = [] then ''openember'' else process_name),
       lg_log_level = or_default (bo_level b) (lg_log_level d), lg_flush_level = or_default (bo_flush_level b) (lg_flush_level d),
       lg_pattern = or_default (bo_pattern b) (lg_pattern d),
       lg_enable_stdout = or_default (enabled (bo_stdout b)) (lg_enable_stdout d), lg_enable_file = or_default (enabled (bo_file b)) (lg_enable_file d),
       lg_enable_syslog = or_default (enabled (bo_syslog b)) (lg_enable_syslog d), lg_enable_topic = or_default (enabled (bo_topic b)) (lg_enable_topic d),
       lg_file_dir = or_default (bo_file_dir b) (lg_file_dir d), lg_max_file_size_mb = or_default (bo_max_mb b) (lg_max_file_size_mb d),
       lg_max_file_count = or_default (bo_max_files b) (lg_max_file_count d), lg_topic_name = or_default (bo_topic_name b) (lg_topic_name d),
       lg_topic_level = or_default (bo_topic_level b) (lg_topic_level d), lg_topic_rate_limit = or_default (bo_rate_limit b) (lg_topic_rate_limit d)\<rparr>)"

definition config_checked :: "LoggerConfig \<Rightarrow> LoggerConfig" where
  "config_checked c = c\<lparr>lg_name := (if lg_name c = [] then ''openember'' else lg_name c),
     lg_max_file_size_mb := (if lg_max_file_size_mb c = 0 then 10 else lg_max_file_size_mb c),
     lg_max_file_count := (if lg_max_file_count c = 0 then 5 else lg_max_file_count c)\<rparr>"

subsection \<open>A logger\<close>

datatype log_sink = Sink_stdout | Sink_file string u64 u64 | Sink_syslog string | Sink_topic string topic_sink

datatype log_event = Line log_sink spd_level string | Published string string | Flushed

record spd_logger =
  sl_sinks :: "log_sink list"
  sl_level :: spd_level
  sl_flush_on :: spd_level
  sl_pattern :: string

record Logger =
  lo_config :: LoggerConfig
  lo_spd :: "spd_logger option"

text \<open>The library: the names that are taken, which sinks cannot be made, and what the sinks got.\<close>

record log_world =
  sw_registered :: "string list"
  sw_refused :: "log_sink \<Rightarrow> bool"
  sw_output :: "log_event list"

text \<open>A path in the directory; an absolute name replaces it.\<close>

definition file_in :: "string \<Rightarrow> string \<Rightarrow> string" where
  "file_in dir name = (if take 1 name = ''/'' then name else if dir = [] \<or> last dir = CHR ''/'' then dir @ name else dir @ ''/'' @ name)"

definition file_sink :: "LoggerConfig \<Rightarrow> log_sink" where
  "file_sink c = Sink_file (file_in (lg_file_dir c) (lg_name c @ ''.log'')) (lg_max_file_size_mb c * 1024 * 1024) (lg_max_file_count c)"

definition topic_log_sink :: "LoggerConfig \<Rightarrow> log_sink" where
  "topic_log_sink c = Sink_topic (lg_topic_name c)
     (set_process_name (lg_name c) (TopicSink (parse_level (lg_topic_level c) spd_info) (lg_topic_rate_limit c)))"

text \<open>A sink that cannot be made is left out, but without standard output there is no logger.\<close>

definition optional_sink :: "bool \<Rightarrow> log_sink \<Rightarrow> log_world \<Rightarrow> log_sink list" where
  "optional_sink enabled k w = (if enabled \<and> \<not> sw_refused w k then [k] else [])"

definition make_sinks :: "LoggerConfig \<Rightarrow> log_world \<Rightarrow> log_sink list option" where
  "make_sinks c w =
     (if lg_enable_stdout c \<and> sw_refused w Sink_stdout then None
      else
        let sinks = (if lg_enable_stdout c then [Sink_stdout] else []) @ optional_sink (lg_enable_file c) (file_sink c) w
              @ optional_sink (lg_enable_syslog c) (Sink_syslog (lg_name c)) w @ optional_sink (lg_enable_topic c) (topic_log_sink c) w in
        if sinks = [] then if sw_refused w Sink_stdout then None else Some [Sink_stdout] else Some sinks)"

definition register_logger :: "string \<Rightarrow> log_world \<Rightarrow> log_world option" where
  "register_logger name w = (if name \<in> set (sw_registered w) then None else Some (w\<lparr>sw_registered := name # sw_registered w\<rparr>))"

definition Logger_new :: "LoggerConfig \<Rightarrow> log_world \<Rightarrow> Logger \<times> log_world" where
  "Logger_new config w =
     (let c = config_checked config in
      case make_sinks c w of
        None \<Rightarrow> (\<lparr>lo_config = c, lo_spd = None\<rparr>, w)
      | Some sinks \<Rightarrow>
          (case register_logger (lg_name c) w of
             None \<Rightarrow> (\<lparr>lo_config = c, lo_spd = None\<rparr>, w)
           | Some w \<Rightarrow>
               (\<lparr>lo_config = c, lo_spd = Some \<lparr>sl_sinks = sinks, sl_level = parse_level (lg_log_level c) spd_info,
                   sl_flush_on = parse_level (lg_flush_level c) spd_info, sl_pattern = lg_pattern c\<rparr>\<rparr>, w)))"

definition Logger_destroy :: "Logger \<Rightarrow> log_world \<Rightarrow> log_world" where
  "Logger_destroy l w =
     (case lo_spd l of
        None \<Rightarrow> w
      | Some s \<Rightarrow> w\<lparr>sw_output := sw_output w @ [Flushed], sw_registered := removeAll (lg_name (lo_config l)) (sw_registered w)\<rparr>)"

text \<open>One line to one sink; the time, the process and whether the transport can be opened come with the call.\<close>

fun to_sink :: "log_call \<Rightarrow> log_sink \<Rightarrow> log_sink \<times> log_event list" where
  "to_sink c (Sink_topic topic s) =
     (case sink_it c s of (published, s) \<Rightarrow> (Sink_topic topic s, case published of None \<Rightarrow> [] | Some payload \<Rightarrow> [Published topic payload]))"
| "to_sink c k = (k, [Line k (lc_level c) (lc_msg c)])"

definition spd_log :: "log_call \<Rightarrow> spd_logger \<Rightarrow> spd_logger \<times> log_event list" where
  "spd_log c s =
     (if level_rank (lc_level c) < level_rank (sl_level s) then (s, [])
      else (s\<lparr>sl_sinks := map (\<lambda>k. fst (to_sink c k)) (sl_sinks s)\<rparr>,
            concat (map (\<lambda>k. snd (to_sink c k)) (sl_sinks s))
            @ (if level_rank (sl_flush_on s) \<le> level_rank (lc_level c) then [Flushed] else [])))"

fun to_spd_level :: "Level \<Rightarrow> spd_level" where
  "to_spd_level Log_Debug = spd_debug" | "to_spd_level Log_Info = spd_info" | "to_spd_level Log_Warn = spd_warn" | "to_spd_level Log_Error = spd_err"

definition log_line :: "string \<Rightarrow> string \<Rightarrow> string" where
  "log_line tag msg = (if tag \<noteq> [] then ''['' @ tag @ ''] '' @ msg else msg)"

definition Logger_write :: "log_call \<Rightarrow> Level \<Rightarrow> string \<Rightarrow> string \<Rightarrow> Logger \<Rightarrow> log_world \<Rightarrow> Logger \<times> log_world" where
  "Logger_write ctx level tag msg l w =
     (case lo_spd l of
        None \<Rightarrow> (l, w)
      | Some s \<Rightarrow>
          (case spd_log (ctx\<lparr>lc_level := to_spd_level level, lc_msg := log_line tag msg\<rparr>) s of
             (s, out) \<Rightarrow> (l\<lparr>lo_spd := Some s\<rparr>, w\<lparr>sw_output := sw_output w @ out\<rparr>)))"

text \<open>What is formatted goes through a buffer of 2048 characters and ends at the first null character.\<close>

definition through_buffer :: "string \<Rightarrow> string" where
  "through_buffer formatted = c_str (take 2047 formatted)"

definition Logger_writef :: "log_call \<Rightarrow> Level \<Rightarrow> string \<Rightarrow> string \<Rightarrow> Logger \<Rightarrow> log_world \<Rightarrow> Logger \<times> log_world" where
  "Logger_writef ctx level tag formatted = Logger_write ctx level tag (through_buffer formatted)"

definition Logger_debug :: "log_call \<Rightarrow> string \<Rightarrow> Logger \<Rightarrow> log_world \<Rightarrow> Logger \<times> log_world" where "Logger_debug ctx msg = Logger_write ctx Log_Debug [] msg"
definition Logger_info :: "log_call \<Rightarrow> string \<Rightarrow> Logger \<Rightarrow> log_world \<Rightarrow> Logger \<times> log_world" where "Logger_info ctx msg = Logger_write ctx Log_Info [] msg"
definition Logger_warn :: "log_call \<Rightarrow> string \<Rightarrow> Logger \<Rightarrow> log_world \<Rightarrow> Logger \<times> log_world" where "Logger_warn ctx msg = Logger_write ctx Log_Warn [] msg"
definition Logger_error :: "log_call \<Rightarrow> string \<Rightarrow> Logger \<Rightarrow> log_world \<Rightarrow> Logger \<times> log_world" where "Logger_error ctx msg = Logger_write ctx Log_Error [] msg"
definition Logger_debug_tag :: "log_call \<Rightarrow> string \<Rightarrow> string \<Rightarrow> Logger \<Rightarrow> log_world \<Rightarrow> Logger \<times> log_world" where "Logger_debug_tag ctx tag msg = Logger_write ctx Log_Debug tag msg"
definition Logger_info_tag :: "log_call \<Rightarrow> string \<Rightarrow> string \<Rightarrow> Logger \<Rightarrow> log_world \<Rightarrow> Logger \<times> log_world" where "Logger_info_tag ctx tag msg = Logger_write ctx Log_Info tag msg"
definition Logger_warn_tag :: "log_call \<Rightarrow> string \<Rightarrow> string \<Rightarrow> Logger \<Rightarrow> log_world \<Rightarrow> Logger \<times> log_world" where "Logger_warn_tag ctx tag msg = Logger_write ctx Log_Warn tag msg"
definition Logger_error_tag :: "log_call \<Rightarrow> string \<Rightarrow> string \<Rightarrow> Logger \<Rightarrow> log_world \<Rightarrow> Logger \<times> log_world" where "Logger_error_tag ctx tag msg = Logger_write ctx Log_Error tag msg"

text \<open>In a build without the log library a line goes to the standard error stream.\<close>

fun level_letter :: "Level \<Rightarrow> string" where
  "level_letter Log_Debug = ''D''" | "level_letter Log_Info = ''I''" | "level_letter Log_Warn = ''W''" | "level_letter Log_Error = ''E''"

definition stderr_line :: "string \<Rightarrow> Level \<Rightarrow> string \<Rightarrow> string \<Rightarrow> string" where
  "stderr_line name level tag msg =
     ''['' @ level_letter level @ ''] ['' @ c_str name @ ''] '' @ (if tag \<noteq> [] then ''['' @ c_str tag @ ''] '' else []) @ c_str msg @ [CHR 0x0A]"

subsection \<open>The default logger\<close>

record logging =
  g_default :: "Logger option"
  g_initialized :: bool
  g_world :: log_world

definition destroy_default :: "Logger option \<Rightarrow> log_world \<Rightarrow> log_world" where
  "destroy_default l w = (case l of None \<Rightarrow> w | Some l \<Rightarrow> Logger_destroy l w)"

text \<open>The new logger is made before the old one is destroyed.\<close>

definition logging_init :: "LoggerConfig \<Rightarrow> logging \<Rightarrow> logging" where
  "logging_init config g =
     (case Logger_new config (g_world g) of
        (l, w) \<Rightarrow> \<lparr>g_default = Some l, g_initialized = True, g_world = destroy_default (g_default g) w\<rparr>)"

definition logging_init_name :: "log_build \<Rightarrow> string \<Rightarrow> logging \<Rightarrow> logging" where
  "logging_init_name b process_name = logging_init (from_build_defaults b process_name)"

definition logging_deinit :: "logging \<Rightarrow> logging" where
  "logging_deinit g = \<lparr>g_default = None, g_initialized = False, g_world = (destroy_default (g_default g) (g_world g))\<lparr>sw_registered := []\<rparr>\<rparr>"

definition default_logger :: "log_build \<Rightarrow> logging \<Rightarrow> Logger \<times> logging" where
  "default_logger b g =
     (case g_default g of
        Some l \<Rightarrow> (l, g)
      | None \<Rightarrow>
          (case Logger_new (from_build_defaults b ''openember'') (g_world g) of
             (l, w) \<Rightarrow> (l, g\<lparr>g_default := Some l, g_initialized := True, g_world := w\<rparr>)))"

definition is_initialized :: "logging \<Rightarrow> bool" where
  "is_initialized g = (g_initialized g \<and> g_default g \<noteq> None)"

definition write_default :: "log_build \<Rightarrow> log_call \<Rightarrow> Level \<Rightarrow> string \<Rightarrow> string \<Rightarrow> logging \<Rightarrow> logging" where
  "write_default b ctx level tag msg g =
     (case default_logger b g of (l, g) \<Rightarrow> case Logger_write ctx level tag msg l (g_world g) of (l, w) \<Rightarrow> g\<lparr>g_default := Some l, g_world := w\<rparr>)"

subsection \<open>The interface for C\<close>

definition oe_log_init :: "log_build \<Rightarrow> string option \<Rightarrow> logging \<Rightarrow> int \<times> logging" where
  "oe_log_init b process_name g = (0, logging_init_name b (or_default process_name ''openember'') g)"

definition oe_log_deinit :: "logging \<Rightarrow> logging" where "oe_log_deinit = logging_deinit"

definition level_of_c :: "int \<Rightarrow> Level" where
  "level_of_c level = (if level = 10 then Log_Debug else if level = 20 then Log_Info else if level = 30 then Log_Warn else Log_Error)"

definition oe_log_vwrite :: "log_build \<Rightarrow> log_call \<Rightarrow> int \<Rightarrow> string option \<Rightarrow> string \<Rightarrow> logging \<Rightarrow> logging" where
  "oe_log_vwrite b ctx level tag formatted = write_default b ctx (level_of_c level) (or_default tag []) (through_buffer formatted)"

definition log_init :: "log_build \<Rightarrow> string option \<Rightarrow> logging \<Rightarrow> int \<times> logging" where "log_init = oe_log_init"
definition log_deinit :: "logging \<Rightarrow> logging" where "log_deinit = oe_log_deinit"

subsection \<open>The default logger over a run of the program\<close>

datatype log_op = Lo_init LoggerConfig | Lo_deinit | Lo_write log_call Level string string

fun log_do :: "log_build \<Rightarrow> log_op \<Rightarrow> logging \<Rightarrow> logging" where
  "log_do b (Lo_init c) g = logging_init c g"
| "log_do b Lo_deinit g = logging_deinit g"
| "log_do b (Lo_write ctx level tag msg) g = write_default b ctx level tag msg g"

definition logging_start :: "(log_sink \<Rightarrow> bool) \<Rightarrow> logging" where
  "logging_start refused = \<lparr>g_default = None, g_initialized = False, g_world = \<lparr>sw_registered = [], sw_refused = refused, sw_output = []\<rparr>\<rparr>"

text \<open>The abstract state: the configuration in force, and whether lines are written at all.\<close>

type_synonym abs_logging = "(LoggerConfig \<times> bool) option"

fun abs_log :: "log_build \<Rightarrow> log_op \<Rightarrow> abs_logging \<Rightarrow> abs_logging" where
  "abs_log b (Lo_init c) a =
     (let c = config_checked c in Some (c, case a of Some (d, True) \<Rightarrow> lg_name d \<noteq> lg_name c | _ \<Rightarrow> True))"
| "abs_log b Lo_deinit a = None"
| "abs_log b (Lo_write ctx level tag msg) a =
     (case a of None \<Rightarrow> Some (config_checked (from_build_defaults b ''openember''), True) | Some x \<Rightarrow> Some x)"

fun is_topic :: "log_sink \<Rightarrow> bool" where
  "is_topic (Sink_topic t s) = True" | "is_topic k = False"

text \<open>The sinks on this machine, which keep no state of their own.\<close>

definition local_sinks :: "LoggerConfig \<Rightarrow> log_world \<Rightarrow> log_sink list" where
  "local_sinks c w = (case make_sinks c w of None \<Rightarrow> [] | Some ks \<Rightarrow> filter (\<lambda>k. \<not> is_topic k) ks)"

definition logger_matches :: "LoggerConfig \<Rightarrow> bool \<Rightarrow> Logger \<Rightarrow> log_world \<Rightarrow> bool" where
  "logger_matches c alive l w =
     (lo_config l = c \<and>
      (case lo_spd l of
         None \<Rightarrow> \<not> alive \<and> sw_registered w = []
       | Some s \<Rightarrow> alive \<and> sw_registered w = [lg_name c] \<and> sl_level s = parse_level (lg_log_level c) spd_info
           \<and> filter (\<lambda>k. \<not> is_topic k) (sl_sinks s) = local_sinks c w))"

definition logging_sim :: "logging \<Rightarrow> abs_logging \<Rightarrow> bool" where
  "logging_sim g a =
     (\<not> sw_refused (g_world g) Sink_stdout \<and>
      (case a of
         None \<Rightarrow> g_default g = None \<and> \<not> g_initialized g \<and> sw_registered (g_world g) = []
       | Some (c, alive) \<Rightarrow> g_initialized g \<and> (\<exists>l. g_default g = Some l \<and> logger_matches c alive l (g_world g))))"

lemma make_sinks_some: "\<not> sw_refused w Sink_stdout \<Longrightarrow> make_sinks c w \<noteq> None"
  by (simp add: make_sinks_def Let_def)

lemma make_sinks_cong: "sw_refused w = sw_refused w' \<Longrightarrow> make_sinks c w = make_sinks c w'"
  by (simp add: make_sinks_def optional_sink_def)

lemma local_sinks_cong: "sw_refused w = sw_refused w' \<Longrightarrow> local_sinks c w = local_sinks c w'"
  using make_sinks_cong [of w w' c] by (simp add: local_sinks_def)

lemma Logger_new_cases:
  assumes "\<not> sw_refused w Sink_stdout" "Logger_new config w = (l, w')"
  shows "lo_config l = config_checked config \<and> sw_refused w' = sw_refused w \<and> sw_output w' = sw_output w \<and>
    (if lg_name (config_checked config) \<in> set (sw_registered w) then lo_spd l = None \<and> w' = w
     else sw_registered w' = lg_name (config_checked config) # sw_registered w \<and>
       (\<exists>s. lo_spd l = Some s \<and> sl_level s = parse_level (lg_log_level (config_checked config)) spd_info
         \<and> filter (\<lambda>k. \<not> is_topic k) (sl_sinks s) = local_sinks (config_checked config) w))"
  using assms make_sinks_some [OF assms(1), of "config_checked config"]
  by (auto simp: Logger_new_def Let_def register_logger_def local_sinks_def split: option.splits if_splits)

lemma to_sink_local: "\<not> is_topic k \<Longrightarrow> to_sink c k = (k, [Line k (lc_level c) (lc_msg c)])"
  by (cases k) simp_all

lemma to_sink_kind: "is_topic (fst (to_sink c k)) = is_topic k"
  by (cases k) (simp_all split: prod.split)

lemma filter_local: "filter (\<lambda>k. \<not> is_topic k) (map (\<lambda>k. fst (to_sink c k)) ks) = filter (\<lambda>k. \<not> is_topic k) ks"
  by (induction ks) (auto simp: to_sink_kind to_sink_local)

fun is_line :: "log_event \<Rightarrow> bool" where
  "is_line (Line k l m) = True" | "is_line e = False"

lemma lines_of_topic: "is_topic k \<Longrightarrow> filter is_line (snd (to_sink c k)) = []"
  by (cases k) (auto split: prod.split option.split)

lemma lines_sent: "filter is_line (concat (map (\<lambda>k. snd (to_sink c k)) ks)) = map (\<lambda>k. Line k (lc_level c) (lc_msg c)) (filter (\<lambda>k. \<not> is_topic k) ks)"
  by (induction ks) (auto simp: lines_of_topic to_sink_local)

definition expected_lines :: "LoggerConfig \<Rightarrow> bool \<Rightarrow> log_world \<Rightarrow> Level \<Rightarrow> string \<Rightarrow> string \<Rightarrow> log_event list" where
  "expected_lines c alive w level tag msg =
     (if alive \<and> level_rank (parse_level (lg_log_level c) spd_info) \<le> level_rank (to_spd_level level)
      then map (\<lambda>k. Line k (to_spd_level level) (log_line tag msg)) (local_sinks c w) else [])"

lemma Logger_write_sim:
  assumes m: "logger_matches c alive l w" and r: "Logger_write ctx level tag msg l w = (l', w')"
  shows "logger_matches c alive l' w' \<and> sw_refused w' = sw_refused w \<and>
    (\<exists>out. sw_output w' = sw_output w @ out \<and> filter is_line out = expected_lines c alive w level tag msg)"
proof (cases "lo_spd l")
  case None
  with m r show ?thesis by (auto simp: Logger_write_def logger_matches_def expected_lines_def)
next
  case (Some s)
  let ?c = "ctx\<lparr>lc_level := to_spd_level level, lc_msg := log_line tag msg\<rparr>"
  obtain s' out where o: "spd_log ?c s = (s', out)" by fastforce
  have s': "sl_level s' = sl_level s" "filter (\<lambda>k. \<not> is_topic k) (sl_sinks s') = filter (\<lambda>k. \<not> is_topic k) (sl_sinks s)"
    using o by (auto simp: spd_log_def filter_local split: if_splits)
  have lw: "l' = l\<lparr>lo_spd := Some s'\<rparr>" "w' = w\<lparr>sw_output := sw_output w @ out\<rparr>" using r Some o by (auto simp: Logger_write_def)
  have "local_sinks c w' = local_sinks c w" by (rule local_sinks_cong) (simp add: lw)
  then have m': "logger_matches c alive l' w'" using m Some s' lw by (simp add: logger_matches_def)
  have "filter is_line out = expected_lines c alive w level tag msg"
    using o m Some by (auto simp: spd_log_def lines_sent expected_lines_def logger_matches_def split: if_splits)
  with m' lw show ?thesis by auto
qed

lemma init_sim:
  assumes "logging_sim g a"
  shows "logging_sim (logging_init config g) (abs_log b (Lo_init config) a) \<and> sw_refused (g_world (logging_init config g)) = sw_refused (g_world g)"
proof -
  let ?c = "config_checked config"
  have ok: "\<not> sw_refused (g_world g) Sink_stdout" using assms by (simp add: logging_sim_def)
  obtain l w where n: "Logger_new config (g_world g) = (l, w)" by fastforce
  note new = Logger_new_cases [OF ok n]
  have i: "logging_init config g = \<lparr>g_default = Some l, g_initialized = True, g_world = destroy_default (g_default g) w\<rparr>"
    by (simp add: logging_init_def n)
  have k: "sw_refused (destroy_default d v) = sw_refused v" for d v by (simp add: destroy_default_def Logger_destroy_def split: option.split)
  have ls: "local_sinks ?c (destroy_default d w) = local_sinks ?c (g_world g)" for d by (rule local_sinks_cong) (simp add: k new)
  have lw: "local_sinks ?c w = local_sinks ?c (g_world g)" using ls [of None] by (simp add: destroy_default_def)
  show ?thesis
  proof (cases a)
    case None
    with assms have e: "g_default g = None" "sw_registered (g_world g) = []" by (simp_all add: logging_sim_def)
    with None e lw new i ok k show ?thesis by (auto simp: logging_sim_def logger_matches_def destroy_default_def Let_def)
  next
    case (Some x)
    obtain d alive where x: "x = (d, alive)" by fastforce
    obtain old where old: "g_default g = Some old" "logger_matches d alive old (g_world g)" using assms Some x by (auto simp: logging_sim_def)
    show ?thesis
    proof (cases "lo_spd old")
      case None
      with old Some x new i lw ok k show ?thesis
        by (auto simp: logging_sim_def logger_matches_def destroy_default_def Logger_destroy_def Let_def)
    next
      case (Some s)
      have reg: "sw_registered (g_world g) = [lg_name d]" "lo_config old = d" alive using old(2) Some by (simp_all add: logger_matches_def)
      have a: "a = Some (d, True)" using \<open>a = Some x\<close> x reg by simp
      have dd: "sw_registered (destroy_default (g_default g) w) = removeAll (lg_name d) (sw_registered w)"
        using old(1) Some reg by (simp add: destroy_default_def Logger_destroy_def)
      show ?thesis
      proof (cases "lg_name ?c = lg_name d")
        case True
        with new reg have "lo_spd l = None" "sw_registered w = [lg_name d]" by simp_all
        with a i ok k new dd True show ?thesis by (simp add: logging_sim_def logger_matches_def Let_def)
      next
        case False
        with new reg obtain s where "lo_spd l = Some s" "sw_registered w = [lg_name ?c, lg_name d]"
          "sl_level s = parse_level (lg_log_level ?c) spd_info" "filter (\<lambda>k. \<not> is_topic k) (sl_sinks s) = local_sinks ?c (g_world g)"
          by auto
        with a i ok k new dd False ls show ?thesis by (simp add: logging_sim_def logger_matches_def Let_def)
      qed
    qed
  qed
qed

lemma default_logger_sim:
  assumes g: "logging_sim g a" and r: "default_logger b g = (l, g')"
  shows "logging_sim g' (abs_log b (Lo_write ctx level tag msg) a) \<and> g_default g' = Some l \<and> sw_refused (g_world g') = sw_refused (g_world g)
    \<and> sw_output (g_world g') = sw_output (g_world g)"
proof (cases "g_default g")
  case None
  then have a: "a = None" "sw_registered (g_world g) = []" "\<not> sw_refused (g_world g) Sink_stdout" using g by (auto simp: logging_sim_def split: option.splits)
  let ?c = "from_build_defaults b ''openember''"
  obtain m w where n: "Logger_new ?c (g_world g) = (m, w)" by fastforce
  note new = Logger_new_cases [OF a(3) n]
  have "local_sinks (config_checked ?c) w = local_sinks (config_checked ?c) (g_world g)" by (rule local_sinks_cong) (simp add: new)
  moreover have "l = m" "g' = g\<lparr>g_default := Some m, g_initialized := True, g_world := w\<rparr>" using r None n by (auto simp: default_logger_def)
  ultimately show ?thesis using a new by (auto simp: logging_sim_def logger_matches_def)
next
  case (Some m)
  then have "l = m" "g' = g" using r by (simp_all add: default_logger_def)
  with Some g show ?thesis by (auto simp: logging_sim_def split: option.splits)
qed

lemma write_sim:
  assumes "logging_sim g a" "abs_log b (Lo_write ctx level tag msg) a = Some (c, alive)"
  shows "logging_sim (write_default b ctx level tag msg g) (Some (c, alive)) \<and> sw_refused (g_world (write_default b ctx level tag msg g)) = sw_refused (g_world g) \<and>
    (\<exists>out. sw_output (g_world (write_default b ctx level tag msg g)) = sw_output (g_world g) @ out
      \<and> filter is_line out = expected_lines c alive (g_world g) level tag msg)"
proof -
  obtain l g1 where d: "default_logger b g = (l, g1)" by fastforce
  note s1 = default_logger_sim [OF assms(1) d, of ctx level tag msg, unfolded assms(2)]
  then have m: "logger_matches c alive l (g_world g1)" by (auto simp: logging_sim_def)
  obtain l2 w2 where w: "Logger_write ctx level tag msg l (g_world g1) = (l2, w2)" by fastforce
  note s2 = Logger_write_sim [OF m w]
  have e: "write_default b ctx level tag msg g = g1\<lparr>g_default := Some l2, g_world := w2\<rparr>" by (simp add: write_default_def d w)
  have "expected_lines c alive (g_world g1) level tag msg = expected_lines c alive (g_world g) level tag msg"
    using local_sinks_cong [of "g_world g1" "g_world g" c] s1 by (simp add: expected_lines_def)
  with s1 s2 show ?thesis by (auto simp: e logging_sim_def)
qed

lemma log_do_sim: "logging_sim g a \<Longrightarrow> logging_sim (log_do b c g) (abs_log b c a) \<and> sw_refused (g_world (log_do b c g)) = sw_refused (g_world g)"
proof (cases c)
  case (Lo_init config)
  assume "logging_sim g a"
  from init_sim [OF this, of config b] Lo_init show ?thesis by simp
next
  case Lo_deinit
  assume "logging_sim g a"
  with Lo_deinit show ?thesis by (simp add: logging_sim_def logging_deinit_def destroy_default_def Logger_destroy_def split: option.split)
next
  case (Lo_write ctx level tag msg)
  assume g: "logging_sim g a"
  obtain c' alive where "abs_log b (Lo_write ctx level tag msg) a = Some (c', alive)" by (cases a) auto
  with write_sim [OF g this] Lo_write show ?thesis by simp
qed

lemma log_run_sim: "logging_sim g a \<Longrightarrow> logging_sim (fold (log_do b) cs g) (fold (abs_log b) cs a) \<and> sw_refused (g_world (fold (log_do b) cs g)) = sw_refused (g_world g)"
proof (induction cs arbitrary: g a)
  case (Cons c cs)
  from log_do_sim [OF Cons.prems, of b c] Cons.IH [of "log_do b c g" "abs_log b c a"] show ?case by simp
qed simp


definition no_build :: log_build where
  "no_build = \<lparr>bo_level = None, bo_flush_level = None, bo_pattern = None, bo_stdout = None, bo_file = None, bo_syslog = None, bo_topic = None,
     bo_file_dir = None, bo_max_mb = None, bo_max_files = None, bo_topic_name = None, bo_topic_level = None, bo_rate_limit = None\<rparr>"

definition some_call :: log_call where
  "some_call = \<lparr>lc_level = spd_info, lc_msg = [], lc_now = 0, lc_ts_ms = 0, lc_pid = 7, lc_opens = False\<rparr>"


text \<open>Initialising again and again with one configuration: every second logger is without sinks.\<close>

lemma same_name_alternates:
  "fold (abs_log b) (replicate (Suc n) (Lo_init c)) None = Some (config_checked c, even n)"
proof (induction n)
  case (Suc n)
  have "replicate (Suc (Suc n)) (Lo_init c) = replicate (Suc n) (Lo_init c) @ [Lo_init c]" by (simp add: replicate_append_same)
  then have "fold (abs_log b) (replicate (Suc (Suc n)) (Lo_init c)) None = abs_log b (Lo_init c) (Some (config_checked c, even n))"
    using Suc by (metis fold.simps(1) fold.simps(2) fold_append id_apply comp_apply)
  then show ?case by (cases "even n") (simp_all add: Let_def)
qed (simp add: Let_def)

lemma formatted_text_fits: "length (through_buffer s) \<le> 2047"
proof -
  have "length (through_buffer s) \<le> length (take 2047 s)" unfolding through_buffer_def c_str_def by (rule length_takeWhile_le)
  then show ?thesis by simp
qed

end
