(* ===== verification/Emcom.thy ===== *)
theory Emcom
  imports Lpio_Serial Text_Input "HOL-Library.Sublist"
begin

section \<open>The serial terminal (tools/emcom/main.cpp)\<close>

text \<open>
  The program opens a serial port as its command line says, then sends a file or connects the keyboard and the screen to the port. Its
  second thread shows what the port receives; the two share a lock for the port.
\<close>

subsection \<open>The command line\<close>

record emcom_options =
  em_device :: string
  em_baudRate :: u32
  em_dataBits :: u8
  em_stopBits :: u8
  em_parity :: parity
  em_localEcho :: bool
  em_escapeChar :: u8
  em_sendFile :: "string option"
  em_showHelp :: bool

definition default_emcom_options :: emcom_options where
  "default_emcom_options = \<lparr>em_device = [], em_baudRate = 115200, em_dataBits = 8, em_stopBits = 1, em_parity = Parity_none, em_localEcho = False,
     em_escapeChar = 1, em_sendFile = None, em_showHelp = False\<rparr>"

definition u8_of_char :: "char \<Rightarrow> u8" where "u8_of_char c = of_nat (of_char c)"

text \<open>A control character is written with a caret; the code of \<open>^?\<close> comes out as 255.\<close>

definition parseCaretChar :: "string \<Rightarrow> u8 option" where
  "parseCaretChar t =
     (case t of
        [] \<Rightarrow> None
      | [a] \<Rightarrow> Some (u8_of_char a)
      | [a, c] \<Rightarrow> if a = CHR ''^'' \<and> 63 \<le> (of_char c :: nat) \<and> (of_char c :: nat) \<le> 95 then Some (u8_of_char c - 64) else None
      | _ \<Rightarrow> None)"

definition parseParity :: "string \<Rightarrow> parity option" where
  "parseParity t =
     (if t = ''n'' \<or> t = ''none'' then Some Parity_none else if t = ''e'' \<or> t = ''even'' then Some Parity_even
      else if t = ''o'' \<or> t = ''odd'' then Some Parity_odd else None)"

text \<open>\<^verbatim>\<open>strtoul\<close> in base ten; a minus sign negates in 64 bits, too large a number gives the largest one.\<close>

definition strtoul :: "string \<Rightarrow> u64" where
  "strtoul s =
     (let t = dropWhile is_space s;
          (negative, u) = (case t of [] \<Rightarrow> (False, t) | c # r \<Rightarrow> if c = CHR ''-'' then (True, r) else if c = CHR ''+'' then (False, r) else (False, t));
          n = read_nat (takeWhile is_digit u) in
      if 2 ^ 64 \<le> n then - 1 else if negative then - of_nat n else of_nat n)"

text \<open>The options that take a value, with what the value does; a value may be refused.\<close>

definition value_option :: "string \<Rightarrow> (string \<Rightarrow> emcom_options \<Rightarrow> emcom_options option) option" where
  "value_option arg =
     (if arg = ''-b'' \<or> arg = ''--baud'' then Some (\<lambda>v o1. Some (o1\<lparr>em_baudRate := ucast (strtoul v)\<rparr>))
      else if arg = ''-d'' \<or> arg = ''--databits'' then Some (\<lambda>v o1. Some (o1\<lparr>em_dataBits := ucast (strtoul v)\<rparr>))
      else if arg = ''-s'' \<or> arg = ''--stopbits'' then Some (\<lambda>v o1. Some (o1\<lparr>em_stopBits := ucast (strtoul v)\<rparr>))
      else if arg = ''-p'' \<or> arg = ''--parity'' then Some (\<lambda>v o1. map_option (\<lambda>p. o1\<lparr>em_parity := p\<rparr>) (parseParity v))
      else if arg = ''-a'' \<or> arg = ''--escape'' then Some (\<lambda>v o1. map_option (\<lambda>c. o1\<lparr>em_escapeChar := c\<rparr>) (parseCaretChar v))
      else if arg = ''--send'' then Some (\<lambda>v o1. Some (o1\<lparr>em_sendFile := Some v\<rparr>))
      else None)"

function parse_from :: "string list \<Rightarrow> nat \<Rightarrow> emcom_options \<Rightarrow> bool \<times> emcom_options" where
  "parse_from args positional o1 =
     (case args of
        [] \<Rightarrow> (positional = 1, o1)
      | arg # args \<Rightarrow>
          if arg = ''-h'' \<or> arg = ''--help'' then (True, o1\<lparr>em_showHelp := True\<rparr>)
          else case value_option arg of
            Some set_value \<Rightarrow>
              (case args of
                 [] \<Rightarrow> (False, o1)
               | v # args \<Rightarrow> (case set_value v o1 of None \<Rightarrow> (False, o1) | Some o1 \<Rightarrow> parse_from args positional o1))
          | None \<Rightarrow>
              if arg = ''-e'' \<or> arg = ''--echo'' then parse_from args positional (o1\<lparr>em_localEcho := True\<rparr>)
              else if take 1 arg = ''-'' then (False, o1)
              else if positional = 0 then parse_from args (Suc positional) (o1\<lparr>em_device := arg\<rparr>)
              else (False, o1))"
  by pat_completeness auto
termination by (relation "measure (\<lambda>(args, _, _). length args)") auto

declare parse_from.simps [simp del]

definition parseOptions :: "string list \<Rightarrow> bool \<times> emcom_options" where
  "parseOptions args = parse_from args 0 default_emcom_options"

subsection \<open>Opening the port, sending a file\<close>

datatype emcom_error = Em_device device_error | Em_runtime string

fun em_result :: "device_error + 'a \<Rightarrow> emcom_error + 'a" where
  "em_result (Inl e) = Inl (Em_device e)" | "em_result (Inr x) = Inr x"

definition openPort :: "emcom_options \<Rightarrow> tty_world \<Rightarrow> (emcom_error + SerialPort) \<times> tty_world" where
  "openPort o1 w =
     (let b = serial_baudRate (em_baudRate o1) (serial_on (em_device o1)) in
      if em_dataBits o1 \<noteq> 7 \<and> em_dataBits o1 \<noteq> 8 then (Inl (Em_runtime ''data bits must be 7 or 8''), w)
      else if em_stopBits o1 \<noteq> 1 \<and> em_stopBits o1 \<noteq> 2 then (Inl (Em_runtime ''stop bits must be 1 or 2''), w)
      else
        case serial_build_open (serial_parity (em_parity o1) (serial_stopBits (em_stopBits o1) (serial_dataBits (em_dataBits o1) b))) w of
          (Inl e, _, w) \<Rightarrow> (Inl (Em_device e), w)
        | (Inr _, p, w) \<Rightarrow> (Inr p, w))"

function chunks :: "u8 list \<Rightarrow> u8 list list" where
  "chunks bs = (if bs = [] then [] else take 4096 bs # chunks (drop 4096 bs))"
  by auto
termination by (relation "measure length") auto

declare chunks.simps [simp del]

fun send_chunks :: "u8 list list \<Rightarrow> SerialPort \<Rightarrow> tty_world \<Rightarrow> (device_error + unit) \<times> tty_world" where
  "send_chunks [] p w = (Inr (), w)"
| "send_chunks (c # cs) p w =
     (case SerialPort_write c p w of (Inl e, w) \<Rightarrow> (Inl e, w) | (Inr n, w) \<Rightarrow> send_chunks cs p w)"

text \<open>\<open>file\<close> is what the file holds, if it can be opened.\<close>

definition sendFile :: "string \<Rightarrow> u8 list option \<Rightarrow> SerialPort \<Rightarrow> tty_world \<Rightarrow> (emcom_error + int) \<times> tty_world" where
  "sendFile path file p w =
     (case file of
        None \<Rightarrow> (Inl (Em_runtime (''cannot open file: '' @ path)), w)
      | Some bs \<Rightarrow>
          (case send_chunks (chunks bs) p w of
             (Inl e, w) \<Rightarrow> (Inl (Em_device e), w)
           | (Inr _, w) \<Rightarrow> (case SerialPort_flush p w of (Inl e, w) \<Rightarrow> (Inl (Em_device e), w) | (Inr _, w) \<Rightarrow> (Inr 0, w))))"

definition escapeDisplayChar :: "u8 \<Rightarrow> u8" where
  "escapeDisplayChar c = (if 1 \<le> c \<and> c \<le> 26 then c + 64 else if c \<noteq> 0 then c else 63)"

definition printBanner :: "emcom_options \<Rightarrow> string" where
  "printBanner o1 =
     (let esc = [char_of (unat (escapeDisplayChar (em_escapeChar o1)))] in
      ''emcom: '' @ em_device o1 @ '' @ '' @ to_string_nat (unat (em_baudRate o1)) @ '' '' @ to_string_nat (unat (em_dataBits o1))
      @ (case em_parity o1 of Parity_even \<Rightarrow> ''E'' | Parity_odd \<Rightarrow> ''O'' | Parity_none \<Rightarrow> ''N'') @ to_string_nat (unat (em_stopBits o1)) @ [CHR 0x0A]
      @ ''escape: ^'' @ esc @ ''  quit: ^'' @ esc @ '' Ctrl-X  help: ^'' @ esc @ '' Ctrl-H'' @ [CHR 0x0A])"

text \<open>The program: its exit code. The port is closed when it is left, with an error as without.\<close>

definition emcom_main ::
  "(string \<Rightarrow> u8 list option) \<Rightarrow> (emcom_options \<Rightarrow> SerialPort \<Rightarrow> tty_world \<Rightarrow> tty_world) \<Rightarrow> string list \<Rightarrow> tty_world \<Rightarrow> int \<times> tty_world" where
  "emcom_main files interactive args w =
     (case parseOptions args of (ok, o1) \<Rightarrow>
        if \<not> ok then (1, w)
        else if em_showHelp o1 then (0, w)
        else case openPort o1 w of
            (Inl e, w) \<Rightarrow> (1, w)
          | (Inr p, w) \<Rightarrow>
              (case em_sendFile o1 of
                 Some path \<Rightarrow>
                   (case sendFile path (files path) p w of
                      (Inl e, w) \<Rightarrow> (1, snd (SerialPort_close p w))
                    | (Inr n, w) \<Rightarrow> (n, snd (SerialPort_close p w)))
               | None \<Rightarrow> (0, snd (SerialPort_close p (interactive o1 p w)))))"

subsection \<open>Keys\<close>

datatype key_action = K_none | K_help | K_quit | K_send "u8 list"

text \<open>What a key does, in the normal state and after the escape key (\<open>armed\<close>), and what is echoed.\<close>

definition key_step :: "u8 \<Rightarrow> bool \<Rightarrow> bool \<Rightarrow> u8 \<Rightarrow> bool \<times> key_action \<times> u8 list" where
  "key_step esc echo armed ch =
     (if \<not> armed then
        if ch = esc then (True, K_none, []) else (False, K_send [ch], if echo then [ch] else [])
      else if ch = 0x18 \<or> ch = 4 \<or> ch = 0x78 \<or> ch = 0x58 then (False, K_quit, [])
      else if ch = 8 \<or> ch = 0x68 \<or> ch = 0x48 then (False, K_help, [])
      else if ch = esc then (False, K_send [esc], [])
      else (False, K_send [esc, ch], []))"

fun action_bytes :: "key_action \<Rightarrow> u8 list" where
  "action_bytes (K_send bs) = bs" | "action_bytes a = []"

text \<open>What a sequence of keys sends, and the state after it.\<close>

fun typed_bytes :: "u8 \<Rightarrow> bool \<Rightarrow> u8 list \<Rightarrow> u8 list" where
  "typed_bytes esc armed [] = []"
| "typed_bytes esc armed (ch # keys) =
     (case key_step esc False armed ch of (armed, a, _) \<Rightarrow> action_bytes a @ typed_bytes esc armed keys)"

fun armed_after :: "u8 \<Rightarrow> bool \<Rightarrow> u8 list \<Rightarrow> bool" where
  "armed_after esc armed [] = armed"
| "armed_after esc armed (ch # keys) = armed_after esc (fst (key_step esc False armed ch)) keys"

subsection \<open>The two threads\<close>

text \<open>
  The receiving thread takes the lock, reads from the port, gives the lock back and shows what it got. The port is opened for blocking
  reads: a read returns when something has come in, or fails. The main thread reads a key, acts on it and, when it has to send,
  takes the lock and writes byte by byte. Both look at \<open>running\<close> at the top of their loops. A read of the port can also return nothing
  (after a hang-up, or with a minimum of zero left over from an earlier user of the terminal: the code does not set it), which is an event
  of its own, as is an interrupted read of a key. The terminal takes the output of one turn, at most 512 bytes, in one piece.
\<close>

datatype rx_pc = Rx_top | Rx_reading | Rx_show "u8 list" | Rx_done
datatype key_pc = Key_top | Key_read | Key_sending "u8 list" | Key_join | Key_exit

record console =
  co_running :: bool
  co_locked :: bool
  co_rx :: rx_pc
  co_main :: key_pc
  co_armed :: bool
  co_failed :: bool
  co_typed :: "u8 list"
  co_sent :: "u8 list"
  co_arrived :: "u8 list"
  co_incoming :: "u8 list"
  co_shown :: "u8 list"

definition new_console :: console where
  "new_console = \<lparr>co_running = True, co_locked = False, co_rx = Rx_top, co_main = Key_top, co_armed = False, co_failed = False, co_typed = [], co_sent = [],
     co_arrived = [], co_incoming = [], co_shown = []\<rparr>"

datatype console_event = Ev_thread | Ev_arrive | Ev_read_error | Ev_read_nothing

inductive console_step :: "u8 \<Rightarrow> console_event \<Rightarrow> console \<Rightarrow> console \<Rightarrow> bool" for esc where
  rx_begin: "co_rx c = Rx_top \<Longrightarrow> co_running c \<Longrightarrow> \<not> co_locked c \<Longrightarrow> console_step esc Ev_thread c (c\<lparr>co_locked := True, co_rx := Rx_reading\<rparr>)"
| rx_end: "co_rx c = Rx_top \<Longrightarrow> \<not> co_running c \<Longrightarrow> console_step esc Ev_thread c (c\<lparr>co_rx := Rx_done\<rparr>)"
| rx_read: "co_rx c = Rx_reading \<Longrightarrow> 0 < n \<Longrightarrow> n \<le> length (co_incoming c) \<Longrightarrow> n \<le> 512 \<Longrightarrow>
    console_step esc Ev_thread c (c\<lparr>co_locked := False, co_rx := Rx_show (take n (co_incoming c)), co_incoming := drop n (co_incoming c)\<rparr>)"
| rx_error: "co_rx c = Rx_reading \<Longrightarrow> console_step esc Ev_read_error c (c\<lparr>co_locked := False, co_running := False, co_rx := Rx_done\<rparr>)"
| rx_nothing: "co_rx c = Rx_reading \<Longrightarrow> console_step esc Ev_read_nothing c (c\<lparr>co_locked := False, co_rx := Rx_top\<rparr>)"
| rx_shown: "co_rx c = Rx_show bs \<Longrightarrow> console_step esc Ev_thread c (c\<lparr>co_shown := co_shown c @ bs, co_rx := Rx_top\<rparr>)"
| rx_show_error: "co_rx c = Rx_show bs \<Longrightarrow> console_step esc Ev_thread c (c\<lparr>co_running := False, co_rx := Rx_done\<rparr>)"
| bytes_arrive: "console_step esc Ev_arrive c (c\<lparr>co_arrived := co_arrived c @ bs, co_incoming := co_incoming c @ bs\<rparr>)"
| main_wait: "co_main c = Key_top \<Longrightarrow> co_running c \<Longrightarrow> console_step esc Ev_thread c (c\<lparr>co_main := Key_read\<rparr>)"
| main_stop: "co_main c = Key_top \<Longrightarrow> \<not> co_running c \<Longrightarrow> console_step esc Ev_thread c (c\<lparr>co_main := Key_join\<rparr>)"
| main_interrupted: "co_main c = Key_read \<Longrightarrow> console_step esc Ev_thread c (c\<lparr>co_main := Key_top\<rparr>)"
| main_eof: "co_main c = Key_read \<Longrightarrow> console_step esc Ev_thread c (c\<lparr>co_main := Key_join, co_running := False\<rparr>)"
| main_key: "co_main c = Key_read \<Longrightarrow> key_step esc echo (co_armed c) ch = (armed, a, shown) \<Longrightarrow>
    console_step esc Ev_thread c (c\<lparr>co_armed := armed, co_typed := co_typed c @ [ch],
      co_main := (case a of K_quit \<Rightarrow> Key_join | K_send bs \<Rightarrow> Key_sending bs | _ \<Rightarrow> Key_top),
      co_running := (co_running c \<and> a \<noteq> K_quit)\<rparr>)"
| main_send: "co_main c = Key_sending bs \<Longrightarrow> \<not> co_locked c \<Longrightarrow> console_step esc Ev_thread c (c\<lparr>co_sent := co_sent c @ bs, co_main := Key_top\<rparr>)"
| main_send_error: "co_main c = Key_sending bs \<Longrightarrow> \<not> co_locked c \<Longrightarrow> n < length bs \<Longrightarrow>
    console_step esc Ev_thread c (c\<lparr>co_sent := co_sent c @ take n bs, co_main := Key_top, co_running := False, co_failed := True\<rparr>)"
| main_join: "co_main c = Key_join \<Longrightarrow> co_rx c = Rx_done \<Longrightarrow> console_step esc Ev_thread c (c\<lparr>co_main := Key_exit\<rparr>)"

inductive console_run :: "u8 \<Rightarrow> console_event list \<Rightarrow> console \<Rightarrow> console \<Rightarrow> bool" for esc where
  run_nil: "console_run esc [] c c"
| run_cons: "console_step esc e c c1 \<Longrightarrow> console_run esc es c1 c2 \<Longrightarrow> console_run esc (e # es) c c2"

inductive_cases run_consE: "console_run esc (e # es) c c2"
inductive_cases run_nilE: "console_run esc [] c c2"

subsection \<open>Options are read as they are written\<close>

lemma digits_no_space: "is_digit c \<Longrightarrow> \<not> is_space c \<and> c \<noteq> CHR ''-'' \<and> c \<noteq> CHR ''+''"
  by (auto simp: is_digit_code is_space_def)

lemma strtoul_to_string: "n < 2 ^ 64 \<Longrightarrow> strtoul (to_string_nat n) = of_nat n"
proof -
  assume n: "n < 2 ^ 64"
  obtain c r where s: "to_string_nat n = c # r" using to_string_nat_nonempty [of n] by (cases "to_string_nat n") auto
  then have c: "\<not> is_space c" "c \<noteq> CHR ''-''" "c \<noteq> CHR ''+''" using to_string_nat_digits [of n] digits_no_space by auto
  have "takeWhile is_digit (to_string_nat n) = to_string_nat n" using to_string_nat_digits [of n] by (simp add: takeWhile_eq_all_conv)
  then show ?thesis using n c read_to_string_nat [of n] by (simp add: strtoul_def Let_def s)
qed

definition emcom_args :: "emcom_options \<Rightarrow> string list" where
  "emcom_args o1 =
     [''-b'', to_string_nat (unat (em_baudRate o1)), ''--databits'', to_string_nat (unat (em_dataBits o1)), ''-s'', to_string_nat (unat (em_stopBits o1)),
      ''--parity'', case em_parity o1 of Parity_none \<Rightarrow> ''none'' | Parity_even \<Rightarrow> ''e'' | Parity_odd \<Rightarrow> ''odd'']
     @ (if em_localEcho o1 then [''-e''] else []) @ (case em_sendFile o1 of None \<Rightarrow> [] | Some f \<Rightarrow> [''--send'', f]) @ [em_device o1]"

lemma u32_of_strtoul: "ucast (strtoul (to_string_nat (unat (x :: u32)))) = x"
proof -
  have "unat x < 2 ^ LENGTH(32)" by (rule unsigned_less)
  then have "strtoul (to_string_nat (unat x)) = of_nat (unat x)" by (intro strtoul_to_string) simp
  also have "\<dots> = (ucast x :: u64)" by simp
  finally show ?thesis by (simp only:) (rule bit_word_eqI, simp add: bit_simps)
qed

lemma u8_of_strtoul: "ucast (strtoul (to_string_nat (unat (x :: u8)))) = x"
proof -
  have "unat x < 2 ^ LENGTH(8)" by (rule unsigned_less)
  then have "strtoul (to_string_nat (unat x)) = of_nat (unat x)" by (intro strtoul_to_string) simp
  also have "\<dots> = (ucast x :: u64)" by simp
  finally show ?thesis by (simp only:) (rule bit_word_eqI, simp add: bit_simps)
qed

lemma parse_value: "value_option arg = Some f \<Longrightarrow> f v o1 = Some o2 \<Longrightarrow> arg \<noteq> ''-h'' \<Longrightarrow> arg \<noteq> ''--help'' \<Longrightarrow>
   parse_from (arg # v # args) n o1 = parse_from args n o2"
  by (subst parse_from.simps) simp

lemma parse_nil: "parse_from [] n o1 = (n = 1, o1)"
  by (simp add: parse_from.simps [of "[]"])

lemma parse_device: "take 1 d \<noteq> ''-'' \<Longrightarrow> parse_from [d] 0 o1 = (True, o1\<lparr>em_device := d\<rparr>)"
proof -
  assume d: "take 1 d \<noteq> ''-''"
  then have other: "d \<noteq> x" if "take 1 x = ''-''" for x using that by auto
  have "value_option d = None" by (simp add: value_option_def other)
  then show ?thesis using d by (simp add: parse_from.simps [of "[d]"] parse_nil other)
qed

lemma parse_echo: "parse_from (''-e'' # args) n o1 = parse_from args n (o1\<lparr>em_localEcho := True\<rparr>)"
  by (subst parse_from.simps) (simp add: value_option_def)

lemma value_options:
  "value_option ''-b'' = Some (\<lambda>v o1. Some (o1\<lparr>em_baudRate := ucast (strtoul v)\<rparr>))"
  "value_option ''--databits'' = Some (\<lambda>v o1. Some (o1\<lparr>em_dataBits := ucast (strtoul v)\<rparr>))"
  "value_option ''-s'' = Some (\<lambda>v o1. Some (o1\<lparr>em_stopBits := ucast (strtoul v)\<rparr>))"
  "value_option ''--parity'' = Some (\<lambda>v o1. map_option (\<lambda>p. o1\<lparr>em_parity := p\<rparr>) (parseParity v))"
  "value_option ''--send'' = Some (\<lambda>v o1. Some (o1\<lparr>em_sendFile := Some v\<rparr>))"
  by (simp_all add: value_option_def)

lemma parse_steps:
  "parse_from (''-b'' # v # args) n o1 = parse_from args n (o1\<lparr>em_baudRate := ucast (strtoul v)\<rparr>)"
  "parse_from (''--databits'' # v # args) n o1 = parse_from args n (o1\<lparr>em_dataBits := ucast (strtoul v)\<rparr>)"
  "parse_from (''-s'' # v # args) n o1 = parse_from args n (o1\<lparr>em_stopBits := ucast (strtoul v)\<rparr>)"
  "parse_from (''--send'' # v # args) n o1 = parse_from args n (o1\<lparr>em_sendFile := Some v\<rparr>)"
  by (rule parse_value [OF value_options(1)] parse_value [OF value_options(2)] parse_value [OF value_options(3)] parse_value [OF value_options(5)]; simp)+

lemma parse_parity: "parseParity v = Some p \<Longrightarrow> parse_from (''--parity'' # v # args) n o1 = parse_from args n (o1\<lparr>em_parity := p\<rparr>)"
  by (rule parse_value [OF value_options(4)]) simp_all

theorem written_options_are_read:
  assumes "take 1 (em_device o1) \<noteq> ''-''" "em_escapeChar o1 = 1" "\<not> em_showHelp o1"
  shows "parseOptions (emcom_args o1) = (True, o1)"
proof -
  have p: "parseParity (case em_parity o1 of Parity_none \<Rightarrow> ''none'' | Parity_even \<Rightarrow> ''e'' | Parity_odd \<Rightarrow> ''odd'') = Some (em_parity o1)"
    by (simp add: parseParity_def split: parity.split)
  have o1: "o1 = default_emcom_options\<lparr>em_baudRate := em_baudRate o1, em_dataBits := em_dataBits o1, em_stopBits := em_stopBits o1, em_parity := em_parity o1,
      em_localEcho := em_localEcho o1, em_sendFile := em_sendFile o1, em_device := em_device o1\<rparr>"
    using assms(2,3) by (cases o1) (simp add: default_emcom_options_def)
  have "parseOptions (emcom_args o1) = (True, default_emcom_options\<lparr>em_baudRate := em_baudRate o1, em_dataBits := em_dataBits o1,
      em_stopBits := em_stopBits o1, em_parity := em_parity o1, em_localEcho := em_localEcho o1, em_sendFile := em_sendFile o1, em_device := em_device o1\<rparr>)"
    by (cases "em_sendFile o1"; cases "em_localEcho o1")
      (simp_all add: emcom_args_def parseOptions_def parse_steps parse_echo parse_parity [OF p] parse_device [OF assms(1)] u32_of_strtoul u8_of_strtoul,
       simp_all add: default_emcom_options_def)
  with o1 show ?thesis by simp
qed

subsection \<open>The port is set as the options say\<close>

theorem opened_console_is_set:
  assumes "openPort o1 w = (Inr p, w')"
  shows "(em_dataBits o1 = 7 \<or> em_dataBits o1 = 8) \<and> (em_stopBits o1 = 1 \<or> em_stopBits o1 = 2) \<and> se_state p = Dev_Open \<and>
    line_is_set \<lparr>sp_baudRate = em_baudRate o1, sp_dataBits = em_dataBits o1, sp_stopBits = em_stopBits o1, sp_parity = em_parity o1, sp_nonBlocking = False\<rparr> (tw_tio w')"
proof -
  let ?cfg = "\<lparr>sp_baudRate = em_baudRate o1, sp_dataBits = em_dataBits o1, sp_stopBits = em_stopBits o1, sp_parity = em_parity o1, sp_nonBlocking = False\<rparr>"
  have b: "serial_build (serial_parity (em_parity o1) (serial_stopBits (em_stopBits o1) (serial_dataBits (em_dataBits o1)
      (serial_baudRate (em_baudRate o1) (serial_on (em_device o1)))))) = new_SerialPort (em_device o1) ?cfg"
    by (simp add: serial_build_def serial_parity_def serial_stopBits_def serial_dataBits_def serial_baudRate_def serial_on_def default_SerialPortConfig_def)
  obtain r p1 w1 where o: "SerialPort_open (new_SerialPort (em_device o1) ?cfg) w = (r, p1, w1)" by (metis prod_cases3)
  have bits: "(em_dataBits o1 = 7 \<or> em_dataBits o1 = 8) \<and> (em_stopBits o1 = 1 \<or> em_stopBits o1 = 2)"
    using assms by (auto simp: openPort_def Let_def split: if_splits)
  then have r: "r = Inr ()" "p1 = p" "w1 = w'" using assms o b by (auto simp: openPort_def Let_def serial_build_open_def split: sum.splits)
  have n: "se_state (new_SerialPort (em_device o1) ?cfg) \<noteq> Dev_Open" "se_config (new_SerialPort (em_device o1) ?cfg) = ?cfg"
    "fd_inv se_state se_fd tty_fds (new_SerialPort (em_device o1) ?cfg) w" by (simp_all add: new_SerialPort_def fd_inv_def)
  have "se_state p1 = Dev_Open" using serial.dev.open_opens [OF n(3)] o r(1) by blast
  then show ?thesis using bits opened_port_is_set [OF o [unfolded r] n(1)] n(2) r by simp
qed

text \<open>Whatever the arguments and whatever fails, the program leaves no descriptor open.\<close>

lemma SerialPort_write_frame: "SerialPort_write bs p w = (r, w') \<Longrightarrow> tty_fds w' = tty_fds w"
  using SerialPort_write_fds [of bs p w] by simp

lemma SerialPort_flush_frame: "SerialPort_flush p w = (r, w') \<Longrightarrow> tty_fds w' = tty_fds w"
  using SerialPort_flush_fds [of p w] by simp

lemma send_chunks_fds: "send_chunks cs p w = (r, w') \<Longrightarrow> tty_fds w' = tty_fds w"
  by (induction cs arbitrary: w) (fastforce dest: SerialPort_write_frame split: prod.splits sum.splits)+

lemma sendFile_fds: "sendFile path file p w = (r, w') \<Longrightarrow> tty_fds w' = tty_fds w"
  by (auto simp: sendFile_def dest!: send_chunks_fds SerialPort_flush_frame split: option.splits prod.splits sum.splits)

lemma openPort_fds:
  assumes "openPort o1 w = (r, w')"
  shows "case r of Inl e \<Rightarrow> set (tty_fds w') = set (tty_fds w)
    | Inr p \<Rightarrow> fd_inv se_state se_fd tty_fds p w' \<and> set (tty_fds w') - set (fd_held se_fd p) = set (tty_fds w)"
proof -
  let ?b = "serial_parity (em_parity o1) (serial_stopBits (em_stopBits o1) (serial_dataBits (em_dataBits o1)
      (serial_baudRate (em_baudRate o1) (serial_on (em_device o1)))))"
  obtain a p w1 where o: "SerialPort_open (serial_build ?b) w = (a, p, w1)" by (metis prod_cases3)
  have n: "fd_inv se_state se_fd tty_fds (serial_build ?b) w" "se_state (serial_build ?b) \<noteq> Dev_Open" "fd_held se_fd (serial_build ?b) = []"
    by (simp_all add: serial_build_def new_SerialPort_def fd_inv_def fd_held_def split: prod.split)
  from serial.dev.open_inv [OF n(1) o] serial.dev.open_others [OF n(1) o] n(3)
  have s: "fd_inv se_state se_fd tty_fds p w1" "set (tty_fds w1) - set (fd_held se_fd p) = set (tty_fds w)" by simp_all
  show ?thesis
  proof (cases a)
    case (Inl e)
    then have "set (tty_fds w1) = set (tty_fds w)" using serial.dev.failed_open_restores [OF n(1,2)] o by blast
    with Inl assms o show ?thesis by (auto simp: openPort_def Let_def serial_build_open_def split: if_splits)
  next
    case (Inr u)
    with s assms o show ?thesis by (auto simp: openPort_def Let_def serial_build_open_def split: if_splits)
  qed
qed

theorem emcom_leaks_nothing:
  assumes "\<And>o1 p w. tty_fds (interactive o1 p w) = tty_fds w"
  shows "set (tty_fds (snd (emcom_main files interactive args w))) = set (tty_fds w)"
proof -
  obtain ok o1 where p: "parseOptions args = (ok, o1)" by fastforce
  obtain r w1 where o: "openPort o1 w = (r, w1)" by fastforce
  note f = openPort_fds [OF o]
  have close: "set (tty_fds (snd (SerialPort_close q w2))) = set (tty_fds w)"
    if "r = Inr q" "tty_fds w2 = tty_fds w1" for q w2
    using f that serial.dev.close_releases [of q w2] by (cases "SerialPort_close q w2") (simp add: fd_inv_def)
  show ?thesis
  proof (cases "ok \<and> \<not> em_showHelp o1 \<and> \<not> isl r")
    case False
    with p o f show ?thesis by (auto simp: emcom_main_def split: sum.splits)
  next
    case True
    then obtain q where q: "r = Inr q" by (cases r) auto
    show ?thesis
    proof (cases "em_sendFile o1")
      case None
      with True p o q close [OF q assms] show ?thesis by (simp add: emcom_main_def)
    next
      case (Some path)
      obtain a w2 where a: "sendFile path (files path) q w1 = (a, w2)" by fastforce
      from close [OF q sendFile_fds [OF a]] Some True p o q a show ?thesis by (cases a) (simp_all add: emcom_main_def)
    qed
  qed
qed

subsection \<open>Sending a file\<close>

lemma write_retry_writes:
  "write_retry fd bs k = (Inr n, k') \<Longrightarrow> n \<le> length bs \<and> k_written k' = k_written k @ [(fd, take n bs)]"
proof (induction fd bs k rule: write_retry.induct)
  case (1 fd bs k)
  obtain r k1 where r: "sys_write fd bs k = (r, k1)" by fastforce
  show ?case
  proof (cases r)
    case (Inl e)
    with r have "k_written k1 = k_written k" using sys_write_ok(2) [of fd bs k e] by simp
    with 1 r Inl show ?thesis by (auto simp: write_retry.simps [of fd bs k] split: if_splits)
  next
    case (Inr m)
    with r 1(2) show ?thesis using sys_write_ok(1) [of fd bs k m] by (simp add: write_retry.simps [of fd bs k])
  qed
qed

lemma SerialPort_write_writes:
  "SerialPort_write bs p w = (Inr n, w') \<Longrightarrow> bs \<noteq> [] \<Longrightarrow> n \<le> length bs \<and> k_written (tw_kernel w') = k_written (tw_kernel w) @ [(se_fd p, take n bs)]"
  by (auto simp: SerialPort_write_def throwErrno_def dest: write_retry_writes split: sum.splits prod.splits if_splits)

lemma chunks_concat: "concat (chunks bs) = bs"
  by (induction bs rule: chunks.induct) (subst chunks.simps, simp)

lemma chunks_nonempty: "list_all (\<lambda>c. c \<noteq> []) (chunks bs)"
  by (induction bs rule: chunks.induct) (subst chunks.simps, simp)

lemma send_chunks_pieces:
  "send_chunks cs p w = (Inr u, w') \<Longrightarrow> list_all (\<lambda>c. c \<noteq> []) cs \<Longrightarrow>
   \<exists>ns. list_all2 (\<lambda>n c. n \<le> length c) ns cs \<and> k_written (tw_kernel w') = k_written (tw_kernel w) @ map2 (\<lambda>n c. (se_fd p, take n c)) ns cs"
proof (induction cs arbitrary: w)
  case (Cons c cs)
  obtain r w1 where r: "SerialPort_write c p w = (r, w1)" by fastforce
  with Cons.prems obtain n where n: "r = Inr n" "send_chunks cs p w1 = (Inr u, w')" by (cases r) auto
  with r Cons.prems SerialPort_write_writes [of c p w n w1]
  have w1: "n \<le> length c" "k_written (tw_kernel w1) = k_written (tw_kernel w) @ [(se_fd p, take n c)]" by simp_all
  from Cons.IH [OF n(2)] Cons.prems obtain ns where "list_all2 (\<lambda>n c. n \<le> length c) ns cs"
    "k_written (tw_kernel w') = k_written (tw_kernel w1) @ map2 (\<lambda>n c. (se_fd p, take n c)) ns cs" by auto
  with w1 show ?case by (intro exI [of _ "n # ns"]) simp
qed simp

text \<open>
  A file that is reported as sent went out in pieces of 4096 bytes, of each of which a beginning was written: what the device did not
  take at once is lost.
\<close>

theorem sent_file_pieces:
  assumes "sendFile path (Some bs) p w = (Inr code, w')"
  shows "\<exists>ns. list_all2 (\<lambda>n c. n \<le> length c) ns (chunks bs)
    \<and> k_written (tw_kernel w') = k_written (tw_kernel w) @ map2 (\<lambda>n c. (se_fd p, take n c)) ns (chunks bs)
    \<and> (ns = map length (chunks bs) \<longrightarrow> concat (map snd (map2 (\<lambda>n c. (se_fd p, take n c)) ns (chunks bs))) = bs)"
proof -
  obtain r w1 where c: "send_chunks (chunks bs) p w = (r, w1)" by fastforce
  with assms obtain u where u: "r = Inr u" by (cases r) (auto simp: sendFile_def)
  have "k_written (tw_kernel w') = k_written (tw_kernel w1)" using assms c u
    by (auto simp: sendFile_def SerialPort_flush_def tty_call_def throwErrno_def dest!: sys_call_frame split: prod.splits sum.splits option.splits)
  moreover have "map2 (\<lambda>n c. (se_fd p, take n c)) (map length cs) cs = map (Pair (se_fd p)) cs" for cs :: "u8 list list" by (induction cs) auto
  ultimately show ?thesis using send_chunks_pieces [OF c [unfolded u] chunks_nonempty] chunks_concat [of bs]
    by (auto simp: comp_def)
qed

subsection \<open>What is typed is sent\<close>

lemma key_step_echo: "key_step esc echo armed ch = (armed', a, shown) \<Longrightarrow> \<exists>shown'. key_step esc False armed ch = (armed', a, shown')"
  by (auto simp: key_step_def split: if_splits)

lemma typed_bytes_append: "typed_bytes esc armed (ks @ ls) = typed_bytes esc armed ks @ typed_bytes esc (armed_after esc armed ks) ls"
  by (induction ks arbitrary: armed) (auto split: prod.split)

lemma armed_after_append: "armed_after esc armed (ks @ ls) = armed_after esc (armed_after esc armed ks) ls"
  by (induction ks arbitrary: armed) auto

fun pending_bytes :: "key_pc \<Rightarrow> u8 list" where
  "pending_bytes (Key_sending bs) = bs" | "pending_bytes pc = []"

fun showing :: "rx_pc \<Rightarrow> u8 list" where
  "showing (Rx_show bs) = bs" | "showing pc = []"

definition console_inv :: "u8 \<Rightarrow> console \<Rightarrow> bool" where
  "console_inv esc c =
     (co_armed c = armed_after esc False (co_typed c) \<and> (co_locked c = (co_rx c = Rx_reading)) \<and>
      (if co_failed c then \<not> co_running c \<and> co_main c \<in> {Key_top, Key_join, Key_exit} \<and> strict_prefix (co_sent c) (typed_bytes esc False (co_typed c))
       else typed_bytes esc False (co_typed c) = co_sent c @ pending_bytes (co_main c)) \<and>
      (if co_rx c = Rx_done then prefix (co_shown c) (co_arrived c) else co_arrived c = co_shown c @ showing (co_rx c) @ co_incoming c) \<and>
      (co_main c = Key_exit \<longrightarrow> co_rx c = Rx_done))"

lemma console_step_inv: "console_step esc e c c' \<Longrightarrow> console_inv esc c \<Longrightarrow> console_inv esc c'"
proof (induction rule: console_step.induct)
  case (main_key c echo ch armed a shown)
  then have f: "\<not> co_failed c" by (auto simp: console_inv_def split: if_splits)
  obtain shown' where k: "key_step esc False (armed_after esc False (co_typed c)) ch = (armed, a, shown')"
    using key_step_echo [OF main_key(2)] main_key(3) by (auto simp: console_inv_def)
  have "typed_bytes esc False (co_typed c @ [ch]) = co_sent c @ action_bytes a" "armed_after esc False (co_typed c @ [ch]) = armed"
    using main_key(1,3) f k by (simp_all add: console_inv_def typed_bytes_append armed_after_append)
  with main_key f show ?case by (cases a) (auto simp: console_inv_def split: if_splits)
next
  case (main_send_error c bs n)
  then have f: "\<not> co_failed c" by (auto simp: console_inv_def split: if_splits)
  then have "typed_bytes esc False (co_typed c) = (co_sent c @ take n bs) @ drop n bs" using main_send_error by (simp add: console_inv_def)
  then have "prefix (co_sent c @ take n bs) (typed_bytes esc False (co_typed c))" by (rule prefixI)
  moreover have "typed_bytes esc False (co_typed c) = co_sent c @ bs" using main_send_error f by (simp add: console_inv_def)
  ultimately have "strict_prefix (co_sent c @ take n bs) (typed_bytes esc False (co_typed c))"
    using main_send_error(3) by (metis length_take less_irrefl min.absorb4 same_append_eq strict_prefixI)
  with main_send_error f show ?case by (simp add: console_inv_def)
next
  case (rx_read c n)
  then show ?case by (auto simp: console_inv_def)
next
  case (rx_error c)
  then show ?case by (auto simp: console_inv_def)
next
  case (rx_nothing c)
  then show ?case by (auto simp: console_inv_def)
qed (auto simp: console_inv_def)

lemma console_run_inv: "console_run esc es c c' \<Longrightarrow> console_inv esc c \<Longrightarrow> console_inv esc c'"
  by (induction rule: console_run.induct) (auto dest: console_step_inv)

lemma new_console_inv: "console_inv esc new_console"
  by (simp add: console_inv_def new_console_def)

text \<open>Keys other than the escape key are sent as they are; twice the escape key sends it once.\<close>

lemma plain_keys: "esc \<notin> set ks \<Longrightarrow> typed_bytes esc False ks = ks"
  by (induction ks) (auto simp: key_step_def)

fun escaped :: "u8 \<Rightarrow> u8 list \<Rightarrow> u8 list" where
  "escaped esc [] = []" | "escaped esc (b # bs) = (if b = esc then [esc, esc] else [b]) @ escaped esc bs"

lemma escaped_keys: "esc \<notin> {0x18, 4, 0x78, 0x58, 8, 0x68, 0x48} \<Longrightarrow> typed_bytes esc False (escaped esc bs) = bs"
  by (induction bs) (auto simp: key_step_def)

text \<open>As long as the receiving thread does not hold the lock, each key can be read and sent.\<close>

definition console_ready :: "console \<Rightarrow> bool" where
  "console_ready c = (co_main c = Key_top \<and> co_running c \<and> \<not> co_locked c \<and> \<not> co_failed c)"

lemma run_append: "console_run esc es c c1 \<Longrightarrow> console_run esc es' c1 c2 \<Longrightarrow> console_run esc (es @ es') c c2"
  by (induction rule: console_run.induct) (auto intro: console_run.intros)

lemma run_one: "console_step esc e c c' \<Longrightarrow> console_run esc [e] c c'"
  by (auto intro: console_run.intros)

lemma key_round:
  assumes c: "console_ready c" and k: "key_step esc False (co_armed c) ch = (ar, a, sh)" "a \<noteq> K_quit"
  shows "\<exists>es c'. console_run esc es c c' \<and> console_ready c' \<and> co_armed c' = ar \<and> co_typed c' = co_typed c @ [ch]"
proof -
  define c1 where "c1 = c\<lparr>co_main := Key_read\<rparr>"
  define c2 where "c2 = c1\<lparr>co_armed := ar, co_typed := co_typed c1 @ [ch],
      co_main := (case a of K_quit \<Rightarrow> Key_join | K_send bs \<Rightarrow> Key_sending bs | _ \<Rightarrow> Key_top), co_running := (co_running c1 \<and> a \<noteq> K_quit)\<rparr>"
  have "console_step esc Ev_thread c c1" unfolding c1_def by (rule main_wait) (use c in \<open>simp_all add: console_ready_def\<close>)
  moreover have "console_step esc Ev_thread c1 c2" unfolding c2_def by (rule main_key [where echo = False and shown = sh]) (use k in \<open>simp_all add: c1_def\<close>)
  ultimately have r: "console_run esc [Ev_thread, Ev_thread] c c2" by (auto intro: console_run.intros)
  show ?thesis
  proof (cases a)
    case (K_send bs)
    define c3 where "c3 = c2\<lparr>co_sent := co_sent c2 @ bs, co_main := Key_top\<rparr>"
    have "console_step esc Ev_thread c2 c3" unfolding c3_def
      by (rule main_send) (use K_send c in \<open>simp_all add: c2_def c1_def console_ready_def\<close>)
    from run_append [OF r run_one [OF this]] have "console_run esc [Ev_thread, Ev_thread, Ev_thread] c c3" by simp
    moreover have "console_ready c3 \<and> co_armed c3 = ar \<and> co_typed c3 = co_typed c @ [ch]"
      using c K_send by (simp add: c3_def c2_def c1_def console_ready_def)
    ultimately show ?thesis by blast
  next
    case K_quit
    with k show ?thesis by simp
  next
    case K_none
    then have "console_ready c2 \<and> co_armed c2 = ar \<and> co_typed c2 = co_typed c @ [ch]" using c by (simp add: c2_def c1_def console_ready_def)
    with r show ?thesis by blast
  next
    case K_help
    then have "console_ready c2 \<and> co_armed c2 = ar \<and> co_typed c2 = co_typed c @ [ch]" using c by (simp add: c2_def c1_def console_ready_def)
    with r show ?thesis by blast
  qed
qed

lemma text_can_be_typed:
  assumes "esc \<notin> {0x18, 4, 0x78, 0x58, 8, 0x68, 0x48}"
  shows "console_ready c \<Longrightarrow> \<not> co_armed c \<Longrightarrow>
    \<exists>es c'. console_run esc es c c' \<and> console_ready c' \<and> \<not> co_armed c' \<and> co_typed c' = co_typed c @ escaped esc bs"
proof (induction bs arbitrary: c)
  case Nil
  then show ?case by (intro exI [of _ "[]"] exI [of _ c]) (simp add: console_run.intros)
next
  case (Cons b bs)
  have "\<exists>es c1. console_run esc es c c1 \<and> console_ready c1 \<and> \<not> co_armed c1 \<and> co_typed c1 = co_typed c @ (if b = esc then [esc, esc] else [b])"
  proof (cases "b = esc")
    case False
    then have "key_step esc False (co_armed c) b = (False, K_send [b], [])" using Cons.prems by (simp add: key_step_def)
    from key_round [OF Cons.prems(1) this] False show ?thesis by auto
  next
    case True
    then have "key_step esc False (co_armed c) b = (True, K_none, [])" using Cons.prems by (simp add: key_step_def)
    from key_round [OF Cons.prems(1) this] obtain es c1 where c1: "console_run esc es c c1" "console_ready c1" "co_armed c1" "co_typed c1 = co_typed c @ [b]" by auto
    have "key_step esc False (co_armed c1) esc = (False, K_send [esc], [])" using c1(3) assms by (simp add: key_step_def)
    from key_round [OF c1(2) this] obtain es' c2 where c2: "console_run esc es' c1 c2" "console_ready c2" "\<not> co_armed c2" "co_typed c2 = co_typed c1 @ [esc]" by auto
    have "console_run esc (es @ es') c c2" by (rule run_append [OF c1(1) c2(1)])
    then show ?thesis using c1 c2 True by (intro exI [of _ "es @ es'"] exI [of _ c2]) simp
  qed
  then obtain es c1 where c1: "console_run esc es c c1" "console_ready c1" "\<not> co_armed c1"
    "co_typed c1 = co_typed c @ (if b = esc then [esc, esc] else [b])" by blast
  from Cons.IH [OF c1(2,3)] obtain es' c2 where c2: "console_run esc es' c1 c2" "console_ready c2" "\<not> co_armed c2" "co_typed c2 = co_typed c1 @ escaped esc bs" by blast
  have "console_run esc (es @ es') c c2" by (rule run_append [OF c1(1) c2(1)])
  then show ?case using c1 c2 by (intro exI [of _ "es @ es'"] exI [of _ c2]) simp
qed

text \<open>C37:
  In every interleaving of keyboard, port and the two threads: what went to the port is what the keys typed so far mean, in order and
  without gaps, up to the bytes being sent; after a failed write it is a proper beginning of that, and nothing more is sent. What is
  shown is what arrived, in order. So a text typed with its escape characters doubled arrives unchanged.
\<close>

theorem console_sends_what_is_typed:
  assumes "console_run esc es new_console c"
  shows "(if co_failed c then strict_prefix (co_sent c) (typed_bytes esc False (co_typed c)) \<and> pending_bytes (co_main c) = []
       else typed_bytes esc False (co_typed c) = co_sent c @ pending_bytes (co_main c))
    \<and> (if co_rx c = Rx_done then prefix (co_shown c) (co_arrived c) else co_arrived c = co_shown c @ showing (co_rx c) @ co_incoming c)
    \<and> (esc \<notin> {0x18, 4, 0x78, 0x58, 8, 0x68, 0x48} \<and> co_typed c = escaped esc text_bytes \<and> co_main c = Key_top \<and> \<not> co_failed c
        \<longrightarrow> co_sent c = text_bytes)"
proof -
  have c: "console_inv esc c" by (rule console_run_inv [OF assms new_console_inv])
  then have "typed_bytes esc False (co_typed c) = co_sent c @ pending_bytes (co_main c)" if "\<not> co_failed c" using that by (simp add: console_inv_def)
  then have "co_sent c = text_bytes" if "esc \<notin> {0x18, 4, 0x78, 0x58, 8, 0x68, 0x48}" "co_typed c = escaped esc text_bytes" "co_main c = Key_top" "\<not> co_failed c"
    using escaped_keys [OF that(1), of text_bytes] that by simp
  then show ?thesis using c by (auto simp: console_inv_def)
qed

lemma console_sends_what_is_typed_witness:
  "\<exists>es c. console_run 1 es new_console c \<and> co_typed c = [1, 1, 65] \<and> co_sent c = [1, 65]"
proof -
  have "console_ready new_console" "\<not> co_armed new_console" by (simp_all add: console_ready_def new_console_def)
  from text_can_be_typed [OF _ this, of 1 "[1, 65]"] obtain es c where c: "console_run 1 es new_console c" "console_ready c"
    "co_typed c = escaped 1 [1, 65]" by (auto simp: new_console_def)
  from console_sends_what_is_typed [OF c(1), of "[1, 65]"] c(2,3) have "co_sent c = [1, 65]" by (simp add: console_ready_def)
  with c show ?thesis by (intro exI [of _ es] exI [of _ c]) simp
qed

text \<open>
  While the receiving thread waits for the port it holds the lock: until something arrives, or reading fails, nothing that is typed
  is sent, whatever the threads do, and the program does not end.
\<close>

lemma blocked_step:
  "console_step esc e c c' \<Longrightarrow> e = Ev_thread \<Longrightarrow> co_rx c = Rx_reading \<Longrightarrow> co_incoming c = [] \<Longrightarrow> console_inv esc c \<Longrightarrow>
   co_rx c' = Rx_reading \<and> co_incoming c' = [] \<and> co_sent c' = co_sent c"
  by (induction rule: console_step.induct) (auto simp: console_inv_def)

lemma blocked_run:
  "console_run esc es c c' \<Longrightarrow> list_all (\<lambda>e. e = Ev_thread) es \<Longrightarrow> co_rx c = Rx_reading \<Longrightarrow> co_incoming c = [] \<Longrightarrow> console_inv esc c \<Longrightarrow>
   co_rx c' = Rx_reading \<and> co_sent c' = co_sent c"
proof (induction rule: console_run.induct)
  case (run_cons e c c1 es c2)
  then have "co_rx c1 = Rx_reading \<and> co_incoming c1 = [] \<and> co_sent c1 = co_sent c" "console_inv esc c1"
    using blocked_step [of esc e c c1] console_step_inv [OF run_cons(1)] by simp_all
  with run_cons show ?case by simp
qed simp

theorem console_waits_for_the_port:
  assumes "console_run esc es new_console c" "co_rx c = Rx_reading" "co_incoming c = []"
    and "console_run esc es' c c'" "list_all (\<lambda>e. e = Ev_thread) es'"
  shows "co_sent c' = co_sent c \<and> co_main c' \<noteq> Key_exit"
proof -
  have c: "console_inv esc c" by (rule console_run_inv [OF assms(1) new_console_inv])
  have "console_inv esc c'" by (rule console_run_inv [OF assms(4) c])
  with blocked_run [OF assms(4,5,2,3) c] show ?thesis by (auto simp: console_inv_def)
qed

end
