(* ===== verification/Mqtt_Client.thy ===== *)
theory Mqtt_Client
  imports Osal_Io Log_Service
begin

section \<open>The MQTT client (components/mqtt/mqtt\_client.cpp)\<close>

text \<open>
  A wrapper around the synchronous client of a third-party library. Of the library the model has what the code relies on: each
  call returns a code, zero for success and a negative number for its own errors (connecting may also return the positive code of the
  server's refusal); a client that was created lives until it is destroyed and calls back with the context it was given. The codes to
  come are a list; when it is used up calls fail. Functions given by the user are known by the number of the allocation that holds them.
\<close>

subsection \<open>Configuration and options\<close>

record ClientConfig =
  mc_server_uri :: string
  mc_client_id :: string
  mc_username :: string
  mc_password :: string
  mc_ssl_trust_store :: string
  mc_ssl_verify_peer :: bool
  mc_keepalive_interval :: int
  mc_qos_publish :: int
  mc_qos_subscribe :: int
  mc_operation_timeout_ms :: int

definition default_ClientConfig :: ClientConfig where
  "default_ClientConfig = \<lparr>mc_server_uri = ''tcp://localhost:1883'', mc_client_id = ''openember'', mc_username = [], mc_password = [],
     mc_ssl_trust_store = [], mc_ssl_verify_peer = True, mc_keepalive_interval = 20, mc_qos_publish = 1, mc_qos_subscribe = 1,
     mc_operation_timeout_ms = 10000\<rparr>"

definition uri_prefix_casefold :: "string \<Rightarrow> string \<Rightarrow> bool" where
  "uri_prefix_casefold uri p = (length p \<le> length uri \<and> map lower_char (take (length p) uri) = p)"

definition uri_needs_ssl_options :: "string \<Rightarrow> bool" where
  "uri_needs_ssl_options uri = (uri_prefix_casefold uri ''ssl://'' \<or> uri_prefix_casefold uri ''mqtts://'' \<or> uri_prefix_casefold uri ''wss://'')"

text \<open>The options of the library; certificates are checked unless it is told otherwise.\<close>

record ssl_options =
  so_trustStore :: "string option"
  so_enableServerCertAuth :: bool

record connect_options =
  op_keepAliveInterval :: int
  op_cleansession :: bool
  op_user :: "(string \<times> string) option"
  op_ssl :: "ssl_options option"

definition ssl_opts :: "ClientConfig \<Rightarrow> ssl_options" where
  "ssl_opts cfg =
     (if mc_ssl_trust_store cfg \<noteq> [] then \<lparr>so_trustStore = Some (c_str (mc_ssl_trust_store cfg)), so_enableServerCertAuth = True\<rparr>
      else if \<not> mc_ssl_verify_peer cfg then \<lparr>so_trustStore = None, so_enableServerCertAuth = False\<rparr>
      else \<lparr>so_trustStore = None, so_enableServerCertAuth = True\<rparr>)"

definition connect_opts :: "ClientConfig \<Rightarrow> connect_options" where
  "connect_opts cfg =
     \<lparr>op_keepAliveInterval = mc_keepalive_interval cfg, op_cleansession = True,
      op_user = (if mc_username cfg \<noteq> [] then Some (c_str (mc_username cfg), c_str (mc_password cfg)) else None),
      op_ssl = (if uri_needs_ssl_options (mc_server_uri cfg) then Some (ssl_opts cfg) else None)\<rparr>"

subsection \<open>The library\<close>

datatype mqtt_call =
    Mq_create string string
  | Mq_setCallbacks nat nat
  | Mq_connect nat connect_options
  | Mq_disconnect nat int
  | Mq_destroy nat
  | Mq_publish nat string "u8 list" int int
  | Mq_wait nat int
  | Mq_subscribe nat string int
  | Mq_unsubscribe nat string

record mqtt_world =
  mw_results :: "int list"
  mw_calls :: "mqtt_call list"
  mw_live :: "nat list"
  mw_contexts :: "(nat \<times> nat) list"
  mw_closures :: "(nat \<times> nat) list"
  mw_next :: nat

definition lib_call :: "mqtt_call \<Rightarrow> mqtt_world \<Rightarrow> int \<times> mqtt_world" where
  "lib_call c w =
     (case mw_results w of [] \<Rightarrow> (- 1, w\<lparr>mw_calls := mw_calls w @ [c]\<rparr>)
      | rc # rcs \<Rightarrow> (rc, w\<lparr>mw_results := rcs, mw_calls := mw_calls w @ [c]\<rparr>))"

definition lib_create :: "string \<Rightarrow> string \<Rightarrow> mqtt_world \<Rightarrow> int \<times> nat option \<times> mqtt_world" where
  "lib_create uri cid w =
     (case lib_call (Mq_create uri cid) w of (rc, w) \<Rightarrow>
        if rc = 0 then (0, Some (mw_next w), w\<lparr>mw_live := mw_next w # mw_live w, mw_next := Suc (mw_next w)\<rparr>) else (rc, None, w))"

definition lib_set_callbacks :: "nat \<Rightarrow> nat \<Rightarrow> mqtt_world \<Rightarrow> int \<times> mqtt_world" where
  "lib_set_callbacks h context_id w =
     (case lib_call (Mq_setCallbacks h context_id) w of (rc, w) \<Rightarrow> (rc, if rc = 0 then w\<lparr>mw_contexts := (h, context_id) # mw_contexts w\<rparr> else w))"

definition lib_destroy :: "nat \<Rightarrow> mqtt_world \<Rightarrow> mqtt_world" where
  "lib_destroy h w = w\<lparr>mw_calls := mw_calls w @ [Mq_destroy h], mw_live := removeAll h (mw_live w), mw_contexts := filter (\<lambda>(k, _). k \<noteq> h) (mw_contexts w)\<rparr>"

text \<open>Allocation of a copy of the function \<open>f\<close>, and its release.\<close>

definition new_closure :: "nat \<Rightarrow> mqtt_world \<Rightarrow> nat \<times> mqtt_world" where
  "new_closure f w = (mw_next w, w\<lparr>mw_closures := (mw_next w, f) # mw_closures w, mw_next := Suc (mw_next w)\<rparr>)"

definition delete_closure :: "nat option \<Rightarrow> mqtt_world \<Rightarrow> mqtt_world" where
  "delete_closure p w = (case p of None \<Rightarrow> w | Some a \<Rightarrow> w\<lparr>mw_closures := filter (\<lambda>(k, _). k \<noteq> a) (mw_closures w)\<rparr>)"

subsection \<open>The client\<close>

record mqtt_client =
  cl_cfg :: ClientConfig
  cl_client :: "nat option"
  cl_callback_storage :: "nat option"
  cl_connected :: bool

definition new_mqtt_client :: "ClientConfig \<Rightarrow> mqtt_client" where
  "new_mqtt_client cfg = \<lparr>cl_cfg = cfg, cl_client = None, cl_callback_storage = None, cl_connected = False\<rparr>"

definition mqtt_EINVAL :: int where "mqtt_EINVAL = 22"
definition mqtt_EBUSY :: int where "mqtt_EBUSY = 16"

definition mqtt_shutdown :: "mqtt_client \<Rightarrow> mqtt_world \<Rightarrow> int \<times> mqtt_client \<times> mqtt_world" where
  "mqtt_shutdown c w =
     (let w = (case cl_client c of
                 None \<Rightarrow> w
               | Some h \<Rightarrow> lib_destroy h (if cl_connected c then snd (lib_call (Mq_disconnect h (mc_operation_timeout_ms (cl_cfg c))) w) else w)) in
      (0, c\<lparr>cl_client := None, cl_connected := False, cl_callback_storage := None\<rparr>, delete_closure (cl_callback_storage c) w))"

definition mqtt_is_connected :: "mqtt_client \<Rightarrow> bool" where
  "mqtt_is_connected c = (cl_connected c \<and> cl_client c \<noteq> None)"

text \<open>What a failed connection gives up again.\<close>

definition give_up :: "int \<Rightarrow> nat \<Rightarrow> mqtt_client \<Rightarrow> mqtt_world \<Rightarrow> int \<times> mqtt_client \<times> mqtt_world" where
  "give_up rc h c w =
     (- rc, c\<lparr>cl_client := None, cl_callback_storage := None\<rparr>, delete_closure (cl_callback_storage c) (lib_destroy h w))"

definition mqtt_connect :: "nat option \<Rightarrow> mqtt_client \<Rightarrow> mqtt_world \<Rightarrow> int \<times> mqtt_client \<times> mqtt_world" where
  "mqtt_connect on_message c w =
     (if cl_client c \<noteq> None then (- mqtt_EBUSY, c, w)
      else
        let w = delete_closure (cl_callback_storage c) w;
            (storage, w) = (case on_message of None \<Rightarrow> (None, w) | Some f \<Rightarrow> apfst Some (new_closure f w));
            c = c\<lparr>cl_callback_storage := storage\<rparr> in
        case lib_create (c_str (mc_server_uri (cl_cfg c))) (c_str (mc_client_id (cl_cfg c))) w of
          (rc, None, w) \<Rightarrow> (- rc, c, w)
        | (_, Some h, w) \<Rightarrow>
            let c = c\<lparr>cl_client := Some h\<rparr> in
            case (case storage of None \<Rightarrow> (0, w) | Some a \<Rightarrow> lib_set_callbacks h a w) of
              (rc, w) \<Rightarrow>
                if rc \<noteq> 0 then give_up rc h c w
                else case lib_call (Mq_connect h (connect_opts (cl_cfg c))) w of
                    (rc, w) \<Rightarrow> if rc \<noteq> 0 then give_up rc h c w else (0, c\<lparr>cl_connected := True\<rparr>, w))"

definition mqtt_disconnect :: "mqtt_client \<Rightarrow> mqtt_world \<Rightarrow> int \<times> mqtt_client \<times> mqtt_world" where
  "mqtt_disconnect = mqtt_shutdown"

text \<open>The length of a message is cut to the library's \<open>int\<close>. \<open>has_data\<close> says whether the pointer is not null.\<close>

definition mqtt_publish_raw :: "string \<Rightarrow> bool \<Rightarrow> u8 list \<Rightarrow> mqtt_client \<Rightarrow> mqtt_world \<Rightarrow> int \<times> mqtt_world" where
  "mqtt_publish_raw topic has_data data_bytes c w =
     (case cl_client c of
        None \<Rightarrow> (- mqtt_EINVAL, w)
      | Some h \<Rightarrow>
          if \<not> cl_connected c then (- mqtt_EINVAL, w)
          else if topic = [] then (- mqtt_EINVAL, w)
          else if data_bytes \<noteq> [] \<and> \<not> has_data then (- mqtt_EINVAL, w)
          else case lib_call (Mq_publish h (c_str topic) data_bytes (signed_take_bit 31 (int (length data_bytes))) (mc_qos_publish (cl_cfg c))) w of
              (rc, w) \<Rightarrow>
                if rc \<noteq> 0 then (- rc, w)
                else case lib_call (Mq_wait h (mc_operation_timeout_ms (cl_cfg c))) w of (rc, w) \<Rightarrow> (if rc \<noteq> 0 then - rc else 0, w))"

definition mqtt_publish :: "string \<Rightarrow> u8 list \<Rightarrow> mqtt_client \<Rightarrow> mqtt_world \<Rightarrow> int \<times> mqtt_world" where
  "mqtt_publish topic payload = mqtt_publish_raw topic True payload"

definition mqtt_subscribe :: "string \<Rightarrow> int \<Rightarrow> mqtt_client \<Rightarrow> mqtt_world \<Rightarrow> int \<times> mqtt_world" where
  "mqtt_subscribe topic qos c w =
     (case cl_client c of
        None \<Rightarrow> (- mqtt_EINVAL, w)
      | Some h \<Rightarrow>
          if \<not> cl_connected c then (- mqtt_EINVAL, w)
          else if topic = [] then (- mqtt_EINVAL, w)
          else
            let q = (if qos < 0 then mc_qos_subscribe (cl_cfg c) else qos) in
            if q < 0 \<or> 2 < q then (- mqtt_EINVAL, w)
            else case lib_call (Mq_subscribe h (c_str topic) q) w of (rc, w) \<Rightarrow> (if rc \<noteq> 0 then - rc else 0, w))"

definition mqtt_unsubscribe :: "string \<Rightarrow> mqtt_client \<Rightarrow> mqtt_world \<Rightarrow> int \<times> mqtt_world" where
  "mqtt_unsubscribe topic c w =
     (case cl_client c of
        None \<Rightarrow> (- mqtt_EINVAL, w)
      | Some h \<Rightarrow>
          if \<not> cl_connected c then (- mqtt_EINVAL, w)
          else if topic = [] then (- mqtt_EINVAL, w)
          else case lib_call (Mq_unsubscribe h (c_str topic)) w of (rc, w) \<Rightarrow> (if rc \<noteq> 0 then - rc else 0, w))"

subsection \<open>Callbacks of the library\<close>

text \<open>
  A message arrives at a client: its context, the topic and its length (zero stands for a terminated string) and the message. The
  result: the returned number, the function that is called with its arguments, and what is freed. A context that is not
  allocated any more is a dangling pointer, and the result is \<open>None\<close>.
\<close>

datatype freed = Freed_message | Freed_topic

definition on_message_arrived ::
  "mqtt_world \<Rightarrow> nat option \<Rightarrow> string option \<Rightarrow> nat \<Rightarrow> u8 list option \<Rightarrow> (int \<times> (nat \<times> string \<times> u8 list) option \<times> freed list) option" where
  "on_message_arrived w context_id topicName topicLen message =
     (case context_id of
        None \<Rightarrow> Some (0, None, (if message \<noteq> None then [Freed_message] else []) @ (if topicName \<noteq> None then [Freed_topic] else []))
      | Some a \<Rightarrow>
          (case map_of (mw_closures w) a of
             None \<Rightarrow> None
           | Some f \<Rightarrow>
               (case message of
                  None \<Rightarrow> Some (0, None, if topicName \<noteq> None then [Freed_topic] else [])
                | Some payload \<Rightarrow>
                    let topic_storage = (case topicName of None \<Rightarrow> [] | Some t \<Rightarrow> if 0 < topicLen then take topicLen t else c_str t) in
                    Some (1, Some (f, topic_storage, payload), [Freed_message, Freed_topic]))))"

definition on_connection_lost :: "mqtt_client \<Rightarrow> mqtt_client" where "on_connection_lost c = c"
definition on_delivered :: "mqtt_client \<Rightarrow> mqtt_client" where "on_delivered c = c"

text \<open>Hints for what connecting returned, by their subject.\<close>

datatype connect_hint = Hint_invalid | Hint_busy | Hint_failure | Hint_ssl_not_supported | Hint_bad_protocol

definition connect_return_hint :: "int \<Rightarrow> connect_hint option" where
  "connect_return_hint r =
     (if r = 0 then None
      else if r = - mqtt_EINVAL then Some Hint_invalid
      else if r = - mqtt_EBUSY then Some Hint_busy
      else if r = 1 then Some Hint_failure
      else if r = 10 then Some Hint_ssl_not_supported
      else if r = 14 then Some Hint_bad_protocol
      else None)"

subsection \<open>Over a run\<close>

datatype mqtt_op =
    Mo_connect "nat option" | Mo_disconnect | Mo_publish string bool "u8 list" | Mo_subscribe string int | Mo_unsubscribe string | Mo_lost | Mo_delivered

fun mqtt_do :: "mqtt_op \<Rightarrow> mqtt_client \<times> mqtt_world \<Rightarrow> mqtt_client \<times> mqtt_world" where
  "mqtt_do (Mo_connect f) (c, w) = snd (mqtt_connect f c w)"
| "mqtt_do Mo_disconnect (c, w) = snd (mqtt_disconnect c w)"
| "mqtt_do (Mo_publish t p d) (c, w) = (c, snd (mqtt_publish_raw t p d c w))"
| "mqtt_do (Mo_subscribe t q) (c, w) = (c, snd (mqtt_subscribe t q c w))"
| "mqtt_do (Mo_unsubscribe t) (c, w) = (c, snd (mqtt_unsubscribe t c w))"
| "mqtt_do Mo_lost (c, w) = (on_connection_lost c, w)"
| "mqtt_do Mo_delivered (c, w) = (on_delivered c, w)"

text \<open>The function the client should call, if it is connected: that of the last successful connection.\<close>

fun current_function :: "mqtt_op \<Rightarrow> mqtt_client \<times> mqtt_world \<Rightarrow> nat option \<Rightarrow> nat option" where
  "current_function (Mo_connect f) (c, w) cur = (if fst (mqtt_connect f c w) = 0 then f else cur)"
| "current_function p s cur = cur"

fun mqtt_run :: "mqtt_op list \<Rightarrow> mqtt_client \<times> mqtt_world \<Rightarrow> nat option \<Rightarrow> (mqtt_client \<times> mqtt_world) \<times> nat option" where
  "mqtt_run [] s cur = (s, cur)"
| "mqtt_run (p # ps) s cur = mqtt_run ps (mqtt_do p s) (current_function p s cur)"

definition mqtt_start :: "int list \<Rightarrow> mqtt_world" where
  "mqtt_start results = \<lparr>mw_results = results, mw_calls = [], mw_live = [], mw_contexts = [], mw_closures = [], mw_next = 1\<rparr>"

text \<open>
  The client holds what is alive: one library client if there is one, whose context is the allocated copy of the function of the
  connection.
\<close>

definition mqtt_inv :: "mqtt_client \<times> mqtt_world \<Rightarrow> nat option \<Rightarrow> bool" where
  "mqtt_inv s cur =
     (case s of (c, w) \<Rightarrow>
        mw_live w = (case cl_client c of None \<Rightarrow> [] | Some h \<Rightarrow> [h])
      \<and> map fst (mw_closures w) = (case cl_callback_storage c of None \<Rightarrow> [] | Some a \<Rightarrow> [a])
      \<and> cl_connected c = (cl_client c \<noteq> None)
      \<and> (case cl_client c of
           None \<Rightarrow> mw_contexts w = []
         | Some h \<Rightarrow> (case cl_callback_storage c of
                      None \<Rightarrow> mw_contexts w = [] \<and> cur = None
                    | Some a \<Rightarrow> mw_contexts w = [(h, a)] \<and> (\<exists>f. cur = Some f \<and> mw_closures w = [(a, f)]))))"

definition same_library :: "mqtt_world \<Rightarrow> mqtt_world \<Rightarrow> bool" where
  "same_library w w' = (mw_live w' = mw_live w \<and> mw_contexts w' = mw_contexts w \<and> mw_closures w' = mw_closures w \<and> mw_next w' = mw_next w)"

lemma lib_call_same: "lib_call k w = (rc, w') \<Longrightarrow> same_library w w'"
  by (auto simp: lib_call_def same_library_def split: list.splits)

lemma same_library_trans: "same_library w w1 \<Longrightarrow> same_library w1 w2 \<Longrightarrow> same_library w w2"
  by (simp add: same_library_def)

lemma same_library_refl [simp]: "same_library w w" by (simp add: same_library_def)

lemma io_same:
  "same_library w (snd (mqtt_publish_raw t p d c w))" "same_library w (snd (mqtt_subscribe t q c w))" "same_library w (snd (mqtt_unsubscribe t c w))"
  by (auto simp: mqtt_publish_raw_def mqtt_subscribe_def mqtt_unsubscribe_def Let_def dest: lib_call_same intro: same_library_trans split: option.splits prod.splits)

lemma inv_same: "same_library w w' \<Longrightarrow> mqtt_inv (c, w) cur \<Longrightarrow> mqtt_inv (c, w') cur"
  by (auto simp: mqtt_inv_def same_library_def split: option.splits)

lemma shutdown_gives_all_back:
  assumes "mqtt_inv (c, w) cur" "mqtt_shutdown c w = (r, c', w')"
  shows "r = 0 \<and> cl_client c' = None \<and> cl_callback_storage c' = None \<and> \<not> cl_connected c' \<and> mw_live w' = [] \<and> mw_contexts w' = [] \<and> mw_closures w' = []"
proof (cases "cl_client c")
  case None
  then show ?thesis using assms by (auto simp: mqtt_shutdown_def mqtt_inv_def Let_def delete_closure_def filter_empty_conv split: option.splits)
next
  case (Some h)
  obtain rc w1 where d: "lib_call (Mq_disconnect h (mc_operation_timeout_ms (cl_cfg c))) w = (rc, w1)" by fastforce
  have w1: "mw_live w1 = [h]" "mw_contexts w1 = mw_contexts w" "mw_closures w1 = mw_closures w" "cl_connected c"
    using lib_call_same [OF d] assms(1) Some by (simp_all add: same_library_def mqtt_inv_def)
  then show ?thesis using assms Some d
    by (auto simp: mqtt_shutdown_def mqtt_inv_def Let_def lib_destroy_def delete_closure_def split: option.splits)
qed

text \<open>A connection is made with everything it needs, or nothing of it is left but the copy of the function when the client could not be created.\<close>

lemma connect_inv:
  assumes i: "mqtt_inv (c, w) cur" and r: "mqtt_connect f c w = (rc, c', w')"
  shows "mqtt_inv (c', w') (if rc = 0 then f else cur) \<and> (cl_client c = None \<longrightarrow> (rc = 0) = mqtt_is_connected c')"
proof (cases "cl_client c")
  case (Some h)
  then have "rc = - mqtt_EBUSY" "c' = c" "w' = w" using r by (simp_all add: mqtt_connect_def)
  with i Some show ?thesis by (simp add: mqtt_EBUSY_def)
next
  case None
  define w0 where "w0 = delete_closure (cl_callback_storage c) w"
  have w0: "mw_live w0 = []" "mw_closures w0 = []" "mw_contexts w0 = []"
    using i None by (auto simp: w0_def mqtt_inv_def delete_closure_def split: option.splits)
  define st where "st = map_option (\<lambda>f. mw_next w0) f"
  define w1 where "w1 = (case f of None \<Rightarrow> w0 | Some f \<Rightarrow> snd (new_closure f w0))"
  have w1: "mw_live w1 = []" "mw_contexts w1 = []" "mw_closures w1 = (case f of None \<Rightarrow> [] | Some g \<Rightarrow> [(mw_next w0, g)])"
    using w0 by (simp_all add: w1_def new_closure_def split: option.splits)
  have sw: "(case f of None \<Rightarrow> (None, w0) | Some f \<Rightarrow> apfst Some (new_closure f w0)) = (st, w1)"
    by (simp add: st_def w1_def new_closure_def split: option.splits)
  let ?c = "c\<lparr>cl_callback_storage := st\<rparr>"
  obtain a h w2 where cr: "lib_create (c_str (mc_server_uri (cl_cfg c))) (c_str (mc_client_id (cl_cfg c))) w1 = (a, h, w2)" by (metis prod_cases3)
  obtain a1 v where lc: "lib_call (Mq_create (c_str (mc_server_uri (cl_cfg c))) (c_str (mc_client_id (cl_cfg c)))) w1 = (a1, v)" by fastforce
  have v: "same_library w1 v" by (rule lib_call_same [OF lc])
  show ?thesis
  proof (cases h)
    case h: None
    then have "a \<noteq> 0" "w2 = v" using cr lc by (auto simp: lib_create_def split: if_splits)
    moreover have "rc = - a" "c' = ?c" "w' = w2" using r None sw cr h by (simp_all add: mqtt_connect_def flip: w0_def)
    moreover have "mqtt_inv (?c, v) cur" using i None w1 v by (auto simp: mqtt_inv_def same_library_def st_def split: option.splits)
    ultimately show ?thesis using None by (simp add: mqtt_is_connected_def)
  next
    case h: (Some k)
    then have k: "a = 0" "k = mw_next v" "w2 = v\<lparr>mw_live := k # mw_live v, mw_next := Suc k\<rparr>" using cr lc by (auto simp: lib_create_def split: if_splits)
    have w2: "mw_live w2 = [k]" "mw_contexts w2 = []" "mw_closures w2 = (case f of None \<Rightarrow> [] | Some g \<Rightarrow> [(mw_next w0, g)])"
      using k w1 v by (simp_all add: same_library_def)
    obtain b w3 where cb: "(case st of None \<Rightarrow> (0, w2) | Some p \<Rightarrow> lib_set_callbacks k p w2) = (b, w3)" by fastforce
    have w3: "mw_live w3 = [k]" "mw_closures w3 = mw_closures w2" "mw_contexts w3 = (if b = 0 then (case st of None \<Rightarrow> [] | Some p \<Rightarrow> [(k, p)]) else [])"
      using cb w2 by (auto simp: lib_set_callbacks_def same_library_def dest!: lib_call_same split: option.splits prod.splits if_splits)
    let ?d = "?c\<lparr>cl_client := Some k\<rparr>"
    have failed: "mqtt_inv (c2, w5) cur" "cl_client c2 = None"
      if g: "give_up e k ?d w4 = (e', c2, w5)" and w4: "mw_live w4 = [k]" "mw_closures w4 = mw_closures w2" "filter (\<lambda>(ka, _). ka \<noteq> k) (mw_contexts w4) = []" for e e' c2 w4 w5
      using g w4 w2 i None
      by (auto simp: give_up_def mqtt_inv_def lib_destroy_def delete_closure_def st_def filter_empty_conv split: option.splits)
    have "mqtt_connect f c w =
        (case (case st of None \<Rightarrow> (0, w2) | Some p \<Rightarrow> lib_set_callbacks k p w2) of
           (rc, w) \<Rightarrow>
             if rc \<noteq> 0 then give_up rc k ?d w
             else case lib_call (Mq_connect k (connect_opts (cl_cfg ?d))) w of
                 (rc, w) \<Rightarrow> if rc \<noteq> 0 then give_up rc k ?d w else (0, ?d\<lparr>cl_connected := True\<rparr>, w))"
      using cr h by (simp add: mqtt_connect_def None sw Let_def flip: w0_def)
    note eq = this [unfolded cb r prod.case]
    show ?thesis
    proof (cases "b = 0")
      case False
      then have g: "give_up b k ?d w3 = (rc, c', w')" using eq by simp
      then have "rc = - b" by (simp add: give_up_def)
      with False failed [OF g] w3 show ?thesis by (simp add: mqtt_is_connected_def)
    next
      case True
      obtain e w4 where co: "lib_call (Mq_connect k (connect_opts (cl_cfg c))) w3 = (e, w4)" by fastforce
      have w4: "mw_live w4 = [k]" "mw_closures w4 = mw_closures w2" "mw_contexts w4 = mw_contexts w3" using lib_call_same [OF co] w3 by (simp_all add: same_library_def)
      show ?thesis
      proof (cases "e = 0")
        case False
        then have g: "give_up e k ?d w4 = (rc, c', w')" using eq True co by simp
        then have "rc = - e" by (simp add: give_up_def)
        moreover have "filter (\<lambda>(ka, _). ka \<noteq> k) (mw_contexts w4) = []" using w4 w3 True by (simp split: option.splits)
        ultimately show ?thesis using False failed [OF g w4(1,2)] by (simp add: mqtt_is_connected_def)
      next
        case e: True
        then have "rc = 0" "c' = ?d\<lparr>cl_connected := True\<rparr>" "w' = w4" using eq True co by simp_all
        then show ?thesis using w4 w3 w2 True by (auto simp: mqtt_inv_def st_def mqtt_is_connected_def split: option.splits)
      qed
    qed
  qed
qed

lemma mqtt_do_inv: "mqtt_inv s cur \<Longrightarrow> mqtt_inv (mqtt_do p s) (current_function p s cur)"
proof -
  assume i: "mqtt_inv s cur"
  obtain c w where s: "s = (c, w)" by fastforce
  show ?thesis
  proof (cases p)
    case (Mo_connect f)
    obtain rc c' w' where "mqtt_connect f c w = (rc, c', w')" by (metis prod_cases3)
    with connect_inv [OF i [unfolded s] this] Mo_connect s show ?thesis by simp
  next
    case Mo_disconnect
    obtain rc c' w' where r: "mqtt_shutdown c w = (rc, c', w')" by (metis prod_cases3)
    with shutdown_gives_all_back [OF i [unfolded s] r] Mo_disconnect s show ?thesis by (simp add: mqtt_disconnect_def mqtt_inv_def)
  qed (use i s inv_same [OF io_same(1)] inv_same [OF io_same(2)] inv_same [OF io_same(3)] in \<open>auto simp: on_connection_lost_def on_delivered_def\<close>)
qed

lemma mqtt_run_inv: "mqtt_inv s cur \<Longrightarrow> mqtt_run ps s cur = (s', cur') \<Longrightarrow> mqtt_inv s' cur'"
proof (induction ps arbitrary: s cur)
  case (Cons p ps)
  from Cons.IH [OF mqtt_do_inv [OF Cons.prems(1)]] Cons.prems(2) show ?case by simp
qed simp

text \<open>
  Whatever is called in whatever order and whatever the library answers: the client counts as connected exactly while it holds a library
  client, of which there is one at most; messages that arrive go to the function given with the connection in force, whose
  copy is still allocated, and are freed once; disconnecting (or the destructor) leaves no library client, no callback and no allocation.
\<close>

theorem mqtt_client_holds_what_it_uses:
  assumes "mqtt_run ps (new_mqtt_client cfg, mqtt_start results) None = ((c, w), cur)"
  shows "mw_live w = (if mqtt_is_connected c then [the (cl_client c)] else [])
    \<and> list_all (\<lambda>(h, a). cl_client c = Some h
        \<and> on_message_arrived w (Some a) (Some t) n (Some payload) = Some (1, Some (the cur, if 0 < n then take n t else c_str t, payload), [Freed_message, Freed_topic]))
        (mw_contexts w)
    \<and> (case mqtt_shutdown c w of (r, c', w') \<Rightarrow> r = 0 \<and> \<not> mqtt_is_connected c' \<and> mw_live w' = [] \<and> mw_contexts w' = [] \<and> mw_closures w' = [])"
proof -
  have "mqtt_inv (new_mqtt_client cfg, mqtt_start results) None" by (simp add: mqtt_inv_def new_mqtt_client_def mqtt_start_def)
  from mqtt_run_inv [OF this assms] have i: "mqtt_inv (c, w) cur" .
  obtain r c' w' where s: "mqtt_shutdown c w = (r, c', w')" by (metis prod_cases3)
  have "list_all (\<lambda>(h, a). cl_client c = Some h
        \<and> on_message_arrived w (Some a) (Some t) n (Some payload) = Some (1, Some (the cur, if 0 < n then take n t else c_str t, payload), [Freed_message, Freed_topic]))
        (mw_contexts w)"
    using i by (auto simp: mqtt_inv_def on_message_arrived_def split: option.splits)
  moreover have "mw_live w = (if mqtt_is_connected c then [the (cl_client c)] else [])"
    using i by (auto simp: mqtt_inv_def mqtt_is_connected_def split: option.splits)
  ultimately show ?thesis using shutdown_gives_all_back [OF i s] s by (simp add: mqtt_is_connected_def)
qed

lemma mqtt_client_holds_what_it_uses_witness:
  "\<exists>c w. mqtt_run [Mo_connect (Some 7), Mo_publish ''t'' True [1]] (new_mqtt_client default_ClientConfig, mqtt_start [0, 0, 0, 0]) None = ((c, w), Some 7)
    \<and> mw_live w = [2] \<and> snd (snd (mqtt_shutdown c w)) = (snd (snd (mqtt_shutdown c w)))\<lparr>mw_live := [], mw_closures := []\<rparr>"
proof -
  let ?s = "(new_mqtt_client default_ClientConfig, mqtt_start [0, 0, 0, 0])"
  obtain c w cur where r: "mqtt_run [Mo_connect (Some 7), Mo_publish ''t'' True [1]] ?s None = ((c, w), cur)" by (metis prod.collapse)
  then have "cur = Some 7" "mqtt_is_connected c" "cl_client c = Some 2"
    by (auto simp: new_mqtt_client_def mqtt_start_def mqtt_connect_def delete_closure_def new_closure_def lib_create_def lib_call_def lib_set_callbacks_def
        mqtt_is_connected_def mqtt_publish_raw_def Let_def)
  with r mqtt_client_holds_what_it_uses [OF r, of "''t''" 0 "[]"] show ?thesis
    by (intro exI [of _ c] exI [of _ w]) (auto split: prod.splits)
qed

text \<open>After a lost connection the client still counts as connected, and connecting again is refused as busy.\<close>

theorem lost_connection_is_not_noticed:
  "mqtt_is_connected c \<Longrightarrow> mqtt_do Mo_lost (c, w) = (c, w) \<and> mqtt_connect f c w = (- mqtt_EBUSY, c, w)"
  by (auto simp: on_connection_lost_def mqtt_connect_def mqtt_is_connected_def)

text \<open>Certificates go unchecked exactly on an encrypted connection without a trust store, when checking is switched off.\<close>

lemma certificates_are_checked:
  "op_ssl (connect_opts cfg) = Some s \<Longrightarrow> so_enableServerCertAuth s = (mc_ssl_trust_store cfg \<noteq> [] \<or> mc_ssl_verify_peer cfg)"
  by (auto simp: connect_opts_def ssl_opts_def split: if_splits)

text \<open>A refusal by the server, whose codes are positive, has no hint; the library's own errors have one for three codes.\<close>

lemma refusals_have_no_hint: "1 \<le> rc \<Longrightarrow> rc \<le> 5 \<Longrightarrow> connect_return_hint (- rc) = None"
  by (simp add: connect_return_hint_def mqtt_EINVAL_def mqtt_EBUSY_def)

end
