(* ===== verification/Json_Values.thy ===== *)
theory Json_Values
  imports Json_Text
begin

section \<open>JSON documents\<close>

text \<open>
  The part of JSON that the pages of the web console use: objects, arrays, strings, numbers and truth values, without space between them.
  The pages are written by joining strings; that what they join is a document, and which one, is judged against this reader.
\<close>

datatype json = J_string string | J_number string | J_bool bool | J_array "json list" | J_object "(string \<times> json) list"

fun print_json :: "json \<Rightarrow> string" and print_elements :: "json list \<Rightarrow> string" and print_members :: "(string \<times> json) list \<Rightarrow> string" where
  "print_json (J_string s) = quote # json_escape s @ [quote]"
| "print_json (J_number n) = n"
| "print_json (J_bool b) = (if b then ''true'' else ''false'')"
| "print_json (J_array vs) = ''['' @ print_elements vs @ '']''"
| "print_json (J_object ms) = CHR 0x7B # print_members ms @ [CHR 0x7D]"
| "print_elements [] = []"
| "print_elements [v] = print_json v"
| "print_elements (v # w # vs) = print_json v @ '','' @ print_elements (w # vs)"
| "print_members [] = []"
| "print_members [(k, v)] = quote # json_escape k @ quote # '':'' @ print_json v"
| "print_members ((k, v) # m # ms) = quote # json_escape k @ quote # '':'' @ print_json v @ '','' @ print_members (m # ms)"

subsection \<open>The reader\<close>

definition number_char :: "char \<Rightarrow> bool" where
  "number_char c = (is_digit c \<or> c = CHR ''-'' \<or> c = CHR ''.'')"

text \<open>A number has a sign, an integer without a leading zero, and decimals.\<close>

definition unsigned_literal :: "string \<Rightarrow> bool" where
  "unsigned_literal n =
     (let i = takeWhile is_digit n; r = dropWhile is_digit n in
      i \<noteq> [] \<and> (hd i = CHR ''0'' \<longrightarrow> i = ''0'') \<and> (r = [] \<or> hd r = CHR ''.'' \<and> tl r \<noteq> [] \<and> list_all is_digit (tl r)))"

definition number_literal :: "string \<Rightarrow> bool" where
  "number_literal n = unsigned_literal (if take 1 n = ''-'' then tl n else n)"

fun read_value :: "nat \<Rightarrow> string \<Rightarrow> (json \<times> string) option"
  and read_elements :: "nat \<Rightarrow> string \<Rightarrow> (json list \<times> string) option"
  and read_members :: "nat \<Rightarrow> string \<Rightarrow> ((string \<times> json) list \<times> string) option" where
  "read_value 0 s = None"
| "read_value (Suc f) s =
     (if take 1 s = [quote] then map_option (apfst J_string) (read_json (drop 1 s))
      else if take 1 s = ''['' then
        if take 1 (drop 1 s) = '']'' then Some (J_array [], drop 2 s) else map_option (apfst J_array) (read_elements f (drop 1 s))
      else if take 1 s = [CHR 0x7B] then
        if take 1 (drop 1 s) = [CHR 0x7D] then Some (J_object [], drop 2 s) else map_option (apfst J_object) (read_members f (drop 1 s))
      else if take 4 s = ''true'' then Some (J_bool True, drop 4 s)
      else if take 5 s = ''false'' then Some (J_bool False, drop 5 s)
      else if number_literal (takeWhile number_char s) then Some (J_number (takeWhile number_char s), dropWhile number_char s)
      else None)"
| "read_elements 0 s = None"
| "read_elements (Suc f) s =
     (case read_value f s of None \<Rightarrow> None
      | Some (v, r) \<Rightarrow>
          if take 1 r = '','' then map_option (apfst (\<lambda>vs. v # vs)) (read_elements f (drop 1 r))
          else if take 1 r = '']'' then Some ([v], drop 1 r)
          else None)"
| "read_members 0 s = None"
| "read_members (Suc f) s =
     (if take 1 s \<noteq> [quote] then None
      else (case read_json (drop 1 s) of None \<Rightarrow> None
        | Some (k, r) \<Rightarrow>
            if take 1 r \<noteq> '':'' then None
            else (case read_value f (drop 1 r) of None \<Rightarrow> None
              | Some (v, r) \<Rightarrow>
                  if take 1 r = '','' then map_option (apfst (\<lambda>ms. (k, v) # ms)) (read_members f (drop 1 r))
                  else if take 1 r = [CHR 0x7D] then Some ([(k, v)], drop 1 r)
                  else None)))"

text \<open>Two units of fuel for each character are enough.\<close>

definition read_document :: "string \<Rightarrow> json option" where
  "read_document s = (case read_value (2 * length s + 2) s of None \<Rightarrow> None | Some (v, r) \<Rightarrow> if r = [] then Some v else None)"

subsection \<open>Printed documents are read back\<close>

fun json_ok :: "json \<Rightarrow> bool" and elements_ok :: "json list \<Rightarrow> bool" and members_ok :: "(string \<times> json) list \<Rightarrow> bool" where
  "json_ok (J_string s) = True"
| "json_ok (J_number n) = number_literal n"
| "json_ok (J_bool b) = True"
| "json_ok (J_array vs) = elements_ok vs"
| "json_ok (J_object ms) = members_ok ms"
| "elements_ok [] = True"
| "elements_ok (v # vs) = (json_ok v \<and> elements_ok vs)"
| "members_ok [] = True"
| "members_ok ((k, v) # ms) = (json_ok v \<and> members_ok ms)"

lemma number_literal_chars:
  assumes "number_literal n"
  shows "list_all number_char n" "n \<noteq> []" "is_digit (hd n) \<or> hd n = CHR ''-''"
proof -
  have u: "list_all number_char m \<and> m \<noteq> [] \<and> is_digit (hd m)" if "unsigned_literal m" for m
  proof -
    let ?i = "takeWhile is_digit m" and ?r = "dropWhile is_digit m"
    have m: "m = ?i @ ?r" by simp
    have i: "list_all is_digit ?i" "?i \<noteq> []" using that set_takeWhileD [of _ is_digit m] by (auto simp: unsigned_literal_def Let_def list_all_iff)
    have r: "?r = [] \<or> ?r = CHR ''.'' # tl ?r \<and> list_all is_digit (tl ?r)" using that by (cases ?r) (auto simp: unsigned_literal_def Let_def)
    have "list_all number_char ?i" "list_all number_char ?r"
      using i(1) r by (cases ?r; auto simp: number_char_def list_all_iff)+
    then have "list_all number_char m" using m by (metis list_all_append)
    moreover have "m \<noteq> [] \<and> is_digit (hd m)" using i(2) by (cases m) (auto split: if_splits)
    ultimately show ?thesis by simp
  qed
  show "list_all number_char n" "n \<noteq> []" "is_digit (hd n) \<or> hd n = CHR ''-''"
    using assms u [of n] u [of "tl n"] by (cases n; auto simp: number_literal_def number_char_def split: if_splits)+
qed

lemma number_first:
  assumes "number_literal n"
  obtains c m where "n = c # m" "number_char c" "c \<noteq> quote" "c \<noteq> CHR ''[''" "c \<noteq> CHR 0x7B" "c \<noteq> CHR ''t''" "c \<noteq> CHR ''f''" "c \<noteq> CHR '']''" "c \<noteq> CHR 0x7D"
proof (cases n)
  case (Cons c m)
  have "is_digit c \<or> c = CHR ''-''" "number_char c" using number_literal_chars [OF assms] Cons by (auto simp: list_all_iff)
  then show ?thesis using Cons by (intro that) (auto simp: is_digit_code)
qed (use number_literal_chars(2) [OF assms] in simp)

definition ends_value :: "string \<Rightarrow> bool" where
  "ends_value r = (r = [] \<or> \<not> number_char (hd r))"

lemma takeWhile_number: "number_literal n \<Longrightarrow> ends_value r \<Longrightarrow> takeWhile number_char (n @ r) = n \<and> dropWhile number_char (n @ r) = r"
  using number_literal_chars(1) [of n] by (cases r) (auto simp: ends_value_def list_all_iff takeWhile_append2 dropWhile_append2 takeWhile_append dropWhile_append)

text \<open>How a printed value starts.\<close>

lemma print_json_start: "json_ok v \<Longrightarrow> print_json v \<noteq> [] \<and> hd (print_json v) \<noteq> CHR '']'' \<and> hd (print_json v) \<noteq> CHR 0x7D"
proof (cases v)
  case (J_number n)
  assume "json_ok v"
  then have "number_literal n" using J_number by simp
  then obtain c m where "n = c # m" "c \<noteq> CHR '']''" "c \<noteq> CHR 0x7D" by (rule number_first)
  then show ?thesis using J_number by simp
qed auto

lemma ends_value_simps [simp]: "ends_value (CHR '','' # r)" "ends_value (CHR '']'' # r)" "ends_value (CHR 0x7D # r)" "ends_value []"
  by (simp_all add: ends_value_def number_char_def is_digit_code)

lemma read_printed:
  "json_ok v \<Longrightarrow> 2 * length (print_json v) \<le> f \<Longrightarrow> ends_value r \<Longrightarrow> read_value f (print_json v @ r) = Some (v, r)"
  "vs \<noteq> [] \<Longrightarrow> elements_ok vs \<Longrightarrow> 2 * length (print_elements vs) + 1 \<le> f \<Longrightarrow> read_elements f (print_elements vs @ CHR '']'' # r) = Some (vs, r)"
  "ms \<noteq> [] \<Longrightarrow> members_ok ms \<Longrightarrow> 2 * length (print_members ms) + 1 \<le> f \<Longrightarrow> read_members f (print_members ms @ CHR 0x7D # r) = Some (ms, r)"
proof (induction v and vs and ms arbitrary: f r and f r and f r rule: print_json_print_elements_print_members.induct)
  case (1 s)
  then show ?case by (cases f) (simp_all add: read_json_escape)
next
  case (2 n)
  from 2(1) have n: "number_literal n" by simp
  then obtain c m where c: "n = c # m" "c \<noteq> quote" "c \<noteq> CHR ''[''" "c \<noteq> CHR 0x7B" "c \<noteq> CHR ''t''" "c \<noteq> CHR ''f''" by (rule number_first)
  obtain f' where f: "f = Suc f'" using 2(2) c(1) by (cases f) auto
  note t = takeWhile_number [OF n 2(3)]
  have "take 4 (n @ r) \<noteq> ''true''" "take 5 (n @ r) \<noteq> ''false''" using c by (auto simp: numeral_eq_Suc)
  moreover have "take 1 (n @ r) = [c]" using c by simp
  ultimately show ?case using c(2-4) n t by (simp add: f)
next
  case (3 b)
  then show ?case by (cases f; cases b) (auto simp: numeral_eq_Suc)
next
  case (4 vs)
  obtain f' where f: "f = Suc f'" using 4(3) by (cases f) auto
  show ?case
  proof (cases vs)
    case (Cons w ws)
    have "print_elements vs \<noteq> []" "hd (print_elements vs) \<noteq> CHR '']''" using 4(2) Cons print_json_start [of w] by (cases ws; auto)+
    then have "take 1 (print_elements vs @ CHR '']'' # r) \<noteq> '']''" by (cases "print_elements vs") auto
    moreover have "read_elements f' (print_elements vs @ CHR '']'' # r) = Some (vs, r)" using 4 Cons f by simp
    ultimately show ?thesis by (simp add: f)
  qed (simp add: f)
next
  case (5 ms)
  obtain f' where f: "f = Suc f'" using 5(3) by (cases f) auto
  show ?case
  proof (cases ms)
    case (Cons w ws)
    have "print_members ms \<noteq> []" "hd (print_members ms) = quote" using Cons by (cases w; cases ws; auto)+
    then have "take 1 (print_members ms @ CHR 0x7D # r) \<noteq> [CHR 0x7D]" by (cases "print_members ms") auto
    moreover have "read_members f' (print_members ms @ CHR 0x7D # r) = Some (ms, r)" using 5 Cons f by simp
    ultimately show ?thesis by (simp add: f)
  qed (simp add: f)
next
  case (7 v)
  obtain f' where f: "f = Suc f'" using 7(4) by (cases f) auto
  have "read_value f' (print_json v @ CHR '']'' # r) = Some (v, CHR '']'' # r)" using 7 f by simp
  then show ?case by (simp add: f)
next
  case (8 v w vs)
  obtain f' where f: "f = Suc f'" using 8(5) by (cases f) auto
  have "read_value f' (print_json v @ CHR '','' # print_elements (w # vs) @ CHR '']'' # r) = Some (v, CHR '','' # print_elements (w # vs) @ CHR '']'' # r)"
    using 8 f by simp
  moreover have "read_elements f' (print_elements (w # vs) @ CHR '']'' # r) = Some (w # vs, r)" using 8 f by simp
  ultimately show ?case by (simp add: f)
next
  case (10 k v)
  obtain f' where f: "f = Suc f'" using 10(4) by (cases f) auto
  have "read_value f' (print_json v @ CHR 0x7D # r) = Some (v, CHR 0x7D # r)" using 10 f by simp
  then show ?case by (simp add: f read_json_escape)
next
  case (11 k v m ms)
  obtain f' where f: "f = Suc f'" using 11(5) by (cases f) auto
  have "read_value f' (print_json v @ CHR '','' # print_members (m # ms) @ CHR 0x7D # r) = Some (v, CHR '','' # print_members (m # ms) @ CHR 0x7D # r)"
    using 11 f by simp
  moreover have "read_members f' (print_members (m # ms) @ CHR 0x7D # r) = Some (m # ms, r)" using 11 f by simp
  ultimately show ?case by (simp add: f read_json_escape)
qed auto

theorem printed_document_reads_back: "json_ok v \<Longrightarrow> read_document (print_json v) = Some v"
  using read_printed(1) [of v "2 * length (print_json v) + 2" "[]"] by (simp add: read_document_def)

end
