(* ===== verification/Web_Console.thy ===== *)
theory Web_Console
  imports Json_Values Log_Service Host_Monitor Messaging Osal_Io "HOL-Library.Signed_Division"
begin

section \<open>The web console (services/web\_console/main.cpp)\<close>

text \<open>
  The console answers three requests: a page about the machine, a page about its load, and the log lines. The log lines come from the
  ring of \<open>Log_Service\<close> or, in the other variant of the build, from the log service over a socket. Files of the machine are arguments,
  \<open>None\<close> for one that cannot be opened. The HTTP server is third-party: the requests it hands on are arguments, and what is
  done with them is a value.
\<close>

subsection \<open>Reading files\<close>

definition blank_char :: "char \<Rightarrow> bool" where
  "blank_char c = (c = CHR 0x0A \<or> c = CHR 0x0D \<or> c = CHR '' '' \<or> c = CHR 0x09)"

definition drop_trailing :: "(char \<Rightarrow> bool) \<Rightarrow> string \<Rightarrow> string" where
  "drop_trailing p s = rev (dropWhile p (rev s))"

definition read_file_trim :: "string option \<Rightarrow> string" where
  "read_file_trim file = (case file of None \<Rightarrow> [] | Some s \<Rightarrow> dropWhile blank_char (drop_trailing blank_char s))"

text \<open>\<^verbatim>\<open>fgets\<close> into a buffer of \<open>n\<close> characters: a line with its line break, or as much of it as fits.\<close>

definition fgets :: "nat \<Rightarrow> string \<Rightarrow> string \<times> string" where
  "fgets n s =
     (let line = takeWhile (\<lambda>c. c \<noteq> CHR 0x0A) s; m = min (n - 1) (min (Suc (length line)) (length s)) in (take m s, drop m s))"

function fgets_strings :: "nat \<Rightarrow> string \<Rightarrow> string list" where
  "fgets_strings n s = (if s = [] \<or> n < 2 then [] else c_str (fst (fgets n s)) # fgets_strings n (snd (fgets n s)))"
  by pat_completeness auto
termination
  by (relation "measure (\<lambda>(n, s). length s)") (auto simp: fgets_def Let_def)

declare fgets_strings.simps [simp del]

definition line_break :: "char \<Rightarrow> bool" where "line_break c = (c = CHR 0x0A \<or> c = CHR 0x0D)"

definition unquoted :: "string \<Rightarrow> string" where
  "unquoted v =
     (let v = drop_trailing line_break v; v = (if take 1 v = [quote] then tl v else v) in
      if v \<noteq> [] \<and> last v = quote then butlast v else v)"

definition os_pretty_name :: "string option \<Rightarrow> string" where
  "os_pretty_name file =
     (case file of None \<Rightarrow> []
      | Some s \<Rightarrow>
          (case filter (\<lambda>l. starts_with l ''PRETTY_NAME='') (fgets_strings 512 s) of [] \<Rightarrow> [] | l # _ \<Rightarrow> unquoted (drop 12 l)))"

text \<open>The conversion of a double to \<open>long\<close> truncates and is undefined outside its range. What \<^verbatim>\<open>fscanf\<close> reads as the time is an argument.\<close>

definition to_long :: "float64 \<Rightarrow> int option" where
  "to_long x = (case x of Fin q \<Rightarrow>
      (let n = (if 0 \<le> q then \<lfloor>q\<rfloor> else \<lceil>q\<rceil>) in if - (2 ^ 63) \<le> n \<and> n < 2 ^ 63 then Some n else None) | _ \<Rightarrow> None)"

definition uptime_pretty :: "float64 option \<Rightarrow> string option" where
  "uptime_pretty file =
     (case file of None \<Rightarrow> Some []
      | Some up \<Rightarrow>
          map_option (\<lambda>sec.
            let days = sec sdiv 86400; sec = sec smod 86400; hours = sec sdiv 3600; sec = sec smod 3600; mins = sec sdiv 60 in
            if 0 < days then to_string_int days @ '' days, '' @ to_string_int hours @ '' hrs, '' @ to_string_int mins @ '' mins''
            else if 0 < hours then to_string_int hours @ '' hrs, '' @ to_string_int mins @ '' mins''
            else to_string_int mins @ '' mins'') (to_long up))"

text \<open>The conversions of \<^verbatim>\<open>fscanf\<close> for a word of at most \<open>n\<close> characters and for a number of type \<open>long\<close>.\<close>

definition scan_word :: "nat \<Rightarrow> string \<Rightarrow> (string \<times> string) option" where
  "scan_word n s =
     (let t = dropWhile is_space s; w = take n (takeWhile (\<lambda>c. \<not> is_space c) t) in
      if w = [] then None else Some (w, drop (length w) t))"

definition scan_long :: "string \<Rightarrow> (int \<times> string) option" where
  "scan_long s =
     (let t = dropWhile is_space s; u = (if take 1 t = ''-'' \<or> take 1 t = ''+'' then tl t else t) in
      if takeWhile is_digit u = [] then None else Some (strtol t, dropWhile is_digit u))"

lemma scan_word_shorter: "scan_word n s = Some (w, r) \<Longrightarrow> length r < length s"
proof -
  assume a: "scan_word n s = Some (w, r)"
  let ?t = "dropWhile is_space s"
  have "w \<noteq> []" "r = drop (length w) ?t" "w = take n (takeWhile (\<lambda>c. \<not> is_space c) ?t)" using a by (auto simp: scan_word_def Let_def split: if_splits)
  moreover have "?t \<noteq> []" using calculation by (cases ?t) auto
  moreover have "length ?t \<le> length s" by (rule length_dropWhile_le)
  ultimately show ?thesis by (cases w; cases ?t) auto
qed

lemma scan_long_shorter: "scan_long s = Some (n, r) \<Longrightarrow> length r \<le> length s"
proof -
  assume a: "scan_long s = Some (n, r)"
  let ?t = "dropWhile is_space s"
  have "\<exists>u. length u \<le> length ?t \<and> r = dropWhile is_digit u" using a by (cases ?t) (auto simp: scan_long_def Let_def split: if_splits intro: le_SucI)
  then show ?thesis by (metis length_dropWhile_le order_trans)
qed

function mem_scan :: "string \<Rightarrow> int \<Rightarrow> int \<Rightarrow> int \<times> int" where
  "mem_scan s tot avail =
     (case scan_word 63 s of None \<Rightarrow> (tot, avail)
      | Some (key, s) \<Rightarrow>
          (case scan_long s of None \<Rightarrow> (tot, avail)
           | Some (val, s) \<Rightarrow>
               (case scan_word 31 s of None \<Rightarrow> (tot, avail)
                | Some (unit_name, s) \<Rightarrow>
                    let tot = (if key = ''MemTotal:'' then val else tot); avail = (if key = ''MemAvailable:'' then val else avail) in
                    if tot \<noteq> 0 \<and> avail \<noteq> 0 then (tot, avail) else mem_scan s tot avail)))"
  by pat_completeness auto
termination
  by (relation "measure (\<lambda>(s, tot, avail). length s)") (auto dest!: scan_word_shorter scan_long_shorter)

declare mem_scan.simps [simp del]

definition mem_info_mib :: "string option \<Rightarrow> (int \<times> int) option" where
  "mem_info_mib file =
     (case file of None \<Rightarrow> None
      | Some s \<Rightarrow> (case mem_scan s 0 0 of (tot, avail) \<Rightarrow> if tot = 0 then None else Some ((tot - avail) sdiv 1024, tot sdiv 1024)))"

text \<open>A number in fixed notation with \<open>d\<close> decimals, rounded to nearest even. (A NaN may also be printed with a sign.)\<close>

definition fixed_text :: "nat \<Rightarrow> float64 \<Rightarrow> string" where
  "fixed_text d x =
     (case x of NaN \<Rightarrow> ''nan'' | PosInf \<Rightarrow> ''inf'' | NegInf \<Rightarrow> ''-inf''
      | Fin q \<Rightarrow>
          let n = nat (round_even (\<bar>q\<bar> * 10 ^ d)); decimals = to_string_nat (n mod 10 ^ d) in
          (if q < 0 then ''-'' else []) @ to_string_nat (n div 10 ^ d) @ ''.'' @ replicate (d - length decimals) (CHR ''0'') @ decimals)"

definition cpu_line :: "string \<Rightarrow> string \<times> int \<Rightarrow> string \<times> int" where
  "cpu_line l st =
     (case st of (model, processors) \<Rightarrow>
        if starts_with l ''model name'' then
          (case dropWhile (\<lambda>c. c \<noteq> CHR '':'') l of [] \<Rightarrow> st
           | _ # p \<Rightarrow> (dropWhile (\<lambda>c. c = CHR '' '' \<or> c = CHR 0x09) (drop_trailing line_break p), processors))
        else if starts_with l ''processor'' then (model, processors + 1)
        else st)"

definition mhz_text :: "string option \<Rightarrow> string" where
  "mhz_text max_freq =
     (let max_khz = read_file_trim max_freq; khz = strtol (c_str max_khz) in
      if max_khz \<noteq> [] \<and> 0 < khz then take 63 (''@ '' @ fixed_text 3 (f_div (f_of_int khz) (Fin 1000000)) @ ''GHz'') else [])"

definition cpu_pretty :: "string option \<Rightarrow> string option \<Rightarrow> string" where
  "cpu_pretty cpuinfo max_freq =
     (case cpuinfo of None \<Rightarrow> []
      | Some s \<Rightarrow>
          (case fold cpu_line (fgets_strings 512 s) ([], 0) of
             (model, processors) \<Rightarrow>
               if model = [] then []
               else if 0 < processors then take 511 (model @ '' ('' @ to_string_int processors @ '') '' @ mhz_text max_freq)
               else take 511 (model @ '' '' @ mhz_text max_freq)))"

definition add_word :: "string \<Rightarrow> string \<Rightarrow> string" where
  "add_word w s = (if s \<noteq> [] then s @ '' '' @ w else s @ w)"

definition host_product :: "string option \<Rightarrow> string option \<Rightarrow> string option \<Rightarrow> string" where
  "host_product sys_vendor product_name product_version =
     (let vendor = read_file_trim sys_vendor; name = read_file_trim product_name; ver = read_file_trim product_version;
          s = (if vendor \<noteq> [] then vendor else []);
          s = (if name \<noteq> [] then add_word name s else s) in
      if ver \<noteq> [] \<and> ver \<noteq> ''None'' then add_word ver s else s)"

subsection \<open>The pages\<close>

record machine =
  mc_uname :: "(string \<times> string) option"
  mc_os_release :: "string option"
  mc_vendor :: "string option"
  mc_product :: "string option"
  mc_version :: "string option"
  mc_uptime :: "float64 option"
  mc_cpuinfo :: "string option"
  mc_max_freq :: "string option"
  mc_meminfo :: "string option"

definition json_member :: "string \<Rightarrow> string \<Rightarrow> string" where
  "json_member key v = [quote] @ key @ [quote] @ '':'' @ [quote] @ json_escape v @ [quote]"

definition memory_text :: "string option \<Rightarrow> string" where
  "memory_text meminfo =
     (case mem_info_mib meminfo of None \<Rightarrow> [] | Some (used, tot) \<Rightarrow> to_string_int used @ ''MiB / '' @ to_string_int tot @ ''MiB'')"

definition system_info_json :: "machine \<Rightarrow> string option" where
  "system_info_json m =
     (case uptime_pretty (mc_uptime m) of None \<Rightarrow> None
      | Some uptime \<Rightarrow>
          let (kernel_name, arch) = (case mc_uname m of None \<Rightarrow> ([], []) | Some u \<Rightarrow> u) in
          Some ([CHR 0x7B]
            @ json_member ''os'' (os_pretty_name (mc_os_release m)) @ '',''
            @ json_member ''arch'' arch @ '',''
            @ json_member ''host'' (host_product (mc_vendor m) (mc_product m) (mc_version m)) @ '',''
            @ json_member ''kernel'' kernel_name @ '',''
            @ json_member ''uptime'' uptime @ '',''
            @ json_member ''cpu'' (cpu_pretty (mc_cpuinfo m) (mc_max_freq m)) @ '',''
            @ json_member ''memory'' (memory_text (mc_meminfo m))
            @ [CHR 0x7D]))"

definition number_member :: "string \<Rightarrow> string \<Rightarrow> string" where
  "number_member key n = '','' @ [quote] @ key @ [quote] @ '':'' @ n"

definition percent_of :: "u64 \<Rightarrow> u64 \<Rightarrow> float64" where
  "percent_of used tot = (if 0 < tot then f_div (Fin 100 * f_of_int (uint used)) (f_of_int (uint tot)) else Fin 0)"

definition u64_text :: "u64 \<Rightarrow> string" where "u64_text n = to_string_nat (unat n)"

definition disk_json :: "DiskSample \<Rightarrow> string" where
  "disk_json d =
     [CHR 0x7B, quote] @ ''mount'' @ [quote] @ '':'' @ [quote] @ json_escape (ds_mount_point d) @ [quote]
     @ '','' @ [quote] @ ''filesystem'' @ [quote] @ '':'' @ [quote] @ json_escape (ds_filesystem d) @ [quote]
     @ number_member ''total_bytes'' (u64_text (ds_total_bytes d))
     @ number_member ''used_bytes'' (u64_text (ds_used_bytes d))
     @ number_member ''available_bytes'' (u64_text (ds_available_bytes d))
     @ number_member ''percent'' (fixed_text 2 (percent_of (ds_used_bytes d) (ds_total_bytes d)))
     @ [CHR 0x7D]"

fun disks_json :: "DiskSample list \<Rightarrow> string" where
  "disks_json [] = []" | "disks_json [d] = disk_json d" | "disks_json (d # e # ds) = disk_json d @ '','' @ disks_json (e # ds)"

definition host_metrics_json :: "HostResourceSnapshot option \<Rightarrow> string" where
  "host_metrics_json snapshot =
     (case snapshot of
        None \<Rightarrow> [CHR 0x7B, quote] @ ''available'' @ [quote] @ '':false,'' @ [quote] @ ''hint'' @ [quote] @ '':'' @ [quote]
                @ ''start services/host_monitor'' @ [quote, CHR 0x7D]
      | Some snap \<Rightarrow>
          [CHR 0x7B, quote] @ ''available'' @ [quote] @ '':true''
          @ number_member ''uptime_sec'' (fixed_text 2 (hr_uptime_sec snap))
          @ number_member ''load1'' (fixed_text 2 (hr_load1 snap))
          @ number_member ''load5'' (fixed_text 2 (hr_load5 snap))
          @ number_member ''load15'' (fixed_text 2 (hr_load15 snap))
          @ number_member ''cpu_percent'' (fixed_text 2 (cs_usage_ratio (hr_cpu snap) * Fin 100))
          @ number_member ''cpu_online'' (to_string_nat (unat (cs_online_cpus (hr_cpu snap))))
          @ number_member ''memory_total_bytes'' (u64_text (ms_total_bytes (hr_memory snap)))
          @ number_member ''memory_used_bytes'' (u64_text (ms_used_bytes (hr_memory snap)))
          @ number_member ''memory_available_bytes'' (u64_text (ms_available_bytes (hr_memory snap)))
          @ number_member ''memory_percent'' (fixed_text 2 (percent_of (ms_used_bytes (hr_memory snap)) (ms_total_bytes (hr_memory snap))))
          @ '','' @ [quote] @ ''disks'' @ [quote] @ '':'' @ [CHR 0x5B] @ disks_json (hr_disks snap) @ [CHR 0x5D, CHR 0x7D])"

subsection \<open>Asking the log service\<close>

definition crlf :: string where "crlf = [CHR 0x0D, CHR 0x0A]"

text \<open>An error of \<^verbatim>\<open>recv\<close> ends the loop like the end of the stream.\<close>

function recv_all :: "int \<Rightarrow> kernel \<Rightarrow> u8 list \<times> kernel" where
  "recv_all fd k =
     (case sys_call k of
        (Inl e, k1) \<Rightarrow> ([], k1)
      | (Inr n, k1) \<Rightarrow>
          let m = min n 2048; got = take m (k_incoming k1 fd); k2 = k1\<lparr>k_incoming := (k_incoming k1)(fd := drop m (k_incoming k1 fd))\<rparr> in
          if got = [] then ([], k2) else apfst ((@) got) (recv_all fd k2))"
  by pat_completeness auto
termination
  by (relation "measure (\<lambda>(fd, k). length (k_outcomes k))") (auto dest!: sys_call_shorter(1) [OF sym])

declare recv_all.simps [simp del]

definition http_request :: "string \<Rightarrow> string" where
  "http_request path_qs = ''GET '' @ path_qs @ '' HTTP/1.1'' @ crlf @ ''Host: 127.0.0.1'' @ crlf @ ''Connection: close'' @ crlf @ crlf"

definition http_body :: "string \<Rightarrow> string option" where
  "http_body resp =
     (case find_sub (crlf @ crlf) resp of None \<Rightarrow> None
      | Some p \<Rightarrow> if find_sub '' 200 '' (take p resp) = None then None else Some (drop (p + 4) resp))"

definition local_http_get_json :: "string \<Rightarrow> kernel \<Rightarrow> string option \<times> kernel" where
  "local_http_get_json path_qs k =
     (case sys_open k of
        (Inl e, k) \<Rightarrow> (None, k)
      | (Inr fd, k) \<Rightarrow>
          (case sys_call k of
             (Inl e, k) \<Rightarrow> (None, sys_close fd k)
           | (Inr _, k) \<Rightarrow>
               (case sys_write fd (to_bytes (http_request path_qs)) k of
                  (Inl e, k) \<Rightarrow> (None, sys_close fd k)
                | (Inr _, k) \<Rightarrow>
                    (case recv_all fd k of (resp, k) \<Rightarrow> (http_body (of_bytes resp), sys_close fd k)))))"

subsection \<open>Answering requests\<close>

datatype web_reply = Reply nat string | Serve_dir

record web_state =
  ws_machine :: machine
  ws_snapshot :: "HostResourceSnapshot option"
  ws_ring :: "string list"

text \<open>The parameter \<open>limit\<close> of the query fits a buffer of 32 characters. \<open>topic_build\<close> is the variant of the build that subscribes to log lines.\<close>

definition console_reply :: "bool \<Rightarrow> string \<Rightarrow> string \<Rightarrow> string \<Rightarrow> web_state \<Rightarrow> kernel \<Rightarrow> web_reply option \<times> kernel" where
  "console_reply topic_build uri query b_limit s k =
     (if uri = ''/api/system'' then (map_option (Reply 200) (system_info_json (ws_machine s)), k)
      else if uri = ''/api/metrics'' then (Some (Reply 200 (host_metrics_json (ws_snapshot s))), k)
      else if uri = ''/api/logs'' then
        if topic_build then (Some (Reply 200 (logs_ring_json (ws_ring s) (ring_limit b_limit))), k)
        else
          (case local_http_get_json (''/api/logs'' @ (if query \<noteq> [] then ''?'' @ query else [])) k of
             (Some body, k) \<Rightarrow> (Some (Reply 200 (c_str body)), k)
           | (None, k) \<Rightarrow>
               (Some (Reply 502 ([CHR 0x7B, quote] @ ''error'' @ [quote] @ '':'' @ [quote] @ ''logger_unavailable'' @ [quote] @ '','' @ [quote] @ ''hint''
                  @ [quote] @ '':'' @ [quote] @ ''start services/logger'' @ [quote, CHR 0x7D])), k))
      else (Some Serve_dir, k))"

subsection \<open>Heartbeats\<close>

record web_heart =
  wh_start :: int
  wh_sequence :: u64
  wh_last :: "int option"
  wh_sent :: "(int \<times> NodeHeartbeat) list"

text \<open>One turn of the main loop at the steady clock \<open>now\<close>; the Unix time is \<open>t\<close>.\<close>

definition maybe_publish_heartbeat :: "int \<times> u64 \<Rightarrow> web_heart \<Rightarrow> web_heart" where
  "maybe_publish_heartbeat obs h =
     (case obs of (now, t) \<Rightarrow>
        if (case wh_last h of None \<Rightarrow> False | Some l \<Rightarrow> now - l < 1000000000) then h
        else h\<lparr>wh_last := Some now, wh_sequence := wh_sequence h + 1,
               wh_sent := wh_sent h @ [(now, service_heartbeat ''web_console'' ''web_console ok'' (wh_sequence h) t (of_int ((now - wh_start h) sdiv 1000000)) [])]\<rparr>)"

subsection \<open>Numbers as they are printed\<close>

lemma to_string_nat_zero: "hd (to_string_nat n) = CHR ''0'' \<Longrightarrow> n = 0"
proof (induction n rule: to_string_nat.induct)
  case (1 n)
  show ?case
  proof (cases "n < 10")
    case True
    then have "hd (to_string_nat n) = digit_char n" by (simp add: to_string_nat.simps)
    moreover have "CHR ''0'' = digit_char 0" by (simp add: digit_char_def char_of_def bit_iff_odd)
    ultimately have "digit_char n = digit_char 0" using 1(2) by simp
    then have "(of_char (digit_char n) :: nat) = of_char (digit_char 0)" by simp
    with True show ?thesis by (simp add: digit_char_def of_char_of take_bit_eq_mod)
  next
    case False
    then have "hd (to_string_nat n) = hd (to_string_nat (n div 10))" by (subst to_string_nat.simps) (simp add: hd_append)
    with False 1 have "n div 10 = 0" by simp
    with False show ?thesis by simp
  qed
qed

lemma integer_literal: "r = [] \<or> hd r = CHR ''.'' \<and> tl r \<noteq> [] \<and> list_all is_digit (tl r) \<Longrightarrow> unsigned_literal (to_string_nat n @ r)"
proof -
  assume r: "r = [] \<or> hd r = CHR ''.'' \<and> tl r \<noteq> [] \<and> list_all is_digit (tl r)"
  have d: "list_all is_digit (to_string_nat n)" using to_string_nat_digits by (simp add: list_all_iff)
  have nd: "r = [] \<or> \<not> is_digit (hd r)" using r by (auto simp: is_digit_code)
  have "to_string_nat 0 = ''0''" by (simp add: to_string_nat.simps digit_char_def char_of_def bit_iff_odd)
  then have "hd (to_string_nat n) = CHR ''0'' \<longrightarrow> to_string_nat n = ''0''" using to_string_nat_zero [of n] by auto
  then show ?thesis using r d nd by (auto simp: unsigned_literal_def Let_def takeWhile_all dropWhile_all)
qed

lemma digit_start: "list_all is_digit w \<Longrightarrow> w \<noteq> [] \<Longrightarrow> take 1 (w @ r) \<noteq> ''-''"
  by (cases w) (auto simp: is_digit_code)

lemma nat_literal: "number_literal (to_string_nat n)"
  using integer_literal [of "[]" n] digit_start [of "to_string_nat n" "[]"] to_string_nat_digits [of n]
  by (simp add: number_literal_def list_all_iff)

lemma fixed_literal: "0 < d \<Longrightarrow> number_literal (fixed_text d (Fin q))"
proof -
  assume d: "0 < d"
  define n where "n = nat (round_even (\<bar>q\<bar> * 10 ^ d))"
  define ds where "ds = replicate (d - length (to_string_nat (n mod 10 ^ d))) (CHR ''0'') @ to_string_nat (n mod 10 ^ d)"
  have ds: "ds \<noteq> []" "list_all is_digit ds" using to_string_nat_digits by (auto simp: ds_def list_all_iff is_digit_code split: if_splits)
  have t: "fixed_text d (Fin q) = (if q < 0 then ''-'' else []) @ to_string_nat (n div 10 ^ d) @ CHR ''.'' # ds"
    by (simp add: fixed_text_def Let_def n_def ds_def)
  have "unsigned_literal (to_string_nat (n div 10 ^ d) @ CHR ''.'' # ds)" using ds by (intro integer_literal) simp
  moreover have "take 1 (to_string_nat (n div 10 ^ d) @ CHR ''.'' # ds) \<noteq> ''-''"
    using to_string_nat_digits by (intro digit_start) (auto simp: list_all_iff)
  ultimately show ?thesis unfolding t number_literal_def by (cases "q < 0") simp_all
qed

definition float_finite :: "float64 \<Rightarrow> bool" where
  "float_finite x = (case x of Fin q \<Rightarrow> True | _ \<Rightarrow> False)"

lemma finite_literal: "float_finite x \<Longrightarrow> number_literal (fixed_text 2 x)"
  using fixed_literal [of 2] by (cases x) (simp_all add: float_finite_def)

lemma big_round: "0 \<le> x \<Longrightarrow> x \<le> 2 ^ 71 \<Longrightarrow> \<exists>z. round64 x = Fin z \<and> 0 \<le> z \<and> z \<le> 2 ^ 71"
proof -
  assume x: "0 \<le> x" "x \<le> 2 ^ 71"
  have p: "pow2 (- (- 19)) = (524288 :: rat)" "pow2 (52 - (- 19)) = (2361183241434822606848 :: rat)" by (simp_all add: pow2_def)
  show ?thesis using round64_bounds [of 0 "- 19" x "2 ^ 52"] x unfolding p by simp
qed

lemma f_of_range: "0 \<le> n \<Longrightarrow> n < 2 ^ 64 \<Longrightarrow> \<exists>y. f_of_int n = Fin y \<and> 0 \<le> y \<and> y \<le> 2 ^ 64 \<and> (n \<noteq> 0 \<longrightarrow> 1 \<le> y)"
proof (cases "n = 0")
  case False
  assume "0 \<le> n" "n < 2 ^ 64"
  with False have w: "0 < n" "n < 2 ^ 64" by simp_all
  from f_of_u64 [OF this] obtain y where y: "f_of_int n = Fin y" "0 < y" "of_int (n div 4096 * 4096) \<le> y" "y \<le> 2 ^ 64" by blast
  have "1 \<le> y"
  proof (cases "n \<le> 2 ^ 52")
    case True
    then have "y = of_int n" using y(1) w by (simp add: f_of_int_def)
    then show ?thesis using w(1) by simp
  next
    case False
    then have "1 \<le> n div 4096 * 4096" using zdiv_mono1 [of 4096 n 4096] by simp
    then have "(1 :: rat) \<le> of_int (n div 4096 * 4096)" by simp
    with y(3) show ?thesis by linarith
  qed
  with y show ?thesis by auto
qed (simp add: f_of_int_def round64_def)

lemma f_of_word:
  fixes w :: u64
  shows "\<exists>y. f_of_int (uint w) = Fin y \<and> 0 \<le> y \<and> y \<le> 2 ^ 64 \<and> (w \<noteq> 0 \<longrightarrow> 1 \<le> y)"
  using f_of_range [of "uint w"] uint_ge_0 [of w] uint_lt2p [of w] by (simp add: uint_0_iff)

lemma percent_finite: "\<exists>z. percent_of used tot = Fin z \<and> 0 \<le> z"
proof (cases "0 < tot")
  case True
  obtain a where a: "f_of_int (uint used) = Fin a" "0 \<le> a" "a \<le> 2 ^ 64" using f_of_word [of used] by blast
  obtain y where y: "f_of_int (uint tot) = Fin y" "1 \<le> y" using f_of_word [of tot] True by auto
  obtain b where b: "round64 (100 * a) = Fin b" "0 \<le> b" "b \<le> 2 ^ 71" using big_round [of "100 * a"] a by auto
  have "b / y \<le> b" using y(2) b(2) mult_left_mono [of 1 y b] by (simp add: divide_le_eq)
  then obtain z where "round64 (b / y) = Fin z" "0 \<le> z" using big_round [of "b / y"] b y(2) by auto
  then show ?thesis using True y a b by (simp add: percent_of_def)
qed (simp add: percent_of_def)

text \<open>A percentage of up to \<open>2^45\<close> bytes is one.\<close>

lemma ratio_in_range:
  assumes "0 \<le> a" "a \<le> b" "0 < b" "b \<le> 2 ^ 45"
  shows "\<exists>z. f_div (Fin 100 * f_of_int a) (f_of_int b) = Fin z \<and> 0 \<le> z \<and> z \<le> 100"
proof -
  have f: "f_of_int a = Fin (of_int a)" "f_of_int b = Fin (of_int b)" "round64 (of_int (100 * a)) = Fin (of_int (100 * a))"
    using assms round64_int [of "100 * a"] by (simp_all add: f_of_int_def)
  have "0 \<le> (of_int (100 * a) / of_int b :: rat)" "(of_int (100 * a) / of_int b :: rat) \<le> 100"
    using assms by (simp_all add: divide_le_eq)
  with round64_int_bounds [of 0 "of_int (100 * a) / of_int b" 100]
  obtain z where "round64 (of_int (100 * a) / of_int b) = Fin z" "0 \<le> z" "z \<le> 100" by auto
  moreover have "Fin 100 * Fin (of_int a) = Fin (of_int (100 * a))" using f(3) by simp
  ultimately show ?thesis using assms(3) by (simp add: f(1,2))
qed

lemma percent_in_range:
  assumes "used \<le> tot" "uint tot \<le> 2 ^ 45"
  shows "\<exists>z. percent_of used tot = Fin z \<and> 0 \<le> z \<and> z \<le> 100"
proof (cases "0 < tot")
  case True
  then show ?thesis using ratio_in_range [of "uint used" "uint tot"] assms by (simp add: percent_of_def word_le_def word_less_def)
qed (simp add: percent_of_def)

subsection \<open>The pages are JSON documents\<close>

definition system_document :: "machine \<Rightarrow> string \<Rightarrow> json" where
  "system_document m uptime = J_object
     [(''os'', J_string (os_pretty_name (mc_os_release m))),
      (''arch'', J_string (case mc_uname m of None \<Rightarrow> [] | Some u \<Rightarrow> snd u)),
      (''host'', J_string (host_product (mc_vendor m) (mc_product m) (mc_version m))),
      (''kernel'', J_string (case mc_uname m of None \<Rightarrow> [] | Some u \<Rightarrow> fst u)),
      (''uptime'', J_string uptime),
      (''cpu'', J_string (cpu_pretty (mc_cpuinfo m) (mc_max_freq m))),
      (''memory'', J_string (memory_text (mc_meminfo m)))]"

definition disk_document :: "DiskSample \<Rightarrow> json" where
  "disk_document d = J_object
     [(''mount'', J_string (ds_mount_point d)), (''filesystem'', J_string (ds_filesystem d)),
      (''total_bytes'', J_number (u64_text (ds_total_bytes d))), (''used_bytes'', J_number (u64_text (ds_used_bytes d))),
      (''available_bytes'', J_number (u64_text (ds_available_bytes d))),
      (''percent'', J_number (fixed_text 2 (percent_of (ds_used_bytes d) (ds_total_bytes d))))]"

definition metrics_document :: "HostResourceSnapshot \<Rightarrow> json" where
  "metrics_document snap = J_object
     [(''available'', J_bool True), (''uptime_sec'', J_number (fixed_text 2 (hr_uptime_sec snap))),
      (''load1'', J_number (fixed_text 2 (hr_load1 snap))), (''load5'', J_number (fixed_text 2 (hr_load5 snap))),
      (''load15'', J_number (fixed_text 2 (hr_load15 snap))),
      (''cpu_percent'', J_number (fixed_text 2 (cs_usage_ratio (hr_cpu snap) * Fin 100))),
      (''cpu_online'', J_number (to_string_nat (unat (cs_online_cpus (hr_cpu snap))))),
      (''memory_total_bytes'', J_number (u64_text (ms_total_bytes (hr_memory snap)))),
      (''memory_used_bytes'', J_number (u64_text (ms_used_bytes (hr_memory snap)))),
      (''memory_available_bytes'', J_number (u64_text (ms_available_bytes (hr_memory snap)))),
      (''memory_percent'', J_number (fixed_text 2 (percent_of (ms_used_bytes (hr_memory snap)) (ms_total_bytes (hr_memory snap))))),
      (''disks'', J_array (map disk_document (hr_disks snap)))]"

lemma json_key: "json_escape ''os'' = ''os''" "json_escape ''arch'' = ''arch''" "json_escape ''host'' = ''host''" "json_escape ''kernel'' = ''kernel''"
  "json_escape ''uptime'' = ''uptime''" "json_escape ''cpu'' = ''cpu''" "json_escape ''memory'' = ''memory''"
  "json_escape ''mount'' = ''mount''" "json_escape ''filesystem'' = ''filesystem''" "json_escape ''total_bytes'' = ''total_bytes''"
  "json_escape ''used_bytes'' = ''used_bytes''" "json_escape ''available_bytes'' = ''available_bytes''" "json_escape ''percent'' = ''percent''"
  "json_escape ''available'' = ''available''" "json_escape ''uptime_sec'' = ''uptime_sec''" "json_escape ''load1'' = ''load1''"
  "json_escape ''load5'' = ''load5''" "json_escape ''load15'' = ''load15''" "json_escape ''cpu_percent'' = ''cpu_percent''"
  "json_escape ''cpu_online'' = ''cpu_online''" "json_escape ''memory_total_bytes'' = ''memory_total_bytes''"
  "json_escape ''memory_used_bytes'' = ''memory_used_bytes''" "json_escape ''memory_available_bytes'' = ''memory_available_bytes''"
  "json_escape ''memory_percent'' = ''memory_percent''" "json_escape ''disks'' = ''disks''" "json_escape ''hint'' = ''hint''"
  "json_escape ''start services/host_monitor'' = ''start services/host_monitor''"
  by code_simp+

lemma system_page: "uptime_pretty (mc_uptime m) = Some uptime \<Longrightarrow> system_info_json m = Some (print_json (system_document m uptime))"
  by (cases "mc_uname m") (simp_all add: system_info_json_def system_document_def json_member_def json_key split: prod.split)

lemma disk_page: "disk_json d = print_json (disk_document d)"
  by (simp add: disk_json_def disk_document_def number_member_def json_key)

lemma disks_page: "disks_json ds = print_elements (map disk_document ds)"
  by (induction ds rule: disks_json.induct) (simp_all add: disk_page)

lemma metrics_page: "host_metrics_json (Some snap) = print_json (metrics_document snap)"
  by (simp add: host_metrics_json_def metrics_document_def number_member_def json_key disks_page)

definition snapshot_finite :: "HostResourceSnapshot \<Rightarrow> bool" where
  "snapshot_finite snap = (float_finite (hr_uptime_sec snap) \<and> float_finite (hr_load1 snap) \<and> float_finite (hr_load5 snap)
     \<and> float_finite (hr_load15 snap) \<and> float_finite (cs_usage_ratio (hr_cpu snap) * Fin 100))"

lemma u64_literal: "number_literal (u64_text n)"
  by (simp add: u64_text_def nat_literal)

lemma percent_literal: "number_literal (fixed_text 2 (percent_of a b))"
  using percent_finite [of a b] fixed_literal [of 2] by auto

lemma disks_ok: "elements_ok (map disk_document ds)"
  by (induction ds) (simp_all add: disk_document_def u64_literal percent_literal)

lemma metrics_ok: "snapshot_finite snap \<Longrightarrow> json_ok (metrics_document snap)"
  by (simp add: metrics_document_def snapshot_finite_def finite_literal nat_literal u64_literal percent_literal disks_ok)

lemma system_ok: "json_ok (system_document m uptime)"
  by (simp add: system_document_def)

text \<open>What the pages say, to a reader of JSON, whatever the files of the machine hold.\<close>

lemma hint_reads_back: "read_document (host_metrics_json None) = Some (J_object [(''available'', J_bool False), (''hint'', J_string ''start services/host_monitor'')])"
proof -
  have "host_metrics_json None = print_json (J_object [(''available'', J_bool False), (''hint'', J_string ''start services/host_monitor'')])"
    by (simp add: host_metrics_json_def json_key)
  then show ?thesis by (simp only: printed_document_reads_back json_ok.simps members_ok.simps)
qed

lemma sampled_cpu_finite: "float_finite (cs_usage_ratio (hs_cpu (fst (HostSampler_Sample p h))) * Fin 100)"
proof -
  have ratio: "\<exists>q. u = Fin q \<and> 0 \<le> q \<and> q \<le> 1" if "Fin 0 \<le> u" "u \<le> Fin 1" for u using that by (cases u) (auto simp: less_eq_float64_def)
  have "\<exists>q. cs_usage_ratio (fst (sample_cpu (pf_stat p) h)) = Fin q \<and> 0 \<le> q \<and> q \<le> 1"
    using ratio [OF conjunct1 [OF UsageRatio_bounds] conjunct2 [OF UsageRatio_bounds]]
    by (auto simp: sample_cpu_def no_cpu_def Let_def split: option.split list.split)
  then obtain q where q: "cs_usage_ratio (fst (sample_cpu (pf_stat p) h)) = Fin q" "0 \<le> q" "q \<le> 1" by blast
  from q round64_int_bounds [of 0 "q * 100" 100] obtain z where "round64 (q * 100) = Fin z" by auto
  moreover obtain cpu h' where "sample_cpu (pf_stat p) h = (cpu, h')" by fastforce
  ultimately show ?thesis using q(1) by (simp add: HostSampler_Sample_def float_finite_def)
qed


definition demo_machine :: machine where
  "demo_machine = \<lparr>mc_uname = Some (''6.1.0'', ''x86_64''), mc_os_release = Some (''ID=x'' @ [CHR 0x0A] @ ''PRETTY_NAME='' @ [quote] @ ''Robot OS'' @ [quote, CHR 0x0A]),
     mc_vendor = Some ''ACME '', mc_product = Some ''R1'', mc_version = Some ''None'', mc_uptime = Some (Fin 3700), mc_cpuinfo = None, mc_max_freq = None,
     mc_meminfo = Some ''MemTotal: 4096 kB MemAvailable: 1024 kB''\<rparr>"


text \<open>A load average that is not a number makes the page no document at all.\<close>

lemma not_a_number_breaks_page:
  "read_value 3 (fixed_text 2 NaN @ r) = None"
  by (simp add: fixed_text_def numeral_3_eq_3 number_literal_def unsigned_literal_def number_char_def is_digit_code)

subsection \<open>Log lines through the console\<close>

lemma recv_all_pieces:
  "list_all (\<lambda>n. 0 < n) ns \<Longrightarrow> k_outcomes k = map Ret ns @ rest \<Longrightarrow> rest = [] \<or> (\<exists>e r. rest = Err e # r) \<Longrightarrow>
   fst (recv_all fd k) = take (sum_list (map (min 2048) ns)) (k_incoming k fd)"
proof (induction ns arbitrary: k)
  case Nil
  then show ?case by (subst recv_all.simps) (auto simp: sys_call_def)
next
  case (Cons n ns)
  let ?m = "min n 2048" and ?k = "k\<lparr>k_outcomes := map Ret ns @ rest\<rparr>"
  let ?k2 = "?k\<lparr>k_incoming := (k_incoming k)(fd := drop ?m (k_incoming k fd))\<rparr>"
  have s: "sys_call k = (Inr n, ?k)" using Cons.prems by (simp add: sys_call_def)
  have i: "fst (recv_all fd ?k2) = take (sum_list (map (min 2048) ns)) (drop ?m (k_incoming k fd))" using Cons by simp
  show ?case
  proof (cases "k_incoming k fd = []")
    case False
    moreover have "min n 2048 \<noteq> 0" using Cons.prems(1) by (simp add: min_def)
    ultimately show ?thesis by (subst recv_all.simps) (simp add: s i Let_def take_add min.commute [of 2048])
  qed (subst recv_all.simps, simp add: s Let_def)
qed

lemma recv_all_keeps_open: "k_open (snd (recv_all fd k)) = k_open k"
proof (induction fd k rule: recv_all.induct)
  case (1 fd k)
  obtain r k1 where s: "sys_call k = (r, k1)" by fastforce
  then have o: "k_open k1 = k_open k" by (auto simp: sys_call_def split: list.splits)
  show ?case using 1 s o by (subst recv_all.simps) (auto simp: Let_def split: sum.split)
qed

lemma sys_call_open: "sys_call k = (r, k1) \<Longrightarrow> k_open k1 = k_open k \<and> k_incoming k1 = k_incoming k"
  by (auto simp: sys_call_def split: list.splits)

text \<open>Whatever the calls return, the socket is closed again.\<close>

lemma local_http_closes: "k_open (snd (local_http_get_json path_qs k)) = k_open k"
proof -
  obtain r k1 where s: "sys_call k = (r, k1)" by fastforce
  show ?thesis
  proof (cases r)
    case (Inl e)
    then show ?thesis using s sys_call_open [OF s] by (simp add: local_http_get_json_def sys_open_def)
  next
    case (Inr n)
    define fd where "fd = fresh_fd (k_open k1)"
    define k2 where "k2 = k1\<lparr>k_open := fd # k_open k1\<rparr>"
    have opn: "sys_open k = (Inr fd, k2)" by (simp add: sys_open_def s Inr fd_def k2_def Let_def)
    have closes: "k_open (sys_close fd k') = k_open k" if "k_open k' = k_open k2" for k'
      using that sys_call_open [OF s] fresh_fd [of "k_open k1"] by (simp add: sys_close_def k2_def fd_def)
    obtain cr k3 where c: "sys_call k2 = (cr, k3)" by fastforce
    obtain w k4 where w: "sys_write fd (to_bytes (http_request path_qs)) k3 = (w, k4)" by fastforce
    obtain resp k5 where v: "recv_all fd k4 = (resp, k5)" by fastforce
    have "k_open k3 = k_open k2" using sys_call_open [OF c] by simp
    moreover have "k_open k4 = k_open k3" using w by (auto simp: sys_write_def Let_def dest: sys_call_open split: prod.splits sum.splits)
    moreover have "k_open k5 = k_open k4" using recv_all_keeps_open [of fd k4] v by simp
    ultimately show ?thesis using closes [of k3] closes [of k4] closes [of k5]
      by (cases cr; cases w) (simp_all add: local_http_get_json_def opn c w v)
  qed
qed

lemma find_sub_length: "find_sub p s = Some i \<Longrightarrow> i + length p \<le> length s"
proof (induction s arbitrary: i)
  case (Cons x xs)
  then show ?case
  proof (cases "starts_with (x # xs) p")
    case True
    then have "length p \<le> length (x # xs)" by (metis starts_with_def length_take min.cobounded1)
    with True Cons.prems show ?thesis by simp
  qed auto
qed (simp split: if_splits)

lemma find_sub_prefix: "find_sub p s = Some i \<Longrightarrow> find_sub p (s @ r) = Some i"
proof (induction s arbitrary: i)
  case Nil
  then show ?case by (cases r) (auto simp: starts_with_def split: if_splits)
next
  case (Cons x xs)
  have "length p \<le> length (x # xs)" using find_sub_length [OF Cons.prems] by simp
  then have "take (length p) (x # xs @ r) = take (length p) (x # xs)" using take_append [of "length p" "x # xs" r] by simp
  then have "starts_with (x # xs @ r) p = starts_with (x # xs) p" by (simp only: starts_with_def)
  with Cons show ?case by (auto split: if_splits)
qed

lemma http_body_of_response:
  assumes "find_sub (crlf @ crlf) (head @ crlf @ crlf) = Some (length head)" "find_sub '' 200 '' head \<noteq> None"
  shows "http_body (head @ crlf @ crlf @ body) = Some body"
proof -
  have "find_sub (crlf @ crlf) (head @ crlf @ crlf @ body) = Some (length head)" using find_sub_prefix [OF assms(1), of body] by simp
  then show ?thesis using assms(2) by (simp add: http_body_def crlf_def)
qed

text \<open>What is got when all the calls before the receiving succeed, and the pieces received are \<open>ns\<close>.\<close>

lemma local_http_received:
  assumes "k_outcomes k = Ret a # Ret b # Ret c # map Ret ns @ rest" "list_all (\<lambda>n. 0 < n) ns" "rest = [] \<or> (\<exists>e r. rest = Err e # r)"
  shows "fst (local_http_get_json path_qs k) = http_body (of_bytes (take (sum_list (map (min 2048) ns)) (k_incoming k (fresh_fd (k_open k)))))"
proof -
  obtain k4 where k4: "sys_write (fresh_fd (k_open k)) (to_bytes (http_request path_qs)) (k\<lparr>k_open := fresh_fd (k_open k) # k_open k, k_outcomes := Ret c # map Ret ns @ rest\<rparr>)
      = (Inr (min c (length (to_bytes (http_request path_qs)))), k4)"
    "k_outcomes k4 = map Ret ns @ rest" "k_incoming k4 = k_incoming k" by (simp add: sys_write_def sys_call_def Let_def)
  have "fst (recv_all fd k4) = take (sum_list (map (min 2048) ns)) (k_incoming k fd)" for fd
    using recv_all_pieces [OF assms(2) k4(2) assms(3), of fd] k4(3) by simp
  then show ?thesis using assms(1) k4(1)
    by (simp add: local_http_get_json_def sys_open_def sys_call_def Let_def split: prod.split) (metis fst_conv)
qed

lemma escape_no_nul: "CHR 0x00 \<notin> set (json_escape v)"
proof -
  have "CHR 0x00 \<notin> set (escape_char ch)" for ch
  proof (cases "(of_char ch :: nat) < 0x20")
    case True
    have hex: "hex_digit d \<noteq> CHR 0x00" if "d < 16" for d
      using that hex_value_hex_digit [OF that] by (auto simp: hex_value_def)
    have "of_char ch div 16 < (16 :: nat)" "of_char ch mod 16 < (16 :: nat)" using True by simp_all
    with hex [of "of_char ch div 16"] hex [of "of_char ch mod 16"] show ?thesis by (auto simp: escape_char_def)
  qed (auto simp: escape_char_def)
  then show ?thesis by (auto simp: json_escape_def)
qed

lemma items_no_nul: "CHR 0x00 \<notin> set (items_json items)"
  by (induction items rule: items_json.induct) (simp_all add: item_json_def escape_no_nul)

lemma served_logs_no_nul: "c_str (api_logs log_dir dir b_limit level tag) = api_logs log_dir dir b_limit level tag"
proof -
  have "CHR 0x00 \<notin> set (to_string_nat n)" for n using to_string_nat_digits [of n] by (auto simp: is_digit_code)
  then have "CHR 0x00 \<notin> set (api_logs log_dir dir b_limit level tag)"
    by (simp add: api_logs_def logs_json_def counted_items_json_def escape_no_nul items_no_nul)
  then show ?thesis unfolding c_str_def by (intro takeWhile_eq_all_conv [THEN iffD2]) auto
qed

text \<open>C38:
  The console passes on what the log service serves: however the answer is cut into pieces on its way, a reader of the console's
  answer gets the directory and exactly the last matching lines of its files, byte for byte; the socket is closed again. Any failure
  before the answer comes gives the code 502, and the socket is closed then, too. A connection that breaks in the middle of an answer is
  not noticed: what has arrived is passed on as a success (\<open>local_http_received\<close>).
\<close>

theorem proxied_logs_read_back:
  assumes "k_incoming k (fresh_fd (k_open k)) = to_bytes (head @ crlf @ crlf @ api_logs log_dir dir b_limit level tag)"
    and "find_sub (crlf @ crlf) (head @ crlf @ crlf) = Some (length head)" "find_sub '' 200 '' head \<noteq> None"
    and "k_outcomes k = Ret a # Ret b # Ret c # map Ret ns" "list_all (\<lambda>n. 0 < n) ns"
    and "length (k_incoming k (fresh_fd (k_open k))) \<le> sum_list (map (min 2048) ns)"
    and "console_reply False ''/api/logs'' query limit_text s k = (answer, k')"
  shows "\<exists>body. answer = Some (Reply 200 body) \<and> k_open k' = k_open k \<and>
    read_logs body = Some (log_dir, last_n (request_limit b_limit) (matching_lines dir level tag))"
proof -
  let ?q = "''/api/logs'' @ (if query \<noteq> [] then ''?'' @ query else [])"
  have "fst (local_http_get_json ?q k) = http_body (of_bytes (k_incoming k (fresh_fd (k_open k))))"
    using local_http_received [of k a b c ns "[]" ?q] assms(4,5,6) by simp
  then have body: "fst (local_http_get_json ?q k) = Some (api_logs log_dir dir b_limit level tag)"
    using http_body_of_response [OF assms(2,3)] assms(1) by simp
  then have "answer = Some (Reply 200 (api_logs log_dir dir b_limit level tag))" "k' = snd (local_http_get_json ?q k)"
    using assms(7) served_logs_no_nul by (cases "local_http_get_json ?q k"; simp add: console_reply_def)+
  then show ?thesis using local_http_closes [of ?q k] served_logs_read_back [of log_dir dir b_limit level tag] by simp
qed

lemma proxied_logs_read_back_witness:
  "\<exists>body k'. console_reply False ''/api/logs'' [] [] \<lparr>ws_machine = demo_machine, ws_snapshot = None, ws_ring = []\<rparr>
      \<lparr>k_open = [0], k_outcomes = [Ret 0, Ret 0, Ret 99, Ret 7, Ret 2048], k_written = [],
        k_incoming = \<lambda>fd. to_bytes (''HTTP/1.1 200 OK'' @ crlf @ crlf @ api_logs ''/l'' (Some [\<lparr>de_name = ''a.log'', de_regular = True, de_content = Some ''x''\<rparr>]) [] [] []),
        k_unlinked = []\<rparr> = (Some (Reply 200 body), k')
    \<and> read_logs body = Some (''/l'', [(''a.log'', ''x'')]) \<and> k_open k' = [0]"
proof -
  let ?dir = "Some [\<lparr>de_name = ''a.log'', de_regular = True, de_content = Some ''x''\<rparr>]"
  let ?s = "\<lparr>ws_machine = demo_machine, ws_snapshot = None, ws_ring = []\<rparr>"
  let ?k = "\<lparr>k_open = [0], k_outcomes = [Ret 0, Ret 0, Ret 99, Ret 7, Ret 2048], k_written = [],
        k_incoming = \<lambda>fd. to_bytes (''HTTP/1.1 200 OK'' @ crlf @ crlf @ api_logs ''/l'' ?dir [] [] []), k_unlinked = []\<rparr>"
  have h: "find_sub (crlf @ crlf) (''HTTP/1.1 200 OK'' @ crlf @ crlf) = Some (length ''HTTP/1.1 200 OK'')" "find_sub '' 200 '' ''HTTP/1.1 200 OK'' \<noteq> None" by code_simp+
  have "length (api_logs ''/l'' ?dir [] [] []) \<le> 2000" by code_simp
  then have l: "length (k_incoming ?k (fresh_fd (k_open ?k))) \<le> sum_list (map (min 2048) [7, 2048])" by (simp add: to_bytes_def crlf_def)
  have m: "last_n (request_limit []) (matching_lines ?dir [] []) = [(''a.log'', ''x'')]" by code_simp
  obtain answer k' where r: "console_reply False ''/api/logs'' [] [] ?s ?k = (answer, k')" by fastforce
  from proxied_logs_read_back [OF _ h _ _ l r, of "''/l''" ?dir "[]" "[]" "[]" 0 0 99] r m show ?thesis by auto
qed

subsection \<open>Heartbeats\<close>

definition new_heart :: "int \<Rightarrow> web_heart" where
  "new_heart start = \<lparr>wh_start = start, wh_sequence = 0, wh_last = None, wh_sent = []\<rparr>"

definition heart_inv :: "web_heart \<Rightarrow> bool" where
  "heart_inv h = (wh_sequence h = of_nat (length (wh_sent h))
     \<and> map (\<lambda>(_, b). h_sequence (hb_header b)) (wh_sent h) = map of_nat [0..<length (wh_sent h)]
     \<and> sorted_wrt (\<lambda>(s, _) (t, _). s + 1000000000 \<le> t) (wh_sent h)
     \<and> wh_last h = (if wh_sent h = [] then None else Some (fst (last (wh_sent h)))))"

lemma heart_step: "heart_inv h \<Longrightarrow> heart_inv (maybe_publish_heartbeat obs h) \<and> (\<exists>l. wh_last (maybe_publish_heartbeat obs h) = Some l \<and> fst obs - l < 1000000000)"
proof -
  assume h: "heart_inv h"
  obtain now t where obs: "obs = (now, t)" by fastforce
  show ?thesis
  proof (cases "case wh_last h of None \<Rightarrow> False | Some l \<Rightarrow> now - l < 1000000000")
    case True
    then show ?thesis using h by (auto simp: obs maybe_publish_heartbeat_def split: option.splits)
  next
    case False
    have "fst x + 1000000000 \<le> now" if x: "x \<in> set (wh_sent h)" for x
    proof -
      have ne: "wh_sent h \<noteq> []" using x by auto
      then have l: "wh_last h = Some (fst (last (wh_sent h)))" using h by (simp add: heart_inv_def)
      obtain ys y where y: "wh_sent h = ys @ [y]" using ne by (metis append_butlast_last_id)
      then have "sorted_wrt (\<lambda>(s, _) (t, _). s + 1000000000 \<le> t) (ys @ [y])" using h by (simp add: heart_inv_def)
      then have "fst x \<le> fst (last (wh_sent h))" using x y by (force simp: sorted_wrt_append)
      with False l show ?thesis by simp
    qed
    then show ?thesis using h False by (auto simp: obs maybe_publish_heartbeat_def heart_inv_def sorted_wrt_append service_heartbeat_def split: option.splits)
  qed
qed

lemma heart_run: "heart_inv h \<Longrightarrow> heart_inv (fold maybe_publish_heartbeat os h)"
  by (induction os arbitrary: h) (simp_all add: heart_step)

text \<open>
  Whenever the main loop turns: heartbeats are a second apart at least and numbered one by one, and after each turn the last one is less
  than a second old.
\<close>

theorem console_heartbeats:
  assumes "h = fold maybe_publish_heartbeat (os @ [(now, t)]) (new_heart start)"
  shows "sorted_wrt (\<lambda>(s, _) (t, _). s + 1000000000 \<le> t) (wh_sent h)
    \<and> map (\<lambda>(_, b). h_sequence (hb_header b)) (wh_sent h) = map of_nat [0..<length (wh_sent h)]
    \<and> (\<exists>l. wh_last h = Some l \<and> l \<in> fst ` set (wh_sent h) \<and> now - l < 1000000000)"
proof -
  have "heart_inv (fold maybe_publish_heartbeat os (new_heart start))" by (rule heart_run) (simp add: heart_inv_def new_heart_def)
  from heart_step [OF this, of "(now, t)"] assms have "heart_inv h" "\<exists>l. wh_last h = Some l \<and> now - l < 1000000000" by simp_all
  then show ?thesis by (auto simp: heart_inv_def split: if_splits)
qed

end
