(* ===== verification/Smart_Device.thy ===== *)
theory Smart_Device
  imports Parameter_Store Device_Registry
begin

section \<open>A product application with its services (apps/smart\_device\_demo/smart\_device\_demo.cpp)\<close>

text \<open>
  The application asks the configuration service for its mode and the device manager for the devices, until each has answered once, and
  publishes a heartbeat with the state of the product in each round. Here it runs together with the models of the two services
  (\<open>Parameter_Store\<close>, \<open>Device_Registry\<close>), whose other clients and rounds come between its rounds in any order. The choice of
  the link has the text of the other demos (\<open>Drive_Demos\<close>).
\<close>

subsection \<open>Messages\<close>

definition kNodeName_app :: string where "kNodeName_app = ''smart_device_app''"

definition product_FillHeader :: "u64 \<Rightarrow> u64 \<Rightarrow> Header" where
  "product_FillHeader sequence t = empty_header\<lparr>h_source_node := kNodeName_app, h_source_instance := ''demo-instance'', h_robot_id := ''openember'',
     h_sequence := sequence, h_timestamp_unix_ns := t\<rparr>"

definition app_AddService :: "string \<Rightarrow> string \<Rightarrow> string \<Rightarrow> NodeInfo \<Rightarrow> NodeInfo" where
  "app_AddService name request_type response_type info = info\<lparr>ni_services := ni_services info @
     [\<lparr>sv_name = name, sv_request_type = request_type, sv_response_type = response_type,
       sv_direction = ENDPOINT_DIRECTION_SERVICE_CLIENT, sv_qos = service_qos\<rparr>]\<rparr>"

datatype ProductState = State_kBooting | State_kInitializing | State_kReady | State_kRunning

fun ProductStateName :: "ProductState \<Rightarrow> string" where
  "ProductStateName State_kBooting = ''Booting''" | "ProductStateName State_kInitializing = ''Initializing''"
| "ProductStateName State_kReady = ''Ready''" | "ProductStateName State_kRunning = ''Running''"

fun ProductStateMetricValue :: "ProductState \<Rightarrow> int" where
  "ProductStateMetricValue State_kBooting = 0" | "ProductStateMetricValue State_kInitializing = 1"
| "ProductStateMetricValue State_kReady = 2" | "ProductStateMetricValue State_kRunning = 3"

definition UpdateProductState :: "u64 \<Rightarrow> bool \<Rightarrow> bool \<Rightarrow> ProductState" where
  "UpdateProductState uptime_ms config_ready devices_ready =
     (if uptime_ms < 1000 then State_kBooting
      else if \<not> config_ready \<or> \<not> devices_ready then State_kInitializing
      else if uptime_ms < 5000 then State_kReady
      else State_kRunning)"

definition product_BuildNodeInfo :: "u64 \<Rightarrow> u64 \<Rightarrow> u32 \<Rightarrow> u64 \<Rightarrow> NodeInfo" where
  "product_BuildNodeInfo sequence start_time_unix_ns pid t =
     AddCapability ''device_client'' (AddCapability ''config_client'' (AddCapability ''node_heartbeat''
     (AddCapability ''lightweight_fsm'' (AddCapability ''product_state_demo''
     (AddLabel ''role'' ''product_app'' (AddLabel ''app'' ''smart_device_demo''
     (app_AddService ''/devices/query'' ''openember.msgs.device.v1.DeviceQuery'' ''openember.msgs.device.v1.DeviceQueryResponse''
     (app_AddService ''/parameters/get'' ''openember.msgs.parameter.v1.GetParameterRequest'' ''openember.msgs.parameter.v1.GetParameterResponse''
     (AddTopic ''/nodes/smart_device_app/heartbeat'' ''openember.msgs.node.v1.NodeHeartbeat'' ENDPOINT_DIRECTION_PUBLISHER
     (AddTopic ''/nodes/smart_device_app/info'' ''openember.msgs.node.v1.NodeInfo'' ENDPOINT_DIRECTION_PUBLISHER
     (default_NodeInfo\<lparr>ni_header := product_FillHeader sequence t, ni_node_name := kNodeName_app, ni_instance_id := ''demo-instance'',
        ni_process_name := kNodeName_app, ni_process_id := pid, ni_kind := NODE_KIND_APPLICATION, ni_version := ''0.1.0'',
        ni_start_time_unix_ns := start_time_unix_ns\<rparr>)))))))))))"

subsection \<open>Calls\<close>

text \<open>A call takes a request and the state of the world and gives the response, if one arrives in time, and the new state.\<close>

type_synonym ('q, 'r, 'w) service_call = "'q \<Rightarrow> 'w \<Rightarrow> 'r option \<times> 'w"

definition TryLoadProductMode :: "(GetParameterRequest, ParameterResponse, 'w) service_call \<Rightarrow> u64 \<Rightarrow> string \<Rightarrow> 'w \<Rightarrow> (bool \<times> string) \<times> 'w" where
  "TryLoadProductMode client t product_mode w =
     (case client \<lparr>gr_header = product_FillHeader 0 t, gr_names = [''product.mode'']\<rparr> w of
        (None, w) \<Rightarrow> ((False, product_mode), w)
      | (Some response, w) \<Rightarrow>
          if st_code (pr_status response) \<noteq> 0 then ((False, product_mode), w)
          else (case pr_parameters response of
              [] \<Rightarrow> ((False, product_mode), w)
            | p # _ \<Rightarrow> ((True, case pv_string_value (pm_value p) of None \<Rightarrow> product_mode | Some v \<Rightarrow> v), w)))"

definition TryQueryDevices :: "(DeviceQuery, DeviceQueryResponse, 'w) service_call \<Rightarrow> u64 \<Rightarrow> int \<Rightarrow> 'w \<Rightarrow> (bool \<times> int) \<times> 'w" where
  "TryQueryDevices client t device_count w =
     (case client \<lparr>dq_header = product_FillHeader 0 t, dq_device_id = [], dq_category = DEVICE_CATEGORY_UNSPECIFIED, dq_include_state = True\<rparr> w of
        (None, w) \<Rightarrow> ((False, device_count), w)
      | (Some response, w) \<Rightarrow>
          if st_code (dr_status response) \<noteq> 0 then ((False, device_count), w)
          else ((dr_devices response \<noteq> [], int (length (dr_devices response))), w))"

subsection \<open>A round of the main loop\<close>

datatype product_message = App_node NodeInfo | App_heartbeat NodeHeartbeat

record smart_app =
  sa_start_time_unix_ns :: u64
  sa_info_sequence :: u64
  sa_heartbeat_sequence :: u64
  sa_config_ready :: bool
  sa_devices_ready :: bool
  sa_product_mode :: string
  sa_device_count :: int
  sa_published :: "product_message list"

definition smart_start :: "u64 \<Rightarrow> smart_app" where
  "smart_start t = \<lparr>sa_start_time_unix_ns = t, sa_info_sequence = 0, sa_heartbeat_sequence = 0, sa_config_ready = False, sa_devices_ready = False,
     sa_product_mode = ''unknown'', sa_device_count = 0, sa_published = []\<rparr>"

text \<open>What a round observes: the Unix time, the uptime, the process id, and whether its messages can be published.\<close>

record round_obs =
  ro_time :: u64
  ro_uptime_ms :: u64
  ro_pid :: u32
  ro_info_sent :: bool
  ro_heartbeat_sent :: bool

definition app_heartbeat :: "ProductState \<Rightarrow> round_obs \<Rightarrow> smart_app \<Rightarrow> NodeHeartbeat" where
  "app_heartbeat product_state obs a =
     \<lparr>hb_header = product_FillHeader (sa_heartbeat_sequence a) (ro_time obs), hb_node_name = kNodeName_app, hb_instance_id = ''demo-instance'',
      hb_lifecycle_state = LIFECYCLE_STATE_ACTIVE, hb_health = HEALTH_STATE_OK, hb_uptime_ms = ro_uptime_ms obs, hb_error_count = 0,
      hb_status_message = ''product_state='' @ ProductStateName product_state @ '', product_mode='' @ sa_product_mode a,
      hb_metrics =
        [\<lparr>mt_name = ''app.uptime'', mt_value = uint (ro_uptime_ms obs), mt_unit = ''ms''\<rparr>,
         \<lparr>mt_name = ''app.sequence'', mt_value = uint (sa_heartbeat_sequence a), mt_unit = ''count''\<rparr>,
         \<lparr>mt_name = ''product.state'', mt_value = ProductStateMetricValue product_state, mt_unit = ''enum''\<rparr>,
         \<lparr>mt_name = ''product.devices'', mt_value = sa_device_count a, mt_unit = ''count''\<rparr>]\<rparr>"

definition announce_app :: "round_obs \<Rightarrow> smart_app \<Rightarrow> smart_app" where
  "announce_app obs a =
     (if sa_heartbeat_sequence a mod 10 = 0 then
        a\<lparr>sa_published := sa_published a @
            (if ro_info_sent obs then [App_node (product_BuildNodeInfo (sa_info_sequence a) (sa_start_time_unix_ns a) (ro_pid obs) (ro_time obs))] else []),
          sa_info_sequence := sa_info_sequence a + 1\<rparr>
      else a)"

definition load_mode :: "(GetParameterRequest, ParameterResponse, 'w) service_call \<Rightarrow> round_obs \<Rightarrow> smart_app \<times> 'w \<Rightarrow> smart_app \<times> 'w" where
  "load_mode client obs s =
     (case s of (a, w) \<Rightarrow>
        if sa_config_ready a then (a, w)
        else (case TryLoadProductMode client (ro_time obs) (sa_product_mode a) w of
            ((ready, mode), w) \<Rightarrow> (a\<lparr>sa_config_ready := ready, sa_product_mode := mode\<rparr>, w)))"

definition find_devices :: "(DeviceQuery, DeviceQueryResponse, 'w) service_call \<Rightarrow> round_obs \<Rightarrow> smart_app \<times> 'w \<Rightarrow> smart_app \<times> 'w" where
  "find_devices client obs s =
     (case s of (a, w) \<Rightarrow>
        if sa_devices_ready a then (a, w)
        else (case TryQueryDevices client (ro_time obs) (sa_device_count a) w of
            ((ready, n), w) \<Rightarrow> (a\<lparr>sa_devices_ready := ready, sa_device_count := n\<rparr>, w)))"

definition beat :: "round_obs \<Rightarrow> smart_app \<Rightarrow> smart_app" where
  "beat obs a =
     (let product_state = UpdateProductState (ro_uptime_ms obs) (sa_config_ready a) (sa_devices_ready a) in
      a\<lparr>sa_published := sa_published a @ (if ro_heartbeat_sent obs then [App_heartbeat (app_heartbeat product_state obs a)] else []),
        sa_heartbeat_sequence := sa_heartbeat_sequence a + 1\<rparr>)"

definition smart_round ::
  "(GetParameterRequest, ParameterResponse, 'w) service_call \<Rightarrow> (DeviceQuery, DeviceQueryResponse, 'w) service_call \<Rightarrow> round_obs \<Rightarrow> smart_app \<times> 'w \<Rightarrow> smart_app \<times> 'w" where
  "smart_round parameter_client device_client obs s =
     apfst (beat obs) (find_devices device_client obs (load_mode parameter_client obs (apfst (announce_app obs) s)))"

subsection \<open>The application with its services\<close>

text \<open>A call may not reach the service, its answer may come too late, or it is answered in time.\<close>

datatype call_fate = Call_lost | Reply_late | Call_answered

type_synonym services = "config \<times> devmgr"

definition get_parameters :: "call_fate \<Rightarrow> u64 \<Rightarrow> (GetParameterRequest, ParameterResponse, services) service_call" where
  "get_parameters fate t request w =
     (if fate = Call_lost then (None, w)
      else (case on_get t request (fst w) of (response, c) \<Rightarrow> (if fate = Call_answered then Some response else None, c, snd w)))"

definition query_devices :: "call_fate \<Rightarrow> u64 \<Rightarrow> (DeviceQuery, DeviceQueryResponse, services) service_call" where
  "query_devices fate t request w =
     (if fate = Call_lost then (None, w)
      else (if fate = Call_answered then Some (dev_Query (dm_registry (snd w)) request (dm_query_sequence (snd w)) t) else None,
            fst w, (snd w)\<lparr>dm_query_sequence := dm_query_sequence (snd w) + 1\<rparr>))"

datatype product_op = Po_config config_op | Po_devices devmgr_op | Po_app call_fate call_fate round_obs

fun product_do :: "product_op \<Rightarrow> smart_app \<times> services \<Rightarrow> smart_app \<times> services" where
  "product_do (Po_config c) (a, s, d) = (a, case config_step c s of None \<Rightarrow> s | Some s \<Rightarrow> s, d)"
| "product_do (Po_devices c) (a, s, d) = (a, s, case devmgr_step c d of None \<Rightarrow> d | Some d \<Rightarrow> d)"
| "product_do (Po_app g q obs) w = smart_round (get_parameters g (ro_time obs)) (query_devices q (ro_time obs)) obs w"

definition product_start :: "u64 \<Rightarrow> smart_app \<times> services" where
  "product_start t = (smart_start t, config_init, devmgr_init t)"

subsection \<open>What the services always have\<close>

interpretation cfg_names: guarded_machine config_step "\<lambda>c. True" "\<lambda>s. store_ok (cs_store s) \<and> smap_get (cs_store s) n \<noteq> None" for n
proof unfold_locales
  fix s c s' assume i: "store_ok (cs_store s) \<and> smap_get (cs_store s) n \<noteq> None" and s: "config_step c s = Some s'"
  show "store_ok (cs_store s') \<and> smap_get (cs_store s') n \<noteq> None"
    using s
  proof (cases rule: config_step_store)
    case same
    then show ?thesis using i by simp
  next
    case (set ok message changed params)
    have "store_ok (cs_store s')" using Set_parameters_ok [OF _ set] i by simp
    moreover have "smap_get (cs_store s') n \<noteq> None"
      using conjunct1 [OF i] set
    proof (cases rule: Set_parameters_cases)
      case stored
      then show ?thesis using i by (simp add: reg.get_puts store_ok_def split: list.split)
    qed (use i in simp)
    ultimately show ?thesis by simp
  qed
qed

definition has_device :: "string \<Rightarrow> devices \<Rightarrow> bool" where
  "has_device n ds = (case smap_get ds n of None \<Rightarrow> False | Some d \<Rightarrow> md_has_info d)"

lemma has_device_UpdateInfo: "devices_ok ds \<Longrightarrow> has_device n ds \<Longrightarrow> has_device n (UpdateInfo info ds)"
  by (auto simp: has_device_def UpdateInfo_def unreported_def devices_ok_def smap_get_put split: option.splits)

lemma has_device_UpdateState: "devices_ok ds \<Longrightarrow> has_device n ds \<Longrightarrow> has_device n (UpdateState st ds)"
  by (auto simp: has_device_def UpdateState_def device_at_def devices_ok_def smap_get_put split: option.splits)

lemma has_device_folds:
  "devices_ok ds \<Longrightarrow> has_device n ds \<Longrightarrow> has_device n (fold (\<lambda>d. UpdateInfo (md_info d)) xs ds)"
  "devices_ok ds \<Longrightarrow> has_device n ds \<Longrightarrow> has_device n (fold (\<lambda>d. UpdateState (md_state d)) xs ds)"
  by (induction xs arbitrary: ds) (simp_all add: UpdateInfo_ok UpdateState_ok has_device_UpdateInfo has_device_UpdateState)

interpretation dev_names: guarded_machine devmgr_step "\<lambda>c. True" "\<lambda>s. devices_ok (dm_registry s) \<and> has_device n (dm_registry s)" for n
proof unfold_locales
  fix s c s' assume "devices_ok (dm_registry s) \<and> has_device n (dm_registry s)" "devmgr_step c s = Some s'"
  then show "devices_ok (dm_registry s') \<and> has_device n (dm_registry s')"
    by (cases c) (auto simp: report_devices_def announce_devices_def Let_def UpdateInfo_ok UpdateState_ok fold_updates_ok
        has_device_UpdateInfo has_device_UpdateState has_device_folds)
qed

definition services_ok :: "services \<Rightarrow> bool" where
  "services_ok w = (store_ok (cs_store (fst w)) \<and> smap_get (cs_store (fst w)) ''product.mode'' \<noteq> None
     \<and> devices_ok (dm_registry (snd w)) \<and> has_device ''runtime_demo'' (dm_registry (snd w)))"

lemma services_start: "services_ok (config_init, devmgr_init t)"
proof -
  have "has_device ''runtime_demo'' (DeviceRegistry (BuildInitialDevices t))"
    by (simp add: DeviceRegistry_def BuildInitialDevices_def UpdateInfo_def UpdateState_def unreported_def device_at_def new_ManagedDevice_def
        has_device_def Let_def smap_get_def smap_put_def default_DeviceInfo_def default_DeviceState_def)
  moreover have "smap_get ParameterStore ''product.mode'' \<noteq> None" by code_simp
  ultimately show ?thesis by (simp add: services_ok_def config_init_def devmgr_init_def ParameterStore_ok DeviceRegistry_ok)
qed

lemma answered_parameters:
  assumes "services_ok w"
  obtains p where "smap_get (cs_store (fst w)) ''product.mode'' = Some p"
    "pr_parameters (fst (on_get t \<lparr>gr_header = h, gr_names = [''product.mode'']\<rparr> (fst w))) = [p]"
    "st_code (pr_status (fst (on_get t \<lparr>gr_header = h, gr_names = [''product.mode'']\<rparr> (fst w)))) = 0"
  using assms by (auto simp: services_ok_def on_get_def Get_def BuildGetResponse_def service_status_def)

lemma answered_devices:
  assumes "services_ok w" "dq_device_id request = []" "dq_category request = DEVICE_CATEGORY_UNSPECIFIED"
  shows "dr_devices (dev_Query (dm_registry (snd w)) request n t) \<noteq> []" "st_code (dr_status (dev_Query (dm_registry (snd w)) request n t)) = 0"
proof -
  have ok: "devices_ok (dm_registry (snd w))" using assms(1) by (simp add: services_ok_def)
  obtain d where d: "smap_get (dm_registry (snd w)) ''runtime_demo'' = Some d" "md_has_info d"
    using assms(1) by (auto simp: services_ok_def has_device_def split: option.splits)
  then have "(''runtime_demo'', d) \<in> set (smap_entries (dm_registry (snd w)))"
    using ok reg.entries_get [of "dm_registry (snd w)" "''runtime_demo''" d] by (simp add: devices_ok_def)
  moreover have "device_match request d" using d(2) assms(2,3) by (simp add: device_match_def)
  ultimately show "dr_devices (dev_Query (dm_registry (snd w)) request n t) \<noteq> []"
    unfolding dev_Query_eq [OF ok] by (auto simp: filter_empty_conv intro!: bexI [of _ "(''runtime_demo'', d)"])
  have "dr_status (dev_Query_loop request es r) = dr_status r" for es r
    by (induction request es r rule: dev_Query_loop.induct) (auto simp: Let_def)
  then show "st_code (dr_status (dev_Query (dm_registry (snd w)) request n t)) = 0" by (simp add: dev_Query_def service_status_def)
qed

subsection \<open>A round\<close>

text \<open>The mode that the store holds for a reader; a value of another kind leaves the mode as it was.\<close>

definition mode_in :: "services \<Rightarrow> string \<Rightarrow> string" where
  "mode_in w before = (case smap_get (cs_store (fst w)) ''product.mode'' of
      None \<Rightarrow> before | Some p \<Rightarrow> (case pv_string_value (pm_value p) of None \<Rightarrow> before | Some v \<Rightarrow> v))"

lemma load_mode_step:
  assumes w: "services_ok w" and r: "load_mode (get_parameters g t) obs (a, w) = (a', w')"
  shows "services_ok w' \<and> snd w' = snd w \<and>
    a' = a\<lparr>sa_config_ready := (sa_config_ready a \<or> g = Call_answered),
           sa_product_mode := (if \<not> sa_config_ready a \<and> g = Call_answered then mode_in w (sa_product_mode a) else sa_product_mode a)\<rparr>"
proof (cases "sa_config_ready a")
  case True
  then show ?thesis using w r by (auto simp: load_mode_def)
next
  case False
  obtain p where p: "smap_get (cs_store (fst w)) ''product.mode'' = Some p"
    "pr_parameters (fst (on_get t \<lparr>gr_header = product_FillHeader 0 (ro_time obs), gr_names = [''product.mode'']\<rparr> (fst w))) = [p]"
    "st_code (pr_status (fst (on_get t \<lparr>gr_header = product_FillHeader 0 (ro_time obs), gr_names = [''product.mode'']\<rparr> (fst w)))) = 0"
    by (rule answered_parameters [OF w])
  obtain response c where o: "on_get t \<lparr>gr_header = product_FillHeader 0 (ro_time obs), gr_names = [''product.mode'']\<rparr> (fst w) = (response, c)" by fastforce
  then have "cs_store c = cs_store (fst w)" by (auto simp: on_get_def)
  then have "services_ok (c, snd w)" using w by (simp add: services_ok_def)
  then show ?thesis using w r False p o
    by (cases g) (auto simp: load_mode_def TryLoadProductMode_def get_parameters_def mode_in_def)
qed

lemma find_devices_step:
  assumes w: "services_ok w" and r: "find_devices (query_devices q t) obs (a, w) = (a', w')"
  shows "services_ok w' \<and> fst w' = fst w \<and> (\<exists>n. a' = a\<lparr>sa_devices_ready := (sa_devices_ready a \<or> q = Call_answered), sa_device_count := n\<rparr>)"
proof (cases "sa_devices_ready a")
  case True
  then have "a' = a" "w' = w" using r by (auto simp: find_devices_def)
  then show ?thesis using w True by (cases a) auto
next
  case False
  let ?request = "\<lparr>dq_header = product_FillHeader 0 (ro_time obs), dq_device_id = [], dq_category = DEVICE_CATEGORY_UNSPECIFIED, dq_include_state = True\<rparr>"
  have "dr_devices (dev_Query (dm_registry (snd w)) ?request n t) \<noteq> []" "st_code (dr_status (dev_Query (dm_registry (snd w)) ?request n t)) = 0" for n
    using answered_devices [OF w, of ?request] by simp_all
  then show ?thesis using w r False
    by (cases q; cases a) (auto simp: find_devices_def TryQueryDevices_def query_devices_def services_ok_def Let_def)
qed

fun heartbeats_in :: "product_message list \<Rightarrow> NodeHeartbeat list" where
  "heartbeats_in [] = []" | "heartbeats_in (App_heartbeat b # ms) = b # heartbeats_in ms" | "heartbeats_in (App_node i # ms) = heartbeats_in ms"

lemma heartbeats_append [simp]: "heartbeats_in (xs @ ys) = heartbeats_in xs @ heartbeats_in ys"
  by (induction xs rule: heartbeats_in.induct) auto

definition state_metric :: "NodeHeartbeat \<Rightarrow> int" where
  "state_metric b = mt_value (hb_metrics b ! 2)"

definition app_states :: "smart_app \<Rightarrow> int list" where
  "app_states a = map state_metric (heartbeats_in (sa_published a))"

definition app_sequences :: "smart_app \<Rightarrow> nat list" where
  "app_sequences a = map (\<lambda>b. unat (h_sequence (hb_header b))) (heartbeats_in (sa_published a))"

lemma smart_round_step:
  assumes w: "services_ok w" and r: "product_do (Po_app g q obs) (a, w) = (a', w')"
  shows "services_ok w' \<and> sa_config_ready a' = (sa_config_ready a \<or> g = Call_answered) \<and> sa_devices_ready a' = (sa_devices_ready a \<or> q = Call_answered)
    \<and> sa_heartbeat_sequence a' = sa_heartbeat_sequence a + 1
    \<and> sa_product_mode a' = (if \<not> sa_config_ready a \<and> g = Call_answered then mode_in w (sa_product_mode a) else sa_product_mode a)
    \<and> (\<exists>b. (ro_heartbeat_sent obs \<longrightarrow> last (sa_published a') = App_heartbeat b) \<and>
        heartbeats_in (sa_published a') = heartbeats_in (sa_published a) @ (if ro_heartbeat_sent obs then [b] else [])
      \<and> state_metric b = ProductStateMetricValue (UpdateProductState (ro_uptime_ms obs) (sa_config_ready a') (sa_devices_ready a'))
      \<and> h_sequence (hb_header b) = sa_heartbeat_sequence a
      \<and> hb_status_message b = ''product_state='' @ ProductStateName (UpdateProductState (ro_uptime_ms obs) (sa_config_ready a') (sa_devices_ready a'))
          @ '', product_mode='' @ sa_product_mode a')"
proof -
  define a0 where "a0 = announce_app obs a"
  have a0: "sa_config_ready a0 = sa_config_ready a" "sa_devices_ready a0 = sa_devices_ready a" "sa_heartbeat_sequence a0 = sa_heartbeat_sequence a"
    "sa_product_mode a0 = sa_product_mode a" "heartbeats_in (sa_published a0) = heartbeats_in (sa_published a)"
    by (auto simp: a0_def announce_app_def)
  obtain a1 w1 where l: "load_mode (get_parameters g (ro_time obs)) obs (a0, w) = (a1, w1)" by (rule prod.exhaust)
  obtain a2 w2 where f: "find_devices (query_devices q (ro_time obs)) obs (a1, w1) = (a2, w2)" by (rule prod.exhaust)
  note l1 = load_mode_step [OF w l]
  note f1 = find_devices_step [OF conjunct1 [OF l1] f]
  have e: "a' = beat obs a2" "w' = w2" using r l f by (simp_all add: smart_round_def a0_def)
  obtain n where a2: "a2 = a1\<lparr>sa_devices_ready := (sa_devices_ready a1 \<or> q = Call_answered), sa_device_count := n\<rparr>" using f1 by blast
  have a1: "sa_config_ready a1 = (sa_config_ready a \<or> g = Call_answered)" "sa_devices_ready a1 = sa_devices_ready a"
    "sa_heartbeat_sequence a1 = sa_heartbeat_sequence a" "heartbeats_in (sa_published a1) = heartbeats_in (sa_published a)"
    "sa_product_mode a1 = (if \<not> sa_config_ready a \<and> g = Call_answered then mode_in w (sa_product_mode a) else sa_product_mode a)"
    by (simp_all add: conjunct2 [OF conjunct2 [OF l1]] a0)
  have a2': "sa_config_ready a2 = (sa_config_ready a \<or> g = Call_answered)" "sa_devices_ready a2 = (sa_devices_ready a \<or> q = Call_answered)"
    "sa_heartbeat_sequence a2 = sa_heartbeat_sequence a" "heartbeats_in (sa_published a2) = heartbeats_in (sa_published a)"
    "sa_product_mode a2 = (if \<not> sa_config_ready a \<and> g = Call_answered then mode_in w (sa_product_mode a) else sa_product_mode a)"
    using a1 by (simp_all add: a2)
  define b where "b = app_heartbeat (UpdateProductState (ro_uptime_ms obs) (sa_config_ready a2) (sa_devices_ready a2)) obs a2"
  have k: "sa_config_ready a' = sa_config_ready a2" "sa_devices_ready a' = sa_devices_ready a2" "sa_product_mode a' = sa_product_mode a2"
    "sa_heartbeat_sequence a' = sa_heartbeat_sequence a2 + 1" "sa_published a' = sa_published a2 @ (if ro_heartbeat_sent obs then [App_heartbeat b] else [])"
    by (simp_all add: e(1) beat_def Let_def b_def)
  have m: "state_metric b = ProductStateMetricValue (UpdateProductState (ro_uptime_ms obs) (sa_config_ready a2) (sa_devices_ready a2))"
    "h_sequence (hb_header b) = sa_heartbeat_sequence a2"
    "hb_status_message b = ''product_state='' @ ProductStateName (UpdateProductState (ro_uptime_ms obs) (sa_config_ready a2) (sa_devices_ready a2))
        @ '', product_mode='' @ sa_product_mode a2"
    by (simp_all add: b_def state_metric_def app_heartbeat_def product_FillHeader_def)
  have "services_ok w'" using f1 e(2) by blast
  then show ?thesis unfolding k m a2'
    by (intro conjI refl exI [of _ b]) (simp_all add: m a2')
qed

lemma other_step:
  assumes "services_ok w" "product_do p (a, w) = (a', w')" "\<forall>g q obs. p \<noteq> Po_app g q obs"
  shows "services_ok w' \<and> a' = a"
proof (cases p)
  case (Po_config c)
  obtain s d where w: "w = (s, d)" by fastforce
  show ?thesis
  proof (cases "config_step c s")
    case (Some s')
    with cfg_names.step_inv [of s "''product.mode''" c s'] show ?thesis using assms Po_config by (auto simp: w services_ok_def)
  qed (use assms Po_config in \<open>auto simp: w\<close>)
next
  case (Po_devices c)
  obtain s d where w: "w = (s, d)" by fastforce
  show ?thesis
  proof (cases "devmgr_step c d")
    case (Some d')
    with dev_names.step_inv [of d "''runtime_demo''" c d'] show ?thesis using assms Po_devices by (auto simp: w services_ok_def)
  qed (use assms Po_devices in \<open>auto simp: w\<close>)
qed (use assms in auto)

subsection \<open>Over a run\<close>

fun uptimes :: "product_op list \<Rightarrow> u64 list" where
  "uptimes [] = []" | "uptimes (Po_app g q obs # ps) = ro_uptime_ms obs # uptimes ps" | "uptimes (p # ps) = uptimes ps"

lemma uptimes_append [simp]: "uptimes (xs @ ys) = uptimes xs @ uptimes ys"
  by (induction xs rule: uptimes.induct) auto

definition config_answered :: "product_op list \<Rightarrow> bool" where
  "config_answered ops = list_ex (\<lambda>p. case p of Po_app g q obs \<Rightarrow> g = Call_answered | _ \<Rightarrow> False) ops"

definition devices_answered :: "product_op list \<Rightarrow> bool" where
  "devices_answered ops = list_ex (\<lambda>p. case p of Po_app g q obs \<Rightarrow> q = Call_answered | _ \<Rightarrow> False) ops"

lemma product_state_mono:
  "u \<le> u' \<Longrightarrow> (c \<longrightarrow> c') \<Longrightarrow> (d \<longrightarrow> d') \<Longrightarrow>
   ProductStateMetricValue (UpdateProductState u c d) \<le> ProductStateMetricValue (UpdateProductState u' c' d')"
  by (cases "u < 1000"; cases "u' < 1000"; cases "u < 5000"; cases "u' < 5000") (auto simp: UpdateProductState_def)

definition product_inv :: "product_op list \<Rightarrow> smart_app \<times> services \<Rightarrow> bool" where
  "product_inv ops s =
     (case s of (a, w) \<Rightarrow>
        services_ok w \<and> sa_config_ready a = config_answered ops \<and> sa_devices_ready a = devices_answered ops
      \<and> unat (sa_heartbeat_sequence a) = length (uptimes ops)
      \<and> sorted (app_states a) \<and> sorted_wrt (<) (app_sequences a) \<and> list_all (\<lambda>n. n < length (uptimes ops)) (app_sequences a)
      \<and> list_all (\<lambda>v. uptimes ops \<noteq> [] \<and> v \<le> ProductStateMetricValue (UpdateProductState (last (uptimes ops)) (sa_config_ready a) (sa_devices_ready a)))
          (app_states a))"

lemma product_step_inv:
  assumes i: "product_inv ops s" and sorted: "sorted (uptimes (ops @ [p]))" and short: "length (ops @ [p]) < 2 ^ 64"
  shows "product_inv (ops @ [p]) (product_do p s)"
proof -
  obtain a w where s: "s = (a, w)" by (rule prod.exhaust)
  obtain a' w' where r: "product_do p (a, w) = (a', w')" by (rule prod.exhaust)
  have w: "services_ok w" using i by (simp add: product_inv_def s)
  show ?thesis
  proof (cases "\<exists>g q obs. p = Po_app g q obs")
    case False
    then have p: "\<forall>g q obs. p \<noteq> Po_app g q obs" by blast
    then have "uptimes [p] = []" "config_answered (ops @ [p]) = config_answered ops" "devices_answered (ops @ [p]) = devices_answered ops"
      by (cases p; auto simp: config_answered_def devices_answered_def)+
    then show ?thesis using other_step [OF w r p] i r by (auto simp: product_inv_def s simp del: product_do.simps)
  next
    case True
    then obtain g q obs where p: "p = Po_app g q obs" by blast
    let ?u = "ro_uptime_ms obs"
    let ?now = "ProductStateMetricValue (UpdateProductState ?u (sa_config_ready a') (sa_devices_ready a'))"
    obtain b where b: "services_ok w'" "sa_config_ready a' = (sa_config_ready a \<or> g = Call_answered)" "sa_devices_ready a' = (sa_devices_ready a \<or> q = Call_answered)"
      "sa_heartbeat_sequence a' = sa_heartbeat_sequence a + 1"
      "heartbeats_in (sa_published a') = heartbeats_in (sa_published a) @ (if ro_heartbeat_sent obs then [b] else [])"
      "state_metric b = ?now" "h_sequence (hb_header b) = sa_heartbeat_sequence a"
      using smart_round_step [OF w r [unfolded p]] by blast
    have flags: "sa_config_ready a' = config_answered (ops @ [p])" "sa_devices_ready a' = devices_answered (ops @ [p])"
      using i b(2,3) by (simp_all add: product_inv_def s p config_answered_def devices_answered_def)
    have len: "length (uptimes xs) \<le> length xs" for xs by (induction xs rule: uptimes.induct) auto
    have u: "unat (sa_heartbeat_sequence a) = length (uptimes ops)" using i by (simp add: product_inv_def s)
    then have u': "unat (sa_heartbeat_sequence a') = length (uptimes (ops @ [p]))"
      using b(4) short len [of ops] by (simp add: p unat_word_ariths)
    have le: "v \<le> ?now" if v: "v \<in> set (app_states a)" for v
    proof -
      have "uptimes ops \<noteq> []" "v \<le> ProductStateMetricValue (UpdateProductState (last (uptimes ops)) (sa_config_ready a) (sa_devices_ready a))"
        using i v by (auto simp: product_inv_def s list_all_iff)
      moreover have "last (uptimes ops) \<le> ?u" using sorted calculation(1) last_in_set by (auto simp: p sorted_wrt_append)
      ultimately show ?thesis using product_state_mono [of "last (uptimes ops)" ?u "sa_config_ready a" "sa_config_ready a'" "sa_devices_ready a" "sa_devices_ready a'"] b(2,3) by simp
    qed
    have st: "app_states a' = app_states a @ (if ro_heartbeat_sent obs then [?now] else [])"
      "app_sequences a' = app_sequences a @ (if ro_heartbeat_sent obs then [length (uptimes ops)] else [])"
      using b(5-7) u by (simp_all add: app_states_def app_sequences_def)
    have old: "sorted (app_states a)" "sorted_wrt (<) (app_sequences a)" "list_all (\<lambda>n. n < length (uptimes ops)) (app_sequences a)"
      using i by (simp_all add: product_inv_def s)
    have "sorted (app_states a')" "list_all (\<lambda>v. v \<le> ?now) (app_states a')"
      using le old(1) by (auto simp: st sorted_wrt_append list_all_iff)
    moreover have "sorted_wrt (<) (app_sequences a')" "list_all (\<lambda>n. n < length (uptimes (ops @ [p]))) (app_sequences a')"
      using old(2,3) by (auto simp: st sorted_wrt_append list_all_iff p)
    ultimately show ?thesis using b(1) flags u' r by (simp add: product_inv_def s) (simp add: p)
  qed
qed

lemma product_run_inv: "sorted (uptimes ops) \<Longrightarrow> length ops < 2 ^ 64 \<Longrightarrow> product_inv ops (fold product_do ops (product_start t))"
proof (induction ops rule: rev_induct)
  case Nil
  then show ?case
    using services_start [of t] by (simp add: product_inv_def product_start_def smart_start_def config_answered_def devices_answered_def app_states_def app_sequences_def)
next
  case (snoc p ops)
  then have "product_inv ops (fold product_do ops (product_start t))" by (simp add: sorted_wrt_append)
  from product_step_inv [OF this snoc.prems] show ?case by simp
qed

text \<open>C40:
  However the application, its services and their other clients interleave, and whichever calls are lost: as long as the clock does not
  go back, the reported state of the product never does, and heartbeats are numbered upwards; Ready and Running are reported only after
  both services have answered. Once each has answered one call, every later heartbeat from five seconds on reports Running: no client
  can take the mode out of the configuration or the last device out of the registry.
\<close>

theorem product_follows_services:
  assumes "sorted (uptimes ops)" "length ops < 2 ^ 64" "fold product_do ops (product_start t) = s"
  shows "sorted (app_states (fst s)) \<and> sorted_wrt (<) (app_sequences (fst s))
    \<and> (list_ex (\<lambda>v. 2 \<le> v) (app_states (fst s)) \<longrightarrow> config_answered ops \<and> devices_answered ops)
    \<and> (config_answered ops \<and> devices_answered ops \<and> 5000 \<le> ro_uptime_ms obs \<and> ro_heartbeat_sent obs \<longrightarrow>
        (\<exists>b. last (sa_published (fst (product_do (Po_app g q obs) s))) = App_heartbeat b \<and> state_metric b = 3
          \<and> hb_status_message b = ''product_state=Running, product_mode='' @ sa_product_mode (fst s)))"
proof -
  obtain a w where s: "s = (a, w)" by (rule prod.exhaust)
  obtain a' w' where r: "product_do (Po_app g q obs) (a, w) = (a', w')" by (rule prod.exhaust)
  have i: "product_inv ops (a, w)" using product_run_inv [OF assms(1,2), of t] assms(3) s by simp
  then have flags: "services_ok w" "sa_config_ready a = config_answered ops" "sa_devices_ready a = devices_answered ops" by (simp_all add: product_inv_def)
  have "config_answered ops \<and> devices_answered ops" if "v \<in> set (app_states a)" "2 \<le> v" for v
  proof -
    have "2 \<le> ProductStateMetricValue (UpdateProductState (last (uptimes ops)) (sa_config_ready a) (sa_devices_ready a))"
      using i that by (fastforce simp: product_inv_def list_all_iff)
    then show ?thesis using flags by (auto simp: UpdateProductState_def split: if_splits)
  qed
  then have ready: "list_ex (\<lambda>v. 2 \<le> v) (app_states a) \<longrightarrow> config_answered ops \<and> devices_answered ops" by (auto simp: list_ex_iff)
  have run: "\<exists>b. last (sa_published a') = App_heartbeat b \<and> state_metric b = 3
      \<and> hb_status_message b = ''product_state=Running, product_mode='' @ sa_product_mode a"
    if "config_answered ops" "devices_answered ops" "5000 \<le> ro_uptime_ms obs" "ro_heartbeat_sent obs"
  proof -
    have "UpdateProductState (ro_uptime_ms obs) True True = State_kRunning" using that(3) order_trans [of 1000 5000 "ro_uptime_ms obs"] by (simp add: UpdateProductState_def not_less [symmetric])
    then show ?thesis using smart_round_step [OF flags(1) r] flags that by auto
  qed
  show ?thesis using i ready run r by (simp add: product_inv_def s del: product_do.simps)
qed

lemma product_follows_services_witness:
  "let obs = \<lparr>ro_time = 0, ro_uptime_ms = 6000, ro_pid = 1, ro_info_sent = True, ro_heartbeat_sent = True\<rparr>;
       s = fold product_do [Po_app Call_answered Call_answered (obs\<lparr>ro_uptime_ms := 10\<rparr>), Po_config (Round 0 0 0 1)] (product_start 0) in
   \<exists>b. last (sa_published (fst (product_do (Po_app Call_lost Reply_late obs) s))) = App_heartbeat b
     \<and> hb_status_message b = ''product_state=Running, product_mode='' @ sa_product_mode (fst s)"
proof -
  let ?obs = "\<lparr>ro_time = 0, ro_uptime_ms = 6000, ro_pid = 1, ro_info_sent = True, ro_heartbeat_sent = True\<rparr>"
  let ?ops = "[Po_app Call_answered Call_answered (?obs\<lparr>ro_uptime_ms := 10\<rparr>), Po_config (Round 0 0 0 1)]"
  have "sorted (uptimes ?ops)" "length ?ops < 2 ^ 64" "config_answered ?ops" "devices_answered ?ops" by (simp_all add: config_answered_def devices_answered_def)
  with product_follows_services [OF this(1,2) refl, where t = 0 and obs = ?obs and g = Call_lost and q = Reply_late]
  show ?thesis by (auto simp: Let_def simp del: product_do.simps)
qed

text \<open>
  The mode is what the store held when the configuration service first answered; it is asked for once only, so that a later change
  is not reported, and a value that is not a string leaves the mode unknown for good.
\<close>

lemma mode_is_loaded_once:
  assumes "services_ok w" "product_do (Po_app g q obs) (a, w) = (a', w')"
  shows "sa_product_mode a' = (if \<not> sa_config_ready a \<and> g = Call_answered then mode_in w (sa_product_mode a) else sa_product_mode a)"
  using smart_round_step [OF assms] by blast

end
