(* ===== verification/Spec2Isabelle.thy ===== *)
theory Spec2Isabelle
  imports Launch_Instance Parameter_Store Device_Registry Health_Registry Hardware_App Sbus_Scaling Agri_Station Thread_Pool Messaging Log_Sink Host_Monitor Control Network_Uri Osal_Ipc Net_Device Drive_Demos Lpio_Devices Lpio_Moves List_Head Log_Setup Emcom Mqtt_Client Web_Console Smart_Device
begin

text \<open>
  OpenEmber is a runtime for robots. A launch manager starts the programs a launch file
  names, supervises them by their exits and their heartbeats, and answers requests to start, stop and list them.
  System services (configuration, devices, health) keep registries fed by the messages of the other programs.
  The hardware service runs the drivers of a robot and publishes what they measure. A host monitor and a log service
  report on the machine. All programs talk through a publish/subscribe transport and stand on a layer over the operating system.

  \<^bold>\<open>How the theories follow the code\<close> (all paths under src/).

  \<^item> \<open>Prelude\<close>: errors as sums (\<open>exn\<close>, \<open>bindE\<close>), fixed-width integers, decimal printing, ordered maps
    (\<^verbatim>\<open>std::map\<close> with string keys; locale \<open>ordered_map\<close>) and runs of a step function (\<open>run_ops\<close>; locale
    \<open>guarded_machine\<close>: an invariant kept by each step holds after every run). \<open>Float64\<close>, \<open>Float_Bounds\<close>: the type double with rounding to
    nearest even, infinities and NaN (no signed zero), and bounds of its operations (\<open>Float_Exact\<close>: which results are exact). \<open>Text_Input\<close>, \<open>Json_Text\<close>: reading of lines, words and numbers, JSON strings.
    \<open>Messages\<close>: the protocol messages the services exchange.
  \<^item> \<open>Posix_Host\<close>, \<open>Process_Manager\<close>: system/launch\_manager/process\_manager.cpp. The host (fork, exec, kill, waitpid, clocks) is a
    record of functions on an abstract world; \<open>os_ok\<close> states what POSIX documents of them, and \<open>sim_host\<close> is a concrete
    host on which the witnesses run. A process entry is the record \<open>process\<close>, the manager the record \<open>manager\<close>; every method
    of the class is a function on (manager, world).
  \<^item> \<open>Supervision\<close>, \<open>Lifecycle\<close>, \<open>Shutdown\<close>: what the process manager guarantees. The locales \<open>polled\<close>, \<open>started\<close> and \<open>requested\<close>
    each list the commands under which an invariant is kept, from polling alone up to all requests; four
    interpretations give the supervision invariant, the refinement of the event stream to the lifecycle automaton, the
    restart limit and the finality of a requested stop. \<open>Shutdown\<close> has the stop of all processes: its waiting loops are
    \<open>partial_function\<close>s, so that returning is a theorem.
  \<^item> \<open>Launch_Config\<close>: system/launch\_manager/launch\_config.cpp. The YAML library is the record \<open>yaml\<close> of its functions.
  \<^item> \<open>Runtime_Registry\<close>, \<open>Launch_Manager\<close>, \<open>Launch_Instance\<close>: system/launch\_manager/main.cpp. Subscriber and service callbacks run on transport threads, so
    the program is a step function whose steps are one callback or one critical section of the main loop each; a run is
    any interleaving of them. \<open>Launch_Instance\<close> has the start of the program and its locked pid file, with several processes that run it at a time.
  \<^item> \<open>Parameter_Store\<close>, \<open>Device_Registry\<close>, \<open>Health_Registry\<close>: system/config\_service, system/device\_manager and system/health\_monitor
    (main.cpp of each), one step per callback or publication round.
  \<^item> \<open>Joint_Controller\<close>: components/actuator/src/mock\_joint\_controller.cpp, every operation with its guards; \<open>Sensors\<close>:
    components/sensor. A blocking read is split where it waits; the locale \<open>polled_sensor\<close> is what the three drivers promise.
  \<^item> \<open>Hardware_Config\<close>, \<open>Hardware_Adapters\<close>, \<open>Sensor_Endpoints\<close>, \<open>Joint_Endpoint\<close>, \<open>Hardware_App\<close>: services/hardware\_interface. An endpoint owns a
    driver and a thread; its step function interleaves the thread, the subscriber and the program that starts and stops it.
    The three sensor endpoint classes are the same text over different drivers: one model over a record \<open>driver\<close>
    (locale \<open>sensor_driver\<close>) with three interpretations. \<open>endpoint_contract\<close> is what the program relies on of an endpoint.
  \<^item> \<open>Sbus_Reader\<close>, \<open>Sbus_Scaling\<close>: the SBUS receiver of platform/lpio, its frames and the scaling of its channels.
  \<^item> \<open>Lpio_Device\<close>, \<open>Lpio_Serial\<close>, \<open>Lpio_Buses\<close>, \<open>Lpio_Gpio\<close>, \<open>Lpio_Sysfs\<close>, \<open>Lpio_Moves\<close>, \<open>Lpio_Devices\<close>: the other devices of platform/lpio over
    the kernel of \<open>Osal_Io\<close>. The locale \<open>lpio_device\<close> is the contract of the base class as far as descriptors go;
    \<open>single_fd_device\<close> gives it to devices that own one descriptor, \<open>movable_device\<close> adds what a move hands over.
  \<^item> \<open>Checksums\<close>, \<open>Filters\<close>, \<open>Control\<close>: components/algorithm. The templates are over a record of arithmetic operations (\<open>arith\<close>), whose
    instances are doubles, exact numbers and arrays.
  \<^item> \<open>Modbus_Tcp\<close>, \<open>Agri_Registers\<close>, \<open>Agri_Card\<close>, \<open>Agri_Master\<close>, \<open>Agri_Station\<close>: apps/agri\_station\_demo. The register bank, the two sides of a
    request, the acquisition card, the field bus master that polls it and the station that evaluates what the master publishes.
  \<^item> \<open>Drive_Demos\<close>: apps/rover\_demo and apps/turtle\_demo, two simulated vehicles with teleoperation; the loops on the angle are
    \<open>partial_function\<close>s, and it is shown for which commands they end.
  \<^item> \<open>Thread_Pool\<close>: components/thread\_pool, with the workers, submitters and waiters as threads of a step relation.
  \<^item> \<open>Key_Builder\<close>, \<open>Framework\<close>, \<open>Messaging\<close>: core and components/transport: keys of topics, the global context and its
    session, publishers, subscribers, clients and servers of services over a backend that delivers what it is given.
  \<^item> \<open>List_Head\<close>: core/inc/list.h, the intrusive lists over a heap of links. The locales \<open>each_loop\<close> and \<open>safe_loop\<close> are what the loop macros
    promise, with an interpretation for each macro.
  \<^item> \<open>Log_Setup\<close>, \<open>Log_Sink\<close>, \<open>Log_Service\<close>: components/logging with its sinks, of which one publishes log lines, the service that keeps them and the page of
    services/web\_console that lists them. \<open>Host_Monitor\<close>: services/host\_monitor.
  \<^item> \<open>Osal_Io\<close>, \<open>Osal_Sockets\<close>, \<open>Osal_Ipc\<close>, \<open>Osal_Sync\<close>: platform/osal, over a kernel that lets every system call succeed or
    fail as it likes: pipes, FIFOs, sockets, message queues, shared memory, signals; events with several threads that wait, and the
    objects around the thread library. \<open>Network_Uri\<close>, \<open>Net_Device\<close>: components/network and
    components/netdev, sockets opened by name and the settings of network interfaces.
  \<^item> \<open>Web_Console\<close>: services/web\_console/main.cpp, its pages about the machine, its request to the log service, its answers. Pages are
    judged by the reader of JSON in \<open>Json_Values\<close>. \<open>Smart_Device\<close>: apps/smart\_device\_demo, an application together with the models of
    the configuration service and the device manager that it calls.
  \<^item> \<open>Emcom\<close>: tools/emcom/main.cpp, its options, the sending of a file and the console, two threads that share the port.
    \<open>Mqtt_Client\<close>: components/mqtt over the calls of the MQTT library.

  \<^bold>\<open>What the lemmas show.\<close> Invariants of each state machine over all interleavings; the exact effect of each operation,
  refusals included; that answers belong to their requests; that queries return exactly what matches; refinement of the event
  stream and of the registries by abstract specifications; that loading accepts only well-formed files; round trips of what is printed and
  parsed, sent and received; that stopping returns and leaves nothing running, powered or published; that failed operations
  leave no descriptor open. Where the code falls short of its contract, the theorem states what holds and shows the exception.

  \<^bold>\<open>Bounds.\<close> Counters, identifiers and times are words of the width the code gives them, times of the steady clock are
  integers in nanoseconds. Where the code waits for a thread to end (\<^verbatim>\<open>join\<close>), the model takes the remaining steps of that thread
  as arguments and a theorem bounds them: two steps for a sensor endpoint and four for the joint endpoint always
  suffice. Placeholder expansion in the launch file has no bound: it is shown to end. Loops around system calls end because the
  calls to come are a finite list, at the end of which a call fails.

  \<^bold>\<open>Parameters.\<close> The YAML library, the operating system and its files, clocks and times at which operations run, name resolution, sine and cosine of the C
  library, the serial port, and the backend of the transport are arguments of the definitions.

  \<^bold>\<open>Not modelled.\<close> The transport's backend and the MQTT and YAML libraries (third-party), the generated message classes (a
  submodule), the start of the web console, graphical views, the sensors of the other demos, examples
  and tests. The manifest of the development names each with its reason. Integer instances of the algorithm templates are left
  out too. A data race of the code would be undefined behaviour; the interleavings assume that what is guarded by a mutex in
  the code is atomic.
\<close>

end
